(* ===== verification/Prelude.thy ===== *)
theory Prelude
  imports Main "HOL-Library.List_Lexorder" "HOL-Library.Product_Lexorder"
begin

text \<open>
  Shared vocabulary of the development.

  A Python \<open>str\<close> is a list of Unicode code points (\<open>ustr\<close>); \<open>u ''abc''\<close> writes an ASCII
  literal. Whether a code point is white space, a control character or a line separator, and
  how many bytes its UTF-8 form has, follows the Unicode data Python ships, so the validators
  of \<^verbatim>\<open>termroom/db.py\<close> count what the program counts.

  An operation that may raise returns \<open>error + 'a\<close> (\<open>Inl\<close> the exception); \<open>rbind\<close> sequences
  two of them, the second running only where the first returned.
\<close>

named_theorems step_simps \<open>unfolding rules of a component's operations\<close>
named_theorems inv_intros \<open>preservation of a component's invariant by its operations\<close>

section \<open>Text\<close>

type_synonym ustr = "nat list"

definition u :: "string \<Rightarrow> ustr" where
  "u s = map of_char s"

lemma u_eq_iff [simp]: "u s = u t \<longleftrightarrow> s = t"
proof -
  have "inj (of_char :: char \<Rightarrow> nat)"
    by (rule injI) (simp add: of_char_eq_iff)
  then show ?thesis by (simp add: u_def inj_map_eq_map)
qed

lemma u_Nil_iff [simp]: "u s = [] \<longleftrightarrow> s = []" "[] = u s \<longleftrightarrow> s = []"
  by (auto simp: u_def)

lemma length_u [simp]: "length (u s) = length s"
  by (simp add: u_def)

definition is_space :: "nat \<Rightarrow> bool" where
  "is_space c \<longleftrightarrow> c \<in> {9..13} \<or> c \<in> {28..32} \<or> c \<in> {0x85, 0xA0, 0x1680}
     \<or> c \<in> {0x2000..0x200A} \<or> c \<in> {0x2028, 0x2029, 0x202F, 0x205F, 0x3000}"

text \<open>\<open>str.strip()\<close> and \<open>str.split()\<close> without arguments.\<close>

definition strip :: "ustr \<Rightarrow> ustr" where
  "strip s = rev (dropWhile is_space (rev (dropWhile is_space s)))"

fun split_ws_aux :: "ustr \<Rightarrow> ustr \<Rightarrow> ustr list" where
  "split_ws_aux acc [] = (if acc = [] then [] else [rev acc])"
| "split_ws_aux acc (c # cs) =
     (if is_space c then (if acc = [] then split_ws_aux [] cs else rev acc # split_ws_aux [] cs)
      else split_ws_aux (c # acc) cs)"

definition split_ws :: "ustr \<Rightarrow> ustr list" where
  "split_ws s = split_ws_aux [] s"

text \<open>\<open>sep.join(parts)\<close>.\<close>

fun join :: "ustr \<Rightarrow> ustr list \<Rightarrow> ustr" where
  "join sep [] = []"
| "join sep [p] = p"
| "join sep (p # ps) = p @ sep @ join sep ps"

text \<open>
  The code points of the Unicode categories Cc, Zl and Zp, and the length of a code point in
  UTF-8; a lone surrogate has no UTF-8 form (Python raises \<open>UnicodeEncodeError\<close>, a
  \<open>ValueError\<close>).
\<close>

definition is_line_control :: "nat \<Rightarrow> bool" where
  "is_line_control c \<longleftrightarrow> c < 32 \<or> c \<in> {127..159} \<or> c = 0x2028 \<or> c = 0x2029"

definition is_surrogate :: "nat \<Rightarrow> bool" where
  "is_surrogate c \<longleftrightarrow> c \<in> {0xD800..0xDFFF}"

definition utf8_width :: "nat \<Rightarrow> nat" where
  "utf8_width c = (if c < 0x80 then 1 else if c < 0x800 then 2 else if c < 0x10000 then 3 else 4)"

definition utf8_length :: "ustr \<Rightarrow> nat option" where
  "utf8_length s = (if list_ex is_surrogate s then None else Some (sum_list (map utf8_width s)))"

text \<open>SQLite's NOCASE collation folds the ASCII letters only.\<close>

definition nocase :: "ustr \<Rightarrow> ustr" where
  "nocase = map (\<lambda>c. if c \<in> {65..90} then c + 32 else c)"

definition starts_with :: "ustr \<Rightarrow> ustr \<Rightarrow> bool" where
  "starts_with p s \<longleftrightarrow> take (length p) s = p"

lemma starts_with_append [simp]: "starts_with p (p @ s)"
  by (simp add: starts_with_def)

lemma dropWhile_is_space_hd: "dropWhile is_space s = c # cs \<Longrightarrow> \<not> is_space c"
  by (induction s) (auto split: if_splits)

lemma set_strip: "set (strip s) \<subseteq> set s"
  by (auto simp: strip_def dest!: set_dropWhileD)

lemma strip_strip [simp]: "strip (strip s) = strip s"
proof (cases "dropWhile is_space (rev (dropWhile is_space s))")
  case Nil
  have "strip [] = []" by (simp add: strip_def)
  moreover from Nil have "strip s = []" unfolding strip_def by (simp only: rev.simps)
  ultimately show ?thesis by simp
next
  case (Cons c cs)
  let ?r = "dropWhile is_space (rev (dropWhile is_space s))"
  obtain p where p: "rev (dropWhile is_space s) = p @ ?r"
    by (metis takeWhile_dropWhile_id)
  then have d: "dropWhile is_space s = rev ?r @ rev p"
    by (metis rev_append rev_rev_ident)
  from Cons obtain h t where ht: "rev ?r = h # t" by (cases "rev ?r") auto
  from d ht have "\<not> is_space h" by (intro dropWhile_is_space_hd) simp
  with ht have "dropWhile is_space (rev ?r) = rev ?r" by simp
  then have "strip (rev ?r) = rev (dropWhile is_space ?r)" by (simp add: strip_def)
  with Cons show ?thesis
    by (metis dropWhile_idem strip_def)
qed

text \<open>\<open>list(dict.fromkeys(xs))\<close>: the distinct items in the order of their first occurrence.\<close>

fun dict_keys :: "'a list \<Rightarrow> 'a list" where
  "dict_keys [] = []"
| "dict_keys (x # xs) = x # filter (\<lambda>y. y \<noteq> x) (dict_keys xs)"

lemma set_dict_keys [simp]: "set (dict_keys xs) = set xs"
  by (induction xs) auto

lemma distinct_dict_keys [simp]: "distinct (dict_keys xs)"
  by (induction xs) auto

section \<open>Results\<close>

definition rbind :: "'e + 'a \<Rightarrow> ('a \<Rightarrow> 'e + 'b) \<Rightarrow> 'e + 'b" where
  "rbind m f = (case m of Inl e \<Rightarrow> Inl e | Inr x \<Rightarrow> f x)"

lemma rbind_simps [simp]: "rbind (Inl e) f = Inl e" "rbind (Inr x) f = f x"
  by (simp_all add: rbind_def)

lemma rbind_Inr_iff: "rbind m f = Inr y \<longleftrightarrow> (\<exists>x. m = Inr x \<and> f x = Inr y)"
  by (cases m) auto

lemma rbind_Inl_iff: "rbind m f = Inl e \<longleftrightarrow> m = Inl e \<or> (\<exists>x. m = Inr x \<and> f x = Inl e)"
  by (cases m) auto

text \<open>The first error of a list of checked items, or all their values (a Python loop that
  raises on the first bad item).\<close>

fun traverse :: "('a \<Rightarrow> 'e + 'b) \<Rightarrow> 'a list \<Rightarrow> 'e + 'b list" where
  "traverse f [] = Inr []"
| "traverse f (x # xs) = rbind (f x) (\<lambda>y. rbind (traverse f xs) (\<lambda>ys. Inr (y # ys)))"

text \<open>Running one step per item, stopping at the first error.\<close>

fun each :: "('a \<Rightarrow> 's \<Rightarrow> 'e + 's) \<Rightarrow> 'a list \<Rightarrow> 's \<Rightarrow> 'e + 's" where
  "each f [] s = Inr s"
| "each f (x # xs) s = rbind (f x s) (each f xs)"

lemma each_invariant:
  assumes "each f xs s = Inr s'" and "P s"
    and "\<And>x s s'. x \<in> set xs \<Longrightarrow> f x s = Inr s' \<Longrightarrow> P s \<Longrightarrow> P s'"
  shows "P s'"
  using assms
proof (induction xs arbitrary: s)
  case (Cons x xs)
  from Cons.prems(1) obtain s1 where "f x s = Inr s1" "each f xs s1 = Inr s'"
    by (auto simp: rbind_Inr_iff)
  with Cons show ?case by (metis list.set_intros)
qed simp

lemma traverse_Inr_map: "traverse f xs = Inr ys \<Longrightarrow> map f xs = map Inr ys"
  by (induction xs arbitrary: ys) (auto simp: rbind_Inr_iff)

section \<open>Lists as tables\<close>

text \<open>
  A table is the list of its rows in row order. \<open>update_where\<close> and \<open>filter\<close> are
  \<^verbatim>\<open>UPDATE ... WHERE\<close> and \<^verbatim>\<open>DELETE ... WHERE\<close>; the number of rows that match is the cursor's
  \<open>rowcount\<close>.
\<close>

definition update_where :: "('r \<Rightarrow> bool) \<Rightarrow> ('r \<Rightarrow> 'r) \<Rightarrow> 'r list \<Rightarrow> 'r list" where
  "update_where p f rs = map (\<lambda>r. if p r then f r else r) rs"

definition rowcount :: "('r \<Rightarrow> bool) \<Rightarrow> 'r list \<Rightarrow> nat" where
  "rowcount p rs = length (filter p rs)"

definition sql_limit :: "int \<Rightarrow> 'a list \<Rightarrow> 'a list" where
  "sql_limit n xs = (if n < 0 then xs else take (nat n) xs)"

lemma update_where_simps [simp]:
  "update_where p f [] = []"
  "update_where p f (r # rs) = (if p r then f r else r) # update_where p f rs"
  by (simp_all add: update_where_def)

lemma length_update_where [simp]: "length (update_where p f rs) = length rs"
  by (simp add: update_where_def)

lemma set_update_where: "set (update_where p f rs) = (\<lambda>r. if p r then f r else r) ` set rs"
  by (simp add: update_where_def)

lemma map_update_where_same:
  "(\<And>r. p r \<Longrightarrow> k (f r) = k r) \<Longrightarrow> map k (update_where p f rs) = map k rs"
  by (simp add: update_where_def)

lemma update_where_none: "(\<And>r. r \<in> set rs \<Longrightarrow> \<not> p r) \<Longrightarrow> update_where p f rs = rs"
  by (induction rs) auto

lemma rowcount_zero_iff [simp]: "rowcount p rs = 0 \<longleftrightarrow> (\<forall>r \<in> set rs. \<not> p r)"
  by (simp add: rowcount_def filter_empty_conv)

lemma distinct_map_filter_id: "distinct (map k rs) \<Longrightarrow> distinct (map k (filter p rs))"
  by (rule distinct_map_filter)

lemma find_Some_iff_unique:
  assumes "distinct (map k rs)"
  shows "find (\<lambda>r. k r = x) rs = Some r \<longleftrightarrow> r \<in> set rs \<and> k r = x"
  using assms
  by (induction rs) (auto simp: image_iff)

lemma find_SomeD: "find p rs = Some r \<Longrightarrow> r \<in> set rs \<and> p r"
  by (induction rs) (auto split: if_splits)

lemma find_NoneD: "find p rs = None \<Longrightarrow> r \<in> set rs \<Longrightarrow> \<not> p r"
  by (auto simp: find_None_iff)

lemma rowcount_unique:
  assumes "distinct (map k rs)"
  shows "rowcount (\<lambda>r. k r = x \<and> q r) rs = (if \<exists>r \<in> set rs. k r = x \<and> q r then 1 else 0)"
  using assms
proof (induction rs)
  case Nil
  then show ?case by (simp add: rowcount_def)
next
  case (Cons r rs)
  then have IH: "rowcount (\<lambda>r. k r = x \<and> q r) rs = (if \<exists>r \<in> set rs. k r = x \<and> q r then 1 else 0)"
    and new: "k r \<notin> k ` set rs" by auto
  show ?case
  proof (cases "k r = x")
    case True
    with new have "\<forall>r' \<in> set rs. k r' \<noteq> x" by (auto simp: image_iff)
    with IH True show ?thesis by (auto simp: rowcount_def)
  next
    case False
    with IH show ?thesis by (auto simp: rowcount_def)
  qed
qed

section \<open>Executions of a component\<close>

text \<open>
  A component is a state and a deterministic step per operation; a run is a list of operations.
  \<open>admissible\<close> says that each operation of the run is allowed where it happens (its fresh
  identifiers are fresh there, its caller kept the documented contract).
\<close>

fun admissible :: "('op \<Rightarrow> 's \<Rightarrow> bool) \<Rightarrow> ('op \<Rightarrow> 's \<Rightarrow> 's) \<Rightarrow> 'op list \<Rightarrow> 's \<Rightarrow> bool" where
  "admissible ok exec [] s \<longleftrightarrow> True"
| "admissible ok exec (op # ops) s \<longleftrightarrow> ok op s \<and> admissible ok exec ops (exec op s)"

locale machine =
  fixes start :: 's and exec :: "'op \<Rightarrow> 's \<Rightarrow> 's" and ok :: "'op \<Rightarrow> 's \<Rightarrow> bool" and inv :: "'s \<Rightarrow> bool"
  assumes inv_start: "inv start"
    and inv_step: "inv s \<Longrightarrow> ok op s \<Longrightarrow> inv (exec op s)"
begin

lemma inv_run: "inv s \<Longrightarrow> admissible ok exec ops s \<Longrightarrow> inv (fold exec ops s)"
  by (induction ops arbitrary: s) (auto intro: inv_step)

lemma inv_from_start: "admissible ok exec ops start \<Longrightarrow> inv (fold exec ops start)"
  by (rule inv_run [OF inv_start])

end

text \<open>A fact that no allowed operation takes back.\<close>

locale lasting_fact =
  fixes exec :: "'op \<Rightarrow> 's \<Rightarrow> 's" and allowed :: "'op \<Rightarrow> bool" and fact :: "'s \<Rightarrow> bool"
  assumes fact_step: "fact s \<Longrightarrow> allowed op \<Longrightarrow> fact (exec op s)"
begin

lemma fact_run: "fact s \<Longrightarrow> \<forall>op \<in> set ops. allowed op \<Longrightarrow> fact (fold exec ops s)"
  by (induction ops arbitrary: s) (auto intro: fact_step)

end

text \<open>A counter of the state that no operation lowers.\<close>

locale monotone_counter =
  fixes exec :: "'op \<Rightarrow> 's \<Rightarrow> 's" and m :: "'s \<Rightarrow> int"
  assumes m_step: "m s \<le> m (exec op s)"
begin

lemma m_run: "m s \<le> m (fold exec ops s)"
proof (induction ops arbitrary: s)
  case (Cons op ops)
  have "m s \<le> m (exec op s)" by (rule m_step)
  also have "\<dots> \<le> m (fold exec ops (exec op s))" by (rule Cons.IH)
  finally show ?case by simp
qed simp

lemma m_run_split:
  assumes "m (fold exec (pre @ op # post) s) = m s"
  shows "m (exec op (fold exec pre s)) = m (fold exec pre s)"
  using assms m_run [of s pre] m_step [of "fold exec pre s" op]
    m_run [of "exec op (fold exec pre s)" post]
  by simp

end

end
