(* ===== verification/Terminal_Control.thy ===== *)
theory Terminal_Control
  imports Prelude
begin

text \<open>
  \<^verbatim>\<open>termroom/terminal_control.py\<close>: which browser connection may type into a terminal and
  which one owns the size of the shared character grid.

  \<open>tc_state\<close> has one field per private dictionary or set of \<open>TerminalControl\<close>; every method
  runs under the object's lock, so it is one atomic step and an execution is a list of
  operations (\<open>tc_op\<close>). A \<open>uuid4\<close> is an argument of the operation that draws it. An
  \<open>asyncio.Lock\<close> is the Boolean "is it held".
\<close>

section \<open>State\<close>

record resize_plan =
  p_terminal :: ustr
  p_client :: ustr
  p_rows :: int
  p_cols :: int
  p_revision :: int
  p_token :: ustr
  p_bootstrap :: bool
  p_apply :: bool

record tc_state =
  controllers :: "ustr \<rightharpoonup> ustr"
  control_revisions :: "ustr \<rightharpoonup> int"
  input_locks :: "ustr \<rightharpoonup> bool"
  clients :: "ustr \<rightharpoonup> ustr list"
  client_devices :: "ustr \<rightharpoonup> (ustr \<rightharpoonup> ustr)"
  input_owners :: "ustr \<rightharpoonup> ustr"
  bootstrap_pending :: "ustr set"
  bootstrap_owners :: "ustr \<rightharpoonup> ustr"
  input_revisions :: "ustr \<rightharpoonup> int"
  last_input_devices :: "ustr \<rightharpoonup> ustr"
  applied_resizes :: "ustr \<rightharpoonup> (ustr \<times> int \<times> int)"
  resize_plans :: "ustr \<rightharpoonup> resize_plan"
  bootstrap_applied :: "ustr set"
  applied_plan_tokens :: "ustr set"

definition tc_init :: tc_state where
  "tc_init = \<lparr>controllers = Map.empty, control_revisions = Map.empty, input_locks = Map.empty,
     clients = Map.empty, client_devices = Map.empty, input_owners = Map.empty,
     bootstrap_pending = {}, bootstrap_owners = Map.empty, input_revisions = Map.empty,
     last_input_devices = Map.empty, applied_resizes = Map.empty, resize_plans = Map.empty,
     bootstrap_applied = {}, applied_plan_tokens = {}\<rparr>"

text \<open>\<open>d.get(k, default)\<close> and \<open>d.pop(k, None)\<close>.\<close>

definition get_or :: "'v \<Rightarrow> ('k \<rightharpoonup> 'v) \<Rightarrow> 'k \<Rightarrow> 'v" where
  "get_or d m k = (case m k of None \<Rightarrow> d | Some v \<Rightarrow> v)"

definition pop :: "'k \<Rightarrow> ('k \<rightharpoonup> 'v) \<Rightarrow> ('k \<rightharpoonup> 'v)" where
  "pop k m = m(k := None)"

definition bump :: "'k \<Rightarrow> ('k \<rightharpoonup> int) \<Rightarrow> ('k \<rightharpoonup> int)" where
  "bump k m = m(k \<mapsto> get_or 0 m k + 1)"

abbreviation clients_of :: "tc_state \<Rightarrow> ustr \<Rightarrow> ustr list" where
  "clients_of s t \<equiv> get_or [] (clients s) t"

lemma get_or_upd [simp]: "get_or d (m(k := w)) j = (if j = k then (case w of None \<Rightarrow> d | Some v \<Rightarrow> v) else get_or d m j)"
  by (simp add: get_or_def)

lemma pop_apply [simp]: "pop k m j = (if j = k then None else m j)"
  by (simp add: pop_def)

lemma get_or_pop [simp]: "get_or d (pop k m) j = (if j = k then d else get_or d m j)"
  by (simp add: get_or_def)

lemma get_or_bump [simp]: "get_or 0 (bump k m) j = (if j = k then get_or 0 m j + 1 else get_or 0 m j)"
  by (simp add: bump_def)

section \<open>Operations\<close>

definition register :: "ustr \<Rightarrow> ustr \<Rightarrow> ustr \<Rightarrow> tc_state \<Rightarrow> tc_state" where
  "register t device_id client_id s =
    (let safe_device_id = strip device_id;
         cs = clients_of s t;
         s1 = (if cs = [] then s\<lparr>controllers := (controllers s)(t \<mapsto> client_id),
                                  control_revisions := bump t (control_revisions s)\<rparr> else s);
         s2 = s1\<lparr>clients := (clients s1)(t \<mapsto> cs @ [client_id])\<rparr>;
         s3 = (if safe_device_id \<noteq> []
               then s2\<lparr>client_devices := (client_devices s2)
                         (t \<mapsto> (get_or Map.empty (client_devices s2) t)(client_id \<mapsto> safe_device_id))\<rparr>
               else s2)
     in if t \<in> bootstrap_pending s3 \<and> input_owners s3 t = None \<and> bootstrap_owners s3 t = None
           \<and> resize_plans s3 t = None
        then s3\<lparr>bootstrap_owners := (bootstrap_owners s3)(t \<mapsto> client_id)\<rparr> else s3)"

definition input_lock :: "ustr \<Rightarrow> tc_state \<Rightarrow> tc_state" where
  "input_lock t s =
    (if input_locks s t = None then s\<lparr>input_locks := (input_locks s)(t \<mapsto> False)\<rparr> else s)"

definition can_input :: "tc_state \<Rightarrow> ustr \<Rightarrow> ustr \<Rightarrow> bool" where
  "can_input s t client_id \<longleftrightarrow> controllers s t = Some client_id"

definition claim_control :: "ustr \<Rightarrow> ustr \<Rightarrow> tc_state \<Rightarrow> tc_state" where
  "claim_control t client_id s =
    (if client_id \<notin> set (clients_of s t) then s
     else if controllers s t \<noteq> Some client_id
       then s\<lparr>controllers := (controllers s)(t \<mapsto> client_id),
              control_revisions := bump t (control_revisions s),
              input_owners := pop t (input_owners s)\<rparr>
     else s)"

record control_view =
  cv_terminal_id :: ustr
  cv_generation :: ustr
  cv_controller_client_id :: ustr
  cv_control_revision :: int

definition control_state :: "tc_state \<Rightarrow> ustr \<Rightarrow> ustr \<Rightarrow> control_view" where
  "control_state s t client_id =
    \<lparr>cv_terminal_id = t, cv_generation = client_id,
     cv_controller_client_id = get_or [] (controllers s) t,
     cv_control_revision = get_or 0 (control_revisions s) t\<rparr>"

definition mark_grid_fresh :: "ustr \<Rightarrow> ustr \<Rightarrow> tc_state \<Rightarrow> tc_state" where
  "mark_grid_fresh t client_id s =
    (let s1 = s\<lparr>bootstrap_pending := insert t (bootstrap_pending s)\<rparr>
     in if client_id \<noteq> [] \<and> client_id \<in> set (clients_of s1 t) \<and> input_owners s1 t = None
           \<and> bootstrap_owners s1 t = None
        then s1\<lparr>bootstrap_owners := (bootstrap_owners s1)(t \<mapsto> client_id)\<rparr> else s1)"

definition mark_input :: "ustr \<Rightarrow> ustr \<Rightarrow> ustr \<Rightarrow> tc_state \<Rightarrow> tc_state" where
  "mark_input t client_id device_id s =
    (if client_id \<in> set (clients_of s t) then
       let s1 = s\<lparr>input_owners := (input_owners s)(t \<mapsto> client_id),
                  bootstrap_pending := bootstrap_pending s - {t},
                  bootstrap_owners := pop t (bootstrap_owners s),
                  input_revisions := bump t (input_revisions s)\<rparr>
       in if device_id \<noteq> [] then s1\<lparr>last_input_devices := (last_input_devices s1)(t \<mapsto> device_id)\<rparr>
          else s1
     else s)"

definition mark_grid_existing :: "ustr \<Rightarrow> tc_state \<Rightarrow> tc_state" where
  "mark_grid_existing t s = s\<lparr>bootstrap_pending := bootstrap_pending s - {t},
                               bootstrap_owners := pop t (bootstrap_owners s)\<rparr>"

definition resize_owner :: "tc_state \<Rightarrow> ustr \<Rightarrow> ustr option" where
  "resize_owner s t =
    (let cs = clients_of s t in
     if cs = [] then None
     else case input_owners s t of
       Some c \<Rightarrow> if c \<in> set cs then Some c
                 else (case bootstrap_owners s t of
                         Some b \<Rightarrow> if b \<in> set cs \<and> t \<notin> bootstrap_applied s then Some b else None
                       | None \<Rightarrow> None)
     | None \<Rightarrow> (case bootstrap_owners s t of
                  Some b \<Rightarrow> if b \<in> set cs \<and> t \<notin> bootstrap_applied s then Some b else None
                | None \<Rightarrow> None))"

definition can_resize :: "tc_state \<Rightarrow> ustr \<Rightarrow> ustr \<Rightarrow> bool" where
  "can_resize s t client_id \<longleftrightarrow> resize_owner s t = Some client_id"

definition tc_resize_plan :: "tc_state \<Rightarrow> ustr \<Rightarrow> ustr \<Rightarrow> int \<Rightarrow> int \<Rightarrow> bool \<times> bool" where
  "tc_resize_plan s t client_id rows cols =
    (if resize_owner s t \<noteq> Some client_id then (False, False)
     else if applied_resizes s t = Some (client_id, rows, cols) then (True, False)
     else (True, True))"

definition should_resize :: "tc_state \<Rightarrow> ustr \<Rightarrow> ustr \<Rightarrow> int \<Rightarrow> int \<Rightarrow> bool" where
  "should_resize s t client_id rows cols = snd (tc_resize_plan s t client_id rows cols)"

definition begin_resize ::
  "ustr \<Rightarrow> ustr \<Rightarrow> int \<Rightarrow> int \<Rightarrow> ustr \<Rightarrow> tc_state \<Rightarrow> resize_plan option \<times> tc_state" where
  "begin_resize t client_id rows cols token s =
    (if resize_owner s t \<noteq> Some client_id \<or> resize_plans s t \<noteq> None then (None, s)
     else let plan = \<lparr>p_terminal = t, p_client = client_id, p_rows = rows, p_cols = cols,
                      p_revision = get_or 0 (input_revisions s) t, p_token = token,
                      p_bootstrap = (bootstrap_owners s t = Some client_id),
                      p_apply = (applied_resizes s t \<noteq> Some (client_id, rows, cols))\<rparr>
          in (Some plan, s\<lparr>resize_plans := (resize_plans s)(t \<mapsto> plan)\<rparr>))"

definition plan_current :: "tc_state \<Rightarrow> resize_plan \<Rightarrow> bool" where
  "plan_current s plan \<longleftrightarrow>
    (let t = p_terminal plan;
         owner = (if p_bootstrap plan then bootstrap_owners s t else input_owners s t)
     in resize_plans s t = Some plan \<and> p_client plan \<in> set (clients_of s t)
        \<and> owner = Some (p_client plan) \<and> get_or 0 (input_revisions s) t = p_revision plan)"

definition resize_applied :: "resize_plan \<Rightarrow> tc_state \<Rightarrow> bool \<times> tc_state" where
  "resize_applied plan s =
    (let t = p_terminal plan in
     if resize_plans s t \<noteq> Some plan then (False, s)
     else let s1 = s\<lparr>applied_plan_tokens := insert (p_token plan) (applied_plan_tokens s)\<rparr>;
              s2 = (if p_bootstrap plan
                    then s1\<lparr>bootstrap_pending := bootstrap_pending s1 - {t},
                            bootstrap_applied := insert t (bootstrap_applied s1)\<rparr>
                    else s1)
          in (plan_current s2 plan, s2))"

definition commit_resize :: "resize_plan \<Rightarrow> tc_state \<Rightarrow> bool \<times> tc_state" where
  "commit_resize plan s =
    (let t = p_terminal plan in
     if \<not> plan_current s plan then (False, s)
     else if p_apply plan \<and> p_token plan \<notin> applied_plan_tokens s then (False, s)
     else if p_bootstrap plan \<and> t \<notin> bootstrap_applied s then (False, s)
     else let s1 = s\<lparr>applied_resizes := (applied_resizes s)(t \<mapsto> (p_client plan, p_rows plan, p_cols plan)),
                     resize_plans := pop t (resize_plans s),
                     applied_plan_tokens := applied_plan_tokens s - {p_token plan}\<rparr>;
              s2 = (if p_bootstrap plan
                    then s1\<lparr>bootstrap_pending := bootstrap_pending s1 - {t},
                            bootstrap_owners := pop t (bootstrap_owners s1),
                            bootstrap_applied := bootstrap_applied s1 - {t}\<rparr>
                    else s1)
          in (True, s2))"

definition abort_resize :: "resize_plan \<Rightarrow> tc_state \<Rightarrow> tc_state" where
  "abort_resize plan s =
    (let t = p_terminal plan in
     if resize_plans s t \<noteq> Some plan then s
     else let s1 = s\<lparr>resize_plans := pop t (resize_plans s),
                     applied_plan_tokens := applied_plan_tokens s - {p_token plan}\<rparr>
          in if p_bootstrap plan \<and> t \<in> bootstrap_applied s1
             then s1\<lparr>bootstrap_owners := pop t (bootstrap_owners s1),
                     bootstrap_applied := bootstrap_applied s1 - {t}\<rparr>
             else case (t \<in> bootstrap_pending s1 \<and> bootstrap_owners s1 t = None, clients_of s1 t) of
                    (True, c # _) \<Rightarrow> s1\<lparr>bootstrap_owners := (bootstrap_owners s1)(t \<mapsto> c)\<rparr>
                  | _ \<Rightarrow> s1)"

text \<open>
  \<open>unregister\<close> in its three parts: the removed client's own entries (\<open>remove_client\<close>), what goes
  when the last client went (\<open>close_terminal\<close>), and what the removed client hands over to the
  others (\<open>release_client\<close>).
\<close>

definition drop_terminal_state :: "ustr \<Rightarrow> tc_state \<Rightarrow> tc_state" where
  "drop_terminal_state t s =
    s\<lparr>client_devices := pop t (client_devices s), input_owners := pop t (input_owners s),
      bootstrap_owners := pop t (bootstrap_owners s), applied_resizes := pop t (applied_resizes s)\<rparr>"

definition remove_client :: "ustr \<Rightarrow> ustr \<Rightarrow> tc_state \<Rightarrow> tc_state" where
  "remove_client t client_id s =
    (let s1 = s\<lparr>clients := (clients s)(t \<mapsto> remove1 client_id (clients_of s t))\<rparr>;
         s2 = (if controllers s1 t = Some client_id
               then s1\<lparr>controllers := pop t (controllers s1),
                       control_revisions := bump t (control_revisions s1)\<rparr> else s1)
     in case client_devices s2 t of
          None \<Rightarrow> s2
        | Some m \<Rightarrow> s2\<lparr>client_devices := (client_devices s2)(t \<mapsto> pop client_id m)\<rparr>)"

definition close_terminal :: "ustr \<Rightarrow> tc_state \<Rightarrow> tc_state" where
  "close_terminal t s =
    (let s1 = s\<lparr>clients := pop t (clients s)\<rparr>;
         s2 = (if input_locks s1 t = Some False
               then s1\<lparr>input_locks := pop t (input_locks s1)\<rparr> else s1)
     in drop_terminal_state t s2)"

definition release_client :: "ustr \<Rightarrow> ustr \<Rightarrow> tc_state \<Rightarrow> tc_state" where
  "release_client t client_id s =
    (let s1 = (if input_owners s t = Some client_id
               then s\<lparr>input_owners := pop t (input_owners s)\<rparr> else s);
         s2 = (if bootstrap_owners s1 t = Some client_id
               then if t \<in> bootstrap_pending s1 \<and> resize_plans s1 t = None
                    then s1\<lparr>bootstrap_owners := (bootstrap_owners s1)(t \<mapsto> hd (clients_of s1 t))\<rparr>
                    else s1\<lparr>bootstrap_owners := pop t (bootstrap_owners s1)\<rparr>
               else s1)
     in case applied_resizes s2 t of
          Some (c, _) \<Rightarrow> if c = client_id then s2\<lparr>applied_resizes := pop t (applied_resizes s2)\<rparr> else s2
        | None \<Rightarrow> s2)"

definition unregister :: "ustr \<Rightarrow> ustr \<Rightarrow> tc_state \<Rightarrow> tc_state" where
  "unregister t client_id s =
    (if clients_of s t = [] then drop_terminal_state t s
     else if client_id \<notin> set (clients_of s t) then s
     else let s1 = remove_client t client_id s
          in if clients_of s1 t = [] then close_terminal t s1 else release_client t client_id s1)"

definition client_count :: "tc_state \<Rightarrow> ustr \<Rightarrow> nat" where
  "client_count s t = length (clients_of s t)"

record presence_view =
  pv_count :: nat
  pv_input_revision :: int
  pv_last_input_device_id :: ustr
  pv_controller_client_id :: ustr
  pv_control_revision :: int

definition presence :: "tc_state \<Rightarrow> ustr \<Rightarrow> presence_view" where
  "presence s t =
    (let cs = clients_of s t;
         devices = get_or Map.empty (client_devices s) t;
         device_of = (\<lambda>c. get_or [] devices c);
         known_devices = remdups (filter (\<lambda>d. d \<noteq> []) (map device_of cs));
         anonymous_clients = length (filter (\<lambda>c. device_of c = []) cs)
     in \<lparr>pv_count = length known_devices + anonymous_clients,
         pv_input_revision = get_or 0 (input_revisions s) t,
         pv_last_input_device_id = get_or [] (last_input_devices s) t,
         pv_controller_client_id = get_or [] (controllers s) t,
         pv_control_revision = get_or 0 (control_revisions s) t\<rparr>)"

section \<open>What each operation does to each field\<close>

lemma register_fields [simp]:
  "clients (register t d c s) = (clients s)(t \<mapsto> clients_of s t @ [c])"
  "controllers (register t d c s) =
     (if clients_of s t = [] then (controllers s)(t \<mapsto> c) else controllers s)"
  "control_revisions (register t d c s) =
     (if clients_of s t = [] then bump t (control_revisions s) else control_revisions s)"
  "input_owners (register t d c s) = input_owners s"
  "input_revisions (register t d c s) = input_revisions s"
  "applied_resizes (register t d c s) = applied_resizes s"
  "resize_plans (register t d c s) = resize_plans s"
  "bootstrap_pending (register t d c s) = bootstrap_pending s"
  "bootstrap_applied (register t d c s) = bootstrap_applied s"
  "applied_plan_tokens (register t d c s) = applied_plan_tokens s"
  "bootstrap_owners (register t d c s) =
     (if t \<in> bootstrap_pending s \<and> input_owners s t = None \<and> bootstrap_owners s t = None
        \<and> resize_plans s t = None then (bootstrap_owners s)(t \<mapsto> c) else bootstrap_owners s)"
  "client_devices (register t d c s) =
     (if strip d \<noteq> [] then (client_devices s)(t \<mapsto> (get_or Map.empty (client_devices s) t)(c \<mapsto> strip d))
      else client_devices s)"
  by (auto simp: register_def Let_def)

lemma drop_terminal_state_fields [simp]:
  "clients (drop_terminal_state t s) = clients s"
  "controllers (drop_terminal_state t s) = controllers s"
  "control_revisions (drop_terminal_state t s) = control_revisions s"
  "input_owners (drop_terminal_state t s) = pop t (input_owners s)"
  "input_revisions (drop_terminal_state t s) = input_revisions s"
  "applied_resizes (drop_terminal_state t s) = pop t (applied_resizes s)"
  "resize_plans (drop_terminal_state t s) = resize_plans s"
  "bootstrap_pending (drop_terminal_state t s) = bootstrap_pending s"
  "bootstrap_applied (drop_terminal_state t s) = bootstrap_applied s"
  "applied_plan_tokens (drop_terminal_state t s) = applied_plan_tokens s"
  "bootstrap_owners (drop_terminal_state t s) = pop t (bootstrap_owners s)"
  "client_devices (drop_terminal_state t s) = pop t (client_devices s)"
  by (simp_all add: drop_terminal_state_def)

lemma remove_client_fields [simp]:
  "clients (remove_client t c s) = (clients s)(t \<mapsto> remove1 c (clients_of s t))"
  "controllers (remove_client t c s) =
     (if controllers s t = Some c then pop t (controllers s) else controllers s)"
  "control_revisions (remove_client t c s) =
     (if controllers s t = Some c then bump t (control_revisions s) else control_revisions s)"
  "input_owners (remove_client t c s) = input_owners s"
  "input_revisions (remove_client t c s) = input_revisions s"
  "applied_resizes (remove_client t c s) = applied_resizes s"
  "resize_plans (remove_client t c s) = resize_plans s"
  "bootstrap_pending (remove_client t c s) = bootstrap_pending s"
  "bootstrap_applied (remove_client t c s) = bootstrap_applied s"
  "applied_plan_tokens (remove_client t c s) = applied_plan_tokens s"
  "bootstrap_owners (remove_client t c s) = bootstrap_owners s"
  "client_devices (remove_client t c s) =
     (case client_devices s t of None \<Rightarrow> client_devices s
      | Some m \<Rightarrow> (client_devices s)(t \<mapsto> pop c m))"
  by (simp_all add: remove_client_def Let_def split: option.split)

lemma close_terminal_fields [simp]:
  "clients (close_terminal t s) = pop t (clients s)"
  "controllers (close_terminal t s) = controllers s"
  "control_revisions (close_terminal t s) = control_revisions s"
  "input_owners (close_terminal t s) = pop t (input_owners s)"
  "input_revisions (close_terminal t s) = input_revisions s"
  "applied_resizes (close_terminal t s) = pop t (applied_resizes s)"
  "resize_plans (close_terminal t s) = resize_plans s"
  "bootstrap_pending (close_terminal t s) = bootstrap_pending s"
  "bootstrap_applied (close_terminal t s) = bootstrap_applied s"
  "applied_plan_tokens (close_terminal t s) = applied_plan_tokens s"
  "bootstrap_owners (close_terminal t s) = pop t (bootstrap_owners s)"
  "client_devices (close_terminal t s) = pop t (client_devices s)"
  by (simp_all add: close_terminal_def Let_def)

lemma release_client_fields [simp]:
  "clients (release_client t c s) = clients s"
  "controllers (release_client t c s) = controllers s"
  "control_revisions (release_client t c s) = control_revisions s"
  "input_owners (release_client t c s) =
     (if input_owners s t = Some c then pop t (input_owners s) else input_owners s)"
  "input_revisions (release_client t c s) = input_revisions s"
  "applied_resizes (release_client t c s) =
     (case applied_resizes s t of Some (c', _) \<Rightarrow> if c' = c then pop t (applied_resizes s) else applied_resizes s
      | None \<Rightarrow> applied_resizes s)"
  "resize_plans (release_client t c s) = resize_plans s"
  "bootstrap_pending (release_client t c s) = bootstrap_pending s"
  "bootstrap_applied (release_client t c s) = bootstrap_applied s"
  "applied_plan_tokens (release_client t c s) = applied_plan_tokens s"
  "bootstrap_owners (release_client t c s) =
     (if bootstrap_owners s t = Some c then
        if t \<in> bootstrap_pending s \<and> resize_plans s t = None
        then (bootstrap_owners s)(t \<mapsto> hd (clients_of s t)) else pop t (bootstrap_owners s)
      else bootstrap_owners s)"
  "client_devices (release_client t c s) = client_devices s"
  by (auto simp: release_client_def Let_def split: option.split)

lemma abort_resize_fields [simp]:
  "clients (abort_resize p s) = clients s"
  "controllers (abort_resize p s) = controllers s"
  "control_revisions (abort_resize p s) = control_revisions s"
  "input_owners (abort_resize p s) = input_owners s"
  "input_revisions (abort_resize p s) = input_revisions s"
  "applied_resizes (abort_resize p s) = applied_resizes s"
  "client_devices (abort_resize p s) = client_devices s"
  "bootstrap_pending (abort_resize p s) = bootstrap_pending s"
  by (simp_all add: abort_resize_def Let_def split: bool.split list.split)

lemma abort_resize_plan_fields:
  "resize_plans (abort_resize p s) =
     (if resize_plans s (p_terminal p) = Some p then pop (p_terminal p) (resize_plans s) else resize_plans s)"
  "applied_plan_tokens (abort_resize p s) =
     (if resize_plans s (p_terminal p) = Some p then applied_plan_tokens s - {p_token p}
      else applied_plan_tokens s)"
  "bootstrap_applied (abort_resize p s) =
     (if resize_plans s (p_terminal p) = Some p \<and> p_bootstrap p
      then bootstrap_applied s - {p_terminal p} else bootstrap_applied s)"
  by (auto simp: abort_resize_def Let_def split: bool.split list.split)

lemma abort_resize_bootstrap_owners:
  "bootstrap_owners (abort_resize p s) t =
     (if t = p_terminal p \<and> resize_plans s t = Some p
      then if p_bootstrap p \<and> t \<in> bootstrap_applied s then None
           else if t \<in> bootstrap_pending s \<and> bootstrap_owners s t = None \<and> clients_of s t \<noteq> []
           then Some (hd (clients_of s t)) else bootstrap_owners s t
      else bootstrap_owners s t)"
  by (auto simp: abort_resize_def Let_def split: bool.split list.split)

lemmas small_op_defs =
  input_lock_def claim_control_def mark_grid_fresh_def mark_input_def mark_grid_existing_def
  begin_resize_def resize_applied_def commit_resize_def

section \<open>Executions\<close>

text \<open>\<open>Lock_Acquire\<close> and \<open>Lock_Release\<close> are the bridge taking and releasing the terminal's
  \<open>asyncio.Lock\<close>.\<close>

datatype tc_op =
    Register ustr ustr ustr
  | Input_Lock ustr
  | Lock_Acquire ustr
  | Lock_Release ustr
  | Claim_Control ustr ustr
  | Mark_Grid_Fresh ustr ustr
  | Mark_Input ustr ustr ustr
  | Mark_Grid_Existing ustr
  | Begin_Resize ustr ustr int int ustr
  | Resize_Applied resize_plan
  | Commit_Resize resize_plan
  | Abort_Resize resize_plan
  | Unregister ustr ustr

fun tc_exec :: "tc_op \<Rightarrow> tc_state \<Rightarrow> tc_state" where
  "tc_exec (Register t d c) s = register t d c s"
| "tc_exec (Input_Lock t) s = input_lock t s"
| "tc_exec (Lock_Acquire t) s =
     (if input_locks s t = Some False then s\<lparr>input_locks := (input_locks s)(t \<mapsto> True)\<rparr> else s)"
| "tc_exec (Lock_Release t) s =
     (if input_locks s t = Some True then s\<lparr>input_locks := (input_locks s)(t \<mapsto> False)\<rparr> else s)"
| "tc_exec (Claim_Control t c) s = claim_control t c s"
| "tc_exec (Mark_Grid_Fresh t c) s = mark_grid_fresh t c s"
| "tc_exec (Mark_Input t c d) s = mark_input t c d s"
| "tc_exec (Mark_Grid_Existing t) s = mark_grid_existing t s"
| "tc_exec (Begin_Resize t c rows cols tok) s = snd (begin_resize t c rows cols tok s)"
| "tc_exec (Resize_Applied p) s = snd (resize_applied p s)"
| "tc_exec (Commit_Resize p) s = snd (commit_resize p s)"
| "tc_exec (Abort_Resize p) s = abort_resize p s"
| "tc_exec (Unregister t c) s = unregister t c s"

text \<open>What a fresh \<open>uuid4\<close> guarantees: it is none of the identifiers in use.\<close>

fun drawn_fresh :: "tc_op \<Rightarrow> tc_state \<Rightarrow> bool" where
  "drawn_fresh (Register t d c) s \<longleftrightarrow> c \<notin> set (clients_of s t)"
| "drawn_fresh (Begin_Resize t c rows cols tok) s \<longleftrightarrow>
     tok \<notin> applied_plan_tokens s \<and> (\<forall>t' p. resize_plans s t' = Some p \<longrightarrow> p_token p \<noteq> tok)"
| "drawn_fresh _ s \<longleftrightarrow> True"

inductive tc_reach :: "tc_state \<Rightarrow> bool" where
  tc_reach_init: "tc_reach tc_init"
| tc_reach_step: "tc_reach s \<Longrightarrow> drawn_fresh op s \<Longrightarrow> tc_reach (tc_exec op s)"

definition clients_wf :: "tc_state \<Rightarrow> ustr \<Rightarrow> bool" where
  "clients_wf s t \<longleftrightarrow> (\<forall>cs. clients s t = Some cs \<longrightarrow> cs \<noteq> [] \<and> distinct cs)"

definition owners_wf :: "tc_state \<Rightarrow> ustr \<Rightarrow> bool" where
  "owners_wf s t \<longleftrightarrow>
     (\<forall>c. controllers s t = Some c \<longrightarrow> c \<in> set (clients_of s t)) \<and>
     (\<forall>c. input_owners s t = Some c \<longrightarrow> c \<in> set (clients_of s t)) \<and>
     (\<forall>c. bootstrap_owners s t = Some c \<longrightarrow> c \<in> set (clients_of s t)) \<and>
     (\<forall>c r k. applied_resizes s t = Some (c, r, k) \<longrightarrow> c \<in> set (clients_of s t)) \<and>
     (\<forall>c d. get_or Map.empty (client_devices s) t c = Some d \<longrightarrow> c \<in> set (clients_of s t))"

definition plans_wf :: "tc_state \<Rightarrow> bool" where
  "plans_wf s \<longleftrightarrow>
     (\<forall>t p. resize_plans s t = Some p \<longrightarrow> p_terminal p = t) \<and>
     (\<forall>t p t' p'. resize_plans s t = Some p \<longrightarrow> resize_plans s t' = Some p' \<longrightarrow>
        p_token p = p_token p' \<longrightarrow> t = t') \<and>
     (\<forall>k \<in> applied_plan_tokens s. \<exists>t p. resize_plans s t = Some p \<and> p_token p = k) \<and>
     (\<forall>t \<in> bootstrap_applied s. \<exists>p. resize_plans s t = Some p \<and> p_bootstrap p
        \<and> p_token p \<in> applied_plan_tokens s)"

definition tc_inv :: "tc_state \<Rightarrow> bool" where
  "tc_inv s \<longleftrightarrow> (\<forall>t. clients_wf s t \<and> owners_wf s t) \<and> plans_wf s"

lemma clients_of_Nil_iff: "clients_wf s t \<Longrightarrow> clients_of s t = [] \<longleftrightarrow> clients s t = None"
  by (auto simp: clients_wf_def get_or_def split: option.splits)

lemma distinct_clients_of: "clients_wf s t \<Longrightarrow> distinct (clients_of s t)"
  by (auto simp: clients_wf_def get_or_def split: option.splits)

lemma get_or_SomeD: "m t = Some x \<Longrightarrow> get_or d m t = x"
  by (simp add: get_or_def)

lemma clients_wf_exec: 
  assumes "clients_wf s t" "drawn_fresh op s"
  shows "clients_wf (tc_exec op s) t"
proof (cases op)
  case (Register t' d c)
  with assms show ?thesis by (auto simp: clients_wf_def distinct_clients_of get_or_SomeD)
next
  case (Unregister t' c)
  with assms show ?thesis
    by (auto simp: unregister_def Let_def clients_wf_def distinct_clients_of get_or_SomeD)
qed (use assms in \<open>auto simp: small_op_defs Let_def clients_wf_def\<close>)

lemma owners_wf_other:
  assumes "owners_wf s t" and "clients s' t = clients s t"
    and "controllers s' t = controllers s t" and "input_owners s' t = input_owners s t"
    and "bootstrap_owners s' t = bootstrap_owners s t" and "applied_resizes s' t = applied_resizes s t"
    and "client_devices s' t = client_devices s t"
  shows "owners_wf s' t"
  using assms by (simp add: owners_wf_def get_or_def)

lemma owners_wf_last:
  assumes "owners_wf s t" and "set (clients_of s t) = {c}"
  shows "owners_wf (close_terminal t (remove_client t c s)) t"
  using assms by (auto simp: owners_wf_def)

lemma owners_wf_release:
  assumes "owners_wf s t" and "distinct (clients_of s t)" and "remove1 c (clients_of s t) \<noteq> []"
  shows "owners_wf (release_client t c (remove_client t c s)) t"
proof -
  let ?s = "release_client t c (remove_client t c s)"
  have set_eq: "set (clients_of ?s t) = set (clients_of s t) - {c}"
    using assms(2) by simp
  have hd: "hd (remove1 c (clients_of s t)) \<in> set (clients_of s t) - {c}"
    using hd_in_set [OF assms(3)] assms(2) by simp
  have "controllers ?s t = Some k \<Longrightarrow> k \<in> set (clients_of ?s t)" for k
    unfolding set_eq using assms(1) by (auto simp: owners_wf_def split: if_splits)
  moreover have "input_owners ?s t = Some k \<Longrightarrow> k \<in> set (clients_of ?s t)" for k
    unfolding set_eq using assms(1) by (auto simp: owners_wf_def split: if_splits)
  moreover have "bootstrap_owners ?s t = Some k \<Longrightarrow> k \<in> set (clients_of ?s t)" for k
    unfolding set_eq using assms(1) hd by (auto simp: owners_wf_def split: if_splits)
  moreover have "applied_resizes ?s t = Some (k, r, n) \<Longrightarrow> k \<in> set (clients_of ?s t)" for k r n
    unfolding set_eq using assms(1) by (auto simp: owners_wf_def split: if_splits option.splits)
  moreover have "get_or Map.empty (client_devices ?s) t k = Some d \<Longrightarrow> k \<in> set (clients_of ?s t)" for k d
    unfolding set_eq using assms(1)
    by (auto simp: owners_wf_def get_or_def split: if_splits option.splits)
  ultimately show ?thesis unfolding owners_wf_def by blast
qed

lemma owners_wf_unregister:
  assumes "clients_wf s t" and "owners_wf s t"
  shows "owners_wf (unregister t' c s) t"
proof (cases "t = t'")
  case False
  with assms(2) show ?thesis
    by (auto simp: unregister_def Let_def intro: owners_wf_other split: option.splits)
next
  case True
  have d: "distinct (clients_of s t)" using assms(1) by (simp add: distinct_clients_of)
  consider "clients_of s t = []" | "clients_of s t \<noteq> []" "c \<notin> set (clients_of s t)"
    | "c \<in> set (clients_of s t)" "remove1 c (clients_of s t) = []"
    | "c \<in> set (clients_of s t)" "remove1 c (clients_of s t) \<noteq> []" by blast
  then show ?thesis
  proof cases
    case 1
    with assms(2) True show ?thesis by (simp add: unregister_def owners_wf_def)
  next
    case 2
    with assms(2) True show ?thesis by (simp add: unregister_def)
  next
    case 3
    then have "set (clients_of s t) = {c}"
      using d by (metis Diff_eq_empty_iff empty_iff insert_iff list.set(1) set_remove1_eq subset_singletonD)
    from owners_wf_last [OF assms(2) this] 3 True show ?thesis
      by (auto simp: unregister_def Let_def)
  next
    case 4
    from owners_wf_release [OF assms(2) d 4(2)] 4 True show ?thesis
      by (auto simp: unregister_def Let_def)
  qed
qed

lemma owners_wf_exec:
  assumes "clients_wf s t" "owners_wf s t" 
  shows "owners_wf (tc_exec op s) t"
proof (cases op)
  case (Unregister t' c)
  with owners_wf_unregister [OF assms] show ?thesis by simp
next
  case (Abort_Resize p)
  with assms show ?thesis by (auto simp: owners_wf_def abort_resize_bootstrap_owners)
next
  case (Register t' d c)
  with assms show ?thesis by (auto simp: owners_wf_def)
qed (use assms in \<open>auto simp: small_op_defs Let_def owners_wf_def plan_current_def\<close>)

lemma plans_wf_other:
  assumes "plans_wf s" and "resize_plans s' = resize_plans s"
    and "applied_plan_tokens s' = applied_plan_tokens s" and "bootstrap_applied s' = bootstrap_applied s"
  shows "plans_wf s'"
  using assms by (simp add: plans_wf_def)

lemma unregister_plan_fields [simp]:
  "resize_plans (unregister t c s) = resize_plans s"
  "applied_plan_tokens (unregister t c s) = applied_plan_tokens s"
  "bootstrap_applied (unregister t c s) = bootstrap_applied s"
  "bootstrap_pending (unregister t c s) = bootstrap_pending s"
  "input_revisions (unregister t c s) = input_revisions s"
  by (simp_all add: unregister_def Let_def)

lemma plans_wf_pop:
  assumes wf: "plans_wf s" and p: "resize_plans s t = Some p"
    and plans: "resize_plans s' = pop t (resize_plans s)"
    and toks: "applied_plan_tokens s' = applied_plan_tokens s - {p_token p}"
    and app: "bootstrap_applied s' = (if p_bootstrap p then bootstrap_applied s - {t} else bootstrap_applied s)"
  shows "plans_wf s'"
proof -
  have inj: "t' = t" if "resize_plans s t' = Some p'" "p_token p' = p_token p" for t' p'
    using wf p that unfolding plans_wf_def by blast
  show ?thesis
    unfolding plans_wf_def
  proof (intro conjI allI ballI impI)
    fix t' p' assume "resize_plans s' t' = Some p'"
    then show "p_terminal p' = t'" using wf plans by (auto simp: plans_wf_def split: if_splits)
  next
    fix t1 p1 t2 p2
    assume "resize_plans s' t1 = Some p1" "resize_plans s' t2 = Some p2" "p_token p1 = p_token p2"
    then show "t1 = t2" using wf plans by (auto simp: plans_wf_def split: if_splits)
  next
    fix k assume "k \<in> applied_plan_tokens s'"
    with toks wf obtain t' p' where "resize_plans s t' = Some p'" "p_token p' = k" "k \<noteq> p_token p"
      by (auto simp: plans_wf_def)
    moreover from this p have "t' \<noteq> t" by auto
    ultimately show "\<exists>t p. resize_plans s' t = Some p \<and> p_token p = k" using plans by auto
  next
    fix t' assume "t' \<in> bootstrap_applied s'"
    with app wf obtain p' where p': "resize_plans s t' = Some p'" "p_bootstrap p'"
      "p_token p' \<in> applied_plan_tokens s"
      by (auto simp: plans_wf_def split: if_splits)
    from \<open>t' \<in> bootstrap_applied s'\<close> app p p' have "t' \<noteq> t" by (auto split: if_splits)
    with inj p' toks plans show "\<exists>p. resize_plans s' t' = Some p \<and> p_bootstrap p
        \<and> p_token p \<in> applied_plan_tokens s'" by auto
  qed
qed

lemma plans_wf_add:
  assumes wf: "plans_wf s" and none: "resize_plans s t = None" and p: "p_terminal p = t"
    and fresh: "\<forall>t' p'. resize_plans s t' = Some p' \<longrightarrow> p_token p' \<noteq> p_token p"
  shows "plans_wf (s\<lparr>resize_plans := (resize_plans s)(t \<mapsto> p)\<rparr>)" (is "plans_wf ?s")
proof -
  have keep: "resize_plans ?s t' = Some p'" if "resize_plans s t' = Some p'" for t' p'
    using that none by auto
  show ?thesis
    unfolding plans_wf_def
  proof (intro conjI allI ballI impI)
    fix t' p' assume "resize_plans ?s t' = Some p'"
    with wf p show "p_terminal p' = t'" by (auto simp: plans_wf_def split: if_splits)
  next
    fix t1 p1 t2 p2
    assume *: "resize_plans ?s t1 = Some p1" "resize_plans ?s t2 = Some p2" "p_token p1 = p_token p2"
    have "p_token p2 \<noteq> p_token p" if "t2 \<noteq> t" using *(2) that fresh by simp
    moreover have "p_token p1 \<noteq> p_token p" if "t1 \<noteq> t" using *(1) that fresh by simp
    ultimately show "t1 = t2"
      using * wf unfolding plans_wf_def by (auto split: if_splits)
  next
    fix k assume "k \<in> applied_plan_tokens ?s"
    then have "\<exists>t p. resize_plans s t = Some p \<and> p_token p = k"
      using wf by (simp add: plans_wf_def)
    with keep show "\<exists>t p. resize_plans ?s t = Some p \<and> p_token p = k" by blast
  next
    fix t' assume "t' \<in> bootstrap_applied ?s"
    then have "\<exists>p. resize_plans s t' = Some p \<and> p_bootstrap p \<and> p_token p \<in> applied_plan_tokens ?s"
      using wf by (simp add: plans_wf_def)
    with keep show "\<exists>p. resize_plans ?s t' = Some p \<and> p_bootstrap p
        \<and> p_token p \<in> applied_plan_tokens ?s" by blast
  qed
qed

lemma plans_wf_applied:
  assumes wf: "plans_wf s" and p: "resize_plans s t = Some p"
    and plans: "resize_plans s' = resize_plans s"
    and toks: "applied_plan_tokens s' = insert (p_token p) (applied_plan_tokens s)"
    and app: "bootstrap_applied s' = (if p_bootstrap p then insert t (bootstrap_applied s) else bootstrap_applied s)"
  shows "plans_wf s'"
  unfolding plans_wf_def plans toks
proof (intro conjI)
  show "\<forall>t p. resize_plans s t = Some p \<longrightarrow> p_terminal p = t"
    using wf by (simp add: plans_wf_def)
  show "\<forall>t p t' p'. resize_plans s t = Some p \<longrightarrow> resize_plans s t' = Some p' \<longrightarrow>
      p_token p = p_token p' \<longrightarrow> t = t'"
    using wf by (simp add: plans_wf_def)
  have "\<forall>k \<in> applied_plan_tokens s. \<exists>t p. resize_plans s t = Some p \<and> p_token p = k"
    using wf by (simp add: plans_wf_def)
  with p show "\<forall>k \<in> insert (p_token p) (applied_plan_tokens s).
      \<exists>t p. resize_plans s t = Some p \<and> p_token p = k" by blast
  have "\<forall>t \<in> bootstrap_applied s. \<exists>p. resize_plans s t = Some p \<and> p_bootstrap p
      \<and> p_token p \<in> applied_plan_tokens s"
    using wf by (simp add: plans_wf_def)
  with p app show "\<forall>t \<in> bootstrap_applied s'. \<exists>pa. resize_plans s t = Some pa \<and> p_bootstrap pa
      \<and> p_token pa \<in> insert (p_token p) (applied_plan_tokens s)" by (auto split: if_splits)
qed

lemma plans_wf_exec:
  assumes "plans_wf s" "drawn_fresh op s"
  shows "plans_wf (tc_exec op s)"
proof (cases op)
  case (Begin_Resize t c rows cols tok)
  show ?thesis
  proof (cases "resize_owner s t \<noteq> Some c \<or> resize_plans s t \<noteq> None")
    case True
    with assms Begin_Resize show ?thesis by (auto simp: begin_resize_def)
  next
    case False
    then obtain p where "tc_exec op s = s\<lparr>resize_plans := (resize_plans s)(t \<mapsto> p)\<rparr>"
      "p_terminal p = t" "p_token p = tok" "resize_plans s t = None"
      using Begin_Resize by (auto simp: begin_resize_def Let_def)
    with plans_wf_add [OF assms(1), of t p] assms(2) Begin_Resize show ?thesis by auto
  qed
next
  case (Resize_Applied p)
  show ?thesis
  proof (cases "resize_plans s (p_terminal p) = Some p")
    case True
    from plans_wf_applied [OF assms(1) True, of "tc_exec op s"] True Resize_Applied show ?thesis
      by (simp add: resize_applied_def Let_def)
  next
    case False
    with assms Resize_Applied show ?thesis by (simp add: resize_applied_def)
  qed
next
  case (Commit_Resize p)
  show ?thesis
  proof (cases "fst (commit_resize p s)")
    case True
    then have "resize_plans s (p_terminal p) = Some p"
      by (auto simp: commit_resize_def plan_current_def Let_def split: if_splits)
    from plans_wf_pop [OF assms(1) this] True Commit_Resize show ?thesis
      by (auto simp: commit_resize_def Let_def split: if_splits)
  next
    case False
    with assms Commit_Resize show ?thesis by (auto simp: commit_resize_def Let_def split: if_splits)
  qed
next
  case (Abort_Resize p)
  show ?thesis
  proof (cases "resize_plans s (p_terminal p) = Some p")
    case True
    from plans_wf_pop [OF assms(1) True, of "abort_resize p s"] True Abort_Resize show ?thesis
      by (simp add: abort_resize_plan_fields)
  next
    case False
    with assms Abort_Resize show ?thesis by (simp add: abort_resize_def)
  qed
qed (use assms in \<open>auto simp: small_op_defs Let_def intro: plans_wf_other\<close>)

lemma tc_inv_exec: "tc_inv s \<Longrightarrow> drawn_fresh op s \<Longrightarrow> tc_inv (tc_exec op s)"
  by (simp add: tc_inv_def clients_wf_exec owners_wf_exec plans_wf_exec)

lemma tc_inv_init: "tc_inv tc_init"
  by (simp add: tc_inv_def tc_init_def clients_wf_def owners_wf_def plans_wf_def get_or_def)

end
