(* ===== verification/Terminal_Control_Laws.thy ===== *)
theory Terminal_Control_Laws
  imports Terminal_Control
begin

text \<open>
  What the terminal controller guarantees: who may type, who may size the grid, and which
  events may change either. Statements about executions quantify over every list of
  operations, so over every interleaving of the browser connections. \<open>machine\<close> gives the
  invariant of every run and \<open>monotone_counter\<close> the two revision counters, from their one-step
  laws.
\<close>

lemma tc_reach_inv: "tc_reach s \<Longrightarrow> tc_inv s"
  by (induction rule: tc_reach.induct) (simp_all add: tc_inv_init tc_inv_exec)

lemma tc_reach_owners: "tc_reach s \<Longrightarrow> owners_wf s t"
  and tc_reach_clients: "tc_reach s \<Longrightarrow> clients_wf s t"
  and tc_reach_plans: "tc_reach s \<Longrightarrow> plans_wf s"
  using tc_reach_inv by (auto simp: tc_inv_def)

lemma resize_owner_connected: "resize_owner s t = Some c \<Longrightarrow> c \<in> set (clients_of s t)"
  by (auto simp: resize_owner_def Let_def split: option.splits if_splits)

abbreviation input_rev :: "tc_state \<Rightarrow> ustr \<Rightarrow> int" where
  "input_rev s t \<equiv> get_or 0 (input_revisions s) t"

abbreviation control_rev :: "tc_state \<Rightarrow> ustr \<Rightarrow> int" where
  "control_rev s t \<equiv> get_or 0 (control_revisions s) t"

abbreviation tc_run :: "tc_op list \<Rightarrow> tc_state \<Rightarrow> tc_state" where
  "tc_run ops s \<equiv> fold tc_exec ops s"

lemma unregister_revisions:
  "controllers (unregister t c s) =
     (if c \<in> set (clients_of s t) \<and> controllers s t = Some c then pop t (controllers s) else controllers s)"
  "control_revisions (unregister t c s) =
     (if c \<in> set (clients_of s t) \<and> controllers s t = Some c then bump t (control_revisions s)
      else control_revisions s)"
  by (auto simp: unregister_def Let_def)

lemma exec_input_rev:
  "input_rev (tc_exec op s) t = input_rev s t +
     (case op of Mark_Input t' c d \<Rightarrow> if t' = t \<and> c \<in> set (clients_of s t) then 1 else 0 | _ \<Rightarrow> 0)"
  by (cases op) (auto simp: small_op_defs Let_def)

lemma exec_controller_or_rev:
  "(controllers (tc_exec op s) t = controllers s t \<and> control_rev (tc_exec op s) t = control_rev s t)
   \<or> control_rev (tc_exec op s) t = control_rev s t + 1"
  by (cases op) (auto simp: small_op_defs Let_def unregister_revisions)

lemma control_rev_step: "control_rev s t \<le> control_rev (tc_exec op s) t"
  using exec_controller_or_rev [of op s t] by linarith

lemma input_rev_step: "input_rev s t \<le> input_rev (tc_exec op s) t"
  by (simp add: exec_input_rev split: tc_op.splits)

interpretation tcm: machine tc_init tc_exec drawn_fresh tc_inv
  by unfold_locales (simp_all add: tc_inv_init tc_inv_exec)

interpretation ctl: monotone_counter tc_exec "\<lambda>s. control_rev s t" for t
  by unfold_locales (rule control_rev_step)

interpretation inp: monotone_counter tc_exec "\<lambda>s. input_rev s t" for t
  by unfold_locales (rule input_rev_step)

text \<open>Over any execution, if the control revision of a terminal is what it was, so is its
  controller: a browser that sees the same revision twice has missed no transfer of control.\<close>

theorem control_revision_identifies_controller:
  assumes "control_rev (tc_run ops s) t = control_rev s t"
  shows "controllers (tc_run ops s) t = controllers s t"
  using assms
proof (induction ops arbitrary: s)
  case (Cons op ops)
  have "control_rev (tc_exec op s) t = control_rev s t"
    using control_rev_step [of s t op] ctl.m_run [of "tc_exec op s" t ops] Cons.prems by auto
  with exec_controller_or_rev [of op s t] Cons.IH [of "tc_exec op s"] Cons.prems show ?case by auto
qed simp

lemma no_input_admitted:
  assumes "input_rev (tc_run (pre @ Mark_Input t c d # post) s) t = input_rev s t"
  shows "c \<notin> set (clients_of (tc_run pre s) t)"
  using inp.m_run_split [OF assms] by (simp only: exec_input_rev) (simp split: if_splits)

text \<open>C1: A resize plan commits only if its client is still connected and no input was admitted on
  the terminal since the plan was begun; then exactly the planned size is recorded and the plan
  is gone.\<close>

theorem commit_only_if_no_input_since_begin:
  assumes "begin_resize t c rows cols tok s = (Some p, s0)"
    and "commit_resize p (tc_run ops s0) = (True, s2)"
  shows "applied_resizes s2 t = Some (c, rows, cols) \<and> resize_plans s2 t = None
    \<and> c \<in> set (clients_of s2 t)
    \<and> (\<forall>pre c' d post. ops = pre @ Mark_Input t c' d # post \<longrightarrow> c' \<notin> set (clients_of (tc_run pre s0) t))"
proof -
  from assms(1) have p: "p_terminal p = t" "p_client p = c" "p_rows p = rows" "p_cols p = cols"
    "p_revision p = input_rev s0 t"
    by (auto simp: begin_resize_def Let_def split: if_splits)
  from assms(2) have cur: "plan_current (tc_run ops s0) p"
    by (auto simp: commit_resize_def Let_def split: if_splits)
  then have rev: "input_rev (tc_run ops s0) t = input_rev s0 t"
    and con: "c \<in> set (clients_of (tc_run ops s0) t)"
    using p by (simp_all add: plan_current_def Let_def)
  have "applied_resizes s2 t = Some (c, rows, cols) \<and> resize_plans s2 t = None \<and> c \<in> set (clients_of s2 t)"
    using assms(2) p con by (auto simp: commit_resize_def Let_def split: if_splits)
  with rev show ?thesis by (auto dest!: no_input_admitted)
qed

definition viewer_op :: "ustr \<Rightarrow> tc_op \<Rightarrow> bool" where
  "viewer_op t op \<longleftrightarrow> (case op of Claim_Control t' _ \<Rightarrow> t' \<noteq> t | Mark_Input t' _ _ \<Rightarrow> t' \<noteq> t
     | Unregister t' _ \<Rightarrow> t' \<noteq> t | _ \<Rightarrow> True)"

lemma unregister_other_terminal:
  "t' \<noteq> t \<Longrightarrow> clients (unregister t' c s) t = clients s t \<and> input_owners (unregister t' c s) t = input_owners s t
     \<and> controllers (unregister t' c s) t = controllers s t"
  by (auto simp: unregister_def Let_def)

lemma viewer_exec:
  assumes "viewer_op t op" "clients_of s t \<noteq> []"
  shows "set (clients_of s t) \<subseteq> set (clients_of (tc_exec op s) t)
    \<and> controllers (tc_exec op s) t = controllers s t \<and> input_owners (tc_exec op s) t = input_owners s t"
proof (cases op)
  case (Unregister t' c)
  with assms unregister_other_terminal [of t' t c s] show ?thesis by (auto simp: viewer_op_def get_or_def)
qed (use assms in \<open>auto simp: small_op_defs Let_def viewer_op_def\<close>)

lemma viewer_run:
  assumes "\<forall>op \<in> set ops. viewer_op t op" "clients_of s t \<noteq> []"
  shows "set (clients_of s t) \<subseteq> set (clients_of (tc_run ops s) t)
    \<and> controllers (tc_run ops s) t = controllers s t \<and> input_owners (tc_run ops s) t = input_owners s t"
  using assms
proof (induction ops arbitrary: s)
  case (Cons op ops)
  from viewer_exec [of t op s] Cons.prems
  have step: "set (clients_of s t) \<subseteq> set (clients_of (tc_exec op s) t)"
    "controllers (tc_exec op s) t = controllers s t" "input_owners (tc_exec op s) t = input_owners s t"
    by auto
  then have "clients_of (tc_exec op s) t \<noteq> []" using Cons.prems(2) by (cases "clients_of s t") auto
  with Cons.IH [of "tc_exec op s"] Cons.prems(1) step show ?case by auto
qed simp

text \<open>Connecting, reconnecting, resizing and marking grids, by any number of other connections
  and in any order, changes neither who may type nor, once somebody typed, who sizes the grid.\<close>

theorem viewers_cannot_steal_control:
  assumes "\<forall>op \<in> set ops. viewer_op t op" and "clients_of s t \<noteq> []"
  shows "can_input (tc_run ops s) t c = can_input s t c
    \<and> (input_owners s t = Some k \<and> k \<in> set (clients_of s t) \<longrightarrow>
         resize_owner s t = Some k \<and> resize_owner (tc_run ops s) t = Some k)"
  using viewer_run [OF assms] assms(2)
  by (auto simp: can_input_def resize_owner_def Let_def)

definition grid_settled :: "tc_state \<Rightarrow> ustr \<Rightarrow> bool" where
  "grid_settled s t \<longleftrightarrow> t \<notin> bootstrap_pending s \<and> (bootstrap_owners s t = None \<or> t \<in> bootstrap_applied s)"

definition declares_fresh :: "ustr \<Rightarrow> tc_op \<Rightarrow> bool" where
  "declares_fresh t op \<longleftrightarrow> (case op of Mark_Grid_Fresh t' _ \<Rightarrow> t' = t | _ \<Rightarrow> False)"

lemma grid_settled_unregister: "grid_settled s t \<Longrightarrow> grid_settled (unregister t' c s) t"
  by (auto simp: grid_settled_def unregister_def Let_def split: option.splits)

lemma grid_settled_exec:
  assumes "grid_settled s t" "\<not> declares_fresh t op"
  shows "grid_settled (tc_exec op s) t"
proof (cases op)
  case (Unregister t' c)
  with grid_settled_unregister [OF assms(1)] show ?thesis by simp
next
  case (Abort_Resize p)
  with assms(1) show ?thesis
    by (auto simp: grid_settled_def abort_resize_bootstrap_owners abort_resize_plan_fields)
qed (use assms in \<open>auto simp: small_op_defs Let_def grid_settled_def declares_fresh_def\<close>)

lemma grid_settled_run:
  "grid_settled s t \<Longrightarrow> \<forall>op \<in> set ops. \<not> declares_fresh t op \<Longrightarrow> grid_settled (tc_run ops s) t"
  by (induction ops arbitrary: s) (auto intro: grid_settled_exec)

text \<open>C2: Once a bootstrap resize of a fresh grid was applied, no later resize of that terminal is a
  bootstrap resize again, whatever commits, aborts, disconnects and reconnects follow, until the
  backend reports a new fresh grid.\<close>

theorem grid_bootstrapped_once:
  assumes reach: "tc_reach s" and live: "resize_plans s t = Some p" "p_bootstrap p"
    and applied: "resize_applied p s = (current, s1)"
    and ops: "admissible drawn_fresh tc_exec ops s1" "\<forall>op \<in> set ops. \<not> declares_fresh t op"
    and again: "begin_resize t c rows cols tok (tc_run ops s1) = (Some q, s3)"
  shows "\<not> p_bootstrap q"
proof
  assume boot: "p_bootstrap q"
  let ?s = "tc_run ops s1"
  have inv: "tc_inv s" by (rule tc_reach_inv [OF reach])
  then have p: "p_terminal p = t" using live by (auto simp: tc_inv_def plans_wf_def)
  have s1: "s1 = tc_exec (Resize_Applied p) s" using applied by simp
  then have "tc_inv s1" using tc_inv_exec [OF inv, of "Resize_Applied p"] by simp
  then have "tc_inv ?s" using ops(1) by (rule tcm.inv_run)
  moreover have "grid_settled s1 t"
    using applied live p by (auto simp: resize_applied_def Let_def grid_settled_def)
  then have "grid_settled ?s t" using ops(2) by (rule grid_settled_run)
  moreover have "bootstrap_owners ?s t = Some c" "resize_plans ?s t = None"
    using again boot by (auto simp: begin_resize_def Let_def split: if_splits)
  ultimately show False by (auto simp: tc_inv_def plans_wf_def grid_settled_def)
qed

lemma resize_owner_cong:
  assumes "clients_of s' t = clients_of s t" "input_owners s' t = input_owners s t"
    "bootstrap_owners s' t = bootstrap_owners s t" "t \<in> bootstrap_applied s' \<longleftrightarrow> t \<in> bootstrap_applied s"
  shows "resize_owner s' t = resize_owner s t"
  by (simp only: resize_owner_def assms)

text \<open>When the last connection of a terminal goes, no controller, size owner, recorded size or
  device of it remains, and every other terminal is as it was.\<close>

theorem last_unregister_forgets_terminal:
  assumes "tc_reach s" and "clients_of s t = [c]"
  shows "clients_of (unregister t c s) t = [] \<and> controllers (unregister t c s) t = None
    \<and> resize_owner (unregister t c s) t = None \<and> applied_resizes (unregister t c s) t = None
    \<and> client_devices (unregister t c s) t = None
    \<and> (\<forall>t'. t' \<noteq> t \<longrightarrow> clients_of (unregister t c s) t' = clients_of s t'
         \<and> controllers (unregister t c s) t' = controllers s t'
         \<and> resize_owner (unregister t c s) t' = resize_owner s t')"
proof -
  have "controllers s t = Some k \<Longrightarrow> k = c" for k
    using tc_reach_owners [OF assms(1), of t] assms(2) by (auto simp: owners_wf_def)
  then have ctrl: "controllers (remove_client t c s) t = None"
    by (cases "controllers s t") auto
  have "unregister t c s = close_terminal t (remove_client t c s)"
    using assms(2) by (simp add: unregister_def Let_def)
  moreover have "resize_owner (close_terminal t (remove_client t c s)) t' = resize_owner s t'" if "t' \<noteq> t" for t'
    using that by (intro resize_owner_cong) simp_all
  ultimately show ?thesis using ctrl by (simp add: resize_owner_def [of _ t])
qed

text \<open>The number of devices shown for a terminal is at most the number of its connections, and
  zero only when there is none.\<close>

theorem presence_count_bounds:
  "pv_count (presence s t) \<le> client_count s t \<and> (pv_count (presence s t) = 0 \<longleftrightarrow> client_count s t = 0)"
proof -
  define f where "f = (\<lambda>c. get_or [] (get_or Map.empty (client_devices s) t) c)"
  let ?cs = "clients_of s t"
  have "length (remdups (filter (\<lambda>d. d \<noteq> []) (map f ?cs))) \<le> length (filter (\<lambda>d. d \<noteq> []) (map f ?cs))"
    by (rule length_remdups_leq)
  also have "\<dots> = length (filter (\<lambda>c. f c \<noteq> []) ?cs)" by (simp add: filter_map comp_def)
  finally have "length (remdups (filter (\<lambda>d. d \<noteq> []) (map f ?cs))) + length (filter (\<lambda>c. f c = []) ?cs)
      \<le> length ?cs"
    using sum_length_filter_compl [of "\<lambda>c. f c = []" ?cs] by simp
  moreover have "?cs = []" if "remdups (filter (\<lambda>d. d \<noteq> []) (map f ?cs)) = []" "filter (\<lambda>c. f c = []) ?cs = []"
    using that by (cases ?cs) (auto split: if_splits)
  ultimately show ?thesis unfolding presence_def client_count_def Let_def f_def by auto
qed
text \<open>A connected client that claims control gets it and is then the only one who may type; a
  claim by an unknown client changes nothing.\<close>

theorem claim_control_takes_exclusive_control:
  "can_input (claim_control t c s) t k \<longleftrightarrow>
     (if c \<in> set (clients_of s t) then k = c else can_input s t k)"
  by (auto simp: can_input_def claim_control_def)

text \<open>In every reachable state the controller, the input owner, the size owner and the recorded
  size of a terminal belong to a connection that is registered there, connections are registered
  once, and every token of an applied resize belongs to exactly one outstanding plan.\<close>

theorem reachable_ownership:
  assumes "tc_reach s"
  shows "distinct (clients_of s t)
    \<and> (can_input s t c \<longrightarrow> c \<in> set (clients_of s t))
    \<and> (resize_owner s t = Some c \<longrightarrow> c \<in> set (clients_of s t))
    \<and> (applied_resizes s t = Some (c, rows, cols) \<longrightarrow> c \<in> set (clients_of s t))
    \<and> (\<forall>k \<in> applied_plan_tokens s. \<exists>!t'. \<exists>p. resize_plans s t' = Some p \<and> p_token p = k)"
proof -
  note o = tc_reach_owners [OF assms, of t] and p = tc_reach_plans [OF assms]
  have "\<exists>!t'. \<exists>p. resize_plans s t' = Some p \<and> p_token p = k" if "k \<in> applied_plan_tokens s" for k
    using p that unfolding plans_wf_def by metis
  with o distinct_clients_of [OF tc_reach_clients [OF assms]] show ?thesis
    by (auto simp: owners_wf_def can_input_def resize_owner_connected)
qed

section \<open>Concrete executions\<close>

lemma tc_reach_run: "tc_reach s \<Longrightarrow> admissible drawn_fresh tc_exec ops s \<Longrightarrow> tc_reach (tc_run ops s)"
  by (induction ops arbitrary: s) (auto intro: tc_reach_step)

text \<open>A fresh grid, then two browsers connect.\<close>

definition demo_ops :: "tc_op list" where
  "demo_ops = [Mark_Grid_Fresh (u ''t'') [], Register (u ''t'') [] (u ''a''),
     Register (u ''t'') (u ''dev'') (u ''b'')]"

definition demo_plan :: resize_plan where
  "demo_plan = \<lparr>p_terminal = u ''t'', p_client = u ''a'', p_rows = 24, p_cols = 80, p_revision = 0,
     p_token = u ''k1'', p_bootstrap = True, p_apply = True\<rparr>"

abbreviation demo_state :: tc_state where
  "demo_state \<equiv> tc_run demo_ops tc_init"

abbreviation demo_begun :: tc_state where
  "demo_begun \<equiv> snd (begin_resize (u ''t'') (u ''a'') 24 80 (u ''k1'') demo_state)"

lemma demo_strip: "strip (u ''dev'') = u ''dev''" "strip [] = []"
  by (simp_all add: strip_def u_def is_space_def)

lemmas demo_eval = demo_ops_def demo_plan_def small_op_defs register_def tc_init_def get_or_def
  plan_current_def resize_owner_def Let_def demo_strip can_input_def

lemma demo_reach: "tc_reach demo_state"
  by (rule tc_reach_run [OF tc_reach_init]) (simp add: demo_eval)

lemma demo_begin:
  "begin_resize (u ''t'') (u ''a'') 24 80 (u ''k1'') demo_state = (Some demo_plan, demo_begun)"
  by (rule prod_eqI) (simp_all add: demo_eval)

lemma demo_begun_reach: "tc_reach demo_begun"
  using tc_reach_step [OF demo_reach, of "Begin_Resize (u ''t'') (u ''a'') 24 80 (u ''k1'')"]
  by (simp add: demo_eval)

theorem control_revision_witness:
  "controllers (tc_run [Mark_Input (u ''t'') (u ''a'') (u ''d'')] demo_state) (u ''t'') = Some (u ''a'')"
proof -
  let ?ops = "[Mark_Input (u ''t'') (u ''a'') (u ''d'')]"
  have "control_rev (tc_run ?ops demo_state) (u ''t'') = control_rev demo_state (u ''t'')"
    by (simp add: mark_input_def Let_def)
  from control_revision_identifies_controller [OF this] show ?thesis
    by (simp add: demo_eval)
qed

theorem commit_witness:
  "\<exists>s2. commit_resize demo_plan (tc_run [Resize_Applied demo_plan] demo_begun) = (True, s2)
     \<and> applied_resizes s2 (u ''t'') = Some (u ''a'', 24, 80) \<and> resize_plans s2 (u ''t'') = None"
proof -
  let ?s = "tc_run [Resize_Applied demo_plan] demo_begun"
  have "commit_resize demo_plan ?s = (True, snd (commit_resize demo_plan ?s))"
    by (rule prod_eqI) (simp_all add: demo_eval)
  with commit_only_if_no_input_since_begin [OF demo_begin this] show ?thesis by blast
qed

theorem viewers_witness:
  "can_input (tc_run [Register (u ''t'') [] (u ''c''), Mark_Grid_Existing (u ''t'')] demo_state)
     (u ''t'') (u ''a'')"
proof -
  let ?ops = "[Register (u ''t'') [] (u ''c''), Mark_Grid_Existing (u ''t'')]"
  have "\<forall>op \<in> set ?ops. viewer_op (u ''t'') op" by (simp add: viewer_op_def)
  moreover have "clients_of demo_state (u ''t'') \<noteq> []" by (simp add: demo_ops_def)
  ultimately show ?thesis
    using viewers_cannot_steal_control [of ?ops "u ''t''" demo_state "u ''a''"]
    by (simp only:) (simp add: demo_eval)
qed

theorem grid_bootstrapped_once_witness:
  "\<exists>q s3. begin_resize (u ''t'') (u ''b'') 30 90 (u ''k2'')
      (tc_run [Commit_Resize demo_plan, Mark_Input (u ''t'') (u ''b'') []]
        (snd (resize_applied demo_plan demo_begun))) = (Some q, s3) \<and> \<not> p_bootstrap q"
proof -
  let ?s1 = "snd (resize_applied demo_plan demo_begun)"
  let ?ops = "[Commit_Resize demo_plan, Mark_Input (u ''t'') (u ''b'') []]"
  let ?again = "begin_resize (u ''t'') (u ''b'') 30 90 (u ''k2'') (tc_run ?ops ?s1)"
  have live: "resize_plans demo_begun (u ''t'') = Some demo_plan" "p_bootstrap demo_plan"
    by (simp_all add: demo_eval)
  have app: "resize_applied demo_plan demo_begun = (fst (resize_applied demo_plan demo_begun), ?s1)"
    by simp
  have ops: "admissible drawn_fresh tc_exec ?ops ?s1" "\<forall>op \<in> set ?ops. \<not> declares_fresh (u ''t'') op"
    by (simp_all add: declares_fresh_def)
  have "\<exists>q. fst ?again = Some q" by (simp add: demo_eval)
  then obtain q where again: "?again = (Some q, snd ?again)" by (metis prod.collapse)
  from grid_bootstrapped_once [OF demo_begun_reach live app ops again] again show ?thesis by blast
qed

theorem last_unregister_witness:
  "controllers (unregister (u ''t'') (u ''a'') (register (u ''t'') [] (u ''a'') tc_init)) (u ''t'') = None"
proof -
  have "tc_reach (register (u ''t'') [] (u ''a'') tc_init)"
    using tc_reach_step [OF tc_reach_init, of "Register (u ''t'') [] (u ''a'')"]
    by (simp add: tc_init_def get_or_def)
  moreover have "clients_of (register (u ''t'') [] (u ''a'') tc_init) (u ''t'') = [u ''a'']"
    by (simp add: tc_init_def get_or_def)
  ultimately show ?thesis using last_unregister_forgets_terminal by blast
qed

theorem reachable_ownership_witness:
  "resize_owner demo_state (u ''t'') = Some (u ''a'') \<and> u ''a'' \<in> set (clients_of demo_state (u ''t''))"
proof -
  have "resize_owner demo_state (u ''t'') = Some (u ''a'')" by (simp add: demo_eval)
  with reachable_ownership [OF demo_reach, of "u ''t''" "u ''a''"] show ?thesis by blast
qed

end
