(* ===== verification/Schema.thy ===== *)
theory Schema
  imports Prelude Complex_Main
begin

text \<open>
  The tables of \<^verbatim>\<open>termroom/db.py\<close> (\<open>StateStore.initialize\<close>) as one record, and the
  constraints SQLite enforces on them.

  A table is the list of its rows in row order; a row is a record with one field per column.
  Columns whose values a CHECK constraint or a validated set restricts are datatypes; the
  operations that accept them as text parse them first. A nullable column is an \<open>option\<close>. A time
  stamp is the number of seconds since the epoch that the stored ISO-8601 UTC text (always written
  with \<open>timespec="seconds"\<close> and a fixed width) denotes: the order of the texts is the order of
  the numbers. A column holding a JSON text is the value it denotes.

  \<open>IntegrityError\<close> is what a statement raises that would break a UNIQUE, CHECK or FOREIGN KEY
  constraint; the surrounding transaction is then rolled back, so an operation that raises
  returns no new store.
\<close>

section \<open>Values\<close>

datatype db_error =
    KeyError string | ValueError string | RuntimeError string | IntegrityError

type_synonym stamp = int

datatype jvalue = JNull | JBool bool | JNum ustr | JStr ustr | JList "jvalue list" | JObj "(ustr \<times> jvalue) list"

text \<open>A stored JSON column: the value it denotes, or a text that is not JSON.\<close>

datatype json_text = Json jvalue | Malformed ustr

datatype workspace_kind = Workspace_Kind | Remote_Run_Kind | Server_Terminal_Kind
datatype backend_kind = Local_Backend | Remote_Backend
datatype role = Shell_Role | File_Run_Role | Remote_Run_Role
datatype run_state = Preparing | Running | Finished | Stopped | Failed | Lost
datatype source_kind = Workspace_Source | Git_Source | Archive_Source
datatype connection_method = Ssh_Method | Node_Method
datatype enrollment_status = Pending | Approved | Rejected
datatype subject_type = File_Run_Subject | Remote_Run_Subject

definition workspace_kind_of :: "ustr \<Rightarrow> workspace_kind option" where
  "workspace_kind_of t =
    (if t = u ''workspace'' then Some Workspace_Kind
     else if t = u ''remote_run'' then Some Remote_Run_Kind
     else if t = u ''server_terminal'' then Some Server_Terminal_Kind else None)"

definition backend_kind_of :: "ustr \<Rightarrow> backend_kind option" where
  "backend_kind_of t =
    (if t = u ''local'' then Some Local_Backend
     else if t = u ''remote'' then Some Remote_Backend else None)"

definition role_of :: "ustr \<Rightarrow> role option" where
  "role_of t =
    (if t = u ''shell'' then Some Shell_Role else if t = u ''file_run'' then Some File_Run_Role
     else if t = u ''remote_run'' then Some Remote_Run_Role else None)"

definition run_state_of :: "ustr \<Rightarrow> run_state option" where
  "run_state_of t =
    (if t = u ''preparing'' then Some Preparing else if t = u ''running'' then Some Running
     else if t = u ''finished'' then Some Finished else if t = u ''stopped'' then Some Stopped
     else if t = u ''failed'' then Some Failed else if t = u ''lost'' then Some Lost else None)"

definition source_kind_of :: "ustr \<Rightarrow> source_kind option" where
  "source_kind_of t =
    (if t = u ''workspace'' then Some Workspace_Source else if t = u ''git'' then Some Git_Source
     else if t = u ''archive'' then Some Archive_Source else None)"

definition terminal_state :: "run_state \<Rightarrow> bool" where
  "terminal_state st \<longleftrightarrow> st \<in> {Finished, Stopped, Failed, Lost}"

lemma terminal_state_simps [simp]:
  "\<not> terminal_state Preparing" "\<not> terminal_state Running" "terminal_state Finished"
  "terminal_state Stopped" "terminal_state Failed" "terminal_state Lost"
  by (simp_all add: terminal_state_def)

lemma not_terminal_state: "\<not> terminal_state st \<longleftrightarrow> st = Preparing \<or> st = Running"
  by (cases st) simp_all

section \<open>Rows\<close>

record root_row =
  r_id :: ustr
  r_path :: ustr
  r_created :: stamp

record workspace_row =
  w_id :: ustr
  w_root :: ustr
  w_relative :: ustr
  w_display :: ustr
  w_tmux :: ustr
  w_opened :: stamp
  w_tab :: ustr
  w_backend :: backend_kind
  w_computer :: "ustr option"
  w_canonical :: "ustr option"
  w_kind :: workspace_kind
  w_commands :: json_text

record computer_row =
  c_id :: ustr
  c_name :: ustr
  c_method :: connection_method
  c_auth :: ustr
  c_alias :: ustr
  c_host :: ustr
  c_port :: int
  c_username :: ustr
  c_identity :: ustr
  c_hostkey_type :: ustr
  c_hostkey_data :: ustr
  c_host_fingerprint :: ustr
  c_created :: stamp
  c_connected :: "stamp option"
  c_seen :: "stamp option"
  c_error :: "ustr option"
  c_run_base :: "ustr option"
  c_node_key :: ustr
  c_node_fingerprint :: ustr
  c_node_protocol :: "int option"
  c_node_capabilities :: "ustr list"
  c_revoked :: "stamp option"

record terminal_row =
  t_id :: ustr
  t_workspace :: ustr
  t_name :: ustr
  t_window :: ustr
  t_role :: role
  t_run :: "ustr option"
  t_created :: stamp
  t_opened :: stamp
  t_output :: "stamp option"
  t_activity :: "int option"

record activity_read_row =
  a_terminal :: ustr
  a_acknowledged :: int
  a_created :: stamp
  a_updated :: stamp

record history_row =
  h_id :: ustr
  h_workspace :: ustr
  h_terminal :: ustr
  h_command :: ustr
  h_created :: stamp

record command_claim_row =
  k_workspace :: ustr
  k_launch :: ustr
  k_slot :: int
  k_digest :: ustr
  k_created :: stamp

record file_run_row =
  f_id :: ustr
  f_workspace :: ustr
  f_key :: ustr
  f_path :: ustr
  f_digest :: ustr
  f_runner :: ustr
  f_runner_version :: int
  f_argv :: "ustr list"
  f_terminal :: "ustr option"
  f_state :: run_state
  f_revision :: int
  f_created :: stamp
  f_started :: "stamp option"
  f_stop :: "stamp option"
  f_ended :: "stamp option"
  f_exit :: "int option"
  f_error :: "ustr option"
  f_detail :: "ustr option"

record remote_run_row =
  m_id :: ustr
  m_kind :: source_kind
  m_format :: "ustr option"
  m_source_workspace :: "ustr option"
  m_source_path :: "ustr option"
  m_label :: ustr
  m_url :: "ustr option"
  m_options :: ustr
  m_source_revision :: "ustr option"
  m_source_size :: "int option"
  m_target :: ustr
  m_command :: ustr
  m_base :: ustr
  m_workspace :: "ustr option"
  m_state :: run_state
  m_phase :: "ustr option"
  m_exit :: "int option"
  m_error :: "ustr option"
  m_detail :: "ustr option"
  m_revision :: int
  m_created :: stamp
  m_started :: "stamp option"
  m_stop :: "stamp option"
  m_ended :: "stamp option"
  m_expires :: "stamp option"

record report_row =
  q_run :: ustr
  q_report :: ustr
  q_plan :: ustr
  q_created :: stamp
  q_json :: json_text

record event_row =
  e_sequence :: int
  e_id :: ustr
  e_kind :: ustr
  e_subject_type :: subject_type
  e_subject :: ustr
  e_revision :: int
  e_primary :: ustr
  e_secondary :: ustr
  e_exit :: "int option"
  e_duration :: "int option"
  e_occurred :: stamp
  e_created :: stamp
  e_read :: "stamp option"
  e_notify :: bool

record event_read_row =
  er_event :: ustr
  er_device :: ustr
  er_read :: stamp

record device_row =
  d_id :: ustr
  d_start :: int
  d_created :: stamp
  d_seen :: stamp

record event_claim_row =
  ec_event :: ustr
  ec_device :: ustr
  ec_claimed :: stamp

record pairing_row =
  pc_id :: ustr
  pc_hash :: ustr
  pc_created :: stamp
  pc_expires :: stamp
  pc_consumed :: "stamp option"

record enrollment_row =
  n_id :: ustr
  n_pairing :: ustr
  n_name :: ustr
  n_key :: ustr
  n_fingerprint :: ustr
  n_protocol :: int
  n_secret :: ustr
  n_status :: enrollment_status
  n_computer :: "ustr option"
  n_created :: stamp
  n_decided :: "stamp option"

text \<open>
  The whole store: the tables, the last value of the AUTOINCREMENT key of \<open>events\<close>, and the
  object's own \<open>_history_cleanup_at\<close> (a \<open>time.monotonic()\<close> reading).
\<close>

record store =
  roots :: "root_row list"
  workspaces :: "workspace_row list"
  computers :: "computer_row list"
  terminals :: "terminal_row list"
  activity_reads :: "activity_read_row list"
  command_history :: "history_row list"
  command_claims :: "command_claim_row list"
  file_runs :: "file_run_row list"
  remote_runs :: "remote_run_row list"
  reports :: "report_row list"
  events :: "event_row list"
  event_sequence :: int
  event_reads :: "event_read_row list"
  devices :: "device_row list"
  event_claims :: "event_claim_row list"
  pairing_codes :: "pairing_row list"
  enrollments :: "enrollment_row list"
  history_cleanup_at :: rat

definition empty_store :: store where
  "empty_store = \<lparr>roots = [], workspaces = [], computers = [], terminals = [], activity_reads = [],
     command_history = [], command_claims = [], file_runs = [], remote_runs = [], reports = [],
     events = [], event_sequence = 0, event_reads = [], devices = [], event_claims = [],
     pairing_codes = [], enrollments = [], history_cleanup_at = 0\<rparr>"

type_synonym 'a result = "db_error + 'a"

end
