(* ===== verification/Constraints.thy ===== *)
theory Constraints
  imports Schema
begin

text \<open>
  The constraints of the schema as executable predicates, one per table, and the primitive
  statements: inserting one row (which raises when a constraint forbids the row) and deleting
  rows with the foreign keys' ON DELETE actions. Each primitive keeps \<open>store_ok\<close>.
\<close>

section \<open>Constraints\<close>

definition unique_where :: "('r \<Rightarrow> bool) \<Rightarrow> ('r \<Rightarrow> 'k) \<Rightarrow> 'r list \<Rightarrow> bool" where
  "unique_where p key rs = distinct (map key (filter p rs))"

abbreviation root_ids :: "store \<Rightarrow> ustr set" where "root_ids s \<equiv> r_id ` set (roots s)"
abbreviation workspace_ids :: "store \<Rightarrow> ustr set" where "workspace_ids s \<equiv> w_id ` set (workspaces s)"
abbreviation computer_ids :: "store \<Rightarrow> ustr set" where "computer_ids s \<equiv> c_id ` set (computers s)"
abbreviation terminal_ids :: "store \<Rightarrow> ustr set" where "terminal_ids s \<equiv> t_id ` set (terminals s)"
abbreviation event_ids :: "store \<Rightarrow> ustr set" where "event_ids s \<equiv> e_id ` set (events s)"
abbreviation pairing_ids :: "store \<Rightarrow> ustr set" where "pairing_ids s \<equiv> pc_id ` set (pairing_codes s)"
abbreviation device_ids :: "store \<Rightarrow> ustr set" where "device_ids s \<equiv> d_id ` set (devices s)"

definition remote_located :: "workspace_row \<Rightarrow> bool" where
  "remote_located w \<longleftrightarrow> w_backend w = Remote_Backend \<and> w_computer w \<noteq> None \<and> w_canonical w \<noteq> None"

definition server_terminal_slot :: "workspace_row \<Rightarrow> bool" where
  "server_terminal_slot w \<longleftrightarrow> w_kind w = Server_Terminal_Kind \<and> w_computer w \<noteq> None"

definition managed :: "terminal_row \<Rightarrow> bool" where
  "managed t \<longleftrightarrow> t_role t \<noteq> Shell_Role"

definition active_file_run :: "file_run_row \<Rightarrow> bool" where
  "active_file_run f \<longleftrightarrow> f_state f \<in> {Preparing, Running}"

definition archive_format_ok :: "source_kind \<Rightarrow> ustr option \<Rightarrow> bool" where
  "archive_format_ok k fmt \<longleftrightarrow> (if k = Archive_Source then fmt = Some (u ''zip'') else fmt = None)"

definition roots_ok :: "root_row list \<Rightarrow> bool" where
  "roots_ok rs \<longleftrightarrow> distinct (map r_id rs) \<and> distinct (map r_path rs)"

definition workspaces_ok :: "ustr set \<Rightarrow> workspace_row list \<Rightarrow> bool" where
  "workspaces_ok R ws \<longleftrightarrow> distinct (map w_id ws)
     \<and> distinct (map (\<lambda>w. (w_root w, w_relative w)) ws) \<and> distinct (map w_tmux ws)
     \<and> unique_where remote_located (\<lambda>w. (w_computer w, w_canonical w, w_kind w)) ws
     \<and> unique_where server_terminal_slot w_computer ws
     \<and> (\<forall>w \<in> set ws. w_root w \<in> R)"

definition computers_ok :: "computer_row list \<Rightarrow> bool" where
  "computers_ok cs \<longleftrightarrow> distinct (map c_id cs) \<and> unique_where (\<lambda>c. c_method c = Node_Method) c_node_key cs"

definition terminals_ok :: "ustr set \<Rightarrow> terminal_row list \<Rightarrow> bool" where
  "terminals_ok W ts \<longleftrightarrow> distinct (map t_id ts)
     \<and> distinct (map (\<lambda>t. (t_workspace t, t_window t)) ts)
     \<and> unique_where managed (\<lambda>t. (t_workspace t, t_role t)) ts
     \<and> (\<forall>t \<in> set ts. t_workspace t \<in> W)"

definition activity_reads_ok :: "ustr set \<Rightarrow> activity_read_row list \<Rightarrow> bool" where
  "activity_reads_ok T as \<longleftrightarrow> distinct (map a_terminal as) \<and> (\<forall>a \<in> set as. a_terminal a \<in> T)"

definition command_history_ok :: "ustr set \<Rightarrow> ustr set \<Rightarrow> history_row list \<Rightarrow> bool" where
  "command_history_ok W T hs \<longleftrightarrow> distinct (map h_id hs)
     \<and> (\<forall>h \<in> set hs. h_workspace h \<in> W \<and> h_terminal h \<in> T)"

definition command_claims_ok :: "ustr set \<Rightarrow> command_claim_row list \<Rightarrow> bool" where
  "command_claims_ok W ks \<longleftrightarrow> distinct (map (\<lambda>k. (k_workspace k, k_launch k)) ks)
     \<and> (\<forall>k \<in> set ks. k_workspace k \<in> W)"

definition file_runs_ok :: "ustr set \<Rightarrow> ustr set \<Rightarrow> file_run_row list \<Rightarrow> bool" where
  "file_runs_ok W T fs \<longleftrightarrow> distinct (map f_id fs) \<and> distinct (map (\<lambda>f. (f_workspace f, f_key f)) fs)
     \<and> unique_where active_file_run f_workspace fs
     \<and> (\<forall>f \<in> set fs. f_workspace f \<in> W \<and> set_option (f_terminal f) \<subseteq> T)"

definition remote_runs_ok :: "ustr set \<Rightarrow> ustr set \<Rightarrow> remote_run_row list \<Rightarrow> bool" where
  "remote_runs_ok W C ms \<longleftrightarrow> distinct (map m_id ms)
     \<and> unique_where (\<lambda>m. m_workspace m \<noteq> None) m_workspace ms
     \<and> (\<forall>m \<in> set ms. archive_format_ok (m_kind m) (m_format m) \<and> m_target m \<in> C
          \<and> set_option (m_workspace m) \<subseteq> W \<and> set_option (m_source_workspace m) \<subseteq> W)"

definition reports_ok :: "report_row list \<Rightarrow> bool" where
  "reports_ok qs \<longleftrightarrow> distinct (map q_run qs) \<and> distinct (map q_report qs)"

definition events_ok :: "int \<Rightarrow> event_row list \<Rightarrow> bool" where
  "events_ok n es \<longleftrightarrow> sorted_wrt (<) (map e_sequence es) \<and> (\<forall>e \<in> set es. e_sequence e \<le> n)
     \<and> distinct (map e_id es)
     \<and> distinct (map (\<lambda>e. (e_subject_type e, e_subject e, e_revision e)) es)"

definition event_reads_ok :: "ustr set \<Rightarrow> event_read_row list \<Rightarrow> bool" where
  "event_reads_ok E rs \<longleftrightarrow> distinct (map (\<lambda>r. (er_event r, er_device r)) rs)
     \<and> (\<forall>r \<in> set rs. er_event r \<in> E)"

definition devices_ok :: "device_row list \<Rightarrow> bool" where
  "devices_ok ds \<longleftrightarrow> distinct (map d_id ds)"

definition event_claims_ok :: "ustr set \<Rightarrow> ustr set \<Rightarrow> event_claim_row list \<Rightarrow> bool" where
  "event_claims_ok E D cs \<longleftrightarrow> distinct (map (\<lambda>c. (ec_event c, ec_device c)) cs)
     \<and> (\<forall>c \<in> set cs. ec_event c \<in> E \<and> ec_device c \<in> D)"

definition pairing_ok :: "pairing_row list \<Rightarrow> bool" where
  "pairing_ok ps \<longleftrightarrow> distinct (map pc_id ps) \<and> distinct (map pc_hash ps)"

definition enrollments_ok :: "ustr set \<Rightarrow> ustr set \<Rightarrow> enrollment_row list \<Rightarrow> bool" where
  "enrollments_ok P C ns \<longleftrightarrow> distinct (map n_id ns) \<and> distinct (map n_pairing ns)
     \<and> (\<forall>n \<in> set ns. n_pairing n \<in> P \<and> set_option (n_computer n) \<subseteq> C)"

definition store_ok :: "store \<Rightarrow> bool" where
  "store_ok s \<longleftrightarrow> roots_ok (roots s) \<and> workspaces_ok (root_ids s) (workspaces s)
     \<and> computers_ok (computers s) \<and> terminals_ok (workspace_ids s) (terminals s)
     \<and> activity_reads_ok (terminal_ids s) (activity_reads s)
     \<and> command_history_ok (workspace_ids s) (terminal_ids s) (command_history s)
     \<and> command_claims_ok (workspace_ids s) (command_claims s)
     \<and> file_runs_ok (workspace_ids s) (terminal_ids s) (file_runs s)
     \<and> remote_runs_ok (workspace_ids s) (computer_ids s) (remote_runs s)
     \<and> reports_ok (reports s) \<and> events_ok (event_sequence s) (events s)
     \<and> event_reads_ok (event_ids s) (event_reads s) \<and> devices_ok (devices s)
     \<and> event_claims_ok (event_ids s) (device_ids s) (event_claims s)
     \<and> pairing_ok (pairing_codes s) \<and> enrollments_ok (pairing_ids s) (computer_ids s) (enrollments s)"

lemmas table_ok_defs =
  roots_ok_def workspaces_ok_def computers_ok_def terminals_ok_def activity_reads_ok_def
  command_history_ok_def command_claims_ok_def file_runs_ok_def remote_runs_ok_def reports_ok_def
  events_ok_def event_reads_ok_def devices_ok_def event_claims_ok_def pairing_ok_def enrollments_ok_def

text \<open>More parent keys keep the foreign keys satisfied.\<close>

lemma parents_mono:
  "workspaces_ok R ws \<Longrightarrow> R \<subseteq> R' \<Longrightarrow> workspaces_ok R' ws"
  "terminals_ok W ts \<Longrightarrow> W \<subseteq> W' \<Longrightarrow> terminals_ok W' ts"
  "activity_reads_ok T as \<Longrightarrow> T \<subseteq> T' \<Longrightarrow> activity_reads_ok T' as"
  "command_history_ok W T hs \<Longrightarrow> W \<subseteq> W' \<Longrightarrow> T \<subseteq> T' \<Longrightarrow> command_history_ok W' T' hs"
  "command_claims_ok W ks \<Longrightarrow> W \<subseteq> W' \<Longrightarrow> command_claims_ok W' ks"
  "file_runs_ok W T fs \<Longrightarrow> W \<subseteq> W' \<Longrightarrow> T \<subseteq> T' \<Longrightarrow> file_runs_ok W' T' fs"
  "remote_runs_ok W C ms \<Longrightarrow> W \<subseteq> W' \<Longrightarrow> C \<subseteq> C' \<Longrightarrow> remote_runs_ok W' C' ms"
  "event_reads_ok E rs \<Longrightarrow> E \<subseteq> E' \<Longrightarrow> event_reads_ok E' rs"
  "event_claims_ok E D cs \<Longrightarrow> E \<subseteq> E' \<Longrightarrow> D \<subseteq> D' \<Longrightarrow> event_claims_ok E' D' cs"
  "enrollments_ok P C ns \<Longrightarrow> P \<subseteq> P' \<Longrightarrow> C \<subseteq> C' \<Longrightarrow> enrollments_ok P' C' ns"
  by (simp_all add: table_ok_defs) blast+

lemma store_ok_empty: "store_ok empty_store"
  by (simp add: store_ok_def table_ok_defs unique_where_def empty_store_def)

lemma unique_where_Nil [simp]: "unique_where p k []"
  by (simp add: unique_where_def)

lemma unique_where_Cons [simp]:
  "unique_where p k (r # rs) \<longleftrightarrow> unique_where p k rs \<and> (p r \<longrightarrow> (\<forall>x \<in> set rs. p x \<longrightarrow> k x \<noteq> k r))"
  by (auto simp: unique_where_def image_iff)

lemma unique_where_append1 [simp]:
  "unique_where p k (rs @ [r]) \<longleftrightarrow> unique_where p k rs \<and> (p r \<longrightarrow> (\<forall>x \<in> set rs. p x \<longrightarrow> k x \<noteq> k r))"
  by (induction rs) auto

lemma unique_where_iff_inj:
  "distinct rs \<Longrightarrow> unique_where p k rs \<longleftrightarrow> inj_on k {r \<in> set rs. p r}"
  by (simp add: unique_where_def distinct_map)

lemma unique_where_filter: "unique_where p k rs \<Longrightarrow> unique_where p k (filter q rs)"
  by (induction rs) auto

lemma unique_where_map:
  assumes "unique_where p k rs" and "\<And>r. r \<in> set rs \<Longrightarrow> p (f r) \<Longrightarrow> p r"
    and "\<And>r. r \<in> set rs \<Longrightarrow> p (f r) \<Longrightarrow> k (f r) = k r"
  shows "unique_where p k (map f rs)"
  using assms by (induction rs) auto

section \<open>Inserting one row\<close>

definition insert_root :: "root_row \<Rightarrow> store \<Rightarrow> store result" where
  "insert_root r s =
    (if r_id r \<notin> root_ids s \<and> r_path r \<notin> set (map r_path (roots s))
     then Inr (s\<lparr>roots := roots s @ [r]\<rparr>) else Inl IntegrityError)"

definition insert_workspace :: "workspace_row \<Rightarrow> store \<Rightarrow> store result" where
  "insert_workspace w s =
    (if w_id w \<notin> workspace_ids s
        \<and> (\<forall>v \<in> set (workspaces s). (w_root v, w_relative v) \<noteq> (w_root w, w_relative w)
             \<and> w_tmux v \<noteq> w_tmux w
             \<and> (remote_located v \<and> remote_located w \<longrightarrow>
                  (w_computer v, w_canonical v, w_kind v) \<noteq> (w_computer w, w_canonical w, w_kind w))
             \<and> (server_terminal_slot v \<and> server_terminal_slot w \<longrightarrow> w_computer v \<noteq> w_computer w))
        \<and> w_root w \<in> root_ids s
     then Inr (s\<lparr>workspaces := workspaces s @ [w]\<rparr>) else Inl IntegrityError)"

definition insert_computer :: "computer_row \<Rightarrow> store \<Rightarrow> store result" where
  "insert_computer c s =
    (if c_id c \<notin> computer_ids s
        \<and> (\<forall>d \<in> set (computers s). c_method c = Node_Method \<and> c_method d = Node_Method \<longrightarrow>
             c_node_key d \<noteq> c_node_key c)
     then Inr (s\<lparr>computers := computers s @ [c]\<rparr>) else Inl IntegrityError)"

definition insert_terminal :: "terminal_row \<Rightarrow> store \<Rightarrow> store result" where
  "insert_terminal t s =
    (if t_id t \<notin> terminal_ids s
        \<and> (\<forall>x \<in> set (terminals s). (t_workspace x, t_window x) \<noteq> (t_workspace t, t_window t)
             \<and> (managed x \<and> managed t \<longrightarrow> (t_workspace x, t_role x) \<noteq> (t_workspace t, t_role t)))
        \<and> t_workspace t \<in> workspace_ids s
     then Inr (s\<lparr>terminals := terminals s @ [t]\<rparr>) else Inl IntegrityError)"

definition insert_activity_read :: "activity_read_row \<Rightarrow> store \<Rightarrow> store result" where
  "insert_activity_read a s =
    (if a_terminal a \<notin> set (map a_terminal (activity_reads s)) \<and> a_terminal a \<in> terminal_ids s
     then Inr (s\<lparr>activity_reads := activity_reads s @ [a]\<rparr>) else Inl IntegrityError)"

definition insert_history :: "history_row \<Rightarrow> store \<Rightarrow> store result" where
  "insert_history h s =
    (if h_id h \<notin> set (map h_id (command_history s)) \<and> h_workspace h \<in> workspace_ids s
        \<and> h_terminal h \<in> terminal_ids s
     then Inr (s\<lparr>command_history := command_history s @ [h]\<rparr>) else Inl IntegrityError)"

definition insert_command_claim :: "command_claim_row \<Rightarrow> store \<Rightarrow> store result" where
  "insert_command_claim k s =
    (if (k_workspace k, k_launch k) \<notin> set (map (\<lambda>k. (k_workspace k, k_launch k)) (command_claims s))
        \<and> k_workspace k \<in> workspace_ids s
     then Inr (s\<lparr>command_claims := command_claims s @ [k]\<rparr>) else Inl IntegrityError)"

definition insert_file_run :: "file_run_row \<Rightarrow> store \<Rightarrow> store result" where
  "insert_file_run f s =
    (if f_id f \<notin> set (map f_id (file_runs s))
        \<and> (\<forall>g \<in> set (file_runs s). (f_workspace g, f_key g) \<noteq> (f_workspace f, f_key f)
             \<and> (active_file_run g \<and> active_file_run f \<longrightarrow> f_workspace g \<noteq> f_workspace f))
        \<and> f_workspace f \<in> workspace_ids s \<and> set_option (f_terminal f) \<subseteq> terminal_ids s
     then Inr (s\<lparr>file_runs := file_runs s @ [f]\<rparr>) else Inl IntegrityError)"

definition insert_remote_run :: "remote_run_row \<Rightarrow> store \<Rightarrow> store result" where
  "insert_remote_run m s =
    (if m_id m \<notin> set (map m_id (remote_runs s)) \<and> archive_format_ok (m_kind m) (m_format m)
        \<and> (\<forall>x \<in> set (remote_runs s). m_workspace m \<noteq> None \<longrightarrow> m_workspace x \<noteq> m_workspace m)
        \<and> m_target m \<in> computer_ids s \<and> set_option (m_workspace m) \<subseteq> workspace_ids s
        \<and> set_option (m_source_workspace m) \<subseteq> workspace_ids s
     then Inr (s\<lparr>remote_runs := remote_runs s @ [m]\<rparr>) else Inl IntegrityError)"

text \<open>The AUTOINCREMENT key of a new event is above every key ever used; an event for a
  \<open>(subject_type, subject_id, subject_revision)\<close> already present is skipped
  (\<^verbatim>\<open>ON CONFLICT ... DO NOTHING\<close>).\<close>

definition insert_event_or_ignore :: "event_row \<Rightarrow> store \<Rightarrow> store result" where
  "insert_event_or_ignore e s =
    (if (e_subject_type e, e_subject e, e_revision e)
        \<in> set (map (\<lambda>e. (e_subject_type e, e_subject e, e_revision e)) (events s)) then Inr s
     else if e_id e \<in> event_ids s then Inl IntegrityError
     else Inr (s\<lparr>events := events s @ [e\<lparr>e_sequence := event_sequence s + 1\<rparr>],
                 event_sequence := event_sequence s + 1\<rparr>))"

definition insert_device :: "device_row \<Rightarrow> store \<Rightarrow> store result" where
  "insert_device d s =
    (if d_id d \<notin> device_ids s then Inr (s\<lparr>devices := devices s @ [d]\<rparr>) else Inl IntegrityError)"

definition insert_pairing :: "pairing_row \<Rightarrow> store \<Rightarrow> store result" where
  "insert_pairing p s =
    (if pc_id p \<notin> set (map pc_id (pairing_codes s)) \<and> pc_hash p \<notin> set (map pc_hash (pairing_codes s))
     then Inr (s\<lparr>pairing_codes := pairing_codes s @ [p]\<rparr>) else Inl IntegrityError)"

definition insert_enrollment :: "enrollment_row \<Rightarrow> store \<Rightarrow> store result" where
  "insert_enrollment n s =
    (if n_id n \<notin> set (map n_id (enrollments s)) \<and> n_pairing n \<notin> set (map n_pairing (enrollments s))
        \<and> n_pairing n \<in> pairing_ids s
        \<and> set_option (n_computer n) \<subseteq> computer_ids s
     then Inr (s\<lparr>enrollments := enrollments s @ [n]\<rparr>) else Inl IntegrityError)"

lemmas insert_defs =
  insert_root_def insert_workspace_def insert_computer_def insert_terminal_def
  insert_activity_read_def insert_history_def insert_command_claim_def insert_file_run_def
  insert_remote_run_def insert_event_or_ignore_def insert_device_def insert_pairing_def
  insert_enrollment_def

lemma subset_insertI_refl: "A \<subseteq> insert x A" "A \<subseteq> A"
  by auto

lemma insert_root_ok [inv_intros]: "insert_root r s = Inr s' \<Longrightarrow> store_ok s \<Longrightarrow> store_ok s'"
  unfolding insert_root_def store_ok_def
  by (clarsimp split: if_splits)
    ((intro conjI)?; ((erule parents_mono; blast) | auto simp: roots_ok_def))

lemma insert_workspace_ok [inv_intros]: "insert_workspace w s = Inr s' \<Longrightarrow> store_ok s \<Longrightarrow> store_ok s'"
  unfolding insert_workspace_def store_ok_def
  by (clarsimp split: if_splits)
    ((intro conjI)?; ((erule parents_mono; blast) | auto simp: workspaces_ok_def))

lemma insert_computer_ok [inv_intros]: "insert_computer c s = Inr s' \<Longrightarrow> store_ok s \<Longrightarrow> store_ok s'"
  unfolding insert_computer_def store_ok_def
  by (clarsimp split: if_splits)
    ((intro conjI)?; ((erule parents_mono; blast) | auto simp: computers_ok_def))

lemma insert_terminal_ok [inv_intros]: "insert_terminal t s = Inr s' \<Longrightarrow> store_ok s \<Longrightarrow> store_ok s'"
  unfolding insert_terminal_def store_ok_def
  by (clarsimp split: if_splits)
    ((intro conjI)?; ((erule parents_mono; blast) | auto simp: terminals_ok_def))

lemma insert_activity_read_ok [inv_intros]: "insert_activity_read a s = Inr s' \<Longrightarrow> store_ok s \<Longrightarrow> store_ok s'"
  unfolding insert_activity_read_def store_ok_def
  by (clarsimp split: if_splits)
    ((intro conjI)?; ((erule parents_mono; blast) | auto simp: activity_reads_ok_def))

lemma insert_history_ok [inv_intros]: "insert_history h s = Inr s' \<Longrightarrow> store_ok s \<Longrightarrow> store_ok s'"
  unfolding insert_history_def store_ok_def
  by (clarsimp split: if_splits)
    ((intro conjI)?; ((erule parents_mono; blast) | auto simp: command_history_ok_def))

lemma insert_command_claim_ok [inv_intros]: "insert_command_claim k s = Inr s' \<Longrightarrow> store_ok s \<Longrightarrow> store_ok s'"
  unfolding insert_command_claim_def store_ok_def
  by (clarsimp split: if_splits)
    ((intro conjI)?; ((erule parents_mono; blast) | auto simp: command_claims_ok_def))

lemma insert_file_run_ok [inv_intros]: "insert_file_run f s = Inr s' \<Longrightarrow> store_ok s \<Longrightarrow> store_ok s'"
  unfolding insert_file_run_def store_ok_def
  by (clarsimp split: if_splits)
    ((intro conjI)?; ((erule parents_mono; blast) | auto simp: file_runs_ok_def))

lemma insert_remote_run_ok [inv_intros]: "insert_remote_run m s = Inr s' \<Longrightarrow> store_ok s \<Longrightarrow> store_ok s'"
  unfolding insert_remote_run_def store_ok_def
  by (clarsimp split: if_splits)
    ((intro conjI)?; ((erule parents_mono; blast) | auto simp: remote_runs_ok_def))

lemma insert_device_ok [inv_intros]: "insert_device d s = Inr s' \<Longrightarrow> store_ok s \<Longrightarrow> store_ok s'"
  unfolding insert_device_def store_ok_def
  by (clarsimp split: if_splits)
    ((intro conjI)?; ((erule parents_mono; blast) | auto simp: devices_ok_def))

lemma insert_pairing_ok [inv_intros]: "insert_pairing p s = Inr s' \<Longrightarrow> store_ok s \<Longrightarrow> store_ok s'"
  unfolding insert_pairing_def store_ok_def
  by (clarsimp split: if_splits)
    ((intro conjI)?; ((erule parents_mono; blast) | auto simp: pairing_ok_def))

lemma insert_enrollment_ok [inv_intros]: "insert_enrollment n s = Inr s' \<Longrightarrow> store_ok s \<Longrightarrow> store_ok s'"
  unfolding insert_enrollment_def store_ok_def
  by (clarsimp split: if_splits)
    ((intro conjI)?; ((erule parents_mono; blast) | auto simp: enrollments_ok_def))

lemma insert_event_ok [inv_intros]:
  "insert_event_or_ignore e s = Inr s' \<Longrightarrow> store_ok s \<Longrightarrow> store_ok s'"
  unfolding insert_event_or_ignore_def store_ok_def
  by (clarsimp split: if_splits)
    ((intro conjI)?; ((erule parents_mono; blast) | force simp: events_ok_def sorted_wrt_append))

section \<open>Deleting rows\<close>

text \<open>
  \<^verbatim>\<open>DELETE ... WHERE p\<close> with the ON DELETE action of every foreign key that points at the table:
  CASCADE removes the referencing rows, SET NULL clears the referencing column, no action
  refuses.
\<close>

definition set_null :: "ustr set \<Rightarrow> ustr option \<Rightarrow> ustr option" where
  "set_null gone x = (case x of None \<Rightarrow> None | Some i \<Rightarrow> if i \<in> gone then None else Some i)"

definition delete_terminals :: "(terminal_row \<Rightarrow> bool) \<Rightarrow> store \<Rightarrow> store" where
  "delete_terminals p s =
    (let gone = t_id ` set (filter p (terminals s)) in
     s\<lparr>terminals := filter (\<lambda>t. \<not> p t) (terminals s),
       activity_reads := filter (\<lambda>a. a_terminal a \<notin> gone) (activity_reads s),
       command_history := filter (\<lambda>h. h_terminal h \<notin> gone) (command_history s),
       file_runs := map (\<lambda>f. f\<lparr>f_terminal := set_null gone (f_terminal f)\<rparr>) (file_runs s)\<rparr>)"

definition delete_workspaces :: "(workspace_row \<Rightarrow> bool) \<Rightarrow> store \<Rightarrow> store" where
  "delete_workspaces p s0 =
    (let gone = w_id ` set (filter p (workspaces s0));
         s = delete_terminals (\<lambda>t. t_workspace t \<in> gone) s0 in
     s\<lparr>workspaces := filter (\<lambda>w. \<not> p w) (workspaces s),
       command_history := filter (\<lambda>h. h_workspace h \<notin> gone) (command_history s),
       command_claims := filter (\<lambda>k. k_workspace k \<notin> gone) (command_claims s),
       file_runs := filter (\<lambda>f. f_workspace f \<notin> gone) (file_runs s),
       remote_runs := map (\<lambda>m. m\<lparr>m_source_workspace := set_null gone (m_source_workspace m),
                                  m_workspace := set_null gone (m_workspace m)\<rparr>) (remote_runs s)\<rparr>)"

definition delete_roots :: "(root_row \<Rightarrow> bool) \<Rightarrow> store \<Rightarrow> store" where
  "delete_roots p s0 =
    (let gone = r_id ` set (filter p (roots s0));
         s = delete_workspaces (\<lambda>w. w_root w \<in> gone) s0 in
     s\<lparr>roots := filter (\<lambda>r. \<not> p r) (roots s)\<rparr>)"

definition delete_computers :: "(computer_row \<Rightarrow> bool) \<Rightarrow> store \<Rightarrow> store result" where
  "delete_computers p s =
    (let gone = c_id ` set (filter p (computers s)) in
     if \<exists>m \<in> set (remote_runs s). m_target m \<in> gone then Inl IntegrityError
     else Inr (s\<lparr>computers := filter (\<lambda>c. \<not> p c) (computers s),
                 enrollments := map (\<lambda>n. n\<lparr>n_computer := set_null gone (n_computer n)\<rparr>) (enrollments s)\<rparr>))"

definition delete_events :: "(event_row \<Rightarrow> bool) \<Rightarrow> store \<Rightarrow> store" where
  "delete_events p s =
    (let gone = e_id ` set (filter p (events s)) in
     s\<lparr>events := filter (\<lambda>e. \<not> p e) (events s),
       event_reads := filter (\<lambda>r. er_event r \<notin> gone) (event_reads s),
       event_claims := filter (\<lambda>c. ec_event c \<notin> gone) (event_claims s)\<rparr>)"

definition delete_devices :: "(device_row \<Rightarrow> bool) \<Rightarrow> store \<Rightarrow> store" where
  "delete_devices p s =
    (let gone = d_id ` set (filter p (devices s)) in
     s\<lparr>devices := filter (\<lambda>d. \<not> p d) (devices s),
       event_claims := filter (\<lambda>c. ec_device c \<notin> gone) (event_claims s)\<rparr>)"

definition delete_pairing_codes :: "(pairing_row \<Rightarrow> bool) \<Rightarrow> store \<Rightarrow> store" where
  "delete_pairing_codes p s =
    (let gone = pc_id ` set (filter p (pairing_codes s)) in
     s\<lparr>pairing_codes := filter (\<lambda>c. \<not> p c) (pairing_codes s),
       enrollments := filter (\<lambda>n. n_pairing n \<notin> gone) (enrollments s)\<rparr>)"

lemma kept_keys:
  assumes "distinct (map key rs)"
  shows "key ` {r \<in> set rs. \<not> p r} = key ` set rs - key ` {r \<in> set rs. p r}"
  using assms by (auto simp: distinct_map inj_on_def)

lemma set_null_subset: "set_option x \<subseteq> A \<Longrightarrow> set_option (set_null G x) \<subseteq> A - G"
  by (auto simp: set_null_def split: option.splits)

lemma set_null_Some_iff: "set_null G x = Some i \<longleftrightarrow> x = Some i \<and> i \<notin> G"
  by (auto simp: set_null_def split: option.splits)

lemma rows_filtered:
  "roots_ok rs \<Longrightarrow> roots_ok (filter pr rs)"
  "workspaces_ok R ws \<Longrightarrow> workspaces_ok R (filter pw ws)"
  "computers_ok cs \<Longrightarrow> computers_ok (filter pc cs)"
  "terminals_ok W ts \<Longrightarrow> terminals_ok W (filter pt ts)"
  "activity_reads_ok T as \<Longrightarrow> activity_reads_ok T (filter pa as)"
  "command_history_ok W T hs \<Longrightarrow> command_history_ok W T (filter ph hs)"
  "command_claims_ok W ks \<Longrightarrow> command_claims_ok W (filter pk ks)"
  "file_runs_ok W T fs \<Longrightarrow> file_runs_ok W T (filter pf fs)"
  "remote_runs_ok W C ms \<Longrightarrow> remote_runs_ok W C (filter pm ms)"
  "reports_ok qs \<Longrightarrow> reports_ok (filter pq qs)"
  "events_ok n es \<Longrightarrow> events_ok n (filter pe es)"
  "event_reads_ok E ers \<Longrightarrow> event_reads_ok E (filter per ers)"
  "devices_ok ds \<Longrightarrow> devices_ok (filter pd ds)"
  "event_claims_ok E D ecs \<Longrightarrow> event_claims_ok E D (filter pec ecs)"
  "pairing_ok ps \<Longrightarrow> pairing_ok (filter pp ps)"
  "enrollments_ok P C ns \<Longrightarrow> enrollments_ok P C (filter pn ns)"
  by (simp_all add: table_ok_defs unique_where_filter distinct_map_filter sorted_wrt_map sorted_wrt_filter)

lemma children_cascade:
  "workspaces_ok R ws \<Longrightarrow> workspaces_ok (R - G) (filter (\<lambda>w. w_root w \<notin> G) ws)"
  "terminals_ok W ts \<Longrightarrow> terminals_ok (W - G) (filter (\<lambda>t. t_workspace t \<notin> G) ts)"
  "activity_reads_ok T as \<Longrightarrow> activity_reads_ok (T - G) (filter (\<lambda>a. a_terminal a \<notin> G) as)"
  "command_history_ok W T hs \<Longrightarrow> command_history_ok W (T - G) (filter (\<lambda>h. h_terminal h \<notin> G) hs)"
  "command_history_ok W T hs \<Longrightarrow> command_history_ok (W - G) T (filter (\<lambda>h. h_workspace h \<notin> G) hs)"
  "command_claims_ok W ks \<Longrightarrow> command_claims_ok (W - G) (filter (\<lambda>k. k_workspace k \<notin> G) ks)"
  "file_runs_ok W T fs \<Longrightarrow> file_runs_ok (W - G) T (filter (\<lambda>f. f_workspace f \<notin> G) fs)"
  "event_reads_ok E rs \<Longrightarrow> event_reads_ok (E - G) (filter (\<lambda>r. er_event r \<notin> G) rs)"
  "event_claims_ok E D cs \<Longrightarrow> event_claims_ok (E - G) D (filter (\<lambda>c. ec_event c \<notin> G) cs)"
  "event_claims_ok E D cs \<Longrightarrow> event_claims_ok E (D - G) (filter (\<lambda>c. ec_device c \<notin> G) cs)"
  "enrollments_ok P C ns \<Longrightarrow> enrollments_ok (P - G) C (filter (\<lambda>n. n_pairing n \<notin> G) ns)"
  by (simp_all add: table_ok_defs unique_where_filter distinct_map_filter)

lemma file_runs_set_null:
  assumes "file_runs_ok W T fs"
  shows "file_runs_ok W (T - G) (map (\<lambda>f. f\<lparr>f_terminal := set_null G (f_terminal f)\<rparr>) fs)"
proof -
  have "unique_where active_file_run f_workspace (map (\<lambda>f. f\<lparr>f_terminal := set_null G (f_terminal f)\<rparr>) fs)"
    using assms by (intro unique_where_map) (simp_all add: file_runs_ok_def active_file_run_def)
  moreover have "\<forall>f \<in> set fs. set_option (set_null G (f_terminal f)) \<subseteq> T - G"
    using assms set_null_subset unfolding file_runs_ok_def by blast
  ultimately show ?thesis using assms by (simp add: file_runs_ok_def comp_def)
qed

lemma enrollments_set_null:
  assumes "enrollments_ok P C ns"
  shows "enrollments_ok P (C - G) (map (\<lambda>n. n\<lparr>n_computer := set_null G (n_computer n)\<rparr>) ns)"
proof -
  have "\<forall>n \<in> set ns. set_option (set_null G (n_computer n)) \<subseteq> C - G"
    using assms set_null_subset unfolding enrollments_ok_def by blast
  with assms show ?thesis by (simp add: enrollments_ok_def comp_def)
qed

lemma remote_runs_set_null:
  assumes "remote_runs_ok W C ms"
  shows "remote_runs_ok (W - G) C (map (\<lambda>m. m\<lparr>m_source_workspace := set_null G (m_source_workspace m),
    m_workspace := set_null G (m_workspace m)\<rparr>) ms)" (is "remote_runs_ok _ _ (map ?f ms)")
proof -
  have "unique_where (\<lambda>m. m_workspace m \<noteq> None) m_workspace (map ?f ms)"
    using assms by (intro unique_where_map) (auto simp: remote_runs_ok_def set_null_Some_iff set_null_def split: option.splits if_splits)
  moreover have "\<forall>m \<in> set ms. set_option (set_null G (m_workspace m)) \<subseteq> W - G
      \<and> set_option (set_null G (m_source_workspace m)) \<subseteq> W - G"
    using assms set_null_subset unfolding remote_runs_ok_def by blast
  ultimately show ?thesis using assms by (simp add: remote_runs_ok_def comp_def)
qed

lemma distinct_ids:
  "store_ok s \<Longrightarrow> distinct (map r_id (roots s))"
  "store_ok s \<Longrightarrow> distinct (map w_id (workspaces s))"
  "store_ok s \<Longrightarrow> distinct (map c_id (computers s))"
  "store_ok s \<Longrightarrow> distinct (map t_id (terminals s))"
  "store_ok s \<Longrightarrow> distinct (map f_id (file_runs s))"
  "store_ok s \<Longrightarrow> distinct (map m_id (remote_runs s))"
  "store_ok s \<Longrightarrow> distinct (map e_id (events s))"
  "store_ok s \<Longrightarrow> distinct (map d_id (devices s))"
  "store_ok s \<Longrightarrow> distinct (map pc_id (pairing_codes s))"
  "store_ok s \<Longrightarrow> distinct (map n_id (enrollments s))"
  by (simp_all add: store_ok_def table_ok_defs)

lemma delete_terminals_ok [inv_intros]:
  assumes "store_ok s"
  shows "store_ok (delete_terminals p s)"
  using assms
  by (simp add: store_ok_def delete_terminals_def Let_def rows_filtered kept_keys [OF distinct_ids(4) [OF assms]]
      children_cascade file_runs_set_null)

lemma delete_workspaces_ok [inv_intros]:
  assumes ok: "store_ok s"
  shows "store_ok (delete_workspaces p s)"
proof -
  let ?G = "w_id ` set (filter p (workspaces s))"
  let ?s = "delete_terminals (\<lambda>t. t_workspace t \<in> ?G) s"
  have s: "store_ok ?s" using ok by (rule delete_terminals_ok)
  have ws: "workspaces ?s = workspaces s" by (simp add: delete_terminals_def Let_def)
  have "\<forall>t \<in> set (terminals ?s). t_workspace t \<notin> ?G" by (simp add: delete_terminals_def Let_def)
  then have ts: "terminals_ok (workspace_ids s - ?G) (terminals ?s)"
    using s ws by (auto simp: store_ok_def terminals_ok_def)
  show ?thesis
    using s ts unfolding delete_workspaces_def store_ok_def Let_def ws
    by (simp add: rows_filtered kept_keys [OF distinct_ids(2) [OF ok]] children_cascade
        remote_runs_set_null)
qed

lemma delete_roots_ok [inv_intros]:
  assumes ok: "store_ok s"
  shows "store_ok (delete_roots p s)"
proof -
  let ?G = "r_id ` set (filter p (roots s))"
  let ?s = "delete_workspaces (\<lambda>w. w_root w \<in> ?G) s"
  have s: "store_ok ?s" using ok by (rule delete_workspaces_ok)
  have rs: "roots ?s = roots s" by (simp add: delete_workspaces_def delete_terminals_def Let_def)
  have "\<forall>w \<in> set (workspaces ?s). w_root w \<notin> ?G"
    by (simp add: delete_workspaces_def delete_terminals_def Let_def)
  then have "workspaces_ok (root_ids s - ?G) (workspaces ?s)"
    using s rs by (auto simp: store_ok_def workspaces_ok_def)
  with s show ?thesis
    unfolding delete_roots_def store_ok_def Let_def rs
    by (simp add: rows_filtered kept_keys [OF distinct_ids(1) [OF ok]])
qed

lemma delete_computers_ok [inv_intros]:
  assumes "delete_computers p s = Inr s'" and ok: "store_ok s"
  shows "store_ok s'"
proof -
  let ?G = "c_id ` set (filter p (computers s))"
  have "remote_runs_ok (workspace_ids s) (computer_ids s - ?G) (remote_runs s)"
    using assms by (auto simp: delete_computers_def Let_def store_ok_def remote_runs_ok_def split: if_splits)
  with assms show ?thesis
    unfolding delete_computers_def Let_def
    by (auto simp: store_ok_def rows_filtered kept_keys [OF distinct_ids(3) [OF ok]]
        enrollments_set_null split: if_splits)
qed

lemma delete_events_ok [inv_intros]:
  assumes "store_ok s"
  shows "store_ok (delete_events p s)"
  using assms
  by (simp add: store_ok_def delete_events_def Let_def rows_filtered kept_keys [OF distinct_ids(7) [OF assms]]
      children_cascade)

lemma delete_devices_ok [inv_intros]:
  assumes "store_ok s"
  shows "store_ok (delete_devices p s)"
  using assms
  by (simp add: store_ok_def delete_devices_def Let_def rows_filtered kept_keys [OF distinct_ids(8) [OF assms]]
      children_cascade)

lemma delete_pairing_codes_ok [inv_intros]:
  assumes "store_ok s"
  shows "store_ok (delete_pairing_codes p s)"
  using assms
  by (simp add: store_ok_def delete_pairing_codes_def Let_def rows_filtered
      kept_keys [OF distinct_ids(9) [OF assms]] children_cascade)

section \<open>Updating rows\<close>

text \<open>An UPDATE that leaves the constrained columns of its table alone keeps every constraint.\<close>

lemma keys_update_where:
  assumes "\<And>r. p r \<Longrightarrow> k (f r) = k r"
  shows "k ` set (update_where p f rs) = k ` set rs"
  unfolding set_update_where image_image using assms by (intro image_cong) auto

lemma unique_where_update:
  assumes "unique_where q k rs" and "\<And>r. p r \<Longrightarrow> q (f r) \<Longrightarrow> q r \<and> k (f r) = k r"
  shows "unique_where q k (update_where p f rs)"
  unfolding update_where_def using assms by (intro unique_where_map) (auto split: if_splits)

lemma ball_update_where:
  "(\<forall>r \<in> set (update_where p f rs). Q r) \<longleftrightarrow> (\<forall>r \<in> set rs. if p r then Q (f r) else Q r)"
  by (auto simp: set_update_where)

lemmas update_table = map_update_where_same ball_update_where

text \<open>Replacing one table by rows with the same keys.\<close>

lemma store_ok_tables:
  "store_ok s \<Longrightarrow> workspaces_ok (root_ids s) ws \<Longrightarrow> w_id ` set ws = workspace_ids s \<Longrightarrow>
     store_ok (s\<lparr>workspaces := ws\<rparr>)"
  "store_ok s \<Longrightarrow> computers_ok cs \<Longrightarrow> c_id ` set cs = computer_ids s \<Longrightarrow> store_ok (s\<lparr>computers := cs\<rparr>)"
  "store_ok s \<Longrightarrow> terminals_ok (workspace_ids s) ts \<Longrightarrow> t_id ` set ts = terminal_ids s \<Longrightarrow>
     store_ok (s\<lparr>terminals := ts\<rparr>)"
  "store_ok s \<Longrightarrow> activity_reads_ok (terminal_ids s) as \<Longrightarrow> store_ok (s\<lparr>activity_reads := as\<rparr>)"
  "store_ok s \<Longrightarrow> command_history_ok (workspace_ids s) (terminal_ids s) hs \<Longrightarrow>
     store_ok (s\<lparr>command_history := hs\<rparr>)"
  "store_ok s \<Longrightarrow> file_runs_ok (workspace_ids s) (terminal_ids s) fs \<Longrightarrow> store_ok (s\<lparr>file_runs := fs\<rparr>)"
  "store_ok s \<Longrightarrow> remote_runs_ok (workspace_ids s) (computer_ids s) ms \<Longrightarrow> store_ok (s\<lparr>remote_runs := ms\<rparr>)"
  "store_ok s \<Longrightarrow> reports_ok qs \<Longrightarrow> store_ok (s\<lparr>reports := qs\<rparr>)"
  "store_ok s \<Longrightarrow> events_ok (event_sequence s) es \<Longrightarrow> e_id ` set es = event_ids s \<Longrightarrow> store_ok (s\<lparr>events := es\<rparr>)"
  "store_ok s \<Longrightarrow> event_reads_ok (event_ids s) rs \<Longrightarrow> store_ok (s\<lparr>event_reads := rs\<rparr>)"
  "store_ok s \<Longrightarrow> devices_ok ds \<Longrightarrow> d_id ` set ds = device_ids s \<Longrightarrow> store_ok (s\<lparr>devices := ds\<rparr>)"
  "store_ok s \<Longrightarrow> event_claims_ok (event_ids s) (device_ids s) ecs \<Longrightarrow> store_ok (s\<lparr>event_claims := ecs\<rparr>)"
  "store_ok s \<Longrightarrow> pairing_ok ps \<Longrightarrow> pc_id ` set ps = pairing_ids s \<Longrightarrow> store_ok (s\<lparr>pairing_codes := ps\<rparr>)"
  "store_ok s \<Longrightarrow> enrollments_ok (pairing_ids s) (computer_ids s) ns \<Longrightarrow> store_ok (s\<lparr>enrollments := ns\<rparr>)"
  by (simp_all add: store_ok_def)

lemma store_ok_table:
  assumes "store_ok s"
  shows "roots_ok (roots s)" and "workspaces_ok (root_ids s) (workspaces s)"
    and "computers_ok (computers s)" and "terminals_ok (workspace_ids s) (terminals s)"
    and "activity_reads_ok (terminal_ids s) (activity_reads s)"
    and "command_history_ok (workspace_ids s) (terminal_ids s) (command_history s)"
    and "file_runs_ok (workspace_ids s) (terminal_ids s) (file_runs s)"
    and "remote_runs_ok (workspace_ids s) (computer_ids s) (remote_runs s)"
    and "reports_ok (reports s)" and "events_ok (event_sequence s) (events s)"
    and "event_reads_ok (event_ids s) (event_reads s)" and "devices_ok (devices s)"
    and "event_claims_ok (event_ids s) (device_ids s) (event_claims s)"
    and "pairing_ok (pairing_codes s)"
    and "enrollments_ok (pairing_ids s) (computer_ids s) (enrollments s)"
  using assms by (simp_all add: store_ok_def)

lemma update_workspaces_ok:
  assumes ok: "store_ok s"
    and same: "\<And>w. p w \<Longrightarrow> w_id (f w) = w_id w \<and> w_root (f w) = w_root w \<and> w_relative (f w) = w_relative w
      \<and> w_tmux (f w) = w_tmux w \<and> w_backend (f w) = w_backend w \<and> w_computer (f w) = w_computer w
      \<and> w_canonical (f w) = w_canonical w \<and> w_kind (f w) = w_kind w"
  shows "store_ok (s\<lparr>workspaces := update_where p f (workspaces s)\<rparr>)"
proof (rule store_ok_tables(1) [OF ok])
  note old = store_ok_table(2) [OF ok, unfolded workspaces_ok_def]
  have "unique_where remote_located (\<lambda>w. (w_computer w, w_canonical w, w_kind w)) (update_where p f (workspaces s))"
    by (rule unique_where_update) (use old same in \<open>auto simp: remote_located_def\<close>)
  moreover have "unique_where server_terminal_slot w_computer (update_where p f (workspaces s))"
    by (rule unique_where_update) (use old same in \<open>auto simp: server_terminal_slot_def\<close>)
  ultimately show "workspaces_ok (root_ids s) (update_where p f (workspaces s))"
    using old same by (simp add: workspaces_ok_def update_table)
qed (simp add: keys_update_where same)

lemma update_terminals_ok:
  assumes ok: "store_ok s"
    and same: "\<And>t. p t \<Longrightarrow> t_id (f t) = t_id t \<and> t_workspace (f t) = t_workspace t
      \<and> t_window (f t) = t_window t \<and> t_role (f t) = t_role t"
  shows "store_ok (s\<lparr>terminals := update_where p f (terminals s)\<rparr>)"
proof (rule store_ok_tables(3) [OF ok])
  note old = store_ok_table(4) [OF ok, unfolded terminals_ok_def]
  have "unique_where managed (\<lambda>t. (t_workspace t, t_role t)) (update_where p f (terminals s))"
    by (rule unique_where_update) (use old same in \<open>auto simp: managed_def\<close>)
  then show "terminals_ok (workspace_ids s) (update_where p f (terminals s))"
    using old same by (simp add: terminals_ok_def update_table)
qed (simp add: keys_update_where same)

lemma update_computers_ok:
  assumes ok: "store_ok s"
    and same: "\<And>c. p c \<Longrightarrow> c_id (f c) = c_id c \<and> c_method (f c) = c_method c \<and> c_node_key (f c) = c_node_key c"
  shows "store_ok (s\<lparr>computers := update_where p f (computers s)\<rparr>)"
proof (rule store_ok_tables(2) [OF ok])
  note old = store_ok_table(3) [OF ok, unfolded computers_ok_def]
  have "unique_where (\<lambda>c. c_method c = Node_Method) c_node_key (update_where p f (computers s))"
    by (rule unique_where_update) (use old same in auto)
  then show "computers_ok (update_where p f (computers s))"
    using old same by (simp add: computers_ok_def update_table)
qed (simp add: keys_update_where same)

lemma update_file_runs_ok:
  assumes ok: "store_ok s"
    and same: "\<And>r. p r \<Longrightarrow> f_id (f r) = f_id r \<and> f_workspace (f r) = f_workspace r \<and> f_key (f r) = f_key r"
    and "\<And>r. p r \<Longrightarrow> active_file_run (f r) \<Longrightarrow> active_file_run r"
    and terms_ok: "\<And>r. p r \<Longrightarrow> set_option (f_terminal r) \<subseteq> terminal_ids s \<Longrightarrow> set_option (f_terminal (f r)) \<subseteq> terminal_ids s"
  shows "store_ok (s\<lparr>file_runs := update_where p f (file_runs s)\<rparr>)"
proof (rule store_ok_tables(6) [OF ok])
  note old = store_ok_table(7) [OF ok, unfolded file_runs_ok_def]
  have "unique_where active_file_run f_workspace (update_where p f (file_runs s))"
    by (rule unique_where_update) (use old same assms(3) in auto)
  then show "file_runs_ok (workspace_ids s) (terminal_ids s) (update_where p f (file_runs s))"
    using old same terms_ok by (simp add: file_runs_ok_def update_table)
qed

lemma update_remote_runs_ok:
  assumes "store_ok s"
    and "\<And>r. p r \<Longrightarrow> m_id (f r) = m_id r \<and> m_kind (f r) = m_kind r \<and> m_format (f r) = m_format r
      \<and> m_target (f r) = m_target r \<and> m_source_workspace (f r) = m_source_workspace r"
    and "\<And>r. p r \<Longrightarrow> m_workspace (f r) = m_workspace r \<or> m_workspace (f r) = None"
  shows "store_ok (s\<lparr>remote_runs := update_where p f (remote_runs s)\<rparr>)"
proof (rule store_ok_tables(7) [OF assms(1)])
  note old = store_ok_table(8) [OF assms(1), unfolded remote_runs_ok_def]
  have "unique_where (\<lambda>m. m_workspace m \<noteq> None) m_workspace (update_where p f (remote_runs s))"
  proof (rule unique_where_update)
    show "unique_where (\<lambda>m. m_workspace m \<noteq> None) m_workspace (remote_runs s)" using old by blast
    fix r assume "p r" and "m_workspace (f r) \<noteq> None"
    with assms(3) [of r] show "m_workspace r \<noteq> None \<and> m_workspace (f r) = m_workspace r" by fastforce
  qed
  moreover have "\<forall>m \<in> set (update_where p f (remote_runs s)). archive_format_ok (m_kind m) (m_format m)
      \<and> m_target m \<in> computer_ids s \<and> set_option (m_workspace m) \<subseteq> workspace_ids s
      \<and> set_option (m_source_workspace m) \<subseteq> workspace_ids s"
    unfolding ball_update_where
  proof (intro ballI)
    fix r assume "r \<in> set (remote_runs s)"
    with old have "archive_format_ok (m_kind r) (m_format r) \<and> m_target r \<in> computer_ids s
        \<and> set_option (m_workspace r) \<subseteq> workspace_ids s \<and> set_option (m_source_workspace r) \<subseteq> workspace_ids s"
      by blast
    then show "if p r then archive_format_ok (m_kind (f r)) (m_format (f r)) \<and> m_target (f r) \<in> computer_ids s
          \<and> set_option (m_workspace (f r)) \<subseteq> workspace_ids s \<and> set_option (m_source_workspace (f r)) \<subseteq> workspace_ids s
        else archive_format_ok (m_kind r) (m_format r) \<and> m_target r \<in> computer_ids s
          \<and> set_option (m_workspace r) \<subseteq> workspace_ids s \<and> set_option (m_source_workspace r) \<subseteq> workspace_ids s"
      using assms(2) [of r] assms(3) [of r] by (cases "p r") auto
  qed
  ultimately show "remote_runs_ok (workspace_ids s) (computer_ids s) (update_where p f (remote_runs s))"
    using old assms(2) by (simp add: remote_runs_ok_def map_update_where_same)
qed

lemma update_events_ok:
  assumes "store_ok s"
    and "\<And>e. p e \<Longrightarrow> e_id (f e) = e_id e \<and> e_sequence (f e) = e_sequence e
      \<and> e_subject_type (f e) = e_subject_type e \<and> e_subject (f e) = e_subject e \<and> e_revision (f e) = e_revision e"
  shows "store_ok (s\<lparr>events := update_where p f (events s)\<rparr>)"
  using assms(2) store_ok_table(10) [OF assms(1)]
  by (intro store_ok_tables(9) [OF assms(1)])
    (simp_all add: events_ok_def update_table keys_update_where)

lemma update_devices_ok:
  assumes "store_ok s" and "\<And>d. p d \<Longrightarrow> d_id (f d) = d_id d"
  shows "store_ok (s\<lparr>devices := update_where p f (devices s)\<rparr>)"
  using assms(2) store_ok_table(12) [OF assms(1)]
  by (intro store_ok_tables(11) [OF assms(1)])
    (simp_all add: devices_ok_def update_table keys_update_where)

lemma update_pairing_ok:
  assumes "store_ok s" and "\<And>c. p c \<Longrightarrow> pc_id (f c) = pc_id c \<and> pc_hash (f c) = pc_hash c"
  shows "store_ok (s\<lparr>pairing_codes := update_where p f (pairing_codes s)\<rparr>)"
  using assms(2) store_ok_table(14) [OF assms(1)]
  by (intro store_ok_tables(13) [OF assms(1)])
    (simp_all add: pairing_ok_def update_table keys_update_where)

lemma update_enrollments_ok:
  assumes "store_ok s" and "\<And>n. p n \<Longrightarrow> n_id (f n) = n_id n \<and> n_pairing (f n) = n_pairing n"
    and "\<And>n. p n \<Longrightarrow> set_option (n_computer n) \<subseteq> computer_ids s \<Longrightarrow> set_option (n_computer (f n)) \<subseteq> computer_ids s"
  shows "store_ok (s\<lparr>enrollments := update_where p f (enrollments s)\<rparr>)"
  using assms(2,3) store_ok_table(15) [OF assms(1)]
  by (intro store_ok_tables(14) [OF assms(1)]) (simp add: enrollments_ok_def update_table)

lemma update_activity_reads_ok:
  assumes "store_ok s" and "\<And>a. p a \<Longrightarrow> a_terminal (f a) = a_terminal a"
  shows "store_ok (s\<lparr>activity_reads := update_where p f (activity_reads s)\<rparr>)"
  using assms(2) store_ok_table(5) [OF assms(1)]
  by (intro store_ok_tables(4) [OF assms(1)]) (simp add: activity_reads_ok_def update_table)

end
