(* ===== verification/Tables.thy ===== *)
theory Tables
  imports Constraints
begin

text \<open>
  A table of the store with a primary key, as an interface: \<open>rows\<close> reads it, \<open>put\<close> replaces it and
  \<open>key\<close> is the key column, which the schema keeps distinct. The clients (the operations that read,
  update or count rows by key) use the laws proved here once; the tables of the store are its
  interpretations.
\<close>

lemma find_key_update_where:
  assumes "\<And>r. key (f r) = key r"
  shows "find (\<lambda>r. key r = i) (update_where p f rs)
    = map_option (\<lambda>r. if p r then f r else r) (find (\<lambda>r. key r = i) rs)"
  by (induction rs) (simp_all add: assms)

lemma find_append_new: "find p rs = None \<Longrightarrow> p r \<Longrightarrow> find p (rs @ [r]) = Some r"
  by (induction rs) (auto split: if_splits)

lemma filter_distinct_key:
  "distinct (map key rs) \<Longrightarrow> r \<in> set rs \<Longrightarrow> filter (\<lambda>x. key x = key r) rs = [r]"
proof (induction rs)
  case (Cons x rs)
  show ?case
  proof (cases "key x = key r")
    case True
    then have "filter (\<lambda>x. key x = key r) rs = []" using Cons.prems by (auto simp: filter_empty_conv image_iff)
    moreover have "x = r" using True Cons.prems by (auto simp: image_iff)
    ultimately show ?thesis by simp
  next
    case False
    then show ?thesis using Cons by auto
  qed
qed simp

locale keyed_table =
  fixes rows :: "store \<Rightarrow> 'r list" and put :: "'r list \<Rightarrow> store \<Rightarrow> store" and key :: "'r \<Rightarrow> ustr"
  assumes rows_put: "rows (put rs s) = rs"
    and keys_distinct: "store_ok s \<Longrightarrow> distinct (map key (rows s))"
begin

lemma lookup_iff:
  "store_ok s \<Longrightarrow> find (\<lambda>r. key r = i) (rows s) = Some r \<longleftrightarrow> r \<in> set (rows s) \<and> key r = i"
  by (rule find_Some_iff_unique) (rule keys_distinct)

lemma lookup_unique:
  "store_ok s \<Longrightarrow> r \<in> set (rows s) \<Longrightarrow> r' \<in> set (rows s) \<Longrightarrow> key r = key r' \<Longrightarrow> r = r'"
  using lookup_iff by (metis option.inject)

lemma filter_key: "store_ok s \<Longrightarrow> r \<in> set (rows s) \<Longrightarrow> filter (\<lambda>x. key x = key r) (rows s) = [r]"
  by (rule filter_distinct_key) (rule keys_distinct)

lemma lookup_None_iff: "find (\<lambda>r. key r = i) (rows s) = None \<longleftrightarrow> i \<notin> key ` set (rows s)"
  by (auto simp: find_None_iff)

lemma lookup_update_same:
  assumes "\<And>r. key (f r) = key r"
  shows "find (\<lambda>r. key r = i) (rows (put (update_where (\<lambda>r. key r = i) f (rows s)) s))
    = map_option f (find (\<lambda>r. key r = i) (rows s))"
  using find_SomeD [of "\<lambda>r. key r = i" "rows s"]
  by (cases "find (\<lambda>r. key r = i) (rows s)") (simp_all add: rows_put find_key_update_where [of key f, OF assms])

lemma lookup_update_other:
  assumes "\<And>r. key (f r) = key r" and "j \<noteq> i"
  shows "find (\<lambda>r. key r = j) (rows (put (update_where (\<lambda>r. key r = i) f (rows s)) s))
    = find (\<lambda>r. key r = j) (rows s)"
  using find_SomeD [of "\<lambda>r. key r = j" "rows s"] assms(2)
  by (cases "find (\<lambda>r. key r = j) (rows s)") (simp_all add: rows_put find_key_update_where [of key f, OF assms(1)])

lemma lookup_insert:
  assumes "key r \<notin> key ` set (rows s)"
  shows "find (\<lambda>x. key x = i) (rows (put (rows s @ [r]) s))
    = (if i = key r then Some r else find (\<lambda>x. key x = i) (rows s))"
proof -
  have "key r \<notin> key ` set rs \<Longrightarrow>
      find (\<lambda>x. key x = i) (rs @ [r]) = (if i = key r then Some r else find (\<lambda>x. key x = i) rs)" for rs
    by (induction rs) auto
  with assms show ?thesis by (simp add: rows_put)
qed

lemma rowcount_key:
  assumes "store_ok s"
  shows "rowcount (\<lambda>r. key r = i) (rows s) = (if find (\<lambda>r. key r = i) (rows s) = None then 0 else 1)"
  using rowcount_unique [OF keys_distinct [OF assms], of i "\<lambda>_. True"]
  by (auto simp: lookup_None_iff image_iff find_None_iff)

lemma rowcount_key_and:
  assumes "store_ok s"
  shows "rowcount (\<lambda>r. key r = i \<and> q r) (rows s)
    = (case find (\<lambda>r. key r = i) (rows s) of None \<Rightarrow> 0 | Some r \<Rightarrow> if q r then 1 else 0)"
proof (cases "find (\<lambda>r. key r = i) (rows s)")
  case None
  then have "\<forall>r \<in> set (rows s). key r \<noteq> i" by (auto simp: find_None_iff)
  with None show ?thesis using rowcount_unique [OF keys_distinct [OF assms], of i q] by auto
next
  case (Some r)
  then have "(\<exists>r' \<in> set (rows s). key r' = i \<and> q r') \<longleftrightarrow> q r"
    using Some lookup_iff [OF assms] lookup_unique [OF assms] by blast
  then show ?thesis using Some rowcount_unique [OF keys_distinct [OF assms], of i q] by simp
qed

lemma keys_after_update:
  assumes "\<And>r. key (f r) = key r"
  shows "key ` set (update_where p f (rows s)) = key ` set (rows s)"
  by (rule keys_update_where) (rule assms)

end

interpretation root_table: keyed_table roots "\<lambda>rs s. s\<lparr>roots := rs\<rparr>" r_id
  by unfold_locales (simp_all add: distinct_ids)

interpretation workspace_table: keyed_table workspaces "\<lambda>rs s. s\<lparr>workspaces := rs\<rparr>" w_id
  by unfold_locales (simp_all add: distinct_ids)

interpretation computer_table: keyed_table computers "\<lambda>rs s. s\<lparr>computers := rs\<rparr>" c_id
  by unfold_locales (simp_all add: distinct_ids)

interpretation terminal_table: keyed_table terminals "\<lambda>rs s. s\<lparr>terminals := rs\<rparr>" t_id
  by unfold_locales (simp_all add: distinct_ids)

interpretation file_run_table: keyed_table file_runs "\<lambda>rs s. s\<lparr>file_runs := rs\<rparr>" f_id
  by unfold_locales (simp_all add: distinct_ids)

interpretation remote_run_table: keyed_table remote_runs "\<lambda>rs s. s\<lparr>remote_runs := rs\<rparr>" m_id
  by unfold_locales (simp_all add: distinct_ids)

interpretation event_table: keyed_table events "\<lambda>rs s. s\<lparr>events := rs\<rparr>" e_id
  by unfold_locales (simp_all add: distinct_ids)

interpretation device_table: keyed_table devices "\<lambda>rs s. s\<lparr>devices := rs\<rparr>" d_id
  by unfold_locales (simp_all add: distinct_ids)

interpretation pairing_table: keyed_table pairing_codes "\<lambda>rs s. s\<lparr>pairing_codes := rs\<rparr>" pc_id
  by unfold_locales (simp_all add: distinct_ids)

interpretation enrollment_table: keyed_table enrollments "\<lambda>rs s. s\<lparr>enrollments := rs\<rparr>" n_id
  by unfold_locales (simp_all add: distinct_ids)

end
