(* ===== verification/Text_Rules.thy ===== *)
theory Text_Rules
  imports Schema
begin

text \<open>
  The text rules of \<^verbatim>\<open>termroom/db.py\<close>: the tmux session name of a Workspace, the command list of a
  Workspace, the display name of a computer and the one-line label of an event.

  \<open>fold_case\<close> stands for \<^verbatim>\<open>unicodedata.normalize("NFKC", s).casefold()\<close> and \<open>alnum\<close> for
  \<^verbatim>\<open>str.isalnum\<close> on one character; both are tables of the Unicode database and arguments here.
\<close>

section \<open>Session names\<close>

definition dash :: nat where "dash = of_char (CHR ''-'')"

fun slug_parts :: "(nat \<Rightarrow> bool) \<Rightarrow> bool \<Rightarrow> ustr \<Rightarrow> ustr \<Rightarrow> ustr" where
  "slug_parts alnum pending parts [] = parts"
| "slug_parts alnum pending parts (c # cs) =
     (if alnum c
      then slug_parts alnum False ((if pending \<and> parts \<noteq> [] then parts @ [dash] else parts) @ [c]) cs
      else slug_parts alnum True parts cs)"

definition rstrip_dash :: "ustr \<Rightarrow> ustr" where
  "rstrip_dash s = rev (dropWhile (\<lambda>c. c = dash) (rev s))"

definition strip_dash :: "ustr \<Rightarrow> ustr" where
  "strip_dash s = rstrip_dash (dropWhile (\<lambda>c. c = dash) s)"

definition or_else :: "ustr \<Rightarrow> ustr \<Rightarrow> ustr" where
  "or_else s d = (if s = [] then d else s)"

definition session_slug :: "(nat \<Rightarrow> bool) \<Rightarrow> ustr \<Rightarrow> ustr" where
  "session_slug alnum normalized =
    (let slug = or_else (strip_dash (slug_parts alnum False [] normalized)) (u ''workspace'')
     in or_else (rstrip_dash (take 16 slug)) (u ''workspace''))"

text \<open>\<^verbatim>\<open>str.lower\<close> on the identifier: only ASCII letters can become hexadecimal digits, so the
  ASCII folding decides the same identifiers.\<close>

definition workspace_tmux_session_name ::
    "(ustr \<Rightarrow> ustr) \<Rightarrow> (nat \<Rightarrow> bool) \<Rightarrow> ustr \<Rightarrow> ustr \<Rightarrow> ustr result" where
  "workspace_tmux_session_name fold_case alnum display_name workspace_id =
    (let slug = session_slug alnum (fold_case display_name);
         suffix = take 4 (nocase workspace_id)
     in if length suffix \<noteq> 4 \<or> (\<exists>c \<in> set suffix. c \<notin> set (u ''0123456789abcdef''))
        then Inl (ValueError ''Workspace id must begin with four hexadecimal characters'')
        else Inr (u ''tr'' @ [dash] @ slug @ [dash] @ suffix))"

lemma set_slug_parts:
  "set (slug_parts alnum pending parts cs) \<subseteq> set parts \<union> {dash} \<union> {c. alnum c}"
proof (induction cs arbitrary: pending parts)
  case (Cons c cs)
  show ?case
  proof (cases "alnum c")
    case True
    have "set (slug_parts alnum False (p @ [c]) cs) \<subseteq> set p \<union> {dash} \<union> {c. alnum c}" for p
      using Cons.IH [of False "p @ [c]"] True by auto
    from this [of parts] this [of "parts @ [dash]"] True show ?thesis by auto
  next
    case False
    then show ?thesis using Cons.IH by simp
  qed
qed auto

lemma set_rstrip_dash: "set (rstrip_dash s) \<subseteq> set s"
  by (auto simp: rstrip_dash_def dest: set_dropWhileD)

lemma set_strip_dash: "set (strip_dash s) \<subseteq> set s"
  using set_rstrip_dash [of "dropWhile (\<lambda>c. c = dash) s"] unfolding strip_dash_def
  by (meson set_dropWhileD subset_eq)

lemma length_rstrip_dash: "length (rstrip_dash s) \<le> length s"
  using length_dropWhile_le [of "\<lambda>c. c = dash" "rev s"] by (simp add: rstrip_dash_def)

lemma last_rstrip_dash: "rstrip_dash s \<noteq> [] \<Longrightarrow> last (rstrip_dash s) \<noteq> dash"
  unfolding rstrip_dash_def using hd_dropWhile [of "\<lambda>c. c = dash" "rev s"]
  by (simp add: last_rev)

lemma rstrip_dash_prefix: "\<exists>t. s = rstrip_dash s @ t"
  unfolding rstrip_dash_def
  by (metis rev_append rev_rev_ident takeWhile_dropWhile_id)

lemma hd_rstrip_dash: "rstrip_dash s \<noteq> [] \<Longrightarrow> hd (rstrip_dash s) = hd s"
  using rstrip_dash_prefix [of s] by (metis hd_append2)

lemma hd_strip_dash: "strip_dash s \<noteq> [] \<Longrightarrow> hd (strip_dash s) \<noteq> dash"
  unfolding strip_dash_def
  by (metis (mono_tags, lifting) hd_dropWhile hd_rstrip_dash list.size(3) length_rstrip_dash le_zero_eq length_0_conv)

lemma workspace_ends: "hd (u ''workspace'') \<noteq> dash" "last (u ''workspace'') \<noteq> dash"
  by (simp_all add: u_def dash_def)

lemma session_slug_shape:
  "session_slug alnum s \<noteq> [] \<and> length (session_slug alnum s) \<le> 16
    \<and> hd (session_slug alnum s) \<noteq> dash \<and> last (session_slug alnum s) \<noteq> dash
    \<and> set (session_slug alnum s) \<subseteq> {c. alnum c} \<union> {dash} \<union> set (u ''workspace'')"
proof -
  let ?slug = "or_else (strip_dash (slug_parts alnum False [] s)) (u ''workspace'')"
  let ?cut = "rstrip_dash (take 16 ?slug)"
  have slug: "?slug \<noteq> []" "hd ?slug \<noteq> dash"
    using hd_strip_dash [of "slug_parts alnum False [] s"] workspace_ends by (auto simp: or_else_def)
  have chars: "set ?slug \<subseteq> {c. alnum c} \<union> {dash} \<union> set (u ''workspace'')"
    using set_strip_dash [of "slug_parts alnum False [] s"] set_slug_parts [of alnum False "[]" s]
    by (auto simp: or_else_def)
  have cut: "length ?cut \<le> 16" "set ?cut \<subseteq> set ?slug"
    using length_rstrip_dash [of "take 16 ?slug"] set_rstrip_dash [of "take 16 ?slug"]
      set_take_subset [of 16 ?slug] by auto
  have hd: "hd ?cut \<noteq> dash" "last ?cut \<noteq> dash" if "?cut \<noteq> []"
  proof -
    have "hd ?cut = hd (take 16 ?slug)" using that by (rule hd_rstrip_dash)
    also have "\<dots> = hd ?slug" by (rule hd_take) simp
    finally show "hd ?cut \<noteq> dash" using slug by simp
    show "last ?cut \<noteq> dash" using that by (rule last_rstrip_dash)
  qed
  show ?thesis
    unfolding session_slug_def Let_def or_else_def [of ?cut]
    using cut chars hd workspace_ends by auto
qed

lemma set_nocase: "set (take n (nocase s)) \<subseteq> (\<lambda>c. if c \<in> {65..90} then c + 32 else c) ` set s"
  using set_take_subset [of n "nocase s"] by (auto simp: nocase_def)

section \<open>Command lists\<close>

definition normalize_command :: "jvalue \<Rightarrow> (db_error + ustr option)" where
  "normalize_command v =
    (case v of
       JStr s \<Rightarrow>
         if list_ex is_line_control s
         then Inl (ValueError ''Workspace commands must be one line without control characters'')
         else
           let command = strip s in
           if command = [] then Inr None
           else (case utf8_length command of
                   None \<Rightarrow> Inl (ValueError ''surrogates not allowed'')
                 | Some n \<Rightarrow> if n > 4096 then Inl (ValueError ''Workspace command exceeds 4096 UTF-8 bytes'')
                             else Inr (Some command))
     | _ \<Rightarrow> Inl (ValueError ''Workspace commands must be text''))"

definition normalize_workspace_commands :: "jvalue list \<Rightarrow> ustr list result" where
  "normalize_workspace_commands vs =
    rbind (traverse normalize_command vs) (\<lambda>found.
      let commands = concat (map (\<lambda>c. case c of None \<Rightarrow> [] | Some x \<Rightarrow> [x]) found) in
      if length commands > 3 then Inl (ValueError ''A Workspace can store at most three commands'')
      else Inr commands)"

text \<open>\<^verbatim>\<open>json.dumps(commands, ensure_ascii=False, separators=(",", ":"))\<close>: the encoding is injective, so
  a comparison of two encoded lists is a comparison of the values.\<close>

definition encode_commands :: "ustr list \<Rightarrow> json_text" where
  "encode_commands cs = Json (JList (map JStr cs))"

lemma encode_commands_inj [simp]: "encode_commands a = encode_commands b \<longleftrightarrow> a = b"
  by (auto simp: encode_commands_def inj_map_eq_map inj_def)

text \<open>What a stored command is: one line, stripped, not empty, at most 4096 bytes.\<close>

definition stored_command :: "ustr \<Rightarrow> bool" where
  "stored_command c \<longleftrightarrow> c \<noteq> [] \<and> strip c = c \<and> \<not> list_ex is_line_control c
     \<and> (\<exists>n. utf8_length c = Some n \<and> n \<le> 4096)"

lemma normalize_command_Some:
  "normalize_command v = Inr (Some c) \<Longrightarrow> stored_command c"
  using set_strip
  by (fastforce simp: normalize_command_def stored_command_def list_ex_iff Let_def
      split: jvalue.splits if_splits option.splits)

lemma normalize_command_stored: "stored_command c \<Longrightarrow> normalize_command (JStr c) = Inr (Some c)"
  by (auto simp: normalize_command_def stored_command_def)

lemma traverse_stored:
  "\<forall>c \<in> set cs. stored_command c \<Longrightarrow> traverse normalize_command (map JStr cs) = Inr (map Some cs)"
  by (induction cs) (simp_all add: normalize_command_stored)

lemma traverse_commands_stored:
  "traverse normalize_command vs = Inr found \<Longrightarrow> Some c \<in> set found \<Longrightarrow> stored_command c"
  by (induction vs arbitrary: found) (auto simp: rbind_Inr_iff normalize_command_Some)

lemma normalize_workspace_commands_result:
  assumes "normalize_workspace_commands vs = Inr cs"
  shows "length cs \<le> 3 \<and> (\<forall>c \<in> set cs. stored_command c)"
  using assms
  by (auto simp: normalize_workspace_commands_def rbind_Inr_iff Let_def
      dest: traverse_commands_stored split: if_splits option.splits)

lemma concat_map_Some: "concat (map (\<lambda>c. case c of None \<Rightarrow> [] | Some x \<Rightarrow> [x]) (map Some cs)) = cs"
  by (induction cs) auto

lemma normalize_workspace_commands_idem:
  assumes "normalize_workspace_commands vs = Inr cs"
  shows "normalize_workspace_commands (map JStr cs) = Inr cs"
proof -
  have "traverse normalize_command (map JStr cs) = Inr (map Some cs)" and "length cs \<le> 3"
    using normalize_workspace_commands_result [OF assms] traverse_stored by auto
  then show ?thesis
    by (simp only: normalize_workspace_commands_def rbind_simps Let_def concat_map_Some) simp
qed

section \<open>Labels\<close>

definition normalize_computer_name :: "ustr \<Rightarrow> ustr result" where
  "normalize_computer_name v =
    (let name = strip v in
     if name = [] \<or> length name > 80 \<or> list_ex is_line_control name
     then Inl (ValueError ''Computer display name must be a single line of 1 to 80 characters'')
     else Inr name)"

definition event_label :: "ustr \<Rightarrow> ustr \<Rightarrow> ustr" where
  "event_label v fallback = or_else (take 160 (join (u '' '') (split_ws v))) fallback"

lemma normalize_computer_name_idem:
  "normalize_computer_name v = Inr n \<Longrightarrow> normalize_computer_name n = Inr n"
  by (auto simp: normalize_computer_name_def Let_def split: if_splits)

text \<open>The session name of a Workspace is "tr-", a slug of at most 16 characters that neither
  starts nor ends with a dash, another dash and four hexadecimal digits of the identifier: at most
  24 characters, none of them one that \<open>alnum\<close> rejects save the dash and the fallback word.\<close>

theorem session_name_shape:
  assumes "workspace_tmux_session_name fold_case alnum name wid = Inr t"
  shows "length t \<le> 24 \<and> (\<exists>slug suffix. t = u ''tr-'' @ slug @ u ''-'' @ suffix
     \<and> slug \<noteq> [] \<and> hd slug \<noteq> dash \<and> last slug \<noteq> dash
     \<and> set slug \<subseteq> {c. alnum c} \<union> {dash} \<union> set (u ''workspace'')
     \<and> length suffix = 4 \<and> set suffix \<subseteq> set (u ''0123456789abcdef''))"
proof -
  let ?slug = "session_slug alnum (fold_case name)" and ?suffix = "take 4 (nocase wid)"
  have t: "t = u ''tr-'' @ ?slug @ u ''-'' @ ?suffix" "length ?suffix = 4"
      "set ?suffix \<subseteq> set (u ''0123456789abcdef'')"
    using assms by (auto simp: workspace_tmux_session_name_def Let_def u_def dash_def split: if_splits)
  have "length t \<le> 24"
    unfolding t(1) using t(2) session_slug_shape [of alnum "fold_case name"] by simp
  with t session_slug_shape [of alnum "fold_case name"] show ?thesis by blast
qed

theorem session_name_witness:
  "\<exists>t. workspace_tmux_session_name nocase (\<lambda>c. c \<in> {48..57} \<or> c \<in> {97..122})
         (u ''My App: API'') (u ''9F3c7a'') = Inr t \<and> length t \<le> 24"
  using session_name_shape [of nocase "\<lambda>c. c \<in> {48..57} \<or> c \<in> {97..122}" "u ''My App: API''" "u ''9F3c7a''"
      "u ''tr-my-app-api-9f3c''"]
  by (auto simp: workspace_tmux_session_name_def Let_def session_slug_def u_def nocase_def strip_dash_def
      rstrip_dash_def or_else_def dash_def)

section \<open>Identifiers of runs\<close>

definition lower_hex :: "nat \<Rightarrow> bool" where
  "lower_hex c \<longleftrightarrow> 48 \<le> c \<and> c \<le> 57 \<or> 97 \<le> c \<and> c \<le> 102"

text \<open>The canonical text of a random UUID: \<^verbatim>\<open>str(uuid.UUID(value)) == value\<close> and version 4.\<close>

definition uuid4_text :: "ustr \<Rightarrow> bool" where
  "uuid4_text v \<longleftrightarrow> length v = 36
    \<and> (\<forall>i < 36. if i \<in> {8, 13, 18, 23} then v ! i = 45 else lower_hex (v ! i))
    \<and> v ! 14 = 52 \<and> v ! 19 \<in> {56, 57, 97, 98}"

end
