(* ===== verification/Samples.thy ===== *)
theory Samples
  imports Tables Text_Rules
begin

text \<open>
  One concrete store that satisfies every constraint: two computers (SSH and node), a local and a
  remote Workspace, a shell and a File Run terminal, an active run of each kind, an unread event, a
  browser device and an open pairing code. The witnesses of the properties apply them here.
\<close>

definition sample_root :: root_row where
  "sample_root = \<lparr>r_id = u ''r1'', r_path = u ''/home/dev'', r_created = 100\<rparr>"

definition sample_virtual_root :: root_row where
  "sample_virtual_root = \<lparr>r_id = u ''r2'', r_path = u ''ssh://c1'', r_created = 101\<rparr>"

definition sample_workspace :: workspace_row where
  "sample_workspace = \<lparr>w_id = u ''w1'', w_root = u ''r1'', w_relative = u ''app'', w_display = u ''app'',
     w_tmux = u ''tr-app-aaaa'', w_opened = 200, w_tab = u ''terminal'', w_backend = Local_Backend,
     w_computer = None, w_canonical = None, w_kind = Workspace_Kind, w_commands = encode_commands []\<rparr>"

definition sample_remote_workspace :: workspace_row where
  "sample_remote_workspace = \<lparr>w_id = u ''w2'', w_root = u ''r2'', w_relative = u ''/srv/job'',
     w_display = u ''job'', w_tmux = u ''tr-job-bbbb'', w_opened = 210, w_tab = u ''terminal'',
     w_backend = Remote_Backend, w_computer = Some (u ''c1''), w_canonical = Some (u ''/srv/job''),
     w_kind = Remote_Run_Kind, w_commands = encode_commands []\<rparr>"

definition sample_computer :: computer_row where
  "sample_computer = \<lparr>c_id = u ''c1'', c_name = u ''box'', c_method = Ssh_Method, c_auth = u ''key'',
     c_alias = u ''box'', c_host = u ''10.0.0.2'', c_port = 22, c_username = u ''dev'', c_identity = [],
     c_hostkey_type = u ''ssh-ed25519'', c_hostkey_data = u ''AAAA'', c_host_fingerprint = u ''SHA256:x'',
     c_created = 110, c_connected = None, c_seen = None, c_error = None, c_run_base = None,
     c_node_key = [], c_node_fingerprint = [], c_node_protocol = None, c_node_capabilities = [],
     c_revoked = None\<rparr>"

definition sample_node :: computer_row where
  "sample_node = sample_computer\<lparr>c_id := u ''c2'', c_name := u ''node'', c_method := Node_Method,
     c_auth := u ''node'', c_alias := [], c_host := [], c_username := [], c_hostkey_type := [],
     c_hostkey_data := [], c_host_fingerprint := [], c_node_key := u ''KEY'',
     c_node_fingerprint := u ''SHA256:n'', c_node_protocol := Some 1\<rparr>"

definition sample_shell :: terminal_row where
  "sample_shell = \<lparr>t_id = u ''t1'', t_workspace = u ''w1'', t_name = u ''shell'', t_window = u ''@1'',
     t_role = Shell_Role, t_run = None, t_created = 200, t_opened = 200, t_output = None,
     t_activity = Some 5\<rparr>"

definition sample_run_terminal :: terminal_row where
  "sample_run_terminal = \<lparr>t_id = u ''t2'', t_workspace = u ''w1'', t_name = u ''Run'', t_window = u ''@2'',
     t_role = File_Run_Role, t_run = Some (u ''f1''), t_created = 201, t_opened = 201, t_output = None,
     t_activity = Some 3\<rparr>"

definition sample_file_run :: file_run_row where
  "sample_file_run = \<lparr>f_id = u ''f1'', f_workspace = u ''w1'', f_key = u ''k1'', f_path = u ''main.py'',
     f_digest = u ''d1'', f_runner = u ''python'', f_runner_version = 1, f_argv = [u ''python'', u ''main.py''],
     f_terminal = Some (u ''t2''), f_state = Running, f_revision = 1, f_created = 300, f_started = Some 301,
     f_stop = None, f_ended = None, f_exit = None, f_error = None, f_detail = None\<rparr>"

definition sample_remote_run :: remote_run_row where
  "sample_remote_run = \<lparr>m_id = u ''m1'', m_kind = Git_Source, m_format = None, m_source_workspace = None,
     m_source_path = None, m_label = u ''repo'', m_url = Some (u ''https://x/repo''), m_options = u ''{}'',
     m_source_revision = None, m_source_size = None, m_target = u ''c1'', m_command = u ''make'',
     m_base = u ''/srv'', m_workspace = Some (u ''w2''), m_state = Running, m_phase = Some (u ''executing''),
     m_exit = None, m_error = None, m_detail = None, m_revision = 2, m_created = 300,
     m_started = Some 310, m_stop = None, m_ended = None, m_expires = None\<rparr>"

definition sample_event :: event_row where
  "sample_event = \<lparr>e_sequence = 1, e_id = u ''e1'', e_kind = u ''file_run_finished'',
     e_subject_type = File_Run_Subject, e_subject = u ''f0'', e_revision = 2, e_primary = u ''a.py'',
     e_secondary = u ''app'', e_exit = Some 0, e_duration = Some 3, e_occurred = 290, e_created = 290,
     e_read = None, e_notify = True\<rparr>"

definition sample_device :: device_row where
  "sample_device = \<lparr>d_id = u ''d1'', d_start = 0, d_created = 250, d_seen = 250\<rparr>"

definition sample_code :: pairing_row where
  "sample_code = \<lparr>pc_id = u ''p1'', pc_hash = u ''h1'', pc_created = 400, pc_expires = 1000,
     pc_consumed = None\<rparr>"

definition sample_store :: store where
  "sample_store = empty_store\<lparr>roots := [sample_root, sample_virtual_root],
     workspaces := [sample_workspace, sample_remote_workspace],
     computers := [sample_computer, sample_node], terminals := [sample_shell, sample_run_terminal],
     file_runs := [sample_file_run], remote_runs := [sample_remote_run], events := [sample_event],
     event_sequence := 1, devices := [sample_device], pairing_codes := [sample_code]\<rparr>"

lemmas sample_defs =
  sample_root_def sample_virtual_root_def sample_workspace_def sample_remote_workspace_def
  sample_computer_def sample_node_def sample_shell_def sample_run_terminal_def sample_file_run_def
  sample_remote_run_def sample_event_def sample_device_def sample_code_def

lemma sample_tables [simp]:
  "roots sample_store = [sample_root, sample_virtual_root]"
  "workspaces sample_store = [sample_workspace, sample_remote_workspace]"
  "computers sample_store = [sample_computer, sample_node]"
  "terminals sample_store = [sample_shell, sample_run_terminal]"
  "file_runs sample_store = [sample_file_run]"
  "remote_runs sample_store = [sample_remote_run]"
  "events sample_store = [sample_event]" "event_sequence sample_store = 1"
  "devices sample_store = [sample_device]" "pairing_codes sample_store = [sample_code]"
  "activity_reads sample_store = []" "command_history sample_store = []"
  "command_claims sample_store = []" "reports sample_store = []" "event_reads sample_store = []"
  "event_claims sample_store = []" "enrollments sample_store = []" "history_cleanup_at sample_store = 0"
  by (simp_all add: sample_store_def empty_store_def)

lemma sample_ids [simp]:
  "r_id sample_root = u ''r1''" "r_id sample_virtual_root = u ''r2''" "w_id sample_workspace = u ''w1''"
  "w_id sample_remote_workspace = u ''w2''" "c_id sample_computer = u ''c1''" "c_id sample_node = u ''c2''"
  "t_id sample_shell = u ''t1''" "t_id sample_run_terminal = u ''t2''" "f_id sample_file_run = u ''f1''"
  "m_id sample_remote_run = u ''m1''" "e_id sample_event = u ''e1''" "d_id sample_device = u ''d1''"
  "pc_id sample_code = u ''p1''"
  by (simp_all add: sample_defs)

lemma sample_store_ok: "store_ok sample_store"
  by (simp add: store_ok_def table_ok_defs sample_defs remote_located_def server_terminal_slot_def
      managed_def active_file_run_def archive_format_ok_def)

text \<open>Identifiers that no sample row uses.\<close>

definition fresh_id :: "nat \<Rightarrow> ustr" where
  "fresh_id n = u ''new'' @ [n]"

lemma fresh_id_inj: "inj fresh_id"
  by (rule injI) (simp add: fresh_id_def)

lemma fresh_id_sample: "\<forall>n. fresh_id n \<notin> terminal_ids sample_store"
  by (simp add: fresh_id_def u_def)

text \<open>Canonical texts of random UUIDs that end in a given digit.\<close>

definition zero_uuid :: "nat \<Rightarrow> ustr" where
  "zero_uuid d = replicate 8 48 @ [45] @ replicate 4 48 @ [45, 52] @ replicate 3 48 @ [45, 56] @ replicate 3 48 @ [45]
     @ replicate 11 48 @ [d]"

lemma zero_uuid_text [simp]: "uuid4_text (zero_uuid 49)" "uuid4_text (zero_uuid 50)" "uuid4_text (zero_uuid 51)"
  by code_simp+

end
