(* ===== verification/Store_Runs.thy ===== *)
theory Store_Runs
  imports Samples
begin

text \<open>
  File Runs and Remote Runs of \<^verbatim>\<open>StateStore\<close> (\<^verbatim>\<open>termroom/db.py\<close>): claims, lifecycle transitions, the
  Activity event a run leaves when it ends, collection reports and the transient Workspace of a
  Remote Run.

  An argument that defaults to \<open>...\<close> (not given) is an \<open>option\<close> whose \<open>None\<close> means "not given";
  \<open>None\<close> of Python is the inner \<open>None\<close>. States are passed as text and checked as the code does.
\<close>

section \<open>Shared pieces\<close>

definition given :: "'a option \<Rightarrow> 'a \<Rightarrow> 'a" where
  "given new old = (case new of None \<Rightarrow> old | Some v \<Rightarrow> v)"

definition states_of :: "ustr list \<Rightarrow> run_state set option" where
  "states_of ts =
    (if ts = [] \<or> (\<exists>t \<in> set ts. run_state_of t = None) then None
     else Some ((\<lambda>t. the (run_state_of t)) ` set ts))"

definition state_given :: "ustr option \<Rightarrow> run_state option option" where
  "state_given t =
    (case t of None \<Rightarrow> Some None
     | Some x \<Rightarrow> (case run_state_of x of None \<Rightarrow> None | Some st \<Rightarrow> Some (Some st)))"

section \<open>File Runs\<close>

text \<open>A payload is a mapping: a field that is absent is \<open>None\<close>.\<close>

record file_claim =
  p_id :: "ustr option"
  p_workspace :: "ustr option"
  p_key :: "ustr option"
  p_path :: "ustr option"
  p_digest :: "ustr option"
  p_runner :: "ustr option"
  p_version :: "int option"
  p_argv :: "ustr list option"

definition missing_fields :: "file_claim \<Rightarrow> bool" where
  "missing_fields p \<longleftrightarrow> p_id p = None \<or> p_workspace p = None \<or> p_key p = None \<or> p_path p = None
     \<or> p_digest p = None \<or> p_runner p = None \<or> p_version p = None \<or> p_argv p = None"

definition claimed_row :: "stamp \<Rightarrow> file_claim \<Rightarrow> file_run_row" where
  "claimed_row now p =
    \<lparr>f_id = the (p_id p), f_workspace = the (p_workspace p), f_key = the (p_key p), f_path = the (p_path p),
     f_digest = the (p_digest p), f_runner = the (p_runner p), f_runner_version = the (p_version p),
     f_argv = the (p_argv p), f_terminal = None, f_state = Preparing, f_revision = 0, f_created = now,
     f_started = None, f_stop = None, f_ended = None, f_exit = None, f_error = None, f_detail = None\<rparr>"

datatype claim_outcome = Claim_Created | Claim_Idempotent | Claim_Occupied

definition same_payload :: "file_run_row \<Rightarrow> file_run_row \<Rightarrow> bool" where
  "same_payload r v \<longleftrightarrow> f_path r = f_path v \<and> f_digest r = f_digest v \<and> f_runner r = f_runner v
     \<and> f_runner_version r = f_runner_version v \<and> f_argv r = f_argv v"

definition claim_file_run ::
    "stamp \<Rightarrow> file_claim \<Rightarrow> store \<Rightarrow> (claim_outcome \<times> file_run_row \<times> store) result" where
  "claim_file_run now p s =
    (if missing_fields p then Inl (ValueError ''Missing File Run fields'')
     else
     let v = claimed_row now p in
     case find (\<lambda>r. f_workspace r = f_workspace v \<and> f_key r = f_key v) (file_runs s) of
       Some r \<Rightarrow>
         if \<not> same_payload r v
         then Inl (ValueError ''File Run idempotency key was reused with a different payload'')
         else Inr (Claim_Idempotent, r, s)
     | None \<Rightarrow>
        (case find (\<lambda>r. f_workspace r = f_workspace v \<and> active_file_run r) (file_runs s) of
           Some r \<Rightarrow> Inr (Claim_Occupied, r, s)
         | None \<Rightarrow> rbind (insert_file_run v s) (\<lambda>s'. Inr (Claim_Created, v, s'))))"

text \<open>\<^verbatim>\<open>_file_run_select\<close>: a run with its Workspace (of which the query returns the name, the backend and
  the kind).\<close>

definition file_run_select :: "store \<Rightarrow> file_run_row list \<Rightarrow> (file_run_row \<times> workspace_row) list" where
  "file_run_select s fs =
    concat (map (\<lambda>f. map (\<lambda>w. (f, w)) (filter (\<lambda>w. w_id w = f_workspace f) (workspaces s))) fs)"

definition first_row :: "'a list \<Rightarrow> 'a option" where
  "first_row rs = (case rs of [] \<Rightarrow> None | r # _ \<Rightarrow> Some r)"

definition get_file_run :: "ustr \<Rightarrow> store \<Rightarrow> (file_run_row \<times> workspace_row) option" where
  "get_file_run run_id s = first_row (file_run_select s (filter (\<lambda>f. f_id f = run_id) (file_runs s)))"

definition get_file_run_by_idempotency :: "ustr \<Rightarrow> ustr \<Rightarrow> store \<Rightarrow> (file_run_row \<times> workspace_row) option" where
  "get_file_run_by_idempotency workspace_id key s =
    first_row (file_run_select s
      (filter (\<lambda>f. f_workspace f = workspace_id \<and> f_key f = key) (file_runs s)))"

definition get_active_file_run :: "ustr \<Rightarrow> store \<Rightarrow> (file_run_row \<times> workspace_row) option" where
  "get_active_file_run workspace_id s =
    first_row (file_run_select s
      (filter (\<lambda>f. f_workspace f = workspace_id \<and> active_file_run f) (file_runs s)))"

definition get_latest_file_run :: "ustr \<Rightarrow> ustr option \<Rightarrow> store \<Rightarrow> (file_run_row \<times> workspace_row) option" where
  "get_latest_file_run workspace_id relative_path s =
    first_row (file_run_select s (sort_key (\<lambda>f. - f_created f)
      (filter (\<lambda>f. f_workspace f = workspace_id
         \<and> (case relative_path of None \<Rightarrow> True | Some p \<Rightarrow> f_path f = p)) (file_runs s))))"

definition list_active_file_runs :: "store \<Rightarrow> (file_run_row \<times> workspace_row) list" where
  "list_active_file_runs s = file_run_select s (sort_key f_created (filter active_file_run (file_runs s)))"

definition set_file_run_terminal :: "ustr \<Rightarrow> ustr \<Rightarrow> store \<Rightarrow> (bool \<times> store) result" where
  "set_file_run_terminal run_id terminal_id s =
    (let p = (\<lambda>f. f_id f = run_id \<and> active_file_run f) in
     if rowcount p (file_runs s) = 0 then Inr (False, s)
     else if terminal_id \<notin> terminal_ids s then Inl IntegrityError
     else Inr (rowcount p (file_runs s) = 1,
       s\<lparr>file_runs := update_where p (\<lambda>f. f\<lparr>f_terminal := Some terminal_id\<rparr>) (file_runs s)\<rparr>))"

definition run_duration_seconds :: "stamp option \<Rightarrow> stamp option \<Rightarrow> int option" where
  "run_duration_seconds started ended =
    (case started of None \<Rightarrow> None
     | Some a \<Rightarrow> (case ended of None \<Rightarrow> None | Some b \<Rightarrow> Some (max 0 (b - a))))"

definition file_run_event :: "stamp \<Rightarrow> ustr \<Rightarrow> file_run_row \<Rightarrow> workspace_row \<Rightarrow> event_row" where
  "file_run_event now new_id f w =
    (let duration = run_duration_seconds (f_started f) (f_ended f);
         completed = (f_exit f = Some 0);
         outcome = (case f_state f of
             Finished \<Rightarrow> (if completed then u ''file_run.completed'' else u ''file_run.failed'',
                          \<not> completed \<or> (case duration of None \<Rightarrow> False | Some d \<Rightarrow> d \<ge> 30))
           | Failed \<Rightarrow> (u ''file_run.failed'', True)
           | Stopped \<Rightarrow> (u ''file_run.stopped'', True)
           | _ \<Rightarrow> (u ''file_run.attention'', True))
     in \<lparr>e_sequence = 0, e_id = new_id, e_kind = fst outcome, e_subject_type = File_Run_Subject,
         e_subject = f_id f, e_revision = f_revision f, e_primary = event_label (f_path f) (u ''File''),
         e_secondary = event_label (w_display w) (u ''Workspace''), e_exit = f_exit f,
         e_duration = duration, e_occurred = (case f_ended f of Some t \<Rightarrow> t | None \<Rightarrow> f_created f),
         e_created = now, e_read = None, e_notify = snd outcome\<rparr>)"

definition insert_file_run_event :: "stamp \<Rightarrow> ustr \<Rightarrow> file_run_row \<times> workspace_row \<Rightarrow> store \<Rightarrow> store result" where
  "insert_file_run_event now new_id fw s =
    (if \<not> terminal_state (f_state (fst fw)) then Inr s
     else insert_event_or_ignore (file_run_event now new_id (fst fw) (snd fw)) s)"

record file_change =
  fc_expected :: "ustr list"
  fc_state :: "ustr option"
  fc_started :: "stamp option option"
  fc_stop :: "stamp option option"
  fc_ended :: "stamp option option"
  fc_exit :: "int option option"
  fc_error :: "ustr option option"
  fc_detail :: "ustr option option"

definition no_file_changes :: "file_change \<Rightarrow> bool" where
  "no_file_changes c \<longleftrightarrow> fc_state c = None \<and> fc_started c = None \<and> fc_stop c = None \<and> fc_ended c = None
     \<and> fc_exit c = None \<and> fc_error c = None \<and> fc_detail c = None"

definition apply_file_change :: "run_state option \<Rightarrow> file_change \<Rightarrow> file_run_row \<Rightarrow> file_run_row" where
  "apply_file_change st c f =
    f\<lparr>f_state := given st (f_state f), f_started := given (fc_started c) (f_started f),
      f_stop := given (fc_stop c) (f_stop f), f_ended := given (fc_ended c) (f_ended f),
      f_exit := given (fc_exit c) (f_exit f), f_error := given (fc_error c) (f_error f),
      f_detail := given (fc_detail c) (f_detail f), f_revision := f_revision f + 1\<rparr>"

text \<open>The UPDATE and the event; \<open>previous\<close> is the row before, \<open>updated\<close> the row (with its Workspace) after.\<close>

definition transition_file_run ::
    "stamp \<Rightarrow> ustr \<Rightarrow> ustr \<Rightarrow> file_change \<Rightarrow> store \<Rightarrow> (bool \<times> store) result" where
  "transition_file_run now new_id run_id c s =
    (case states_of (fc_expected c) of
       None \<Rightarrow> Inl (ValueError ''Invalid expected File Run states'')
     | Some expected \<Rightarrow>
        (case state_given (fc_state c) of
           None \<Rightarrow> Inl (ValueError ''Invalid File Run state'')
         | Some st \<Rightarrow>
            if no_file_changes c then Inr (False, s)
            else
            let previous = find (\<lambda>f. f_id f = run_id) (file_runs s);
                p = (\<lambda>f. f_id f = run_id \<and> f_state f \<in> expected);
                s1 = s\<lparr>file_runs := update_where p (apply_file_change st c) (file_runs s)\<rparr>;
                updated = get_file_run run_id s1
            in if \<not> unique_where active_file_run f_workspace (file_runs s1) then Inl IntegrityError
               else if rowcount p (file_runs s) \<noteq> 1 then Inr (False, s1)
               else (case (previous, updated) of
                       (Some before, Some after) \<Rightarrow>
                         if \<not> terminal_state (f_state before) \<and> terminal_state (f_state (fst after))
                         then rbind (insert_file_run_event now new_id after s1) (\<lambda>s2. Inr (True, s2))
                         else Inr (True, s1)
                     | _ \<Rightarrow> Inr (True, s1))))"

section \<open>Remote Runs\<close>

text \<open>The columns of the INSERT; \<open>values.get\<close> of an absent column is NULL.\<close>

record remote_values =
  v_id :: ustr
  v_kind :: "ustr option"
  v_format :: "ustr option"
  v_source_workspace :: "ustr option"
  v_path :: "ustr option"
  v_label :: "ustr option"
  v_url :: "ustr option"
  v_options :: "ustr option"
  v_source_revision :: "ustr option"
  v_size :: "int option"
  v_target :: "ustr option"
  v_command :: "ustr option"
  v_base :: "ustr option"
  v_workspace :: "ustr option"
  v_state :: "ustr option"
  v_phase :: "ustr option"
  v_created :: "stamp option"
  v_expires :: "stamp option"

text \<open>The row of the INSERT, or \<open>None\<close> where a NOT NULL or CHECK constraint refuses the columns.\<close>

definition remote_row :: "remote_values \<Rightarrow> remote_run_row option" where
  "remote_row v =
    (case (v_kind v, v_label v, v_options v, v_target v, v_command v, v_base v, v_state v, v_created v) of
       (Some k, Some l, Some opts, Some t, Some c, Some b, Some st, Some cr) \<Rightarrow>
         (case (source_kind_of k, run_state_of st) of
            (Some kind, Some state) \<Rightarrow>
              if archive_format_ok kind (v_format v)
              then Some \<lparr>m_id = v_id v, m_kind = kind, m_format = v_format v,
                     m_source_workspace = v_source_workspace v, m_source_path = v_path v, m_label = l,
                     m_url = v_url v, m_options = opts, m_source_revision = v_source_revision v,
                     m_source_size = v_size v, m_target = t, m_command = c, m_base = b,
                     m_workspace = v_workspace v, m_state = state, m_phase = v_phase v, m_exit = None,
                     m_error = None, m_detail = None, m_revision = 0, m_created = cr, m_started = None,
                     m_stop = None, m_ended = None, m_expires = v_expires v\<rparr>
              else None
          | _ \<Rightarrow> None)
     | _ \<Rightarrow> None)"

definition create_remote_run :: "remote_values \<Rightarrow> store \<Rightarrow> (remote_run_row \<times> bool \<times> store) result" where
  "create_remote_run v s =
    (case remote_row v of
       None \<Rightarrow> Inl IntegrityError
     | Some row \<Rightarrow>
        (case find (\<lambda>m. m_id m = v_id v) (remote_runs s) of
           Some m \<Rightarrow> Inr (m, False, s)
         | None \<Rightarrow> rbind (insert_remote_run row s) (\<lambda>s'.
             case find (\<lambda>m. m_id m = v_id v) (remote_runs s') of
               None \<Rightarrow> Inl (RuntimeError ''Remote Run insert did not produce a row'')
             | Some m \<Rightarrow> Inr (m, True, s'))))"

definition get_remote_run :: "ustr \<Rightarrow> store \<Rightarrow> remote_run_row option" where
  "get_remote_run run_id s = find (\<lambda>m. m_id m = run_id) (remote_runs s)"

text \<open>\<^verbatim>\<open>json.dumps(value, separators=(",", ":"), ensure_ascii=False)\<close>.\<close>

definition hex_digit :: "nat \<Rightarrow> nat" where
  "hex_digit n = (if n < 10 then 48 + n else 87 + n)"

definition json_char :: "nat \<Rightarrow> ustr" where
  "json_char c =
    (if c = 34 then [92, 34] else if c = 92 then [92, 92] else if c = 10 then [92, 110]
     else if c = 13 then [92, 114] else if c = 9 then [92, 116] else if c = 12 then [92, 102]
     else if c = 8 then [92, 98]
     else if c < 32 then [92, 117, 48, 48, hex_digit (c div 16), hex_digit (c mod 16)] else [c])"

definition json_string :: "ustr \<Rightarrow> ustr" where
  "json_string t = [34] @ concat (map json_char t) @ [34]"

fun json_dumps :: "jvalue \<Rightarrow> ustr" where
  "json_dumps JNull = u ''null''"
| "json_dumps (JBool b) = (if b then u ''true'' else u ''false'')"
| "json_dumps (JNum n) = n"
| "json_dumps (JStr t) = json_string t"
| "json_dumps (JList vs) = [91] @ join [44] (map json_dumps vs) @ [93]"
| "json_dumps (JObj kvs) = [123] @ join [44] (map (\<lambda>(k, v). json_string k @ [58] @ json_dumps v) kvs) @ [125]"

text \<open>\<open>str_of\<close> is Python's \<^verbatim>\<open>str\<close> on the JSON value of the plan revision.\<close>

definition save_remote_run_collection_report ::
    "(jvalue \<Rightarrow> ustr) \<Rightarrow> stamp \<Rightarrow> ustr \<Rightarrow> ustr \<Rightarrow> (ustr \<times> jvalue) list \<Rightarrow> store \<Rightarrow> (ustr \<times> store) result" where
  "save_remote_run_collection_report str_of now report_id run_id report s =
    (case utf8_length (json_dumps (JObj report)) of
       None \<Rightarrow> Inl (ValueError ''surrogates not allowed'')
     | Some n \<Rightarrow>
        if n > 2 * 1024 * 1024 then Inl (ValueError ''Remote Run collection report exceeds storage limit'')
        else
        (case map_of report (u ''plan_revision'') of
           None \<Rightarrow> Inl (KeyError ''plan_revision'')
         | Some plan \<Rightarrow>
            let row = \<lparr>q_run = run_id, q_report = report_id, q_plan = str_of plan, q_created = now,
                       q_json = Json (JObj report)\<rparr>;
                qs = (if \<exists>q \<in> set (reports s). q_run q = run_id
                      then update_where (\<lambda>q. q_run q = run_id) (\<lambda>_. row) (reports s)
                      else reports s @ [row])
            in if \<not> distinct (map q_report qs) then Inl IntegrityError
               else Inr (report_id, s\<lparr>reports := qs\<rparr>)))"

definition get_remote_run_collection_report :: "ustr \<Rightarrow> ustr \<Rightarrow> store \<Rightarrow> (ustr \<times> jvalue) list option" where
  "get_remote_run_collection_report run_id report_id s =
    (case find (\<lambda>q. q_run q = run_id \<and> q_report q = report_id) (reports s) of
       None \<Rightarrow> None
     | Some q \<Rightarrow> (case q_json q of Json (JObj kvs) \<Rightarrow> Some kvs | _ \<Rightarrow> None))"

definition get_remote_run_for_workspace :: "ustr \<Rightarrow> store \<Rightarrow> remote_run_row option" where
  "get_remote_run_for_workspace workspace_id s = find (\<lambda>m. m_workspace m = Some workspace_id) (remote_runs s)"

definition get_workspace_for_remote_run :: "ustr \<Rightarrow> store \<Rightarrow> (workspace_row \<times> ustr) option" where
  "get_workspace_for_remote_run run_id s =
    first_row (concat (map (\<lambda>m. concat (map (\<lambda>w. map (\<lambda>r. (w, r_path r))
        (filter (\<lambda>r. r_id r = w_root w) (roots s)))
      (filter (\<lambda>w. m_workspace m = Some (w_id w)) (workspaces s))))
    (filter (\<lambda>m. m_id m = run_id) (remote_runs s))))"

definition set_remote_run :: "ustr \<Rightarrow> (remote_run_row \<Rightarrow> remote_run_row) \<Rightarrow> store \<Rightarrow> store" where
  "set_remote_run i f s = s\<lparr>remote_runs := update_where (\<lambda>m. m_id m = i) f (remote_runs s)\<rparr>"

definition attach_remote_run_workspace :: "ustr \<Rightarrow> ustr \<Rightarrow> store \<Rightarrow> (remote_run_row \<times> store) result" where
  "attach_remote_run_workspace run_id workspace_id s =
    (case find (\<lambda>m. m_id m = run_id) (remote_runs s) of
       None \<Rightarrow> Inl (KeyError ''Unknown Remote Run'')
     | Some run \<Rightarrow>
        (case find (\<lambda>w. w_id w = workspace_id) (workspaces s) of
           None \<Rightarrow> Inl (KeyError ''Unknown Workspace'')
         | Some w \<Rightarrow>
            if w_backend w \<noteq> Remote_Backend
                \<or> (case w_computer w of None \<Rightarrow> [] | Some c \<Rightarrow> c) \<noteq> m_target run
            then Inl (ValueError ''Remote Run Workspace must use its target Remote'')
            else if m_workspace run \<noteq> None \<and> m_workspace run \<noteq> Some workspace_id
            then Inl (RuntimeError ''Remote Run already has a different Workspace'')
            else if \<exists>m \<in> set (remote_runs s). m_workspace m = Some workspace_id \<and> m_id m \<noteq> run_id
            then Inl (RuntimeError ''Workspace is already attached to another Remote Run'')
            else
              let s' = (if m_workspace run = None
                        then set_remote_run run_id (\<lambda>m. m\<lparr>m_workspace := Some workspace_id\<rparr>) s else s)
              in Inr (run\<lparr>m_workspace := Some workspace_id\<rparr>, s')))"

definition detach_remote_run_workspace :: "ustr \<Rightarrow> ustr option \<Rightarrow> store \<Rightarrow> (ustr option \<times> store) result" where
  "detach_remote_run_workspace run_id workspace_id s =
    (case find (\<lambda>m. m_id m = run_id) (remote_runs s) of
       None \<Rightarrow> Inl (KeyError ''Unknown Remote Run'')
     | Some run \<Rightarrow>
        (case m_workspace run of
           None \<Rightarrow> Inr (None, s)
         | Some attached \<Rightarrow>
            if workspace_id \<noteq> None \<and> workspace_id \<noteq> Some attached then Inr (None, s)
            else Inr (Some attached,
              s\<lparr>remote_runs := update_where (\<lambda>m. m_id m = run_id \<and> m_workspace m = Some attached)
                  (\<lambda>m. m\<lparr>m_workspace := None\<rparr>) (remote_runs s)\<rparr>)))"

definition delete_remote_run_workspace :: "ustr \<Rightarrow> store \<Rightarrow> (bool \<times> store) result" where
  "delete_remote_run_workspace run_id s =
    (case find (\<lambda>m. m_id m = run_id) (remote_runs s) of
       None \<Rightarrow> Inl (KeyError ''Unknown Remote Run'')
     | Some run \<Rightarrow>
        (case m_workspace run of
           None \<Rightarrow> Inr (False, s)
         | Some w \<Rightarrow>
            Inr (True, delete_workspaces (\<lambda>x. w_id x = w)
                   (set_remote_run run_id (\<lambda>m. m\<lparr>m_workspace := None\<rparr>) s))))"

definition list_recent_remote_runs :: "int \<Rightarrow> store \<Rightarrow> remote_run_row list" where
  "list_recent_remote_runs limit s =
    sql_limit limit (sort_key (\<lambda>m. (if m_state m \<in> {Preparing, Running} then 0 else (1::int), - m_created m))
      (remote_runs s))"

definition list_remote_runs_for_computer :: "ustr \<Rightarrow> store \<Rightarrow> remote_run_row list" where
  "list_remote_runs_for_computer computer_id s =
    sort_key (\<lambda>m. - m_created m) (filter (\<lambda>m. m_target m = computer_id) (remote_runs s))"

definition list_active_remote_runs :: "store \<Rightarrow> remote_run_row list" where
  "list_active_remote_runs s =
    sort_key m_created (filter (\<lambda>m. m_state m = Running
      \<or> (m_state m = Preparing \<and> m_phase m \<noteq> Some (u ''waiting_upload''))) (remote_runs s))"

definition expired_at :: "stamp \<Rightarrow> remote_run_row \<Rightarrow> bool" where
  "expired_at now m \<longleftrightarrow> (case m_expires m of None \<Rightarrow> False | Some t \<Rightarrow> t \<le> now)"

definition list_expired_remote_runs :: "stamp \<Rightarrow> store \<Rightarrow> remote_run_row list" where
  "list_expired_remote_runs now s =
    sort_key (\<lambda>m. the (m_expires m)) (filter (\<lambda>m. terminal_state (m_state m) \<and> expired_at now m) (remote_runs s))"

definition list_abandoned_remote_run_uploads :: "stamp \<Rightarrow> store \<Rightarrow> remote_run_row list" where
  "list_abandoned_remote_run_uploads now s =
    sort_key (\<lambda>m. the (m_expires m)) (filter (\<lambda>m. m_state m = Preparing
      \<and> m_phase m = Some (u ''waiting_upload'') \<and> m_kind m = Archive_Source
      \<and> m_format m = Some (u ''zip'') \<and> expired_at now m) (remote_runs s))"

definition remote_run_event :: "stamp \<Rightarrow> ustr \<Rightarrow> bool \<Rightarrow> remote_run_row \<Rightarrow> ustr \<Rightarrow> event_row" where
  "remote_run_event now new_id historical m target_name =
    (let kind = (case m_state m of
             Finished \<Rightarrow> if m_exit m = Some 0 then u ''remote_run.completed'' else u ''remote_run.failed''
           | Failed \<Rightarrow> u ''remote_run.failed''
           | Stopped \<Rightarrow> u ''remote_run.stopped''
           | _ \<Rightarrow> u ''remote_run.attention'');
         occurred = (case m_ended m of Some t \<Rightarrow> t | None \<Rightarrow> m_created m)
     in \<lparr>e_sequence = 0, e_id = new_id, e_kind = kind, e_subject_type = Remote_Run_Subject,
         e_subject = m_id m, e_revision = m_revision m,
         e_primary = event_label (m_label m) (u ''Remote Run''),
         e_secondary = event_label target_name (u ''Remote''), e_exit = m_exit m, e_duration = None,
         e_occurred = occurred, e_created = now, e_read = (if historical then Some occurred else None),
         e_notify = (\<not> historical)\<rparr>)"

definition insert_remote_run_event ::
    "stamp \<Rightarrow> ustr \<Rightarrow> bool \<Rightarrow> remote_run_row \<times> ustr \<Rightarrow> store \<Rightarrow> store result" where
  "insert_remote_run_event now new_id historical mt s =
    (if \<not> terminal_state (m_state (fst mt)) then Inr s
     else insert_event_or_ignore (remote_run_event now new_id historical (fst mt) (snd mt)) s)"

record remote_change =
  rc_expected :: "ustr list"
  rc_expected_phase :: "ustr option option"
  rc_state :: "ustr option"
  rc_phase :: "ustr option option"
  rc_started :: "stamp option option"
  rc_stop :: "stamp option option"
  rc_ended :: "stamp option option"
  rc_expires :: "stamp option option"
  rc_exit :: "int option option"
  rc_error :: "ustr option option"
  rc_detail :: "ustr option option"
  rc_source_revision :: "ustr option option"
  rc_source_size :: "int option option"

definition no_remote_changes :: "remote_change \<Rightarrow> bool" where
  "no_remote_changes c \<longleftrightarrow> rc_state c = None \<and> rc_phase c = None \<and> rc_started c = None \<and> rc_stop c = None
     \<and> rc_ended c = None \<and> rc_expires c = None \<and> rc_exit c = None \<and> rc_error c = None \<and> rc_detail c = None
     \<and> rc_source_revision c = None \<and> rc_source_size c = None"

definition apply_remote_change :: "run_state option \<Rightarrow> remote_change \<Rightarrow> remote_run_row \<Rightarrow> remote_run_row" where
  "apply_remote_change st c m =
    m\<lparr>m_state := given st (m_state m), m_phase := given (rc_phase c) (m_phase m),
      m_started := given (rc_started c) (m_started m), m_stop := given (rc_stop c) (m_stop m),
      m_ended := given (rc_ended c) (m_ended m), m_expires := given (rc_expires c) (m_expires m),
      m_exit := given (rc_exit c) (m_exit m), m_error := given (rc_error c) (m_error m),
      m_detail := given (rc_detail c) (m_detail m),
      m_source_revision := given (rc_source_revision c) (m_source_revision m),
      m_source_size := given (rc_source_size c) (m_source_size m), m_revision := m_revision m + 1\<rparr>"

definition phase_matches :: "remote_change \<Rightarrow> remote_run_row \<Rightarrow> bool" where
  "phase_matches c m \<longleftrightarrow> (case rc_expected_phase c of None \<Rightarrow> True | Some ph \<Rightarrow> m_phase m = ph)"

text \<open>The row after the UPDATE joined with its target computer.\<close>

definition remote_run_with_target :: "ustr \<Rightarrow> store \<Rightarrow> (remote_run_row \<times> ustr) option" where
  "remote_run_with_target run_id s =
    first_row (concat (map (\<lambda>m. map (\<lambda>c. (m, c_name c)) (filter (\<lambda>c. c_id c = m_target m) (computers s)))
      (filter (\<lambda>m. m_id m = run_id) (remote_runs s))))"

definition transition_remote_run ::
    "stamp \<Rightarrow> ustr \<Rightarrow> ustr \<Rightarrow> remote_change \<Rightarrow> store \<Rightarrow> (bool \<times> store) result" where
  "transition_remote_run now new_id run_id c s =
    (case states_of (rc_expected c) of
       None \<Rightarrow> Inl (ValueError ''Invalid expected Remote Run states'')
     | Some expected \<Rightarrow>
        (case state_given (rc_state c) of
           None \<Rightarrow> Inl (ValueError ''Invalid Remote Run state'')
         | Some st \<Rightarrow>
            if no_remote_changes c then Inr (False, s)
            else
            let previous = find (\<lambda>m. m_id m = run_id) (remote_runs s);
                p = (\<lambda>m. m_id m = run_id \<and> m_state m \<in> expected \<and> phase_matches c m);
                s1 = s\<lparr>remote_runs := update_where p (apply_remote_change st c) (remote_runs s)\<rparr>;
                updated = remote_run_with_target run_id s1
            in if rowcount p (remote_runs s) \<noteq> 1 then Inr (False, s1)
               else (case (previous, updated) of
                       (Some before, Some after) \<Rightarrow>
                         if \<not> terminal_state (m_state before) \<and> terminal_state (m_state (fst after))
                         then rbind (insert_remote_run_event now new_id False after s1) (\<lambda>s2. Inr (True, s2))
                         else Inr (True, s1)
                     | _ \<Rightarrow> Inr (True, s1))))"

definition expire_remote_run_now :: "ustr \<Rightarrow> stamp \<Rightarrow> store \<Rightarrow> bool \<times> store" where
  "expire_remote_run_now run_id now s =
    (let p = (\<lambda>m. m_id m = run_id \<and> terminal_state (m_state m)) in
     (rowcount p (remote_runs s) = 1,
      s\<lparr>remote_runs := update_where p (\<lambda>m. m\<lparr>m_expires := Some now\<rparr>) (remote_runs s)\<rparr>))"

definition delete_remote_run :: "ustr \<Rightarrow> store \<Rightarrow> store result" where
  "delete_remote_run run_id s =
    (case find (\<lambda>m. m_id m = run_id) (remote_runs s) of
       Some m \<Rightarrow>
         if m_workspace m \<noteq> None
         then Inl (RuntimeError ''Delete the Remote Run Workspace before its record'')
         else Inr (s\<lparr>reports := filter (\<lambda>q. q_run q \<noteq> run_id) (reports s),
                     remote_runs := filter (\<lambda>m. m_id m \<noteq> run_id) (remote_runs s)\<rparr>)
     | None \<Rightarrow> Inr (s\<lparr>reports := filter (\<lambda>q. q_run q \<noteq> run_id) (reports s)\<rparr>))"

end
