(* ===== verification/Run_Laws.thy ===== *)
theory Run_Laws
  imports Store_Runs
begin

text \<open>
  The run operations keep the constraints, and the life of a run: a transition is a
  compare-and-set on the state of one row, and the transition that ends a run leaves one Activity
  event. The lifecycle is an interface with File Runs and Remote Runs as its two providers; the
  claims about whole sequences of transitions are proved once against it.
\<close>

section \<open>The lifecycle of a run\<close>

definition events_of :: "subject_type \<Rightarrow> ustr \<Rightarrow> store \<Rightarrow> event_row list" where
  "events_of k i s = filter (\<lambda>e. e_subject_type e = k \<and> e_subject e = i) (events s)"

text \<open>One call of a transition by a client that ignores the answer; a call that raises changes nothing.\<close>

definition play :: "('c \<Rightarrow> ustr \<Rightarrow> store \<Rightarrow> (bool \<times> store) result) \<Rightarrow> 'c \<times> ustr \<Rightarrow> store \<Rightarrow> store" where
  "play step op s = (case step (fst op) (snd op) s of Inl _ \<Rightarrow> s | Inr r \<Rightarrow> snd r)"

text \<open>The revisions at which a run passes from an active state to an ended one along a sequence of calls.\<close>

definition passes_end :: "('r \<Rightarrow> run_state) \<Rightarrow> ('r \<Rightarrow> int) \<Rightarrow> 'r option \<Rightarrow> 'r option \<Rightarrow> int list" where
  "passes_end stf rvf before after =
    (case (before, after) of
       (Some r, Some r') \<Rightarrow> if \<not> terminal_state (stf r) \<and> terminal_state (stf r') then [rvf r'] else []
     | _ \<Rightarrow> [])"

fun endings :: "(store \<Rightarrow> 'r option) \<Rightarrow> ('r \<Rightarrow> run_state) \<Rightarrow> ('r \<Rightarrow> int) \<Rightarrow> ('o \<Rightarrow> store \<Rightarrow> store) \<Rightarrow> 'o list \<Rightarrow> store \<Rightarrow> int list" where
  "endings look stf rvf act [] s = []"
| "endings look stf rvf act (op # ops) s = passes_end stf rvf (look s) (look (act op s)) @ endings look stf rvf act ops (act op s)"

locale run_lifecycle =
  fixes run :: "ustr \<Rightarrow> store \<Rightarrow> 'r option" and st :: "'r \<Rightarrow> run_state" and rev :: "'r \<Rightarrow> int"
    and kind :: subject_type and step :: "'c \<Rightarrow> ustr \<Rightarrow> store \<Rightarrow> (bool \<times> store) result"
    and expects :: "'c \<Rightarrow> run_state set"
  assumes step_ok: "store_ok s \<Longrightarrow> step c i s = Inr (b, s') \<Longrightarrow> store_ok s'"
    and step_lost: "store_ok s \<Longrightarrow> step c i s = Inr (False, s') \<Longrightarrow> s' = s"
    and step_won: "store_ok s \<Longrightarrow> step c i s = Inr (True, s') \<Longrightarrow>
      \<exists>r r'. run i s = Some r \<and> st r \<in> expects c \<and> run i s' = Some r' \<and> rev r' = rev r + 1
        \<and> (\<forall>j. j \<noteq> i \<longrightarrow> run j s' = run j s)
        \<and> (if \<not> terminal_state (st r) \<and> terminal_state (st r') \<and> rev r' \<notin> e_revision ` set (events_of kind i s)
           then \<exists>e. events s' = events s @ [e] \<and> e_subject_type e = kind \<and> e_subject e = i \<and> e_revision e = rev r'
           else events s' = events s)"
begin

text \<open>A caller whose expectation no longer holds changes nothing.\<close>

lemma stale_caller_loses:
  assumes "store_ok s" "run i s = Some r" "st r \<notin> expects c"
  shows "(\<exists>e. step c i s = Inl e) \<or> step c i s = Inr (False, s)"
proof (cases "step c i s")
  case (Inr x)
  obtain b s' where x: "x = (b, s')" by (cases x) auto
  show ?thesis
  proof (cases b)
    case True
    with Inr x have "step c i s = Inr (True, s')" by simp
    from step_won [OF assms(1) this] assms(2,3) show ?thesis by auto
  next
    case False
    with Inr x step_lost [OF assms(1)] show ?thesis by auto
  qed
qed simp

lemma play_ok: "store_ok s \<Longrightarrow> store_ok (play step op s)"
  by (auto simp: play_def split: sum.splits prod.splits intro: step_ok)

text \<open>What one call does to one run.\<close>

lemma play_cases:
  assumes "store_ok s"
  obtains (idle) "play step op s = s"
  | (moved) r r' where "run (snd op) s = Some r" "st r \<in> expects (fst op)" "run (snd op) (play step op s) = Some r'"
      "rev r' = rev r + 1" "\<And>j. j \<noteq> snd op \<Longrightarrow> run j (play step op s) = run j s"
      "if \<not> terminal_state (st r) \<and> terminal_state (st r') \<and> rev r' \<notin> e_revision ` set (events_of kind (snd op) s)
       then \<exists>e. events (play step op s) = events s @ [e] \<and> e_subject_type e = kind \<and> e_subject e = snd op
         \<and> e_revision e = rev r'
       else events (play step op s) = events s"
proof (cases "step (fst op) (snd op) s")
  case (Inl e)
  then show thesis by (intro idle) (simp add: play_def)
next
  case (Inr x)
  obtain b s' where x: "x = (b, s')" by (cases x) auto
  then have p: "play step op s = s'" using Inr by (simp add: play_def)
  show thesis
  proof (cases b)
    case True
    with Inr x have "step (fst op) (snd op) s = Inr (True, s')" by simp
    from step_won [OF assms this] show thesis unfolding p [symmetric] by (elim exE conjE) (rule moved; blast)
  next
    case False
    with Inr x p step_lost [OF assms] show thesis by (intro idle) auto
  qed
qed

text \<open>The revision of a run is at least that of each of its events.\<close>

definition current :: "ustr \<Rightarrow> store \<Rightarrow> bool" where
  "current i s \<longleftrightarrow> (\<forall>r. run i s = Some r \<longrightarrow> (\<forall>e \<in> set (events_of kind i s). e_revision e \<le> rev r))"

lemma play_current:
  assumes ok: "store_ok s" and cur: "current i s"
  shows "current i (play step op s)"
  using ok
proof (cases rule: play_cases [of s op, consumes 1])
  case idle
  with cur show ?thesis by simp
next
  case (moved r r')
  show ?thesis
  proof (cases "i = snd op")
    case True
    have "\<forall>e \<in> set (events_of kind i s). e_revision e \<le> rev r'"
      using cur moved(1,4) True by (fastforce simp: current_def)
    with moved(3,6) True show ?thesis
      by (fastforce simp: current_def events_of_def split: if_splits)
  next
    case False
    then have "events_of kind i (play step op s) = events_of kind i s"
      using moved(6) by (auto simp: events_of_def split: if_splits)
    with cur moved(5) [OF False] show ?thesis by (simp add: current_def)
  qed
qed

text \<open>A run that ended stays as it is under transitions that expect an active state.\<close>

lemma ended_is_final:
  assumes "store_ok s" "run i s = Some r" "terminal_state (st r)"
    and "\<forall>op \<in> set ops. expects (fst op) \<subseteq> {Preparing, Running}"
  shows "run i (fold (play step) ops s) = Some r \<and> events_of kind i (fold (play step) ops s) = events_of kind i s"
  using assms
proof (induction ops arbitrary: s)
  case (Cons op ops)
  have "run i (play step op s) = Some r \<and> events_of kind i (play step op s) = events_of kind i s"
    using Cons.prems(1)
  proof (cases rule: play_cases [of s op, consumes 1])
    case idle
    with Cons.prems show ?thesis by simp
  next
    case (moved q q')
    have "i \<noteq> snd op"
    proof
      assume "i = snd op"
      with moved(1) Cons.prems(2) have "q = r" by simp
      with moved(2) Cons.prems(3,4) show False by (auto simp: terminal_state_def)
    qed
    with moved(5,6) Cons.prems(2) show ?thesis by (auto simp: events_of_def split: if_splits)
  qed
  with Cons.IH [of "play step op s"] Cons.prems play_ok show ?case by auto
qed simp

text \<open>Whatever calls are made, in whatever order: the revision counts up, and an active run that ends
  leaves exactly one event, one that does not end none.\<close>

lemma one_event_per_run:
  assumes "store_ok s" "current i s" "run i s = Some r" "\<not> terminal_state (st r)"
    and "\<forall>op \<in> set ops. expects (fst op) \<subseteq> {Preparing, Running}"
  shows "\<exists>r'. run i (fold (play step) ops s) = Some r' \<and> rev r \<le> rev r'
    \<and> (if terminal_state (st r')
       then \<exists>e. events_of kind i (fold (play step) ops s) = events_of kind i s @ [e] \<and> e_revision e \<le> rev r'
       else events_of kind i (fold (play step) ops s) = events_of kind i s)"
  using assms
proof (induction ops arbitrary: s r)
  case (Cons op ops)
  have ok: "store_ok (play step op s)" and cur: "current i (play step op s)"
    using Cons.prems(1,2) play_ok play_current by auto
  have rest: "\<forall>op \<in> set ops. expects (fst op) \<subseteq> {Preparing, Running}" using Cons.prems(5) by simp
  show ?case
    using Cons.prems(1)
  proof (cases rule: play_cases [of s op, consumes 1])
    case idle
    with Cons.IH [OF Cons.prems(1-4) rest] show ?thesis by (simp only: fold_simps)
  next
    case (moved q q')
    show ?thesis
    proof (cases "i = snd op")
      case False
      then have same: "run i (play step op s) = Some r" "events_of kind i (play step op s) = events_of kind i s"
        using moved(5,6) Cons.prems(3) by (auto simp: events_of_def split: if_splits)
      from Cons.IH [OF ok cur same(1) Cons.prems(4) rest] same(2) show ?thesis by (simp only: fold_simps)
    next
      case True
      then have q: "q = r" using moved(1) Cons.prems(3) by simp
      have new: "rev q' \<notin> e_revision ` set (events_of kind i s)"
        using Cons.prems(2,3) moved(4) q by (fastforce simp: current_def)
      show ?thesis
      proof (cases "terminal_state (st q')")
        case False
        then have "events_of kind i (play step op s) = events_of kind i s"
          using moved(6) by (simp add: events_of_def)
        with Cons.IH [OF ok cur, of q'] moved(3,4) True q rest False show ?thesis by fastforce
      next
        case True
        with moved(6) new Cons.prems(4) q \<open>i = snd op\<close> obtain e where
          e: "events_of kind i (play step op s) = events_of kind i s @ [e]" "e_revision e = rev q'"
          by (auto simp: events_of_def)
        from ended_is_final [OF ok _ True rest, of i] moved(3) \<open>i = snd op\<close>
        show ?thesis using e q moved(4) True by auto
      qed
    qed
  qed
qed simp

text \<open>Whatever calls are made, whatever states they expect: each passage of a run from an active state to an ended one
  leaves exactly one event, with the revision it ended at, and nothing else does.\<close>

lemma play_events:
  assumes ok: "store_ok s" and cur: "current i s"
  shows "map e_revision (events_of kind i (play step op s)) = map e_revision (events_of kind i s) @ passes_end st rev (run i s) (run i (play step op s))"
  using ok
proof (cases rule: play_cases [of s op, consumes 1])
  case idle
  then show ?thesis by (simp add: passes_end_def split: option.split)
next
  case (moved r r')
  show ?thesis
  proof (cases "i = snd op")
    case True
    have "rev r' \<notin> e_revision ` set (events_of kind i s)" using cur moved(1,4) True by (fastforce simp: current_def)
    with moved(1,3,6) True show ?thesis by (auto simp: events_of_def passes_end_def split: if_splits)
  next
    case False
    then have "events_of kind i (play step op s) = events_of kind i s" using moved(6) by (auto simp: events_of_def split: if_splits)
    then show ?thesis using moved(5) [OF False] by (simp add: passes_end_def split: option.split)
  qed
qed

lemma events_are_endings:
  assumes "store_ok s" "current i s"
  shows "map e_revision (events_of kind i (fold (play step) ops s)) = map e_revision (events_of kind i s) @ endings (run i) st rev (play step) ops s"
  using assms
proof (induction ops arbitrary: s)
  case (Cons op ops)
  from Cons.IH [of "play step op s"] Cons.prems play_ok play_current play_events [OF Cons.prems] show ?case by simp
qed simp

text \<open>Callers that expect an active state end it at most once.\<close>

lemma ends_once:
  assumes ok: "store_ok s" and cur: "current i s" and ops: "\<forall>op \<in> set ops. expects (fst op) \<subseteq> {Preparing, Running}"
  shows "length (endings (run i) st rev (play step) ops s) \<le> 1"
proof (cases "run i s")
  case None
  have none: "run i (play step op s) = None" if "store_ok s" "run i s = None" for op s
    using that(1)
  proof (cases rule: play_cases [of s op, consumes 1])
    case idle
    with that(2) show ?thesis by simp
  next
    case (moved r r')
    then have "i \<noteq> snd op" using that(2) by auto
    from moved(5) [OF this] that(2) show ?thesis by simp
  qed
  then have "endings (run i) st rev (play step) ops s = []"
    using ok None by (induction ops arbitrary: s) (auto simp: passes_end_def play_ok)
  then show ?thesis by simp
next
  case (Some r)
  have "length (events_of kind i (fold (play step) ops s)) \<le> length (events_of kind i s) + 1"
    using one_event_per_run [OF ok cur Some _ ops] ended_is_final [OF ok Some _ ops]
    by (cases "terminal_state (st r)") (auto split: if_splits)
  with arg_cong [OF events_are_endings [OF ok cur, of ops], of length] show ?thesis by simp
qed

end

section \<open>File Runs\<close>

lemma claim_file_run_ok [inv_intros]:
  "claim_file_run now p s = Inr (k, r, s') \<Longrightarrow> store_ok s \<Longrightarrow> store_ok s'"
  by (auto simp: claim_file_run_def rbind_Inr_iff Let_def split: if_splits option.splits intro: insert_file_run_ok)

lemma set_file_run_terminal_ok [inv_intros]:
  "set_file_run_terminal i t s = Inr (b, s') \<Longrightarrow> store_ok s \<Longrightarrow> store_ok s'"
  by (auto simp: set_file_run_terminal_def Let_def active_file_run_def split: if_splits intro!: update_file_runs_ok)

lemma apply_file_change_keys [simp]:
  "f_id (apply_file_change st c f) = f_id f" "f_workspace (apply_file_change st c f) = f_workspace f"
  "f_key (apply_file_change st c f) = f_key f" "f_terminal (apply_file_change st c f) = f_terminal f"
  "f_revision (apply_file_change st c f) = f_revision f + 1" "f_created (apply_file_change st c f) = f_created f"
  by (simp_all add: apply_file_change_def)

lemma get_file_run_found:
  assumes ok: "store_ok s" and f: "find (\<lambda>f. f_id f = i) (file_runs s) = Some f"
  obtains w where "get_file_run i s = Some (f, w)" "w \<in> set (workspaces s)" "w_id w = f_workspace f"
proof -
  from find_SomeD [OF f] have mem: "f \<in> set (file_runs s)" "f_id f = i" by auto
  from store_ok_table(7) [OF ok] mem obtain w where w: "w \<in> set (workspaces s)" "f_workspace f = w_id w"
    unfolding file_runs_ok_def by auto
  have "file_run_select s (filter (\<lambda>g. f_id g = i) (file_runs s)) = [(f, w)]"
    using file_run_table.filter_key [OF ok mem(1)] workspace_table.filter_key [OF ok w(1)] mem(2) w(2)
    by (simp add: file_run_select_def)
  with w show thesis by (intro that [of w]) (simp_all add: get_file_run_def first_row_def)
qed

lemma update_where_cong:
  "(\<And>r. r \<in> set rs \<Longrightarrow> p r = q r) \<Longrightarrow> update_where p f rs = update_where q f rs"
  by (simp add: update_where_def)

lemma transition_file_run_cases:
  assumes step: "transition_file_run now nid i c s = Inr (b, s')" and ok: "store_ok s"
  obtains (lost) "\<not> b" "s' = s"
  | (won) E st f w s1 where "b" "states_of (fc_expected c) = Some E"
      "find (\<lambda>f. f_id f = i) (file_runs s) = Some f" "f_state f \<in> E"
      "s1 = s\<lparr>file_runs := update_where (\<lambda>f. f_id f = i) (apply_file_change st c) (file_runs s)\<rparr>"
      "store_ok s1"
      "if \<not> terminal_state (f_state f) \<and> terminal_state (f_state (apply_file_change st c f))
       then insert_event_or_ignore (file_run_event now nid (apply_file_change st c f) w) s1 = Inr s' else s' = s1"
      "state_given (fc_state c) = Some st"
proof -
  from step obtain E where E: "states_of (fc_expected c) = Some E"
    by (cases "states_of (fc_expected c)") (simp_all add: transition_file_run_def)
  from step E obtain st where st: "state_given (fc_state c) = Some st"
    by (cases "state_given (fc_state c)") (simp_all add: transition_file_run_def)
  let ?p = "\<lambda>f. f_id f = i \<and> f_state f \<in> E"
  let ?s1 = "s\<lparr>file_runs := update_where ?p (apply_file_change st c) (file_runs s)\<rparr>"
  note step = step [unfolded transition_file_run_def E st option.case Let_def]
  have count: "rowcount ?p (file_runs s)
      = (case find (\<lambda>f. f_id f = i) (file_runs s) of None \<Rightarrow> 0 | Some f \<Rightarrow> if f_state f \<in> E then 1 else 0)"
    by (rule file_run_table.rowcount_key_and [OF ok])
  show thesis
  proof (cases "no_file_changes c")
    case True
    with step show thesis by (intro lost) simp_all
  next
    case False
    with step have unique: "unique_where active_file_run f_workspace (file_runs ?s1)"
      by (cases "unique_where active_file_run f_workspace (file_runs ?s1)") simp_all
    note step = step [unfolded eqTrueI [OF unique] not_True_eq_False if_False]
    show thesis
    proof (cases "rowcount ?p (file_runs s) = 1")
      case no: False
      then have "rowcount ?p (file_runs s) = 0"
        unfolding count by (auto split: option.splits if_splits)
      then have "?s1 = s" by (simp add: update_where_none)
      with step no False show thesis by (intro lost) auto
    next
      case yes: True
      then obtain f where f: "find (\<lambda>f. f_id f = i) (file_runs s) = Some f" "f_state f \<in> E"
        unfolding count by (auto split: option.splits if_splits)
      have only: "f_id r = i \<longleftrightarrow> ?p r" if "r \<in> set (file_runs s)" for r
        using that f file_run_table.lookup_iff [OF ok] by (metis option.inject)
      then have s1: "?s1 = s\<lparr>file_runs := update_where (\<lambda>f. f_id f = i) (apply_file_change st c) (file_runs s)\<rparr>"
        using update_where_cong [of "file_runs s" "\<lambda>f. f_id f = i" ?p] by simp
      have "file_runs_ok (workspace_ids s) (terminal_ids s) (file_runs ?s1)"
        using store_ok_table(7) [OF ok] unique by (simp add: file_runs_ok_def update_table)
      then have ok1: "store_ok ?s1" using store_ok_tables(6) [OF ok] by simp
      have "find (\<lambda>f. f_id f = i) (file_runs ?s1) = Some (apply_file_change st c f)"
        unfolding s1 using f(1) find_SomeD [OF f(1)]
        by (simp add: find_key_update_where [of f_id "apply_file_change st c"])
      from get_file_run_found [OF ok1 this] obtain w where
        w: "get_file_run i ?s1 = Some (apply_file_change st c f, w)" by blast
      show thesis
        using step False yes f(1) w st
        by (intro won [OF _ E f s1 ok1, of w])
          (auto simp: insert_file_run_event_def rbind_Inr_iff split: if_splits)
    qed
  qed
qed

lemma transition_file_run_ok [inv_intros]:
  assumes "transition_file_run now nid i c s = Inr (b, s')" and "store_ok s"
  shows "store_ok s'"
  using assms
proof (cases rule: transition_file_run_cases)
  case (won E st f w s1)
  then show ?thesis by (auto split: if_splits intro: insert_event_ok)
qed (use assms in simp)

lemma insert_event_frame:
  "insert_event_or_ignore e s = Inr s' \<Longrightarrow> file_runs s' = file_runs s \<and> remote_runs s' = remote_runs s
    \<and> events s' = (if (e_subject_type e, e_subject e, e_revision e)
        \<in> (\<lambda>e. (e_subject_type e, e_subject e, e_revision e)) ` set (events s) then events s
      else events s @ [e\<lparr>e_sequence := event_sequence s + 1\<rparr>])"
  by (auto simp: insert_event_or_ignore_def split: if_splits)

lemma ending_frame:
  "(if ended then insert_event_or_ignore e s1 = Inr s' else s' = s1) \<Longrightarrow>
    file_runs s' = file_runs s1 \<and> remote_runs s' = remote_runs s1"
  using insert_event_frame by (cases ended) auto

lemma event_present_iff:
  "(k, i, n) \<in> (\<lambda>e. (e_subject_type e, e_subject e, e_revision e)) ` set (events s)
    \<longleftrightarrow> n \<in> e_revision ` set (events_of k i s)"
  by (auto simp: events_of_def image_iff)

type_synonym file_call = "stamp \<times> ustr \<times> file_change"

definition file_step :: "file_call \<Rightarrow> ustr \<Rightarrow> store \<Rightarrow> (bool \<times> store) result" where
  "file_step c i s = transition_file_run (fst c) (fst (snd c)) i (snd (snd c)) s"

definition file_expects :: "file_call \<Rightarrow> run_state set" where
  "file_expects c = (case states_of (fc_expected (snd (snd c))) of None \<Rightarrow> {} | Some E \<Rightarrow> E)"

definition file_lookup :: "ustr \<Rightarrow> store \<Rightarrow> file_run_row option" where
  "file_lookup i s = find (\<lambda>f. f_id f = i) (file_runs s)"

lemma file_step_won:
  assumes ok: "store_ok s" and step: "file_step c i s = Inr (True, s')"
  shows "\<exists>r r'. file_lookup i s = Some r \<and> f_state r \<in> file_expects c \<and> file_lookup i s' = Some r'
    \<and> f_revision r' = f_revision r + 1 \<and> (\<forall>j. j \<noteq> i \<longrightarrow> file_lookup j s' = file_lookup j s)
    \<and> (if \<not> terminal_state (f_state r) \<and> terminal_state (f_state r')
           \<and> f_revision r' \<notin> e_revision ` set (events_of File_Run_Subject i s)
       then \<exists>e. events s' = events s @ [e] \<and> e_subject_type e = File_Run_Subject \<and> e_subject e = i
          \<and> e_revision e = f_revision r'
       else events s' = events s)"
  using step [unfolded file_step_def] ok
proof (cases rule: transition_file_run_cases)
  case (won E st f w s1)
  let ?f = "apply_file_change st (snd (snd c)) f"
  have i: "f_id f = i" using find_SomeD [OF won(3)] by simp
  have runs: "file_runs s' = file_runs s1" "events s1 = events s"
    using ending_frame [OF won(7)] by (simp_all add: won(5))
  have find: "file_lookup j s' = map_option (\<lambda>r. if f_id r = i then apply_file_change st (snd (snd c)) r else r)
      (file_lookup j s)" for j
    unfolding file_lookup_def runs(1) won(5) by (simp add: find_key_update_where)
  have "file_lookup j s' = file_lookup j s" if "j \<noteq> i" for j
  proof (cases "file_lookup j s")
    case None
    with find [of j] show ?thesis by simp
  next
    case (Some r)
    then have "f_id r = j" unfolding file_lookup_def using find_SomeD by fast
    with find [of j] Some that show ?thesis by simp
  qed
  moreover have "file_lookup i s = Some f" "file_lookup i s' = Some ?f"
    using won(3) find [of i] i by (simp_all add: file_lookup_def)
  moreover have "if \<not> terminal_state (f_state f) \<and> terminal_state (f_state ?f)
           \<and> f_revision ?f \<notin> e_revision ` set (events_of File_Run_Subject i s)
       then \<exists>e. events s' = events s @ [e] \<and> e_subject_type e = File_Run_Subject \<and> e_subject e = i
          \<and> e_revision e = f_revision ?f
       else events s' = events s"
  proof (cases "\<not> terminal_state (f_state f) \<and> terminal_state (f_state ?f)")
    case True
    with won(7) have "insert_event_or_ignore (file_run_event (fst c) (fst (snd c)) ?f w) s1 = Inr s'" by simp
    from insert_event_frame [OF this] True show ?thesis
      unfolding event_present_iff by (simp add: file_run_event_def Let_def i runs(2) events_of_def)
  next
    case False
    with won(7) runs(2) show ?thesis by auto
  qed
  ultimately show ?thesis using won(2,4) by (intro exI [of _ f] exI [of _ ?f]) (simp add: file_expects_def)
qed simp

interpretation file_life: run_lifecycle file_lookup f_state f_revision File_Run_Subject file_step file_expects
proof unfold_locales
  fix s s' :: store and c :: file_call and i :: ustr and b
  assume ok: "store_ok s"
  show "file_step c i s = Inr (b, s') \<Longrightarrow> store_ok s'"
    unfolding file_step_def by (rule transition_file_run_ok [OF _ ok])
  show "file_step c i s = Inr (False, s') \<Longrightarrow> s' = s"
    unfolding file_step_def using transition_file_run_cases [OF _ ok] by blast
qed (rule file_step_won)

section \<open>Remote Runs\<close>

lemma create_remote_run_ok [inv_intros]:
  "create_remote_run v s = Inr (r, b, s') \<Longrightarrow> store_ok s \<Longrightarrow> store_ok s'"
  by (auto simp: create_remote_run_def rbind_Inr_iff split: option.splits intro: insert_remote_run_ok)

lemma save_report_ok [inv_intros]:
  assumes "save_remote_run_collection_report f now q i r s = Inr (x, s')" and ok: "store_ok s"
  shows "store_ok s'"
proof -
  from assms(1) obtain row qs where s': "s' = s\<lparr>reports := qs\<rparr>" and dist: "distinct (map q_report qs)"
    and row: "q_run row = i" and qs: "qs = (if \<exists>q \<in> set (reports s). q_run q = i
       then update_where (\<lambda>q. q_run q = i) (\<lambda>_. row) (reports s) else reports s @ [row])"
    unfolding save_remote_run_collection_report_def Let_def
    by (auto split: option.splits if_splits)
  have "map q_run (update_where (\<lambda>q. q_run q = i) (\<lambda>_. row) (reports s)) = map q_run (reports s)"
    by (rule map_update_where_same) (simp add: row)
  moreover have "distinct (map q_run (reports s))" using store_ok_table(9) [OF ok] by (simp add: reports_ok_def)
  ultimately have "distinct (map q_run qs)"
    using row by (cases "\<exists>q \<in> set (reports s). q_run q = i") (auto simp: qs)
  with dist show ?thesis unfolding s' by (intro store_ok_tables(8) [OF ok]) (simp add: reports_ok_def)
qed

lemma set_remote_run_ok:
  assumes "store_ok s"
    and "\<And>m. m_id (f m) = m_id m \<and> m_kind (f m) = m_kind m \<and> m_format (f m) = m_format m
      \<and> m_target (f m) = m_target m \<and> m_source_workspace (f m) = m_source_workspace m
      \<and> (m_workspace (f m) = m_workspace m \<or> m_workspace (f m) = None)"
  shows "store_ok (set_remote_run i f s)"
  unfolding set_remote_run_def using assms by (intro update_remote_runs_ok) auto

lemma attach_cases:
  assumes "attach_remote_run_workspace i w s = Inr (r, s')"
  obtains run x where "find (\<lambda>m. m_id m = i) (remote_runs s) = Some run"
    "find (\<lambda>w'. w_id w' = w) (workspaces s) = Some x" "w_backend x = Remote_Backend"
    "m_workspace run = None \<or> m_workspace run = Some w"
    "\<forall>m \<in> set (remote_runs s). m_workspace m = Some w \<longrightarrow> m_id m = i"
    "r = run\<lparr>m_workspace := Some w\<rparr>"
    "s' = (if m_workspace run = None then set_remote_run i (\<lambda>m. m\<lparr>m_workspace := Some w\<rparr>) s else s)"
  using assms unfolding attach_remote_run_workspace_def Let_def
  by (auto split: option.splits if_splits)

lemma attach_ok [inv_intros]:
  assumes step: "attach_remote_run_workspace i w s = Inr (r, s')" and ok: "store_ok s"
  shows "store_ok s'"
  using step
proof (cases rule: attach_cases)
  case (1 run x)
  show ?thesis
  proof (cases "m_workspace run = None")
    case True
    let ?ms = "update_where (\<lambda>m. m_id m = i) (\<lambda>m. m\<lparr>m_workspace := Some w\<rparr>) (remote_runs s)"
    note old = store_ok_table(8) [OF ok, unfolded remote_runs_ok_def]
    have w: "w \<in> workspace_ids s" using find_SomeD [OF 1(2)] by auto
    have dist: "distinct (remote_runs s)" using old by (simp add: distinct_map)
    have "map m_id ?ms = map m_id (remote_runs s)" by (simp add: map_update_where_same)
    with old have dist': "distinct ?ms" by (metis distinct_map)
    have "inj_on m_workspace {m \<in> set (remote_runs s). m_workspace m \<noteq> None}"
      using old unique_where_iff_inj [OF dist, of "\<lambda>m. m_workspace m \<noteq> None" m_workspace] by blast
    then have old_inj: "x = y" if "x \<in> set (remote_runs s)" "y \<in> set (remote_runs s)"
        "m_workspace x \<noteq> None" "m_workspace x = m_workspace y" for x y
      using that by (auto simp: inj_on_def)
    have "inj_on m_workspace {m \<in> set ?ms. m_workspace m \<noteq> None}"
    proof (rule inj_onI)
      let ?g = "\<lambda>m. if m_id m = i then m\<lparr>m_workspace := Some w\<rparr> else m"
      fix a b assume "a \<in> {m \<in> set ?ms. m_workspace m \<noteq> None}" "b \<in> {m \<in> set ?ms. m_workspace m \<noteq> None}"
        and eq: "m_workspace a = m_workspace b"
      then obtain x y where x: "x \<in> set (remote_runs s)" "a = ?g x" and y: "y \<in> set (remote_runs s)" "b = ?g y"
        and some: "m_workspace a \<noteq> None" unfolding set_update_where by blast
      have "m_id x = i \<longleftrightarrow> m_id y = i" using x y eq 1(5) by (auto split: if_splits)
      moreover have "x = y" if "m_id x = i" "m_id y = i"
        using remote_run_table.lookup_unique [OF ok x(1) y(1)] that by simp
      moreover have "x = y" if "m_id x \<noteq> i" "m_id y \<noteq> i"
        using old_inj [OF x(1) y(1)] x(2) y(2) eq some that by simp
      ultimately show "a = b" using x(2) y(2) by blast
    qed
    then have "unique_where (\<lambda>m. m_workspace m \<noteq> None) m_workspace ?ms"
      unfolding unique_where_iff_inj [OF dist'] .
    with old w have "remote_runs_ok (workspace_ids s) (computer_ids s) ?ms"
      by (simp add: remote_runs_ok_def update_table)
    with True 1(7) show ?thesis by (simp add: set_remote_run_def store_ok_tables(7) [OF ok])
  next
    case False
    with 1(7) ok show ?thesis by auto
  qed
qed

lemma detach_ok [inv_intros]:
  "detach_remote_run_workspace i w s = Inr (r, s') \<Longrightarrow> store_ok s \<Longrightarrow> store_ok s'"
  by (auto simp: detach_remote_run_workspace_def split: option.splits if_splits intro!: update_remote_runs_ok)

lemma delete_remote_run_workspace_ok [inv_intros]:
  "delete_remote_run_workspace i s = Inr (r, s') \<Longrightarrow> store_ok s \<Longrightarrow> store_ok s'"
  by (auto simp: delete_remote_run_workspace_def split: option.splits
      intro!: delete_workspaces_ok set_remote_run_ok)

lemma expire_remote_run_now_ok [inv_intros]: "store_ok s \<Longrightarrow> store_ok (snd (expire_remote_run_now i now s))"
  by (auto simp: expire_remote_run_now_def Let_def intro!: update_remote_runs_ok)

lemma delete_remote_run_ok [inv_intros]: "delete_remote_run i s = Inr s' \<Longrightarrow> store_ok s \<Longrightarrow> store_ok s'"
  by (auto simp: delete_remote_run_def store_ok_def rows_filtered split: option.splits if_splits)

lemma apply_remote_change_keys [simp]:
  "m_id (apply_remote_change st c m) = m_id m" "m_kind (apply_remote_change st c m) = m_kind m"
  "m_format (apply_remote_change st c m) = m_format m" "m_target (apply_remote_change st c m) = m_target m"
  "m_source_workspace (apply_remote_change st c m) = m_source_workspace m"
  "m_workspace (apply_remote_change st c m) = m_workspace m"
  "m_revision (apply_remote_change st c m) = m_revision m + 1"
  by (simp_all add: apply_remote_change_def)

lemma remote_run_with_target_found:
  assumes ok: "store_ok s" and m: "find (\<lambda>m. m_id m = i) (remote_runs s) = Some m"
  obtains name where "remote_run_with_target i s = Some (m, name)"
proof -
  from find_SomeD [OF m] have mem: "m \<in> set (remote_runs s)" "m_id m = i" by auto
  from store_ok_table(8) [OF ok] mem obtain c where c: "c \<in> set (computers s)" "m_target m = c_id c"
    unfolding remote_runs_ok_def by auto
  have "remote_run_with_target i s = Some (m, c_name c)"
    using remote_run_table.filter_key [OF ok mem(1)] computer_table.filter_key [OF ok c(1)] mem(2) c(2)
    by (simp add: remote_run_with_target_def first_row_def)
  then show thesis by (rule that)
qed

lemma transition_remote_run_cases:
  assumes step: "transition_remote_run now nid i c s = Inr (b, s')" and ok: "store_ok s"
  obtains (lost) "\<not> b" "s' = s"
  | (won) E st m name s1 where "b" "states_of (rc_expected c) = Some E"
      "find (\<lambda>m. m_id m = i) (remote_runs s) = Some m" "m_state m \<in> E"
      "s1 = s\<lparr>remote_runs := update_where (\<lambda>m. m_id m = i) (apply_remote_change st c) (remote_runs s)\<rparr>"
      "store_ok s1"
      "if \<not> terminal_state (m_state m) \<and> terminal_state (m_state (apply_remote_change st c m))
       then insert_event_or_ignore (remote_run_event now nid False (apply_remote_change st c m) name) s1 = Inr s'
       else s' = s1"
      "state_given (rc_state c) = Some st" "phase_matches c m"
proof -
  from step obtain E where E: "states_of (rc_expected c) = Some E"
    by (cases "states_of (rc_expected c)") (simp_all add: transition_remote_run_def)
  from step E obtain st where st: "state_given (rc_state c) = Some st"
    by (cases "state_given (rc_state c)") (simp_all add: transition_remote_run_def)
  let ?p = "\<lambda>m. m_id m = i \<and> m_state m \<in> E \<and> phase_matches c m"
  let ?s1 = "s\<lparr>remote_runs := update_where ?p (apply_remote_change st c) (remote_runs s)\<rparr>"
  note step = step [unfolded transition_remote_run_def E st option.case Let_def]
  have count: "rowcount ?p (remote_runs s) = (case find (\<lambda>m. m_id m = i) (remote_runs s) of None \<Rightarrow> 0
      | Some m \<Rightarrow> if m_state m \<in> E \<and> phase_matches c m then 1 else 0)"
    by (rule remote_run_table.rowcount_key_and [OF ok])
  show thesis
  proof (cases "no_remote_changes c")
    case True
    with step show thesis by (intro lost) simp_all
  next
    case False
    show thesis
    proof (cases "rowcount ?p (remote_runs s) = 1")
      case no: False
      then have "rowcount ?p (remote_runs s) = 0"
        unfolding count by (auto split: option.splits if_splits)
      then have "?s1 = s" by (simp add: update_where_none)
      with step no False show thesis by (intro lost) auto
    next
      case yes: True
      then obtain m where m: "find (\<lambda>m. m_id m = i) (remote_runs s) = Some m" "m_state m \<in> E" "phase_matches c m"
        unfolding count by (auto split: option.splits if_splits)
      have only: "m_id r = i \<longleftrightarrow> ?p r" if "r \<in> set (remote_runs s)" for r
        using that m remote_run_table.lookup_iff [OF ok] by (metis option.inject)
      then have s1: "?s1 = s\<lparr>remote_runs := update_where (\<lambda>m. m_id m = i) (apply_remote_change st c) (remote_runs s)\<rparr>"
        using update_where_cong [of "remote_runs s" "\<lambda>m. m_id m = i" ?p] by simp
      have ok1: "store_ok ?s1" by (rule update_remote_runs_ok [OF ok]) simp_all
      have "find (\<lambda>m. m_id m = i) (remote_runs ?s1) = Some (apply_remote_change st c m)"
        unfolding s1 using m(1) find_SomeD [OF m(1)]
        by (simp add: find_key_update_where [of m_id "apply_remote_change st c"])
      from remote_run_with_target_found [OF ok1 this] obtain name where
        name: "remote_run_with_target i ?s1 = Some (apply_remote_change st c m, name)" by blast
      show thesis
        using step False yes m(1,3) name st
        by (intro won [OF _ E m(1,2) s1 ok1, of name])
          (auto simp: insert_remote_run_event_def rbind_Inr_iff split: if_splits)
    qed
  qed
qed

lemma transition_remote_run_ok [inv_intros]:
  assumes "transition_remote_run now nid i c s = Inr (b, s')" and "store_ok s"
  shows "store_ok s'"
  using assms
proof (cases rule: transition_remote_run_cases)
  case (won E st m name s1)
  then show ?thesis by (auto split: if_splits intro: insert_event_ok)
qed (use assms in simp)

type_synonym remote_call = "stamp \<times> ustr \<times> remote_change"

definition remote_step :: "remote_call \<Rightarrow> ustr \<Rightarrow> store \<Rightarrow> (bool \<times> store) result" where
  "remote_step c i s = transition_remote_run (fst c) (fst (snd c)) i (snd (snd c)) s"

definition remote_expects :: "remote_call \<Rightarrow> run_state set" where
  "remote_expects c = (case states_of (rc_expected (snd (snd c))) of None \<Rightarrow> {} | Some E \<Rightarrow> E)"

lemma remote_step_won:
  assumes ok: "store_ok s" and step: "remote_step c i s = Inr (True, s')"
  shows "\<exists>r r'. get_remote_run i s = Some r \<and> m_state r \<in> remote_expects c \<and> get_remote_run i s' = Some r'
    \<and> m_revision r' = m_revision r + 1 \<and> (\<forall>j. j \<noteq> i \<longrightarrow> get_remote_run j s' = get_remote_run j s)
    \<and> (if \<not> terminal_state (m_state r) \<and> terminal_state (m_state r')
           \<and> m_revision r' \<notin> e_revision ` set (events_of Remote_Run_Subject i s)
       then \<exists>e. events s' = events s @ [e] \<and> e_subject_type e = Remote_Run_Subject \<and> e_subject e = i
          \<and> e_revision e = m_revision r'
       else events s' = events s)"
  using step [unfolded remote_step_def] ok
proof (cases rule: transition_remote_run_cases)
  case (won E st m name s1)
  let ?m = "apply_remote_change st (snd (snd c)) m"
  have i: "m_id m = i" using find_SomeD [OF won(3)] by simp
  have runs: "remote_runs s' = remote_runs s1" "events s1 = events s"
    using ending_frame [OF won(7)] by (simp_all add: won(5))
  have find: "get_remote_run j s' = map_option (\<lambda>r. if m_id r = i then apply_remote_change st (snd (snd c)) r else r)
      (get_remote_run j s)" for j
    unfolding get_remote_run_def runs(1) won(5) by (simp add: find_key_update_where)
  have "get_remote_run j s' = get_remote_run j s" if "j \<noteq> i" for j
  proof (cases "get_remote_run j s")
    case None
    with find [of j] show ?thesis by simp
  next
    case (Some r)
    then have "m_id r = j" unfolding get_remote_run_def using find_SomeD by fast
    with find [of j] Some that show ?thesis by simp
  qed
  moreover have "get_remote_run i s = Some m" "get_remote_run i s' = Some ?m"
    using won(3) find [of i] i by (simp_all add: get_remote_run_def)
  moreover have "if \<not> terminal_state (m_state m) \<and> terminal_state (m_state ?m)
           \<and> m_revision ?m \<notin> e_revision ` set (events_of Remote_Run_Subject i s)
       then \<exists>e. events s' = events s @ [e] \<and> e_subject_type e = Remote_Run_Subject \<and> e_subject e = i
          \<and> e_revision e = m_revision ?m
       else events s' = events s"
  proof (cases "\<not> terminal_state (m_state m) \<and> terminal_state (m_state ?m)")
    case True
    with won(7) have "insert_event_or_ignore (remote_run_event (fst c) (fst (snd c)) False ?m name) s1 = Inr s'"
      by simp
    from insert_event_frame [OF this] True show ?thesis
      unfolding event_present_iff by (simp add: remote_run_event_def Let_def i runs(2) events_of_def)
  next
    case False
    with won(7) runs(2) show ?thesis by auto
  qed
  ultimately show ?thesis using won(2,4) by (intro exI [of _ m] exI [of _ ?m]) (simp add: remote_expects_def)
qed simp

interpretation remote_life: run_lifecycle get_remote_run m_state m_revision Remote_Run_Subject remote_step remote_expects
proof unfold_locales
  fix s s' :: store and c :: remote_call and i :: ustr and b
  assume ok: "store_ok s"
  show "remote_step c i s = Inr (b, s') \<Longrightarrow> store_ok s'"
    unfolding remote_step_def by (rule transition_remote_run_ok [OF _ ok])
  show "remote_step c i s = Inr (False, s') \<Longrightarrow> s' = s"
    unfolding remote_step_def using transition_remote_run_cases [OF _ ok] by blast
qed (rule remote_step_won)

end
