(* ===== verification/Run_Properties.thy ===== *)
theory Run_Properties
  imports Run_Laws
begin

text \<open>
  Properties of the runs: the completion event, stale callers, the single active File Run of a
  Workspace and the one-to-one attachment of a Remote Run to its transient Workspace.
\<close>

section \<open>Completion events\<close>

text \<open>C5: whatever transitions are called on File Runs, in whatever order, whatever states they expect and however stale they
  are: each passage of a run from an active state to an ended one leaves exactly one Activity event, with the revision at
  which the run ended, and nothing else leaves one; and callers that expect an active state end a run at most once.\<close>

theorem file_run_ends_with_one_event:
  assumes "store_ok s" and "file_life.current i s"
  shows "map e_revision (events_of File_Run_Subject i (fold (play file_step) ops s))
      = map e_revision (events_of File_Run_Subject i s) @ endings (file_lookup i) f_state f_revision (play file_step) ops s
    \<and> ((\<forall>op \<in> set ops. file_expects (fst op) \<subseteq> {Preparing, Running}) \<longrightarrow>
        length (endings (file_lookup i) f_state f_revision (play file_step) ops s) \<le> 1)"
  using file_life.events_are_endings [OF assms] file_life.ends_once [OF assms] by blast

definition finish_call :: "file_call" where
  "finish_call = (400, u ''e9'', \<lparr>fc_expected = [u ''running''], fc_state = Some (u ''finished''),
     fc_started = None, fc_stop = None, fc_ended = Some (Some 399), fc_exit = Some (Some 0), fc_error = None,
     fc_detail = None\<rparr>)"

lemma finish_expects: "file_expects finish_call = {Running}"
  by (simp add: file_expects_def finish_call_def states_of_def run_state_of_def)

lemma sample_file_current: "file_life.current (u ''f1'') sample_store" "file_lookup (u ''f1'') sample_store = Some sample_file_run"
  "\<not> terminal_state (f_state sample_file_run)"
  by (simp_all add: file_life.current_def events_of_def file_lookup_def sample_event_def sample_file_run_def)

definition fail_call :: file_call where
  "fail_call = (500, u ''e8'', \<lparr>fc_expected = [u ''finished''], fc_state = Some (u ''failed''),
     fc_started = None, fc_stop = None, fc_ended = Some (Some 499), fc_exit = None, fc_error = None,
     fc_detail = None\<rparr>)"

theorem file_run_event_witness:
  "map e_revision (events_of File_Run_Subject (u ''f1'') (fold (play file_step) [(finish_call, u ''f1''), (fail_call, u ''f1'')] sample_store))
    = endings (file_lookup (u ''f1'')) f_state f_revision (play file_step) [(finish_call, u ''f1''), (fail_call, u ''f1'')] sample_store"
  using file_run_ends_with_one_event [OF sample_store_ok sample_file_current(1),
      of "[(finish_call, u ''f1''), (fail_call, u ''f1'')]"]
  by (simp add: events_of_def sample_event_def)

text \<open>The same for Remote Runs.\<close>

theorem remote_run_ends_with_one_event:
  assumes "store_ok s" and "remote_life.current i s" and "get_remote_run i s = Some r"
    and "\<not> terminal_state (m_state r)"
    and "\<forall>op \<in> set ops. remote_expects (fst op) \<subseteq> {Preparing, Running}"
  shows "\<exists>r'. get_remote_run i (fold (play remote_step) ops s) = Some r' \<and> m_revision r \<le> m_revision r'
    \<and> (if terminal_state (m_state r')
       then \<exists>e. events_of Remote_Run_Subject i (fold (play remote_step) ops s)
           = events_of Remote_Run_Subject i s @ [e] \<and> e_revision e \<le> m_revision r'
       else events_of Remote_Run_Subject i (fold (play remote_step) ops s) = events_of Remote_Run_Subject i s)"
  using assms by (rule remote_life.one_event_per_run)

definition lose_call :: "remote_call" where
  "lose_call = (400, u ''e9'', \<lparr>rc_expected = [u ''preparing'', u ''running''], rc_expected_phase = None,
     rc_state = Some (u ''lost''), rc_phase = Some None, rc_started = None, rc_stop = None,
     rc_ended = Some (Some 399), rc_expires = None, rc_exit = None, rc_error = None, rc_detail = None,
     rc_source_revision = None, rc_source_size = None\<rparr>)"

lemma lose_expects: "remote_expects lose_call \<subseteq> {Preparing, Running}"
  by (simp add: remote_expects_def lose_call_def states_of_def run_state_of_def)

lemma sample_remote_current: "remote_life.current (u ''m1'') sample_store"
  "get_remote_run (u ''m1'') sample_store = Some sample_remote_run" "\<not> terminal_state (m_state sample_remote_run)"
  by (simp_all add: remote_life.current_def events_of_def get_remote_run_def sample_event_def sample_remote_run_def)

theorem remote_run_event_witness:
  "\<exists>r'. get_remote_run (u ''m1'') (fold (play remote_step) [(lose_call, u ''m1'')] sample_store)
    = Some r' \<and> 2 \<le> m_revision r'"
  using remote_run_ends_with_one_event [OF sample_store_ok sample_remote_current, of "[(lose_call, u ''m1'')]"]
    lose_expects by (fastforce simp: sample_remote_run_def)

text \<open>A successful transition is a compare-and-set: it found the row in an expected state (and, when
  one was given, in the expected phase), set exactly the given columns and raised the revision by
  one. A refused transition leaves the store as it was.\<close>

theorem remote_transition_is_compare_and_set:
  assumes ok: "store_ok s" and step: "transition_remote_run now nid i c s = Inr (b, s')"
  shows "if b then \<exists>E st m. states_of (rc_expected c) = Some E \<and> state_given (rc_state c) = Some st
        \<and> get_remote_run i s = Some m \<and> m_state m \<in> E \<and> phase_matches c m
        \<and> get_remote_run i s' = Some (apply_remote_change st c m)
      else s' = s"
  using step ok
proof (cases rule: transition_remote_run_cases)
  case (won E st m name s1)
  have "remote_runs s' = update_where (\<lambda>m. m_id m = i) (apply_remote_change st c) (remote_runs s)"
    using ending_frame [OF won(7)] by (simp add: won(5))
  then have "get_remote_run i s' = Some (apply_remote_change st c m)"
    using won(3) find_SomeD [OF won(3)]
    by (simp add: get_remote_run_def find_key_update_where [of m_id "apply_remote_change st c"])
  with won show ?thesis by (auto simp: get_remote_run_def)
qed simp

theorem remote_transition_witness:
  "\<exists>s' m. transition_remote_run 400 (u ''e9'') (u ''m1'') (snd (snd lose_call)) sample_store = Inr (True, s')
    \<and> get_remote_run (u ''m1'') s' = Some m \<and> m_state m = Lost \<and> m_revision m = 3"
proof -
  obtain s' where step: "transition_remote_run 400 (u ''e9'') (u ''m1'') (snd (snd lose_call)) sample_store
      = Inr (True, s')"
    by (simp add: transition_remote_run_def lose_call_def states_of_def state_given_def run_state_of_def
        no_remote_changes_def phase_matches_def rowcount_def sample_defs remote_run_with_target_def
        first_row_def apply_remote_change_def given_def insert_remote_run_event_def
        insert_event_or_ignore_def remote_run_event_def Let_def)
  from remote_transition_is_compare_and_set [OF sample_store_ok this] step show ?thesis
    by (fastforce simp: lose_call_def state_given_def run_state_of_def sample_defs apply_remote_change_def
        given_def get_remote_run_def)
qed

section \<open>Claiming the File Run slot\<close>

text \<open>After a Workspace's slot was claimed the claim row is its only active run; the same request
  is answered with the same row and no new one, the key is refused for another payload, and any
  other request is told the slot is occupied by that row.\<close>

theorem file_run_claim_is_exclusive:
  assumes ok: "store_ok s" and step: "claim_file_run now p s = Inr (Claim_Created, r, s')"
  shows "filter (\<lambda>f. f_workspace f = f_workspace r \<and> active_file_run f) (file_runs s') = [r]
    \<and> claim_file_run now' p s' = Inr (Claim_Idempotent, r, s')
    \<and> (\<forall>q. \<not> missing_fields q \<and> p_workspace q = p_workspace p \<longrightarrow>
         (if p_key q = p_key p
          then claim_file_run now' q s' = Inr (Claim_Idempotent, r, s')
            \<or> (\<exists>e. claim_file_run now' q s' = Inl (ValueError e))
          else claim_file_run now' q s' = Inr (Claim_Occupied, r, s')
            \<or> (\<exists>f \<in> set (file_runs s). f_workspace f = f_workspace r \<and> Some (f_key f) = p_key q)))"
proof -
  have fields: "\<not> missing_fields p" and r: "r = claimed_row now p"
    and nokey: "find (\<lambda>f. f_workspace f = f_workspace r \<and> f_key f = f_key r) (file_runs s) = None"
    and idle: "find (\<lambda>f. f_workspace f = f_workspace r \<and> active_file_run f) (file_runs s) = None"
    and s': "file_runs s' = file_runs s @ [r]"
    using step by (auto simp: claim_file_run_def Let_def rbind_Inr_iff insert_file_run_def
        split: if_splits option.splits)
  have active: "active_file_run r" by (simp add: r claimed_row_def active_file_run_def)
  have none: "filter (\<lambda>f. f_workspace f = f_workspace r \<and> active_file_run f) (file_runs s) = []"
    using idle by (simp add: find_None_iff filter_empty_conv)
  have key: "find (\<lambda>f. f_workspace f = f_workspace r \<and> f_key f = f_key r) (file_runs s') = Some r"
    unfolding s' by (rule find_append_new [OF nokey]) simp
  have slot: "find (\<lambda>f. f_workspace f = f_workspace r \<and> active_file_run f) (file_runs s') = Some r"
    unfolding s' by (rule find_append_new [OF idle]) (simp add: active)
  have same: "claim_file_run now' q s' = (if same_payload r (claimed_row now' q)
        then Inr (Claim_Idempotent, r, s')
        else Inl (ValueError ''File Run idempotency key was reused with a different payload''))"
    if "\<not> missing_fields q" "p_workspace q = p_workspace p" "p_key q = p_key p" for q
    using that key by (simp add: claim_file_run_def r claimed_row_def)
  have again: "claim_file_run now' p s' = Inr (Claim_Idempotent, r, s')"
    using same [OF fields refl refl] by (simp add: same_payload_def r claimed_row_def)
  have other: "claim_file_run now' q s' = Inr (Claim_Occupied, r, s')
      \<or> (\<exists>f \<in> set (file_runs s). f_workspace f = f_workspace r \<and> Some (f_key f) = p_key q)"
    if q: "\<not> missing_fields q" "p_workspace q = p_workspace p" "p_key q \<noteq> p_key p" for q
  proof (cases "find (\<lambda>f. f_workspace f = f_workspace r \<and> f_key f = the (p_key q)) (file_runs s')")
    case None
    then show ?thesis using q slot by (simp add: claim_file_run_def r claimed_row_def)
  next
    case (Some f)
    from find_SomeD [OF Some] have f: "f \<in> set (file_runs s')" "f_workspace f = f_workspace r" "f_key f = the (p_key q)"
      by auto
    moreover have "f \<noteq> r" using f(3) q fields by (auto simp: r claimed_row_def missing_fields_def)
    ultimately show ?thesis using q(1) s' by (auto simp: missing_fields_def)
  qed
  have "filter (\<lambda>f. f_workspace f = f_workspace r \<and> active_file_run f) (file_runs s') = [r]"
    using none active by (simp add: s')
  moreover have "if p_key q = p_key p
      then claim_file_run now' q s' = Inr (Claim_Idempotent, r, s') \<or> (\<exists>e. claim_file_run now' q s' = Inl (ValueError e))
      else claim_file_run now' q s' = Inr (Claim_Occupied, r, s')
        \<or> (\<exists>f \<in> set (file_runs s). f_workspace f = f_workspace r \<and> Some (f_key f) = p_key q)"
    if "\<not> missing_fields q" "p_workspace q = p_workspace p" for q
    using same [OF that] other [OF that] by auto
  ultimately show ?thesis using again by blast
qed

definition sample_claim :: "file_claim" where
  "sample_claim = \<lparr>p_id = Some (u ''f2''), p_workspace = Some (u ''w2''), p_key = Some (u ''k2''),
     p_path = Some (u ''b.py''), p_digest = Some (u ''d2''), p_runner = Some (u ''python''), p_version = Some 1,
     p_argv = Some [u ''python'', u ''b.py'']\<rparr>"

theorem file_run_claim_witness:
  "\<exists>r s'. claim_file_run 500 sample_claim sample_store = Inr (Claim_Created, r, s')
    \<and> claim_file_run 501 sample_claim s' = Inr (Claim_Idempotent, r, s')"
proof -
  obtain r s' where "claim_file_run 500 sample_claim sample_store = Inr (Claim_Created, r, s')"
    by (simp add: claim_file_run_def sample_claim_def missing_fields_def claimed_row_def sample_defs
        active_file_run_def insert_file_run_def Let_def)
  with file_run_claim_is_exclusive [OF sample_store_ok this, of 501] show ?thesis by blast
qed

section \<open>The transient Workspace of a Remote Run\<close>

text \<open>Attaching is one-to-one and idempotent: afterwards the run leads to the Workspace and the
  Workspace to the run, attaching again changes nothing, no other run can take the Workspace and
  the run can take no other Workspace.\<close>

theorem attachment_is_one_to_one:
  assumes ok: "store_ok s" and step: "attach_remote_run_workspace i w s = Inr (r, s')"
  shows "get_remote_run i s' = Some r \<and> get_remote_run_for_workspace w s' = Some r
    \<and> (\<exists>x path. get_workspace_for_remote_run i s' = Some (x, path) \<and> w_id x = w)
    \<and> attach_remote_run_workspace i w s' = Inr (r, s')
    \<and> (\<forall>j. j \<noteq> i \<longrightarrow> (\<exists>e. attach_remote_run_workspace j w s' = Inl e))
    \<and> (\<forall>v. v \<noteq> w \<longrightarrow> (\<exists>e. attach_remote_run_workspace i v s' = Inl e))"
  using step
proof (cases rule: attach_cases)
  case (1 run x)
  have ok': "store_ok s'" using step ok by (rule attach_ok)
  have i: "m_id run = i" "run \<in> set (remote_runs s)" using find_SomeD [OF 1(1)] by auto
  have ws: "workspaces s' = workspaces s" "roots s' = roots s" by (simp_all add: 1(7) set_remote_run_def)
  have mine: "find (\<lambda>m. m_id m = i) (remote_runs s') = Some r"
  proof (cases "m_workspace run = None")
    case True
    with 1(7) have "s' = set_remote_run i (\<lambda>m. m\<lparr>m_workspace := Some w\<rparr>) s" by simp
    then show ?thesis using 1(1,6) i
      by (simp add: set_remote_run_def find_key_update_where [of m_id "\<lambda>m. m\<lparr>m_workspace := Some w\<rparr>"])
  next
    case False
    with 1(4,6) have "r = run" by simp
    with False 1(1,7) show ?thesis by auto
  qed
  from find_SomeD [OF mine] have r: "r \<in> set (remote_runs s')" "m_id r = i" by auto
  have rw: "m_workspace r = Some w" by (simp add: 1(6))
  have "distinct (remote_runs s')" using distinct_ids(6) [OF ok'] by (simp add: distinct_map)
  moreover have "unique_where (\<lambda>m. m_workspace m \<noteq> None) m_workspace (remote_runs s')"
    using store_ok_table(8) [OF ok'] by (simp add: remote_runs_ok_def)
  ultimately have inj: "m = r" if "m \<in> set (remote_runs s')" "m_workspace m = Some w" for m
    using that r(1) rw by (auto simp: unique_where_iff_inj inj_on_def)
  have backward: "get_remote_run_for_workspace w s' = Some r"
  proof (cases "find (\<lambda>m. m_workspace m = Some w) (remote_runs s')")
    case None
    with r(1) rw show ?thesis by (auto simp: find_None_iff)
  next
    case (Some m)
    with find_SomeD [OF Some] inj show ?thesis by (auto simp: get_remote_run_for_workspace_def)
  qed
  have x: "x \<in> set (workspaces s')" "w_id x = w" using find_SomeD [OF 1(2)] ws by auto
  from store_ok_table(2) [OF ok'] x(1) obtain rt where rt: "rt \<in> set (roots s')" "w_root x = r_id rt"
    unfolding workspaces_ok_def by auto
  have xs: "filter (\<lambda>v. w = w_id v) (workspaces s') = [x]"
    using workspace_table.filter_key [OF ok' x(1)] x(2) by (simp add: eq_commute)
  have there: "get_workspace_for_remote_run i s' = Some (x, r_path rt)"
    using remote_run_table.filter_key [OF ok' r(1)] r(2) rw xs root_table.filter_key [OF ok' rt(1)] rt(2)
    by (simp add: get_workspace_for_remote_run_def first_row_def)
  have target: "(case w_computer x of None \<Rightarrow> [] | Some c \<Rightarrow> c) = m_target run"
    using step 1(1,2) by (auto simp: attach_remote_run_workspace_def split: if_splits)
  have "attach_remote_run_workspace i w s' = Inr (r, s')"
  proof -
    have "\<not> (\<exists>m \<in> set (remote_runs s'). m_workspace m = Some w \<and> m_id m \<noteq> i)"
      using inj r(2) by blast
    moreover have "m_target r = m_target run" "r\<lparr>m_workspace := Some w\<rparr> = r" by (simp_all add: 1(6))
    ultimately show ?thesis
      using mine 1(2,3) ws(1) rw target by (simp add: attach_remote_run_workspace_def)
  qed
  moreover have "\<exists>e. attach_remote_run_workspace j w s' = Inl e" if "j \<noteq> i" for j
  proof (cases "attach_remote_run_workspace j w s'")
    case (Inr q)
    then obtain q1 q2 where "attach_remote_run_workspace j w s' = Inr (q1, q2)" by (cases q) auto
    then show ?thesis
    proof (cases rule: attach_cases)
      case (1 run' x')
      with r rw that show ?thesis by auto
    qed
  qed simp
  moreover have "\<exists>e. attach_remote_run_workspace i v s' = Inl e" if "v \<noteq> w" for v
  proof (cases "attach_remote_run_workspace i v s'")
    case (Inr q)
    then obtain q1 q2 where "attach_remote_run_workspace i v s' = Inr (q1, q2)" by (cases q) auto
    then show ?thesis
    proof (cases rule: attach_cases)
      case (1 run' x')
      with mine rw that show ?thesis by auto
    qed
  qed simp
  ultimately show ?thesis using mine backward there x(2) by (auto simp: get_remote_run_def)
qed

theorem attachment_witness:
  "\<exists>r s'. attach_remote_run_workspace (u ''m1'') (u ''w2'') sample_store = Inr (r, s')
    \<and> get_remote_run_for_workspace (u ''w2'') s' = Some r"
proof -
  obtain r s' where "attach_remote_run_workspace (u ''m1'') (u ''w2'') sample_store = Inr (r, s')"
    by (simp add: attach_remote_run_workspace_def sample_defs)
  with attachment_is_one_to_one [OF sample_store_ok this] show ?thesis by blast
qed

end
