(* ===== verification/Store_Terminals.thy ===== *)
theory Store_Terminals
  imports Samples
begin

text \<open>
  Terminals, their activity counters, the command history and the command launch claims of
  \<^verbatim>\<open>StateStore\<close> (\<^verbatim>\<open>termroom/db.py\<close>).

  \<open>reconcile_terminals\<close> follows the method pass by pass: the live windows are checked and parsed,
  managed rows are matched by role, shell rows by window, name or position, unclaimed rows are
  deleted, the matched rows are parked under temporary window names, and the live windows are then
  written one by one, each statement under the table's UNIQUE constraints.
\<close>

section \<open>Arguments\<close>

text \<open>What a caller may pass as an activity revision: nothing, a \<open>bool\<close>, an \<open>int\<close>, or another object.\<close>

datatype activity_arg = A_None | A_Bool bool | A_Int int | A_Other

definition terminal_role :: "ustr option \<Rightarrow> role result" where
  "terminal_role v =
    (case role_of (or_else (case v of None \<Rightarrow> [] | Some t \<Rightarrow> t) (u ''shell'')) of
       None \<Rightarrow> Inl (ValueError ''Unsupported Terminal role'')
     | Some r \<Rightarrow> Inr r)"

definition terminal_activity_revision :: "activity_arg \<Rightarrow> bool \<Rightarrow> int option result" where
  "terminal_activity_revision v allow_none =
    (case v of
       A_None \<Rightarrow> if allow_none then Inr None else Inl (ValueError ''Terminal activity revision is invalid'')
     | A_Int n \<Rightarrow> if n < 0 \<or> n > 2 ^ 63 - 1 then Inl (ValueError ''Terminal activity revision is invalid'')
                  else Inr (Some n)
     | _ \<Rightarrow> Inl (ValueError ''Terminal activity revision is invalid''))"

text \<open>\<^verbatim>\<open>str(x) if x else None\<close>.\<close>

definition non_empty :: "ustr option \<Rightarrow> ustr option" where
  "non_empty v = (if v = Some [] then None else v)"

section \<open>Reading and creating terminals\<close>

definition terminals_of :: "ustr \<Rightarrow> store \<Rightarrow> terminal_row list" where
  "terminals_of workspace_id s = sort_key t_created (filter (\<lambda>t. t_workspace t = workspace_id) (terminals s))"

definition list_terminals :: "ustr \<Rightarrow> store \<Rightarrow> terminal_row list" where
  "list_terminals workspace_id s = terminals_of workspace_id s"

definition get_terminal :: "ustr \<Rightarrow> store \<Rightarrow> terminal_row option" where
  "get_terminal terminal_id s = find (\<lambda>t. t_id t = terminal_id) (terminals s)"

definition create_terminal ::
    "stamp \<Rightarrow> ustr \<Rightarrow> ustr \<Rightarrow> ustr \<Rightarrow> ustr \<Rightarrow> ustr option \<Rightarrow> ustr option \<Rightarrow> activity_arg \<Rightarrow> store
      \<Rightarrow> (terminal_row \<times> store) result" where
  "create_terminal now new_id workspace_id name tmux_window role_arg managed_run_id activity_at s =
    rbind (terminal_role role_arg) (\<lambda>safe_role.
    rbind (terminal_activity_revision activity_at True) (\<lambda>safe_activity.
      let row = \<lparr>t_id = new_id, t_workspace = workspace_id, t_name = name, t_window = tmux_window,
                 t_role = safe_role,
                 t_run = (if safe_role = Shell_Role then None else non_empty managed_run_id),
                 t_created = now, t_opened = now, t_output = None, t_activity = safe_activity\<rparr>
      in rbind (insert_terminal row s) (\<lambda>s'. Inr (row, s'))))"

definition get_managed_terminal :: "ustr \<Rightarrow> ustr option \<Rightarrow> store \<Rightarrow> terminal_row option result" where
  "get_managed_terminal workspace_id role_arg s =
    rbind (terminal_role role_arg) (\<lambda>safe_role.
      if safe_role = Shell_Role then Inl (ValueError ''A shell Terminal is not a managed slot'')
      else Inr (find (\<lambda>t. t_workspace t = workspace_id \<and> t_role t = safe_role) (terminals s)))"

section \<open>Reconciling with the live tmux windows\<close>

text \<open>One window as tmux reports it, and the same window after the checks.\<close>

record live_window =
  l_window :: "ustr option"
  l_role :: "ustr option"
  l_run :: "ustr option"
  l_activity :: activity_arg
  l_name :: "ustr option"

record wanted =
  x_window :: ustr
  x_name :: ustr
  x_role :: role
  x_run :: "ustr option"
  x_activity :: "int option"

definition text_or_empty :: "ustr option \<Rightarrow> ustr" where
  "text_or_empty v = (case v of None \<Rightarrow> [] | Some t \<Rightarrow> t)"

fun parse_windows :: "ustr list \<Rightarrow> role list \<Rightarrow> live_window list \<Rightarrow> wanted list result" where
  "parse_windows seen_windows seen_roles [] = Inr []"
| "parse_windows seen_windows seen_roles (raw # raws) =
     (let tmux_window = text_or_empty (l_window raw) in
      if tmux_window = [] \<or> tmux_window \<in> set seen_windows
      then Inl (ValueError ''tmux exposed an invalid or duplicate window identity'')
      else
      rbind (terminal_role (l_role raw)) (\<lambda>role.
        case terminal_activity_revision (l_activity raw) True of
          Inl _ \<Rightarrow> Inl (ValueError ''tmux exposed an invalid Terminal activity revision'')
        | Inr activity \<Rightarrow>
           if role \<noteq> Shell_Role \<and> role \<in> set seen_roles
           then Inl (ValueError ''tmux exposed more than one managed Terminal'')
           else
           rbind (parse_windows (tmux_window # seen_windows)
                    (if role = Shell_Role then seen_roles else role # seen_roles) raws) (\<lambda>rest.
             Inr (\<lparr>x_window = tmux_window, x_name = or_else (text_or_empty (l_name raw)) (u ''shell''),
                   x_role = role,
                   x_run = (if role = Shell_Role then None else non_empty (l_run raw)),
                   x_activity = activity\<rparr> # rest))))"

text \<open>The claimed identifiers and the row assigned to each live window.\<close>

type_synonym matching = "ustr list \<times> (ustr \<Rightarrow> terminal_row option)"

definition claim_row :: "wanted \<Rightarrow> terminal_row \<Rightarrow> matching \<Rightarrow> matching" where
  "claim_row x r a = (t_id r # fst a, (snd a)(x_window x \<mapsto> r))"

text \<open>\<^verbatim>\<open>by_window\<close> and \<^verbatim>\<open>by_managed_role\<close> are dictionaries built from the rows in order: the last row of
  a key wins.\<close>

definition row_by_window :: "terminal_row list \<Rightarrow> ustr \<Rightarrow> terminal_row option" where
  "row_by_window stored w = find (\<lambda>t. t_window t = w) (rev stored)"

definition row_by_managed_role :: "terminal_row list \<Rightarrow> role \<Rightarrow> terminal_row option" where
  "row_by_managed_role stored r = find (\<lambda>t. t_role t = r) (rev (filter (\<lambda>t. t_role t \<noteq> Shell_Role) stored))"

definition managed_candidate :: "terminal_row list \<Rightarrow> wanted \<Rightarrow> terminal_row option" where
  "managed_candidate stored x =
    (case row_by_managed_role stored (x_role x) of
       Some r \<Rightarrow> Some r
     | None \<Rightarrow>
        (case row_by_window stored (x_window x) of
           None \<Rightarrow> None
         | Some r \<Rightarrow> if t_role r = Shell_Role then Some r else None))"

definition match_managed :: "terminal_row list \<Rightarrow> wanted \<Rightarrow> matching \<Rightarrow> matching" where
  "match_managed stored x a =
    (if x_role x = Shell_Role then a
     else (case managed_candidate stored x of
             None \<Rightarrow> a
           | Some r \<Rightarrow> if t_id r \<in> set (fst a) then a else claim_row x r a))"

definition free_shell :: "ustr list \<Rightarrow> terminal_row \<Rightarrow> bool" where
  "free_shell claimed r \<longleftrightarrow> t_role r = Shell_Role \<and> t_id r \<notin> set claimed"

definition shell_candidate :: "terminal_row list \<Rightarrow> ustr list \<Rightarrow> wanted \<Rightarrow> terminal_row option" where
  "shell_candidate stored claimed x =
    (let remaining = filter (free_shell claimed) stored;
         fallback = (case find (\<lambda>r. or_else (t_name r) (u ''shell'') = x_name x) remaining of
                       Some r \<Rightarrow> Some r
                     | None \<Rightarrow> (case remaining of [] \<Rightarrow> None | r # _ \<Rightarrow> Some r))
     in case row_by_window stored (x_window x) of
          Some r \<Rightarrow> if free_shell claimed r then Some r else fallback
        | None \<Rightarrow> fallback)"

definition match_shell :: "terminal_row list \<Rightarrow> wanted \<Rightarrow> matching \<Rightarrow> matching" where
  "match_shell stored x a =
    (if x_role x \<noteq> Shell_Role then a
     else (case shell_candidate stored (fst a) x of None \<Rightarrow> a | Some r \<Rightarrow> claim_row x r a))"

definition match_windows :: "terminal_row list \<Rightarrow> wanted list \<Rightarrow> matching" where
  "match_windows stored desired =
    fold (match_shell stored) desired (fold (match_managed stored) desired ([], Map.empty))"

text \<open>An UPDATE of one terminal under the table's UNIQUE constraints.\<close>

definition update_terminal :: "ustr \<Rightarrow> (terminal_row \<Rightarrow> terminal_row) \<Rightarrow> store \<Rightarrow> store result" where
  "update_terminal i f s =
    (let ts = update_where (\<lambda>t. t_id t = i) f (terminals s) in
     if distinct (map (\<lambda>t. (t_workspace t, t_window t)) ts)
        \<and> unique_where managed (\<lambda>t. (t_workspace t, t_role t)) ts
     then Inr (s\<lparr>terminals := ts\<rparr>) else Inl IntegrityError)"

definition sync_window :: "ustr \<Rightarrow> ustr" where
  "sync_window i = u ''__termroom_sync__'' @ i"

definition park_terminal :: "terminal_row \<Rightarrow> store \<Rightarrow> store result" where
  "park_terminal r =
    update_terminal (t_id r) (\<lambda>t. t\<lparr>t_window := sync_window (t_id r), t_role := Shell_Role, t_run := None\<rparr>)"

definition merge_activity :: "int option \<Rightarrow> int option \<Rightarrow> int option" where
  "merge_activity new old =
    (case new of None \<Rightarrow> old
     | Some n \<Rightarrow> (case old of None \<Rightarrow> Some n | Some m \<Rightarrow> Some (max m n)))"

definition place_window ::
    "stamp \<Rightarrow> ustr \<Rightarrow> wanted \<times> terminal_row option \<times> ustr \<Rightarrow> store \<Rightarrow> store result" where
  "place_window now workspace_id a s =
    (case a of (x, row, new_id) \<Rightarrow>
      (case row of
         None \<Rightarrow> insert_terminal
           \<lparr>t_id = new_id, t_workspace = workspace_id, t_name = x_name x, t_window = x_window x,
            t_role = x_role x, t_run = x_run x, t_created = now, t_opened = now, t_output = None,
            t_activity = x_activity x\<rparr> s
       | Some r \<Rightarrow> update_terminal (t_id r)
           (\<lambda>t. t\<lparr>t_name := x_name x, t_window := x_window x, t_role := x_role x, t_run := x_run x,
              t_activity := merge_activity (x_activity x) (t_activity t)\<rparr>) s))"

text \<open>The identifier the \<open>n\<close>th window gets if it needs a new row.\<close>

definition assignments :: "(nat \<Rightarrow> ustr) \<Rightarrow> matching \<Rightarrow> wanted list \<Rightarrow> (wanted \<times> terminal_row option \<times> ustr) list" where
  "assignments new_id a desired =
    map (\<lambda>(x, i). (x, snd a (x_window x), new_id i)) (zip desired [0..<length desired])"

definition matched_rows :: "(wanted \<times> terminal_row option \<times> ustr) list \<Rightarrow> terminal_row list" where
  "matched_rows as = concat (map (\<lambda>(_, row, _). case row of None \<Rightarrow> [] | Some r \<Rightarrow> [r]) as)"

definition reconcile_terminals ::
    "stamp \<Rightarrow> (nat \<Rightarrow> ustr) \<Rightarrow> ustr \<Rightarrow> live_window list \<Rightarrow> store \<Rightarrow> (terminal_row list \<times> store) result" where
  "reconcile_terminals now new_id workspace_id windows s =
    rbind (parse_windows [] [] windows) (\<lambda>desired.
      let stored = terminals_of workspace_id s;
          a = match_windows stored desired;
          as = assignments new_id a desired;
          s1 = delete_terminals (\<lambda>t. t_workspace t = workspace_id \<and> t_id t \<notin> set (fst a)) s
      in rbind (each park_terminal (matched_rows as) s1) (\<lambda>s2.
         rbind (each (place_window now workspace_id) as s2) (\<lambda>s3.
           Inr (terminals_of workspace_id s3, s3))))"

section \<open>Activity\<close>

record observation =
  o_window :: "ustr option"
  o_activity :: activity_arg

fun parse_observations :: "(ustr \<times> int) list \<Rightarrow> observation list \<Rightarrow> (ustr \<times> int) list result" where
  "parse_observations observed [] = Inr observed"
| "parse_observations observed (r # rs) =
     (let window = text_or_empty (o_window r) in
      case terminal_activity_revision (o_activity r) False of
        Inr (Some revision) \<Rightarrow>
          if window = [] \<or> window \<in> set (map fst observed)
          then Inl (ValueError ''tmux exposed an invalid Terminal activity record'')
          else parse_observations (observed @ [(window, revision)]) rs
      | _ \<Rightarrow> Inl (ValueError ''tmux exposed an invalid Terminal activity record''))"

text \<open>The batch is a dictionary: its keys are distinct. Workspaces without records are dropped.\<close>

definition normalize_batch :: "(ustr \<times> observation list) list \<Rightarrow> (ustr \<times> (ustr \<times> int) list) list result" where
  "normalize_batch batch =
    rbind (traverse (\<lambda>(w, rs). rbind (parse_observations [] rs) (\<lambda>obs. Inr (w, obs))) batch)
      (\<lambda>all. Inr (filter (\<lambda>(w, obs). obs \<noteq> []) all))"

definition observed_revision :: "(ustr \<times> (ustr \<times> int) list) list \<Rightarrow> terminal_row \<Rightarrow> int option" where
  "observed_revision normalized t =
    (case map_of normalized (t_workspace t) of None \<Rightarrow> None | Some obs \<Rightarrow> map_of obs (t_window t))"

definition observed_shell :: "(ustr \<times> (ustr \<times> int) list) list \<Rightarrow> terminal_row \<Rightarrow> bool" where
  "observed_shell normalized t \<longleftrightarrow> t_role t = Shell_Role \<and> observed_revision normalized t \<noteq> None"

definition bump_activity :: "(ustr \<times> (ustr \<times> int) list) list \<Rightarrow> terminal_row \<Rightarrow> terminal_row" where
  "bump_activity normalized t =
    t\<lparr>t_activity := Some (max (case t_activity t of None \<Rightarrow> 0 | Some n \<Rightarrow> n)
                          (the (observed_revision normalized t)))\<rparr>"

definition observe_terminal_activity_batch ::
    "(ustr \<times> observation list) list \<Rightarrow> store \<Rightarrow> ((ustr \<times> terminal_row list) list \<times> store) result" where
  "observe_terminal_activity_batch batch s =
    rbind (normalize_batch batch) (\<lambda>normalized.
      if normalized = [] then Inr ([], s)
      else
        let s' = s\<lparr>terminals := update_where (observed_shell normalized) (bump_activity normalized) (terminals s)\<rparr>
        in Inr (map (\<lambda>(w, _). (w, sort_key t_created
                  (filter (\<lambda>t. t_workspace t = w \<and> observed_shell normalized t) (terminals s')))) normalized, s'))"

definition observe_terminal_activity ::
    "ustr \<Rightarrow> observation list \<Rightarrow> store \<Rightarrow> (terminal_row list \<times> store) result" where
  "observe_terminal_activity workspace_id records s =
    rbind (observe_terminal_activity_batch [(workspace_id, records)] s) (\<lambda>(result, s').
      Inr (case map_of result workspace_id of None \<Rightarrow> [] | Some rows \<Rightarrow> rows, s'))"

definition terminal_activity_targets :: "ustr list \<Rightarrow> store \<Rightarrow> (ustr \<times> ustr list) list" where
  "terminal_activity_targets wanted_ids s =
    (let rows = sort_key t_created (filter (\<lambda>t. t_role t = Shell_Role \<and> t_workspace t \<in> set wanted_ids) (terminals s))
     in map (\<lambda>w. (w, map t_window (filter (\<lambda>t. t_workspace t = w) rows))) (dict_keys wanted_ids))"

definition set_terminal :: "ustr \<Rightarrow> (terminal_row \<Rightarrow> terminal_row) \<Rightarrow> store \<Rightarrow> store" where
  "set_terminal i f s = s\<lparr>terminals := update_where (\<lambda>t. t_id t = i) f (terminals s)\<rparr>"

definition reset_terminals :: "ustr \<Rightarrow> store \<Rightarrow> store" where
  "reset_terminals workspace_id s = delete_terminals (\<lambda>t. t_workspace t = workspace_id) s"

definition touch_terminal :: "stamp \<Rightarrow> ustr \<Rightarrow> store \<Rightarrow> store" where
  "touch_terminal now terminal_id s = set_terminal terminal_id (\<lambda>t. t\<lparr>t_opened := now\<rparr>) s"

definition touch_terminal_output :: "stamp \<Rightarrow> ustr \<Rightarrow> store \<Rightarrow> store result" where
  "touch_terminal_output now terminal_id s =
    (if rowcount (\<lambda>t. t_id t = terminal_id) (terminals s) = 0 then Inl (KeyError ''Unknown Terminal'')
     else Inr (set_terminal terminal_id (\<lambda>t. t\<lparr>t_output := Some now\<rparr>) s))"

definition rename_terminal :: "ustr \<Rightarrow> ustr \<Rightarrow> store \<Rightarrow> store" where
  "rename_terminal terminal_id name s = set_terminal terminal_id (\<lambda>t. t\<lparr>t_name := name\<rparr>) s"

definition delete_terminal :: "ustr \<Rightarrow> store \<Rightarrow> store" where
  "delete_terminal terminal_id s = delete_terminals (\<lambda>t. t_id t = terminal_id) s"

record activity_item =
  i_terminal :: ustr
  i_workspace :: ustr
  i_activity :: int
  i_acknowledged :: int
  i_unread :: bool

record workspace_activity =
  wa_workspace :: ustr
  wa_terminals :: nat
  wa_unread :: nat
  wa_latest :: "ustr option"

record activity_summary =
  as_terminals :: "activity_item list"
  as_workspaces :: "workspace_activity list"
  as_unread :: nat
  as_latest :: "ustr option"

definition summary_scope :: "ustr option \<Rightarrow> ustr list option \<Rightarrow> ustr option \<Rightarrow> terminal_row \<Rightarrow> bool" where
  "summary_scope workspace_id wanted_ids terminal_id t \<longleftrightarrow>
    t_role t = Shell_Role \<and> t_activity t \<noteq> None
    \<and> (case workspace_id of None \<Rightarrow> True | Some w \<Rightarrow> t_workspace t = w)
    \<and> (case wanted_ids of None \<Rightarrow> True | Some ws \<Rightarrow> t_workspace t \<in> set ws)
    \<and> (case terminal_id of None \<Rightarrow> True | Some i \<Rightarrow> t_id t = i)"

text \<open>\<^verbatim>\<open>INSERT ... SELECT ... ON CONFLICT(terminal_id) DO NOTHING\<close>: every terminal in scope gets its
  baseline once.\<close>

definition baseline_reads :: "stamp \<Rightarrow> (terminal_row \<Rightarrow> bool) \<Rightarrow> store \<Rightarrow> store" where
  "baseline_reads now scope s =
    s\<lparr>activity_reads := activity_reads s @
       map (\<lambda>t. \<lparr>a_terminal = t_id t, a_acknowledged = the (t_activity t), a_created = now, a_updated = now\<rparr>)
         (filter (\<lambda>t. scope t \<and> t_id t \<notin> set (map a_terminal (activity_reads s))) (terminals s))\<rparr>"

definition activity_items :: "(terminal_row \<Rightarrow> bool) \<Rightarrow> store \<Rightarrow> activity_item list" where
  "activity_items scope s =
    concat (map (\<lambda>t. map (\<lambda>a. \<lparr>i_terminal = t_id t, i_workspace = t_workspace t,
          i_activity = the (t_activity t), i_acknowledged = a_acknowledged a,
          i_unread = the (t_activity t) > a_acknowledged a\<rparr>)
        (filter (\<lambda>a. a_terminal a = t_id t) (activity_reads s)))
      (sort_key (\<lambda>t. (- the (t_activity t), - t_created t)) (filter scope (terminals s))))"

definition first_unread :: "activity_item list \<Rightarrow> ustr option" where
  "first_unread items = map_option i_terminal (find i_unread items)"

definition terminal_activity_summary ::
    "stamp \<Rightarrow> ustr option \<Rightarrow> ustr list option \<Rightarrow> ustr option \<Rightarrow> store \<Rightarrow> activity_summary \<times> store" where
  "terminal_activity_summary now workspace_id wanted_ids terminal_id s =
    (let scope = summary_scope workspace_id wanted_ids terminal_id;
         s' = baseline_reads now scope s;
         items = activity_items scope s'
     in (\<lparr>as_terminals = items,
          as_workspaces = map (\<lambda>w. let mine = filter (\<lambda>i. i_workspace i = w) items in
              \<lparr>wa_workspace = w, wa_terminals = length mine, wa_unread = rowcount i_unread mine,
               wa_latest = first_unread mine\<rparr>) (dict_keys (map i_workspace items)),
          as_unread = rowcount i_unread items, as_latest = first_unread items\<rparr>, s'))"

text \<open>\<^verbatim>\<open>INSERT ... ON CONFLICT(terminal_id) DO UPDATE SET acknowledged_activity_at = MAX(...)\<close>.\<close>

definition record_read :: "stamp \<Rightarrow> ustr \<Rightarrow> int \<Rightarrow> store \<Rightarrow> store" where
  "record_read now i v s =
    (if i \<in> set (map a_terminal (activity_reads s))
     then s\<lparr>activity_reads := update_where (\<lambda>a. a_terminal a = i)
             (\<lambda>a. a\<lparr>a_acknowledged := max (a_acknowledged a) v, a_updated := now\<rparr>) (activity_reads s)\<rparr>
     else s\<lparr>activity_reads := activity_reads s @
             [\<lparr>a_terminal = i, a_acknowledged = v, a_created = now, a_updated = now\<rparr>]\<rparr>)"

definition acknowledge_terminal_activity ::
    "stamp \<Rightarrow> ustr \<Rightarrow> activity_arg \<Rightarrow> store \<Rightarrow> (activity_item \<times> store) result" where
  "acknowledge_terminal_activity now terminal_id observed_activity_at s =
    rbind (terminal_activity_revision observed_activity_at False) (\<lambda>observed.
      case find (\<lambda>t. t_id t = terminal_id) (terminals s) of
        None \<Rightarrow> Inl (KeyError ''Unknown shell Terminal'')
      | Some t \<Rightarrow>
         if t_role t \<noteq> Shell_Role then Inl (KeyError ''Unknown shell Terminal'')
         else
         (case t_activity t of
            None \<Rightarrow> Inl (KeyError ''Terminal activity is unavailable'')
          | Some current \<Rightarrow>
             if the observed > current
             then Inl (ValueError ''Terminal activity revision is newer than the server cache'')
             else
             let s' = record_read now terminal_id (the observed) s;
                 acknowledged = (case find (\<lambda>a. a_terminal a = terminal_id) (activity_reads s') of
                                   None \<Rightarrow> 0 | Some a \<Rightarrow> a_acknowledged a)
             in Inr (\<lparr>i_terminal = terminal_id, i_workspace = t_workspace t, i_activity = current,
                      i_acknowledged = acknowledged, i_unread = current > acknowledged\<rparr>, s')))"

section \<open>Command history and launch claims\<close>

definition recent_commands :: "ustr \<Rightarrow> history_row list \<Rightarrow> history_row list" where
  "recent_commands workspace_id hs =
    sql_limit 100 (sort_key (\<lambda>h. - h_created h) (filter (\<lambda>h. h_workspace h = workspace_id) hs))"

definition trim_commands :: "ustr \<Rightarrow> store \<Rightarrow> store" where
  "trim_commands workspace_id s =
    (let kept = map h_id (recent_commands workspace_id (command_history s)) in
     s\<lparr>command_history := filter (\<lambda>h. \<not> (h_workspace h = workspace_id \<and> h_id h \<notin> set kept)) (command_history s)\<rparr>)"

definition add_command :: "stamp \<Rightarrow> ustr \<Rightarrow> ustr \<Rightarrow> ustr \<Rightarrow> ustr \<Rightarrow> store \<Rightarrow> store result" where
  "add_command now new_id workspace_id terminal_id command s =
    (if strip command = [] then Inr s
     else rbind (insert_history \<lparr>h_id = new_id, h_workspace = workspace_id, h_terminal = terminal_id,
                   h_command = strip command, h_created = now\<rparr> s)
            (\<lambda>s1. Inr (trim_commands workspace_id s1)))"

definition list_commands :: "ustr \<Rightarrow> int \<Rightarrow> store \<Rightarrow> ustr list" where
  "list_commands workspace_id limit s =
    (let rows = filter (\<lambda>h. h_workspace h = workspace_id) (command_history s);
         most_recent = (\<lambda>c. Max (set (map h_created (filter (\<lambda>h. h_command h = c) rows))))
     in sql_limit limit (sort_key (\<lambda>c. - most_recent c) (dict_keys (map h_command rows))))"

definition clear_commands :: "ustr \<Rightarrow> store \<Rightarrow> store" where
  "clear_commands workspace_id s =
    s\<lparr>command_history := filter (\<lambda>h. h_workspace h \<noteq> workspace_id) (command_history s)\<rparr>"

datatype launch = Launch_Created | Launch_Replayed

definition claim_workspace_command ::
    "stamp \<Rightarrow> ustr \<Rightarrow> ustr \<Rightarrow> int \<Rightarrow> ustr \<Rightarrow> store \<Rightarrow> (launch \<times> store) result" where
  "claim_workspace_command now workspace_id launch_id slot command_digest s =
    (if launch_id = [] then Inl (ValueError ''Workspace command launch identity is required'')
     else case find (\<lambda>k. k_workspace k = workspace_id \<and> k_launch k = launch_id) (command_claims s) of
       Some k \<Rightarrow>
         if k_slot k \<noteq> slot \<or> k_digest k \<noteq> command_digest
         then Inl (ValueError ''Workspace command launch identity was reused with a different command'')
         else Inr (Launch_Replayed, s)
     | None \<Rightarrow>
         rbind (insert_command_claim \<lparr>k_workspace = workspace_id, k_launch = launch_id, k_slot = slot,
                  k_digest = command_digest, k_created = now\<rparr> s) (\<lambda>s'. Inr (Launch_Created, s')))"

end
