(* ===== verification/Terminal_Laws.thy ===== *)
theory Terminal_Laws
  imports Store_Terminals
begin

text \<open>
  The terminal operations keep the constraints, and the laws of reconciliation: under the
  constraints and with fresh identifiers it cannot fail on a UNIQUE constraint, and the
  Workspace's rows are then exactly the live windows.
\<close>

section \<open>The operations keep the constraints\<close>

lemma set_terminal_ok:
  assumes "store_ok s"
    and "\<And>t. t_id (f t) = t_id t \<and> t_workspace (f t) = t_workspace t
      \<and> t_window (f t) = t_window t \<and> t_role (f t) = t_role t"
  shows "store_ok (set_terminal i f s)"
  unfolding set_terminal_def using assms by (intro update_terminals_ok) auto

lemma update_terminal_ok:
  assumes "update_terminal i f s = Inr s'" and ok: "store_ok s"
    and "\<And>t. t_id (f t) = t_id t \<and> t_workspace (f t) = t_workspace t"
  shows "store_ok s'"
proof -
  let ?ts = "update_where (\<lambda>t. t_id t = i) f (terminals s)"
  have s': "s' = s\<lparr>terminals := ?ts\<rparr>"
    and "distinct (map (\<lambda>t. (t_workspace t, t_window t)) ?ts)"
      "unique_where managed (\<lambda>t. (t_workspace t, t_role t)) ?ts"
    using assms(1) by (auto simp: update_terminal_def Let_def split: if_splits)
  then have "terminals_ok (workspace_ids s) ?ts"
    using store_ok_table(4) [OF ok] assms(3) by (simp add: terminals_ok_def update_table)
  then show ?thesis
    unfolding s' using assms(3) by (intro store_ok_tables(3) ok) (simp_all add: keys_update_where)
qed

lemma create_terminal_ok [inv_intros]:
  "create_terminal now i w n win r run act s = Inr (t, s') \<Longrightarrow> store_ok s \<Longrightarrow> store_ok s'"
  by (auto simp: create_terminal_def rbind_Inr_iff Let_def intro: insert_terminal_ok)

lemma park_terminal_ok: "park_terminal r s = Inr s' \<Longrightarrow> store_ok s \<Longrightarrow> store_ok s'"
  unfolding park_terminal_def by (erule update_terminal_ok) simp_all

lemma place_window_ok: "place_window now w a s = Inr s' \<Longrightarrow> store_ok s \<Longrightarrow> store_ok s'"
  unfolding place_window_def
  by (auto split: prod.splits option.splits intro: insert_terminal_ok elim!: update_terminal_ok)

lemma reconcile_terminals_ok [inv_intros]:
  assumes "reconcile_terminals now ids w raws s = Inr (ts, s')" and ok: "store_ok s"
  shows "store_ok s'"
proof -
  from assms(1) obtain as kept s2 where
    park: "each park_terminal (matched_rows as)
        (delete_terminals (\<lambda>t. t_workspace t = w \<and> t_id t \<notin> kept) s) = Inr s2"
    and place: "each (place_window now w) as s2 = Inr s'"
    by (auto simp: reconcile_terminals_def rbind_Inr_iff Let_def)
  have "store_ok s2"
    by (rule each_invariant [where P = store_ok, OF park delete_terminals_ok [OF ok]]) (rule park_terminal_ok)
  then show ?thesis
    by (rule each_invariant [where P = store_ok, OF place]) (rule place_window_ok)
qed

lemma observe_batch_ok [inv_intros]:
  "observe_terminal_activity_batch b s = Inr (r, s') \<Longrightarrow> store_ok s \<Longrightarrow> store_ok s'"
  by (auto simp: observe_terminal_activity_batch_def rbind_Inr_iff Let_def bump_activity_def split: if_splits
      intro!: update_terminals_ok)

lemma observe_ok [inv_intros]:
  "observe_terminal_activity w b s = Inr (r, s') \<Longrightarrow> store_ok s \<Longrightarrow> store_ok s'"
  by (auto simp: observe_terminal_activity_def rbind_Inr_iff dest: observe_batch_ok)

lemma reset_terminals_ok [inv_intros]: "store_ok s \<Longrightarrow> store_ok (reset_terminals w s)"
  unfolding reset_terminals_def by (rule delete_terminals_ok)

lemma delete_terminal_ok [inv_intros]: "store_ok s \<Longrightarrow> store_ok (delete_terminal w s)"
  unfolding delete_terminal_def by (rule delete_terminals_ok)

lemma touch_terminal_ok [inv_intros]: "store_ok s \<Longrightarrow> store_ok (touch_terminal now i s)"
  unfolding touch_terminal_def by (rule set_terminal_ok) simp_all

lemma rename_terminal_ok [inv_intros]: "store_ok s \<Longrightarrow> store_ok (rename_terminal i n s)"
  unfolding rename_terminal_def by (rule set_terminal_ok) simp_all

lemma touch_terminal_output_ok [inv_intros]:
  "touch_terminal_output now i s = Inr s' \<Longrightarrow> store_ok s \<Longrightarrow> store_ok s'"
  by (auto simp: touch_terminal_output_def split: if_splits intro!: set_terminal_ok)

lemma baseline_reads_ok [inv_intros]: "store_ok s \<Longrightarrow> store_ok (baseline_reads now scope s)"
proof -
  assume ok: "store_ok s"
  note old = store_ok_table(5) [OF ok, unfolded activity_reads_ok_def]
  have "distinct (map t_id (filter q (terminals s)))" for q
    by (rule distinct_map_filter) (rule distinct_ids(4) [OF ok])
  with old have "activity_reads_ok (terminal_ids s) (activity_reads (baseline_reads now scope s))"
    by (auto simp: activity_reads_ok_def baseline_reads_def comp_def) (metis imageI)
  with ok show ?thesis
    using store_ok_tables(4) [OF ok] by (simp add: baseline_reads_def)
qed

lemma terminal_activity_summary_ok [inv_intros]:
  "store_ok s \<Longrightarrow> store_ok (snd (terminal_activity_summary now w ws t s))"
  by (simp add: terminal_activity_summary_def Let_def baseline_reads_ok)

lemma record_read_ok:
  assumes ok: "store_ok s" and i: "i \<in> terminal_ids s"
  shows "store_ok (record_read now i v s)"
proof (cases "i \<in> set (map a_terminal (activity_reads s))")
  case True
  then show ?thesis unfolding record_read_def using ok by (auto intro: update_activity_reads_ok)
next
  case False
  with i store_ok_table(5) [OF ok]
  have "activity_reads_ok (terminal_ids s) (activity_reads s @
      [\<lparr>a_terminal = i, a_acknowledged = v, a_created = now, a_updated = now\<rparr>])"
    by (auto simp: activity_reads_ok_def)
  then show ?thesis unfolding record_read_def using False by (simp add: store_ok_tables(4) [OF ok])
qed

lemma acknowledge_Inr:
  assumes "acknowledge_terminal_activity now i n s = Inr (r, s')"
  obtains t v current where "find (\<lambda>t. t_id t = i) (terminals s) = Some t" "t_role t = Shell_Role"
    "t_activity t = Some current" "terminal_activity_revision n False = Inr v" "the v \<le> current"
    "s' = record_read now i (the v) s" "i_terminal r = i" "i_workspace r = t_workspace t"
    "i_activity r = current"
    "i_acknowledged r = (case find (\<lambda>a. a_terminal a = i) (activity_reads s') of
       None \<Rightarrow> 0 | Some a \<Rightarrow> a_acknowledged a)"
    "i_unread r = (i_acknowledged r < current)"
proof -
  from assms obtain v where v: "terminal_activity_revision n False = Inr v"
    unfolding acknowledge_terminal_activity_def rbind_Inr_iff by blast
  note step = assms [unfolded acknowledge_terminal_activity_def v rbind_simps Let_def]
  then obtain t where t: "find (\<lambda>t. t_id t = i) (terminals s) = Some t"
    by (cases "find (\<lambda>t. t_id t = i) (terminals s)") simp_all
  note step = step [unfolded t option.case]
  then have role: "t_role t = Shell_Role" by (cases "t_role t = Shell_Role") simp_all
  from step role obtain current where current: "t_activity t = Some current"
    by (cases "t_activity t") simp_all
  from step role current have le: "the v \<le> current" by (cases "current < the v") simp_all
  from step role current le show thesis
    by (intro that [OF t role current v le]) auto
qed

lemma acknowledge_ok [inv_intros]:
  assumes "acknowledge_terminal_activity now i n s = Inr (r, s')" and ok: "store_ok s"
  shows "store_ok s'"
proof (rule acknowledge_Inr [OF assms(1)])
  fix t v assume t: "find (\<lambda>t. t_id t = i) (terminals s) = Some t" and s': "s' = record_read now i (the v) s"
  from find_SomeD [OF t] have "i \<in> terminal_ids s" by auto
  with s' show ?thesis by (simp add: record_read_ok [OF ok])
qed

lemma trim_commands_ok: "store_ok s \<Longrightarrow> store_ok (trim_commands w s)"
  unfolding trim_commands_def Let_def
  by (rule store_ok_tables(5)) (auto intro: rows_filtered dest: store_ok_table(6))

lemma add_command_ok [inv_intros]: "add_command now i w t c s = Inr s' \<Longrightarrow> store_ok s \<Longrightarrow> store_ok s'"
  by (auto simp: add_command_def rbind_Inr_iff split: if_splits intro: trim_commands_ok insert_history_ok)

lemma clear_commands_ok [inv_intros]: "store_ok s \<Longrightarrow> store_ok (clear_commands w s)"
  unfolding clear_commands_def
  by (rule store_ok_tables(5)) (auto intro: rows_filtered dest: store_ok_table(6))

lemma claim_workspace_command_ok [inv_intros]:
  "claim_workspace_command now w l n d s = Inr (r, s') \<Longrightarrow> store_ok s \<Longrightarrow> store_ok s'"
  by (auto simp: claim_workspace_command_def rbind_Inr_iff split: if_splits option.splits
      intro: insert_command_claim_ok)

section \<open>Parsing the live windows\<close>

definition managed_role :: "wanted \<Rightarrow> bool" where
  "managed_role x \<longleftrightarrow> x_role x \<noteq> Shell_Role"

lemma managed_role_make [simp]:
  "managed_role \<lparr>x_window = w, x_name = n, x_role = r, x_run = k, x_activity = a\<rparr> \<longleftrightarrow> r \<noteq> Shell_Role"
  by (simp add: managed_role_def)

lemma parse_windows_result:
  assumes "parse_windows sw sr raws = Inr ds"
  shows "map x_window ds = map (\<lambda>r. text_or_empty (l_window r)) raws
    \<and> distinct (map x_window ds) \<and> (\<forall>x \<in> set ds. x_window x \<noteq> [] \<and> x_window x \<notin> set sw)
    \<and> unique_where managed_role x_role ds \<and> (\<forall>x \<in> set ds. managed_role x \<longrightarrow> x_role x \<notin> set sr)"
  using assms
proof (induction raws arbitrary: sw sr ds)
  case (Cons raw raws)
  let ?w = "text_or_empty (l_window raw)"
  from Cons.prems obtain r act rest where w: "?w \<noteq> []" "?w \<notin> set sw"
    and role: "\<not> (r \<noteq> Shell_Role \<and> r \<in> set sr)"
    and rest: "parse_windows (?w # sw) (if r = Shell_Role then sr else r # sr) raws = Inr rest"
    and ds: "ds = \<lparr>x_window = ?w, x_name = or_else (text_or_empty (l_name raw)) (u ''shell''),
          x_role = r, x_run = (if r = Shell_Role then None else non_empty (l_run raw)),
          x_activity = act\<rparr> # rest"
    by (auto simp: rbind_Inr_iff Let_def split: if_splits sum.splits)
  note IH = Cons.IH [OF rest]
  have "\<forall>x \<in> set rest. x_window x \<noteq> ?w" using IH by simp
  then have new: "?w \<notin> set (map x_window rest)" unfolding set_map by (metis imageE)
  have "map x_window ds = map (\<lambda>r. text_or_empty (l_window r)) (raw # raws)"
    using IH by (simp add: ds)
  moreover have "distinct (map x_window rest)" using IH by (elim conjE)
  then have "distinct (map x_window ds)" unfolding ds using new by simp
  moreover have "unique_where managed_role x_role ds" using IH role
    unfolding ds by (auto split: if_splits)
  moreover have "\<forall>x \<in> set rest. x_window x \<noteq> [] \<and> x_window x \<notin> set sw
      \<and> (managed_role x \<longrightarrow> x_role x \<notin> set sr)" using IH by (auto split: if_splits)
  ultimately show ?case using w role
    unfolding ds by (auto split: if_splits)
qed simp

section \<open>The matching\<close>

definition good_matching :: "terminal_row list \<Rightarrow> matching \<Rightarrow> bool" where
  "good_matching stored a \<longleftrightarrow> (\<forall>w r. snd a w = Some r \<longrightarrow> r \<in> set stored)
     \<and> set (fst a) = t_id ` ran (snd a)
     \<and> (\<forall>w w' r r'. snd a w = Some r \<and> snd a w' = Some r' \<and> t_id r = t_id r' \<longrightarrow> w = w')"

lemma good_claim:
  assumes "good_matching stored a" and "r \<in> set stored" "t_id r \<notin> set (fst a)" "snd a (x_window x) = None"
  shows "good_matching stored (claim_row x r a)"
proof -
  have "t_id r' \<noteq> t_id r" if "snd a w = Some r'" for w r'
    using assms(1,3) that unfolding good_matching_def by (metis imageI ranI)
  with assms show ?thesis
    unfolding good_matching_def claim_row_def
    by (auto simp: split: if_splits) metis+
qed

lemma fold_claims:
  assumes step: "\<And>x a. f x a = a
      \<or> (rel x \<and> (\<exists>r \<in> set stored. t_id r \<notin> set (fst a) \<and> f x a = claim_row x r a))"
    and "distinct (map x_window xs)" "good_matching stored a"
    and "\<forall>x \<in> set xs. rel x \<longrightarrow> snd a (x_window x) = None"
  shows "good_matching stored (fold f xs a)
    \<and> dom (snd (fold f xs a)) \<subseteq> dom (snd a) \<union> x_window ` {x \<in> set xs. rel x}"
  using assms(2-4)
proof (induction xs arbitrary: a)
  case (Cons x xs)
  from step [of x a] consider "f x a = a"
    | r where "rel x" "r \<in> set stored" "t_id r \<notin> set (fst a)" "f x a = claim_row x r a" by blast
  then show ?case
  proof cases
    case 1
    with Cons.IH [of a] Cons.prems show ?thesis by auto
  next
    case 2
    with Cons.prems have "good_matching stored (claim_row x r a)" by (intro good_claim) auto
    moreover have "\<forall>y \<in> set xs. rel y \<longrightarrow> snd (claim_row x r a) (x_window y) = None"
      using Cons.prems by (auto simp: claim_row_def) (metis imageI)+
    ultimately have "good_matching stored (fold f xs (claim_row x r a))
        \<and> dom (snd (fold f xs (claim_row x r a)))
          \<subseteq> dom (snd (claim_row x r a)) \<union> x_window ` {x \<in> set xs. rel x}"
      using Cons.prems by (intro Cons.IH) auto
    with 2 show ?thesis by (auto simp: claim_row_def)
  qed
qed simp

lemma row_by_window_stored: "row_by_window stored w = Some r \<Longrightarrow> r \<in> set stored \<and> t_window r = w"
  unfolding row_by_window_def by (auto dest: find_SomeD)

lemma managed_candidate_stored: "managed_candidate stored x = Some r \<Longrightarrow> r \<in> set stored"
  unfolding managed_candidate_def row_by_managed_role_def
  by (auto split: option.splits if_splits dest: find_SomeD row_by_window_stored)

lemma first_or_head:
  "(case find p rs of Some r \<Rightarrow> Some r | None \<Rightarrow> (case rs of [] \<Rightarrow> None | r # _ \<Rightarrow> Some r)) = Some x \<Longrightarrow> x \<in> set rs"
  by (auto split: option.splits list.splits dest: find_SomeD)

lemma shell_candidate_stored:
  assumes "shell_candidate stored claimed x = Some r"
  shows "r \<in> set stored \<and> free_shell claimed r"
proof -
  define fallback where "fallback = (case find (\<lambda>r. or_else (t_name r) (u ''shell'') = x_name x)
      (filter (free_shell claimed) stored) of Some r \<Rightarrow> Some r
    | None \<Rightarrow> (case filter (free_shell claimed) stored of [] \<Rightarrow> None | r # _ \<Rightarrow> Some r))"
  have "fallback = Some r \<Longrightarrow> r \<in> set (filter (free_shell claimed) stored)"
    unfolding fallback_def by (rule first_or_head)
  moreover have "(case row_by_window stored (x_window x) of
      Some r \<Rightarrow> if free_shell claimed r then Some r else fallback | None \<Rightarrow> fallback) = Some r"
    using assms unfolding shell_candidate_def Let_def fallback_def .
  ultimately show ?thesis
    using row_by_window_stored by (auto split: option.splits if_splits)
qed

lemma match_managed_step: "match_managed stored x a = a \<or> (managed_role x
    \<and> (\<exists>r \<in> set stored. t_id r \<notin> set (fst a) \<and> match_managed stored x a = claim_row x r a))"
  unfolding match_managed_def managed_role_def
  using managed_candidate_stored [of stored x] by (auto split: option.splits)

lemma match_shell_step: "match_shell stored x a = a \<or> (\<not> managed_role x
    \<and> (\<exists>r \<in> set stored. t_id r \<notin> set (fst a) \<and> match_shell stored x a = claim_row x r a))"
proof (cases "shell_candidate stored (fst a) x")
  case None
  then show ?thesis by (simp add: match_shell_def)
next
  case (Some r)
  then show ?thesis using shell_candidate_stored [OF Some]
    by (auto simp: match_shell_def managed_role_def free_shell_def)
qed

lemma match_windows_good:
  assumes "distinct (map x_window desired)"
  shows "good_matching stored (match_windows stored desired)
    \<and> dom (snd (match_windows stored desired)) \<subseteq> x_window ` set desired"
proof -
  let ?a = "fold (match_managed stored) desired ([], Map.empty)"
  have one: "good_matching stored ?a
      \<and> dom (snd ?a) \<subseteq> dom (snd ([]::ustr list, Map.empty :: ustr \<Rightarrow> terminal_row option))
        \<union> x_window ` {x \<in> set desired. managed_role x}"
    by (rule fold_claims [where rel = managed_role, OF match_managed_step assms])
      (auto simp: good_matching_def)
  have free: "snd ?a (x_window x) = None" if "x \<in> set desired" "\<not> managed_role x" for x
  proof -
    have "x_window x \<notin> x_window ` {x \<in> set desired. managed_role x}"
      using assms that by (auto simp: distinct_map inj_on_def)
    with one show ?thesis by (auto simp: domIff subset_iff)
  qed
  have "good_matching stored (fold (match_shell stored) desired ?a)
      \<and> dom (snd (fold (match_shell stored) desired ?a))
        \<subseteq> dom (snd ?a) \<union> x_window ` {x \<in> set desired. \<not> managed_role x}"
    by (rule fold_claims [where rel = "\<lambda>x. \<not> managed_role x", OF match_shell_step assms])
      (use one free in auto)
  moreover have "dom (snd ?a) \<subseteq> x_window ` set desired" using one by fastforce
  ultimately show ?thesis unfolding match_windows_def by blast
qed

section \<open>Writing the live windows\<close>

text \<open>What reconciliation decides of a Workspace's rows: identifier, window and role.\<close>

definition labels :: "ustr \<Rightarrow> store \<Rightarrow> (ustr \<times> ustr \<times> role) set" where
  "labels w s = (\<lambda>t. (t_id t, t_window t, t_role t)) ` {t \<in> set (terminals s). t_workspace t = w}"

definition others :: "ustr \<Rightarrow> store \<Rightarrow> terminal_row list" where
  "others w s = filter (\<lambda>t. t_workspace t \<noteq> w) (terminals s)"

lemma terminal_ids_split: "terminal_ids s = fst ` labels w s \<union> t_id ` set (others w s)"
proof -
  have "fst ` labels w s = t_id ` {t \<in> set (terminals s). t_workspace t = w}"
    by (simp add: labels_def image_image)
  moreover have "set (others w s) = {t \<in> set (terminals s). t_workspace t \<noteq> w}"
    by (auto simp: others_def)
  moreover have "{t \<in> set (terminals s). t_workspace t = w}
      \<union> {t \<in> set (terminals s). t_workspace t \<noteq> w} = set (terminals s)" by auto
  ultimately show ?thesis by (simp only: image_Un [symmetric])
qed

definition free_label :: "(ustr \<times> ustr \<times> role) set \<Rightarrow> ustr \<Rightarrow> ustr \<Rightarrow> role \<Rightarrow> bool" where
  "free_label L i window r \<longleftrightarrow> (\<forall>(j, v, q) \<in> L. j \<noteq> i \<longrightarrow> v \<noteq> window \<and> (q \<noteq> Shell_Role \<and> r \<noteq> Shell_Role \<longrightarrow> q \<noteq> r))"

lemma free_label_row:
  assumes "free_label (labels w s) i v r" and "x \<in> set (terminals s)" "t_workspace x = w" "t_id x \<noteq> i"
  shows "t_window x \<noteq> v \<and> (t_role x \<noteq> Shell_Role \<and> r \<noteq> Shell_Role \<longrightarrow> t_role x \<noteq> r)"
proof -
  have "(t_id x, t_window x, t_role x) \<in> labels w s" using assms by (simp add: labels_def)
  with assms(1,4) show ?thesis unfolding free_label_def by fast
qed

lemma update_terminal_Inr:
  assumes ok: "store_ok s" and t: "t \<in> set (terminals s)" "t_id t = i"
    and keep: "\<And>t. t_id (f t) = t_id t \<and> t_workspace (f t) = t_workspace t"
    and free: "free_label (labels (t_workspace t) s) i (t_window (f t)) (t_role (f t))"
  shows "update_terminal i f s = Inr (set_terminal i f s)"
proof -
  let ?g = "\<lambda>x. if t_id x = i then f x else x"
  let ?ts = "update_where (\<lambda>t. t_id t = i) f (terminals s)"
  note old = store_ok_table(4) [OF ok, unfolded terminals_ok_def]
  have ids: "distinct (map t_id ?ts)" using old keep by (simp add: map_update_where_same)
  then have dist: "distinct ?ts" by (simp add: distinct_map)
  have inj: "x = y" if "x \<in> set (terminals s)" "y \<in> set (terminals s)" "t_id x = t_id y" for x y
    using terminal_table.lookup_unique [OF ok that] .
  have only: "?g x = f t" if "x \<in> set (terminals s)" "t_id x = i" for x
    using inj [OF that(1) t(1)] that t by simp
  have other: "t_window x \<noteq> t_window (f t) \<and> (managed x \<and> managed (f t) \<longrightarrow> t_role x \<noteq> t_role (f t))"
    if "x \<in> set (terminals s)" "t_id x \<noteq> i" "t_workspace x = t_workspace t" for x
    using free_label_row [OF free that(1,3,2)] unfolding managed_def by blast
  have win: "x = y" if "x \<in> set (terminals s)" "y \<in> set (terminals s)"
      "t_workspace x = t_workspace y" "t_window x = t_window y" for x y
    using old that by (auto simp: distinct_map inj_on_def)
  have rol: "x = y" if "x \<in> set (terminals s)" "y \<in> set (terminals s)"
      "t_workspace x = t_workspace y" "t_role x = t_role y" "managed x" "managed y" for x y
    using old that by (auto simp: unique_where_def distinct_map inj_on_def)
  have "?g x = ?g y" if "x \<in> set (terminals s)" "y \<in> set (terminals s)"
      "t_workspace (?g x) = t_workspace (?g y)" "t_window (?g x) = t_window (?g y)" for x y
    using that only [of x] only [of y] other [of x] other [of y] win [of x y] keep
    by (cases "t_id x = i"; cases "t_id y = i") auto
  then have "distinct (map (\<lambda>t. (t_workspace t, t_window t)) ?ts)"
    unfolding distinct_map inj_on_def set_update_where using dist by blast
  moreover have "?g x = ?g y" if "x \<in> set (terminals s)" "y \<in> set (terminals s)"
      "t_workspace (?g x) = t_workspace (?g y)" "t_role (?g x) = t_role (?g y)"
      "managed (?g x)" "managed (?g y)" for x y
    using that only [of x] only [of y] other [of x] other [of y] rol [of x y] keep
    by (cases "t_id x = i"; cases "t_id y = i") auto
  then have "unique_where managed (\<lambda>t. (t_workspace t, t_role t)) ?ts"
    unfolding unique_where_iff_inj [OF dist] inj_on_def set_update_where by blast
  ultimately show ?thesis by (simp add: update_terminal_def set_terminal_def Let_def)
qed

lemma filter_update_elsewhere:
  "(\<And>x. x \<in> set rs \<Longrightarrow> p x \<Longrightarrow> \<not> q x \<and> \<not> q (f x)) \<Longrightarrow> filter q (update_where p f rs) = filter q rs"
  by (induction rs) auto

lemma labels_set_terminal:
  assumes ok: "store_ok s" and t: "t \<in> set (terminals s)" "t_id t = i" "t_workspace t = w"
    and keep: "\<And>t. t_id (f t) = t_id t \<and> t_workspace (f t) = t_workspace t"
  shows "labels w (set_terminal i f s)
      = {e \<in> labels w s. fst e \<noteq> i} \<union> {(i, t_window (f t), t_role (f t))}"
    and "others w (set_terminal i f s) = others w s"
proof -
  have only: "x = t" if "x \<in> set (terminals s)" "t_id x = i" for x
    using terminal_table.lookup_unique [OF ok that(1) t(1)] that t by simp
  let ?g = "\<lambda>x. if t_id x = i then f x else x"
  have "{t \<in> set (update_where (\<lambda>t. t_id t = i) f (terminals s)). t_workspace t = w}
      = ?g ` {x \<in> set (terminals s). t_workspace x = w}"
  proof -
    have image: "{y \<in> h ` S. t_workspace y = w} = h ` {x \<in> S. t_workspace (h x) = w}"
      for h :: "terminal_row \<Rightarrow> terminal_row" and S by blast
    have "t_workspace (?g x) = t_workspace x" for x using keep by simp
    then show ?thesis unfolding set_update_where image by simp
  qed
  moreover have "terminals (set_terminal i f s) = update_where (\<lambda>t. t_id t = i) f (terminals s)"
    by (simp add: set_terminal_def)
  ultimately have "labels w (set_terminal i f s)
      = (\<lambda>x. (t_id (?g x), t_window (?g x), t_role (?g x))) ` {x \<in> set (terminals s). t_workspace x = w}"
    by (simp only: labels_def image_image)
  also have "\<dots> = (\<lambda>x. (t_id x, t_window (?g x), t_role (?g x))) ` {x \<in> set (terminals s). t_workspace x = w}"
    using keep by (intro image_cong) auto
  also have "\<dots> = {e \<in> labels w s. fst e \<noteq> i} \<union> {(i, t_window (f t), t_role (f t))}"
  proof -
    let ?A = "{x \<in> set (terminals s). t_workspace x = w}"
    let ?h = "\<lambda>x. (t_id x, t_window (?g x), t_role (?g x))" and ?l = "\<lambda>x. (t_id x, t_window x, t_role x)"
    have "?A = {x \<in> ?A. t_id x \<noteq> i} \<union> {t}" (is "_ = ?B \<union> _") using only t by blast
    then have "?h ` ?A = ?h ` (?B \<union> {t})" by (rule arg_cong)
    then have "?h ` ?A = ?h ` ?B \<union> {?h t}" by (simp only: image_Un image_insert image_empty)
    moreover have "?h x = ?l x" if "x \<in> ?B" for x
    proof -
      from that have "t_id x \<noteq> i" by blast
      then show ?thesis by simp
    qed
    then have "?h ` ?B = ?l ` ?B" by (rule image_cong [OF refl])
    moreover have "{e \<in> ?l ` ?A. fst e \<noteq> i} = ?l ` ?B"
    proof -
      have image: "{e \<in> l ` A. P e} = l ` {x \<in> A. P (l x)}"
        for l :: "terminal_row \<Rightarrow> ustr \<times> ustr \<times> role" and A P by blast
      show ?thesis unfolding image fst_conv ..
    qed
    ultimately have "?h ` ?A = {e \<in> ?l ` ?A. fst e \<noteq> i} \<union> {?h t}" by (simp only:)
    moreover have "?h t = (i, t_window (f t), t_role (f t))" using t(2) by simp
    ultimately show ?thesis unfolding labels_def by (simp only:)
  qed
  finally show "labels w (set_terminal i f s)
      = {e \<in> labels w s. fst e \<noteq> i} \<union> {(i, t_window (f t), t_role (f t))}" .
  have "filter (\<lambda>t. t_workspace t \<noteq> w) (update_where (\<lambda>t. t_id t = i) f (terminals s))
      = filter (\<lambda>t. t_workspace t \<noteq> w) (terminals s)"
  proof (rule filter_update_elsewhere)
    fix x assume "x \<in> set (terminals s)" "t_id x = i"
    then have "t_workspace x = w" using only t(3) by blast
    then show "\<not> t_workspace x \<noteq> w \<and> \<not> t_workspace (f x) \<noteq> w" using keep [of x] by simp
  qed
  then show "others w (set_terminal i f s) = others w s"
    by (simp add: others_def set_terminal_def)
qed

lemma label_row: "(i, v, r) \<in> labels w s \<Longrightarrow>
    \<exists>t \<in> set (terminals s). t_id t = i \<and> t_window t = v \<and> t_role t = r \<and> t_workspace t = w"
  by (auto simp: labels_def)

lemma update_terminal_labels:
  assumes ok: "store_ok s" and i: "i \<in> fst ` labels w s"
    and keep: "\<And>t. t_id (f t) = t_id t \<and> t_workspace (f t) = t_workspace t"
    and new: "\<And>t. t_window (f t) = v \<and> t_role (f t) = r" and free: "free_label (labels w s) i v r"
  shows "\<exists>s'. update_terminal i f s = Inr s' \<and> store_ok s' \<and> workspaces s' = workspaces s
    \<and> labels w s' = {e \<in> labels w s. fst e \<noteq> i} \<union> {(i, v, r)} \<and> others w s' = others w s"
proof -
  from i obtain t where t: "t \<in> set (terminals s)" "t_id t = i" "t_workspace t = w"
    by (auto simp: labels_def)
  have "update_terminal i f s = Inr (set_terminal i f s)"
    by (rule update_terminal_Inr [OF ok t(1,2) keep]) (use free new t(3) in simp)
  moreover from this have "store_ok (set_terminal i f s)" using ok keep by (rule update_terminal_ok)
  moreover have "workspaces (set_terminal i f s) = workspaces s" by (simp add: set_terminal_def)
  ultimately show ?thesis
    using labels_set_terminal [OF ok t keep] new by auto
qed

lemma insert_terminal_labels:
  assumes ok: "store_ok s" and w: "t_workspace t \<in> workspace_ids s" and i: "t_id t \<notin> terminal_ids s"
    and free: "free_label (labels (t_workspace t) s) (t_id t) (t_window t) (t_role t)"
  shows "\<exists>s'. insert_terminal t s = Inr s' \<and> store_ok s' \<and> workspaces s' = workspaces s
    \<and> labels (t_workspace t) s' = labels (t_workspace t) s \<union> {(t_id t, t_window t, t_role t)}
    \<and> others (t_workspace t) s' = others (t_workspace t) s"
proof -
  have "t_window x \<noteq> t_window t \<and> (managed x \<and> managed t \<longrightarrow> t_role x \<noteq> t_role t)"
    if "x \<in> set (terminals s)" "t_workspace x = t_workspace t" for x
  proof -
    have "t_id x \<noteq> t_id t" using i that(1) by (metis imageI)
    then show ?thesis using free_label_row [OF free that] unfolding managed_def by blast
  qed
  then have "insert_terminal t s = Inr (s\<lparr>terminals := terminals s @ [t]\<rparr>)"
    using w i by (auto simp: insert_terminal_def)
  moreover from this have "store_ok (s\<lparr>terminals := terminals s @ [t]\<rparr>)" using ok by (rule insert_terminal_ok)
  ultimately show ?thesis by (auto simp: labels_def others_def)
qed

text \<open>Parking the matched rows under their temporary names.\<close>

definition parked :: "ustr \<Rightarrow> ustr \<times> ustr \<times> role" where
  "parked i = (i, sync_window i, Shell_Role)"

lemma sync_window_inj [simp]: "sync_window i = sync_window j \<longleftrightarrow> i = j"
  by (simp add: sync_window_def)

lemma park_all:
  assumes "store_ok s" and "distinct (map t_id rows)" and "t_id ` set rows \<subseteq> fst ` labels w s"
    and "\<forall>(i, v, r) \<in> labels w s. (i, v, r) = parked i \<and> i \<notin> t_id ` set rows \<or> (\<forall>j. v \<noteq> sync_window j)"
  shows "\<exists>s'. each park_terminal rows s = Inr s' \<and> store_ok s' \<and> workspaces s' = workspaces s
    \<and> others w s' = others w s
    \<and> labels w s' = {e \<in> labels w s. fst e \<notin> t_id ` set rows} \<union> parked ` t_id ` set rows"
  using assms
proof (induction rows arbitrary: s)
  case (Cons row rows)
  let ?i = "t_id row"
  have free: "free_label (labels w s) ?i (sync_window ?i) Shell_Role"
    unfolding free_label_def
  proof (intro ballI, clarify)
    fix j v r assume e: "(j, v, r) \<in> labels w s" "j \<noteq> ?i"
    with Cons.prems(4) have "(j, v, r) = parked j \<or> (\<forall>k. v \<noteq> sync_window k)" by fastforce
    with e(2) show "v \<noteq> sync_window ?i \<and> (r \<noteq> Shell_Role \<and> Shell_Role \<noteq> Shell_Role \<longrightarrow> r \<noteq> Shell_Role)"
      by (auto simp: parked_def)
  qed
  have i: "?i \<in> fst ` labels w s" using Cons.prems(3) by simp
  have "\<exists>s1. park_terminal row s = Inr s1 \<and> store_ok s1 \<and> workspaces s1 = workspaces s
      \<and> labels w s1 = {e \<in> labels w s. fst e \<noteq> ?i} \<union> {(?i, sync_window ?i, Shell_Role)}
      \<and> others w s1 = others w s"
    unfolding park_terminal_def
    by (rule update_terminal_labels [OF Cons.prems(1) i _ _ free]) simp_all
  then obtain s1 where s1: "park_terminal row s = Inr s1" "store_ok s1" "workspaces s1 = workspaces s"
      "others w s1 = others w s"
    and labels: "labels w s1 = {e \<in> labels w s. fst e \<noteq> ?i} \<union> {parked ?i}"
    by (auto simp: parked_def)
  have "\<exists>s'. each park_terminal rows s1 = Inr s' \<and> store_ok s' \<and> workspaces s' = workspaces s1
    \<and> others w s' = others w s1
    \<and> labels w s' = {e \<in> labels w s1. fst e \<notin> t_id ` set rows} \<union> parked ` t_id ` set rows"
  proof (rule Cons.IH)
    show "store_ok s1" by fact
    show "distinct (map t_id rows)" using Cons.prems(2) by simp
    have new: "?i \<notin> t_id ` set rows" using Cons.prems(2) by simp
    show "t_id ` set rows \<subseteq> fst ` labels w s1"
    proof
      fix j assume j: "j \<in> t_id ` set rows"
      with Cons.prems(3) obtain e where "e \<in> labels w s" "fst e = j" by auto
      moreover have "j \<noteq> ?i" using j new by blast
      ultimately show "j \<in> fst ` labels w s1" unfolding labels by force
    qed
    show "\<forall>(i, v, r) \<in> labels w s1. (i, v, r) = parked i \<and> i \<notin> t_id ` set rows \<or> (\<forall>j. v \<noteq> sync_window j)"
      using Cons.prems(4) new unfolding labels by (auto simp: parked_def)
  qed
  with s1 have "\<exists>s'. each park_terminal (row # rows) s = Inr s' \<and> store_ok s' \<and> workspaces s' = workspaces s
    \<and> others w s' = others w s
    \<and> labels w s' = {e \<in> labels w s1. fst e \<notin> t_id ` set rows} \<union> parked ` t_id ` set rows" by simp
  moreover have "{e \<in> labels w s1. fst e \<notin> t_id ` set rows} \<union> parked ` t_id ` set rows
      = {e \<in> labels w s. fst e \<notin> t_id ` set (row # rows)} \<union> parked ` t_id ` set (row # rows)"
    using Cons.prems(2) unfolding labels by (auto simp: parked_def)
  ultimately show ?case by simp
qed auto

text \<open>Writing the live windows one by one.\<close>

definition target :: "wanted \<times> terminal_row option \<times> ustr \<Rightarrow> ustr" where
  "target a = (case a of (x, row, i) \<Rightarrow> (case row of None \<Rightarrow> i | Some r \<Rightarrow> t_id r))"

definition placed :: "wanted \<times> terminal_row option \<times> ustr \<Rightarrow> ustr \<times> ustr \<times> role" where
  "placed a = (target a, x_window (fst a), x_role (fst a))"

lemma place_all:
  assumes "store_ok s" and "w \<in> workspace_ids s"
    and "labels w s = D \<union> parked ` t_id ` set (matched_rows as)"
    and "distinct (map target as)" and "distinct (map (\<lambda>a. x_window (fst a)) as)"
    and "unique_where (\<lambda>a. managed_role (fst a)) (\<lambda>a. x_role (fst a)) as"
    and "\<forall>a \<in> set as. (\<forall>j. x_window (fst a) \<noteq> sync_window j) \<and> (\<forall>(i, v, r) \<in> D. i \<noteq> target a
        \<and> v \<noteq> x_window (fst a) \<and> (r \<noteq> Shell_Role \<and> managed_role (fst a) \<longrightarrow> r \<noteq> x_role (fst a)))"
    and "\<forall>(x, row, i) \<in> set as. row = None \<longrightarrow> i \<notin> t_id ` set (others w s)"
    and "\<forall>(i, v, r) \<in> D. \<forall>j. v \<noteq> sync_window j"
  shows "\<exists>s'. each (place_window now w) as s = Inr s' \<and> store_ok s' \<and> others w s' = others w s
    \<and> labels w s' = D \<union> placed ` set as"
  using assms
proof (induction as arbitrary: s D)
  case Nil
  then show ?case by (auto simp: matched_rows_def)
next
  case (Cons a as)
  obtain x row i where a: "a = (x, row, i)" by (cases a) auto
  let ?R = "t_id ` set (matched_rows as)"
  have targets: "?R \<subseteq> target ` set as"
    by (force simp: matched_rows_def target_def split: option.splits)
  then have fresh: "target a \<notin> ?R" using Cons.prems(4) by auto
  have rows: "t_id ` set (matched_rows (a # as)) = (case row of None \<Rightarrow> {} | Some r \<Rightarrow> {t_id r}) \<union> ?R"
    by (auto simp: matched_rows_def a split: option.splits)
  have notD: "target a \<notin> fst ` D" using Cons.prems(7) by fastforce
  have free: "free_label (labels w s) (target a) (x_window x) (x_role x)"
    using Cons.prems(7) unfolding free_label_def Cons.prems(3)
    by (fastforce simp: parked_def a managed_role_def)
  have "\<exists>s1. place_window now w a s = Inr s1 \<and> store_ok s1 \<and> workspaces s1 = workspaces s
      \<and> labels w s1 = (D \<union> {placed a}) \<union> parked ` ?R \<and> others w s1 = others w s"
  proof (cases row)
    case None
    have "i \<notin> terminal_ids s"
      using Cons.prems(8) fresh notD None unfolding terminal_ids_split [of s w] Cons.prems(3) rows
      by (auto simp: parked_def a target_def)
    moreover have L: "labels w s = D \<union> parked ` ?R" using Cons.prems(3) rows None by simp
    ultimately show ?thesis
      using insert_terminal_labels [OF Cons.prems(1), of "\<lparr>t_id = i, t_workspace = w, t_name = x_name x,
          t_window = x_window x, t_role = x_role x, t_run = x_run x, t_created = now, t_opened = now,
          t_output = None, t_activity = x_activity x\<rparr>"] Cons.prems(2) free
      by (simp add: place_window_def a None target_def placed_def L)
  next
    case (Some r)
    then have target: "target a = t_id r" by (simp add: a target_def)
    have "t_id r \<in> fst ` labels w s"
      unfolding Cons.prems(3) rows Some by (simp add: parked_def image_Un)
    from update_terminal_labels [OF Cons.prems(1) this, of "\<lambda>t. t\<lparr>t_name := x_name x, t_window := x_window x,
          t_role := x_role x, t_run := x_run x, t_activity := merge_activity (x_activity x) (t_activity t)\<rparr>"
          "x_window x" "x_role x"] free target
    obtain s1 where s1: "place_window now w a s = Inr s1" "store_ok s1" "workspaces s1 = workspaces s"
        "others w s1 = others w s"
      and labels: "labels w s1 = {e \<in> labels w s. fst e \<noteq> t_id r} \<union> {(t_id r, x_window x, x_role x)}"
      by (auto simp: place_window_def a Some)
    have "{e \<in> labels w s. fst e \<noteq> t_id r} = D \<union> parked ` ?R"
    proof -
      have drop: "c \<notin> S \<Longrightarrow> {j \<in> S. j \<noteq> c} = S" for c :: ustr and S by blast
      have "{e \<in> D. fst e \<noteq> t_id r} = D" using notD target by force
      moreover have "{j \<in> ?R. j \<noteq> t_id r} = ?R" using fresh target by (intro drop) simp
      moreover have "{e \<in> D \<union> parked ` insert (t_id r) ?R. fst e \<noteq> t_id r}
          = {e \<in> D. fst e \<noteq> t_id r} \<union> parked ` {j \<in> ?R. j \<noteq> t_id r}"
        by (auto simp: parked_def)
      ultimately show ?thesis unfolding Cons.prems(3) rows Some by simp
    qed
    moreover have "placed a = (t_id r, x_window x, x_role x)"
      unfolding placed_def target by (simp add: a)
    ultimately have "labels w s1 = (D \<union> {placed a}) \<union> parked ` ?R" using labels by simp
    with s1 show ?thesis by blast
  qed
  then obtain s1 where s1: "place_window now w a s = Inr s1" "store_ok s1" "workspaces s1 = workspaces s"
      "others w s1 = others w s" "labels w s1 = (D \<union> {placed a}) \<union> parked ` ?R" by blast
  have "\<exists>s'. each (place_window now w) as s1 = Inr s' \<and> store_ok s' \<and> others w s' = others w s1
      \<and> labels w s' = (D \<union> {placed a}) \<union> placed ` set as"
  proof (rule Cons.IH)
    show "store_ok s1" "labels w s1 = (D \<union> {placed a}) \<union> parked ` ?R" by fact+
    show "w \<in> workspace_ids s1" using Cons.prems(2) s1(3) by simp
    show "distinct (map target as)" "distinct (map (\<lambda>a. x_window (fst a)) as)"
        "unique_where (\<lambda>a. managed_role (fst a)) (\<lambda>a. x_role (fst a)) as"
      using Cons.prems(4,5,6) by simp_all
    show "\<forall>b \<in> set as. (\<forall>j. x_window (fst b) \<noteq> sync_window j) \<and> (\<forall>(i, v, r) \<in> D \<union> {placed a}. i \<noteq> target b
        \<and> v \<noteq> x_window (fst b) \<and> (r \<noteq> Shell_Role \<and> managed_role (fst b) \<longrightarrow> r \<noteq> x_role (fst b)))"
    proof
      fix b assume b: "b \<in> set as"
      have "target a \<noteq> target b" "x_window (fst a) \<noteq> x_window (fst b)"
        using Cons.prems(4,5) b by (auto simp: image_iff)
      moreover have "managed_role (fst a) \<Longrightarrow> managed_role (fst b) \<Longrightarrow> x_role (fst b) \<noteq> x_role (fst a)"
        using Cons.prems(6) b by simp
      ultimately show "(\<forall>j. x_window (fst b) \<noteq> sync_window j) \<and> (\<forall>(i, v, r) \<in> D \<union> {placed a}. i \<noteq> target b
        \<and> v \<noteq> x_window (fst b) \<and> (r \<noteq> Shell_Role \<and> managed_role (fst b) \<longrightarrow> r \<noteq> x_role (fst b)))"
        using Cons.prems(7) b by (auto simp: placed_def managed_role_def)
    qed
    show "\<forall>(x, row, i) \<in> set as. row = None \<longrightarrow> i \<notin> t_id ` set (others w s1)"
      using Cons.prems(8) s1(4) by auto
    show "\<forall>(i, v, r) \<in> D \<union> {placed a}. \<forall>j. v \<noteq> sync_window j"
      using Cons.prems(7,9) by (auto simp: placed_def)
  qed
  with s1 show ?case by (auto simp: Un_assoc)
qed

section \<open>Reconciliation succeeds\<close>

lemma map_fst_assignments [simp]: "map fst (assignments ids a ds) = ds"
  by (simp add: assignments_def comp_def split_def)

lemma assignments_nth:
  "n < length ds \<Longrightarrow> assignments ids a ds ! n = (ds ! n, snd a (x_window (ds ! n)), ids n)"
  by (simp add: assignments_def)

lemma length_assignments [simp]: "length (assignments ids a ds) = length ds"
  by (simp add: assignments_def)

lemma in_assignments:
  "(x, row, i) \<in> set (assignments ids a ds) \<Longrightarrow>
    x \<in> set ds \<and> row = snd a (x_window x) \<and> (\<exists>n. i = ids n)"
  by (auto simp: in_set_conv_nth assignments_nth)

lemma set_matched_rows:
  assumes "dom (snd a) \<subseteq> x_window ` set ds"
  shows "set (matched_rows (assignments ids a ds)) = ran (snd a)"
proof -
  have "set (matched_rows as) = {r. \<exists>x i. (x, Some r, i) \<in> set as}" for as
    by (force simp: matched_rows_def split: option.splits)
  moreover have "(\<exists>x i. (x, Some r, i) \<in> set (assignments ids a ds)) \<longleftrightarrow> r \<in> ran (snd a)" for r
  proof
    assume "r \<in> ran (snd a)"
    then obtain w where w: "snd a w = Some r" by (auto simp: ran_def)
    with assms obtain x where x: "x \<in> set ds" "x_window x = w" by (auto simp: domIff subset_iff)
    then obtain n where "n < length ds" "ds ! n = x" by (auto simp: in_set_conv_nth)
    with w x have "assignments ids a ds ! n = (x, Some r, ids n)" "n < length (assignments ids a ds)"
      by (simp_all add: assignments_nth)
    then show "\<exists>x i. (x, Some r, i) \<in> set (assignments ids a ds)" by (metis nth_mem)
  qed (auto dest!: in_assignments simp: ran_def)
  ultimately show ?thesis by auto
qed

lemma distinct_targets:
  assumes "good_matching stored a" and "distinct (map x_window ds)" and "inj ids"
    and "\<forall>n. \<forall>r \<in> set stored. ids n \<noteq> t_id r"
  shows "distinct (map target (assignments ids a ds))"
proof -
  have "target (assignments ids a ds ! m) \<noteq> target (assignments ids a ds ! n)"
    if "m < length ds" "n < length ds" "m \<noteq> n" for m n
  proof -
    have "x_window (ds ! m) \<noteq> x_window (ds ! n)"
      using assms(2) that nth_eq_iff_index_eq [of "map x_window ds" m n] by simp
    moreover have "ids m \<noteq> ids n" using assms(3) that by (simp add: inj_eq)
    ultimately show ?thesis
      using assms(1,4) that unfolding good_matching_def target_def
      by (auto simp: assignments_nth split: option.splits) metis+
  qed
  then show ?thesis by (simp add: distinct_conv_nth)
qed

lemma distinct_matched_rows:
  assumes "distinct (map target as)"
  shows "distinct (map t_id (matched_rows as))"
proof -
  have "map t_id (matched_rows as) = map target (filter (\<lambda>a. fst (snd a) \<noteq> None) as)"
    by (induction as) (auto simp: matched_rows_def target_def split: option.splits)
  with assms show ?thesis by (simp add: distinct_map_filter)
qed

lemma unique_where_map_eq: "unique_where p k (map f xs) = unique_where (\<lambda>x. p (f x)) (\<lambda>x. k (f x)) xs"
  by (simp add: unique_where_def filter_map comp_def)

lemma delete_terminals_labels:
  "labels w (delete_terminals (\<lambda>t. t_workspace t = w \<and> t_id t \<notin> K) s) = {e \<in> labels w s. fst e \<in> K}"
  "others w (delete_terminals (\<lambda>t. t_workspace t = w \<and> t_id t \<notin> K) s) = others w s"
  "workspaces (delete_terminals p s) = workspaces s"
proof -
  show "labels w (delete_terminals (\<lambda>t. t_workspace t = w \<and> t_id t \<notin> K) s) = {e \<in> labels w s. fst e \<in> K}"
    unfolding labels_def delete_terminals_def Let_def by (simp add: image_def) auto
  have "filter (\<lambda>t. t_workspace t \<noteq> w) (filter (\<lambda>t. \<not> (t_workspace t = w \<and> t_id t \<notin> K)) (terminals s))
      = filter (\<lambda>t. t_workspace t \<noteq> w) (terminals s)" by (simp add: filter_filter conj_commute cong: conj_cong)
  then show "others w (delete_terminals (\<lambda>t. t_workspace t = w \<and> t_id t \<notin> K) s) = others w s"
    by (simp add: others_def delete_terminals_def Let_def)
qed (simp add: delete_terminals_def Let_def)

definition plain_window :: "ustr \<Rightarrow> bool" where
  "plain_window v \<longleftrightarrow> \<not> starts_with (u ''__termroom_sync__'') v"

lemma plain_window_sync: "plain_window v \<Longrightarrow> v \<noteq> sync_window j"
  by (auto simp: plain_window_def sync_window_def)

lemma set_terminals_of: "set (terminals_of w s) = {t \<in> set (terminals s). t_workspace t = w}"
  by (simp add: terminals_of_def)

lemma reconcile_writes:
  assumes ok: "store_ok s" and w: "w \<in> workspace_ids s"
    and parsed: "parse_windows [] [] raws = Inr ds"
    and plain: "\<forall>x \<in> set ds. plain_window (x_window x)"
      "\<forall>t \<in> set (terminals s). t_workspace t = w \<longrightarrow> plain_window (t_window t)"
    and ids: "inj ids" "\<forall>n. ids n \<notin> terminal_ids s"
  shows "\<exists>s'. reconcile_terminals now ids w raws s = Inr (terminals_of w s', s') \<and> store_ok s'
    \<and> others w s' = others w s
    \<and> labels w s' = placed ` set (assignments ids (match_windows (terminals_of w s) ds) ds)"
proof -
  let ?stored = "terminals_of w s"
  let ?a = "match_windows ?stored ds"
  let ?as = "assignments ids ?a ds"
  let ?s1 = "delete_terminals (\<lambda>t. t_workspace t = w \<and> t_id t \<notin> set (fst ?a)) s"
  note win = parse_windows_result [OF parsed]
  have dist: "distinct (map x_window ds)" using win by blast
  from match_windows_good [OF dist] have good: "good_matching ?stored ?a"
    and dom: "dom (snd ?a) \<subseteq> x_window ` set ds" by auto
  have fresh: "\<forall>n. \<forall>r \<in> set ?stored. ids n \<noteq> t_id r"
    using ids(2) unfolding set_terminals_of by (metis (no_types, lifting) imageI mem_Collect_eq)
  have targets: "distinct (map target ?as)" by (rule distinct_targets [OF good dist ids(1) fresh])
  have rows: "t_id ` set (matched_rows ?as) = set (fst ?a)"
    using good unfolding set_matched_rows [OF dom] good_matching_def by simp
  have claimed: "set (fst ?a) \<subseteq> fst ` labels w s"
    using good unfolding good_matching_def set_terminals_of by (fastforce simp: labels_def ran_def image_iff)
  have kept: "fst ` labels w ?s1 = set (fst ?a)"
    using claimed unfolding delete_terminals_labels by force
  have "\<exists>s2. each park_terminal (matched_rows ?as) ?s1 = Inr s2 \<and> store_ok s2
      \<and> workspaces s2 = workspaces ?s1 \<and> others w s2 = others w ?s1
      \<and> labels w s2 = {e \<in> labels w ?s1. fst e \<notin> t_id ` set (matched_rows ?as)}
          \<union> parked ` t_id ` set (matched_rows ?as)"
  proof (rule park_all)
    show "store_ok ?s1" by (rule delete_terminals_ok [OF ok])
    show "distinct (map t_id (matched_rows ?as))" by (rule distinct_matched_rows [OF targets])
    show "t_id ` set (matched_rows ?as) \<subseteq> fst ` labels w ?s1" using rows kept by simp
    have "plain_window v" if "(i, v, r) \<in> labels w ?s1" for i v r
      using that [unfolded delete_terminals_labels] plain(2) by (auto simp: labels_def)
    then show "\<forall>(i, v, r) \<in> labels w ?s1. (i, v, r) = parked i \<and> i \<notin> t_id ` set (matched_rows ?as)
        \<or> (\<forall>j. v \<noteq> sync_window j)" using plain_window_sync by fast
  qed
  then obtain s2 where s2: "each park_terminal (matched_rows ?as) ?s1 = Inr s2" "store_ok s2"
      "workspaces s2 = workspaces s" "others w s2 = others w s"
    and labels: "labels w s2 = {} \<union> parked ` t_id ` set (matched_rows ?as)"
    using kept rows unfolding delete_terminals_labels by fastforce
  have "\<exists>s'. each (place_window now w) ?as s2 = Inr s' \<and> store_ok s' \<and> others w s' = others w s2
      \<and> labels w s' = {} \<union> placed ` set ?as"
  proof (rule place_all)
    show "store_ok s2" "distinct (map target ?as)" by fact+
    show "labels w s2 = {} \<union> parked ` t_id ` set (matched_rows ?as)" by fact
    show "w \<in> workspace_ids s2" using w s2(3) by simp
    have fsts: "map (\<lambda>a. g (fst a)) ?as = map g ds" for g :: "wanted \<Rightarrow> ustr"
      using map_map [of g fst ?as] by (simp add: comp_def)
    show "distinct (map (\<lambda>a. x_window (fst a)) ?as)" unfolding fsts by (rule dist)
    have "unique_where managed_role x_role (map fst ?as)" using win by simp
    then show "unique_where (\<lambda>a. managed_role (fst a)) (\<lambda>a. x_role (fst a)) ?as"
      by (simp only: unique_where_map_eq)
    have "\<forall>a \<in> set ?as. plain_window (x_window (fst a))"
    proof
      fix a assume "a \<in> set ?as"
      then have "fst a \<in> set ds"
        using in_assignments [of "fst a" "fst (snd a)" "snd (snd a)" ids ?a ds] by simp
      with plain(1) show "plain_window (x_window (fst a))" by blast
    qed
    then show "\<forall>a \<in> set ?as. (\<forall>j. x_window (fst a) \<noteq> sync_window j) \<and> (\<forall>(i, v, r) \<in> {}. i \<noteq> target a
        \<and> v \<noteq> x_window (fst a) \<and> (r \<noteq> Shell_Role \<and> managed_role (fst a) \<longrightarrow> r \<noteq> x_role (fst a)))"
      by (simp add: plain_window_sync)
    show "\<forall>(x, row, i) \<in> set ?as. row = None \<longrightarrow> i \<notin> t_id ` set (others w s2)"
    proof -
      have "i \<notin> t_id ` set (others w s)" if "(x, row, i) \<in> set ?as" for x row i
      proof -
        from in_assignments [OF that] obtain n where "i = ids n" by blast
        then have "i \<notin> terminal_ids s" using ids(2) by simp
        then show ?thesis unfolding terminal_ids_split [of s w] by blast
      qed
      then show ?thesis unfolding s2(4) by blast
    qed
    show "\<forall>(i, v, r) \<in> {}. \<forall>j. v \<noteq> sync_window j" by simp
  qed
  with s2 parsed show ?thesis
    by (auto simp: reconcile_terminals_def Let_def)
qed

end
