(* ===== verification/Terminal_Properties.thy ===== *)
theory Terminal_Properties
  imports Terminal_Laws
begin

text \<open>
  Properties of the terminal operations: the identity of managed terminals across a
  reconciliation, the activity counters and their acknowledgement, the bounded command history and
  the single use of a launch identity.
\<close>

section \<open>Identity of managed terminals\<close>

lemma fold_other_windows:
  assumes "\<And>y a. f y a = a \<or> (rel y \<and> (\<exists>r. f y a = claim_row y r a))"
    and "w \<notin> x_window ` {y \<in> set ys. rel y}"
  shows "snd (fold f ys a) w = snd a w"
  using assms(2)
proof (induction ys arbitrary: a)
  case (Cons y ys)
  have "snd (f y a) w = snd a w"
    using assms(1) [of y a] Cons.prems by (auto simp: claim_row_def)
  moreover have "snd (fold f ys (f y a)) w = snd (f y a) w"
    by (rule Cons.IH) (use Cons.prems in auto)
  ultimately show ?case by simp
qed simp

lemma row_by_managed_role_unique:
  assumes "unique_where managed t_role stored" and "t \<in> set stored" "managed t"
  shows "row_by_managed_role stored (t_role t) = Some t"
proof -
  have "distinct (map t_role (filter managed stored))" using assms(1) by (simp add: unique_where_def)
  then have "distinct (map t_role (rev (filter managed stored)))" by (simp add: rev_map [symmetric])
  moreover have "t \<in> set (rev (filter managed stored))" using assms by simp
  ultimately have "find (\<lambda>x. t_role x = t_role t) (rev (filter managed stored)) = Some t"
    by (simp only: find_Some_iff_unique)
  moreover have "filter (\<lambda>t. t_role t \<noteq> Shell_Role) stored = filter managed stored"
    by (rule filter_cong) (simp_all add: managed_def)
  ultimately show ?thesis by (simp only: row_by_managed_role_def)
qed

lemma managed_candidate_role:
  assumes "managed_candidate stored y = Some r"
  shows "t_role r = x_role y \<or> t_role r = Shell_Role"
proof (cases "row_by_managed_role stored (x_role y)")
  case None
  with assms show ?thesis by (simp add: managed_candidate_def split: option.splits if_splits)
next
  case (Some q)
  then have "t_role q = x_role y"
    unfolding row_by_managed_role_def using find_SomeD by fast
  moreover have "r = q" using assms Some by (simp add: managed_candidate_def)
  ultimately show ?thesis by simp
qed

lemma match_managed_keeps:
  assumes stored: "distinct (map t_id stored)" "unique_where managed t_role stored"
    and t: "t \<in> set stored" "managed t" "t_role t = x_role x"
    and "distinct (map x_window ds)" "unique_where managed_role x_role ds"
    and "x \<in> set ds" "managed_role x" "t_id t \<notin> set (fst a)"
  shows "snd (fold (match_managed stored) ds a) (x_window x) = Some t"
  using assms(6-)
proof (induction ds arbitrary: a)
  case (Cons y ys)
  show ?case
  proof (cases "y = x")
    case True
    have "managed_candidate stored x = Some t"
      using row_by_managed_role_unique [OF stored(2) t(1,2)] t(3) by (simp add: managed_candidate_def)
    then have "match_managed stored x a = claim_row x t a"
      using Cons.prems(4,5) by (simp add: match_managed_def managed_role_def)
    moreover have "snd (fold (match_managed stored) ys (claim_row x t a)) (x_window x)
        = snd (claim_row x t a) (x_window x)"
      by (rule fold_other_windows [where rel = managed_role])
        (use match_managed_step Cons.prems(1) True in \<open>blast, auto\<close>)
    ultimately show ?thesis using True by (simp add: claim_row_def)
  next
    case False
    have "t_id t \<notin> set (fst (match_managed stored y a))"
    proof (cases "match_managed stored y a = a")
      case False
      then have y: "managed_role y" using match_managed_step by blast
      with False obtain r where r: "managed_candidate stored y = Some r"
        and claim: "match_managed stored y a = claim_row y r a"
        by (auto simp: match_managed_def split: option.splits if_splits)
      have "x_role y \<noteq> x_role x" using Cons.prems(2,3,4) y \<open>y \<noteq> x\<close> by auto
      then have "t_role r \<noteq> t_role t"
        using managed_candidate_role [OF r] t(2,3) by (auto simp: managed_def)
      then have "t_id r \<noteq> t_id t"
        using stored(1) t(1) managed_candidate_stored [OF r] by (auto simp: distinct_map inj_on_def)
      then show ?thesis unfolding claim using Cons.prems(5) by (simp add: claim_row_def)
    qed (use Cons.prems(5) in simp)
    with Cons.IH [of "match_managed stored y a"] Cons.prems False show ?thesis by simp
  qed
qed simp

lemma match_windows_keeps_managed:
  assumes ok: "store_ok s" and t: "t \<in> set (terminals s)" "t_workspace t = w" "managed t"
    and parsed: "parse_windows [] [] raws = Inr ds" and x: "x \<in> set ds" "x_role x = t_role t"
  shows "snd (match_windows (terminals_of w s) ds) (x_window x) = Some t"
proof -
  note ds = parse_windows_result [OF parsed]
  note old = store_ok_table(4) [OF ok, unfolded terminals_ok_def]
  have dist: "distinct (map t_id (terminals_of w s))"
    using old by (auto simp: terminals_of_def distinct_map inj_on_def)
  then have "distinct (terminals_of w s)" by (simp add: distinct_map)
  moreover have "distinct (terminals s)" using old by (simp add: distinct_map)
  ultimately have role: "unique_where managed t_role (terminals_of w s)"
    using old by (auto simp: unique_where_iff_inj inj_on_def set_terminals_of)
  have x': "managed_role x" using t(3) x(2) by (simp add: managed_role_def managed_def)
  have win: "distinct (map x_window ds)" using ds by blast
  have "snd (fold (match_managed (terminals_of w s)) ds ([], Map.empty)) (x_window x) = Some t"
    by (rule match_managed_keeps [OF dist role _ t(3) x(2) [symmetric] win _ x(1) x'])
      (use ds t in \<open>simp_all add: set_terminals_of\<close>)
  moreover have "snd (match_windows (terminals_of w s) ds) (x_window x)
      = snd (fold (match_managed (terminals_of w s)) ds ([], Map.empty)) (x_window x)"
    unfolding match_windows_def
  proof (rule fold_other_windows [where rel = "\<lambda>x. \<not> managed_role x"])
    show "match_shell (terminals_of w s) y a = a \<or> (\<not> managed_role y
        \<and> (\<exists>r. match_shell (terminals_of w s) y a = claim_row y r a))" for y a
      using match_shell_step by blast
    show "x_window x \<notin> x_window ` {y \<in> set ds. \<not> managed_role y}"
      using win x(1) x' by (auto simp: distinct_map inj_on_def)
  qed
  ultimately show ?thesis by simp
qed

lemma managed_row_kept:
  assumes "store_ok s" and "w \<in> workspace_ids s" and "parse_windows [] [] raws = Inr ds"
    and "\<forall>x \<in> set ds. plain_window (x_window x)"
    and "\<forall>t \<in> set (terminals s). t_workspace t = w \<longrightarrow> plain_window (t_window t)"
    and "inj ids" and "\<forall>n. ids n \<notin> terminal_ids s"
    and t: "t \<in> set (terminals s)" "t_workspace t = w" "managed t"
    and x: "x \<in> set ds" "x_role x = t_role t"
  shows "\<exists>ts s'. reconcile_terminals now ids w raws s = Inr (ts, s')
    \<and> (\<exists>t' \<in> set ts. t_id t' = t_id t \<and> t_window t' = x_window x \<and> t_role t' = t_role t)"
proof -
  from reconcile_writes [OF assms(1-7), of now] obtain s' where
    s': "reconcile_terminals now ids w raws s = Inr (terminals_of w s', s')"
    and labels: "labels w s' = placed ` set (assignments ids (match_windows (terminals_of w s) ds) ds)"
    by blast
  from x(1) obtain n where n: "n < length ds" "ds ! n = x" by (auto simp: in_set_conv_nth)
  then have "(x, Some t, ids n) \<in> set (assignments ids (match_windows (terminals_of w s) ds) ds)"
    using assignments_nth [OF n(1), of ids "match_windows (terminals_of w s) ds"]
      match_windows_keeps_managed [OF assms(1) t assms(3) x] by (metis length_assignments nth_mem)
  then have "placed (x, Some t, ids n) \<in> labels w s'" unfolding labels by (rule imageI)
  then have "(t_id t, x_window x, t_role t) \<in> labels w s'" using x(2) by (simp add: placed_def target_def)
  from label_row [OF this] obtain t' where "t' \<in> set (terminals_of w s')"
      "t_id t' = t_id t" "t_window t' = x_window x" "t_role t' = t_role t"
    by (auto simp: set_terminals_of)
  with s' show ?thesis by blast
qed

text \<open>C4: the File Run (or Remote Run) terminal keeps its row, so its identifier and its read state,
  however tmux renumbered its window.\<close>

theorem managed_terminal_keeps_identity:
  assumes "store_ok s" and "w \<in> workspace_ids s" and "parse_windows [] [] raws = Inr ds"
    and "\<forall>x \<in> set ds. plain_window (x_window x)"
    and "\<forall>t \<in> set (terminals s). t_workspace t = w \<longrightarrow> plain_window (t_window t)"
    and "inj ids" and "\<forall>n. ids n \<notin> terminal_ids s"
    and t: "t \<in> set (terminals s)" "t_workspace t = w" "managed t"
    and x: "x \<in> set ds" "x_role x = t_role t"
  shows "\<exists>ts s'. reconcile_terminals now ids w raws s = Inr (ts, s')
    \<and> (\<exists>t' \<in> set ts. t_id t' = t_id t \<and> t_window t' = x_window x \<and> t_role t' = t_role t)"
  using assms by (rule managed_row_kept)

definition sample_live :: "live_window list" where
  "sample_live = [\<lparr>l_window = Some (u ''@2''), l_role = None, l_run = None, l_activity = A_Int 9, l_name = Some (u ''zsh'')\<rparr>,
     \<lparr>l_window = Some (u ''@7''), l_role = Some (u ''file_run''), l_run = Some (u ''f1''), l_activity = A_Int 4,
      l_name = Some (u ''Run'')\<rparr>]"

definition sample_wanted :: "wanted list" where
  "sample_wanted = [\<lparr>x_window = u ''@2'', x_name = u ''zsh'', x_role = Shell_Role, x_run = None, x_activity = Some 9\<rparr>,
     \<lparr>x_window = u ''@7'', x_name = u ''Run'', x_role = File_Run_Role, x_run = Some (u ''f1''), x_activity = Some 4\<rparr>]"

lemma sample_live_parsed: "parse_windows [] [] sample_live = Inr sample_wanted"
  by (simp add: sample_live_def sample_wanted_def Let_def terminal_role_def role_of_def or_else_def
      text_or_empty_def terminal_activity_revision_def non_empty_def)

lemma sample_plain:
  "\<forall>x \<in> set sample_wanted. plain_window (x_window x)"
  "\<forall>t \<in> set (terminals sample_store). t_workspace t = u ''w1'' \<longrightarrow> plain_window (t_window t)"
  by (simp_all add: sample_wanted_def sample_shell_def sample_run_terminal_def plain_window_def starts_with_def u_def)

lemma sample_run_managed:
  "sample_run_terminal \<in> set (terminals sample_store)" "t_workspace sample_run_terminal = u ''w1''"
  "managed sample_run_terminal" "t_activity sample_run_terminal = Some 3" "t_role sample_run_terminal = File_Run_Role"
  by (simp_all add: sample_run_terminal_def managed_def)

theorem managed_identity_witness:
  "\<exists>ts s'. reconcile_terminals 700 fresh_id (u ''w1'') sample_live sample_store = Inr (ts, s')
    \<and> (\<exists>t' \<in> set ts. t_id t' = u ''t2'' \<and> t_window t' = u ''@7'' \<and> t_role t' = File_Run_Role)"
  using managed_terminal_keeps_identity [OF sample_store_ok _ sample_live_parsed sample_plain fresh_id_inj
      fresh_id_sample sample_run_managed(1-3), of "sample_wanted ! 1" 700]
  by (simp add: sample_run_managed) (simp add: sample_wanted_def)

section \<open>Rows are the live windows\<close>

text \<open>C3: reconciling a Workspace with the windows tmux reports always succeeds once the report passes
  its checks: no UNIQUE constraint can fail in between. The rows are then exactly the live windows
  with their roles, one row each; the terminals of other Workspaces are untouched.\<close>

theorem reconcile_mirrors_live_windows:
  assumes "store_ok s" and "w \<in> workspace_ids s"
    and "parse_windows [] [] raws = Inr ds"
    and "\<forall>x \<in> set ds. plain_window (x_window x)"
    and "\<forall>t \<in> set (terminals s). t_workspace t = w \<longrightarrow> plain_window (t_window t)"
    and "inj ids" and "\<forall>n. ids n \<notin> terminal_ids s"
  shows "\<exists>ts s'. reconcile_terminals now ids w raws s = Inr (ts, s') \<and> store_ok s'
    \<and> (\<lambda>t. (t_window t, t_role t)) ` set ts = (\<lambda>x. (x_window x, x_role x)) ` set ds
    \<and> distinct (map t_window ts) \<and> others w s' = others w s"
proof -
  from reconcile_writes [OF assms, of now] obtain s' where
    s': "reconcile_terminals now ids w raws s = Inr (terminals_of w s', s')" "store_ok s'"
      "others w s' = others w s"
    and labels: "labels w s' = placed ` set (assignments ids (match_windows (terminals_of w s) ds) ds)"
    by blast
  have "(\<lambda>t. (t_window t, t_role t)) ` set (terminals_of w s') = snd ` labels w s'"
    by (auto simp: labels_def set_terminals_of image_iff)
  also have "\<dots> = (\<lambda>x. (x_window x, x_role x)) ` fst ` set (assignments ids (match_windows (terminals_of w s) ds) ds)"
    unfolding labels by (simp add: image_image placed_def)
  also have "\<dots> = (\<lambda>x. (x_window x, x_role x)) ` set ds"
    by (metis list.set_map map_fst_assignments)
  finally have rows: "(\<lambda>t. (t_window t, t_role t)) ` set (terminals_of w s')
      = (\<lambda>x. (x_window x, x_role x)) ` set ds" .
  have "distinct (map (\<lambda>t. (t_workspace t, t_window t)) (terminals s'))"
    using store_ok_table(4) [OF s'(2)] by (simp add: terminals_ok_def)
  then have "distinct (map t_window (terminals_of w s'))"
    by (auto simp: distinct_map inj_on_def terminals_of_def)
  with s' rows show ?thesis by blast
qed

theorem reconcile_witness:
  "\<exists>ts s'. reconcile_terminals 700 fresh_id (u ''w1'') sample_live sample_store = Inr (ts, s')
    \<and> (\<lambda>t. (t_window t, t_role t)) ` set ts = {(u ''@2'', Shell_Role), (u ''@7'', File_Run_Role)}"
  using reconcile_mirrors_live_windows [OF sample_store_ok _ sample_live_parsed sample_plain fresh_id_inj
      fresh_id_sample, of 700]
  by (auto simp: sample_wanted_def)

section \<open>A shell row may leave its live window\<close>

text \<open>
  The comment of the shell pass promises that shell rows follow their exact live window. The pass is
  greedy: a new window that is listed first takes the stored row of its name, even when that row's
  own window is still live further down the list, which then gets the row of a closed window.
\<close>

definition moved_rows :: "terminal_row list" where
  "moved_rows = [sample_shell\<lparr>t_name := u ''logs''\<rparr>,
     sample_shell\<lparr>t_id := u ''t3'', t_window := u ''@3''\<rparr>]"

definition moved_windows :: "wanted list" where
  "moved_windows = [\<lparr>x_window = u ''@4'', x_name = u ''shell'', x_role = Shell_Role, x_run = None, x_activity = None\<rparr>,
     \<lparr>x_window = u ''@3'', x_name = u ''shell'', x_role = Shell_Role, x_run = None, x_activity = None\<rparr>]"

lemma live_shell_row_moves:
  "map_option t_id (snd (match_windows moved_rows moved_windows) (u ''@3'')) = Some (u ''t1'')
   \<and> map_option t_id (snd (match_windows moved_rows moved_windows) (u ''@4'')) = Some (u ''t3'')"
  by (simp add: match_windows_def moved_rows_def moved_windows_def match_managed_def match_shell_def
      shell_candidate_def row_by_window_def free_shell_def claim_row_def or_else_def sample_shell_def Let_def)

section \<open>Activity\<close>

definition activity_le :: "int option \<Rightarrow> int option \<Rightarrow> bool" where
  "activity_le a b \<longleftrightarrow> (case a of None \<Rightarrow> True | Some m \<Rightarrow> (case b of None \<Rightarrow> False | Some n \<Rightarrow> m \<le> n))"

lemma activity_le_refl [simp]: "activity_le a a"
  by (simp add: activity_le_def split: option.split)

lemma activity_le_trans: "activity_le a b \<Longrightarrow> activity_le b c \<Longrightarrow> activity_le a c"
  by (auto simp: activity_le_def split: option.splits)

lemma activity_le_merge: "activity_le a b \<Longrightarrow> activity_le a (merge_activity n b)"
  by (auto simp: activity_le_def merge_activity_def split: option.splits)

definition activity_grows :: "store \<Rightarrow> store \<Rightarrow> bool" where
  "activity_grows s s' \<longleftrightarrow> (\<forall>t \<in> set (terminals s). \<forall>t' \<in> set (terminals s').
     t_id t = t_id t' \<longrightarrow> activity_le (t_activity t) (t_activity t'))"

lemma activity_grows_refl: "store_ok s \<Longrightarrow> activity_grows s s"
  unfolding activity_grows_def using terminal_table.lookup_unique by fastforce

lemma update_terminal_grows:
  assumes "update_terminal i f c = Inr c'" and "activity_grows s c"
    and "\<And>t. t_id (f t) = t_id t \<and> (\<forall>a. activity_le a (t_activity t) \<longrightarrow> activity_le a (t_activity (f t)))"
  shows "activity_grows s c'"
proof -
  have c': "terminals c' = update_where (\<lambda>t. t_id t = i) f (terminals c)"
    using assms(1) by (auto simp: update_terminal_def Let_def split: if_splits)
  show ?thesis
    unfolding activity_grows_def c' ball_update_where
    using assms(2,3) unfolding activity_grows_def by simp
qed

lemma park_terminal_grows: "park_terminal r c = Inr c' \<Longrightarrow> activity_grows s c \<Longrightarrow> activity_grows s c'"
  unfolding park_terminal_def by (erule update_terminal_grows) simp_all

lemma reconcile_grows:
  assumes ok: "store_ok s" and fresh: "\<forall>n. ids n \<notin> terminal_ids s"
    and step: "reconcile_terminals now ids w raws s = Inr (ts, s')"
  shows "activity_grows s s'"
proof -
  from step obtain ds s2 where
    "each park_terminal (matched_rows (assignments ids (match_windows (terminals_of w s) ds) ds))
        (delete_terminals (\<lambda>t. t_workspace t = w
           \<and> t_id t \<notin> set (fst (match_windows (terminals_of w s) ds))) s) = Inr s2"
    and "each (place_window now w) (assignments ids (match_windows (terminals_of w s) ds) ds) s2 = Inr s'"
    by (auto simp: reconcile_terminals_def rbind_Inr_iff Let_def)
  then obtain a where
    park: "each park_terminal (matched_rows (assignments ids a ds))
        (delete_terminals (\<lambda>t. t_workspace t = w \<and> t_id t \<notin> set (fst a)) s) = Inr s2"
    and place: "each (place_window now w) (assignments ids a ds) s2 = Inr s'" by blast
  have "activity_grows s (delete_terminals p s)" for p
    using activity_grows_refl [OF ok] by (auto simp: activity_grows_def delete_terminals_def Let_def)
  from each_invariant [where P = "activity_grows s", OF park this park_terminal_grows]
  have "activity_grows s s2" .
  then show ?thesis
  proof (rule each_invariant [where P = "activity_grows s", OF place])
    fix x c c' assume x: "x \<in> set (assignments ids a ds)" and one: "place_window now w x c = Inr c'"
      and c: "activity_grows s c"
    obtain y row i where xy: "x = (y, row, i)" by (cases x) auto
    show "activity_grows s c'"
    proof (cases row)
      case None
      from in_assignments x xy obtain n where "i = ids n" by blast
      with fresh have "i \<notin> terminal_ids s" by simp
      with one None xy c show ?thesis
        by (auto simp: place_window_def insert_terminal_def activity_grows_def split: if_splits)
    next
      case (Some r)
      with one xy c show ?thesis
        by (auto simp: place_window_def activity_le_merge elim!: update_terminal_grows)
    qed
  qed
qed

lemma bump_activity_le: "activity_le a (t_activity t) \<Longrightarrow> activity_le a (t_activity (bump_activity n t))"
  by (auto simp: activity_le_def bump_activity_def split: option.splits)

lemma observe_grows:
  assumes ok: "store_ok s" and step: "observe_terminal_activity_batch b s = Inr (r, s')"
  shows "activity_grows s s'"
proof -
  from step obtain n where "(if n = [] then Inr ([], s)
      else let s' = s\<lparr>terminals := update_where (observed_shell n) (bump_activity n) (terminals s)\<rparr>
        in Inr (map (\<lambda>(w, _). (w, sort_key t_created
                  (filter (\<lambda>t. t_workspace t = w \<and> observed_shell n t) (terminals s')))) n, s'))
      = (Inr (r, s') :: (_ \<times> store) result)"
    unfolding observe_terminal_activity_batch_def rbind_Inr_iff by blast
  then have "s' = s \<or> terminals s' = update_where (observed_shell n) (bump_activity n) (terminals s)"
    by (cases "n = []") (auto simp: Let_def)
  then show ?thesis
  proof
    assume s': "terminals s' = update_where (observed_shell n) (bump_activity n) (terminals s)"
    have "t_id (bump_activity n t) = t_id t" for t by (simp add: bump_activity_def)
    then show ?thesis
      using activity_grows_refl [OF ok] bump_activity_le unfolding activity_grows_def s' ball_update_where by simp
  qed (simp add: activity_grows_refl [OF ok])
qed

text \<open>The cached activity counter of a terminal never decreases, neither when the windows are
  reconciled nor when a batch of observations is recorded, whatever order tmux reports arrive in.\<close>

theorem activity_never_decreases:
  assumes "store_ok s" and "\<forall>n. ids n \<notin> terminal_ids s"
    and "reconcile_terminals now ids w raws s = Inr (ts, s1)"
    and "observe_terminal_activity_batch batch s1 = Inr (r, s2)"
    and "t \<in> set (terminals s)" "t_activity t = Some m"
    and "t2 \<in> set (terminals s2)" "t_id t2 = t_id t" "t1 \<in> set (terminals s1)" "t_id t1 = t_id t"
  shows "\<exists>n k. t_activity t1 = Some n \<and> t_activity t2 = Some k \<and> m \<le> n \<and> n \<le> k"
proof -
  have ok1: "store_ok s1" using assms(3,1) by (rule reconcile_terminals_ok)
  have "activity_le (Some m) (t_activity t1)"
    using reconcile_grows [OF assms(1-3)] assms(5,6,9,10) unfolding activity_grows_def by metis
  moreover have "activity_le (t_activity t1) (t_activity t2)"
    using observe_grows [OF ok1 assms(4)] assms(7-10) unfolding activity_grows_def by metis
  ultimately show ?thesis by (auto simp: activity_le_def split: option.splits)
qed

theorem activity_witness:
  "\<exists>ts s1 r s2. reconcile_terminals 700 fresh_id (u ''w1'') sample_live sample_store = Inr (ts, s1)
    \<and> observe_terminal_activity_batch [(u ''w1'', [])] s1 = Inr (r, s2)
    \<and> (\<exists>t \<in> set (terminals s2). \<exists>k \<ge> 3. t_id t = u ''t2'' \<and> t_activity t = Some k)"
proof -
  let ?x = "sample_wanted ! 1"
  have x: "?x \<in> set sample_wanted" "x_role ?x = t_role sample_run_terminal"
    by (simp_all add: sample_wanted_def sample_run_managed)
  from managed_row_kept [OF sample_store_ok _ sample_live_parsed sample_plain fresh_id_inj
      fresh_id_sample sample_run_managed(1-3) x, of 700] obtain ts s1 t' where
    s1: "reconcile_terminals 700 fresh_id (u ''w1'') sample_live sample_store = Inr (ts, s1)"
    and t': "t' \<in> set ts" "t_id t' = u ''t2''" by (auto simp: sample_run_managed)
  have "t' \<in> set (terminals s1)"
    using s1 t' by (auto simp: reconcile_terminals_def rbind_Inr_iff Let_def set_terminals_of)
  moreover have obs: "observe_terminal_activity_batch [(u ''w1'', [])] s1 = Inr ([], s1)"
    by (simp add: observe_terminal_activity_batch_def normalize_batch_def)
  ultimately have "\<exists>n k. t_activity t' = Some n \<and> t_activity t' = Some k \<and> 3 \<le> n \<and> n \<le> k"
    by (intro activity_never_decreases [OF sample_store_ok fresh_id_sample s1 obs sample_run_managed(1)])
      (simp_all add: sample_run_managed t')
  with s1 obs t' \<open>t' \<in> set (terminals s1)\<close> show ?thesis by blast
qed

text \<open>Acknowledging activity marks exactly what the client saw: the acknowledged revision only
  grows, never passes the terminal's counter, covers the observed revision, and the terminal stays
  unread only for newer activity.\<close>

theorem acknowledge_is_bounded:
  assumes step: "acknowledge_terminal_activity now i (A_Int n) s = Inr (r, s')"
    and bounded: "\<forall>a \<in> set (activity_reads s). \<forall>t \<in> set (terminals s). t_id t = a_terminal a \<longrightarrow>
        activity_le (Some (a_acknowledged a)) (t_activity t)"
  shows "0 \<le> n \<and> n \<le> i_acknowledged r \<and> i_acknowledged r \<le> i_activity r
    \<and> (i_unread r \<longleftrightarrow> i_acknowledged r < i_activity r)
    \<and> (\<forall>a. find (\<lambda>a. a_terminal a = i) (activity_reads s) = Some a \<longrightarrow>
         i_acknowledged r = max (a_acknowledged a) n)
    \<and> terminals s' = terminals s"
proof (rule acknowledge_Inr [OF step])
  fix t v current
  assume t: "find (\<lambda>t. t_id t = i) (terminals s) = Some t" and act: "t_activity t = Some current"
    and v: "terminal_activity_revision (A_Int n) False = Inr v" and le: "the v \<le> current"
    and s': "s' = record_read now i (the v) s" and r: "i_activity r = current"
    and ack: "i_acknowledged r = (case find (\<lambda>a. a_terminal a = i) (activity_reads s') of
       None \<Rightarrow> 0 | Some a \<Rightarrow> a_acknowledged a)" and unread: "i_unread r = (i_acknowledged r < current)"
  from v have n: "the v = n" "0 \<le> n" by (auto simp: terminal_activity_revision_def split: if_splits)
  let ?old = "find (\<lambda>a. a_terminal a = i) (activity_reads s)"
  have new: "i_acknowledged r = (case ?old of None \<Rightarrow> n | Some a \<Rightarrow> max (a_acknowledged a) n)"
  proof (cases ?old)
    case None
    then have "find (\<lambda>a. a_terminal a = i) (activity_reads s @ [b]) = Some b" if "a_terminal b = i" for b
      using that by (intro find_append_new) simp_all
    moreover have "i \<notin> set (map a_terminal (activity_reads s))" using None by (auto simp: find_None_iff)
    ultimately show ?thesis using ack None n(1) by (simp add: s' record_read_def)
  next
    case (Some a)
    then have "i \<in> set (map a_terminal (activity_reads s))" using find_SomeD [OF Some] by auto
    with Some ack n(1) find_SomeD [OF Some] show ?thesis
      by (simp add: s' record_read_def find_key_update_where [of a_terminal])
  qed
  have "a_acknowledged a \<le> current" if "?old = Some a" for a
    using bounded find_SomeD [OF that] find_SomeD [OF t] act by (fastforce simp: activity_le_def)
  then have "i_acknowledged r \<le> current" using new le n(1) by (auto split: option.splits)
  moreover have "n \<le> i_acknowledged r" using new by (auto split: option.splits)
  moreover have "terminals s' = terminals s" by (simp add: s' record_read_def)
  ultimately show ?thesis using n(2) r unread new by auto
qed

theorem acknowledge_witness:
  "\<exists>r s'. acknowledge_terminal_activity 500 (u ''t1'') (A_Int 4) sample_store = Inr (r, s')
    \<and> 4 \<le> i_acknowledged r \<and> i_unread r"
proof -
  obtain r s' where step: "acknowledge_terminal_activity 500 (u ''t1'') (A_Int 4) sample_store = Inr (r, s')"
    and "i_unread r"
    by (simp add: acknowledge_terminal_activity_def terminal_activity_revision_def sample_shell_def
        record_read_def Let_def)
  moreover from acknowledge_is_bounded [OF step] have "4 \<le> i_acknowledged r" by simp
  ultimately show ?thesis by blast
qed

section \<open>Command history and launches\<close>

lemma recent_commands_set: "set (recent_commands w hs) \<subseteq> {h \<in> set hs. h_workspace h = w}"
  using set_take_subset by (fastforce simp: recent_commands_def sql_limit_def)

text \<open>The history of a Workspace keeps at most 100 commands, the most recent ones: after an
  accepted command no dropped row is newer than a kept one, and the rows of other Workspaces stay.\<close>

theorem command_history_is_bounded:
  assumes ok: "store_ok s" and step: "add_command now i w t c s = Inr s'" and "strip c \<noteq> []"
  shows "length (filter (\<lambda>h. h_workspace h = w) (command_history s')) \<le> 100
    \<and> (\<exists>new. new \<notin> set (command_history s) \<and> h_command new = strip c \<and> h_workspace new = w
        \<and> (\<forall>h \<in> insert new (set (command_history s)) - set (command_history s').
             h_workspace h = w \<and> (\<forall>k \<in> set (command_history s'). h_workspace k = w \<longrightarrow> h_created h \<le> h_created k)))"
proof -
  let ?new = "\<lparr>h_id = i, h_workspace = w, h_terminal = t, h_command = strip c, h_created = now\<rparr>"
  from step assms(3) obtain s1 where ins: "insert_history ?new s = Inr s1" and s': "s' = trim_commands w s1"
    by (auto simp: add_command_def rbind_Inr_iff)
  have ok1: "store_ok s1" using ins ok by (rule insert_history_ok)
  let ?h1 = "command_history s1"
  have h1: "?h1 = command_history s @ [?new]" and fresh: "i \<notin> h_id ` set (command_history s)"
    using ins by (auto simp: insert_history_def split: if_splits)
  let ?mine = "filter (\<lambda>h. h_workspace h = w) ?h1"
  let ?sorted = "sort_key (\<lambda>h. - h_created h) ?mine"
  let ?kept = "take 100 ?sorted"
  have kept: "recent_commands w ?h1 = ?kept" by (simp add: recent_commands_def sql_limit_def)
  have dist: "distinct (map h_id ?h1)"
    using store_ok_table(6) [OF ok1] by (simp add: command_history_ok_def)
  have hs': "command_history s' = filter (\<lambda>h. \<not> (h_workspace h = w \<and> h_id h \<notin> set (map h_id ?kept))) ?h1"
    by (simp add: s' trim_commands_def kept Let_def)
  have inj: "h \<in> set ?kept" if "h \<in> set ?h1" "h_id h \<in> set (map h_id ?kept)" for h
  proof -
    from that(2) obtain k where k: "k \<in> set ?kept" "h_id h = h_id k" by auto
    then have "k \<in> set ?h1" by (auto dest: in_set_takeD)
    with dist that(1) k show ?thesis by (auto simp: distinct_map inj_on_def)
  qed
  have mine': "set (filter (\<lambda>h. h_workspace h = w) (command_history s')) \<subseteq> set ?kept"
    using inj unfolding hs' by auto
  have "distinct (filter (\<lambda>h. h_workspace h = w) (command_history s'))"
    using dist unfolding hs' by (simp add: distinct_map)
  then have "length (filter (\<lambda>h. h_workspace h = w) (command_history s'))
      = card (set (filter (\<lambda>h. h_workspace h = w) (command_history s')))" by (simp only: distinct_card)
  also have "\<dots> \<le> card (set ?kept)" by (rule card_mono [OF _ mine']) simp
  also have "\<dots> \<le> length ?kept" by (rule card_length)
  also have "\<dots> \<le> 100" by simp
  finally have "length (filter (\<lambda>h. h_workspace h = w) (command_history s')) \<le> 100" .
  moreover have "h_workspace h = w \<and> (\<forall>k \<in> set (command_history s'). h_workspace k = w \<longrightarrow> h_created h \<le> h_created k)"
    if h: "h \<in> insert ?new (set (command_history s)) - set (command_history s')" for h
  proof -
    have "h \<in> set ?h1" using h h1 by auto
    with h have w: "h_workspace h = w" and "h \<notin> set ?kept" unfolding hs' by auto
    with \<open>h \<in> set ?h1\<close> have "h \<in> set ?sorted" by simp
    with \<open>h \<notin> set ?kept\<close> have dropped: "h \<in> set (drop 100 ?sorted)"
      by (metis append_take_drop_id set_append Un_iff)
    have "sorted (map (\<lambda>h. - h_created h) (?kept @ drop 100 ?sorted))" by simp
    then have "- h_created k \<le> - h_created h" if "k \<in> set ?kept" for k
      using that dropped unfolding map_append sorted_append by auto
    with mine' w show ?thesis by fastforce
  qed
  moreover have "?new \<notin> set (command_history s)" using fresh by (force simp: image_iff)
  ultimately show ?thesis by (intro conjI exI [of _ ?new]) auto
qed

theorem command_history_witness:
  "\<exists>s'. add_command 500 (u ''h1'') (u ''w1'') (u ''t1'') (u '' ls '') sample_store = Inr s'
    \<and> length (filter (\<lambda>h. h_workspace h = u ''w1'') (command_history s')) \<le> 100"
proof -
  have strip: "strip (u '' ls '') = u ''ls''" by (simp add: strip_def u_def is_space_def)
  then obtain s' where "add_command 500 (u ''h1'') (u ''w1'') (u ''t1'') (u '' ls '') sample_store = Inr s'"
    by (simp add: add_command_def insert_history_def)
  with command_history_is_bounded [OF sample_store_ok this] strip show ?thesis by auto
qed

text \<open>A launch identity is consumed once: after the first claim the same request is answered as a
  replay without another claim, and the identity is refused for any other slot or command.\<close>

theorem launch_identity_single_use:
  assumes "claim_workspace_command now w l n d s = Inr (Launch_Created, s')"
  shows "claim_workspace_command now' w l n d s' = Inr (Launch_Replayed, s')
    \<and> (n' \<noteq> n \<or> d' \<noteq> d \<longrightarrow> (\<exists>e. claim_workspace_command now' w l n' d' s' = Inl e))
    \<and> length (command_claims s') = Suc (length (command_claims s))"
proof -
  let ?row = "\<lparr>k_workspace = w, k_launch = l, k_slot = n, k_digest = d, k_created = now\<rparr>"
  from assms have l: "l \<noteq> []" and old: "find (\<lambda>k. k_workspace k = w \<and> k_launch k = l) (command_claims s) = None"
    and s': "command_claims s' = command_claims s @ [?row]"
    by (auto simp: claim_workspace_command_def rbind_Inr_iff insert_command_claim_def split: if_splits option.splits)
  have "find (\<lambda>k. k_workspace k = w \<and> k_launch k = l) (command_claims s') = Some ?row"
    unfolding s' by (rule find_append_new [OF old]) simp
  then show ?thesis using l s' by (simp add: claim_workspace_command_def)
qed

theorem launch_witness:
  "\<exists>s'. claim_workspace_command 500 (u ''w1'') (u ''L'') 1 (u ''d'') sample_store = Inr (Launch_Created, s')
    \<and> claim_workspace_command 501 (u ''w1'') (u ''L'') 1 (u ''d'') s' = Inr (Launch_Replayed, s')
    \<and> (\<exists>e. claim_workspace_command 501 (u ''w1'') (u ''L'') 2 (u ''d'') s' = Inl e)"
proof -
  obtain s' where "claim_workspace_command 500 (u ''w1'') (u ''L'') 1 (u ''d'') sample_store
      = Inr (Launch_Created, s')"
    by (simp add: claim_workspace_command_def insert_command_claim_def)
  with launch_identity_single_use [OF this, of 501 2 "u ''d''"] show ?thesis by auto
qed

end
