(* ===== verification/Store_Workspaces.thy ===== *)
theory Store_Workspaces
  imports Text_Rules Samples
begin

text \<open>
  Roots and Workspaces of \<^verbatim>\<open>StateStore\<close> (\<^verbatim>\<open>termroom/db.py\<close>).

  An operation is a function of its arguments, the time stamp \<open>now\<close> of its \<open>utc_now()\<close>, the
  identifiers its \<open>uuid.uuid4().hex\<close> calls return, and the store; one that writes returns the new
  store. A row a query joins with its root is the pair of the row and \<open>root_path\<close>. Rows that an
  ORDER BY leaves tied keep their table order.
\<close>

section \<open>Roots\<close>

definition remote_path :: "ustr \<Rightarrow> bool" where
  "remote_path p \<longleftrightarrow> starts_with (u ''ssh://'') p \<or> starts_with (u ''node://'') p"

text \<open>\<^verbatim>\<open>LIKE\<close> folds ASCII letters.\<close>

definition like_remote_path :: "ustr \<Rightarrow> bool" where
  "like_remote_path p \<longleftrightarrow> remote_path (nocase p)"

definition ensure_root_value :: "stamp \<Rightarrow> ustr \<Rightarrow> ustr \<Rightarrow> store \<Rightarrow> (root_row \<times> store) result" where
  "ensure_root_value now new_id normalized s =
    (case find (\<lambda>r. r_path r = normalized) (roots s) of
       Some r \<Rightarrow> Inr (r, s)
     | None \<Rightarrow>
        let s' = (case insert_root \<lparr>r_id = new_id, r_path = normalized, r_created = now\<rparr> s of
                    Inl _ \<Rightarrow> s | Inr s' \<Rightarrow> s')
        in (case find (\<lambda>r. r_path r = normalized) (roots s') of
              None \<Rightarrow> Inl (RuntimeError ''Could not register Workspace root'')
            | Some r \<Rightarrow> Inr (r, s')))"

definition get_root :: "ustr \<Rightarrow> store \<Rightarrow> root_row option" where
  "get_root root_id s = find (\<lambda>r. r_id r = root_id) (roots s)"

definition list_local_roots :: "store \<Rightarrow> root_row list" where
  "list_local_roots s =
    sort_key (\<lambda>r. (r_created r, nocase (r_path r))) (filter (\<lambda>r. \<not> like_remote_path (r_path r)) (roots s))"

definition remove_local_root :: "ustr \<Rightarrow> store \<Rightarrow> store result" where
  "remove_local_root root_id s =
    (case find (\<lambda>r. r_id r = root_id) (roots s) of
       None \<Rightarrow> Inl (KeyError ''Unknown local folder location'')
     | Some r \<Rightarrow>
        if remote_path (r_path r) then Inl (KeyError ''Unknown local folder location'')
        else if rowcount (\<lambda>w. w_root w = root_id) (workspaces s) \<noteq> 0
        then Inl (RuntimeError ''Unregister this location's Workspaces first'')
        else Inr (delete_roots (\<lambda>r. r_id r = root_id) s))"

section \<open>Finding Workspaces\<close>

definition linked :: "store \<Rightarrow> workspace_row \<Rightarrow> bool" where
  "linked s w \<longleftrightarrow> (\<exists>m \<in> set (remote_runs s). m_workspace m = Some (w_id w))"

definition count_or_absent :: "('r \<Rightarrow> bool) \<Rightarrow> 'r list \<Rightarrow> nat option" where
  "count_or_absent p rs = (if rowcount p rs = 0 then None else Some (rowcount p rs))"

definition workspace_location_counts :: "store \<Rightarrow> (ustr \<Rightarrow> nat option) \<times> (ustr \<Rightarrow> nat option)" where
  "workspace_location_counts s =
    (\<lambda>root_id. count_or_absent
       (\<lambda>w. w_root w = root_id \<and> w_backend w = Local_Backend \<and> w_kind w = Workspace_Kind
          \<and> (\<exists>r \<in> set (roots s). r_id r = root_id \<and> \<not> like_remote_path (r_path r))) (workspaces s),
     \<lambda>computer_id. count_or_absent
       (\<lambda>w. w_computer w = Some computer_id \<and> (\<exists>c \<in> set (computers s). c_id c = computer_id)
          \<and> w_kind w = Workspace_Kind \<and> \<not> linked s w) (workspaces s))"

definition find_workspace :: "ustr \<Rightarrow> ustr \<Rightarrow> store \<Rightarrow> workspace_row option" where
  "find_workspace root_id relative_path s =
    find (\<lambda>w. w_root w = root_id \<and> w_relative w = relative_path) (workspaces s)"

text \<open>The join with \<open>roots\<close>: a Workspace whose root is missing is not in the result.\<close>

definition with_root :: "store \<Rightarrow> workspace_row list \<Rightarrow> (workspace_row \<times> ustr) list" where
  "with_root s ws =
    concat (map (\<lambda>w. map (\<lambda>r. (w, r_path r)) (filter (\<lambda>r. r_id r = w_root w) (roots s))) ws)"

definition get_workspace :: "ustr \<Rightarrow> store \<Rightarrow> (workspace_row \<times> ustr) option" where
  "get_workspace workspace_id s =
    (case with_root s (filter (\<lambda>w. w_id w = workspace_id) (workspaces s)) of
       [] \<Rightarrow> None | x # _ \<Rightarrow> Some x)"

definition find_remote_workspace :: "ustr \<Rightarrow> ustr \<Rightarrow> ustr \<Rightarrow> store \<Rightarrow> workspace_row option result" where
  "find_remote_workspace computer_id canonical_path kind s =
    (case workspace_kind_of kind of
       None \<Rightarrow> Inl (ValueError ''Unsupported Workspace kind'')
     | Some k \<Rightarrow> Inr (find (\<lambda>w. w_backend w = Remote_Backend \<and> w_computer w = Some computer_id
          \<and> w_canonical w = Some canonical_path \<and> w_kind w = k) (workspaces s)))"

definition find_server_terminal_workspace :: "ustr \<Rightarrow> store \<Rightarrow> workspace_row option" where
  "find_server_terminal_workspace computer_id s =
    find (\<lambda>w. w_backend w = Remote_Backend \<and> w_computer w = Some computer_id
       \<and> w_kind w = Server_Terminal_Kind) (workspaces s)"

definition recently_opened :: "workspace_row list \<Rightarrow> workspace_row list" where
  "recently_opened = sort_key (\<lambda>w. - w_opened w)"

definition list_recent_workspaces :: "int option \<Rightarrow> store \<Rightarrow> (workspace_row \<times> ustr) list" where
  "list_recent_workspaces limit s =
    (let rows = with_root s (recently_opened
           (filter (\<lambda>w. w_kind w = Workspace_Kind \<and> \<not> linked s w) (workspaces s)))
     in case limit of None \<Rightarrow> rows | Some n \<Rightarrow> sql_limit n rows)"

definition list_workspaces_for_computer :: "ustr \<Rightarrow> store \<Rightarrow> workspace_row list" where
  "list_workspaces_for_computer computer_id s =
    recently_opened (filter (\<lambda>w. w_computer w = Some computer_id \<and> w_kind w = Workspace_Kind
      \<and> \<not> linked s w) (workspaces s))"

definition list_registered_workspaces_for_computer :: "ustr \<Rightarrow> store \<Rightarrow> workspace_row list" where
  "list_registered_workspaces_for_computer computer_id s =
    recently_opened (filter (\<lambda>w. w_computer w = Some computer_id) (workspaces s))"

definition list_workspaces_for_root :: "ustr \<Rightarrow> store \<Rightarrow> (workspace_row \<times> ustr) list" where
  "list_workspaces_for_root root_id s =
    with_root s (recently_opened (filter (\<lambda>w. w_root w = root_id \<and> w_backend w = Local_Backend
      \<and> w_kind w = Workspace_Kind) (workspaces s)))"

text \<open>A remote Workspace is returned with its computer, and only if that computer is registered.\<close>

definition terminal_activity_workspaces ::
    "ustr list \<Rightarrow> store \<Rightarrow> (workspace_row \<times> computer_row option) list" where
  "terminal_activity_workspaces wanted s =
    (let unique_ids = dict_keys wanted;
         found = filter (\<lambda>w. w_id w \<in> set unique_ids \<and> w_kind w = Workspace_Kind \<and> \<not> linked s w) (workspaces s)
     in concat (map (\<lambda>i.
          case find (\<lambda>w. w_id w = i) found of
            None \<Rightarrow> []
          | Some w \<Rightarrow>
             if w_backend w = Remote_Backend
             then (case w_computer w of
                     None \<Rightarrow> []
                   | Some c \<Rightarrow>
                       if c = [] then []
                       else (case find (\<lambda>row. c_id row = c) (computers s) of
                               None \<Rightarrow> [] | Some row \<Rightarrow> [(w, Some row)]))
             else [(w, None)]) unique_ids))"

section \<open>Creating and changing Workspaces\<close>

text \<open>One attempt of the loop of \<open>create_workspace\<close> per identifier drawn; \<open>Inl None\<close> is the
  \<^verbatim>\<open>continue\<close> after a session-name collision.\<close>

definition attempt_workspace ::
    "(ustr \<Rightarrow> ustr) \<Rightarrow> (nat \<Rightarrow> bool) \<Rightarrow> ustr \<Rightarrow> ustr option \<Rightarrow> (ustr \<Rightarrow> ustr \<Rightarrow> workspace_row) \<Rightarrow> ustr \<Rightarrow> store
      \<Rightarrow> db_error option + (workspace_row \<times> store)" where
  "attempt_workspace fold_case alnum display_name requested row workspace_id s =
    (case (case requested of
             Some t \<Rightarrow> Inr t
           | None \<Rightarrow> workspace_tmux_session_name fold_case alnum display_name workspace_id) of
       Inl e \<Rightarrow> Inl (Some e)
     | Inr session \<Rightarrow>
        (case insert_workspace (row workspace_id session) s of
           Inr s' \<Rightarrow> Inr (row workspace_id session, s')
         | Inl e \<Rightarrow>
             if requested \<noteq> None then Inl (Some e)
             else if \<exists>w \<in> set (workspaces s). w_tmux w = session then Inl None
             else Inl (Some e)))"

fun attempt_workspaces ::
    "(ustr \<Rightarrow> ustr) \<Rightarrow> (nat \<Rightarrow> bool) \<Rightarrow> ustr \<Rightarrow> ustr option \<Rightarrow> (ustr \<Rightarrow> ustr \<Rightarrow> workspace_row) \<Rightarrow> ustr list \<Rightarrow> store
      \<Rightarrow> (workspace_row \<times> store) result" where
  "attempt_workspaces fold_case alnum display_name requested row [] s =
     Inl (RuntimeError ''Could not allocate a unique Workspace tmux session'')"
| "attempt_workspaces fold_case alnum display_name requested row (i # ids) s =
     (case attempt_workspace fold_case alnum display_name requested row i s of
        Inl None \<Rightarrow> attempt_workspaces fold_case alnum display_name requested row ids s
      | Inl (Some e) \<Rightarrow> Inl e
      | Inr r \<Rightarrow> Inr r)"

definition create_workspace ::
    "(ustr \<Rightarrow> ustr) \<Rightarrow> (nat \<Rightarrow> bool) \<Rightarrow> stamp \<Rightarrow> (nat \<Rightarrow> ustr) \<Rightarrow> ustr \<Rightarrow> ustr \<Rightarrow> ustr \<Rightarrow> ustr option
      \<Rightarrow> ustr \<Rightarrow> ustr option \<Rightarrow> ustr option \<Rightarrow> ustr \<Rightarrow> store \<Rightarrow> (workspace_row \<times> store) result" where
  "create_workspace fold_case alnum now new_id root_id relative_path display_name tmux_session
      backend_kind computer_id canonical_path kind s =
    (case backend_kind_of backend_kind of
       None \<Rightarrow> Inl (ValueError ''Unsupported Workspace backend'')
     | Some b \<Rightarrow>
        (case workspace_kind_of kind of
           None \<Rightarrow> Inl (ValueError ''Unsupported Workspace kind'')
         | Some k \<Rightarrow>
             attempt_workspaces fold_case alnum display_name
               (if tmux_session = Some [] then None else tmux_session)
               (\<lambda>i session. \<lparr>w_id = i, w_root = root_id, w_relative = relative_path,
                  w_display = display_name, w_tmux = session, w_opened = now, w_tab = u ''terminal'',
                  w_backend = b, w_computer = computer_id, w_canonical = canonical_path, w_kind = k,
                  w_commands = encode_commands []\<rparr>)
               (map new_id [0..<32]) s))"

text \<open>An UPDATE of one column of \<open>workspaces\<close>; the identifier is a key, so at most one row matches.\<close>

definition set_workspace :: "ustr \<Rightarrow> (workspace_row \<Rightarrow> workspace_row) \<Rightarrow> store \<Rightarrow> store" where
  "set_workspace i f s = s\<lparr>workspaces := update_where (\<lambda>w. w_id w = i) f (workspaces s)\<rparr>"

definition update_workspace_kind :: "ustr \<Rightarrow> ustr \<Rightarrow> store \<Rightarrow> store result" where
  "update_workspace_kind workspace_id kind s =
    (case workspace_kind_of kind of
       None \<Rightarrow> Inl (ValueError ''Unsupported Workspace kind'')
     | Some k \<Rightarrow>
        let s' = set_workspace workspace_id (\<lambda>w. w\<lparr>w_kind := k\<rparr>) s in
        if \<not> unique_where remote_located (\<lambda>w. (w_computer w, w_canonical w, w_kind w)) (workspaces s')
            \<or> \<not> unique_where server_terminal_slot w_computer (workspaces s')
        then Inl IntegrityError
        else if rowcount (\<lambda>w. w_id w = workspace_id) (workspaces s) \<noteq> 1
        then Inl (KeyError ''Unknown Workspace'')
        else Inr s')"

definition touch_workspace :: "stamp \<Rightarrow> ustr \<Rightarrow> ustr option \<Rightarrow> store \<Rightarrow> store" where
  "touch_workspace now workspace_id tab s =
    (case tab of
       None \<Rightarrow> set_workspace workspace_id (\<lambda>w. w\<lparr>w_opened := now\<rparr>) s
     | Some t \<Rightarrow>
         if t = [] then set_workspace workspace_id (\<lambda>w. w\<lparr>w_opened := now\<rparr>) s
         else set_workspace workspace_id (\<lambda>w. w\<lparr>w_opened := now, w_tab := t\<rparr>) s)"

definition update_workspace_display_name :: "ustr \<Rightarrow> ustr \<Rightarrow> store \<Rightarrow> store result" where
  "update_workspace_display_name workspace_id display_name s =
    (if rowcount (\<lambda>w. w_id w = workspace_id) (workspaces s) \<noteq> 1 then Inl (KeyError ''Unknown Workspace'')
     else Inr (set_workspace workspace_id (\<lambda>w. w\<lparr>w_display := display_name\<rparr>) s))"

definition remove_workspace_registration :: "ustr \<Rightarrow> store \<Rightarrow> store result" where
  "remove_workspace_registration workspace_id s =
    (if rowcount (\<lambda>m. m_source_workspace m = Some workspace_id) (remote_runs s) \<noteq> 0
     then Inl (RuntimeError ''Delete this Workspace's Remote Runs first'')
     else if rowcount (\<lambda>w. w_id w = workspace_id) (workspaces s) \<noteq> 1
     then Inl (KeyError ''Unknown Workspace'')
     else Inr (delete_workspaces (\<lambda>w. w_id w = workspace_id) s))"

section \<open>The command list of a Workspace\<close>

definition workspace_commands_from :: "workspace_row \<Rightarrow> ustr list result" where
  "workspace_commands_from w =
    (case (if w_commands w = Malformed [] then encode_commands [] else w_commands w) of
       Json (JList values) \<Rightarrow>
         (case normalize_workspace_commands values of
            Inl _ \<Rightarrow> Inl (RuntimeError ''Stored Workspace commands are invalid'')
          | Inr commands \<Rightarrow>
              if map JStr commands \<noteq> values
              then Inl (RuntimeError ''Stored Workspace commands are invalid'')
              else Inr commands)
     | _ \<Rightarrow> Inl (RuntimeError ''Stored Workspace commands are invalid''))"

definition list_workspace_commands :: "ustr \<Rightarrow> store \<Rightarrow> ustr list result" where
  "list_workspace_commands workspace_id s =
    (case get_workspace workspace_id s of
       None \<Rightarrow> Inl (KeyError ''Unknown Workspace'')
     | Some (w, _) \<Rightarrow> workspace_commands_from w)"

definition check_command_workspace :: "ustr \<Rightarrow> store \<Rightarrow> workspace_row result" where
  "check_command_workspace workspace_id s =
    (case find (\<lambda>w. w_id w = workspace_id) (workspaces s) of
       None \<Rightarrow> Inl (KeyError ''Unknown Workspace'')
     | Some w \<Rightarrow>
        if w_kind w \<noteq> Workspace_Kind
        then Inl (ValueError ''Commands are available only for persistent Workspaces'') else Inr w)"

definition replace_workspace_commands :: "ustr \<Rightarrow> jvalue list \<Rightarrow> store \<Rightarrow> (ustr list \<times> store) result" where
  "replace_workspace_commands workspace_id vs s =
    rbind (normalize_workspace_commands vs) (\<lambda>commands.
    rbind (check_command_workspace workspace_id s) (\<lambda>_.
      Inr (commands, set_workspace workspace_id (\<lambda>w. w\<lparr>w_commands := encode_commands commands\<rparr>) s)))"

definition replace_workspace_commands_if_current ::
    "ustr \<Rightarrow> jvalue list \<Rightarrow> jvalue list \<Rightarrow> store \<Rightarrow> (ustr list option \<times> store) result" where
  "replace_workspace_commands_if_current workspace_id expected_values vs s =
    rbind (normalize_workspace_commands expected_values) (\<lambda>expected.
    rbind (normalize_workspace_commands vs) (\<lambda>commands.
    rbind (check_command_workspace workspace_id s) (\<lambda>_.
      let current = (\<lambda>w. w_id w = workspace_id \<and> w_commands w = encode_commands expected) in
      if rowcount current (workspaces s) \<noteq> 1 then Inr (None, s)
      else Inr (Some commands,
        s\<lparr>workspaces := update_where current (\<lambda>w. w\<lparr>w_commands := encode_commands commands\<rparr>) (workspaces s)\<rparr>))))"

section \<open>The operations keep the constraints\<close>

lemma set_workspace_ok:
  assumes "store_ok s"
    and "\<And>w. w_id w = i \<Longrightarrow> w_id (f w) = i \<and> w_root (f w) = w_root w \<and> w_relative (f w) = w_relative w
      \<and> w_tmux (f w) = w_tmux w \<and> w_backend (f w) = w_backend w \<and> w_computer (f w) = w_computer w
      \<and> w_canonical (f w) = w_canonical w \<and> w_kind (f w) = w_kind w"
  shows "store_ok (set_workspace i f s)"
  unfolding set_workspace_def using assms by (intro update_workspaces_ok) auto

lemma ensure_root_value_ok [inv_intros]:
  "ensure_root_value now i p s = Inr (r, s') \<Longrightarrow> store_ok s \<Longrightarrow> store_ok s'"
  by (auto simp: ensure_root_value_def Let_def split: option.splits sum.splits intro: insert_root_ok)

lemma remove_local_root_ok [inv_intros]:
  "remove_local_root i s = Inr s' \<Longrightarrow> store_ok s \<Longrightarrow> store_ok s'"
  by (auto simp: remove_local_root_def split: option.splits if_splits intro: delete_roots_ok)

lemma attempt_workspaces_ok:
  "attempt_workspaces fc al d rq row ids s = Inr (w, s') \<Longrightarrow>
    \<exists>i session. i \<in> set ids \<and> w = row i session \<and> insert_workspace w s = Inr s'
      \<and> (case rq of Some t \<Rightarrow> session = t
         | None \<Rightarrow> workspace_tmux_session_name fc al d i = Inr session)"
proof (induction ids)
  case (Cons i ids)
  show ?case
  proof (cases "attempt_workspace fc al d rq row i s")
    case (Inl e)
    with Cons show ?thesis by (cases e) fastforce+
  next
    case (Inr r)
    with Cons.prems have "r = (w, s')" by simp
    with Inr have "w = row i session \<and> insert_workspace w s = Inr s'"
      if "(case rq of Some t \<Rightarrow> Inr t | None \<Rightarrow> workspace_tmux_session_name fc al d i) = Inr session" for session
      using that by (auto simp: attempt_workspace_def split: sum.splits if_splits)
    moreover obtain session where
      "(case rq of Some t \<Rightarrow> Inr t | None \<Rightarrow> workspace_tmux_session_name fc al d i) = Inr session"
      using Inr by (auto simp: attempt_workspace_def split: sum.splits)
    ultimately show ?thesis by (intro exI [of _ i] exI [of _ session]) (auto split: option.splits)
  qed
qed simp

lemma create_workspace_inserts:
  assumes "create_workspace fc al now ids root_id rel name rq b c p k s = Inr (w, s')"
  shows "insert_workspace w s = Inr s' \<and> w_root w = root_id \<and> w_relative w = rel \<and> w_display w = name
    \<and> w_commands w = encode_commands [] \<and> w_computer w = c \<and> w_canonical w = p
    \<and> Some (w_backend w) = backend_kind_of b \<and> Some (w_kind w) = workspace_kind_of k
    \<and> (if rq = None \<or> rq = Some [] then workspace_tmux_session_name fc al name (w_id w) = Inr (w_tmux w)
       else rq = Some (w_tmux w))"
proof -
  from assms obtain bk wk where "backend_kind_of b = Some bk" "workspace_kind_of k = Some wk"
    and "attempt_workspaces fc al name (if rq = Some [] then None else rq)
      (\<lambda>i session. \<lparr>w_id = i, w_root = root_id, w_relative = rel,
         w_display = name, w_tmux = session, w_opened = now, w_tab = u ''terminal'',
         w_backend = bk, w_computer = c, w_canonical = p, w_kind = wk,
         w_commands = encode_commands []\<rparr>) (map ids [0..<32]) s = Inr (w, s')"
    unfolding create_workspace_def by (auto split: option.splits simp del: upt_conv_Cons)
  note kinds = this(1,2) and found = attempt_workspaces_ok [OF this(3)]
  from found obtain i session where
    w: "w = \<lparr>w_id = i, w_root = root_id, w_relative = rel,
         w_display = name, w_tmux = session, w_opened = now, w_tab = u ''terminal'',
         w_backend = bk, w_computer = c, w_canonical = p, w_kind = wk,
         w_commands = encode_commands []\<rparr>" and "insert_workspace w s = Inr s'"
    and "case (if rq = Some [] then None else rq) of Some t \<Rightarrow> session = t
         | None \<Rightarrow> workspace_tmux_session_name fc al name i = Inr session" by blast
  with kinds show ?thesis
    by (cases "rq = None \<or> rq = Some []") (auto simp: w)
qed

lemma create_workspace_ok [inv_intros]:
  "create_workspace fc al now ids root_id rel name rq b c p k s = Inr (w, s') \<Longrightarrow> store_ok s \<Longrightarrow> store_ok s'"
  using create_workspace_inserts insert_workspace_ok by blast

lemma update_workspace_kind_ok [inv_intros]:
  assumes "update_workspace_kind i k s = Inr s'" and ok: "store_ok s"
  shows "store_ok s'"
proof -
  from assms(1) obtain wk where s': "s' = set_workspace i (\<lambda>w. w\<lparr>w_kind := wk\<rparr>) s"
    and unique: "unique_where remote_located (\<lambda>w. (w_computer w, w_canonical w, w_kind w)) (workspaces s')"
      "unique_where server_terminal_slot w_computer (workspaces s')"
    by (auto simp: update_workspace_kind_def Let_def split: option.splits if_splits)
  let ?ws = "update_where (\<lambda>w. w_id w = i) (\<lambda>w. w\<lparr>w_kind := wk\<rparr>) (workspaces s)"
  have "workspaces_ok (root_ids s) ?ws"
    using store_ok_table(2) [OF ok] unique unfolding s'
    by (simp add: workspaces_ok_def set_workspace_def update_table)
  then show ?thesis
    unfolding s' set_workspace_def by (intro store_ok_tables(1) ok) (simp_all add: keys_update_where)
qed

lemma touch_workspace_ok [inv_intros]: "store_ok s \<Longrightarrow> store_ok (touch_workspace now i tab s)"
  by (auto simp: touch_workspace_def split: option.split intro!: set_workspace_ok)

lemma update_workspace_display_name_ok [inv_intros]:
  "update_workspace_display_name i n s = Inr s' \<Longrightarrow> store_ok s \<Longrightarrow> store_ok s'"
  by (auto simp: update_workspace_display_name_def split: if_splits intro!: set_workspace_ok)

lemma remove_workspace_registration_ok [inv_intros]:
  "remove_workspace_registration i s = Inr s' \<Longrightarrow> store_ok s \<Longrightarrow> store_ok s'"
  by (auto simp: remove_workspace_registration_def split: if_splits intro!: delete_workspaces_ok)

lemma replace_workspace_commands_ok [inv_intros]:
  "replace_workspace_commands i vs s = Inr (cs, s') \<Longrightarrow> store_ok s \<Longrightarrow> store_ok s'"
  by (auto simp: replace_workspace_commands_def rbind_Inr_iff intro!: set_workspace_ok)

lemma replace_workspace_commands_if_current_ok [inv_intros]:
  "replace_workspace_commands_if_current i es vs s = Inr (cs, s') \<Longrightarrow> store_ok s \<Longrightarrow> store_ok s'"
  by (auto simp: replace_workspace_commands_if_current_def rbind_Inr_iff Let_def split: if_splits
      intro!: update_workspaces_ok)

section \<open>Laws\<close>

lemma get_workspace_found:
  assumes ok: "store_ok s" and w: "w \<in> set (workspaces s)"
  shows "\<exists>r \<in> set (roots s). r_id r = w_root w \<and> get_workspace (w_id w) s = Some (w, r_path r)"
proof -
  from store_ok_table(2) [OF ok] w obtain r where r: "r \<in> set (roots s)" "w_root w = r_id r"
    unfolding workspaces_ok_def by auto
  have "get_workspace (w_id w) s = Some (w, r_path r)"
    unfolding get_workspace_def workspace_table.filter_key [OF ok w] with_root_def
    by (simp add: r(2) root_table.filter_key [OF ok r(1)])
  with r show ?thesis by auto
qed

lemma find_set_workspace:
  assumes "\<And>w. w_id (f w) = w_id w"
  shows "find (\<lambda>w. w_id w = j) (workspaces (set_workspace i f s))
    = map_option (\<lambda>w. if w_id w = i then f w else w) (find (\<lambda>w. w_id w = j) (workspaces s))"
  unfolding set_workspace_def using find_key_update_where [of w_id f] assms by simp

lemma check_command_workspace_Inr:
  "check_command_workspace i s = Inr w \<longleftrightarrow>
    find (\<lambda>w. w_id w = i) (workspaces s) = Some w \<and> w_kind w = Workspace_Kind"
  by (auto simp: check_command_workspace_def split: option.splits)

lemma workspace_commands_from_encoded:
  assumes "normalize_workspace_commands vs = Inr cs" and "w_commands w = encode_commands cs"
  shows "workspace_commands_from w = Inr cs"
  using normalize_workspace_commands_idem [OF assms(1)] assms(2)
  by (simp add: workspace_commands_from_def encode_commands_def)

text \<open>A stored command list reads back: after a successful replacement the list operation returns
  exactly the normalised commands, each of them one stripped line of at most 4096 bytes and at most
  three of them, and no other Workspace changed.\<close>

theorem workspace_commands_round_trip:
  assumes ok: "store_ok s" and step: "replace_workspace_commands i vs s = Inr (cs, s')"
  shows "list_workspace_commands i s' = Inr cs \<and> length cs \<le> 3 \<and> (\<forall>c \<in> set cs. stored_command c)
    \<and> normalize_workspace_commands (map JStr cs) = Inr cs
    \<and> (\<forall>j. j \<noteq> i \<longrightarrow> find (\<lambda>w. w_id w = j) (workspaces s') = find (\<lambda>w. w_id w = j) (workspaces s))"
proof -
  from step obtain w where vs: "normalize_workspace_commands vs = Inr cs"
    and w: "find (\<lambda>w. w_id w = i) (workspaces s) = Some w"
    and s': "s' = set_workspace i (\<lambda>w. w\<lparr>w_commands := encode_commands cs\<rparr>) s"
    by (auto simp: replace_workspace_commands_def rbind_Inr_iff check_command_workspace_Inr)
  let ?w = "w\<lparr>w_commands := encode_commands cs\<rparr>"
  have ok': "store_ok s'" using step ok by (rule replace_workspace_commands_ok)
  have find: "find (\<lambda>w. w_id w = j) (workspaces s')
      = map_option (\<lambda>w. if w_id w = i then w\<lparr>w_commands := encode_commands cs\<rparr> else w)
          (find (\<lambda>w. w_id w = j) (workspaces s))" for j
    unfolding s' by (rule find_set_workspace) simp
  have "?w \<in> set (workspaces s')" and i: "w_id ?w = i"
    using find [of i] w find_SomeD [OF w] find_SomeD [of "\<lambda>w. w_id w = i" "workspaces s'" ?w] by auto
  then obtain path where "get_workspace i s' = Some (?w, path)"
    using get_workspace_found [OF ok', of ?w] by auto
  then have "list_workspace_commands i s' = Inr cs"
    by (simp add: list_workspace_commands_def workspace_commands_from_encoded [OF vs])
  moreover have "find (\<lambda>w. w_id w = j) (workspaces s') = find (\<lambda>w. w_id w = j) (workspaces s)" if "j \<noteq> i" for j
    unfolding find using that find_SomeD [of "\<lambda>w. w_id w = j" "workspaces s"]
    by (cases "find (\<lambda>w. w_id w = j) (workspaces s)") auto
  ultimately show ?thesis
    using normalize_workspace_commands_result [OF vs] normalize_workspace_commands_idem [OF vs] by auto
qed

lemma normalize_sample:
  "normalize_workspace_commands [JStr (u '' make test ''), JStr []] = Inr [u ''make test'']"
  "normalize_workspace_commands [] = Inr []"
  by (simp_all add: normalize_workspace_commands_def normalize_command_def u_def strip_def is_space_def
      is_line_control_def utf8_length_def is_surrogate_def utf8_width_def Let_def)

lemma check_command_sample: "check_command_workspace (u ''w1'') sample_store = Inr sample_workspace"
  by (simp add: check_command_workspace_def sample_defs)

theorem workspace_commands_witness:
  "\<exists>s'. replace_workspace_commands (u ''w1'') [JStr (u '' make test ''), JStr []] sample_store
      = Inr ([u ''make test''], s') \<and> list_workspace_commands (u ''w1'') s' = Inr [u ''make test'']"
proof -
  let ?s = "set_workspace (u ''w1'') (\<lambda>w. w\<lparr>w_commands := encode_commands [u ''make test'']\<rparr>) sample_store"
  have "replace_workspace_commands (u ''w1'') [JStr (u '' make test ''), JStr []] sample_store
      = Inr ([u ''make test''], ?s)"
    by (simp add: replace_workspace_commands_def normalize_sample check_command_sample)
  with workspace_commands_round_trip [OF sample_store_ok this] show ?thesis by blast
qed

text \<open>Two editors that read the same command list cannot both win: once a conditional
  replacement succeeded with a list that differs from the expected one, a second one with the same
  expectation changes nothing and reports the conflict.\<close>

theorem concurrent_command_edits:
  assumes "replace_workspace_commands_if_current i es vs s = Inr (Some cs, s1)"
    and "normalize_workspace_commands es \<noteq> Inr cs"
    and "normalize_workspace_commands vs2 = Inr cs2"
  shows "replace_workspace_commands_if_current i es vs2 s1 = Inr (None, s1)"
proof -
  from assms(1) obtain expected w where es: "normalize_workspace_commands es = Inr expected"
    and w: "find (\<lambda>w. w_id w = i) (workspaces s) = Some w" "w_kind w = Workspace_Kind"
    and s1: "s1 = s\<lparr>workspaces := update_where (\<lambda>w. w_id w = i \<and> w_commands w = encode_commands expected)
        (\<lambda>w. w\<lparr>w_commands := encode_commands cs\<rparr>) (workspaces s)\<rparr>"
    by (auto simp: replace_workspace_commands_if_current_def rbind_Inr_iff check_command_workspace_Inr
        Let_def split: if_splits)
  have "\<exists>w'. check_command_workspace i s1 = Inr w'"
    using w unfolding check_command_workspace_Inr s1
    by (simp add: find_key_update_where [of w_id "\<lambda>w. w\<lparr>w_commands := encode_commands cs\<rparr>"])
  moreover have "rowcount (\<lambda>w. w_id w = i \<and> w_commands w = encode_commands expected) (workspaces s1) = 0"
  proof -
    have "cs \<noteq> expected" using assms(2) es by auto
    then show ?thesis unfolding s1 by (simp add: ball_update_where)
  qed
  ultimately show ?thesis
    using es assms(3)
    by (auto simp: replace_workspace_commands_if_current_def Let_def simp del: rowcount_zero_iff)
qed

theorem concurrent_edits_witness:
  "\<exists>s1. replace_workspace_commands_if_current (u ''w1'') [] [JStr (u '' make test ''), JStr []] sample_store
      = Inr (Some [u ''make test''], s1)
    \<and> replace_workspace_commands_if_current (u ''w1'') [] [] s1 = Inr (None, s1)"
proof -
  have "rowcount (\<lambda>w. w_id w = u ''w1'' \<and> w_commands w = encode_commands []) (workspaces sample_store) = 1"
    by (simp add: rowcount_def sample_defs)
  then obtain s1 where "replace_workspace_commands_if_current (u ''w1'') []
      [JStr (u '' make test ''), JStr []] sample_store = Inr (Some [u ''make test''], s1)"
    by (simp add: replace_workspace_commands_if_current_def normalize_sample check_command_sample Let_def)
  with concurrent_command_edits [OF this, of "[]" "[]"] show ?thesis
    by (simp add: normalize_sample)
qed

text \<open>Unregistering a Workspace that no Remote Run has as its source removes its row, its
  terminals, history, command claims and File Runs, unlinks it from Remote Runs that live in it, and
  keeps every other Workspace, terminal and run.\<close>

theorem removed_workspace_leaves_nothing:
  assumes ok: "store_ok s" and step: "remove_workspace_registration i s = Inr s'"
  shows "store_ok s' \<and> workspaces s' = filter (\<lambda>w. w_id w \<noteq> i) (workspaces s)
    \<and> terminals s' = filter (\<lambda>t. t_workspace t \<noteq> i) (terminals s)
    \<and> command_claims s' = filter (\<lambda>k. k_workspace k \<noteq> i) (command_claims s)
    \<and> (\<forall>h \<in> set (command_history s'). h_workspace h \<noteq> i)
    \<and> map f_id (file_runs s') = map f_id (filter (\<lambda>f. f_workspace f \<noteq> i) (file_runs s))
    \<and> remote_runs s' = map (\<lambda>m. if m_workspace m = Some i then m\<lparr>m_workspace := None\<rparr> else m) (remote_runs s)"
proof -
  from step have source: "\<forall>m \<in> set (remote_runs s). m_source_workspace m \<noteq> Some i"
    and one: "rowcount (\<lambda>w. w_id w = i) (workspaces s) = 1"
    and s': "s' = delete_workspaces (\<lambda>w. w_id w = i) s"
    by (auto simp: remove_workspace_registration_def split: if_splits)
  from one have "\<exists>w \<in> set (workspaces s). w_id w = i"
    using rowcount_zero_iff [of "\<lambda>w. w_id w = i" "workspaces s"] by fastforce
  then have gone: "w_id ` set (filter (\<lambda>w. w_id w = i) (workspaces s)) = {i}" by auto
  have "set_null {i} x = (if x = Some i then None else x)" for x
    by (cases x) (auto simp: set_null_def)
  then have runs: "map (\<lambda>m. m\<lparr>m_source_workspace := set_null {i} (m_source_workspace m),
        m_workspace := set_null {i} (m_workspace m)\<rparr>) (remote_runs s)
      = map (\<lambda>m. if m_workspace m = Some i then m\<lparr>m_workspace := None\<rparr> else m) (remote_runs s)"
    using source by (intro map_cong) auto
  have "store_ok s'" unfolding s' by (rule delete_workspaces_ok [OF ok])
  then show ?thesis
    unfolding s' delete_workspaces_def delete_terminals_def Let_def gone
    by (simp add: runs comp_def filter_map)
qed

theorem removed_workspace_witness:
  "\<exists>s'. remove_workspace_registration (u ''w1'') sample_store = Inr s'
    \<and> terminals s' = [] \<and> map w_id (workspaces s') = [u ''w2'']"
proof -
  have "remove_workspace_registration (u ''w1'') sample_store
      = Inr (delete_workspaces (\<lambda>w. w_id w = u ''w1'') sample_store)"
    by (simp add: remove_workspace_registration_def sample_defs rowcount_def)
  from this removed_workspace_leaves_nothing [OF sample_store_ok this] show ?thesis
    by (simp add: sample_defs)
qed

lemma attempt_workspaces_skip:
  "\<forall>i \<in> set pre. attempt_workspace fc al d rq row i s = Inl None \<Longrightarrow>
    attempt_workspaces fc al d rq row (pre @ ids) s = attempt_workspaces fc al d rq row ids s"
  by (induction pre) auto

text \<open>A new local Workspace gets the first of 32 drawn identifiers whose session name is free:
  collisions of the short names are retried, and the name chosen is unique.\<close>

theorem create_workspace_retries_collisions:
  assumes parent: "root_id \<in> root_ids s" and free: "find_workspace root_id rel s = None" and k: "k < 32"
    and taken: "\<And>j. j < k \<Longrightarrow> \<exists>t. workspace_tmux_session_name fc al name (ids j) = Inr t
        \<and> t \<in> set (map w_tmux (workspaces s))"
    and fresh: "ids k \<notin> workspace_ids s"
    and name: "workspace_tmux_session_name fc al name (ids k) = Inr t" "t \<notin> set (map w_tmux (workspaces s))"
  shows "\<exists>w. create_workspace fc al now ids root_id rel name None (u ''local'') None None (u ''workspace'') s
      = Inr (w, s\<lparr>workspaces := workspaces s @ [w]\<rparr>)
    \<and> w_id w = ids k \<and> w_tmux w = t \<and> w_root w = root_id \<and> w_relative w = rel"
proof -
  let ?row = "\<lambda>i session. \<lparr>w_id = i, w_root = root_id, w_relative = rel,
         w_display = name, w_tmux = session, w_opened = now, w_tab = u ''terminal'',
         w_backend = Local_Backend, w_computer = None, w_canonical = None, w_kind = Workspace_Kind,
         w_commands = encode_commands []\<rparr>"
  have "[0..<32] = [0..<k] @ k # [Suc k..<32]" using k
    using upt_add_eq_append [of 0 k "32 - k"] upt_conv_Cons [of k 32] by simp
  then have ids: "map ids [0..<32] = map ids [0..<k] @ ids k # map ids [Suc k..<32]" by simp
  have skip: "\<forall>i \<in> set (map ids [0..<k]). attempt_workspace fc al name None ?row i s = Inl None"
  proof
    fix i assume "i \<in> set (map ids [0..<k])"
    then obtain j where j: "i = ids j" "j < k" by auto
    from taken [OF j(2)] obtain t' where t': "workspace_tmux_session_name fc al name i = Inr t'"
      and w: "t' \<in> set (map w_tmux (workspaces s))" using j by auto
    have "insert_workspace (?row i t') s = Inl IntegrityError"
      using w by (auto simp: insert_workspace_def)
    with t' w show "attempt_workspace fc al name None ?row i s = Inl None"
      by (auto simp: attempt_workspace_def)
  qed
  have "insert_workspace (?row (ids k) t) s = Inr (s\<lparr>workspaces := workspaces s @ [?row (ids k) t]\<rparr>)"
    using parent free fresh name(2)
    by (auto simp: insert_workspace_def find_workspace_def find_None_iff remote_located_def server_terminal_slot_def)
  with name(1) have "attempt_workspace fc al name None ?row (ids k) s
      = Inr (?row (ids k) t, s\<lparr>workspaces := workspaces s @ [?row (ids k) t]\<rparr>)"
    by (simp add: attempt_workspace_def)
  then have "attempt_workspaces fc al name None ?row (map ids [0..<32]) s
      = Inr (?row (ids k) t, s\<lparr>workspaces := workspaces s @ [?row (ids k) t]\<rparr>)"
    unfolding ids attempt_workspaces_skip [OF skip] by simp
  moreover have "backend_kind_of (u ''local'') = Some Local_Backend"
      "workspace_kind_of (u ''workspace'') = Some Workspace_Kind"
    by (simp_all add: backend_kind_of_def workspace_kind_of_def)
  ultimately show ?thesis
    by (intro exI [of _ "?row (ids k) t"]) (simp add: create_workspace_def del: upt_rec_numeral)
qed

theorem create_workspace_witness:
  "\<exists>w s'. create_workspace nocase (\<lambda>c. c \<in> {97..122}) 500
      (\<lambda>n. if n = 0 then u ''aaaa1'' else u ''cccc2'') (u ''r1'') (u ''new'') (u ''App'') None
      (u ''local'') None None (u ''workspace'') sample_store = Inr (w, s') \<and> w_tmux w = u ''tr-app-cccc''"
proof -
  let ?al = "\<lambda>c. c \<in> {97..(122::nat)}"
  let ?ids = "\<lambda>n::nat. if n = 0 then u ''aaaa1'' else u ''cccc2''"
  have names: "workspace_tmux_session_name nocase ?al (u ''App'') (u ''aaaa1'') = Inr (u ''tr-app-aaaa'')"
      "workspace_tmux_session_name nocase ?al (u ''App'') (u ''cccc2'') = Inr (u ''tr-app-cccc'')"
    by (simp_all add: workspace_tmux_session_name_def Let_def session_slug_def u_def nocase_def strip_dash_def
        rstrip_dash_def or_else_def dash_def)
  have "find_workspace (u ''r1'') (u ''new'') sample_store = None"
    by (simp add: find_workspace_def sample_defs)
  from create_workspace_retries_collisions [of "u ''r1''" sample_store "u ''new''" 1 nocase ?al "u ''App''" ?ids
      "u ''tr-app-cccc''" 500, OF _ this] names
  show ?thesis by (fastforce simp: sample_defs)
qed

end
