(* ===== verification/Store_Activity.thy ===== *)
theory Store_Activity
  imports Samples
begin

text \<open>
  The Activity feed of \<^verbatim>\<open>StateStore\<close> (\<^verbatim>\<open>termroom/db.py\<close>): the joined view of an event, its read state
  for one browser device or for all, the retention of history and the claims of browser
  notifications. \<open>tick\<close> is \<^verbatim>\<open>time.monotonic()\<close> and \<open>now\<close> the current UTC time.
\<close>

section \<open>The view of an event\<close>

record activity_view =
  y_event :: event_row
  y_read :: "stamp option"
  y_exists :: bool
  y_primary :: ustr
  y_secondary :: ustr
  y_workspace :: "ustr option"
  y_path :: "ustr option"
  y_terminal :: "ustr option"

definition read_by :: "ustr \<Rightarrow> ustr \<Rightarrow> event_read_row \<Rightarrow> bool" where
  "read_by event_id device r \<longleftrightarrow> er_event r = event_id \<and> er_device r = device"

definition event_read_at :: "ustr option \<Rightarrow> store \<Rightarrow> event_row \<Rightarrow> stamp option" where
  "event_read_at device s e =
    (case device of
       None \<Rightarrow> e_read e
     | Some d \<Rightarrow> (case find (read_by (e_id e) d) (event_reads s) of
                     Some r \<Rightarrow> Some (er_read r) | None \<Rightarrow> e_read e))"

definition activity_select :: "ustr option \<Rightarrow> store \<Rightarrow> event_row \<Rightarrow> activity_view" where
  "activity_select device s e =
    (let remote = (if e_subject_type e = Remote_Run_Subject
                   then find (\<lambda>m. m_id m = e_subject e) (remote_runs s) else None);
         computer = Option.bind remote (\<lambda>m. find (\<lambda>c. c_id c = m_target m) (computers s));
         file = (if e_subject_type e = File_Run_Subject
                 then find (\<lambda>f. f_id f = e_subject e) (file_runs s) else None);
         workspace = Option.bind file (\<lambda>f. find (\<lambda>w. w_id w = f_workspace f) (workspaces s));
         terminal = Option.bind file (\<lambda>f. Option.bind (f_terminal f) (\<lambda>t. find (\<lambda>x. t_id x = t) (terminals s)))
     in \<lparr>y_event = e, y_read = event_read_at device s e,
         y_exists = (remote \<noteq> None \<or> (file \<noteq> None \<and> workspace \<noteq> None)),
         y_primary = (case remote of Some m \<Rightarrow> m_label m
                      | None \<Rightarrow> (case file of Some f \<Rightarrow> f_path f | None \<Rightarrow> e_primary e)),
         y_secondary = (case computer of Some c \<Rightarrow> c_name c
                      | None \<Rightarrow> (case workspace of Some w \<Rightarrow> w_display w | None \<Rightarrow> e_secondary e)),
         y_workspace = map_option f_workspace file, y_path = map_option f_path file,
         y_terminal = (case terminal of
             Some t \<Rightarrow> (if t_role t = File_Run_Role \<and> t_run t = map_option f_id file then Some (t_id t) else None)
           | None \<Rightarrow> None)\<rparr>)"

section \<open>Retention\<close>

text \<open>A \<^verbatim>\<open>datetime\<close> argument: with a timezone (the UTC second it denotes) or without one.\<close>

datatype clock = Aware stamp | Naive

definition days :: "int \<Rightarrow> int" where "days n = n * 86400"

record cleanup_count =
  cc_events :: nat
  cc_devices :: nat

text \<open>The deadline is set before the time is checked; on the error the store of the model is the one
  before the call (no caller passes a naive time here).\<close>

definition cleanup_activity_history :: "rat \<Rightarrow> clock \<Rightarrow> bool \<Rightarrow> store \<Rightarrow> (cleanup_count \<times> store) result" where
  "cleanup_activity_history tick now force s =
    (if \<not> force \<and> tick < history_cleanup_at s then Inr (\<lparr>cc_events = 0, cc_devices = 0\<rparr>, s)
     else case now of
       Naive \<Rightarrow> Inl (ValueError ''History cleanup time must include a timezone'')
     | Aware t \<Rightarrow>
        let old_event = (\<lambda>e. e_occurred e < t - days 30);
            old_device = (\<lambda>d. d_seen d < t - days 90);
            s1 = delete_events old_event (s\<lparr>history_cleanup_at := tick + 6 * 60 * 60\<rparr>)
        in Inr (\<lparr>cc_events = rowcount old_event (events s), cc_devices = rowcount old_device (devices s1)\<rparr>,
                delete_devices old_device s1))"

definition prunable :: "stamp \<Rightarrow> store \<Rightarrow> file_run_row \<Rightarrow> bool" where
  "prunable cutoff s f \<longleftrightarrow> terminal_state (f_state f)
     \<and> (case f_ended f of Some t \<Rightarrow> t | None \<Rightarrow> f_created f) < cutoff
     \<and> \<not> (\<exists>t \<in> set (terminals s). t_run t = Some (f_id f))
     \<and> \<not> (\<exists>e \<in> set (events s). e_subject_type e = File_Run_Subject \<and> e_subject e = f_id f)"

definition prune_history :: "rat \<Rightarrow> clock \<Rightarrow> store \<Rightarrow> (cleanup_count \<times> (ustr \<times> ustr) list \<times> store) result" where
  "prune_history tick now s =
    (case now of
       Naive \<Rightarrow> Inl (ValueError ''History cleanup time must include a timezone'')
     | Aware t \<Rightarrow>
        rbind (cleanup_activity_history tick now True s) (\<lambda>(removed, s1).
          let rows = filter (prunable (t - days 30) s1) (file_runs s1);
              gone = map f_id rows
          in Inr (removed, map (\<lambda>f. (f_id f, f_workspace f)) rows,
                  s1\<lparr>file_runs := filter (\<lambda>f. f_id f \<notin> set gone) (file_runs s1)\<rparr>)))"

section \<open>The feed\<close>

definition newest_first :: "event_row list \<Rightarrow> event_row list" where
  "newest_first = sort_key (\<lambda>e. - e_sequence e)"

definition list_activity_events ::
    "rat \<Rightarrow> stamp \<Rightarrow> int \<Rightarrow> ustr option \<Rightarrow> store \<Rightarrow> (activity_view list \<times> store) result" where
  "list_activity_events tick now limit device s =
    rbind (cleanup_activity_history tick (Aware now) False s) (\<lambda>(_, s1).
      Inr (map (activity_select device s1)
             (sql_limit (max 1 (min limit 200)) (newest_first (events s1))), s1))"

definition get_activity_event :: "ustr \<Rightarrow> ustr option \<Rightarrow> store \<Rightarrow> activity_view option" where
  "get_activity_event event_id device s =
    map_option (activity_select device s) (find (\<lambda>e. e_id e = event_id) (events s))"

definition unread :: "ustr option \<Rightarrow> store \<Rightarrow> event_row \<Rightarrow> bool" where
  "unread device s e \<longleftrightarrow> event_read_at device s e = None"

definition count_unread_events :: "rat \<Rightarrow> stamp \<Rightarrow> ustr option \<Rightarrow> store \<Rightarrow> (nat \<times> store) result" where
  "count_unread_events tick now device s =
    rbind (cleanup_activity_history tick (Aware now) False s) (\<lambda>(_, s1).
      Inr (rowcount (unread device s1) (events s1), s1))"

definition mark_event_read :: "stamp \<Rightarrow> ustr \<Rightarrow> ustr option \<Rightarrow> store \<Rightarrow> activity_view option \<times> store" where
  "mark_event_read now event_id device s =
    (let s' = (case device of
                 None \<Rightarrow> s\<lparr>events := update_where (\<lambda>e. e_id e = event_id)
                     (\<lambda>e. e\<lparr>e_read := (case e_read e of None \<Rightarrow> Some now | Some t \<Rightarrow> Some t)\<rparr>) (events s)\<rparr>
               | Some d \<Rightarrow>
                   if (\<exists>e \<in> set (events s). e_id e = event_id)
                      \<and> \<not> (\<exists>r \<in> set (event_reads s). read_by event_id d r)
                   then s\<lparr>event_reads := event_reads s @ [\<lparr>er_event = event_id, er_device = d, er_read = now\<rparr>]\<rparr>
                   else s)
     in (get_activity_event event_id device s', s'))"

definition unread_for_device :: "ustr \<Rightarrow> store \<Rightarrow> event_row \<Rightarrow> bool" where
  "unread_for_device d s e \<longleftrightarrow> e_read e = None \<and> \<not> (\<exists>r \<in> set (event_reads s). read_by (e_id e) d r)"

definition mark_all_events_read :: "stamp \<Rightarrow> ustr option \<Rightarrow> store \<Rightarrow> nat \<times> store" where
  "mark_all_events_read now device s =
    (case device of
       None \<Rightarrow> (rowcount (\<lambda>e. e_read e = None) (events s),
                s\<lparr>events := update_where (\<lambda>e. e_read e = None) (\<lambda>e. e\<lparr>e_read := Some now\<rparr>) (events s)\<rparr>)
     | Some d \<Rightarrow> (rowcount (unread_for_device d s) (events s),
                s\<lparr>event_reads := event_reads s @ map (\<lambda>e. \<lparr>er_event = e_id e, er_device = d, er_read = now\<rparr>)
                    (filter (unread_for_device d s) (events s))\<rparr>))"

section \<open>Browser notifications\<close>

definition notified :: "ustr \<Rightarrow> store \<Rightarrow> ustr \<Rightarrow> bool" where
  "notified device s event_id \<longleftrightarrow> (\<exists>c \<in> set (event_claims s). ec_event c = event_id \<and> ec_device c = device)"

definition notification_candidates :: "device_row \<Rightarrow> store \<Rightarrow> event_row list" where
  "notification_candidates d s =
    sort_key e_sequence (filter (\<lambda>e. e_notify e \<and> e_sequence e > d_start d \<and> \<not> notified (d_id d) s (e_id e)) (events s))"

text \<open>The INSERT ... ON CONFLICT DO NOTHING of the loop; the identifiers whose row was inserted are kept.\<close>

definition claim_notification :: "stamp \<Rightarrow> ustr \<Rightarrow> ustr \<Rightarrow> ustr list \<times> store \<Rightarrow> ustr list \<times> store" where
  "claim_notification now device event_id a =
    (if notified device (snd a) event_id then a
     else (fst a @ [event_id],
           (snd a)\<lparr>event_claims := event_claims (snd a)
              @ [\<lparr>ec_event = event_id, ec_device = device, ec_claimed = now\<rparr>]\<rparr>))"

definition claim_event_notifications ::
    "rat \<Rightarrow> stamp \<Rightarrow> ustr \<Rightarrow> int \<Rightarrow> store \<Rightarrow> (activity_view list \<times> store) result" where
  "claim_event_notifications tick now device limit s =
    rbind (cleanup_activity_history tick (Aware now) False s) (\<lambda>(_, s1).
      case find (\<lambda>d. d_id d = device) (devices s1) of
        None \<Rightarrow>
          rbind (insert_device \<lparr>d_id = device, d_start = Max (insert 0 (set (map e_sequence (events s1)))),
                   d_created = now, d_seen = now\<rparr> s1) (\<lambda>s2. Inr ([], s2))
      | Some d \<Rightarrow>
          let s2 = s1\<lparr>devices := update_where (\<lambda>d. d_id d = device) (\<lambda>d. d\<lparr>d_seen := now\<rparr>) (devices s1)\<rparr>;
              candidates = sql_limit (max 1 (min limit 50)) (notification_candidates d s2);
              (claimed, s3) = fold (claim_notification now device) (map e_id candidates) ([], s2)
          in Inr (map (activity_select None s3)
                    (sort_key e_sequence (filter (\<lambda>e. e_id e \<in> set claimed) (events s3))), s3))"

section \<open>The operations keep the constraints\<close>

lemma history_cleanup_at_ok [simp]: "store_ok (s\<lparr>history_cleanup_at := t\<rparr>) = store_ok s"
  by (simp add: store_ok_def)

lemma cleanup_ok [inv_intros]:
  "cleanup_activity_history tick now force s = Inr (c, s') \<Longrightarrow> store_ok s \<Longrightarrow> store_ok s'"
  by (auto simp: cleanup_activity_history_def Let_def split: if_splits clock.splits
      intro!: delete_devices_ok delete_events_ok)

lemma prune_history_ok [inv_intros]:
  assumes "prune_history tick now s = Inr (c, l, s')" and ok: "store_ok s"
  shows "store_ok s'"
proof -
  from assms(1) obtain s1 p where "cleanup_activity_history tick now True s = Inr (c, s1)"
    and s': "s' = s1\<lparr>file_runs := filter p (file_runs s1)\<rparr>"
    by (auto simp: prune_history_def rbind_Inr_iff Let_def split: clock.splits)
  then have "store_ok s1" using ok cleanup_ok by blast
  then show ?thesis unfolding s'
    by (intro store_ok_tables(6)) (auto intro: rows_filtered dest: store_ok_table(7))
qed

lemma list_activity_events_ok [inv_intros]:
  "list_activity_events tick now l d s = Inr (r, s') \<Longrightarrow> store_ok s \<Longrightarrow> store_ok s'"
  by (auto simp: list_activity_events_def rbind_Inr_iff intro: cleanup_ok)

lemma count_unread_events_ok [inv_intros]:
  "count_unread_events tick now d s = Inr (r, s') \<Longrightarrow> store_ok s \<Longrightarrow> store_ok s'"
  by (auto simp: count_unread_events_def rbind_Inr_iff intro: cleanup_ok)

lemma append_event_reads_ok:
  assumes ok: "store_ok s" and "distinct (map e_id es)" "set es \<subseteq> set (events s)"
    and "\<forall>e \<in> set es. \<not> (\<exists>r \<in> set (event_reads s). read_by (e_id e) d r)"
  shows "store_ok (s\<lparr>event_reads := event_reads s
    @ map (\<lambda>e. \<lparr>er_event = e_id e, er_device = d, er_read = now\<rparr>) es\<rparr>)"
proof (rule store_ok_tables(10) [OF ok])
  have "distinct (map (\<lambda>e. (e_id e, d)) es)" using assms(2) by (auto simp: distinct_map inj_on_def)
  with store_ok_table(11) [OF ok] assms(3,4)
  show "event_reads_ok (event_ids s) (event_reads s
    @ map (\<lambda>e. \<lparr>er_event = e_id e, er_device = d, er_read = now\<rparr>) es)"
    by (auto simp: event_reads_ok_def comp_def read_by_def)
qed

lemma mark_event_read_ok [inv_intros]: "store_ok s \<Longrightarrow> store_ok (snd (mark_event_read now i d s))"
proof (cases d)
  case None
  then show "store_ok s \<Longrightarrow> ?thesis"
    by (simp add: mark_event_read_def Let_def) (rule update_events_ok, simp_all)
next
  case (Some x)
  assume ok: "store_ok s"
  show ?thesis
  proof (cases "(\<exists>e \<in> set (events s). e_id e = i) \<and> \<not> (\<exists>r \<in> set (event_reads s). read_by i x r)")
    case True
    then obtain e where "e \<in> set (events s)" "e_id e = i" by blast
    with append_event_reads_ok [OF ok, of "[e]" x now] True show ?thesis
      by (simp add: mark_event_read_def Some Let_def)
  next
    case False
    with ok show ?thesis by (auto simp: mark_event_read_def Some Let_def)
  qed
qed

lemma mark_all_events_read_ok [inv_intros]: "store_ok s \<Longrightarrow> store_ok (snd (mark_all_events_read now d s))"
proof (cases d)
  case None
  then show "store_ok s \<Longrightarrow> ?thesis"
    by (simp add: mark_all_events_read_def) (rule update_events_ok, simp_all)
next
  case (Some x)
  assume ok: "store_ok s"
  have "distinct (map e_id (filter (unread_for_device x s) (events s)))"
    by (rule distinct_map_filter) (rule distinct_ids(7) [OF ok])
  moreover have "\<forall>e \<in> set (filter (unread_for_device x s) (events s)).
      \<not> (\<exists>r \<in> set (event_reads s). read_by (e_id e) x r)"
    by (simp add: unread_for_device_def)
  ultimately have "store_ok (s\<lparr>event_reads := event_reads s
      @ map (\<lambda>e. \<lparr>er_event = e_id e, er_device = x, er_read = now\<rparr>) (filter (unread_for_device x s) (events s))\<rparr>)"
    using filter_is_subset by (intro append_event_reads_ok [OF ok])
  then show ?thesis by (simp only: mark_all_events_read_def Some option.case snd_conv)
qed

text \<open>What the claiming loop does when every candidate is a distinct event of the store.\<close>

lemma claim_loop:
  assumes "store_ok s" "distinct ids" "set ids \<subseteq> event_ids s" "device \<in> device_ids s"
    and "\<forall>i \<in> set ids. \<not> notified device s i"
  shows "\<exists>s'. fold (claim_notification now device) ids (done0, s) = (done0 @ ids, s') \<and> store_ok s'
    \<and> s' = s\<lparr>event_claims := event_claims s'\<rparr>
    \<and> event_claims s' = event_claims s @ map (\<lambda>i. \<lparr>ec_event = i, ec_device = device, ec_claimed = now\<rparr>) ids"
  using assms
proof (induction ids arbitrary: s done0)
  case Nil
  then show ?case by simp
next
  case (Cons i ids)
  let ?c = "\<lparr>ec_event = i, ec_device = device, ec_claimed = now\<rparr>"
  let ?s = "s\<lparr>event_claims := event_claims s @ [?c]\<rparr>"
  have "event_claims_ok (event_ids s) (device_ids s) (event_claims s @ [?c])"
    using store_ok_table(13) [OF Cons.prems(1)] Cons.prems(3,4,5)
    by (auto simp: event_claims_ok_def notified_def)
  then have ok: "store_ok ?s" by (rule store_ok_tables(12) [OF Cons.prems(1)])
  have step: "claim_notification now device i (done0, s) = (done0 @ [i], ?s)"
    using Cons.prems(5) by (simp add: claim_notification_def)
  have "\<exists>s'. fold (claim_notification now device) ids (done0 @ [i], ?s) = ((done0 @ [i]) @ ids, s') \<and> store_ok s'
    \<and> s' = ?s\<lparr>event_claims := event_claims s'\<rparr>
    \<and> event_claims s' = event_claims ?s @ map (\<lambda>i. \<lparr>ec_event = i, ec_device = device, ec_claimed = now\<rparr>) ids"
    by (rule Cons.IH [OF ok]) (use Cons.prems in \<open>auto simp: notified_def\<close>)
  then show ?case using step by (simp only: fold_simps) simp
qed

lemma candidates_facts:
  assumes "store_ok s"
  shows "distinct (map e_id (sql_limit n (notification_candidates d s)))"
    and "set (sql_limit n (notification_candidates d s)) \<subseteq> {e \<in> set (events s). e_notify e
      \<and> e_sequence e > d_start d \<and> \<not> notified (d_id d) s (e_id e)}"
proof -
  have "distinct (map e_id (events s))" by (rule distinct_ids(7) [OF assms])
  then have "distinct (map e_id (notification_candidates d s))"
    unfolding notification_candidates_def by (auto simp: distinct_map inj_on_def)
  then show "distinct (map e_id (sql_limit n (notification_candidates d s)))"
    by (simp add: sql_limit_def take_map [symmetric])
  show "set (sql_limit n (notification_candidates d s)) \<subseteq> {e \<in> set (events s). e_notify e
      \<and> e_sequence e > d_start d \<and> \<not> notified (d_id d) s (e_id e)}"
    by (auto simp: sql_limit_def notification_candidates_def split: if_splits dest!: in_set_takeD)
qed

lemma claim_event_notifications_cases:
  assumes step: "claim_event_notifications tick now device limit s = Inr (vs, s')" and ok: "store_ok s"
  obtains (registered) c s1 where "cleanup_activity_history tick (Aware now) False s = Inr (c, s1)"
      "vs = []" "store_ok s1" "device \<notin> device_ids s1" "insert_device \<lparr>d_id = device,
        d_start = Max (insert 0 (set (map e_sequence (events s1)))), d_created = now, d_seen = now\<rparr> s1 = Inr s'"
  | (claimed) c s1 d s2 es where "cleanup_activity_history tick (Aware now) False s = Inr (c, s1)" "store_ok s1"
      "find (\<lambda>d. d_id d = device) (devices s1) = Some d"
      "s2 = s1\<lparr>devices := update_where (\<lambda>d. d_id d = device) (\<lambda>d. d\<lparr>d_seen := now\<rparr>) (devices s1)\<rparr>"
      "es = sql_limit (max 1 (min limit 50)) (notification_candidates d s2)"
      "s' = s2\<lparr>event_claims := event_claims s2
         @ map (\<lambda>e. \<lparr>ec_event = e_id e, ec_device = device, ec_claimed = now\<rparr>) es\<rparr>"
      "store_ok s'" "map y_event vs = sort_key e_sequence (filter (\<lambda>e. e_id e \<in> e_id ` set es) (events s1))"
proof -
  from step obtain c s1 where c: "cleanup_activity_history tick (Aware now) False s = Inr (c, s1)"
    by (auto simp: claim_event_notifications_def rbind_Inr_iff)
  have ok1: "store_ok s1" using c ok by (rule cleanup_ok)
  note step = step [unfolded claim_event_notifications_def c rbind_simps prod.case]
  show thesis
  proof (cases "find (\<lambda>d. d_id d = device) (devices s1)")
    case None
    with step show thesis
      by (intro registered [OF c]) (auto simp: rbind_Inr_iff device_table.lookup_None_iff ok1)
  next
    case (Some d)
    let ?s2 = "s1\<lparr>devices := update_where (\<lambda>d. d_id d = device) (\<lambda>d. d\<lparr>d_seen := now\<rparr>) (devices s1)\<rparr>"
    let ?es = "sql_limit (max 1 (min limit 50)) (notification_candidates d ?s2)"
    have d: "d_id d = device" using find_SomeD [OF Some] by simp
    have ok2: "store_ok ?s2" by (rule update_devices_ok [OF ok1]) simp
    have dev: "device \<in> device_ids ?s2"
      using find_SomeD [OF Some] by (auto simp: keys_update_where)
    note facts = candidates_facts [OF ok2, of "max 1 (min limit 50)" d]
    have ids: "set (map e_id ?es) \<subseteq> event_ids ?s2" using facts(2) by auto
    have free: "\<forall>i \<in> set (map e_id ?es). \<not> notified device ?s2 i" using facts(2) d by auto
    from claim_loop [OF ok2 facts(1) ids dev free, of now "[]"] obtain s3 where
      loop: "fold (claim_notification now device) (map e_id ?es) ([], ?s2) = (map e_id ?es, s3)"
      and s3: "store_ok s3" "s3 = ?s2\<lparr>event_claims := event_claims s3\<rparr>" "event_claims s3 = event_claims ?s2
         @ map (\<lambda>i. \<lparr>ec_event = i, ec_device = device, ec_claimed = now\<rparr>) (map e_id ?es)" by auto
    have new: "s3 = ?s2\<lparr>event_claims := event_claims ?s2
         @ map (\<lambda>e. \<lparr>ec_event = e_id e, ec_device = device, ec_claimed = now\<rparr>) ?es\<rparr>"
      using s3(2,3) by (simp add: comp_def)
    have "s' = s3" and vs: "vs = map (activity_select None s3)
        (sort_key e_sequence (filter (\<lambda>e. e_id e \<in> set (map e_id ?es)) (events s3)))"
      using step Some loop by (auto simp: Let_def)
    have "y_event (activity_select x y e) = e" for x y e by (simp add: activity_select_def Let_def)
    moreover have "events s3 = events s1" using arg_cong [OF s3(2), of events] by simp
    ultimately have "map y_event vs = sort_key e_sequence (filter (\<lambda>e. e_id e \<in> e_id ` set ?es) (events s1))"
      unfolding vs by (simp add: comp_def)
    with \<open>s' = s3\<close> new s3(1) show thesis
      by (intro claimed [OF c ok1 Some refl refl]) auto
  qed
qed

lemma claim_event_notifications_ok [inv_intros]:
  assumes "claim_event_notifications tick now device limit s = Inr (vs, s')" and "store_ok s"
  shows "store_ok s'"
  using assms by (cases rule: claim_event_notifications_cases) (auto intro: insert_device_ok)

end
