(* ===== verification/Activity_Properties.thy ===== *)
theory Activity_Properties
  imports Store_Activity
begin

text \<open>
  What the Activity feed promises: read marks belong to one browser device, a notification is shown
  to a device at most once however often its tabs ask, and pruning the history never takes away a
  run that an event of the feed still opens.
\<close>

section \<open>Read marks\<close>

lemma event_read_at_None: "event_read_at None s e = e_read e"
  by (simp add: event_read_at_def)

lemma unread_Some:
  "unread (Some d) s e \<longleftrightarrow> unread_for_device d s e"
  by (auto simp: unread_def unread_for_device_def event_read_at_def find_None_iff split: option.splits
      dest!: find_SomeD)

lemma unread_append_reads:
  "unread_for_device d (s\<lparr>event_reads := event_reads s @ rs\<rparr>) e
    \<longleftrightarrow> unread_for_device d s e \<and> \<not> (\<exists>r \<in> set rs. read_by (e_id e) d r)"
  by (auto simp: unread_for_device_def)

text \<open>Marking everything as read for one browser device empties that device's unread list, reports
  how many events that were, and changes the unread list of no other device nor of a reader without
  a device.\<close>

theorem read_marks_are_per_device:
  assumes step: "mark_all_events_read now (Some d) s = (n, s')"
  shows "n = length (filter (unread (Some d) s) (events s))
    \<and> filter (unread (Some d) s') (events s') = []
    \<and> (\<forall>d'. d' \<noteq> Some d \<longrightarrow> filter (unread d' s') (events s') = filter (unread d' s) (events s))
    \<and> events s' = events s"
proof -
  let ?es = "filter (unread_for_device d s) (events s)"
  let ?rs = "map (\<lambda>e. \<lparr>er_event = e_id e, er_device = d, er_read = now\<rparr>) ?es"
  have n: "n = rowcount (unread_for_device d s) (events s)" and s': "s' = s\<lparr>event_reads := event_reads s @ ?rs\<rparr>"
    using step by (simp_all add: mark_all_events_read_def)
  have other: "unread d' s' e = unread d' s e" if "d' \<noteq> Some d" for d' e
  proof (cases d')
    case None
    then show ?thesis by (simp add: unread_def event_read_at_None)
  next
    case (Some x)
    with that show ?thesis by (auto simp: unread_Some s' unread_append_reads read_by_def)
  qed
  have "\<not> unread (Some d) s' e" if "e \<in> set (events s)" for e
    using that by (auto simp: unread_Some s' unread_append_reads read_by_def)
  with other show ?thesis by (simp add: n s' rowcount_def unread_Some filter_empty_conv cong: filter_cong)
qed

section \<open>Notifications\<close>

text \<open>A call of \<^verbatim>\<open>claim_event_notifications\<close> by some device: the monotonic clock, the time, the device and
  the limit. \<open>shown\<close> are the identifiers one device was given, in the order of the calls.\<close>

type_synonym notification_call = "rat \<times> stamp \<times> ustr \<times> int"

fun shown :: "ustr \<Rightarrow> notification_call list \<Rightarrow> store \<Rightarrow> ustr list result" where
  "shown device [] s = Inr []"
| "shown device ((tick, now, caller, limit) # calls) s =
     rbind (claim_event_notifications tick now caller limit s) (\<lambda>(views, s').
     rbind (shown device calls s') (\<lambda>rest.
       Inr ((if caller = device then map (e_id \<circ> y_event) views else []) @ rest)))"

text \<open>What may be shown to the device from here on: it notifies, lies after the point at which the
  device registered, and was not claimed for it.\<close>

definition pending :: "ustr \<Rightarrow> store \<Rightarrow> event_row \<Rightarrow> bool" where
  "pending device s e \<longleftrightarrow> e \<in> set (events s) \<and> e_notify e
     \<and> (\<exists>d \<in> set (devices s). d_id d = device \<and> d_start d < e_sequence e) \<and> \<not> notified device s (e_id e)"

lemma cleanup_cases:
  assumes "cleanup_activity_history tick now force s = Inr (c, s')"
  obtains (skipped) "s' = s" | (cleaned) p q h where
    "s' = delete_devices q (delete_events p (s\<lparr>history_cleanup_at := h\<rparr>))"
  using assms by (auto simp: cleanup_activity_history_def Let_def split: if_splits clock.splits)

lemma cleanup_pending:
  assumes "cleanup_activity_history tick now force s = Inr (c, s')" and "store_ok s"
  shows "pending device s' e \<Longrightarrow> pending device s e"
  using assms(1)
proof (cases rule: cleanup_cases)
  case (cleaned p q h)
  assume p: "pending device s' e"
  then have e: "e \<in> set (events s)" "\<not> p e" and d: "\<exists>d \<in> set (devices s). \<not> q d \<and> d_id d = device \<and> d_start d < e_sequence e"
    by (auto simp: pending_def cleaned delete_devices_def delete_events_def Let_def)
  have "e_id e \<notin> e_id ` set (filter p (events s))"
    using e event_table.lookup_unique [OF assms(2)] by auto
  moreover from d have "device \<notin> d_id ` set (filter q (devices s))"
    using device_table.lookup_unique [OF assms(2)] by fastforce
  ultimately have "notified device s (e_id e) \<Longrightarrow> notified device s' (e_id e)"
    unfolding notified_def cleaned delete_devices_def delete_events_def Let_def by fastforce
  with p e d show ?thesis by (auto simp: pending_def)
qed auto

lemma pending_seen:
  "pending device (s\<lparr>devices := update_where p (\<lambda>d. d\<lparr>d_seen := now\<rparr>) (devices s)\<rparr>) e \<longleftrightarrow> pending device s e"
  by (auto simp: pending_def notified_def set_update_where simp del: if_image_distrib split: if_splits)

lemma pending_after_claims:
  "pending device (s\<lparr>event_claims := event_claims s @ cs\<rparr>) e
    \<longleftrightarrow> pending device s e \<and> \<not> (\<exists>c \<in> set cs. ec_event c = e_id e \<and> ec_device c = device)"
  by (auto simp: pending_def notified_def)

lemma pending_after_registration:
  assumes "insert_device \<lparr>d_id = caller, d_start = Max (insert 0 (set (map e_sequence (events s)))),
      d_created = now, d_seen = now\<rparr> s = Inr s'"
  shows "pending device s' e \<Longrightarrow> pending device s e"
proof -
  let ?d = "\<lparr>d_id = caller, d_start = Max (insert 0 (set (map e_sequence (events s)))), d_created = now, d_seen = now\<rparr>"
  have s': "s' = s\<lparr>devices := devices s @ [?d]\<rparr>" using assms by (simp add: insert_device_def split: if_splits)
  assume p: "pending device s' e"
  then have "e \<in> set (events s)" by (simp add: pending_def s')
  then have "e_sequence e \<le> d_start ?d" by simp
  with p show ?thesis by (auto simp: pending_def notified_def s')
qed

lemma claim_pending_other:
  assumes "claim_event_notifications tick now caller limit s = Inr (vs, s')" and ok: "store_ok s"
  shows "pending device s' e \<Longrightarrow> pending device s e"
  using assms
proof (cases rule: claim_event_notifications_cases)
  case (registered c s1)
  then show "pending device s' e \<Longrightarrow> pending device s e"
    using pending_after_registration cleanup_pending [OF registered(1) ok] by blast
next
  case (claimed c s1 d s2 es)
  assume "pending device s' e"
  then have "pending device s2 e" by (simp only: claimed(6) pending_after_claims)
  then have "pending device s1 e" by (simp only: claimed(4) pending_seen)
  then show "pending device s e" by (rule cleanup_pending [OF claimed(1) ok])
qed

lemma claim_shows_pending:
  assumes "claim_event_notifications tick now device limit s = Inr (vs, s')" and ok: "store_ok s"
  shows "distinct (map (e_id \<circ> y_event) vs) \<and> (\<forall>v \<in> set vs. pending device s (y_event v)
    \<and> (\<forall>e. e_id e = e_id (y_event v) \<longrightarrow> \<not> pending device s' e))"
  using assms
proof (cases rule: claim_event_notifications_cases)
  case (claimed c s1 d s2 es)
  have ok2: "store_ok s2" unfolding claimed(4) by (rule update_devices_ok [OF claimed(2)]) simp
  have d: "d \<in> set (devices s1)" "d_id d = device" using find_SomeD [OF claimed(3)] by auto
  have es: "set es \<subseteq> {e. pending device s1 e}"
  proof
    fix e assume "e \<in> set es"
    then have "e \<in> set (events s2)" "e_notify e" "d_start d < e_sequence e" "\<not> notified device s2 (e_id e)"
      using candidates_facts(2) [OF ok2, of "max 1 (min limit 50)" d] d(2) unfolding claimed(5) by auto
    with d show "e \<in> {e. pending device s1 e}"
      unfolding claimed(4) by (auto simp: pending_def notified_def)
  qed
  have evs: "events s2 = events s1" by (simp add: claimed(4))
  have shown: "y_event v \<in> set es" if "v \<in> set vs" for v
  proof -
    have "y_event v \<in> set (map y_event vs)" using that by simp
    then have v: "y_event v \<in> set (events s1)" "e_id (y_event v) \<in> e_id ` set es" by (simp_all only: claimed(8)) simp_all
    then obtain x where x: "x \<in> set es" "e_id (y_event v) = e_id x" by blast
    then have "x \<in> set (events s1)" using es by (auto simp: pending_def)
    then have "y_event v = x" using v(1) x(2) by (intro event_table.lookup_unique [OF claimed(2)])
    with x(1) show ?thesis by simp
  qed
  have "distinct (map e_id (map y_event vs))"
    unfolding claimed(8) by (simp add: distinct_map) (use distinct_ids(7) [OF claimed(2)] in \<open>auto simp: distinct_map intro: inj_on_subset\<close>)
  moreover have "pending device s (y_event v)" if "v \<in> set vs" for v
    using shown [OF that] es cleanup_pending [OF claimed(1) ok] by blast
  moreover have "\<not> pending device s' e" if "v \<in> set vs" "e_id e = e_id (y_event v)" for v e
    using shown [OF that(1)] that(2) unfolding claimed(6) pending_after_claims by fastforce
  ultimately show ?thesis by simp
qed simp

lemma shown_pending:
  assumes "shown device calls s = Inr ids" and "store_ok s"
  shows "distinct ids \<and> (\<forall>i \<in> set ids. \<exists>e. e_id e = i \<and> pending device s e)"
  using assms
proof (induction calls arbitrary: s ids)
  case (Cons call calls)
  obtain tick now caller limit where call: "call = (tick, now, caller, limit)" by (cases call)
  from Cons.prems(1) obtain vs s' rest where step: "claim_event_notifications tick now caller limit s = Inr (vs, s')"
    and rest: "shown device calls s' = Inr rest"
    and ids: "ids = (if caller = device then map (e_id \<circ> y_event) vs else []) @ rest"
    by (auto simp: call rbind_Inr_iff)
  note IH = Cons.IH [OF rest claim_event_notifications_ok [OF step Cons.prems(2)]]
  have later: "\<forall>i \<in> set rest. \<exists>e. e_id e = i \<and> pending device s e"
    using IH claim_pending_other [OF step Cons.prems(2)] by blast
  show ?case
  proof (cases "caller = device")
    case True
    from claim_shows_pending [OF step [unfolded True] Cons.prems(2)]
    have views: "distinct (map (e_id \<circ> y_event) vs)" "\<forall>v \<in> set vs. pending device s (y_event v)"
      "\<forall>v \<in> set vs. \<forall>e. e_id e = e_id (y_event v) \<longrightarrow> \<not> pending device s' e" by auto
    have "set (map (e_id \<circ> y_event) vs) \<inter> set rest = {}" using IH views(3) by fastforce
    with IH later views(1,2) show ?thesis by (auto simp: ids True)
  next
    case False
    with IH later show ?thesis by (simp add: ids)
  qed
qed simp

text \<open>C6: over any sequence of calls, from however many tabs and devices and however the clocks run, a
  device is shown an event at most once, and only events that ask for a notification and happened
  after the device was registered. Pruning events and devices in between does not bring one back.\<close>

theorem notifications_shown_once:
  assumes "shown device calls s = Inr ids" and "store_ok s"
  shows "distinct ids \<and> (\<forall>i \<in> set ids. \<exists>e \<in> set (events s). e_id e = i \<and> e_notify e
    \<and> (\<exists>d \<in> set (devices s). d_id d = device \<and> d_start d < e_sequence e))"
  using shown_pending [OF assms] unfolding pending_def by blast

section \<open>Pruning\<close>

lemma find_filter_keep: "(\<And>x. x \<in> set xs \<Longrightarrow> p x \<Longrightarrow> q x) \<Longrightarrow> find p (filter q xs) = find p xs"
  by (induction xs) auto

lemma forced_cleanup:
  assumes "cleanup_activity_history tick (Aware t) True s = Inr (c, s1)"
  obtains h where "s1 = delete_devices (\<lambda>d. d_seen d < t - days 90)
      (delete_events (\<lambda>e. e_occurred e < t - days 30) (s\<lparr>history_cleanup_at := h\<rparr>))"
  using assms by (auto simp: cleanup_activity_history_def Let_def)

lemma event_read_at_cong: "event_reads s = event_reads t \<Longrightarrow> event_read_at d s e = event_read_at d t e"
  by (simp only: event_read_at_def)

lemma kept_event_read:
  assumes "store_ok s" "e \<in> set (events s)" "\<not> p e"
  shows "event_read_at d (delete_devices q (delete_events p (s\<lparr>history_cleanup_at := h\<rparr>))) e = event_read_at d s e"
proof -
  have "e_id e \<notin> e_id ` set (filter p (events s))"
    using assms event_table.lookup_unique [OF assms(1)] by auto
  then have "find (read_by (e_id e) x) (filter (\<lambda>r. er_event r \<notin> e_id ` set (filter p (events s))) (event_reads s))
      = find (read_by (e_id e) x) (event_reads s)" for x
    by (intro find_filter_keep) (auto simp: read_by_def)
  then show ?thesis
    by (simp add: event_read_at_def delete_devices_def delete_events_def Let_def split: option.split)
qed

text \<open>C7: pruning removes the events older than 30 days and exactly those File Runs that ended more than
  30 days ago, are not the run of a managed terminal and have no event left; every event that stays
  is shown exactly as before, so each visible action still opens its run.\<close>

theorem pruning_keeps_visible_runs:
  assumes ok: "store_ok s" and step: "prune_history tick (Aware t) s = Inr (c, gone, s')"
  shows "(\<forall>e \<in> set (events s'). e \<in> set (events s) \<and> t - days 30 \<le> e_occurred e
      \<and> activity_select d s' e = activity_select d s e)
    \<and> (\<forall>f \<in> set (file_runs s). f \<in> set (file_runs s') \<longleftrightarrow>
        \<not> (terminal_state (f_state f) \<and> (case f_ended f of Some n \<Rightarrow> n | None \<Rightarrow> f_created f) < t - days 30
          \<and> (\<forall>x \<in> set (terminals s). t_run x \<noteq> Some (f_id f))
          \<and> (\<forall>e \<in> set (events s'). \<not> (e_subject_type e = File_Run_Subject \<and> e_subject e = f_id f))))
    \<and> map fst gone = map f_id (filter (\<lambda>f. f \<notin> set (file_runs s')) (file_runs s))"
proof -
  from step obtain s1 where clean: "cleanup_activity_history tick (Aware t) True s = Inr (c, s1)"
    and s': "s' = s1\<lparr>file_runs := filter (\<lambda>f. f_id f \<notin> set (map f_id (filter (prunable (t - days 30) s1) (file_runs s1)))) (file_runs s1)\<rparr>"
    and gone: "gone = map (\<lambda>f. (f_id f, f_workspace f)) (filter (prunable (t - days 30) s1) (file_runs s1))"
    by (auto simp: prune_history_def rbind_Inr_iff Let_def)
  from clean obtain h where s1: "s1 = delete_devices (\<lambda>d. d_seen d < t - days 90)
      (delete_events (\<lambda>e. e_occurred e < t - days 30) (s\<lparr>history_cleanup_at := h\<rparr>))" by (rule forced_cleanup)
  have tables: "file_runs s1 = file_runs s" "terminals s1 = terminals s" "remote_runs s1 = remote_runs s"
    "computers s1 = computers s" "workspaces s1 = workspaces s"
    "events s1 = filter (\<lambda>e. \<not> e_occurred e < t - days 30) (events s)"
    by (simp_all add: s1 delete_devices_def delete_events_def Let_def)
  let ?p = "prunable (t - days 30) s1"
  have gone_iff: "f_id f \<in> set (map f_id (filter ?p (file_runs s))) \<longleftrightarrow> ?p f" if "f \<in> set (file_runs s)" for f
    using that file_run_table.lookup_unique [OF ok] by auto
  then have runs: "file_runs s' = filter (\<lambda>f. \<not> ?p f) (file_runs s)"
    by (simp add: s' tables cong: filter_cong)
  have same: "activity_select d s' e = activity_select d s e" if e: "e \<in> set (events s')" for e
  proof -
    have e1: "e \<in> set (events s1)" using e by (simp add: s')
    then have "e \<in> set (events s)" "\<not> e_occurred e < t - days 30" by (simp_all add: tables)
    then have "event_read_at d s1 e = event_read_at d s e" unfolding s1 by (rule kept_event_read [OF ok])
    moreover have "event_read_at d s' e = event_read_at d s1 e" by (rule event_read_at_cong) (simp add: s')
    ultimately have read: "event_read_at d s' e = event_read_at d s e" by simp
    have "find (\<lambda>f. f_id f = e_subject e) (file_runs s') = find (\<lambda>f. f_id f = e_subject e) (file_runs s)"
      if "e_subject_type e = File_Run_Subject"
      unfolding runs by (rule find_filter_keep) (use e1 that in \<open>auto simp: prunable_def\<close>)
    moreover have "terminals s' = terminals s" "remote_runs s' = remote_runs s" "computers s' = computers s"
      "workspaces s' = workspaces s" by (simp_all add: s' tables)
    ultimately show ?thesis using read by (cases "e_subject_type e") (simp_all add: activity_select_def)
  qed
  have "events s' = events s1" by (simp add: s')
  then have "prunable (t - days 30) s1 f \<longleftrightarrow> terminal_state (f_state f)
      \<and> (case f_ended f of Some n \<Rightarrow> n | None \<Rightarrow> f_created f) < t - days 30
      \<and> (\<forall>x \<in> set (terminals s). t_run x \<noteq> Some (f_id f))
      \<and> (\<forall>e \<in> set (events s'). \<not> (e_subject_type e = File_Run_Subject \<and> e_subject e = f_id f))" for f
    by (auto simp: prunable_def tables)
  moreover have "map fst gone = map f_id (filter (\<lambda>f. f \<notin> set (file_runs s')) (file_runs s))"
    by (simp add: gone runs tables comp_def cong: filter_cong)
  moreover have "e \<in> set (events s) \<and> t - days 30 \<le> e_occurred e" if "e \<in> set (events s')" for e
    using that by (simp add: s' tables)
  ultimately show ?thesis using same runs by simp
qed

section \<open>At the sample store\<close>

theorem read_marks_witness:
  "\<exists>s'. mark_all_events_read 500 (Some (u ''d1'')) sample_store = (1, s')
    \<and> filter (unread (Some (u ''d1'')) s') (events s') = []
    \<and> filter (unread (Some (u ''d2'')) s') (events s') = [sample_event]"
proof -
  let ?s = "snd (mark_all_events_read 500 (Some (u ''d1'')) sample_store)"
  have marked: "mark_all_events_read 500 (Some (u ''d1'')) sample_store = (1, ?s)"
    by (simp add: mark_all_events_read_def rowcount_def unread_for_device_def sample_event_def)
  note facts = read_marks_are_per_device [OF marked]
  have "filter (unread (Some (u ''d1'')) ?s) (events ?s) = []" using facts by (elim conjE)
  moreover have "filter (unread (Some (u ''d2'')) ?s) (events ?s) = filter (unread (Some (u ''d2'')) sample_store) (events sample_store)"
    by (rule facts [THEN conjunct2, THEN conjunct2, THEN conjunct1, rule_format]) simp
  moreover have "filter (unread (Some (u ''d2'')) sample_store) (events sample_store) = [sample_event]"
    by (simp add: unread_def event_read_at_def) (simp add: sample_event_def)
  ultimately show ?thesis using marked by auto
qed

lemma sample_claim:
  "claim_event_notifications 0 300 (u ''d1'') 20 sample_store
    = Inr ([activity_select None (sample_store\<lparr>history_cleanup_at := 21600, devices := [sample_device\<lparr>d_seen := 300\<rparr>],
         event_claims := [\<lparr>ec_event = u ''e1'', ec_device = u ''d1'', ec_claimed = 300\<rparr>]\<rparr>) sample_event],
       sample_store\<lparr>history_cleanup_at := 21600, devices := [sample_device\<lparr>d_seen := 300\<rparr>],
         event_claims := [\<lparr>ec_event = u ''e1'', ec_device = u ''d1'', ec_claimed = 300\<rparr>]\<rparr>)"
proof -
  have "cleanup_activity_history 0 (Aware 300) False sample_store
      = Inr (\<lparr>cc_events = 0, cc_devices = 0\<rparr>, sample_store\<lparr>history_cleanup_at := 21600\<rparr>)"
    by (simp add: cleanup_activity_history_def delete_events_def delete_devices_def days_def rowcount_def
        sample_event_def sample_device_def)
  then show ?thesis
    by (simp add: claim_event_notifications_def Let_def notification_candidates_def notified_def sql_limit_def
        claim_notification_def sample_event_def sample_device_def)
qed

theorem notifications_witness:
  "shown (u ''d1'') [(0, 300, u ''d1'', 20), (1, 301, u ''d1'', 20)] sample_store = Inr [u ''e1'']
    \<and> distinct [u ''e1'']"
proof -
  let ?s = "sample_store\<lparr>history_cleanup_at := 21600, devices := [sample_device\<lparr>d_seen := 300\<rparr>],
         event_claims := [\<lparr>ec_event = u ''e1'', ec_device = u ''d1'', ec_claimed = 300\<rparr>]\<rparr>"
  have "\<exists>s'. claim_event_notifications 1 301 (u ''d1'') 20 ?s = Inr ([], s')"
    by (simp add: claim_event_notifications_def cleanup_activity_history_def Let_def notification_candidates_def
        notified_def sql_limit_def sample_device_def)
  then have "shown (u ''d1'') [(0, 300, u ''d1'', 20), (1, 301, u ''d1'', 20)] sample_store = Inr [u ''e1'']"
    by (auto simp: sample_claim activity_select_def Let_def)
  from this notifications_shown_once [OF this sample_store_ok] show ?thesis by blast
qed

theorem pruning_witness:
  "\<exists>s'. prune_history 0 (Aware 5000000) sample_store = Inr (\<lparr>cc_events = 1, cc_devices = 0\<rparr>, [], s')
    \<and> sample_file_run \<in> set (file_runs s') \<and> events s' = []"
proof -
  let ?r = "prune_history 0 (Aware 5000000) sample_store"
  obtain s' where r: "?r = Inr (\<lparr>cc_events = 1, cc_devices = 0\<rparr>, [], s')" and e: "events s' = []"
    by (simp add: prune_history_def cleanup_activity_history_def delete_events_def delete_devices_def days_def
      rowcount_def prunable_def sample_event_def sample_device_def sample_file_run_def)
  with pruning_keeps_visible_runs [OF sample_store_ok r] show ?thesis
    by (simp add: sample_file_run_def)
qed

end
