(* ===== verification/Store_Computers.thy ===== *)
theory Store_Computers
  imports Samples
begin

text \<open>
  Computers and the node pairing protocol of \<^verbatim>\<open>StateStore\<close> (\<^verbatim>\<open>termroom/db.py\<close>): SSH computers, pairing
  codes, enrollments and their approval, node presence, and the removal of a computer.
\<close>

section \<open>Computers\<close>

definition set_computer :: "(computer_row \<Rightarrow> bool) \<Rightarrow> (computer_row \<Rightarrow> computer_row) \<Rightarrow> store \<Rightarrow> store" where
  "set_computer p f s = s\<lparr>computers := update_where p f (computers s)\<rparr>"

definition get_computer :: "ustr \<Rightarrow> store \<Rightarrow> computer_row option" where
  "get_computer computer_id s = find (\<lambda>c. c_id c = computer_id) (computers s)"

definition list_computers :: "store \<Rightarrow> computer_row list" where
  "list_computers s = sort_key (\<lambda>c. nocase (c_name c)) (computers s)"

definition update_computer_run_base :: "ustr \<Rightarrow> ustr option \<Rightarrow> store \<Rightarrow> store result" where
  "update_computer_run_base computer_id run_base_dir s =
    (if rowcount (\<lambda>c. c_id c = computer_id) (computers s) \<noteq> 1 then Inl (KeyError ''Unknown computer'')
     else Inr (set_computer (\<lambda>c. c_id c = computer_id) (\<lambda>c. c\<lparr>c_run_base := run_base_dir\<rparr>) s))"

definition update_computer_name :: "ustr \<Rightarrow> ustr \<Rightarrow> store \<Rightarrow> (computer_row \<times> store) result" where
  "update_computer_name computer_id name s =
    rbind (normalize_computer_name name) (\<lambda>safe_name.
      if rowcount (\<lambda>c. c_id c = computer_id) (computers s) \<noteq> 1 then Inl (KeyError ''Unknown computer'')
      else
        let s' = set_computer (\<lambda>c. c_id c = computer_id) (\<lambda>c. c\<lparr>c_name := safe_name\<rparr>) s in
        case get_computer computer_id s' of
          None \<Rightarrow> Inl (KeyError ''Unknown computer'') | Some c \<Rightarrow> Inr (c, s'))"

record ssh_computer =
  sc_name :: ustr
  sc_alias :: ustr
  sc_host :: ustr
  sc_port :: int
  sc_username :: ustr
  sc_identity :: ustr
  sc_auth :: ustr
  sc_key_type :: ustr
  sc_key_data :: ustr
  sc_fingerprint :: ustr

definition create_computer :: "stamp \<Rightarrow> ustr \<Rightarrow> ssh_computer \<Rightarrow> store \<Rightarrow> (computer_row \<times> store) result" where
  "create_computer now new_id v s =
    rbind (normalize_computer_name (or_else (strip (sc_name v)) (take 80 (sc_host v)))) (\<lambda>name.
      let row = \<lparr>c_id = new_id, c_name = name, c_method = Ssh_Method, c_auth = sc_auth v,
                 c_alias = strip (sc_alias v), c_host = sc_host v, c_port = sc_port v,
                 c_username = sc_username v, c_identity = sc_identity v, c_hostkey_type = sc_key_type v,
                 c_hostkey_data = sc_key_data v, c_host_fingerprint = sc_fingerprint v, c_created = now,
                 c_connected = None, c_seen = None, c_error = None, c_run_base = None, c_node_key = [],
                 c_node_fingerprint = [], c_node_protocol = None, c_node_capabilities = [], c_revoked = None\<rparr>
      in rbind (insert_computer row s) (\<lambda>s'. Inr (row, s')))"

definition update_computer_connection :: "stamp \<Rightarrow> ustr \<Rightarrow> ustr option \<Rightarrow> store \<Rightarrow> store" where
  "update_computer_connection now computer_id error s =
    (if error = None \<or> error = Some []
     then set_computer (\<lambda>c. c_id c = computer_id) (\<lambda>c. c\<lparr>c_connected := Some now, c_error := None\<rparr>) s
     else set_computer (\<lambda>c. c_id c = computer_id) (\<lambda>c. c\<lparr>c_error := map_option (take 500) error\<rparr>) s)"

definition delete_computer :: "ustr \<Rightarrow> store \<Rightarrow> store result" where
  "delete_computer computer_id s =
    (if rowcount (\<lambda>m. m_target m = computer_id) (remote_runs s) \<noteq> 0
     then Inl (RuntimeError ''Delete this computer's Remote Runs first'')
     else if rowcount (\<lambda>w. w_computer w = Some computer_id) (workspaces s) \<noteq> 0
     then Inl (RuntimeError ''Remove this computer's Workspaces first'')
     else delete_computers (\<lambda>c. c_id c = computer_id) s)"

definition remove_computer_registration :: "ustr \<Rightarrow> store \<Rightarrow> (ustr list \<times> store) result" where
  "remove_computer_registration computer_id s =
    (if rowcount (\<lambda>m. m_target m = computer_id) (remote_runs s) \<noteq> 0
     then Inl (RuntimeError ''Delete this computer's Remote Runs first'')
     else
       let ids = map w_id (filter (\<lambda>w. w_computer w = Some computer_id) (workspaces s));
           s1 = delete_workspaces (\<lambda>w. w_computer w = Some computer_id) s;
           s2 = delete_roots (\<lambda>r. r_path r = u ''ssh://'' @ computer_id) s1;
           s3 = delete_roots (\<lambda>r. r_path r = u ''node://'' @ computer_id) s2
       in rbind (delete_computers (\<lambda>c. c_id c = computer_id) s3) (\<lambda>s4. Inr (ids, s4)))"

section \<open>Node pairing\<close>

definition create_node_pairing_code :: "stamp \<Rightarrow> ustr \<Rightarrow> ustr \<Rightarrow> stamp \<Rightarrow> store \<Rightarrow> (pairing_row \<times> store) result" where
  "create_node_pairing_code now new_id code_hash expires_at s =
    (let s1 = delete_pairing_codes (\<lambda>p. pc_expires p < now \<and> pc_consumed p = None) s;
         row = \<lparr>pc_id = new_id, pc_hash = code_hash, pc_created = now, pc_expires = expires_at, pc_consumed = None\<rparr>
     in rbind (insert_pairing row s1) (\<lambda>s2. Inr (row, s2)))"

record node_request =
  nr_code :: ustr
  nr_name :: ustr
  nr_key :: ustr
  nr_fingerprint :: ustr
  nr_protocol :: int
  nr_secret :: ustr

definition open_code :: "stamp \<Rightarrow> ustr \<Rightarrow> pairing_row \<Rightarrow> bool" where
  "open_code now code_hash p \<longleftrightarrow> pc_hash p = code_hash \<and> pc_consumed p = None \<and> pc_expires p \<ge> now"

definition submit_node_enrollment ::
    "stamp \<Rightarrow> ustr \<Rightarrow> node_request \<Rightarrow> store \<Rightarrow> (enrollment_row option \<times> store) result" where
  "submit_node_enrollment now new_id q s =
    (case find (open_code now (nr_code q)) (pairing_codes s) of
       None \<Rightarrow> Inr (None, s)
     | Some pairing \<Rightarrow>
        if \<exists>c \<in> set (computers s). c_node_key c = nr_key q then Inr (None, s)
        else
        let p = (\<lambda>x. pc_id x = pc_id pairing \<and> pc_consumed x = None);
            s1 = s\<lparr>pairing_codes := update_where p (\<lambda>x. x\<lparr>pc_consumed := Some now\<rparr>) (pairing_codes s)\<rparr>
        in if rowcount p (pairing_codes s) \<noteq> 1 then Inr (None, s1)
           else
           rbind (normalize_computer_name (nr_name q)) (\<lambda>name.
             let row = \<lparr>n_id = new_id, n_pairing = pc_id pairing, n_name = name, n_key = nr_key q,
                        n_fingerprint = nr_fingerprint q, n_protocol = nr_protocol q,
                        n_secret = nr_secret q, n_status = Pending, n_computer = None, n_created = now,
                        n_decided = None\<rparr>
             in rbind (insert_enrollment row s1) (\<lambda>s2. Inr (Some row, s2))))"

definition get_node_pairing :: "ustr \<Rightarrow> store \<Rightarrow> (pairing_row \<times> enrollment_row option) option" where
  "get_node_pairing pairing_id s =
    map_option (\<lambda>p. (p, find (\<lambda>n. n_pairing n = pc_id p) (enrollments s)))
      (find (\<lambda>p. pc_id p = pairing_id) (pairing_codes s))"

definition get_node_enrollment :: "ustr \<Rightarrow> ustr option \<Rightarrow> store \<Rightarrow> enrollment_row option" where
  "get_node_enrollment enrollment_id polling_secret_hash s =
    find (\<lambda>n. n_id n = enrollment_id
      \<and> (case polling_secret_hash of None \<Rightarrow> True | Some h \<Rightarrow> n_secret n = h)) (enrollments s)"

definition approve_node_enrollment :: "stamp \<Rightarrow> ustr \<Rightarrow> ustr \<Rightarrow> store \<Rightarrow> (computer_row \<times> store) result" where
  "approve_node_enrollment now new_id enrollment_id s =
    (case find (\<lambda>n. n_id n = enrollment_id) (enrollments s) of
       None \<Rightarrow> Inl (KeyError ''Unknown Node enrollment'')
     | Some n \<Rightarrow>
        if n_status n \<noteq> Pending
        then (case (if n_status n = Approved
                    then (case n_computer n of
                            None \<Rightarrow> None | Some i \<Rightarrow> if i = [] then None else get_computer i s)
                    else None) of
                Some c \<Rightarrow> Inr (c, s)
              | None \<Rightarrow> Inl (RuntimeError ''Node enrollment is no longer pending''))
        else if \<exists>c \<in> set (computers s). c_node_key c = n_key n
        then Inl (RuntimeError ''This Node identity is already registered'')
        else
        let row = \<lparr>c_id = new_id, c_name = n_name n, c_method = Node_Method, c_auth = u ''node'',
                   c_alias = [], c_host = [], c_port = 0, c_username = [], c_identity = [],
                   c_hostkey_type = [], c_hostkey_data = [], c_host_fingerprint = [], c_created = now,
                   c_connected = None, c_seen = None, c_error = None, c_run_base = None,
                   c_node_key = n_key n, c_node_fingerprint = n_fingerprint n,
                   c_node_protocol = Some (n_protocol n), c_node_capabilities = [], c_revoked = None\<rparr>
        in rbind (insert_computer row s) (\<lambda>s1.
             Inr (row, s1\<lparr>enrollments := update_where (\<lambda>x. n_id x = enrollment_id \<and> n_status x = Pending)
               (\<lambda>x. x\<lparr>n_status := Approved, n_computer := Some new_id, n_decided := Some now\<rparr>)
               (enrollments s1)\<rparr>)))"

definition reject_node_enrollment :: "stamp \<Rightarrow> ustr \<Rightarrow> store \<Rightarrow> store result" where
  "reject_node_enrollment now enrollment_id s =
    (let p = (\<lambda>n. n_id n = enrollment_id \<and> n_status n = Pending) in
     if rowcount p (enrollments s) \<noteq> 1 then Inl (RuntimeError ''Node enrollment is no longer pending'')
     else Inr (s\<lparr>enrollments := update_where p (\<lambda>n. n\<lparr>n_status := Rejected, n_decided := Some now\<rparr>)
                   (enrollments s)\<rparr>))"

definition live_node :: "ustr \<Rightarrow> computer_row \<Rightarrow> bool" where
  "live_node computer_id c \<longleftrightarrow> c_id c = computer_id \<and> c_method c = Node_Method \<and> c_revoked c = None"

definition update_node_connection :: "stamp \<Rightarrow> ustr \<Rightarrow> int \<Rightarrow> ustr list \<Rightarrow> store \<Rightarrow> store result" where
  "update_node_connection now computer_id protocol_version capabilities s =
    (if rowcount (live_node computer_id) (computers s) \<noteq> 1 then Inl (KeyError ''Unknown or revoked Node'')
     else Inr (set_computer (live_node computer_id)
       (\<lambda>c. c\<lparr>c_node_protocol := Some protocol_version, c_node_capabilities := capabilities,
             c_seen := Some now, c_connected := Some now, c_error := None\<rparr>) s))"

definition touch_node :: "stamp \<Rightarrow> ustr \<Rightarrow> store \<Rightarrow> store result" where
  "touch_node now computer_id s =
    (if rowcount (live_node computer_id) (computers s) \<noteq> 1 then Inl (KeyError ''Unknown or revoked Node'')
     else Inr (set_computer (live_node computer_id) (\<lambda>c. c\<lparr>c_seen := Some now\<rparr>) s))"

definition revoke_node :: "stamp \<Rightarrow> ustr \<Rightarrow> store \<Rightarrow> (computer_row \<times> store) result" where
  "revoke_node now computer_id s =
    (if rowcount (live_node computer_id) (computers s) \<noteq> 1
     then Inl (KeyError ''Unknown or already revoked Node'')
     else
       let s' = set_computer (live_node computer_id)
             (\<lambda>c. c\<lparr>c_revoked := Some now, c_error := Some (u ''node_revoked'')\<rparr>) s
       in case get_computer computer_id s' of
            None \<Rightarrow> Inl (KeyError ''Unknown or already revoked Node'') | Some c \<Rightarrow> Inr (c, s'))"

end
