(* ===== verification/Computer_Laws.thy ===== *)
theory Computer_Laws
  imports Store_Computers
begin

text \<open>
  The operations of \<^verbatim>\<open>Store_Computers\<close> as one machine: every operation keeps the constraints of the
  schema, a consumed pairing code stays consumed, a decided enrollment stays decided and a revoked
  Node stays revoked. Each of the three is an instance of one locale, a fact that no operation of a
  run takes back.
\<close>

section \<open>The operations keep the constraints\<close>

lemma set_computer_ok [inv_intros]:
  assumes "store_ok s"
    and "\<And>c. p c \<Longrightarrow> c_id (f c) = c_id c \<and> c_method (f c) = c_method c \<and> c_node_key (f c) = c_node_key c"
  shows "store_ok (set_computer p f s)"
  unfolding set_computer_def using assms by (rule update_computers_ok)

lemma update_computer_run_base_ok [inv_intros]:
  "update_computer_run_base i b s = Inr s' \<Longrightarrow> store_ok s \<Longrightarrow> store_ok s'"
  by (auto simp: update_computer_run_base_def split: if_splits intro!: set_computer_ok)

lemma update_computer_name_ok [inv_intros]:
  "update_computer_name i n s = Inr (c, s') \<Longrightarrow> store_ok s \<Longrightarrow> store_ok s'"
  by (auto simp: update_computer_name_def rbind_Inr_iff Let_def split: if_splits option.splits
      intro!: set_computer_ok)

lemma create_computer_ok [inv_intros]:
  "create_computer now i v s = Inr (c, s') \<Longrightarrow> store_ok s \<Longrightarrow> store_ok s'"
  by (auto simp: create_computer_def rbind_Inr_iff Let_def intro: insert_computer_ok)

lemma update_computer_connection_ok [inv_intros]:
  "store_ok s \<Longrightarrow> store_ok (update_computer_connection now i e s)"
  by (auto simp: update_computer_connection_def intro!: set_computer_ok)

lemma delete_computer_ok [inv_intros]:
  "delete_computer i s = Inr s' \<Longrightarrow> store_ok s \<Longrightarrow> store_ok s'"
  by (auto simp: delete_computer_def split: if_splits intro: delete_computers_ok)

lemma remove_computer_registration_ok [inv_intros]:
  "remove_computer_registration i s = Inr (ids, s') \<Longrightarrow> store_ok s \<Longrightarrow> store_ok s'"
  by (auto simp: remove_computer_registration_def rbind_Inr_iff Let_def split: if_splits)
    (erule delete_computers_ok, intro delete_roots_ok delete_workspaces_ok)

lemma create_node_pairing_code_ok [inv_intros]:
  "create_node_pairing_code now i h e s = Inr (p, s') \<Longrightarrow> store_ok s \<Longrightarrow> store_ok s'"
  by (auto simp: create_node_pairing_code_def rbind_Inr_iff Let_def
      intro: insert_pairing_ok delete_pairing_codes_ok)

lemma consume_code_ok:
  "store_ok s \<Longrightarrow> store_ok (s\<lparr>pairing_codes := update_where p (\<lambda>x. x\<lparr>pc_consumed := Some now\<rparr>) (pairing_codes s)\<rparr>)"
  by (rule update_pairing_ok) simp_all

lemma submit_node_enrollment_ok [inv_intros]:
  "submit_node_enrollment now i q s = Inr (n, s') \<Longrightarrow> store_ok s \<Longrightarrow> store_ok s'"
  by (auto simp: submit_node_enrollment_def rbind_Inr_iff Let_def split: if_splits option.splits
      intro: insert_enrollment_ok consume_code_ok)

lemma reject_node_enrollment_ok [inv_intros]:
  "reject_node_enrollment now i s = Inr s' \<Longrightarrow> store_ok s \<Longrightarrow> store_ok s'"
  by (auto simp: reject_node_enrollment_def Let_def split: if_splits intro!: update_enrollments_ok)

lemma insert_computer_simps:
  assumes "insert_computer c s = Inr s'"
  shows "s' = s\<lparr>computers := computers s @ [c]\<rparr>" and "c_id c \<notin> computer_ids s"
  using assms by (auto simp: insert_computer_def split: if_splits)

lemma get_computer_id: "get_computer i s = Some c \<Longrightarrow> c_id c = i"
  by (auto simp: get_computer_def dest: find_SomeD)

text \<open>What an approval does: it answers with the computer it made before, or makes one and decides.\<close>

lemma approve_cases:
  assumes "approve_node_enrollment now new_id i s = Inr (c, s')"
  obtains (again) n where "find (\<lambda>n. n_id n = i) (enrollments s) = Some n" "n_status n = Approved"
      "n_computer n = Some (c_id c)" "get_computer (c_id c) s = Some c" "s' = s"
  | (decided) n where "find (\<lambda>n. n_id n = i) (enrollments s) = Some n" "n_status n = Pending"
      "\<forall>d \<in> set (computers s). c_node_key d \<noteq> n_key n" "insert_computer c s = Inr (s\<lparr>computers := computers s @ [c]\<rparr>)"
      "c_id c = new_id" "c_method c = Node_Method" "c_node_key c = n_key n" "c_revoked c = None"
      "s' = s\<lparr>computers := computers s @ [c], enrollments := update_where (\<lambda>x. n_id x = i \<and> n_status x = Pending)
         (\<lambda>x. x\<lparr>n_status := Approved, n_computer := Some new_id, n_decided := Some now\<rparr>) (enrollments s)\<rparr>"
proof (cases "find (\<lambda>n. n_id n = i) (enrollments s)")
  case (Some n)
  show thesis
  proof (cases "n_status n = Pending")
    case True
    with assms Some show thesis
      by (intro decided [OF Some True])
        (auto simp: approve_node_enrollment_def rbind_Inr_iff Let_def split: if_splits
          dest: insert_computer_simps)
  next
    case False
    with assms Some show thesis
      by (intro again [OF Some])
        (auto simp: approve_node_enrollment_def split: if_splits option.splits dest: get_computer_id)
  qed
qed (use assms in \<open>simp add: approve_node_enrollment_def\<close>)

lemma approve_node_enrollment_ok [inv_intros]:
  assumes "approve_node_enrollment now new_id i s = Inr (c, s')" and ok: "store_ok s"
  shows "store_ok s'"
  using assms(1)
proof (cases rule: approve_cases)
  case (decided n)
  have ok1: "store_ok (s\<lparr>computers := computers s @ [c]\<rparr>)" by (rule insert_computer_ok [OF decided(4) ok])
  from update_enrollments_ok [OF this, of "\<lambda>x. n_id x = i \<and> n_status x = Pending"
      "\<lambda>x. x\<lparr>n_status := Approved, n_computer := Some new_id, n_decided := Some now\<rparr>"]
  show ?thesis unfolding decided(9) using decided(5) by simp
qed (simp add: ok)

lemma update_node_connection_ok [inv_intros]:
  "update_node_connection now i v cs s = Inr s' \<Longrightarrow> store_ok s \<Longrightarrow> store_ok s'"
  by (auto simp: update_node_connection_def split: if_splits intro!: set_computer_ok)

lemma touch_node_ok [inv_intros]: "touch_node now i s = Inr s' \<Longrightarrow> store_ok s \<Longrightarrow> store_ok s'"
  by (auto simp: touch_node_def split: if_splits intro!: set_computer_ok)

lemma revoke_node_ok [inv_intros]: "revoke_node now i s = Inr (c, s') \<Longrightarrow> store_ok s \<Longrightarrow> store_ok s'"
  by (auto simp: revoke_node_def Let_def split: if_splits option.splits intro!: set_computer_ok)

section \<open>The machine\<close>

datatype computer_op =
    Create_Computer stamp ustr ssh_computer
  | Rename_Computer ustr ustr
  | Set_Run_Base ustr "ustr option"
  | Connection_Result stamp ustr "ustr option"
  | Delete_Computer ustr
  | Remove_Computer ustr
  | Create_Code stamp ustr ustr stamp
  | Submit stamp ustr node_request
  | Approve stamp ustr ustr
  | Reject stamp ustr
  | Node_Connected stamp ustr int "ustr list"
  | Node_Seen stamp ustr
  | Revoke stamp ustr

text \<open>A call that raised was rolled back.\<close>

definition settle :: "('a \<Rightarrow> store) \<Rightarrow> store \<Rightarrow> 'a result \<Rightarrow> store" where
  "settle new s r = (case r of Inl _ \<Rightarrow> s | Inr x \<Rightarrow> new x)"

lemma settle_simps [simp]: "settle new s (Inl e) = s" "settle new s (Inr x) = new x"
  by (simp_all add: settle_def)

lemma settle_cases:
  assumes "P s" and "\<And>x. r = Inr x \<Longrightarrow> P (new x)"
  shows "P (settle new s r)"
  using assms by (cases r) simp_all

fun computer_exec :: "computer_op \<Rightarrow> store \<Rightarrow> store" where
  "computer_exec (Create_Computer now i v) s = settle snd s (create_computer now i v s)"
| "computer_exec (Rename_Computer i n) s = settle snd s (update_computer_name i n s)"
| "computer_exec (Set_Run_Base i b) s = settle id s (update_computer_run_base i b s)"
| "computer_exec (Connection_Result now i e) s = update_computer_connection now i e s"
| "computer_exec (Delete_Computer i) s = settle id s (delete_computer i s)"
| "computer_exec (Remove_Computer i) s = settle snd s (remove_computer_registration i s)"
| "computer_exec (Create_Code now i h e) s = settle snd s (create_node_pairing_code now i h e s)"
| "computer_exec (Submit now i q) s = settle snd s (submit_node_enrollment now i q s)"
| "computer_exec (Approve now i e) s = settle snd s (approve_node_enrollment now i e s)"
| "computer_exec (Reject now e) s = settle id s (reject_node_enrollment now e s)"
| "computer_exec (Node_Connected now i v cs) s = settle id s (update_node_connection now i v cs s)"
| "computer_exec (Node_Seen now i) s = settle id s (touch_node now i s)"
| "computer_exec (Revoke now i) s = settle snd s (revoke_node now i s)"

lemmas computer_ok =
  create_computer_ok update_computer_name_ok update_computer_run_base_ok delete_computer_ok
  remove_computer_registration_ok create_node_pairing_code_ok submit_node_enrollment_ok
  approve_node_enrollment_ok reject_node_enrollment_ok update_node_connection_ok touch_node_ok revoke_node_ok

lemma computer_exec_ok: "store_ok s \<Longrightarrow> store_ok (computer_exec op s)"
  by (cases op) (auto simp: settle_def update_computer_connection_ok split: sum.split dest: computer_ok)

text \<open>An enrollment exists only for a consumed code, so clearing expired codes never deletes one.\<close>

definition codes_consumed :: "store \<Rightarrow> bool" where
  "codes_consumed s \<longleftrightarrow> (\<forall>n \<in> set (enrollments s). \<forall>p \<in> set (pairing_codes s).
     pc_id p = n_pairing n \<longrightarrow> pc_consumed p \<noteq> None)"

section \<open>What each call does to the three tables\<close>

text \<open>The tables of the pairing protocol after a call; the other tables do not matter to it.\<close>

lemma delete_workspaces_frame [simp]:
  "computers (delete_workspaces p s) = computers s" "pairing_codes (delete_workspaces p s) = pairing_codes s"
  "enrollments (delete_workspaces p s) = enrollments s"
  by (simp_all add: delete_workspaces_def delete_terminals_def Let_def)

lemma delete_roots_frame [simp]:
  "computers (delete_roots p s) = computers s" "pairing_codes (delete_roots p s) = pairing_codes s"
  "enrollments (delete_roots p s) = enrollments s"
  by (simp_all add: delete_roots_def Let_def)

lemma delete_computers_simps:
  assumes "delete_computers p s = Inr s'"
  shows "computers s' = filter (\<lambda>c. \<not> p c) (computers s)" and "pairing_codes s' = pairing_codes s"
    and "enrollments s' = map (\<lambda>n. n\<lparr>n_computer := set_null (c_id ` set (filter p (computers s))) (n_computer n)\<rparr>)
      (enrollments s)"
    and "\<forall>m \<in> set (remote_runs s). m_target m \<notin> c_id ` set (filter p (computers s))"
  using assms by (auto simp: delete_computers_def Let_def split: if_splits)

lemma create_code_simps:
  assumes "create_node_pairing_code now i h e s = Inr (p, s')"
  shows "pairing_codes s' = filter (\<lambda>p. \<not> (pc_expires p < now \<and> pc_consumed p = None)) (pairing_codes s) @ [p]"
    and "computers s' = computers s"
    and "enrollments s' = filter (\<lambda>n. n_pairing n \<notin> pc_id ` {p \<in> set (pairing_codes s). pc_expires p < now \<and> pc_consumed p = None})
      (enrollments s)"
    and "pc_consumed p = None" and "pc_id p \<notin> pc_id ` {p \<in> set (pairing_codes s). \<not> (pc_expires p < now \<and> pc_consumed p = None)}"
  using assms
  by (auto simp: create_node_pairing_code_def delete_pairing_codes_def insert_pairing_def rbind_Inr_iff Let_def
      split: if_splits)

lemma submit_cases:
  assumes "submit_node_enrollment now i q s = Inr (r, s')" and ok: "store_ok s"
  obtains (refused) "r = None" "s' = s"
  | (accepted) n p where "r = Some n" "p \<in> set (pairing_codes s)" "pc_hash p = nr_code q" "pc_consumed p = None"
      "now \<le> pc_expires p" "\<forall>c \<in> set (computers s). c_node_key c \<noteq> nr_key q"
      "n_id n = i" "n_pairing n = pc_id p" "n_key n = nr_key q" "n_status n = Pending" "n_computer n = None"
      "s' = s\<lparr>pairing_codes := update_where (\<lambda>x. pc_id x = pc_id p \<and> pc_consumed x = None)
          (\<lambda>x. x\<lparr>pc_consumed := Some now\<rparr>) (pairing_codes s), enrollments := enrollments s @ [n]\<rparr>"
proof (cases "find (open_code now (nr_code q)) (pairing_codes s)")
  case None
  with assms show thesis by (intro refused) (auto simp: submit_node_enrollment_def)
next
  case (Some p)
  have p: "p \<in> set (pairing_codes s)" "open_code now (nr_code q) p" using find_SomeD [OF Some] by auto
  have "find (\<lambda>x. pc_id x = pc_id p) (pairing_codes s) = Some p"
    using p(1) by (simp add: pairing_table.lookup_iff [OF ok])
  then have one: "rowcount (\<lambda>x. pc_id x = pc_id p \<and> pc_consumed x = None) (pairing_codes s) = 1"
    using p(2) pairing_table.rowcount_key_and [OF ok, of "pc_id p" "\<lambda>x. pc_consumed x = None"]
    by (simp add: open_code_def)
  show thesis
  proof (cases "\<exists>c \<in> set (computers s). c_node_key c = nr_key q")
    case True
    with assms Some show thesis by (intro refused) (auto simp: submit_node_enrollment_def)
  next
    case False
    with assms(1) Some one obtain n where n: "r = Some n" "n_id n = i" "n_pairing n = pc_id p" "n_key n = nr_key q"
        "n_status n = Pending" "n_computer n = None"
      and ins: "insert_enrollment n (s\<lparr>pairing_codes := update_where (\<lambda>x. pc_id x = pc_id p \<and> pc_consumed x = None)
          (\<lambda>x. x\<lparr>pc_consumed := Some now\<rparr>) (pairing_codes s)\<rparr>) = Inr s'"
      by (auto simp: submit_node_enrollment_def rbind_Inr_iff Let_def)
    then have "s' = s\<lparr>pairing_codes := update_where (\<lambda>x. pc_id x = pc_id p \<and> pc_consumed x = None)
          (\<lambda>x. x\<lparr>pc_consumed := Some now\<rparr>) (pairing_codes s), enrollments := enrollments s @ [n]\<rparr>"
      by (simp add: insert_enrollment_def split: if_splits)
    with n False p show thesis by (intro accepted) (auto simp: open_code_def)
  qed
qed

end
