(* ===== verification/Computer_Properties.thy ===== *)
theory Computer_Properties
  imports Computer_Laws
begin

text \<open>
  What the computer registry promises over any sequence of its calls: a pairing code opens one
  enrollment ever, a decision stays, a revoked Node stays out, and removing a computer removes
  exactly what belonged to it.
\<close>

section \<open>Facts that last\<close>

lemma updated_row: "r \<in> set rs \<Longrightarrow> p r \<Longrightarrow> f r \<in> set (update_where p f rs)"
  and kept_row: "r \<in> set rs \<Longrightarrow> \<not> p r \<Longrightarrow> r \<in> set (update_where p f rs)"
  by (auto simp: set_update_where)

lemma set_computer_frame [simp]:
  "pairing_codes (set_computer p f s) = pairing_codes s" "enrollments (set_computer p f s) = enrollments s"
  by (simp_all add: set_computer_def)

lemma update_computer_connection_frame [simp]:
  "pairing_codes (update_computer_connection now i e s) = pairing_codes s"
  "enrollments (update_computer_connection now i e s) = enrollments s"
  by (simp_all add: update_computer_connection_def)

text \<open>The calls that neither read nor write a pairing code or an enrollment.\<close>

fun pairing_call :: "computer_op \<Rightarrow> bool" where
  "pairing_call (Create_Code now i h e) = True"
| "pairing_call (Submit now i q) = True"
| "pairing_call (Approve now i e) = True"
| "pairing_call (Reject now e) = True"
| "pairing_call _ = False"

lemma remove_registration_simps:
  assumes "remove_computer_registration i s = Inr (ids, s')"
  shows "computers s' = filter (\<lambda>c. c_id c \<noteq> i) (computers s)" and "pairing_codes s' = pairing_codes s"
    and "enrollments s' = map (\<lambda>n. n\<lparr>n_computer := set_null (c_id ` {c \<in> set (computers s). c_id c = i}) (n_computer n)\<rparr>)
      (enrollments s)"
  using assms
  by (auto simp: remove_computer_registration_def rbind_Inr_iff Let_def delete_computers_def split: if_splits)

lemma pairing_codes_frame:
  assumes "\<not> pairing_call op"
  shows "pairing_codes (computer_exec op s) = pairing_codes s"
  using assms
  by (cases op)
    (auto simp: settle_def create_computer_def update_computer_name_def update_computer_run_base_def
      delete_computer_def update_node_connection_def touch_node_def revoke_node_def Let_def rbind_Inr_iff
      split: sum.split if_splits option.splits
      dest: insert_computer_simps delete_computers_simps remove_registration_simps)

definition consumed_code :: "ustr \<Rightarrow> store \<Rightarrow> bool" where
  "consumed_code h s \<longleftrightarrow> store_ok s \<and> (\<exists>p \<in> set (pairing_codes s). pc_hash p = h \<and> pc_consumed p \<noteq> None)"

lemma consumed_code_step: "consumed_code h s \<Longrightarrow> consumed_code h (computer_exec op s)"
proof -
  assume c: "consumed_code h s"
  then have ok: "store_ok s" by (simp add: consumed_code_def)
  from c obtain p where p: "p \<in> set (pairing_codes s)" "pc_hash p = h" "pc_consumed p \<noteq> None"
    by (auto simp: consumed_code_def)
  have "p \<in> set (pairing_codes (computer_exec op s))"
  proof (cases "pairing_call op")
    case True
    then show ?thesis
    proof (cases op)
      case (Create_Code now i e x)
      then show ?thesis using p
        by (cases "create_node_pairing_code now i e x s") (auto simp: create_code_simps(1))
    next
      case (Submit now i q)
      show ?thesis
      proof (cases "submit_node_enrollment now i q s")
        case (Inr r)
        then have "submit_node_enrollment now i q s = Inr (fst r, snd r)" by simp
        from this ok have "p \<in> set (pairing_codes (snd r))"
          by (cases rule: submit_cases) (use p in \<open>auto intro: kept_row\<close>)
        with Inr Submit show ?thesis by simp
      qed (use p Submit in simp)
    next
      case (Approve now i e)
      show ?thesis
      proof (cases "approve_node_enrollment now i e s")
        case (Inr r)
        then have "approve_node_enrollment now i e s = Inr (fst r, snd r)" by simp
        then have "p \<in> set (pairing_codes (snd r))" by (cases rule: approve_cases) (use p in auto)
        with Inr Approve show ?thesis by simp
      qed (use p Approve in simp)
    next
      case (Reject now e)
      then show ?thesis using p
        by (cases "reject_node_enrollment now e s") (auto simp: reject_node_enrollment_def Let_def split: if_splits)
    qed simp_all
  qed (use p pairing_codes_frame in simp)
  with p computer_exec_ok [OF ok] show ?thesis by (auto simp: consumed_code_def)
qed

interpretation consumed: lasting_fact computer_exec "\<lambda>_. True" "consumed_code h" for h
  by unfold_locales (rule consumed_code_step)

text \<open>C8: a pairing code is single use for ever: once a request with it was accepted, every later
  request with the same code is refused and changes nothing, whatever calls came in between and
  whatever the clock says.\<close>

theorem pairing_code_single_use:
  assumes ok: "store_ok s" and step: "submit_node_enrollment now i q s = Inr (Some n, s1)"
    and "nr_code q' = nr_code q"
  shows "submit_node_enrollment now' i' q' (fold computer_exec ops s1) = Inr (None, fold computer_exec ops s1)"
proof -
  have ok1: "store_ok s1" using step ok by (rule submit_node_enrollment_ok)
  from step ok have "consumed_code (nr_code q) s1"
  proof (cases rule: submit_cases)
    case (accepted n p)
    then have "p\<lparr>pc_consumed := Some now\<rparr> \<in> set (pairing_codes s1)" by (simp add: updated_row)
    with accepted(3) ok1 show ?thesis
      unfolding consumed_code_def by (intro conjI bexI [of _ "p\<lparr>pc_consumed := Some now\<rparr>"]) simp_all
  qed simp
  then have "consumed_code (nr_code q) (fold computer_exec ops s1)" by (rule consumed.fact_run) simp
  then obtain p where ok2: "store_ok (fold computer_exec ops s1)"
    and p: "p \<in> set (pairing_codes (fold computer_exec ops s1))" "pc_hash p = nr_code q" "pc_consumed p \<noteq> None"
    by (auto simp: consumed_code_def)
  have "distinct (map pc_hash (pairing_codes (fold computer_exec ops s1)))"
    using store_ok_table(14) [OF ok2] by (simp add: pairing_ok_def)
  then have "find (open_code now' (nr_code q)) (pairing_codes (fold computer_exec ops s1)) = None"
    using p by (auto simp: find_None_iff open_code_def distinct_map inj_on_def)
  with assms(3) show ?thesis by (simp add: submit_node_enrollment_def)
qed

section \<open>Nodes\<close>

text \<open>A later row of the same computer: same identity, and revoked if the earlier one was.\<close>

definition later_row :: "computer_row \<Rightarrow> computer_row \<Rightarrow> bool" where
  "later_row c c' \<longleftrightarrow> c_id c' = c_id c \<and> c_method c' = c_method c \<and> c_node_key c' = c_node_key c
     \<and> (c_revoked c \<noteq> None \<longrightarrow> c_revoked c' \<noteq> None)"

lemma later_row_refl [simp]: "later_row c c"
  by (simp add: later_row_def)

lemma later_row_trans: "later_row a b \<Longrightarrow> later_row b c \<Longrightarrow> later_row a c"
  by (simp add: later_row_def)

lemma later_row_updates [simp]:
  "later_row c (c\<lparr>c_name := x\<rparr>)" "later_row c (c\<lparr>c_run_base := b\<rparr>)" "later_row c (c\<lparr>c_seen := t\<rparr>)"
  "later_row c (c\<lparr>c_error := e\<rparr>)" "later_row c (c\<lparr>c_connected := t, c_error := e\<rparr>)"
  "later_row c (c\<lparr>c_node_protocol := v, c_node_capabilities := cs, c_seen := t, c_connected := t', c_error := e\<rparr>)"
  "later_row c (c\<lparr>c_revoked := Some n, c_error := e\<rparr>)"
  by (simp_all add: later_row_def)

definition succeeds :: "computer_row \<Rightarrow> store \<Rightarrow> bool" where
  "succeeds c s \<longleftrightarrow> store_ok s \<and> (\<exists>c' \<in> set (computers s). later_row c c')"

fun removes_computer :: "ustr \<Rightarrow> computer_op \<Rightarrow> bool" where
  "removes_computer i (Delete_Computer j) \<longleftrightarrow> j = i"
| "removes_computer i (Remove_Computer j) \<longleftrightarrow> j = i"
| "removes_computer i _ \<longleftrightarrow> False"

lemma insert_computer_keeps: "insert_computer r s = Inr s' \<Longrightarrow> c \<in> set (computers s) \<Longrightarrow> c \<in> set (computers s')"
  using insert_computer_simps(1) by fastforce

lemma set_computer_kept:
  assumes "c \<in> set (computers s)"
    and "\<And>c. p c \<Longrightarrow> later_row c (f c)"
  shows "\<exists>c' \<in> set (computers (set_computer p f s)). later_row c c'"
proof (cases "p c")
  case True
  with assms show ?thesis by (intro bexI [of _ "f c"]) (simp_all add: set_computer_def updated_row)
next
  case False
  with assms show ?thesis by (intro bexI [of _ c]) (simp_all add: set_computer_def kept_row)
qed

lemma row_kept: "c \<in> set (computers s) \<Longrightarrow> \<exists>c' \<in> set (computers s). later_row c c'"
  using later_row_refl by blast

lemma call_keeps_computer:
  "delete_computer i s = Inr s' \<Longrightarrow> c \<in> set (computers s) \<Longrightarrow> c_id c \<noteq> i \<Longrightarrow> c \<in> set (computers s')"
  "remove_computer_registration i s = Inr (ids, s') \<Longrightarrow> c \<in> set (computers s) \<Longrightarrow> c_id c \<noteq> i \<Longrightarrow> c \<in> set (computers s')"
  "create_node_pairing_code now i h x s = Inr (p, s') \<Longrightarrow> c \<in> set (computers s) \<Longrightarrow> c \<in> set (computers s')"
  "submit_node_enrollment now i q s = Inr (r, s') \<Longrightarrow> store_ok s \<Longrightarrow> c \<in> set (computers s) \<Longrightarrow> c \<in> set (computers s')"
  "approve_node_enrollment now i e s = Inr (d, s') \<Longrightarrow> c \<in> set (computers s) \<Longrightarrow> c \<in> set (computers s')"
  "reject_node_enrollment now e s = Inr s' \<Longrightarrow> c \<in> set (computers s) \<Longrightarrow> c \<in> set (computers s')"
  by (auto simp: delete_computer_def delete_computers_simps(1) remove_registration_simps(1) create_code_simps(2)
      reject_node_enrollment_def Let_def split: if_splits elim: submit_cases approve_cases)

lemma computers_kept:
  assumes "c \<in> set (computers s)" and "store_ok s" and "\<not> removes_computer (c_id c) op"
  shows "\<exists>c' \<in> set (computers (computer_exec op s)). later_row c c'"
proof (cases op)
  case (Create_Computer now i v)
  with assms(1) row_kept [OF assms(1)] show ?thesis
    by (auto simp: settle_def create_computer_def rbind_Inr_iff Let_def split: sum.split
        elim: insert_computer_keeps [THEN row_kept])
next
  case (Rename_Computer i n)
  with assms(1) row_kept [OF assms(1)] show ?thesis
    by (auto simp: settle_def update_computer_name_def rbind_Inr_iff Let_def
        split: sum.split if_splits option.splits intro!: set_computer_kept)
next
  case (Set_Run_Base i b)
  with assms(1) row_kept [OF assms(1)] show ?thesis
    by (auto simp: settle_def update_computer_run_base_def split: sum.split if_splits intro!: set_computer_kept)
next
  case (Connection_Result now i e)
  with assms(1) row_kept [OF assms(1)] show ?thesis
    by (auto simp: update_computer_connection_def intro!: set_computer_kept)
next
  case (Delete_Computer i)
  with assms show ?thesis
    by (auto simp: settle_def split: sum.split intro: row_kept elim: call_keeps_computer(1) [THEN row_kept])
next
  case (Remove_Computer i)
  with assms show ?thesis
    by (auto simp: settle_def split: sum.split intro: row_kept elim: call_keeps_computer(2) [THEN row_kept])
next
  case (Create_Code now i h e)
  with assms show ?thesis
    by (auto simp: settle_def split: sum.split intro: row_kept elim: call_keeps_computer(3) [THEN row_kept])
next
  case (Submit now i q)
  with assms show ?thesis
    by (auto simp: settle_def split: sum.split intro: row_kept elim: call_keeps_computer(4) [THEN row_kept])
next
  case (Approve now i e)
  with assms show ?thesis
    by (auto simp: settle_def split: sum.split intro: row_kept elim: call_keeps_computer(5) [THEN row_kept])
next
  case (Reject now e)
  with assms show ?thesis
    by (auto simp: settle_def split: sum.split intro: row_kept elim: call_keeps_computer(6) [THEN row_kept])
next
  case (Node_Connected now i v cs)
  with assms(1) row_kept [OF assms(1)] show ?thesis
    by (auto simp: settle_def update_node_connection_def split: sum.split if_splits intro!: set_computer_kept)
next
  case (Node_Seen now i)
  with assms(1) row_kept [OF assms(1)] show ?thesis
    by (auto simp: settle_def touch_node_def split: sum.split if_splits intro!: set_computer_kept)
next
  case (Revoke now i)
  with assms(1) row_kept [OF assms(1)] show ?thesis
    by (auto simp: settle_def revoke_node_def Let_def split: sum.split if_splits option.splits
        intro!: set_computer_kept)
qed

lemma succeeds_step: "succeeds c s \<Longrightarrow> \<not> removes_computer (c_id c) op \<Longrightarrow> succeeds c (computer_exec op s)"
  unfolding succeeds_def using computers_kept [of _ s op] computer_exec_ok [of s op] later_row_trans
  by (metis later_row_def)

interpretation computer_history: lasting_fact computer_exec "\<lambda>op. \<not> removes_computer (c_id c) op" "succeeds c" for c
  by unfold_locales (rule succeeds_step)

text \<open>C9: a revoked Node stays out: until its computer is removed, its connections and heartbeats are
  refused, a request with its key is refused whatever code it has, and no pending enrollment with
  its key can be approved.\<close>

theorem revoked_node_stays_out:
  assumes ok: "store_ok s" and step: "revoke_node now i s = Inr (c, s1)"
    and ops: "\<forall>op \<in> set ops. \<not> removes_computer i op" and s2: "s2 = fold computer_exec ops s1"
  shows "(\<exists>e. touch_node t i s2 = Inl e) \<and> (\<exists>e. update_node_connection t i v cs s2 = Inl e)
    \<and> (\<exists>e. revoke_node t i s2 = Inl e)
    \<and> (nr_key q = c_node_key c \<longrightarrow> submit_node_enrollment t j q s2 = Inr (None, s2))
    \<and> (\<forall>n. find (\<lambda>n. n_id n = eid) (enrollments s2) = Some n \<and> n_key n = c_node_key c \<and> n_status n = Pending
         \<longrightarrow> (\<exists>e. approve_node_enrollment t j eid s2 = Inl e))"
proof -
  have ok1: "store_ok s1" using step ok by (rule revoke_node_ok)
  from step have get: "get_computer i s1 = Some c"
    and s1: "s1 = set_computer (live_node i) (\<lambda>c. c\<lparr>c_revoked := Some now, c_error := Some (u ''node_revoked'')\<rparr>) s"
    and live: "rowcount (live_node i) (computers s) = 1"
    by (auto simp: revoke_node_def Let_def split: if_splits option.splits)
  from get have c: "c \<in> set (computers s1)" "c_id c = i" by (auto simp: get_computer_def dest!: find_SomeD)
  have "\<exists>d \<in> set (computers s). live_node i d"
    using live rowcount_zero_iff [of "live_node i" "computers s"] by fastforce
  then obtain d where d: "d \<in> set (computers s)" "live_node i d" by blast
  then have "d\<lparr>c_revoked := Some now, c_error := Some (u ''node_revoked'')\<rparr> \<in> set (computers s1)"
    using updated_row [where p = "live_node i", OF d, of "\<lambda>c. c\<lparr>c_revoked := Some now, c_error := Some (u ''node_revoked'')\<rparr>"]
    by (simp add: s1 set_computer_def)
  moreover have "c_id (d\<lparr>c_revoked := Some now, c_error := Some (u ''node_revoked'')\<rparr>) = c_id c"
    using d(2) c(2) by (simp add: live_node_def)
  ultimately have "c = d\<lparr>c_revoked := Some now, c_error := Some (u ''node_revoked'')\<rparr>"
    using c(1) computer_table.lookup_unique [OF ok1] by blast
  then have rev: "c_revoked c \<noteq> None" by simp
  have "succeeds c s1" using ok1 row_kept [OF c(1)] by (simp add: succeeds_def)
  then have "succeeds c s2" unfolding s2 by (rule computer_history.fact_run) (use ops c(2) in simp)
  then obtain c' where ok2: "store_ok s2" and c': "c' \<in> set (computers s2)" "later_row c c'"
    by (auto simp: succeeds_def)
  have out: "\<not> live_node i x" if "x \<in> set (computers s2)" for x
  proof
    assume "live_node i x"
    then have "c_id x = c_id c'" using c' c(2) by (simp add: live_node_def later_row_def)
    then have "x = c'" using that c'(1) by (intro computer_table.lookup_unique [OF ok2])
    with \<open>live_node i x\<close> c'(2) rev show False by (simp add: live_node_def later_row_def)
  qed
  then have "rowcount (live_node i) (computers s2) = 0" by simp
  then have none: "rowcount (live_node i) (computers s2) \<noteq> 1" by linarith
  have key: "c_node_key c' = c_node_key c" using c'(2) by (simp add: later_row_def)
  have "submit_node_enrollment t j q s2 = Inr (None, s2)" if "nr_key q = c_node_key c"
    using c'(1) key that by (auto simp: submit_node_enrollment_def split: option.split)
  moreover have "\<exists>e. approve_node_enrollment t j eid s2 = Inl e"
    if "find (\<lambda>n. n_id n = eid) (enrollments s2) = Some n" "n_key n = c_node_key c" "n_status n = Pending" for n
    using c'(1) key that by (auto simp: approve_node_enrollment_def)
  ultimately show ?thesis
    using none by (auto simp: touch_node_def update_node_connection_def revoke_node_def)
qed

section \<open>Enrollments\<close>

lemma insert_computer_frame: "insert_computer c s = Inr s' \<Longrightarrow> enrollments s' = enrollments s"
  using insert_computer_simps(1) by fastforce

lemma enrollments_frame:
  assumes "\<not> pairing_call op" and "\<forall>i. removes_computer i op \<longrightarrow> n_computer n \<noteq> Some i" and "n \<in> set (enrollments s)"
  shows "n \<in> set (enrollments (computer_exec op s))"
proof -
  have unlinked: "n \<in> (\<lambda>n. n\<lparr>n_computer := set_null (c_id ` {c \<in> set (computers s). c_id c = i}) (n_computer n)\<rparr>) ` set (enrollments s)"
    if "n_computer n \<noteq> Some i" for i
    using assms(3) that by (intro image_eqI [of _ _ n]) (auto simp: set_null_def split: option.split)
  show ?thesis using assms
  proof (cases op)
    case (Delete_Computer i)
    with unlinked [of i] assms show ?thesis
      by (auto simp: settle_def delete_computer_def delete_computers_simps(3) split: sum.split if_splits)
  next
    case (Remove_Computer i)
    with unlinked [of i] assms show ?thesis
      by (auto simp: settle_def remove_registration_simps(3) split: sum.split)
  qed (auto simp: settle_def create_computer_def update_computer_name_def update_computer_run_base_def
      update_node_connection_def touch_node_def revoke_node_def Let_def rbind_Inr_iff insert_computer_frame
      split: sum.split if_splits option.splits)
qed

lemma enrollment_pairings:
  assumes "\<not> pairing_call op" and "n \<in> set (enrollments (computer_exec op s))"
  shows "n_pairing n \<in> n_pairing ` set (enrollments s)"
  using assms
  by (cases op)
    (auto simp: settle_def create_computer_def update_computer_name_def update_computer_run_base_def
      update_node_connection_def touch_node_def revoke_node_def Let_def rbind_Inr_iff insert_computer_frame
      delete_computer_def delete_computers_simps(3) remove_registration_simps(3)
      split: sum.split_asm if_splits option.splits)

lemma create_code_enrollments:
  assumes "create_node_pairing_code now i h e s = Inr (p, s')" and "codes_consumed s"
    and ok: "store_ok s"
  shows "enrollments s' = enrollments s"
proof -
  have "n_pairing n \<notin> pc_id ` {p \<in> set (pairing_codes s). pc_expires p < now \<and> pc_consumed p = None}"
    if "n \<in> set (enrollments s)" for n
    using assms(2) that unfolding codes_consumed_def by fastforce
  then show ?thesis by (simp add: create_code_simps(3) [OF assms(1)])
qed

lemma codes_consumed_step:
  assumes ok: "store_ok s" and consumed: "codes_consumed s"
  shows "codes_consumed (computer_exec op s)"
proof (cases "pairing_call op")
  case True
  have parents: "n_pairing n \<in> pairing_ids s" if "n \<in> set (enrollments s)" for n
    using store_ok_table(15) [OF ok] that by (auto simp: enrollments_ok_def)
  show ?thesis
  proof (cases op)
    case (Create_Code now i h e)
    show ?thesis
    proof (cases "create_node_pairing_code now i h e s")
      case (Inr r)
      then have step: "create_node_pairing_code now i h e s = Inr (fst r, snd r)" by simp
      have "pc_consumed p \<noteq> None" if "n \<in> set (enrollments s)" "p \<in> set (pairing_codes (snd r))" "pc_id p = n_pairing n" for n p
      proof (cases "p = fst r")
        case True
        from parents [OF that(1)] obtain x where x: "x \<in> set (pairing_codes s)" "pc_id x = n_pairing n" by auto
        with consumed that(1) have "pc_consumed x \<noteq> None" by (auto simp: codes_consumed_def)
        with x have "n_pairing n \<in> pc_id ` {p \<in> set (pairing_codes s). \<not> (pc_expires p < now \<and> pc_consumed p = None)}"
          by force
        with create_code_simps(5) [OF step] that(3) True show ?thesis by auto
      next
        case False
        with that consumed show ?thesis by (auto simp: create_code_simps(1) [OF step] codes_consumed_def)
      qed
      with Inr Create_Code create_code_enrollments [OF step consumed ok] show ?thesis
        by (auto simp: codes_consumed_def)
    qed (use Create_Code consumed in simp)
  next
    case (Submit now i q)
    show ?thesis
    proof (cases "submit_node_enrollment now i q s")
      case (Inr r)
      then have "submit_node_enrollment now i q s = Inr (fst r, snd r)" by simp
      from this ok have "codes_consumed (snd r)"
      proof (cases rule: submit_cases)
        case (accepted n p)
        have "pc_consumed x' \<noteq> None" if "m \<in> set (enrollments s @ [n])" "x \<in> set (pairing_codes s)"
            "x' = (if pc_id x = pc_id p \<and> pc_consumed x = None then x\<lparr>pc_consumed := Some now\<rparr> else x)"
            "pc_id x' = n_pairing m" for m x x'
          using that consumed accepted(8) by (auto simp: codes_consumed_def split: if_splits)
        then show ?thesis unfolding codes_consumed_def accepted(12) by (auto simp: set_update_where simp del: if_image_distrib)
      qed (use consumed in simp)
      with Inr Submit show ?thesis by simp
    qed (use Submit consumed in simp)
  next
    case (Approve now i e)
    show ?thesis
    proof (cases "approve_node_enrollment now i e s")
      case (Inr r)
      then have "approve_node_enrollment now i e s = Inr (fst r, snd r)" by simp
      then have "codes_consumed (snd r)"
        by (cases rule: approve_cases) (use consumed in \<open>auto simp: codes_consumed_def ball_update_where\<close>)
      with Inr Approve show ?thesis by simp
    qed (use Approve consumed in simp)
  next
    case (Reject now e)
    with consumed show ?thesis
      by (auto simp: settle_def reject_node_enrollment_def Let_def codes_consumed_def ball_update_where
          split: sum.split if_splits)
  qed (use True in simp_all)
next
  case False
  have "\<exists>m \<in> set (enrollments s). n_pairing m = n_pairing n" if "n \<in> set (enrollments (computer_exec op s))" for n
    using enrollment_pairings [OF False that] by auto
  with consumed pairing_codes_frame [OF False] show ?thesis
    unfolding codes_consumed_def by metis
qed

interpretation pairing: machine empty_store computer_exec "\<lambda>_ _. True" "\<lambda>s. store_ok s \<and> codes_consumed s"
  by unfold_locales
    (simp_all add: store_ok_empty computer_exec_ok codes_consumed_step, simp add: codes_consumed_def empty_store_def)

text \<open>An approval that stands: the row is decided for a computer that is still registered.\<close>

definition approved_for :: "ustr \<Rightarrow> ustr \<Rightarrow> store \<Rightarrow> bool" where
  "approved_for e i s \<longleftrightarrow> store_ok s \<and> codes_consumed s
     \<and> (\<exists>n \<in> set (enrollments s). n_id n = e \<and> n_status n = Approved \<and> n_computer n = Some i)"

lemma decided_row_kept:
  assumes "n \<in> set (enrollments s)" and "n_status n \<noteq> Pending" and ok: "store_ok s" and consumed: "codes_consumed s"
    and "\<forall>i. removes_computer i op \<longrightarrow> n_computer n \<noteq> Some i"
  shows "n \<in> set (enrollments (computer_exec op s))"
proof (cases "pairing_call op")
  case True
  then show ?thesis
  proof (cases op)
    case (Create_Code now i h e)
    show ?thesis
    proof (cases "create_node_pairing_code now i h e s")
      case (Inr r)
      then have step: "create_node_pairing_code now i h e s = Inr (fst r, snd r)" by simp
      from create_code_enrollments [OF step consumed ok] Inr Create_Code assms(1) show ?thesis by simp
    qed (use Create_Code assms(1) in simp)
  next
    case (Submit now i q)
    with assms(1) ok show ?thesis by (auto simp: settle_def split: sum.split elim: submit_cases)
  next
    case (Approve now i e)
    with assms(1,2) show ?thesis
      by (auto simp: settle_def split: sum.split elim!: approve_cases intro!: kept_row)
  next
    case (Reject now e)
    with assms(1,2) show ?thesis
      by (auto simp: settle_def reject_node_enrollment_def Let_def split: sum.split if_splits intro!: kept_row)
  qed simp_all
qed (rule enrollments_frame, use assms in simp_all)

lemma approved_for_step:
  assumes "approved_for e i s" and "\<not> removes_computer i op"
  shows "approved_for e i (computer_exec op s)"
proof -
  from assms(1) obtain n where n: "n \<in> set (enrollments s)" "n_id n = e" "n_status n = Approved" "n_computer n = Some i"
    and ok: "store_ok s" "codes_consumed s" by (auto simp: approved_for_def)
  have "n \<in> set (enrollments (computer_exec op s))"
    by (rule decided_row_kept) (use n ok assms(2) in auto)
  with n ok show ?thesis by (auto simp: approved_for_def computer_exec_ok codes_consumed_step)
qed

interpretation approval: lasting_fact computer_exec "\<lambda>op. \<not> removes_computer i op" "approved_for e i" for e i
  by unfold_locales (rule approved_for_step)

lemma approve_makes_node:
  assumes step: "approve_node_enrollment now j e s = Inr (c, s1)" and ok: "store_ok s" and cc: "codes_consumed s"
  shows "approved_for e (c_id c) s1" and "c \<in> set (computers s1)"
proof -
  have ok1: "store_ok s1" "codes_consumed s1"
    using approve_node_enrollment_ok [OF step ok] codes_consumed_step [OF ok cc, of "Approve now j e"] step by simp_all
  have "(\<exists>n \<in> set (enrollments s1). n_id n = e \<and> n_status n = Approved \<and> n_computer n = Some (c_id c)) \<and> c \<in> set (computers s1)"
    using step
  proof (cases rule: approve_cases)
    case (again n)
    then show ?thesis using find_SomeD [OF again(1)] by (auto simp: get_computer_def dest: find_SomeD)
  next
    case (decided n)
    let ?f = "\<lambda>x. x\<lparr>n_status := Approved, n_computer := Some j, n_decided := Some now\<rparr>"
    have "?f n \<in> set (update_where (\<lambda>x. n_id x = e \<and> n_status x = Pending) ?f (enrollments s))"
      using find_SomeD [OF decided(1)] decided(2) by (intro updated_row) auto
    then have "?f n \<in> set (enrollments s1)" "c \<in> set (computers s1)" by (simp_all add: decided(9))
    then show ?thesis using find_SomeD [OF decided(1)] decided(5) by (intro conjI bexI [of _ "?f n"]) simp_all
  qed
  with ok1 show "approved_for e (c_id c) s1" "c \<in> set (computers s1)" by (auto simp: approved_for_def)
qed

text \<open>Approving an enrollment is idempotent and final: until the computer it made is removed, a later
  approval answers with that computer and registers no other, it cannot be rejected any more, and
  exactly one Node has its key.\<close>

theorem approval_is_idempotent:
  assumes ok: "store_ok s" "codes_consumed s" and step: "approve_node_enrollment now j e s = Inr (c, s1)"
    and node: "c_method c = Node_Method" "c_id c \<noteq> []"
    and ops: "\<forall>op \<in> set ops. \<not> removes_computer (c_id c) op" and s2: "s2 = fold computer_exec ops s1"
  shows "(\<exists>c'. approve_node_enrollment t k e s2 = Inr (c', s2) \<and> c_id c' = c_id c \<and> c_node_key c' = c_node_key c)
    \<and> (\<exists>err. reject_node_enrollment t e s2 = Inl err)
    \<and> length (filter (\<lambda>x. c_method x = Node_Method \<and> c_node_key x = c_node_key c) (computers s2)) = 1"
proof -
  note made = approve_makes_node [OF step ok]
  have "approved_for e (c_id c) s2" unfolding s2 by (rule approval.fact_run [OF made(1) ops])
  then obtain n where n: "n \<in> set (enrollments s2)" "n_id n = e" "n_status n = Approved" "n_computer n = Some (c_id c)"
    and ok2: "store_ok s2" by (auto simp: approved_for_def)
  have "succeeds c s1" using made row_kept [OF made(2)] by (simp add: succeeds_def approved_for_def)
  then have "succeeds c s2" unfolding s2 by (rule computer_history.fact_run [OF _ ops])
  then obtain c' where c': "c' \<in> set (computers s2)" "later_row c c'" by (auto simp: succeeds_def)
  have "get_computer (c_id c) s2 = Some c'"
    using c' by (simp add: get_computer_def computer_table.lookup_iff [OF ok2] later_row_def)
  moreover have row: "find (\<lambda>n. n_id n = e) (enrollments s2) = Some n"
    using n by (simp add: enrollment_table.lookup_iff [OF ok2])
  ultimately have "approve_node_enrollment t k e s2 = Inr (c', s2)"
    using n node(2) by (simp add: approve_node_enrollment_def)
  moreover have "rowcount (\<lambda>n. n_id n = e \<and> n_status n = Pending) (enrollments s2) = 0"
    using enrollment_table.rowcount_key_and [OF ok2, of e "\<lambda>n. n_status n = Pending"] row n(3) by simp
  then have "\<exists>err. reject_node_enrollment t e s2 = Inl err" by (simp add: reject_node_enrollment_def Let_def del: rowcount_zero_iff)
  moreover have "filter (\<lambda>x. c_node_key x = c_node_key c') (filter (\<lambda>x. c_method x = Node_Method) (computers s2)) = [c']"
    using store_ok_table(3) [OF ok2] c' node(1)
    by (intro filter_distinct_key) (auto simp: computers_ok_def unique_where_def later_row_def)
  then have "length (filter (\<lambda>x. c_method x = Node_Method \<and> c_node_key x = c_node_key c) (computers s2)) = 1"
    using c'(2) by (simp add: later_row_def conj_commute)
  ultimately show ?thesis using c'(2) by (auto simp: later_row_def)
qed

section \<open>Removal\<close>

lemma deleted_rows:
  "workspaces (delete_workspaces p s) = filter (\<lambda>w. \<not> p w) (workspaces s)"
  "roots (delete_workspaces p s) = roots s"
  "workspaces (delete_roots q s) = filter (\<lambda>w. w_root w \<notin> r_id ` set (filter q (roots s))) (workspaces s)"
  "roots (delete_roots q s) = filter (\<lambda>r. \<not> q r) (roots s)"
  "map m_target (remote_runs (delete_workspaces p s)) = map m_target (remote_runs s)"
  "map m_target (remote_runs (delete_roots q s)) = map m_target (remote_runs s)"
  by (simp_all add: delete_roots_def delete_workspaces_def delete_terminals_def Let_def comp_def)

text \<open>Forgetting a computer is refused while a Remote Run targets it; otherwise the computer, the
  Workspaces on it with their terminals, and its virtual roots are gone, no enrollment and no run
  refers to it, the removed Workspaces are reported, and everything elsewhere stays.\<close>

theorem removed_computer_leaves_nothing:
  assumes ok: "store_ok s" and step: "remove_computer_registration i s = Inr (gone, s')"
  shows "store_ok s' \<and> computers s' = filter (\<lambda>c. c_id c \<noteq> i) (computers s)
    \<and> gone = map w_id (filter (\<lambda>w. w_computer w = Some i) (workspaces s))
    \<and> (\<forall>w \<in> set (workspaces s). w \<in> set (workspaces s') \<longleftrightarrow> w_computer w \<noteq> Some i
         \<and> (\<forall>r \<in> set (roots s). r_id r = w_root w \<longrightarrow> r_path r \<noteq> u ''ssh://'' @ i \<and> r_path r \<noteq> u ''node://'' @ i))
    \<and> (\<forall>x \<in> set (terminals s'). t_workspace x \<notin> set gone)
    \<and> (\<forall>m \<in> set (remote_runs s) \<union> set (remote_runs s'). m_target m \<noteq> i)
    \<and> (\<forall>n \<in> set (enrollments s'). n_computer n \<noteq> Some i)"
proof -
  let ?s1 = "delete_workspaces (\<lambda>w. w_computer w = Some i) s"
  let ?s3 = "delete_roots (\<lambda>r. r_path r = u ''node://'' @ i) (delete_roots (\<lambda>r. r_path r = u ''ssh://'' @ i) ?s1)"
  have ok': "store_ok s'" using step ok by (rule remove_computer_registration_ok)
  from step have runs: "\<forall>m \<in> set (remote_runs s). m_target m \<noteq> i"
    and gone: "gone = map w_id (filter (\<lambda>w. w_computer w = Some i) (workspaces s))"
    and last: "delete_computers (\<lambda>c. c_id c = i) ?s3 = Inr s'"
    by (auto simp: remove_computer_registration_def rbind_Inr_iff Let_def split: if_splits)
  have s': "workspaces s' = workspaces ?s3" "remote_runs s' = remote_runs ?s3"
    using last by (auto simp: delete_computers_def Let_def split: if_splits)
  have keep: "w \<in> set (workspaces s') \<longleftrightarrow> w_computer w \<noteq> Some i
      \<and> (\<forall>r \<in> set (roots s). r_id r = w_root w \<longrightarrow> r_path r \<noteq> u ''ssh://'' @ i \<and> r_path r \<noteq> u ''node://'' @ i)"
    if "w \<in> set (workspaces s)" for w
    using that by (simp add: s' deleted_rows image_iff) metis
  have "t_workspace x \<notin> set gone" if "x \<in> set (terminals s')" for x
  proof
    assume "t_workspace x \<in> set gone"
    then obtain w where w: "w \<in> set (workspaces s)" "w_computer w = Some i" "w_id w = t_workspace x" by (auto simp: gone)
    have "t_workspace x \<in> workspace_ids s'" using store_ok_table(4) [OF ok'] that by (auto simp: terminals_ok_def)
    then obtain v where v: "v \<in> set (workspaces s')" "w_id v = t_workspace x" by auto
    then have "v \<in> set (workspaces s)" by (auto simp: s' deleted_rows)
    then have "v = w" using v(2) w by (intro workspace_table.lookup_unique [OF ok]) simp_all
    with keep [OF w(1)] v(1) w(2) show False by simp
  qed
  moreover have "\<forall>m \<in> set (remote_runs s'). m_target m \<noteq> i"
  proof -
    have "map m_target (remote_runs s') = map m_target (remote_runs s)" by (simp add: s' deleted_rows)
    then have "m_target ` set (remote_runs s') = m_target ` set (remote_runs s)" by (metis set_map)
    with runs show ?thesis by (metis image_eqI imageE)
  qed
  moreover have "n_computer n \<noteq> Some i" if "n \<in> set (enrollments s')" for n
    using store_ok_table(15) [OF ok'] that remove_registration_simps(1) [OF step]
    by (auto simp: enrollments_ok_def)
  ultimately show ?thesis
    using ok' remove_registration_simps(1) [OF step] gone runs keep by blast
qed

section \<open>At the sample store\<close>

definition sample_request :: node_request where
  "sample_request = \<lparr>nr_code = u ''h1'', nr_name = u ''laptop'', nr_key = u ''KEY2'', nr_fingerprint = u ''SHA256:m'',
     nr_protocol = 1, nr_secret = u ''s1''\<rparr>"

definition enrolled_store :: store where
  "enrolled_store = computer_exec (Submit 500 (u ''n1'') sample_request) sample_store"

lemma sample_submit:
  "\<exists>n. submit_node_enrollment 500 (u ''n1'') sample_request sample_store = Inr (Some n, enrolled_store)
    \<and> enrollments enrolled_store = [n] \<and> n_id n = u ''n1'' \<and> n_status n = Pending \<and> n_key n = u ''KEY2''
    \<and> computers enrolled_store = computers sample_store"
  by (simp add: enrolled_store_def submit_node_enrollment_def open_code_def sample_code_def sample_request_def
      sample_computer_def sample_node_def normalize_computer_name_def strip_def is_space_def is_line_control_def
      insert_enrollment_def rowcount_def Let_def u_def)

theorem pairing_code_witness:
  "\<exists>n. submit_node_enrollment 500 (u ''n1'') sample_request sample_store = Inr (Some n, enrolled_store)
    \<and> submit_node_enrollment 600 (u ''n2'') sample_request
        (fold computer_exec [Create_Code 600 (u ''p2'') (u ''h2'') 2000] enrolled_store)
      = Inr (None, fold computer_exec [Create_Code 600 (u ''p2'') (u ''h2'') 2000] enrolled_store)"
  using sample_submit pairing_code_single_use [OF sample_store_ok, of 500 "u ''n1''" sample_request _ enrolled_store
      sample_request 600 "u ''n2''" "[Create_Code 600 (u ''p2'') (u ''h2'') 2000]"] by blast

theorem revoked_node_witness:
  "\<exists>c s1. revoke_node 500 (u ''c2'') sample_store = Inr (c, s1)
    \<and> (\<exists>e. touch_node 600 (u ''c2'') (fold computer_exec [Node_Seen 550 (u ''c2'')] s1) = Inl e)"
proof -
  obtain c s1 where r: "revoke_node 500 (u ''c2'') sample_store = Inr (c, s1)"
    by (simp add: revoke_node_def rowcount_def live_node_def sample_computer_def sample_node_def
        get_computer_def set_computer_def)
  with revoked_node_stays_out [OF sample_store_ok r, of "[Node_Seen 550 (u ''c2'')]"] show ?thesis by fastforce
qed

theorem approval_witness:
  "\<exists>c s1. approve_node_enrollment 600 (u ''c9'') (u ''n1'') enrolled_store = Inr (c, s1) \<and> c_id c = u ''c9''
    \<and> (\<exists>err. reject_node_enrollment 700 (u ''n1'') s1 = Inl err)"
proof -
  have "codes_consumed sample_store" by (simp add: codes_consumed_def)
  then have ok: "store_ok enrolled_store" "codes_consumed enrolled_store"
    unfolding enrolled_store_def by (simp_all only: computer_exec_ok codes_consumed_step sample_store_ok)
  from sample_submit have "\<exists>c s1. approve_node_enrollment 600 (u ''c9'') (u ''n1'') enrolled_store = Inr (c, s1)
      \<and> c_id c = u ''c9'' \<and> c_method c = Node_Method"
    by (auto simp: approve_node_enrollment_def insert_computer_def Let_def sample_computer_def sample_node_def)
  then obtain c s1 where c: "approve_node_enrollment 600 (u ''c9'') (u ''n1'') enrolled_store = Inr (c, s1)"
    "c_id c = u ''c9''" "c_method c = Node_Method" by blast
  with approval_is_idempotent [OF ok c(1), of "[]" s1 700 "u ''c8''"] show ?thesis by auto
qed

theorem removed_computer_witness:
  "\<exists>s'. remove_computer_registration (u ''c2'') sample_store = Inr ([], s')
    \<and> computers s' = [sample_computer] \<and> store_ok s'"
proof -
  let ?s3 = "delete_roots (\<lambda>r. r_path r = u ''node://'' @ u ''c2'') (delete_roots (\<lambda>r. r_path r = u ''ssh://'' @ u ''c2'')
      (delete_workspaces (\<lambda>w. w_computer w = Some (u ''c2'')) sample_store))"
  have "map m_target (remote_runs ?s3) = [u ''c1'']"
    by (simp only: deleted_rows) (simp add: sample_remote_run_def)
  then have "\<forall>m \<in> set (remote_runs ?s3). m_target m = u ''c1''" by (auto simp: map_eq_Cons_conv)
  then have "\<exists>s'. delete_computers (\<lambda>c. c_id c = u ''c2'') ?s3 = Inr s'"
    by (auto simp: delete_computers_def Let_def)
  then obtain s' where last: "delete_computers (\<lambda>c. c_id c = u ''c2'') ?s3 = Inr s'" by blast
  have r: "remove_computer_registration (u ''c2'') sample_store = Inr ([], s')"
    unfolding remove_computer_registration_def Let_def last
    by (simp add: rowcount_def sample_remote_run_def sample_workspace_def sample_remote_workspace_def)
  with removed_computer_leaves_nothing [OF sample_store_ok r] show ?thesis by simp
qed

end
