(* ===== verification/Store_Open.thy ===== *)
theory Store_Open
  imports Run_Laws Store_Workspaces
begin

text \<open>
  Opening a database of the current schema (\<^verbatim>\<open>StateStore.initialize\<close> in \<^verbatim>\<open>termroom/db.py\<close>): the
  repairs it runs on every start. Workspaces that a Remote Run lives in are marked as such, their
  \<^verbatim>\<open>run\<close> shells become the managed terminal of the run, and every ended Remote Run that has no
  Activity event for its revision gets one, already read and silent.
\<close>

definition mark_run_workspaces :: "store \<Rightarrow> store result" where
  "mark_run_workspaces s =
    (let ws = update_where (linked s) (\<lambda>w. w\<lparr>w_kind := Remote_Run_Kind\<rparr>) (workspaces s) in
     if unique_where remote_located (\<lambda>w. (w_computer w, w_canonical w, w_kind w)) ws
        \<and> unique_where server_terminal_slot w_computer ws
     then Inr (s\<lparr>workspaces := ws\<rparr>) else Inl IntegrityError)"

definition run_of_workspace :: "store \<Rightarrow> ustr \<Rightarrow> ustr option" where
  "run_of_workspace s w = map_option m_id (find (\<lambda>m. m_workspace m = Some w) (remote_runs s))"

definition adoptable :: "store \<Rightarrow> terminal_row \<Rightarrow> bool" where
  "adoptable s t \<longleftrightarrow> t_role t = Shell_Role \<and> t_name t = u ''run''
     \<and> (\<exists>m \<in> set (remote_runs s). m_workspace m = Some (t_workspace t))"

definition adopt_run_terminals :: "store \<Rightarrow> store result" where
  "adopt_run_terminals s =
    (let ts = update_where (adoptable s)
           (\<lambda>t. t\<lparr>t_role := Remote_Run_Role, t_run := run_of_workspace s (t_workspace t)\<rparr>) (terminals s) in
     if unique_where managed (\<lambda>t. (t_workspace t, t_role t)) ts
     then Inr (s\<lparr>terminals := ts\<rparr>) else Inl IntegrityError)"

definition ended_runs :: "store \<Rightarrow> (remote_run_row \<times> ustr) list" where
  "ended_runs s =
    concat (map (\<lambda>m. map (\<lambda>c. (m, c_name c)) (filter (\<lambda>c. c_id c = m_target m) (computers s)))
      (sort_key m_created (filter (\<lambda>m. terminal_state (m_state m)) (remote_runs s))))"

definition backfill_event :: "stamp \<Rightarrow> (remote_run_row \<times> ustr) \<times> ustr \<Rightarrow> store \<Rightarrow> store result" where
  "backfill_event now a = insert_remote_run_event now (snd a) True (fst a)"

definition open_store :: "stamp \<Rightarrow> (nat \<Rightarrow> ustr) \<Rightarrow> store \<Rightarrow> store result" where
  "open_store now new_id s =
    rbind (mark_run_workspaces s) (\<lambda>s1.
    rbind (adopt_run_terminals s1) (\<lambda>s2.
      each (backfill_event now) (zip (ended_runs s2) (map new_id [0..<length (ended_runs s2)])) s2))"

section \<open>The repairs keep the constraints\<close>

lemma mark_run_workspaces_ok [inv_intros]:
  assumes "mark_run_workspaces s = Inr s'" and ok: "store_ok s"
  shows "store_ok s'"
proof -
  let ?ws = "update_where (linked s) (\<lambda>w. w\<lparr>w_kind := Remote_Run_Kind\<rparr>) (workspaces s)"
  from assms(1) have s': "s' = s\<lparr>workspaces := ?ws\<rparr>"
    and unique: "unique_where remote_located (\<lambda>w. (w_computer w, w_canonical w, w_kind w)) ?ws"
      "unique_where server_terminal_slot w_computer ?ws"
    by (auto simp: mark_run_workspaces_def Let_def split: if_splits)
  have "workspaces_ok (root_ids s) ?ws"
    using store_ok_table(2) [OF ok] unique by (simp add: workspaces_ok_def update_table)
  then show ?thesis unfolding s' by (intro store_ok_tables(1) ok) (simp_all add: keys_update_where)
qed

lemma adopt_run_terminals_ok [inv_intros]:
  assumes "adopt_run_terminals s = Inr s'" and ok: "store_ok s"
  shows "store_ok s'"
proof -
  let ?ts = "update_where (adoptable s)
     (\<lambda>t. t\<lparr>t_role := Remote_Run_Role, t_run := run_of_workspace s (t_workspace t)\<rparr>) (terminals s)"
  from assms(1) have s': "s' = s\<lparr>terminals := ?ts\<rparr>"
    and unique: "unique_where managed (\<lambda>t. (t_workspace t, t_role t)) ?ts"
    by (auto simp: adopt_run_terminals_def Let_def split: if_splits)
  have "terminals_ok (workspace_ids s) ?ts"
    using store_ok_table(4) [OF ok] unique by (simp add: terminals_ok_def update_table)
  then show ?thesis unfolding s' by (intro store_ok_tables(3) ok) (simp_all add: keys_update_where)
qed

lemma backfill_event_ok:
  "backfill_event now a s = Inr s' \<Longrightarrow> store_ok s \<Longrightarrow> store_ok s'"
  by (auto simp: backfill_event_def insert_remote_run_event_def split: if_splits intro: insert_event_ok)

lemma open_store_ok [inv_intros]:
  assumes "open_store now ids s = Inr s'" and "store_ok s"
  shows "store_ok s'"
proof -
  from assms(1) obtain s1 s2 where s1: "mark_run_workspaces s = Inr s1" and s2: "adopt_run_terminals s1 = Inr s2"
    and s': "each (backfill_event now) (zip (ended_runs s2) (map ids [0..<length (ended_runs s2)])) s2 = Inr s'"
    by (auto simp: open_store_def rbind_Inr_iff)
  have "store_ok s2" by (rule adopt_run_terminals_ok [OF s2 mark_run_workspaces_ok [OF s1 assms(2)]])
  with s' show ?thesis by (rule each_invariant [where P = store_ok]) (rule backfill_event_ok)
qed

section \<open>A second start changes nothing\<close>

definition has_event :: "store \<Rightarrow> remote_run_row \<Rightarrow> bool" where
  "has_event s m \<longleftrightarrow> (\<exists>e \<in> set (events s). e_subject_type e = Remote_Run_Subject \<and> e_subject e = m_id m
     \<and> e_revision e = m_revision m)"

text \<open>Everything a later step may look at stays, events are only added, and the added ones are silent.\<close>

definition only_adds_silent :: "store \<Rightarrow> store \<Rightarrow> bool" where
  "only_adds_silent s s' \<longleftrightarrow> s' = s\<lparr>events := events s', event_sequence := event_sequence s'\<rparr>
     \<and> (\<exists>es. events s' = events s @ es \<and> (\<forall>e \<in> set es. \<not> e_notify e \<and> e_read e = Some (e_occurred e)))"

lemma only_adds_silent_refl: "only_adds_silent s s"
  by (simp add: only_adds_silent_def)

lemma only_adds_silent_trans:
  assumes "only_adds_silent a b" and "only_adds_silent b c"
  shows "only_adds_silent a c"
proof -
  from assms obtain xs ys where ab: "b = a\<lparr>events := events b, event_sequence := event_sequence b\<rparr>"
      "events b = events a @ xs" "\<forall>e \<in> set xs. \<not> e_notify e \<and> e_read e = Some (e_occurred e)"
    and bc: "c = b\<lparr>events := events c, event_sequence := event_sequence c\<rparr>"
      "events c = events b @ ys" "\<forall>e \<in> set ys. \<not> e_notify e \<and> e_read e = Some (e_occurred e)"
    by (auto simp: only_adds_silent_def)
  have "c = a\<lparr>events := events c, event_sequence := event_sequence c\<rparr>"
    by (subst bc(1), subst ab(1)) simp
  with ab bc show ?thesis by (auto simp: only_adds_silent_def)
qed

lemma has_event_mono: "only_adds_silent s s' \<Longrightarrow> has_event s m \<Longrightarrow> has_event s' m"
  by (auto simp: only_adds_silent_def has_event_def)

lemma backfill_step:
  assumes "backfill_event now a s = Inr s'" and "terminal_state (m_state (fst (fst a)))"
  shows "only_adds_silent s s' \<and> has_event s' (fst (fst a))"
  using assms
  by (auto simp: backfill_event_def insert_remote_run_event_def insert_event_or_ignore_def remote_run_event_def
      only_adds_silent_def has_event_def Let_def image_iff split: if_splits) metis

lemma backfill_all:
  assumes "each (backfill_event now) xs s = Inr s'" and "\<forall>a \<in> set xs. terminal_state (m_state (fst (fst a)))"
  shows "only_adds_silent s s' \<and> (\<forall>a \<in> set xs. has_event s' (fst (fst a)))"
  using assms
proof (induction xs arbitrary: s)
  case Nil
  then show ?case by (simp add: only_adds_silent_refl)
next
  case (Cons a xs)
  from Cons.prems(1) obtain s1 where s1: "backfill_event now a s = Inr s1" and rest: "each (backfill_event now) xs s1 = Inr s'"
    by (auto simp: rbind_Inr_iff)
  have "only_adds_silent s s1 \<and> has_event s1 (fst (fst a))" by (rule backfill_step [OF s1]) (use Cons.prems in simp)
  moreover have "only_adds_silent s1 s' \<and> (\<forall>a \<in> set xs. has_event s' (fst (fst a)))"
    by (rule Cons.IH [OF rest]) (use Cons.prems in simp)
  ultimately show ?case by (auto intro: only_adds_silent_trans has_event_mono)
qed

lemma backfill_none:
  assumes "\<forall>a \<in> set xs. has_event s (fst (fst a))"
  shows "each (backfill_event now) xs s = Inr s"
  using assms
proof (induction xs)
  case (Cons a xs)
  then have "backfill_event now a s = Inr s"
    by (auto simp: backfill_event_def insert_remote_run_event_def insert_event_or_ignore_def remote_run_event_def
        has_event_def Let_def image_iff)
  with Cons show ?case by simp
qed simp

lemma update_where_again:
  assumes "\<And>r. r \<in> set rs \<Longrightarrow> q (if p r then f r else r) \<Longrightarrow> g (if p r then f r else r) = (if p r then f r else r)"
  shows "update_where q g (update_where p f rs) = update_where p f rs"
  unfolding update_where_def map_map
proof (rule map_cong [OF refl])
  fix r assume "r \<in> set rs"
  with assms [of r] show "((\<lambda>r. if q r then g r else r) \<circ> (\<lambda>r. if p r then f r else r)) r = (if p r then f r else r)"
    by (cases "q (if p r then f r else r)") (simp_all only: comp_def if_True if_False)
qed

lemma ended_runs_terminal: "a \<in> set (ended_runs s) \<Longrightarrow> terminal_state (m_state (fst a))"
  by (auto simp: ended_runs_def)

text \<open>Starting twice is starting once: after a successful start a further one, at any time and with
  any new identifiers, finds nothing to repair. The start itself adds at most silent events that
  count as read, so it notifies no device, and afterwards every ended Remote Run has its event.\<close>

theorem reopening_changes_nothing:
  assumes ok: "store_ok s" and step: "open_store now ids s = Inr s'"
  shows "open_store now' ids' s' = Inr s'
    \<and> (\<exists>es. events s' = events s @ es \<and> (\<forall>e \<in> set es. \<not> e_notify e \<and> e_read e = Some (e_occurred e)))
    \<and> (\<forall>m \<in> set (remote_runs s'). terminal_state (m_state m) \<longrightarrow> has_event s' m)"
proof -
  let ?f = "\<lambda>w. w\<lparr>w_kind := Remote_Run_Kind\<rparr>"
  let ?g = "\<lambda>t. t\<lparr>t_role := Remote_Run_Role, t_run := run_of_workspace s (t_workspace t)\<rparr>"
  from step obtain s1 s2 where one: "mark_run_workspaces s = Inr s1" and two: "adopt_run_terminals s1 = Inr s2"
    and three: "each (backfill_event now) (zip (ended_runs s2) (map ids [0..<length (ended_runs s2)])) s2 = Inr s'"
    by (auto simp: open_store_def rbind_Inr_iff)
  from one have s1: "s1 = s\<lparr>workspaces := update_where (linked s) ?f (workspaces s)\<rparr>"
    and u1: "unique_where remote_located (\<lambda>w. (w_computer w, w_canonical w, w_kind w)) (workspaces s1)"
      "unique_where server_terminal_slot w_computer (workspaces s1)"
    by (auto simp: mark_run_workspaces_def Let_def split: if_splits)
  have runs1: "adoptable s1 = adoptable s" "run_of_workspace s1 = run_of_workspace s" "terminals s1 = terminals s"
    by (auto simp: s1 adoptable_def run_of_workspace_def)
  from two have s2: "s2 = s1\<lparr>terminals := update_where (adoptable s) ?g (terminals s)\<rparr>"
    and u2: "unique_where managed (\<lambda>t. (t_workspace t, t_role t)) (terminals s2)"
    by (auto simp: adopt_run_terminals_def Let_def runs1 split: if_splits)
  have "only_adds_silent s2 s' \<and> (\<forall>a \<in> set (zip (ended_runs s2) (map ids [0..<length (ended_runs s2)])). has_event s' (fst (fst a)))"
    by (rule backfill_all [OF three]) (auto dest!: set_zip_leftD ended_runs_terminal)
  moreover have "set (ended_runs s2) = fst ` set (zip (ended_runs s2) (map ids [0..<length (ended_runs s2)]))"
    by (simp flip: set_map)
  ultimately have adds: "only_adds_silent s2 s'" and all: "\<And>a. a \<in> set (ended_runs s2) \<Longrightarrow> has_event s' (fst a)"
    by auto
  from adds have s': "s' = s2\<lparr>events := events s', event_sequence := event_sequence s'\<rparr>"
    by (simp add: only_adds_silent_def)
  have tables: "workspaces s' = workspaces s1" "terminals s' = terminals s2" "remote_runs s' = remote_runs s"
    "computers s' = computers s"
    by (subst s', simp add: s2 s1)+
  have preds: "linked s' = linked s" "adoptable s' = adoptable s" "run_of_workspace s' = run_of_workspace s"
    by (auto simp: linked_def adoptable_def run_of_workspace_def tables)
  have "update_where (linked s') ?f (workspaces s') = workspaces s'"
    unfolding preds tables s1 by simp (rule update_where_again, auto simp: linked_def)
  then have m: "mark_run_workspaces s' = Inr s'"
    using u1 by (simp add: mark_run_workspaces_def tables)
  have "update_where (adoptable s') (\<lambda>t. t\<lparr>t_role := Remote_Run_Role, t_run := run_of_workspace s' (t_workspace t)\<rparr>) (terminals s')
      = terminals s'"
    unfolding preds tables s2 by simp (rule update_where_again, auto simp: adoptable_def)
  then have a: "adopt_run_terminals s' = Inr s'"
    using u2 by (simp add: adopt_run_terminals_def tables)
  have "ended_runs s' = ended_runs s2" by (simp add: ended_runs_def tables) (simp add: s2 s1)
  then have "each (backfill_event now') (zip (ended_runs s') (map ids' [0..<length (ended_runs s')])) s' = Inr s'"
    using all by (intro backfill_none) (auto dest!: set_zip_leftD)
  with m a have "open_store now' ids' s' = Inr s'" by (simp add: open_store_def)
  moreover have "\<forall>m \<in> set (remote_runs s'). terminal_state (m_state m) \<longrightarrow> has_event s' m"
  proof (intro ballI impI)
    fix m assume m: "m \<in> set (remote_runs s')" "terminal_state (m_state m)"
    then obtain c where "c \<in> set (computers s)" "c_id c = m_target m"
      using store_ok_table(8) [OF ok] unfolding remote_runs_ok_def tables by (metis imageE)
    then have "(m, c_name c) \<in> set (ended_runs s2)"
      using m by (force simp: ended_runs_def s2 s1 tables)
    from all [OF this] show "has_event s' m" by simp
  qed
  moreover have "events s2 = events s" by (simp add: s2 s1)
  ultimately show ?thesis using adds by (auto simp: only_adds_silent_def)
qed

definition ended_store :: store where
  "ended_store = sample_store\<lparr>remote_runs :=
     update_where (\<lambda>_. True) (\<lambda>m. m\<lparr>m_state := Finished, m_exit := Some 0\<rparr>) (remote_runs sample_store)\<rparr>"

lemma ended_store_ok: "store_ok ended_store"
  unfolding ended_store_def by (rule update_remote_runs_ok [OF sample_store_ok]) simp_all

theorem reopening_witness:
  "\<exists>s'. open_store 500 fresh_id ended_store = Inr s' \<and> length (events s') = 2
    \<and> open_store 900 fresh_id s' = Inr s'"
proof -
  have marked: "mark_run_workspaces ended_store = Inr ended_store"
    by (simp add: ended_store_def mark_run_workspaces_def linked_def sample_remote_run_def sample_workspace_def
        sample_remote_workspace_def remote_located_def server_terminal_slot_def)
  have adopted: "adopt_run_terminals ended_store = Inr ended_store"
    by (simp add: ended_store_def adopt_run_terminals_def adoptable_def sample_remote_run_def sample_shell_def
        sample_run_terminal_def managed_def)
  have runs: "ended_runs ended_store = [(sample_remote_run\<lparr>m_state := Finished, m_exit := Some 0\<rparr>, u ''box'')]"
    by (simp add: ended_runs_def ended_store_def) (simp add: sample_remote_run_def sample_computer_def sample_node_def)
  have "\<exists>s'. open_store 500 fresh_id ended_store = Inr s' \<and> length (events s') = 2"
    by (simp add: open_store_def marked adopted runs backfill_event_def insert_remote_run_event_def
        insert_event_or_ignore_def remote_run_event_def Let_def)
      (simp add: ended_store_def sample_event_def fresh_id_def u_def)
  then obtain s' where s': "open_store 500 fresh_id ended_store = Inr s'" "length (events s') = 2" by blast
  with reopening_changes_nothing [OF ended_store_ok s'(1), of 900 fresh_id] show ?thesis by blast
qed

end
