(* ===== verification/Store_Machine.thy ===== *)
theory Store_Machine
  imports Store_Open Computer_Laws Terminal_Laws Store_Activity
begin

text \<open>
  The whole \<^verbatim>\<open>StateStore\<close> as one machine: every method that writes to the database is a call, a call
  that raises is rolled back, and any sequence of calls from the empty database keeps every
  constraint of the schema, across all tables.
\<close>

datatype store_call =
    Open_Store stamp "nat \<Rightarrow> ustr"
  | Ensure_Root stamp ustr ustr
  | Remove_Root ustr
  | Create_Workspace "ustr \<Rightarrow> ustr" "nat \<Rightarrow> bool" stamp "nat \<Rightarrow> ustr" ustr ustr ustr "ustr option" ustr
      "ustr option" "ustr option" ustr
  | Set_Workspace_Kind ustr ustr
  | Touch_Workspace stamp ustr "ustr option"
  | Rename_Workspace ustr ustr
  | Remove_Workspace ustr
  | Replace_Commands ustr "jvalue list"
  | Replace_Commands_If ustr "jvalue list" "jvalue list"
  | Create_Terminal stamp ustr ustr ustr ustr "ustr option" "ustr option" activity_arg
  | Reconcile stamp "nat \<Rightarrow> ustr" ustr "live_window list"
  | Observe "(ustr \<times> observation list) list"
  | Reset_Terminals ustr
  | Touch_Terminal stamp ustr
  | Touch_Output stamp ustr
  | Rename_Terminal ustr ustr
  | Delete_Terminal ustr
  | Summarize_Activity stamp "ustr option" "ustr list option" "ustr option"
  | Acknowledge stamp ustr activity_arg
  | Add_Command stamp ustr ustr ustr ustr
  | Clear_Commands ustr
  | Claim_Launch stamp ustr ustr int ustr
  | Claim_File_Run stamp file_claim
  | Set_File_Run_Terminal ustr ustr
  | Transition_File_Run stamp ustr ustr file_change
  | Create_Remote_Run remote_values
  | Save_Report "jvalue \<Rightarrow> ustr" stamp ustr ustr "(ustr \<times> jvalue) list"
  | Attach_Workspace ustr ustr
  | Detach_Workspace ustr "ustr option"
  | Delete_Run_Workspace ustr
  | Transition_Remote_Run stamp ustr ustr remote_change
  | Expire_Remote_Run ustr stamp
  | Delete_Remote_Run ustr
  | Prune_History rat clock
  | List_Events rat stamp int "ustr option"
  | Count_Unread rat stamp "ustr option"
  | Mark_Read stamp ustr "ustr option"
  | Mark_All_Read stamp "ustr option"
  | Claim_Notifications rat stamp ustr int
  | Computer_Call computer_op

definition last_of :: "'a \<times> 'b \<times> store \<Rightarrow> store" where
  "last_of r = snd (snd r)"

fun store_exec :: "store_call \<Rightarrow> store \<Rightarrow> store" where
  "store_exec (Open_Store now ids) s = settle id s (open_store now ids s)"
| "store_exec (Ensure_Root now i p) s = settle snd s (ensure_root_value now i p s)"
| "store_exec (Remove_Root i) s = settle id s (remove_local_root i s)"
| "store_exec (Create_Workspace fc al now ids r rel name tmux b c can k) s =
     settle snd s (create_workspace fc al now ids r rel name tmux b c can k s)"
| "store_exec (Set_Workspace_Kind i k) s = settle id s (update_workspace_kind i k s)"
| "store_exec (Touch_Workspace now i tab) s = touch_workspace now i tab s"
| "store_exec (Rename_Workspace i n) s = settle id s (update_workspace_display_name i n s)"
| "store_exec (Remove_Workspace i) s = settle id s (remove_workspace_registration i s)"
| "store_exec (Replace_Commands i vs) s = settle snd s (replace_workspace_commands i vs s)"
| "store_exec (Replace_Commands_If i es vs) s = settle snd s (replace_workspace_commands_if_current i es vs s)"
| "store_exec (Create_Terminal now i w n win r run act) s = settle snd s (create_terminal now i w n win r run act s)"
| "store_exec (Reconcile now ids w raws) s = settle snd s (reconcile_terminals now ids w raws s)"
| "store_exec (Observe b) s = settle snd s (observe_terminal_activity_batch b s)"
| "store_exec (Reset_Terminals w) s = reset_terminals w s"
| "store_exec (Touch_Terminal now i) s = touch_terminal now i s"
| "store_exec (Touch_Output now i) s = settle id s (touch_terminal_output now i s)"
| "store_exec (Rename_Terminal i n) s = rename_terminal i n s"
| "store_exec (Delete_Terminal i) s = delete_terminal i s"
| "store_exec (Summarize_Activity now w ws t) s = snd (terminal_activity_summary now w ws t s)"
| "store_exec (Acknowledge now i n) s = settle snd s (acknowledge_terminal_activity now i n s)"
| "store_exec (Add_Command now i w t c) s = settle id s (add_command now i w t c s)"
| "store_exec (Clear_Commands w) s = clear_commands w s"
| "store_exec (Claim_Launch now w l n d) s = settle snd s (claim_workspace_command now w l n d s)"
| "store_exec (Claim_File_Run now p) s = settle last_of s (claim_file_run now p s)"
| "store_exec (Set_File_Run_Terminal i t) s = settle snd s (set_file_run_terminal i t s)"
| "store_exec (Transition_File_Run now nid i c) s = settle snd s (transition_file_run now nid i c s)"
| "store_exec (Create_Remote_Run v) s = settle last_of s (create_remote_run v s)"
| "store_exec (Save_Report f now q i r) s = settle snd s (save_remote_run_collection_report f now q i r s)"
| "store_exec (Attach_Workspace i w) s = settle snd s (attach_remote_run_workspace i w s)"
| "store_exec (Detach_Workspace i w) s = settle snd s (detach_remote_run_workspace i w s)"
| "store_exec (Delete_Run_Workspace i) s = settle snd s (delete_remote_run_workspace i s)"
| "store_exec (Transition_Remote_Run now nid i c) s = settle snd s (transition_remote_run now nid i c s)"
| "store_exec (Expire_Remote_Run i now) s = snd (expire_remote_run_now i now s)"
| "store_exec (Delete_Remote_Run i) s = settle id s (delete_remote_run i s)"
| "store_exec (Prune_History tick now) s = settle last_of s (prune_history tick now s)"
| "store_exec (List_Events tick now l d) s = settle snd s (list_activity_events tick now l d s)"
| "store_exec (Count_Unread tick now d) s = settle snd s (count_unread_events tick now d s)"
| "store_exec (Mark_Read now i d) s = snd (mark_event_read now i d s)"
| "store_exec (Mark_All_Read now d) s = snd (mark_all_events_read now d s)"
| "store_exec (Claim_Notifications tick now d l) s = settle snd s (claim_event_notifications tick now d l s)"
| "store_exec (Computer_Call op) s = computer_exec op s"

lemmas call_ok =
  open_store_ok ensure_root_value_ok remove_local_root_ok create_workspace_ok update_workspace_kind_ok
  update_workspace_display_name_ok remove_workspace_registration_ok replace_workspace_commands_ok
  replace_workspace_commands_if_current_ok create_terminal_ok reconcile_terminals_ok observe_batch_ok
  touch_terminal_output_ok acknowledge_ok add_command_ok claim_workspace_command_ok claim_file_run_ok
  set_file_run_terminal_ok transition_file_run_ok create_remote_run_ok save_report_ok attach_ok detach_ok
  delete_remote_run_workspace_ok transition_remote_run_ok delete_remote_run_ok prune_history_ok
  list_activity_events_ok count_unread_events_ok claim_event_notifications_ok

lemmas total_call_ok =
  touch_workspace_ok reset_terminals_ok touch_terminal_ok rename_terminal_ok delete_terminal_ok
  terminal_activity_summary_ok clear_commands_ok expire_remote_run_now_ok mark_event_read_ok
  mark_all_events_read_ok computer_exec_ok

lemma store_exec_ok: "store_ok s \<Longrightarrow> store_ok (store_exec call s)"
  by (cases call) (auto simp: settle_def last_of_def total_call_ok split: sum.split dest: call_ok)

interpretation state_store: machine empty_store store_exec "\<lambda>_ _. True" store_ok
  by unfold_locales (simp_all add: store_ok_empty store_exec_ok)

lemma all_admissible: "admissible (\<lambda>_ _. True) exec ops s"
  by (induction ops arbitrary: s) simp_all

text \<open>Whatever sequence of methods is called on a new database, in whatever order and with whatever
  arguments, no table ever breaks a key, uniqueness, foreign key or partial index constraint: in
  particular no terminal, run, read mark or claim outlives its parent, a Workspace never has two
  active File Runs, and a Remote Run Workspace belongs to one run.\<close>

theorem store_constraints_always_hold:
  "store_ok (fold store_exec calls empty_store)"
  by (rule state_store.inv_from_start) (rule all_admissible)

text \<open>One consequence spelled out: at most one File Run of a Workspace is active after any calls.\<close>

corollary one_active_file_run:
  "length (filter (\<lambda>f. f_workspace f = w \<and> active_file_run f) (file_runs (fold store_exec calls empty_store))) \<le> 1"
proof -
  have "unique_where active_file_run f_workspace (file_runs (fold store_exec calls empty_store))"
    using store_ok_table(7) [OF state_store.inv_from_start [OF all_admissible, of calls]]
    by (simp add: file_runs_ok_def)
  then have "length (filter (\<lambda>f. f_workspace f = w) (filter active_file_run (file_runs (fold store_exec calls empty_store)))) \<le> 1"
    unfolding unique_where_def
  proof -
    assume "distinct (map f_workspace (filter active_file_run (file_runs (fold store_exec calls empty_store))))"
    then show ?thesis
      using filter_distinct_key [of f_workspace "filter active_file_run (file_runs (fold store_exec calls empty_store))"]
      by (cases "\<exists>f \<in> set (filter active_file_run (file_runs (fold store_exec calls empty_store))). f_workspace f = w")
        (fastforce simp: filter_empty_conv)+
  qed
  then show ?thesis by (simp add: conj_commute)
qed

end
