(* ===== verification/Python_Text.thy ===== *)
theory Python_Text
  imports Prelude
begin

text \<open>
  The parts of Python's \<^verbatim>\<open>str\<close> and \<^verbatim>\<open>bytes\<close> that the file and run modules use: replacing, splitting at
  a separator, prefixes and suffixes, and the UTF-8 codec (the strict decoder and the incremental
  one) on code points and bytes. Bytes are natural numbers; the decoder rejects what is not a byte.
\<close>

section \<open>Replacing, splitting, prefixes\<close>

text \<open>\<^verbatim>\<open>s.replace(old, new)\<close> with a non-empty \<open>old\<close>: occurrences from the left, not overlapping.\<close>

fun replace_all :: "ustr \<Rightarrow> ustr \<Rightarrow> ustr \<Rightarrow> ustr" where
  "replace_all old new [] = []"
| "replace_all old new (c # cs) =
     (if starts_with old (c # cs) then new @ replace_all old new (drop (length old - 1) cs)
      else c # replace_all old new cs)"

text \<open>\<^verbatim>\<open>sub in s\<close>.\<close>

fun contains :: "ustr \<Rightarrow> ustr \<Rightarrow> bool" where
  "contains sub [] \<longleftrightarrow> sub = []"
| "contains sub (c # cs) \<longleftrightarrow> starts_with sub (c # cs) \<or> contains sub cs"

text \<open>\<^verbatim>\<open>s.split(sep)\<close> with a one-character separator: never empty.\<close>

fun split_on :: "nat \<Rightarrow> ustr \<Rightarrow> ustr list" where
  "split_on d [] = [[]]"
| "split_on d (c # cs) =
     (if c = d then [] # split_on d cs
      else (case split_on d cs of [] \<Rightarrow> [[c]] | p # ps \<Rightarrow> (c # p) # ps))"

definition ends_with :: "ustr \<Rightarrow> ustr \<Rightarrow> bool" where
  "ends_with p s \<longleftrightarrow> starts_with (rev p) (rev s)"

definition remove_prefix :: "ustr \<Rightarrow> ustr \<Rightarrow> ustr" where
  "remove_prefix p s = (if starts_with p s then drop (length p) s else s)"

text \<open>\<^verbatim>\<open>s.rstrip(c)\<close> and \<^verbatim>\<open>s.strip(c)\<close> for one character.\<close>

definition rstrip_char :: "nat \<Rightarrow> ustr \<Rightarrow> ustr" where
  "rstrip_char d s = rev (dropWhile (\<lambda>c. c = d) (rev s))"

definition strip_char :: "nat \<Rightarrow> ustr \<Rightarrow> ustr" where
  "strip_char d s = rstrip_char d (dropWhile (\<lambda>c. c = d) s)"

definition slash :: nat where "slash = of_char (CHR ''/'')"
definition backslash :: nat where "backslash = 92"
definition dot :: ustr where "dot = u ''.''"
definition dotdot :: ustr where "dotdot = u ''..''"

lemma starts_with_Nil [simp]: "starts_with [] s"
  by (simp add: starts_with_def)

lemma starts_with_Cons [simp]: "starts_with (a # p) (c # s) \<longleftrightarrow> a = c \<and> starts_with p s"
  by (auto simp: starts_with_def)

lemma starts_with_Cons_Nil [simp]: "\<not> starts_with (a # p) []"
  by (simp add: starts_with_def)

lemma starts_with_iff: "starts_with p s \<longleftrightarrow> (\<exists>t. s = p @ t)"
  by (auto simp: starts_with_def) (metis append_take_drop_id)

lemma split_on_not_Nil [simp]: "split_on d s \<noteq> []"
  by (cases s) (auto split: list.split)

lemma join_split_on: "join [d] (split_on d s) = s"
proof (induction s)
  case (Cons c cs)
  obtain p ps where "split_on d cs = p # ps" by (cases "split_on d cs") auto
  with Cons show ?case by (cases ps) auto
qed simp

lemma split_on_parts: "p \<in> set (split_on d s) \<Longrightarrow> d \<notin> set p"
proof (induction s arbitrary: p)
  case (Cons c cs)
  obtain q qs where "split_on d cs = q # qs" by (cases "split_on d cs") auto
  with Cons show ?case by (auto split: if_splits)
qed simp

lemma split_on_word: "d \<notin> set p \<Longrightarrow> split_on d p = [p]"
  by (induction p) auto

lemma split_on_word_append: "d \<notin> set p \<Longrightarrow> split_on d (p @ d # s) = p # split_on d s"
  by (induction p) auto

lemma split_on_join:
  "ps \<noteq> [] \<Longrightarrow> \<forall>p \<in> set ps. d \<notin> set p \<Longrightarrow> split_on d (join [d] ps) = ps"
proof (induction ps)
  case (Cons p ps)
  then show ?case by (cases ps) (auto simp: split_on_word split_on_word_append)
qed simp

lemma set_split_on: "p \<in> set (split_on d s) \<Longrightarrow> set p \<subseteq> set s"
proof (induction s arbitrary: p)
  case (Cons c cs)
  obtain q qs where "split_on d cs = q # qs" by (cases "split_on d cs") auto
  with Cons show ?case by (fastforce split: if_splits)
qed simp

section \<open>UTF-8\<close>

type_synonym bytes = "nat list"

text \<open>A code point that has a UTF-8 form.\<close>

definition scalar :: "nat \<Rightarrow> bool" where
  "scalar c \<longleftrightarrow> c < 0x110000 \<and> \<not> is_surrogate c"

definition utf8_char :: "nat \<Rightarrow> bytes" where
  "utf8_char c =
    (if c < 0x80 then [c]
     else if c < 0x800 then [0xC0 + c div 64, 0x80 + c mod 64]
     else if c < 0x10000 then [0xE0 + c div 4096, 0x80 + c div 64 mod 64, 0x80 + c mod 64]
     else [0xF0 + c div 262144, 0x80 + c div 4096 mod 64, 0x80 + c div 64 mod 64, 0x80 + c mod 64])"

definition utf8_bytes :: "ustr \<Rightarrow> bytes" where
  "utf8_bytes s = concat (map utf8_char s)"

text \<open>\<^verbatim>\<open>s.encode("utf-8")\<close>.\<close>

definition utf8_encode :: "ustr \<Rightarrow> bytes option" where
  "utf8_encode s = (if list_all scalar s then Some (utf8_bytes s) else None)"

definition continuation :: "nat \<Rightarrow> bool" where
  "continuation b \<longleftrightarrow> 0x80 \<le> b \<and> b \<le> 0xBF"

text \<open>The second byte of a three-byte and of a four-byte sequence: no overlong forms, no surrogates,
  nothing above U+10FFFF.\<close>

definition second_of_three :: "nat \<Rightarrow> nat \<Rightarrow> bool" where
  "second_of_three a b \<longleftrightarrow> continuation b \<and> (if b < 0xA0 then a \<noteq> 0xE0 else a \<noteq> 0xED)"

definition second_of_four :: "nat \<Rightarrow> nat \<Rightarrow> bool" where
  "second_of_four a b \<longleftrightarrow> continuation b \<and> (if b < 0x90 then a \<noteq> 0xF0 else a \<noteq> 0xF4)"

text \<open>The next character of a byte string; \<open>Truncated\<close>: the bytes end inside a sequence that could
  still become valid.\<close>

datatype scanned = Scanned nat bytes | Truncated | Bad_Bytes

definition scan_two :: "nat \<Rightarrow> bytes \<Rightarrow> scanned" where
  "scan_two a s = (case s of [] \<Rightarrow> Truncated
     | b # r \<Rightarrow> if continuation b then Scanned ((a - 0xC0) * 64 + (b - 0x80)) r else Bad_Bytes)"

definition scan_three :: "nat \<Rightarrow> bytes \<Rightarrow> scanned" where
  "scan_three a s = (case s of [] \<Rightarrow> Truncated
     | b # s' \<Rightarrow> if \<not> second_of_three a b then Bad_Bytes
        else (case s' of [] \<Rightarrow> Truncated
          | b' # r \<Rightarrow> if continuation b'
              then Scanned ((a - 0xE0) * 4096 + (b - 0x80) * 64 + (b' - 0x80)) r else Bad_Bytes))"

definition scan_four :: "nat \<Rightarrow> bytes \<Rightarrow> scanned" where
  "scan_four a s = (case s of [] \<Rightarrow> Truncated
     | b # s' \<Rightarrow> if \<not> second_of_four a b then Bad_Bytes
        else (case s' of [] \<Rightarrow> Truncated
          | b' # s'' \<Rightarrow> if \<not> continuation b' then Bad_Bytes
             else (case s'' of [] \<Rightarrow> Truncated
               | b'' # r \<Rightarrow> if continuation b''
                   then Scanned ((a - 0xF0) * 262144 + (b - 0x80) * 4096 + (b' - 0x80) * 64 + (b'' - 0x80)) r
                   else Bad_Bytes)))"

definition scan_char :: "nat \<Rightarrow> bytes \<Rightarrow> scanned" where
  "scan_char a s =
    (if a < 0x80 then Scanned a s
     else if a < 0xC2 then Bad_Bytes
     else if a < 0xE0 then scan_two a s
     else if a < 0xF0 then scan_three a s
     else if a < 0xF5 then scan_four a s
     else Bad_Bytes)"

lemma scan_char_shorter: "scan_char a s = Scanned c r \<Longrightarrow> length r \<le> length s"
  by (auto simp: scan_char_def scan_two_def scan_three_def scan_four_def split: if_splits list.splits)

text \<open>
  One call of the incremental decoder. When more bytes may follow (\<open>final\<close> is false) a truncated
  sequence at the end waits, and so do the two first bytes of an encoded surrogate; everything else
  raises \<^verbatim>\<open>UnicodeDecodeError\<close> (\<open>None\<close>). \<^verbatim>\<open>raw.decode("utf-8")\<close> is the call with \<open>final\<close>.
\<close>

definition pending_surrogate :: "nat \<Rightarrow> bytes \<Rightarrow> bool" where
  "pending_surrogate a s \<longleftrightarrow> a = 0xED \<and> length s = 1 \<and> 0xA0 \<le> hd s \<and> hd s \<le> 0xBF"

function utf8_decode :: "bool \<Rightarrow> bytes \<Rightarrow> ustr option" where
  "utf8_decode final [] = Some []"
| "utf8_decode final (a # s) =
     (case scan_char a s of
        Scanned c r \<Rightarrow> (case utf8_decode final r of None \<Rightarrow> None | Some t \<Rightarrow> Some (c # t))
      | Truncated \<Rightarrow> if final then None else Some []
      | Bad_Bytes \<Rightarrow> if \<not> final \<and> pending_surrogate a s then Some [] else None)"
  by pat_completeness auto
termination by (relation "measure (\<lambda>(f, s). length s)") (auto dest: scan_char_shorter)

lemma pending_surrogate_simps [simp]:
  "pending_surrogate a [] \<longleftrightarrow> False"
  "pending_surrogate a [b] \<longleftrightarrow> a = 0xED \<and> 0xA0 \<le> b \<and> b \<le> 0xBF"
  "pending_surrogate a (b # c # s) \<longleftrightarrow> False"
  by (auto simp: pending_surrogate_def)

lemmas scan_defs = scan_char_def scan_two_def scan_three_def scan_four_def second_of_three_def
  second_of_four_def continuation_def


section \<open>The codec is faithful\<close>

lemma scan_two_char:
  assumes "0x80 \<le> c" and "c < 0x800"
  shows "scan_char (0xC0 + c div 64) ((0x80 + c mod 64) # s) = Scanned c s"
proof -
  have "2 \<le> c div 64" "c div 64 < 32" "c mod 64 < 64" "c div 64 * 64 + c mod 64 = c"
    using assms by simp_all
  then show ?thesis by (simp add: scan_defs)
qed

lemma digits_64: "c = c div 64 * 64 + c mod 64" "c div 4096 = c div 64 div 64" "c div 262144 = c div 64 div 64 div 64"
  for c :: nat
  by (simp_all add: div_mult2_eq [symmetric])

lemma scan_three_digits:
  assumes "a < 16" and "b < 64" and "d < 64" and "a \<noteq> 0 \<or> 32 \<le> b" and "a \<noteq> 13 \<or> b < 32"
  shows "scan_char (0xE0 + a) ((0x80 + b) # (0x80 + d) # s) = Scanned (a * 4096 + b * 64 + d) s"
  using assms by (auto simp: scan_defs)

lemma scan_four_digits:
  assumes "a < 5" and "b < 64" and "d < 64" and "e < 64" and "a \<noteq> 0 \<or> 16 \<le> b" and "a \<noteq> 4 \<or> b < 16"
  shows "scan_char (0xF0 + a) ((0x80 + b) # (0x80 + d) # (0x80 + e) # s)
    = Scanned (a * 262144 + b * 4096 + d * 64 + e) s"
  using assms by (auto simp: scan_defs)

lemma scan_three_char:
  assumes "0x800 \<le> c" and "c < 0x10000" and "\<not> is_surrogate c"
  shows "scan_char (0xE0 + c div 4096) ((0x80 + c div 64 mod 64) # (0x80 + c mod 64) # s) = Scanned c s"
proof -
  define a b d where "a = c div 4096" and "b = c div 64 mod 64" and "d = c mod 64"
  have "c div 64 = a * 64 + b"
    unfolding a_def b_def digits_64(2) by (rule digits_64(1))
  then have c: "c = a * 4096 + b * 64 + d"
    unfolding d_def using digits_64(1) [of c] by linarith
  have small: "a < 16" "b < 64" "d < 64" using assms by (simp_all add: a_def b_def d_def)
  have "32 \<le> b" if "a = 0" using assms(1) small that unfolding c by linarith
  moreover have "b < 32" if "a = 13"
    using assms(3) small that unfolding c is_surrogate_def by auto
  ultimately have "scan_char (0xE0 + a) ((0x80 + b) # (0x80 + d) # s) = Scanned (a * 4096 + b * 64 + d) s"
    using small by (intro scan_three_digits) auto
  then show ?thesis unfolding c [symmetric] by (simp only: a_def b_def d_def)
qed

lemma scan_four_char:
  assumes "0x10000 \<le> c" and "c < 0x110000"
  shows "scan_char (0xF0 + c div 262144)
     ((0x80 + c div 4096 mod 64) # (0x80 + c div 64 mod 64) # (0x80 + c mod 64) # s) = Scanned c s"
proof -
  define a b d e where "a = c div 262144" and "b = c div 4096 mod 64" and "d = c div 64 mod 64" and "e = c mod 64"
  have "c div 64 div 64 = a * 64 + b"
    unfolding a_def b_def digits_64(2,3) by (rule digits_64(1))
  then have "c div 64 = a * 4096 + b * 64 + d"
    unfolding d_def using digits_64(1) [of "c div 64"] by linarith
  then have c: "c = a * 262144 + b * 4096 + d * 64 + e"
    unfolding e_def using digits_64(1) [of c] by linarith
  have small: "a < 5" "b < 64" "d < 64" "e < 64" using assms by (simp_all add: a_def b_def d_def e_def)
  have "16 \<le> b" if "a = 0" using assms(1) small that unfolding c by linarith
  moreover have "b < 16" if "a = 4" using assms(2) small that unfolding c by linarith
  ultimately have "scan_char (0xF0 + a) ((0x80 + b) # (0x80 + d) # (0x80 + e) # s)
      = Scanned (a * 262144 + b * 4096 + d * 64 + e) s"
    using small by (intro scan_four_digits) auto
  then show ?thesis unfolding c [symmetric] by (simp only: a_def b_def d_def e_def)
qed

lemma utf8_char_not_Nil [simp]: "utf8_char c \<noteq> []"
  by (simp add: utf8_char_def)

lemma decode_char_append:
  assumes "scalar c"
  shows "utf8_decode final (utf8_char c @ s) =
    (case utf8_decode final s of None \<Rightarrow> None | Some t \<Rightarrow> Some (c # t))"
proof -
  consider "c < 0x80" | "0x80 \<le> c" "c < 0x800" | "0x800 \<le> c" "c < 0x10000" | "0x10000 \<le> c"
    by linarith
  then show ?thesis
  proof cases
    case 1
    then show ?thesis by (simp add: utf8_char_def scan_char_def)
  next
    case 2
    then show ?thesis by (simp add: utf8_char_def scan_two_char)
  next
    case 3
    with assms show ?thesis by (simp add: utf8_char_def scan_three_char scalar_def)
  next
    case 4
    with assms show ?thesis by (simp add: utf8_char_def scan_four_char scalar_def)
  qed
qed

lemma utf8_bytes_simps [simp]:
  "utf8_bytes [] = []" "utf8_bytes (c # s) = utf8_char c @ utf8_bytes s"
  "utf8_bytes (s @ t) = utf8_bytes s @ utf8_bytes t"
  by (simp_all add: utf8_bytes_def)

lemma decode_append: 
  "list_all scalar s \<Longrightarrow> utf8_decode final (utf8_bytes s @ b) =
    (case utf8_decode final b of None \<Rightarrow> None | Some t \<Rightarrow> Some (s @ t))"
  by (induction s) (auto simp: decode_char_append split: option.split)

lemma decode_encode: "list_all scalar s \<Longrightarrow> utf8_decode final (utf8_bytes s) = Some s"
  using decode_append [of s final "[]"] by simp

lemma last_digit:
  fixes c :: nat
  assumes "c = x * 64 + k" and "k < 64"
  shows "c div 64 = x" "c mod 64 = k"
  using assms by simp_all

text \<open>What was scanned is the encoding of the scanned character.\<close>

lemma scan_two_only:
  assumes "0xC2 \<le> a" and "a < 0xE0" and "scan_two a s = Scanned c r"
  shows "a # s = utf8_char c @ r \<and> scalar c"
proof -
  from assms(3) obtain b where s: "s = b # r" and b: "0x80 \<le> b" "b \<le> 0xBF"
    and c: "c = (a - 0xC0) * 64 + (b - 0x80)"
    by (auto simp: scan_two_def continuation_def split: list.splits if_splits)
  have "b - 0x80 < 64" using b by simp
  note last_digit [OF c this]
  moreover have "0x80 \<le> c" "c < 0x800" using assms(1,2) b by (simp_all add: c)
  ultimately show ?thesis
    using assms(1) b by (simp add: s utf8_char_def scalar_def is_surrogate_def)
qed

lemma scan_three_only:
  assumes "0xE0 \<le> a" and "a < 0xF0" and "scan_three a s = Scanned c r"
  shows "a # s = utf8_char c @ r \<and> scalar c"
proof -
  from assms(3) obtain b d where s: "s = b # d # r" and b: "second_of_three a b" and d: "0x80 \<le> d" "d \<le> 0xBF"
    and c: "c = (a - 0xE0) * 4096 + (b - 0x80) * 64 + (d - 0x80)"
    by (auto simp: scan_three_def continuation_def split: list.splits if_splits)
  have b2: "0x80 \<le> b" "b \<le> 0xBF" using b by (simp_all add: second_of_three_def continuation_def)
  have "c = ((a - 0xE0) * 64 + (b - 0x80)) * 64 + (d - 0x80)" "d - 0x80 < 64"
    using d by (simp_all add: c add_mult_distrib)
  note c64 = last_digit(1) [OF this] and m = last_digit(2) [OF this]
  have "b - 0x80 < 64" using b2 by simp
  note digits = last_digit [OF c64 this, folded digits_64(2)]
  obtain x y z where x: "a = 0xE0 + x" and y: "b = 0x80 + y" and z: "d = 0x80 + z"
    using assms(1) b2 d by (metis le_Suc_ex)
  have c': "c = x * 4096 + y * 64 + z" and small: "x < 16" "y < 64" "z < 64"
    using assms(2) b2 d by (simp_all add: c x y z)
  have "\<not> (x = 0 \<and> y < 32)" "\<not> (x = 13 \<and> 32 \<le> y)"
    using b by (auto simp: second_of_three_def x y split: if_splits)
  then consider "x = 0" "32 \<le> y" | "1 \<le> x" "x \<le> 12" | "x = 13" "y < 32" | "14 \<le> x" by linarith
  then have "0x800 \<le> c" "c < 0x10000" "c < 0xD800 \<or> 0xDFFF < c"
    using small by (cases, simp_all add: c')+
  then have "0x800 \<le> c \<and> c < 0x10000 \<and> \<not> is_surrogate c" by (auto simp: is_surrogate_def)
  then show ?thesis
    using assms(1) b2 d m digits by (simp add: s utf8_char_def scalar_def)
qed

lemma scan_four_only:
  assumes "0xF0 \<le> a" and "a < 0xF5" and "scan_four a s = Scanned c r"
  shows "a # s = utf8_char c @ r \<and> scalar c"
proof -
  from assms(3) obtain b d e where s: "s = b # d # e # r" and b: "second_of_four a b"
    and d: "0x80 \<le> d" "d \<le> 0xBF" and e: "0x80 \<le> e" "e \<le> 0xBF"
    and c: "c = (a - 0xF0) * 262144 + (b - 0x80) * 4096 + (d - 0x80) * 64 + (e - 0x80)"
    by (auto simp: scan_four_def continuation_def split: list.splits if_splits)
  have b2: "0x80 \<le> b" "b \<le> 0xBF" using b by (simp_all add: second_of_four_def continuation_def)
  have "c = (((a - 0xF0) * 64 + (b - 0x80)) * 64 + (d - 0x80)) * 64 + (e - 0x80)" "e - 0x80 < 64"
    using e by (simp_all add: c add_mult_distrib)
  note c64 = last_digit(1) [OF this] and m = last_digit(2) [OF this]
  have "d - 0x80 < 64" using d by simp
  note c4096 = last_digit(1) [OF c64 this] and m2 = last_digit(2) [OF c64 this]
  have "b - 0x80 < 64" using b2 by simp
  note digits = last_digit [OF c4096 this, folded digits_64(2,3)]
  have "0x10000 \<le> c \<and> c < 0x110000"
    using b b2 d e assms(1,2) by (auto simp: c second_of_four_def split: if_splits)
  then show ?thesis
    using assms(1) b2 d e m m2 digits by (simp add: s utf8_char_def scalar_def is_surrogate_def)
qed

lemma scan_char_only:
  assumes "scan_char a s = Scanned c r"
  shows "a # s = utf8_char c @ r \<and> scalar c"
proof -
  consider "a < 0x80" | "0xC2 \<le> a" "a < 0xE0" | "0xE0 \<le> a" "a < 0xF0" | "0xF0 \<le> a" "a < 0xF5"
    using assms by (auto simp: scan_char_def split: if_splits)
  then show ?thesis
  proof cases
    case 1
    with assms show ?thesis by (auto simp: scan_char_def utf8_char_def scalar_def is_surrogate_def)
  next
    case 2
    with assms show ?thesis by (intro scan_two_only) (auto simp: scan_char_def)
  next
    case 3
    with assms show ?thesis by (intro scan_three_only) (auto simp: scan_char_def)
  next
    case 4
    with assms show ?thesis by (intro scan_four_only) (auto simp: scan_char_def)
  qed
qed

lemma encode_decode:
  "utf8_decode final b = Some s \<Longrightarrow> final \<Longrightarrow> utf8_bytes s = b \<and> list_all scalar s"
proof (induction final b arbitrary: s rule: utf8_decode.induct)
  case (2 final a r)
  from "2.prems" obtain c q t where "scan_char a r = Scanned c q" "utf8_decode final q = Some t" "s = c # t"
    by (auto split: scanned.splits option.splits)
  then show ?case using "2.IH" [of c q t] "2.prems"(2) scan_char_only [of a r c q] by simp
qed simp

lemma utf8_decode_iff: "utf8_decode True b = Some s \<longleftrightarrow> list_all scalar s \<and> b = utf8_bytes s"
  using encode_decode decode_encode by blast

section \<open>Cutting an encoded text\<close>

lemma utf8_char_shape:
  assumes "scalar c"
  shows "\<exists>a t. utf8_char c = a # t \<and> \<not> continuation a \<and> list_all continuation t \<and> length t \<le> 3"
  using assms by (auto simp: utf8_char_def continuation_def scalar_def)

text \<open>A proper prefix of a character is a truncated sequence.\<close>

lemma scan_prefix:
  assumes "scan_char a (p @ q) = Scanned c r" and "length r < length q"
  shows "scan_char a p = Truncated"
proof (cases p)
  case Nil
  with assms show ?thesis by (auto simp: scan_defs split: if_splits)
next
  case (Cons b p')
  show ?thesis
  proof (cases p')
    case Nil
    with Cons assms show ?thesis by (auto simp: scan_defs split: if_splits list.splits)
  next
    case (Cons b' p'')
    with \<open>p = b # p'\<close> assms show ?thesis by (cases p'') (auto simp: scan_defs split: if_splits list.splits)
  qed
qed

lemma scan_utf8_char:
  assumes "scalar c" and "utf8_char c = a # t"
  shows "scan_char a (t @ s) = Scanned c s"
proof -
  have "utf8_decode True (a # t) = Some [c]"
    using decode_encode [of "[c]" True] assms by simp
  then obtain d r where r: "scan_char a t = Scanned d r" and d: "utf8_decode True r = Some []" "d = c"
    by (auto split: scanned.splits option.splits)
  then have "r = []" using encode_decode by fastforce
  have "utf8_decode True (a # t @ utf8_char 0) = Some [c, 0]"
    using decode_encode [of "[c, 0]" True] assms by (simp add: scalar_def is_surrogate_def)
  show ?thesis
    using r \<open>r = []\<close> d(2) by (auto simp: scan_defs split: if_splits list.splits)
qed

lemma decode_partial_char:
  assumes "scalar c" and "0 < k" and "k < length (utf8_char c)"
  shows "utf8_decode False (take k (utf8_char c)) = Some []"
proof -
  obtain a t where c: "utf8_char c = a # t" by (cases "utf8_char c") auto
  then obtain j where k: "k = Suc j" and j: "j < length t" using assms(2,3) by (cases k) auto
  have "scan_char a (take j t @ drop j t) = Scanned c []"
    using scan_utf8_char [OF assms(1) c, of "[]"] by simp
  then have "scan_char a (take j t) = Truncated"
    by (rule scan_prefix) (use j in simp)
  then show ?thesis by (simp add: c k)
qed

lemma cut_front:
  assumes "list_all scalar s"
  shows "\<exists>i t. drop n (utf8_bytes s) = t @ utf8_bytes (drop i s) \<and> list_all continuation t
    \<and> length t \<le> 3 \<and> (n = 0 \<longrightarrow> t = [] \<and> i = 0)"
  using assms
proof (induction s arbitrary: n)
  case (Cons c s)
  obtain a t where c: "utf8_char c = a # t" "list_all continuation t" "length t \<le> 3"
    using utf8_char_shape [of c] Cons.prems by auto
  show ?case
  proof (cases n)
    case 0
    then show ?thesis by (intro exI [of _ 0] exI [of _ "[]"]) simp
  next
    case (Suc m)
    show ?thesis
    proof (cases "m \<le> length t")
      case True
      then have "drop n (utf8_bytes (c # s)) = drop m t @ utf8_bytes (drop 1 (c # s))"
        by (simp add: Suc c(1))
      moreover have "list_all continuation (drop m t)" using c(2) by (auto simp: list_all_iff dest: in_set_dropD)
      ultimately show ?thesis
        using c(3) Suc by (intro exI [of _ 1] exI [of _ "drop m t"]) simp
    next
      case False
      obtain i q where "drop (m - length t) (utf8_bytes s) = q @ utf8_bytes (drop i s)"
        "list_all continuation q" "length q \<le> 3"
        using Cons.IH [of "m - length t"] Cons.prems by auto
      then have "drop n (utf8_bytes (c # s)) = q @ utf8_bytes (drop (Suc i) (c # s)) \<and> list_all continuation q
        \<and> length q \<le> 3" using False by (simp add: Suc c(1))
      then show ?thesis using Suc by blast
    qed
  qed
qed (simp add: exI [of _ 0])

lemma cut_back:
  assumes "list_all scalar s"
  shows "\<exists>i p. take n (utf8_bytes s) = utf8_bytes (take i s) @ p
    \<and> utf8_decode False p = Some [] \<and> length p \<le> 3 \<and> (length (utf8_bytes s) \<le> n \<longrightarrow> p = [] \<and> take i s = s)"
  using assms
proof (induction s arbitrary: n)
  case (Cons c s)
  obtain a t where c: "utf8_char c = a # t" "length t \<le> 3"
    using utf8_char_shape [of c] Cons.prems by auto
  have c0: "scalar c" using Cons.prems by simp
  show ?case
  proof (cases "n < length (utf8_char c)")
    case True
    have "utf8_decode False (take n (utf8_char c)) = Some []"
      using decode_partial_char [OF c0, of n] True by (cases n) auto
    moreover have "take n (utf8_bytes (c # s)) = utf8_bytes (take 0 (c # s)) @ take n (utf8_char c)"
      using True by simp
    moreover have "length (take n (utf8_char c)) \<le> 3" using True c by simp
    moreover have "\<not> length (utf8_bytes (c # s)) \<le> n" using True by simp
    ultimately show ?thesis by blast
  next
    case False
    then obtain m where n: "n = length (utf8_char c) + m" by (metis le_Suc_ex not_less)
    from Cons obtain i p where "take m (utf8_bytes s) = utf8_bytes (take i s) @ p
      \<and> utf8_decode False p = Some [] \<and> length p \<le> 3 \<and> (length (utf8_bytes s) \<le> m \<longrightarrow> p = [] \<and> take i s = s)"
      by fastforce
    then have "take n (utf8_bytes (c # s)) = utf8_bytes (take (Suc i) (c # s)) @ p
      \<and> utf8_decode False p = Some [] \<and> length p \<le> 3
      \<and> (length (utf8_bytes (c # s)) \<le> n \<longrightarrow> p = [] \<and> take (Suc i) (c # s) = c # s)"
      by (simp add: n)
    then show ?thesis by blast
  qed
next
  case Nil
  have "take n (utf8_bytes []) = utf8_bytes (take 0 []) @ []" by simp
  then show ?case by fastforce
qed

end
