(* ===== verification/File_System.thy ===== *)
theory File_System
  imports Python_Text
begin

text \<open>
  The file system the file modules work on, as far as \<^verbatim>\<open>pathlib\<close> and \<^verbatim>\<open>os\<close> show it: absolute paths as
  lists of names, directories, regular files, symbolic links and special files. Resolution of a path
  follows symbolic links and \<^verbatim>\<open>..\<close> component by component and reports a loop, a missing name or a
  file used as a directory as the exception Python raises. Permissions, quotas and I/O errors are
  not modelled. \<open>SymlinkLoop\<close> is the exception of \<^verbatim>\<open>Path.resolve\<close> on a loop (\<^verbatim>\<open>RuntimeError\<close> up to Python 3.12,
  \<^verbatim>\<open>OSError\<close> after).
\<close>

datatype file_error =
    FileNotFoundError
  | FileExistsError
  | NotADirectoryError
  | IsADirectoryError
  | OSError string
  | SymlinkLoop
  | ValueError string
  | PathBoundaryError string
  | UnsupportedFileError string
  | FileConflictError string
  | DirectoryListingLimitError string

type_synonym 'a fresult = "file_error + 'a"
type_synonym path = "ustr list"

record inode =
  st_ino :: nat
  st_mode :: nat
  st_mtime_ns :: int

datatype node = Directory inode nat | Regular inode bytes | Symlink ustr | Special inode

type_synonym fs = "(path \<times> node) list"

section \<open>The tree\<close>

definition put :: "path \<Rightarrow> node \<Rightarrow> fs \<Rightarrow> fs" where
  "put p n fs = (p, n) # filter (\<lambda>e. fst e \<noteq> p) fs"

definition remove :: "path \<Rightarrow> fs \<Rightarrow> fs" where
  "remove p fs = filter (\<lambda>e. fst e \<noteq> p) fs"

fun prefix_of :: "path \<Rightarrow> path \<Rightarrow> bool" where
  "prefix_of [] p \<longleftrightarrow> True"
| "prefix_of (a # q) [] \<longleftrightarrow> False"
| "prefix_of (a # q) (b # p) \<longleftrightarrow> a = b \<and> prefix_of q p"

text \<open>A rename moves the whole subtree; the entry that was at the new name is gone.\<close>

definition move_tree :: "path \<Rightarrow> path \<Rightarrow> fs \<Rightarrow> fs" where
  "move_tree src dst fs =
    map (\<lambda>e. if prefix_of src (fst e) then (dst @ drop (length src) (fst e), snd e) else e)
      (filter (\<lambda>e. fst e \<noteq> dst) fs)"

definition is_directory :: "node \<Rightarrow> bool" where
  "is_directory n \<longleftrightarrow> (case n of Directory _ _ \<Rightarrow> True | _ \<Rightarrow> False)"

definition is_regular :: "node \<Rightarrow> bool" where
  "is_regular n \<longleftrightarrow> (case n of Regular _ _ \<Rightarrow> True | _ \<Rightarrow> False)"

definition is_link :: "node \<Rightarrow> bool" where
  "is_link n \<longleftrightarrow> (case n of Symlink _ \<Rightarrow> True | _ \<Rightarrow> False)"

lemma node_kind_simps [simp]:
  "is_directory (Directory i k)" "\<not> is_directory (Regular i b)" "\<not> is_directory (Symlink t)" "\<not> is_directory (Special i)"
  "is_regular (Regular i b)" "\<not> is_regular (Directory i k)" "\<not> is_regular (Symlink t)" "\<not> is_regular (Special i)"
  "is_link (Symlink t)" "\<not> is_link (Directory i k)" "\<not> is_link (Regular i b)" "\<not> is_link (Special i)"
  by (simp_all add: is_directory_def is_regular_def is_link_def)

lemma map_of_put [simp]: "map_of (put p n fs) = (map_of fs)(p \<mapsto> n)"
proof
  fix q
  show "map_of (put p n fs) q = ((map_of fs)(p \<mapsto> n)) q"
    unfolding put_def by (induction fs) auto
qed

lemma map_of_remove [simp]: "map_of (remove p fs) = (map_of fs)(p := None)"
proof
  fix q
  show "map_of (remove p fs) q = ((map_of fs)(p := None)) q"
    unfolding remove_def by (induction fs) auto
qed

lemma prefix_of_iff: "prefix_of q p \<longleftrightarrow> (\<exists>r. p = q @ r)"
  by (induction q p rule: prefix_of.induct) auto

lemma prefix_of_refl [simp]: "prefix_of p p"
  by (simp add: prefix_of_iff)

lemma prefix_of_append [simp]: "prefix_of p (p @ q)"
  by (simp add: prefix_of_iff)

lemma prefix_of_trans: "prefix_of a b \<Longrightarrow> prefix_of b c \<Longrightarrow> prefix_of a c"
  by (auto simp: prefix_of_iff)

section \<open>Paths of pathlib\<close>

text \<open>\<^verbatim>\<open>Path(s)\<close>: whether it is absolute, and its parts without empty and \<^verbatim>\<open>.\<close> components. \<^verbatim>\<open>..\<close> stays.\<close>

definition is_absolute :: "ustr \<Rightarrow> bool" where
  "is_absolute s \<longleftrightarrow> starts_with [slash] s"

definition path_parts :: "ustr \<Rightarrow> ustr list" where
  "path_parts s = filter (\<lambda>p. p \<noteq> [] \<and> p \<noteq> dot) (split_on slash s)"

text \<open>\<^verbatim>\<open>as_posix()\<close> of a relative path.\<close>

definition as_posix :: "ustr list \<Rightarrow> ustr" where
  "as_posix ps = (if ps = [] then dot else join [slash] ps)"

text \<open>\<^verbatim>\<open>p.relative_to(base)\<close> and \<^verbatim>\<open>is_within\<close> compare names, not the file system.\<close>

definition relative_to :: "path \<Rightarrow> path \<Rightarrow> path fresult" where
  "relative_to p base =
    (if prefix_of base p then Inr (drop (length base) p) else Inl (ValueError ''is not in the subpath of''))"

definition is_within :: "path \<Rightarrow> path \<Rightarrow> bool" where
  "is_within p boundary \<longleftrightarrow> (case relative_to p boundary of Inl _ \<Rightarrow> False | Inr _ \<Rightarrow> True)"

lemma is_within_iff [simp]: "is_within p boundary \<longleftrightarrow> prefix_of boundary p"
  by (simp add: is_within_def relative_to_def)

section \<open>System calls\<close>

text \<open>A name with a null character or a surrogate that no file name decodes to is refused before the
  call.\<close>

definition bad_name :: "ustr \<Rightarrow> bool" where
  "bad_name s \<longleftrightarrow> list_ex (\<lambda>c. c = 0 \<or> (is_surrogate c \<and> \<not> (0xDC80 \<le> c \<and> c \<le> 0xDCFF))) s"

lemma bad_name_u [simp]: "bad_name (u s) \<longleftrightarrow> CHR 0x00 \<in> set s"
proof -
  have "(of_char c :: nat) < 256" for c by (metis char.exhaust of_char_of less_irrefl mod_less_divisor nat_of_char_less_256)
  then have "(of_char c :: nat) < 0xD800" for c by (rule less_trans) simp
  then have "\<not> is_surrogate (of_char c)" for c by (simp add: is_surrogate_def not_le)
  moreover have "(of_char c :: nat) = 0 \<longleftrightarrow> c = CHR 0x00" for c
    using of_char_eq_iff [where ?'a = nat, of c "CHR 0x00"] by simp
  ultimately show ?thesis by (auto simp: bad_name_def u_def list_ex_iff)
qed

text \<open>\<^verbatim>\<open>lstat\<close> of a path whose directories are not links.\<close>

definition lstat :: "fs \<Rightarrow> path \<Rightarrow> node fresult" where
  "lstat fs p =
    (if list_ex bad_name p then Inl (ValueError ''embedded null byte'')
     else case map_of fs p of
       Some n \<Rightarrow> Inr n
     | None \<Rightarrow> (case map_of fs (butlast p) of
         Some n \<Rightarrow> if is_directory n then Inl FileNotFoundError else Inl NotADirectoryError
       | None \<Rightarrow> Inl FileNotFoundError))"

lemma lstat_Inr_iff: "lstat fs p = Inr n \<longleftrightarrow> map_of fs p = Some n \<and> \<not> list_ex bad_name p"
  by (auto simp: lstat_def split: option.splits)

lemma fewer_links:
  assumes "lstat fs p = Inr n" and "p \<notin> set active"
  shows "card (fst ` set fs - insert p (set active)) < card (fst ` set fs - set active)"
proof (rule psubset_card_mono)
  have "p \<in> fst ` set fs" using assms(1) by (force simp: lstat_Inr_iff dest: map_of_SomeD)
  with assms(2) show "fst ` set fs - insert p (set active) \<subset> fst ` set fs - set active" by blast
qed simp

text \<open>
  Resolution from the resolved directory \<open>path\<close>: \<open>active\<close> are the links being expanded. With
  \<open>creat\<close> the last name may be missing (the path a call with \<^verbatim>\<open>O_CREAT\<close> creates); without it the
  function is \<^verbatim>\<open>Path.resolve(strict=True)\<close>.
\<close>

function realpath :: "bool \<Rightarrow> fs \<Rightarrow> path list \<Rightarrow> path \<Rightarrow> ustr list \<Rightarrow> path fresult" where
  "realpath creat fs active path [] = Inr path"
| "realpath creat fs active path (c # rest) =
    (if c = [] \<or> c = dot then realpath creat fs active path rest
     else if c = dotdot then realpath creat fs active (butlast path) rest
     else (case lstat fs (path @ [c]) of
       Inl e \<Rightarrow> if creat \<and> rest = [] \<and> e = FileNotFoundError then Inr (path @ [c]) else Inl e
     | Inr (Symlink t) \<Rightarrow>
         if path @ [c] \<in> set active then Inl SymlinkLoop
         else (case realpath (creat \<and> rest = []) fs ((path @ [c]) # active)
                 (if is_absolute t then [] else path) (split_on slash t) of
            Inl e \<Rightarrow> Inl e
          | Inr q \<Rightarrow> realpath creat fs active q rest)
     | Inr _ \<Rightarrow> realpath creat fs active (path @ [c]) rest))"
  by pat_completeness auto

termination
  by (relation "measures [\<lambda>(c, fs, active, p, cs). card (fst ` set fs - set active), \<lambda>(c, fs, active, p, cs). length cs]")
    (auto intro: fewer_links)

definition resolve :: "fs \<Rightarrow> path \<Rightarrow> path fresult" where
  "resolve fs p = realpath False fs [] [] p"

definition os_stat :: "fs \<Rightarrow> path \<Rightarrow> node fresult" where
  "os_stat fs p = rbind (resolve fs p) (lstat fs)"

text \<open>The place a call acts on that does not follow the last name.\<close>

definition entry_path :: "fs \<Rightarrow> path \<Rightarrow> path fresult" where
  "entry_path fs p =
    (if p = [] then Inr [] else rbind (resolve fs (butlast p)) (\<lambda>d. Inr (d @ [last p])))"

definition os_lstat :: "fs \<Rightarrow> path \<Rightarrow> node fresult" where
  "os_lstat fs p = rbind (entry_path fs p) (lstat fs)"

definition holds :: "(node \<Rightarrow> bool) \<Rightarrow> node fresult \<Rightarrow> bool" where
  "holds q r \<longleftrightarrow> (case r of Inl _ \<Rightarrow> False | Inr n \<Rightarrow> q n)"

definition path_exists :: "fs \<Rightarrow> path \<Rightarrow> bool" where
  "path_exists fs p \<longleftrightarrow> holds (\<lambda>_. True) (os_stat fs p)"

definition path_is_dir :: "fs \<Rightarrow> path \<Rightarrow> bool" where
  "path_is_dir fs p \<longleftrightarrow> holds is_directory (os_stat fs p)"

definition path_is_file :: "fs \<Rightarrow> path \<Rightarrow> bool" where
  "path_is_file fs p \<longleftrightarrow> holds is_regular (os_stat fs p)"

definition path_is_symlink :: "fs \<Rightarrow> path \<Rightarrow> bool" where
  "path_is_symlink fs p \<longleftrightarrow> holds is_link (os_lstat fs p)"

text \<open>The calls that change the tree. A new entry gets the inode \<open>i\<close>.\<close>

definition children :: "fs \<Rightarrow> path \<Rightarrow> (ustr \<times> node) list" where
  "children fs d = map (\<lambda>e. (last (fst e), snd e)) (filter (\<lambda>e. fst e \<noteq> [] \<and> butlast (fst e) = d) fs)"

definition sys_mkdir :: "inode \<Rightarrow> nat \<Rightarrow> path \<Rightarrow> fs \<Rightarrow> fs fresult" where
  "sys_mkdir i k p fs = rbind (entry_path fs p) (\<lambda>q.
     case lstat fs q of
       Inr _ \<Rightarrow> Inl FileExistsError
     | Inl e \<Rightarrow> if e = FileNotFoundError then Inr (put q (Directory i k) fs) else Inl e)"

fun touched :: "int \<Rightarrow> node \<Rightarrow> node" where
  "touched now (Regular i b) = Regular (i\<lparr>st_mtime_ns := now\<rparr>) b"
| "touched now (Directory i k) = Directory (i\<lparr>st_mtime_ns := now\<rparr>) k"
| "touched now (Special i) = Special (i\<lparr>st_mtime_ns := now\<rparr>)"
| "touched now (Symlink t) = Symlink t"

text \<open>\<^verbatim>\<open>Path.touch\<close>: the time of an existing file, or \<^verbatim>\<open>open(O_CREAT)\<close>, which follows a link in the last
  name even when the link's target does not exist.\<close>

definition sys_touch :: "inode \<Rightarrow> path \<Rightarrow> fs \<Rightarrow> fs fresult" where
  "sys_touch i p fs = rbind (realpath True fs [] [] p) (\<lambda>q.
     case map_of fs q of
       Some n \<Rightarrow> Inr (put q (touched (st_mtime_ns i) n) fs)
     | None \<Rightarrow> Inr (put q (Regular i []) fs))"

definition sys_unlink :: "path \<Rightarrow> fs \<Rightarrow> fs fresult" where
  "sys_unlink p fs = rbind (entry_path fs p) (\<lambda>q. rbind (lstat fs q) (\<lambda>n.
     if is_directory n then Inl IsADirectoryError else Inr (remove q fs)))"

definition sys_rmdir :: "path \<Rightarrow> fs \<Rightarrow> fs fresult" where
  "sys_rmdir p fs = rbind (entry_path fs p) (\<lambda>q. rbind (lstat fs q) (\<lambda>n.
     if \<not> is_directory n then Inl NotADirectoryError
     else if children fs q \<noteq> [] then Inl (OSError ''Directory not empty'')
     else Inr (remove q fs)))"

definition sys_rename :: "path \<Rightarrow> path \<Rightarrow> fs \<Rightarrow> fs fresult" where
  "sys_rename src dst fs = rbind (entry_path fs src) (\<lambda>q. rbind (entry_path fs dst) (\<lambda>d.
     rbind (lstat fs q) (\<lambda>n.
       if q = d then Inr fs
       else if prefix_of q d then Inl (OSError ''Invalid argument'')
       else (case lstat fs d of
         Inl e \<Rightarrow> if e = FileNotFoundError then Inr (move_tree q d fs) else Inl e
       | Inr m \<Rightarrow>
           if is_directory n
           then (if \<not> is_directory m then Inl NotADirectoryError
                 else if children fs d \<noteq> [] then Inl (OSError ''Directory not empty'')
                 else Inr (move_tree q d fs))
           else (if is_directory m then Inl IsADirectoryError else Inr (move_tree q d fs))))))"

text \<open>\<^verbatim>\<open>os.link\<close>: a second name of a file; it never replaces an entry.\<close>

definition sys_link :: "path \<Rightarrow> path \<Rightarrow> fs \<Rightarrow> fs fresult" where
  "sys_link src dst fs = rbind (entry_path fs src) (\<lambda>q. rbind (entry_path fs dst) (\<lambda>d.
     rbind (lstat fs q) (\<lambda>n.
       case lstat fs d of
         Inr _ \<Rightarrow> Inl FileExistsError
       | Inl e \<Rightarrow> if e \<noteq> FileNotFoundError then Inl e
                 else if is_directory n then Inl (OSError ''Operation not permitted'')
                 else Inr (put d n fs))))"

section \<open>What a call may change\<close>

definition changed :: "fs \<Rightarrow> fs \<Rightarrow> path set" where
  "changed fs fs' = {p. map_of fs p \<noteq> map_of fs' p}"

lemma changed_refl [simp]: "changed fs fs = {}"
  by (simp add: changed_def)

lemma changed_trans: "changed a b \<subseteq> S \<Longrightarrow> changed b c \<subseteq> S \<Longrightarrow> changed a c \<subseteq> S"
  by (force simp: changed_def)

lemma unchanged: "changed fs fs' \<subseteq> S \<Longrightarrow> q \<notin> S \<Longrightarrow> map_of fs' q = map_of fs q"
  by (force simp: changed_def)

lemma changed_put [simp]: "changed fs (put p n fs) \<subseteq> {p}"
  by (auto simp: changed_def split: if_splits)

lemma changed_remove [simp]: "changed fs (remove p fs) \<subseteq> {p}"
  by (auto simp: changed_def split: if_splits)

lemma map_of_move_tree:
  "\<not> prefix_of src q \<Longrightarrow> \<not> prefix_of dst q \<Longrightarrow> map_of (move_tree src dst fs) q = map_of fs q"
  unfolding move_tree_def by (induction fs) auto

lemma changed_move_tree: "changed fs (move_tree src dst fs) \<subseteq> {p. prefix_of src p \<or> prefix_of dst p}"
  using map_of_move_tree by (fastforce simp: changed_def)

lemma entry_path_parent: "entry_path fs p = Inr q \<Longrightarrow> p \<noteq> [] \<Longrightarrow> resolve fs (butlast p) = Inr (butlast q) \<and> last q = last p \<and> q \<noteq> []"
  by (auto simp: entry_path_def rbind_Inr_iff)

section \<open>Resolved paths\<close>

text \<open>A path that goes through directories only: every name exists and none of them is a link.\<close>

definition plain_name :: "fs \<Rightarrow> path \<Rightarrow> ustr \<Rightarrow> bool" where
  "plain_name fs d c \<longleftrightarrow> c \<noteq> [] \<and> c \<noteq> dot \<and> c \<noteq> dotdot \<and> holds (\<lambda>n. \<not> is_link n) (lstat fs (d @ [c]))"

fun real_from :: "fs \<Rightarrow> path \<Rightarrow> ustr list \<Rightarrow> bool" where
  "real_from fs d [] \<longleftrightarrow> True"
| "real_from fs d (c # cs) \<longleftrightarrow> plain_name fs d c \<and> real_from fs (d @ [c]) cs"

definition real_path :: "fs \<Rightarrow> path \<Rightarrow> bool" where
  "real_path fs p \<longleftrightarrow> real_from fs [] p"

lemma real_from_append: "real_from fs d (p @ q) \<longleftrightarrow> real_from fs d p \<and> real_from fs (d @ p) q"
  by (induction p arbitrary: d) auto

lemma real_path_simps [simp]:
  "real_path fs []" "real_path fs (p @ [c]) \<longleftrightarrow> real_path fs p \<and> plain_name fs p c"
  by (simp_all add: real_path_def real_from_append)

lemma real_path_append: "real_path fs (p @ q) \<longleftrightarrow> real_path fs p \<and> real_from fs p q"
  by (simp add: real_path_def real_from_append)

lemma real_path_butlast: "real_path fs p \<Longrightarrow> real_path fs (butlast p)"
  by (cases p rule: rev_cases) simp_all

lemma holds_simps [simp]: "holds q (Inl e) \<longleftrightarrow> False" "holds q (Inr n) \<longleftrightarrow> q n"
  by (simp_all add: holds_def)

lemma holds_iff: "holds q r \<longleftrightarrow> (\<exists>n. r = Inr n \<and> q n)"
  by (cases r) auto

lemma realpath_real:
  "realpath creat fs active path cs = Inr q \<Longrightarrow> \<not> creat \<Longrightarrow> real_path fs path \<Longrightarrow> real_path fs q"
proof (induction creat fs active path cs arbitrary: q rule: realpath.induct)
  case (2 creat fs active path c rest)
  consider "c = [] \<or> c = dot" | "\<not> (c = [] \<or> c = dot)" "c = dotdot" | "\<not> (c = [] \<or> c = dot)" "c \<noteq> dotdot" by blast
  then show ?case
  proof cases
    case 1
    with "2.IH"(1) [OF 1] "2.prems" show ?thesis by simp
  next
    case 2
    with "2.IH"(2) [OF 2] "2.prems" show ?thesis by (simp add: real_path_butlast)
  next
    case 3
    then obtain n where n: "lstat fs (path @ [c]) = Inr n"
      using "2.prems" by (auto split: sum.splits)
    show ?thesis
    proof (cases "is_link n")
      case False
      then have "plain_name fs path c" using 3 n by (simp add: plain_name_def)
      then show ?thesis
        using False 3 n "2.prems" "2.IH"(3,4,7) [OF 3 n] by (cases n) simp_all
    next
      case True
      then obtain t where t: "n = Symlink t" by (cases n) simp_all
      then obtain r where "path @ [c] \<notin> set active"
        and r: "realpath (creat \<and> rest = []) fs ((path @ [c]) # active) (if is_absolute t then [] else path) (split_on slash t) = Inr r"
        and q: "realpath creat fs active r rest = Inr q"
        using 3 n "2.prems"(1) by (auto split: if_splits sum.splits)
      then have "real_path fs r" using "2.IH"(5) [OF 3 n t _ r] "2.prems" by simp
      then show ?thesis using "2.IH"(6) [OF 3 n t _ r q] \<open>path @ [c] \<notin> set active\<close> "2.prems" by blast
    qed
  qed
qed simp

lemma realpath_walk:
  "real_from fs path cs \<Longrightarrow> realpath creat fs active path cs = Inr (path @ cs)"
proof (induction cs arbitrary: path)
  case (Cons c cs)
  then obtain n where "lstat fs (path @ [c]) = Inr n" "\<not> is_link n" "c \<noteq> []" "c \<noteq> dot" "c \<noteq> dotdot"
    by (auto simp: plain_name_def holds_iff)
  with Cons show ?case by (cases n) simp_all
qed simp

lemma realpath_prefix:
  "real_from fs path p \<Longrightarrow> realpath creat fs active path (p @ cs) = realpath creat fs active (path @ p) cs"
proof (induction p arbitrary: path)
  case (Cons c p)
  then obtain n where "lstat fs (path @ [c]) = Inr n" "\<not> is_link n" "c \<noteq> []" "c \<noteq> dot" "c \<noteq> dotdot"
    by (auto simp: plain_name_def holds_iff)
  with Cons show ?case by (cases n) simp_all
qed simp

lemma resolve_real: "resolve fs p = Inr q \<Longrightarrow> real_path fs q"
  unfolding resolve_def by (rule realpath_real) auto

lemma resolve_id: "real_path fs p \<Longrightarrow> resolve fs p = Inr p"
  unfolding resolve_def real_path_def using realpath_walk by fastforce

lemma resolve_resolve: "resolve fs p = Inr q \<Longrightarrow> resolve fs q = Inr q"
  by (rule resolve_id, rule resolve_real)

lemma entry_path_id: "real_path fs (butlast p) \<Longrightarrow> entry_path fs p = Inr p"
  by (simp add: entry_path_def resolve_id)

lemma real_path_entry: "real_path fs p \<Longrightarrow> entry_path fs p = Inr p"
  by (rule entry_path_id, rule real_path_butlast)

lemma os_stat_real: "real_path fs p \<Longrightarrow> os_stat fs p = lstat fs p"
  by (simp add: os_stat_def resolve_id)

lemma os_lstat_real: "real_path fs p \<Longrightarrow> os_lstat fs p = lstat fs p"
  by (simp add: os_lstat_def real_path_entry)

text \<open>A resolved path is never a link, so a check for a link after resolving cannot fire.\<close>

lemma real_path_not_symlink: "real_path fs p \<Longrightarrow> p \<noteq> [] \<Longrightarrow> \<not> path_is_symlink fs p"
  by (cases p rule: rev_cases) (auto simp: path_is_symlink_def os_lstat_real plain_name_def holds_iff)

end
