(* ===== verification/Workspace_Files.thy ===== *)
theory Workspace_Files
  imports File_System
begin

text \<open>
  \<^verbatim>\<open>termroom/security.py\<close> (path boundaries) and \<^verbatim>\<open>termroom/files.py\<close> (\<open>FileService\<close>): reading, saving,
  creating, renaming and deleting files of a Workspace. \<open>digest\<close> stands for \<^verbatim>\<open>sha256(...).hexdigest()\<close>
  and \<open>limit\<close> is \<^verbatim>\<open>max_edit_bytes\<close>. An operation that writes returns its result beside the file system
  it leaves, since it may raise after it wrote.
\<close>

section \<open>Boundaries\<close>

text \<open>A relative path argument: whether it is absolute, and its parts.\<close>

type_synonym pure_path = "bool \<times> ustr list"

definition Path :: "ustr \<Rightarrow> pure_path" where
  "Path s = (is_absolute s, path_parts s)"

definition resolve_inside :: "path \<Rightarrow> pure_path \<Rightarrow> bool \<Rightarrow> fs \<Rightarrow> path fresult" where
  "resolve_inside boundary raw must_exist fs =
    rbind (resolve fs boundary) (\<lambda>b.
      if fst raw then Inl (PathBoundaryError ''Absolute paths are not allowed'')
      else
      let candidate = b @ snd raw in
      rbind (if must_exist then resolve fs candidate
             else rbind (resolve fs (butlast candidate)) (\<lambda>parent.
                    Inr (if candidate = [] then [] else parent @ [last candidate])))
        (\<lambda>resolved.
          if \<not> is_within resolved b then Inl (PathBoundaryError ''Path escapes the allowed boundary'')
          else Inr resolved))"

fun descend :: "fs \<Rightarrow> path \<Rightarrow> ustr list \<Rightarrow> path fresult" where
  "descend fs current [] = Inr current"
| "descend fs current (part # parts) =
     rbind (lstat fs (current @ [part])) (\<lambda>n.
       if is_link n then Inl (PathBoundaryError ''Symbolic links are not allowed'')
       else if parts \<noteq> [] \<and> \<not> is_directory n then Inl NotADirectoryError
       else descend fs (current @ [part]) parts)"

definition resolve_no_symlink_inside :: "path \<Rightarrow> ustr \<Rightarrow> fs \<Rightarrow> path fresult" where
  "resolve_no_symlink_inside boundary relative_path fs =
    rbind (resolve fs boundary) (\<lambda>b.
      if is_absolute relative_path then Inl (PathBoundaryError ''Absolute paths are not allowed'')
      else
      let parts = path_parts relative_path in
      if parts = [] \<or> list_ex (\<lambda>p. p = [] \<or> p = dot \<or> p = dotdot) parts
      then Inl (PathBoundaryError ''Path must be a normalized Workspace-relative path'')
      else rbind (descend fs b parts) (\<lambda>current.
        if \<not> is_within current b then Inl (PathBoundaryError ''Path escapes the allowed boundary'')
        else Inr current))"

definition resolve_existing :: "path \<Rightarrow> ustr \<Rightarrow> fs \<Rightarrow> path fresult" where
  "resolve_existing ws relative_path fs =
    (if relative_path = [] \<or> relative_path = dot then resolve fs ws
     else (case resolve_no_symlink_inside ws relative_path fs of
        Inr p \<Rightarrow> Inr p
      | Inl (OSError m) \<Rightarrow> Inl (UnsupportedFileError ''Symbolic links are not exposed'')
      | Inl e \<Rightarrow> Inl e))"

section \<open>Reading\<close>

record file_snapshot =
  fs_path :: path
  fs_relative :: ustr
  fs_content :: ustr
  fs_digest :: ustr
  fs_mtime :: int

record file_entry =
  fe_name :: ustr
  fe_relative :: ustr
  fe_is_dir :: bool
  fe_size :: int
  fe_mtime :: int

fun node_size :: "node \<Rightarrow> nat" where
  "node_size (Regular i b) = length b"
| "node_size (Directory i k) = k"
| "node_size (Symlink t) = length t"
| "node_size (Special i) = 0"

fun node_inode :: "node \<Rightarrow> inode" where
  "node_inode (Regular i b) = i"
| "node_inode (Directory i k) = i"
| "node_inode (Special i) = i"
| "node_inode (Symlink t) = \<lparr>st_ino = 0, st_mode = 0, st_mtime_ns = 0\<rparr>"

definition node_mtime :: "node \<Rightarrow> int" where
  "node_mtime n = st_mtime_ns (node_inode n)"

definition read_bytes :: "fs \<Rightarrow> path \<Rightarrow> bytes fresult" where
  "read_bytes fs p = rbind (os_stat fs p) (\<lambda>n.
     case n of Regular i b \<Rightarrow> Inr b | Directory i k \<Rightarrow> Inl IsADirectoryError | _ \<Rightarrow> Inr [])"

text \<open>The bytes of an editable file: not too large, no null byte, UTF-8.\<close>

definition editable_text :: "nat \<Rightarrow> bytes \<Rightarrow> ustr fresult" where
  "editable_text limit raw =
    (if length raw > limit then Inl (UnsupportedFileError ''File exceeds the editable size limit'')
     else if 0 \<in> set raw then Inl (UnsupportedFileError ''Binary files cannot be edited'')
     else (case utf8_decode True raw of
        None \<Rightarrow> Inl (UnsupportedFileError ''Only UTF-8 text files can be edited'')
      | Some content \<Rightarrow> Inr content))"

definition read_text :: "(bytes \<Rightarrow> ustr) \<Rightarrow> nat \<Rightarrow> path \<Rightarrow> ustr \<Rightarrow> fs \<Rightarrow> file_snapshot fresult" where
  "read_text digest limit ws relative_path fs =
    rbind (resolve_existing ws relative_path fs) (\<lambda>target.
      if \<not> path_is_file fs target then Inl (UnsupportedFileError ''Only regular files can be edited'')
      else rbind (os_stat fs target) (\<lambda>n.
        if node_size n > limit then Inl (UnsupportedFileError ''File exceeds the editable size limit'')
        else rbind (read_bytes fs target) (\<lambda>b.
          let raw = take (limit + 1) b in
          rbind (editable_text limit raw) (\<lambda>content.
            rbind (relative_to target ws) (\<lambda>rel.
              Inr \<lparr>fs_path = target, fs_relative = as_posix rel, fs_content = content,
                    fs_digest = digest raw, fs_mtime = node_mtime n\<rparr>)))))"

record runnable_file =
  rf_relative :: ustr
  rf_digest :: ustr
  rf_executable :: bool
  rf_shebang :: bool

text \<open>\<^verbatim>\<open>st_mode & 0o111\<close>.\<close>

definition any_execute_bit :: "nat \<Rightarrow> bool" where
  "any_execute_bit mode \<longleftrightarrow> odd mode \<or> odd (mode div 8) \<or> odd (mode div 64)"

definition inspect_runnable ::
    "(bytes \<Rightarrow> ustr) \<Rightarrow> nat \<Rightarrow> path \<Rightarrow> ustr \<Rightarrow> ustr option \<Rightarrow> fs \<Rightarrow> runnable_file fresult" where
  "inspect_runnable digest limit ws relative_path expected fs =
    rbind (resolve_no_symlink_inside ws relative_path fs) (\<lambda>target.
      rbind (os_lstat fs target) (\<lambda>n.
        if \<not> path_is_file fs target then Inl (UnsupportedFileError ''Only regular files can be executed'')
        else if node_size n > limit then Inl (UnsupportedFileError ''File exceeds the editable size limit'')
        else rbind (read_bytes fs target) (\<lambda>b.
          let raw = take (limit + 1) b in
          if length raw > limit then Inl (UnsupportedFileError ''File exceeds the editable size limit'')
          else if 0 \<in> set raw then Inl (UnsupportedFileError ''Binary files cannot be executed'')
          else if utf8_decode True raw = None
            then Inl (UnsupportedFileError ''Only UTF-8 text files can be executed'')
          else if expected \<noteq> None \<and> Some (digest raw) \<noteq> expected
            then Inl (FileConflictError ''The file changed before execution'')
          else rbind (resolve fs ws) (\<lambda>root_path. rbind (relative_to target root_path) (\<lambda>rel.
            Inr \<lparr>rf_relative = as_posix rel, rf_digest = digest raw,
                  rf_executable = any_execute_bit (st_mode (node_inode n)),
                  rf_shebang = starts_with (u ''#!'') raw\<rparr>)))))"

definition stat_entry :: "path \<Rightarrow> ustr \<Rightarrow> fs \<Rightarrow> file_entry fresult" where
  "stat_entry ws relative_path fs =
    rbind (resolve_existing ws relative_path fs) (\<lambda>target.
      rbind (os_stat fs target) (\<lambda>n.
        rbind (relative_to target ws) (\<lambda>rel.
          Inr \<lparr>fe_name = (if target = [] then [] else last target), fe_relative = as_posix rel,
                fe_is_dir = path_is_dir fs target, fe_size = int (node_size n), fe_mtime = node_mtime n\<rparr>)))"

definition resolve_regular_file :: "path \<Rightarrow> ustr \<Rightarrow> fs \<Rightarrow> path fresult" where
  "resolve_regular_file ws relative_path fs =
    rbind (resolve_existing ws relative_path fs) (\<lambda>target.
      if \<not> path_is_file fs target then Inl (UnsupportedFileError ''Only regular files can be opened'')
      else Inr target)"

section \<open>Saving\<close>

text \<open>
  What happens around a save: the inode and the random suffix of the temporary file, and what other
  processes do to the file system before the second check and between that check and the rename.
\<close>

record save_env =
  se_inode :: inode
  se_suffix :: ustr
  se_before_check :: "fs \<Rightarrow> fs"
  se_before_replace :: "fs \<Rightarrow> fs"

definition temp_name :: "ustr \<Rightarrow> ustr \<Rightarrow> ustr" where
  "temp_name name suffix = dot @ name @ dot @ suffix"

text \<open>The \<^verbatim>\<open>finally\<close> clause: a temporary file that is still there is unlinked.\<close>

definition drop_temp :: "path \<Rightarrow> 'a fresult \<times> fs \<Rightarrow> 'a fresult \<times> fs" where
  "drop_temp temp r =
    (if path_exists (snd r) temp
     then (case sys_unlink temp (snd r) of Inl e \<Rightarrow> (Inl e, snd r) | Inr fs' \<Rightarrow> (fst r, fs'))
     else r)"

text \<open>The check reads the file once: its state does not change inside it.\<close>

definition require_expected_source ::
    "(bytes \<Rightarrow> ustr) \<Rightarrow> nat \<Rightarrow> path \<Rightarrow> ustr \<Rightarrow> path \<Rightarrow> ustr \<Rightarrow> int \<Rightarrow> fs \<Rightarrow> inode fresult" where
  "require_expected_source digest limit ws relative_path target expected_digest expected_mtime fs =
    rbind (resolve_existing ws relative_path fs) (\<lambda>checked.
      if checked \<noteq> target \<or> \<not> path_is_file fs checked
      then Inl (FileConflictError ''The file changed after it was opened'')
      else rbind (os_stat fs checked) (\<lambda>n. rbind (read_bytes fs checked) (\<lambda>b.
        let current = take (limit + 1) b in
        if length current > limit \<or> node_mtime n \<noteq> expected_mtime \<or> digest current \<noteq> expected_digest
        then Inl (FileConflictError ''The file changed after it was opened'')
        else Inr (node_inode n))))"

text \<open>The \<^verbatim>\<open>try\<close> block of a save: write beside the file, check again, rename over it, read back.\<close>

definition replace_file ::
    "(bytes \<Rightarrow> ustr) \<Rightarrow> nat \<Rightarrow> save_env \<Rightarrow> path \<Rightarrow> ustr \<Rightarrow> (fs \<Rightarrow> inode fresult) \<Rightarrow> path \<Rightarrow> path \<Rightarrow> inode \<Rightarrow> bytes
      \<Rightarrow> fs \<Rightarrow> file_snapshot fresult \<times> fs" where
  "replace_file digest limit env ws relative_path check target parent current encoded fs =
    (let temp = parent @ [temp_name (last target) (se_suffix env)];
         fs1 = put temp (Regular (se_inode env\<lparr>st_mode := st_mode current mod 512\<rparr>) encoded) fs;
         fs2 = se_before_check env fs1
     in case check fs2 of
          Inl e \<Rightarrow> drop_temp temp (Inl e, fs2)
        | Inr _ \<Rightarrow>
          let fs3 = se_before_replace env fs2
          in case sys_rename temp target fs3 of
               Inl e \<Rightarrow> drop_temp temp (Inl e, fs3)
             | Inr fs4 \<Rightarrow>
                 (case drop_temp temp (Inr (), fs4) of
                    (Inl e, fs5) \<Rightarrow> (Inl e, fs5)
                  | (Inr _, fs5) \<Rightarrow> (read_text digest limit ws relative_path fs5, fs5)))"

definition write_text ::
    "(bytes \<Rightarrow> ustr) \<Rightarrow> nat \<Rightarrow> save_env \<Rightarrow> path \<Rightarrow> ustr \<Rightarrow> ustr \<Rightarrow> ustr \<Rightarrow> int \<Rightarrow> fs
      \<Rightarrow> file_snapshot fresult \<times> fs" where
  "write_text digest limit env ws relative_path content expected_digest expected_mtime fs =
    (case utf8_encode content of
       None \<Rightarrow> (Inl (ValueError ''surrogates not allowed''), fs)
     | Some encoded \<Rightarrow>
       if length encoded > limit
       then (Inl (UnsupportedFileError ''Content exceeds the editable size limit''), fs)
       else (case resolve_existing ws relative_path fs of
         Inl e \<Rightarrow> (Inl e, fs)
       | Inr target \<Rightarrow>
         if \<not> path_is_file fs target then (Inl (UnsupportedFileError ''Only regular files can be saved''), fs)
         else
         let check = require_expected_source digest limit ws relative_path target expected_digest expected_mtime
         in case check fs of
           Inl e \<Rightarrow> (Inl e, fs)
         | Inr current \<Rightarrow>
           (case rbind (resolve fs (butlast target)) (\<lambda>parent. rbind (resolve fs ws) (\<lambda>b.
                   if \<not> is_within parent b
                   then Inl (PathBoundaryError ''Save destination escapes the workspace'') else Inr parent)) of
              Inl e \<Rightarrow> (Inl e, fs)
            | Inr parent \<Rightarrow>
              replace_file digest limit env ws relative_path check target parent current encoded fs)))"

text \<open>The \<^verbatim>\<open>try\<close> block of a new file: write beside the name, link it there, drop the temporary name.\<close>

definition link_file ::
    "(bytes \<Rightarrow> ustr) \<Rightarrow> nat \<Rightarrow> save_env \<Rightarrow> path \<Rightarrow> ustr \<Rightarrow> path \<Rightarrow> path \<Rightarrow> bytes
      \<Rightarrow> fs \<Rightarrow> file_snapshot fresult \<times> fs" where
  "link_file digest limit env ws relative_path target parent encoded fs =
    (let temp = parent @ [temp_name (last target) (se_suffix env)];
         fs1 = put temp (Regular (se_inode env\<lparr>st_mode := 420\<rparr>) encoded) fs;
         fs2 = se_before_check env fs1
     in case sys_link temp target fs2 of
          Inl e \<Rightarrow> drop_temp temp (Inl e, fs2)
        | Inr fs3 \<Rightarrow>
            (case drop_temp temp (Inr (), fs3) of
               (Inl e, fs4) \<Rightarrow> (Inl e, fs4)
             | (Inr _, fs4) \<Rightarrow> (read_text digest limit ws relative_path fs4, fs4)))"

definition write_new_text ::
    "(bytes \<Rightarrow> ustr) \<Rightarrow> nat \<Rightarrow> save_env \<Rightarrow> path \<Rightarrow> ustr \<Rightarrow> ustr \<Rightarrow> fs \<Rightarrow> file_snapshot fresult \<times> fs" where
  "write_new_text digest limit env ws relative_path content fs =
    (case utf8_encode content of
       None \<Rightarrow> (Inl (ValueError ''surrogates not allowed''), fs)
     | Some encoded \<Rightarrow>
       if length encoded > limit
       then (Inl (UnsupportedFileError ''Content exceeds the editable size limit''), fs)
       else
       let parts = path_parts relative_path in
       if is_absolute relative_path \<or> parts = [] \<or> list_ex (\<lambda>p. p = [] \<or> p = dot \<or> p = dotdot) parts
       then (Inl (PathBoundaryError ''Path must be a normalized Workspace-relative path''), fs)
       else
       let parent_relative = as_posix (butlast parts) in
       case (if parent_relative = dot then resolve fs ws else resolve_existing ws parent_relative fs) of
         Inl e \<Rightarrow> (Inl e, fs)
       | Inr parent \<Rightarrow>
         if \<not> path_is_dir fs parent then (Inl NotADirectoryError, fs)
         else
         let target = parent @ [last parts] in
         case resolve fs ws of
           Inl e \<Rightarrow> (Inl e, fs)
         | Inr b \<Rightarrow>
           if \<not> is_within parent b
           then (Inl (PathBoundaryError ''Save destination escapes the workspace''), fs)
           else if path_exists fs target \<or> path_is_symlink fs target then (Inl FileExistsError, fs)
           else link_file digest limit env ws relative_path target parent encoded fs)"

section \<open>Creating, renaming, deleting\<close>

definition valid_name :: "ustr \<Rightarrow> bool" where
  "valid_name name \<longleftrightarrow> name \<noteq> [] \<and> name \<noteq> dot \<and> name \<noteq> dotdot \<and> slash \<notin> set name \<and> backslash \<notin> set name"

text \<open>\<^verbatim>\<open>Path(parent) / name\<close> for a valid name.\<close>

definition joined :: "ustr \<Rightarrow> ustr \<Rightarrow> pure_path" where
  "joined parent name = (is_absolute parent, path_parts parent @ [name])"

definition create :: "inode \<Rightarrow> nat \<Rightarrow> path \<Rightarrow> ustr \<Rightarrow> ustr \<Rightarrow> bool \<Rightarrow> fs \<Rightarrow> path fresult \<times> fs" where
  "create i k ws parent name directory fs =
    (if \<not> valid_name name then (Inl (ValueError ''Invalid name''), fs)
     else case resolve_inside ws (Path parent) True fs of
       Inl e \<Rightarrow> (Inl e, fs)
     | Inr _ \<Rightarrow>
       (case resolve_inside ws (joined parent name) False fs of
          Inl e \<Rightarrow> (Inl e, fs)
        | Inr target \<Rightarrow>
          if path_exists fs target then (Inl FileExistsError, fs)
          else (case (if directory then sys_mkdir i k target fs else sys_touch i target fs) of
                  Inl e \<Rightarrow> (Inl e, fs)
                | Inr fs' \<Rightarrow> (Inr target, fs'))))"

text \<open>\<^verbatim>\<open>Path(filename).name\<close>.\<close>

definition base_name :: "ustr \<Rightarrow> ustr" where
  "base_name filename = (let ps = path_parts filename in if ps = [] then [] else last ps)"

definition upload_target :: "path \<Rightarrow> ustr \<Rightarrow> ustr \<Rightarrow> fs \<Rightarrow> path fresult" where
  "upload_target ws parent filename fs =
    (let name = base_name filename in
     if \<not> valid_name name \<or> name \<noteq> filename then Inl (ValueError ''Invalid upload filename'')
     else rbind (resolve_inside ws (Path parent) True fs) (\<lambda>directory.
       if \<not> path_is_dir fs directory then Inl NotADirectoryError
       else rbind (resolve_inside ws (joined parent name) False fs) (\<lambda>target.
         if path_exists fs target \<and> (path_is_symlink fs target \<or> \<not> path_is_file fs target)
         then Inl (UnsupportedFileError ''Upload target is not a regular file'')
         else Inr target)))"

definition rename_entry :: "path \<Rightarrow> ustr \<Rightarrow> ustr \<Rightarrow> fs \<Rightarrow> path fresult \<times> fs" where
  "rename_entry ws relative_path new_name fs =
    (if \<not> valid_name new_name then (Inl (ValueError ''Invalid name''), fs)
     else case resolve_inside ws (Path relative_path) True fs of
       Inl e \<Rightarrow> (Inl e, fs)
     | Inr source \<Rightarrow>
       if path_is_symlink fs source then (Inl (UnsupportedFileError ''Symbolic links cannot be renamed''), fs)
       else (case rbind (relative_to source ws) (\<lambda>rel. resolve_inside ws (False, butlast rel @ [new_name]) False fs) of
          Inl e \<Rightarrow> (Inl e, fs)
        | Inr destination \<Rightarrow>
          if path_exists fs destination then (Inl FileExistsError, fs)
          else (case sys_rename source destination fs of
                  Inl e \<Rightarrow> (Inl e, fs)
                | Inr fs' \<Rightarrow> (Inr destination, fs'))))"

definition delete_entry :: "path \<Rightarrow> ustr \<Rightarrow> fs \<Rightarrow> unit fresult \<times> fs" where
  "delete_entry ws relative_path fs =
    (case resolve_inside ws (Path relative_path) True fs of
       Inl e \<Rightarrow> (Inl e, fs)
     | Inr target \<Rightarrow>
       (case resolve fs ws of
          Inl e \<Rightarrow> (Inl e, fs)
        | Inr b \<Rightarrow>
          if target = b then (Inl (PathBoundaryError ''The workspace root cannot be deleted''), fs)
          else if path_is_symlink fs target
            then (Inl (UnsupportedFileError ''Symbolic links cannot be deleted''), fs)
          else (case (if path_is_dir fs target then sys_rmdir target fs else sys_unlink target fs) of
                  Inl e \<Rightarrow> (Inl e, fs)
                | Inr fs' \<Rightarrow> (Inr (), fs'))))"

section \<open>Listing\<close>

definition file_path_is_excluded :: "ustr \<Rightarrow> ustr list \<Rightarrow> bool" where
  "file_path_is_excluded relative_path excluded \<longleftrightarrow>
    list_ex (\<lambda>x. relative_path = x \<or> starts_with (x @ [slash]) relative_path) excluded"

definition normalize_excluded_paths :: "ustr list \<Rightarrow> ustr list" where
  "normalize_excluded_paths excluded =
    map (\<lambda>v. strip_char slash (remove_prefix (dot @ [slash]) v)) (filter (\<lambda>v. v \<noteq> [] \<and> v \<noteq> dot) excluded)"

text \<open>\<open>alias\<close> says whether a link resolves, not strictly, to an excluded path.\<close>

definition entry_is_excluded :: "(path \<Rightarrow> bool) \<Rightarrow> fs \<Rightarrow> path \<Rightarrow> ustr \<Rightarrow> ustr list \<Rightarrow> bool" where
  "entry_is_excluded alias fs target relative_path excluded \<longleftrightarrow>
    (if file_path_is_excluded relative_path excluded then True
     else path_is_symlink fs target \<and> alias target)"

record listing_limits =
  ll_entries :: "int option"
  ll_metadata :: "int option"

record listing =
  li_scanned :: nat
  li_metadata :: nat
  li_entries :: "file_entry list"

definition over :: "nat \<Rightarrow> int option \<Rightarrow> bool" where
  "over n m \<longleftrightarrow> (case m of None \<Rightarrow> False | Some k \<Rightarrow> k < int n)"

text \<open>One child of the scan. A name that has no UTF-8 form makes the size of the metadata unknown.\<close>

definition list_child ::
    "(path \<Rightarrow> bool) \<Rightarrow> fs \<Rightarrow> path \<Rightarrow> path \<Rightarrow> ustr list \<Rightarrow> listing_limits \<Rightarrow> ustr \<times> node \<Rightarrow> listing \<Rightarrow> listing fresult" where
  "list_child alias fs ws directory excluded lim c a =
    (let target = directory @ [fst c] in
     rbind (relative_to target ws) (\<lambda>rel.
       let relative = as_posix rel in
       if entry_is_excluded alias fs target relative excluded then Inr a
       else
       let scanned = li_scanned a + 1 in
       if over scanned (ll_entries lim)
       then Inl (DirectoryListingLimitError ''Directory contains too many entries'')
       else if is_link (snd c) then Inr (a\<lparr>li_scanned := scanned\<rparr>)
       else (case utf8_length relative of
          None \<Rightarrow> Inl (ValueError ''surrogates not allowed'')
        | Some n \<Rightarrow>
          let metadata = li_metadata a + n + 128 in
          if over metadata (ll_metadata lim)
          then Inl (DirectoryListingLimitError ''Directory metadata exceeds the safe response limit'')
          else Inr \<lparr>li_scanned = scanned, li_metadata = metadata,
                     li_entries = li_entries a @
                       [\<lparr>fe_name = fst c, fe_relative = relative, fe_is_dir = is_directory (snd c),
                         fe_size = int (node_size (snd c)), fe_mtime = node_mtime (snd c)\<rparr>]\<rparr>)))"

definition bad_limit :: "int \<Rightarrow> int option \<Rightarrow> bool" where
  "bad_limit least m \<longleftrightarrow> (case m of None \<Rightarrow> False | Some k \<Rightarrow> k < least)"

definition list_dir ::
    "(ustr \<Rightarrow> ustr) \<Rightarrow> (path \<Rightarrow> bool) \<Rightarrow> path \<Rightarrow> ustr \<Rightarrow> listing_limits \<Rightarrow> ustr list \<Rightarrow> fs
      \<Rightarrow> (path \<times> file_entry list) fresult" where
  "list_dir casefold alias ws relative_path lim excluded_paths fs =
    (if bad_limit 0 (ll_entries lim) then Inl (ValueError ''Directory entry limit is invalid'')
     else if bad_limit 1 (ll_metadata lim) then Inl (ValueError ''Directory metadata limit is invalid'')
     else rbind (resolve_existing ws relative_path fs) (\<lambda>directory.
       if \<not> path_is_dir fs directory then Inl NotADirectoryError
       else
       let excluded = normalize_excluded_paths excluded_paths in
       rbind (relative_to directory ws) (\<lambda>rel.
         if file_path_is_excluded (as_posix rel) excluded
         then Inl (PathBoundaryError ''Path is excluded from Files'')
         else rbind (each (list_child alias fs ws directory excluded lim) (children fs directory)
                \<lparr>li_scanned = 0, li_metadata = 0, li_entries = []\<rparr>) (\<lambda>a.
           Inr (directory, sort_key (\<lambda>e. (\<not> fe_is_dir e, casefold (fe_name e))) (li_entries a))))))"

end
