(* ===== verification/File_Laws.thy ===== *)
theory File_Laws
  imports Workspace_Files
begin

text \<open>
  Where the resolvers of \<^verbatim>\<open>termroom/security.py\<close> can lead: inside the boundary, and for the ones that
  refuse links only through directories of the tree itself.
\<close>

lemma path_parts_names: "c \<in> set (path_parts s) \<Longrightarrow> c \<noteq> [] \<and> c \<noteq> dot \<and> slash \<notin> set c"
  by (auto simp: path_parts_def dest: split_on_parts)

lemma descend_path: "descend fs d parts = Inr t \<Longrightarrow> t = d @ parts"
  by (induction fs d parts rule: descend.induct) (auto simp: rbind_Inr_iff split: if_splits)

lemma descend_real:
  "descend fs d parts = Inr t \<Longrightarrow> real_path fs d \<Longrightarrow> \<forall>c \<in> set parts. c \<noteq> [] \<and> c \<noteq> dot \<and> c \<noteq> dotdot
    \<Longrightarrow> real_path fs t"
proof (induction fs d parts rule: descend.induct)
  case (2 fs current part parts)
  then obtain n where n: "lstat fs (current @ [part]) = Inr n" "\<not> is_link n"
    "descend fs (current @ [part]) parts = Inr t" "\<not> (parts \<noteq> [] \<and> \<not> is_directory n)"
    by (auto simp: rbind_Inr_iff split: if_splits)
  have "real_path fs (current @ [part])" using n 2 by (simp add: plain_name_def)
  with 2 n show ?case by simp
qed simp

lemma no_symlink_facts:
  assumes "resolve_no_symlink_inside ws rel fs = Inr t"
  obtains b where "resolve fs ws = Inr b" "real_path fs b" "real_path fs t" "t = b @ path_parts rel"
    "path_parts rel \<noteq> []" "descend fs b (path_parts rel) = Inr t"
proof -
  from assms obtain b where b: "resolve fs ws = Inr b" "descend fs b (path_parts rel) = Inr t"
    "path_parts rel \<noteq> []" "\<not> list_ex (\<lambda>p. p = [] \<or> p = dot \<or> p = dotdot) (path_parts rel)"
    by (auto simp: resolve_no_symlink_inside_def rbind_Inr_iff Let_def split: if_splits)
  moreover have "real_path fs b" by (rule resolve_real [OF b(1)])
  moreover from this have "real_path fs t" using b by (intro descend_real [OF b(2)]) (auto simp: list_ex_iff)
  ultimately show ?thesis using that descend_path [OF b(2)] by blast
qed

lemma resolve_existing_facts:
  assumes "resolve_existing ws rel fs = Inr t"
  shows "\<exists>b. resolve fs ws = Inr b \<and> prefix_of b t \<and> real_path fs t \<and> real_path fs b"
proof (cases "rel = [] \<or> rel = dot")
  case True
  with assms have "resolve fs ws = Inr t" by (simp add: resolve_existing_def)
  then show ?thesis using resolve_real by auto
next
  case False
  with assms have "resolve_no_symlink_inside ws rel fs = Inr t"
    by (auto simp: resolve_existing_def split: sum.splits file_error.splits)
  then show ?thesis by (rule no_symlink_facts) auto
qed

lemma resolve_inside_facts:
  assumes "resolve_inside ws raw must_exist fs = Inr t"
  shows "\<exists>b. resolve fs ws = Inr b \<and> prefix_of b t \<and> real_path fs (butlast t)
    \<and> (must_exist \<longrightarrow> real_path fs t)"
proof -
  from assms obtain b where b: "resolve fs ws = Inr b" "prefix_of b t"
    and t: "if must_exist then resolve fs (b @ snd raw) = Inr t
            else \<exists>parent. resolve fs (butlast (b @ snd raw)) = Inr parent
              \<and> t = (if b @ snd raw = [] then [] else parent @ [last (b @ snd raw)])"
    by (auto simp: resolve_inside_def rbind_Inr_iff Let_def split: if_splits)
  show ?thesis
  proof (cases must_exist)
    case True
    with t have "real_path fs t" using resolve_real by simp
    with b show ?thesis using real_path_butlast by blast
  next
    case False
    with t obtain parent where p: "resolve fs (butlast (b @ snd raw)) = Inr parent"
      and t': "t = (if b @ snd raw = [] then [] else parent @ [last (b @ snd raw)])" by auto
    have "real_path fs (butlast t)" using resolve_real [OF p] t' by auto
    with b False show ?thesis by blast
  qed
qed

lemma relative_inside: "prefix_of b p \<Longrightarrow> relative_to p b = Inr (drop (length b) p)"
  by (simp add: relative_to_def)

text \<open>A file found by following nothing: what \<^verbatim>\<open>stat\<close> and \<^verbatim>\<open>open\<close> see is the entry itself.\<close>

lemma real_file:
  assumes "real_path fs p" and "path_is_file fs p"
  shows "\<exists>i b. map_of fs p = Some (Regular i b) \<and> os_stat fs p = Inr (Regular i b) \<and> read_bytes fs p = Inr b"
proof -
  from assms obtain n where n: "lstat fs p = Inr n" "is_regular n"
    by (auto simp: path_is_file_def os_stat_real holds_iff)
  then obtain i b where "n = Regular i b" by (cases n) auto
  with n(1) have l: "lstat fs p = Inr (Regular i b)" by simp
  then have "map_of fs p = Some (Regular i b)" by (simp add: lstat_Inr_iff)
  with l assms(1) show ?thesis by (simp add: os_stat_real read_bytes_def)
qed

lemma real_path_is_file:
  assumes "real_path fs p" and "lstat fs p = Inr (Regular i b)"
  shows "path_is_file fs p \<and> os_stat fs p = Inr (Regular i b) \<and> read_bytes fs p = Inr b"
  using assms by (simp add: path_is_file_def os_stat_real read_bytes_def)

section \<open>Trees\<close>

text \<open>Every entry lies in a directory.\<close>

definition tree_ok :: "fs \<Rightarrow> bool" where
  "tree_ok fs \<longleftrightarrow> (\<forall>p \<in> fst ` set fs. p \<noteq> [] \<longrightarrow> (case map_of fs (butlast p) of None \<Rightarrow> False | Some n \<Rightarrow> is_directory n))"

lemma tree_ok_parent:
  "tree_ok fs \<Longrightarrow> map_of fs (p @ [c]) \<noteq> None \<Longrightarrow> \<exists>n. map_of fs p = Some n \<and> is_directory n"
proof -
  assume t: "tree_ok fs" and "map_of fs (p @ [c]) \<noteq> None"
  then have "p @ [c] \<in> fst ` set fs" by (metis map_of_eq_None_iff)
  from bspec [OF t [unfolded tree_ok_def] this] show ?thesis by (simp split: option.splits)
qed

lemma nothing_below:
  assumes "tree_ok fs" and "map_of fs p = Some n" and "\<not> is_directory n" and "q \<noteq> []"
  shows "map_of fs (p @ q) = None"
  using assms(4)
proof (induction q rule: rev_induct)
  case (snoc c q)
  show ?case
  proof (rule ccontr)
    assume "map_of fs (p @ q @ [c]) \<noteq> None"
    then obtain m where "map_of fs (p @ q) = Some m" "is_directory m"
      using tree_ok_parent [OF assms(1), of "p @ q" c] by auto
    with snoc assms(2,3) show False by (cases "q = []") auto
  qed
qed simp

text \<open>Renaming a file onto another name of the same directory.\<close>

lemma map_of_move_file:
  assumes "tree_ok fs" and "map_of fs src = Some n" and "\<not> is_directory n"
    and "\<not> prefix_of src dst" and "map_of fs dst = Some m \<Longrightarrow> \<not> is_directory m" and "dst \<noteq> src"
    and "map_of fs dst \<noteq> None"
  shows "map_of (move_tree src dst fs) = (map_of fs)(dst \<mapsto> n, src := None)"
proof
  have below: "fst e = src" if "e \<in> set fs" "prefix_of src (fst e)" for e
    using that nothing_below [OF assms(1-3)] by (force simp: prefix_of_iff map_of_eq_None_iff)
  fix q
  have "map_of (map (\<lambda>e. if prefix_of src (fst e) then (dst @ drop (length src) (fst e), snd e) else e)
          (filter (\<lambda>e. fst e \<noteq> dst) es)) q
      = (if q = src then None else if q = dst then map_of es src else map_of es q)"
    if "set es \<subseteq> set fs" for es
    using that
  proof (induction es)
    case (Cons e es)
    then have "prefix_of src (fst e) \<longleftrightarrow> fst e = src" using below [of e] by auto
    with Cons show ?case using assms(4,6) by (cases e) auto
  qed simp
  from this [of fs] show "map_of (move_tree src dst fs) q = ((map_of fs)(dst \<mapsto> n, src := None)) q"
    using assms(2,6) by (simp add: move_tree_def)
qed

text \<open>A walk depends on the entries it passes only.\<close>

lemma descend_iff:
  "descend fs d parts = Inr (d @ parts) \<longleftrightarrow> (\<forall>k < length parts.
     holds (\<lambda>n. \<not> is_link n \<and> (Suc k < length parts \<longrightarrow> is_directory n)) (lstat fs (d @ take (Suc k) parts)))"
proof (induction parts arbitrary: d)
  case (Cons c cs)
  have step: "(\<forall>k < length (c # cs). P k) \<longleftrightarrow> P 0 \<and> (\<forall>k < length cs. P (Suc k))" for P
    by (auto simp: less_Suc_eq_0_disj)
  show ?case
    unfolding step using Cons.IH [of "d @ [c]"]
    by (cases "lstat fs (d @ [c])") auto
qed simp

lemma lstat_same: "map_of fs' p = map_of fs p \<Longrightarrow> holds q (lstat fs p) \<Longrightarrow> holds q (lstat fs' p)"
  by (auto simp: holds_iff lstat_Inr_iff)

lemma real_from_iff:
  "real_from fs d cs \<longleftrightarrow> (\<forall>k < length cs. plain_name fs (d @ take k cs) (cs ! k))"
proof (induction cs arbitrary: d)
  case (Cons c cs)
  have step: "(\<forall>k < length (c # cs). P k) \<longleftrightarrow> P 0 \<and> (\<forall>k < length cs. P (Suc k))" for P
    by (auto simp: less_Suc_eq_0_disj)
  show ?case unfolding step using Cons.IH [of "d @ [c]"] by simp
qed simp

lemma real_path_same:
  assumes "real_path fs p" and "\<And>q. prefix_of q p \<Longrightarrow> q \<noteq> [] \<Longrightarrow> map_of fs' q = map_of fs q"
  shows "real_path fs' p"
  unfolding real_path_def real_from_iff
proof (intro allI impI)
  fix k assume k: "k < length p"
  then have "plain_name fs (take k p) (p ! k)" using assms(1) by (simp add: real_path_def real_from_iff)
  moreover have "take k p @ [p ! k] = take (Suc k) p" using k by (simp add: take_Suc_conv_app_nth)
  moreover have "prefix_of (take (Suc k) p) p" unfolding prefix_of_iff by (metis append_take_drop_id)
  ultimately show "plain_name fs' ([] @ take k p) (p ! k)"
    using lstat_same [OF assms(2) [of "take (Suc k) p"], of "\<lambda>n. \<not> is_link n"] k
    by (cases p) (auto simp: plain_name_def)
qed

end
