(* ===== verification/File_Samples.thy ===== *)
theory File_Samples
  imports File_Laws
begin

text \<open>
  One concrete file system: a Workspace \<^verbatim>\<open>/ws\<close> with a text file in a directory, a link to that file and
  a link to a name outside that does not exist. The witnesses of the file properties evaluate it.
\<close>

definition ino :: "nat \<Rightarrow> int \<Rightarrow> inode" where
  "ino n t = \<lparr>st_ino = n, st_mode = 420, st_mtime_ns = t\<rparr>"

definition ws_dir :: path where "ws_dir = [u ''ws'']"
definition main_file :: path where "main_file = [u ''ws'', u ''src'', u ''a.py'']"
definition main_text :: ustr where "main_text = [35, 233, 10]"

definition sample_fs :: fs where
  "sample_fs =
    [([], Directory (ino 1 0) 0), ([u ''etc''], Directory (ino 2 0) 0), (ws_dir, Directory (ino 3 0) 0),
     ([u ''ws'', u ''src''], Directory (ino 4 0) 0), (main_file, Regular (ino 5 7) (utf8_bytes main_text)),
     ([u ''ws'', u ''alias''], Symlink (u ''src/a.py'')), ([u ''ws'', u ''out''], Symlink (u ''/etc/new''))]"

lemmas sample_fs_defs = sample_fs_def ws_dir_def main_file_def main_text_def ino_def

lemma sample_split:
  "split_on slash (u ''src/a.py'') = [u ''src'', u ''a.py'']" "split_on slash (u ''alias'') = [u ''alias'']"
  "split_on slash (u ''/etc/new'') = [[], u ''etc'', u ''new'']" "split_on slash (u ''out'') = [u ''out'']"
  "split_on slash (u ''.'') = [u ''.'']"
  by (simp_all add: u_def slash_def)

lemma sample_absolute:
  "\<not> is_absolute (u ''src/a.py'')" "\<not> is_absolute (u ''alias'')" "is_absolute (u ''/etc/new'')"
  "\<not> is_absolute (u ''out'')" "\<not> is_absolute (u ''.'')"
  by (simp_all add: is_absolute_def u_def slash_def)

lemma sample_lstat:
  "lstat sample_fs [u ''etc''] = Inr (Directory (ino 2 0) 0)"
  "lstat sample_fs [u ''ws''] = Inr (Directory (ino 3 0) 0)"
  "lstat sample_fs [u ''ws'', u ''src''] = Inr (Directory (ino 4 0) 0)"
  "lstat sample_fs [u ''ws'', u ''src'', u ''a.py''] = Inr (Regular (ino 5 7) (utf8_bytes main_text))"
  "lstat sample_fs [u ''ws'', u ''alias''] = Inr (Symlink (u ''src/a.py''))"
  "lstat sample_fs [u ''ws'', u ''out''] = Inr (Symlink (u ''/etc/new''))"
  "lstat sample_fs [u ''etc'', u ''new''] = Inl FileNotFoundError"
  by (simp_all add: lstat_def sample_fs_def ws_dir_def main_file_def)

lemmas sample_simps = ws_dir_def main_file_def sample_lstat dot_def dotdot_def sample_split sample_absolute
  path_parts_def Let_def

lemma sample_ws: "resolve sample_fs [u ''ws''] = Inr [u ''ws'']"
  by (simp add: resolve_def sample_simps)

lemma sample_main: "resolve_existing ws_dir (u ''src/a.py'') sample_fs = Inr main_file"
  by (simp add: resolve_existing_def resolve_no_symlink_inside_def sample_ws sample_simps)

lemma sample_alias: "resolve_inside ws_dir (Path (u ''alias'')) True sample_fs = Inr main_file"
proof -
  have "resolve sample_fs [u ''ws'', u ''alias''] = Inr main_file" by (simp add: resolve_def sample_simps)
  then show ?thesis by (simp add: resolve_inside_def Path_def sample_ws sample_simps)
qed

lemma sample_real: "real_path sample_fs main_file"
  by (simp add: real_path_def plain_name_def sample_simps)

lemma sample_file: "path_is_file sample_fs main_file \<and> os_stat sample_fs main_file = Inr (Regular (ino 5 7) (utf8_bytes main_text))
    \<and> read_bytes sample_fs main_file = Inr (utf8_bytes main_text)"
  by (rule real_path_is_file [OF sample_real]) (simp_all add: sample_simps)

lemma sample_regular: "resolve_regular_file ws_dir (u ''src/a.py'') sample_fs = Inr main_file"
  by (simp add: resolve_regular_file_def sample_main sample_file)

end
