(* ===== verification/File_Text.thy ===== *)
theory File_Text
  imports File_Samples
begin

text \<open>
  The text side of \<^verbatim>\<open>termroom/files.py\<close>: the newline convention the editor restores on save, and the
  bounded previews, which cut a file at any byte and still show only what is in it.
\<close>

section \<open>Editor newlines\<close>

definition CRLF :: ustr where "CRLF = [13, 10]"
definition CR :: ustr where "CR = [13]"
definition LF :: ustr where "LF = [10]"

datatype newline_style = Crlf_Style | Lf_Style

definition editor_newline_style :: "ustr \<Rightarrow> newline_style" where
  "editor_newline_style content =
    (let without_crlf = replace_all CRLF [] content
     in if contains CRLF content \<and> 10 \<notin> set without_crlf then Crlf_Style else Lf_Style)"

definition to_lf :: "ustr \<Rightarrow> ustr" where
  "to_lf content = replace_all CR LF (replace_all CRLF LF content)"

definition normalize_editor_newlines :: "ustr \<Rightarrow> newline_style \<Rightarrow> ustr" where
  "normalize_editor_newlines content style =
    (let normalized = to_lf content
     in if style = Crlf_Style then replace_all LF CRLF normalized else normalized)"

lemma replace_char: "replace_all [a] [b] s = map (\<lambda>c. if c = a then b else c) s"
  by (induction s) auto

lemma to_lf_simps [simp]:
  "to_lf [] = []"
  "to_lf (13 # 10 # s) = 10 # to_lf s"
  "c \<noteq> 13 \<Longrightarrow> to_lf (c # s) = c # to_lf s"
  by (simp_all add: to_lf_def CRLF_def CR_def LF_def)

lemma to_lf_no_CR: "13 \<notin> set (to_lf s)"
  by (auto simp: to_lf_def CR_def LF_def replace_char)

lemma to_lf_id: "13 \<notin> set s \<Longrightarrow> to_lf s = s"
  by (induction s) auto

text \<open>A text whose line breaks are all of one kind: no carriage return, or every line break CRLF.\<close>

fun only_crlf :: "ustr \<Rightarrow> bool" where
  "only_crlf [] \<longleftrightarrow> True"
| "only_crlf (c # s) \<longleftrightarrow>
     (if c = 13 then s \<noteq> [] \<and> hd s = 10 \<and> only_crlf (tl s) else c \<noteq> 10 \<and> only_crlf s)"

lemma only_crlf_induct [consumes 1, case_names Nil Break Char]:
  assumes "only_crlf s" and "P []" and "\<And>s. only_crlf s \<Longrightarrow> P s \<Longrightarrow> P (13 # 10 # s)"
    and "\<And>c s. c \<noteq> 13 \<Longrightarrow> c \<noteq> 10 \<Longrightarrow> only_crlf s \<Longrightarrow> P s \<Longrightarrow> P (c # s)"
  shows "P s"
  using assms(1)
proof (induction s rule: length_induct)
  case (1 s)
  show ?case
  proof (cases s)
    case (Cons c r)
    with 1 assms(3,4) show ?thesis by (cases r) (auto split: if_splits)
  qed (simp add: assms(2))
qed

lemma crlf_restored: "only_crlf s \<Longrightarrow> replace_all LF CRLF (to_lf s) = s"
  by (induction rule: only_crlf_induct) (simp_all add: LF_def CRLF_def)

lemma crlf_removed: "only_crlf s \<Longrightarrow> 10 \<notin> set (replace_all CRLF [] s)"
  by (induction rule: only_crlf_induct) (simp_all add: CRLF_def)

lemma crlf_contained: "only_crlf s \<Longrightarrow> contains CRLF s \<longleftrightarrow> 10 \<in> set s"
  by (induction rule: only_crlf_induct) (simp_all add: CRLF_def)

lemma no_CR_lf_style: "13 \<notin> set s \<Longrightarrow> editor_newline_style s = Lf_Style"
proof -
  assume "13 \<notin> set s"
  then have "\<not> contains CRLF s" by (induction s) (auto simp: CRLF_def)
  then show ?thesis by (simp add: editor_newline_style_def)
qed

lemma only_crlf_style:
  "only_crlf s \<Longrightarrow> editor_newline_style s = (if 10 \<in> set s then Crlf_Style else Lf_Style)"
  by (simp add: editor_newline_style_def Let_def crlf_contained crlf_removed)

lemma only_crlf_no_break: "only_crlf s \<Longrightarrow> 10 \<notin> set s \<Longrightarrow> 13 \<notin> set s"
  by (induction rule: only_crlf_induct) simp_all

lemma only_crlf_expand: "13 \<notin> set t \<Longrightarrow> only_crlf (replace_all LF CRLF t)"
  by (induction t) (auto simp: LF_def CRLF_def)

text \<open>The editor gives a file back unchanged. A browser submits a text area with its own line
  breaks; whatever they are, restoring the convention the file was loaded with yields the file's
  exact text if and only if its line breaks were of one kind.\<close>

theorem editor_newlines_round_trip:
  assumes "to_lf submitted = to_lf content"
  shows "normalize_editor_newlines submitted (editor_newline_style content) = content
    \<longleftrightarrow> 13 \<notin> set content \<or> only_crlf content"
proof -
  let ?n = "normalize_editor_newlines submitted (editor_newline_style content)"
  have n: "?n = (if editor_newline_style content = Crlf_Style then replace_all LF CRLF (to_lf content) else to_lf content)"
    by (simp add: normalize_editor_newlines_def assms)
  show ?thesis
  proof
    assume "?n = content"
    then show "13 \<notin> set content \<or> only_crlf content"
      using only_crlf_expand [OF to_lf_no_CR, of content] to_lf_no_CR [of content]
      by (simp add: n split: if_splits)
  next
    assume "13 \<notin> set content \<or> only_crlf content"
    then show "?n = content"
    proof
      assume "13 \<notin> set content"
      then show ?thesis unfolding n by (simp add: no_CR_lf_style to_lf_id)
    next
      assume c: "only_crlf content"
      then show ?thesis
        unfolding n using only_crlf_no_break [OF c] by (simp add: only_crlf_style crlf_restored to_lf_id)
    qed
  qed
qed

definition dos_text :: ustr where "dos_text = [104, 105, 13, 10, 13, 10]"

theorem editor_newlines_witness:
  "normalize_editor_newlines (u ''hi'' @ [10, 10]) (editor_newline_style dos_text) = dos_text"
proof -
  have "to_lf (u ''hi'' @ [10, 10]) = to_lf dos_text" by (simp add: dos_text_def u_def)
  then show ?thesis
    using editor_newlines_round_trip [of "u ''hi'' @ [10, 10]" dos_text] by (simp add: dos_text_def)
qed

section \<open>Previews\<close>

text \<open>\<open>decode_utf8_preview\<close>: skip at most three continuation bytes at a start inside the file, and
  leave a truncated character at an end inside the file.\<close>

definition decode_utf8_preview :: "bytes \<Rightarrow> bool \<Rightarrow> bool \<Rightarrow> ustr option" where
  "decode_utf8_preview raw allow_partial_start final =
    (let skip = (if allow_partial_start then length (takeWhile continuation (take 3 raw)) else 0)
     in utf8_decode final (drop skip raw))"

datatype preview_mode = Head_Mode | Tail_Mode | Range_Mode

definition mode_of :: "ustr \<Rightarrow> preview_mode option" where
  "mode_of s = (if s = u ''head'' then Some Head_Mode else if s = u ''tail'' then Some Tail_Mode
     else if s = u ''range'' then Some Range_Mode else None)"

definition preview_start :: "preview_mode \<Rightarrow> int \<Rightarrow> nat \<Rightarrow> nat \<Rightarrow> nat" where
  "preview_start mode offset len limit =
    (case mode of Head_Mode \<Rightarrow> 0 | Tail_Mode \<Rightarrow> len - limit
     | Range_Mode \<Rightarrow> nat (max 0 (min offset (int len))))"

text \<open>\<^verbatim>\<open>content.partition("\n")\<close>, and the remainder when there is a separator.\<close>

fun after_newline :: "ustr \<Rightarrow> ustr option" where
  "after_newline [] = None"
| "after_newline (c # s) = (if c = 10 then Some s else after_newline s)"

definition drop_partial_line :: "ustr \<Rightarrow> ustr" where
  "drop_partial_line content = (case after_newline content of None \<Rightarrow> content | Some r \<Rightarrow> r)"

record text_preview =
  tp_relative :: ustr
  tp_content :: ustr
  tp_size :: nat
  tp_mtime :: int
  tp_mode :: preview_mode
  tp_truncated :: bool
  tp_offset :: nat
  tp_read :: nat

definition read_text_preview ::
    "path \<Rightarrow> ustr \<Rightarrow> ustr \<Rightarrow> int \<Rightarrow> int \<Rightarrow> fs \<Rightarrow> text_preview fresult" where
  "read_text_preview ws relative_path mode_text offset max_bytes fs =
    rbind (resolve_regular_file ws relative_path fs) (\<lambda>target.
      rbind (os_stat fs target) (\<lambda>n.
        let len = node_size n; limit = nat (max 4096 (min max_bytes (1024 * 1024))) in
        case mode_of mode_text of
          None \<Rightarrow> Inl (ValueError ''Preview mode must be head, tail, or range'')
        | Some mode \<Rightarrow>
          let start = preview_start mode offset len limit in
          rbind (read_bytes fs target) (\<lambda>b.
            let raw = take limit (drop start b) in
            if 0 \<in> set raw then Inl (UnsupportedFileError ''Binary files cannot be shown as text'')
            else (case decode_utf8_preview raw (0 < start) (len \<le> start + length raw) of
               None \<Rightarrow> Inl (UnsupportedFileError ''Only UTF-8 text can be previewed'')
             | Some decoded \<Rightarrow>
               let content = (if 0 < start then drop_partial_line decoded else decoded) in
               rbind (relative_to target ws) (\<lambda>rel.
                 Inr \<lparr>tp_relative = as_posix rel, tp_content = content, tp_size = len,
                       tp_mtime = node_mtime n, tp_mode = mode,
                       tp_truncated = (0 < start \<or> start + length raw < len),
                       tp_offset = start, tp_read = length raw\<rparr>)))))"

text \<open>\<open>t\<close> is shown inside \<open>s\<close> without gaps.\<close>

definition part_of :: "ustr \<Rightarrow> ustr \<Rightarrow> bool" where
  "part_of t s \<longleftrightarrow> (\<exists>a b. s = a @ t @ b)"

lemma part_of_take_drop: "part_of (take i (drop j s)) s"
  unfolding part_of_def by (metis append_take_drop_id)

lemma part_of_trans: "part_of a b \<Longrightarrow> part_of b c \<Longrightarrow> part_of a c"
  unfolding part_of_def by (metis append.assoc)

lemma takeWhile_lead:
  "list_all continuation t \<Longrightarrow> length t \<le> 3 \<Longrightarrow> r = [] \<or> \<not> continuation (hd r) \<Longrightarrow>
    takeWhile continuation (take 3 (t @ r)) = t"
  by (cases r) (auto simp: takeWhile_append list_all_iff take_Cons' split: if_splits)

lemma hd_utf8_bytes:
  "list_all scalar s \<Longrightarrow> take n (utf8_bytes s) = [] \<or> \<not> continuation (hd (take n (utf8_bytes s)))"
proof (cases s)
  case (Cons c r)
  assume "list_all scalar s"
  with Cons utf8_char_shape [of c] show ?thesis by (cases n) auto
qed simp

text \<open>Cutting a valid text anywhere loses at most three bytes at either end, never fails, and loses
  nothing at an end of the file.\<close>

lemma preview_of_slice:
  assumes s: "list_all scalar s" and raw: "raw = take m (drop n (utf8_bytes s))"
    and final: "final \<longleftrightarrow> length (utf8_bytes s) \<le> n + length raw"
  shows "\<exists>t i j. decode_utf8_preview raw (0 < n) final = Some t \<and> t = take i (drop j s)
    \<and> length raw \<le> length (utf8_bytes t) + 6 \<and> (n = 0 \<and> final \<longrightarrow> t = s)"
proof -
  obtain j p where p: "drop n (utf8_bytes s) = p @ utf8_bytes (drop j s)" "list_all continuation p"
    "length p \<le> 3" "n = 0 \<longrightarrow> p = [] \<and> j = 0"
    using cut_front [OF s] by blast
  have s': "list_all scalar (drop j s)" using s by (auto simp: list_all_iff dest: in_set_dropD)
  let ?k = "m - length p"
  obtain i q where q: "take ?k (utf8_bytes (drop j s)) = utf8_bytes (take i (drop j s)) @ q"
    "utf8_decode False q = Some []" "length q \<le> 3"
    "length (utf8_bytes (drop j s)) \<le> ?k \<longrightarrow> q = [] \<and> take i (drop j s) = drop j s"
    using cut_back [OF s'] by blast
  have raw': "raw = take m p @ take ?k (utf8_bytes (drop j s))"
    by (simp add: raw p(1))
  define skip where "skip = (if 0 < n then length (takeWhile continuation (take 3 raw)) else 0)"
  have "drop skip raw = take ?k (utf8_bytes (drop j s))"
  proof (cases "0 < n")
    case True
    have "list_all continuation (take m p)" "length (take m p) \<le> 3"
      using p(2,3) by (auto simp: list_all_iff dest: in_set_takeD)
    from takeWhile_lead [OF this hd_utf8_bytes [OF s', of ?k]] have "skip = length (take m p)"
      using True by (simp add: skip_def raw')
    then show ?thesis by (simp add: raw')
  next
    case False
    with p(4) show ?thesis by (simp add: skip_def raw')
  qed
  then have d: "decode_utf8_preview raw (0 < n) final = utf8_decode final (utf8_bytes (take i (drop j s)) @ q)"
    unfolding decode_utf8_preview_def skip_def [symmetric] Let_def by (simp only: q(1))
  have tail: "q = [] \<and> take i (drop j s) = drop j s" if final
  proof -
    have "length (drop n (utf8_bytes s)) \<le> length raw" using that final by simp
    then have "length (p @ utf8_bytes (drop j s)) \<le> length (take m p @ take ?k (utf8_bytes (drop j s)))"
      using p(1) raw' by (metis (no_types))
    then have "length (utf8_bytes (drop j s)) \<le> ?k" by auto
    with q(4) show ?thesis by blast
  qed
  have "utf8_decode final (utf8_bytes (take i (drop j s)) @ q) = Some (take i (drop j s))"
  proof -
    have "list_all scalar (take i (drop j s))" using s' by (auto simp: list_all_iff dest: in_set_takeD)
    moreover have "utf8_decode final q = Some []" using q(2) tail by (cases final) auto
    ultimately show ?thesis by (simp add: decode_append)
  qed
  with d have "decode_utf8_preview raw (0 < n) final = Some (take i (drop j s))" by (simp only:)
  moreover have "length raw \<le> length (utf8_bytes (take i (drop j s))) + 6"
  proof -
    have "length raw = length (take m p) + length (utf8_bytes (take i (drop j s)) @ q)"
      unfolding raw' by (simp only: length_append q(1))
    then show ?thesis using p(3) q(3) by simp
  qed
  moreover have "n = 0 \<and> final \<longrightarrow> take i (drop j s) = s" using tail p(4) by auto
  ultimately show ?thesis by blast
qed

lemma drop_partial_line_part: "part_of (drop_partial_line d) d"
proof -
  have "after_newline d = Some r \<Longrightarrow> part_of r d" for r
  proof (induction d)
    case (Cons c d)
    have "part_of d (c # d)" unfolding part_of_def by (metis append.right_neutral append_Cons append_Nil)
    with Cons show ?case by (auto split: if_splits intro: part_of_trans)
  qed simp
  moreover have "part_of d d" unfolding part_of_def by (metis append.right_neutral append_Nil)
  ultimately show ?thesis by (auto simp: drop_partial_line_def split: option.split)
qed

text \<open>A preview of a text file always succeeds, wherever it starts and ends. It shows a part of the
  file without gaps, reads at most the limit, and if it says it is not truncated it shows the whole
  file.\<close>

theorem preview_shows_part_of_file:
  assumes "resolve fs ws = Inr ws" and "resolve_regular_file ws rel fs = Inr target"
    and "read_bytes fs target = Inr (utf8_bytes s)" and "list_all scalar s" and "0 \<notin> set (utf8_bytes s)"
    and "mode_of mode_text = Some mode"
  shows "\<exists>p. read_text_preview ws rel mode_text offset max_bytes fs = Inr p \<and> part_of (tp_content p) s
    \<and> int (tp_read p) \<le> max 4096 (min max_bytes (1024 * 1024))
    \<and> (\<not> tp_truncated p \<longrightarrow> tp_content p = s)
    \<and> (tp_offset p = 0 \<longrightarrow> tp_read p \<le> length (utf8_bytes (tp_content p)) + 6)"
proof -
  from assms(2) have t: "resolve_existing ws rel fs = Inr target" "path_is_file fs target"
    by (auto simp: resolve_regular_file_def rbind_Inr_iff split: if_splits)
  from resolve_existing_facts [OF t(1)] assms(1) have within: "prefix_of ws target" "real_path fs target" by auto
  from real_file [OF within(2) t(2)] assms(3) obtain ino where stat: "os_stat fs target = Inr (Regular ino (utf8_bytes s))" by auto
  define limit where "limit = nat (max 4096 (min max_bytes (1024 * 1024)))"
  define start where "start = preview_start mode offset (length (utf8_bytes s)) limit"
  define raw where "raw = take limit (drop start (utf8_bytes s))"
  define final where "final \<longleftrightarrow> length (utf8_bytes s) \<le> start + length raw"
  obtain d i j where d: "decode_utf8_preview raw (0 < start) final = Some d" "d = take i (drop j s)"
    "length raw \<le> length (utf8_bytes d) + 6" "start = 0 \<and> final \<longrightarrow> d = s"
    using preview_of_slice [OF assms(4) raw_def final_def] by blast
  have nul: "0 \<notin> set raw" unfolding raw_def using assms(5) by (meson in_set_dropD in_set_takeD)
  define content where "content = (if 0 < start then drop_partial_line d else d)"
  let ?p = "\<lparr>tp_relative = as_posix (drop (length ws) target), tp_content = content,
      tp_size = length (utf8_bytes s), tp_mtime = node_mtime (Regular ino (utf8_bytes s)), tp_mode = mode,
      tp_truncated = (0 < start \<or> start + length raw < length (utf8_bytes s)), tp_offset = start,
      tp_read = length raw\<rparr>"
  have "part_of d s" using d(2) part_of_take_drop by simp
  then have "part_of content s"
    using part_of_trans [OF drop_partial_line_part] by (simp add: content_def)
  moreover have "read_text_preview ws rel mode_text offset max_bytes fs = Inr ?p"
    unfolding read_text_preview_def assms(2,6) rbind_simps stat Let_def option.case assms(3) node_size.simps
      limit_def [symmetric] start_def [symmetric] raw_def [symmetric] final_def [symmetric] d(1)
      relative_inside [OF within(1)] content_def [symmetric]
    by (simp add: nul)
  moreover have "int (length raw) \<le> max 4096 (min max_bytes (1024 * 1024))"
  proof -
    have "length raw \<le> limit" by (simp add: raw_def)
    then show ?thesis by (simp add: limit_def)
  qed
  moreover have "content = s" if "\<not> (0 < start \<or> start + length raw < length (utf8_bytes s))"
    using that d(4) by (simp add: content_def final_def)
  moreover have "length raw \<le> length (utf8_bytes content) + 6" if "start = 0"
    using that d(3) by (simp add: content_def)
  ultimately show ?thesis by (intro exI [of _ ?p]) simp
qed

definition shown :: "ustr \<Rightarrow> text_preview fresult" where
  "shown mode = read_text_preview ws_dir (u ''src/a.py'') mode 2 4096 sample_fs"

theorem preview_witness:
  "\<exists>p. shown (u ''range'') = Inr p \<and> part_of (tp_content p) main_text"
proof -
  have "list_all scalar main_text \<and> 0 \<notin> set (utf8_bytes main_text)"
    by (simp add: main_text_def scalar_def is_surrogate_def utf8_char_def)
  moreover have "resolve sample_fs ws_dir = Inr ws_dir" by (simp add: ws_dir_def sample_ws)
  moreover have "mode_of (u ''range'') = Some Range_Mode" by (simp add: mode_of_def)
  ultimately show ?thesis
    unfolding shown_def
    using preview_shows_part_of_file [OF _ sample_regular, of main_text "u ''range''" Range_Mode 2 4096] sample_file
    by blast
qed

end
