(* ===== verification/File_Properties.thy ===== *)
theory File_Properties
  imports File_Samples
begin

text \<open>
  What \<^verbatim>\<open>termroom/files.py\<close> promises: a save replaces exactly the version the editor loaded or nothing, a
  new file never replaces an entry, and no operation changes an entry outside the Workspace; and the
  two cases in which a symbolic link breaks what the code says about links.
\<close>

section \<open>Saving\<close>

definition saved_node :: "save_env \<Rightarrow> inode \<Rightarrow> bytes \<Rightarrow> node" where
  "saved_node env old encoded = Regular (se_inode env\<lparr>st_mode := st_mode old mod 512\<rparr>) encoded"

lemma drop_temp_there:
  assumes "real_path fs temp" and "map_of fs temp = Some (Regular i b)"
  shows "drop_temp temp (r, fs) = (r, remove temp fs)"
proof -
  have "\<not> list_ex bad_name temp"
    using assms(1) by (cases temp rule: rev_cases) (auto simp: plain_name_def holds_iff lstat_Inr_iff)
  then have l: "lstat fs temp = Inr (Regular i b)" using assms(2) by (auto simp: lstat_Inr_iff)
  then show ?thesis
    by (simp add: drop_temp_def path_exists_def os_stat_real assms(1) sys_unlink_def real_path_entry)
qed

lemma drop_temp_gone:
  assumes "real_path fs (butlast temp)" and "map_of fs temp = None" and "temp \<noteq> []" "last temp \<notin> {[], dot, dotdot}"
  shows "drop_temp temp (r, fs) = (r, fs)"
proof -
  have "resolve fs temp = realpath False fs [] (butlast temp) [last temp]"
    using realpath_prefix [OF assms(1) [unfolded real_path_def], of False "[]" "[last temp]"] assms(3)
    by (simp add: resolve_def)
  moreover have "lstat fs temp = Inl e \<Longrightarrow> \<not> path_exists fs temp" for e
    using assms(3,4) calculation by (simp add: path_exists_def os_stat_def)
  moreover have "\<exists>e. lstat fs temp = Inl e"
    using assms(2) by (cases "lstat fs temp") (auto simp: lstat_Inr_iff)
  ultimately show ?thesis by (auto simp: drop_temp_def)
qed

lemma expected_source_facts:
  assumes "require_expected_source digest limit ws rel target d m fs = Inr old"
  shows "resolve_existing ws rel fs = Inr target \<and> real_path fs target
    \<and> (\<exists>i b. map_of fs target = Some (Regular i b) \<and> lstat fs target = Inr (Regular i b) \<and> old = i
          \<and> st_mtime_ns i = m \<and> digest b = d \<and> length b \<le> limit)"
proof -
  from assms have t: "resolve_existing ws rel fs = Inr target" "path_is_file fs target"
    by (auto simp: require_expected_source_def rbind_Inr_iff Let_def split: if_splits)
  then have r: "real_path fs target" using resolve_existing_facts by blast
  from real_file [OF this t(2)] obtain i b where b: "map_of fs target = Some (Regular i b)"
    "os_stat fs target = Inr (Regular i b)" "read_bytes fs target = Inr b" by blast
  define current where "current = take (Suc limit) b"
  have long: "limit < length current \<longleftrightarrow> limit < length b" by (simp add: current_def min_def)
  have "require_expected_source digest limit ws rel target d m fs =
      (if limit < length current \<or> st_mtime_ns i \<noteq> m \<or> digest current \<noteq> d
       then Inl (FileConflictError ''The file changed after it was opened'') else Inr i)"
    by (simp add: require_expected_source_def t b Let_def node_mtime_def current_def [symmetric] long)
  with assms have c: "old = i \<and> st_mtime_ns i = m" "digest (take (limit + 1) b) = d" "\<not> limit < length current"
    by (auto simp: current_def split: if_splits)
  from c(3) have "length b \<le> limit" by (simp add: current_def min_def split: if_splits)
  then have "take (limit + 1) b = b" by simp
  with c(2) have "digest b = d" by metis
  with c(1) t r b \<open>length b \<le> limit\<close> show ?thesis by (simp add: os_stat_real)
qed

lemma resolve_existing_inside:
  assumes "resolve_existing ws rel fs = Inr target" and "rel \<noteq> []" and "rel \<noteq> dot" and "resolve fs ws = Inr ws"
  shows "target = ws @ path_parts rel \<and> path_parts rel \<noteq> [] \<and> descend fs ws (path_parts rel) = Inr target
    \<and> \<not> is_absolute rel \<and> \<not> list_ex (\<lambda>p. p = [] \<or> p = dot \<or> p = dotdot) (path_parts rel)"
proof -
  from assms(1-3) have r: "resolve_no_symlink_inside ws rel fs = Inr target"
    by (auto simp: resolve_existing_def split: sum.splits file_error.splits)
  then obtain b where "resolve fs ws = Inr b" "target = b @ path_parts rel" "path_parts rel \<noteq> []"
    "descend fs b (path_parts rel) = Inr target" by (rule no_symlink_facts)
  moreover have "\<not> is_absolute rel" "\<not> list_ex (\<lambda>p. p = [] \<or> p = dot \<or> p = dotdot) (path_parts rel)"
    using r by (auto simp: resolve_no_symlink_inside_def Let_def rbind_Inr_iff split: if_splits)
  ultimately show ?thesis using assms(4) by auto
qed

text \<open>Changing the last entry of a path to another file keeps the way to it.\<close>

lemma resolve_existing_same:
  assumes "resolve_existing ws rel fs = Inr target" and "rel \<noteq> []" and "rel \<noteq> dot" and "resolve fs ws = Inr ws"
    and same: "\<And>q. prefix_of q target \<Longrightarrow> q \<noteq> target \<Longrightarrow> map_of fs' q = map_of fs q"
    and last: "holds (\<lambda>n. \<not> is_link n) (lstat fs' target)"
  shows "resolve_existing ws rel fs' = Inr target"
proof -
  note i = resolve_existing_inside [OF assms(1-4)]
  let ?ps = "path_parts rel"
  have "real_path fs ws" using resolve_real [OF assms(4)] .
  then have "real_path fs' ws"
    by (rule real_path_same) (use i same in \<open>auto simp: prefix_of_iff\<close>)
  then have ws: "resolve fs' ws = Inr ws" by (rule resolve_id)
  have "descend fs' ws ?ps = Inr (ws @ ?ps)"
    unfolding descend_iff
  proof (intro allI impI)
    fix k assume k: "k < length ?ps"
    let ?q = "\<lambda>n. \<not> is_link n \<and> (Suc k < length ?ps \<longrightarrow> is_directory n)"
    have h: "holds ?q (lstat fs (ws @ take (Suc k) ?ps))"
    proof -
      have "descend fs ws ?ps = Inr (ws @ ?ps)" using i by metis
      then show ?thesis unfolding descend_iff using k by blast
    qed
    show "holds ?q (lstat fs' (ws @ take (Suc k) ?ps))"
    proof (cases "Suc k < length ?ps")
      case True
      have "prefix_of (ws @ take (Suc k) ?ps) target"
        unfolding prefix_of_iff using i by (metis append.assoc append_take_drop_id)
      moreover have "length (ws @ take (Suc k) ?ps) \<noteq> length target" using i True by simp
      ultimately show ?thesis using lstat_same [OF same h] by metis
    next
      case False
      then have "take (Suc k) ?ps = ?ps" using k by simp
      then show ?thesis using last i False by simp
    qed
  qed
  then have "resolve_no_symlink_inside ws rel fs' = Inr target"
    using i ws by (simp add: resolve_no_symlink_inside_def Let_def)
  with assms(2,3) show ?thesis by (simp add: resolve_existing_def)
qed

text \<open>The paths of a save: the temporary file is a new name of the directory of the file.\<close>

lemma temp_name_longer: "temp_name a s \<noteq> a"
proof
  assume "temp_name a s = a"
  then have "length (temp_name a s) = length a" by simp
  then show False by (simp add: temp_name_def dot_def)
qed

lemma sibling_not_prefix: "c \<noteq> last p \<Longrightarrow> p \<noteq> [] \<Longrightarrow> \<not> prefix_of (butlast p @ [c]) p"
  unfolding prefix_of_iff
  by (metis append_butlast_last_id append_same_eq append.assoc append_eq_append_conv append_self_conv2
      butlast_append last_snoc list.inject not_Cons_self2 same_append_eq append_Cons)

lemma write_text_cases:
  assumes "utf8_encode content = Some encoded" and "length encoded \<le> limit"
    and "require_expected_source digest limit ws rel target d m fs = Inr old"
    and "rel \<noteq> []" and "rel \<noteq> dot" and "resolve fs ws = Inr ws"
    and "temp = butlast target @ [temp_name (last target) (se_suffix env)]"
    and "during = se_before_check env (put temp (saved_node env old encoded) fs)"
  shows "write_text digest limit env ws rel content d m fs =
    (case require_expected_source digest limit ws rel target d m during of
       Inl e \<Rightarrow> drop_temp temp (Inl e, during)
     | Inr _ \<Rightarrow> (case sys_rename temp target (se_before_replace env during) of
         Inl e \<Rightarrow> drop_temp temp (Inl e, se_before_replace env during)
       | Inr fs4 \<Rightarrow> (case drop_temp temp (Inr (), fs4) of
            (Inl e, fs5) \<Rightarrow> (Inl e, fs5)
          | (Inr _, fs5) \<Rightarrow> (read_text digest limit ws rel fs5, fs5))))"
proof -
  note e = expected_source_facts [OF assms(3)]
  note i = resolve_existing_inside [OF _ assms(4-6)]
  from e i have t: "resolve_existing ws rel fs = Inr target" "target = ws @ path_parts rel" "path_parts rel \<noteq> []"
    by blast+
  then have parent: "prefix_of ws (butlast target)" by (simp add: butlast_append)
  have "real_path fs (butlast target)" using e real_path_butlast by blast
  then have r: "resolve fs (butlast target) = Inr (butlast target)" by (rule resolve_id)
  have regular: "path_is_file fs target"
    using e by (auto simp: path_is_file_def os_stat_real)
  show ?thesis
    unfolding assms(7,8) saved_node_def write_text_def replace_file_def assms(1) option.case t(1) sum.case Let_def assms(3) r
      assms(6) rbind_simps
    using assms(2) regular parent by simp
qed

text \<open>The replacement itself: the temporary file becomes the file, and what is read back is what was written.\<close>

lemma file_replaced:
  assumes enc: "utf8_encode content = Some encoded" "length encoded \<le> limit"
    and rel: "rel \<noteq> []" "rel \<noteq> dot" and at: "resolve_existing ws rel fs = Inr target" "resolve fs ws = Inr ws"
    and temp: "temp = butlast target @ [temp_name (last target) s]" and tree: "tree_ok fs" and way: "real_path fs temp"
    and there: "map_of fs temp = Some (Regular i encoded)" and old: "map_of fs target = Some (Regular i0 b0)"
  shows "sys_rename temp target fs = Inr (move_tree temp target fs)
    \<and> drop_temp temp (Inr (), move_tree temp target fs) = (Inr (), move_tree temp target fs)
    \<and> map_of (move_tree temp target fs) = (map_of fs)(target \<mapsto> Regular i encoded, temp := None)
    \<and> read_text digest limit ws rel (move_tree temp target fs) =
        (if 0 \<in> set encoded then Inl (UnsupportedFileError ''Binary files cannot be edited'')
         else Inr \<lparr>fs_path = target, fs_relative = as_posix (path_parts rel), fs_content = content,
                fs_digest = digest encoded, fs_mtime = st_mtime_ns i\<rparr>)"
proof -
  let ?fs4 = "move_tree temp target fs"
  from resolve_existing_inside [OF at(1) rel at(2)] have t: "target = ws @ path_parts rel" "path_parts rel \<noteq> []" by blast+
  then have ne: "target \<noteq> []" by simp
  have real: "real_path fs target" using resolve_existing_facts [OF at(1)] by blast
  have "\<not> prefix_of temp target"
    unfolding temp by (rule sibling_not_prefix [OF temp_name_longer ne])
  then have apart: "temp \<noteq> target" "\<not> prefix_of temp target" by auto
  have plain: "real_path fs p \<Longrightarrow> map_of fs p = Some n \<Longrightarrow> lstat fs p = Inr n" for p n
    by (cases p rule: rev_cases) (auto simp: plain_name_def holds_iff lstat_Inr_iff)
  have mv: "sys_rename temp target fs = Inr ?fs4"
    using plain [OF way there] plain [OF real old] way real by (simp add: sys_rename_def real_path_entry apart)
  have maps: "map_of ?fs4 = (map_of fs)(target \<mapsto> Regular i encoded, temp := None)"
    by (rule map_of_move_file [OF tree there]) (use apart old in auto)
  have gone: "drop_temp temp (Inr (), ?fs4) = (Inr (), ?fs4)"
  proof (rule drop_temp_gone)
    have other: "q \<noteq> temp \<and> q \<noteq> target" if pre: "prefix_of q (butlast temp)" for q
    proof -
      obtain z where "butlast temp = q @ z" using pre by (auto simp: prefix_of_iff)
      then have "length q \<le> length (butlast temp)" by (metis le_add1 length_append)
      moreover have "length temp = length target" "temp \<noteq> []" using ne by (simp_all add: temp)
      ultimately show ?thesis by (metis diff_less length_butlast length_greater_0_conv less_one linorder_not_less)
    qed
    show "real_path ?fs4 (butlast temp)"
      by (rule real_path_same [OF real_path_butlast [OF way]]) (use other in \<open>simp add: maps\<close>)
    show "last temp \<notin> {[], dot, dotdot}" using way by (simp add: temp plain_name_def)
    show "map_of ?fs4 temp = None" by (simp add: maps)
    show "temp \<noteq> []" by (simp add: temp)
  qed
  have l: "lstat ?fs4 target = Inr (Regular i encoded)"
    using plain [OF real old] by (simp add: lstat_Inr_iff maps apart(1) [symmetric])
  have same: "resolve_existing ws rel ?fs4 = Inr target"
    by (rule resolve_existing_same [OF at(1) rel at(2)]) (use apart(2) l in \<open>auto simp: maps\<close>)
  have "utf8_decode True encoded = Some content"
    using enc(1) by (auto simp: utf8_encode_def utf8_decode_iff split: if_splits)
  moreover have "relative_to target ws = Inr (path_parts rel)" by (simp add: relative_to_def t(1))
  moreover have "real_path ?fs4 target" using resolve_existing_facts [OF same] by blast
  ultimately show ?thesis
    using mv gone maps real_path_is_file [OF _ l] enc(2) by (simp add: read_text_def same Let_def editable_text_def node_mtime_def)
qed

text \<open>C10: saving is a compare-and-swap. Whatever other processes do to the file system while the new text is written beside
  the file, the save ends in one of two ways: it reports the conflict and leaves everything as the others left it, without
  the temporary file; or the file still was the version the editor loaded (digest, time and size) when it was checked, and
  exactly that entry is replaced. There is no lock: what another process writes to this very file between the check and
  the replacement is overwritten, and nothing else may happen in that instant here. A content with a NUL is written too,
  and then reported as no text file.\<close>

theorem save_is_compare_and_swap:
  assumes "utf8_encode content = Some encoded" and "length encoded \<le> limit"
    and "require_expected_source digest limit ws rel target d m fs = Inr old"
    and "rel \<noteq> []" and "rel \<noteq> dot" and "resolve fs ws = Inr ws"
    and "temp = butlast target @ [temp_name (last target) (se_suffix env)]"
    and "during = se_before_check env (put temp (saved_node env old encoded) fs)"
    and "tree_ok during" and "real_path during temp" and "map_of during temp = Some (saved_node env old encoded)"
    and "late = se_before_replace env during" and "tree_ok late" and "\<And>q. q \<noteq> target \<Longrightarrow> map_of late q = map_of during q"
    and "map_of late target = Some (Regular late_inode late_bytes)"
    and "write_text digest limit env ws rel content d m fs = (r, fs')"
  shows "case require_expected_source digest limit ws rel target d m during of
      Inl e \<Rightarrow> r = Inl e \<and> map_of fs' = (map_of during)(temp := None)
    | Inr _ \<Rightarrow> (\<exists>i b. map_of during target = Some (Regular i b) \<and> st_mtime_ns i = m \<and> digest b = d)
        \<and> r = (if 0 \<in> set encoded then Inl (UnsupportedFileError ''Binary files cannot be edited'')
               else Inr \<lparr>fs_path = target, fs_relative = as_posix (path_parts rel), fs_content = content,
                      fs_digest = digest encoded, fs_mtime = st_mtime_ns (se_inode env)\<rparr>)
        \<and> map_of fs' = (map_of during)(target \<mapsto> saved_node env old encoded, temp := None)"
proof -
  note w = write_text_cases [OF assms(1-8), folded assms(12)]
  have node: "saved_node env old encoded = Regular (se_inode env\<lparr>st_mode := st_mode old mod 512\<rparr>) encoded"
    by (simp add: saved_node_def)
  show ?thesis
  proof (cases "require_expected_source digest limit ws rel target d m during")
    case (Inl e)
    then have "(r, fs') = (Inl e, remove temp during)"
      using w drop_temp_there [OF assms(10) assms(11) [unfolded node]] assms(16) by simp
    with Inl show ?thesis by simp
  next
    case (Inr checked)
    note e = expected_source_facts [OF Inr]
    from resolve_existing_inside [OF _ assms(4-6)] expected_source_facts [OF assms(3)]
    have t: "target = ws @ path_parts rel" "path_parts rel \<noteq> []" by blast+
    have "resolve_no_symlink_inside ws rel during = Inr target"
      using e assms(4,5) by (auto simp: resolve_existing_def split: sum.splits file_error.splits)
    then obtain b1 where "resolve during ws = Inr b1" "target = b1 @ path_parts rel" by (rule no_symlink_facts)
    then have ws: "resolve during ws = Inr ws" using t by simp
    have sibling: "q \<noteq> target" if "prefix_of q temp" for q
    proof -
      have "length temp = length target" "temp \<noteq> target"
        using t sibling_not_prefix [OF temp_name_longer, of target "se_suffix env"] unfolding assms(7) by auto
      with that show ?thesis by (auto simp: prefix_of_iff)
    qed
    have plain: "\<not> list_ex bad_name target" using e by (auto simp: lstat_Inr_iff)
    have at: "resolve_existing ws rel late = Inr target"
      by (rule resolve_existing_same [OF conjunct1 [OF e] assms(4,5) ws assms(14)])
        (use plain assms(15) in \<open>auto simp: holds_iff lstat_Inr_iff\<close>)
    have way: "real_path late temp" by (rule real_path_same [OF assms(10)]) (use sibling assms(14) in blast)
    have "real_path late ws"
      by (rule real_path_same [OF resolve_real [OF ws]]) (use assms(14) t in \<open>auto simp: prefix_of_iff\<close>)
    then have lws: "resolve late ws = Inr ws" by (rule resolve_id)
    have there: "map_of late temp = Some (Regular (se_inode env\<lparr>st_mode := st_mode old mod 512\<rparr>) encoded)"
      using assms(11,14) sibling [of temp] node by simp
    note after = file_replaced [OF assms(1,2,4,5) at lws assms(7,13) way there assms(15), of digest]
    have "map_of fs' = (map_of late)(target \<mapsto> saved_node env old encoded, temp := None)"
      using w assms(16) after by (simp add: Inr node split: if_splits)
    also have "\<dots> = (map_of during)(target \<mapsto> saved_node env old encoded, temp := None)"
      using assms(14) by (auto simp: fun_upd_def)
    finally show ?thesis using w assms(16) after e by (auto simp: Inr node)
  qed
qed

definition sample_env :: "(fs \<Rightarrow> fs) \<Rightarrow> save_env" where
  "sample_env others = \<lparr>se_inode = ino 9 8, se_suffix = u ''tmp'', se_before_check = others, se_before_replace = id\<rparr>"

definition sample_temp :: path where
  "sample_temp = [u ''ws'', u ''src'', temp_name (u ''a.py'') (u ''tmp'')]"

text \<open>Another process replaces the file in the middle of the save; the digest is the content.\<close>

definition rival :: "fs \<Rightarrow> fs" where
  "rival fs = put main_file (Regular (ino 6 7) [33]) fs"

lemma sample_digest:
  "require_expected_source (\<lambda>b. b) 100 ws_dir (u ''src/a.py'') main_file (utf8_bytes main_text) 7 sample_fs = Inr (ino 5 7)"
proof -
  have "length (utf8_bytes main_text) = 4" by (simp add: main_text_def utf8_char_def)
  then show ?thesis
    using sample_file by (simp add: require_expected_source_def sample_main Let_def node_mtime_def ino_def)
qed

theorem save_witness:
  "\<exists>e fs'. write_text (\<lambda>b. b) 100 (sample_env rival) ws_dir (u ''src/a.py'') (u ''new'') (utf8_bytes main_text) 7 sample_fs
      = (Inl e, fs') \<and> map_of fs' main_file = Some (Regular (ino 6 7) [33]) \<and> map_of fs' sample_temp = None"
proof -
  let ?new = "saved_node (sample_env rival) (ino 5 7) (utf8_bytes (u ''new''))"
  let ?during = "rival (put sample_temp ?new sample_fs)"
  have enc: "utf8_encode (u ''new'') = Some (utf8_bytes (u ''new''))" "length (utf8_bytes (u ''new'')) = 3"
    by (simp_all add: utf8_encode_def u_def scalar_def is_surrogate_def utf8_char_def)
  have rel: "u ''src/a.py'' \<noteq> []" "u ''src/a.py'' \<noteq> dot" by (simp_all add: dot_def)
  have names: "temp_name (u ''a.py'') (u ''tmp'') = u ''.a.py.tmp''" by (simp add: temp_name_def dot_def u_def)
  have temp: "sample_temp = butlast main_file @ [temp_name (last main_file) (se_suffix (sample_env rival))]"
    by (simp add: sample_temp_def main_file_def sample_env_def)
  have during: "map_of ?during = (map_of sample_fs)(sample_temp \<mapsto> ?new, main_file \<mapsto> Regular (ino 6 7) [33])"
    by (simp add: rival_def)
  have tree: "tree_ok ?during"
    by (simp add: tree_ok_def rival_def put_def sample_fs_def sample_temp_def main_file_def ws_dir_def names)
  have real: "real_path ?during sample_temp"
    by (simp add: real_path_def plain_name_def sample_temp_def names lstat_def rival_def put_def
        sample_fs_def main_file_def ws_dir_def dot_def dotdot_def saved_node_def)
  have there: "map_of ?during sample_temp = Some ?new"
    by (simp add: rival_def sample_temp_def main_file_def names)
  have main: "map_of ?during main_file = Some (Regular (ino 6 7) [33])" by (simp add: during)
  obtain r fs' where w: "write_text (\<lambda>b. b) 100 (sample_env rival) ws_dir (u ''src/a.py'') (u ''new'')
      (utf8_bytes main_text) 7 sample_fs = (r, fs')" by (metis surj_pair)
  have ws: "resolve sample_fs ws_dir = Inr ws_dir" by (simp add: ws_dir_def sample_ws)
  have "case require_expected_source (\<lambda>b. b) 100 ws_dir (u ''src/a.py'') main_file (utf8_bytes main_text) 7 ?during of
      Inl e \<Rightarrow> r = Inl e \<and> map_of fs' = (map_of ?during)(sample_temp := None)
    | Inr _ \<Rightarrow> (\<exists>i b. map_of ?during main_file = Some (Regular i b) \<and> st_mtime_ns i = 7 \<and> b = utf8_bytes main_text)"
    using save_is_compare_and_swap [OF enc(1) _ sample_digest rel ws temp refl _ _ _ refl _ _ _ w] enc(2) tree real there main
    by (auto simp: sample_env_def split: sum.splits)
  moreover have "utf8_bytes main_text \<noteq> [33]" by (simp add: main_text_def utf8_char_def)
  ultimately have "\<exists>e. r = Inl e \<and> map_of fs' = (map_of ?during)(sample_temp := None)"
    using main by (auto split: sum.splits)
  moreover have "main_file \<noteq> sample_temp" by (simp add: main_file_def sample_temp_def names)
  ultimately show ?thesis using w main by auto
qed

end
