(* ===== verification/File_Boundary.thy ===== *)
theory File_Boundary
  imports File_Properties
begin

text \<open>
  The boundary of a Workspace: every call of \<open>FileService\<close> that writes changes entries inside the
  Workspace directory only, and so does every sequence of calls, with one exception that the statement names and
  that is shown below: creating a plain file under the name of a link.
\<close>

definition inside :: "path \<Rightarrow> path set" where
  "inside ws = {p. prefix_of ws p \<and> p \<noteq> ws}"

lemma inside_below: "p \<in> inside ws \<Longrightarrow> prefix_of p q \<Longrightarrow> q \<in> inside ws"
  by (auto simp: inside_def prefix_of_iff)

lemma inside_child: "prefix_of ws p \<Longrightarrow> p @ [c] \<in> inside ws"
  by (auto simp: inside_def prefix_of_iff)

lemma changed_one: "changed fs fs' \<subseteq> {p} \<Longrightarrow> p \<in> inside ws \<Longrightarrow> changed fs fs' \<subseteq> inside ws"
  by blast

lemma changed_move_inside:
  "p \<in> inside ws \<Longrightarrow> q \<in> inside ws \<Longrightarrow> changed fs (move_tree p q fs) \<subseteq> inside ws"
  using changed_move_tree [of fs p q] inside_below by blast

text \<open>Entries below the changed ones do not matter for the way there.\<close>

lemma real_path_kept:
  assumes "real_path fs p" and "changed fs fs' \<subseteq> S" and "\<And>q. q \<in> S \<Longrightarrow> \<not> prefix_of q p"
  shows "real_path fs' p"
proof (rule real_path_same [OF assms(1)])
  fix q assume "prefix_of q p"
  then show "map_of fs' q = map_of fs q" using unchanged [OF assms(2)] assms(3) by blast
qed

lemma real_workspace_kept: "real_path fs ws \<Longrightarrow> changed fs fs' \<subseteq> inside ws \<Longrightarrow> real_path fs' ws"
  by (rule real_path_kept) (auto simp: inside_def prefix_of_iff)

lemma drop_temp_changes:
  assumes "real_path fs (butlast temp)"
  shows "changed fs (snd (drop_temp temp (r, fs))) \<subseteq> {temp}"
  using entry_path_id [OF assms]
  by (auto simp: drop_temp_def sys_unlink_def rbind_def split: sum.splits)

lemma rename_changes:
  assumes "sys_rename src dst fs = Inr fs'" and "real_path fs (butlast src)" and "real_path fs (butlast dst)"
    and "src \<in> inside ws" and "dst \<in> inside ws"
  shows "changed fs fs' \<subseteq> inside ws"
proof -
  have "fs' = fs \<or> fs' = move_tree src dst fs"
    using assms(1) entry_path_id [OF assms(2)] entry_path_id [OF assms(3)]
    by (auto simp: sys_rename_def rbind_Inr_iff split: if_splits sum.splits)
  then show ?thesis using changed_move_inside [OF assms(4,5)] by auto
qed

lemma create_inside:
  assumes "create i k ws parent name directory fs = (r, fs')" and "real_path fs ws"
    and "\<not> directory \<Longrightarrow> \<forall>d. resolve_inside ws (Path parent) True fs = Inr d \<longrightarrow> \<not> path_is_symlink fs (d @ [name])"
  shows "changed fs fs' \<subseteq> inside ws"
proof (cases "fs' = fs")
  case False
  have ws: "resolve fs ws = Inr ws" using assms(2) by (rule resolve_id)
  from assms(1) False obtain d t where v: "valid_name name" and d: "resolve_inside ws (Path parent) True fs = Inr d"
    and t: "resolve_inside ws (joined parent name) False fs = Inr t" and "\<not> path_exists fs t"
    and e: "(if directory then sys_mkdir i k t fs else sys_touch i t fs) = Inr fs'"
    by (auto simp: create_def split: if_splits sum.splits)
  from d ws have "resolve fs (ws @ path_parts parent) = Inr d" and "\<not> is_absolute parent"
    by (auto simp: resolve_inside_def Path_def rbind_Inr_iff Let_def split: if_splits)
  with t ws have t_eq: "t = d @ [name]"
    by (auto simp: resolve_inside_def joined_def rbind_Inr_iff Let_def butlast_append split: if_splits)
  from resolve_inside_facts [OF d] ws have within: "prefix_of ws d" "real_path fs d" by auto
  then have in_t: "t \<in> inside ws" unfolding t_eq by (intro inside_child)
  have entry: "entry_path fs t = Inr t" using within t_eq by (intro entry_path_id) simp
  have "changed fs fs' \<subseteq> {t}"
  proof (cases directory)
    case True
    with e entry have "fs' = put t (Directory i k) fs" by (auto simp: sys_mkdir_def split: sum.splits if_splits)
    then show ?thesis by simp
  next
    case False
    with assms(3) d have nl: "\<not> holds is_link (lstat fs t)"
      using entry by (auto simp: path_is_symlink_def os_lstat_def t_eq)
    have name: "name \<noteq> []" "name \<noteq> dot" "name \<noteq> dotdot" using v by (simp_all add: valid_name_def)
    have walk: "realpath True fs [] [] t = realpath True fs [] d [name]"
      using realpath_prefix [OF within(2) [unfolded real_path_def], of True "[]" "[name]"] by (simp add: t_eq)
    have "realpath True fs [] [] t = Inr q \<Longrightarrow> q = t" for q
      using nl name unfolding walk
      by (auto simp: t_eq split: sum.splits node.splits if_splits)
    with e False obtain n where "fs' = put t n fs" by (auto simp: sys_touch_def rbind_Inr_iff split: option.splits)
    then show ?thesis by simp
  qed
  then show ?thesis using in_t by (rule changed_one)
qed simp

lemma rename_inside:
  assumes "rename_entry ws rel new_name fs = (r, fs')" and "real_path fs ws"
  shows "changed fs fs' \<subseteq> inside ws"
proof (cases "fs' = fs")
  case False
  have ws: "resolve fs ws = Inr ws" using assms(2) by (rule resolve_id)
  from assms(1) False obtain s q d where s: "resolve_inside ws (Path rel) True fs = Inr s"
    and q: "relative_to s ws = Inr q" and d: "resolve_inside ws (False, butlast q @ [new_name]) False fs = Inr d"
    and e: "sys_rename s d fs = Inr fs'"
    by (auto simp: rename_entry_def rbind_Inr_iff split: if_splits sum.splits) metis
  from resolve_inside_facts [OF s] ws have sr: "prefix_of ws s" "real_path fs s" by auto
  from q sr(1) have s_eq: "s = ws @ q" by (auto simp: relative_to_def prefix_of_iff)
  have sr': "real_path fs (ws @ butlast q)"
    using sr(2) real_path_butlast assms(2) s_eq by (cases q rule: rev_cases) (auto simp: real_path_append real_from_append)
  with d ws have d_eq: "d = ws @ butlast q @ [new_name]"
    by (auto simp: resolve_inside_def rbind_Inr_iff Let_def butlast_append resolve_id split: if_splits)
  show ?thesis
  proof (cases q rule: rev_cases)
    case Nil
    then have "prefix_of s d" "s \<noteq> d" using s_eq d_eq by simp_all
    with e entry_path_id [of fs s] entry_path_id [of fs d] sr sr' real_path_butlast [OF sr(2)] Nil d_eq
    show ?thesis by (auto simp: sys_rename_def rbind_Inr_iff butlast_append split: if_splits)
  next
    case (snoc q' c)
    then have "s \<in> inside ws" by (simp add: s_eq inside_def)
    moreover have "d \<in> inside ws" by (simp add: d_eq inside_def)
    moreover have "real_path fs (butlast d)" using sr' by (simp add: d_eq butlast_append)
    ultimately show ?thesis using rename_changes [OF e real_path_butlast [OF sr(2)]] by blast
  qed
qed simp

lemma delete_inside:
  assumes "delete_entry ws rel fs = (r, fs')" and "real_path fs ws"
  shows "changed fs fs' \<subseteq> inside ws"
proof (cases "fs' = fs")
  case False
  have ws: "resolve fs ws = Inr ws" using assms(2) by (rule resolve_id)
  from assms(1) False ws obtain t where t: "resolve_inside ws (Path rel) True fs = Inr t" "t \<noteq> ws"
    and e: "(if path_is_dir fs t then sys_rmdir t fs else sys_unlink t fs) = Inr fs'"
    by (auto simp: delete_entry_def split: if_splits sum.splits)
  from resolve_inside_facts [OF t(1)] ws have tr: "prefix_of ws t" "real_path fs t" by auto
  then have "fs' = remove t fs"
    using e real_path_entry [OF tr(2)] by (auto simp: sys_rmdir_def sys_unlink_def rbind_Inr_iff split: if_splits)
  then show ?thesis using tr(1) t(2) by (intro changed_one [of _ _ t]) (auto simp: inside_def)
qed simp

section \<open>Saving\<close>

lemma put_keeps_way:
  assumes "real_path fs d" and "length d < length p"
  shows "real_path (put p n fs) d"
  by (rule real_path_kept [OF assms(1), of _ "{p}"]) (use assms(2) in \<open>auto simp: prefix_of_iff\<close>)

lemma move_keeps_way:
  assumes "real_path fs d" and "length d < length p" and "length d < length q"
  shows "real_path (move_tree p q fs) d"
proof (rule real_path_kept [OF assms(1) changed_move_tree])
  fix x assume "x \<in> {r. prefix_of p r \<or> prefix_of q r}"
  then show "\<not> prefix_of x d" using assms(2,3) by (auto simp: prefix_of_iff)
qed

lemma drop_temp_inside:
  assumes "changed fs fs1 \<subseteq> inside ws" and "real_path fs1 (butlast temp)" and "temp \<in> inside ws"
  shows "changed fs (snd (drop_temp temp (r, fs1))) \<subseteq> inside ws"
  by (rule changed_trans [OF assms(1)]) (rule changed_one [OF drop_temp_changes [OF assms(2)] assms(3)])

text \<open>No other process interferes.\<close>

definition undisturbed :: "save_env \<Rightarrow> bool" where
  "undisturbed env \<longleftrightarrow> (\<forall>fs. se_before_check env fs = fs \<and> se_before_replace env fs = fs)"

lemma replace_file_inside:
  assumes "replace_file digest limit env ws rel check target (butlast target) old encoded fs = (r, fs')"
    and "real_path fs target" and "target \<in> inside ws" and "prefix_of ws (butlast target)" and "undisturbed env"
  shows "changed fs fs' \<subseteq> inside ws"
proof -
  define temp where "temp = butlast target @ [temp_name (last target) (se_suffix env)]"
  define fs1 where "fs1 = put temp (Regular (se_inode env\<lparr>st_mode := st_mode old mod 512\<rparr>) encoded) fs"
  have env: "se_before_check env x = x" "se_before_replace env x = x" for x
    using assms(5) by (simp_all add: undisturbed_def)
  have ne: "target \<noteq> []" using assms(3) by (auto simp: inside_def prefix_of_iff)
  have temp: "temp \<in> inside ws" "butlast temp = butlast target" "length temp = length target"
    using inside_child [OF assms(4)] ne by (simp_all add: temp_def)
  have way: "real_path fs (butlast target)" by (rule real_path_butlast [OF assms(2)])
  have short: "length (butlast target) < length target" "length (butlast target) < length temp" using ne temp by simp_all
  have way1: "real_path fs1 (butlast target)" unfolding fs1_def by (rule put_keeps_way [OF way short(2)])
  have c1: "changed fs fs1 \<subseteq> inside ws" unfolding fs1_def using temp(1) by (intro changed_one [OF changed_put])
  have d1: "changed fs (snd (drop_temp temp (x, fs1))) \<subseteq> inside ws" for x :: "file_snapshot fresult"
    by (rule drop_temp_inside [OF c1 _ temp(1)]) (simp add: temp(2) way1)
  have d4: "changed fs (snd (drop_temp temp (Inr (), fs4))) \<subseteq> inside ws" if "sys_rename temp target fs1 = Inr fs4" for fs4
  proof -
    have "changed fs1 fs4 \<subseteq> inside ws"
      using rename_changes [OF that] way1 temp(1,2) assms(3) by simp
    then have c4: "changed fs fs4 \<subseteq> inside ws" using c1 changed_trans by blast
    have "fs4 = fs1 \<or> fs4 = move_tree temp target fs1"
      using that entry_path_id [of fs1 temp] entry_path_id [of fs1 target] way1 temp(2)
      by (auto simp: sys_rename_def rbind_Inr_iff split: if_splits sum.splits)
    then have "real_path fs4 (butlast temp)" using way1 temp(2) move_keeps_way [OF way1 short(2,1)] by auto
    then show ?thesis by (rule drop_temp_inside [OF c4 _ temp(1)])
  qed
  have "fs' = snd (replace_file digest limit env ws rel check target (butlast target) old encoded fs)"
    using assms(1) by simp
  also have "changed fs \<dots> \<subseteq> inside ws"
    unfolding replace_file_def temp_def [symmetric] fs1_def [symmetric] Let_def env
    using d1 d4 by (auto split: sum.split prod.split)
  finally show ?thesis .
qed

text \<open>The Workspace itself: a directory that no link leads to.\<close>

definition workspace_there :: "path \<Rightarrow> fs \<Rightarrow> bool" where
  "workspace_there ws fs \<longleftrightarrow> real_path fs ws \<and> holds is_directory (lstat fs ws)"

lemma workspace_stays: "workspace_there ws fs \<Longrightarrow> changed fs fs' \<subseteq> inside ws \<Longrightarrow> workspace_there ws fs'"
  unfolding workspace_there_def
  using real_workspace_kept lstat_same [OF unchanged [of fs fs' "inside ws" ws]] by (auto simp: inside_def)

lemma write_text_inside:
  assumes "write_text digest limit env ws rel content d m fs = (r, fs')" and "workspace_there ws fs" and "undisturbed env"
  shows "changed fs fs' \<subseteq> inside ws"
proof (cases "fs' = fs")
  case False
  have ws: "resolve fs ws = Inr ws" using assms(2) by (simp add: workspace_there_def resolve_id)
  from assms(1) False ws obtain encoded target old parent where t: "resolve_existing ws rel fs = Inr target"
    and p: "resolve fs (butlast target) = Inr parent" "prefix_of ws parent" and "path_is_file fs target"
    and w: "replace_file digest limit env ws rel (require_expected_source digest limit ws rel target d m)
      target parent old encoded fs = (r, fs')"
    by (auto simp: write_text_def Let_def rbind_Inr_iff split: option.splits if_splits sum.splits)
  from resolve_existing_facts [OF t] have tr: "real_path fs target" by blast
  then have parent: "parent = butlast target" using p(1) resolve_id [OF real_path_butlast [OF tr]] by simp
  have "target \<noteq> []"
  proof
    assume "target = []"
    with p(2) parent have "ws = []" by (simp add: prefix_of_iff)
    with assms(2) \<open>path_is_file fs target\<close> \<open>target = []\<close> show False
      by (auto simp: workspace_there_def path_is_file_def os_stat_real holds_iff) (metis node_kind_simps(1,5,6) node.exhaust node_kind_simps)
  qed
  then have "target \<in> inside ws" using inside_child [of ws "butlast target" "last target"] p(2) parent by simp
  then show ?thesis using replace_file_inside w tr p(2) assms(3) unfolding parent by blast
qed simp

lemma link_file_inside:
  assumes "link_file digest limit env ws rel target parent encoded fs = (r, fs')"
    and "real_path fs parent" and "prefix_of ws parent" and "target = parent @ [c]" and "undisturbed env"
  shows "changed fs fs' \<subseteq> inside ws"
proof -
  define temp where "temp = parent @ [temp_name (last target) (se_suffix env)]"
  define fs1 where "fs1 = put temp (Regular (se_inode env\<lparr>st_mode := 420\<rparr>) encoded) fs"
  have env: "se_before_check env x = x" for x using assms(5) by (simp add: undisturbed_def)
  have in_temp: "temp \<in> inside ws" and in_target: "target \<in> inside ws"
    using inside_child [OF assms(3)] by (simp_all add: temp_def assms(4))
  have way1: "real_path fs1 parent" unfolding fs1_def by (rule put_keeps_way [OF assms(2)]) (simp add: temp_def)
  have c1: "changed fs fs1 \<subseteq> inside ws" unfolding fs1_def using in_temp by (intro changed_one [OF changed_put])
  have d1: "changed fs (snd (drop_temp temp (x, fs1))) \<subseteq> inside ws" for x :: "file_snapshot fresult"
    by (rule drop_temp_inside [OF c1 _ in_temp]) (simp add: temp_def way1)
  have d3: "changed fs (snd (drop_temp temp (Inr (), fs3))) \<subseteq> inside ws" if "sys_link temp target fs1 = Inr fs3" for fs3
  proof -
    have "entry_path fs1 temp = Inr temp" "entry_path fs1 target = Inr target"
      using way1 by (simp_all add: entry_path_id temp_def assms(4))
    with that obtain n where fs3: "fs3 = put target n fs1"
      by (auto simp: sys_link_def rbind_Inr_iff split: if_splits sum.splits)
    have "changed fs1 fs3 \<subseteq> inside ws" unfolding fs3 using in_target by (intro changed_one [OF changed_put])
    then have c3: "changed fs fs3 \<subseteq> inside ws" using c1 changed_trans by blast
    have "real_path fs3 (butlast temp)" unfolding fs3 using put_keeps_way [OF way1] by (simp add: temp_def assms(4))
    then show ?thesis by (rule drop_temp_inside [OF c3 _ in_temp])
  qed
  have "fs' = snd (link_file digest limit env ws rel target parent encoded fs)"
    using assms(1) by simp
  also have "changed fs \<dots> \<subseteq> inside ws"
    unfolding link_file_def temp_def [symmetric] fs1_def [symmetric] Let_def env
    using d1 d3 by (auto split: sum.split prod.split)
  finally show ?thesis .
qed

lemma write_new_inside:
  assumes "write_new_text digest limit env ws rel content fs = (r, fs')" and "workspace_there ws fs" and "undisturbed env"
  shows "changed fs fs' \<subseteq> inside ws"
proof (cases "fs' = fs")
  case False
  have ws: "resolve fs ws = Inr ws" "real_path fs ws" using assms(2) by (simp_all add: workspace_there_def resolve_id)
  from assms(1) False ws(1) obtain encoded parent where
    p: "(if as_posix (butlast (path_parts rel)) = dot then resolve fs ws
         else resolve_existing ws (as_posix (butlast (path_parts rel))) fs) = Inr parent" "prefix_of ws parent"
    and w: "link_file digest limit env ws rel (parent @ [last (path_parts rel)]) parent encoded fs = (r, fs')"
    by (auto simp: write_new_text_def Let_def split: option.splits if_splits sum.splits)
  have "real_path fs parent"
    using p(1) ws resolve_existing_facts by (auto split: if_splits)
  then show ?thesis using link_file_inside [OF w] p(2) assms(3) by blast
qed simp

section \<open>Any sequence of calls\<close>

datatype file_call =
    Create_Call inode nat ustr ustr bool
  | Rename_Call ustr ustr
  | Delete_Call ustr
  | Write_Call save_env ustr ustr ustr int
  | Write_New_Call save_env ustr ustr

fun file_exec :: "(bytes \<Rightarrow> ustr) \<Rightarrow> nat \<Rightarrow> path \<Rightarrow> file_call \<Rightarrow> fs \<Rightarrow> fs" where
  "file_exec digest limit ws (Create_Call i k parent name directory) fs = snd (create i k ws parent name directory fs)"
| "file_exec digest limit ws (Rename_Call rel new_name) fs = snd (rename_entry ws rel new_name fs)"
| "file_exec digest limit ws (Delete_Call rel) fs = snd (delete_entry ws rel fs)"
| "file_exec digest limit ws (Write_Call env rel content d m) fs = snd (write_text digest limit env ws rel content d m fs)"
| "file_exec digest limit ws (Write_New_Call env rel content) fs = snd (write_new_text digest limit env ws rel content fs)"

text \<open>The calls that stay inside: a plain file is not created over a link, and nobody else writes during a save.\<close>

fun file_call_ok :: "path \<Rightarrow> file_call \<Rightarrow> fs \<Rightarrow> bool" where
  "file_call_ok ws (Create_Call i k parent name directory) fs \<longleftrightarrow>
     directory \<or> (case resolve_inside ws (Path parent) True fs of Inl _ \<Rightarrow> True
                 | Inr d \<Rightarrow> \<not> path_is_symlink fs (d @ [name]))"
| "file_call_ok ws (Write_Call env rel content d m) fs \<longleftrightarrow> undisturbed env"
| "file_call_ok ws (Write_New_Call env rel content) fs \<longleftrightarrow> undisturbed env"
| "file_call_ok ws _ fs \<longleftrightarrow> True"

lemma file_exec_inside:
  assumes "workspace_there ws fs" and "file_call_ok ws c fs"
  shows "changed fs (file_exec digest limit ws c fs) \<subseteq> inside ws"
proof -
  have ws: "real_path fs ws" using assms(1) by (simp add: workspace_there_def)
  show ?thesis
  proof (cases c)
    case (Create_Call i k parent name directory)
    then have "\<not> directory \<Longrightarrow> \<forall>d. resolve_inside ws (Path parent) True fs = Inr d \<longrightarrow> \<not> path_is_symlink fs (d @ [name])"
      using assms(2) by auto
    from create_inside [OF surjective_pairing ws this] show ?thesis by (simp add: Create_Call)
  next
    case (Rename_Call rel new_name)
    then show ?thesis using rename_inside [OF surjective_pairing ws] by simp
  next
    case (Delete_Call rel)
    then show ?thesis using delete_inside [OF surjective_pairing ws] by simp
  next
    case (Write_Call env rel content d m)
    then show ?thesis using write_text_inside [OF surjective_pairing assms(1)] assms(2) by simp
  next
    case (Write_New_Call env rel content)
    then show ?thesis using write_new_inside [OF surjective_pairing assms(1)] assms(2) by simp
  qed
qed

text \<open>Unless the Workspace directory is missing, it stays and only entries inside it differ.\<close>

definition confined :: "path \<Rightarrow> fs \<Rightarrow> fs \<Rightarrow> bool" where
  "confined ws fs0 fs \<longleftrightarrow> (workspace_there ws fs0 \<longrightarrow> workspace_there ws fs \<and> changed fs0 fs \<subseteq> inside ws)"

interpretation file_calls: machine fs0 "file_exec digest limit ws" "file_call_ok ws" "confined ws fs0"
  for fs0 digest limit ws
proof unfold_locales
  show "confined ws fs0 fs0" by (simp add: confined_def)
  show "confined ws fs0 (file_exec digest limit ws c fs)" if "confined ws fs0 fs" "file_call_ok ws c fs" for fs c
    using that file_exec_inside [of ws fs c digest limit] workspace_stays changed_trans
    unfolding confined_def by blast
qed

text \<open>Nobody else writes during the saves of a request.\<close>

fun undisturbed_call :: "file_call \<Rightarrow> bool" where
  "undisturbed_call (Write_Call env rel content d m) = undisturbed env"
| "undisturbed_call (Write_New_Call env rel content) = undisturbed env"
| "undisturbed_call _ = True"

text \<open>The one call that can leave the Workspace: a plain file is created under the name of a link.\<close>

fun creates_over_link :: "path \<Rightarrow> fs \<Rightarrow> file_call \<Rightarrow> bool" where
  "creates_over_link ws fs (Create_Call i k parent name directory) \<longleftrightarrow>
     \<not> directory \<and> (case resolve_inside ws (Path parent) True fs of Inl _ \<Rightarrow> False
                     | Inr d \<Rightarrow> path_is_symlink fs (d @ [name]))"
| "creates_over_link ws fs _ \<longleftrightarrow> False"

lemma call_ok_unless_over_link: "undisturbed_call c \<Longrightarrow> \<not> creates_over_link ws fs c \<Longrightarrow> file_call_ok ws c fs"
  by (cases c) (auto split: sum.splits)

lemma calls_ok_unless_over_link:
  assumes "\<forall>c \<in> set calls. undisturbed_call c"
    and "\<And>n. n < length calls \<Longrightarrow> \<not> creates_over_link ws (fold (file_exec digest limit ws) (take n calls) fs) (calls ! n)"
  shows "admissible (file_call_ok ws) (file_exec digest limit ws) calls fs"
  using assms
proof (induction calls arbitrary: fs)
  case (Cons c calls)
  have "\<not> creates_over_link ws fs c" using Cons.prems(2) [of 0] by simp
  moreover have "admissible (file_call_ok ws) (file_exec digest limit ws) calls (file_exec digest limit ws c fs)"
    by (rule Cons.IH) (use Cons.prems(1) Cons.prems(2) [of "Suc _"] in auto)
  ultimately show ?case using Cons.prems(1) call_ok_unless_over_link by simp
qed simp

text \<open>C11: whatever sequence of creations, renames, deletions and saves runs, with whatever names and paths the requests ask
  for, while no other process writes: an entry outside the Workspace directory is as it was, unless one of the calls created
  a plain file under the name of a link. (That call does leave the Workspace, as is shown below.)\<close>

theorem writes_stay_inside_workspace:
  assumes "workspace_there ws fs" and "\<forall>c \<in> set calls. undisturbed_call c" and "\<not> prefix_of ws p \<or> p = ws"
  shows "map_of (fold (file_exec digest limit ws) calls fs) p = map_of fs p
    \<or> (\<exists>n. n < length calls \<and> creates_over_link ws (fold (file_exec digest limit ws) (take n calls) fs) (calls ! n))"
proof (rule disjCI)
  assume "\<not> (\<exists>n. n < length calls \<and> creates_over_link ws (fold (file_exec digest limit ws) (take n calls) fs) (calls ! n))"
  then have "admissible (file_call_ok ws) (file_exec digest limit ws) calls fs"
    by (intro calls_ok_unless_over_link [OF assms(2)]) blast
  then have "confined ws fs (fold (file_exec digest limit ws) calls fs)" by (rule file_calls.inv_from_start)
  with assms(1) have "changed fs (fold (file_exec digest limit ws) calls fs) \<subseteq> inside ws" by (simp add: confined_def)
  from unchanged [OF this] assms(3) show "map_of (fold (file_exec digest limit ws) calls fs) p = map_of fs p"
    by (auto simp: inside_def)
qed

definition sample_calls :: "file_call list" where
  "sample_calls = [Create_Call (ino 10 9) 0 (u ''src'') (u ''b.py'') False, Delete_Call (u ''../etc''), Rename_Call (u ''src'') (u ''lib'')]"

lemma sample_there: "workspace_there ws_dir sample_fs"
  by (simp add: workspace_there_def real_path_def plain_name_def sample_simps)

theorem boundary_witness:
  "map_of (fold (file_exec (\<lambda>b. b) 100 ws_dir) sample_calls sample_fs) [u ''etc''] = Some (Directory (ino 2 0) 0)"
proof -
  have src: "path_parts (u ''src'') = [u ''src'']" "\<not> is_absolute (u ''src'')"
    by (simp_all add: path_parts_def is_absolute_def u_def slash_def dot_def)
  have "resolve sample_fs [u ''ws'', u ''src''] = Inr [u ''ws'', u ''src'']"
    by (simp add: resolve_def sample_simps)
  then have "resolve_inside ws_dir (Path (u ''src'')) True sample_fs = Inr [u ''ws'', u ''src'']"
    by (simp add: resolve_inside_def Path_def src ws_dir_def sample_ws Let_def)
  moreover have "real_path sample_fs [u ''ws'', u ''src'']"
    by (simp add: real_path_def plain_name_def sample_simps)
  then have "entry_path sample_fs [u ''ws'', u ''src'', u ''b.py''] = Inr [u ''ws'', u ''src'', u ''b.py'']"
    by (intro entry_path_id) simp
  then have "\<not> path_is_symlink sample_fs [u ''ws'', u ''src'', u ''b.py'']"
    by (simp add: path_is_symlink_def os_lstat_def lstat_def sample_fs_def ws_dir_def main_file_def)
  ultimately have "\<not> creates_over_link ws_dir sample_fs (sample_calls ! 0)" by (simp add: sample_calls_def)
  then have "\<not> creates_over_link ws_dir (fold (file_exec (\<lambda>b. b) 100 ws_dir) (take n sample_calls) sample_fs) (sample_calls ! n)"
    if "n < length sample_calls" for n
    using that by (cases n; cases "n - 1") (auto simp: sample_calls_def less_Suc_eq nth_Cons')
  moreover have "\<forall>c \<in> set sample_calls. undisturbed_call c" by (simp add: sample_calls_def)
  ultimately have "map_of (fold (file_exec (\<lambda>b. b) 100 ws_dir) sample_calls sample_fs) [u ''etc''] = map_of sample_fs [u ''etc'']"
    using writes_stay_inside_workspace [OF sample_there, of sample_calls "[u ''etc'']" "\<lambda>b. b" 100]
    by (simp add: ws_dir_def) blast
  then show ?thesis by (simp add: sample_fs_def ws_dir_def)
qed

section \<open>Symbolic links\<close>

text \<open>
  The guards that refuse to delete or rename a link come after the path was resolved, and a resolved
  path is never a link (\<open>real_path_not_symlink\<close>): the link's target is deleted or renamed instead.
\<close>

lemma delete_takes_the_target:
  "\<exists>fs'. delete_entry ws_dir (u ''alias'') sample_fs = (Inr (), fs') \<and> map_of fs' main_file = None
    \<and> map_of fs' [u ''ws'', u ''alias''] = Some (Symlink (u ''src/a.py''))"
proof -
  have "entry_path sample_fs main_file = Inr main_file" by (rule real_path_entry [OF sample_real])
  then have "delete_entry ws_dir (u ''alias'') sample_fs = (Inr (), remove main_file sample_fs)"
    using sample_alias sample_real sample_file real_path_not_symlink [OF sample_real]
    by (simp add: delete_entry_def ws_dir_def sample_ws path_is_dir_def sys_unlink_def) (simp add: main_file_def sample_simps)
  then show ?thesis by (simp add: sample_fs_def ws_dir_def main_file_def)
qed

text \<open>
  A name that is a link to nowhere does not exist for \<open>create\<close>, which then creates the file the link
  points to, wherever that is.
\<close>

lemma create_leaves_the_workspace:
  "\<exists>fs'. create (ino 10 9) 0 ws_dir (u ''.'') (u ''out'') False sample_fs = (Inr [u ''ws'', u ''out''], fs')
    \<and> map_of fs' [u ''etc'', u ''new''] = Some (Regular (ino 10 9) [])"
proof -
  have r: "resolve sample_fs [u ''ws'', u ''out''] = Inl FileNotFoundError"
    "realpath True sample_fs [] [] [u ''ws'', u ''out''] = Inr [u ''etc'', u ''new'']"
    by (simp_all add: resolve_def sample_simps)
  have "resolve_inside ws_dir (Path (u ''.'')) True sample_fs = Inr ws_dir"
    "resolve_inside ws_dir (joined (u ''.'') (u ''out'')) False sample_fs = Inr [u ''ws'', u ''out'']"
    by (simp_all add: resolve_inside_def Path_def joined_def sample_ws sample_simps)
  moreover have "valid_name (u ''out'')" by (simp add: valid_name_def dot_def dotdot_def u_def slash_def backslash_def)
  moreover have "map_of sample_fs [u ''etc'', u ''new''] = None" by (simp add: sample_fs_def ws_dir_def main_file_def)
  ultimately show ?thesis
    by (simp add: create_def path_exists_def os_stat_def r sys_touch_def del: realpath.simps)
qed

end
