(* ===== verification/Source_Rules.thy ===== *)
theory Source_Rules
  imports File_System
begin

text \<open>
  The rules of \<^verbatim>\<open>termroom/run_sources.py\<close>: which relative paths and symbolic links a Source may contain,
  what is excluded by default, and the canonical manifest of a Workspace tree. \<open>alpha\<close> and \<open>casefold\<close>
  stand for \<^verbatim>\<open>str.isalpha\<close> on a character and \<^verbatim>\<open>str.casefold\<close>. An error is its code.
\<close>

type_synonym 'a source_result = "string + 'a"

definition contains_control :: "ustr \<Rightarrow> bool" where
  "contains_control s \<longleftrightarrow> list_ex (\<lambda>c. c < 32 \<or> (127 \<le> c \<and> c \<le> 159)) s"

definition termroom_dir :: ustr where "termroom_dir = u ''.termroom''"

section \<open>Relative paths\<close>

definition drive_letter :: "(nat \<Rightarrow> bool) \<Rightarrow> ustr \<Rightarrow> bool" where
  "drive_letter alpha s \<longleftrightarrow> 2 \<le> length s \<and> alpha (s ! 0) \<and> s ! 1 = of_char (CHR '':'')"

definition normalize_source_relative_path ::
    "(nat \<Rightarrow> bool) \<Rightarrow> bool \<Rightarrow> bool \<Rightarrow> ustr \<Rightarrow> ustr source_result" where
  "normalize_source_relative_path alpha allow_root allow_metadata v =
    (if v = [] then Inl ''source_path''
     else if contains_control v \<or> backslash \<in> set v then Inl ''source_path''
     else if v = dot \<and> allow_root then Inr v
     else if starts_with [slash] v \<or> drive_letter alpha v then Inl ''source_path_absolute''
     else
     let parts = split_on slash v in
     if list_ex (\<lambda>p. p = [] \<or> p = dot \<or> p = dotdot) parts then Inl ''source_path_traversal''
     else if \<not> allow_metadata \<and> list_ex (\<lambda>p. p = termroom_dir) parts then Inl ''source_path_metadata''
     else if utf8_encode v = None then Inl ''source_path_encoding''
     else Inr v)"

definition source_path :: "(nat \<Rightarrow> bool) \<Rightarrow> ustr \<Rightarrow> ustr source_result" where
  "source_path alpha = normalize_source_relative_path alpha False False"

section \<open>Symbolic links\<close>

text \<open>The loop over the parts of a target; \<open>stack\<close> is the directory reached by name.\<close>

fun walk_target :: "ustr list \<Rightarrow> ustr list \<Rightarrow> ustr list source_result" where
  "walk_target stack [] = Inr stack"
| "walk_target stack (part # parts) =
    (if part = [] \<or> part = dot then walk_target stack parts
     else if part = dotdot then
       (if stack = [] then Inl ''source_symlink_outside'' else walk_target (butlast stack) parts)
     else if part = termroom_dir then Inl ''source_symlink_metadata''
     else walk_target (stack @ [part]) parts)"

definition validate_contained_symlink_target ::
    "(nat \<Rightarrow> bool) \<Rightarrow> ustr \<Rightarrow> ustr \<Rightarrow> ustr source_result" where
  "validate_contained_symlink_target alpha link_path target =
    rbind (source_path alpha link_path) (\<lambda>safe_link.
      if target = [] \<or> contains_control target \<or> backslash \<in> set target \<or> starts_with [slash] target
      then Inl ''source_symlink_outside''
      else rbind (walk_target (butlast (split_on slash safe_link)) (split_on slash target)) (\<lambda>stack.
        if stack = [] then Inr target
        else rbind (source_path alpha (join [slash] stack)) (\<lambda>_. Inr target)))"

section \<open>Default exclusions\<close>

definition excluded_directory_names :: "ustr list" where
  "excluded_directory_names = map u
    [''.git'', ''.hg'', ''.svn'', ''.venv'', ''venv'', ''node_modules'', ''__pycache__'', ''.pytest_cache'',
     ''.ruff_cache'', ''.mypy_cache'', ''.tox'', ''.cache'', ''.uv-cache'']"

definition excluded_file_names :: "ustr list" where
  "excluded_file_names = map u
    [''.env'', ''.env.local'', ''.env.development'', ''.env.production'', ''.env.test'', ''id_dsa'',
     ''id_ecdsa'', ''id_ed25519'', ''id_rsa'']"

definition private_key_suffixes :: "ustr list" where
  "private_key_suffixes = map u [''.key'', ''.p12'', ''.pfx'', ''.pem'']"

definition is_default_workspace_excluded ::
    "(nat \<Rightarrow> bool) \<Rightarrow> (ustr \<Rightarrow> ustr) \<Rightarrow> ustr \<Rightarrow> bool source_result" where
  "is_default_workspace_excluded alpha casefold relative_path =
    rbind (source_path alpha relative_path) (\<lambda>p.
      let parts = split_on slash p; name = last parts in
      Inr (list_ex (\<lambda>part. part \<in> set excluded_directory_names) parts
        \<or> name \<in> set excluded_file_names
        \<or> starts_with (u ''.env.'') name
        \<or> list_ex (\<lambda>suffix. ends_with suffix (casefold name)) private_key_suffixes))"

definition is_below :: "ustr \<Rightarrow> ustr \<Rightarrow> bool" where
  "is_below p q \<longleftrightarrow> p = q \<or> starts_with (q @ [slash]) p"

definition is_related_to_explicit_include :: "ustr \<Rightarrow> ustr list \<Rightarrow> bool" where
  "is_related_to_explicit_include p includes \<longleftrightarrow>
    list_ex (\<lambda>i. p = i \<or> starts_with (i @ [slash]) p \<or> starts_with (p @ [slash]) i) includes"

section \<open>Manifests\<close>

datatype entry_kind = File_Kind | Directory_Kind | Symlink_Kind | Other_Kind ustr

record workspace_entry =
  we_path :: ustr
  we_kind :: entry_kind
  we_size :: int
  we_mtime :: int
  we_executable :: bool
  we_target :: "ustr option"
  we_digest :: "ustr option"

record workspace_manifest =
  wm_entries :: "workspace_entry list"
  wm_total :: int
  wm_excluded :: "ustr list"

definition hex_digest :: "ustr \<Rightarrow> bool" where
  "hex_digest d \<longleftrightarrow> length d = 64 \<and> list_all (\<lambda>c. c \<in> set (u ''0123456789abcdef'')) d"

text \<open>One entry of the first loop, after its path: its canonical form, or the error.\<close>

definition canonical_entry ::
    "(nat \<Rightarrow> bool) \<Rightarrow> (ustr \<Rightarrow> ustr) \<Rightarrow> ustr \<Rightarrow> workspace_entry \<Rightarrow> workspace_entry source_result" where
  "canonical_entry alpha casefold p e =
    (if we_size e < 0 \<or> we_mtime e < 0 then Inl ''source_entry_metadata''
     else
     let digest = map_option casefold (we_digest e) in
     if digest \<noteq> None \<and> (we_kind e \<noteq> File_Kind \<or> \<not> hex_digest (the digest)) then Inl ''source_entry_digest''
     else rbind
       (if we_kind e = Symlink_Kind
        then (case we_target e of
                None \<Rightarrow> Inl ''source_symlink_target''
              | Some t \<Rightarrow> rbind (validate_contained_symlink_target alpha p t) (\<lambda>_. Inr ()))
        else if we_target e \<noteq> None then Inl ''source_entry_metadata'' else Inr ())
       (\<lambda>_. Inr (e\<lparr>we_path := p,
              we_size := if we_kind e = File_Kind then we_size e else 0,
              we_executable := if we_kind e = File_Kind then we_executable e else False,
              we_digest := if we_kind e = File_Kind then digest else None\<rparr>)))"

definition add_entry ::
    "(nat \<Rightarrow> bool) \<Rightarrow> (ustr \<Rightarrow> ustr) \<Rightarrow> workspace_entry \<Rightarrow> workspace_entry list \<Rightarrow> workspace_entry list source_result" where
  "add_entry alpha casefold e by_path =
    rbind (source_path alpha (we_path e)) (\<lambda>p.
      case we_kind e of
        Other_Kind k \<Rightarrow> Inl ''source_entry_type''
      | _ \<Rightarrow>
        if p \<in> set (map we_path by_path) then Inl ''source_path_duplicate''
        else rbind (canonical_entry alpha casefold p e) (\<lambda>canonical. Inr (by_path @ [canonical])))"

text \<open>The second loop: an entry below an entry that is not a directory.\<close>

definition ancestors :: "ustr \<Rightarrow> ustr list" where
  "ancestors p = (let parts = split_on slash p in map (\<lambda>i. join [slash] (take i parts)) [1..<length parts])"

definition entry_conflict :: "workspace_entry list \<Rightarrow> workspace_entry \<Rightarrow> bool" where
  "entry_conflict by_path e \<longleftrightarrow>
    list_ex (\<lambda>a. list_ex (\<lambda>x. we_path x = a \<and> we_kind x \<noteq> Directory_Kind) by_path) (ancestors (we_path e))
    \<or> (we_kind e \<noteq> Directory_Kind \<and> list_ex (\<lambda>x. starts_with (we_path e @ [slash]) (we_path x)) by_path)"

definition entry_order :: "workspace_entry \<Rightarrow> nat \<times> bool \<times> ustr" where
  "entry_order e = (length (filter (\<lambda>c. c = slash) (we_path e)), we_kind e \<noteq> Directory_Kind, we_path e)"

definition build_workspace_manifest ::
    "(nat \<Rightarrow> bool) \<Rightarrow> (ustr \<Rightarrow> ustr) \<Rightarrow> workspace_entry list \<Rightarrow> ustr list \<Rightarrow> workspace_manifest source_result" where
  "build_workspace_manifest alpha casefold entries excluded_prefixes =
    rbind (each (add_entry alpha casefold) entries []) (\<lambda>by_path.
      if list_ex (entry_conflict by_path) by_path then Inl ''source_path_conflict''
      else
      let ordered = sort_key entry_order by_path in
      rbind (traverse (normalize_source_relative_path alpha False True) excluded_prefixes) (\<lambda>prefixes.
        Inr \<lparr>wm_entries = ordered,
             wm_total = sum_list (map we_size (filter (\<lambda>e. we_kind e = File_Kind) ordered)),
             wm_excluded = sort (remdups prefixes)\<rparr>))"

end
