(* ===== verification/Source_Properties.thy ===== *)
theory Source_Properties
  imports Source_Rules
begin

text \<open>
  What a manifest guarantees: it is canonical (checking it again, as the receiving side does, gives the
  same manifest), nothing lies below an entry that is not a directory, and directories come before
  what they contain. Links are checked by name only, which a chain of links escapes.
\<close>

lemma normalize_keeps: "normalize_source_relative_path alpha r m v = Inr w \<Longrightarrow> w = v"
  by (auto simp: normalize_source_relative_path_def Let_def split: if_splits)

lemma source_path_keeps: "source_path alpha v = Inr w \<Longrightarrow> w = v"
  by (simp add: source_path_def normalize_keeps)

text \<open>An entry that is already canonical.\<close>

definition canonical :: "(nat \<Rightarrow> bool) \<Rightarrow> (ustr \<Rightarrow> ustr) \<Rightarrow> workspace_entry \<Rightarrow> bool" where
  "canonical alpha casefold e \<longleftrightarrow> source_path alpha (we_path e) = Inr (we_path e)
    \<and> we_kind e \<in> {File_Kind, Directory_Kind, Symlink_Kind}
    \<and> canonical_entry alpha casefold (we_path e) e = Inr e"

text \<open>\<^verbatim>\<open>casefold\<close> leaves a lower-case hexadecimal digest alone.\<close>

definition folds_digests :: "(ustr \<Rightarrow> ustr) \<Rightarrow> bool" where
  "folds_digests casefold \<longleftrightarrow> (\<forall>d. hex_digest d \<longrightarrow> casefold d = d)"

lemma canonical_entry_canonical:
  assumes "canonical_entry alpha casefold p e = Inr e'" and "source_path alpha (we_path e) = Inr p"
    and "we_kind e \<in> {File_Kind, Directory_Kind, Symlink_Kind}" and "folds_digests casefold"
  shows "canonical alpha casefold e'"
proof -
  have p: "p = we_path e" using source_path_keeps [OF assms(2)] .
  from assms(1) have e': "e' = e\<lparr>we_path := p,
        we_size := if we_kind e = File_Kind then we_size e else 0,
        we_executable := if we_kind e = File_Kind then we_executable e else False,
        we_digest := if we_kind e = File_Kind then map_option casefold (we_digest e) else None\<rparr>"
    by (auto simp: canonical_entry_def Let_def rbind_Inr_iff split: if_splits)
  have path: "source_path alpha (we_path e) = Inr (we_path e)" using assms(2) p by simp
  consider "we_kind e = File_Kind" | "we_kind e = Directory_Kind" | "we_kind e = Symlink_Kind" using assms(3) by blast
  then show ?thesis
  proof cases
    case 1
    show ?thesis
    proof (cases "we_digest e")
      case None
      with 1 assms(1) path show ?thesis
        by (simp add: e' p canonical_def canonical_entry_def rbind_Inr_iff split: if_splits)
    next
      case (Some d)
      with 1 assms(1) have "hex_digest (casefold d)"
        by (simp add: canonical_entry_def rbind_Inr_iff split: if_splits)
      moreover from this have "casefold (casefold d) = casefold d" using assms(4) by (simp add: folds_digests_def)
      ultimately show ?thesis using Some 1 assms(1) path
        by (simp add: e' p canonical_def canonical_entry_def rbind_Inr_iff split: if_splits)
    qed
  next
    case 2
    with assms(1) path show ?thesis
      by (simp add: e' p canonical_def canonical_entry_def rbind_Inr_iff split: if_splits)
  next
    case 3
    with assms(1) path show ?thesis
      by (simp add: e' p canonical_def canonical_entry_def rbind_Inr_iff split: if_splits option.splits)
  qed
qed

definition manifest_of :: "(nat \<Rightarrow> bool) \<Rightarrow> (ustr \<Rightarrow> ustr) \<Rightarrow> workspace_entry list \<Rightarrow> bool" where
  "manifest_of alpha casefold es \<longleftrightarrow> distinct (map we_path es) \<and> (\<forall>e \<in> set es. canonical alpha casefold e)"

lemma add_entry_manifest:
  assumes "add_entry alpha casefold e es = Inr es'" and "manifest_of alpha casefold es" and "folds_digests casefold"
  shows "manifest_of alpha casefold es'"
proof -
  from assms(1) obtain p c where p: "source_path alpha (we_path e) = Inr p" and new: "p \<notin> set (map we_path es)"
    and c: "canonical_entry alpha casefold p e = Inr c" and es': "es' = es @ [c]"
    and k: "we_kind e \<in> {File_Kind, Directory_Kind, Symlink_Kind}"
    by (cases "we_kind e") (auto simp: add_entry_def rbind_Inr_iff split: if_splits)
  have "we_path c = p"
    using c by (auto simp: canonical_entry_def Let_def rbind_Inr_iff split: if_splits)
  moreover have "canonical alpha casefold c" by (rule canonical_entry_canonical [OF c p k assms(3)])
  ultimately show ?thesis using new assms(2) by (auto simp: es' manifest_of_def)
qed

lemma add_entries_manifest:
  assumes "each (add_entry alpha casefold) entries [] = Inr es" and "folds_digests casefold"
  shows "manifest_of alpha casefold es"
  by (rule each_invariant [OF assms(1), of "manifest_of alpha casefold"])
    (use add_entry_manifest assms(2) in \<open>auto simp: manifest_of_def\<close>)

lemma add_canonical:
  "\<forall>e \<in> set es. canonical alpha casefold e \<Longrightarrow> distinct (map we_path (acc @ es)) \<Longrightarrow>
    each (add_entry alpha casefold) es acc = Inr (acc @ es)"
proof (induction es arbitrary: acc)
  case (Cons e es)
  from Cons.prems have "add_entry alpha casefold e acc = Inr (acc @ [e])"
    by (auto simp: add_entry_def canonical_def split: entry_kind.splits)
  with Cons show ?case by simp
qed simp

section \<open>Order\<close>

definition depth :: "ustr \<Rightarrow> nat" where
  "depth p = length (filter (\<lambda>c. c = slash) p)"

lemma depth_below: "starts_with (p @ [slash]) q \<Longrightarrow> depth p < depth q"
  by (auto simp: starts_with_iff depth_def)

lemma parents_first:
  assumes "sorted (map entry_order es)" and "i < length es" and "j < length es"
    and "starts_with (we_path (es ! j) @ [slash]) (we_path (es ! i))"
  shows "j < i"
proof (rule ccontr)
  assume "\<not> j < i"
  then have "entry_order (es ! i) \<le> entry_order (es ! j)"
    using sorted_nth_mono [OF assms(1), of i j] assms(2,3) by simp
  then have "depth (we_path (es ! i)) \<le> depth (we_path (es ! j))"
    by (auto simp: entry_order_def depth_def less_eq_prod_def)
  with depth_below [OF assms(4)] show False by simp
qed

lemma entry_conflict_set: "set es = set fs \<Longrightarrow> entry_conflict es = entry_conflict fs"
  by (rule ext) (simp add: entry_conflict_def list_ex_iff)

lemma traverse_same: "\<forall>x \<in> set xs. f x = Inr x \<Longrightarrow> traverse f xs = Inr xs"
  by (induction xs) auto

lemma traverse_Inr_each: "traverse f xs = Inr ys \<Longrightarrow> y \<in> set ys \<Longrightarrow> \<exists>x \<in> set xs. f x = Inr y"
  by (induction xs arbitrary: ys) (auto simp: rbind_Inr_iff)

text \<open>A manifest is canonical. Building it again from its own entries, as the receiver of a manifest
  does, succeeds and changes nothing; only directories have entries below them, and every directory
  comes before its contents, so that it can be created first.\<close>

theorem manifest_is_canonical:
  assumes "folds_digests casefold" and "build_workspace_manifest alpha casefold entries excluded = Inr m"
  shows "build_workspace_manifest alpha casefold (wm_entries m) (wm_excluded m) = Inr m
    \<and> distinct (map we_path (wm_entries m))
    \<and> (\<forall>i < length (wm_entries m). \<forall>j < length (wm_entries m).
         starts_with (we_path (wm_entries m ! j) @ [slash]) (we_path (wm_entries m ! i))
         \<longrightarrow> j < i \<and> we_kind (wm_entries m ! j) = Directory_Kind)
    \<and> (\<forall>e \<in> set (wm_entries m). we_kind e = Symlink_Kind \<longrightarrow>
         (\<exists>t stack. we_target e = Some t \<and> walk_target (butlast (split_on slash (we_path e))) (split_on slash t) = Inr stack))"
proof -
  from assms(2) obtain es prefixes where es: "each (add_entry alpha casefold) entries [] = Inr es"
    and free: "\<not> list_ex (entry_conflict es) es"
    and pre: "traverse (normalize_source_relative_path alpha False True) excluded = Inr prefixes"
    and m: "m = \<lparr>wm_entries = sort_key entry_order es,
       wm_total = sum_list (map we_size (filter (\<lambda>e. we_kind e = File_Kind) (sort_key entry_order es))),
       wm_excluded = sort (remdups prefixes)\<rparr>"
    by (auto simp: build_workspace_manifest_def rbind_Inr_iff Let_def split: if_splits)
  have ok: "manifest_of alpha casefold es" by (rule add_entries_manifest [OF es assms(1)])
  let ?o = "sort_key entry_order es"
  have o: "distinct (map we_path ?o)" "\<forall>e \<in> set ?o. canonical alpha casefold e"
    using ok by (simp_all add: manifest_of_def distinct_map)
  have again: "each (add_entry alpha casefold) ?o [] = Inr ?o" using add_canonical [of ?o alpha casefold "[]"] o by simp
  have free': "\<not> list_ex (entry_conflict ?o) ?o"
    using free entry_conflict_set [of ?o es] by (simp add: list_ex_iff)
  have srt: "sort_key entry_order ?o = ?o" by (rule sort_key_id_if_sorted) simp
  have pre': "traverse (normalize_source_relative_path alpha False True) (sort (remdups prefixes)) = Inr (sort (remdups prefixes))"
  proof (rule traverse_same, intro ballI)
    fix x assume "x \<in> set (sort (remdups prefixes))"
    with traverse_Inr_each [OF pre] obtain y where "normalize_source_relative_path alpha False True y = Inr x" by auto
    with normalize_keeps show "normalize_source_relative_path alpha False True x = Inr x" by metis
  qed
  have sp: "sort (remdups (sort (remdups prefixes))) = sort (remdups prefixes)"
    by (simp add: distinct_remdups_id sorted_sort_id)
  have "build_workspace_manifest alpha casefold (wm_entries m) (wm_excluded m) = Inr m"
    by (simp add: build_workspace_manifest_def m again free' srt pre' sp Let_def)
  moreover have "j < i \<and> we_kind (?o ! j) = Directory_Kind"
    if "i < length ?o" "j < length ?o" "starts_with (we_path (?o ! j) @ [slash]) (we_path (?o ! i))" for i j
  proof
    show "j < i" by (rule parents_first [OF _ that]) simp
    have "?o ! j \<in> set es" "?o ! i \<in> set es" using nth_mem [OF that(1)] nth_mem [OF that(2)] by simp_all
    with that(3) free show "we_kind (?o ! j) = Directory_Kind"
      by (force simp: list_ex_iff entry_conflict_def)
  qed
  moreover have "\<exists>t stack. we_target e = Some t \<and> walk_target (butlast (split_on slash (we_path e))) (split_on slash t) = Inr stack"
    if "e \<in> set ?o" "we_kind e = Symlink_Kind" for e
  proof -
    from o that obtain t where "we_target e = Some t"
      and v: "validate_contained_symlink_target alpha (we_path e) t = Inr t"
      using source_path_keeps
      by (fastforce simp: canonical_def canonical_entry_def Let_def rbind_Inr_iff validate_contained_symlink_target_def
          split: if_splits option.splits)
    moreover have "source_path alpha (we_path e) = Inr (we_path e)" using o that by (simp add: canonical_def)
    ultimately show ?thesis
      by (auto simp: validate_contained_symlink_target_def rbind_Inr_iff split: if_splits)
  qed
  ultimately show ?thesis using o(1) by (simp add: m)
qed

definition ascii_letter :: "nat \<Rightarrow> bool" where
  "ascii_letter c \<longleftrightarrow> (65 \<le> c \<and> c \<le> 90) \<or> (97 \<le> c \<and> c \<le> 122)"

definition plain_entry :: "ustr \<Rightarrow> entry_kind \<Rightarrow> ustr option \<Rightarrow> workspace_entry" where
  "plain_entry p k t = \<lparr>we_path = p, we_kind = k, we_size = 0, we_mtime = 1, we_executable = False,
     we_target = t, we_digest = None\<rparr>"

definition link_entries :: "workspace_entry list" where
  "link_entries =
    [plain_entry (u ''q'') Symlink_Kind (Some (u ''a/b/p/../x'')),
     plain_entry (u ''a/b/p'') Symlink_Kind (Some (u ''../..'')),
     plain_entry (u ''a'') Directory_Kind None, plain_entry (u ''a/b'') Directory_Kind None]"

lemma link_parts:
  "split_on slash (u ''q'') = [u ''q'']" "split_on slash (u ''a/b/p'') = [u ''a'', u ''b'', u ''p'']"
  "split_on slash (u ''a'') = [u ''a'']" "split_on slash (u ''a/b'') = [u ''a'', u ''b'']"
  "split_on slash (u ''a/b/p/../x'') = [u ''a'', u ''b'', u ''p'', u ''..'', u ''x'']"
  "split_on slash (u ''../..'') = [u ''..'', u ''..'']" "u ''a'' @ slash # u ''b'' @ slash # u ''x'' = u ''a/b/x''"
  "split_on slash (u ''a/b/x'') = [u ''a'', u ''b'', u ''x'']"
  by (simp_all add: u_def slash_def)

lemma link_source_path:
  "source_path ascii_letter (u ''q'') = Inr (u ''q'')" "source_path ascii_letter (u ''a/b/p'') = Inr (u ''a/b/p'')"
  "source_path ascii_letter (u ''a'') = Inr (u ''a'')" "source_path ascii_letter (u ''a/b'') = Inr (u ''a/b'')"
  "source_path ascii_letter (u ''a/b/x'') = Inr (u ''a/b/x'')"
  by (simp_all add: source_path_def normalize_source_relative_path_def link_parts dot_def dotdot_def termroom_dir_def)
    (simp_all add: contains_control_def drive_letter_def backslash_def slash_def u_def utf8_encode_def scalar_def
      is_surrogate_def)

lemma link_targets:
  "validate_contained_symlink_target ascii_letter (u ''q'') (u ''a/b/p/../x'') = Inr (u ''a/b/p/../x'')"
  "validate_contained_symlink_target ascii_letter (u ''a/b/p'') (u ''../..'') = Inr (u ''../..'')"
  by (simp_all add: validate_contained_symlink_target_def link_source_path link_parts dot_def dotdot_def termroom_dir_def)
    (simp_all add: contains_control_def backslash_def slash_def u_def)

definition link_manifest :: workspace_manifest where
  "link_manifest = \<lparr>wm_entries =
     [plain_entry (u ''a'') Directory_Kind None, plain_entry (u ''q'') Symlink_Kind (Some (u ''a/b/p/../x'')),
      plain_entry (u ''a/b'') Directory_Kind None, plain_entry (u ''a/b/p'') Symlink_Kind (Some (u ''../..''))],
     wm_total = 0, wm_excluded = []\<rparr>"

lemma link_entries_accepted: "build_workspace_manifest ascii_letter id link_entries [] = Inr link_manifest"
proof -
  have each_ok: "each (add_entry ascii_letter id) link_entries [] = Inr link_entries"
    by (simp add: link_entries_def add_entry_def plain_entry_def canonical_entry_def link_source_path link_targets)
  have order: "sort_key entry_order link_entries = wm_entries link_manifest"
    by (simp add: link_entries_def link_manifest_def plain_entry_def entry_order_def)
      (simp add: u_def slash_def less_eq_prod_def less_prod_def)
  have free: "\<not> list_ex (entry_conflict link_entries) link_entries"
    by (simp add: link_entries_def plain_entry_def entry_conflict_def ancestors_def link_parts)
      (simp add: u_def slash_def)
  show ?thesis
    by (simp add: build_workspace_manifest_def each_ok order free) (simp add: link_manifest_def plain_entry_def)
qed

theorem manifest_witness:
  "build_workspace_manifest ascii_letter id (wm_entries link_manifest) (wm_excluded link_manifest) = Inr link_manifest"
proof -
  have "folds_digests id" by (simp add: folds_digests_def)
  from manifest_is_canonical [OF this link_entries_accepted] show ?thesis by blast
qed

section \<open>Chains of links\<close>

text \<open>
  The same manifest on disk, in the directory \<^verbatim>\<open>/run/work\<close>: the target \<^verbatim>\<open>a/b/p/../x\<close> of \<^verbatim>\<open>q\<close> is inside by
  name, but \<^verbatim>\<open>a/b/p\<close> leads to the root of the Source, so its parent is outside.
\<close>

definition copied_fs :: fs where
  "copied_fs = (let i = \<lparr>st_ino = 1, st_mode = 0, st_mtime_ns = 0\<rparr>; w = [u ''run'', u ''work''] in
    [([], Directory i 0), ([u ''run''], Directory i 0), ([u ''run'', u ''x''], Regular i []), (w, Directory i 0),
     (w @ [u ''a''], Directory i 0), (w @ [u ''a'', u ''b''], Directory i 0),
     (w @ [u ''a'', u ''b'', u ''p''], Symlink (u ''../..'')), (w @ [u ''q''], Symlink (u ''a/b/p/../x''))])"

lemma contained_links_escape:
  "(\<exists>m. build_workspace_manifest ascii_letter id link_entries [] = Inr m)
    \<and> resolve copied_fs [u ''run'', u ''work'', u ''q''] = Inr [u ''run'', u ''x'']"
proof
  show "\<exists>m. build_workspace_manifest ascii_letter id link_entries [] = Inr m" using link_entries_accepted by blast
  have l: "lstat copied_fs [u ''run''] = Inr (Directory \<lparr>st_ino = 1, st_mode = 0, st_mtime_ns = 0\<rparr> 0)"
    "lstat copied_fs [u ''run'', u ''work''] = Inr (Directory \<lparr>st_ino = 1, st_mode = 0, st_mtime_ns = 0\<rparr> 0)"
    "lstat copied_fs [u ''run'', u ''work'', u ''a''] = Inr (Directory \<lparr>st_ino = 1, st_mode = 0, st_mtime_ns = 0\<rparr> 0)"
    "lstat copied_fs [u ''run'', u ''work'', u ''a'', u ''b''] = Inr (Directory \<lparr>st_ino = 1, st_mode = 0, st_mtime_ns = 0\<rparr> 0)"
    "lstat copied_fs [u ''run'', u ''work'', u ''a'', u ''b'', u ''p''] = Inr (Symlink (u ''../..''))"
    "lstat copied_fs [u ''run'', u ''work'', u ''q''] = Inr (Symlink (u ''a/b/p/../x''))"
    "lstat copied_fs [u ''run'', u ''x''] = Inr (Regular \<lparr>st_ino = 1, st_mode = 0, st_mtime_ns = 0\<rparr> [])"
    by (simp_all add: lstat_def copied_fs_def Let_def)
  have a: "\<not> is_absolute (u ''../..'')" "\<not> is_absolute (u ''a/b/p/../x'')"
    by (simp_all add: is_absolute_def u_def slash_def)
  show "resolve copied_fs [u ''run'', u ''work'', u ''q''] = Inr [u ''run'', u ''x'']"
    by (simp add: resolve_def l link_parts a dot_def dotdot_def)
qed

end
