(* ===== verification/Source_Snapshot.thy ===== *)
theory Source_Snapshot
  imports Source_Properties
begin

text \<open>
  The scan of a local Workspace and its copy to a target (\<^verbatim>\<open>termroom/run_sources.py\<close>): the walk that follows no
  link, the read of a file that notices a change, and \<open>materialize_workspace_snapshot\<close>, which drives a source
  and a sink. The file system of the model keeps no time for a link: \<open>lt\<close> gives it. \<open>room\<close> is the number of
  nested calls that Python's recursion limit leaves. \<open>sha256\<close> stands for \<^verbatim>\<open>hashlib.sha256(...).hexdigest()\<close>.
\<close>

section \<open>The scan\<close>

text \<open>One child of a directory: nothing, or its entry; \<open>True\<close> when it is a directory to descend into. \<open>t\<close> is the
  time of a link.\<close>

definition scan_child ::
    "(nat \<Rightarrow> bool) \<Rightarrow> (ustr \<Rightarrow> ustr) \<Rightarrow> ustr list \<Rightarrow> ustr list \<Rightarrow> ustr \<Rightarrow> int
      \<Rightarrow> ustr \<times> node \<Rightarrow> (workspace_entry \<times> bool) option source_result" where
  "scan_child alpha casefold mandatory included prefix t c =
    rbind (normalize_source_relative_path alpha False True
             (if prefix = [] then fst c else prefix @ [slash] @ fst c)) (\<lambda>relative.
      if termroom_dir \<in> set (split_on slash relative) \<or> list_ex (is_below relative) mandatory then Inr None
      else rbind (is_default_workspace_excluded alpha casefold relative) (\<lambda>excluded.
        if excluded \<and> \<not> is_related_to_explicit_include relative included then Inr None
        else (case snd c of
          Symlink target \<Rightarrow>
            rbind (validate_contained_symlink_target alpha relative target) (\<lambda>_.
              Inr (Some (\<lparr>we_path = relative, we_kind = Symlink_Kind, we_size = 0, we_mtime = t,
                          we_executable = False, we_target = Some target, we_digest = None\<rparr>, False)))
        | Directory i k \<Rightarrow>
            Inr (Some (\<lparr>we_path = relative, we_kind = Directory_Kind, we_size = 0, we_mtime = st_mtime_ns i,
                        we_executable = False, we_target = None, we_digest = None\<rparr>, True))
        | Regular i b \<Rightarrow>
            Inr (Some (\<lparr>we_path = relative, we_kind = File_Kind, we_size = int (length b),
                        we_mtime = st_mtime_ns i,
                        we_executable = odd (st_mode i) \<or> odd (st_mode i div 8) \<or> odd (st_mode i div 64),
                        we_target = None, we_digest = None\<rparr>, False))
        | Special i \<Rightarrow> Inl ''source_special_file'')))"

definition sorted_children :: "fs \<Rightarrow> path \<Rightarrow> (ustr \<times> node) list" where
  "sorted_children fs d = sort_key fst (children fs d)"

text \<open>The recursive function \<open>walk\<close>; its first argument is the number of calls that Python's recursion limit leaves
  room for. \<open>walk_list\<close> is its loop.\<close>

fun walk :: "nat \<Rightarrow> (nat \<Rightarrow> bool) \<Rightarrow> (ustr \<Rightarrow> ustr) \<Rightarrow> ustr list \<Rightarrow> ustr list \<Rightarrow> (path \<Rightarrow> int) \<Rightarrow> fs \<Rightarrow> path \<Rightarrow> ustr
      \<Rightarrow> workspace_entry list source_result"
  and walk_list :: "nat \<Rightarrow> (nat \<Rightarrow> bool) \<Rightarrow> (ustr \<Rightarrow> ustr) \<Rightarrow> ustr list \<Rightarrow> ustr list \<Rightarrow> (path \<Rightarrow> int) \<Rightarrow> fs \<Rightarrow> path \<Rightarrow> ustr
      \<Rightarrow> (ustr \<times> node) list \<Rightarrow> workspace_entry list source_result" where
  "walk 0 alpha casefold mandatory included lt fs d prefix = Inl ''RecursionError''"
| "walk (Suc n) alpha casefold mandatory included lt fs d prefix =
     walk_list n alpha casefold mandatory included lt fs d prefix (sorted_children fs d)"
| "walk_list n alpha casefold mandatory included lt fs d prefix [] = Inr []"
| "walk_list n alpha casefold mandatory included lt fs d prefix (c # cs) =
     rbind (scan_child alpha casefold mandatory included prefix (lt (d @ [fst c])) c) (\<lambda>found.
       case found of
         None \<Rightarrow> walk_list n alpha casefold mandatory included lt fs d prefix cs
       | Some (e, descends) \<Rightarrow>
           rbind (if descends then walk n alpha casefold mandatory included lt fs (d @ [fst c]) (we_path e)
                  else Inr []) (\<lambda>below.
             rbind (walk_list n alpha casefold mandatory included lt fs d prefix cs) (\<lambda>others.
               Inr (e # below @ others))))"

text \<open>\<open>boundaries\<close> are the resolved private directories of Termroom.\<close>

definition scan_local_workspace ::
    "nat \<Rightarrow> (nat \<Rightarrow> bool) \<Rightarrow> (ustr \<Rightarrow> ustr) \<Rightarrow> path list \<Rightarrow> ustr list \<Rightarrow> path \<Rightarrow> (path \<Rightarrow> int) \<Rightarrow> fs
      \<Rightarrow> workspace_manifest source_result" where
  "scan_local_workspace room alpha casefold boundaries explicitly_included source lt fs =
    (if path_is_symlink fs source then Inl ''source_root_symlink''
     else (case resolve fs source of
       Inl e \<Rightarrow> Inl ''source_root_missing''
     | Inr source_root \<Rightarrow>
       if \<not> path_is_dir fs source_root then Inl ''source_root_type''
       else if list_ex (\<lambda>b. prefix_of b source_root) boundaries then Inl ''source_private_boundary''
       else
       let mandatory = map (\<lambda>b. as_posix (drop (length source_root) b)) (filter (prefix_of source_root) boundaries) in
       rbind (traverse (source_path alpha) explicitly_included) (\<lambda>included.
         rbind (walk room alpha casefold mandatory included lt fs source_root []) (\<lambda>collected.
           build_workspace_manifest alpha casefold collected mandatory))))"

section \<open>Reading a file that may change\<close>

datatype read_end = Read_Done | Read_Changed "(int \<times> int) option" | Read_Failed string

record fstat =
  ft_regular :: bool
  ft_size :: int
  ft_mtime :: int

text \<open>
  \<open>iter_stable_local_file_chunks\<close> on an open file: \<open>before\<close> and \<open>after\<close> are its \<^verbatim>\<open>fstat\<close> results (the second
  when the loop stopped) and \<open>reads\<close> what \<^verbatim>\<open>os.read\<close> returned until the end. The answer is what it
  yields and how it ends.
\<close>

fun pour :: "int \<Rightarrow> int \<Rightarrow> bytes list \<Rightarrow> bytes list \<times> int option" where
  "pour limit seen [] = ([], Some seen)"
| "pour limit seen (chunk # chunks) =
    (let seen' = seen + int (length chunk) in
     if seen' > limit then ([], None)
     else (let r = pour limit seen' chunks in (chunk # fst r, snd r)))"

definition iter_stable_local_file_chunks ::
    "workspace_entry \<Rightarrow> fstat \<Rightarrow> bytes list \<Rightarrow> fstat \<Rightarrow> bytes list \<times> read_end" where
  "iter_stable_local_file_chunks e before reads after =
    (if we_kind e \<noteq> File_Kind then ([], Read_Failed ''source_entry_type'')
     else if \<not> ft_regular before then ([], Read_Failed ''source_entry_type'')
     else if ft_size before \<noteq> we_size e \<or> ft_mtime before \<noteq> we_mtime e
       then ([], Read_Changed (Some (ft_size before, ft_mtime before)))
     else
     let r = pour (ft_size before) 0 reads in
     case snd r of
       None \<Rightarrow> (fst r, Read_Changed (Some (ft_size after, ft_mtime after)))
     | Some seen \<Rightarrow>
         if seen \<noteq> ft_size before \<or> ft_size after \<noteq> ft_size before \<or> ft_mtime after \<noteq> ft_mtime before
         then (fst r, Read_Changed (Some (ft_size after, ft_mtime after)))
         else (fst r, Read_Done))"

text \<open>\<open>_require_exact_chunks\<close> around such a read: the bytes the sink commits, or why it commits nothing.\<close>

definition require_exact_chunks :: "int \<Rightarrow> bytes list \<times> read_end \<Rightarrow> bytes + read_end" where
  "require_exact_chunks expected_size r =
    (let p = pour expected_size 0 (fst r) in
     case snd p of
       None \<Rightarrow> Inr (Read_Changed None)
     | Some seen \<Rightarrow>
         (case snd r of
            Read_Done \<Rightarrow> if seen \<noteq> expected_size then Inr (Read_Changed None) else Inl (concat (fst p))
          | other \<Rightarrow> Inr other))"

section \<open>The copy\<close>

datatype sink_op = Make_Directory ustr | Make_Symlink ustr ustr | Write_File ustr bytes bool

type_synonym file_source = "workspace_entry \<Rightarrow> nat \<Rightarrow> bytes list \<times> read_end"

definition observed :: "workspace_entry \<Rightarrow> (int \<times> int) option \<Rightarrow> workspace_entry" where
  "observed e info = (case info of None \<Rightarrow> e | Some (n, t) \<Rightarrow> e\<lparr>we_size := n, we_mtime := t\<rparr>)"

text \<open>One file: a change is retried once from the beginning with the size and time seen.\<close>

definition copy_attempt :: "(bytes \<Rightarrow> ustr) \<Rightarrow> file_source \<Rightarrow> nat \<Rightarrow> workspace_entry \<Rightarrow> (workspace_entry \<times> bytes) + read_end" where
  "copy_attempt sha256 read attempt e =
    (case require_exact_chunks (we_size e) (read e attempt) of
       Inl b \<Rightarrow> Inl (e\<lparr>we_digest := Some (sha256 b)\<rparr>, b)
     | Inr r \<Rightarrow> Inr r)"

definition copy_file :: "(bytes \<Rightarrow> ustr) \<Rightarrow> file_source \<Rightarrow> workspace_entry \<Rightarrow> (workspace_entry \<times> bytes) source_result" where
  "copy_file sha256 read e =
    (case copy_attempt sha256 read 0 e of
       Inl r \<Rightarrow> Inr r
     | Inr (Read_Changed info) \<Rightarrow>
         (case copy_attempt sha256 read 1 (observed e info) of
            Inl r \<Rightarrow> Inr r
          | Inr (Read_Failed code) \<Rightarrow> Inl code
          | Inr _ \<Rightarrow> Inl ''source_file_changed'')
     | Inr (Read_Failed code) \<Rightarrow> Inl code
     | Inr Read_Done \<Rightarrow> Inl ''source_file_changed'')"

definition copy_entry :: "(bytes \<Rightarrow> ustr) \<Rightarrow> file_source \<Rightarrow> workspace_entry \<Rightarrow> (workspace_entry \<times> sink_op) source_result" where
  "copy_entry sha256 read e =
    (case we_kind e of
       Directory_Kind \<Rightarrow> Inr (e, Make_Directory (we_path e))
     | Symlink_Kind \<Rightarrow>
         (case we_target e of None \<Rightarrow> Inl ''AssertionError'' | Some t \<Rightarrow> Inr (e, Make_Symlink (we_path e) t))
     | _ \<Rightarrow> rbind (copy_file sha256 read e) (\<lambda>(e', b). Inr (e', Write_File (we_path e') b (we_executable e'))))"

definition materialize_workspace_snapshot ::
    "(nat \<Rightarrow> bool) \<Rightarrow> (ustr \<Rightarrow> ustr) \<Rightarrow> (bytes \<Rightarrow> ustr) \<Rightarrow> workspace_manifest \<Rightarrow> file_source
      \<Rightarrow> (workspace_manifest \<times> sink_op list) source_result" where
  "materialize_workspace_snapshot alpha casefold sha256 scanned read =
    rbind (build_workspace_manifest alpha casefold (wm_entries scanned) (wm_excluded scanned)) (\<lambda>manifest.
      if wm_total manifest \<noteq> wm_total scanned then Inl ''source_manifest_total''
      else rbind (traverse (copy_entry sha256 read) (wm_entries manifest)) (\<lambda>copied.
        rbind (build_workspace_manifest alpha casefold (map fst copied) (wm_excluded manifest)) (\<lambda>final.
          Inr (final, map snd copied))))"

section \<open>The manifest describes the copy\<close>

lemma pour_concat:
  "snd (pour limit n chunks) = Some k \<Longrightarrow> fst (pour limit n chunks) = chunks \<and> k = n + int (length (concat chunks))"
proof (induction chunks arbitrary: n)
  case (Cons c cs)
  then have "snd (pour limit (n + int (length c)) cs) = Some k" "\<not> limit < n + int (length c)"
    by (auto simp: Let_def split: if_splits)
  with Cons.IH [OF this(1)] show ?case by (simp add: Let_def)
qed simp

lemma exact_chunks_size: "require_exact_chunks n r = Inl b \<Longrightarrow> int (length b) = n"
  using pour_concat [of n 0 "fst r"]
  by (auto simp: require_exact_chunks_def Let_def split: option.splits read_end.splits if_splits)

text \<open>What the sink did for an entry is what the entry says.\<close>

fun describes :: "(bytes \<Rightarrow> ustr) \<Rightarrow> workspace_entry \<Rightarrow> sink_op \<Rightarrow> bool" where
  "describes sha256 e (Make_Directory p) \<longleftrightarrow> we_kind e = Directory_Kind \<and> we_path e = p"
| "describes sha256 e (Make_Symlink p t) \<longleftrightarrow> we_kind e = Symlink_Kind \<and> we_path e = p \<and> we_target e = Some t"
| "describes sha256 e (Write_File p b x) \<longleftrightarrow> we_kind e = File_Kind \<and> we_path e = p \<and> we_executable e = x
     \<and> we_size e = int (length b) \<and> we_digest e = Some (sha256 b)"

lemma observed_keeps [simp]:
  "we_path (observed e i) = we_path e" "we_kind (observed e i) = we_kind e" "we_target (observed e i) = we_target e"
  "we_executable (observed e i) = we_executable e"
  by (simp_all add: observed_def split: option.split)

lemma copy_attempt_file:
  "copy_attempt sha256 read n e = Inl (e', b) \<Longrightarrow> e' = e\<lparr>we_digest := Some (sha256 b)\<rparr> \<and> we_size e = int (length b)"
  by (auto simp: copy_attempt_def exact_chunks_size split: sum.splits)

lemma copy_file_describes:
  "copy_file sha256 read e = Inr (e', b) \<Longrightarrow> we_path e' = we_path e \<and> we_kind e' = we_kind e \<and> we_target e' = we_target e
    \<and> we_size e' = int (length b) \<and> we_digest e' = Some (sha256 b)"
  by (auto simp: copy_file_def dest!: copy_attempt_file split: sum.splits read_end.splits)

definition plain_form :: "(ustr \<Rightarrow> ustr) \<Rightarrow> workspace_entry \<Rightarrow> bool" where
  "plain_form casefold e \<longleftrightarrow>
    (if we_kind e = File_Kind then (case we_digest e of None \<Rightarrow> True | Some d \<Rightarrow> casefold d = d)
     else we_size e = 0 \<and> \<not> we_executable e \<and> we_digest e = None)"

lemma canonical_entry_form: "canonical_entry alpha casefold p e = Inr c \<Longrightarrow>
    c = e\<lparr>we_path := p, we_size := if we_kind e = File_Kind then we_size e else 0,
          we_executable := if we_kind e = File_Kind then we_executable e else False,
          we_digest := if we_kind e = File_Kind then map_option casefold (we_digest e) else None\<rparr>"
  by (auto simp: canonical_entry_def Let_def rbind_Inr_iff split: if_splits)

lemma add_plain:
  assumes "add_entry alpha casefold e acc = Inr acc'" and "plain_form casefold e"
  shows "acc' = acc @ [e]"
proof -
  from assms(1) obtain c where c: "canonical_entry alpha casefold (we_path e) e = Inr c" and "acc' = acc @ [c]"
    using source_path_keeps
    by (cases "we_kind e") (fastforce simp: add_entry_def rbind_Inr_iff split: if_splits)+
  moreover have "c = e"
    using assms(2) unfolding canonical_entry_form [OF c]
    by (cases "we_kind e = File_Kind"; cases "we_digest e") (simp_all add: plain_form_def)
  ultimately show ?thesis by simp
qed

lemma add_plains:
  "each (add_entry alpha casefold) es acc = Inr acc' \<Longrightarrow> \<forall>e \<in> set es. plain_form casefold e \<Longrightarrow> acc' = acc @ es"
proof (induction es arbitrary: acc)
  case (Cons e es)
  then obtain a where a: "add_entry alpha casefold e acc = Inr a" "each (add_entry alpha casefold) es a = Inr acc'"
    by (auto simp: rbind_Inr_iff)
  have "a = acc @ [e]" using add_plain [OF a(1)] Cons.prems by simp
  moreover have "acc' = a @ es" using Cons.IH [OF a(2)] Cons.prems by simp
  ultimately show ?case by simp
qed simp

lemma canonical_plain: "canonical alpha casefold e \<Longrightarrow> plain_form casefold e"
proof -
  assume "canonical alpha casefold e"
  then have c: "canonical_entry alpha casefold (we_path e) e = Inr e" by (simp add: canonical_def)
  from canonical_entry_form [OF c] show ?thesis
    by (cases "we_kind e = File_Kind"; cases "we_digest e")
      (auto simp: plain_form_def dest: arg_cong [of _ _ we_size] arg_cong [of _ _ we_digest] arg_cong [of _ _ we_executable])
qed

lemma copy_entry_describes:
  assumes "copy_entry sha256 read e = Inr (e', op)" and "canonical alpha casefold e"
    and "\<forall>b. hex_digest (sha256 b)" and "folds_digests casefold"
  shows "describes sha256 e' op \<and> entry_order e' = entry_order e \<and> plain_form casefold e'"
proof -
  have k: "we_kind e \<in> {File_Kind, Directory_Kind, Symlink_Kind}" using assms(2) by (simp add: canonical_def)
  have p: "plain_form casefold e" by (rule canonical_plain [OF assms(2)])
  from k consider "we_kind e = File_Kind" | "we_kind e = Directory_Kind" | "we_kind e = Symlink_Kind" by blast
  then show ?thesis
  proof cases
    case 1
    with assms(1) obtain b where b: "copy_file sha256 read e = Inr (e', b)" and op: "op = Write_File (we_path e') b (we_executable e')"
      by (auto simp: copy_entry_def rbind_Inr_iff)
    from copy_file_describes [OF b] 1 op assms(3,4) show ?thesis
      by (simp add: entry_order_def plain_form_def folds_digests_def)
  next
    case 2
    with assms(1) p show ?thesis by (auto simp: copy_entry_def)
  next
    case 3
    with assms(1) p show ?thesis by (auto simp: copy_entry_def split: option.splits)
  qed
qed

lemma traverse_all2: "traverse f xs = Inr ys \<Longrightarrow> list_all2 (\<lambda>x y. f x = Inr y) xs ys"
  by (induction xs arbitrary: ys) (auto simp: rbind_Inr_iff)

lemma snapshot_describes:
  assumes "\<forall>b. hex_digest (sha256 b)" and "folds_digests casefold"
    and "materialize_workspace_snapshot alpha casefold sha256 scanned read = Inr (m, ops)"
  shows "list_all2 (describes sha256) (wm_entries m) ops"
proof -
  from assms(3) obtain manifest copied where
    b: "build_workspace_manifest alpha casefold (wm_entries scanned) (wm_excluded scanned) = Inr manifest"
    and c: "traverse (copy_entry sha256 read) (wm_entries manifest) = Inr copied"
    and f: "build_workspace_manifest alpha casefold (map fst copied) (wm_excluded manifest) = Inr m"
    and ops: "ops = map snd copied"
    by (auto simp: materialize_workspace_snapshot_def rbind_Inr_iff split: if_splits)
  have again: "build_workspace_manifest alpha casefold (wm_entries manifest) (wm_excluded manifest) = Inr manifest"
    using manifest_is_canonical [OF assms(2) b] by blast
  then obtain es where es: "each (add_entry alpha casefold) (wm_entries manifest) [] = Inr es"
    and srt: "wm_entries manifest = sort_key entry_order es"
    by (auto simp: build_workspace_manifest_def rbind_Inr_iff Let_def split: if_splits)
  have canon: "\<forall>e \<in> set (wm_entries manifest). canonical alpha casefold e"
    using add_entries_manifest [OF es assms(2)] by (simp add: srt manifest_of_def)
  have each_ok: "describes sha256 (fst y) (snd y) \<and> entry_order (fst y) = entry_order x \<and> plain_form casefold (fst y)"
    if "x \<in> set (wm_entries manifest)" "copy_entry sha256 read x = Inr y" for x y
    using copy_entry_describes [of sha256 read x "fst y" "snd y"] that canon assms(1,2) by auto
  have all: "list_all2 (\<lambda>x y. describes sha256 (fst y) (snd y) \<and> entry_order (fst y) = entry_order x
      \<and> plain_form casefold (fst y)) (wm_entries manifest) copied"
    using traverse_all2 [OF c] by (rule list.rel_mono_strong) (use each_ok in blast)
  from f obtain fs where fs: "each (add_entry alpha casefold) (map fst copied) [] = Inr fs"
    and m: "wm_entries m = sort_key entry_order fs"
    by (auto simp: build_workspace_manifest_def rbind_Inr_iff Let_def split: if_splits)
  have "\<forall>e \<in> set (map fst copied). plain_form casefold e"
    using all by (force simp: list_all2_conv_all_nth in_set_conv_nth)
  from add_plains [OF fs this] have "fs = map fst copied" by simp
  moreover have "map entry_order (map fst copied) = map entry_order (wm_entries manifest)"
    using all by (auto simp: list_all2_conv_all_nth intro: nth_equalityI)
  then have "sorted (map entry_order (map fst copied))" by (simp add: srt)
  ultimately have "wm_entries m = map fst copied" unfolding m by (simp only: sort_key_id_if_sorted)
  then show ?thesis using all by (simp add: ops list_all2_conv_all_nth)
qed

text \<open>C12: the manifest a snapshot ends with describes exactly what was copied. Whatever the files did in
  the meantime, the sink's operations are one per entry, in the manifest's order, and a file entry
  has the size and the digest of the very bytes that were written.\<close>

theorem snapshot_manifest_describes_copy:
  assumes "\<forall>b. hex_digest (sha256 b)" and "folds_digests casefold"
    and "materialize_workspace_snapshot alpha casefold sha256 scanned read = Inr (m, ops)"
  shows "list_all2 (describes sha256) (wm_entries m) ops"
  using assms by (rule snapshot_describes)

text \<open>A file that grows between the scan and the first read is copied on the second.\<close>

definition growing :: file_source where
  "growing e attempt = (if attempt = 0 then ([], Read_Changed (Some (2, 5))) else ([[1], [2]], Read_Done))"

definition zeros :: "bytes \<Rightarrow> ustr" where
  "zeros b = replicate 64 48"

definition one_file :: workspace_manifest where
  "one_file = \<lparr>wm_entries = [plain_entry (u ''q'') File_Kind None], wm_total = 0, wm_excluded = []\<rparr>"

definition copied_file :: workspace_manifest where
  "copied_file = \<lparr>wm_entries = [(plain_entry (u ''q'') File_Kind None)\<lparr>we_size := 2, we_mtime := 5,
     we_digest := Some (zeros [1, 2])\<rparr>], wm_total = 2, wm_excluded = []\<rparr>"

lemma hex_zeros: "hex_digest (zeros b)"
  by (simp add: hex_digest_def zeros_def u_def list_all_iff)

lemma copied_file_result:
  "materialize_workspace_snapshot ascii_letter id zeros one_file growing
    = Inr (copied_file, [Write_File (u ''q'') [1, 2] False])"
proof -
  have "ancestors (u ''q'') = []" by (simp add: ancestors_def link_parts)
  moreover have "\<not> starts_with (u ''q'' @ [slash]) (u ''q'')" by (simp add: u_def slash_def)
  ultimately have b: "build_workspace_manifest ascii_letter id [e] [] = Inr \<lparr>wm_entries = [e], wm_total = we_size e, wm_excluded = []\<rparr>"
    if "canonical_entry ascii_letter id (u ''q'') e = Inr e" "we_path e = u ''q''" "we_kind e = File_Kind" for e
    using that by (simp add: build_workspace_manifest_def add_entry_def link_source_path entry_conflict_def Let_def)
  let ?e = "(plain_entry (u ''q'') File_Kind None)\<lparr>we_size := 2, we_mtime := 5, we_digest := Some (zeros [1, 2])\<rparr>"
  have "canonical_entry ascii_letter id (u ''q'') ?e = Inr ?e"
    by (simp add: canonical_entry_def plain_entry_def hex_zeros)
  moreover have "canonical_entry ascii_letter id (u ''q'') (plain_entry (u ''q'') File_Kind None) = Inr (plain_entry (u ''q'') File_Kind None)"
    by (simp add: canonical_entry_def plain_entry_def)
  moreover have "copy_entry zeros growing (plain_entry (u ''q'') File_Kind None) = Inr (?e, Write_File (u ''q'') [1, 2] False)"
    by (simp add: copy_entry_def plain_entry_def copy_file_def copy_attempt_def growing_def require_exact_chunks_def
        observed_def Let_def)
  ultimately show ?thesis
    using b [of ?e] b [of "plain_entry (u ''q'') File_Kind None"]
    by (simp add: materialize_workspace_snapshot_def one_file_def copied_file_def) (simp add: plain_entry_def)
qed

theorem snapshot_witness: "list_all2 (describes zeros) (wm_entries copied_file) [Write_File (u ''q'') [1, 2] False]"
  by (rule snapshot_manifest_describes_copy [OF _ _ copied_file_result]) (simp_all add: hex_zeros folds_digests_def)

section \<open>What a scan lists\<close>

definition parts_of :: "ustr \<Rightarrow> ustr list" where
  "parts_of prefix = (if prefix = [] then [] else split_on slash prefix)"

definition kind_of :: "node \<Rightarrow> entry_kind" where
  "kind_of n = (case n of Symlink _ \<Rightarrow> Symlink_Kind | Directory _ _ \<Rightarrow> Directory_Kind | Regular _ _ \<Rightarrow> File_Kind
     | Special _ \<Rightarrow> Other_Kind [])"

text \<open>An entry that may be listed: it is in the tree where its path says, with its kind, and nothing
  excludes it.\<close>

definition listable ::
    "(nat \<Rightarrow> bool) \<Rightarrow> (ustr \<Rightarrow> ustr) \<Rightarrow> ustr list \<Rightarrow> ustr list \<Rightarrow> fs \<Rightarrow> path \<Rightarrow> ustr \<Rightarrow> entry_kind \<Rightarrow> bool" where
  "listable alpha casefold mandatory included fs base p k \<longleftrightarrow>
    (\<exists>n. map_of fs (base @ split_on slash p) = Some n \<and> kind_of n = k)
    \<and> termroom_dir \<notin> set (split_on slash p) \<and> \<not> list_ex (is_below p) mandatory
    \<and> (is_default_workspace_excluded alpha casefold p = Inr True \<longrightarrow> is_related_to_explicit_include p included)"

definition names_ok :: "fs \<Rightarrow> bool" where
  "names_ok fs \<longleftrightarrow> distinct (map fst fs) \<and> (\<forall>e \<in> set fs. \<forall>c \<in> set (fst e). slash \<notin> set c)"

lemma children_entry:
  "c \<in> set (children fs d) \<Longrightarrow> names_ok fs \<Longrightarrow> map_of fs (d @ [fst c]) = Some (snd c) \<and> slash \<notin> set (fst c)"
proof -
  assume "c \<in> set (children fs d)" and ok: "names_ok fs"
  then obtain p n where e: "(p, n) \<in> set fs" "p \<noteq> []" "butlast p = d" "c = (last p, n)"
    by (auto simp: children_def)
  then have "p = d @ [fst c]" by (metis append_butlast_last_id fst_conv)
  moreover have "map_of fs p = Some n" using e(1) ok by (simp add: names_ok_def)
  moreover have "slash \<notin> set (last p)" using ok e(1,2) by (force simp: names_ok_def)
  ultimately show ?thesis using e(4) by simp
qed

lemma split_child:
  "slash \<notin> set c \<Longrightarrow> split_on slash (if prefix = [] then c else prefix @ [slash] @ c) = parts_of prefix @ [c]"
proof -
  assume c: "slash \<notin> set c"
  have "split_on slash (p @ slash # c) = split_on slash p @ [c]" for p
  proof (induction p)
    case (Cons a p)
    obtain q qs where "split_on slash p = q # qs" by (cases "split_on slash p") auto
    with Cons show ?case by simp
  qed (simp add: split_on_word c)
  then show ?thesis by (simp add: parts_of_def split_on_word c)
qed

lemma scan_child_listable:
  assumes "scan_child alpha casefold mandatory included prefix t c = Inr (Some (e, descends))"
    and "map_of fs (base @ parts_of prefix @ [fst c]) = Some (snd c)" and "slash \<notin> set (fst c)"
  shows "listable alpha casefold mandatory included fs base (we_path e) (we_kind e)
    \<and> we_path e = (if prefix = [] then fst c else prefix @ [slash] @ fst c) \<and> (descends \<longleftrightarrow> we_kind e = Directory_Kind)
    \<and> we_kind e = kind_of (snd c) \<and> we_path e \<noteq> []"
proof -
  let ?p = "if prefix = [] then fst c else prefix @ [slash] @ fst c"
  from assms(1) obtain x where x: "normalize_source_relative_path alpha False True ?p = Inr ?p"
    "termroom_dir \<notin> set (split_on slash ?p)" "\<not> list_ex (is_below ?p) mandatory"
    "is_default_workspace_excluded alpha casefold ?p = Inr x" "x \<longrightarrow> is_related_to_explicit_include ?p included"
    and e: "we_path e = ?p" "we_kind e = kind_of (snd c)" "descends \<longleftrightarrow> kind_of (snd c) = Directory_Kind"
    using normalize_keeps
    by (cases "snd c") (fastforce simp: scan_child_def rbind_Inr_iff kind_of_def split: if_splits)+
  have "map_of fs (base @ split_on slash ?p) = Some (snd c)"
    using assms(2) split_child [OF assms(3), of prefix] by simp
  moreover have "?p \<noteq> []" using x(1) by (auto simp: normalize_source_relative_path_def)
  ultimately show ?thesis using x e by (auto simp: listable_def)
qed

text \<open>The paths a scan may list: an entry of the Workspace itself, or of a directory that is listed.\<close>

inductive listed ::
    "(nat \<Rightarrow> bool) \<Rightarrow> (ustr \<Rightarrow> ustr) \<Rightarrow> ustr list \<Rightarrow> ustr list \<Rightarrow> fs \<Rightarrow> path \<Rightarrow> ustr \<Rightarrow> entry_kind \<Rightarrow> bool"
  for alpha casefold mandatory included fs base where
  at_root: "listable alpha casefold mandatory included fs base c k \<Longrightarrow> slash \<notin> set c
    \<Longrightarrow> listed alpha casefold mandatory included fs base c k"
| inside_of: "listed alpha casefold mandatory included fs base p Directory_Kind
    \<Longrightarrow> listable alpha casefold mandatory included fs base (p @ [slash] @ c) k \<Longrightarrow> slash \<notin> set c
    \<Longrightarrow> listed alpha casefold mandatory included fs base (p @ [slash] @ c) k"

lemma listed_listable: "listed alpha casefold mandatory included fs base p k \<Longrightarrow> listable alpha casefold mandatory included fs base p k"
  by (induction rule: listed.induct)

lemma listed_child:
  "prefix = [] \<or> listed alpha casefold mandatory included fs base prefix Directory_Kind \<Longrightarrow> slash \<notin> set c
    \<Longrightarrow> listable alpha casefold mandatory included fs base (if prefix = [] then c else prefix @ [slash] @ c) k
    \<Longrightarrow> listed alpha casefold mandatory included fs base (if prefix = [] then c else prefix @ [slash] @ c) k"
  using listed.at_root listed.inside_of by (cases "prefix = []") (simp_all only: if_True if_False simp_thms)

lemma walk_listed:
  "walk n alpha casefold mandatory included lt fs d prefix = Inr es \<Longrightarrow> d = base @ parts_of prefix \<Longrightarrow> names_ok fs \<Longrightarrow>
      prefix = [] \<or> listed alpha casefold mandatory included fs base prefix Directory_Kind \<Longrightarrow>
      \<forall>e \<in> set es. listed alpha casefold mandatory included fs base (we_path e) (we_kind e)"
  "walk_list n alpha casefold mandatory included lt fs d prefix cs = Inr es \<Longrightarrow> d = base @ parts_of prefix \<Longrightarrow>
      set cs \<subseteq> set (children fs d) \<Longrightarrow> names_ok fs \<Longrightarrow>
      prefix = [] \<or> listed alpha casefold mandatory included fs base prefix Directory_Kind \<Longrightarrow>
      \<forall>e \<in> set es. listed alpha casefold mandatory included fs base (we_path e) (we_kind e)"
proof (induction n alpha casefold mandatory included lt fs d prefix and n alpha casefold mandatory included lt fs d prefix cs
    arbitrary: es and es rule: walk_walk_list.induct)
  case (2 n alpha casefold mandatory included lt fs d prefix)
  then show ?case by (simp add: sorted_children_def)
next
  case (4 n alpha casefold mandatory included lt fs d prefix c cs)
  from "4.prems"(1) obtain found where f: "scan_child alpha casefold mandatory included prefix (lt (d @ [fst c])) c = Inr found"
    by (auto simp: rbind_Inr_iff)
  have c: "map_of fs (d @ [fst c]) = Some (snd c)" "slash \<notin> set (fst c)"
    using children_entry [of c fs d] "4.prems"(3,4) by auto
  show ?case
  proof (cases found)
    case None
    with "4.prems" "4.IH"(1) f show ?thesis by simp
  next
    case (Some r)
    obtain e desc where r: "r = (e, desc)" by (cases r)
    with "4.prems"(1) f Some obtain below others where
      b: "(if desc then walk n alpha casefold mandatory included lt fs (d @ [fst c]) (we_path e) else Inr []) = Inr below"
      and o: "walk_list n alpha casefold mandatory included lt fs d prefix cs = Inr others" and es: "es = e # below @ others"
      by (auto simp: rbind_Inr_iff)
    have e: "listable alpha casefold mandatory included fs base (we_path e) (we_kind e)"
      "we_path e = (if prefix = [] then fst c else prefix @ [slash] @ fst c)" "we_path e \<noteq> []" "desc \<longleftrightarrow> we_kind e = Directory_Kind"
      using scan_child_listable [OF f [unfolded Some r], of fs base] c "4.prems"(2) by auto
    have l: "listed alpha casefold mandatory included fs base (we_path e) (we_kind e)"
      using e(1) listed_child [OF "4.prems"(5) c(2)] unfolding e(2) by blast
    have "d @ [fst c] = base @ parts_of (we_path e)"
      using split_child [OF c(2), of prefix] e(2,3) "4.prems"(2) by (simp add: parts_of_def)
    then have "\<forall>x \<in> set below. listed alpha casefold mandatory included fs base (we_path x) (we_kind x)"
      using b "4.IH"(2) [of desc e] "4.prems"(4) l e(4) by (cases desc) auto
    moreover have "\<forall>x \<in> set others. listed alpha casefold mandatory included fs base (we_path x) (we_kind x)"
      using "4.IH"(1) [OF o] "4.prems" by simp
    ultimately show ?thesis using l by (auto simp: es)
  qed
qed simp_all

text \<open>Nothing is left out.\<close>

lemma scan_child_some:
  assumes "scan_child alpha casefold mandatory included prefix t c = Inr found"
    and "listable alpha casefold mandatory included fs base (if prefix = [] then fst c else prefix @ [slash] @ fst c) k"
  shows "\<exists>e desc. found = Some (e, desc)"
  using assms normalize_keeps
  by (cases "snd c") (fastforce simp: scan_child_def rbind_Inr_iff listable_def split: if_splits)+

lemma walk_list_child:
  "walk_list n alpha casefold mandatory included lt fs d prefix cs = Inr es \<Longrightarrow> c \<in> set cs \<Longrightarrow>
    \<exists>found. scan_child alpha casefold mandatory included prefix (lt (d @ [fst c])) c = Inr found \<and>
      (\<forall>e desc. found = Some (e, desc) \<longrightarrow> e \<in> set es \<and>
        (desc \<longrightarrow> (\<exists>below. walk n alpha casefold mandatory included lt fs (d @ [fst c]) (we_path e) = Inr below \<and> set below \<subseteq> set es)))"
proof (induction cs arbitrary: es)
  case (Cons x cs)
  then obtain found where f: "scan_child alpha casefold mandatory included prefix (lt (d @ [fst x])) x = Inr found"
    by (auto simp: rbind_Inr_iff)
  have "\<exists>others. walk_list n alpha casefold mandatory included lt fs d prefix cs = Inr others \<and> set others \<subseteq> set es"
    using Cons.prems(1) f by (cases found) (auto simp: rbind_Inr_iff)
  then obtain others where o: "walk_list n alpha casefold mandatory included lt fs d prefix cs = Inr others" "set others \<subseteq> set es" by blast
  have b: "e \<in> set es \<and> (desc \<longrightarrow> (\<exists>below. walk n alpha casefold mandatory included lt fs (d @ [fst x]) (we_path e) = Inr below \<and> set below \<subseteq> set es))"
    if "found = Some (e, desc)" for e desc
    using Cons.prems(1) f that by (auto simp: rbind_Inr_iff)
  show ?case
  proof (cases "c = x")
    case True
    with f b show ?thesis by fastforce
  next
    case False
    with Cons.prems(2) Cons.IH [OF o(1)] o(2) show ?thesis by fastforce
  qed
qed simp

lemma child_of_entry: "map_of fs (d @ [c]) = Some n \<Longrightarrow> (c, n) \<in> set (children fs d)"
  by (force simp: children_def dest: map_of_SomeD)

lemma walk_complete:
  assumes w: "walk n alpha casefold mandatory included lt fs base [] = Inr es"
    and l: "listed alpha casefold mandatory included fs base p k"
  shows "\<exists>e \<in> set es. we_path e = p \<and> we_kind e = k \<and> (k = Directory_Kind \<longrightarrow>
    p \<noteq> [] \<and> (\<exists>n below. walk n alpha casefold mandatory included lt fs (base @ split_on slash p) p = Inr below \<and> set below \<subseteq> set es))"
proof -
  have step: "\<exists>e \<in> set es. we_path e = q \<and> we_kind e = k \<and> (k = Directory_Kind \<longrightarrow>
      q \<noteq> [] \<and> (\<exists>n below. walk n alpha casefold mandatory included lt fs (base @ split_on slash q) q = Inr below \<and> set below \<subseteq> set es))"
    if v: "walk n alpha casefold mandatory included lt fs (base @ parts_of prefix) prefix = Inr below'" "set below' \<subseteq> set es"
      and q: "q = (if prefix = [] then c else prefix @ [slash] @ c)" "slash \<notin> set c" "listable alpha casefold mandatory included fs base q k"
    for n prefix below' q c k
  proof -
    have parts: "split_on slash q = parts_of prefix @ [c]" unfolding q(1) by (rule split_child [OF q(2)])
    then obtain x where x: "map_of fs ((base @ parts_of prefix) @ [c]) = Some x" "kind_of x = k"
      using q(3) by (auto simp: listable_def)
    obtain n' where n: "n = Suc n'" using v(1) by (cases n) auto
    have "(c, x) \<in> set (sorted_children fs (base @ parts_of prefix))"
      using child_of_entry [OF x(1)] by (simp add: sorted_children_def)
    from walk_list_child [OF v(1) [unfolded n walk.simps] this] obtain found where
      f: "scan_child alpha casefold mandatory included prefix (lt ((base @ parts_of prefix) @ [c])) (c, x) = Inr found"
      and found: "\<And>e desc. found = Some (e, desc) \<Longrightarrow> e \<in> set below' \<and>
        (desc \<longrightarrow> (\<exists>below. walk n' alpha casefold mandatory included lt fs ((base @ parts_of prefix) @ [c]) (we_path e) = Inr below
          \<and> set below \<subseteq> set below'))" by auto
    have q3: "listable alpha casefold mandatory included fs base (if prefix = [] then fst (c, x) else prefix @ [slash] @ fst (c, x)) k"
      using q(3) unfolding q(1) fst_conv .
    obtain e desc where e: "found = Some (e, desc)" using scan_child_some [OF f q3] by blast
    have "map_of fs (base @ parts_of prefix @ [fst (c, x)]) = Some (snd (c, x))" using x(1) by simp
    note r = scan_child_listable [OF f [unfolded e] this]
    have "we_path e = q" "we_kind e = k" "desc \<longleftrightarrow> k = Directory_Kind" "q \<noteq> []"
      using r q x(2) by auto
    with found [OF e] v(2) parts show ?thesis by (intro bexI [of _ e]) auto
  qed
  from l show ?thesis
  proof (induction rule: listed.induct)
    case (at_root c k)
    show ?case by (rule step [of n "[]" es]) (use w at_root in \<open>auto simp: parts_of_def\<close>)
  next
    case (inside_of p c k)
    then obtain n below where "p \<noteq> []" "walk n alpha casefold mandatory included lt fs (base @ split_on slash p) p = Inr below" "set below \<subseteq> set es"
      by auto
    with inside_of show ?case by (intro step [of n p below]) (auto simp: parts_of_def)
  qed
qed

lemma add_entry_kind:
  "add_entry alpha casefold e es = Inr es' \<Longrightarrow>
    \<exists>c. es' = es @ [c] \<and> we_path c = we_path e \<and> we_kind c = we_kind e"
  using source_path_keeps
  by (cases "we_kind e") (fastforce simp: add_entry_def rbind_Inr_iff dest!: canonical_entry_form split: if_splits)+

lemma each_kinds:
  "each (add_entry alpha casefold) entries es = Inr es' \<Longrightarrow>
    map (\<lambda>e. (we_path e, we_kind e)) es' = map (\<lambda>e. (we_path e, we_kind e)) (es @ entries)"
proof (induction entries arbitrary: es)
  case (Cons x xs)
  then obtain l where l: "add_entry alpha casefold x es = Inr l" "each (add_entry alpha casefold) xs l = Inr es'"
    by (auto simp: rbind_Inr_iff)
  from Cons.IH [OF l(2)] add_entry_kind [OF l(1)] show ?case by auto
qed simp

lemma manifest_kinds:
  assumes "build_workspace_manifest alpha casefold entries excluded = Inr m"
  shows "(\<lambda>e. (we_path e, we_kind e)) ` set (wm_entries m) = (\<lambda>e. (we_path e, we_kind e)) ` set entries"
proof -
  from assms obtain es where es: "each (add_entry alpha casefold) entries [] = Inr es" and m: "set (wm_entries m) = set es"
    by (auto simp: build_workspace_manifest_def rbind_Inr_iff Let_def split: if_splits)
  from each_kinds [OF es] have "(\<lambda>e. (we_path e, we_kind e)) ` set es = (\<lambda>e. (we_path e, we_kind e)) ` set entries"
    by (metis append_Nil list.set_map)
  then show ?thesis by (simp add: m)
qed

text \<open>C13: a scan lists exactly what may be copied: an entry that is in the Workspace tree under a path whose directories are
  listed too (so it is reached through no link), that is in neither a private directory of Termroom nor a \<^verbatim>\<open>.termroom\<close>
  directory, and that is no secret or cache excluded by default unless it was asked for by name.\<close>

theorem scan_lists_exactly_the_allowed_entries:
  assumes "names_ok fs"
    and "scan_local_workspace room alpha casefold boundaries included source lt fs = Inr m"
  shows "\<exists>base. resolve fs source = Inr base \<and> (\<forall>p k. (\<exists>e \<in> set (wm_entries m). we_path e = p \<and> we_kind e = k) \<longleftrightarrow>
      listed alpha casefold (map (\<lambda>b. as_posix (drop (length base) b)) (filter (prefix_of base) boundaries)) included fs base p k)"
proof -
  from assms(2) obtain base incl found where b: "resolve fs source = Inr base"
    and i: "traverse (source_path alpha) included = Inr incl"
    and w: "walk room alpha casefold (map (\<lambda>b. as_posix (drop (length base) b)) (filter (prefix_of base) boundaries))
        incl lt fs base [] = Inr found"
    and m: "build_workspace_manifest alpha casefold found
        (map (\<lambda>b. as_posix (drop (length base) b)) (filter (prefix_of base) boundaries)) = Inr m"
    by (auto simp: scan_local_workspace_def rbind_Inr_iff Let_def split: if_splits sum.splits)
  have i: "incl = included"
    using i source_path_keeps by (induction included arbitrary: incl) (fastforce simp: rbind_Inr_iff)+
  let ?listed = "listed alpha casefold (map (\<lambda>b. as_posix (drop (length base) b)) (filter (prefix_of base) boundaries)) included fs base"
  have same: "(\<exists>e \<in> set (wm_entries m). we_path e = p \<and> we_kind e = k) \<longleftrightarrow> (\<exists>e \<in> set found. we_path e = p \<and> we_kind e = k)" for p k
    using manifest_kinds [OF m] by (auto simp: set_eq_iff image_iff; metis)
  have "base = base @ parts_of []" by (simp add: parts_of_def)
  from walk_listed(1) [OF w this assms(1)] have sound: "\<forall>e \<in> set found. ?listed (we_path e) (we_kind e)"
    unfolding i by blast
  have complete: "\<exists>e \<in> set found. we_path e = p \<and> we_kind e = k" if "?listed p k" for p k
    using walk_complete [OF w] that unfolding i by blast
  have "(\<exists>e \<in> set (wm_entries m). we_path e = p \<and> we_kind e = k) \<longleftrightarrow> ?listed p k" for p k
    unfolding same using sound complete by blast
  with b show ?thesis by blast
qed

definition tree_fs :: fs where
  "tree_fs = (let i = \<lparr>st_ino = 1, st_mode = 0, st_mtime_ns = 3\<rparr> in
    [([], Directory i 0), ([u ''ws''], Directory i 0), ([u ''ws'', u ''a''], Directory i 0),
     ([u ''ws'', u ''.git''], Directory i 0), ([u ''ws'', u ''a'', u ''b''], Regular i [1])])"

definition tree_manifest :: workspace_manifest where
  "tree_manifest = \<lparr>wm_entries =
     [(plain_entry (u ''a'') Directory_Kind None)\<lparr>we_mtime := 3\<rparr>,
      (plain_entry (u ''a/b'') File_Kind None)\<lparr>we_size := 1, we_mtime := 3\<rparr>], wm_total = 1, wm_excluded = []\<rparr>"

lemma tree_paths:
  "normalize_source_relative_path ascii_letter False True (u ''a'') = Inr (u ''a'')"
  "normalize_source_relative_path ascii_letter False True (u ''a/b'') = Inr (u ''a/b'')"
  "normalize_source_relative_path ascii_letter False True (u ''.git'') = Inr (u ''.git'')"
  "source_path ascii_letter (u ''.git'') = Inr (u ''.git'')" "split_on slash (u ''.git'') = [u ''.git'']"
proof -
  have s: "split_on slash (u ''.git'') = [u ''.git'']" by (simp add: u_def slash_def)
  show "normalize_source_relative_path ascii_letter False True (u ''a'') = Inr (u ''a'')"
    "normalize_source_relative_path ascii_letter False True (u ''a/b'') = Inr (u ''a/b'')"
    "normalize_source_relative_path ascii_letter False True (u ''.git'') = Inr (u ''.git'')"
    "source_path ascii_letter (u ''.git'') = Inr (u ''.git'')" "split_on slash (u ''.git'') = [u ''.git'']"
    by (simp_all add: s source_path_def normalize_source_relative_path_def link_parts dot_def dotdot_def termroom_dir_def)
      (simp_all add: contains_control_def drive_letter_def backslash_def slash_def u_def utf8_encode_def scalar_def
        is_surrogate_def)
qed

lemma tree_excluded:
  "is_default_workspace_excluded ascii_letter id (u ''a'') = Inr False"
  "is_default_workspace_excluded ascii_letter id (u ''a/b'') = Inr False"
  "is_default_workspace_excluded ascii_letter id (u ''.git'') = Inr True"
  by (simp_all add: is_default_workspace_excluded_def link_source_path tree_paths link_parts excluded_directory_names_def
      excluded_file_names_def private_key_suffixes_def)
    (simp_all add: ends_with_def u_def starts_with_def)

lemma tree_scan:
  "scan_local_workspace 900 ascii_letter id [] [] [u ''ws''] (\<lambda>_. 0) tree_fs = Inr tree_manifest"
proof -
  let ?i = "\<lparr>st_ino = 1, st_mode = 0, st_mtime_ns = 3\<rparr>"
  have l: "lstat tree_fs [u ''ws''] = Inr (Directory ?i 0)" by (simp add: lstat_def tree_fs_def Let_def)
  have r: "real_path tree_fs [u ''ws'']" by (simp add: real_path_def plain_name_def l dot_def dotdot_def)
  have c: "sorted_children tree_fs [u ''ws''] = [(u ''.git'', Directory ?i 0), (u ''a'', Directory ?i 0)]"
    "sorted_children tree_fs [u ''ws'', u ''a''] = [(u ''b'', Regular ?i [1])]"
    by (simp_all add: sorted_children_def children_def tree_fs_def Let_def) (simp add: u_def)
  have ab: "u ''a'' @ slash # u ''b'' = u ''a/b''" by (simp add: u_def slash_def)
  have "walk (Suc (Suc (Suc n))) ascii_letter id [] [] (\<lambda>_. 0) tree_fs [u ''ws''] [] = Inr (wm_entries tree_manifest)" for n
    by (simp add: c scan_child_def tree_paths link_parts tree_excluded termroom_dir_def ab
        is_related_to_explicit_include_def tree_manifest_def plain_entry_def)
  from this [of 897] have w: "walk 900 ascii_letter id [] [] (\<lambda>_. 0) tree_fs [u ''ws''] [] = Inr (wm_entries tree_manifest)" by simp
  have m: "build_workspace_manifest ascii_letter id (wm_entries tree_manifest) [] = Inr tree_manifest"
  proof -
    have "each (add_entry ascii_letter id) (wm_entries tree_manifest) [] = Inr (wm_entries tree_manifest)"
      by (simp add: tree_manifest_def add_entry_def plain_entry_def link_source_path canonical_entry_def)
    moreover have "\<not> list_ex (entry_conflict (wm_entries tree_manifest)) (wm_entries tree_manifest)"
      by (simp add: tree_manifest_def plain_entry_def entry_conflict_def ancestors_def link_parts) (simp add: u_def slash_def)
    moreover have "sort_key entry_order (wm_entries tree_manifest) = wm_entries tree_manifest"
      by (simp add: tree_manifest_def plain_entry_def entry_order_def) (simp add: u_def slash_def)
    ultimately show ?thesis
      by (simp add: build_workspace_manifest_def Let_def) (simp add: tree_manifest_def plain_entry_def)
  qed
  show ?thesis
    using w m by (simp add: scan_local_workspace_def path_is_symlink_def os_lstat_real r l resolve_id path_is_dir_def
        os_stat_real)
qed

theorem scan_witness:
  "\<exists>base. resolve tree_fs [u ''ws''] = Inr base \<and> listed ascii_letter id [] [] tree_fs base (u ''a/b'') File_Kind
     \<and> \<not> listed ascii_letter id [] [] tree_fs base (u ''.git'') Directory_Kind"
proof -
  have "names_ok tree_fs" by (simp add: names_ok_def tree_fs_def Let_def) (simp add: u_def slash_def)
  from scan_lists_exactly_the_allowed_entries [OF this tree_scan] obtain base where b: "resolve tree_fs [u ''ws''] = Inr base"
    and l: "\<And>p k. (\<exists>e \<in> set (wm_entries tree_manifest). we_path e = p \<and> we_kind e = k) = listed ascii_letter id [] [] tree_fs base p k"
    by auto
  have "\<exists>e \<in> set (wm_entries tree_manifest). we_path e = u ''a/b'' \<and> we_kind e = File_Kind"
    "\<not> (\<exists>e \<in> set (wm_entries tree_manifest). we_path e = u ''.git'' \<and> we_kind e = Directory_Kind)"
    by (simp_all add: tree_manifest_def plain_entry_def)
  with b show ?thesis unfolding l by blast
qed

end
