(* ===== verification/Result_Plan.thy ===== *)
theory Result_Plan
  imports Source_Rules Workspace_Files
begin

text \<open>
  Collecting the results of a Remote Run (\<^verbatim>\<open>termroom/run_results.py\<close>): the scan of the result tree, the
  review plan that compares baseline, result and current Source file by file, and the report. What
  the backends answer (listings, \<^verbatim>\<open>stat\<close>, file contents) are arguments, since they may differ from call
  to call; \<open>digest\<close> is \<^verbatim>\<open>file_digest\<close>.
\<close>

section \<open>Data\<close>

datatype plan_status = Ready | Already_Result | Conflict | Skipped
datatype plan_change = Modified | Added | Deleted | Unchanged | Unsupported
datatype apply_outcome = Applied_Out | Already_Result_Out | Conflict_Out | Skipped_Out | Failed_Out

text \<open>\<open>ResultCollectionError\<close>, its subclass \<open>ResultCollectionConflict\<close>, and any other exception of a
  backend.\<close>

datatype collection_error = Collection_Error string | Collection_Conflict string | Backend_Error file_error

type_synonym 'a collected = "collection_error + 'a"

record plan_item =
  pi_path :: ustr
  pi_change :: plan_change
  pi_status :: plan_status
  pi_reason :: string
  pi_baseline :: "ustr option"
  pi_result :: "ustr option"
  pi_current :: "ustr option"
  pi_mtime :: "int option"

record collection_plan =
  cp_run :: ustr
  cp_workspace :: ustr
  cp_source_path :: ustr
  cp_revision :: ustr
  cp_items :: "plan_item list"

record report_item =
  ri_path :: ustr
  ri_change :: plan_change
  ri_outcome :: apply_outcome
  ri_reason :: string

definition plan_item :: "ustr \<Rightarrow> plan_change \<Rightarrow> plan_status \<Rightarrow> string \<Rightarrow> plan_item" where
  "plan_item p c s r = \<lparr>pi_path = p, pi_change = c, pi_status = s, pi_reason = r, pi_baseline = None,
     pi_result = None, pi_current = None, pi_mtime = None\<rparr>"

definition display_limit :: nat where "display_limit = 500"

definition is_changed :: "plan_item \<Rightarrow> bool" where
  "is_changed i \<longleftrightarrow> pi_change i \<noteq> Unchanged \<and> pi_status i \<noteq> Already_Result"

definition changed_item_count :: "collection_plan \<Rightarrow> nat" where
  "changed_item_count p = length (filter is_changed (cp_items p))"

definition apply_allowed :: "collection_plan \<Rightarrow> bool" where
  "apply_allowed p \<longleftrightarrow> changed_item_count p \<le> display_limit"

record plan_summary =
  ps_items :: "plan_item list"
  ps_total :: nat
  ps_changed :: nat
  ps_unchanged :: nat
  ps_shown :: nat
  ps_truncated :: bool
  ps_omitted :: nat
  ps_apply_allowed :: bool
  ps_counts :: "plan_status \<Rightarrow> nat"

definition plan_as_dict :: "collection_plan \<Rightarrow> plan_summary" where
  "plan_as_dict p =
    (let changed = filter is_changed (cp_items p);
         shown = take display_limit changed;
         omitted = length changed - length shown
     in \<lparr>ps_items = shown, ps_total = length (cp_items p), ps_changed = length changed,
         ps_unchanged = length (cp_items p) - length changed, ps_shown = length shown,
         ps_truncated = (omitted > 0), ps_omitted = omitted, ps_apply_allowed = apply_allowed p,
         ps_counts = (\<lambda>s. length (filter (\<lambda>i. pi_status i = s) (cp_items p)))\<rparr>)"

section \<open>The result tree\<close>

definition max_result_entries :: nat where "max_result_entries = 10000"
definition max_result_depth :: nat where "max_result_depth = 64"
definition max_result_path_bytes :: nat where "max_result_path_bytes = 4096"

definition posix_parent :: "ustr \<Rightarrow> ustr" where
  "posix_parent p = as_posix (butlast (split_on slash p))"

definition validate_child_entry :: "(nat \<Rightarrow> bool) \<Rightarrow> ustr \<Rightarrow> file_entry \<Rightarrow> ustr collected" where
  "validate_child_entry alpha directory e =
    (if fe_size e < 0 \<or> fe_mtime e < 0 then Inl (Collection_Error ''result_metadata_invalid'')
     else (case normalize_source_relative_path alpha False True (fe_relative e) of
        Inl _ \<Rightarrow> Inl (Collection_Error ''result_path_invalid'')
      | Inr relative \<Rightarrow>
          if length (utf8_bytes relative) > max_result_path_bytes
          then Inl (Collection_Error ''result_path_invalid'')
          else if posix_parent relative \<noteq> directory then Inl (Collection_Error ''result_path_invalid'')
          else Inr relative))"

record tree_scan =
  ts_seen :: "ustr list"
  ts_entries :: "file_entry list"
  ts_bytes :: int
  ts_pending :: "(ustr \<times> nat) list"

definition canonical_result :: "ustr \<Rightarrow> file_entry \<Rightarrow> file_entry" where
  "canonical_result relative e = e\<lparr>fe_name := last (split_on slash relative), fe_relative := relative\<rparr>"

text \<open>One child of a listing; \<open>ts_pending\<close> is a stack.\<close>

definition scan_result_child ::
    "(nat \<Rightarrow> bool) \<Rightarrow> int \<Rightarrow> ustr \<Rightarrow> nat \<Rightarrow> file_entry \<Rightarrow> tree_scan \<Rightarrow> tree_scan collected" where
  "scan_result_child alpha max_bytes directory depth e s =
    rbind (validate_child_entry alpha directory e) (\<lambda>relative.
      if relative \<in> set (ts_seen s) then Inl (Collection_Error ''result_path_duplicate'')
      else
      let seen = relative # ts_seen s in
      if length seen > max_result_entries then Inl (Collection_Error ''result_too_many_entries'')
      else
      let c = canonical_result relative e;
          s1 = s\<lparr>ts_seen := seen, ts_entries := ts_entries s @ [c]\<rparr> in
      if fe_is_dir c
      then (if depth + 1 > max_result_depth then Inl (Collection_Error ''result_too_deep'')
            else Inr (s1\<lparr>ts_pending := (relative, depth + 1) # ts_pending s1\<rparr>))
      else (let bytes = ts_bytes s + fe_size c in
            if bytes > max_bytes then Inl (Collection_Error ''result_too_large'')
            else Inr (s1\<lparr>ts_bytes := bytes\<rparr>)))"

lemma scan_result_child_steps:
  assumes "scan_result_child alpha mx d k e s = Inr s'"
  shows "length (ts_seen s') = Suc (length (ts_seen s)) \<and> length (ts_seen s') \<le> max_result_entries
    \<and> length (ts_pending s') \<le> Suc (length (ts_pending s))"
  using assms by (auto simp: scan_result_child_def rbind_Inr_iff Let_def split: if_splits)

lemma scan_children_steps:
  "each (scan_result_child alpha mx d k) es s = Inr s' \<Longrightarrow>
    2 * (max_result_entries - length (ts_seen s')) + length (ts_pending s')
      \<le> 2 * (max_result_entries - length (ts_seen s)) + length (ts_pending s)"
proof (induction es arbitrary: s)
  case (Cons e es)
  then obtain s1 where s1: "scan_result_child alpha mx d k e s = Inr s1" "each (scan_result_child alpha mx d k) es s1 = Inr s'"
    by (auto simp: rbind_Inr_iff)
  from Cons.IH [OF s1(2)] scan_result_child_steps [OF s1(1)] show ?case by linarith
qed simp

text \<open>\<open>ls\<close> is \<^verbatim>\<open>remote_access.list_dir\<close>: it answers a listing of at most the entries that remain, or raises. Every entry counts
  against the limit and every directory is pushed once, so the loop ends.\<close>

function scan_pending ::
    "(nat \<Rightarrow> bool) \<Rightarrow> (ustr \<Rightarrow> nat \<Rightarrow> file_entry list fresult) \<Rightarrow> int \<Rightarrow> tree_scan \<Rightarrow> tree_scan collected" where
  "scan_pending alpha ls max_bytes s =
    (case ts_pending s of
       [] \<Rightarrow> Inr s
     | (directory, depth) # pending \<Rightarrow>
        (case ls directory (max_result_entries - length (ts_seen s)) of
           Inl (DirectoryListingLimitError m) \<Rightarrow> Inl (Collection_Error ''result_too_many_entries'')
         | Inl e \<Rightarrow> Inl (Backend_Error e)
         | Inr kids \<Rightarrow>
             (case each (scan_result_child alpha max_bytes directory depth) kids (s\<lparr>ts_pending := pending\<rparr>) of
                Inl e \<Rightarrow> Inl e
              | Inr s' \<Rightarrow> scan_pending alpha ls max_bytes s')))"
  by pat_completeness auto

termination
  by (relation "measure (\<lambda>(a, l, m, s). 2 * (max_result_entries - length (ts_seen s)) + length (ts_pending s))")
    (auto dest!: scan_children_steps)

definition scan_result_tree ::
    "(nat \<Rightarrow> bool) \<Rightarrow> (ustr \<Rightarrow> nat \<Rightarrow> file_entry list fresult) \<Rightarrow> int \<Rightarrow> file_entry list collected" where
  "scan_result_tree alpha ls max_bytes =
    rbind (scan_pending alpha ls max_bytes \<lparr>ts_seen = [], ts_entries = [], ts_bytes = 0, ts_pending = [(dot, 0)]\<rparr>)
      (\<lambda>s. Inr (sort_key fe_relative (ts_entries s)))"

section \<open>Reading a result file\<close>

definition same_file_entry :: "file_entry \<Rightarrow> file_entry \<Rightarrow> bool" where
  "same_file_entry expected current \<longleftrightarrow> \<not> fe_is_dir current \<and> fe_relative current = fe_relative expected
    \<and> fe_size current = fe_size expected \<and> fe_mtime current = fe_mtime expected"

text \<open>What the backend answers during one read: \<^verbatim>\<open>stat\<close>, the chunks (\<open>None\<close> is not \<^verbatim>\<open>bytes\<close>) and how the
  stream ends, \<^verbatim>\<open>stat\<close> again.\<close>

record file_stream =
  st_before :: "file_entry fresult"
  st_chunks :: "bytes option list"
  st_end :: "unit fresult"
  st_after :: "file_entry fresult"

definition stat_same :: "file_entry \<Rightarrow> file_entry fresult \<Rightarrow> unit collected" where
  "stat_same e r = (case r of
     Inl x \<Rightarrow> Inl (Backend_Error x)
   | Inr current \<Rightarrow> if same_file_entry e current then Inr () else Inl (Collection_Conflict ''result_changed''))"

fun stream_chunks :: "int \<Rightarrow> bytes \<Rightarrow> bytes option list \<Rightarrow> bytes collected" where
  "stream_chunks limit content [] = Inr content"
| "stream_chunks limit content (None # chunks) = Inl (Collection_Error ''result_read_invalid'')"
| "stream_chunks limit content (Some c # chunks) =
     (if int (length (content @ c)) > limit then Inl (Collection_Conflict ''result_changed'')
      else stream_chunks limit (content @ c) chunks)"

definition read_stable_file :: "file_entry \<Rightarrow> file_stream \<Rightarrow> bytes collected" where
  "read_stable_file e r =
    rbind (stat_same e (st_before r)) (\<lambda>_.
      rbind (stream_chunks (fe_size e) [] (st_chunks r)) (\<lambda>content.
        case st_end r of
          Inl x \<Rightarrow> Inl (Backend_Error x)
        | Inr _ \<Rightarrow> rbind (stat_same e (st_after r)) (\<lambda>_.
            if int (length content) \<noteq> fe_size e then Inl (Collection_Conflict ''result_changed'') else Inr content)))"

section \<open>The current Source\<close>

datatype current_source = Source_Missing | Source_Blocked string | Source_Text file_snapshot

definition source_unsupported :: "file_error \<Rightarrow> bool" where
  "source_unsupported e \<longleftrightarrow> (case e of NotADirectoryError \<Rightarrow> True | PathBoundaryError _ \<Rightarrow> True
     | UnsupportedFileError _ \<Rightarrow> True | _ \<Rightarrow> False)"

text \<open>The three calls of one look at the Source: \<^verbatim>\<open>stat\<close>, \<^verbatim>\<open>read_text\<close>, \<^verbatim>\<open>stat\<close>.\<close>

definition read_current_source ::
    "file_entry fresult \<Rightarrow> file_snapshot fresult \<Rightarrow> file_entry fresult \<Rightarrow> current_source collected" where
  "read_current_source before snapshot after =
    (case before of
       Inl e \<Rightarrow> if e = FileNotFoundError then Inr Source_Missing
                else if source_unsupported e then Inr (Source_Blocked ''source_path_unsupported'')
                else Inl (Backend_Error e)
     | Inr b \<Rightarrow>
       if fe_is_dir b then Inr (Source_Blocked ''source_path_is_directory'')
       else (case rbind snapshot (\<lambda>t. rbind after (\<lambda>a. Inr (t, a))) of
          Inl e \<Rightarrow> if e = FileNotFoundError then Inr (Source_Blocked ''source_changed_during_review'')
                   else if source_unsupported e then Inr (Source_Blocked ''source_not_editable_text'')
                   else Inl (Backend_Error e)
        | Inr (t, a) \<Rightarrow>
            if fe_relative b \<noteq> fe_relative a \<or> fe_size b \<noteq> fe_size a \<or> fe_mtime b \<noteq> fe_mtime a
               \<or> fs_mtime t \<noteq> fe_mtime b \<or> int (length (utf8_bytes (fs_content t))) \<noteq> fe_size b
            then Inr (Source_Blocked ''source_changed_during_review'') else Inr (Source_Text t)))"

definition source_relative_path :: "(nat \<Rightarrow> bool) \<Rightarrow> ustr \<Rightarrow> ustr \<Rightarrow> ustr collected" where
  "source_relative_path alpha src_path result_path =
    (if src_path = dot then Inr result_path
     else (case normalize_source_relative_path alpha False False (src_path @ [slash] @ result_path) of
        Inl code \<Rightarrow> Inl (Backend_Error (ValueError code))
      | Inr p \<Rightarrow> Inr p))"

definition addition_parent_exists :: "ustr \<Rightarrow> (ustr \<Rightarrow> file_entry fresult) \<Rightarrow> bool collected" where
  "addition_parent_exists relative stat =
    (let parent = posix_parent relative in
     if parent = dot then Inr True
     else (case stat parent of
        Inl e \<Rightarrow> if e = FileNotFoundError \<or> source_unsupported e then Inr False else Inl (Backend_Error e)
      | Inr entry \<Rightarrow> Inr (fe_is_dir entry)))"

section \<open>The plan\<close>

record expected_source =
  ex_digest :: ustr
  ex_mtime :: int

text \<open>What the backends answer during one review, by the path asked for.\<close>

record review_io =
  io_result :: "file_entry \<Rightarrow> file_stream"
  io_before :: "ustr \<Rightarrow> file_entry fresult"
  io_text :: "ustr \<Rightarrow> file_snapshot fresult"
  io_after :: "ustr \<Rightarrow> file_entry fresult"
  io_parent :: "ustr \<Rightarrow> file_entry fresult"

definition is_excluded_result_path :: "ustr \<Rightarrow> ustr list \<Rightarrow> bool" where
  "is_excluded_result_path p prefixes \<longleftrightarrow>
    termroom_dir \<in> set (split_on slash p) \<or> list_ex (is_below p) prefixes"

definition baseline_digest :: "workspace_entry option \<Rightarrow> ustr option" where
  "baseline_digest b = (case b of None \<Rightarrow> None | Some e \<Rightarrow> we_digest e)"

definition skipped_item :: "ustr \<Rightarrow> workspace_entry option \<Rightarrow> string \<Rightarrow> plan_item" where
  "skipped_item p b reason =
    (plan_item p (if (case b of None \<Rightarrow> False | Some e \<Rightarrow> we_kind e = File_Kind) then Modified else Added) Skipped reason)
      \<lparr>pi_baseline := baseline_digest b\<rparr>"

definition with_current :: "file_snapshot \<Rightarrow> plan_item \<Rightarrow> plan_item" where
  "with_current c i = i\<lparr>pi_current := Some (fs_digest c), pi_mtime := Some (fs_mtime c)\<rparr>"

text \<open>A result text against the baseline and the current Source.\<close>

definition compare_text ::
    "ustr \<Rightarrow> workspace_entry option \<Rightarrow> ustr \<Rightarrow> current_source \<Rightarrow> bool collected \<Rightarrow> bool \<Rightarrow> plan_item collected" where
  "compare_text p b result current parent is_local =
    (let item = (\<lambda>c s r. (plan_item p c s r)\<lparr>pi_result := Some result\<rparr>);
         based = (\<lambda>i. i\<lparr>pi_baseline := baseline_digest b\<rparr>) in
     case current of
       Source_Blocked reason \<Rightarrow> Inr (based (item (if b \<noteq> None then Modified else Added) Conflict reason))
     | Source_Text c \<Rightarrow>
         if fs_digest c = result
         then Inr (with_current c (based (item Unchanged Already_Result ''source_matches_result'')))
         else (case b of
            None \<Rightarrow> Inr (with_current c (item Added Conflict ''source_path_exists''))
          | Some e \<Rightarrow>
             (case we_digest e of
                None \<Rightarrow> Inl (Collection_Error ''collection_baseline_unavailable'')
              | Some base \<Rightarrow>
                 if fs_digest c \<noteq> base
                 then Inr (with_current c (based (item Modified Conflict ''source_changed_since_run'')))
                 else if result = base
                 then Inr (with_current c (based (item Unchanged Already_Result ''result_matches_baseline'')))
                 else Inr (with_current c (based (item Modified Ready ''source_unchanged_since_run'')))))
     | Source_Missing \<Rightarrow>
         (case b of
            None \<Rightarrow>
              rbind parent (\<lambda>exists.
                if \<not> exists then Inr (item Added Conflict ''source_parent_missing'')
                else Inr (item Added Ready (if is_local then ''new_local_text_file'' else ''new_remote_text_file'')))
          | Some e \<Rightarrow>
             (case we_digest e of
                None \<Rightarrow> Inl (Collection_Error ''collection_baseline_unavailable'')
              | Some base \<Rightarrow> Inr (based (item Modified Conflict ''source_file_missing'')))))"

definition review_text ::
    "(nat \<Rightarrow> bool) \<Rightarrow> (ustr \<Rightarrow> ustr) \<Rightarrow> review_io \<Rightarrow> ustr \<Rightarrow> bool \<Rightarrow> ustr \<Rightarrow> workspace_entry option \<Rightarrow> ustr
      \<Rightarrow> (plan_item \<times> expected_source option) collected" where
  "review_text alpha casefold io src_path is_local p b result =
    (if (case b of None \<Rightarrow> False | Some e \<Rightarrow> we_kind e \<noteq> File_Kind)
     then Inr ((plan_item p Unsupported Conflict ''baseline_type_conflict'')\<lparr>pi_result := Some result\<rparr>, None)
     else rbind (if b \<noteq> None then Inr False
                 else (case is_default_workspace_excluded alpha casefold p of
                         Inl code \<Rightarrow> Inl (Backend_Error (ValueError code)) | Inr x \<Rightarrow> Inr x)) (\<lambda>excluded.
       if excluded
       then Inr ((plan_item p Added Skipped ''excluded_new_path'')\<lparr>pi_result := Some result\<rparr>, None)
       else rbind (source_relative_path alpha src_path p) (\<lambda>relative.
         rbind (read_current_source (io_before io relative) (io_text io relative) (io_after io relative)) (\<lambda>current.
           rbind (compare_text p b result current (addition_parent_exists relative (io_parent io)) is_local) (\<lambda>i.
             Inr (i, case current of
                       Source_Text c \<Rightarrow> Some \<lparr>ex_digest = fs_digest c, ex_mtime = fs_mtime c\<rparr>
                     | _ \<Rightarrow> None))))))"

text \<open>One result entry: no item, or its item and the Source version it was compared with.\<close>

definition review_entry ::
    "(nat \<Rightarrow> bool) \<Rightarrow> (ustr \<Rightarrow> ustr) \<Rightarrow> (bytes \<Rightarrow> ustr) \<Rightarrow> nat \<Rightarrow> review_io \<Rightarrow> ustr \<Rightarrow> bool \<Rightarrow> workspace_manifest
      \<Rightarrow> file_entry \<Rightarrow> (plan_item \<times> expected_source option) option collected" where
  "review_entry alpha casefold digest limit io src_path is_local baseline e =
    (let p = fe_relative e; b = find (\<lambda>x. we_path x = p) (wm_entries baseline) in
     if is_excluded_result_path p (wm_excluded baseline)
     then Inr (if fe_is_dir e then None else Some (skipped_item p b ''excluded_new_path'', None))
     else if fe_is_dir e
     then Inr (if (case b of None \<Rightarrow> False | Some x \<Rightarrow> we_kind x = File_Kind)
               then Some ((plan_item p Unsupported Conflict ''result_type_conflict'')\<lparr>pi_baseline := baseline_digest b\<rparr>, None)
               else None)
     else if fe_size e > int limit then Inr (Some (skipped_item p b ''file_too_large'', None))
     else (case read_stable_file e (io_result io e) of
        Inl (Backend_Error (UnsupportedFileError m)) \<Rightarrow> Inr (Some (skipped_item p b ''unsupported_result_type'', None))
      | Inl x \<Rightarrow> Inl x
      | Inr raw \<Rightarrow>
          if 0 \<in> set raw then Inr (Some (skipped_item p b ''binary_result'', None))
          else if utf8_decode True raw = None then Inr (Some (skipped_item p b ''non_utf8_result'', None))
          else rbind (review_text alpha casefold io src_path is_local p b (digest raw)) (\<lambda>r. Inr (Some r))))"

text \<open>A file of the baseline that the result does not have.\<close>

definition deleted_item :: "workspace_entry \<Rightarrow> plan_item" where
  "deleted_item e = (plan_item (we_path e) Deleted Skipped ''deletion_not_applied'')\<lparr>pi_baseline := we_digest e\<rparr>"

text \<open>The rest of \<open>_build_plan\<close> once the run, its Workspaces and the result tree are known. \<open>revision\<close> is the
  hash of \<open>_plan_revision\<close>.\<close>

definition build_items ::
    "(nat \<Rightarrow> bool) \<Rightarrow> (ustr \<Rightarrow> ustr) \<Rightarrow> (bytes \<Rightarrow> ustr) \<Rightarrow> nat \<Rightarrow> review_io \<Rightarrow> ustr \<Rightarrow> bool \<Rightarrow> workspace_manifest
      \<Rightarrow> file_entry list \<Rightarrow> (plan_item list \<times> (ustr \<times> expected_source) list) collected" where
  "build_items alpha casefold digest limit io src_path is_local baseline tree =
    rbind (traverse (review_entry alpha casefold digest limit io src_path is_local baseline) tree) (\<lambda>found.
      let reviewed = map the (filter (\<lambda>x. x \<noteq> None) found);
          deleted = map deleted_item (filter (\<lambda>e. we_kind e = File_Kind \<and> we_path e \<notin> set (map fe_relative tree))
                      (wm_entries baseline))
      in Inr (sort_key pi_path (map fst reviewed @ deleted),
              concat (map (\<lambda>r. case snd r of None \<Rightarrow> [] | Some x \<Rightarrow> [(pi_path (fst r), x)]) reviewed)))"

definition build_plan ::
    "(nat \<Rightarrow> bool) \<Rightarrow> (ustr \<Rightarrow> ustr) \<Rightarrow> (bytes \<Rightarrow> ustr) \<Rightarrow> (ustr \<Rightarrow> ustr \<Rightarrow> ustr \<Rightarrow> plan_item list \<Rightarrow> ustr) \<Rightarrow> nat
      \<Rightarrow> review_io \<Rightarrow> ustr \<Rightarrow> ustr \<Rightarrow> ustr \<Rightarrow> bool \<Rightarrow> workspace_manifest \<Rightarrow> file_entry list
      \<Rightarrow> (collection_plan \<times> (ustr \<times> expected_source) list) collected" where
  "build_plan alpha casefold digest revision limit io run_id workspace_id src_path is_local baseline tree =
    rbind (build_items alpha casefold digest limit io src_path is_local baseline tree) (\<lambda>(items, snapshots).
      Inr (\<lparr>cp_run = run_id, cp_workspace = workspace_id, cp_source_path = src_path,
            cp_revision = revision run_id workspace_id src_path items, cp_items = items\<rparr>, snapshots))"

section \<open>Applying a plan\<close>

text \<open>The writes apply asks of the Source; \<open>perform\<close> is \<open>_write_existing\<close> or \<open>_write_new\<close> on the backend of the
  Source Workspace, with whatever else happens to it in the meantime.\<close>

datatype source_write = Write_Existing ustr ustr expected_source | Write_New ustr ustr

definition local_write :: "(bytes \<Rightarrow> ustr) \<Rightarrow> nat \<Rightarrow> save_env \<Rightarrow> path \<Rightarrow> source_write \<Rightarrow> fs \<Rightarrow> unit fresult \<times> fs" where
  "local_write digest limit env ws w fs =
    (let ran = (\<lambda>r. (rbind (fst r) (\<lambda>_. Inr ()), snd r)) in
     case w of
       Write_Existing p content x \<Rightarrow> ran (write_text digest limit env ws p content (ex_digest x) (ex_mtime x) fs)
     | Write_New p content \<Rightarrow> ran (write_new_text digest limit env ws p content fs))"

definition apply_conflict :: "file_error \<Rightarrow> bool" where
  "apply_conflict e \<longleftrightarrow> (case e of FileConflictError _ \<Rightarrow> True | FileExistsError \<Rightarrow> True | FileNotFoundError \<Rightarrow> True
     | _ \<Rightarrow> source_unsupported e)"

definition ready_result_content ::
    "(bytes \<Rightarrow> ustr) \<Rightarrow> (file_entry \<Rightarrow> file_stream) \<Rightarrow> file_entry list \<Rightarrow> plan_item \<Rightarrow> ustr collected" where
  "ready_result_content digest reread tree item =
    (let changed = Inl (Collection_Conflict ''result_changed'') in
     case find (\<lambda>e. fe_relative e = pi_path item) tree of
       None \<Rightarrow> changed
     | Some entry \<Rightarrow>
         if fe_is_dir entry \<or> pi_result item = None \<or> pi_result item = Some [] then changed
         else rbind (read_stable_file entry (reread entry)) (\<lambda>raw.
           if Some (digest raw) \<noteq> pi_result item \<or> 0 \<in> set raw then changed
           else (case utf8_decode True raw of None \<Rightarrow> changed | Some content \<Rightarrow> Inr content)))"

definition report :: "plan_item \<Rightarrow> apply_outcome \<Rightarrow> string \<Rightarrow> report_item" where
  "report i out reason = \<lparr>ri_path = pi_path i, ri_change = pi_change i, ri_outcome = out, ri_reason = reason\<rparr>"

definition conflict_or_failed :: "plan_item \<Rightarrow> collection_error \<Rightarrow> report_item" where
  "conflict_or_failed i e = (case e of
     Collection_Conflict _ \<Rightarrow> report i Conflict_Out ''result_changed_during_apply''
   | Backend_Error x \<Rightarrow> if apply_conflict x then report i Conflict_Out ''source_changed_during_apply''
                        else report i Failed_Out ''apply_failed''
   | Collection_Error _ \<Rightarrow> report i Failed_Out ''apply_failed'')"

text \<open>The write a ready item asks for; \<open>None\<close> is a \<^verbatim>\<open>KeyError\<close> or the \<^verbatim>\<open>AssertionError\<close>.\<close>

definition item_write :: "(ustr \<times> expected_source) list \<Rightarrow> plan_item \<Rightarrow> ustr \<Rightarrow> ustr \<Rightarrow> source_write option" where
  "item_write snapshots i relative content =
    (case pi_change i of
       Modified \<Rightarrow> map_option (Write_Existing relative content) (map_of snapshots (pi_path i))
     | Added \<Rightarrow> Some (Write_New relative content)
     | _ \<Rightarrow> None)"

definition apply_item ::
    "(nat \<Rightarrow> bool) \<Rightarrow> (bytes \<Rightarrow> ustr) \<Rightarrow> (file_entry \<Rightarrow> file_stream) \<Rightarrow> ustr \<Rightarrow> file_entry list
      \<Rightarrow> (ustr \<times> expected_source) list \<Rightarrow> (source_write \<Rightarrow> 's \<Rightarrow> unit fresult \<times> 's) \<Rightarrow> plan_item \<Rightarrow> 's
      \<Rightarrow> (report_item \<times> source_write list \<times> 's) collected" where
  "apply_item alpha digest reread src_path tree snapshots perform i s =
    (case pi_status i of
       Already_Result \<Rightarrow> Inr (report i Already_Result_Out (pi_reason i), [], s)
     | Conflict \<Rightarrow> Inr (report i Conflict_Out (pi_reason i), [], s)
     | Skipped \<Rightarrow> Inr (report i Skipped_Out (pi_reason i), [], s)
     | Ready \<Rightarrow>
         rbind (source_relative_path alpha src_path (pi_path i)) (\<lambda>relative.
           case ready_result_content digest reread tree i of
             Inl e \<Rightarrow> Inr (conflict_or_failed i e, [], s)
           | Inr content \<Rightarrow>
               (case item_write snapshots i relative content of
                  None \<Rightarrow> Inr (report i Failed_Out ''apply_failed'', [], s)
                | Some w \<Rightarrow>
                    let r = perform w s in
                    Inr (case fst r of
                           Inl e \<Rightarrow> conflict_or_failed i (Backend_Error e)
                         | Inr _ \<Rightarrow> report i Applied_Out ''applied'', [w], snd r))))"

fun apply_items ::
    "(plan_item \<Rightarrow> 's \<Rightarrow> (report_item \<times> source_write list \<times> 's) collected) \<Rightarrow> plan_item list \<Rightarrow> 's
      \<Rightarrow> (report_item list \<times> source_write list \<times> 's) collected" where
  "apply_items step [] s = Inr ([], [], s)"
| "apply_items step (i # is) s =
     rbind (step i s) (\<lambda>(r, w, s1). rbind (apply_items step is s1) (\<lambda>(rs, ws, s2). Inr (r # rs, w @ ws, s2)))"

definition apply_locked ::
    "(nat \<Rightarrow> bool) \<Rightarrow> (bytes \<Rightarrow> ustr) \<Rightarrow> (file_entry \<Rightarrow> file_stream) \<Rightarrow> (source_write \<Rightarrow> 's \<Rightarrow> unit fresult \<times> 's)
      \<Rightarrow> file_entry list \<Rightarrow> ustr \<Rightarrow> (collection_plan \<times> (ustr \<times> expected_source) list) collected \<Rightarrow> 's
      \<Rightarrow> (report_item list \<times> source_write list \<times> 's) collected" where
  "apply_locked alpha digest reread perform tree revision built s =
    rbind built (\<lambda>(plan, snapshots).
      if revision = [] \<or> revision \<noteq> cp_revision plan then Inl (Collection_Conflict ''plan_revision_mismatch'')
      else if \<not> apply_allowed plan then Inl (Collection_Error ''collection_too_many_changes'')
      else apply_items (apply_item alpha digest reread (cp_source_path plan) tree snapshots perform) (cp_items plan) s)"

end
