(* ===== verification/Result_Properties.thy ===== *)
theory Result_Properties
  imports Result_Plan
begin

text \<open>
  What collecting results promises: the plan is a three-way comparison, only what it marks ready is
  written, and every write names the version it may replace, which is the version the run started
  from. The writes themselves are the guarded ones of \<open>Workspace_Files\<close>.
\<close>

section \<open>Three-way comparison\<close>

text \<open>The three-way comparison of one file, from the digests of the start snapshot, the result and the Source (\<open>None\<close>: no
  such file). The textbook takes no side that did not change; the code reports a change of the Source alone as a conflict
  too, since applying the result would undo it.\<close>

datatype verdict = Take_Result | Nothing_To_Do | Clash

definition merge3 :: "ustr option \<Rightarrow> ustr \<Rightarrow> ustr option \<Rightarrow> verdict" where
  "merge3 base result current =
    (if current = Some result then Nothing_To_Do
     else if current = base then Take_Result
     else Clash)"

definition verdict_status :: "verdict \<Rightarrow> plan_status" where
  "verdict_status v = (case v of Take_Result \<Rightarrow> Ready | Nothing_To_Do \<Rightarrow> Already_Result | Clash \<Rightarrow> Conflict)"

definition source_digest :: "current_source \<Rightarrow> ustr option" where
  "source_digest c = (case c of Source_Text t \<Rightarrow> Some (fs_digest t) | _ \<Rightarrow> None)"

definition readable :: "current_source \<Rightarrow> bool" where
  "readable c \<longleftrightarrow> (case c of Source_Blocked _ \<Rightarrow> False | _ \<Rightarrow> True)"

definition complete_entry :: "workspace_entry option \<Rightarrow> bool" where
  "complete_entry b \<longleftrightarrow> (case b of None \<Rightarrow> True | Some e \<Rightarrow> we_digest e \<noteq> None)"

text \<open>C14: the comparison of a result text with the start snapshot and the Source always answers, and with the verdict of the
  three-way comparison: nothing to do when the Source is the result already; ready when the Source is exactly what the run
  started from, or still absent for a new file whose directory is there; and a conflict otherwise, which covers a change of
  the Source alone, a Source that cannot be read and a missing directory. (An incomplete baseline is refused.)\<close>

theorem plan_is_three_way_merge:
  assumes "complete_entry b"
  shows "\<exists>i. compare_text p b result current (Inr parent) is_local = Inr i \<and> pi_path i = p \<and> pi_result i = Some result
    \<and> pi_status i = (if readable current \<and> (current = Source_Missing \<and> b = None \<longrightarrow> parent)
        then verdict_status (merge3 (baseline_digest b) result (source_digest current)) else Conflict)
    \<and> (pi_status i = Ready \<longrightarrow> pi_change i = (if b = None then Added else Modified))"
proof (cases b)
  case None
  then show ?thesis
    by (cases current)
      (auto simp: compare_text_def plan_item_def with_current_def merge3_def verdict_status_def source_digest_def
        readable_def baseline_digest_def Let_def)
next
  case (Some e)
  with assms obtain d where "we_digest e = Some d" by (auto simp: complete_entry_def)
  with Some show ?thesis
    by (cases current)
      (auto simp: compare_text_def plan_item_def with_current_def merge3_def verdict_status_def source_digest_def
        readable_def baseline_digest_def Let_def)
qed

definition base_entry :: "ustr \<Rightarrow> workspace_entry" where
  "base_entry d = \<lparr>we_path = u ''a'', we_kind = File_Kind, we_size = 1, we_mtime = 1, we_executable = False,
     we_target = None, we_digest = Some d\<rparr>"

definition seen_text :: "ustr \<Rightarrow> current_source" where
  "seen_text d = Source_Text \<lparr>fs_path = [], fs_relative = u ''a'', fs_content = u ''x'', fs_digest = d, fs_mtime = 1\<rparr>"

theorem merge_witness:
  "\<exists>i. compare_text (u ''a'') (Some (base_entry (u ''b''))) (u ''r'') (seen_text (u ''b'')) (Inr True) True = Inr i
    \<and> pi_status i = Ready"
proof -
  have "complete_entry (Some (base_entry (u ''b'')))" by (simp add: complete_entry_def base_entry_def)
  from plan_is_three_way_merge [OF this, of "u ''a''" "u ''r''" "seen_text (u ''b'')" True True]
  show ?thesis
    by (auto simp: readable_def seen_text_def base_entry_def baseline_digest_def source_digest_def merge3_def verdict_status_def)
qed

text \<open>
  A file that only the Source changed is reported as a conflict: the comparison with the Source comes
  before the comparison with the baseline, so the case of a result that equals the baseline is never
  reached.
\<close>

lemma source_only_change_is_a_conflict:
  assumes "b = Some e" and "we_digest e = Some result" and "fs_digest t \<noteq> result"
  shows "\<exists>i. compare_text p b result (Source_Text t) parent is_local = Inr i \<and> pi_status i = Conflict
    \<and> pi_reason i = ''source_changed_since_run''"
  using assms by (auto simp: compare_text_def plan_item_def with_current_def Let_def)

lemma baseline_match_never_reported:
  "compare_text p b result current parent is_local = Inr i \<Longrightarrow> pi_reason i = ''result_matches_baseline'' \<Longrightarrow>
    \<exists>reason. current = Source_Blocked reason"
  by (auto simp: compare_text_def plan_item_def with_current_def Let_def rbind_Inr_iff
      split: current_source.splits option.splits if_splits)

section \<open>Ready items\<close>

text \<open>What a ready item stands for in the review that made it.\<close>

definition justified ::
    "(nat \<Rightarrow> bool) \<Rightarrow> (bytes \<Rightarrow> ustr) \<Rightarrow> review_io \<Rightarrow> ustr \<Rightarrow> workspace_manifest \<Rightarrow> file_entry list
      \<Rightarrow> plan_item \<Rightarrow> expected_source option \<Rightarrow> bool" where
  "justified alpha digest io src_path baseline tree i x \<longleftrightarrow>
    (\<exists>e \<in> set tree. \<exists>raw relative. fe_relative e = pi_path i \<and> \<not> fe_is_dir e
      \<and> read_stable_file e (io_result io e) = Inr raw \<and> pi_result i = Some (digest raw)
      \<and> source_relative_path alpha src_path (pi_path i) = Inr relative
      \<and> (case find (\<lambda>w. we_path w = pi_path i) (wm_entries baseline) of
           None \<Rightarrow> pi_change i = Added \<and> io_before io relative = Inl FileNotFoundError
         | Some w \<Rightarrow> pi_change i = Modified \<and> we_kind w = File_Kind
             \<and> (\<exists>t. io_text io relative = Inr t \<and> we_digest w = Some (fs_digest t) \<and> digest raw \<noteq> fs_digest t
                  \<and> x = Some \<lparr>ex_digest = fs_digest t, ex_mtime = fs_mtime t\<rparr>)))"

lemma read_current_cases:
  "read_current_source before text after = Inr Source_Missing \<Longrightarrow> before = Inl FileNotFoundError"
  "read_current_source before text after = Inr (Source_Text t) \<Longrightarrow> text = Inr t"
  by (auto simp: read_current_source_def rbind_Inr_iff split: sum.splits if_splits prod.splits)

lemma compare_ready:
  assumes "compare_text p b result current parent is_local = Inr i" and "pi_status i = Ready"
  shows "pi_path i = p \<and> pi_result i = Some result \<and>
    (case b of None \<Rightarrow> pi_change i = Added \<and> current = Source_Missing
     | Some w \<Rightarrow> pi_change i = Modified \<and> (\<exists>t. current = Source_Text t \<and> we_digest w = Some (fs_digest t) \<and> result \<noteq> fs_digest t))"
  using assms
  by (auto simp: compare_text_def plan_item_def with_current_def Let_def rbind_Inr_iff
      split: current_source.splits option.splits if_splits)

lemma review_text_ready:
  assumes "review_text alpha casefold io src_path is_local p b result = Inr (i, x)" and "pi_status i = Ready"
  shows "\<exists>relative. pi_path i = p \<and> pi_result i = Some result \<and> source_relative_path alpha src_path p = Inr relative
    \<and> (case b of None \<Rightarrow> pi_change i = Added \<and> io_before io relative = Inl FileNotFoundError
       | Some w \<Rightarrow> pi_change i = Modified \<and> we_kind w = File_Kind
           \<and> (\<exists>t. io_text io relative = Inr t \<and> we_digest w = Some (fs_digest t) \<and> result \<noteq> fs_digest t
                \<and> x = Some \<lparr>ex_digest = fs_digest t, ex_mtime = fs_mtime t\<rparr>))"
proof -
  have kind: "\<not> (case b of None \<Rightarrow> False | Some e \<Rightarrow> we_kind e \<noteq> File_Kind)"
    using assms by (auto simp: review_text_def plan_item_def)
  from assms kind obtain relative current where r: "source_relative_path alpha src_path p = Inr relative"
    and c: "read_current_source (io_before io relative) (io_text io relative) (io_after io relative) = Inr current"
    and i: "compare_text p b result current (addition_parent_exists relative (io_parent io)) is_local = Inr i"
    and x: "x = (case current of Source_Text c \<Rightarrow> Some \<lparr>ex_digest = fs_digest c, ex_mtime = fs_mtime c\<rparr> | _ \<Rightarrow> None)"
    by (auto simp: review_text_def rbind_Inr_iff plan_item_def split: if_splits)
  from compare_ready [OF i assms(2)] show ?thesis
    using r kind c x by (auto split: option.splits dest: read_current_cases)
qed

lemma review_entry_ready:
  assumes "review_entry alpha casefold digest limit io src_path is_local baseline e = Inr (Some (i, x))"
    and "pi_status i = Ready" and "e \<in> set tree"
  shows "justified alpha digest io src_path baseline tree i x \<and> fe_relative e = pi_path i"
proof -
  let ?b = "find (\<lambda>w. we_path w = fe_relative e) (wm_entries baseline)"
  from assms(1,2) obtain raw where "\<not> fe_is_dir e" "read_stable_file e (io_result io e) = Inr raw"
    and r: "review_text alpha casefold io src_path is_local (fe_relative e) ?b (digest raw) = Inr (i, x)"
    by (auto simp: review_entry_def Let_def rbind_Inr_iff plan_item_def skipped_item_def
        split: if_splits sum.splits collection_error.splits file_error.splits)
  with review_text_ready [OF r assms(2)] assms(3) show ?thesis
    unfolding justified_def by (auto intro!: bexI [of _ e] split: option.splits)
qed

lemma compare_text_path: "compare_text p b result current parent is_local = Inr i \<Longrightarrow> pi_path i = p"
  by (auto simp: compare_text_def plan_item_def with_current_def Let_def rbind_Inr_iff
      split: current_source.splits option.splits if_splits)

lemma review_text_path: "review_text alpha casefold io src_path is_local p b result = Inr (i, x) \<Longrightarrow> pi_path i = p"
  by (auto simp: review_text_def plan_item_def rbind_Inr_iff dest: compare_text_path split: if_splits)

lemma review_entry_path:
  assumes "review_entry alpha casefold digest limit io src_path is_local baseline e = Inr (Some (i, x))"
  shows "pi_path i = fe_relative e"
proof -
  have "pi_path (plan_item p c s r) = p" "pi_path (skipped_item p b r) = p" for p c s r b
    by (simp_all add: plan_item_def skipped_item_def)
  then show ?thesis
    using assms by (auto simp: review_entry_def Let_def rbind_Inr_iff dest: review_text_path
        split: if_splits sum.splits collection_error.splits file_error.splits)
qed

lemma find_reviewed:
  assumes "distinct (map fe_relative tree)" and "e \<in> set tree"
    and "\<And>e. e \<in> set tree \<Longrightarrow> pi_path (fst (f e)) = fe_relative e" and "snd (f e) = Some x"
  shows "map_of (concat (map (\<lambda>r. case snd r of None \<Rightarrow> [] | Some x \<Rightarrow> [(pi_path (fst r), x)]) (map f tree))) (fe_relative e) = Some x"
  using assms
proof (induction tree)
  case (Cons e' tree)
  have rest: "map_of (concat (map (\<lambda>r. case snd r of None \<Rightarrow> [] | Some x \<Rightarrow> [(pi_path (fst r), x)]) (map f tree))) (fe_relative e)
      = Some x" if "e \<noteq> e'"
    using Cons that by auto
  show ?case
  proof (cases "e = e'")
    case True
    with Cons.prems show ?thesis by simp
  next
    case False
    with Cons.prems have "fe_relative e \<noteq> fe_relative e'" by (auto simp: image_iff)
    with rest [OF False] Cons.prems(3) [of e'] show ?thesis by (simp split: option.splits)
  qed
qed simp

lemma build_items_ready:
  assumes "build_items alpha casefold digest limit io src_path is_local baseline tree = Inr (items, snapshots)"
    and "distinct (map fe_relative tree)" and "i \<in> set items" and "pi_status i = Ready"
  shows "\<exists>x. justified alpha digest io src_path baseline tree i x \<and> (x \<noteq> None \<longrightarrow> map_of snapshots (pi_path i) = x)"
proof -
  let ?review = "review_entry alpha casefold digest limit io src_path is_local baseline"
  let ?pairs = "\<lambda>rs. concat (map (\<lambda>r. case snd r of None \<Rightarrow> [] | Some x \<Rightarrow> [(pi_path (fst r), x)]) rs)"
  from assms(1) obtain found where found: "traverse ?review tree = Inr found"
    and listed: "\<exists>gone. items = sort_key pi_path (map fst (map the (filter (\<lambda>x. x \<noteq> None) found)) @ map deleted_item gone)"
    and snaps: "snapshots = ?pairs (map the (filter (\<lambda>x. x \<noteq> None) found))"
    unfolding build_items_def rbind_Inr_iff Let_def by blast
  from listed have items: "set items \<subseteq> fst ` set (map the (filter (\<lambda>x. x \<noteq> None) found)) \<union> range deleted_item"
    unfolding set_map [symmetric] by (auto simp only: set_sort set_append set_map rangeI)
  define f where "f = (\<lambda>e. the (projr (?review e)))"
  define kept where "kept = filter (\<lambda>e. projr (?review e) \<noteq> None) tree"
  have map: "map ?review tree = map Inr found" using found by (rule traverse_Inr_map)
  have each: "?review e = Inr (Some (f e))" if "e \<in> set kept" for e
  proof -
    from that have "?review e \<in> set (map ?review tree)" by (simp add: kept_def)
    with map have "\<exists>r. ?review e = Inr r" by auto
    with that show ?thesis by (auto simp: kept_def f_def)
  qed
  have "found = map (\<lambda>e. projr (?review e)) tree"
    using arg_cong [OF map, of "map projr"] by (simp add: comp_def)
  then have reviewed: "map the (filter (\<lambda>x. x \<noteq> None) found) = map f kept"
    by (simp add: filter_map comp_def f_def kept_def)
  have "pi_status (deleted_item e) = Skipped" for e by (simp add: deleted_item_def plan_item_def)
  moreover have "set items \<subseteq> fst ` set (map f kept) \<union> range deleted_item" using items by (simp only: reviewed)
  ultimately obtain e where e: "e \<in> set kept" and i: "i = fst (f e)" using assms(3,4) by fastforce
  have r: "?review e = Inr (Some (i, snd (f e)))" using each [OF e] i by simp
  have tree: "e \<in> set tree" using e by (simp add: kept_def)
  have j: "justified alpha digest io src_path baseline tree i (snd (f e)) \<and> fe_relative e = pi_path i"
    by (rule review_entry_ready [OF r assms(4) tree])
  have paths: "pi_path (fst (f e)) = fe_relative e" if "e \<in> set kept" for e
    using each [OF that] review_entry_path [of alpha casefold digest limit io src_path is_local baseline e "fst (f e)" "snd (f e)"]
    by simp
  have "distinct (map fe_relative kept)" unfolding kept_def using assms(2) by (rule distinct_map_filter)
  then have "snd (f e) = Some x \<Longrightarrow> map_of snapshots (fe_relative e) = Some x" for x
    unfolding snaps reviewed by (rule find_reviewed [OF _ e paths])
  with j show ?thesis by (intro exI [of _ "snd (f e)"]) auto
qed

section \<open>Applying\<close>

lemma apply_item_writes:
  assumes "apply_item alpha digest reread src_path tree snapshots perform i s = Inr (r, ws, s')"
  shows "ri_path r = pi_path i \<and> (\<forall>w \<in> set ws. pi_status i = Ready \<and>
      (\<exists>relative content. source_relative_path alpha src_path (pi_path i) = Inr relative
        \<and> ready_result_content digest reread tree i = Inr content \<and> item_write snapshots i relative content = Some w))"
proof -
  have "ri_path (report i out reason) = pi_path i" "ri_path (conflict_or_failed i e) = pi_path i" for out reason e
    by (auto simp: report_def conflict_or_failed_def split: collection_error.splits)
  note paths = this
  show ?thesis
  proof (cases "pi_status i = Ready")
    case False
    with paths assms show ?thesis by (cases "pi_status i") (auto simp: apply_item_def)
  next
    case ready: True
    with assms obtain relative where rel: "source_relative_path alpha src_path (pi_path i) = Inr relative"
      by (auto simp: apply_item_def rbind_Inr_iff)
    show ?thesis
    proof (cases "ready_result_content digest reread tree i")
      case Inl
      with ready rel assms paths show ?thesis by (auto simp: apply_item_def)
    next
      case (Inr content)
      with ready rel assms paths show ?thesis
        by (cases "item_write snapshots i relative content") (auto simp: apply_item_def Let_def split: sum.splits)
    qed
  qed
qed

lemma apply_items_each:
  assumes "apply_items step is s = Inr (rs, ws, s')"
    and "\<And>i s r ws s'. i \<in> set is \<Longrightarrow> step i s = Inr (r, ws, s') \<Longrightarrow> ri_path r = pi_path i \<and> (\<forall>w \<in> set ws. P w)"
  shows "map ri_path rs = map pi_path is \<and> (\<forall>w \<in> set ws. P w)"
  using assms
proof (induction "is" arbitrary: s rs ws)
  case (Cons i "is")
  from Cons.prems(1) obtain r w s1 rs' ws' where step: "step i s = Inr (r, w, s1)"
    and rest: "apply_items step is s1 = Inr (rs', ws', s')" and eq: "rs = r # rs'" "ws = w @ ws'"
    by (auto simp: rbind_Inr_iff)
  have "map ri_path rs' = map pi_path is \<and> (\<forall>w \<in> set ws'. P w)"
  proof (rule Cons.IH [OF rest])
    fix j s r ws s' assume "j \<in> set is" "step j s = Inr (r, ws, s')"
    with Cons.prems(2) [of j s r ws s'] show "ri_path r = pi_path j \<and> (\<forall>w \<in> set ws. P w)" by simp
  qed
  with Cons.prems(2) [OF _ step] eq show ?case by auto
qed simp

lemma ready_content:
  assumes "ready_result_content digest reread tree i = Inr content"
  shows "pi_result i = Some (digest (utf8_bytes content))"
  using assms by (auto simp: ready_result_content_def Let_def rbind_Inr_iff utf8_decode_iff
      split: option.splits if_splits)

text \<open>What the review established about a write: its text is the reviewed text of a result file; an
  existing file is replaced only in the version the run started from, a new one was missing.\<close>

definition reviewed_write ::
    "(nat \<Rightarrow> bool) \<Rightarrow> (bytes \<Rightarrow> ustr) \<Rightarrow> review_io \<Rightarrow> ustr \<Rightarrow> workspace_manifest \<Rightarrow> file_entry list \<Rightarrow> source_write \<Rightarrow> bool" where
  "reviewed_write alpha digest io src_path baseline tree w \<longleftrightarrow>
    (let reviewed = (\<lambda>p content. \<exists>e \<in> set tree. fe_relative e = p \<and> \<not> fe_is_dir e
            \<and> (\<exists>raw. read_stable_file e (io_result io e) = Inr raw \<and> digest raw = digest (utf8_bytes content)))
     in case w of
          Write_Existing relative content x \<Rightarrow>
            (\<exists>b \<in> set (wm_entries baseline). we_kind b = File_Kind \<and> we_digest b = Some (ex_digest x)
               \<and> source_relative_path alpha src_path (we_path b) = Inr relative
               \<and> (\<exists>t. io_text io relative = Inr t \<and> fs_digest t = ex_digest x \<and> fs_mtime t = ex_mtime x)
               \<and> reviewed (we_path b) content \<and> digest (utf8_bytes content) \<noteq> ex_digest x)
        | Write_New relative content \<Rightarrow>
            (\<exists>p. p \<notin> we_path ` set (wm_entries baseline) \<and> source_relative_path alpha src_path p = Inr relative
               \<and> io_before io relative = Inl FileNotFoundError \<and> reviewed p content))"

lemma justified_write:
  assumes "justified alpha digest io src_path baseline tree i x" and "x \<noteq> None \<Longrightarrow> map_of snapshots (pi_path i) = x"
    and "source_relative_path alpha src_path (pi_path i) = Inr relative"
    and "pi_result i = Some (digest (utf8_bytes content))" and "item_write snapshots i relative content = Some w"
  shows "reviewed_write alpha digest io src_path baseline tree w"
proof (cases "find (\<lambda>w. we_path w = pi_path i) (wm_entries baseline)")
  case None
  then have "pi_path i \<notin> we_path ` set (wm_entries baseline)" by (auto simp: find_None_iff)
  moreover from None assms obtain e raw where "w = Write_New relative content" "io_before io relative = Inl FileNotFoundError"
    and e: "e \<in> set tree" "fe_relative e = pi_path i \<and> \<not> fe_is_dir e
      \<and> (\<exists>raw. read_stable_file e (io_result io e) = Inr raw \<and> digest raw = digest (utf8_bytes content))"
    by (auto simp: justified_def item_write_def)
  moreover have "\<exists>e \<in> set tree. fe_relative e = pi_path i \<and> \<not> fe_is_dir e
      \<and> (\<exists>raw. read_stable_file e (io_result io e) = Inr raw \<and> digest raw = digest (utf8_bytes content))"
    using e by blast
  ultimately show ?thesis
    using assms(3) unfolding reviewed_write_def Let_def by (simp only: source_write.case) blast
next
  case (Some b)
  then have b: "b \<in> set (wm_entries baseline)" "we_path b = pi_path i" by (auto simp: find_Some_iff)
  from Some assms(1,3) obtain t e raw where t: "pi_change i = Modified" "we_kind b = File_Kind" "io_text io relative = Inr t"
      "we_digest b = Some (fs_digest t)" "digest raw \<noteq> fs_digest t" "x = Some \<lparr>ex_digest = fs_digest t, ex_mtime = fs_mtime t\<rparr>"
    and e: "e \<in> set tree" "fe_relative e = pi_path i" "\<not> fe_is_dir e" "read_stable_file e (io_result io e) = Inr raw"
      "pi_result i = Some (digest raw)"
    by (auto simp: justified_def)
  with assms(2,5) have w: "w = Write_Existing relative content \<lparr>ex_digest = fs_digest t, ex_mtime = fs_mtime t\<rparr>"
    by (auto simp: item_write_def)
  have d: "digest raw = digest (utf8_bytes content)" using e(5) assms(4) by simp
  show ?thesis
    unfolding reviewed_write_def Let_def w source_write.case
    using b t e d assms(3) by (intro bexI [OF _ b(1)]) auto
qed

text \<open>C15: applying a reviewed plan writes only what the review established. Each item of the plan is
  reported once, in order; a plan whose revision is not the one reviewed, or that is too long to have been
  shown, is refused; and every write carries text whose digest is the reviewed one, either for a file whose
  Source still was the version of the start snapshot, naming that version, or for one that neither the
  snapshot nor the Source had. Deleted results are not written.\<close>

theorem apply_writes_only_reviewed_versions:
  assumes "build_plan alpha casefold digest revision limit io run_id workspace_id src_path is_local baseline tree = Inr (plan, snapshots)"
    and "distinct (map fe_relative tree)"
    and "apply_locked alpha digest reread perform tree asked (Inr (plan, snapshots)) s = Inr (reports, ws, s')"
  shows "asked = revision run_id workspace_id src_path (cp_items plan) \<and> changed_item_count plan \<le> 500
    \<and> map ri_path reports = map pi_path (cp_items plan)
    \<and> (\<forall>w \<in> set ws. reviewed_write alpha digest io src_path baseline tree w)"
proof -
  from assms(1) have items: "build_items alpha casefold digest limit io src_path is_local baseline tree = Inr (cp_items plan, snapshots)"
    and plan: "cp_revision plan = revision run_id workspace_id src_path (cp_items plan)" "cp_source_path plan = src_path"
    by (auto simp: build_plan_def rbind_Inr_iff)
  from assms(3) have asked: "asked = cp_revision plan" "changed_item_count plan \<le> 500"
    and run: "apply_items (apply_item alpha digest reread src_path tree snapshots perform) (cp_items plan) s = Inr (reports, ws, s')"
    by (auto simp: apply_locked_def apply_allowed_def display_limit_def plan(2) split: if_splits)
  have "map ri_path reports = map pi_path (cp_items plan)
      \<and> (\<forall>w \<in> set ws. reviewed_write alpha digest io src_path baseline tree w)"
  proof (rule apply_items_each [OF run])
    fix i s r ws s'
    assume i: "i \<in> set (cp_items plan)"
      and step: "apply_item alpha digest reread src_path tree snapshots perform i s = Inr (r, ws, s')"
    show "ri_path r = pi_path i \<and> (\<forall>w \<in> set ws. reviewed_write alpha digest io src_path baseline tree w)"
      using apply_item_writes [OF step] build_items_ready [OF items assms(2) i] justified_write ready_content by metis
  qed
  with asked plan(1) show ?thesis by simp
qed

definition one_result :: file_entry where
  "one_result = \<lparr>fe_name = u ''a'', fe_relative = u ''a'', fe_is_dir = False, fe_size = 1, fe_mtime = 5\<rparr>"

definition one_stream :: file_stream where
  "one_stream = \<lparr>st_before = Inr one_result, st_chunks = [Some [114]], st_end = Inr (), st_after = Inr one_result\<rparr>"

definition one_source :: file_entry where
  "one_source = one_result\<lparr>fe_mtime := 1\<rparr>"

definition one_io :: review_io where
  "one_io = \<lparr>io_result = (\<lambda>_. one_stream), io_before = (\<lambda>_. Inr one_source),
     io_text = (\<lambda>_. Inr \<lparr>fs_path = [], fs_relative = u ''a'', fs_content = u ''b'', fs_digest = u ''b'', fs_mtime = 1\<rparr>),
     io_after = (\<lambda>_. Inr one_source), io_parent = (\<lambda>_. Inl FileNotFoundError)\<rparr>"

definition one_baseline :: workspace_manifest where
  "one_baseline = \<lparr>wm_entries = [base_entry (u ''b'')], wm_total = 1, wm_excluded = []\<rparr>"

definition one_item :: plan_item where
  "one_item = \<lparr>pi_path = u ''a'', pi_change = Modified, pi_status = Ready, pi_reason = ''source_unchanged_since_run'',
     pi_baseline = Some (u ''b''), pi_result = Some [114], pi_current = Some (u ''b''), pi_mtime = Some 1\<rparr>"

lemma one_fields: "pi_path one_item = u ''a''" "pi_change one_item = Modified" "pi_status one_item = Ready"
  by (simp_all add: one_item_def)

lemma one_raw: "read_stable_file one_result one_stream = Inr [114]"
  by (simp add: read_stable_file_def one_stream_def one_result_def stat_same_def same_file_entry_def)

lemma one_decoded: "utf8_decode True [114] = Some [114]"
  by (simp add: utf8_decode_iff scalar_def is_surrogate_def utf8_char_def del: utf8_decode.simps)

lemma one_plan:
  "build_plan (\<lambda>_. False) id id (\<lambda>_ _ _ _. u ''v'') 100 one_io (u ''run'') (u ''w'') dot True one_baseline [one_result]
    = Inr (\<lparr>cp_run = u ''run'', cp_workspace = u ''w'', cp_source_path = dot, cp_revision = u ''v'', cp_items = [one_item]\<rparr>,
           [(u ''a'', \<lparr>ex_digest = u ''b'', ex_mtime = 1\<rparr>)])"
proof -
  have split: "split_on slash (u ''a'') = [u ''a'']" by (simp add: u_def slash_def)
  have "utf8_bytes (u ''b'') = [98]" by (simp add: u_def utf8_char_def)
  then have current: "read_current_source (io_before one_io (u ''a'')) (io_text one_io (u ''a'')) (io_after one_io (u ''a''))
      = Inr (Source_Text \<lparr>fs_path = [], fs_relative = u ''a'', fs_content = u ''b'', fs_digest = u ''b'', fs_mtime = 1\<rparr>)"
    by (simp add: read_current_source_def one_io_def one_source_def one_result_def)
  have differ: "u ''b'' \<noteq> [114]" by (simp add: u_def)
  have "review_text (\<lambda>_. False) id one_io dot True (u ''a'') (Some (base_entry (u ''b''))) [114]
      = Inr (one_item, Some \<lparr>ex_digest = u ''b'', ex_mtime = 1\<rparr>)"
    using differ by (simp add: review_text_def current source_relative_path_def base_entry_def compare_text_def Let_def plan_item_def
        with_current_def baseline_digest_def one_item_def)
  moreover have "io_result one_io one_result = one_stream" by (simp add: one_io_def)
  moreover have "fe_relative one_result = u ''a''" "\<not> fe_is_dir one_result" "fe_size one_result = 1"
    by (simp_all add: one_result_def)
  moreover have "find (\<lambda>x. we_path x = u ''a'') (wm_entries one_baseline) = Some (base_entry (u ''b''))"
    by (simp add: one_baseline_def base_entry_def)
  moreover have "\<not> is_excluded_result_path (u ''a'') (wm_excluded one_baseline)"
    by (simp add: is_excluded_result_path_def split termroom_dir_def one_baseline_def)
  ultimately have "review_entry (\<lambda>_. False) id id 100 one_io dot True one_baseline one_result
      = Inr (Some (one_item, Some \<lparr>ex_digest = u ''b'', ex_mtime = 1\<rparr>))"
    by (simp add: review_entry_def Let_def one_raw one_decoded del: utf8_decode.simps)
  then show ?thesis
    by (simp add: build_plan_def build_items_def Let_def) (simp add: one_baseline_def base_entry_def one_result_def one_item_def)
qed

theorem apply_writes_witness:
  "\<exists>reports ws s'. apply_locked (\<lambda>_. False) id (\<lambda>_. one_stream) (\<lambda>w n. (Inr (), Suc n)) [one_result] (u ''v'')
       (build_plan (\<lambda>_. False) id id (\<lambda>_ _ _ _. u ''v'') 100 one_io (u ''run'') (u ''w'') dot True one_baseline [one_result]) 0
      = Inr (reports, ws, s') \<and> ws \<noteq> [] \<and> map ri_path reports = [u ''a'']
    \<and> list_all (reviewed_write (\<lambda>_. False) id one_io dot one_baseline [one_result]) ws"
proof -
  let ?plan = "\<lparr>cp_run = u ''run'', cp_workspace = u ''w'', cp_source_path = dot, cp_revision = u ''v'', cp_items = [one_item]\<rparr>"
  let ?snapshots = "[(u ''a'', \<lparr>ex_digest = u ''b'', ex_mtime = 1\<rparr>)]"
  have "ready_result_content id (\<lambda>_. one_stream) [one_result] one_item = Inr [114]"
    by (simp add: ready_result_content_def Let_def one_raw one_decoded del: utf8_decode.simps) (simp add: one_item_def one_result_def)
  then have "apply_item (\<lambda>_. False) id (\<lambda>_. one_stream) dot [one_result] ?snapshots (\<lambda>w n. (Inr (), Suc n)) one_item 0
      = Inr (report one_item Applied_Out ''applied'', [Write_Existing (u ''a'') [114] \<lparr>ex_digest = u ''b'', ex_mtime = 1\<rparr>], 1)"
    by (simp add: apply_item_def source_relative_path_def one_fields)
      (simp add: item_write_def one_fields Let_def)
  then obtain reports ws s' where run: "apply_locked (\<lambda>_. False) id (\<lambda>_. one_stream) (\<lambda>w n. (Inr (), Suc n)) [one_result] (u ''v'')
      (Inr (?plan, ?snapshots)) 0 = Inr (reports, ws, s')" and ws: "ws \<noteq> []"
    by (auto simp: apply_locked_def apply_allowed_def changed_item_count_def is_changed_def display_limit_def)
      (simp_all add: one_item_def)
  have "distinct (map fe_relative [one_result])" by simp
  from apply_writes_only_reviewed_versions [OF one_plan this run] run ws show ?thesis
    by (auto simp: one_plan one_item_def list_all_iff)
qed

end
