(* ===== verification/Archive_Safety.thy ===== *)
theory Archive_Safety
  imports Source_Rules Workspace_Files "HOL-Library.Word"
begin

text \<open>
  ZIP uploads (\<^verbatim>\<open>termroom/archive_safety.py\<close>): member names, the checks of the central directory, the full
  inflation with its limits, sizes and checksums, and the extraction of a validated archive. An
  \<open>archive\<close> is what \<^verbatim>\<open>zipfile.ZipFile\<close> shows of the spooled file: its size, its first bytes, its
  directory and the chunks each member reads. \<open>casefold\<close> is \<^verbatim>\<open>str.casefold\<close>.
\<close>

section \<open>Data\<close>

record archive_limits =
  al_upload :: int
  al_entries :: int
  al_single :: int
  al_total :: int
  al_path :: int
  al_chunk :: int

definition limits_ok :: "archive_limits \<Rightarrow> bool" where
  "limits_ok l \<longleftrightarrow> 0 < al_upload l \<and> 0 < al_entries l \<and> 0 < al_single l \<and> 0 < al_total l \<and> 0 < al_path l \<and> 0 < al_chunk l"

definition default_archive_limits :: archive_limits where
  "default_archive_limits = \<lparr>al_upload = 2 * 1024 ^ 3, al_entries = 100000, al_single = 2 * 1024 ^ 3,
     al_total = 8 * 1024 ^ 3, al_path = 4096, al_chunk = 1024 * 1024\<rparr>"

datatype zip_kind = Zip_File | Zip_Directory

record zip_entry =
  ze_path :: ustr
  ze_kind :: zip_kind
  ze_size :: int
  ze_compressed :: int
  ze_crc :: nat
  ze_executable :: bool
  ze_name :: ustr

record zip_manifest =
  zm_entries :: "zip_entry list"
  zm_total :: int
  zm_cwd :: ustr
  zm_size :: int

text \<open>\<^verbatim>\<open>ZipInfo\<close>, and the exceptions \<^verbatim>\<open>zipfile\<close> and \<^verbatim>\<open>zlib\<close> raise on a bad archive.\<close>

record zip_info =
  zi_name :: ustr
  zi_flags :: nat
  zi_attr :: nat
  zi_extra :: bytes
  zi_size :: int
  zi_compressed :: int
  zi_crc :: nat

datatype zip_exception = EOF_Error | Not_Implemented | Runtime_Error | Bad_Zip ustr | Zlib_Error | OS_Error

datatype archive_error = Unsafe string | Uncaught zip_exception

type_synonym 'a archive_result = "archive_error + 'a"

record zip_archive =
  za_size :: nat
  za_magic :: bytes
  za_infos :: "zip_exception + zip_info list"
  za_data :: "zip_info \<Rightarrow> bytes list \<times> zip_exception option"

section \<open>Names\<close>

definition validate_zip_filename :: "(ustr \<Rightarrow> ustr) \<Rightarrow> ustr \<Rightarrow> ustr archive_result" where
  "validate_zip_filename casefold filename =
    (if filename = [] \<or> contains_control filename then Inl (Unsafe ''zip_filename'')
     else if \<not> ends_with (u ''.zip'') (casefold filename) then Inl (Unsafe ''zip_extension'')
     else Inr filename)"

definition ascii_letter_code :: "nat \<Rightarrow> bool" where
  "ascii_letter_code c \<longleftrightarrow> (65 \<le> c \<and> c \<le> 90) \<or> (97 \<le> c \<and> c \<le> 122)"

definition normalize_zip_member_path :: "ustr \<Rightarrow> ustr archive_result" where
  "normalize_zip_member_path raw =
    (if raw = [] then Inl (Unsafe ''zip_path'')
     else if 0 \<in> set raw \<or> contains_control raw then Inl (Unsafe ''zip_path_control'')
     else if backslash \<in> set raw then Inl (Unsafe ''zip_path_backslash'')
     else if starts_with [slash] raw \<or> drive_letter ascii_letter_code raw then Inl (Unsafe ''zip_path_absolute'')
     else
     let parts = filter (\<lambda>p. p \<noteq> [] \<and> p \<noteq> dot) (split_on slash raw) in
     if dotdot \<in> set parts then Inl (Unsafe ''zip_path_traversal'')
     else if parts = [] then Inl (Unsafe ''zip_path'')
     else if termroom_dir \<in> set parts then Inl (Unsafe ''zip_path_metadata'')
     else
     let normalized = join [slash] parts in
     if utf8_encode normalized = None then Inl (Unsafe ''zip_path_encoding'') else Inr normalized)"

section \<open>One directory entry\<close>

definition zip_magic :: "bytes list" where
  "zip_magic = [[80, 75, 3, 4], [80, 75, 5, 6], [80, 75, 7, 8]]"

definition check_magic :: "zip_archive \<Rightarrow> unit archive_result" where
  "check_magic a = (if za_magic a \<in> set zip_magic then Inr () else Inl (Unsafe ''zip_magic''))"

definition little_endian :: "bytes \<Rightarrow> nat" where
  "little_endian bs = foldr (\<lambda>b n. b + 256 * n) bs 0"

text \<open>The extra fields in order, and whether the rest is malformed.\<close>

function iter_extra_fields :: "bytes \<Rightarrow> (nat \<times> bytes) list \<times> bool" where
  "iter_extra_fields extra =
    (if extra = [] then ([], False)
     else if length extra < 4 then ([], True)
     else
     let header = little_endian (take 2 extra);
         size = little_endian (take 2 (drop 2 extra));
         rest = drop 4 extra in
     if size > length rest then ([], True)
     else (let (fields, bad) = iter_extra_fields (drop size rest) in ((header, take size rest) # fields, bad)))"
  by pat_completeness auto

termination by (relation "measure length") auto

definition file_type :: "nat \<Rightarrow> nat" where
  "file_type mode = (mode div 4096) mod 16 * 4096"

definition S_IFREG :: nat where "S_IFREG = 32768"
definition S_IFDIR :: nat where "S_IFDIR = 16384"

definition check_extra_field :: "nat \<times> bytes \<Rightarrow> unit \<Rightarrow> unit archive_result" where
  "check_extra_field f _ =
    (let (header, payload) = f in
     if header = 0x756E \<and> length payload < 6 then Inl (Unsafe ''zip_extra'')
     else if header = 0x756E \<and> file_type (little_endian (take 2 (drop 4 payload))) \<notin> {0, S_IFREG, S_IFDIR}
     then Inl (Unsafe ''zip_special_entry'')
     else if header = 0x000D \<and> length payload > 12 then Inl (Unsafe ''zip_special_entry'')
     else Inr ())"

definition reject_link_extra_fields :: "zip_info \<Rightarrow> unit archive_result" where
  "reject_link_extra_fields info =
    (let (fields, bad) = iter_extra_fields (zi_extra info) in
     rbind (each check_extra_field fields ()) (\<lambda>_. if bad then Inl (Unsafe ''zip_extra'') else Inr ()))"

definition entry_from_info :: "zip_info \<Rightarrow> archive_limits \<Rightarrow> zip_entry archive_result" where
  "entry_from_info info limits =
    (case utf8_encode (zi_name info) of
       None \<Rightarrow> Inl (Unsafe ''zip_path_encoding'')
     | Some raw_bytes \<Rightarrow>
       if int (length raw_bytes) > al_path limits then Inl (Unsafe ''zip_path_limit'')
       else rbind (normalize_zip_member_path (zi_name info)) (\<lambda>p.
       if int (length (utf8_bytes p)) > al_path limits then Inl (Unsafe ''zip_path_limit'')
       else if odd (zi_flags info) then Inl (Unsafe ''zip_encrypted'')
       else
       let unix_mode = zi_attr info div 65536 mod 65536;
           ft = file_type unix_mode;
           slash_directory = ends_with [slash] (zi_name info) in
       if ft \<notin> {0, S_IFREG, S_IFDIR} then Inl (Unsafe ''zip_special_entry'')
       else if (ft = S_IFDIR) \<noteq> slash_directory \<and> ft \<noteq> 0 then Inl (Unsafe ''zip_type_mismatch'')
       else rbind (reject_link_extra_fields info) (\<lambda>_.
       let kind = (if slash_directory then Zip_Directory else Zip_File) in
       if kind = Zip_Directory \<and> zi_size info \<noteq> 0 then Inl (Unsafe ''zip_type_mismatch'')
       else if kind = Zip_File \<and> zi_size info > al_single limits then Inl (Unsafe ''zip_single_file_limit'')
       else if zi_size info < 0 \<or> zi_compressed info < 0 then Inl (Unsafe ''zip_invalid'')
       else Inr \<lparr>ze_path = p, ze_kind = kind, ze_size = (if kind = Zip_File then zi_size info else 0),
              ze_compressed = zi_compressed info, ze_crc = zi_crc info mod 2 ^ 32,
              ze_executable = (kind = Zip_File \<and> any_execute_bit unix_mode), ze_name = zi_name info\<rparr>)))"

section \<open>The directory\<close>

text \<open>An entry below a file that is already there, or a file above an entry that is already there.\<close>

definition zip_conflict :: "zip_entry list \<Rightarrow> zip_entry \<Rightarrow> bool" where
  "zip_conflict by_path e \<longleftrightarrow>
    list_ex (\<lambda>a. list_ex (\<lambda>x. ze_path x = a \<and> ze_kind x \<noteq> Zip_Directory) by_path) (ancestors (ze_path e))
    \<or> (ze_kind e \<noteq> Zip_Directory \<and> list_ex (\<lambda>x. starts_with (ze_path e @ [slash]) (ze_path x)) by_path)"

definition add_zip_entry :: "archive_limits \<Rightarrow> zip_entry \<Rightarrow> zip_entry list \<times> int \<Rightarrow> (zip_entry list \<times> int) archive_result" where
  "add_zip_entry limits e s =
    (let (by_path, so_far) = s in
     if ze_path e \<in> set (map ze_path by_path) then Inl (Unsafe ''zip_duplicate_path'')
     else if zip_conflict by_path e then Inl (Unsafe ''zip_path_conflict'')
     else if so_far + ze_size e > al_total limits then Inl (Unsafe ''zip_total_limit'')
     else Inr (by_path @ [e], so_far + ze_size e))"

definition structure_step ::
    "archive_limits \<Rightarrow> zip_info \<Rightarrow> (zip_info \<times> zip_entry) list \<times> int \<Rightarrow> ((zip_info \<times> zip_entry) list \<times> int) archive_result" where
  "structure_step limits info s =
    (case s of (pairs, so_far) \<Rightarrow> rbind (entry_from_info info limits) (\<lambda>e.
       rbind (add_zip_entry limits e (map snd pairs, so_far)) (\<lambda>(_, so_far'). Inr (pairs @ [(info, e)], so_far'))))"

definition validate_structure ::
    "zip_info list \<Rightarrow> archive_limits \<Rightarrow> ((zip_info \<times> zip_entry) list \<times> int) archive_result" where
  "validate_structure infos limits =
    (if int (length infos) > al_entries limits then Inl (Unsafe ''zip_entry_limit'')
     else each (structure_step limits) infos ([], 0))"

section \<open>Member data\<close>

text \<open>\<^verbatim>\<open>zlib.crc32(data, value)\<close>: the reflected polynomial 0xEDB88320, bit by bit.\<close>

definition crc_bit :: "32 word \<Rightarrow> 32 word" where
  "crc_bit c = (if bit c 0 then xor (drop_bit 1 c) 0xEDB88320 else drop_bit 1 c)"

definition crc_byte :: "nat \<Rightarrow> 32 word \<Rightarrow> 32 word" where
  "crc_byte b c = (crc_bit ^^ 8) (xor c (of_nat b))"

definition crc32 :: "bytes \<Rightarrow> 32 word \<Rightarrow> 32 word" where
  "crc32 bs c = not (fold crc_byte bs (not c))"

lemma crc32_append: "crc32 (a @ b) c = crc32 b (crc32 a c)"
  by (simp add: crc32_def)

text \<open>\<^verbatim>\<open>str(exc).upper()\<close> contains CRC: only the ASCII letters have these upper cases.\<close>

definition ascii_upper :: "ustr \<Rightarrow> ustr" where
  "ascii_upper = map (\<lambda>c. if 97 \<le> c \<and> c \<le> 122 then c - 32 else c)"

definition zip_read_error :: "zip_exception \<Rightarrow> archive_error" where
  "zip_read_error x = (case x of
     Bad_Zip m \<Rightarrow> Unsafe (if contains (u ''CRC'') (ascii_upper m) then ''zip_crc'' else ''zip_invalid'')
   | _ \<Rightarrow> Unsafe ''zip_invalid'')"

text \<open>The \<^verbatim>\<open>while\<close> loop over \<open>member.read\<close>: the chunks yielded, and the size and checksum at the end.\<close>

fun inflate ::
    "archive_limits \<Rightarrow> int \<Rightarrow> int \<Rightarrow> 32 word \<Rightarrow> bytes list \<Rightarrow> zip_exception option
      \<Rightarrow> bytes list \<times> (int \<times> 32 word) archive_result" where
  "inflate limits before actual crc [] ending =
    ([], case ending of None \<Rightarrow> Inr (actual, crc)
         | Some x \<Rightarrow> Inl (if x = OS_Error then Uncaught x else zip_read_error x))"
| "inflate limits before actual crc (c # cs) ending =
    (if c = [] then ([], Inr (actual, crc))
     else
     let actual' = actual + int (length c) in
     if actual' > al_single limits then ([], Inl (Unsafe ''zip_single_file_limit''))
     else if before + actual' > al_total limits then ([], Inl (Unsafe ''zip_total_limit''))
     else (let (out, r) = inflate limits before actual' (crc32 c crc) cs ending in (c # out, r)))"

text \<open>The chunks the generator yields, and how it ends.\<close>

definition iter_info_chunks ::
    "zip_archive \<Rightarrow> zip_info \<Rightarrow> zip_entry \<Rightarrow> archive_limits \<Rightarrow> int \<Rightarrow> bytes list \<times> unit archive_result" where
  "iter_info_chunks a info e limits before =
    (let (cs, ending) = za_data a info; (out, r) = inflate limits before 0 0 cs ending in
     (out, rbind r (\<lambda>(actual, crc).
       if actual \<noteq> ze_size e then Inl (Unsafe ''zip_size_mismatch'')
       else if unat crc \<noteq> ze_crc e then Inl (Unsafe ''zip_crc'')
       else Inr ())))"

section \<open>Validation\<close>

definition cwd_rel :: "zip_entry list \<Rightarrow> ustr" where
  "cwd_rel entries =
    (let tops = remdups (map (\<lambda>e. hd (split_on slash (ze_path e))) entries) in
     case tops of
       [first] \<Rightarrow>
         if list_ex (\<lambda>e. (ze_path e = first \<and> ze_kind e = Zip_Directory) \<or> starts_with (first @ [slash]) (ze_path e)) entries
         then first else dot
     | _ \<Rightarrow> dot)"

definition zip_order :: "zip_entry \<Rightarrow> nat \<times> bool \<times> ustr" where
  "zip_order e = (length (filter (\<lambda>c. c = slash) (ze_path e)), ze_kind e \<noteq> Zip_Directory, ze_path e)"

text \<open>Every file inflated once; the result is the number of bytes.\<close>

fun inflate_all :: "zip_archive \<Rightarrow> archive_limits \<Rightarrow> (zip_info \<times> zip_entry) list \<Rightarrow> int \<Rightarrow> int archive_result" where
  "inflate_all a limits [] so_far = Inr so_far"
| "inflate_all a limits ((info, e) # pairs) so_far =
    (if ze_kind e = Zip_Directory then inflate_all a limits pairs so_far
     else (let (out, r) = iter_info_chunks a info e limits so_far in
           rbind r (\<lambda>_. inflate_all a limits pairs (so_far + int (length (concat out))))))"

definition open_error :: "zip_exception \<Rightarrow> archive_error" where
  "open_error x = (if x = OS_Error \<or> x = Zlib_Error then Uncaught x else zip_read_error x)"

definition open_archive :: "zip_archive \<Rightarrow> archive_limits \<Rightarrow> zip_info list archive_result" where
  "open_archive a limits =
    (if int (za_size a) > al_upload limits then Inl (Unsafe ''zip_upload_limit'')
     else rbind (check_magic a) (\<lambda>_. case za_infos a of Inl x \<Rightarrow> Inl (open_error x) | Inr infos \<Rightarrow> Inr infos))"

definition validate_zip_archive ::
    "(ustr \<Rightarrow> ustr) \<Rightarrow> zip_archive \<Rightarrow> archive_limits \<Rightarrow> ustr option \<Rightarrow> zip_manifest archive_result" where
  "validate_zip_archive casefold a limits original_filename =
    rbind (case original_filename of None \<Rightarrow> Inr [] | Some f \<Rightarrow> validate_zip_filename casefold f) (\<lambda>_.
      rbind (open_archive a limits) (\<lambda>infos.
        rbind (validate_structure infos limits) (\<lambda>(pairs, declared).
          rbind (inflate_all a limits pairs 0) (\<lambda>actual_total.
            let entries = sort_key zip_order (map snd pairs) in
            Inr \<lparr>zm_entries = entries, zm_total = actual_total, zm_cwd = cwd_rel entries, zm_size = int (za_size a)\<rparr>))))"

definition iter_verified_zip_member_chunks ::
    "zip_archive \<Rightarrow> zip_entry \<Rightarrow> archive_limits \<Rightarrow> bytes list \<times> unit archive_result" where
  "iter_verified_zip_member_chunks a e limits =
    (case open_archive a limits of
       Inl x \<Rightarrow> ([], Inl x)
     | Inr infos \<Rightarrow>
       (case filter (\<lambda>i. zi_name i = ze_name e) infos of
          [info] \<Rightarrow>
            (case entry_from_info info limits of
               Inl x \<Rightarrow> ([], Inl x)
             | Inr current \<Rightarrow>
                 if current \<noteq> e then ([], Inl (Unsafe ''zip_member_changed''))
                 else iter_info_chunks a info e limits 0)
        | _ \<Rightarrow> ([], Inl (Unsafe ''zip_member_changed''))))"

section \<open>Extraction\<close>

definition check_manifest_entry :: "archive_limits \<Rightarrow> zip_entry \<Rightarrow> zip_entry list \<times> int \<Rightarrow> (zip_entry list \<times> int) archive_result" where
  "check_manifest_entry limits e s =
    rbind (normalize_zip_member_path (ze_path e)) (\<lambda>p.
      if p \<noteq> ze_path e then Inl (Unsafe ''zip_manifest'')
      else if ze_name e = [] \<or> ze_size e < 0 \<or> ze_compressed e < 0 then Inl (Unsafe ''zip_manifest'')
      else if ze_kind e = Zip_Directory \<and> (ze_size e \<noteq> 0 \<or> ze_executable e) then Inl (Unsafe ''zip_manifest'')
      else if ze_kind e = Zip_File \<and> ze_size e > al_single limits then Inl (Unsafe ''zip_single_file_limit'')
      else add_zip_entry limits e s)"

definition validate_materialization_manifest :: "zip_manifest \<Rightarrow> archive_limits \<Rightarrow> unit archive_result" where
  "validate_materialization_manifest m limits =
    (if zm_size m < 0 \<or> zm_size m > al_upload limits then Inl (Unsafe ''zip_manifest'')
     else if int (length (zm_entries m)) > al_entries limits then Inl (Unsafe ''zip_manifest'')
     else rbind (each (check_manifest_entry limits) (zm_entries m) ([], 0)) (\<lambda>(_, total_bytes).
       if total_bytes \<noteq> zm_total m \<or> cwd_rel (zm_entries m) \<noteq> zm_cwd m then Inl (Unsafe ''zip_manifest'') else Inr ()))"

definition required_directories :: "zip_entry list \<Rightarrow> ustr list" where
  "required_directories entries =
    sort_key (\<lambda>p. (length (filter (\<lambda>c. c = slash) p), p))
      (remdups (concat (map (\<lambda>e. ancestors (ze_path e) @ (if ze_kind e = Zip_Directory then [ze_path e] else [])) entries)))"

datatype extract_op = Extract_Directory ustr | Extract_File ustr bytes bool

text \<open>The files in manifest order. A member that fails raises out of \<open>sink.write_file\<close>, which then has not
  committed the file.\<close>

fun extract_files ::
    "zip_archive \<Rightarrow> archive_limits \<Rightarrow> (ustr \<Rightarrow> zip_info option) \<Rightarrow> zip_entry list \<Rightarrow> int
      \<Rightarrow> extract_op list \<times> unit archive_result" where
  "extract_files a limits infos [] so_far = ([], Inr ())"
| "extract_files a limits infos (e # es) so_far =
    (if ze_kind e = Zip_Directory then extract_files a limits infos es so_far
     else (case infos (ze_name e) of
       None \<Rightarrow> ([], Inl (Unsafe ''KeyError''))
     | Some info \<Rightarrow>
        (case iter_info_chunks a info e limits so_far of
           (out, Inl x) \<Rightarrow> ([], Inl x)
         | (out, Inr _) \<Rightarrow>
             (let (ops, r) = extract_files a limits infos es (so_far + ze_size e)
              in (Extract_File (ze_path e) (concat out) (ze_executable e) # ops, r)))))"

definition materialize_zip_archive ::
    "zip_archive \<Rightarrow> zip_manifest \<Rightarrow> archive_limits \<Rightarrow> extract_op list \<times> unit archive_result" where
  "materialize_zip_archive a m limits =
    (case validate_materialization_manifest m limits of
       Inl x \<Rightarrow> ([], Inl x)
     | Inr _ \<Rightarrow>
       let dirs = map Extract_Directory (required_directories (zm_entries m)) in
       if int (za_size a) > al_upload limits then (dirs, Inl (Unsafe ''zip_upload_limit''))
       else if int (za_size a) \<noteq> zm_size m then (dirs, Inl (Unsafe ''zip_member_changed''))
       else (case rbind (open_archive a limits) (\<lambda>infos. validate_structure infos limits) of
          Inl x \<Rightarrow> (dirs, Inl x)
        | Inr (pairs, declared) \<Rightarrow>
            if sort_key zip_order (map snd pairs) \<noteq> zm_entries m then (dirs, Inl (Unsafe ''zip_member_changed''))
            else (let (ops, r) = extract_files a limits
                        (map_of (rev (map (\<lambda>(info, e). (ze_name e, info)) pairs))) (zm_entries m) 0
                  in (dirs @ ops, r))))"

end
