(* ===== verification/Archive_Properties.thy ===== *)
theory Archive_Properties
  imports Archive_Safety "HOL-Library.Multiset"
begin

text \<open>
  Extraction never leaves the destination and never exceeds the limits, whatever the archive and the
  manifest are; and an archive that was validated extracts completely,
  or is refused at once where a normalized path looks like a drive letter.
\<close>

section \<open>Paths\<close>

lemma split_on_append: "split_on d (a @ d # t) = split_on d a @ split_on d t"
proof (induction a)
  case (Cons c a)
  obtain p ps where "split_on d a = p # ps" by (cases "split_on d a") auto
  with Cons show ?case by simp
qed simp

lemma join_append: "xs \<noteq> [] \<Longrightarrow> ys \<noteq> [] \<Longrightarrow> join sep (xs @ ys) = join sep xs @ sep @ join sep ys"
proof (induction xs)
  case (Cons x xs)
  then show ?case by (cases xs; cases ys) auto
qed simp

lemma ancestors_iff: "a \<in> set (ancestors p) \<longleftrightarrow> starts_with (a @ [slash]) p"
proof
  assume "a \<in> set (ancestors p)"
  then obtain i where i: "1 \<le> i" "i < length (split_on slash p)" "a = join [slash] (take i (split_on slash p))"
    by (auto simp: ancestors_def Let_def)
  have "p = join [slash] (take i (split_on slash p) @ drop i (split_on slash p))" by (simp add: join_split_on)
  also have "\<dots> = a @ [slash] @ join [slash] (drop i (split_on slash p))"
    using i by (subst join_append) auto
  finally show "starts_with (a @ [slash]) p" by (auto simp: starts_with_iff)
next
  assume "starts_with (a @ [slash]) p"
  then obtain t where p: "p = a @ slash # t" by (auto simp: starts_with_iff)
  let ?n = "length (split_on slash a)"
  have "take ?n (split_on slash p) = split_on slash a" by (simp add: p split_on_append)
  then have "a = join [slash] (take ?n (split_on slash p))" by (simp add: join_split_on)
  moreover have "1 \<le> ?n" "?n < length (split_on slash p)"
    by (simp_all add: p split_on_append Suc_le_eq)
  ultimately show "a \<in> set (ancestors p)" by (auto simp: ancestors_def Let_def intro!: image_eqI [of _ _ ?n])
qed

definition safe_path :: "ustr \<Rightarrow> bool" where
  "safe_path p \<longleftrightarrow> (\<forall>part \<in> set (split_on slash p). part \<notin> {[], dot, dotdot, termroom_dir})
    \<and> backslash \<notin> set p \<and> \<not> contains_control p \<and> \<not> drive_letter ascii_letter_code p"

lemma safe_ancestor: "safe_path p \<Longrightarrow> starts_with (a @ [slash]) p \<Longrightarrow> safe_path a"
proof -
  assume p: "safe_path p" and "starts_with (a @ [slash]) p"
  then obtain t where t: "p = a @ slash # t" by (auto simp: starts_with_iff)
  have "drive_letter ascii_letter_code a \<Longrightarrow> drive_letter ascii_letter_code p"
    by (cases a) (auto simp: t drive_letter_def nth_append)
  with p show ?thesis by (auto simp: t safe_path_def split_on_append contains_control_def)
qed

lemma normalized_self: "normalize_zip_member_path p = Inr p \<Longrightarrow> safe_path p"
proof -
  assume n: "normalize_zip_member_path p = Inr p"
  let ?parts = "filter (\<lambda>p. p \<noteq> [] \<and> p \<noteq> dot) (split_on slash p)"
  from n have f: "backslash \<notin> set p" "\<not> contains_control p" "\<not> drive_letter ascii_letter_code p"
    "dotdot \<notin> set ?parts" "?parts \<noteq> []" "termroom_dir \<notin> set ?parts" "join [slash] ?parts = p"
    by (auto simp: normalize_zip_member_path_def Let_def split: if_splits)
  have "split_on slash p = ?parts"
    using split_on_join [OF f(5), of slash] f(7) by (auto dest: split_on_parts)
  then have "\<forall>part \<in> set (split_on slash p). part \<noteq> [] \<and> part \<noteq> dot" by (auto dest!: arg_cong [of _ _ set])
  with f show ?thesis by (auto simp: safe_path_def)
qed

lemma normalize_idem:
  assumes "normalize_zip_member_path raw = Inr p" and "\<not> drive_letter ascii_letter_code p"
  shows "normalize_zip_member_path p = Inr p"
proof -
  let ?parts = "filter (\<lambda>p. p \<noteq> [] \<and> p \<noteq> dot) (split_on slash raw)"
  from assms(1) have f: "0 \<notin> set raw" "backslash \<notin> set raw" "\<not> contains_control raw"
    "dotdot \<notin> set ?parts" "?parts \<noteq> []" "termroom_dir \<notin> set ?parts" "join [slash] ?parts = p" "utf8_encode p \<noteq> None"
    by (auto simp: normalize_zip_member_path_def Let_def split: if_splits)
  have split: "split_on slash p = ?parts"
    unfolding f(7) [symmetric] by (rule split_on_join [OF f(5)]) (auto dest: split_on_parts)
  have "set (join [slash] ps) \<subseteq> insert slash (\<Union> (set ` set ps))" for ps
    by (induction "[slash]" ps rule: join.induct) auto
  then have "set p \<subseteq> insert slash (\<Union> (set ` set ?parts))" using f(7) by blast
  also have "\<dots> \<subseteq> insert slash (set raw)" using set_split_on by fastforce
  finally have chars: "set p \<subseteq> insert slash (set raw)" .
  have c: "0 \<notin> set p" "backslash \<notin> set p" "\<not> contains_control p"
    using chars f(1-3) by (auto simp: contains_control_def list_ex_iff slash_def backslash_def)
  have "p \<noteq> []" "\<not> starts_with [slash] p"
    using split f(5) by (auto simp: starts_with_iff dest!: arg_cong [of _ _ set])
  moreover have "filter (\<lambda>p. p \<noteq> [] \<and> p \<noteq> dot) (split_on slash p) = ?parts" by (simp add: split)
  ultimately show ?thesis
    using c assms(2) f by (simp add: normalize_zip_member_path_def Let_def)
qed

section \<open>Trees of entries\<close>

definition zip_tree :: "zip_entry list \<Rightarrow> bool" where
  "zip_tree es \<longleftrightarrow> distinct (map ze_path es)
    \<and> (\<forall>x \<in> set es. \<forall>y \<in> set es. ze_kind x = Zip_File \<longrightarrow> \<not> starts_with (ze_path x @ [slash]) (ze_path y))"

lemma not_below_self [simp]: "\<not> starts_with (p @ [slash]) p"
  by (auto simp: starts_with_iff)

lemma file_kind: "ze_kind e \<noteq> Zip_Directory \<longleftrightarrow> ze_kind e = Zip_File"
  by (cases "ze_kind e") auto

lemma zip_conflict_iff:
  "zip_conflict es e \<longleftrightarrow> (\<exists>x \<in> set es. (ze_kind x = Zip_File \<and> starts_with (ze_path x @ [slash]) (ze_path e))
    \<or> (ze_kind e = Zip_File \<and> starts_with (ze_path e @ [slash]) (ze_path x)))"
  by (auto simp: zip_conflict_def list_ex_iff ancestors_iff file_kind)

lemma zip_tree_snoc:
  "zip_tree (es @ [e]) \<longleftrightarrow> zip_tree es \<and> ze_path e \<notin> ze_path ` set es \<and> \<not> zip_conflict es e"
  by (auto simp: zip_tree_def zip_conflict_iff)

lemma zip_tree_mset: "mset es = mset fs \<Longrightarrow> zip_tree es \<longleftrightarrow> zip_tree fs"
  using mset_eq_imp_distinct_iff [of "map ze_path es" "map ze_path fs"] by (simp add: zip_tree_def mset_map set_mset_mset [symmetric] del: set_mset_mset)

lemma add_zip_entry_Inr:
  "add_zip_entry limits e (es, n) = Inr s \<longleftrightarrow> s = (es @ [e], n + ze_size e) \<and> n + ze_size e \<le> al_total limits
    \<and> ze_path e \<notin> ze_path ` set es \<and> \<not> zip_conflict es e"
  by (auto simp: add_zip_entry_def)

abbreviation sizes :: "zip_entry list \<Rightarrow> int" where
  "sizes es \<equiv> sum_list (map ze_size es)"

definition manifest_entry_ok :: "archive_limits \<Rightarrow> zip_entry \<Rightarrow> bool" where
  "manifest_entry_ok limits e \<longleftrightarrow> normalize_zip_member_path (ze_path e) = Inr (ze_path e) \<and> ze_name e \<noteq> []
    \<and> 0 \<le> ze_size e \<and> 0 \<le> ze_compressed e \<and> (ze_kind e = Zip_Directory \<longrightarrow> ze_size e = 0 \<and> \<not> ze_executable e)
    \<and> (ze_kind e = Zip_File \<longrightarrow> ze_size e \<le> al_single limits)"

lemma check_manifest_entry_Inr:
  "check_manifest_entry limits e s = Inr s' \<longleftrightarrow> manifest_entry_ok limits e \<and> add_zip_entry limits e s = Inr s'"
  by (cases "ze_kind e") (auto simp: check_manifest_entry_def manifest_entry_ok_def rbind_Inr_iff)

lemma check_manifest_each:
  assumes "each (check_manifest_entry limits) es (fs, n) = Inr s" and "zip_tree fs"
  shows "s = (fs @ es, n + sizes es) \<and> zip_tree (fs @ es) \<and> (\<forall>e \<in> set es. manifest_entry_ok limits e)
    \<and> (n \<le> al_total limits \<longrightarrow> n + sizes es \<le> al_total limits)"
  using assms
proof (induction es arbitrary: fs n)
  case (Cons e es)
  from Cons.prems(1) have e: "manifest_entry_ok limits e" and a: "add_zip_entry limits e (fs, n) = Inr (fs @ [e], n + ze_size e)"
    and rest: "each (check_manifest_entry limits) es (fs @ [e], n + ze_size e) = Inr s"
    by (auto simp: rbind_Inr_iff check_manifest_entry_Inr add_zip_entry_Inr)
  have "zip_tree (fs @ [e])" using a Cons.prems(2) by (simp add: add_zip_entry_Inr zip_tree_snoc)
  from Cons.IH [OF rest this] e a show ?case by (simp add: add_zip_entry_Inr)
qed simp

lemma check_manifest_each_ok:
  assumes "zip_tree (fs @ es)" and "\<forall>e \<in> set es. manifest_entry_ok limits e" and "n + sizes es \<le> al_total limits"
  shows "each (check_manifest_entry limits) es (fs, n) = Inr (fs @ es, n + sizes es)"
  using assms
proof (induction es arbitrary: fs n)
  case (Cons e es)
  have pos: "0 \<le> sizes es" using Cons.prems(2) by (intro sum_list_nonneg) (auto simp: manifest_entry_ok_def)
  have tree: "zip_tree ((fs @ [e]) @ es)" using Cons.prems(1) by simp
  then have "zip_tree (fs @ [e])" by (auto simp: zip_tree_def)
  then have "check_manifest_entry limits e (fs, n) = Inr (fs @ [e], n + ze_size e)"
    using Cons.prems pos by (simp add: check_manifest_entry_Inr add_zip_entry_Inr zip_tree_snoc)
  with Cons.IH [OF tree] Cons.prems show ?case by (simp add: algebra_simps)
qed simp

section \<open>Inflating\<close>

lemma inflate_bounds:
  assumes "inflate limits before n c cs ending = (out, r)" and "n \<le> al_single limits" and "before + n \<le> al_total limits"
  shows "n + int (length (concat out)) \<le> al_single limits \<and> before + n + int (length (concat out)) \<le> al_total limits"
  using assms
proof (induction cs arbitrary: n c out)
  case (Cons x cs)
  show ?case
  proof (cases "x = [] \<or> n + int (length x) > al_single limits \<or> before + (n + int (length x)) > al_total limits")
    case True
    with Cons.prems show ?thesis by (auto simp: Let_def split: if_splits)
  next
    case False
    obtain out' where i: "inflate limits before (n + int (length x)) (crc32 x c) cs ending = (out', r)" "out = x # out'"
      using Cons.prems(1) False by (auto simp: Let_def split: prod.splits)
    from Cons.IH [OF i(1)] False i(2) show ?thesis by simp
  qed
qed simp

lemma inflate_result:
  assumes "inflate limits before n c cs ending = (out, Inr (n', c'))"
  shows "n' = n + int (length (concat out)) \<and> c' = crc32 (concat out) c"
  using assms
proof (induction cs arbitrary: n c out)
  case Nil
  then show ?case by (auto simp: crc32_def split: option.splits)
next
  case (Cons x cs)
  show ?case
  proof (cases "x = []")
    case True
    with Cons.prems show ?thesis by (simp add: crc32_def)
  next
    case False
    with Cons.prems obtain out' where i: "inflate limits before (n + int (length x)) (crc32 x c) cs ending = (out', Inr (n', c'))"
      "out = x # out'" by (auto simp: Let_def split: prod.splits if_splits)
    from Cons.IH [OF i(1)] i(2) show ?thesis by (simp add: crc32_append)
  qed
qed

text \<open>What was written before a member matters only for the limit on the whole archive.\<close>

lemma inflate_before:
  assumes "inflate limits before n c cs ending = (out, Inr (n', c'))" and "before' + n' \<le> al_total limits"
  shows "inflate limits before' n c cs ending = (out, Inr (n', c'))"
  using assms
proof (induction cs arbitrary: n c out)
  case (Cons x cs)
  show ?case
  proof (cases "x = []")
    case False
    with Cons.prems obtain out' where i: "inflate limits before (n + int (length x)) (crc32 x c) cs ending = (out', Inr (n', c'))"
      and out: "out = x # out'" and single: "\<not> n + int (length x) > al_single limits"
      by (auto simp: Let_def split: prod.splits if_splits)
    have "n + int (length x) \<le> n'" using inflate_result [OF i] by simp
    with Cons.prems(2) have "\<not> before' + (n + int (length x)) > al_total limits" by linarith
    with Cons.IH [OF i Cons.prems(2)] out single False show ?thesis by (simp add: Let_def)
  qed (use Cons.prems in simp)
qed simp

lemma inflation_bounds:
  assumes "iter_info_chunks a info e limits before = (out, r)" and "limits_ok limits" and "before \<le> al_total limits"
  shows "int (length (concat out)) \<le> al_single limits \<and> before + int (length (concat out)) \<le> al_total limits
    \<and> (r = Inr () \<longrightarrow> int (length (concat out)) = ze_size e \<and> unat (crc32 (concat out) 0) = ze_crc e)"
proof -
  obtain cs ending where d: "za_data a info = (cs, ending)" by force
  from assms(1) d obtain r' where i: "inflate limits before 0 0 cs ending = (out, r')"
    and r: "r = rbind r' (\<lambda>(actual, crc). if actual \<noteq> ze_size e then Inl (Unsafe ''zip_size_mismatch'')
       else if unat crc \<noteq> ze_crc e then Inl (Unsafe ''zip_crc'') else Inr ())"
    by (auto simp: iter_info_chunks_def split: prod.splits)
  have "int (length (concat out)) \<le> al_single limits \<and> before + int (length (concat out)) \<le> al_total limits"
    using inflate_bounds [OF i] assms(2,3) by (simp add: limits_ok_def)
  moreover have "r = Inr () \<Longrightarrow> int (length (concat out)) = ze_size e \<and> unat (crc32 (concat out) 0) = ze_crc e"
    using r i by (auto simp: rbind_Inr_iff dest!: inflate_result split: if_splits)
  ultimately show ?thesis by blast
qed

text \<open>C18: the limits hold for what is really inflated, whatever sizes the archive declares. A member yields no
  more than the single-file limit, and no more than what is left of the limit on the whole archive; and
  when it ends normally, its data has the declared size and checksum.\<close>

theorem inflation_is_bounded:
  assumes "iter_info_chunks a info e limits before = (out, r)" and "limits_ok limits" and "before \<le> al_total limits"
  shows "int (length (concat out)) \<le> al_single limits \<and> before + int (length (concat out)) \<le> al_total limits
    \<and> (r = Inr () \<longrightarrow> int (length (concat out)) = ze_size e \<and> unat (crc32 (concat out) 0) = ze_crc e)"
  using assms by (rule inflation_bounds)

lemma iter_before:
  assumes "iter_info_chunks a info e limits before = (out, Inr ())" and "before' + ze_size e \<le> al_total limits"
  shows "iter_info_chunks a info e limits before' = (out, Inr ())"
proof -
  obtain cs ending where d: "za_data a info = (cs, ending)" by force
  from assms(1) d obtain n c where i: "inflate limits before 0 0 cs ending = (out, Inr (n, c))"
    and e: "n = ze_size e" "unat c = ze_crc e"
    by (auto simp: iter_info_chunks_def rbind_Inr_iff split: prod.splits if_splits)
  have "inflate limits before' 0 0 cs ending = (out, Inr (n, c))" by (rule inflate_before [OF i]) (use assms(2) e in simp)
  with d e show ?thesis by (simp add: iter_info_chunks_def)
qed

section \<open>Extracting\<close>

fun op_path :: "extract_op \<Rightarrow> ustr" where
  "op_path (Extract_Directory p) = p"
| "op_path (Extract_File p _ _) = p"

fun op_data :: "extract_op \<Rightarrow> bytes" where
  "op_data (Extract_Directory _) = []"
| "op_data (Extract_File _ d _) = d"

definition writes_entry :: "zip_entry \<Rightarrow> extract_op \<Rightarrow> bool" where
  "writes_entry e op \<longleftrightarrow> (\<exists>d. op = Extract_File (ze_path e) d (ze_executable e)
    \<and> int (length d) = ze_size e \<and> unat (crc32 d 0) = ze_crc e)"

definition files_of :: "zip_entry list \<Rightarrow> zip_entry list" where
  "files_of es = filter (\<lambda>e. ze_kind e = Zip_File) es"

lemma files_of_Cons [simp]: "files_of (e # es) = (if ze_kind e = Zip_Directory then files_of es else e # files_of es)"
  by (cases "ze_kind e") (simp_all add: files_of_def)

lemma files_of_Nil [simp]: "files_of [] = []"
  by (simp add: files_of_def)

lemma extract_files_result:
  assumes "extract_files a limits infos es n = (ops, r)" and "limits_ok limits" and "\<forall>e \<in> set es. 0 \<le> ze_size e"
    and "n + sizes es \<le> al_total limits"
  shows "\<exists>k. list_all2 writes_entry (take k (files_of es)) ops"
  using assms(1,3,4)
proof (induction es arbitrary: n ops)
  case (Cons e es)
  have pos: "0 \<le> sizes es" using Cons.prems(2) by (intro sum_list_nonneg) auto
  show ?case
  proof (cases "ze_kind e = Zip_Directory")
    case True
    with Cons show ?thesis by simp
  next
    case False
    show ?thesis
    proof (cases "\<exists>info out. infos (ze_name e) = Some info \<and> iter_info_chunks a info e limits n = (out, Inr ())")
      case False
      with \<open>ze_kind e \<noteq> Zip_Directory\<close> Cons.prems(1) have "ops = []"
        by (auto split: option.splits prod.splits sum.splits)
      then show ?thesis by (intro exI [of _ 0]) simp
    next
      case True
      then obtain info out where info: "infos (ze_name e) = Some info"
        and i: "iter_info_chunks a info e limits n = (out, Inr ())" by blast
      obtain ops' where rest: "extract_files a limits infos es (n + ze_size e) = (ops', r)"
        and ops: "ops = Extract_File (ze_path e) (concat out) (ze_executable e) # ops'"
        using Cons.prems(1) False info i by (auto split: prod.splits)
      obtain k where "list_all2 writes_entry (take k (files_of es)) ops'"
        using Cons.IH [OF rest] Cons.prems(2,3) by (auto simp: algebra_simps)
      moreover have "writes_entry e (Extract_File (ze_path e) (concat out) (ze_executable e))"
        using inflation_bounds [OF i assms(2)] Cons.prems pos by (simp add: writes_entry_def)
      ultimately show ?thesis using False ops by (intro exI [of _ "Suc k"]) simp
    qed
  qed
qed (auto intro: exI [of _ 0])

lemma extract_files_complete:
  assumes "\<forall>e \<in> set (files_of es). \<exists>info out b. infos (ze_name e) = Some info \<and> iter_info_chunks a info e limits b = (out, Inr ())"
    and "\<forall>e \<in> set es. 0 \<le> ze_size e" and "n + sizes es \<le> al_total limits" and "limits_ok limits"
  shows "\<exists>ops. extract_files a limits infos es n = (ops, Inr ()) \<and> list_all2 writes_entry (files_of es) ops"
  using assms(1-3)
proof (induction es arbitrary: n)
  case (Cons e es)
  have pos: "0 \<le> sizes es" using Cons.prems(2) by (intro sum_list_nonneg) auto
  have "0 \<le> ze_size e" using Cons.prems(2) by simp
  show ?case
  proof (cases "ze_kind e = Zip_Directory")
    case True
    with Cons.IH [of n] Cons.prems \<open>0 \<le> ze_size e\<close> show ?thesis by simp
  next
    case False
    with Cons.prems(1) obtain info out b where info: "infos (ze_name e) = Some info"
      and b: "iter_info_chunks a info e limits b = (out, Inr ())" by auto
    have i: "iter_info_chunks a info e limits n = (out, Inr ())"
      by (rule iter_before [OF b]) (use Cons.prems(3) pos in simp)
    have w: "writes_entry e (Extract_File (ze_path e) (concat out) (ze_executable e))"
      using inflation_bounds [OF i assms(4)] Cons.prems(3) pos \<open>0 \<le> ze_size e\<close> by (simp add: writes_entry_def)
    obtain ops where "extract_files a limits infos es (n + ze_size e) = (ops, Inr ())" "list_all2 writes_entry (files_of es) ops"
      using Cons.IH [of "n + ze_size e"] Cons.prems False by (auto simp: algebra_simps)
    with False info i w show ?thesis by simp
  qed
qed simp

lemma manifest_valid:
  assumes "validate_materialization_manifest m limits = Inr ()" and "limits_ok limits"
  shows "zip_tree (zm_entries m) \<and> (\<forall>e \<in> set (zm_entries m). manifest_entry_ok limits e)
    \<and> sizes (zm_entries m) \<le> al_total limits"
proof -
  from assms(1) obtain s where "each (check_manifest_entry limits) (zm_entries m) ([], 0) = Inr s"
    by (auto simp: validate_materialization_manifest_def rbind_Inr_iff split: if_splits)
  from check_manifest_each [OF this] assms(2) show ?thesis by (simp add: zip_tree_def limits_ok_def)
qed

lemma materialize_shape:
  assumes "materialize_zip_archive a m limits = (ops, r)" and "limits_ok limits"
  shows "ops = [] \<or> (zip_tree (zm_entries m) \<and> (\<forall>e \<in> set (zm_entries m). manifest_entry_ok limits e)
    \<and> sizes (zm_entries m) \<le> al_total limits
    \<and> (\<exists>k written. list_all2 writes_entry (take k (files_of (zm_entries m))) written
        \<and> ops = map Extract_Directory (required_directories (zm_entries m)) @ written))"
proof (cases "validate_materialization_manifest m limits")
  case Inl
  with assms(1) show ?thesis by (simp add: materialize_zip_archive_def)
next
  case (Inr x)
  then have "validate_materialization_manifest m limits = Inr ()" by simp
  note valid = manifest_valid [OF this assms(2)]
  have none: "\<exists>k written. list_all2 writes_entry (take k (files_of (zm_entries m))) written
      \<and> map Extract_Directory (required_directories (zm_entries m)) = map Extract_Directory (required_directories (zm_entries m)) @ written"
    by (intro exI [of _ 0] exI [of _ "[]"]) simp
  have "\<forall>e \<in> set (zm_entries m). 0 \<le> ze_size e" using valid by (simp add: manifest_entry_ok_def)
  then have some: "\<exists>k. list_all2 writes_entry (take k (files_of (zm_entries m))) written"
    if "extract_files a limits infos (zm_entries m) 0 = (written, r)" for infos written
    using extract_files_result [OF that assms(2)] valid by simp
  let ?dirs = "map Extract_Directory (required_directories (zm_entries m))"
  have "\<exists>written. ops = ?dirs @ written \<and> (written = [] \<or> (\<exists>infos. extract_files a limits infos (zm_entries m) 0 = (written, r)))"
    using assms(1) Inr by (auto simp: materialize_zip_archive_def Let_def split: if_splits sum.splits prod.splits)
  then obtain written where w: "ops = ?dirs @ written"
    "written = [] \<or> (\<exists>infos. extract_files a limits infos (zm_entries m) 0 = (written, r))" by blast
  have "\<exists>k. list_all2 writes_entry (take k (files_of (zm_entries m))) written"
    using w(2) some by (auto intro: exI [of _ 0])
  with w(1) valid show ?thesis by blast
qed

lemma below_trans: "starts_with (q @ [slash]) d \<Longrightarrow> starts_with (d @ [slash]) p \<Longrightarrow> starts_with (q @ [slash]) p"
  by (auto simp: starts_with_iff)

lemma set_required_directories:
  "d \<in> set (required_directories es) \<longleftrightarrow>
    (\<exists>e \<in> set es. starts_with (d @ [slash]) (ze_path e) \<or> (ze_kind e = Zip_Directory \<and> d = ze_path e))"
  by (auto simp: required_directories_def ancestors_iff)

lemma required_directories_first:
  assumes "i < length (required_directories es)" and "starts_with (q @ [slash]) (required_directories es ! i)"
  shows "\<exists>j < i. required_directories es ! j = q"
proof -
  let ?ds = "required_directories es" and ?key = "\<lambda>p. (length (filter (\<lambda>c. c = slash) p), p)"
  have "?ds ! i \<in> set ?ds" using assms(1) by simp
  with assms(2) have "q \<in> set ?ds"
    unfolding set_required_directories by (auto dest: below_trans)
  then obtain j where j: "j < length ?ds" "?ds ! j = q" by (auto simp: in_set_conv_nth)
  have "sorted (map ?key ?ds)" by (simp add: required_directories_def)
  have "j < i"
  proof (rule ccontr)
    assume "\<not> j < i"
    then have "?key (?ds ! i) \<le> ?key (?ds ! j)"
      using sorted_nth_mono [OF \<open>sorted (map ?key ?ds)\<close>, of i j] j(1) assms(1) by simp
    then have "length (filter (\<lambda>c. c = slash) (?ds ! i)) \<le> length (filter (\<lambda>c. c = slash) q)"
      using j(2) by (auto simp: less_eq_prod_def)
    with assms(2) show False by (auto simp: starts_with_iff)
  qed
  with j(2) show ?thesis by blast
qed

lemma written_paths: "list_all2 writes_entry es ops \<Longrightarrow> map op_path ops = map ze_path es"
  by (induction rule: list_all2_induct) (auto simp: writes_entry_def)

lemma written_sizes: "list_all2 writes_entry es ops \<Longrightarrow> map (\<lambda>op. int (length (op_data op))) ops = map ze_size es"
  by (induction rule: list_all2_induct) (auto simp: writes_entry_def)

lemma list_all2_partner: "list_all2 P xs ys \<Longrightarrow> y \<in> set ys \<Longrightarrow> \<exists>x \<in> set xs. P x y"
  by (induction rule: list_all2_induct) auto

lemma sum_part_le:
  "\<forall>e \<in> set es. 0 \<le> f e \<Longrightarrow> sum_list (map f (take k (filter p es))) \<le> (sum_list (map f es) :: int)"
proof (induction es arbitrary: k)
  case (Cons e es)
  then have "0 \<le> f e" "0 \<le> sum_list (map f es)" using sum_list_nonneg [of "map f es"] by auto
  with Cons show ?case by (cases k) (auto intro: order_trans [OF Cons.IH])
qed simp

text \<open>C16: extraction stays inside the destination, whatever the archive and the manifest say and wherever it
  fails. Every path it creates is a relative path without empty, \<^verbatim>\<open>.\<close>, \<^verbatim>\<open>..\<close> or \<^verbatim>\<open>.termroom\<close> parts; no path is
  created twice; every directory above a path was created before it; and the data of each file and of all
  files together stays within the limits.\<close>

theorem extraction_stays_inside:
  assumes "materialize_zip_archive a m limits = (ops, r)" and "limits_ok limits"
  shows "(\<forall>op \<in> set ops. safe_path (op_path op) \<and> int (length (op_data op)) \<le> al_single limits)
    \<and> distinct (map op_path ops)
    \<and> (\<forall>i < length ops. \<forall>q. starts_with (q @ [slash]) (op_path (ops ! i)) \<longrightarrow> (\<exists>j < i. ops ! j = Extract_Directory q))
    \<and> sum_list (map (\<lambda>op. int (length (op_data op))) ops) \<le> al_total limits"
proof (cases "ops = []")
  case True
  with assms(2) show ?thesis by (simp add: limits_ok_def)
next
  case False
  let ?es = "zm_entries m" and ?dirs = "required_directories (zm_entries m)"
  from materialize_shape [OF assms] False obtain k written where tree: "zip_tree ?es"
    and ok: "\<forall>e \<in> set ?es. manifest_entry_ok limits e" and total_ok: "sizes ?es \<le> al_total limits"
    and w: "list_all2 writes_entry (take k (files_of ?es)) written" and ops: "ops = map Extract_Directory ?dirs @ written"
    by blast
  have pos: "\<forall>e \<in> set ?es. 0 \<le> ze_size e" using ok by (simp add: manifest_entry_ok_def)
  have paths: "map op_path written = map ze_path (take k (files_of ?es))" by (rule written_paths [OF w])
  have files: "set (take k (files_of ?es)) \<subseteq> {e \<in> set ?es. ze_kind e = Zip_File}"
    using set_take_subset [of k "files_of ?es"] by (auto simp: files_of_def)
  have safe: "safe_path (ze_path e)" if "e \<in> set ?es" for e
    using ok that normalized_self by (auto simp: manifest_entry_ok_def)
  have dirs_safe: "safe_path d" if "d \<in> set ?dirs" for d
    using that safe safe_ancestor unfolding set_required_directories by blast
  have written_at: "\<exists>e \<in> set ?es. ze_kind e = Zip_File \<and> writes_entry e op" if "op \<in> set written" for op
    using list_all2_partner [OF w that] files by blast
  have written_at_path: "\<exists>e \<in> set ?es. ze_kind e = Zip_File \<and> op_path op = ze_path e" if "op \<in> set written" for op
    using written_at [OF that] by (auto simp: writes_entry_def)
  have "0 \<le> al_single limits" using assms(2) by (simp add: limits_ok_def)
  then have each: "safe_path (op_path op) \<and> int (length (op_data op)) \<le> al_single limits" if "op \<in> set ops" for op
  proof (cases "op \<in> set written")
    case True
    then obtain e where "e \<in> set ?es" "ze_kind e = Zip_File" "writes_entry e op" using written_at by blast
    with safe ok show ?thesis by (auto simp: writes_entry_def manifest_entry_ok_def)
  next
    case False
    with that dirs_safe \<open>0 \<le> al_single limits\<close> show ?thesis by (auto simp: ops)
  qed
  have "map op_path ops = ?dirs @ map ze_path (take k (files_of ?es))" by (simp add: ops paths comp_def)
  moreover have "distinct ?dirs" by (simp add: required_directories_def)
  moreover have "distinct (map ze_path (take k (files_of ?es)))"
    using tree by (simp add: zip_tree_def files_of_def take_map [symmetric] distinct_map_filter)
  moreover have "ze_path e \<notin> set ?dirs" if "e \<in> set ?es" "ze_kind e = Zip_File" for e
  proof
    assume "ze_path e \<in> set ?dirs"
    then obtain x where x: "x \<in> set ?es" "starts_with (ze_path e @ [slash]) (ze_path x) \<or> (ze_kind x = Zip_Directory \<and> ze_path e = ze_path x)"
      unfolding set_required_directories by blast
    have "inj_on ze_path (set ?es)" using tree by (simp add: zip_tree_def distinct_map)
    with x that tree show False by (auto simp: zip_tree_def dest: inj_onD)
  qed
  ultimately have "distinct (map op_path ops)" using files by auto
  moreover have "\<exists>j < i. ops ! j = Extract_Directory q"
    if i: "i < length ops" and q: "starts_with (q @ [slash]) (op_path (ops ! i))" for i q
  proof (cases "i < length ?dirs")
    case True
    with q have "starts_with (q @ [slash]) (?dirs ! i)" by (simp add: ops nth_append)
    from required_directories_first [OF True this] obtain j where j: "j < i" "?dirs ! j = q" by blast
    with True show ?thesis by (intro exI [of _ j]) (simp add: ops nth_append)
  next
    case False
    with i have "ops ! i \<in> set written" by (simp add: ops nth_append)
    from written_at_path [OF this] q have "q \<in> set ?dirs" unfolding set_required_directories by auto
    then obtain j where "j < length ?dirs" "?dirs ! j = q" by (metis in_set_conv_nth)
    with False show ?thesis by (intro exI [of _ j]) (simp add: ops nth_append)
  qed
  moreover have "sum_list (map (\<lambda>op. int (length (op_data op))) ops) \<le> al_total limits"
    using written_sizes [OF w] order_trans [OF sum_part_le [OF pos, of k "\<lambda>e. ze_kind e = Zip_File"] total_ok]
    by (simp add: ops comp_def files_of_def)
  ultimately show ?thesis using each by blast
qed

section \<open>Validated archives\<close>

lemma entry_from_info_ok:
  assumes "entry_from_info info limits = Inr e"
  shows "normalize_zip_member_path (ze_name e) = Inr (ze_path e) \<and> ze_name e = zi_name info
    \<and> (\<not> drive_letter ascii_letter_code (ze_path e) \<longrightarrow> manifest_entry_ok limits e)"
proof -
  from assms have n: "normalize_zip_member_path (ze_name e) = Inr (ze_path e)" "ze_name e = zi_name info"
    and f: "0 \<le> ze_size e" "0 \<le> ze_compressed e" "ze_kind e = Zip_Directory \<longrightarrow> ze_size e = 0 \<and> \<not> ze_executable e"
      "ze_kind e = Zip_File \<longrightarrow> ze_size e \<le> al_single limits"
    by (auto simp: entry_from_info_def Let_def rbind_Inr_iff split: option.splits if_splits)
  have "ze_name e \<noteq> []" using n by (auto simp: normalize_zip_member_path_def)
  with n f normalize_idem [OF n(1)] show ?thesis by (auto simp: manifest_entry_ok_def)
qed

lemma structure_step_Inr:
  "structure_step limits info (pairs, n) = Inr s \<longleftrightarrow> (\<exists>e. entry_from_info info limits = Inr e
    \<and> add_zip_entry limits e (map snd pairs, n) = Inr (map snd pairs @ [e], n + ze_size e)
    \<and> s = (pairs @ [(info, e)], n + ze_size e))"
  by (auto simp: structure_step_def rbind_Inr_iff add_zip_entry_Inr)

lemma structure_each:
  assumes "each (structure_step limits) infos (pairs, n) = Inr (pairs', n')" and "zip_tree (map snd pairs)"
    and "n = sizes (map snd pairs)" and "\<forall>x \<in> set pairs. entry_from_info (fst x) limits = Inr (snd x)"
  shows "zip_tree (map snd pairs') \<and> n' = sizes (map snd pairs') \<and> length pairs' = length pairs + length infos
    \<and> (\<forall>x \<in> set pairs'. entry_from_info (fst x) limits = Inr (snd x)) \<and> (n \<le> al_total limits \<longrightarrow> n' \<le> al_total limits)"
  using assms
proof (induction infos arbitrary: pairs n)
  case (Cons info infos)
  from Cons.prems(1) obtain e where e: "entry_from_info info limits = Inr e"
    and a: "add_zip_entry limits e (map snd pairs, n) = Inr (map snd pairs @ [e], n + ze_size e)"
    and rest: "each (structure_step limits) infos (pairs @ [(info, e)], n + ze_size e) = Inr (pairs', n')"
    by (auto simp: rbind_Inr_iff structure_step_Inr)
  have "zip_tree (map snd (pairs @ [(info, e)]))" using a Cons.prems(2) by (simp add: add_zip_entry_Inr zip_tree_snoc)
  from Cons.IH [OF rest this] Cons.prems(3,4) e a show ?case by (simp add: add_zip_entry_Inr)
qed simp

lemma validate_structure_Inr:
  assumes "validate_structure infos limits = Inr (pairs, n)" and "limits_ok limits"
  shows "zip_tree (map snd pairs) \<and> n = sizes (map snd pairs) \<and> n \<le> al_total limits \<and> int (length pairs) \<le> al_entries limits
    \<and> (\<forall>x \<in> set pairs. entry_from_info (fst x) limits = Inr (snd x))"
proof -
  have "each (structure_step limits) infos ([], 0) = Inr (pairs, n) \<and> int (length infos) \<le> al_entries limits"
    using assms(1) by (auto simp: validate_structure_def split: if_splits)
  then show ?thesis
    using structure_each [of limits infos "[]" 0 pairs n] assms(2) by (simp add: zip_tree_def limits_ok_def)
qed

lemma inflate_all_Inr:
  assumes "inflate_all a limits pairs n = Inr n'" and "\<forall>x \<in> set pairs. 0 \<le> ze_size (snd x)" and "limits_ok limits"
    and "n + sizes (map snd pairs) \<le> al_total limits" and "\<forall>x \<in> set pairs. ze_kind (snd x) = Zip_Directory \<longrightarrow> ze_size (snd x) = 0"
  shows "n' = n + sizes (map snd pairs) \<and> (\<forall>x \<in> set pairs. ze_kind (snd x) = Zip_File \<longrightarrow>
      (\<exists>b out. iter_info_chunks a (fst x) (snd x) limits b = (out, Inr ())))"
  using assms(1,2,4,5)
proof (induction pairs arbitrary: n)
  case (Cons x pairs)
  obtain info e where x: "x = (info, e)" by (cases x)
  have pos: "0 \<le> sizes (map snd pairs)" using Cons.prems(2) by (intro sum_list_nonneg) auto
  show ?case
  proof (cases "ze_kind e = Zip_Directory")
    case True
    with Cons x show ?thesis by simp
  next
    case False
    obtain out r where i: "iter_info_chunks a info e limits n = (out, r)" by force
    with Cons.prems(1) x False have r: "r = Inr ()" and rest: "inflate_all a limits pairs (n + int (length (concat out))) = Inr n'"
      by (auto simp: rbind_Inr_iff)
    have "int (length (concat out)) = ze_size e"
      using inflation_bounds [OF i assms(3)] r Cons.prems x pos by simp
    with Cons.IH [OF rest] Cons.prems x i r show ?thesis by auto
  qed
qed simp

lemma member_infos:
  assumes "zip_tree (map snd pairs)" and "\<forall>x \<in> set pairs. entry_from_info (fst x) limits = Inr (snd x)" and "(info, e) \<in> set pairs"
  shows "map_of (rev (map (\<lambda>(info, e). (ze_name e, info)) pairs)) (ze_name e) = Some info"
proof (rule map_of_is_SomeI)
  have path: "normalize_zip_member_path (ze_name (snd x)) = Inr (ze_path (snd x))" if "x \<in> set pairs" for x
    using entry_from_info_ok assms(2) that by blast
  have "distinct (map (ze_path \<circ> snd) pairs)" using assms(1) by (simp add: zip_tree_def)
  then have paths: "distinct pairs" "inj_on (ze_path \<circ> snd) (set pairs)" by (simp_all only: distinct_map)
  have "inj_on (ze_name \<circ> snd) (set pairs)"
  proof (rule inj_onI)
    fix x y assume xy: "x \<in> set pairs" "y \<in> set pairs" "(ze_name \<circ> snd) x = (ze_name \<circ> snd) y"
    then have "ze_path (snd x) = ze_path (snd y)" using path [OF xy(1)] path [OF xy(2)] by simp
    with inj_onD [OF paths(2) _ xy(1,2)] show "x = y" by simp
  qed
  with paths(1) have "distinct (rev (map (ze_name \<circ> snd) pairs))" by (simp only: distinct_map distinct_rev)
  then show "distinct (map fst (rev (map (\<lambda>(info, e). (ze_name e, info)) pairs)))"
    by (simp add: rev_map comp_def split_def)
  show "(ze_name e, info) \<in> set (rev (map (\<lambda>(info, e). (ze_name e, info)) pairs))" using assms(3) by force
qed

lemma sizes_mset: "mset es = mset fs \<Longrightarrow> sizes es = sizes fs"
  by (metis mset_map sum_mset_sum_list)

lemma drive_letter_refused:
  assumes "drive_letter ascii_letter_code (ze_path e)"
  shows "\<exists>x. check_manifest_entry limits e s = Inl x"
proof -
  have "\<exists>x. normalize_zip_member_path (ze_path e) = Inl x"
    using assms by (auto simp: normalize_zip_member_path_def)
  then show ?thesis by (auto simp: check_manifest_entry_def rbind_def)
qed

lemma each_refused: "e \<in> set es \<Longrightarrow> \<forall>s. \<exists>x. f e s = Inl x \<Longrightarrow> \<exists>x. each f es s = Inl x"
proof (induction es arbitrary: s)
  case (Cons a es)
  then show ?case
  proof (cases "e = a")
    case True
    with Cons.prems(2) obtain x where "f a s = Inl x" by blast
    then show ?thesis by simp
  next
    case False
    with Cons show ?thesis by (cases "f a s") auto
  qed
qed simp

text \<open>A manifest with a path that looks like a drive is refused before anything is written.\<close>

lemma drive_manifest_refused:
  assumes "e \<in> set (zm_entries m)" "drive_letter ascii_letter_code (ze_path e)"
  shows "\<exists>x. materialize_zip_archive a m limits = ([], Inl x)"
proof -
  have "\<exists>x. each (check_manifest_entry limits) (zm_entries m) ([], 0) = Inl x"
    by (rule each_refused [OF assms(1)]) (use drive_letter_refused [OF assms(2)] in blast)
  then have "\<exists>x. validate_materialization_manifest m limits = Inl x"
    by (auto simp: validate_materialization_manifest_def)
  then show ?thesis by (auto simp: materialize_zip_archive_def)
qed

lemma accepted_archive_extracts:
  assumes "validate_zip_archive casefold a limits filename = Inr m" and "limits_ok limits"
    and "\<And>e. e \<in> set (zm_entries m) \<Longrightarrow> \<not> drive_letter ascii_letter_code (ze_path e)"
  shows "\<exists>written. materialize_zip_archive a m limits
      = (map Extract_Directory (required_directories (zm_entries m)) @ written, Inr ())
    \<and> list_all2 writes_entry (filter (\<lambda>e. ze_kind e = Zip_File) (zm_entries m)) written"
proof -
  from assms(1) obtain infos pairs n actual where infos: "open_archive a limits = Inr infos"
    and st: "validate_structure infos limits = Inr (pairs, n)" and inf: "inflate_all a limits pairs 0 = Inr actual"
    and m: "zm_entries m = sort_key zip_order (map snd pairs)" "zm_total m = actual" "zm_cwd m = cwd_rel (zm_entries m)"
      "zm_size m = int (za_size a)"
    by (auto simp: validate_zip_archive_def rbind_Inr_iff Let_def)
  note tree = validate_structure_Inr [OF st assms(2)]
  have mset: "mset (zm_entries m) = mset (map snd pairs)" by (simp add: m)
  have entries: "set (zm_entries m) = snd ` set pairs" using mset_eq_setD [OF mset] by simp
  have ok: "\<forall>e \<in> set (zm_entries m). manifest_entry_ok limits e"
    using assms(3) tree entry_from_info_ok entries by fastforce
  have sizes: "sizes (zm_entries m) = n" "n \<le> al_total limits" using tree sizes_mset [OF mset] by simp_all
  have whole: "actual = n \<and> (\<forall>x \<in> set pairs. ze_kind (snd x) = Zip_File \<longrightarrow>
      (\<exists>b out. iter_info_chunks a (fst x) (snd x) limits b = (out, Inr ())))"
    using inflate_all_Inr [OF inf _ assms(2)] ok entries tree by (auto simp: manifest_entry_ok_def)
  have "zip_tree (zm_entries m)" using tree zip_tree_mset [OF mset] by simp
  then have "each (check_manifest_entry limits) (zm_entries m) ([], 0) = Inr (zm_entries m, n)"
    using check_manifest_each_ok [of "[]" "zm_entries m" limits 0] ok sizes by simp
  moreover have "length (zm_entries m) = length pairs" by (simp add: m)
  moreover have upload: "\<not> int (za_size a) > al_upload limits" using infos by (auto simp: open_archive_def)
  ultimately have "validate_materialization_manifest m limits = Inr ()"
    using tree m whole by (simp add: validate_materialization_manifest_def)
  then have mat: "materialize_zip_archive a m limits =
      (let (ops, r) = extract_files a limits (map_of (rev (map (\<lambda>(info, e). (ze_name e, info)) pairs))) (zm_entries m) 0
       in (map Extract_Directory (required_directories (zm_entries m)) @ ops, r))"
    using upload m infos st by (simp add: materialize_zip_archive_def Let_def)
  define lookup where "lookup = map_of (rev (map (\<lambda>(info, e). (ze_name e, info)) pairs))"
  have found: "\<forall>e \<in> set (files_of (zm_entries m)). \<exists>info out b. lookup (ze_name e) = Some info
      \<and> iter_info_chunks a info e limits b = (out, Inr ())"
  proof
    fix e assume "e \<in> set (files_of (zm_entries m))"
    with entries obtain info where i: "(info, e) \<in> set pairs" "ze_kind e = Zip_File" by (auto simp: files_of_def)
    with whole tree member_infos [of pairs limits info e]
    show "\<exists>info out b. lookup (ze_name e) = Some info \<and> iter_info_chunks a info e limits b = (out, Inr ())"
      unfolding lookup_def by fastforce
  qed
  have "\<forall>e \<in> set (zm_entries m). 0 \<le> ze_size e" using ok by (simp add: manifest_entry_ok_def)
  from extract_files_complete [OF found this _ assms(2), of 0] sizes
  obtain ops where "extract_files a limits lookup (zm_entries m) 0 = (ops, Inr ())"
    "list_all2 writes_entry (files_of (zm_entries m)) ops" by auto
  with mat show ?thesis unfolding lookup_def by (simp add: files_of_def)
qed

text \<open>C17: what validation accepts, extraction delivers: while the archive is still the one that was validated, every
  directory and every file of the manifest is created, each file with data of the recorded size and checksum, although the
  files are now read in another order. The exception: validation tests the raw name for a drive letter and extraction the
  normalized one, so an archive with a member like \<^verbatim>\<open>./C:/x\<close> is accepted, and then refused before anything is written.\<close>

theorem validated_archive_extracts:
  assumes "validate_zip_archive casefold a limits filename = Inr m" and "limits_ok limits"
  shows "if list_ex (\<lambda>e. drive_letter ascii_letter_code (ze_path e)) (zm_entries m)
    then \<exists>x. materialize_zip_archive a m limits = ([], Inl x)
    else \<exists>written. materialize_zip_archive a m limits
        = (map Extract_Directory (required_directories (zm_entries m)) @ written, Inr ())
      \<and> list_all2 writes_entry (filter (\<lambda>e. ze_kind e = Zip_File) (zm_entries m)) written"
  using accepted_archive_extracts [OF assms] drive_manifest_refused by (auto simp: list_ex_iff)

section \<open>A small archive\<close>

lemma crc_A: "crc32 [65] 0 = 0xD3D99E8B"
  by code_simp

definition member_d :: zip_info where
  "member_d = \<lparr>zi_name = [100, 47], zi_flags = 0, zi_attr = 0, zi_extra = [], zi_size = 0, zi_compressed = 0, zi_crc = 0\<rparr>"

definition member_a :: zip_info where
  "member_a = \<lparr>zi_name = [100, 47, 65], zi_flags = 0, zi_attr = 0x81ED0000, zi_extra = [], zi_size = 1, zi_compressed = 3,
     zi_crc = 0xD3D99E8B\<rparr>"

definition small_archive :: zip_archive where
  "small_archive = \<lparr>za_size = 30, za_magic = [80, 75, 3, 4], za_infos = Inr [member_d, member_a], za_data = (\<lambda>i. ([[65]], None))\<rparr>"

definition small_manifest :: zip_manifest where
  "small_manifest = \<lparr>zm_entries =
     [\<lparr>ze_path = [100], ze_kind = Zip_Directory, ze_size = 0, ze_compressed = 0, ze_crc = 0, ze_executable = False, ze_name = [100, 47]\<rparr>,
      \<lparr>ze_path = [100, 47, 65], ze_kind = Zip_File, ze_size = 1, ze_compressed = 3, ze_crc = 0xD3D99E8B, ze_executable = True,
       ze_name = [100, 47, 65]\<rparr>],
     zm_total = 1, zm_cwd = [100], zm_size = 30\<rparr>"

definition entry_d :: zip_entry where "entry_d = zm_entries small_manifest ! 0"
definition entry_a :: zip_entry where "entry_a = zm_entries small_manifest ! 1"

lemmas small_text = normalize_zip_member_path_def contains_control_def backslash_def slash_def drive_letter_def ascii_letter_code_def
  dot_def dotdot_def termroom_dir_def u_def utf8_encode_def scalar_def is_surrogate_def

lemma small_paths: "normalize_zip_member_path [100, 47] = Inr [100]" "normalize_zip_member_path [100, 47, 65] = Inr [100, 47, 65]"
  by (simp_all add: small_text Let_def)

lemma small_names: "utf8_encode [100, 47] = Some [100, 47]" "utf8_encode [100, 47, 65] = Some [100, 47, 65]"
  "utf8_bytes [100] = [100]" "utf8_bytes [100, 47, 65] = [100, 47, 65]" "ends_with [slash] [100, 47]" "\<not> ends_with [slash] [100, 47, 65]"
  by (simp_all add: utf8_encode_def scalar_def is_surrogate_def ends_with_def slash_def utf8_char_def)

lemma small_members: "zi_name member_d = [100, 47]" "zi_flags member_d = 0" "zi_attr member_d = 0" "zi_size member_d = 0"
  "zi_compressed member_d = 0" "zi_crc member_d = 0" "zi_name member_a = [100, 47, 65]" "zi_flags member_a = 0"
  "zi_attr member_a = 0x81ED0000" "zi_size member_a = 1" "zi_compressed member_a = 3" "zi_crc member_a = 0xD3D99E8B"
  "reject_link_extra_fields member_d = Inr ()" "reject_link_extra_fields member_a = Inr ()"
  by (simp_all add: member_d_def member_a_def reject_link_extra_fields_def)

lemma default_limits: "al_path default_archive_limits = 4096" "al_single default_archive_limits = 2147483648"
  by (simp_all add: default_archive_limits_def)

lemma small_entries:
  "entry_from_info member_d default_archive_limits = Inr entry_d" "entry_from_info member_a default_archive_limits = Inr entry_a"
  by (simp_all add: entry_from_info_def small_paths small_names small_members default_limits utf8_char_def file_type_def S_IFREG_def S_IFDIR_def
      Let_def any_execute_bit_def)
    (simp_all add: entry_d_def entry_a_def small_manifest_def)

lemma small_fields: "ze_path entry_d = [100]" "ze_kind entry_d = Zip_Directory" "ze_size entry_d = 0"
  "ze_path entry_a = [100, 47, 65]" "ze_kind entry_a = Zip_File" "ze_size entry_a = 1" "ze_crc entry_a = 0xD3D99E8B"
  by (simp_all add: entry_d_def entry_a_def small_manifest_def)

lemma small_structure:
  "validate_structure [member_d, member_a] default_archive_limits = Inr ([(member_d, entry_d), (member_a, entry_a)], 1)"
proof -
  have "\<not> zip_conflict [] entry_d" "\<not> zip_conflict [entry_d] entry_a"
    by (simp_all add: zip_conflict_iff small_fields)
  then show ?thesis
    by (simp add: validate_structure_def structure_step_def small_entries add_zip_entry_def small_fields)
      (simp add: default_archive_limits_def)
qed

lemma small_validated: "validate_zip_archive id small_archive default_archive_limits None = Inr small_manifest"
proof -
  have opened: "open_archive small_archive default_archive_limits = Inr [member_d, member_a]"
    by (simp add: open_archive_def small_archive_def default_archive_limits_def check_magic_def zip_magic_def)
  have "iter_info_chunks small_archive member_a entry_a default_archive_limits 0 = ([[65]], Inr ())"
    by (simp add: iter_info_chunks_def small_archive_def default_archive_limits_def crc_A small_fields Let_def)
  then have inflated: "inflate_all small_archive default_archive_limits [(member_d, entry_d), (member_a, entry_a)] 0 = Inr 1"
    by (simp add: small_fields)
  have order: "sort_key zip_order (map snd [(member_d, entry_d), (member_a, entry_a)]) = [entry_d, entry_a]"
    by (simp add: zip_order_def small_fields slash_def less_eq_prod_def less_prod_def)
  have cwd: "cwd_rel [entry_d, entry_a] = [100]"
    by (simp add: cwd_rel_def small_fields slash_def)
  have "zm_entries small_manifest = [entry_d, entry_a]" by (simp add: entry_d_def entry_a_def small_manifest_def)
  moreover have "zm_total small_manifest = 1" "zm_cwd small_manifest = [100]" "zm_size small_manifest = int (za_size small_archive)"
    by (simp_all add: small_manifest_def small_archive_def)
  ultimately show ?thesis
    unfolding validate_zip_archive_def option.case rbind_simps opened small_structure prod.case inflated Let_def order cwd
    by simp
qed

lemma default_limits_ok: "limits_ok default_archive_limits"
  by (simp add: limits_ok_def default_archive_limits_def)

lemma small_entries_safe: "e \<in> set (zm_entries small_manifest) \<Longrightarrow> \<not> drive_letter ascii_letter_code (ze_path e)"
  by (auto simp: small_manifest_def drive_letter_def ascii_letter_code_def)

theorem inflation_witness:
  "\<exists>out r. iter_info_chunks small_archive member_a entry_d default_archive_limits 0 = (out, r) \<and> r \<noteq> Inr ()
    \<and> int (length (concat out)) \<le> al_single default_archive_limits"
proof -
  obtain out r where i: "iter_info_chunks small_archive member_a entry_d default_archive_limits 0 = (out, r)" by force
  then have "r \<noteq> Inr ()"
    by (auto simp: iter_info_chunks_def small_archive_def default_archive_limits_def crc_A small_fields Let_def)
  with i inflation_is_bounded [OF i default_limits_ok] show ?thesis by (simp add: default_archive_limits_def)
qed

theorem extracts_witness:
  "\<exists>written. snd (materialize_zip_archive small_archive small_manifest default_archive_limits) = Inr () \<and> written \<noteq> []
    \<and> fst (materialize_zip_archive small_archive small_manifest default_archive_limits)
      = map Extract_Directory (required_directories (zm_entries small_manifest)) @ written"
proof -
  have "\<not> list_ex (\<lambda>e. drive_letter ascii_letter_code (ze_path e)) (zm_entries small_manifest)"
    using small_entries_safe by (auto simp: list_ex_iff)
  then obtain written where
    "materialize_zip_archive small_archive small_manifest default_archive_limits
      = (map Extract_Directory (required_directories (zm_entries small_manifest)) @ written, Inr ())"
    and "list_all2 writes_entry (filter (\<lambda>e. ze_kind e = Zip_File) (zm_entries small_manifest)) written"
    using validated_archive_extracts [OF small_validated default_limits_ok] by (simp only: if_False) blast
  then show ?thesis by (auto simp: small_manifest_def)
qed

theorem stays_inside_witness:
  "list_all (\<lambda>op. safe_path (op_path op)) (fst (materialize_zip_archive small_archive small_manifest default_archive_limits))
    \<and> distinct (map op_path (fst (materialize_zip_archive small_archive small_manifest default_archive_limits)))"
proof -
  obtain ops r where m: "materialize_zip_archive small_archive small_manifest default_archive_limits = (ops, r)" by force
  from extraction_stays_inside [OF m default_limits_ok] m show ?thesis by (simp add: list_all_iff)
qed

text \<open>
  Validation tests the raw name for a drive letter, extraction the normalized one: an archive with the
  member \<^verbatim>\<open>./C:/x\<close> is accepted and then refused.
\<close>

lemma drive_letter_after_normalization:
  "normalize_zip_member_path [46, 47, 67, 58, 47, 120] = Inr [67, 58, 47, 120]
    \<and> normalize_zip_member_path [67, 58, 47, 120] = Inl (Unsafe ''zip_path_absolute'')"
  by (simp add: small_text Let_def)

end
