(* ===== verification/Rate_Limit.thy ===== *)
theory Rate_Limit
  imports Prelude
begin

text \<open>
  The sliding-window limiter that \<^verbatim>\<open>auth.py\<close> (\<open>_allow_attempt\<close>) and \<^verbatim>\<open>node_core.py\<close>
  (\<open>NodePairingRateLimiter.allow\<close>) share: a deque of the times of admitted attempts, oldest first.
\<close>

definition attempt_window :: int where "attempt_window = 60"

definition attempt :: "nat \<Rightarrow> int \<Rightarrow> int list \<Rightarrow> bool \<times> int list" where
  "attempt limit now ts =
    (let live = dropWhile (\<lambda>t. now - t > attempt_window) ts in
     if limit \<le> length live then (False, live) else (True, live @ [now]))"

text \<open>What a limiter offers: a call at a time, and the deque it keeps for its caller.\<close>

locale rate_limiter =
  fixes allow :: "int \<Rightarrow> 's \<Rightarrow> bool \<times> 's" and deque :: "'s \<Rightarrow> int list" and limit :: nat
  assumes limit_pos: "0 < limit"
    and allow_deque: "fst (allow now s) = fst (attempt limit now (deque s))"
      "deque (snd (allow now s)) = snd (attempt limit now (deque s))"
begin

text \<open>The times a run of calls admits.\<close>

fun admitted :: "int list \<Rightarrow> 's \<Rightarrow> int list" where
  "admitted [] s = []"
| "admitted (t # ts) s = (if fst (allow t s) then [t] else []) @ admitted ts (snd (allow t s))"

text \<open>\<open>past\<close> are the times admitted so far; the deque is a suffix of them, and what is gone from it was older
  than the window at the last call.\<close>

definition tracks :: "int list \<Rightarrow> int \<Rightarrow> 's \<Rightarrow> bool" where
  "tracks past now s \<longleftrightarrow> sorted past \<and> (\<forall>t \<in> set past. t \<le> now)
    \<and> (\<exists>gone. past = gone @ deque s \<and> (\<forall>t \<in> set gone. now - t > attempt_window))
    \<and> (\<forall>i. i + limit < length past \<longrightarrow> past ! (i + limit) - past ! i > attempt_window)"

lemma tracks_allow:
  assumes "tracks past now s" and "now \<le> t"
  shows "tracks (past @ (if fst (allow t s) then [t] else [])) t (snd (allow t s))"
    and "\<not> fst (allow t s) \<Longrightarrow> limit \<le> length (filter (\<lambda>x. t - x \<le> attempt_window) past)"
proof -
  let ?old = "\<lambda>x. t - x > attempt_window"
  from assms(1) obtain gone where past: "sorted past" "past = gone @ deque s" and bound: "\<forall>x \<in> set past. x \<le> now"
    and gone: "\<forall>x \<in> set gone. now - x > attempt_window"
    and space: "\<And>i. i + limit < length past \<Longrightarrow> past ! (i + limit) - past ! i > attempt_window"
    by (auto simp: tracks_def)
  define dropped where "dropped = takeWhile ?old (deque s)"
  define live where "live = dropWhile ?old (deque s)"
  have split: "past = (gone @ dropped) @ live" by (simp add: past(2) dropped_def live_def)
  have old: "\<forall>x \<in> set (gone @ dropped). ?old x"
    using gone assms(2) by (auto simp: dropped_def dest: set_takeWhileD)
  have recent: "\<forall>x \<in> set live. \<not> ?old x"
  proof (cases live)
    case (Cons y ys)
    have y: "\<not> ?old y" using Cons by (simp add: live_def dropWhile_eq_Cons_conv)
    from past(1) have "sorted (y # ys)" unfolding split Cons by (simp add: sorted_append)
    then have "\<forall>x \<in> set ys. y \<le> x" by simp
    with y Cons show ?thesis by auto
  qed simp
  have bound': "\<forall>x \<in> set past. x \<le> t" using bound assms(2) by force
  have allow: "fst (allow t s) \<longleftrightarrow> length live < limit"
    "deque (snd (allow t s)) = (if length live < limit then live @ [t] else live)"
    by (auto simp: allow_deque attempt_def live_def Let_def)
  have spaced: "(past @ [t]) ! (i + limit) - (past @ [t]) ! i > attempt_window" if "length live < limit" "i + limit < length (past @ [t])" for i
  proof (cases "i + limit < length past")
    case True
    with space [OF True] show ?thesis by (simp add: nth_append)
  next
    case False
    with that(2) have i: "i + limit = length past" by simp
    with that(1) split have "i < length (gone @ dropped)" by (metis add.commute add_less_cancel_left length_append nat_add_left_cancel_less)
    then have "past ! i \<in> set (gone @ dropped)" unfolding split by (metis nth_append nth_mem)
    with old i limit_pos show ?thesis by (auto simp: nth_append)
  qed
  show "tracks (past @ (if fst (allow t s) then [t] else [])) t (snd (allow t s))"
  proof (cases "length live < limit")
    case True
    have "sorted (past @ [t])" using past(1) bound' by (simp add: sorted_append)
    moreover have "\<exists>g. past @ [t] = g @ deque (snd (allow t s)) \<and> (\<forall>x \<in> set g. ?old x)"
      using True split old allow by (intro exI [of _ "gone @ dropped"]) simp
    ultimately show ?thesis using True allow bound' spaced [OF True] by (simp add: tracks_def)
  next
    case False
    have "\<exists>g. past = g @ deque (snd (allow t s)) \<and> (\<forall>x \<in> set g. ?old x)"
      using False split old allow by (intro exI [of _ "gone @ dropped"]) simp
    with False allow bound' past(1) space show ?thesis by (simp add: tracks_def)
  qed
  show "limit \<le> length (filter (\<lambda>x. t - x \<le> attempt_window) past)" if "\<not> fst (allow t s)"
  proof -
    have "filter (\<lambda>x. t - x \<le> attempt_window) live = live" using recent by (simp add: filter_id_conv not_less)
    with that allow split show ?thesis by simp
  qed
qed

lemma tracks_admitted:
  assumes "tracks past now s" and "sorted (now # ts)"
  shows "\<exists>now' s'. tracks (past @ admitted ts s) now' s'"
  using assms
proof (induction ts arbitrary: past now s)
  case (Cons t ts)
  from tracks_allow(1) [OF Cons.prems(1), of t] Cons.prems(2)
  have "tracks (past @ (if fst (allow t s) then [t] else [])) t (snd (allow t s))" by simp
  from Cons.IH [OF this] Cons.prems(2) show ?case by (auto split: if_splits)
qed auto

lemma admitted_cong: "deque s = deque s' \<Longrightarrow> admitted ts s = admitted ts s'"
  by (induction ts arbitrary: s s') (simp_all add: allow_deque)

lemma tracks_later: "tracks past now s \<Longrightarrow> now \<le> t \<Longrightarrow> deque s' = deque s \<Longrightarrow> tracks past t s'"
  unfolding tracks_def by (elim conjE exE, intro conjI exI) force+

lemma tracks_reset: "deque s = [] \<Longrightarrow> tracks [] t s"
  by (simp add: tracks_def)

text \<open>No window holds more admitted attempts than the limit.\<close>

lemma spaced_window:
  assumes "sorted g" and space: "\<And>i. i + limit < length g \<Longrightarrow> g ! (i + limit) - g ! i > attempt_window"
  shows "length (filter (\<lambda>t. x \<le> t \<and> t \<le> x + attempt_window) g) \<le> limit"
proof (rule ccontr)
  let ?g = g and ?in = "\<lambda>t. x \<le> t \<and> t \<le> x + attempt_window"
  define ix where "ix = filter (\<lambda>i. ?in (?g ! i)) [0..<length ?g]"
  have "filter ?in (map ((!) ?g) [0..<length ?g]) = map ((!) ?g) ix" by (simp only: ix_def filter_map comp_def)
  then have "filter ?in ?g = map ((!) ?g) ix" by (simp only: map_nth)
  moreover assume "\<not> length (filter ?in ?g) \<le> limit"
  ultimately have len: "limit < length ix" by simp
  have strict: "sorted_wrt (<) ix" unfolding ix_def by (rule sorted_wrt_filter) (simp add: strict_sorted_iff)
  have grow: "ix ! 0 + k \<le> ix ! k" if "k < length ix" for k
    using that
  proof (induction k)
    case (Suc k)
    with strict have "ix ! k < ix ! Suc k" by (intro sorted_wrt_nth_less) auto
    with Suc show ?case by simp
  qed simp
  have mem: "ix ! k < length ?g \<and> ?in (?g ! (ix ! k))" if "k < length ix" for k
    using nth_mem [OF that] by (auto simp: ix_def)
  have first: "x \<le> ?g ! (ix ! 0)" using mem [of 0] len by fastforce
  have last: "?g ! (ix ! limit) \<le> x + attempt_window" using mem [OF len] by blast
  have "ix ! 0 + limit < length ?g" using grow [OF len] mem [OF len] by linarith
  moreover have "?g ! (ix ! 0 + limit) \<le> ?g ! (ix ! limit)"
    using sorted_nth_mono [OF assms(1) grow [OF len]] mem [OF len] by blast
  ultimately show False using space [of "ix ! 0"] first last by linarith
qed

lemma window_bound:
  assumes "tracks past now s" and "sorted (now # ts)"
  shows "length (filter (\<lambda>t. x \<le> t \<and> t \<le> x + attempt_window) (admitted ts s)) \<le> limit"
proof -
  from tracks_admitted [OF assms] obtain now' s' where "tracks (past @ admitted ts s) now' s'" by blast
  then have "sorted (past @ admitted ts s)"
    "\<And>i. i + limit < length (past @ admitted ts s) \<Longrightarrow> (past @ admitted ts s) ! (i + limit) - (past @ admitted ts s) ! i > attempt_window"
    by (simp_all add: tracks_def)
  from spaced_window [OF this, of x] show ?thesis by simp
qed

end

end
