(* ===== verification/Python_Int.thy ===== *)
theory Python_Int
  imports Python_Text
begin

text \<open>
  Python's \<^verbatim>\<open>str(n)\<close> and \<^verbatim>\<open>int(s)\<close> on integers, and \<^verbatim>\<open>bytes.hex()\<close>. \<open>decimal\<close> is \<^verbatim>\<open>unicodedata.decimal\<close>: the
  value of a decimal digit of any script.
\<close>

fun nat_digits :: "nat \<Rightarrow> ustr" where
  "nat_digits n = (if n < 10 then [48 + n] else nat_digits (n div 10) @ [48 + n mod 10])"

declare nat_digits.simps [simp del]

definition py_str_int :: "int \<Rightarrow> ustr" where
  "py_str_int i = (if i < 0 then 45 # nat_digits (nat (- i)) else nat_digits (nat i))"

text \<open>The digits of \<^verbatim>\<open>int(s)\<close>: at least one, single underscores only between digits.\<close>

fun scan_digits :: "(nat \<Rightarrow> nat option) \<Rightarrow> ustr \<Rightarrow> nat list option" where
  "scan_digits decimal [] = None"
| "scan_digits decimal [c] = map_option (\<lambda>d. [d]) (decimal c)"
| "scan_digits decimal (c # d # cs) =
     (case decimal c of
        None \<Rightarrow> None
      | Some x \<Rightarrow> map_option ((#) x) (scan_digits decimal (if d = 95 then cs else d # cs)))"

definition digits_value :: "nat list \<Rightarrow> nat" where
  "digits_value ds = foldl (\<lambda>n d. 10 * n + d) 0 ds"

definition max_str_digits :: nat where "max_str_digits = 4300"

text \<open>\<^verbatim>\<open>None\<close> is \<^verbatim>\<open>ValueError\<close>; more than 4300 digits are refused by the interpreter.\<close>

definition py_int :: "(nat \<Rightarrow> nat option) \<Rightarrow> ustr \<Rightarrow> int option" where
  "py_int decimal s =
    (let t = strip s;
         negative = (t \<noteq> [] \<and> hd t = 45);
         body = (if t \<noteq> [] \<and> (hd t = 45 \<or> hd t = 43) then tl t else t) in
     case scan_digits decimal body of
       None \<Rightarrow> None
     | Some ds \<Rightarrow> if length ds > max_str_digits then None
                  else Some (if negative then - int (digits_value ds) else int (digits_value ds)))"

definition ascii_decimal :: "(nat \<Rightarrow> nat option) \<Rightarrow> bool" where
  "ascii_decimal decimal \<longleftrightarrow> (\<forall>c. 48 \<le> c \<and> c \<le> 57 \<longrightarrow> decimal c = Some (c - 48))"

lemma nat_digits_cases: "n < 10 \<Longrightarrow> nat_digits n = [48 + n]" "\<not> n < 10 \<Longrightarrow> nat_digits n = nat_digits (n div 10) @ [48 + n mod 10]"
  by (subst nat_digits.simps, simp)+

lemma nat_digits_range: "\<forall>c \<in> set (nat_digits n). 48 \<le> c \<and> c \<le> 57"
proof (induction n rule: nat_digits.induct)
  case (1 n)
  then show ?case by (cases "n < 10") (auto simp: nat_digits_cases)
qed

lemma nat_digits_not_Nil [simp]: "nat_digits n \<noteq> []"
  by (subst nat_digits.simps) auto

lemma nat_digits_value: "digits_value (map (\<lambda>c. c - 48) (nat_digits n)) = n"
proof (induction n rule: nat_digits.induct)
  case (1 n)
  show ?case
  proof (cases "n < 10")
    case False
    with 1 have ih: "digits_value (map (\<lambda>c. c - 48) (nat_digits (n div 10))) = n div 10" by blast
    from False have "nat_digits n = nat_digits (n div 10) @ [48 + n mod 10]" by (subst nat_digits.simps) simp
    with ih show ?thesis by (simp add: digits_value_def)
  qed (subst nat_digits.simps, simp add: digits_value_def)
qed

lemma length_nat_digits: "0 < k \<Longrightarrow> n < 10 ^ k \<Longrightarrow> length (nat_digits n) \<le> k"
proof (induction n arbitrary: k rule: nat_digits.induct)
  case (1 n)
  show ?case
  proof (cases "n < 10")
    case True
    with 1 show ?thesis by (subst nat_digits.simps) simp
  next
    case False
    with 1(3) have "k \<noteq> 1" by auto
    with 1(2) obtain j where k: "k = Suc j" "0 < j" by (metis One_nat_def gr0_conv_Suc neq0_conv)
    with 1(3) have "n div 10 < 10 ^ j" by (simp add: less_mult_imp_div_less mult.commute)
    with 1(1) [OF False k(2)] k False show ?thesis by (subst nat_digits.simps) simp
  qed
qed

lemma scan_digits_plain:
  assumes "ascii_decimal decimal"
  shows "s \<noteq> [] \<Longrightarrow> \<forall>c \<in> set s. 48 \<le> c \<and> c \<le> 57 \<Longrightarrow> scan_digits decimal s = Some (map (\<lambda>c. c - 48) s)"
  using assms
proof (induction decimal s rule: scan_digits.induct)
  case (3 decimal c d cs)
  then have "decimal c = Some (c - 48)" "d \<noteq> 95" by (auto simp: ascii_decimal_def)
  with 3 show ?case by auto
qed (auto simp: ascii_decimal_def)

lemma strip_no_space: "\<forall>c \<in> set s. \<not> is_space c \<Longrightarrow> strip s = s"
proof -
  assume "\<forall>c \<in> set s. \<not> is_space c"
  then have "dropWhile is_space s = s" "dropWhile is_space (rev s) = rev s"
    by (auto simp: dropWhile_eq_self_iff hd_rev)
  then show ?thesis by (simp add: strip_def)
qed

text \<open>\<^verbatim>\<open>int(str(n)) == n\<close> for the numbers short enough to be parsed.\<close>

lemma py_int_str:
  assumes "ascii_decimal decimal" and "0 \<le> i" and "i < 10 ^ max_str_digits"
  shows "py_int decimal (py_str_int i) = Some i"
proof -
  let ?s = "nat_digits (nat i)"
  note range = nat_digits_range [of "nat i"]
  have "strip ?s = ?s" using range by (intro strip_no_space) (auto simp: is_space_def)
  moreover have "hd ?s \<noteq> 45 \<and> hd ?s \<noteq> 43" using bspec [OF range hd_in_set [OF nat_digits_not_Nil]] by auto
  moreover have "nat i < 10 ^ max_str_digits" using assms(2,3) by (simp add: nat_less_iff)
  then have "length ?s \<le> max_str_digits" by (rule length_nat_digits [rotated]) (simp add: max_str_digits_def)
  moreover note scan_digits_plain [OF assms(1) nat_digits_not_Nil range] nat_digits_value [of "nat i"]
  ultimately show ?thesis using assms(2) by (simp add: py_int_def py_str_int_def Let_def)
qed

definition hex_digit :: "nat \<Rightarrow> nat" where
  "hex_digit n = (if n < 10 then 48 + n else 87 + n)"

definition hex :: "bytes \<Rightarrow> ustr" where
  "hex bs = concat (map (\<lambda>b. [hex_digit (b div 16 mod 16), hex_digit (b mod 16)]) bs)"

lemma hex_digit_range: "c \<in> set (hex bs) \<Longrightarrow> (48 \<le> c \<and> c \<le> 57) \<or> (97 \<le> c \<and> c \<le> 102)"
proof -
  have "n < 16 \<Longrightarrow> (48 \<le> hex_digit n \<and> hex_digit n \<le> 57) \<or> (97 \<le> hex_digit n \<and> hex_digit n \<le> 102)" for n
    by (auto simp: hex_digit_def)
  moreover have "\<exists>n < 16. c = hex_digit n" if "c \<in> set (hex bs)"
  proof -
    from that obtain b where "c = hex_digit (b div 16 mod 16) \<or> c = hex_digit (b mod 16)" by (auto simp: hex_def)
    moreover have "b div 16 mod 16 < 16" "b mod 16 < 16" by simp_all
    ultimately show ?thesis by blast
  qed
  ultimately show "c \<in> set (hex bs) \<Longrightarrow> ?thesis" by blast
qed

end
