(* ===== verification/Session_Auth.thy ===== *)
theory Session_Auth
  imports Rate_Limit Python_Int
begin

text \<open>
  Login and sessions (\<^verbatim>\<open>termroom/auth.py\<close>). \<open>hmac key message\<close> is HMAC-SHA256 and \<open>sha\<close> is SHA-256 (digests as
  bytes), \<open>decimal\<close> is \<^verbatim>\<open>unicodedata.decimal\<close>. A login reads two clocks: \<open>now\<close> is \<^verbatim>\<open>time.time()\<close> in seconds,
  \<open>clock\<close> is \<^verbatim>\<open>time.monotonic()\<close>.
\<close>

section \<open>State\<close>

record auth_settings =
  login_password :: ustr
  access_token :: ustr

record auth_manager =
  am_settings :: auth_settings
  am_attempts :: "ustr \<Rightarrow> int list"
  am_key :: bytes

record auth_session =
  as_id :: ustr
  as_issued :: int
  as_expires_at :: int
  as_expires_in :: int

datatype auth_error = Auth_Rate_Limited | Unicode_Encode_Error

definition session_max_age :: int where "session_max_age = 60 * 60 * 24 * 30"
definition session_clock_skew :: int where "session_clock_skew = 5 * 60"
definition max_login_attempts :: nat where "max_login_attempts = 10"
definition dot_code :: nat where "dot_code = 46"

definition encode :: "ustr \<Rightarrow> auth_error + bytes" where
  "encode s = (case utf8_encode s of None \<Rightarrow> Inl Unicode_Encode_Error | Some b \<Rightarrow> Inr b)"

definition auth_init :: "(bytes \<Rightarrow> bytes \<Rightarrow> bytes) \<Rightarrow> auth_settings \<Rightarrow> auth_error + auth_manager" where
  "auth_init hmac settings =
    rbind (encode (u ''termroom-session'' @ [0] @ login_password settings)) (\<lambda>material.
      rbind (encode (access_token settings)) (\<lambda>token.
        Inr \<lparr>am_settings = settings, am_attempts = (\<lambda>_. []), am_key = hmac token material\<rparr>))"

section \<open>Login\<close>

definition secure_compare :: "ustr \<Rightarrow> ustr \<Rightarrow> auth_error + bool" where
  "secure_compare left right =
    (if left = [] then Inr False
     else rbind (encode left) (\<lambda>l. rbind (encode right) (\<lambda>r. Inr (l = r))))"

definition attempt_key :: "ustr \<Rightarrow> ustr" where
  "attempt_key key = (if key = [] then u ''unknown'' else key)"

definition allow_attempt :: "ustr \<Rightarrow> int \<Rightarrow> auth_manager \<Rightarrow> bool \<times> auth_manager" where
  "allow_attempt key clock m =
    (let k = attempt_key key; (ok, ts) = attempt max_login_attempts clock (am_attempts m k)
     in (ok, m\<lparr>am_attempts := (am_attempts m)(k := ts)\<rparr>))"

definition session_payload :: "int \<Rightarrow> ustr \<Rightarrow> ustr" where
  "session_payload issued nonce = py_str_int issued @ [dot_code] @ nonce"

definition session_signature :: "(bytes \<Rightarrow> bytes \<Rightarrow> bytes) \<Rightarrow> bytes \<Rightarrow> ustr \<Rightarrow> auth_error + ustr" where
  "session_signature hmac key payload = rbind (encode payload) (\<lambda>b. Inr (hex (hmac key b)))"

definition login ::
    "(bytes \<Rightarrow> bytes \<Rightarrow> bytes) \<Rightarrow> ustr \<Rightarrow> ustr \<Rightarrow> int \<Rightarrow> int \<Rightarrow> ustr \<Rightarrow> auth_manager
      \<Rightarrow> (auth_error + ustr option) \<times> auth_manager" where
  "login hmac supplied remote_key clock now nonce m =
    (case allow_attempt remote_key clock m of
       (False, m1) \<Rightarrow> (Inl Auth_Rate_Limited, m1)
     | (True, m1) \<Rightarrow>
        (case secure_compare supplied (login_password (am_settings m1)) of
           Inl e \<Rightarrow> (Inl e, m1)
         | Inr False \<Rightarrow> (Inr None, m1)
         | Inr True \<Rightarrow>
             (let m2 = m1\<lparr>am_attempts := (am_attempts m1)(attempt_key remote_key := [])\<rparr>;
                  payload = session_payload now nonce
              in (rbind (session_signature hmac (am_key m2) payload) (\<lambda>signature.
                    Inr (Some (payload @ [dot_code] @ signature))), m2))))"

section \<open>Sessions\<close>

definition decode_session ::
    "(bytes \<Rightarrow> bytes \<Rightarrow> bytes) \<Rightarrow> (bytes \<Rightarrow> bytes) \<Rightarrow> (nat \<Rightarrow> nat option) \<Rightarrow> int \<Rightarrow> ustr \<Rightarrow> auth_manager
      \<Rightarrow> auth_error + auth_session option" where
  "decode_session hmac sha decimal now token m =
    (case split_on dot_code token of
       [issued_raw, nonce, signature] \<Rightarrow>
         if issued_raw = [] \<or> nonce = [] \<or> signature = [] then Inr None
         else (case py_int decimal issued_raw of
            None \<Rightarrow> Inr None
          | Some issued_at \<Rightarrow>
              if issued_at > now + session_clock_skew then Inr None
              else if now - issued_at > session_max_age then Inr None
              else rbind (session_signature hmac (am_key m) (session_payload issued_at nonce)) (\<lambda>expected.
                rbind (secure_compare signature expected) (\<lambda>same.
                  if \<not> same then Inr None
                  else rbind (encode nonce) (\<lambda>b.
                    Inr (Some \<lparr>as_id = take 32 (hex (sha b)), as_issued = issued_at,
                           as_expires_at = issued_at + session_max_age,
                           as_expires_in = max 0 (issued_at + session_max_age - now)\<rparr>)))))
     | _ \<Rightarrow> Inr None)"

section \<open>What a session proves\<close>

lemma encode_Inr: "encode s = Inr b \<longleftrightarrow> list_all scalar s \<and> b = utf8_bytes s"
  by (auto simp: encode_def utf8_encode_def)

lemma secure_compare_True: "secure_compare a b = Inr True \<longleftrightarrow> a \<noteq> [] \<and> a = b \<and> list_all scalar a"
proof -
  have "utf8_bytes a = utf8_bytes b \<Longrightarrow> list_all scalar a \<Longrightarrow> list_all scalar b \<Longrightarrow> a = b"
    using decode_encode by (metis option.inject)
  then show ?thesis by (auto simp: secure_compare_def rbind_Inr_iff encode_Inr)
qed

lemma hex_scalar: "list_all scalar (hex b)"
  by (auto simp: list_all_iff scalar_def is_surrogate_def dest!: hex_digit_range)

lemma hex_no_dot: "dot_code \<notin> set (hex b)"
  by (auto simp: dot_code_def dest!: hex_digit_range)

lemma decode_session_Some:
  "decode_session hmac sha decimal now token m = Inr (Some s) \<longleftrightarrow>
    (\<exists>raw nonce. split_on dot_code token = [raw, nonce, hex (hmac (am_key m) (utf8_bytes (session_payload (as_issued s) nonce)))]
      \<and> raw \<noteq> [] \<and> nonce \<noteq> [] \<and> hex (hmac (am_key m) (utf8_bytes (session_payload (as_issued s) nonce))) \<noteq> []
      \<and> py_int decimal raw = Some (as_issued s) \<and> list_all scalar (session_payload (as_issued s) nonce)
      \<and> as_issued s \<le> now + session_clock_skew \<and> now - as_issued s \<le> session_max_age
      \<and> s = \<lparr>as_id = take 32 (hex (sha (utf8_bytes nonce))), as_issued = as_issued s,
             as_expires_at = as_issued s + session_max_age, as_expires_in = as_issued s + session_max_age - now\<rparr>)"
  (is "?l \<longleftrightarrow> ?r")
proof
  assume ?l
  then obtain raw nonce signature where "split_on dot_code token = [raw, nonce, signature]"
    by (auto simp: decode_session_def split: list.splits)
  with \<open>?l\<close> show ?r
    by (auto simp: decode_session_def session_signature_def rbind_Inr_iff encode_Inr secure_compare_True split: if_splits option.splits)
next
  assume ?r
  then obtain raw nonce where r: "split_on dot_code token = [raw, nonce, hex (hmac (am_key m) (utf8_bytes (session_payload (as_issued s) nonce)))]"
    "raw \<noteq> []" "nonce \<noteq> []" "hex (hmac (am_key m) (utf8_bytes (session_payload (as_issued s) nonce))) \<noteq> []"
    "py_int decimal raw = Some (as_issued s)" "list_all scalar (session_payload (as_issued s) nonce)"
    "as_issued s \<le> now + session_clock_skew" "now - as_issued s \<le> session_max_age"
    and s: "s = \<lparr>as_id = take 32 (hex (sha (utf8_bytes nonce))), as_issued = as_issued s,
             as_expires_at = as_issued s + session_max_age, as_expires_in = as_issued s + session_max_age - now\<rparr>" by blast
  have n: "list_all scalar nonce" using r(6) by (simp add: session_payload_def)
  have sig: "session_signature hmac (am_key m) (session_payload (as_issued s) nonce)
      = Inr (hex (hmac (am_key m) (utf8_bytes (session_payload (as_issued s) nonce))))"
    using r(6) by (simp add: session_signature_def rbind_Inr_iff encode_Inr)
  have "secure_compare (hex (hmac (am_key m) (utf8_bytes (session_payload (as_issued s) nonce))))
      (hex (hmac (am_key m) (utf8_bytes (session_payload (as_issued s) nonce)))) = Inr True"
    using r(4) hex_scalar by (simp add: secure_compare_True)
  moreover have "encode nonce = Inr (utf8_bytes nonce)" using n by (simp add: encode_Inr)
  ultimately have "decode_session hmac sha decimal now token m = Inr (Some \<lparr>as_id = take 32 (hex (sha (utf8_bytes nonce))),
      as_issued = as_issued s, as_expires_at = as_issued s + session_max_age,
      as_expires_in = max 0 (as_issued s + session_max_age - now)\<rparr>)"
    using r sig by (simp add: decode_session_def)
  moreover have "max 0 (as_issued s + session_max_age - now) = as_issued s + session_max_age - now" using r(8) by simp
  ultimately show ?l using s by simp
qed

end
