(* ===== verification/Session_Properties.thy ===== *)
theory Session_Properties
  imports Session_Auth
begin

text \<open>
  A session is accepted for thirty days after its login and only with the signature of the current
  password, and wrong passwords are compared at most ten times a minute for one remote address.
\<close>

section \<open>Issued sessions\<close>

lemma allow_attempt_frame: "allow_attempt key clock m = (ok, m') \<Longrightarrow> am_key m' = am_key m \<and> am_settings m' = am_settings m"
  by (auto simp: allow_attempt_def Let_def split: prod.splits)

lemma login_token:
  assumes "login hmac supplied key clock now nonce m = (Inr (Some token), m')"
  shows "am_key m' = am_key m \<and> supplied = login_password (am_settings m) \<and> list_all scalar (session_payload now nonce)
    \<and> token = session_payload now nonce @ [dot_code] @ hex (hmac (am_key m) (utf8_bytes (session_payload now nonce)))"
proof -
  obtain ok m1 where a: "allow_attempt key clock m = (ok, m1)" by force
  note frame = allow_attempt_frame [OF a]
  from assms a have ok: ok by (cases ok) (simp_all add: login_def)
  with assms a have same: "secure_compare supplied (login_password (am_settings m1)) = Inr True"
    by (auto simp: login_def split: sum.splits bool.splits)
  with assms a ok frame have "am_key m' = am_key m" and "list_all scalar (session_payload now nonce)"
    and "token = session_payload now nonce @ [dot_code] @ hex (hmac (am_key m) (utf8_bytes (session_payload now nonce)))"
    by (auto simp: login_def session_signature_def rbind_Inr_iff encode_Inr Let_def)
  with same frame show ?thesis by (simp add: secure_compare_True)
qed

lemma decimal_no_dot: "dot_code \<notin> set (py_str_int now)" "py_str_int now \<noteq> []"
  using nat_digits_range [of "nat now"] nat_digits_range [of "nat (- now)"]
  by (auto simp: py_str_int_def dot_code_def)

text \<open>C19: a login issues a session that every later check accepts for thirty days, with the issue time of the
  login, and refuses afterwards; a clock that runs back by more than five minutes refuses it too.\<close>

theorem issued_session_lasts_thirty_days:
  assumes "login hmac supplied key clock now nonce m = (Inr (Some token), m')"
    and "nonce \<noteq> []" and "dot_code \<notin> set nonce" and "0 \<le> now" and "now < 10 ^ max_str_digits"
    and "ascii_decimal decimal" and "\<And>k b. hmac k b \<noteq> []"
  shows "decode_session hmac sha decimal later token m' =
    Inr (if now \<le> later + 300 \<and> later \<le> now + 2592000
         then Some \<lparr>as_id = take 32 (hex (sha (utf8_bytes nonce))), as_issued = now, as_expires_at = now + 2592000,
                as_expires_in = now + 2592000 - later\<rparr>
         else None)"
proof -
  let ?sig = "hex (hmac (am_key m) (utf8_bytes (session_payload now nonce)))"
  note t = login_token [OF assms(1)]
  have token: "token = py_str_int now @ dot_code # nonce @ dot_code # ?sig" using t by (simp add: session_payload_def)
  have parts: "split_on dot_code token = [py_str_int now, nonce, ?sig]"
    unfolding token using assms(3) decimal_no_dot hex_no_dot by (simp add: split_on_word_append split_on_word)
  have sig: "?sig \<noteq> []" using assms(7) by (cases "hmac (am_key m) (utf8_bytes (session_payload now nonce))") (auto simp: hex_def)
  have issued: "py_int decimal (py_str_int now) = Some now" by (rule py_int_str [OF assms(6,4,5)])
  show ?thesis
  proof (cases "now \<le> later + 300 \<and> later \<le> now + 2592000")
    case True
    let ?s = "\<lparr>as_id = take 32 (hex (sha (utf8_bytes nonce))), as_issued = now, as_expires_at = now + 2592000,
                as_expires_in = now + 2592000 - later\<rparr>"
    have "decode_session hmac sha decimal later token m' = Inr (Some ?s)"
      unfolding decode_session_Some using True parts sig issued assms(2) t decimal_no_dot(2)
      by (auto simp: session_clock_skew_def session_max_age_def)
    with True show ?thesis by simp
  next
    case False
    then have "decode_session hmac sha decimal later token m' = Inr None"
      using parts issued assms(2) sig decimal_no_dot
      by (auto simp: decode_session_def session_clock_skew_def session_max_age_def)
    with False show ?thesis by auto
  qed
qed

section \<open>Runs of logins\<close>

record login_call =
  lc_supplied :: ustr
  lc_remote :: ustr
  lc_clock :: int
  lc_now :: int
  lc_nonce :: ustr

fun login_run ::
    "(bytes \<Rightarrow> bytes \<Rightarrow> bytes) \<Rightarrow> login_call list \<Rightarrow> auth_manager \<Rightarrow> (login_call \<times> (auth_error + ustr option)) list" where
  "login_run hmac [] m = []"
| "login_run hmac (c # cs) m =
     (case login hmac (lc_supplied c) (lc_remote c) (lc_clock c) (lc_now c) (lc_nonce c) m of
        (r, m') \<Rightarrow> (c, r) # login_run hmac cs m')"

fun after_logins :: "(bytes \<Rightarrow> bytes \<Rightarrow> bytes) \<Rightarrow> login_call list \<Rightarrow> auth_manager \<Rightarrow> auth_manager" where
  "after_logins hmac [] m = m"
| "after_logins hmac (c # cs) m =
     after_logins hmac cs (snd (login hmac (lc_supplied c) (lc_remote c) (lc_clock c) (lc_now c) (lc_nonce c) m))"

lemma login_keeps: "am_key (snd (login hmac a b c d n m)) = am_key m \<and> am_settings (snd (login hmac a b c d n m)) = am_settings m"
  by (auto simp: login_def Let_def split: prod.splits bool.splits sum.splits dest: allow_attempt_frame)

lemma logins_keep: "am_key (after_logins hmac cs m) = am_key m \<and> am_settings (after_logins hmac cs m) = am_settings m"
  by (induction cs arbitrary: m) (simp_all add: login_keeps)

section \<open>Accepted sessions\<close>

text \<open>C20: a session that a running server accepts carries the signature of its own issue time and nonce under the key made
  of the password and the access token it was started with, and it is at most thirty days old; and a server that was
  started with another password or token accepts it only if HMAC gives the payload the same signature under both keys. So
  a new password ends all sessions.\<close>

theorem accepted_session_is_signed:
  assumes init: "auth_init hmac settings = Inr m"
    and seen: "decode_session hmac sha decimal now token (after_logins hmac cs m) = Inr (Some s)"
    and init2: "auth_init hmac settings2 = Inr m2"
  shows "\<exists>raw nonce. split_on dot_code token = [raw, nonce, hex (hmac
        (hmac (utf8_bytes (access_token settings)) (utf8_bytes (u ''termroom-session'' @ [0] @ login_password settings)))
        (utf8_bytes (session_payload (as_issued s) nonce)))]
    \<and> py_int decimal raw = Some (as_issued s) \<and> now - 2592000 \<le> as_issued s \<and> as_issued s \<le> now + 300
    \<and> (\<forall>later cs2 s2. decode_session hmac sha decimal later token (after_logins hmac cs2 m2) = Inr (Some s2) \<longrightarrow>
        hex (hmac (hmac (utf8_bytes (access_token settings2)) (utf8_bytes (u ''termroom-session'' @ [0] @ login_password settings2)))
          (utf8_bytes (session_payload (as_issued s) nonce)))
        = hex (hmac (hmac (utf8_bytes (access_token settings)) (utf8_bytes (u ''termroom-session'' @ [0] @ login_password settings)))
          (utf8_bytes (session_payload (as_issued s) nonce))))"
proof -
  have key: "am_key (after_logins hmac cs m) = hmac (utf8_bytes (access_token st)) (utf8_bytes (u ''termroom-session'' @ [0] @ login_password st))"
    if "auth_init hmac st = Inr m" for st cs m
    using that unfolding logins_keep [THEN conjunct1] by (auto simp: auth_init_def rbind_Inr_iff encode_Inr)
  let ?key = "am_key (after_logins hmac cs m)"
  from seen obtain raw nonce where parts: "split_on dot_code token = [raw, nonce, hex (hmac ?key (utf8_bytes (session_payload (as_issued s) nonce)))]"
    and raw: "py_int decimal raw = Some (as_issued s)"
    and time: "as_issued s \<le> now + session_clock_skew" "now - as_issued s \<le> session_max_age"
    unfolding decode_session_Some by blast
  have "hex (hmac (am_key (after_logins hmac cs2 m2)) (utf8_bytes (session_payload (as_issued s) nonce)))
      = hex (hmac ?key (utf8_bytes (session_payload (as_issued s) nonce)))"
    if "decode_session hmac sha decimal later token (after_logins hmac cs2 m2) = Inr (Some s2)" for later cs2 s2
    using that parts raw by (auto simp: decode_session_Some)
  with parts raw time show ?thesis
    unfolding key [OF init] key [OF init2] by (auto simp: session_clock_skew_def session_max_age_def)
qed

section \<open>Guesses\<close>

interpretation login_limit: rate_limiter "allow_attempt key" "\<lambda>m. am_attempts m (attempt_key key)" max_login_attempts for key
  by unfold_locales (auto simp: allow_attempt_def max_login_attempts_def Let_def split: prod.splits)

text \<open>The times at which a password of the remote address was compared.\<close>

definition compared :: "ustr \<Rightarrow> (login_call \<times> (auth_error + ustr option)) list \<Rightarrow> int list" where
  "compared key run = map (\<lambda>(c, r). lc_clock c)
     (filter (\<lambda>(c, r). attempt_key (lc_remote c) = attempt_key key \<and> r \<noteq> Inl Auth_Rate_Limited) run)"

lemma login_result:
  assumes "login hmac supplied key clock now nonce m = (r, m')"
  shows "am_settings m' = am_settings m"
    and "r = Inl Auth_Rate_Limited \<longleftrightarrow> \<not> fst (allow_attempt key clock m)"
    and "attempt_key other \<noteq> attempt_key key \<Longrightarrow> am_attempts m' (attempt_key other) = am_attempts m (attempt_key other)"
    and "supplied \<noteq> login_password (am_settings m) \<Longrightarrow> m' = snd (allow_attempt key clock m)"
proof -
  obtain ok m1 where a: "allow_attempt key clock m = (ok, m1)" by force
  note frame = allow_attempt_frame [OF a]
  have compare: "secure_compare a b \<noteq> Inl Auth_Rate_Limited" "session_signature hmac k p \<noteq> Inl Auth_Rate_Limited" for a b k p
    by (auto simp: secure_compare_def session_signature_def rbind_Inl_iff encode_def split: option.splits)
  have others: "attempt_key other \<noteq> attempt_key key \<Longrightarrow> am_attempts m1 (attempt_key other) = am_attempts m (attempt_key other)"
    using a by (auto simp: allow_attempt_def Let_def split: prod.splits)
  show "am_settings m' = am_settings m" "r = Inl Auth_Rate_Limited \<longleftrightarrow> \<not> fst (allow_attempt key clock m)"
    "attempt_key other \<noteq> attempt_key key \<Longrightarrow> am_attempts m' (attempt_key other) = am_attempts m (attempt_key other)"
    "supplied \<noteq> login_password (am_settings m) \<Longrightarrow> m' = snd (allow_attempt key clock m)"
    using assms a frame compare others
    by (cases ok; auto simp: login_def Let_def rbind_Inl_iff secure_compare_True split: sum.splits bool.splits)+
qed

lemma compared_admitted:
  assumes "\<forall>c \<in> set cs. attempt_key (lc_remote c) = attempt_key key \<longrightarrow> lc_supplied c \<noteq> login_password (am_settings m)"
  shows "compared key (login_run hmac cs m) =
    login_limit.admitted key (map lc_clock (filter (\<lambda>c. attempt_key (lc_remote c) = attempt_key key) cs)) m"
  using assms
proof (induction cs arbitrary: m)
  case (Cons c cs)
  obtain r m' where l: "login hmac (lc_supplied c) (lc_remote c) (lc_clock c) (lc_now c) (lc_nonce c) m = (r, m')" by force
  note res = login_result [OF l]
  have ih: "compared key (login_run hmac cs m') =
      login_limit.admitted key (map lc_clock (filter (\<lambda>c. attempt_key (lc_remote c) = attempt_key key) cs)) m'"
    by (rule Cons.IH) (use Cons.prems res(1) in simp)
  show ?case
  proof (cases "attempt_key (lc_remote c) = attempt_key key")
    case True
    then have "allow_attempt (lc_remote c) = allow_attempt key" by (auto simp: allow_attempt_def fun_eq_iff)
    with True res(2,4) Cons.prems ih l show ?thesis by (auto simp: compared_def)
  next
    case False
    then have "am_attempts m' (attempt_key key) = am_attempts m (attempt_key key)" using res(3) [of key] by simp
    with False ih l login_limit.admitted_cong [of m' key m] show ?thesis by (simp add: compared_def)
  qed
qed (simp add: compared_def)

text \<open>The deque of an address after any logins: what it still holds of the guesses since the last right password.\<close>

lemma login_tracks:
  assumes "login_limit.tracks key past now m" and "now \<le> clock"
  shows "\<exists>past'. login_limit.tracks key past' clock (snd (login hmac supplied remote clock n nonce m))"
proof (cases "attempt_key remote = attempt_key key")
  case True
  then have same: "allow_attempt remote = allow_attempt key" by (auto simp: allow_attempt_def fun_eq_iff)
  obtain ok m1 where a: "allow_attempt remote clock m = (ok, m1)" by force
  from login_limit.tracks_allow(1) [OF assms] a same obtain past' where t: "login_limit.tracks key past' clock m1" by auto
  let ?m = "snd (login hmac supplied remote clock n nonce m)"
  have "am_attempts ?m (attempt_key key) = am_attempts m1 (attempt_key key) \<or> am_attempts ?m (attempt_key key) = []"
    using a True by (auto simp: login_def Let_def split: sum.splits bool.splits)
  then show ?thesis using login_limit.tracks_later [OF t order_refl] login_limit.tracks_reset by blast
next
  case False
  obtain r m' where l: "login hmac supplied remote clock n nonce m = (r, m')" by force
  from login_result(3) [OF l, of key] False have "am_attempts m' (attempt_key key) = am_attempts m (attempt_key key)" by simp
  with login_limit.tracks_later [OF assms] l show ?thesis by auto
qed

lemma logins_tracks:
  assumes "login_limit.tracks key past now m" and "sorted (now # map lc_clock cs)"
  shows "\<exists>past'. login_limit.tracks key past' (last (now # map lc_clock cs)) (after_logins hmac cs m)"
  using assms
proof (induction cs arbitrary: past now m)
  case (Cons c cs)
  from login_tracks [OF Cons.prems(1), of "lc_clock c" hmac "lc_supplied c" "lc_remote c" "lc_now c" "lc_nonce c"] Cons.prems(2)
  obtain past' where "login_limit.tracks key past' (lc_clock c)
      (snd (login hmac (lc_supplied c) (lc_remote c) (lc_clock c) (lc_now c) (lc_nonce c) m))" by auto
  from Cons.IH [OF this] Cons.prems(2) show ?case by simp
qed auto

text \<open>C21: wrong passwords cannot be tried faster than ten a minute. After any logins, from any addresses in any interleaving,
  and until the next right password of an address (which clears its record), no interval of sixty seconds has more than
  ten calls that compared a wrong password of that address; the calls beyond are refused before the comparison.\<close>

theorem login_guesses_are_limited:
  assumes "sorted (map lc_clock (before @ guesses))" and "am_attempts m (attempt_key key) = []"
    and "\<And>c. c \<in> set guesses \<Longrightarrow> attempt_key (lc_remote c) = attempt_key key \<Longrightarrow> lc_supplied c \<noteq> login_password (am_settings m)"
  shows "length (filter (\<lambda>t. from \<le> t \<and> t \<le> from + 60)
    (compared key (login_run hmac guesses (after_logins hmac before m)))) \<le> 10"
proof -
  let ?m = "after_logins hmac before m" and ?ts = "map lc_clock (filter (\<lambda>c. attempt_key (lc_remote c) = attempt_key key) guesses)"
  have compared: "compared key (login_run hmac guesses ?m) = login_limit.admitted key ?ts ?m"
    by (intro compared_admitted) (use assms(3) logins_keep in auto)
  define now where "now = (if before @ guesses = [] then 0 else lc_clock (hd (before @ guesses)))"
  have sorted: "sorted (now # map lc_clock (before @ guesses))"
    using assms(1) by (cases "before @ guesses") (auto simp: now_def)
  have "login_limit.tracks key [] now m" by (rule login_limit.tracks_reset) (rule assms(2))
  moreover have "sorted (now # map lc_clock before)" using sorted by (simp add: sorted_append)
  ultimately obtain past where t: "login_limit.tracks key past (last (now # map lc_clock before)) ?m"
    using logins_tracks by blast
  have "last (now # map lc_clock before) \<in> set (now # map lc_clock before)" by (rule last_in_set) simp
  then have "\<forall>t \<in> set (map lc_clock guesses). last (now # map lc_clock before) \<le> t"
    using sorted by (fastforce simp: sorted_append)
  moreover have "sorted ?ts" using sorted by (intro sorted_filter) (simp add: sorted_append)
  ultimately have "sorted (last (now # map lc_clock before) # ?ts)" by simp
  from login_limit.window_bound [OF t this] show ?thesis
    unfolding compared by (simp add: attempt_window_def max_login_attempts_def)
qed

section \<open>A server\<close>

definition demo_hmac :: "bytes \<Rightarrow> bytes \<Rightarrow> bytes" where
  "demo_hmac k b = [sum_list k mod 256, sum_list b mod 256]"

definition demo_decimal :: "nat \<Rightarrow> nat option" where
  "demo_decimal c = (if 48 \<le> c \<and> c \<le> 57 then Some (c - 48) else None)"

definition demo_manager :: auth_manager where
  "demo_manager = \<lparr>am_settings = \<lparr>login_password = [112], access_token = [116]\<rparr>, am_attempts = (\<lambda>_. []), am_key = [116, 22]\<rparr>"

lemma demo_ascii: "ascii_decimal demo_decimal"
  by (simp add: ascii_decimal_def demo_decimal_def)

lemma small_number: "(1000::int) < 10 ^ max_str_digits"
proof -
  have "(1000::int) < 10 ^ 4" by simp
  also have "(10::int) ^ 4 \<le> 10 ^ max_str_digits" by (rule power_increasing) (simp_all add: max_str_digits_def)
  finally show ?thesis .
qed

definition demo_token :: ustr where
  "demo_token = [53, 46, 110, 46, 56, 97, 100, 49]"

lemma demo_login: "\<exists>m. login demo_hmac [112] [] 0 5 [110] demo_manager = (Inr (Some demo_token), m)"
proof -
  have "py_str_int 5 = [53]" by (simp add: py_str_int_def nat_digits_cases)
  then show ?thesis
    by (simp add: login_def allow_attempt_def demo_manager_def attempt_def max_login_attempts_def Let_def secure_compare_def encode_def
        utf8_encode_def scalar_def is_surrogate_def session_signature_def session_payload_def demo_hmac_def hex_def hex_digit_def
        dot_code_def utf8_char_def demo_token_def)
qed

theorem issued_session_witness:
  "\<exists>m. decode_session demo_hmac id demo_decimal 9 demo_token m
      = Inr (Some \<lparr>as_id = take 32 (hex (utf8_bytes [110])), as_issued = 5, as_expires_at = 2592005, as_expires_in = 2591996\<rparr>)"
proof -
  obtain m where l: "login demo_hmac [112] [] 0 5 [110] demo_manager = (Inr (Some demo_token), m)" using demo_login by blast
  have "(5::int) < 10 ^ max_str_digits" using small_number by linarith
  from issued_session_lasts_thirty_days [OF l _ _ _ this demo_ascii, of id 9] show ?thesis
    by (auto simp: dot_code_def demo_hmac_def)
qed

lemma demo_init: "auth_init demo_hmac \<lparr>login_password = [112], access_token = [116]\<rparr> = Inr demo_manager"
  by (simp add: auth_init_def encode_def utf8_encode_def utf8_char_def scalar_def is_surrogate_def u_def demo_hmac_def demo_manager_def)

definition other_manager :: auth_manager where
  "other_manager = \<lparr>am_settings = \<lparr>login_password = [113], access_token = [116]\<rparr>, am_attempts = (\<lambda>_. []), am_key = [116, 23]\<rparr>"

lemma other_init: "auth_init demo_hmac \<lparr>login_password = [113], access_token = [116]\<rparr> = Inr other_manager"
  by (simp add: auth_init_def encode_def utf8_encode_def utf8_char_def scalar_def is_surrogate_def u_def demo_hmac_def other_manager_def)

theorem accepted_session_witness:
  "\<exists>s. decode_session demo_hmac id demo_decimal 9 demo_token demo_manager = Inr (Some s)
    \<and> decode_session demo_hmac id demo_decimal 9 demo_token other_manager \<noteq> Inr (Some s)"
proof -
  let ?s = "\<lparr>as_id = take 32 (hex (utf8_bytes [110])), as_issued = 5, as_expires_at = 2592005, as_expires_in = 2591996\<rparr>"
  have five: "py_str_int 5 = [53]" by (simp add: py_str_int_def nat_digits_cases)
  have parts: "split_on dot_code demo_token = [[53], [110], [56, 97, 100, 49]]" by (simp add: demo_token_def dot_code_def)
  have "py_int demo_decimal [53] = Some 5"
    by (simp add: py_int_def strip_def is_space_def demo_decimal_def digits_value_def Let_def max_str_digits_def)
  then have ok: "decode_session demo_hmac id demo_decimal 9 demo_token demo_manager = Inr (Some ?s)"
    unfolding decode_session_Some
    by (intro exI [of _ "[53]"] exI [of _ "[110]"]) (simp add: parts [unfolded dot_code_def] session_payload_def five dot_code_def demo_hmac_def hex_def hex_digit_def demo_manager_def utf8_char_def
        scalar_def is_surrogate_def session_clock_skew_def session_max_age_def)
  then have "decode_session demo_hmac id demo_decimal 9 demo_token (after_logins demo_hmac [] demo_manager) = Inr (Some ?s)" by simp
  note signed = accepted_session_is_signed [OF demo_init this other_init, unfolded auth_settings.simps auth_session.simps]
  let ?sig = "\<lambda>p nonce. hex (demo_hmac (demo_hmac (utf8_bytes [116]) (utf8_bytes (u ''termroom-session'' @ [0] @ [p])))
      (utf8_bytes (session_payload 5 nonce)))"
  from signed obtain raw nonce where token: "split_on dot_code demo_token = [raw, nonce, ?sig 112 nonce]"
    and other: "\<And>s. decode_session demo_hmac id demo_decimal 9 demo_token (after_logins demo_hmac [] other_manager) = Inr (Some s)
      \<Longrightarrow> ?sig 113 nonce = ?sig 112 nonce" by blast
  have "nonce = [110]" "?sig 112 nonce = [56, 97, 100, 49]" using token parts by simp_all
  moreover have "?sig 113 [110] \<noteq> [56, 97, 100, 49]"
    by (simp add: demo_hmac_def hex_def hex_digit_def u_def utf8_char_def session_payload_def five dot_code_def)
  ultimately have "\<not> decode_session demo_hmac id demo_decimal 9 demo_token (after_logins demo_hmac [] other_manager) = Inr (Some ?s)"
    using other by metis
  with ok show ?thesis by auto
qed

definition wrong :: "int \<Rightarrow> login_call" where
  "wrong t = \<lparr>lc_supplied = [113], lc_remote = [], lc_clock = t, lc_now = 5, lc_nonce = [110]\<rparr>"

theorem login_guesses_witness:
  "length (filter (\<lambda>t. 0 \<le> t \<and> t \<le> 60) (compared [] (login_run demo_hmac (map wrong [0, 1, 2, 3, 4, 5, 6, 7, 8, 9, 10, 11])
     (after_logins demo_hmac [(wrong 0)\<lparr>lc_supplied := [112]\<rparr>] demo_manager)))) \<le> 10"
proof -
  let ?cs = "map wrong [0, 1, 2, 3, 4, 5, 6, 7, 8, 9, 10, 11]"
  have "sorted (map lc_clock ([(wrong 0)\<lparr>lc_supplied := [112]\<rparr>] @ ?cs))" by (simp add: wrong_def comp_def)
  moreover have "am_attempts demo_manager (attempt_key []) = []" by (simp add: demo_manager_def)
  moreover have "c \<in> set ?cs \<Longrightarrow> attempt_key (lc_remote c) = attempt_key [] \<Longrightarrow> lc_supplied c \<noteq> login_password (am_settings demo_manager)" for c
    by (auto simp: wrong_def demo_manager_def)
  ultimately show ?thesis using login_guesses_are_limited [of "[(wrong 0)\<lparr>lc_supplied := [112]\<rparr>]" ?cs demo_manager "[]" 0 demo_hmac] by simp
qed

end
