(* ===== verification/Json.thy ===== *)
theory Json
  imports Python_Int "HOL-Library.Word"
begin

text \<open>
  JSON as Python's \<^verbatim>\<open>json\<close> module writes and reads it, for the messages of \<^verbatim>\<open>termroom/node_protocol.py\<close> and the
  JSON columns of \<^verbatim>\<open>termroom/db.py\<close>: \<open>dumps\<close> is \<^verbatim>\<open>json.dumps(value, ensure_ascii=False, separators=(",", ":"))\<close>,
  \<open>loads\<close> is \<^verbatim>\<open>json.loads\<close> on text. A float is its 64 bits; \<open>shown\<close> is \<^verbatim>\<open>float.__repr__\<close> and \<open>read\<close> is \<^verbatim>\<open>float(text)\<close>.
  An object is a dict: its keys in insertion order, a repeated key keeping its place and taking the later
  value. The interpreter's recursion limit is the argument \<open>depth\<close>.
\<close>

section \<open>Values\<close>

datatype json =
    JNull
  | JBool bool
  | JInt int
  | JFloat "64 word"
  | JStr ustr
  | JArr "json list"
  | JObj "(ustr \<times> json) list"

datatype json_error = JSON_Decode_Error | Int_Too_Long | Recursion_Error

fun dict_set :: "'k \<Rightarrow> 'v \<Rightarrow> ('k \<times> 'v) list \<Rightarrow> ('k \<times> 'v) list" where
  "dict_set k v [] = [(k, v)]"
| "dict_set k v (e # es) = (if fst e = k then (k, v) # es else e # dict_set k v es)"

definition quote :: nat where "quote = 34"

section \<open>Writing\<close>

definition dump_char :: "nat \<Rightarrow> ustr" where
  "dump_char c =
    (if c = quote \<or> c = backslash then [backslash, c]
     else if c = 8 then [backslash, 98] else if c = 9 then [backslash, 116] else if c = 10 then [backslash, 110]
     else if c = 12 then [backslash, 102] else if c = 13 then [backslash, 114]
     else if c < 32 then [backslash, 117, 48, 48, hex_digit (c div 16), hex_digit (c mod 16)]
     else [c])"

definition dump_string :: "ustr \<Rightarrow> ustr" where
  "dump_string s = [quote] @ concat (map dump_char s) @ [quote]"

fun dumps :: "(64 word \<Rightarrow> ustr) \<Rightarrow> json \<Rightarrow> ustr" where
  "dumps shown JNull = u ''null''"
| "dumps shown (JBool b) = (if b then u ''true'' else u ''false'')"
| "dumps shown (JInt i) = py_str_int i"
| "dumps shown (JFloat f) = shown f"
| "dumps shown (JStr s) = dump_string s"
| "dumps shown (JArr js) = [91] @ join [44] (map (dumps shown) js) @ [93]"
| "dumps shown (JObj es) = [123] @ join [44] (map (\<lambda>e. dump_string (fst e) @ [58] @ dumps shown (snd e)) es) @ [125]"

text \<open>\<^verbatim>\<open>str\<close> raises a \<^verbatim>\<open>ValueError\<close> for an integer with more digits than the interpreter allows.\<close>

definition short_int :: "int \<Rightarrow> bool" where
  "short_int i \<longleftrightarrow> \<bar>i\<bar> < 10 ^ max_str_digits"

lemma small_short_int [simp]: "\<bar>i\<bar> \<le> 1000 \<Longrightarrow> short_int i"
proof -
  have "(10::int) ^ 4 \<le> 10 ^ max_str_digits" by (rule power_increasing) (simp_all add: max_str_digits_def)
  then show "\<bar>i\<bar> \<le> 1000 \<Longrightarrow> short_int i" by (simp add: short_int_def)
qed

fun int_too_long :: "json \<Rightarrow> bool" where
  "int_too_long (JInt i) = (\<not> short_int i)"
| "int_too_long (JArr js) = list_ex int_too_long js"
| "int_too_long (JObj es) = list_ex (\<lambda>e. int_too_long (snd e)) es"
| "int_too_long _ = False"

section \<open>Reading\<close>

definition skip_ws :: "ustr \<Rightarrow> ustr" where
  "skip_ws = dropWhile (\<lambda>c. c \<in> {32, 9, 10, 13})"

definition is_digit :: "nat \<Rightarrow> bool" where
  "is_digit c \<longleftrightarrow> 48 \<le> c \<and> c \<le> 57"

definition hex_value :: "nat \<Rightarrow> nat option" where
  "hex_value c = (if is_digit c then Some (c - 48) else if 97 \<le> c \<and> c \<le> 102 then Some (c - 87)
     else if 65 \<le> c \<and> c \<le> 70 then Some (c - 55) else None)"

definition hex4 :: "ustr \<Rightarrow> (nat \<times> ustr) option" where
  "hex4 s = (case s of
      a # b # c # d # r \<Rightarrow>
        (case (hex_value a, hex_value b, hex_value c, hex_value d) of
           (Some w, Some x, Some y, Some z) \<Rightarrow> Some (((w * 16 + x) * 16 + y) * 16 + z, r) | _ \<Rightarrow> None)
    | _ \<Rightarrow> None)"

text \<open>\<open>\uXXXX\<close>, two escapes of a surrogate pair being one character.\<close>

definition unicode_escape :: "ustr \<Rightarrow> (nat \<times> ustr) option" where
  "unicode_escape s =
    (case hex4 s of
       None \<Rightarrow> None
     | Some (n, r) \<Rightarrow>
        if 0xD800 \<le> n \<and> n \<le> 0xDBFF \<and> take 2 r = [backslash, 117]
        then (case hex4 (drop 2 r) of
                None \<Rightarrow> None
              | Some (m, r') \<Rightarrow>
                  if 0xDC00 \<le> m \<and> m \<le> 0xDFFF then Some (0x10000 + (n - 0xD800) * 1024 + (m - 0xDC00), r') else Some (n, r))
        else Some (n, r))"

definition escape :: "ustr \<Rightarrow> (nat \<times> ustr) option" where
  "escape s = (case s of
      [] \<Rightarrow> None
    | c # r \<Rightarrow>
        if c = quote \<or> c = backslash \<or> c = slash then Some (c, r)
        else if c = 98 then Some (8, r) else if c = 102 then Some (12, r) else if c = 110 then Some (10, r)
        else if c = 114 then Some (13, r) else if c = 116 then Some (9, r)
        else if c = 117 then unicode_escape r else None)"

lemma escape_shorter: "escape s = Some (c, r) \<Longrightarrow> length r < length s"
proof -
  have four: "hex4 s = Some (n, r) \<Longrightarrow> length r < length s" for s n r
    by (auto simp: hex4_def split: list.splits option.splits)
  have "unicode_escape s = Some (n, r) \<Longrightarrow> length r < length s" for s n r
    using four by (fastforce simp: unicode_escape_def dest: four split: option.splits if_splits)
  then show "escape s = Some (c, r) \<Longrightarrow> length r < length s"
    by (fastforce simp: escape_def split: list.splits if_splits)
qed

text \<open>The rest of a string literal after its opening quote.\<close>

function scan_string :: "ustr \<Rightarrow> (ustr \<times> ustr) option" where
  "scan_string [] = None"
| "scan_string (c # r) =
     (if c = quote then Some ([], r)
      else if c = backslash then
        (case escape r of None \<Rightarrow> None
         | Some (x, r') \<Rightarrow> map_option (\<lambda>(s, e). (x # s, e)) (scan_string r'))
      else if c < 32 then None
      else map_option (\<lambda>(s, e). (c # s, e)) (scan_string r))"
  by pat_completeness auto
termination by (relation "measure length") (auto dest: escape_shorter)

text \<open>The integer part of a number with its sign, its fraction and its exponent.\<close>

definition int_part :: "ustr \<Rightarrow> (ustr \<times> ustr) option" where
  "int_part s =
    (let sign = (if take 1 s = [45] then [45] else []); t = drop (length sign) s in
     case t of
       [] \<Rightarrow> None
     | c # cs \<Rightarrow>
        if c = 48 then Some (sign @ [48], cs)
        else if is_digit c then Some (sign @ takeWhile is_digit t, dropWhile is_digit t) else None)"

definition fraction :: "ustr \<Rightarrow> ustr \<times> ustr" where
  "fraction r =
    (case r of
       p # c # cs \<Rightarrow> if p = 46 \<and> is_digit c then (p # takeWhile is_digit (c # cs), dropWhile is_digit (c # cs)) else ([], r)
     | _ \<Rightarrow> ([], r))"

definition exponent :: "ustr \<Rightarrow> ustr \<times> ustr" where
  "exponent r =
    (case r of
       [] \<Rightarrow> ([], r)
     | e # cs \<Rightarrow>
        let sign = (if take 1 cs = [45] \<or> take 1 cs = [43] then take 1 cs else []); ds = drop (length sign) cs in
        if (e = 101 \<or> e = 69) \<and> ds \<noteq> [] \<and> is_digit (hd ds)
        then (e # sign @ takeWhile is_digit ds, dropWhile is_digit ds) else ([], r))"

definition ascii_int :: "ustr \<Rightarrow> json_error + int" where
  "ascii_int s =
    (let sign = take 1 s = [45]; ds = map (\<lambda>c. c - 48) (if sign then drop 1 s else s) in
     if length ds > max_str_digits then Inl Int_Too_Long
     else Inr (if sign then - int (digits_value ds) else int (digits_value ds)))"

definition scan_number :: "(ustr \<Rightarrow> 64 word) \<Rightarrow> ustr \<Rightarrow> json_error + json \<times> ustr" where
  "scan_number read s =
    (case int_part s of
       None \<Rightarrow> Inl JSON_Decode_Error
     | Some (whole, r) \<Rightarrow>
        (case fraction r of (frac, r1) \<Rightarrow>
         case exponent r1 of (ex, r2) \<Rightarrow>
           if frac = [] \<and> ex = [] then rbind (ascii_int whole) (\<lambda>i. Inr (JInt i, r2))
           else Inr (JFloat (read (whole @ frac @ ex)), r2)))"

definition literals :: "(ustr \<Rightarrow> 64 word) \<Rightarrow> (ustr \<times> json) list" where
  "literals read = [(u ''null'', JNull), (u ''true'', JBool True), (u ''false'', JBool False),
     (u ''NaN'', JFloat (read (u ''NaN''))), (u ''Infinity'', JFloat (read (u ''Infinity''))),
     (u ''-Infinity'', JFloat (read (u ''-Infinity'')))]"

definition scan_atom :: "(ustr \<Rightarrow> 64 word) \<Rightarrow> ustr \<Rightarrow> json_error + json \<times> ustr" where
  "scan_atom read s =
    (case find (\<lambda>l. starts_with (fst l) s) (literals read) of
       Some (w, j) \<Rightarrow> Inr (j, drop (length w) s)
     | None \<Rightarrow> scan_number read s)"

text \<open>The items of an array and the members of an object after their opening bracket and white space;
  \<open>value\<close> reads one value. Every round reads a character, so the length of the text is enough fuel.\<close>

fun scan_items ::
    "(ustr \<Rightarrow> json_error + json \<times> ustr) \<Rightarrow> nat \<Rightarrow> json list \<Rightarrow> ustr \<Rightarrow> json_error + json \<times> ustr" where
  "scan_items value 0 acc s = Inl JSON_Decode_Error"
| "scan_items value (Suc n) acc s =
     rbind (value s) (\<lambda>(j, r).
       case skip_ws r of
         [] \<Rightarrow> Inl JSON_Decode_Error
       | c # r' \<Rightarrow>
          if c = 93 then Inr (JArr (rev (j # acc)), r')
          else if c = 44 then scan_items value n (j # acc) (skip_ws r') else Inl JSON_Decode_Error)"

definition scan_key :: "ustr \<Rightarrow> json_error + ustr \<times> ustr" where
  "scan_key s =
    (case s of
       [] \<Rightarrow> Inl JSON_Decode_Error
     | q # r \<Rightarrow>
        if q \<noteq> quote then Inl JSON_Decode_Error
        else case scan_string r of
               None \<Rightarrow> Inl JSON_Decode_Error
             | Some (k, r') \<Rightarrow>
                 (case skip_ws r' of
                    [] \<Rightarrow> Inl JSON_Decode_Error
                  | c # r'' \<Rightarrow> if c = 58 then Inr (k, skip_ws r'') else Inl JSON_Decode_Error))"

fun scan_members ::
    "(ustr \<Rightarrow> json_error + json \<times> ustr) \<Rightarrow> nat \<Rightarrow> (ustr \<times> json) list \<Rightarrow> ustr \<Rightarrow> json_error + json \<times> ustr" where
  "scan_members value 0 acc s = Inl JSON_Decode_Error"
| "scan_members value (Suc n) acc s =
     rbind (scan_key s) (\<lambda>(k, r).
       rbind (value r) (\<lambda>(j, r1).
         case skip_ws r1 of
           [] \<Rightarrow> Inl JSON_Decode_Error
         | c # r2 \<Rightarrow>
            if c = 125 then Inr (JObj (dict_set k j acc), r2)
            else if c = 44 then scan_members value n (dict_set k j acc) (skip_ws r2) else Inl JSON_Decode_Error))"

fun scan_value :: "(ustr \<Rightarrow> 64 word) \<Rightarrow> nat \<Rightarrow> ustr \<Rightarrow> json_error + json \<times> ustr" where
  "scan_value read depth [] = Inl JSON_Decode_Error"
| "scan_value read 0 (c # r) =
     (if c = 91 \<or> c = 123 then Inl Recursion_Error
      else if c = quote then
        (case scan_string r of None \<Rightarrow> Inl JSON_Decode_Error | Some (s, r') \<Rightarrow> Inr (JStr s, r'))
      else scan_atom read (c # r))"
| "scan_value read (Suc depth) (c # r) =
     (let t = skip_ws r in
      if c = 91 then
        (if take 1 t = [93] then Inr (JArr [], drop 1 t) else scan_items (scan_value read depth) (length t) [] t)
      else if c = 123 then
        (if take 1 t = [125] then Inr (JObj [], drop 1 t) else scan_members (scan_value read depth) (length t) [] t)
      else if c = quote then
        (case scan_string r of None \<Rightarrow> Inl JSON_Decode_Error | Some (s, r') \<Rightarrow> Inr (JStr s, r'))
      else scan_atom read (c # r))"

definition loads :: "(ustr \<Rightarrow> 64 word) \<Rightarrow> nat \<Rightarrow> ustr \<Rightarrow> json_error + json" where
  "loads read depth s =
    rbind (scan_value read depth (skip_ws s)) (\<lambda>(j, r). if skip_ws r = [] then Inr j else Inl JSON_Decode_Error)"

end
