(* ===== verification/Base64.thy ===== *)
theory Base64
  imports Python_Text
begin

text \<open>
  Python's \<^verbatim>\<open>base64\<close> as \<^verbatim>\<open>node_protocol.py\<close> and \<^verbatim>\<open>node_core.py\<close> use it: \<^verbatim>\<open>b64encode\<close>, \<^verbatim>\<open>b64decode\<close> in strict
  and lenient mode (the state machine of \<^verbatim>\<open>binascii.a2b_base64\<close>), the URL-safe alphabet without padding, and
  \<^verbatim>\<open>b32encode\<close>.
\<close>

section \<open>Base 64\<close>

definition pad :: nat where "pad = 61"

definition b64_char :: "nat \<Rightarrow> nat" where
  "b64_char n = (if n < 26 then 65 + n else if n < 52 then 71 + n else if n < 62 then n - 4
     else if n = 62 then 43 else 47)"

definition b64_value :: "nat \<Rightarrow> nat option" where
  "b64_value c = (if 65 \<le> c \<and> c \<le> 90 then Some (c - 65) else if 97 \<le> c \<and> c \<le> 122 then Some (c - 71)
     else if 48 \<le> c \<and> c \<le> 57 then Some (c + 4) else if c = 43 then Some 62 else if c = 47 then Some 63 else None)"

fun b64encode :: "bytes \<Rightarrow> ustr" where
  "b64encode [] = []"
| "b64encode [a] = [b64_char (a div 4), b64_char (a mod 4 * 16), pad, pad]"
| "b64encode [a, b] = [b64_char (a div 4), b64_char (a mod 4 * 16 + b div 16), b64_char (b mod 16 * 4), pad]"
| "b64encode (a # b # c # bs) =
     [b64_char (a div 4), b64_char (a mod 4 * 16 + b div 16), b64_char (b mod 16 * 4 + c div 64), b64_char (c mod 64)]
     @ b64encode bs"

text \<open>The loop of \<^verbatim>\<open>a2b_base64\<close>: the position in the group of four, the bits left over, the padding characters seen in
  this group and whether any were seen.\<close>

fun a2b :: "bool \<Rightarrow> nat \<Rightarrow> nat \<Rightarrow> nat \<Rightarrow> bool \<Rightarrow> ustr \<Rightarrow> bytes option" where
  "a2b strict quad left pads started [] = (if quad = 0 then Some [] else None)"
| "a2b strict quad left pads started (ch # cs) =
     (if ch = pad then
        (if 2 \<le> quad \<and> 4 \<le> quad + Suc pads then (if strict \<and> cs \<noteq> [] then None else Some [])
         else a2b strict quad left (if 2 \<le> quad then Suc pads else pads) True cs)
      else (case b64_value ch of
        None \<Rightarrow> if strict then None else a2b strict quad left pads started cs
      | Some v \<Rightarrow>
          if strict \<and> started then None
          else if quad = 0 then a2b strict 1 v 0 started cs
          else if quad = 1 then map_option ((#) (left * 4 + v div 16)) (a2b strict 2 (v mod 16) 0 started cs)
          else if quad = 2 then map_option ((#) (left * 16 + v div 4)) (a2b strict 3 (v mod 4) 0 started cs)
          else map_option ((#) (left * 64 + v)) (a2b strict 0 0 0 started cs)))"

definition b64decode :: "bool \<Rightarrow> ustr \<Rightarrow> bytes option" where
  "b64decode strict s = (if strict \<and> take 1 s = [pad] then None else a2b strict 0 0 0 False s)"

definition url_safe :: "nat \<Rightarrow> nat" where
  "url_safe c = (if c = 43 then 45 else if c = 47 then 95 else c)"

definition url_unsafe :: "nat \<Rightarrow> nat" where
  "url_unsafe c = (if c = 45 then 43 else if c = 95 then 47 else c)"

text \<open>\<^verbatim>\<open>urlsafe_b64encode(b).decode("ascii").rstrip("=")\<close>, and \<^verbatim>\<open>urlsafe_b64decode\<close> of the text padded to a multiple of four.\<close>

definition b64_text :: "bytes \<Rightarrow> ustr" where
  "b64_text b = rstrip_char pad (map url_safe (b64encode b))"

definition repad :: "ustr \<Rightarrow> ustr" where
  "repad s = s @ replicate ((4 - length s mod 4) mod 4) pad"

definition b64_bytes :: "ustr \<Rightarrow> bytes option" where
  "b64_bytes s = b64decode False (map url_unsafe (repad s))"

section \<open>Base 32\<close>

definition b32_char :: "nat \<Rightarrow> nat" where
  "b32_char n = (if n < 26 then 65 + n else 24 + n)"

definition b32_group :: "bytes \<Rightarrow> ustr" where
  "b32_group g = (let v = foldl (\<lambda>n b. n * 256 + b) 0 g in map (\<lambda>i. b32_char (v div 32 ^ i mod 32)) [7, 6, 5, 4, 3, 2, 1, 0])"

fun b32_groups :: "bytes \<Rightarrow> ustr" where
  "b32_groups (a # b # c # d # e # bs) = b32_group [a, b, c, d, e] @ b32_groups bs"
| "b32_groups _ = []"

definition b32encode :: "bytes \<Rightarrow> ustr" where
  "b32encode b =
    (let leftover = length b mod 5;
         encoded = b32_groups (if leftover = 0 then b else b @ replicate (5 - leftover) 0);
         pads = (if leftover = 1 then 6 else if leftover = 2 then 4 else if leftover = 3 then 3 else if leftover = 4 then 1 else 0)
     in take (length encoded - pads) encoded @ replicate pads pad)"

section \<open>Laws\<close>

definition byte_list :: "bytes \<Rightarrow> bool" where
  "byte_list b \<longleftrightarrow> (\<forall>x \<in> set b. x < 256)"

lemma byte_list_Cons [simp]: "byte_list []" "byte_list (a # b) \<longleftrightarrow> a < 256 \<and> byte_list b"
  by (simp_all add: byte_list_def)

lemma b64_value_char [simp]: "n < 64 \<Longrightarrow> b64_value (b64_char n) = Some n"
  by (auto simp: b64_value_def b64_char_def)

lemma b64_char_not_pad [simp]: "b64_char n \<noteq> pad"
  by (auto simp: b64_char_def pad_def)

lemma a2b_char: "n < 64 \<Longrightarrow> a2b strict quad left pads False (b64_char n # cs) =
    (if quad = 0 then a2b strict 1 n 0 False cs
     else if quad = 1 then map_option ((#) (left * 4 + n div 16)) (a2b strict 2 (n mod 16) 0 False cs)
     else if quad = 2 then map_option ((#) (left * 16 + n div 4)) (a2b strict 3 (n mod 4) 0 False cs)
     else map_option ((#) (left * 64 + n)) (a2b strict 0 0 0 False cs))"
  by simp

lemma a2b_encode: "byte_list b \<Longrightarrow> a2b strict 0 0 0 False (b64encode b) = Some b"
proof (induction b rule: b64encode.induct)
  case (2 a)
  then have "a div 4 < 64" "a mod 4 * 16 < 64" by auto
  then show ?case by (simp add: a2b_char del: a2b.simps) (simp add: pad_def)
next
  case (3 a b)
  then have "a div 4 < 64" "a mod 4 * 16 + b div 16 < 64" "b mod 16 * 4 < 64" "b div 16 < 16" by auto
  then show ?case by (simp add: a2b_char del: a2b.simps) (simp add: pad_def)
next
  case (4 a b c bs)
  then have "a div 4 < 64" "a mod 4 * 16 + b div 16 < 64" "b mod 16 * 4 + c div 64 < 64" "c mod 64 < 64" "b div 16 < 16" "c div 64 < 4" by auto
  then show ?case using 4 by (simp add: a2b_char del: a2b.simps)
qed simp

lemma b64decode_encode: "byte_list b \<Longrightarrow> b64decode strict (b64encode b) = Some b"
proof -
  have "take 1 (b64encode b) \<noteq> [pad]" by (cases b rule: b64encode.cases) simp_all
  then show "byte_list b \<Longrightarrow> b64decode strict (b64encode b) = Some b" by (simp add: b64decode_def a2b_encode)
qed

text \<open>Stripping the padding and putting it back.\<close>

lemma length_b64encode: "length (b64encode b) mod 4 = 0"
  by (induction b rule: b64encode.induct) (simp_all add: mod_Suc)

lemma rstrip_char_append: "rstrip_char d (s @ replicate n d) = rstrip_char d s"
proof -
  have "dropWhile (\<lambda>c. c = d) (replicate n d @ t) = dropWhile (\<lambda>c. c = d) t" for t
    by (induction n) auto
  then show ?thesis by (simp add: rstrip_char_def)
qed

lemma rstrip_char_id: "s = [] \<or> last s \<noteq> d \<Longrightarrow> rstrip_char d s = s"
  by (cases s rule: rev_cases) (auto simp: rstrip_char_def)

lemma b64encode_shape: "\<exists>t n. b64encode b = t @ replicate n pad \<and> n < 3 \<and> (t = [] \<or> last t \<noteq> pad)"
proof (induction b rule: b64encode.induct)
  case 1
  show ?case by (intro exI [of _ "[]"] exI [of _ 0]) simp
next
  case (2 a)
  show ?case by (intro exI [of _ "[b64_char (a div 4), b64_char (a mod 4 * 16)]"] exI [of _ 2]) (simp add: numeral_2_eq_2)
next
  case (3 a b)
  show ?case
    by (intro exI [of _ "[b64_char (a div 4), b64_char (a mod 4 * 16 + b div 16), b64_char (b mod 16 * 4)]"] exI [of _ 1]) simp
next
  case (4 a b c bs)
  then obtain t n where t: "b64encode bs = t @ replicate n pad" "n < 3" "t = [] \<or> last t \<noteq> pad" by blast
  let ?g = "[b64_char (a div 4), b64_char (a mod 4 * 16 + b div 16), b64_char (b mod 16 * 4 + c div 64), b64_char (c mod 64)]"
  from t show ?case by (intro exI [of _ "?g @ t"] exI [of _ n]) auto
qed

lemma url_safe_pad: "url_safe c = pad \<longleftrightarrow> c = pad"
  by (auto simp: url_safe_def pad_def)

lemma pads_back: "(m + n) mod 4 = 0 \<Longrightarrow> n < 3 \<Longrightarrow> (4 - m mod 4) mod 4 = (n :: nat)"
proof -
  assume n: "(m + n) mod 4 = 0" "n < 3"
  define k where "k = m mod 4"
  have "(k + n) mod 4 = 0" using n(1) by (simp add: k_def mod_add_left_eq)
  then obtain q where q: "k + n = 4 * q" by (auto simp: mod_eq_0_iff_dvd)
  have "k < 4" by (simp add: k_def)
  show ?thesis unfolding k_def [symmetric]
  proof (cases "k = 0")
    case True
    with q n(2) show "(4 - k) mod 4 = n" by simp
  next
    case False
    with q n(2) \<open>k < 4\<close> have "q = 1" by linarith
    with q False show "(4 - k) mod 4 = n" by simp
  qed
qed

lemma repad_b64_text: "repad (b64_text b) = map url_safe (b64encode b)"
proof -
  from b64encode_shape obtain t n where t: "b64encode b = t @ replicate n pad" "n < 3" "t = [] \<or> last t \<noteq> pad" by blast
  have "map url_safe t = [] \<or> last (map url_safe t) \<noteq> pad" using t(3) by (cases "t = []") (simp_all add: last_map url_safe_pad)
  then have kept: "b64_text b = map url_safe t"
    using t(1) by (simp add: b64_text_def url_safe_pad [THEN iffD2] rstrip_char_append map_replicate rstrip_char_id)
  have "(length t + n) mod 4 = 0" using length_b64encode [of b] t(1) by simp
  then have "(4 - length t mod 4) mod 4 = n" using t(2) by (rule pads_back)
  with t(1) show ?thesis by (simp add: repad_def kept map_replicate url_safe_pad [THEN iffD2])
qed

lemma set_b64encode: "c \<in> set (b64encode b) \<Longrightarrow> c = pad \<or> (\<exists>n. c = b64_char n)"
  by (induction b rule: b64encode.induct) auto

lemma url_unsafe_safe: "c = pad \<or> c = b64_char n \<Longrightarrow> url_unsafe (url_safe c) = c"
  by (auto simp: url_unsafe_def url_safe_def pad_def b64_char_def split: if_splits)

lemma b64_round_trip: "byte_list b \<Longrightarrow> b64_bytes (b64_text b) = Some b"
proof -
  assume "byte_list b"
  moreover have "map url_unsafe (map url_safe (b64encode b)) = b64encode b"
    by (auto intro!: map_idI url_unsafe_safe dest: set_b64encode)
  ultimately show ?thesis by (simp add: b64_bytes_def repad_b64_text b64decode_encode del: map_map)
qed

end
