(* ===== verification/Node_Protocol.thy ===== *)
theory Node_Protocol
  imports Json Base64
begin

text \<open>
  The rules of the Node protocol (\<^verbatim>\<open>termroom/node_protocol.py\<close>): pairing codes, keys and challenges,
  identifiers, versions, capabilities and the framing of messages.

  Parameters: \<open>upper\<close> is \<^verbatim>\<open>str.upper\<close>, \<open>decimal\<close> is \<^verbatim>\<open>unicodedata.decimal\<close>, \<open>sha\<close> is SHA-256,
  \<open>key_ok\<close> says which 32 bytes \<^verbatim>\<open>Ed25519PublicKey.from_public_bytes\<close> takes, \<open>verifies key signature message\<close> is its
  \<^verbatim>\<open>verify\<close>, \<open>signs key message\<close> the private key's \<^verbatim>\<open>sign\<close>; \<open>shown\<close> and \<open>read\<close> write and read floats (\<open>Json\<close>), and
  \<open>other\<close> decodes the bytes of a message that is not plain UTF-8 (UTF-16, UTF-32, a byte order mark).
\<close>

datatype node_exn =
    Node_Protocol_Error ustr ustr
  | Node_Core_Error ustr ustr
  | Node_Unavailable_Error ustr
  | Node_Request_Error ustr ustr
  | Unknown_Node
  | Plain_Value_Error
  | Overflow_Exn
  | Recursion_Exn
  | Socket_Gone

abbreviation protocol_error :: "string \<Rightarrow> string \<Rightarrow> node_exn" where
  "protocol_error message code \<equiv> Node_Protocol_Error (u message) (u code)"

definition protocol_version :: int where "protocol_version = 3"
definition max_message_bytes :: nat where "max_message_bytes = 1024 * 1024"
definition max_chunk_bytes :: nat where "max_chunk_bytes = 64 * 1024"
definition max_budget_ms :: int where "max_budget_ms = 5 * 60 * 1000"

definition required_capabilities :: "ustr list" where
  "required_capabilities = map u [''workspace'', ''terminal'', ''files'']"

definition optional_capabilities :: "ustr list" where
  "optional_capabilities = map u [''file_run'', ''recent'', ''remote_run'', ''remote_run_source'', ''workspace_command_v2'',
     ''workspace_usage'', ''terminal_editor'']"

definition node_capabilities :: "ustr list" where
  "node_capabilities = required_capabilities @ optional_capabilities"

definition request_operations :: "ustr list" where
  "request_operations = map u
     [''workspace.roots'', ''workspace.browse'', ''workspace.create_project'', ''workspace.validate'', ''workspace.ensure'',
      ''workspace.usage'', ''workspace.command.run'', ''terminal.create'', ''terminal.editor.open'', ''terminal.rename'',
      ''terminal.close'', ''terminal.activity'', ''terminal.scrollback'', ''terminal.attach'', ''terminal.resize'',
      ''files.list'', ''files.search'', ''files.recent'', ''files.stat'', ''files.read_text.open'', ''files.read_preview'',
      ''files.write_text.open'', ''files.create'', ''files.rename'', ''files.delete'', ''files.download.open'',
      ''files.upload.open'', ''file_run.inspect'', ''file_run.start'', ''file_run.observe'', ''file_run.interrupt'',
      ''file_run.kill'', ''remote_run_source.manifest.open'', ''remote_run_source.stat'', ''remote_run_source.file.open'',
      ''remote_run.preflight'', ''remote_run.create'', ''remote_run.snapshot.begin'', ''remote_run.snapshot.mkdir'',
      ''remote_run.snapshot.symlink'', ''remote_run.snapshot.file.open'', ''remote_run.snapshot.commit'',
      ''remote_run.metadata.write'', ''remote_run.metadata.open'', ''remote_run.start'', ''remote_run.git.start'',
      ''remote_run.observe'', ''remote_run.poll'', ''remote_run.interrupt'', ''remote_run.kill'', ''remote_run.exists'',
      ''remote_run.ensure_shell'', ''remote_run.delete'']"

section \<open>Pairing codes\<close>

fun groups_of_four :: "ustr \<Rightarrow> ustr list" where
  "groups_of_four (a # b # c # d # s) = [a, b, c, d] # groups_of_four s"
| "groups_of_four [] = []"
| "groups_of_four s = [s]"

definition generate_pairing_code :: "bytes \<Rightarrow> ustr" where
  "generate_pairing_code raw = join [45] (groups_of_four (rstrip_char pad (b32encode raw)))"

definition pairing_char :: "nat \<Rightarrow> bool" where
  "pairing_char c \<longleftrightarrow> 65 \<le> c \<and> c \<le> 90 \<or> 50 \<le> c \<and> c \<le> 55"

definition normalize_pairing_code :: "(ustr \<Rightarrow> ustr) \<Rightarrow> ustr \<Rightarrow> node_exn + ustr" where
  "normalize_pairing_code upper s =
    (let normalized = filter (\<lambda>c. c \<noteq> 32) (filter (\<lambda>c. c \<noteq> 45) (upper (strip s))) in
     if length normalized = 16 \<and> list_all pairing_char normalized then Inr normalized
     else Inl (protocol_error ''Pairing code is invalid'' ''pairing_invalid''))"

definition secret_digest :: "(bytes \<Rightarrow> bytes) \<Rightarrow> ustr \<Rightarrow> node_exn + ustr" where
  "secret_digest sha s = (case utf8_encode s of None \<Rightarrow> Inl Plain_Value_Error | Some b \<Rightarrow> Inr (hex (sha b)))"

definition pairing_code_digest :: "(bytes \<Rightarrow> bytes) \<Rightarrow> (ustr \<Rightarrow> ustr) \<Rightarrow> ustr \<Rightarrow> node_exn + ustr" where
  "pairing_code_digest sha upper s =
    rbind (normalize_pairing_code upper s) (\<lambda>code. secret_digest sha (u ''termroom-node-pairing-v1'' @ [0] @ code))"

section \<open>Identifiers\<close>

definition hex_id :: "ustr \<Rightarrow> bool" where
  "hex_id s \<longleftrightarrow> length s = 32 \<and> list_all (\<lambda>c. 97 \<le> c \<and> c \<le> 102 \<or> 48 \<le> c \<and> c \<le> 57) s"

definition validate_node_id :: "ustr \<Rightarrow> node_exn + ustr" where
  "validate_node_id s = (if hex_id s then Inr s else Inl (protocol_error ''Node id is invalid'' ''identity_invalid''))"

definition validate_request_id :: "ustr \<Rightarrow> node_exn + ustr" where
  "validate_request_id s = (if hex_id s then Inr s else Inl (protocol_error ''Node request id is invalid'' ''request_invalid''))"

definition validate_request_operation :: "ustr \<Rightarrow> node_exn + ustr" where
  "validate_request_operation operation =
    (if operation \<in> set request_operations then Inr operation
     else Inl (protocol_error ''Node operation is unsupported'' ''operation_unsupported''))"

definition validate_request_budget_ms :: "json \<Rightarrow> node_exn + int" where
  "validate_request_budget_ms j =
    (case j of
       JInt ms \<Rightarrow> if 1 \<le> ms \<and> ms \<le> max_budget_ms then Inr ms
                  else Inl (protocol_error ''Node request budget is invalid'' ''budget_invalid'')
     | _ \<Rightarrow> Inl (protocol_error ''Node request budget is invalid'' ''budget_invalid''))"

section \<open>Keys and challenges\<close>

definition public_key_text :: "bytes \<Rightarrow> ustr" where
  "public_key_text raw = b64_text raw"

definition parse_public_key :: "(bytes \<Rightarrow> bool) \<Rightarrow> ustr \<Rightarrow> node_exn + bytes" where
  "parse_public_key key_ok s =
    (let bad = Inl (protocol_error ''Node public key is invalid'' ''identity_invalid'') in
     if list_ex (\<lambda>c. 128 \<le> c) s then bad
     else case b64_bytes s of
            None \<Rightarrow> bad
          | Some raw \<Rightarrow> if length raw \<noteq> 32 \<or> \<not> key_ok raw then bad else Inr raw)"

definition public_key_fingerprint :: "(bytes \<Rightarrow> bytes) \<Rightarrow> (bytes \<Rightarrow> bool) \<Rightarrow> ustr \<Rightarrow> node_exn + ustr" where
  "public_key_fingerprint sha key_ok s =
    rbind (parse_public_key key_ok s) (\<lambda>raw. Inr (u ''SHA256:'' @ rstrip_char pad (b64encode (sha raw))))"

definition auth_payload :: "ustr \<Rightarrow> ustr \<Rightarrow> node_exn + bytes" where
  "auth_payload node_id nonce =
    rbind (validate_node_id node_id) (\<lambda>_.
      if nonce = [] \<or> 256 < length nonce then Inl (protocol_error ''Node challenge is invalid'' ''challenge_invalid'')
      else case utf8_encode (u ''termroom-node-auth-v1'' @ [0] @ node_id @ [0] @ nonce) of
             None \<Rightarrow> Inl Plain_Value_Error | Some b \<Rightarrow> Inr b)"

definition sign_challenge :: "('k \<Rightarrow> bytes \<Rightarrow> bytes) \<Rightarrow> 'k \<Rightarrow> ustr \<Rightarrow> ustr \<Rightarrow> node_exn + ustr" where
  "sign_challenge signs key node_id nonce = rbind (auth_payload node_id nonce) (\<lambda>b. Inr (b64_text (signs key b)))"

definition verify_challenge ::
    "(bytes \<Rightarrow> bool) \<Rightarrow> (bytes \<Rightarrow> bytes \<Rightarrow> bytes \<Rightarrow> bool) \<Rightarrow> ustr \<Rightarrow> ustr \<Rightarrow> ustr \<Rightarrow> ustr \<Rightarrow> bool" where
  "verify_challenge key_ok verifies public_key node_id nonce signature =
    (if list_ex (\<lambda>c. 128 \<le> c) signature then False
     else case b64_bytes signature of
            None \<Rightarrow> False
          | Some raw \<Rightarrow>
             (case parse_public_key key_ok public_key of
                Inl _ \<Rightarrow> False
              | Inr key \<Rightarrow>
                 (case auth_payload node_id nonce of Inl _ \<Rightarrow> False | Inr b \<Rightarrow> verifies key raw b)))"

section \<open>Versions and capabilities\<close>

text \<open>\<^verbatim>\<open>int()\<close> of a float: towards zero; NaN is a \<^verbatim>\<open>ValueError\<close>, an infinity an \<^verbatim>\<open>OverflowError\<close>.\<close>

definition float_int :: "64 word \<Rightarrow> node_exn + int" where
  "float_int f =
    (let bits = unat f; negative = (2 ^ 63 \<le> bits); e = bits div 2 ^ 52 mod 2 ^ 11; m = bits mod 2 ^ 52;
         mantissa = (if e = 0 then m else 2 ^ 52 + m);
         magnitude = (if e < 1075 then mantissa div 2 ^ (1075 - max 1 e) else mantissa * 2 ^ (e - 1075))
     in if e = 2047 then Inl (if m = 0 then Overflow_Exn else Plain_Value_Error)
        else Inr (if negative then - int magnitude else int magnitude))"

definition version_int :: "(nat \<Rightarrow> nat option) \<Rightarrow> json \<Rightarrow> node_exn + int" where
  "version_int decimal j =
    (let bad = protocol_error ''Node protocol version is invalid'' ''version_invalid'' in
     case j of
       JInt i \<Rightarrow> Inr i
     | JStr s \<Rightarrow> (case py_int decimal s of None \<Rightarrow> Inl bad | Some i \<Rightarrow> Inr i)
     | JFloat f \<Rightarrow> (case float_int f of Inl Plain_Value_Error \<Rightarrow> Inl bad | r \<Rightarrow> r)
     | _ \<Rightarrow> Inl bad)"

definition validate_protocol_version :: "(nat \<Rightarrow> nat option) \<Rightarrow> json \<Rightarrow> node_exn + int" where
  "validate_protocol_version decimal j =
    rbind (version_int decimal j) (\<lambda>version.
      if version \<noteq> protocol_version
      then Inl (Node_Protocol_Error (u ''Node protocol version '' @ py_str_int version @ u '' is incompatible; update Termroom'')
                  (u ''version_incompatible''))
      else Inr version)"

fun string_items :: "json list \<Rightarrow> ustr list option" where
  "string_items [] = Some []"
| "string_items (JStr s # js) = map_option ((#) s) (string_items js)"
| "string_items (_ # js) = None"

definition normalize_capabilities :: "json \<Rightarrow> node_exn + ustr list" where
  "normalize_capabilities j =
    (case (case j of JArr js \<Rightarrow> string_items js | _ \<Rightarrow> None) of
       None \<Rightarrow> Inl (protocol_error ''Node capabilities are invalid'' ''capabilities_invalid'')
     | Some items \<Rightarrow>
        (let normalized = sort (remdups items) in
         if list_ex (\<lambda>c. c \<notin> set node_capabilities) normalized
         then Inl (protocol_error ''Node reported unsupported capabilities'' ''capabilities_invalid'')
         else Inr normalized))"

section \<open>Messages\<close>

type_synonym message = "(ustr \<times> json) list"

datatype raw_message = Raw_Text ustr | Raw_Bytes bytes

definition has_type :: "message \<Rightarrow> bool" where
  "has_type m \<longleftrightarrow> (case map_of m (u ''type'') of Some (JStr _) \<Rightarrow> True | _ \<Rightarrow> False)"

definition encode_message :: "(64 word \<Rightarrow> ustr) \<Rightarrow> message \<Rightarrow> node_exn + ustr" where
  "encode_message shown m =
    (if \<not> has_type m \<or> map_of m (u ''type'') = Some (JStr [])
     then Inl (protocol_error ''Node message type is required'' ''message_invalid'')
     else if int_too_long (JObj m)
     then Inl (protocol_error ''Node message is not JSON serializable'' ''message_invalid'')
     else let raw = dumps shown (JObj m) in
       case utf8_encode raw of
         None \<Rightarrow> Inl Plain_Value_Error
       | Some b \<Rightarrow> if max_message_bytes < length b
                   then Inl (protocol_error ''Node message exceeds the size limit'' ''message_too_large'') else Inr raw)"

text \<open>\<^verbatim>\<open>json.detect_encoding\<close> finds UTF-8 and no byte order mark.\<close>

definition plain_utf8 :: "bytes \<Rightarrow> bool" where
  "plain_utf8 b \<longleftrightarrow> take 2 b \<noteq> [254, 255] \<and> take 2 b \<noteq> [255, 254] \<and> take 3 b \<noteq> [239, 187, 191] \<and> take 4 b \<noteq> [0, 0, 254, 255]
     \<and> (4 \<le> length b \<or> length b = 2 \<longrightarrow> b ! 0 \<noteq> 0 \<and> b ! 1 \<noteq> 0)"

definition json_text :: "(bytes \<Rightarrow> ustr option) \<Rightarrow> bytes \<Rightarrow> ustr option" where
  "json_text other b =
    (case (if plain_utf8 b then utf8_decode True b else None) of Some s \<Rightarrow> Some s | None \<Rightarrow> other b)"

definition decode_message ::
    "(ustr \<Rightarrow> 64 word) \<Rightarrow> nat \<Rightarrow> (bytes \<Rightarrow> ustr option) \<Rightarrow> raw_message \<Rightarrow> node_exn + message" where
  "decode_message read depth other raw =
    (case (case raw of Raw_Text s \<Rightarrow> utf8_encode s | Raw_Bytes b \<Rightarrow> Some b) of
       None \<Rightarrow> Inl Plain_Value_Error
     | Some encoded \<Rightarrow>
        if max_message_bytes < length encoded
        then Inl (protocol_error ''Node message exceeds the size limit'' ''message_too_large'')
        else (case json_text other encoded of
           None \<Rightarrow> Inl (protocol_error ''Node message is invalid JSON'' ''message_invalid'')
         | Some s \<Rightarrow>
            (case loads read depth s of
               Inl JSON_Decode_Error \<Rightarrow> Inl (protocol_error ''Node message is invalid JSON'' ''message_invalid'')
             | Inl Int_Too_Long \<Rightarrow> Inl Plain_Value_Error
             | Inl Recursion_Error \<Rightarrow> Inl Recursion_Exn
             | Inr (JObj m) \<Rightarrow> if has_type m then Inr m
                               else Inl (protocol_error ''Node message type is required'' ''message_invalid'')
             | Inr _ \<Rightarrow> Inl (protocol_error ''Node message type is required'' ''message_invalid''))))"

end
