(* ===== verification/Json_Laws.thy ===== *)
theory Json_Laws
  imports Json
begin

text \<open>
  What \<open>dumps\<close> writes, \<open>loads\<close> reads back: for every val whose dicts have distinct keys, whose integers are
  short enough for the interpreter, whose floats read back from their shown form and whose nesting is within
  the recursion limit.
\<close>

section \<open>Strings\<close>

lemma hex_value_digit: "n < 16 \<Longrightarrow> hex_value (hex_digit n) = Some n"
  by (auto simp: hex_value_def hex_digit_def is_digit_def)

lemma scan_dumped_char: "scan_string (dump_char c @ r) = map_option (\<lambda>(s, e). (c # s, e)) (scan_string r)"
proof -
  consider "c = quote \<or> c = backslash" | "c \<noteq> quote" "c \<noteq> backslash" "c \<in> {8, 9, 10, 12, 13}"
    | "c \<noteq> quote" "c \<noteq> backslash" "c \<notin> {8, 9, 10, 12, 13}" "c < 32" | "c \<noteq> quote" "c \<noteq> backslash" "32 \<le> c"
    by fastforce
  then show ?thesis
  proof cases
    case 3
    have "hex4 (48 # 48 # hex_digit (c div 16) # hex_digit (c mod 16) # r) = Some (c, r)"
      using 3(4) hex_value_digit [of "c div 16"] hex_value_digit [of "c mod 16"]
      by (simp add: hex4_def hex_value_def [of 48] is_digit_def)
    with 3 show ?thesis
      by (simp add: dump_char_def escape_def unicode_escape_def quote_def backslash_def slash_def)
  qed (auto simp: dump_char_def escape_def quote_def backslash_def slash_def)
qed

lemma scan_dumped_string: "scan_string (concat (map dump_char s) @ quote # r) = Some (s, r)"
  by (induction s) (simp_all add: scan_dumped_char)

section \<open>Numbers\<close>

text \<open>What may follow a val in a larger text.\<close>

definition stop :: "ustr \<Rightarrow> bool" where
  "stop r \<longleftrightarrow> (case r of [] \<Rightarrow> True | c # _ \<Rightarrow> c = 10 \<or> c = 44 \<or> c = 93 \<or> c = 125)"

lemma stop_simps [simp]: "stop []" "stop (10 # r)" "stop (44 # r)" "stop (93 # r)" "stop (125 # r)"
  by (simp_all add: stop_def)

lemma stop_cases: "stop r \<Longrightarrow> (r = [] \<Longrightarrow> P) \<Longrightarrow> (\<And>c r'. r = c # r' \<Longrightarrow> c = 10 \<or> c = 44 \<or> c = 93 \<or> c = 125 \<Longrightarrow> P) \<Longrightarrow> P"
  by (cases r) (auto simp: stop_def)

lemma stop_digits: "stop r \<Longrightarrow> takeWhile is_digit (s @ r) = takeWhile is_digit s"
  "stop r \<Longrightarrow> dropWhile is_digit (s @ r) = dropWhile is_digit s @ r"
  by (induction s; auto elim!: stop_cases simp: is_digit_def)+

lemma int_part_append:
  assumes "int_part s = Some (w, r)" and "stop t"
  shows "int_part (s @ t) = Some (w, r @ t)"
proof -
  obtain a s' where s: "s = a # s'" using assms(1) by (cases s) (auto simp: int_part_def)
  show ?thesis
  proof (cases "a = 45")
    case True
    with assms s obtain b s'' where "s' = b # s''" by (cases s') (auto simp: int_part_def)
    with True assms s show ?thesis
      using stop_digits [OF assms(2), of "b # s''"] by (auto simp: int_part_def Let_def split: if_splits)
  next
    case False
    with assms s show ?thesis
      using stop_digits [OF assms(2), of "a # s'"] by (auto simp: int_part_def Let_def split: if_splits)
  qed
qed

lemma fraction_append:
  assumes "stop t"
  shows "fraction (r @ t) = (fst (fraction r), snd (fraction r) @ t)"
proof -
  consider "r = []" | p where "r = [p]" | p c cs where "r = p # c # cs" by (metis list.exhaust)
  then show ?thesis
  proof cases
    case 1
    with assms show ?thesis by (auto elim!: stop_cases simp: fraction_def split: list.splits)
  next
    case 2
    with assms show ?thesis by (auto elim!: stop_cases simp: fraction_def is_digit_def split: list.splits)
  next
    case 3
    with stop_digits [OF assms, of "c # cs"] show ?thesis by (auto simp: fraction_def)
  qed
qed

lemma exponent_append:
  assumes "stop t"
  shows "exponent (r @ t) = (fst (exponent r), snd (exponent r) @ t)"
proof (cases r)
  case Nil
  with assms show ?thesis by (auto elim!: stop_cases simp: exponent_def)
next
  case (Cons e cs)
  show ?thesis
  proof (cases cs)
    case Nil
    with Cons assms show ?thesis by (auto elim!: stop_cases simp: exponent_def is_digit_def Let_def)
  next
    case (Cons b ds)
    have "stop t \<Longrightarrow> take 1 (ds @ t) \<noteq> [] \<Longrightarrow> is_digit (hd (ds @ t)) \<longleftrightarrow> ds \<noteq> [] \<and> is_digit (hd ds)"
      by (cases ds) (auto elim!: stop_cases simp: is_digit_def)
    with Cons \<open>r = e # cs\<close> assms show ?thesis
      using stop_digits [OF assms, of ds] stop_digits [OF assms, of "b # ds"]
      by (auto simp: exponent_def Let_def elim!: stop_cases)
  qed
qed

lemma number_not_literal:
  assumes "int_part s = Some (w, r)"
  shows "find (\<lambda>l. starts_with (fst l) (s @ t)) (literals read) = None"
proof -
  obtain a s' where s: "s = a # s'" using assms by (cases s) (auto simp: int_part_def)
  have "is_digit a \<or> (a = 45 \<and> (\<exists>b s''. s' = b # s'' \<and> is_digit b))"
    using assms s by (auto simp: int_part_def Let_def is_digit_def split: if_splits list.splits)
  with s show ?thesis by (auto simp: literals_def u_def is_digit_def)
qed

lemma scan_atom_number: "int_part s = Some (w, r) \<Longrightarrow> scan_atom read (s @ t) = scan_number read (s @ t)"
  by (simp add: scan_atom_def number_not_literal)

text \<open>An integer.\<close>

lemma digits_int_part: "int_part (nat_digits n) = Some (nat_digits n, [])"
proof (induction n rule: nat_digits.induct)
  case (1 n)
  show ?case
  proof (cases "n < 10")
    case False
    with 1 have ih: "int_part (nat_digits (n div 10)) = Some (nat_digits (n div 10), [])" by simp
    have digits: "\<forall>c \<in> set (nat_digits n). is_digit c" using nat_digits_range by (auto simp: is_digit_def)
    obtain c cs where n: "nat_digits (n div 10) = c # cs" by (cases "nat_digits (n div 10)") auto
    from False have split: "nat_digits n = c # cs @ [48 + n mod 10]" using n by (simp add: nat_digits_cases)
    have "c \<noteq> 48"
    proof
      assume "c = 48"
      with ih n have "cs = []" by (simp add: int_part_def)
      with n \<open>c = 48\<close> have "digits_value (map (\<lambda>c. c - 48) (nat_digits (n div 10))) = 0" by (simp add: digits_value_def)
      with nat_digits_value [of "n div 10"] False show False by simp
    qed
    moreover have "takeWhile is_digit (nat_digits n) = nat_digits n" "dropWhile is_digit (nat_digits n) = []"
      using digits by (simp_all add: takeWhile_eq_all_conv)
    moreover have "is_digit c" using digits split by simp
    ultimately show ?thesis using split by (auto simp: int_part_def Let_def is_digit_def)
  qed (auto simp: nat_digits_cases int_part_def Let_def is_digit_def)
qed

lemma int_part_str: "int_part (py_str_int i) = Some (py_str_int i, [])"
proof (cases "i < 0")
  case True
  obtain c cs where n: "nat_digits (nat (- i)) = c # cs" by (cases "nat_digits (nat (- i))") auto
  then have "48 \<le> c" "c \<le> 57" using nat_digits_range [of "nat (- i)"] by auto
  with True digits_int_part [of "nat (- i)"] n show ?thesis
    by (auto simp: py_str_int_def int_part_def Let_def split: if_splits)
next
  case False
  then show ?thesis by (simp add: py_str_int_def digits_int_part)
qed

lemma max_digits_pos: "0 < max_str_digits"
  by (simp add: max_str_digits_def)

lemma ascii_int_str: "short_int i \<Longrightarrow> ascii_int (py_str_int i) = Inr i"
proof -
  assume short: "short_int i"
  have len: "length (nat_digits (nat \<bar>i\<bar>)) \<le> max_str_digits"
    using short by (intro length_nat_digits) (simp_all add: short_int_def nat_less_iff max_digits_pos)
  have "take 1 (nat_digits n) \<noteq> [45]" for n
    using nat_digits_range [of n] by (cases "nat_digits n") auto
  then show ?thesis using len nat_digits_value by (auto simp: ascii_int_def py_str_int_def Let_def)
qed

lemma scan_int: "short_int i \<Longrightarrow> stop r \<Longrightarrow> scan_atom read (py_str_int i @ r) = Inr (JInt i, r)"
proof -
  assume "short_int i" "stop r"
  moreover have "fraction r = ([], r)" "exponent r = ([], r)"
    using fraction_append [OF \<open>stop r\<close>, of "[]"] exponent_append [OF \<open>stop r\<close>, of "[]"]
    by (simp_all add: fraction_def [of "[]"] exponent_def [of "[]"])
  ultimately show ?thesis
    by (simp add: scan_atom_number [OF int_part_str] scan_number_def int_part_append [OF int_part_str] ascii_int_str)
qed

text \<open>A float that is written as a number and reads back.\<close>

definition float_ok :: "(64 word \<Rightarrow> ustr) \<Rightarrow> (ustr \<Rightarrow> 64 word) \<Rightarrow> 64 word \<Rightarrow> bool" where
  "float_ok shown read f \<longleftrightarrow> read (shown f) = f \<and>
     (case int_part (shown f) of
        None \<Rightarrow> False
      | Some (w, r) \<Rightarrow> (case fraction r of (frac, r1) \<Rightarrow> case exponent r1 of (ex, r2) \<Rightarrow>
           (frac \<noteq> [] \<or> ex \<noteq> []) \<and> r2 = [] \<and> shown f = w @ frac @ ex))"

lemma scan_float: "float_ok shown read f \<Longrightarrow> stop r \<Longrightarrow> scan_atom read (shown f @ r) = Inr (JFloat f, r)"
proof -
  assume ok: "float_ok shown read f" and r: "stop r"
  then obtain w r0 frac r1 ex where parts: "int_part (shown f) = Some (w, r0)" "fraction r0 = (frac, r1)" "exponent r1 = (ex, [])"
    "frac \<noteq> [] \<or> ex \<noteq> []" "shown f = w @ frac @ ex" "read (shown f) = f"
    by (auto simp: float_ok_def split: option.splits prod.splits)
  have "fraction (r0 @ r) = (frac, r1 @ r)" "exponent (r1 @ r) = (ex, r)"
    using fraction_append [OF r, of r0] exponent_append [OF r, of r1] parts by simp_all
  with parts(4) have "scan_number read (shown f @ r) = Inr (JFloat (read (w @ frac @ ex)), r)"
    by (auto simp: scan_number_def int_part_append [OF parts(1) r])
  also have "read (w @ frac @ ex) = f" using parts(5,6) by simp
  finally show ?thesis by (simp only: scan_atom_number [OF parts(1)])
qed

section \<open>Values\<close>

fun json_ok :: "(64 word \<Rightarrow> ustr) \<Rightarrow> (ustr \<Rightarrow> 64 word) \<Rightarrow> nat \<Rightarrow> json \<Rightarrow> bool" where
  "json_ok shown read d (JInt i) = short_int i"
| "json_ok shown read d (JFloat f) = float_ok shown read f"
| "json_ok shown read d (JArr js) = (d \<noteq> 0 \<and> list_all (json_ok shown read (d - 1)) js)"
| "json_ok shown read d (JObj es) =
     (d \<noteq> 0 \<and> distinct (map fst es) \<and> list_all (\<lambda>e. json_ok shown read (d - 1) (snd e)) es)"
| "json_ok shown read d _ = True"

text \<open>A reader of single values that reads back a written value before any stop.\<close>

definition reads_back :: "(ustr \<Rightarrow> json_error + json \<times> ustr) \<Rightarrow> ustr \<Rightarrow> json \<Rightarrow> bool" where
  "reads_back val t j \<longleftrightarrow> t \<noteq> [] \<and> hd t \<notin> {32, 9, 10, 13, 93, 125} \<and> (\<forall>r. stop r \<longrightarrow> val (t @ r) = Inr (j, r))"

lemma skip_ws_visible [simp]: "c \<notin> {32, 9, 10, 13} \<Longrightarrow> skip_ws (c # r) = c # r" "skip_ws [] = []"
  by (simp_all add: skip_ws_def)

lemma reads_back_skip: "reads_back val t j \<Longrightarrow> skip_ws (t @ r) = t @ r"
  by (cases t) (auto simp: reads_back_def)

lemma scan_dumped_items:
  assumes "list_all2 (reads_back val) ts js" and "js \<noteq> []" and "length (join [44] ts) < n"
  shows "scan_items val n acc (join [44] ts @ 93 # r) = Inr (JArr (rev acc @ js), r)"
  using assms
proof (induction ts arbitrary: js n acc)
  case (Cons t ts)
  then obtain j js' where js: "js = j # js'" "reads_back val t j" "list_all2 (reads_back val) ts js'"
    by (auto simp: list_all2_Cons1)
  from Cons.prems(3) obtain m where n: "n = Suc m" by (cases n) auto
  note reads = js(2) [unfolded reads_back_def]
  show ?case
  proof (cases ts)
    case Nil
    with js reads n show ?thesis by simp
  next
    case (Cons t' ts')
    with js(3) have "js' \<noteq> []" by auto
    moreover have "length (join [44] ts) < m" using Cons.prems(3) n Cons by simp
    ultimately have ih: "scan_items val m (j # acc) (join [44] ts @ 93 # r) = Inr (JArr (rev (j # acc) @ js'), r)"
      using Cons.IH [OF js(3)] by blast
    from Cons js(3) obtain j' where "reads_back val t' j'" by (auto simp: list_all2_Cons1)
    then have "skip_ws (join [44] ts @ 93 # r) = join [44] ts @ 93 # r"
      using reads_back_skip [of val t' j'] Cons by (cases ts') (simp_all add: reads_back_skip)
    with Cons ih reads n js show ?thesis by simp
  qed
qed simp

lemma dict_set_new: "k \<notin> set (map fst es) \<Longrightarrow> dict_set k v es = es @ [(k, v)]"
  by (induction es) auto

lemma scan_key_dumped: "c \<notin> {32, 9, 10, 13} \<Longrightarrow> scan_key (dump_string k @ 58 # c # r) = Inr (k, c # r)"
  by (simp add: scan_key_def dump_string_def scan_dumped_string)

lemma scan_dumped_members:
  assumes "list_all2 (\<lambda>t e. \<exists>v. t = dump_string (fst e) @ [58] @ v \<and> reads_back val v (snd e)) ts es" and "es \<noteq> []"
    and "length (join [44] ts) < n" and "distinct (map fst (acc @ es))"
  shows "scan_members val n acc (join [44] ts @ 125 # r) = Inr (JObj (acc @ es), r)"
  using assms
proof (induction ts arbitrary: es n acc)
  case (Cons t ts)
  then obtain k j es' v where es: "es = (k, j) # es'" "t = dump_string k @ [58] @ v" "reads_back val v j"
    and rest: "list_all2 (\<lambda>t e. \<exists>v. t = dump_string (fst e) @ [58] @ v \<and> reads_back val v (snd e)) ts es'"
    by (auto simp: list_all2_Cons1)
  from Cons.prems(3) obtain m where n: "n = Suc m" by (cases n) auto
  note reads = es(3) [unfolded reads_back_def]
  from reads obtain c v' where v: "v = c # v'" "c \<notin> {32, 9, 10, 13}" by (cases v) auto
  have key: "scan_key (t @ s) = Inr (k, v @ s)" for s
    using scan_key_dumped [OF v(2), of k "v' @ s"] v(1) es(2) by simp
  have new: "dict_set k j acc = acc @ [(k, j)]" using Cons.prems(4) es by (intro dict_set_new) auto
  show ?case
  proof (cases ts)
    case Nil
    with es rest reads n key new show ?thesis by simp
  next
    case (Cons t' ts')
    with rest have "es' \<noteq> []" by auto
    moreover have "length (join [44] ts) < m" using Cons.prems(3) n Cons by simp
    moreover have "distinct (map fst ((acc @ [(k, j)]) @ es'))" using Cons.prems(4) es by simp
    ultimately have ih: "scan_members val m (acc @ [(k, j)]) (join [44] ts @ 125 # r) = Inr (JObj ((acc @ [(k, j)]) @ es'), r)"
      using Cons.IH [OF rest] by blast
    from Cons rest obtain e' v' where "t' = dump_string (fst e') @ [58] @ v'" by (auto simp: list_all2_Cons1)
    then have "\<exists>x. t' = quote # x" by (simp add: dump_string_def)
    then have "skip_ws (join [44] ts @ 125 # r) = join [44] ts @ 125 # r"
      using Cons by (cases ts') (auto simp: quote_def)
    with Cons ih reads n key new es show ?thesis by simp
  qed
qed simp

lemma hd_append_visible: "t \<noteq> [] \<Longrightarrow> hd (t @ r) = hd t"
  by (cases t) auto

lemma number_start: "int_part t = Some (w, r) \<Longrightarrow> t \<noteq> [] \<and> (hd t = 45 \<or> is_digit (hd t))"
  by (cases t) (auto simp: int_part_def Let_def is_digit_def split: if_splits)

lemma scan_value_atom:
  assumes "t \<noteq> []" and "hd t \<notin> {91, 123, quote}" and "scan_atom read (t @ r) = res"
  shows "scan_value read d (t @ r) = res"
proof -
  from assms(1) obtain c cs where "t = c # cs" by (cases t) auto
  with assms(2,3) show ?thesis by (cases d) (simp_all add: Let_def)
qed

lemma atom_reads_back:
  assumes "int_part t = Some (w, x)" and "\<And>r. stop r \<Longrightarrow> scan_atom read (t @ r) = Inr (j, r)"
  shows "reads_back (scan_value read d) t j"
  using number_start [OF assms(1)] scan_value_atom [of t] assms(2)
  by (auto simp: reads_back_def is_digit_def quote_def)

lemma word_reads_back:
  assumes "(w, j) \<in> {(u ''null'', JNull), (u ''true'', JBool True), (u ''false'', JBool False)}"
  shows "reads_back (scan_value read d) w j"
proof -
  have "scan_atom read (w @ r) = Inr (j, r)" for r using assms by (auto simp: scan_atom_def literals_def u_def)
  moreover have "w \<noteq> []" "hd w \<notin> {32, 9, 10, 13, 93, 125}" "hd w \<notin> {91, 123, quote}"
    using assms by (auto simp: u_def quote_def)
  ultimately show ?thesis using scan_value_atom [of w] by (simp add: reads_back_def)
qed

lemma string_reads_back: "reads_back (scan_value read d) (dump_string s) (JStr s)"
  by (cases d) (auto simp: reads_back_def dump_string_def quote_def scan_dumped_string [unfolded quote_def] Let_def)

lemma value_reads_back: "json_ok shown read d j \<Longrightarrow> reads_back (scan_value read d) (dumps shown j) j"
proof (induction shown read d j rule: json_ok.induct)
  case (1 shown read d i)
  then show ?case by (simp add: atom_reads_back [OF int_part_str] scan_int)
next
  case (2 shown read d f)
  then obtain w r where "int_part (shown f) = Some (w, r)" by (auto simp: float_ok_def split: option.splits)
  moreover have "scan_atom read (shown f @ r) = Inr (JFloat f, r)" if "stop r" for r
    using 2 that by (simp add: scan_float)
  ultimately show ?case using atom_reads_back [of "shown f"] by simp
next
  case (3 shown read d js)
  then obtain n where d: "d = Suc n" by (cases d) auto
  have all: "list_all2 (reads_back (scan_value read n)) (map (dumps shown) js) js"
    using 3 d by (auto simp: list_all2_map1 list_all2_same list_all_iff)
  show ?case
  proof (cases js)
    case Nil
    with d show ?thesis by (simp add: reads_back_def Let_def)
  next
    case (Cons j js')
    have j: "reads_back (scan_value read n) (dumps shown j) j" using all Cons by simp
    then have skip: "skip_ws (join [44] (map (dumps shown) js) @ r) = join [44] (map (dumps shown) js) @ r" for r
      using Cons by (cases js') (simp_all add: reads_back_skip)
    have "hd (join [44] (map (dumps shown) js)) = hd (dumps shown j)" "join [44] (map (dumps shown) js) \<noteq> []"
      using Cons j by (cases js'; simp add: reads_back_def)+
    with j have "take 1 (join [44] (map (dumps shown) js) @ r) \<noteq> [93]" for r
      by (cases "join [44] (map (dumps shown) js)") (auto simp: reads_back_def)
    moreover have "scan_items (scan_value read n) (length (join [44] (map (dumps shown) js) @ 93 # r)) []
        (join [44] (map (dumps shown) js) @ 93 # r) = Inr (JArr js, r)" for r
      using scan_dumped_items [OF all, of "length (join [44] (map (dumps shown) js) @ 93 # r)" "[]" r] Cons by simp
    ultimately show ?thesis using d by (simp add: reads_back_def Let_def skip)
  qed
next
  case (4 shown read d es)
  then obtain n where d: "d = Suc n" by (cases d) auto
  let ?texts = "map (\<lambda>e. dump_string (fst e) @ [58] @ dumps shown (snd e)) es"
  have all: "list_all2 (\<lambda>t e. \<exists>v. t = dump_string (fst e) @ [58] @ v \<and> reads_back (scan_value read n) v (snd e)) ?texts es"
    using 4 d by (auto simp: list_all2_map1 list_all2_same list_all_iff)
  show ?case
  proof (cases es)
    case Nil
    with d show ?thesis by (simp add: reads_back_def Let_def)
  next
    case (Cons e es')
    then obtain x where x: "join [44] ?texts = quote # x" by (cases es') (auto simp: dump_string_def)
    have "scan_members (scan_value read n) (length (quote # x @ 125 # r)) [] (quote # x @ 125 # r) = Inr (JObj es, r)" for r
      using scan_dumped_members [OF all, of "length (quote # x @ 125 # r)" "[]" r] Cons 4 x by simp
    then show ?thesis using d x by (simp add: reads_back_def Let_def quote_def del: scan_members.simps)
  qed
qed (simp_all add: word_reads_back string_reads_back)

lemma loads_dumps: "json_ok shown read d j \<Longrightarrow> loads read d (dumps shown j) = Inr j"
proof -
  assume "json_ok shown read d j"
  then have rb: "reads_back (scan_value read d) (dumps shown j) j" by (rule value_reads_back)
  then have "scan_value read d (dumps shown j) = Inr (j, [])"
    by (metis append_Nil2 reads_back_def stop_simps(1))
  then show ?thesis using reads_back_skip [OF rb, of "[]"] by (simp add: loads_def)
qed

text \<open>A file that ends in a newline.\<close>

lemma loads_dumps_line: "json_ok shown read d j \<Longrightarrow> loads read d (dumps shown j @ [10]) = Inr j"
proof -
  assume "json_ok shown read d j"
  then have rb: "reads_back (scan_value read d) (dumps shown j) j" by (rule value_reads_back)
  then have "scan_value read d (dumps shown j @ [10]) = Inr (j, [10])"
    by (simp add: reads_back_def)
  moreover have "skip_ws [10] = []" by (simp add: skip_ws_def)
  ultimately show ?thesis using reads_back_skip [OF rb, of "[10]"] by (simp add: loads_def)
qed

end
