(* ===== verification/Node_Protocol_Properties.thy ===== *)
theory Node_Protocol_Properties
  imports Node_Protocol Json_Laws
begin

text \<open>
  Messages read back as they were written, a generated pairing code is accepted as typed and tells its secret
  from every other, and a signature answers the challenge of one Node and one nonce only.
\<close>

section \<open>Messages\<close>

lemma object_start: "m \<noteq> [] \<Longrightarrow> \<exists>x. dumps shown (JObj m) = 123 # 34 # x"
proof -
  assume "m \<noteq> []"
  then obtain e es where "m = e # es" by (cases m) auto
  then show ?thesis by (cases es) (auto simp: dump_string_def quote_def)
qed

lemma plain_object: "utf8_encode (123 # 34 # x) = Some b \<Longrightarrow> plain_utf8 b"
  by (auto simp: utf8_encode_def utf8_char_def plain_utf8_def split: if_splits)

text \<open>C22: what one side encodes, the other decodes to the same message, whether it arrives as text or as bytes.\<close>

theorem messages_round_trip:
  assumes "encode_message shown m = Inr raw" and "json_ok shown read depth (JObj m)"
  shows "decode_message read depth other (Raw_Text raw) = Inr m \<and> decode_message read depth other (Raw_Bytes (utf8_bytes raw)) = Inr m"
proof -
  from assms(1) have t: "has_type m" and raw: "raw = dumps shown (JObj m)" and b: "utf8_encode raw = Some (utf8_bytes raw)"
    and small: "length (utf8_bytes raw) \<le> max_message_bytes"
    by (auto simp: encode_message_def Let_def utf8_encode_def not_less split: if_splits option.splits)
  have "m \<noteq> []" using t by (auto simp: has_type_def)
  then obtain x where x: "raw = 123 # 34 # x" using object_start raw by blast
  have "plain_utf8 (utf8_bytes raw)" using plain_object b x by blast
  moreover have "utf8_decode True (utf8_bytes raw) = Some raw"
    using b by (intro decode_encode) (simp add: utf8_encode_def split: if_splits)
  ultimately have json: "json_text other (utf8_bytes raw) = Some raw" by (simp add: json_text_def)
  have "loads read depth raw = Inr (JObj m)" unfolding raw by (rule loads_dumps [OF assms(2)])
  then show ?thesis using b small json t by (simp add: decode_message_def not_less)
qed

section \<open>Pairing codes\<close>

lemma base_digits_inj:
  fixes v w :: nat
  assumes "v < b ^ n" and "w < b ^ n" and "\<forall>i < n. v div b ^ i mod b = w div b ^ i mod b"
  shows "v = w"
  using assms
proof (induction n arbitrary: v w)
  case (Suc n)
  have "v mod b = w mod b" using Suc.prems(3) [rule_format, of 0] by simp
  moreover have "v div b = w div b"
  proof (rule Suc.IH)
    show "v div b < b ^ n" "w div b < b ^ n"
      using Suc.prems(1,2) by (auto simp: less_mult_imp_div_less mult.commute)
    show "\<forall>i < n. v div b div b ^ i mod b = w div b div b ^ i mod b"
      using Suc.prems(3) [rule_format, of "Suc _"] by (simp add: div_mult2_eq)
  qed
  ultimately show ?case by (metis div_mult_mod_eq)
qed simp

lemma b32_char_inj: "i < 32 \<Longrightarrow> j < 32 \<Longrightarrow> b32_char i = b32_char j \<longleftrightarrow> i = j"
  by (auto simp: b32_char_def split: if_splits)

lemma bytes_value_bound: "byte_list g \<Longrightarrow> foldl (\<lambda>n b. n * 256 + b) 0 g < 256 ^ length g"
proof (induction g rule: rev_induct)
  case (snoc x g)
  then have "foldl (\<lambda>n b. n * 256 + b) 0 g + 1 \<le> 256 ^ length g" "x < 256" by (auto simp: byte_list_def)
  then have "(foldl (\<lambda>n b. n * 256 + b) 0 g + 1) * 256 \<le> 256 ^ length g * 256" by (intro mult_le_mono1)
  with \<open>x < 256\<close> show ?case by simp
qed simp

lemma bytes_value_inj:
  "byte_list g \<Longrightarrow> byte_list h \<Longrightarrow> length g = length h
    \<Longrightarrow> foldl (\<lambda>n b. n * 256 + b) 0 g = foldl (\<lambda>n b. n * 256 + b) (0 :: nat) h \<Longrightarrow> g = h"
proof (induction g arbitrary: h rule: rev_induct)
  case (snoc x g)
  then obtain h' y where h: "h = h' @ [y]" by (cases h rule: rev_cases) auto
  let ?v = "foldl (\<lambda>n b. n * 256 + b) 0 :: nat list \<Rightarrow> nat"
  have eq: "?v g * 256 + x = ?v h' * 256 + y" and b: "x < 256" "y < 256" using snoc.prems h by (auto simp: byte_list_def)
  have "(?v g * 256 + x) div 256 = ?v g" "(?v h' * 256 + y) div 256 = ?v h'" using b by simp_all
  then have "?v g = ?v h'" using eq by metis
  with eq snoc.IH [of h'] snoc.prems h show ?case by (simp add: byte_list_def)
qed simp

lemma b32_group_inj:
  assumes "byte_list g" and "byte_list h" and "length g = 5" and "length h = 5" and "b32_group g = b32_group h"
  shows "g = h"
proof -
  define v w where "v = foldl (\<lambda>n b. n * 256 + b) 0 g" and "w = foldl (\<lambda>n b. n * 256 + b) 0 h"
  have "v < 32 ^ 8" "w < 32 ^ 8" using bytes_value_bound assms(1-4) by (force simp: v_def w_def)+
  moreover have "\<forall>i < 8. v div 32 ^ i mod 32 = w div 32 ^ i mod 32"
  proof -
    have "\<forall>i \<in> set [7, 6, 5, 4, 3, 2, 1, 0 :: nat]. b32_char (v div 32 ^ i mod 32) = b32_char (w div 32 ^ i mod 32)"
      using assms(5) unfolding b32_group_def Let_def map_eq_conv v_def w_def .
    moreover have "i < 8 \<Longrightarrow> i \<in> set [7, 6, 5, 4, 3, 2, 1, 0]" for i :: nat by auto
    ultimately show ?thesis by (metis b32_char_inj mod_less_divisor zero_less_numeral)
  qed
  ultimately have "v = w" by (rule base_digits_inj)
  with bytes_value_inj assms(1-4) show ?thesis by (simp add: v_def w_def)
qed

lemma length_b32_group [simp]: "length (b32_group g) = 8"
  by (simp add: b32_group_def Let_def)

lemma ten_groups: "length raw = 10 \<Longrightarrow> b32_groups raw = b32_group (take 5 raw) @ b32_group (drop 5 raw)"
proof -
  have five: "length s = 5 \<Longrightarrow> b32_groups (s @ r) = b32_group s @ b32_groups r" for s r
    by (cases s rule: b32_groups.cases) auto
  assume "length raw = 10"
  with five [of "take 5 raw" "drop 5 raw"] five [of "drop 5 raw" "[]"] show ?thesis by simp
qed

lemma b32_groups_inj:
  assumes "length b = 10" and "length c = 10" and "byte_list b" and "byte_list c" and "b32_groups b = b32_groups c"
  shows "b = c"
proof -
  have "b32_group (take 5 b) = b32_group (take 5 c)" "b32_group (drop 5 b) = b32_group (drop 5 c)"
    using assms(5) by (simp_all add: ten_groups assms(1,2) append_eq_append_conv)
  moreover have "byte_list (take 5 r) \<and> byte_list (drop 5 r)" if "byte_list r" for r
    using that by (auto simp: byte_list_def dest: in_set_takeD in_set_dropD)
  ultimately have "take 5 b = take 5 c" "drop 5 b = drop 5 c" using b32_group_inj assms by simp_all
  then show ?thesis by (metis append_take_drop_id)
qed

lemma b32_group_chars: "c \<in> set (b32_group g) \<Longrightarrow> pairing_char c"
proof -
  have "n < 32 \<Longrightarrow> pairing_char (b32_char n)" for n by (auto simp: pairing_char_def b32_char_def)
  then show "c \<in> set (b32_group g) \<Longrightarrow> pairing_char c" by (auto simp: b32_group_def Let_def)
qed

lemma b32_groups_chars: "c \<in> set (b32_groups b) \<Longrightarrow> pairing_char c"
  by (induction b rule: b32_groups.induct) (auto simp: b32_group_chars)

lemma ten_bytes:
  assumes "length raw = 10"
  shows "b32encode raw = b32_groups raw" and "length (b32_groups raw) = 16" and "rstrip_char pad (b32encode raw) = b32_groups raw"
proof -
  show e: "b32encode raw = b32_groups raw" using assms by (simp add: b32encode_def)
  show "length (b32_groups raw) = 16" using assms by (simp add: ten_groups)
  have "b32_groups raw \<noteq> [] \<Longrightarrow> last (b32_groups raw) \<noteq> pad"
    using b32_groups_chars [OF last_in_set, of raw] by (auto simp: pairing_char_def pad_def)
  then show "rstrip_char pad (b32encode raw) = b32_groups raw" unfolding e by (intro rstrip_char_id) blast
qed

lemma ungrouped: "filter (\<lambda>c. c \<noteq> 45) (join [45] (groups_of_four s)) = filter (\<lambda>c. c \<noteq> 45) s"
proof (induction s rule: groups_of_four.induct)
  case (1 a b c d s)
  then show ?case by (cases "groups_of_four s") auto
qed auto

lemma grouped_chars: "c \<in> set (join [45] (groups_of_four s)) \<Longrightarrow> c = 45 \<or> c \<in> set s"
proof (induction s rule: groups_of_four.induct)
  case (1 a b c' d s)
  then show ?case by (cases "groups_of_four s") auto
qed auto

text \<open>A generated pairing code is accepted as it is shown, its normal form are the sixteen letters of its secret,
  and codes of different secrets are different.\<close>

theorem generated_codes_are_accepted:
  assumes "length raw = 10" and "\<And>s. list_all (\<lambda>c. pairing_char c \<or> c = 45) s \<Longrightarrow> upper s = s"
  shows "normalize_pairing_code upper (generate_pairing_code raw) = Inr (b32encode raw)"
    and "byte_list raw \<Longrightarrow> byte_list raw' \<Longrightarrow> length raw' = 10
      \<Longrightarrow> generate_pairing_code raw' = generate_pairing_code raw \<longleftrightarrow> raw' = raw"
proof -
  let ?code = "generate_pairing_code raw"
  have chars: "list_all pairing_char (b32_groups raw)" by (auto simp: list_all_iff b32_groups_chars)
  have code: "list_all (\<lambda>c. pairing_char c \<or> c = 45) ?code"
    unfolding generate_pairing_code_def ten_bytes(3) [OF assms(1)] list_all_iff using b32_groups_chars grouped_chars by blast
  have "\<forall>c \<in> set ?code. \<not> is_space c" using code by (auto simp: list_all_iff is_space_def pairing_char_def)
  then have "upper (strip ?code) = ?code" using assms(2) [OF code] by (simp add: strip_no_space)
  moreover have plain: "filter (\<lambda>c. c \<noteq> 45) (generate_pairing_code r) = b32_groups r" if "length r = 10" for r
    unfolding generate_pairing_code_def ten_bytes(3) [OF that] ungrouped
    using b32_groups_chars [of 45 r] by (auto simp: filter_id_conv pairing_char_def)
  moreover have "filter (\<lambda>c. c \<noteq> 32) (b32_groups raw) = b32_groups raw"
    using b32_groups_chars [of 32 raw] by (auto simp: filter_id_conv pairing_char_def)
  ultimately show "normalize_pairing_code upper ?code = Inr (b32encode raw)"
    using chars ten_bytes [OF assms(1)] assms(1) by (simp add: normalize_pairing_code_def Let_def)
  show "generate_pairing_code raw' = ?code \<longleftrightarrow> raw' = raw" if "byte_list raw" "byte_list raw'" "length raw' = 10"
    using plain [OF assms(1)] plain [OF that(3)] b32_groups_inj [OF that(3) assms(1) that(2,1)] by metis
qed

section \<open>Challenges\<close>

lemma b64_text_ascii: "\<not> list_ex (\<lambda>c. 128 \<le> c) (b64_text b)"
proof -
  have "b64_char n < 128" for n unfolding b64_char_def by (auto split: if_splits)
  then have "c \<in> set (b64encode b) \<Longrightarrow> url_safe c < 128" for c
    using set_b64encode [of c b] by (auto simp: url_safe_def pad_def)
  moreover have "set (b64_text b) \<subseteq> url_safe ` set (b64encode b)"
    by (auto simp: b64_text_def rstrip_char_def dest!: set_dropWhileD)
  ultimately show ?thesis by (fastforce simp: list_ex_iff)
qed

lemma utf8_encode_decode: "utf8_encode s = Some b \<Longrightarrow> utf8_decode final b = Some s"
  using decode_encode by (auto simp: utf8_encode_def split: if_splits)

lemma auth_payload_inj:
  assumes "auth_payload n1 x1 = Inr b" and "auth_payload n2 x2 = Inr b"
  shows "n1 = n2 \<and> x1 = x2"
proof -
  have payload: "length n = 32 \<and> utf8_decode True b = Some (u ''termroom-node-auth-v1'' @ [0] @ n @ [0] @ x)"
    if "auth_payload n x = Inr b" for n x
    using that utf8_encode_decode by (auto simp: auth_payload_def rbind_Inr_iff validate_node_id_def hex_id_def split: if_splits option.splits)
  from payload [OF assms(1)] payload [OF assms(2)] show ?thesis by auto
qed

lemma utf8_byte_list: "list_all scalar s \<Longrightarrow> byte_list (utf8_bytes s)"
proof -
  have "scalar c \<Longrightarrow> byte_list (utf8_char c)" for c by (auto simp: byte_list_def utf8_char_def scalar_def)
  then show "list_all scalar s \<Longrightarrow> byte_list (utf8_bytes s)" by (induction s) (auto simp: byte_list_def)
qed

lemma encoded_byte_list: "utf8_encode s = Some b \<Longrightarrow> byte_list b"
  using utf8_byte_list [of s] by (auto simp: utf8_encode_def split: if_splits)

lemma auth_payload_bytes: "auth_payload n x = Inr b \<Longrightarrow> byte_list b"
  by (auto simp: auth_payload_def rbind_Inr_iff intro: encoded_byte_list split: if_splits option.splits)

text \<open>A Node that signs the challenge with its key is accepted, and its signature is accepted for this very Node
  and nonce only, whenever a signature verifies nothing but the bytes it was made for.\<close>

theorem signed_challenge_is_accepted:
  assumes "sign_challenge signs key node_id nonce = Inr signature"
    and "byte_list pub" and "length pub = 32" and "key_ok pub"
    and "\<And>b. byte_list b \<Longrightarrow> byte_list (signs key b) \<and> verifies pub (signs key b) b"
    and "\<And>b b'. byte_list b \<Longrightarrow> byte_list b' \<Longrightarrow> verifies pub (signs key b) b' \<Longrightarrow> b' = b"
  shows "verify_challenge key_ok verifies (public_key_text pub) node_id' nonce' signature \<longleftrightarrow> node_id' = node_id \<and> nonce' = nonce"
proof -
  from assms(1) obtain b where b: "auth_payload node_id nonce = Inr b" "signature = b64_text (signs key b)"
    by (auto simp: sign_challenge_def rbind_Inr_iff)
  have pub: "parse_public_key key_ok (public_key_text pub) = Inr pub"
    using assms(2-4) b64_text_ascii by (simp add: parse_public_key_def public_key_text_def b64_round_trip Let_def)
  note bytes = auth_payload_bytes [OF b(1)]
  have iff: "verify_challenge key_ok verifies (public_key_text pub) n x signature \<longleftrightarrow>
      (\<exists>b'. auth_payload n x = Inr b' \<and> verifies pub (signs key b) b')" for n x
    using b64_text_ascii assms(5) [OF bytes] pub by (auto simp: verify_challenge_def b(2) b64_round_trip split: sum.splits)
  have "verifies pub (signs key b) b' \<longleftrightarrow> b' = b" if "auth_payload n x = Inr b'" for n x b'
    using assms(5,6) bytes auth_payload_bytes [OF that] by blast
  with iff b(1) show ?thesis using auth_payload_inj by blast
qed

section \<open>Samples\<close>

definition sample_message :: message where
  "sample_message = [(u ''type'', JStr (u ''request'')), (u ''payload'', JObj [(u ''path'', JStr [34, 92, 10]), (u ''deep'', JBool True)]),
     (u ''list'', JArr [JNull, JArr []])]"

theorem messages_witness:
  "\<exists>raw. encode_message (\<lambda>_. []) sample_message = Inr raw
    \<and> decode_message (\<lambda>_. 0) 3 (\<lambda>_. None) (Raw_Text raw) = Inr sample_message"
proof -
  have "has_type sample_message" "map_of sample_message (u ''type'') \<noteq> Some (JStr [])"
    by (simp_all add: has_type_def sample_message_def)
  moreover have "list_all scalar (dumps (\<lambda>_. []) (JObj sample_message))" "length (utf8_bytes (dumps (\<lambda>_. []) (JObj sample_message))) \<le> max_message_bytes"
    by (simp_all add: sample_message_def dump_string_def dump_char_def quote_def backslash_def u_def scalar_def is_surrogate_def
        utf8_char_def max_message_bytes_def)
  moreover have "\<not> int_too_long (JObj sample_message)" by (simp add: sample_message_def)
  ultimately obtain raw where raw: "encode_message (\<lambda>_. []) sample_message = Inr raw"
    by (simp add: encode_message_def utf8_encode_def Let_def)
  have "json_ok (\<lambda>_. []) (\<lambda>_. 0) 3 (JObj sample_message)" by (simp add: sample_message_def)
  from messages_round_trip [OF raw this] raw show ?thesis by blast
qed

theorem generated_codes_witness:
  "normalize_pairing_code id (generate_pairing_code [0, 1, 2, 3, 4, 5, 6, 7, 8, 255])
      = Inr (b32encode [0, 1, 2, 3, 4, 5, 6, 7, 8, 255])
    \<and> generate_pairing_code [0, 1, 2, 3, 4, 5, 6, 7, 8, 254] \<noteq> generate_pairing_code [0, 1, 2, 3, 4, 5, 6, 7, 8, 255]"
  using generated_codes_are_accepted(1) [of "[0, 1, 2, 3, 4, 5, 6, 7, 8, 255]" id]
    generated_codes_are_accepted(2) [of "[0, 1, 2, 3, 4, 5, 6, 7, 8, 255]" id "[0, 1, 2, 3, 4, 5, 6, 7, 8, 254]"] by simp

definition sample_sign :: "nat \<Rightarrow> bytes \<Rightarrow> bytes" where
  "sample_sign key b = map (\<lambda>x. x mod 256) b"

theorem signed_challenge_witness:
  "\<exists>signature. sign_challenge sample_sign 0 (replicate 32 97) [120] = Inr signature
    \<and> verify_challenge (\<lambda>_. True) (\<lambda>_ s b. s = b) (public_key_text (replicate 32 7)) (replicate 32 97) [120] signature
    \<and> \<not> verify_challenge (\<lambda>_. True) (\<lambda>_ s b. s = b) (public_key_text (replicate 32 7)) (replicate 32 97) [121] signature"
proof -
  have same: "byte_list b \<Longrightarrow> sample_sign 0 b = b" for b by (auto simp: sample_sign_def byte_list_def intro!: map_idI)
  have "list_all scalar (u ''termroom-node-auth-v1'' @ [0] @ replicate 32 97 @ [0] @ [120])"
    by (simp add: u_def scalar_def is_surrogate_def list_all_iff)
  then obtain s where s: "sign_challenge sample_sign 0 (replicate 32 97) [120] = Inr s"
    by (simp add: sign_challenge_def auth_payload_def validate_node_id_def hex_id_def utf8_encode_def list_all_iff)
  have "byte_list (replicate 32 7)" by (simp add: byte_list_def)
  from signed_challenge_is_accepted [OF s this, of "\<lambda>_. True" "\<lambda>_ s b. s = b"] same s show ?thesis by auto
qed

end
