(* ===== verification/Node_Connection.thy ===== *)
theory Node_Connection
  imports Node_Protocol
begin

text \<open>
  One authenticated connection of a Node (\<^verbatim>\<open>NodeStream\<close> and \<^verbatim>\<open>NodeConnection\<close> of \<^verbatim>\<open>termroom/node_core.py\<close>).

  asyncio runs the coroutines of a connection one at a time between their awaits; each definition is such an
  atomic segment, and a method with an await in the middle has one definition before and one after it. Futures
  and streams are objects that outlive their entries in the dicts: \<open>cn_futures\<close> and \<open>cn_objects\<close> hold all that were
  created, \<open>cn_pending\<close> and \<open>cn_streams\<close> are the keys of \<^verbatim>\<open>_pending\<close> and \<^verbatim>\<open>_streams\<close>. \<open>shown\<close> writes floats, \<open>repr\<close> is
  \<^verbatim>\<open>str\<close> of a float, a list or a dict, \<open>link\<close> says whether the socket takes the message.
\<close>

section \<open>Streams\<close>

datatype stream_item = Chunk bytes | Control message | Failure node_exn | Stream_End

record node_stream =
  ns_queue :: "stream_item list"
  ns_closed :: bool
  ns_result :: message

definition queue_depth :: nat where "queue_depth = 32"
definition tombstones :: nat where "tombstones = 256"

definition new_stream :: node_stream where
  "new_stream = \<lparr>ns_queue = [], ns_closed = False, ns_result = []\<rparr>"

definition replace_queue_tail :: "stream_item \<Rightarrow> node_stream \<Rightarrow> node_stream" where
  "replace_queue_tail item s =
    s\<lparr>ns_queue := (if queue_depth \<le> length (ns_queue s) then tl (ns_queue s) else ns_queue s) @ [item]\<rparr>"

definition feed_error :: "node_exn \<Rightarrow> node_stream \<Rightarrow> node_stream" where
  "feed_error e s = (if ns_closed s then s else replace_queue_tail (Failure e) (s\<lparr>ns_closed := True\<rparr>))"

definition feed_end :: "message \<Rightarrow> node_stream \<Rightarrow> node_stream" where
  "feed_end result s =
    (if ns_closed s then s else replace_queue_tail Stream_End (s\<lparr>ns_result := result, ns_closed := True\<rparr>))"

definition stream_overflow :: node_exn where
  "stream_overflow = Node_Core_Error (u ''Node stream exceeded its buffer'') (u ''stream_overflow'')"

definition feed_item :: "stream_item \<Rightarrow> node_stream \<Rightarrow> (node_exn + unit) \<times> node_stream" where
  "feed_item item s =
    (if ns_closed s then (Inr (), s)
     else if queue_depth \<le> length (ns_queue s) then (Inl stream_overflow, feed_error stream_overflow s)
     else (Inr (), s\<lparr>ns_queue := ns_queue s @ [item]\<rparr>))"

definition feed_data :: "bytes \<Rightarrow> node_stream \<Rightarrow> (node_exn + unit) \<times> node_stream" where
  "feed_data chunk = feed_item (Chunk chunk)"

definition feed_control :: "message \<Rightarrow> node_stream \<Rightarrow> (node_exn + unit) \<times> node_stream" where
  "feed_control control = feed_item (Control control)"

text \<open>\<open>None\<close>: the reader waits.\<close>

datatype stream_event = Data bytes | Event message | Ended

definition item_event :: "stream_item \<Rightarrow> node_exn + stream_event" where
  "item_event item = (case item of Chunk b \<Rightarrow> Inr (Data b) | Control m \<Rightarrow> Inr (Event m) | Failure e \<Rightarrow> Inl e | Stream_End \<Rightarrow> Inr Ended)"

definition receive_event :: "node_stream \<Rightarrow> (node_exn + stream_event) option \<times> node_stream" where
  "receive_event s =
    (case ns_queue s of [] \<Rightarrow> (None, s) | item # q \<Rightarrow> (Some (item_event item), s\<lparr>ns_queue := q\<rparr>))"

fun next_bytes :: "stream_item list \<Rightarrow> (node_exn + bytes option) option \<times> stream_item list" where
  "next_bytes [] = (None, [])"
| "next_bytes (item # q) =
     (case item_event item of
        Inl e \<Rightarrow> (Some (Inl e), q)
      | Inr Ended \<Rightarrow> (Some (Inr None), q)
      | Inr (Data b) \<Rightarrow> (Some (Inr (Some b)), q)
      | Inr (Event m) \<Rightarrow> next_bytes q)"

definition receive :: "node_stream \<Rightarrow> (node_exn + bytes option) option \<times> node_stream" where
  "receive s = (case next_bytes (ns_queue s) of (r, q) \<Rightarrow> (r, s\<lparr>ns_queue := q\<rparr>))"

section \<open>Requests\<close>

datatype future = Waiting | Result message | Failed node_exn | Cancelled

record connection =
  cn_node :: ustr
  cn_closed :: bool
  cn_futures :: "ustr \<Rightarrow> future option"
  cn_pending :: "ustr list"
  cn_closed_requests :: "ustr list"
  cn_objects :: "ustr \<Rightarrow> node_stream option"
  cn_streams :: "ustr list"
  cn_closed_streams :: "ustr list"
  cn_sent :: "message list"

definition new_connection :: "ustr \<Rightarrow> connection" where
  "new_connection node_id = \<lparr>cn_node = node_id, cn_closed = False, cn_futures = (\<lambda>_. None), cn_pending = [],
     cn_closed_requests = [], cn_objects = (\<lambda>_. None), cn_streams = [], cn_closed_streams = [], cn_sent = []\<rparr>"

text \<open>\<^verbatim>\<open>deque(maxlen=256).append\<close>.\<close>

definition bury :: "ustr \<Rightarrow> ustr list \<Rightarrow> ustr list" where
  "bury x q = drop (length q + 1 - tombstones) (q @ [x])"

definition send :: "(64 word \<Rightarrow> ustr) \<Rightarrow> bool \<Rightarrow> message \<Rightarrow> connection \<Rightarrow> (node_exn + unit) \<times> connection" where
  "send shown link m c =
    (if cn_closed c then (Inl (Node_Unavailable_Error (u ''Node is offline'')), c)
     else case encode_message shown m of
            Inl e \<Rightarrow> (Inl e, c)
          | Inr raw \<Rightarrow> if link then (Inr (), c\<lparr>cn_sent := cn_sent c @ [m]\<rparr>)
                       else (Inl (Node_Unavailable_Error (u ''Node is offline'')), c))"

definition request_message :: "ustr \<Rightarrow> int \<Rightarrow> ustr \<Rightarrow> message \<Rightarrow> message" where
  "request_message request_id budget_ms operation payload =
    [(u ''type'', JStr (u ''request'')), (u ''id'', JStr request_id), (u ''protocol_version'', JInt protocol_version),
     (u ''budget_ms'', JInt budget_ms), (u ''operation'', JStr operation), (u ''payload'', JObj payload)]"

text \<open>The \<^verbatim>\<open>finally\<close> of \<^verbatim>\<open>request\<close>.\<close>

definition release_request :: "ustr \<Rightarrow> connection \<Rightarrow> connection" where
  "release_request request_id c =
    c\<lparr>cn_pending := filter (\<lambda>i. i \<noteq> request_id) (cn_pending c),
      cn_futures := (if cn_futures c request_id = Some Waiting then (cn_futures c)(request_id \<mapsto> Cancelled) else cn_futures c)\<rparr>"

definition start_request ::
    "(64 word \<Rightarrow> ustr) \<Rightarrow> bool \<Rightarrow> ustr \<Rightarrow> int \<Rightarrow> ustr \<Rightarrow> message \<Rightarrow> connection \<Rightarrow> (node_exn + unit) \<times> connection" where
  "start_request shown link request_id budget_ms operation payload c =
    (case validate_request_operation operation of
       Inl e \<Rightarrow> (Inl e, c)
     | Inr op \<Rightarrow>
         let c1 = c\<lparr>cn_futures := (cn_futures c)(request_id \<mapsto> Waiting), cn_pending := cn_pending c @ [request_id]\<rparr> in
         (case send shown link (request_message request_id budget_ms op payload) c1 of
            (Inl e, c2) \<Rightarrow> (Inl e, release_request request_id c2)
          | (Inr _, c2) \<Rightarrow> (Inr (), c2)))"

text \<open>The caller resumes when its future is done (\<open>None\<close>: it still waits), or is cancelled while it waits.\<close>

definition finish_request :: "ustr \<Rightarrow> connection \<Rightarrow> (node_exn + message) option \<times> connection" where
  "finish_request request_id c =
    (case cn_futures c request_id of
       Some (Result m) \<Rightarrow> (Some (Inr m), release_request request_id c)
     | Some (Failed e) \<Rightarrow> (Some (Inl e), release_request request_id c)
     | _ \<Rightarrow> (None, c))"

text \<open>The socket breaks while the message waits to be sent.\<close>

definition lose_request :: "ustr \<Rightarrow> connection \<Rightarrow> (node_exn + unit) \<times> connection" where
  "lose_request request_id c = (Inl (Node_Unavailable_Error (u ''Node is offline'')), release_request request_id c)"

definition cancel_request :: "ustr \<Rightarrow> connection \<Rightarrow> connection" where
  "cancel_request request_id c =
    release_request request_id (c\<lparr>cn_closed_requests := bury request_id (cn_closed_requests c)\<rparr>)"

section \<open>Streams of a connection\<close>

definition forget_stream :: "ustr \<Rightarrow> connection \<Rightarrow> connection" where
  "forget_stream stream_id c = c\<lparr>cn_streams := filter (\<lambda>i. i \<noteq> stream_id) (cn_streams c)\<rparr>"

definition drop_stream :: "ustr \<Rightarrow> connection \<Rightarrow> connection" where
  "drop_stream stream_id c =
    (if stream_id \<in> set (cn_streams c)
     then (forget_stream stream_id c)\<lparr>cn_closed_streams := bury stream_id (cn_closed_streams c)\<rparr> else c)"

definition set_stream :: "ustr \<Rightarrow> node_stream \<Rightarrow> connection \<Rightarrow> connection" where
  "set_stream stream_id s c = c\<lparr>cn_objects := (cn_objects c)(stream_id \<mapsto> s)\<rparr>"

definition start_open_stream ::
    "(64 word \<Rightarrow> ustr) \<Rightarrow> bool \<Rightarrow> ustr \<Rightarrow> ustr \<Rightarrow> int \<Rightarrow> ustr \<Rightarrow> message \<Rightarrow> connection \<Rightarrow> (node_exn + unit) \<times> connection" where
  "start_open_stream shown link stream_id request_id budget_ms operation payload c =
    (let c1 = (set_stream stream_id new_stream c)\<lparr>cn_streams := cn_streams c @ [stream_id]\<rparr> in
     case start_request shown link request_id budget_ms operation (dict_set (u ''stream_id'') (JStr stream_id) payload) c1 of
       (Inl e, c2) \<Rightarrow> (Inl e, forget_stream stream_id c2)
     | (Inr _, c2) \<Rightarrow> (Inr (), c2))"

definition finish_open_stream :: "ustr \<Rightarrow> ustr \<Rightarrow> connection \<Rightarrow> (node_exn + message) option \<times> connection" where
  "finish_open_stream stream_id request_id c =
    (case finish_request request_id c of
       (None, c1) \<Rightarrow> (None, c1)
     | (Some (Inl e), c1) \<Rightarrow> (Some (Inl e), forget_stream stream_id c1)
     | (Some (Inr result), c1) \<Rightarrow>
         if map_of result (u ''stream_id'') \<noteq> Some (JStr stream_id)
         then (Some (Inl (Node_Request_Error (u ''Node returned the wrong stream'') (u ''stream_invalid''))), forget_stream stream_id c1)
         else (Some (Inr result), c1))"

definition lose_open_stream :: "ustr \<Rightarrow> ustr \<Rightarrow> connection \<Rightarrow> (node_exn + unit) \<times> connection" where
  "lose_open_stream stream_id request_id c =
    (case lose_request request_id c of (r, c') \<Rightarrow> (r, forget_stream stream_id c'))"

definition cancel_open_stream :: "ustr \<Rightarrow> ustr \<Rightarrow> connection \<Rightarrow> connection" where
  "cancel_open_stream stream_id request_id c = forget_stream stream_id (cancel_request request_id c)"

function chunks_of :: "nat \<Rightarrow> bytes \<Rightarrow> bytes list" where
  "chunks_of n b = (if b = [] \<or> n = 0 then [] else take n b # chunks_of n (drop n b))"
  by pat_completeness auto
termination by (relation "measure (\<lambda>(n, b). length b)") auto

declare chunks_of.simps [simp del]

definition data_message :: "ustr \<Rightarrow> bytes \<Rightarrow> message" where
  "data_message stream_id chunk =
    [(u ''type'', JStr (u ''stream.data'')), (u ''stream_id'', JStr stream_id), (u ''data'', JStr (b64encode chunk))]"

text \<open>\<open>link i\<close>: the socket takes the \<open>i\<close>-th chunk.\<close>

fun send_chunks :: "(64 word \<Rightarrow> ustr) \<Rightarrow> (nat \<Rightarrow> bool) \<Rightarrow> nat \<Rightarrow> ustr \<Rightarrow> bytes list \<Rightarrow> connection \<Rightarrow> (node_exn + unit) \<times> connection" where
  "send_chunks shown link i stream_id [] c = (Inr (), c)"
| "send_chunks shown link i stream_id (chunk # rest) c =
     (case send shown (link i) (data_message stream_id chunk) c of
        (Inl e, c') \<Rightarrow> (Inl e, c') | (Inr _, c') \<Rightarrow> send_chunks shown link (Suc i) stream_id rest c')"

definition stream_closed :: "ustr \<Rightarrow> connection \<Rightarrow> bool" where
  "stream_closed stream_id c = (case cn_objects c stream_id of None \<Rightarrow> True | Some s \<Rightarrow> ns_closed s)"

definition stream_send ::
    "(64 word \<Rightarrow> ustr) \<Rightarrow> (nat \<Rightarrow> bool) \<Rightarrow> ustr \<Rightarrow> bytes \<Rightarrow> connection \<Rightarrow> (node_exn + unit) \<times> connection" where
  "stream_send shown link stream_id data c =
    (if stream_closed stream_id c then (Inl (Node_Unavailable_Error (u ''Node stream is closed'')), c)
     else send_chunks shown link 0 stream_id (chunks_of max_chunk_bytes data) c)"

definition stream_control ::
    "(64 word \<Rightarrow> ustr) \<Rightarrow> bool \<Rightarrow> ustr \<Rightarrow> ustr \<Rightarrow> message \<Rightarrow> connection \<Rightarrow> (node_exn + unit) \<times> connection" where
  "stream_control shown link stream_id kind values c =
    (if stream_closed stream_id c then (Inr (), c)
     else send shown link (foldl (\<lambda>m (k, v). dict_set k v m)
       [(u ''type'', JStr (u ''stream.control'')), (u ''stream_id'', JStr stream_id), (u ''kind'', JStr kind)] values) c)"

definition stop_message :: "string \<Rightarrow> ustr \<Rightarrow> message" where
  "stop_message kind stream_id = [(u ''type'', JStr (u kind)), (u ''stream_id'', JStr stream_id)]"

text \<open>\<^verbatim>\<open>close\<close> and \<^verbatim>\<open>abort\<close>: a failing send is suppressed unless it is a \<^verbatim>\<open>NodeProtocolError\<close>, which these messages
  never raise.\<close>

definition stream_stop :: "(64 word \<Rightarrow> ustr) \<Rightarrow> bool \<Rightarrow> string \<Rightarrow> ustr \<Rightarrow> connection \<Rightarrow> connection" where
  "stream_stop shown link kind stream_id c =
    (case cn_objects c stream_id of
       None \<Rightarrow> c
     | Some s \<Rightarrow>
        if ns_closed s then c
        else drop_stream stream_id
          (snd (send shown link (stop_message kind stream_id) (set_stream stream_id (s\<lparr>ns_closed := True\<rparr>) c))))"

definition stream_close :: "(64 word \<Rightarrow> ustr) \<Rightarrow> bool \<Rightarrow> ustr \<Rightarrow> connection \<Rightarrow> connection" where
  "stream_close shown link = stream_stop shown link ''stream.close''"

definition stream_abort :: "(64 word \<Rightarrow> ustr) \<Rightarrow> bool \<Rightarrow> ustr \<Rightarrow> connection \<Rightarrow> connection" where
  "stream_abort shown link = stream_stop shown link ''stream.abort''"

definition start_finish_stream :: "(64 word \<Rightarrow> ustr) \<Rightarrow> bool \<Rightarrow> ustr \<Rightarrow> connection \<Rightarrow> (node_exn + unit) \<times> connection" where
  "start_finish_stream shown link stream_id c =
    (if stream_closed stream_id c then (Inl (Node_Unavailable_Error (u ''Node stream is already closed'')), c)
     else send shown link (stop_message ''stream.close'' stream_id) c)"

text \<open>The rest of \<^verbatim>\<open>finish\<close>, after the Node answered or the time was up (\<open>timed_out\<close>).\<close>

definition finish_stream :: "bool \<Rightarrow> ustr \<Rightarrow> connection \<Rightarrow> (node_exn + message) option \<times> connection" where
  "finish_stream timed_out stream_id c =
    (case cn_objects c stream_id of
       None \<Rightarrow> (None, c)
     | Some s \<Rightarrow>
        (case receive s of
           (None, s') \<Rightarrow>
             (let c' = set_stream stream_id s' c in
              if timed_out
              then (Some (Inl (Node_Unavailable_Error (u ''Node did not finish the stream in time''))), drop_stream stream_id c')
              else (None, c'))
         | (Some (Inl e), s') \<Rightarrow> (Some (Inl e), drop_stream stream_id (set_stream stream_id s' c))
         | (Some (Inr (Some _)), s') \<Rightarrow>
             (Some (Inl (Node_Request_Error (u ''Node stream ended with unexpected data'') (u ''stream_invalid''))),
              drop_stream stream_id (set_stream stream_id s' c))
         | (Some (Inr None), s') \<Rightarrow> (Some (Inr (ns_result s')), drop_stream stream_id (set_stream stream_id s' c))))"

section \<open>Incoming messages\<close>

definition truthy :: "json \<Rightarrow> bool" where
  "truthy j = (case j of
      JNull \<Rightarrow> False | JBool b \<Rightarrow> b | JInt i \<Rightarrow> i \<noteq> 0 | JFloat f \<Rightarrow> unat f mod 2 ^ 63 \<noteq> 0
    | JStr s \<Rightarrow> s \<noteq> [] | JArr js \<Rightarrow> js \<noteq> [] | JObj es \<Rightarrow> es \<noteq> [])"

definition py_str :: "(json \<Rightarrow> ustr) \<Rightarrow> json \<Rightarrow> ustr" where
  "py_str repr j = (case j of
      JNull \<Rightarrow> u ''None'' | JBool b \<Rightarrow> u (if b then ''True'' else ''False'') | JInt i \<Rightarrow> py_str_int i | JStr s \<Rightarrow> s | _ \<Rightarrow> repr j)"

text \<open>\<^verbatim>\<open>str(message.get(key) or fallback)\<close>.\<close>

definition text_field :: "(json \<Rightarrow> ustr) \<Rightarrow> message \<Rightarrow> string \<Rightarrow> string \<Rightarrow> ustr" where
  "text_field repr m key fallback =
    (case map_of m (u key) of Some j \<Rightarrow> if truthy j then py_str repr j else u fallback | None \<Rightarrow> u fallback)"

text \<open>\<open>Inr None\<close>: the stream was closed and the message is for nobody.\<close>

definition stream_of :: "(json \<Rightarrow> ustr) \<Rightarrow> message \<Rightarrow> connection \<Rightarrow> node_exn + (ustr \<times> node_stream) option" where
  "stream_of repr m c =
    rbind (validate_request_id (text_field repr m ''stream_id'' '''')) (\<lambda>stream_id.
      if stream_id \<in> set (cn_streams c)
      then (case cn_objects c stream_id of Some s \<Rightarrow> Inr (Some (stream_id, s))
            | None \<Rightarrow> Inl (protocol_error ''Unknown Node stream'' ''stream_unknown''))
      else if stream_id \<in> set (cn_closed_streams c) then Inr None
      else Inl (protocol_error ''Unknown Node stream'' ''stream_unknown''))"

definition response_result :: "message \<Rightarrow> message option" where
  "response_result m = (case map_of m (u ''result'') of None \<Rightarrow> Some [] | Some (JObj result) \<Rightarrow> Some result | _ \<Rightarrow> None)"

definition failure_of :: "(json \<Rightarrow> ustr) \<Rightarrow> message \<Rightarrow> string \<Rightarrow> string \<Rightarrow> node_exn" where
  "failure_of repr m error code =
    Node_Request_Error (take 500 (text_field repr m ''error'' error)) (take 80 (text_field repr m ''code'' code))"

definition dispatch_response :: "(json \<Rightarrow> ustr) \<Rightarrow> message \<Rightarrow> connection \<Rightarrow> (node_exn + unit) \<times> connection" where
  "dispatch_response repr m c =
    (case validate_request_id (text_field repr m ''id'' '''') of
       Inl e \<Rightarrow> (Inl e, c)
     | Inr request_id \<Rightarrow>
        if request_id \<notin> set (cn_pending c) \<or> cn_futures c request_id \<noteq> Some Waiting
        then (if request_id \<in> set (cn_closed_requests c) then (Inr (), c)
              else (Inl (protocol_error ''Unknown Node response'' ''response_unknown''), c))
        else if map_of m (u ''ok'') = Some (JBool True)
        then (case response_result m of
                Some result \<Rightarrow> (Inr (), c\<lparr>cn_futures := (cn_futures c)(request_id \<mapsto> Result result)\<rparr>)
              | None \<Rightarrow> (Inl (protocol_error ''Node response is invalid'' ''response_invalid''), c))
        else (Inr (), c\<lparr>cn_futures := (cn_futures c)(request_id \<mapsto>
                Failed (failure_of repr m ''Node request failed'' ''request_failed''))\<rparr>))"

text \<open>Hands an item to the stream of a message.\<close>

definition feed ::
    "ustr \<Rightarrow> (node_stream \<Rightarrow> (node_exn + unit) \<times> node_stream) \<Rightarrow> node_stream \<Rightarrow> connection \<Rightarrow> (node_exn + unit) \<times> connection" where
  "feed stream_id f s c = (case f s of (r, s') \<Rightarrow> (r, set_stream stream_id s' c))"

definition dispatch_stream_data :: "(json \<Rightarrow> ustr) \<Rightarrow> message \<Rightarrow> connection \<Rightarrow> (node_exn + unit) \<times> connection" where
  "dispatch_stream_data repr m c =
    (case stream_of repr m c of
       Inl e \<Rightarrow> (Inl e, c)
     | Inr None \<Rightarrow> (Inr (), c)
     | Inr (Some (stream_id, s)) \<Rightarrow>
        (case map_of m (u ''data'') of
           Some (JStr v) \<Rightarrow>
             (case (if list_ex (\<lambda>x. 128 \<le> x) v then None else b64decode True v) of
                None \<Rightarrow> (Inl (protocol_error ''Node stream data is invalid'' ''stream_invalid''), c)
              | Some chunk \<Rightarrow>
                  if max_chunk_bytes < length chunk
                  then (Inl (protocol_error ''Node stream chunk is too large'' ''stream_too_large''), c)
                  else feed stream_id (feed_data chunk) s c)
         | _ \<Rightarrow> (Inl (protocol_error ''Node stream data is invalid'' ''stream_invalid''), c)))"

definition control_of :: "message \<Rightarrow> message option" where
  "control_of m =
    (let mode = (case map_of m (u ''mode'') of None \<Rightarrow> JNull | Some j \<Rightarrow> j) in
     case (map_of m (u ''kind''), map_of m (u ''revision''), map_of m (u ''available'')) of
       (Some (JStr kind), Some (JInt revision), Some (JBool available)) \<Rightarrow>
         if kind \<noteq> u ''pane_mode'' \<or> revision < 1 then None
         else (case (available, mode) of
                 (True, JObj d) \<Rightarrow> Some [(u ''kind'', JStr (u ''pane_mode'')), (u ''revision'', JInt revision),
                                         (u ''available'', JBool True), (u ''mode'', JObj d)]
               | (False, JNull) \<Rightarrow> Some [(u ''kind'', JStr (u ''pane_mode'')), (u ''revision'', JInt revision),
                                         (u ''available'', JBool False)]
               | _ \<Rightarrow> None)
     | _ \<Rightarrow> None)"

definition dispatch_stream_control :: "(json \<Rightarrow> ustr) \<Rightarrow> message \<Rightarrow> connection \<Rightarrow> (node_exn + unit) \<times> connection" where
  "dispatch_stream_control repr m c =
    (case stream_of repr m c of
       Inl e \<Rightarrow> (Inl e, c)
     | Inr None \<Rightarrow> (Inr (), c)
     | Inr (Some (stream_id, s)) \<Rightarrow>
        (case control_of m of
           None \<Rightarrow> (Inl (protocol_error ''Node stream control is invalid'' ''stream_invalid''), c)
         | Some control \<Rightarrow> feed stream_id (feed_control control) s c))"

definition dispatch_stream_close :: "(json \<Rightarrow> ustr) \<Rightarrow> message \<Rightarrow> connection \<Rightarrow> (node_exn + unit) \<times> connection" where
  "dispatch_stream_close repr m c =
    (case stream_of repr m c of
       Inl e \<Rightarrow> (Inl e, c)
     | Inr None \<Rightarrow> (Inr (), c)
     | Inr (Some (stream_id, s)) \<Rightarrow>
        (case response_result m of
           Some result \<Rightarrow> (Inr (), drop_stream stream_id (set_stream stream_id (feed_end result s) c))
         | None \<Rightarrow> (Inl (protocol_error ''Node stream result is invalid'' ''stream_invalid''), c)))"

definition dispatch_stream_error :: "(json \<Rightarrow> ustr) \<Rightarrow> message \<Rightarrow> connection \<Rightarrow> (node_exn + unit) \<times> connection" where
  "dispatch_stream_error repr m c =
    (case stream_of repr m c of
       Inl e \<Rightarrow> (Inl e, c)
     | Inr None \<Rightarrow> (Inr (), c)
     | Inr (Some (stream_id, s)) \<Rightarrow>
        (Inr (), drop_stream stream_id (set_stream stream_id
          (feed_error (failure_of repr m ''Node stream failed'' ''stream_failed'') s) c)))"

definition dispatch :: "(json \<Rightarrow> ustr) \<Rightarrow> message \<Rightarrow> connection \<Rightarrow> (node_exn + unit) \<times> connection" where
  "dispatch repr m c =
    (let kind = map_of m (u ''type'') in
     if kind = Some (JStr (u ''response'')) then dispatch_response repr m c
     else if kind = Some (JStr (u ''stream.data'')) then dispatch_stream_data repr m c
     else if kind = Some (JStr (u ''stream.control'')) then dispatch_stream_control repr m c
     else if kind = Some (JStr (u ''stream.close'')) then dispatch_stream_close repr m c
     else if kind = Some (JStr (u ''stream.error'')) then dispatch_stream_error repr m c
     else (Inl (protocol_error ''Unexpected Node message'' ''message_unexpected''), c))"

section \<open>Closing\<close>

definition settle :: "node_exn \<Rightarrow> future option \<Rightarrow> future option" where
  "settle e f = (if f = Some Waiting then Some (Failed e) else f)"

definition close_connection :: "ustr \<Rightarrow> connection \<Rightarrow> connection" where
  "close_connection reason c =
    (if cn_closed c then c
     else let e = Node_Unavailable_Error reason in
       c\<lparr>cn_closed := True,
         cn_futures := (\<lambda>i. if i \<in> set (cn_pending c) then settle e (cn_futures c i) else cn_futures c i),
         cn_objects := (\<lambda>i. if i \<in> set (cn_streams c) then map_option (feed_error e) (cn_objects c i) else cn_objects c i),
         cn_pending := [], cn_streams := []\<rparr>)"

end
