(* ===== verification/Node_Core.thy ===== *)
theory Node_Core
  imports Store_Computers Rate_Limit Node_Connection
begin

text \<open>
  The connections of all Nodes (\<^verbatim>\<open>NodeCore\<close> of \<^verbatim>\<open>termroom/node_core.py\<close>) and the limiter of pairing requests.

  A WebSocket is a number. Each definition is what \<^verbatim>\<open>handle_socket\<close>, \<^verbatim>\<open>revoke\<close> or \<^verbatim>\<open>shutdown\<close> does between two awaits;
  \<open>co_phases\<close> is where the coroutine of a socket stands. The database is the store of \<open>Store_Computers\<close>, which the
  same process changes through its other calls in between.
\<close>

section \<open>State\<close>

datatype socket_phase =
    Fresh
  | Challenged ustr ustr ustr
  | Ready
  | Serving
  | Leaving
  | Gone

record node_core =
  co_store :: store
  co_connections :: "ustr \<Rightarrow> nat option"
  co_phases :: "nat \<Rightarrow> socket_phase"
  co_sockets :: "nat \<Rightarrow> connection option"
  co_closing :: "nat list"

definition new_core :: "store \<Rightarrow> node_core" where
  "new_core s = \<lparr>co_store = s, co_connections = (\<lambda>_. None), co_phases = (\<lambda>_. Fresh), co_sockets = (\<lambda>_. None), co_closing = []\<rparr>"

text \<open>The computer is a Node and not revoked.\<close>

definition live_row :: "ustr \<Rightarrow> store \<Rightarrow> computer_row option" where
  "live_row node_id s =
    (case get_computer node_id s of
       None \<Rightarrow> None
     | Some c \<Rightarrow> if c_method c \<noteq> Node_Method \<or> c_revoked c \<noteq> None then None else Some c)"

abbreviation offline :: node_exn where
  "offline \<equiv> Node_Unavailable_Error (u ''Node is offline'')"

section \<open>Queries\<close>

record node_status =
  st_online :: bool
  st_capabilities :: "ustr list"

definition core_status :: "ustr \<Rightarrow> node_core \<Rightarrow> node_exn + node_status" where
  "core_status node_id g =
    rbind (validate_node_id node_id) (\<lambda>i.
      case get_computer i (co_store g) of
        None \<Rightarrow> Inl Unknown_Node
      | Some c \<Rightarrow>
          if c_method c \<noteq> Node_Method then Inl Unknown_Node
          else Inr \<lparr>st_online = (co_connections g i \<noteq> None \<and> c_revoked c = None),
                 st_capabilities = (case normalize_capabilities (JArr (map JStr (c_node_capabilities c))) of Inl _ \<Rightarrow> [] | Inr cs \<Rightarrow> cs)\<rparr>)"

definition core_connection :: "ustr \<Rightarrow> node_core \<Rightarrow> node_exn + nat" where
  "core_connection node_id g =
    rbind (validate_node_id node_id) (\<lambda>i.
      case live_row i (co_store g) of
        None \<Rightarrow> Inl offline
      | Some c \<Rightarrow> (case co_connections g i of None \<Rightarrow> Inl offline | Some k \<Rightarrow> Inr k))"

section \<open>Authentication\<close>

definition set_phase :: "nat \<Rightarrow> socket_phase \<Rightarrow> node_core \<Rightarrow> node_core" where
  "set_phase k p g = g\<lparr>co_phases := (co_phases g)(k := p)\<rparr>"

definition set_socket :: "nat \<Rightarrow> connection \<Rightarrow> node_core \<Rightarrow> node_core" where
  "set_socket k c g = g\<lparr>co_sockets := (co_sockets g)(k \<mapsto> c)\<rparr>"

definition challenge :: "ustr \<Rightarrow> nat \<Rightarrow> ustr \<Rightarrow> node_core \<Rightarrow> node_exn + node_core" where
  "challenge nonce k node_id g =
    rbind (validate_node_id node_id) (\<lambda>i.
      case live_row i (co_store g) of
        None \<Rightarrow> Inl Unknown_Node
      | Some c \<Rightarrow> Inr (set_phase k (Challenged i nonce (c_node_key c)) g))"

definition json_field :: "message \<Rightarrow> string \<Rightarrow> json" where
  "json_field m key = (case map_of m (u key) of None \<Rightarrow> JNull | Some j \<Rightarrow> j)"

definition check_response ::
    "(bytes \<Rightarrow> bool) \<Rightarrow> (bytes \<Rightarrow> bytes \<Rightarrow> bytes \<Rightarrow> bool) \<Rightarrow> (nat \<Rightarrow> nat option) \<Rightarrow> (json \<Rightarrow> ustr)
      \<Rightarrow> ustr \<Rightarrow> ustr \<Rightarrow> ustr \<Rightarrow> message \<Rightarrow> node_exn + int \<times> ustr list" where
  "check_response key_ok verifies decimal repr node_id nonce key m =
    (if map_of m (u ''type'') \<noteq> Some (JStr (u ''auth.response'')) \<or> map_of m (u ''node_id'') \<noteq> Some (JStr node_id)
     then Inl (protocol_error ''Node authentication response is invalid'' ''auth_invalid'')
     else rbind (validate_protocol_version decimal (json_field m ''protocol_version'')) (\<lambda>version.
       rbind (normalize_capabilities (json_field m ''capabilities'')) (\<lambda>capabilities.
         if \<not> list_all (\<lambda>c. c \<in> set capabilities) required_capabilities
         then Inl (protocol_error ''Node does not provide the required capabilities'' ''capabilities_missing'')
         else if \<not> verify_challenge key_ok verifies key node_id nonce (text_field repr m ''signature'' '''')
         then Inl (protocol_error ''Node signature is invalid'' ''auth_invalid'')
         else Inr (version, capabilities))))"

text \<open>What \<^verbatim>\<open>_authenticate\<close> does with the answer to the challenge: the new connection waits to be registered.\<close>

definition authenticate ::
    "(bytes \<Rightarrow> bool) \<Rightarrow> (bytes \<Rightarrow> bytes \<Rightarrow> bytes \<Rightarrow> bool) \<Rightarrow> (nat \<Rightarrow> nat option) \<Rightarrow> (json \<Rightarrow> ustr)
      \<Rightarrow> stamp \<Rightarrow> nat \<Rightarrow> message \<Rightarrow> node_core \<Rightarrow> (node_exn + unit) \<times> node_core" where
  "authenticate key_ok verifies decimal repr now k m g =
    (case co_phases g k of
       Challenged node_id nonce key \<Rightarrow>
        (case check_response key_ok verifies decimal repr node_id nonce key m of
           Inl e \<Rightarrow> (Inl e, set_phase k Gone g)
         | Inr (version, capabilities) \<Rightarrow>
            (case update_node_connection now node_id version capabilities (co_store g) of
               Inl _ \<Rightarrow> (Inl Unknown_Node, set_phase k Gone g)
             | Inr s \<Rightarrow> (Inr (), set_phase k Ready (set_socket k (new_connection node_id) (g\<lparr>co_store := s\<rparr>)))))
     | _ \<Rightarrow> (Inl Unknown_Node, g))"

text \<open>The code the socket is closed with when the authentication raised; the other exceptions are not caught.\<close>

definition auth_close_code :: "node_exn \<Rightarrow> nat option" where
  "auth_close_code e = (case e of
      Node_Protocol_Error _ code \<Rightarrow> Some (if code = u ''version_incompatible'' then 4406 else 4401)
    | Unknown_Node \<Rightarrow> Some 4401 | Socket_Gone \<Rightarrow> Some 4401
    | Node_Core_Error _ _ \<Rightarrow> Some 4401 | Node_Unavailable_Error _ \<Rightarrow> Some 4401 | Node_Request_Error _ _ \<Rightarrow> Some 4401
    | _ \<Rightarrow> None)"

definition drop_unauthenticated :: "nat \<Rightarrow> node_core \<Rightarrow> node_core" where
  "drop_unauthenticated k g = (case co_phases g k of Challenged _ _ _ \<Rightarrow> set_phase k Gone g | _ \<Rightarrow> g)"

section \<open>Serving\<close>

definition close_socket :: "ustr \<Rightarrow> nat \<Rightarrow> node_core \<Rightarrow> node_core" where
  "close_socket reason k g =
    (case co_sockets g k of None \<Rightarrow> g | Some c \<Rightarrow> set_socket k (close_connection reason c) g)"

text \<open>Under the lock the store is asked again; the connection it replaces is closed.\<close>

definition register_socket :: "nat \<Rightarrow> node_core \<Rightarrow> node_core" where
  "register_socket k g =
    (case (co_phases g k, co_sockets g k) of
       (Ready, Some c) \<Rightarrow>
        (case live_row (cn_node c) (co_store g) of
           None \<Rightarrow> set_phase k Gone (close_socket (u ''Node revoked'') k g)
         | Some _ \<Rightarrow>
            (let previous = co_connections g (cn_node c);
                 g' = set_phase k Serving (g\<lparr>co_connections := (co_connections g)(cn_node c \<mapsto> k)\<rparr>)
             in case previous of None \<Rightarrow> g' | Some p \<Rightarrow> close_socket (u ''Node reconnected'') p g'))
     | _ \<Rightarrow> g)"

definition type_message :: "string \<Rightarrow> message" where
  "type_message kind = [(u ''type'', JStr (u kind))]"

definition send_on :: "(64 word \<Rightarrow> ustr) \<Rightarrow> bool \<Rightarrow> nat \<Rightarrow> connection \<Rightarrow> message \<Rightarrow> node_core \<Rightarrow> node_core" where
  "send_on shown link k c m g =
    (case send shown link m c of
       (Inl _, c') \<Rightarrow> set_phase k Leaving (set_socket k c' g) | (Inr _, c') \<Rightarrow> set_socket k c' g)"

definition greet :: "(64 word \<Rightarrow> ustr) \<Rightarrow> bool \<Rightarrow> nat \<Rightarrow> node_core \<Rightarrow> node_core" where
  "greet shown link k g =
    (case (co_phases g k, co_sockets g k) of
       (Serving, Some c) \<Rightarrow> send_on shown link k c (dict_set (u ''node_id'') (JStr (cn_node c)) (type_message ''auth.ok'')) g
     | _ \<Rightarrow> g)"

text \<open>One message of the loop: a heartbeat is recorded and acknowledged, everything else goes to the connection; an
  exception leaves the loop.\<close>

definition serve ::
    "(64 word \<Rightarrow> ustr) \<Rightarrow> (json \<Rightarrow> ustr) \<Rightarrow> bool \<Rightarrow> stamp \<Rightarrow> nat \<Rightarrow> node_exn + message \<Rightarrow> node_core \<Rightarrow> node_core" where
  "serve shown repr link now k received g =
    (case (co_phases g k, co_sockets g k) of
       (Serving, Some c) \<Rightarrow>
        (case received of
           Inl _ \<Rightarrow> set_phase k Leaving g
         | Inr m \<Rightarrow>
            if map_of m (u ''type'') = Some (JStr (u ''heartbeat''))
            then (case touch_node now (cn_node c) (co_store g) of
                    Inl _ \<Rightarrow> set_phase k Leaving g
                  | Inr s \<Rightarrow> send_on shown link k c (type_message ''heartbeat.ack'') (g\<lparr>co_store := s\<rparr>))
            else (case dispatch repr m c of
                    (Inl _, c') \<Rightarrow> set_phase k Leaving (set_socket k c' g)
                  | (Inr _, c') \<Rightarrow> set_socket k c' g))
     | _ \<Rightarrow> g)"

text \<open>What a socket delivers: a message that is decoded, or its end.\<close>

definition receive_message ::
    "(ustr \<Rightarrow> 64 word) \<Rightarrow> nat \<Rightarrow> (bytes \<Rightarrow> ustr option) \<Rightarrow> raw_message option \<Rightarrow> node_exn + message" where
  "receive_message read depth other raw = (case raw of None \<Rightarrow> Inl Socket_Gone | Some r \<Rightarrow> decode_message read depth other r)"

text \<open>The \<^verbatim>\<open>finally\<close> of \<^verbatim>\<open>handle_socket\<close>: only the registered connection is taken out of the table.\<close>

definition leave :: "nat \<Rightarrow> node_core \<Rightarrow> node_core" where
  "leave k g =
    (case co_sockets g k of
       Some c \<Rightarrow>
        if co_phases g k \<noteq> Serving \<and> co_phases g k \<noteq> Leaving then g
        else let g' = (if co_connections g (cn_node c) = Some k
                       then g\<lparr>co_connections := (co_connections g)(cn_node c := None)\<rparr> else g)
             in set_phase k Gone (close_socket (u ''Node disconnected'') k g')
     | None \<Rightarrow> g)"

section \<open>Revocation and shutdown\<close>

definition core_revoke :: "ustr \<Rightarrow> node_core \<Rightarrow> node_exn + node_core" where
  "core_revoke node_id g =
    rbind (validate_node_id node_id) (\<lambda>i.
      let g' = g\<lparr>co_connections := (co_connections g)(i := None)\<rparr> in
      case co_connections g i of
        None \<Rightarrow> Inr g'
      | Some k \<Rightarrow> Inr (close_socket (u ''Node revoked'') k g'))"

text \<open>All connections are taken out at once and then closed one after the other; \<open>order\<close> lists the table.\<close>

definition shutdown :: "ustr list \<Rightarrow> node_core \<Rightarrow> node_core" where
  "shutdown order g =
    g\<lparr>co_closing := co_closing g @ List.map_filter (co_connections g) order, co_connections := (\<lambda>_. None)\<rparr>"

definition close_next :: "node_core \<Rightarrow> node_core" where
  "close_next g =
    (case co_closing g of
       [] \<Rightarrow> g
     | k # ks \<Rightarrow> (close_socket (u ''Core shutting down'') k g)\<lparr>co_closing := ks\<rparr>)"

section \<open>Pairing requests\<close>

record pairing_limiter =
  pl_attempts :: "ustr \<times> ustr \<Rightarrow> int list"

definition pairing_limit :: "ustr \<Rightarrow> nat" where
  "pairing_limit action = (if action = u ''enroll'' then 10 else if action = u ''status'' then 120 else 10)"

definition limiter_key :: "ustr \<Rightarrow> ustr \<Rightarrow> ustr \<times> ustr" where
  "limiter_key remote_key action = (if remote_key = [] then u ''unknown'' else remote_key, action)"

definition allow_pairing :: "ustr \<Rightarrow> ustr \<Rightarrow> int \<Rightarrow> pairing_limiter \<Rightarrow> bool \<times> pairing_limiter" where
  "allow_pairing remote_key action now l =
    (let k = limiter_key remote_key action; (ok, ts) = attempt (pairing_limit action) now (pl_attempts l k)
     in (ok, l\<lparr>pl_attempts := (pl_attempts l)(k := ts)\<rparr>))"

interpretation pairing_rate: rate_limiter "allow_pairing remote_key action" "\<lambda>l. pl_attempts l (limiter_key remote_key action)"
    "pairing_limit action" for remote_key action
  by unfold_locales (auto simp: allow_pairing_def pairing_limit_def Let_def split: prod.splits)

end
