(* ===== verification/Node_Connection_Laws.thy ===== *)
theory Node_Connection_Laws
  imports Node_Connection
begin

text \<open>
  The machine of a connection: the atomic segments of \<open>Node_Connection\<close> in any interleaving, with fresh request and
  stream identifiers, and the invariant it keeps.
\<close>

section \<open>The machine\<close>

datatype conn_op =
    Start_Request bool ustr int ustr message
  | Finish_Request ustr
  | Lose_Request ustr
  | Cancel_Request ustr
  | Start_Open bool ustr ustr int ustr message
  | Finish_Open ustr ustr
  | Lose_Open ustr ustr
  | Cancel_Open ustr ustr
  | Send_Data "nat \<Rightarrow> bool" ustr bytes
  | Send_Control bool ustr ustr message
  | Receive_Event ustr
  | Receive ustr
  | Close_Stream bool ustr
  | Abort_Stream bool ustr
  | Start_Finish bool ustr
  | Finish_Stream bool ustr
  | Dispatch message
  | Close_Connection ustr

definition read_stream :: "(node_stream \<Rightarrow> 'a \<times> node_stream) \<Rightarrow> ustr \<Rightarrow> connection \<Rightarrow> connection" where
  "read_stream f stream_id c = (case cn_objects c stream_id of None \<Rightarrow> c | Some s \<Rightarrow> set_stream stream_id (snd (f s)) c)"

fun conn_exec :: "(64 word \<Rightarrow> ustr) \<Rightarrow> (json \<Rightarrow> ustr) \<Rightarrow> conn_op \<Rightarrow> connection \<Rightarrow> connection" where
  "conn_exec shown repr (Start_Request link i ms oper p) c = snd (start_request shown link i ms oper p c)"
| "conn_exec shown repr (Finish_Request i) c = snd (finish_request i c)"
| "conn_exec shown repr (Lose_Request i) c = snd (lose_request i c)"
| "conn_exec shown repr (Cancel_Request i) c = cancel_request i c"
| "conn_exec shown repr (Start_Open link sid i ms oper p) c = snd (start_open_stream shown link sid i ms oper p c)"
| "conn_exec shown repr (Finish_Open sid i) c = snd (finish_open_stream sid i c)"
| "conn_exec shown repr (Lose_Open sid i) c = snd (lose_open_stream sid i c)"
| "conn_exec shown repr (Cancel_Open sid i) c = cancel_open_stream sid i c"
| "conn_exec shown repr (Send_Data link sid b) c = snd (stream_send shown link sid b c)"
| "conn_exec shown repr (Send_Control link sid kind m) c = snd (stream_control shown link sid kind m c)"
| "conn_exec shown repr (Receive_Event sid) c = read_stream receive_event sid c"
| "conn_exec shown repr (Receive sid) c = read_stream receive sid c"
| "conn_exec shown repr (Close_Stream link sid) c = stream_close shown link sid c"
| "conn_exec shown repr (Abort_Stream link sid) c = stream_abort shown link sid c"
| "conn_exec shown repr (Start_Finish link sid) c = snd (start_finish_stream shown link sid c)"
| "conn_exec shown repr (Finish_Stream timed_out sid) c = snd (finish_stream timed_out sid c)"
| "conn_exec shown repr (Dispatch m) c = snd (dispatch repr m c)"
| "conn_exec shown repr (Close_Connection reason) c = close_connection reason c"

text \<open>\<^verbatim>\<open>uuid4\<close> identifiers are new, and only a caller that waits is cancelled or loses its socket.\<close>

fun conn_admissible :: "conn_op \<Rightarrow> connection \<Rightarrow> bool" where
  "conn_admissible (Start_Request link i ms oper p) c = (cn_futures c i = None)"
| "conn_admissible (Start_Open link sid i ms oper p) c = (cn_futures c i = None \<and> cn_objects c sid = None)"
| "conn_admissible _ c = True"

inductive conn_reach :: "(64 word \<Rightarrow> ustr) \<Rightarrow> (json \<Rightarrow> ustr) \<Rightarrow> ustr \<Rightarrow> connection \<Rightarrow> bool" for shown repr node_id where
  conn_new: "conn_reach shown repr node_id (new_connection node_id)"
| conn_step: "conn_reach shown repr node_id c \<Longrightarrow> conn_admissible op c \<Longrightarrow> conn_reach shown repr node_id (conn_exec shown repr op c)"

section \<open>The invariant\<close>

definition futures_ok :: "connection \<Rightarrow> bool" where
  "futures_ok c \<longleftrightarrow> distinct (cn_pending c) \<and> (\<forall>i. cn_futures c i = Some Waiting \<longrightarrow> i \<in> set (cn_pending c))
     \<and> (\<forall>i \<in> set (cn_pending c). cn_futures c i \<noteq> None) \<and> (cn_closed c \<longrightarrow> cn_pending c = [])"

definition streams_ok :: "connection \<Rightarrow> bool" where
  "streams_ok c \<longleftrightarrow> distinct (cn_streams c) \<and> (\<forall>i \<in> set (cn_streams c). cn_objects c i \<noteq> None)
     \<and> (cn_closed c \<longrightarrow> cn_streams c = [])
     \<and> (\<forall>i s. cn_objects c i = Some s \<longrightarrow> length (ns_queue s) \<le> queue_depth)"

definition deques_ok :: "connection \<Rightarrow> bool" where
  "deques_ok c \<longleftrightarrow> length (cn_closed_requests c) \<le> tombstones \<and> length (cn_closed_streams c) \<le> tombstones"

definition conn_ok :: "connection \<Rightarrow> bool" where
  "conn_ok c \<longleftrightarrow> futures_ok c \<and> streams_ok c \<and> deques_ok c"

lemma send_snd: "snd (send shown link m c) = c \<or> snd (send shown link m c) = c\<lparr>cn_sent := cn_sent c @ [m]\<rparr>"
  by (auto simp: send_def split: sum.splits)

lemma send_fields [simp]:
  "cn_futures (snd (send shown link m c)) = cn_futures c" "cn_pending (snd (send shown link m c)) = cn_pending c"
  "cn_objects (snd (send shown link m c)) = cn_objects c" "cn_streams (snd (send shown link m c)) = cn_streams c"
  "cn_closed (snd (send shown link m c)) = cn_closed c" "cn_closed_requests (snd (send shown link m c)) = cn_closed_requests c"
  "cn_closed_streams (snd (send shown link m c)) = cn_closed_streams c"
  using send_snd [of shown link m c] by auto

lemma set_stream_fields [simp]:
  "cn_futures (set_stream i s c) = cn_futures c" "cn_pending (set_stream i s c) = cn_pending c"
  "cn_objects (set_stream i s c) = (cn_objects c)(i \<mapsto> s)" "cn_streams (set_stream i s c) = cn_streams c"
  "cn_closed (set_stream i s c) = cn_closed c" "cn_closed_requests (set_stream i s c) = cn_closed_requests c"
  "cn_closed_streams (set_stream i s c) = cn_closed_streams c"
  by (simp_all add: set_stream_def)

lemma other_keys: "i \<notin> set xs \<Longrightarrow> filter (\<lambda>k. k \<noteq> i) xs = xs"
  by (induction xs) auto

lemma drop_stream_fields [simp]:
  "cn_futures (drop_stream i c) = cn_futures c" "cn_pending (drop_stream i c) = cn_pending c"
  "cn_objects (drop_stream i c) = cn_objects c" "cn_streams (drop_stream i c) = filter (\<lambda>k. k \<noteq> i) (cn_streams c)"
  "cn_closed (drop_stream i c) = cn_closed c" "cn_closed_requests (drop_stream i c) = cn_closed_requests c"
  by (auto simp: drop_stream_def forget_stream_def other_keys)

lemma forget_stream_fields [simp]:
  "cn_futures (forget_stream i c) = cn_futures c" "cn_pending (forget_stream i c) = cn_pending c"
  "cn_objects (forget_stream i c) = cn_objects c" "cn_streams (forget_stream i c) = filter (\<lambda>k. k \<noteq> i) (cn_streams c)"
  "cn_closed (forget_stream i c) = cn_closed c" "cn_closed_requests (forget_stream i c) = cn_closed_requests c"
  "cn_closed_streams (forget_stream i c) = cn_closed_streams c"
  by (auto simp: forget_stream_def)

lemma release_request_fields [simp]:
  "cn_objects (release_request i c) = cn_objects c" "cn_streams (release_request i c) = cn_streams c"
  "cn_closed (release_request i c) = cn_closed c" "cn_pending (release_request i c) = filter (\<lambda>k. k \<noteq> i) (cn_pending c)"
  "cn_closed_requests (release_request i c) = cn_closed_requests c" "cn_closed_streams (release_request i c) = cn_closed_streams c"
  by (simp_all add: release_request_def)

lemma bury_length [simp]: "length (bury x q) \<le> tombstones"
  by (simp add: bury_def tombstones_def)

lemma deques_drop: "deques_ok c \<Longrightarrow> deques_ok (drop_stream i c)"
  by (auto simp: deques_ok_def drop_stream_def)

lemma send_ok: "conn_ok c \<Longrightarrow> conn_ok (snd (send shown link m c))"
  by (simp add: conn_ok_def futures_ok_def streams_ok_def deques_ok_def)

lemma release_request_ok: "conn_ok c \<Longrightarrow> conn_ok (release_request i c)"
  by (auto simp: conn_ok_def futures_ok_def streams_ok_def deques_ok_def) (auto simp: release_request_def split: if_splits)

lemma forget_stream_ok: "conn_ok c \<Longrightarrow> conn_ok (forget_stream i c)"
  by (auto simp: conn_ok_def futures_ok_def streams_ok_def deques_ok_def)

lemma drop_stream_ok: "conn_ok c \<Longrightarrow> conn_ok (drop_stream i c)"
  by (auto simp: conn_ok_def futures_ok_def streams_ok_def deques_drop)

lemma set_stream_ok: "conn_ok c \<Longrightarrow> length (ns_queue s) \<le> queue_depth \<Longrightarrow> conn_ok (set_stream i s c)"
  by (auto simp: conn_ok_def futures_ok_def streams_ok_def deques_ok_def)

lemma object_queue: "conn_ok c \<Longrightarrow> cn_objects c i = Some s \<Longrightarrow> length (ns_queue s) \<le> queue_depth"
  by (auto simp: conn_ok_def streams_ok_def)

lemma replace_tail_length: "length (ns_queue s) \<le> queue_depth \<Longrightarrow> length (ns_queue (replace_queue_tail x s)) \<le> queue_depth"
  by (auto simp: replace_queue_tail_def queue_depth_def)

lemma feed_length:
  "length (ns_queue s) \<le> queue_depth \<Longrightarrow> length (ns_queue (feed_error e s)) \<le> queue_depth"
  "length (ns_queue s) \<le> queue_depth \<Longrightarrow> length (ns_queue (feed_end m s)) \<le> queue_depth"
  "length (ns_queue s) \<le> queue_depth \<Longrightarrow> length (ns_queue (snd (feed_item x s))) \<le> queue_depth"
proof -
  show e: "length (ns_queue s) \<le> queue_depth \<Longrightarrow> length (ns_queue (feed_error e s)) \<le> queue_depth" for e s
    by (simp add: feed_error_def replace_tail_length)
  show "length (ns_queue s) \<le> queue_depth \<Longrightarrow> length (ns_queue (feed_end m s)) \<le> queue_depth"
    by (simp add: feed_end_def replace_tail_length)
  show "length (ns_queue s) \<le> queue_depth \<Longrightarrow> length (ns_queue (snd (feed_item x s))) \<le> queue_depth"
    by (auto simp: feed_item_def e)
qed

lemma next_bytes_length: "length (snd (next_bytes q)) \<le> length q"
  by (induction q rule: next_bytes.induct) (auto split: sum.splits stream_event.splits)

lemma receive_length:
  "length (ns_queue (snd (receive s))) \<le> length (ns_queue s)" "length (ns_queue (snd (receive_event s))) \<le> length (ns_queue s)"
  using next_bytes_length [of "ns_queue s"] by (auto simp: receive_def receive_event_def split: prod.splits list.splits)

lemma start_request_cases:
  obtains (refused) e c' where "start_request shown link i ms oper p c = (Inl e, c')" and "c' = c"
  | (failed) e c' where "start_request shown link i ms oper p c = (Inl e, c')"
      and "c' = release_request i (c\<lparr>cn_futures := (cn_futures c)(i \<mapsto> Waiting), cn_pending := cn_pending c @ [i]\<rparr>)"
  | (started) m where "start_request shown link i ms oper p c =
      (Inr (), c\<lparr>cn_futures := (cn_futures c)(i \<mapsto> Waiting), cn_pending := cn_pending c @ [i], cn_sent := cn_sent c @ [m]\<rparr>)"
      and "\<not> cn_closed c"
proof (cases "validate_request_operation oper")
  case (Inl e)
  then show ?thesis using refused by (simp add: start_request_def)
next
  case (Inr op)
  let ?c1 = "c\<lparr>cn_futures := (cn_futures c)(i \<mapsto> Waiting), cn_pending := cn_pending c @ [i]\<rparr>"
  let ?m = "request_message i ms op p"
  show ?thesis
  proof (cases "fst (send shown link ?m ?c1)")
    case (Inl e)
    then have "send shown link ?m ?c1 = (Inl e, ?c1)" by (auto simp: send_def split: if_splits sum.splits)
    with \<open>validate_request_operation oper = Inr op\<close> show ?thesis by (intro failed [of e]) (auto simp: start_request_def Let_def)
  next
    case (Inr x)
    then have "send shown link ?m ?c1 = (Inr (), ?c1\<lparr>cn_sent := cn_sent c @ [?m]\<rparr>)" "\<not> cn_closed c"
      by (auto simp: send_def split: if_splits sum.splits)
    with \<open>validate_request_operation oper = Inr op\<close> show ?thesis by (intro started [of ?m]) (auto simp: start_request_def Let_def)
  qed
qed

lemma start_request_frame [simp]:
  "cn_objects (snd (start_request shown link i ms oper p c)) = cn_objects c"
  "cn_streams (snd (start_request shown link i ms oper p c)) = cn_streams c"
  "cn_closed (snd (start_request shown link i ms oper p c)) = cn_closed c"
  "cn_closed_requests (snd (start_request shown link i ms oper p c)) = cn_closed_requests c"
  "cn_closed_streams (snd (start_request shown link i ms oper p c)) = cn_closed_streams c"
  by (cases rule: start_request_cases [of shown link i ms oper p c]; simp)+

lemma start_request_futures:
  assumes "futures_ok c" and "cn_futures c i = None"
  shows "futures_ok (snd (start_request shown link i ms oper p c))"
proof -
  have new: "i \<notin> set (cn_pending c)" using assms by (auto simp: futures_ok_def)
  show ?thesis
    by (cases rule: start_request_cases [of shown link i ms oper p c])
      (use assms new in \<open>auto simp: futures_ok_def release_request_def\<close>)
qed

lemma start_request_ok: "conn_ok c \<Longrightarrow> cn_futures c i = None \<Longrightarrow> conn_ok (snd (start_request shown link i ms oper p c))"
  using start_request_futures [of c i] by (simp add: conn_ok_def streams_ok_def deques_ok_def)

lemma start_open_ok:
  assumes "conn_ok c" and "cn_futures c i = None" and "cn_objects c sid = None"
  shows "conn_ok (snd (start_open_stream shown link sid i ms oper p c))"
proof -
  have new: "sid \<notin> set (cn_streams c)" using assms by (auto simp: conn_ok_def streams_ok_def)
  let ?c1 = "(set_stream sid new_stream c)\<lparr>cn_streams := cn_streams c @ [sid]\<rparr>"
  let ?r = "start_request shown link i ms oper (dict_set (u ''stream_id'') (JStr sid) p) ?c1"
  have f: "futures_ok (snd ?r)" using assms(1,2) by (intro start_request_futures) (auto simp: conn_ok_def futures_ok_def)
  show ?thesis
  proof (cases "fst ?r")
    case (Inl e)
    then have "snd (start_open_stream shown link sid i ms oper p c) = forget_stream sid (snd ?r)"
      by (auto simp: start_open_stream_def Let_def split: prod.splits sum.splits)
    moreover have "conn_ok (forget_stream sid (snd ?r))"
      using assms new f by (auto simp: conn_ok_def streams_ok_def deques_ok_def futures_ok_def new_stream_def)
    ultimately show ?thesis by simp
  next
    case (Inr x)
    then have "\<not> cn_closed c" by (cases rule: start_request_cases [of shown link i ms oper "dict_set (u ''stream_id'') (JStr sid) p" ?c1]) auto
    moreover have "snd (start_open_stream shown link sid i ms oper p c) = snd ?r"
      using Inr by (auto simp: start_open_stream_def Let_def split: prod.splits sum.splits)
    ultimately show ?thesis using assms new f by (auto simp: conn_ok_def streams_ok_def deques_ok_def new_stream_def)
  qed
qed

lemma finish_request_ok: "conn_ok c \<Longrightarrow> conn_ok (snd (finish_request i c))"
  by (auto simp: finish_request_def release_request_ok split: option.splits future.splits)

lemma cancel_request_ok: "conn_ok c \<Longrightarrow> conn_ok (cancel_request i c)"
  unfolding cancel_request_def by (rule release_request_ok) (simp add: conn_ok_def futures_ok_def streams_ok_def deques_ok_def)

lemma finish_open_ok: "conn_ok c \<Longrightarrow> conn_ok (snd (finish_open_stream sid i c))"
  using finish_request_ok [of c i]
  by (auto simp: finish_open_stream_def forget_stream_ok split: prod.splits option.splits sum.splits)

lemma send_chunks_ok: "conn_ok c \<Longrightarrow> conn_ok (snd (send_chunks shown link n sid chunks c))"
proof (induction chunks arbitrary: c n)
  case (Cons chunk chunks)
  have "conn_ok (snd (send shown (link n) (data_message sid chunk) c))" using Cons.prems by (rule send_ok)
  with Cons.IH show ?case by (auto split: prod.splits sum.splits)
qed simp

lemma read_stream_ok:
  assumes "conn_ok c" and "\<And>s. length (ns_queue (snd (f s))) \<le> length (ns_queue s)"
  shows "conn_ok (read_stream f sid c)"
  using assms object_queue [of c sid]
  by (auto simp: read_stream_def split: option.splits intro!: set_stream_ok intro: order_trans)

lemma stream_stop_ok: "conn_ok c \<Longrightarrow> conn_ok (stream_stop shown link kind sid c)"
  using object_queue [of c sid]
  by (auto simp: stream_stop_def split: option.splits intro!: drop_stream_ok send_ok set_stream_ok)

lemma finish_stream_ok:
  assumes "conn_ok c"
  shows "conn_ok (snd (finish_stream timed_out sid c))"
proof (cases "cn_objects c sid")
  case (Some s)
  obtain r s' where r: "receive s = (r, s')" by force
  have "length (ns_queue s') \<le> queue_depth"
    using receive_length(1) [of s] object_queue [OF assms Some] r by simp
  then have "conn_ok (set_stream sid s' c)" by (rule set_stream_ok [OF assms])
  with Some r show ?thesis by (auto simp: finish_stream_def Let_def drop_stream_ok split: option.splits sum.splits)
qed (use assms in \<open>simp add: finish_stream_def\<close>)

lemma stream_of_Some: "stream_of repr m c = Inr (Some (sid, s)) \<Longrightarrow>
    hex_id sid \<and> sid = text_field repr m ''stream_id'' '''' \<and> sid \<in> set (cn_streams c) \<and> cn_objects c sid = Some s"
  by (auto simp: stream_of_def rbind_Inr_iff validate_request_id_def split: if_splits option.splits)

lemma feed_ok:
  assumes "conn_ok c" and "stream_of repr m c = Inr (Some (sid, s))"
  shows "conn_ok (snd (feed sid (feed_item x) s c))"
    and "conn_ok (drop_stream sid (set_stream sid (feed_end r s) c))"
    and "conn_ok (drop_stream sid (set_stream sid (feed_error e s) c))"
proof -
  have "length (ns_queue s) \<le> queue_depth" using stream_of_Some [OF assms(2)] object_queue [OF assms(1)] by blast
  note lengths = feed_length(1) [OF this, of e] feed_length(2) [OF this, of r] feed_length(3) [OF this, of x]
  show "conn_ok (snd (feed sid (feed_item x) s c))"
    using set_stream_ok [OF assms(1) lengths(3)] by (simp add: feed_def split_beta)
  show "conn_ok (drop_stream sid (set_stream sid (feed_end r s) c))" "conn_ok (drop_stream sid (set_stream sid (feed_error e s) c))"
    using lengths assms(1) by (simp_all add: drop_stream_ok set_stream_ok)
qed

lemma dispatch_response_ok: "conn_ok c \<Longrightarrow> conn_ok (snd (dispatch_response repr m c))"
  by (auto simp: dispatch_response_def conn_ok_def futures_ok_def streams_ok_def deques_ok_def split: sum.splits option.splits)

lemma dispatch_ok:
  assumes "conn_ok c"
  shows "conn_ok (snd (dispatch repr m c))"
proof -
  have "conn_ok (snd (dispatch_stream_data repr m c))" "conn_ok (snd (dispatch_stream_control repr m c))"
    "conn_ok (snd (dispatch_stream_close repr m c))" "conn_ok (snd (dispatch_stream_error repr m c))"
    using assms feed_ok [OF assms]
    by (auto simp: dispatch_stream_data_def dispatch_stream_control_def dispatch_stream_close_def dispatch_stream_error_def
        feed_data_def feed_control_def split: sum.splits option.splits json.splits)
  with dispatch_response_ok [OF assms] assms show ?thesis by (auto simp: dispatch_def Let_def)
qed

lemma close_connection_ok: "conn_ok c \<Longrightarrow> conn_ok (close_connection reason c)"
  by (auto simp: close_connection_def conn_ok_def futures_ok_def streams_ok_def deques_ok_def Let_def settle_def feed_length
      split: if_splits)

lemma conn_exec_ok: "conn_ok c \<Longrightarrow> conn_admissible op c \<Longrightarrow> conn_ok (conn_exec shown repr op c)"
  by (cases op) (auto simp: start_request_ok start_open_ok finish_request_ok cancel_request_ok finish_open_ok send_ok send_chunks_ok
      read_stream_ok receive_length stream_stop_ok finish_stream_ok dispatch_ok close_connection_ok release_request_ok forget_stream_ok
      lose_request_def lose_open_stream_def cancel_open_stream_def stream_send_def stream_control_def stream_close_def
      stream_abort_def start_finish_stream_def)

lemma conn_reach_ok: "conn_reach shown repr node_id c \<Longrightarrow> conn_ok c"
proof (induction rule: conn_reach.induct)
  case conn_new
  show ?case by (simp add: new_connection_def conn_ok_def futures_ok_def streams_ok_def deques_ok_def)
qed (rule conn_exec_ok)

end
