(* ===== verification/Node_Connection_Properties.thy ===== *)
theory Node_Connection_Properties
  imports Node_Connection_Laws Json_Laws
begin

text \<open>
  A caller gets the answer to its own request, once; closing the connection answers everyone who waits; a stream
  delivers what was fed to it, in order; and what one side sends as a stream the other side is fed.
\<close>

section \<open>Requests\<close>

text \<open>What one step does to a future.\<close>

definition answers :: "(json \<Rightarrow> ustr) \<Rightarrow> conn_op \<Rightarrow> ustr \<Rightarrow> message \<Rightarrow> bool" where
  "answers repr op i r \<longleftrightarrow> (case op of
     Dispatch m \<Rightarrow> map_of m (u ''type'') = Some (JStr (u ''response'')) \<and> text_field repr m ''id'' [] = i
       \<and> map_of m (u ''ok'') = Some (JBool True) \<and> response_result m = Some r
   | _ \<Rightarrow> False)"

definition future_step :: "(json \<Rightarrow> ustr) \<Rightarrow> conn_op \<Rightarrow> ustr \<Rightarrow> future option \<Rightarrow> future option \<Rightarrow> bool" where
  "future_step repr op i f f' \<longleftrightarrow> f' = f
     \<or> (f = None \<and> (f' = Some Waiting \<or> f' = Some Cancelled))
     \<or> (f = Some Waiting \<and> (f' = Some Cancelled \<or> (\<exists>e. f' = Some (Failed e)) \<or> (\<exists>r. f' = Some (Result r) \<and> answers repr op i r)))"

lemma release_future: "future_step repr op i (cn_futures c i) (cn_futures (release_request k c) i)"
  by (auto simp: future_step_def release_request_def)

lemma start_request_future:
  "cn_futures c k = None \<Longrightarrow> future_step repr op i (cn_futures c i) (cn_futures (snd (start_request shown link k ms oper p c)) i)"
  by (cases rule: start_request_cases [of shown link k ms oper p c]) (auto simp: future_step_def release_request_def)

lemma finish_request_future: "future_step repr op i (cn_futures c i) (cn_futures (snd (finish_request k c)) i)"
  using release_future [of repr op i c k] by (auto simp: finish_request_def future_step_def split: option.splits future.splits)

lemma cancel_request_future: "future_step repr op i (cn_futures c i) (cn_futures (cancel_request k c) i)"
  using release_future [of repr op i "c\<lparr>cn_closed_requests := bury k (cn_closed_requests c)\<rparr>" k] by (simp add: cancel_request_def)

lemma open_future:
  "cn_futures c k = None \<Longrightarrow> future_step repr op i (cn_futures c i) (cn_futures (snd (start_open_stream shown link sid k ms oper p c)) i)"
  using start_request_future [of "(set_stream sid new_stream c)\<lparr>cn_streams := cn_streams c @ [sid]\<rparr>" k repr op i shown link ms oper
      "dict_set (u ''stream_id'') (JStr sid) p"]
  by (auto simp: start_open_stream_def Let_def split: prod.splits sum.splits)

lemma finish_open_future: "future_step repr op i (cn_futures c i) (cn_futures (snd (finish_open_stream sid k c)) i)"
  using finish_request_future [of repr op i c k] by (auto simp: finish_open_stream_def split: prod.splits option.splits sum.splits)

lemma send_chunks_future: "cn_futures (snd (send_chunks shown link n sid chunks c)) = cn_futures c"
proof (induction chunks arbitrary: c n)
  case (Cons chunk chunks)
  have "cn_futures (snd (send shown (link n) (data_message sid chunk) c)) = cn_futures c" by simp
  with Cons.IH show ?case by (cases "send shown (link n) (data_message sid chunk) c") (auto split: sum.splits)
qed simp

lemma stream_futures:
  "cn_futures (read_stream f sid c) = cn_futures c" "cn_futures (stream_stop shown link kind sid c) = cn_futures c"
  "cn_futures (snd (finish_stream timed_out sid c)) = cn_futures c" "cn_futures (snd (feed sid g s c)) = cn_futures c"
  by (auto simp: read_stream_def stream_stop_def finish_stream_def feed_def Let_def split: option.splits prod.splits sum.splits)

lemma dispatch_future: "future_step repr (Dispatch m) i (cn_futures c i) (cn_futures (snd (dispatch repr m c)) i)"
proof (cases "map_of m (u ''type'') = Some (JStr (u ''response''))")
  case True
  then show ?thesis
    by (auto simp: dispatch_def dispatch_response_def future_step_def answers_def validate_request_id_def failure_of_def
        text_field_def u_def split: sum.splits option.splits)
next
  case False
  have "cn_futures (snd (dispatch_stream_data repr m c)) = cn_futures c" "cn_futures (snd (dispatch_stream_control repr m c)) = cn_futures c"
    "cn_futures (snd (dispatch_stream_close repr m c)) = cn_futures c" "cn_futures (snd (dispatch_stream_error repr m c)) = cn_futures c"
    using stream_futures
    by (auto simp: dispatch_stream_data_def dispatch_stream_control_def dispatch_stream_close_def dispatch_stream_error_def
        split: sum.splits option.splits json.splits)
  with False show ?thesis by (auto simp: dispatch_def Let_def future_step_def)
qed

lemma close_future: "future_step repr op i (cn_futures c i) (cn_futures (close_connection reason c) i)"
  by (auto simp: close_connection_def future_step_def settle_def Let_def)

lemma future_step_exec:
  "conn_admissible op c \<Longrightarrow> future_step repr op i (cn_futures c i) (cn_futures (conn_exec shown repr op c) i)"
proof (cases op)
  case (Dispatch m)
  then show ?thesis using dispatch_future by simp
qed (auto simp: start_request_future finish_request_future lose_request_def release_future cancel_request_future open_future
    finish_open_future lose_open_stream_def cancel_open_stream_def stream_send_def send_chunks_future stream_control_def stream_futures
    stream_close_def stream_abort_def start_finish_stream_def close_future, auto simp: future_step_def)

fun conn_run :: "(64 word \<Rightarrow> ustr) \<Rightarrow> (json \<Rightarrow> ustr) \<Rightarrow> conn_op list \<Rightarrow> connection \<Rightarrow> connection" where
  "conn_run shown repr [] c = c"
| "conn_run shown repr (op # ops) c = conn_run shown repr ops (conn_exec shown repr op c)"

fun run_admissible :: "(64 word \<Rightarrow> ustr) \<Rightarrow> (json \<Rightarrow> ustr) \<Rightarrow> conn_op list \<Rightarrow> connection \<Rightarrow> bool" where
  "run_admissible shown repr [] c = True"
| "run_admissible shown repr (op # ops) c = (conn_admissible op c \<and> run_admissible shown repr ops (conn_exec shown repr op c))"

lemma settled_stays:
  "run_admissible shown repr ops c \<Longrightarrow> cn_futures c i = Some f \<Longrightarrow> f \<noteq> Waiting \<Longrightarrow> cn_futures (conn_run shown repr ops c) i = Some f"
proof (induction ops arbitrary: c)
  case (Cons op ops)
  have "future_step repr op i (cn_futures c i) (cn_futures (conn_exec shown repr op c) i)"
    using Cons.prems(1) by (simp add: future_step_exec)
  with Cons.prems Cons.IH show ?case by (simp add: future_step_def)
qed simp

lemma result_was_answered:
  assumes "run_admissible shown repr ops c" and "cn_futures (conn_run shown repr ops c) i = Some (Result r)"
    and "cn_futures c i \<noteq> Some (Result r)"
  shows "\<exists>op \<in> set ops. answers repr op i r"
  using assms
proof (induction ops arbitrary: c)
  case (Cons op ops)
  have step: "future_step repr op i (cn_futures c i) (cn_futures (conn_exec shown repr op c) i)"
    using Cons.prems(1) by (simp add: future_step_exec)
  show ?case
  proof (cases "cn_futures (conn_exec shown repr op c) i = Some (Result r)")
    case True
    with step Cons.prems(3) show ?thesis by (auto simp: future_step_def)
  next
    case False
    with Cons.IH [of "conn_exec shown repr op c"] Cons.prems show ?thesis by simp
  qed
qed simp

text \<open>C23: a caller that gets a result got it from a response with the identifier of its own request, whatever else
  happened on the connection, and no later message changes the answer.\<close>

theorem responses_answer_their_requests:
  assumes "run_admissible shown repr ops (new_connection node_id)"
    and "fst (finish_request i (conn_run shown repr ops (new_connection node_id))) = Some (Inr r)"
  shows "(\<exists>m. Dispatch m \<in> set ops \<and> text_field repr m ''id'' [] = i \<and> map_of m (u ''ok'') = Some (JBool True)
        \<and> response_result m = Some r)
    \<and> (run_admissible shown repr later (conn_run shown repr ops (new_connection node_id)) \<longrightarrow>
        fst (finish_request i (conn_run shown repr later (conn_run shown repr ops (new_connection node_id)))) = Some (Inr r))"
proof -
  let ?c = "conn_run shown repr ops (new_connection node_id)"
  have f: "cn_futures ?c i = Some (Result r)" using assms(2) by (auto simp: finish_request_def split: option.splits future.splits)
  from result_was_answered [OF assms(1) this] obtain op where "op \<in> set ops" "answers repr op i r"
    by (auto simp: new_connection_def)
  then have "\<exists>m. Dispatch m \<in> set ops \<and> text_field repr m ''id'' [] = i \<and> map_of m (u ''ok'') = Some (JBool True)
      \<and> response_result m = Some r"
    by (auto simp: answers_def split: conn_op.splits)
  moreover have "fst (finish_request i (conn_run shown repr later ?c)) = Some (Inr r)" if "run_admissible shown repr later ?c"
    using settled_stays [OF that f] by (simp add: finish_request_def)
  ultimately show ?thesis by blast
qed

text \<open>C24: when the connection is closed nobody keeps waiting: every caller that waited gets \<^verbatim>\<open>NodeUnavailableError\<close>
  with the reason, every open stream ends with that error, and new requests are refused at once.\<close>

theorem closing_answers_everyone:
  assumes "conn_reach shown repr node_id c"
  shows "cn_futures (close_connection reason c) i \<noteq> Some Waiting
    \<and> (cn_futures c i = Some Waiting \<longrightarrow>
        fst (finish_request i (close_connection reason c)) = Some (Inl (Node_Unavailable_Error reason)))
    \<and> (sid \<in> set (cn_streams c) \<longrightarrow> \<not> stream_closed sid c \<longrightarrow>
        (\<exists>s q. cn_objects (close_connection reason c) sid = Some s \<and> ns_queue s = q @ [Failure (Node_Unavailable_Error reason)]))
    \<and> isl (fst (start_request shown' link k ms oper p (close_connection reason c)))"
proof -
  have ok: "conn_ok c" using assms by (rule conn_reach_ok)
  have waits: "i \<in> set (cn_pending c) \<and> \<not> cn_closed c" if "cn_futures c i = Some Waiting" for i
    using ok that by (auto simp: conn_ok_def futures_ok_def)
  have "cn_futures (close_connection reason c) i \<noteq> Some Waiting"
    using waits by (auto simp: close_connection_def settle_def Let_def)
  moreover have "fst (finish_request i (close_connection reason c)) = Some (Inl (Node_Unavailable_Error reason))"
    if "cn_futures c i = Some Waiting"
    using waits [OF that] that by (simp add: close_connection_def settle_def finish_request_def Let_def)
  moreover have "\<exists>s q. cn_objects (close_connection reason c) sid = Some s \<and> ns_queue s = q @ [Failure (Node_Unavailable_Error reason)]"
    if "sid \<in> set (cn_streams c)" "\<not> stream_closed sid c"
  proof -
    have "\<not> cn_closed c" using ok that(1) by (auto simp: conn_ok_def streams_ok_def)
    moreover from that obtain s where "cn_objects c sid = Some s" "\<not> ns_closed s"
      by (auto simp: stream_closed_def split: option.splits)
    ultimately show ?thesis using that(1)
      by (intro exI [of _ "feed_error (Node_Unavailable_Error reason) s"]) (auto simp: close_connection_def Let_def feed_error_def replace_queue_tail_def)
  qed
  moreover have "cn_closed (close_connection reason c)" by (simp add: close_connection_def Let_def)
  then have "isl (fst (start_request shown' link k ms oper p (close_connection reason c)))"
    by (cases rule: start_request_cases [of shown' link k ms oper p "close_connection reason c"]) auto
  ultimately show ?thesis by blast
qed

section \<open>Order of a stream\<close>

datatype stream_op = Put stream_item | Take

text \<open>The events a reader gets while a stream is fed (\<open>Put\<close> of data or of a control) and read.\<close>

fun stream_run :: "stream_op list \<Rightarrow> node_stream \<Rightarrow> (node_exn + stream_event) list \<times> node_stream" where
  "stream_run [] s = ([], s)"
| "stream_run (Put x # ops) s = stream_run ops (snd (feed_item x s))"
| "stream_run (Take # ops) s =
     (case receive_event s of (r, s') \<Rightarrow> case stream_run ops s' of (es, s'') \<Rightarrow>
        ((case r of None \<Rightarrow> [] | Some e \<Rightarrow> [e]) @ es, s''))"

fun put_items :: "stream_op list \<Rightarrow> stream_item list" where
  "put_items [] = []"
| "put_items (Put x # ops) = x # put_items ops"
| "put_items (Take # ops) = put_items ops"

text \<open>Everything that is left in a stream, as its reader gets it.\<close>

definition rest_of :: "node_stream \<Rightarrow> (node_exn + stream_event) list" where
  "rest_of s = map item_event (ns_queue s)"

lemma closed_stays: "ns_closed s \<Longrightarrow> stream_run ops s = (es, s') \<Longrightarrow> ns_closed s'"
  by (induction ops s arbitrary: es rule: stream_run.induct)
    (auto simp: feed_item_def receive_event_def split: prod.splits list.splits option.splits)

lemma feed_item_open: "\<not> ns_closed (snd (feed_item x s)) \<Longrightarrow>
    \<not> ns_closed s \<and> snd (feed_item x s) = s\<lparr>ns_queue := ns_queue s @ [x]\<rparr>"
  by (auto simp: feed_item_def feed_error_def replace_queue_tail_def split: if_splits)

lemma stream_run_order:
  "stream_run ops s = (es, s') \<Longrightarrow> \<not> ns_closed s' \<Longrightarrow>
    es @ rest_of s' = rest_of s @ map item_event (put_items ops) \<and> length (ns_queue s') \<le> max queue_depth (length (ns_queue s))"
proof (induction ops arbitrary: s es)
  case (Cons op ops)
  show ?case
  proof (cases op)
    case (Put x)
    with Cons.prems have run: "stream_run ops (snd (feed_item x s)) = (es, s')" by simp
    then have still: "\<not> ns_closed (snd (feed_item x s))" using closed_stays Cons.prems(2) by blast
    from feed_item_open [OF this] have open_s: "\<not> ns_closed s" "snd (feed_item x s) = s\<lparr>ns_queue := ns_queue s @ [x]\<rparr>" by auto
    have "length (ns_queue s) < queue_depth"
      using still open_s(1) by (auto simp: feed_item_def feed_error_def replace_queue_tail_def split: if_splits)
    with Cons.IH [OF run Cons.prems(2)] Put open_s show ?thesis by (simp add: rest_of_def)
  next
    case Take
    show ?thesis
    proof (cases "ns_queue s")
      case Nil
      then have "receive_event s = (None, s)" by (simp add: receive_event_def)
      with Take Cons show ?thesis by (auto split: prod.splits)
    next
      case (Cons x q)
      then have r: "receive_event s = (Some (item_event x), s\<lparr>ns_queue := q\<rparr>)" by (simp add: receive_event_def)
      with Take Cons.prems obtain es2 where run: "stream_run ops (s\<lparr>ns_queue := q\<rparr>) = (es2, s')" "es = item_event x # es2"
        by (auto split: prod.splits)
      from Cons.IH [OF run(1) Cons.prems(2)] run(2) Take Cons show ?thesis by (auto simp: rest_of_def)
    qed
  qed
qed (simp add: rest_of_def)

text \<open>C25: a reader gets the data and controls of a stream in the order in which they were fed and then the end,
  complete as long as the buffer has room when the stream ends; with a full buffer exactly the oldest unread
  item is missing before the end.\<close>

theorem stream_delivers_in_order:
  assumes "stream_run ops new_stream = (es, s)" and "\<not> ns_closed s"
  shows "es @ rest_of (feed_end result s) =
    (if length (ns_queue s) < queue_depth then map item_event (put_items ops)
     else map item_event (take (length es) (put_items ops) @ drop (Suc (length es)) (put_items ops))) @ [Inr Ended]"
proof -
  have order: "es @ rest_of s = map item_event (put_items ops)" and len: "length (ns_queue s) \<le> queue_depth"
    using stream_run_order [OF assms] by (auto simp: rest_of_def new_stream_def)
  show ?thesis
  proof (cases "length (ns_queue s) < queue_depth")
    case True
    with order assms(2) show ?thesis
      by (auto simp: feed_end_def replace_queue_tail_def rest_of_def item_event_def)
  next
    case False
    then obtain x q where q: "ns_queue s = x # q" by (cases "ns_queue s") (auto simp: queue_depth_def)
    have es: "es = map item_event (take (length es) (put_items ops))"
      using order by (metis append_eq_conv_conj take_map)
    have "rest_of s = map item_event (drop (length es) (put_items ops))"
      using order by (metis append_eq_conv_conj drop_map)
    then have "map item_event q = map item_event (drop (Suc (length es)) (put_items ops))"
      using q by (metis drop_Suc drop_map list.sel(3) list.simps(9) rest_of_def tl_drop)
    moreover have "rest_of (feed_end result s) = map item_event q @ [Inr Ended]"
      using False q assms(2) by (simp add: feed_end_def replace_queue_tail_def rest_of_def item_event_def)
    ultimately show ?thesis using False es by simp
  qed
qed

text \<open>The oldest chunk is lost without an error: a reader that is 32 chunks behind when the stream closes.\<close>

lemma full_buffer_loses_a_chunk:
  assumes "length chunks = 32"
  shows "rest_of (feed_end [] (snd (stream_run (map (\<lambda>b. Put (Chunk b)) chunks) new_stream)))
    = map (\<lambda>b. Inr (Data b)) (tl chunks) @ [Inr Ended]"
proof -
  have run: "stream_run (map (\<lambda>b. Put (Chunk b)) bs) s = ([], s\<lparr>ns_queue := ns_queue s @ map Chunk bs\<rparr>)"
    if "length (ns_queue s) + length bs \<le> queue_depth" "\<not> ns_closed s" for bs s
    using that by (induction bs arbitrary: s) (simp_all add: feed_item_def)
  obtain b bs where "chunks = b # bs" using assms by (cases chunks) auto
  with run [of new_stream chunks] assms show ?thesis
    by (simp add: new_stream_def queue_depth_def feed_end_def replace_queue_tail_def rest_of_def item_event_def)
qed

section \<open>From one side to the other\<close>

lemma chunks_of_concat: "0 < n \<Longrightarrow> concat (chunks_of n b) = b"
  by (induction n b rule: chunks_of.induct) (subst chunks_of.simps, auto)

lemma chunks_of_length: "chunk \<in> set (chunks_of n b) \<Longrightarrow> length chunk \<le> n \<and> set chunk \<subseteq> set b"
proof (induction n b rule: chunks_of.induct)
  case (1 n b)
  show ?case
  proof (cases "b = [] \<or> n = 0")
    case True
    with 1 show ?thesis by (subst (asm) (2) chunks_of.simps) auto
  next
    case False
    with 1(2) have "chunk = take n b \<or> chunk \<in> set (chunks_of n (drop n b))" by (subst (asm) chunks_of.simps) auto
    with 1(1) [OF False] show ?thesis using set_take_subset [of n b] set_drop_subset [of n b] by auto
  qed
qed

lemma send_chunks_sent:
  "fst (send_chunks shown link i sid chunks c) = Inr () \<Longrightarrow>
    cn_sent (snd (send_chunks shown link i sid chunks c)) = cn_sent c @ map (data_message sid) chunks"
proof (induction chunks arbitrary: c i)
  case (Cons chunk chunks)
  obtain r c' where s: "send shown (link i) (data_message sid chunk) c = (r, c')" by force
  with Cons.prems obtain y where r: "r = Inr y" by (cases r) auto
  with s have "cn_sent c' = cn_sent c @ [data_message sid chunk]" by (auto simp: send_def split: if_splits sum.splits)
  with s r Cons show ?case by simp
qed simp

lemma data_message_feeds:
  assumes "hex_id sid" and "sid \<in> set (cn_streams c)" and "cn_objects c sid = Some s" and "\<not> ns_closed s"
    and "length (ns_queue s) < queue_depth" and "byte_list chunk" and "length chunk \<le> max_chunk_bytes"
  shows "dispatch repr (data_message sid chunk) c = (Inr (), set_stream sid (s\<lparr>ns_queue := ns_queue s @ [Chunk chunk]\<rparr>) c)"
proof -
  have ascii: "\<not> list_ex (\<lambda>x. 128 \<le> x) (b64encode chunk)"
    using set_b64encode [of _ chunk] by (fastforce simp: list_ex_iff pad_def b64_char_def split: if_splits)
  have fields: "map_of (data_message sid chunk) (u ''type'') = Some (JStr (u ''stream.data''))"
    "map_of (data_message sid chunk) (u ''stream_id'') = Some (JStr sid)"
    "map_of (data_message sid chunk) (u ''data'') = Some (JStr (b64encode chunk))"
    by (simp_all add: data_message_def)
  have "sid \<noteq> []" using assms(1) by (auto simp: hex_id_def)
  then have "stream_of repr (data_message sid chunk) c = Inr (Some (sid, s))"
    using assms(1-3) by (simp add: stream_of_def text_field_def fields truthy_def py_str_def validate_request_id_def)
  then show ?thesis using ascii assms(4-7)
    by (simp add: dispatch_def Let_def fields dispatch_stream_data_def b64decode_encode feed_def feed_data_def feed_item_def)
qed

lemma data_messages_feed:
  assumes "hex_id sid" and "sid \<in> set (cn_streams c)" and "cn_objects c sid = Some s" and "\<not> ns_closed s"
    and "length (ns_queue s) + length chunks \<le> queue_depth" and "list_all (\<lambda>b. byte_list b \<and> length b \<le> max_chunk_bytes) chunks"
  shows "cn_objects (conn_run shown repr (map Dispatch (map (data_message sid) chunks)) c) sid
    = Some (s\<lparr>ns_queue := ns_queue s @ map Chunk chunks\<rparr>)"
  using assms
proof (induction chunks arbitrary: c s)
  case (Cons chunk chunks)
  let ?s = "s\<lparr>ns_queue := ns_queue s @ [Chunk chunk]\<rparr>"
  have "dispatch repr (data_message sid chunk) c = (Inr (), set_stream sid ?s c)"
    using Cons.prems by (intro data_message_feeds) auto
  moreover have "cn_objects (conn_run shown repr (map Dispatch (map (data_message sid) chunks)) (set_stream sid ?s c)) sid
      = Some (?s\<lparr>ns_queue := ns_queue ?s @ map Chunk chunks\<rparr>)"
    using Cons.prems by (intro Cons.IH) auto
  ultimately show ?case by simp
qed simp

text \<open>What one side sends on a stream arrives on the other side's stream of that identifier as chunks of at most
  64 KiB whose concatenation is the data, byte for byte and in order.\<close>

theorem stream_data_arrives:
  assumes "stream_send shown link sid data c = (Inr (), c')" and "byte_list data" and "hex_id sid"
    and "sid \<in> set (cn_streams peer)" and "cn_objects peer sid = Some s" and "\<not> ns_closed s"
    and "length (ns_queue s) + length (chunks_of max_chunk_bytes data) \<le> queue_depth"
  shows "\<exists>messages chunks. cn_sent c' = cn_sent c @ messages
    \<and> cn_objects (conn_run shown' repr (map Dispatch messages) peer) sid = Some (s\<lparr>ns_queue := ns_queue s @ map Chunk chunks\<rparr>)
    \<and> concat chunks = data \<and> list_all (\<lambda>b. length b \<le> 65536) chunks"
proof -
  let ?chunks = "chunks_of max_chunk_bytes data"
  have sent: "cn_sent c' = cn_sent c @ map (data_message sid) ?chunks"
    using assms(1) send_chunks_sent [of shown link 0 sid ?chunks c] by (auto simp: stream_send_def split: if_splits)
  have "list_all (\<lambda>b. byte_list b \<and> length b \<le> max_chunk_bytes) ?chunks"
    using chunks_of_length assms(2) by (fastforce simp: list_all_iff byte_list_def)
  note arrived = data_messages_feed [OF assms(3-7) this, of shown' repr]
  moreover have "concat ?chunks = data" "list_all (\<lambda>b. length b \<le> 65536) ?chunks"
    using chunks_of_concat chunks_of_length by (auto simp: max_chunk_bytes_def list_all_iff)
  ultimately show ?thesis using sent by blast
qed

section \<open>Samples\<close>

definition id_a :: ustr where "id_a = replicate 32 97"
definition id_b :: ustr where "id_b = replicate 32 98"

lemma ids: "hex_id id_a" "hex_id id_b" "id_a \<noteq> id_b" "id_a \<noteq> []" "id_b \<noteq> []"
proof -
  have "hd id_a = 97" "hd id_b = 98" by (simp_all add: id_a_def id_b_def)
  then show "id_a \<noteq> id_b" by auto
qed (simp_all add: hex_id_def id_a_def id_b_def list_all_iff)

abbreviation plain_float :: "64 word \<Rightarrow> ustr" where "plain_float \<equiv> \<lambda>_. []"
abbreviation plain_repr :: "json \<Rightarrow> ustr" where "plain_repr \<equiv> \<lambda>_. []"

text \<open>A connection on which a stream was opened, one on which its opening was cancelled, and one with a request.\<close>

definition waiting :: connection where
  "waiting = (new_connection id_a)\<lparr>cn_futures := [id_a \<mapsto> Waiting], cn_pending := [id_a]\<rparr>"

definition open_peer :: connection where
  "open_peer = (new_connection id_a)\<lparr>cn_objects := [id_b \<mapsto> new_stream], cn_streams := [id_b]\<rparr>"

definition plain_char :: "nat \<Rightarrow> bool" where
  "plain_char c \<longleftrightarrow> 32 \<le> c \<and> c < 128 \<and> c \<noteq> quote \<and> c \<noteq> backslash"

lemma dump_plain: "list_all plain_char s \<Longrightarrow> dump_string s = quote # s @ [quote]"
proof -
  have "plain_char c \<Longrightarrow> dump_char c = [c]" for c by (auto simp: dump_char_def plain_char_def)
  then have "list_all plain_char s \<Longrightarrow> concat (map dump_char s) = s" by (induction s) auto
  then show "list_all plain_char s \<Longrightarrow> dump_string s = quote # s @ [quote]" by (simp add: dump_string_def)
qed

lemma encode_ascii: "list_all (\<lambda>c. c < 128) s \<Longrightarrow> utf8_encode s = Some s"
proof -
  have "c < 128 \<Longrightarrow> utf8_char c = [c] \<and> scalar c" for c by (simp add: utf8_char_def scalar_def is_surrogate_def)
  then have "list_all (\<lambda>c. c < 128) s \<Longrightarrow> list_all scalar s \<and> utf8_bytes s = s" by (induction s) auto
  then show "list_all (\<lambda>c. c < 128) s \<Longrightarrow> utf8_encode s = Some s" by (simp add: utf8_encode_def)
qed

lemma plain_words: "list_all plain_char (u ''type'')" "list_all plain_char (u ''id'')" "list_all plain_char (u ''request'')"
  "list_all plain_char (u ''protocol_version'')" "list_all plain_char (u ''budget_ms'')" "list_all plain_char (u ''operation'')"
  "list_all plain_char (u ''payload'')" "list_all plain_char (u ''files.list'')" "list_all plain_char id_a" "list_all plain_char id_b"
  "list_all plain_char (u ''stream_id'')" "list_all plain_char (u ''stream.data'')" "list_all plain_char (u ''data'')"
  by (simp_all add: u_def plain_char_def quote_def backslash_def id_a_def id_b_def list_all_iff)

lemma plain_ascii: "list_all plain_char s \<Longrightarrow> list_all (\<lambda>c. c < 128) s"
  by (auto simp: list_all_iff plain_char_def)

lemma small_stream_number: "py_str_int 3 = [51]" "py_str_int 5 = [53]"
  by (simp_all add: py_str_int_def nat_digits_cases)

lemma id_lengths: "length id_a = 32" "length id_b = 32"
  by (simp_all add: id_a_def id_b_def)

lemma request_raw:
  assumes "payload = [] \<or> payload = [(u ''stream_id'', JStr id_b)]"
  shows "list_all (\<lambda>c. c < 128) (dumps plain_float (JObj (request_message id_a 5 (u ''files.list'') payload)))"
    and "length (dumps plain_float (JObj (request_message id_a 5 (u ''files.list'') payload))) \<le> 500"
  using assms plain_words [THEN plain_ascii]
  by (auto simp: request_message_def dump_plain plain_words small_stream_number protocol_version_def quote_def id_lengths)

lemma encode_plain:
  assumes "map_of m (u ''type'') = Some (JStr s)" and "s \<noteq> []" and "\<not> int_too_long (JObj m)"
    and "list_all (\<lambda>c. c < 128) (dumps shown (JObj m))" and "length (dumps shown (JObj m)) \<le> 500"
  shows "encode_message shown m = Inr (dumps shown (JObj m))"
  using assms(1,2,3,5) encode_ascii [OF assms(4)]
  by (simp add: encode_message_def has_type_def Let_def max_message_bytes_def del: dumps.simps)

lemma request_encodes:
  assumes "payload = [] \<or> payload = [(u ''stream_id'', JStr id_b)]"
  obtains raw where "encode_message plain_float (request_message id_a 5 (u ''files.list'') payload) = Inr raw"
proof -
  have "map_of (request_message id_a 5 (u ''files.list'') payload) (u ''type'') = Some (JStr (u ''request''))"
    "\<not> int_too_long (JObj (request_message id_a 5 (u ''files.list'') payload))"
    using assms by (auto simp: request_message_def protocol_version_def)
  from that encode_plain [OF this(1) _ this(2) request_raw [OF assms]] show ?thesis by simp
qed

lemma known_operation: "u ''files.list'' \<in> set request_operations"
  by (simp add: request_operations_def)

lemma sample_request: "start_request plain_float True id_a 5 (u ''files.list'') [] (new_connection id_a)
    = (Inr (), waiting\<lparr>cn_sent := [request_message id_a 5 (u ''files.list'') []]\<rparr>)"
  by (rule request_encodes [of "[]"])
    (simp_all add: start_request_def validate_request_operation_def known_operation Let_def send_def new_connection_def waiting_def)

theorem closing_witness:
  "fst (finish_request id_a (close_connection (u ''gone'')
      (snd (start_request plain_float True id_a 5 (u ''files.list'') [] (new_connection id_a)))))
    = Some (Inl (Node_Unavailable_Error (u ''gone'')))"
proof -
  have "conn_reach plain_float plain_repr id_a
      (conn_exec plain_float plain_repr (Start_Request True id_a 5 (u ''files.list'') []) (new_connection id_a))"
    by (intro conn_step conn_new) (simp add: new_connection_def)
  from closing_answers_everyone [OF this, of _ id_a "u ''gone''"] show ?thesis by (simp add: sample_request waiting_def)
qed

definition sample_response :: message where
  "sample_response = [(u ''type'', JStr (u ''response'')), (u ''id'', JStr id_a), (u ''ok'', JBool True)]"

theorem responses_witness:
  "fst (finish_request id_a (conn_run plain_float plain_repr
      [Start_Request True id_a 5 (u ''files.list'') [], Dispatch sample_response, Close_Connection (u ''gone'')] (new_connection id_a)))
    = Some (Inr [])"
proof -
  let ?ops = "[Start_Request True id_a 5 (u ''files.list'') [], Dispatch sample_response]"
  have "run_admissible plain_float plain_repr ?ops (new_connection id_a)" by (simp add: new_connection_def)
  moreover have "fst (finish_request id_a (conn_run plain_float plain_repr ?ops (new_connection id_a))) = Some (Inr [])"
    by (simp add: sample_request sample_response_def dispatch_def dispatch_response_def text_field_def truthy_def py_str_def ids
        validate_request_id_def waiting_def response_result_def finish_request_def)
  ultimately show ?thesis
    using responses_answer_their_requests [of plain_float plain_repr ?ops id_a id_a "[]" "[Close_Connection (u ''gone'')]"] by simp
qed

theorem stream_order_witness:
  "[Inr (Data [1])] @ rest_of (feed_end [] (snd (stream_run [Put (Chunk [1]), Take, Put (Chunk [2])] new_stream)))
    = [Inr (Data [1]), Inr (Data [2]), Inr Ended]"
proof -
  let ?ops = "[Put (Chunk [1]), Take, Put (Chunk [2])]"
  have run: "stream_run ?ops new_stream = ([Inr (Data [1])], new_stream\<lparr>ns_queue := [Chunk [2]]\<rparr>)"
    by (simp add: new_stream_def feed_item_def queue_depth_def receive_event_def item_event_def)
  have "\<not> ns_closed (new_stream\<lparr>ns_queue := [Chunk [2]]\<rparr>)" by (simp add: new_stream_def)
  from stream_delivers_in_order [OF run this, of "[]"] show ?thesis
    unfolding run by (simp add: queue_depth_def item_event_def)
qed

theorem stream_data_witness:
  "\<exists>c' messages chunks. stream_send plain_float (\<lambda>_. True) id_b [4, 2, 3] open_peer = (Inr (), c') \<and> cn_sent c' = messages
    \<and> cn_objects (conn_run plain_float plain_repr (map Dispatch messages) open_peer) id_b
        = Some (new_stream\<lparr>ns_queue := map Chunk chunks\<rparr>) \<and> concat chunks = [4, 2, 3]"
proof -
  let ?m = "data_message id_b [4, 2, 3]"
  have chunks: "chunks_of max_chunk_bytes [4, 2, 3] = [[4, 2, 3]]"
    by (subst chunks_of.simps, subst chunks_of.simps) (simp add: max_chunk_bytes_def)
  have b64: "b64encode [4, 2, 3] = [66, 65, 73, 68]" by (simp add: b64_char_def)
  then have "list_all plain_char (b64encode [4, 2, 3])" by (simp add: plain_char_def quote_def backslash_def)
  then have "list_all (\<lambda>c. c < 128) (dumps plain_float (JObj ?m))" "length (dumps plain_float (JObj ?m)) \<le> 500"
    using plain_words [THEN plain_ascii] b64
    by (simp_all add: data_message_def dump_plain plain_words quote_def id_lengths)
  moreover have "map_of ?m (u ''type'') = Some (JStr (u ''stream.data''))" "\<not> int_too_long (JObj ?m)"
    by (simp_all add: data_message_def)
  ultimately obtain raw where "encode_message plain_float ?m = Inr raw" using encode_plain [of ?m "u ''stream.data''" plain_float] by simp
  then have sent: "stream_send plain_float (\<lambda>_. True) id_b [4, 2, 3] open_peer = (Inr (), open_peer\<lparr>cn_sent := [?m]\<rparr>)"
    by (simp add: stream_send_def chunks stream_closed_def open_peer_def new_connection_def new_stream_def send_def)
  have peer: "id_b \<in> set (cn_streams open_peer)" "cn_objects open_peer id_b = Some new_stream" "\<not> ns_closed new_stream"
    "length (ns_queue new_stream) + length (chunks_of max_chunk_bytes [4, 2, 3]) \<le> queue_depth"
    by (simp_all add: open_peer_def new_stream_def chunks queue_depth_def)
  have "byte_list [4, 2, 3]" by simp
  from stream_data_arrives [OF sent this ids(2) peer, of plain_float plain_repr] sent show ?thesis
    by (auto simp: open_peer_def new_connection_def new_stream_def)
qed

text \<open>A caller that is cancelled while its stream is being opened leaves no trace of the stream: the Node's first data
  for it is an unknown stream, an error that ends the connection of the Node and everything on it.\<close>

lemma cancelled_open_breaks_the_connection:
  "\<exists>c. start_open_stream plain_float True id_b id_a 5 (u ''files.list'') [] (new_connection id_a) = (Inr (), c)
    \<and> fst (dispatch plain_repr (data_message id_b [1]) (cancel_open_stream id_b id_a c))
      = Inl (protocol_error ''Unknown Node stream'' ''stream_unknown'')"
proof -
  let ?p = "[(u ''stream_id'', JStr id_b)]"
  obtain raw where raw: "encode_message plain_float (request_message id_a 5 (u ''files.list'') ?p) = Inr raw"
    by (rule request_encodes [of ?p]) simp
  have "start_open_stream plain_float True id_b id_a 5 (u ''files.list'') [] (new_connection id_a) = (Inr (),
      (set_stream id_b new_stream waiting)\<lparr>cn_streams := [id_b], cn_sent := [request_message id_a 5 (u ''files.list'') ?p]\<rparr>)"
    using raw by (simp add: start_open_stream_def start_request_def validate_request_operation_def known_operation Let_def send_def
        new_connection_def waiting_def set_stream_def)
  moreover have "map_of (data_message id_b [1]) (u ''type'') = Some (JStr (u ''stream.data''))"
    "map_of (data_message id_b [1]) (u ''stream_id'') = Some (JStr id_b)" by (simp_all add: data_message_def)
  ultimately show ?thesis
    by (simp add: dispatch_def dispatch_stream_data_def stream_of_def text_field_def truthy_def py_str_def ids validate_request_id_def
        cancel_open_stream_def cancel_request_def waiting_def new_connection_def)
qed

end
