(* ===== verification/Node_Core_Properties.thy ===== *)
theory Node_Core_Properties
  imports Computer_Properties Node_Core Node_Connection_Properties
begin

text \<open>
  All sockets together with the database: a revoked Node has no connection, a Node has at most one, and what the
  application is handed is open and belongs to the Node it asked for.
\<close>

section \<open>The machine\<close>

record core_env =
  e_shown :: "64 word \<Rightarrow> ustr"
  e_repr :: "json \<Rightarrow> ustr"
  e_key_ok :: "bytes \<Rightarrow> bool"
  e_verifies :: "bytes \<Rightarrow> bytes \<Rightarrow> bytes \<Rightarrow> bool"
  e_decimal :: "nat \<Rightarrow> nat option"

datatype core_op =
    Challenge ustr nat ustr
  | Authenticate stamp nat message
  | Drop_Unauthenticated nat
  | Register nat
  | Greet bool nat
  | Serve bool stamp nat "node_exn + message"
  | Leave nat
  | Revoke_Connections ustr
  | Shutdown "ustr list"
  | Close_Next
  | Store_Call computer_op
  | Use_Connection nat conn_op

fun core_exec :: "core_env \<Rightarrow> core_op \<Rightarrow> node_core \<Rightarrow> node_core" where
  "core_exec v (Challenge nonce k i) g = (case challenge nonce k i g of Inl _ \<Rightarrow> set_phase k Gone g | Inr g' \<Rightarrow> g')"
| "core_exec v (Authenticate now k m) g = snd (authenticate (e_key_ok v) (e_verifies v) (e_decimal v) (e_repr v) now k m g)"
| "core_exec v (Drop_Unauthenticated k) g = drop_unauthenticated k g"
| "core_exec v (Register k) g = register_socket k g"
| "core_exec v (Greet link k) g = greet (e_shown v) link k g"
| "core_exec v (Serve link now k r) g = serve (e_shown v) (e_repr v) link now k r g"
| "core_exec v (Leave k) g = leave k g"
| "core_exec v (Revoke_Connections i) g = (case core_revoke i g of Inl _ \<Rightarrow> g | Inr g' \<Rightarrow> g')"
| "core_exec v (Shutdown order) g = shutdown order g"
| "core_exec v Close_Next g = close_next g"
| "core_exec v (Store_Call op) g = g\<lparr>co_store := computer_exec op (co_store g)\<rparr>"
| "core_exec v (Use_Connection k op) g =
     (case co_sockets g k of None \<Rightarrow> g | Some c \<Rightarrow> set_socket k (conn_exec (e_shown v) (e_repr v) op c) g)"

text \<open>A socket is challenged once, the application neither dispatches nor closes a connection, its identifiers are new,
  and a shutdown takes every connection of the table.\<close>

fun used_by_application :: "conn_op \<Rightarrow> bool" where
  "used_by_application (Dispatch m) = False"
| "used_by_application (Close_Connection reason) = False"
| "used_by_application _ = True"

definition core_admissible :: "core_op \<Rightarrow> node_core \<Rightarrow> bool" where
  "core_admissible op g = (case op of
      Challenge nonce k i \<Rightarrow> co_phases g k = Fresh
    | Use_Connection k cop \<Rightarrow> used_by_application cop \<and> (\<forall>c. co_sockets g k = Some c \<longrightarrow> conn_admissible cop c)
    | Shutdown order \<Rightarrow> (\<forall>i. co_connections g i \<noteq> None \<longrightarrow> i \<in> set order)
    | _ \<Rightarrow> True)"

definition core_step :: "core_env \<Rightarrow> core_op \<Rightarrow> node_core \<Rightarrow> node_core" where
  "core_step v op g = (if core_admissible op g then core_exec v op g else g)"

section \<open>The invariant\<close>

definition table_ok :: "node_core \<Rightarrow> bool" where
  "table_ok g \<longleftrightarrow> (\<forall>n k. co_connections g n = Some k \<longrightarrow>
     (\<exists>c. co_sockets g k = Some c \<and> cn_node c = n \<and> \<not> cn_closed c) \<and> co_phases g k \<in> {Serving, Leaving})"

definition socket_ok :: "node_core \<Rightarrow> nat \<Rightarrow> connection \<Rightarrow> bool" where
  "socket_ok g k c \<longleftrightarrow> conn_ok c
     \<and> (co_phases g k = Ready \<or> co_phases g k = Serving \<or> co_phases g k = Leaving \<or> co_phases g k = Gone)
     \<and> (co_phases g k = Ready \<longrightarrow> \<not> cn_closed c)
     \<and> (cn_closed c \<or> co_phases g k = Ready \<or> co_connections g (cn_node c) = Some k \<or> k \<in> set (co_closing g))"

definition sockets_ok :: "node_core \<Rightarrow> bool" where
  "sockets_ok g \<longleftrightarrow> (\<forall>k c. co_sockets g k = Some c \<longrightarrow> socket_ok g k c)"

definition core_ok :: "node_core \<Rightarrow> bool" where
  "core_ok g \<longleftrightarrow> store_ok (co_store g) \<and> table_ok g \<and> sockets_ok g"

lemma core_okI:
  assumes "store_ok (co_store g)"
    and "\<And>n k. co_connections g n = Some k \<Longrightarrow>
      \<exists>c. co_sockets g k = Some c \<and> cn_node c = n \<and> \<not> cn_closed c \<and> (co_phases g k = Serving \<or> co_phases g k = Leaving)"
    and "\<And>k c. co_sockets g k = Some c \<Longrightarrow> socket_ok g k c"
  shows "core_ok g"
  using assms unfolding core_ok_def table_ok_def sockets_ok_def by blast

lemma registered:
  assumes "core_ok g" and "co_connections g n = Some k"
  obtains c where "co_sockets g k = Some c" and "cn_node c = n" and "\<not> cn_closed c" and "co_phases g k = Serving \<or> co_phases g k = Leaving"
  using assms unfolding core_ok_def table_ok_def by blast

lemma socket_facts:
  assumes "core_ok g" and "co_sockets g k = Some c"
  shows "conn_ok c" and "co_phases g k = Ready \<or> co_phases g k = Serving \<or> co_phases g k = Leaving \<or> co_phases g k = Gone"
    and "co_phases g k = Ready \<Longrightarrow> \<not> cn_closed c"
    and "cn_closed c \<or> co_phases g k = Ready \<or> co_connections g (cn_node c) = Some k \<or> k \<in> set (co_closing g)"
    and "socket_ok g k c"
  using assms unfolding core_ok_def sockets_ok_def socket_ok_def by blast+

lemma core_store_ok: "core_ok g \<Longrightarrow> store_ok (co_store g)"
  by (simp add: core_ok_def)

lemma core_ok_new: "store_ok s \<Longrightarrow> core_ok (new_core s)"
  by (simp add: core_ok_def new_core_def table_ok_def sockets_ok_def)

lemma set_phase_fields [simp]:
  "co_store (set_phase k p g) = co_store g" "co_connections (set_phase k p g) = co_connections g"
  "co_phases (set_phase k p g) = (co_phases g)(k := p)" "co_sockets (set_phase k p g) = co_sockets g"
  "co_closing (set_phase k p g) = co_closing g"
  by (simp_all add: set_phase_def)

lemma set_socket_fields [simp]:
  "co_store (set_socket k c g) = co_store g" "co_connections (set_socket k c g) = co_connections g"
  "co_phases (set_socket k c g) = co_phases g" "co_sockets (set_socket k c g) = (co_sockets g)(k \<mapsto> c)"
  "co_closing (set_socket k c g) = co_closing g"
  by (simp_all add: set_socket_def)

lemma close_socket_fields [simp]:
  "co_store (close_socket r k g) = co_store g" "co_connections (close_socket r k g) = co_connections g"
  "co_phases (close_socket r k g) = co_phases g" "co_closing (close_socket r k g) = co_closing g"
  "co_sockets (close_socket r k g) = (co_sockets g)(k := map_option (close_connection r) (co_sockets g k))"
  by (auto simp: close_socket_def split: option.splits)

lemma close_connection_fields [simp]: "cn_node (close_connection r c) = cn_node c" "cn_closed (close_connection r c)"
  by (simp_all add: close_connection_def Let_def)

text \<open>A step that changes one connection without closing it or moving it to another Node.\<close>

lemma same_connection_ok:
  assumes "core_ok g" and "co_sockets g k = Some c" and "conn_ok c'" and "cn_node c' = cn_node c" and "cn_closed c' = cn_closed c"
  shows "core_ok (set_socket k c' g)"
proof (rule core_okI)
  fix n j
  assume "co_connections (set_socket k c' g) n = Some j"
  then have "co_connections g n = Some j" by simp
  from registered [OF assms(1) this] obtain d where
    "co_sockets g j = Some d" "cn_node d = n" "\<not> cn_closed d" "co_phases g j = Serving \<or> co_phases g j = Leaving" .
  with assms(2-5) show "\<exists>d. co_sockets (set_socket k c' g) j = Some d \<and> cn_node d = n \<and> \<not> cn_closed d
      \<and> (co_phases (set_socket k c' g) j = Serving \<or> co_phases (set_socket k c' g) j = Leaving)"
    by (cases "j = k") auto
next
  fix j d
  assume "co_sockets (set_socket k c' g) j = Some d"
  with socket_facts(5) [OF assms(1), of j] socket_facts(5) [OF assms(1,2)] assms(3-5)
  show "socket_ok (set_socket k c' g) j d"
    by (cases "j = k") (auto simp: socket_ok_def)
qed (simp add: core_store_ok [OF assms(1)])

lemma same_store_ok: "core_ok g \<Longrightarrow> store_ok s \<Longrightarrow> core_ok (g\<lparr>co_store := s\<rparr>)"
  by (simp add: core_ok_def table_ok_def sockets_ok_def socket_ok_def)

lemma leaving_ok: "core_ok g \<Longrightarrow> co_phases g k = Serving \<Longrightarrow> core_ok (set_phase k Leaving g)"
  by (rule core_okI) (auto simp: core_store_ok socket_ok_def elim: registered dest: socket_facts split: if_splits)

text \<open>What the application and \<^verbatim>\<open>dispatch\<close> leave alone.\<close>

definition same_link :: "connection \<Rightarrow> connection \<Rightarrow> bool" where
  "same_link c c' \<longleftrightarrow> cn_node c' = cn_node c \<and> cn_closed c' = cn_closed c"

lemma same_link_send: "same_link c (snd (send shown link m c))"
  using send_snd [of shown link m c] by (auto simp: same_link_def)

lemma same_link_trans: "same_link a b \<Longrightarrow> same_link b c \<Longrightarrow> same_link a c"
  by (simp add: same_link_def)

lemma same_link_updates [simp]: "same_link c c" "same_link c (release_request i c)" "same_link c (forget_stream i c)"
  "same_link c (drop_stream i c)" "same_link c (set_stream i s c)" "same_link c (cancel_request i c)"
  by (simp_all add: same_link_def release_request_def forget_stream_def drop_stream_def set_stream_def cancel_request_def)

lemma same_link_derived [simp]:
  "same_link (c\<lparr>cn_streams := x\<rparr>) d = same_link c d" "same_link (set_stream i s c) d = same_link c d"
  "same_link c (forget_stream i d) = same_link c d" "same_link c (drop_stream i d) = same_link c d"
  "same_link (c\<lparr>cn_futures := y, cn_pending := z\<rparr>) d = same_link c d" "same_link c (release_request i d) = same_link c d"
  "same_link c (set_stream i s d) = same_link c d"
  by (simp_all add: same_link_def release_request_def forget_stream_def drop_stream_def set_stream_def)

lemma same_link_request: "same_link c (snd (start_request shown link i ms oper p c))"
  by (cases rule: start_request_cases [of shown link i ms oper p c]) (simp_all add: same_link_def release_request_def)

lemma same_link_chunks: "same_link c (snd (send_chunks shown link n sid chunks c))"
proof (induction chunks arbitrary: c n)
  case (Cons chunk chunks)
  obtain r c' where s: "send shown (link n) (data_message sid chunk) c = (r, c')" by force
  then have "same_link c c'" using same_link_send [of c shown "link n" "data_message sid chunk"] by simp
  with s Cons.IH [of c' "Suc n"] same_link_trans [of c c'] show ?case by (cases r) auto
qed simp

lemma same_link_dispatch: "same_link c (snd (dispatch repr m c))"
proof -
  have "same_link c (snd (dispatch_response repr m c))" "same_link c (snd (dispatch_stream_data repr m c))"
    "same_link c (snd (dispatch_stream_control repr m c))" "same_link c (snd (dispatch_stream_close repr m c))"
    "same_link c (snd (dispatch_stream_error repr m c))"
    by (auto simp: dispatch_response_def dispatch_stream_data_def dispatch_stream_control_def dispatch_stream_close_def
        dispatch_stream_error_def feed_def split: sum.splits option.splits json.splits prod.splits) (simp_all add: same_link_def)
  then show ?thesis by (simp add: dispatch_def Let_def)
qed

lemma same_link_used: "used_by_application op \<Longrightarrow> same_link c (conn_exec shown repr op c)"
proof (cases op)
  case (Start_Open link sid i ms oper p)
  let ?c1 = "(set_stream sid new_stream c)\<lparr>cn_streams := cn_streams c @ [sid]\<rparr>"
  have "same_link ?c1 (snd (start_request shown link i ms oper (dict_set (u ''stream_id'') (json.JStr sid) p) ?c1))"
    by (rule same_link_request)
  with Start_Open show ?thesis by (auto simp: start_open_stream_def Let_def split: prod.splits sum.splits)
next
  case (Close_Stream link sid)
  then show ?thesis using same_link_send by (auto simp: stream_close_def stream_stop_def split: option.splits) (metis same_link_derived(2))
next
  case (Abort_Stream link sid)
  then show ?thesis using same_link_send by (auto simp: stream_abort_def stream_stop_def split: option.splits) (metis same_link_derived(2))
qed (auto simp: same_link_request same_link_send same_link_chunks finish_request_def lose_request_def finish_open_stream_def lose_open_stream_def
    cancel_open_stream_def stream_send_def stream_control_def read_stream_def start_finish_stream_def finish_stream_def Let_def
    split: option.splits future.splits sum.splits prod.splits)

section \<open>Every step keeps the invariant\<close>

lemma gone_ok: "core_ok g \<Longrightarrow> co_sockets g k = None \<Longrightarrow> core_ok (set_phase k p g)"
  by (rule core_okI) (auto simp: core_store_ok socket_ok_def elim: registered dest: socket_facts split: if_splits)

lemma unauthenticated: "core_ok g \<Longrightarrow> co_phases g k \<notin> {Ready, Serving, Leaving, Gone} \<Longrightarrow> co_sockets g k = None"
  using socket_facts(2) by (cases "co_sockets g k") auto

lemma authenticate_ok:
  assumes "core_ok g"
  shows "core_ok (snd (authenticate key_ok verifies decimal repr now k m g))"
proof (cases "co_phases g k")
  case (Challenged i nonce key)
  then have none: "co_sockets g k = None" using unauthenticated [OF assms] by simp
  have ready: "core_ok (set_phase k Ready (set_socket k (new_connection i) (g\<lparr>co_store := s\<rparr>)))" if "store_ok s" for s
  proof (rule core_okI)
    fix n j
    assume "co_connections (set_phase k Ready (set_socket k (new_connection i) (g\<lparr>co_store := s\<rparr>))) n = Some j"
    then have r: "co_connections g n = Some j" by simp
    from registered [OF assms r] none have "j \<noteq> k" by force
    with registered [OF assms r] show "\<exists>c. co_sockets (set_phase k Ready (set_socket k (new_connection i) (g\<lparr>co_store := s\<rparr>))) j = Some c
        \<and> cn_node c = n \<and> \<not> cn_closed c \<and> (co_phases (set_phase k Ready (set_socket k (new_connection i) (g\<lparr>co_store := s\<rparr>))) j = Serving
        \<or> co_phases (set_phase k Ready (set_socket k (new_connection i) (g\<lparr>co_store := s\<rparr>))) j = Leaving)"
      by (auto elim!: registered [OF assms])
  next
    fix j c
    assume "co_sockets (set_phase k Ready (set_socket k (new_connection i) (g\<lparr>co_store := s\<rparr>))) j = Some c"
    then show "socket_ok (set_phase k Ready (set_socket k (new_connection i) (g\<lparr>co_store := s\<rparr>))) j c"
      using socket_facts(5) [OF assms] conn_reach_ok [OF conn_new] by (cases "j = k") (auto simp: socket_ok_def new_connection_def)
  qed (simp add: that)
  show ?thesis
    using Challenged gone_ok [OF assms none] ready update_node_connection_ok [OF _ core_store_ok [OF assms]]
    by (auto simp: authenticate_def split: sum.splits prod.splits)
qed (use assms in \<open>simp_all add: authenticate_def\<close>)

lemma send_on_ok:
  assumes "core_ok g" and "co_sockets g k = Some c" and "co_phases g k = Serving"
  shows "core_ok (send_on shown link k c m g)"
proof -
  let ?c = "snd (send shown link m c)"
  have "core_ok (set_socket k ?c g)"
    using same_link_send [of c shown link m] send_ok [OF socket_facts(1) [OF assms(1,2)]]
    by (intro same_connection_ok [OF assms(1,2)]) (auto simp: same_link_def)
  with leaving_ok [of "set_socket k ?c g" k] assms(3) show ?thesis by (auto simp: send_on_def split: prod.splits sum.splits)
qed

lemma serve_ok:
  assumes "core_ok g"
  shows "core_ok (serve shown repr link now k r g)"
proof (cases "co_phases g k = Serving \<and> co_sockets g k \<noteq> None")
  case True
  then obtain c where c: "co_phases g k = Serving" "co_sockets g k = Some c" by blast
  have d: "core_ok (set_socket k (snd (dispatch repr m c)) g)" for m
    using same_link_dispatch [of c repr m] dispatch_ok [OF socket_facts(1) [OF assms c(2)]]
    by (intro same_connection_ok [OF assms c(2)]) (auto simp: same_link_def)
  have "core_ok (send_on shown link k c m (g\<lparr>co_store := s\<rparr>))" if "store_ok s" for m s
    using send_on_ok [OF same_store_ok [OF assms that], of k c] c by simp
  then have beat: "core_ok (case touch_node now i (co_store g) of Inl _ \<Rightarrow> set_phase k Leaving g
      | Inr s \<Rightarrow> send_on shown link k c m (g\<lparr>co_store := s\<rparr>))" for i m
    using leaving_ok [OF assms c(1)] touch_node_ok [OF _ core_store_ok [OF assms]] by (cases "touch_node now i (co_store g)") auto
  have other: "core_ok (case dispatch repr m c of (Inl _, c') \<Rightarrow> set_phase k Leaving (set_socket k c' g) | (Inr _, c') \<Rightarrow> set_socket k c' g)" for m
  proof (cases "dispatch repr m c")
    case (Pair e c')
    with d [of m] have "core_ok (set_socket k c' g)" by simp
    with Pair leaving_ok [OF this] c(1) show ?thesis by (cases e) simp_all
  qed
  show ?thesis
  proof (cases r)
    case (Inl e)
    with c leaving_ok [OF assms c(1)] show ?thesis by (simp add: serve_def)
  next
    case (Inr m)
    with c beat other show ?thesis by (simp add: serve_def)
  qed
qed (use assms in \<open>auto simp: serve_def split: socket_phase.splits option.splits\<close>)

lemma closed_and_gone:
  assumes "core_ok g" and "co_sockets g k = Some c"
    and "co_connections g' = (\<lambda>n. if co_connections g n = Some k then None else co_connections g n)"
    and "co_store g' = co_store g" and "co_phases g' = co_phases g \<or> co_phases g' = (co_phases g)(k := Gone)"
    and "co_sockets g' = (co_sockets g)(k \<mapsto> close_connection reason c)" and "co_closing g' = co_closing g"
    and "co_phases g' k \<noteq> Ready"
  shows "core_ok g'"
proof (rule core_okI)
  fix n j
  assume "co_connections g' n = Some j"
  with assms(3) have "j \<noteq> k" "co_connections g n = Some j" by (auto split: if_splits)
  moreover from registered [OF assms(1) this(2)] obtain d where "co_sockets g j = Some d" "cn_node d = n" "\<not> cn_closed d"
    "co_phases g j = Serving \<or> co_phases g j = Leaving" .
  ultimately show "\<exists>c. co_sockets g' j = Some c \<and> cn_node c = n \<and> \<not> cn_closed c
      \<and> (co_phases g' j = Serving \<or> co_phases g' j = Leaving)"
    using assms(5,6) by (intro exI [of _ d]) auto
next
  fix j d
  assume d: "co_sockets g' j = Some d"
  show "socket_ok g' j d"
  proof (cases "j = k")
    case True
    with d assms(2,5,6,8) socket_facts(5) [OF assms(1,2)] close_connection_ok [of c] show ?thesis by (auto simp: socket_ok_def)
  next
    case False
    with d assms(6) have old: "co_sockets g j = Some d" by simp
    from socket_facts(5) [OF assms(1) old] False assms(3,5,7) show ?thesis by (auto simp: socket_ok_def)
  qed
qed (use assms in \<open>simp add: core_store_ok\<close>)

lemma leave_ok:
  assumes "core_ok g"
  shows "core_ok (leave k g)"
proof (cases "co_sockets g k")
  case (Some c)
  show ?thesis
  proof (cases "co_phases g k = Serving \<or> co_phases g k = Leaving")
    case True
    have own: "n = cn_node c" if "co_connections g n = Some k" for n
      using registered [OF assms that] Some by force
    have "co_connections (leave k g) = (if co_connections g (cn_node c) = Some k then (co_connections g)(cn_node c := None) else co_connections g)"
      using True Some by (auto simp: leave_def Let_def)
    then have "co_connections (leave k g) n = (if co_connections g n = Some k then None else co_connections g n)" for n
      using own [of n] by (cases "n = cn_node c") auto
    then have table: "co_connections (leave k g) = (\<lambda>n. if co_connections g n = Some k then None else co_connections g n)" by blast
    have fields: "co_store (leave k g) = co_store g" "co_phases (leave k g) = (co_phases g)(k := Gone)"
      "co_sockets (leave k g) = (co_sockets g)(k \<mapsto> close_connection (u ''Node disconnected'') c)" "co_closing (leave k g) = co_closing g"
      using True Some by (auto simp: leave_def Let_def)
    show ?thesis by (rule closed_and_gone [OF assms Some table]) (simp_all add: fields)
  qed (use assms Some in \<open>simp add: leave_def\<close>)
qed (use assms in \<open>simp add: leave_def\<close>)

lemma core_revoke_ok:
  assumes "core_ok g" and "core_revoke i g = Inr g'"
  shows "core_ok g'"
proof (cases "co_connections g i")
  case None
  with assms show ?thesis
    by (auto simp: core_revoke_def rbind_Inr_iff validate_node_id_def Let_def fun_upd_idem split: if_splits)
next
  case (Some k)
  from registered [OF assms(1) Some] obtain c where c: "co_sockets g k = Some c" "cn_node c = i"
    and phase: "co_phases g k = Serving \<or> co_phases g k = Leaving" by blast
  have own: "n = i" if "co_connections g n = Some k" for n
    using registered [OF assms(1) that] c by force
  have g': "g' = close_socket (u ''Node revoked'') k (g\<lparr>co_connections := (co_connections g)(i := None)\<rparr>)"
    using assms(2) Some by (auto simp: core_revoke_def rbind_Inr_iff validate_node_id_def split: if_splits)
  have "co_connections g n \<noteq> Some k" if "n \<noteq> i" for n using own that by blast
  then have "co_connections g' n = (if co_connections g n = Some k then None else co_connections g n)" for n
    unfolding g' by (cases "n = i") (simp_all add: Some)
  then have table: "co_connections g' = (\<lambda>n. if co_connections g n = Some k then None else co_connections g n)" by blast
  have fields: "co_store g' = co_store g" "co_phases g' = co_phases g"
    "co_sockets g' = (co_sockets g)(k \<mapsto> close_connection (u ''Node revoked'') c)" "co_closing g' = co_closing g"
    by (simp_all add: g' c)
  show ?thesis by (rule closed_and_gone [OF assms(1) c(1) table]) (use phase in \<open>auto simp: fields\<close>)
qed

text \<open>Closing a socket that is in no table any more.\<close>

lemma close_socket_ok:
  assumes "core_ok g" and "co_phases g k \<noteq> Ready" and "\<And>n. co_connections g n \<noteq> Some k"
  shows "core_ok (close_socket r k g)"
proof (cases "co_sockets g k")
  case None
  with assms(1) show ?thesis by (simp add: close_socket_def)
next
  case (Some c)
  have table: "co_connections (close_socket r k g) = (\<lambda>n. if co_connections g n = Some k then None else co_connections g n)"
    using assms(3) by (simp add: fun_eq_iff)
  show ?thesis by (rule closed_and_gone [OF assms(1) Some table]) (use assms(2) in \<open>auto simp: Some\<close>)
qed

lemma core_cong:
  assumes "core_ok g" and "co_store g' = co_store g" and "co_connections g' = co_connections g" and "co_phases g' = co_phases g"
    and "co_sockets g' = co_sockets g" and "\<And>k c. co_sockets g k = Some c \<Longrightarrow> k \<in> set (co_closing g) \<Longrightarrow> cn_closed c \<or> k \<in> set (co_closing g')"
  shows "core_ok g'"
proof (rule core_okI)
  show "store_ok (co_store g')" using assms(1,2) by (simp add: core_store_ok)
next
  fix n k
  assume "co_connections g' n = Some k"
  with assms(3) have "co_connections g n = Some k" by simp
  from registered [OF assms(1) this] assms(4,5) show "\<exists>c. co_sockets g' k = Some c \<and> cn_node c = n \<and> \<not> cn_closed c
      \<and> (co_phases g' k = Serving \<or> co_phases g' k = Leaving)" by metis
next
  fix k c
  assume "co_sockets g' k = Some c"
  with assms(5) have c: "co_sockets g k = Some c" by simp
  from socket_facts(5) [OF assms(1) c] assms(6) [OF c] assms(3,4)
  show "socket_ok g' k c" by (auto simp: socket_ok_def)
qed

text \<open>What waits to be closed by a shutdown is in the table no more, and can not come back.\<close>

definition closing_ok :: "node_core \<Rightarrow> bool" where
  "closing_ok g \<longleftrightarrow> (\<forall>k \<in> set (co_closing g). (\<forall>n. co_connections g n \<noteq> Some k)
     \<and> (co_phases g k = Serving \<or> co_phases g k = Leaving \<or> co_phases g k = Gone))"

lemma close_next_ok:
  assumes "core_ok g" and "closing_ok g"
  shows "core_ok (close_next g)"
proof (cases "co_closing g")
  case (Cons k ks)
  let ?g = "close_socket (u ''Core shutting down'') k g"
  have "core_ok ?g" using assms Cons by (intro close_socket_ok) (auto simp: closing_ok_def)
  then have "core_ok (?g\<lparr>co_closing := ks\<rparr>)" by (rule core_cong) (use Cons in \<open>auto split: if_splits\<close>)
  with Cons show ?thesis by (simp add: close_next_def)
qed (use assms in \<open>simp add: close_next_def\<close>)

lemma shutdown_ok:
  assumes "core_ok g" and "\<And>i. co_connections g i \<noteq> None \<Longrightarrow> i \<in> set order"
  shows "core_ok (shutdown order g)"
proof (rule core_okI)
  fix k c
  assume "co_sockets (shutdown order g) k = Some c"
  then have c: "co_sockets g k = Some c" by (simp add: shutdown_def)
  have "k \<in> set (List.map_filter (co_connections g) order)" if "co_connections g (cn_node c) = Some k"
    using that assms(2) [of "cn_node c"] by (force simp: List.map_filter_def image_iff)
  with socket_facts(5) [OF assms(1) c]
  show "socket_ok (shutdown order g) k c"
    by (auto simp: shutdown_def socket_ok_def)
qed (simp_all add: shutdown_def core_store_ok [OF assms(1)])

lemma register_ok:
  assumes "core_ok g"
  shows "core_ok (register_socket k g)"
proof (cases "co_phases g k = Ready \<and> co_sockets g k \<noteq> None")
  case True
  then obtain c where c: "co_sockets g k = Some c" and ready: "co_phases g k = Ready" by blast
  have new: "co_connections g n \<noteq> Some k" for n using registered [OF assms, of n k] ready by fastforce
  show ?thesis
  proof (cases "live_row (cn_node c) (co_store g)")
    case None
    have "core_ok (set_phase k Gone (close_socket (u ''Node revoked'') k g))"
    proof (rule closed_and_gone [OF assms c])
      show "co_connections (set_phase k Gone (close_socket (u ''Node revoked'') k g))
          = (\<lambda>n. if co_connections g n = Some k then None else co_connections g n)"
        using new by (simp add: fun_eq_iff)
    qed (simp_all add: c)
    with c ready None show ?thesis by (simp add: register_socket_def)
  next
    case (Some row)
    let ?n = "cn_node c"
    let ?g = "set_phase k Serving (g\<lparr>co_connections := (co_connections g)(?n \<mapsto> k)\<rparr>)"
    let ?r = "case co_connections g ?n of None \<Rightarrow> ?g | Some p \<Rightarrow> close_socket (u ''Node reconnected'') p ?g"
    have r: "register_socket k g = ?r" using c ready Some by (simp add: register_socket_def Let_def)
    have fields: "co_store ?r = co_store g" "co_connections ?r = (co_connections g)(?n \<mapsto> k)" "co_phases ?r = (co_phases g)(k := Serving)"
      "co_closing ?r = co_closing g"
      by (simp_all split: option.split)
    have socks: "co_sockets ?r j = (if co_connections g ?n = Some j then map_option (close_connection (u ''Node reconnected'')) (co_sockets g j)
        else co_sockets g j)" for j
      by (cases "co_connections g ?n") auto
    have "core_ok ?r"
    proof (rule core_okI)
      fix n j
      assume "co_connections ?r n = Some j"
      then have j: "if n = ?n then j = k else co_connections g n = Some j" unfolding fields by (auto split: if_splits)
      show "\<exists>d. co_sockets ?r j = Some d \<and> cn_node d = n \<and> \<not> cn_closed d \<and> (co_phases ?r j = Serving \<or> co_phases ?r j = Leaving)"
      proof (cases "n = ?n")
        case True
        with j c ready socket_facts(3) [OF assms c] new show ?thesis unfolding fields socks by auto
      next
        case False
        with j have "co_connections g n = Some j" by simp
        from registered [OF assms this] obtain d where d: "co_sockets g j = Some d" "cn_node d = n" "\<not> cn_closed d"
          "co_phases g j = Serving \<or> co_phases g j = Leaving" .
        have "co_connections g ?n \<noteq> Some j" using registered [OF assms, of ?n j] d False by fastforce
        with d ready show ?thesis unfolding fields socks by auto
      qed
    next
      fix j d
      assume d: "co_sockets ?r j = Some d"
      show "socket_ok ?r j d"
      proof (cases "co_connections g ?n = Some j")
        case True
        with d obtain e where "co_sockets g j = Some e" "d = close_connection (u ''Node reconnected'') e" unfolding socks by auto
        moreover have "j \<noteq> k" "co_phases g j \<noteq> Ready" using new True registered [OF assms True] by force+
        ultimately show ?thesis using socket_facts(5) [OF assms, of j e] close_connection_ok [of e]
          unfolding socket_ok_def fields by auto
      next
        case False
        with d have old: "co_sockets g j = Some d" unfolding socks by simp
        show ?thesis
        proof (cases "j = k")
          case True
          with old c have "d = c" by simp
          with True socket_facts(5) [OF assms c] show ?thesis unfolding socket_ok_def fields by simp
        next
          case False
          with \<open>co_connections g ?n \<noteq> Some j\<close> socket_facts(5) [OF assms old] show ?thesis unfolding socket_ok_def fields by auto
        qed
      qed
    qed (simp only: fields core_store_ok [OF assms])
    then show ?thesis by (simp only: r)
  qed
next
  case False
  then have "register_socket k g = g" by (auto simp: register_socket_def split: socket_phase.splits option.splits)
  with assms show ?thesis by simp
qed

text \<open>A socket that was served stays served or gone, and only one that is ready enters the table, of a Node that is
  live in the store.\<close>

definition moves_on :: "node_core \<Rightarrow> node_core \<Rightarrow> bool" where
  "moves_on g g' \<longleftrightarrow> co_closing g' = co_closing g
     \<and> (\<forall>k. co_phases g k \<in> {Serving, Leaving, Gone} \<longrightarrow> co_phases g' k \<in> {Serving, Leaving, Gone})
     \<and> (\<forall>k n. co_connections g' n = Some k \<longrightarrow>
          co_connections g n = Some k \<or> co_phases g k = Ready \<and> live_row n (co_store g) \<noteq> None)"

lemma moves_on_closing:
  assumes "moves_on g g'" and "closing_ok g"
  shows "closing_ok g'"
  unfolding closing_ok_def
proof
  fix k
  assume "k \<in> set (co_closing g')"
  then have k: "k \<in> set (co_closing g)" using assms(1) by (simp add: moves_on_def)
  then have phase: "co_phases g k \<in> {Serving, Leaving, Gone}" and out: "\<And>n. co_connections g n \<noteq> Some k"
    using assms(2) by (auto simp: closing_ok_def)
  have "co_connections g' n \<noteq> Some k" for n
  proof
    assume "co_connections g' n = Some k"
    then have "co_phases g k = Ready" using assms(1) out [of n] unfolding moves_on_def by blast
    with phase show False by simp
  qed
  moreover have "co_phases g' k \<in> {Serving, Leaving, Gone}" using assms(1) phase unfolding moves_on_def by blast
  ultimately show "(\<forall>n. co_connections g' n \<noteq> Some k) \<and> (co_phases g' k = Serving \<or> co_phases g' k = Leaving \<or> co_phases g' k = Gone)"
    by simp
qed

lemma moves_on_refl [simp]: "moves_on g g"
  by (simp add: moves_on_def)

lemma moves_on_same: "co_closing g' = co_closing g \<Longrightarrow> co_phases g' = co_phases g \<Longrightarrow> co_connections g' = co_connections g \<Longrightarrow> moves_on g g'"
  by (simp add: moves_on_def)

lemma moves_on_phase: "p \<in> {Serving, Leaving, Gone} \<or> co_phases g k \<notin> {Serving, Leaving, Gone} \<Longrightarrow>
    co_closing g' = co_closing g \<Longrightarrow> co_phases g' = (co_phases g)(k := p) \<Longrightarrow> co_connections g' = co_connections g \<Longrightarrow> moves_on g g'"
  by (auto simp: moves_on_def)

lemma send_on_fields [simp]:
  "co_store (send_on shown link k c m g) = co_store g" "co_connections (send_on shown link k c m g) = co_connections g"
  by (simp_all add: send_on_def split: prod.splits sum.splits)

lemma moves_on_send: "co_phases g k = Serving \<Longrightarrow> moves_on g (send_on shown link k c m g)"
  by (auto simp: send_on_def split: prod.splits sum.splits intro: moves_on_phase [of Leaving] moves_on_same)

lemma moves_on_serve: "moves_on g (serve shown repr link now k r g)"
proof (cases "co_phases g k = Serving \<and> co_sockets g k \<noteq> None")
  case True
  then obtain c where c: "co_phases g k = Serving" "co_sockets g k = Some c" by blast
  have "moves_on g (send_on shown link k c m (g\<lparr>co_store := s\<rparr>))" for m s
    using moves_on_send [of "g\<lparr>co_store := s\<rparr>" k shown link c m] c(1) by (simp add: moves_on_def)
  then have beat: "moves_on g (case touch_node now i (co_store g) of Inl _ \<Rightarrow> set_phase k Leaving g
      | Inr s \<Rightarrow> send_on shown link k c m (g\<lparr>co_store := s\<rparr>))" for i m
    using moves_on_phase [of Leaving g k "set_phase k Leaving g"] by (cases "touch_node now i (co_store g)") auto
  have other: "moves_on g (case dispatch repr m c of (Inl _, c') \<Rightarrow> set_phase k Leaving (set_socket k c' g) | (Inr _, c') \<Rightarrow> set_socket k c' g)" for m
  proof (cases "dispatch repr m c")
    case (Pair e c')
    have "moves_on g (set_phase k Leaving (set_socket k c' g))" "moves_on g (set_socket k c' g)"
      by (rule moves_on_phase [of Leaving g k]; simp) (rule moves_on_same; simp)
    with Pair show ?thesis by (cases e) simp_all
  qed
  show ?thesis
  proof (cases r)
    case (Inl e)
    with c show ?thesis using moves_on_phase [of Leaving g k "set_phase k Leaving g"] by (simp add: serve_def)
  next
    case (Inr m)
    with c beat other show ?thesis by (simp add: serve_def)
  qed
qed (auto simp: serve_def split: socket_phase.splits option.splits)

lemma moves_on_exec:
  assumes "core_admissible op g" and "\<And>order. op \<noteq> Shutdown order" and "op \<noteq> Close_Next"
  shows "moves_on g (core_exec v op g)"
proof (cases op)
  case (Challenge nonce k i)
  with assms(1) have fresh: "co_phases g k = Fresh" by (simp add: core_admissible_def)
  have phase: "moves_on g (set_phase k p g)" for p by (rule moves_on_phase [of p g k]) (simp_all add: fresh)
  then have "moves_on g g'" if "challenge nonce k i g = Inr g'" for g'
    using that by (auto simp: challenge_def rbind_Inr_iff split: option.splits)
  with phase Challenge show ?thesis by (cases "challenge nonce k i g") simp_all
next
  case (Authenticate now k m)
  then show ?thesis
    by (cases "co_phases g k") (auto simp: authenticate_def moves_on_def split: sum.splits prod.splits)
next
  case (Drop_Unauthenticated k)
  then show ?thesis by (auto simp: drop_unauthenticated_def moves_on_def split: socket_phase.splits)
next
  case (Register k)
  show ?thesis
  proof (cases "co_phases g k = Ready \<and> co_sockets g k \<noteq> None")
    case True
    with Register show ?thesis
      by (auto simp: moves_on_def register_socket_def Let_def split: option.splits if_splits)
  qed (auto simp: Register register_socket_def split: socket_phase.splits option.splits)
next
  case (Greet link k)
  then show ?thesis using moves_on_send [of g k] by (auto simp: greet_def split: socket_phase.splits option.splits)
next
  case (Serve link now k r)
  then show ?thesis by (simp add: moves_on_serve)
next
  case (Leave k)
  show ?thesis
  proof (cases "co_sockets g k")
    case (Some c)
    with Leave show ?thesis by (auto simp: moves_on_def leave_def Let_def)
  qed (simp add: Leave leave_def)
next
  case (Revoke_Connections i)
  have "core_revoke i g = Inr g' \<Longrightarrow> moves_on g g'" for g'
    by (cases "co_connections g i") (auto simp: moves_on_def core_revoke_def rbind_Inr_iff validate_node_id_def Let_def split: if_splits)
  with Revoke_Connections show ?thesis by (auto split: sum.split)
next
  case (Store_Call cop)
  then show ?thesis by (simp add: moves_on_same)
next
  case (Use_Connection k cop)
  then show ?thesis by (auto split: option.splits intro: moves_on_same)
qed (use assms in auto)

lemma closing_ok_exec:
  assumes "core_ok g" and "closing_ok g" and "core_admissible op g"
  shows "closing_ok (core_exec v op g)"
proof (cases "op = Close_Next \<or> (\<exists>order. op = Shutdown order)")
  case True
  then consider "op = Close_Next" | order where "op = Shutdown order" by blast
  then show ?thesis
  proof cases
    case 1
    with assms(2) show ?thesis by (auto simp: closing_ok_def close_next_def split: list.splits)
  next
    case 2
    have "co_phases g k = Serving \<or> co_phases g k = Leaving" if "k \<in> set (List.map_filter (co_connections g) order)" for k
    proof -
      from that obtain n where "co_connections g n = Some k" by (auto simp: List.map_filter_def)
      with registered [OF assms(1)] show ?thesis by blast
    qed
    with 2 assms(2) show ?thesis by (auto simp: closing_ok_def shutdown_def)
  qed
qed (use assms moves_on_exec [OF assms(3)] moves_on_closing in blast)

lemma core_exec_ok:
  assumes "core_ok g" and "closing_ok g" and "core_admissible op g"
  shows "core_ok (core_exec v op g)"
proof (cases op)
  case (Challenge nonce k i)
  with assms(3) have "co_phases g k = Fresh" by (simp add: core_admissible_def)
  then have "co_sockets g k = None" using unauthenticated [OF assms(1)] by simp
  with Challenge gone_ok [OF assms(1)] show ?thesis
    by (auto simp: challenge_def rbind_def split: sum.splits option.splits)
next
  case (Drop_Unauthenticated k)
  then show ?thesis using gone_ok [OF assms(1)] unauthenticated [OF assms(1), of k] assms(1)
    by (auto simp: drop_unauthenticated_def split: socket_phase.splits)
next
  case (Greet link k)
  then show ?thesis using send_on_ok [OF assms(1)] assms(1) by (auto simp: greet_def split: socket_phase.splits option.splits)
next
  case (Use_Connection k cop)
  show ?thesis
  proof (cases "co_sockets g k")
    case (Some c)
    with Use_Connection assms(3) have use_ok: "used_by_application cop" "conn_admissible cop c" by (auto simp: core_admissible_def)
    have "core_ok (set_socket k (conn_exec (e_shown v) (e_repr v) cop c) g)"
      using same_link_used [OF use_ok(1), of c "e_shown v" "e_repr v"] conn_exec_ok [OF socket_facts(1) [OF assms(1) Some] use_ok(2)]
      by (intro same_connection_ok [OF assms(1) Some]) (auto simp: same_link_def)
    with Use_Connection Some show ?thesis by simp
  qed (use Use_Connection assms(1) in simp)
next
  case (Shutdown order)
  with assms(3) have "co_connections g i \<noteq> None \<Longrightarrow> i \<in> set order" for i by (auto simp: core_admissible_def)
  from shutdown_ok [OF assms(1) this] Shutdown show ?thesis by simp
next
  case (Store_Call cop)
  then show ?thesis using same_store_ok [OF assms(1)] computer_exec_ok [OF core_store_ok [OF assms(1)]] by simp
next
  case (Revoke_Connections i)
  then show ?thesis using core_revoke_ok [OF assms(1)] assms(1) by (auto split: sum.split)
qed (use assms in \<open>auto simp: authenticate_ok register_ok serve_ok leave_ok close_next_ok\<close>)

definition core_inv :: "node_core \<Rightarrow> bool" where
  "core_inv g \<longleftrightarrow> core_ok g \<and> closing_ok g"

lemma core_inv_step: "core_inv g \<Longrightarrow> core_inv (core_step v op g)"
  by (auto simp: core_inv_def core_step_def core_exec_ok closing_ok_exec)

lemma core_inv_run: "core_inv g \<Longrightarrow> core_inv (fold (core_step v) ops g)"
  by (induction ops arbitrary: g) (auto simp: core_inv_step)

section \<open>Theorems\<close>

text \<open>C26: at any moment a Node has at most one open connection among those the Core serves and has not begun to shut
  down, and what the application is handed for a Node is that one: open, and authenticated as this Node.\<close>

theorem one_open_connection_per_node:
  assumes "store_ok s" and "g = fold (core_step v) ops (new_core s)"
  shows "(core_connection i g = Inr k \<longrightarrow> (\<exists>c. co_sockets g k = Some c \<and> cn_node c = i \<and> \<not> cn_closed c))
    \<and> (co_sockets g k = Some c \<and> co_sockets g j = Some d \<and> cn_node c = cn_node d \<and> \<not> cn_closed c \<and> \<not> cn_closed d
      \<and> co_phases g k \<noteq> Ready \<and> co_phases g j \<noteq> Ready \<and> k \<notin> set (co_closing g) \<and> j \<notin> set (co_closing g) \<longrightarrow> j = k)"
proof -
  have "core_inv (new_core s)" using core_ok_new [OF assms(1)] by (simp add: core_inv_def closing_ok_def new_core_def)
  then have ok: "core_ok g" unfolding assms(2) using core_inv_run core_inv_def by blast
  have "\<exists>c. co_sockets g k = Some c \<and> cn_node c = i \<and> \<not> cn_closed c" if "core_connection i g = Inr k"
    using that registered [OF ok, of i k]
    by (fastforce simp: core_connection_def rbind_Inr_iff validate_node_id_def split: if_splits option.splits)
  moreover have "j = k" if "co_sockets g k = Some c" "co_sockets g j = Some d" "cn_node c = cn_node d" "\<not> cn_closed c" "\<not> cn_closed d"
    "co_phases g k \<noteq> Ready" "co_phases g j \<noteq> Ready" "k \<notin> set (co_closing g)" "j \<notin> set (co_closing g)"
    using socket_facts(4) [OF ok that(1)] socket_facts(4) [OF ok that(2)] that(3-) by simp
  ultimately show ?thesis by blast
qed

text \<open>The computer is there and revoked.\<close>

definition revoked_row :: "ustr \<Rightarrow> computer_row \<Rightarrow> store \<Rightarrow> bool" where
  "revoked_row i c s \<longleftrightarrow> succeeds c s \<and> c_id c = i \<and> c_revoked c \<noteq> None"

lemma revoked_not_live: "revoked_row i c s \<Longrightarrow> live_row i s = None"
proof -
  assume r: "revoked_row i c s"
  then obtain d where ok: "store_ok s" and d: "d \<in> set (computers s)" "later_row c d" by (auto simp: revoked_row_def succeeds_def)
  have "x = d" if "get_computer i s = Some x" for x
  proof -
    have "x \<in> set (computers s)" "c_id x = i" using that by (auto simp: get_computer_def dest!: find_SomeD)
    then show ?thesis using d r by (intro computer_table.lookup_unique [OF ok]) (auto simp: later_row_def revoked_row_def)
  qed
  moreover have "c_revoked d \<noteq> None" using d r by (simp add: later_row_def revoked_row_def)
  ultimately show ?thesis by (auto simp: live_row_def split: option.split)
qed

fun removes_node :: "ustr \<Rightarrow> core_op \<Rightarrow> bool" where
  "removes_node i (Store_Call op) = removes_computer i op"
| "removes_node i _ = False"

lemma revoked_computer_call: "revoked_row i c s \<Longrightarrow> \<not> removes_computer i op \<Longrightarrow> revoked_row i c (computer_exec op s)"
  using succeeds_step by (auto simp: revoked_row_def)

lemma revoked_node_calls:
  "revoked_row i c s \<Longrightarrow> update_node_connection now j v cs s = Inr s' \<Longrightarrow> revoked_row i c s'"
  "revoked_row i c s \<Longrightarrow> touch_node now j s = Inr s' \<Longrightarrow> revoked_row i c s'"
  using revoked_computer_call [of i c s "Node_Connected now j v cs"] revoked_computer_call [of i c s "Node_Seen now j"] by simp_all


lemma revoked_row_step:
  assumes "revoked_row i c (co_store g)" and "\<not> removes_node i op"
  shows "revoked_row i c (co_store (core_step v op g))"
proof (cases op)
  case (Challenge nonce k j)
  with assms show ?thesis
    by (auto simp: core_step_def challenge_def rbind_def split: sum.splits option.splits)
next
  case (Authenticate now k m)
  with assms revoked_node_calls(1) show ?thesis
    by (cases "co_phases g k") (auto simp: core_step_def authenticate_def split: sum.splits prod.splits)
next
  case (Serve link now k r)
  with assms revoked_node_calls(2) show ?thesis
    by (cases "co_phases g k"; cases "co_sockets g k"; cases r) (auto simp: core_step_def serve_def split: sum.splits prod.splits)
next
  case (Revoke_Connections j)
  show ?thesis
  proof (cases "core_revoke j g")
    case (Inr g')
    then have "co_store g' = co_store g" by (auto simp: core_revoke_def rbind_Inr_iff Let_def split: option.splits)
    with Inr Revoke_Connections assms(1) show ?thesis by (simp add: core_step_def)
  qed (use Revoke_Connections assms(1) in \<open>simp add: core_step_def\<close>)
next
  case (Store_Call cop)
  have "revoked_row i c (computer_exec cop (co_store g))"
    using assms Store_Call by (intro revoked_computer_call) simp_all
  with Store_Call assms(1) show ?thesis by (simp add: core_step_def)
qed (use assms in \<open>auto simp: core_step_def drop_unauthenticated_def register_socket_def greet_def leave_def shutdown_def close_next_def Let_def
    split: socket_phase.splits option.splits list.splits\<close>)

text \<open>Nothing registers the Node again.\<close>

lemma revoked_stays_out:
  assumes "revoked_row i c (co_store g)" and "co_connections g i = None"
  shows "co_connections (core_step v op g) i = None"
proof (cases "core_admissible op g \<and> op \<noteq> Close_Next \<and> (\<forall>order. op \<noteq> Shutdown order)")
  case True
  then have m: "moves_on g (core_exec v op g)" by (intro moves_on_exec) auto
  have "co_connections (core_exec v op g) i \<noteq> Some k" for k
  proof
    assume "co_connections (core_exec v op g) i = Some k"
    with m assms(2) have "live_row i (co_store g) \<noteq> None" unfolding moves_on_def by fastforce
    with revoked_not_live [OF assms(1)] show False by simp
  qed
  then have "co_connections (core_exec v op g) i = None" by (cases "co_connections (core_exec v op g) i") auto
  with True show ?thesis by (simp add: core_step_def)
qed (use assms(2) in \<open>auto simp: core_step_def close_next_def shutdown_def split: list.splits\<close>)

interpretation node_revoked: lasting_fact "core_step v" "\<lambda>op. \<not> removes_node i op" "\<lambda>g. revoked_row i c (co_store g)" for v i c
  by unfold_locales (rule revoked_row_step)

interpretation node_cut_off: lasting_fact "core_step v" "\<lambda>op. \<not> removes_node i op"
    "\<lambda>g. revoked_row i c (co_store g) \<and> co_connections g i = None" for v i c
  by unfold_locales (auto simp: revoked_row_step revoked_stays_out)

text \<open>C27: a revoked Node is cut off. Once the store has revoked it and the Core has dropped its connection, then whatever
  sockets connect, authenticate, register or beat in the meantime and afterwards, in any order, the Core has no
  connection for it, hands none out, and every connection of the Node it ever served is closed or about to be.\<close>

theorem revoked_node_is_cut_off:
  assumes "store_ok s" and "g = fold (core_step v) ops (new_core s)"
    and "revoke_node now i (co_store g) = Inr (c, s1)" and "g1 = fold (core_step v) ops1 (g\<lparr>co_store := s1\<rparr>)"
    and "core_revoke i g1 = Inr g2" and "g3 = fold (core_step v) ops2 g2"
    and "list_all (\<lambda>op. \<not> removes_node i op) (ops1 @ ops2)"
  shows "co_connections g3 i = None \<and> core_connection i g3 = Inl offline
    \<and> (co_sockets g3 k = Some d \<and> cn_node d = i \<and> co_phases g3 k \<noteq> Ready \<longrightarrow> cn_closed d \<or> k \<in> set (co_closing g3))"
proof -
  have "core_inv (new_core s)" using core_ok_new [OF assms(1)] by (simp add: core_inv_def closing_ok_def new_core_def)
  then have inv: "core_inv g" unfolding assms(2) by (rule core_inv_run)
  then have ok: "store_ok (co_store g)" by (simp add: core_inv_def core_store_ok)
  have ok1: "store_ok s1" using assms(3) ok by (rule revoke_node_ok)
  have c: "get_computer i s1 = Some c" "c \<in> set (computers s1)" "c_id c = i"
    using assms(3) by (auto simp: revoke_node_def Let_def get_computer_def split: if_splits option.splits dest!: find_SomeD)
  have "c_revoked c \<noteq> None"
  proof -
    have "rowcount (live_node i) (computers (co_store g)) = 1" using assms(3) by (auto simp: revoke_node_def split: if_splits)
    then obtain d where d: "d \<in> set (computers (co_store g))" "live_node i d"
      using rowcount_zero_iff [of "live_node i" "computers (co_store g)"] by fastforce
    let ?f = "\<lambda>c. c\<lparr>c_revoked := Some now, c_error := Some (u ''node_revoked'')\<rparr>"
    have "s1 = set_computer (live_node i) ?f (co_store g)"
      using assms(3) by (auto simp: revoke_node_def Let_def split: if_splits option.splits)
    then have "?f d \<in> set (computers s1)" using updated_row [where p = "live_node i", OF d, of ?f] by (simp add: set_computer_def)
    then have "c = ?f d" using c d by (intro computer_table.lookup_unique [OF ok1]) (auto simp: live_node_def)
    then show ?thesis by simp
  qed
  then have "revoked_row i c (co_store (g\<lparr>co_store := s1\<rparr>))"
    using ok1 c row_kept [OF c(2)] by (simp add: revoked_row_def succeeds_def)
  then have r1: "revoked_row i c (co_store g1)"
    unfolding assms(4) by (rule node_revoked.fact_run) (use assms(7) in \<open>simp add: list_all_iff\<close>)
  have g2: "co_store g2 = co_store g1" "co_connections g2 i = None" "hex_id i"
    using assms(5) by (auto simp: core_revoke_def rbind_Inr_iff validate_node_id_def Let_def split: if_splits option.splits)
  with r1 have "revoked_row i c (co_store g2) \<and> co_connections g2 i = None" by simp
  then have r3: "revoked_row i c (co_store g3) \<and> co_connections g3 i = None"
    unfolding assms(6) by (rule node_cut_off.fact_run) (use assms(7) in \<open>simp add: list_all_iff\<close>)
  then have "co_connections g3 i = None" by simp
  moreover have "core_connection i g3 = Inl offline"
    using revoked_not_live [of i c "co_store g3"] r3 g2(3) by (simp add: core_connection_def validate_node_id_def)
  moreover have "core_inv (g\<lparr>co_store := s1\<rparr>)"
    using inv ok1 same_store_ok by (simp add: core_inv_def closing_ok_def)
  then have "core_inv g1" unfolding assms(4) by (rule core_inv_run)
  then have "core_inv g2"
    using core_revoke_ok [OF _ assms(5)] moves_on_closing [of g1 g2] moves_on_exec [of "Revoke_Connections i" g1 v] assms(5)
    by (auto simp: core_inv_def core_admissible_def)
  then have "core_ok g3" unfolding assms(6) using core_inv_run core_inv_def by blast
  then have "cn_closed d \<or> k \<in> set (co_closing g3)" if "co_sockets g3 k = Some d" "cn_node d = i" "co_phases g3 k \<noteq> Ready"
    using socket_facts(4) [OF _ that(1)] that r3 by auto
  ultimately show ?thesis by blast
qed

end
