(* ===== verification/Node_Core_Samples.thy ===== *)
theory Node_Core_Samples
  imports Node_Core_Properties Node_Protocol_Properties
begin

text \<open>A Node that connects, is revoked and tries again: the theorems of \<open>Node_Core_Properties\<close> at concrete runs.\<close>

definition node_key :: ustr where "node_key = public_key_text (replicate 32 7)"

definition node_row :: computer_row where
  "node_row = sample_node\<lparr>c_id := id_a, c_node_key := node_key\<rparr>"

definition node_store :: store where
  "node_store = empty_store\<lparr>computers := [node_row]\<rparr>"

definition auth_response :: message where
  "auth_response = [(u ''type'', json.JStr (u ''auth.response'')), (u ''node_id'', json.JStr id_a), (u ''protocol_version'', JInt 3),
     (u ''capabilities'', JArr [json.JStr (u ''files''), json.JStr (u ''terminal''), json.JStr (u ''workspace'')])]"

definition trusting :: core_env where
  "trusting = \<lparr>e_shown = (\<lambda>_. []), e_repr = (\<lambda>_. []), e_key_ok = (\<lambda>_. True), e_verifies = (\<lambda>_ _ _. True), e_decimal = (\<lambda>_. None)\<rparr>"

lemma node_store_ok: "store_ok node_store"
proof -
  have "insert_computer node_row empty_store = Inr node_store"
    by (simp add: insert_computer_def node_store_def node_row_def empty_store_def sample_node_def sample_computer_def Let_def)
  then show ?thesis using insert_computer_ok store_ok_empty by blast
qed

lemma node_live: "get_computer id_a node_store = Some node_row" "live_row id_a node_store = Some node_row"
  by (simp_all add: live_row_def get_computer_def node_store_def node_row_def sample_node_def sample_computer_def)

lemma key_parses: "parse_public_key (\<lambda>_. True) node_key = Inr (replicate 32 7)"
proof -
  have "byte_list (replicate 32 7)" by (simp add: byte_list_def)
  then show ?thesis using b64_text_ascii by (simp add: parse_public_key_def node_key_def public_key_text_def b64_round_trip Let_def)
qed

lemma sample_capabilities: "normalize_capabilities (JArr [json.JStr (u ''files''), json.JStr (u ''terminal''), json.JStr (u ''workspace'')])
    = Inr [u ''files'', u ''terminal'', u ''workspace'']"
proof -
  have "sort [u ''files'', u ''terminal'', u ''workspace''] = [u ''files'', u ''terminal'', u ''workspace'']"
    by (simp add: sorted_sort_id u_def)
  then show ?thesis by (simp add: normalize_capabilities_def node_capabilities_def required_capabilities_def)
qed

lemma sample_check: "check_response (\<lambda>_. True) (\<lambda>_ _ _. True) (\<lambda>_. None) (\<lambda>_. []) id_a [120] node_key auth_response
    = Inr (3, [u ''files'', u ''terminal'', u ''workspace''])"
proof -
  have "list_all scalar (u ''termroom-node-auth-v1'' @ [0] @ id_a @ [0] @ [120])"
    by (simp add: u_def scalar_def is_surrogate_def list_all_iff id_a_def)
  then have "\<exists>b. auth_payload id_a [120] = Inr b"
    by (simp add: auth_payload_def validate_node_id_def ids utf8_encode_def)
  moreover have "b64_bytes [] = Some []" by (simp add: b64_bytes_def repad_def b64decode_def)
  ultimately have "verify_challenge (\<lambda>_. True) (\<lambda>_ _ _. True) node_key id_a [120] []"
    by (auto simp: verify_challenge_def key_parses)
  then show ?thesis
    by (simp add: check_response_def auth_response_def json_field_def validate_protocol_version_def version_int_def protocol_version_def
        sample_capabilities required_capabilities_def text_field_def u_def [of "[]"] Let_def)
qed

definition node_up :: node_core where
  "node_up = fold (core_step trusting) [Challenge [120] 7 id_a, Authenticate 600 7 auth_response, Register 7] (new_core node_store)"

lemma node_connects: "\<exists>s. update_node_connection 600 id_a 3 [u ''files'', u ''terminal'', u ''workspace''] node_store = Inr s
    \<and> (\<exists>r. live_row id_a s = Some r)
    \<and> computers s = [node_row\<lparr>c_node_protocol := Some 3, c_node_capabilities := [u ''files'', u ''terminal'', u ''workspace''],
         c_seen := Some 600, c_connected := Some 600, c_error := None\<rparr>]"
  by (simp add: update_node_connection_def node_store_def node_row_def sample_node_def sample_computer_def rowcount_def live_node_def
      set_computer_def live_row_def get_computer_def)

lemma node_up_shape: "co_connections node_up id_a = Some 7" "co_sockets node_up 7 = Some (new_connection id_a)"
  "co_closing node_up = []" "\<exists>r. live_row id_a (co_store node_up) = Some r"
  "co_phases node_up 7 = Serving" "\<exists>r. computers (co_store node_up) = [r] \<and> live_node id_a r"
proof -
  obtain s r where s: "update_node_connection 600 id_a 3 [u ''files'', u ''terminal'', u ''workspace''] node_store = Inr s"
    "live_row id_a s = Some r" "\<exists>r. computers s = [r] \<and> live_node id_a r"
    using node_connects by (auto simp: node_row_def sample_node_def sample_computer_def live_node_def)
  have "challenge [120] 7 id_a (new_core node_store) = Inr (set_phase 7 (Challenged id_a [120] node_key) (new_core node_store))"
    by (simp add: challenge_def validate_node_id_def ids node_live new_core_def node_row_def)
  then have up: "node_up = set_phase 7 Serving ((set_phase 7 Ready (set_socket 7 (new_connection id_a)
      ((set_phase 7 (Challenged id_a [120] node_key) (new_core node_store))\<lparr>co_store := s\<rparr>)))\<lparr>co_connections := [id_a \<mapsto> 7]\<rparr>)"
    using s by (simp add: node_up_def core_step_def core_admissible_def new_core_def authenticate_def trusting_def sample_check
        register_socket_def new_connection_def Let_def set_phase_def set_socket_def)
  show "co_connections node_up id_a = Some 7" "co_sockets node_up 7 = Some (new_connection id_a)"
    "co_closing node_up = []" "\<exists>r. live_row id_a (co_store node_up) = Some r"
    "co_phases node_up 7 = Serving" "\<exists>r. computers (co_store node_up) = [r] \<and> live_node id_a r"
    using s unfolding up by (simp_all add: new_core_def)
qed

theorem one_connection_witness:
  "core_connection id_a node_up = Inr 7 \<and> (\<exists>c. co_sockets node_up 7 = Some c \<and> cn_node c = id_a \<and> \<not> cn_closed c)"
proof -
  have "core_connection id_a node_up = Inr 7"
    using node_up_shape(1,4) by (auto simp: core_connection_def validate_node_id_def ids)
  with one_open_connection_per_node [OF node_store_ok node_up_def, of id_a 7] show ?thesis by blast
qed

theorem cut_off_witness:
  "\<exists>c s1 g2. revoke_node 700 id_a (co_store node_up) = Inr (c, s1)
    \<and> core_revoke id_a (node_up\<lparr>co_store := s1\<rparr>) = Inr g2
    \<and> co_connections (fold (core_step trusting) [Leave 7, Challenge [121] 2 id_a, Register 2] g2) id_a = None
    \<and> (\<exists>d. co_sockets g2 7 = Some d \<and> cn_closed d)"
proof -
  obtain r where row: "computers (co_store node_up) = [r]" "live_node id_a r" using node_up_shape(6) by blast
  then obtain c s1 where r: "revoke_node 700 id_a (co_store node_up) = Inr (c, s1)"
    by (auto simp: revoke_node_def rowcount_def set_computer_def get_computer_def live_node_def Let_def)
  let ?g1 = "node_up\<lparr>co_store := s1\<rparr>"
  obtain g2 where g2: "core_revoke id_a ?g1 = Inr g2" "co_sockets g2 7 = Some (close_connection (u ''Node revoked'') (new_connection id_a))"
    using node_up_shape(1,2) by (simp add: core_revoke_def validate_node_id_def ids)
  have "co_connections (fold (core_step trusting) [Leave 7, Challenge [121] 2 id_a, Register 2] g2) id_a = None"
    by (rule revoked_node_is_cut_off [where ?ops1.0 = "[]" and v = trusting, OF node_store_ok node_up_def r _ g2(1) refl, THEN conjunct1]) simp_all
  with r g2 show ?thesis by auto
qed

end
