(* ===== verification/Python_Float.thy ===== *)
theory Python_Float
  imports Complex_Main Json
begin

text \<open>
  Python's \<^verbatim>\<open>float\<close> (IEEE 754 binary64) as an exact rational or one of the special values, for the CPU percentages
  of \<^verbatim>\<open>termroom/workspace_usage.py\<close>: rounding to the nearest double with ties to even, \<^verbatim>\<open>float(text)\<close>, \<^verbatim>\<open>sum()\<close> of
  floats (compensated, as the supported interpreters compute it), and \<^verbatim>\<open>round(x, 1)\<close>. The sign of a zero is not
  kept: no comparison can see it.
\<close>

datatype pyfloat = Finite rat | Infinite bool | Not_Number

section \<open>Rounding\<close>

fun bit_count :: "nat \<Rightarrow> nat" where
  "bit_count n = (if n = 0 then 0 else Suc (bit_count (n div 2)))"

declare bit_count.simps [simp del]

definition power_two :: "int \<Rightarrow> rat" where
  "power_two e = (if 0 \<le> e then 2 ^ nat e else 1 / 2 ^ nat (- e))"

text \<open>The exponent of the binade of a positive rational: the greatest \<open>e\<close> with \<open>2 ^ e \<le> q\<close>.\<close>

definition binade :: "rat \<Rightarrow> int" where
  "binade q = (if 1 \<le> q then int (bit_count (nat \<lfloor>q\<rfloor>)) - 1 else - int (bit_count (nat (\<lceil>1 / q\<rceil> - 1))))"

definition half_even :: "rat \<Rightarrow> int" where
  "half_even x =
    (let f = \<lfloor>x\<rfloor>; d = x - of_int f in
     if d < 1 / 2 then f else if 1 / 2 < d then f + 1 else if even f then f else f + 1)"

text \<open>A double has 53 significant bits, and no bit below \<open>2 ^ -1074\<close>.\<close>

definition round_positive :: "rat \<Rightarrow> pyfloat" where
  "round_positive q =
    (let e = max (binade q - 52) (- 1074); r = of_int (half_even (q / power_two e)) * power_two e in
     if 2 ^ 1024 \<le> r then Infinite False else Finite r)"

definition negated :: "pyfloat \<Rightarrow> pyfloat" where
  "negated x = (case x of Finite q \<Rightarrow> Finite (- q) | Infinite b \<Rightarrow> Infinite (\<not> b) | Not_Number \<Rightarrow> Not_Number)"

definition round_double :: "rat \<Rightarrow> pyfloat" where
  "round_double q = (if q = 0 then Finite 0 else if 0 < q then round_positive q else negated (round_positive (- q)))"

lemma half_even_nonneg: "0 \<le> x \<Longrightarrow> 0 \<le> half_even x"
  by (auto simp: half_even_def Let_def)

lemma power_two_pos: "0 < power_two e"
  by (simp add: power_two_def)

lemma round_double_nonneg: "0 \<le> q \<Longrightarrow> round_double q = Infinite False \<or> (\<exists>r. 0 \<le> r \<and> round_double q = Finite r)"
proof (cases "q = 0")
  case False
  assume "0 \<le> q"
  with False have q: "0 < q" by simp
  let ?e = "max (binade q - 52) (- 1074)"
  have "0 \<le> q / power_two ?e" using q power_two_pos [of ?e] by simp
  then have "0 \<le> (of_int (half_even (q / power_two ?e)) :: rat)" by (simp add: half_even_nonneg)
  with power_two_pos [of ?e] have "0 \<le> of_int (half_even (q / power_two ?e)) * power_two ?e" by simp
  with q show ?thesis by (simp add: round_double_def round_positive_def Let_def del: zero_le_mult_iff)
qed (simp add: round_double_def)

section \<open>Arithmetic\<close>

definition is_finite :: "pyfloat \<Rightarrow> bool" where
  "is_finite x \<longleftrightarrow> (case x of Finite _ \<Rightarrow> True | _ \<Rightarrow> False)"

definition float_less :: "pyfloat \<Rightarrow> pyfloat \<Rightarrow> bool" where
  "float_less x y \<longleftrightarrow>
    (case (x, y) of
       (Finite a, Finite b) \<Rightarrow> a < b
     | (Finite _, Infinite n) \<Rightarrow> \<not> n
     | (Infinite n, Finite _) \<Rightarrow> n
     | (Infinite n, Infinite m) \<Rightarrow> n \<and> \<not> m
     | _ \<Rightarrow> False)"

definition float_abs :: "pyfloat \<Rightarrow> pyfloat" where
  "float_abs x = (case x of Finite a \<Rightarrow> Finite \<bar>a\<bar> | Infinite _ \<Rightarrow> Infinite False | Not_Number \<Rightarrow> Not_Number)"

definition float_at_least :: "pyfloat \<Rightarrow> pyfloat \<Rightarrow> bool" where
  "float_at_least x y \<longleftrightarrow> float_less y x \<or> (x = y \<and> x \<noteq> Not_Number)"

definition float_add :: "pyfloat \<Rightarrow> pyfloat \<Rightarrow> pyfloat" where
  "float_add x y =
    (case (x, y) of
       (Finite a, Finite b) \<Rightarrow> round_double (a + b)
     | (Infinite n, Infinite m) \<Rightarrow> if n = m then Infinite n else Not_Number
     | (Infinite n, Finite _) \<Rightarrow> Infinite n
     | (Finite _, Infinite n) \<Rightarrow> Infinite n
     | _ \<Rightarrow> Not_Number)"

definition float_sub :: "pyfloat \<Rightarrow> pyfloat \<Rightarrow> pyfloat" where
  "float_sub x y = float_add x (negated y)"

text \<open>\<^verbatim>\<open>sum(floats)\<close> of a non-empty sequence: the running sum and Neumaier's compensation.\<close>

fun compensated :: "pyfloat \<Rightarrow> pyfloat \<Rightarrow> pyfloat list \<Rightarrow> pyfloat" where
  "compensated s c [] = (if is_finite c \<and> c \<noteq> Finite 0 then float_add s c else s)"
| "compensated s c (x # xs) =
    (let t = float_add s x;
         d = (if float_at_least (float_abs s) (float_abs x) then float_add (float_sub s t) x
              else float_add (float_sub x t) s)
     in compensated t (float_add c d) xs)"

definition float_sum :: "pyfloat list \<Rightarrow> pyfloat" where
  "float_sum xs = (case xs of [] \<Rightarrow> Finite 0 | x # ys \<Rightarrow> compensated (float_add (Finite 0) x) (Finite 0) ys)"

definition round_tenth :: "rat \<Rightarrow> pyfloat" where
  "round_tenth q = round_double (of_int (half_even (10 * q)) / 10)"

definition truncated :: "rat \<Rightarrow> int" where
  "truncated q = (if 0 \<le> q then \<lfloor>q\<rfloor> else \<lceil>q\<rceil>)"

text \<open>The double that a bit pattern stands for.\<close>

definition float_of_bits :: "64 word \<Rightarrow> pyfloat" where
  "float_of_bits w =
    (let bits = unat w; negative = (2 ^ 63 \<le> bits); e = bits div 2 ^ 52 mod 2 ^ 11; m = bits mod 2 ^ 52;
         magnitude = rat_of_nat (if e = 0 then m else 2 ^ 52 + m) * power_two (int (max 1 e) - 1075)
     in if e = 2047 then (if m = 0 then Infinite negative else Not_Number)
        else Finite (if negative then - magnitude else magnitude))"

section \<open>Reading\<close>

text \<open>\<^verbatim>\<open>float(text)\<close>: digits of any script and Unicode spaces become ASCII; underscores stand only between digits.
  (For an exponent beyond 19999 in size the interpreter reads 19999; the rounded value is the same.)\<close>

definition float_char :: "(nat \<Rightarrow> nat option) \<Rightarrow> nat \<Rightarrow> nat" where
  "float_char decimal c =
    (if c < 127 then c else if is_space c then 32
     else (case decimal c of Some d \<Rightarrow> 48 + d | None \<Rightarrow> 63))"

definition c_space :: "nat \<Rightarrow> bool" where
  "c_space c \<longleftrightarrow> 9 \<le> c \<and> c \<le> 13 \<or> c = 32"

fun drop_underscores :: "nat \<Rightarrow> ustr \<Rightarrow> ustr option" where
  "drop_underscores prev [] = (if prev = 95 then None else Some [])"
| "drop_underscores prev (c # cs) =
    (if c = 95 then (if is_digit prev then drop_underscores c cs else None)
     else if prev = 95 \<and> \<not> is_digit c then None
     else map_option ((#) c) (drop_underscores c cs))"

definition signed_part :: "ustr \<Rightarrow> bool \<times> ustr" where
  "signed_part s = (if s \<noteq> [] \<and> hd s = 45 then (True, tl s) else if s \<noteq> [] \<and> hd s = 43 then (False, tl s) else (False, s))"

definition exponent_part :: "ustr \<Rightarrow> int option" where
  "exponent_part s =
    (if s = [] then Some 0
     else if hd s = 101 \<or> hd s = 69
     then (let (negative, ds) = signed_part (tl s); n = int (digits_value (map (\<lambda>c. c - 48) ds)) in
           if ds \<noteq> [] \<and> list_all is_digit ds then Some (if negative then - n else n) else None)
     else None)"

definition decimal_part :: "ustr \<Rightarrow> rat option" where
  "decimal_part s =
    (let whole = takeWhile is_digit s; r = dropWhile is_digit s;
         fraction = (if r \<noteq> [] \<and> hd r = 46 then takeWhile is_digit (tl r) else []);
         r' = (if r \<noteq> [] \<and> hd r = 46 then dropWhile is_digit (tl r) else r);
         digits = whole @ fraction
     in if digits = [] then None
        else (case exponent_part r' of
                None \<Rightarrow> None
              | Some e \<Rightarrow>
                  (let p = e - int (length fraction); n = rat_of_nat (digits_value (map (\<lambda>c. c - 48) digits)) in
                   Some (if 0 \<le> p then n * 10 ^ nat p else n / 10 ^ nat (- p)))))"

definition py_float :: "(nat \<Rightarrow> nat option) \<Rightarrow> ustr \<Rightarrow> pyfloat option" where
  "py_float decimal s =
    (let t = map (float_char decimal) s;
         t = rev (dropWhile c_space (rev (dropWhile c_space t)))
     in case drop_underscores 0 t of
          None \<Rightarrow> None
        | Some body \<Rightarrow>
            (let (negative, r) = signed_part body; lower = nocase r in
             if lower \<in> {u ''inf'', u ''infinity''} then Some (Infinite negative)
             else if lower = u ''nan'' then Some Not_Number
             else map_option (\<lambda>q. if negative then negated (round_double q) else round_double q) (decimal_part r)))"


end
