(* ===== verification/Workspace_Usage.thy ===== *)
theory Workspace_Usage
  imports Python_Float
begin

text \<open>
  The measurement of a Workspace's processes (\<^verbatim>\<open>termroom/workspace_usage.py\<close>): reading the pane and process
  snapshots, adding up the process trees below the panes, and the values that cross to a Node and back. A Python
  set is the list of its members in insertion order; where the order of iteration can be seen (the sum of the
  floats) it is the argument \<open>set_order\<close>. \<open>digit\<close> is \<^verbatim>\<open>str.isdigit\<close> of one character.
\<close>

definition max_workspace_panes :: nat where "max_workspace_panes = 4096"
definition max_process_rows :: nat where "max_process_rows = 200000"

datatype usage_state = Fresh | Stale | Unavailable | Offline

text \<open>\<open>Collection_Failed\<close> is the exception class with the state and code that its subclasses set.\<close>

datatype usage_exn = Collection_Failed usage_state string | Value_Error | Overflow_Error

definition usage_unavailable :: "string \<Rightarrow> usage_exn" where
  "usage_unavailable code = Collection_Failed Unavailable code"

definition usage_offline :: usage_exn where "usage_offline = Collection_Failed Offline ''remote_offline''"
definition usage_stale :: usage_exn where "usage_stale = Collection_Failed Stale ''refresh_incomplete''"

record process_record =
  pr_pid :: int
  pr_parent :: int
  pr_cpu :: pyfloat
  pr_rss :: int

record raw_usage =
  ru_cpu :: pyfloat
  ru_memory :: int
  ru_count :: int

section \<open>Snapshots\<close>

text \<open>\<^verbatim>\<open>text.splitlines()\<close>: a carriage return and the line feed after it end one line.\<close>

definition is_line_break :: "nat \<Rightarrow> bool" where
  "is_line_break c \<longleftrightarrow> 10 \<le> c \<and> c \<le> 13 \<or> 28 \<le> c \<and> c \<le> 30 \<or> c = 0x85 \<or> c = 0x2028 \<or> c = 0x2029"

fun splitlines_aux :: "ustr \<Rightarrow> ustr \<Rightarrow> ustr list" where
  "splitlines_aux acc [] = (if acc = [] then [] else [rev acc])"
| "splitlines_aux acc [c] = (if is_line_break c then [rev acc] else [rev (c # acc)])"
| "splitlines_aux acc (c # d # cs) =
    (if c = 13 \<and> d = 10 then rev acc # splitlines_aux [] cs
     else if is_line_break c then rev acc # splitlines_aux [] (d # cs)
     else splitlines_aux (c # acc) (d # cs))"

definition splitlines :: "ustr \<Rightarrow> ustr list" where
  "splitlines s = splitlines_aux [] s"

definition add_pane :: "(nat \<Rightarrow> bool) \<Rightarrow> (nat \<Rightarrow> nat option) \<Rightarrow> ustr \<Rightarrow> int list \<Rightarrow> usage_exn + int list" where
  "add_pane digit decimal line panes =
    (let val = strip line in
     if val = [] then Inr panes
     else if \<not> list_all digit val then Inl (usage_unavailable ''pane_snapshot_invalid'')
     else (case py_int decimal val of
             None \<Rightarrow> Inl Value_Error
           | Some pid \<Rightarrow>
               if pid \<le> 0 then Inl (usage_unavailable ''pane_snapshot_invalid'')
               else let panes' = (if pid \<in> set panes then panes else panes @ [pid]) in
                    if max_workspace_panes < length panes' then Inl (usage_unavailable ''pane_snapshot_too_large'')
                    else Inr panes'))"

definition parse_pane_pids :: "(nat \<Rightarrow> bool) \<Rightarrow> (nat \<Rightarrow> nat option) \<Rightarrow> ustr \<Rightarrow> usage_exn + int list" where
  "parse_pane_pids digit decimal output =
    rbind (each (add_pane digit decimal) (splitlines output) []) (\<lambda>panes.
      if panes = [] then Inl (usage_unavailable ''pane_snapshot_empty'') else Inr panes)"

text \<open>The fields of a row, \<^verbatim>\<open>None\<close> where a conversion raises or a check fails.\<close>

definition process_fields :: "(nat \<Rightarrow> nat option) \<Rightarrow> ustr list \<Rightarrow> process_record option" where
  "process_fields decimal parts =
    (case parts of
       [a, b, c, d] \<Rightarrow>
         (case (py_int decimal a, py_int decimal b, py_float decimal c, py_int decimal d) of
            (Some pid, Some parent, Some cpu, Some rss) \<Rightarrow>
              if pid \<le> 0 \<or> parent < 0 \<or> \<not> is_finite cpu \<or> float_less cpu (Finite 0) \<or> rss < 0 then None
              else Some \<lparr>pr_pid = pid, pr_parent = parent, pr_cpu = cpu, pr_rss = rss\<rparr>
          | _ \<Rightarrow> None)
     | _ \<Rightarrow> None)"

definition add_process :: "(nat \<Rightarrow> nat option) \<Rightarrow> ustr \<Rightarrow> process_record list \<Rightarrow> usage_exn + process_record list" where
  "add_process decimal line records =
    (if strip line = [] then Inr records
     else if max_process_rows \<le> length records then Inl (usage_unavailable ''process_snapshot_too_large'')
     else (case process_fields decimal (split_ws line) of
             None \<Rightarrow> Inl (usage_unavailable ''process_snapshot_invalid'')
           | Some r \<Rightarrow> if pr_pid r \<in> pr_pid ` set records then Inl (usage_unavailable ''process_snapshot_invalid'')
                       else Inr (records @ [r])))"

definition parse_process_records :: "(nat \<Rightarrow> nat option) \<Rightarrow> ustr \<Rightarrow> usage_exn + process_record list" where
  "parse_process_records decimal output =
    rbind (each (add_process decimal) (splitlines output) []) (\<lambda>records.
      if records = [] then Inl (usage_unavailable ''process_snapshot_empty'') else Inr records)"

section \<open>Adding up\<close>

definition validate_raw_workspace_usage :: "raw_usage \<Rightarrow> usage_exn + raw_usage" where
  "validate_raw_workspace_usage v =
    (if \<not> is_finite (ru_cpu v) \<or> float_less (ru_cpu v) (Finite 0) \<or> float_less (Finite 1000000) (ru_cpu v)
        \<or> ru_memory v < 0 \<or> ru_memory v > 2 ^ 63 - 1
        \<or> ru_count v < 0 \<or> ru_count v > int max_process_rows
     then Inl (usage_unavailable ''response_invalid'') else Inr v)"

definition child_pids :: "process_record list \<Rightarrow> int \<Rightarrow> int list" where
  "child_pids records pid = dict_keys (map pr_pid (filter (\<lambda>r. pr_parent r = pid) records))"

lemma set_child_pids: "set (child_pids records pid) \<subseteq> pr_pid ` set records"
  by (auto simp: child_pids_def)

text \<open>The loop over \<^verbatim>\<open>pending\<close>, whose top is the head of the list. A parent may be its own descendant in a
  snapshot: a process that has been selected is not expanded again.\<close>

definition open_pids :: "process_record list \<Rightarrow> int list \<Rightarrow> int list \<Rightarrow> int set" where
  "open_pids records pending selected = (set pending \<union> pr_pid ` set records) - set selected"

function select_tree :: "process_record list \<Rightarrow> int list \<Rightarrow> int list \<Rightarrow> int list" where
  "select_tree records [] selected = selected"
| "select_tree records (pid # pending) selected =
    (if pid \<in> set selected then select_tree records pending selected
     else select_tree records (rev (child_pids records pid) @ pending) (selected @ [pid]))"
  by pat_completeness auto
termination
proof (relation "(\<lambda>(records, pending, selected). card (open_pids records pending selected)) <*mlex*>
    measure (\<lambda>(records, pending, selected). length pending)", goal_cases)
  case 1
  show ?case by (rule wf_mlex) (rule wf_measure)
next
  case (2 records pid pending selected)
  then have "open_pids records pending selected = open_pids records (pid # pending) selected" by (auto simp: open_pids_def)
  then show ?case by (intro mlex_leq) simp_all
next
  case (3 records pid pending selected)
  let ?before = "open_pids records (pid # pending) selected"
  have "set (child_pids records pid) \<subseteq> pr_pid ` set records" by (rule set_child_pids)
  then have "open_pids records (rev (child_pids records pid) @ pending) (selected @ [pid]) \<subseteq> ?before - {pid}"
    unfolding open_pids_def set_append set_rev list.set by blast
  moreover have "pid \<in> ?before" using 3 by (simp add: open_pids_def)
  ultimately have "open_pids records (rev (child_pids records pid) @ pending) (selected @ [pid]) \<subset> ?before" by blast
  moreover have "finite ?before" by (simp add: open_pids_def)
  ultimately show ?case by (intro mlex_less) (simp add: psubset_card_mono)
qed

definition aggregate_workspace_usage :: "(int list \<Rightarrow> int list) \<Rightarrow> int list \<Rightarrow> process_record list \<Rightarrow> usage_exn + raw_usage" where
  "aggregate_workspace_usage set_order panes records =
    (let roots = dict_keys (filter (\<lambda>p. 0 < p) panes);
         selected = select_tree records (rev (set_order roots)) [];
         measured = List.map_filter (\<lambda>pid. find (\<lambda>r. pr_pid r = pid) records) (set_order selected)
     in if roots = [] then Inl (usage_unavailable ''pane_snapshot_empty'')
        else if measured = [] then Inl (usage_unavailable ''process_snapshot_incomplete'')
        else validate_raw_workspace_usage
               \<lparr>ru_cpu = float_sum (map pr_cpu measured),
                ru_memory = sum_list (map pr_rss measured) * 1024,
                ru_count = int (length measured)\<rparr>)"

definition workspace_usage_from_outputs ::
  "(nat \<Rightarrow> bool) \<Rightarrow> (nat \<Rightarrow> nat option) \<Rightarrow> (int list \<Rightarrow> int list) \<Rightarrow> ustr \<Rightarrow> ustr \<Rightarrow> usage_exn + raw_usage" where
  "workspace_usage_from_outputs digit decimal set_order pane_output process_output =
    rbind (parse_pane_pids digit decimal pane_output) (\<lambda>panes.
    rbind (parse_process_records decimal process_output) (\<lambda>records.
      aggregate_workspace_usage set_order panes records))"

section \<open>Values from other computers\<close>

definition panes_marker :: ustr where "panes_marker = u ''__TERMROOM_WORKSPACE_USAGE_PANES_V1__''"
definition processes_marker :: ustr where "processes_marker = u ''__TERMROOM_WORKSPACE_USAGE_PROCESSES_V1__''"

text \<open>\<^verbatim>\<open>s.count(sub)\<close> counts occurrences that do not overlap; \<^verbatim>\<open>s.split(sub, 1)\<close> cuts at the first one.\<close>

fun count_sub :: "ustr \<Rightarrow> ustr \<Rightarrow> nat" where
  "count_sub sub [] = 0"
| "count_sub sub (c # cs) =
    (if starts_with sub (c # cs) then Suc (count_sub sub (drop (length sub - 1) cs)) else count_sub sub cs)"

fun split_once :: "ustr \<Rightarrow> ustr \<Rightarrow> ustr \<times> ustr" where
  "split_once sub [] = ([], [])"
| "split_once sub (c # cs) =
    (if starts_with sub (c # cs) then ([], drop (length sub) (c # cs))
     else (case split_once sub cs of (a, b) \<Rightarrow> (c # a, b)))"

definition split_remote_workspace_usage_output :: "ustr \<Rightarrow> usage_exn + ustr \<times> ustr" where
  "split_remote_workspace_usage_output output =
    (let pane_marker = panes_marker @ [10]; process_marker = processes_marker @ [10] in
     if \<not> starts_with pane_marker output \<or> count_sub process_marker output \<noteq> 1
     then Inl (usage_unavailable ''process_snapshot_invalid'')
     else Inr (split_once process_marker (drop (length pane_marker) output)))"

text \<open>What \<^verbatim>\<open>ps\<close> may do: not be there, or end with a status and its output.\<close>

datatype ps_result = Ps_Missing | Ps_Exit int ustr

definition read_system_process_output :: "ps_result \<Rightarrow> usage_exn + ustr" where
  "read_system_process_output ps =
    (case ps of
       Ps_Missing \<Rightarrow> Inl (usage_unavailable ''process_tool_missing'')
     | Ps_Exit code out \<Rightarrow> if code \<noteq> 0 then Inl (usage_unavailable ''process_snapshot_failed'') else Inr out)"

definition raw_workspace_usage_payload :: "raw_usage \<Rightarrow> usage_exn + (ustr \<times> pyfloat) \<times> (ustr \<times> int) list" where
  "raw_workspace_usage_payload v =
    rbind (validate_raw_workspace_usage v) (\<lambda>x.
      Inr ((u ''cpu_percent'', ru_cpu x), [(u ''memory_bytes'', ru_memory x), (u ''process_count'', ru_count x)]))"

text \<open>\<^verbatim>\<open>float(n)\<close> of an integer raises \<^verbatim>\<open>OverflowError\<close> where it rounds to infinity, which nothing catches here.\<close>

definition json_number :: "json \<Rightarrow> (usage_exn + pyfloat) option" where
  "json_number j =
    (case j of
       JInt i \<Rightarrow> Some (let x = round_double (of_int i) in if is_finite x then Inr x else Inl Overflow_Error)
     | JFloat w \<Rightarrow> Some (Inr (float_of_bits w))
     | _ \<Rightarrow> None)"

definition parse_raw_workspace_usage :: "json \<Rightarrow> usage_exn + raw_usage" where
  "parse_raw_workspace_usage j =
    (let invalid = Inl (usage_unavailable ''response_invalid'') in
     case j of
       JObj es \<Rightarrow>
         (case (Option.bind (map_of es (u ''cpu_percent'')) json_number, map_of es (u ''memory_bytes''), map_of es (u ''process_count'')) of
            (Some cpu, Some (JInt memory), Some (JInt count)) \<Rightarrow>
              rbind cpu (\<lambda>x. validate_raw_workspace_usage \<lparr>ru_cpu = x, ru_memory = memory, ru_count = count\<rparr>)
          | _ \<Rightarrow> invalid)
     | _ \<Rightarrow> invalid)"

end
