(* ===== verification/Usage_Service.thy ===== *)
theory Usage_Service
  imports Workspace_Usage
begin

text \<open>
  \<open>WorkspaceUsageService\<close> of \<^verbatim>\<open>termroom/workspace_usage.py\<close>: the bounded cache of observations and the shared
  collections. Each operation is what runs between two suspensions of the event loop (the lock is never held
  across one): the call of \<open>observe\<close> up to the await of the task, the end of a task, and \<open>record_failure\<close>.
  The monotonic clock and the wall clock are arguments; a task is known by a number.
\<close>

record usage_sample =
  us_cpu :: pyfloat
  us_memory :: int
  us_count :: int
  us_observed :: int

record usage_view =
  uv_state :: usage_state
  uv_sample :: "usage_sample option"
  uv_observed :: "int option"
  uv_checked :: int
  uv_reason :: "string option"

record cache_entry =
  ce_view :: usage_view
  ce_cached :: int
  ce_last :: "usage_sample option"

text \<open>The cache is an \<^verbatim>\<open>OrderedDict\<close>, least recently used first; \<open>sv_tasks\<close> are the running collections.\<close>

record usage_service =
  sv_fresh :: int
  sv_retry :: int
  sv_max :: nat
  sv_cache :: "(ustr \<times> cache_entry) list"
  sv_inflight :: "ustr \<rightharpoonup> nat"
  sv_tasks :: "nat \<rightharpoonup> ustr"

definition default_fresh_seconds :: int where "default_fresh_seconds = 5"
definition default_retry_seconds :: int where "default_retry_seconds = 5"
definition default_max_cache_entries :: nat where "default_max_cache_entries = 256"

definition new_usage_service :: "int \<Rightarrow> int \<Rightarrow> int \<Rightarrow> usage_exn + usage_service" where
  "new_usage_service fresh retry entries =
    (if fresh < 0 \<or> retry < 0 \<or> entries < 1 then Inl Value_Error
     else Inr \<lparr>sv_fresh = fresh, sv_retry = retry, sv_max = nat entries, sv_cache = [],
               sv_inflight = Map.empty, sv_tasks = Map.empty\<rparr>)"

definition move_to_end :: "ustr \<Rightarrow> cache_entry \<Rightarrow> (ustr \<times> cache_entry) list \<Rightarrow> (ustr \<times> cache_entry) list" where
  "move_to_end w e c = filter (\<lambda>p. fst p \<noteq> w) c @ [(w, e)]"

definition store_view :: "ustr \<Rightarrow> usage_view \<Rightarrow> usage_sample option \<Rightarrow> int \<Rightarrow> usage_service \<Rightarrow> usage_service" where
  "store_view w view known mono_now s =
    (let c = move_to_end w \<lparr>ce_view = view, ce_cached = mono_now, ce_last = known\<rparr> (sv_cache s) in
     s\<lparr>sv_cache := drop (length c - sv_max s) c\<rparr>)"

definition failure_view :: "usage_state \<Rightarrow> string \<Rightarrow> usage_sample option \<Rightarrow> int \<Rightarrow> usage_view" where
  "failure_view state code known checked =
    \<lparr>uv_state = (if state = Stale \<and> known = None then Unavailable else state), uv_sample = None,
     uv_observed = map_option us_observed known, uv_checked = checked, uv_reason = Some code\<rparr>"

definition last_sample :: "ustr \<Rightarrow> usage_service \<Rightarrow> usage_sample option" where
  "last_sample w s = Option.bind (map_of (sv_cache s) w) ce_last"

definition record_failure :: "ustr \<Rightarrow> usage_state \<Rightarrow> string \<Rightarrow> int \<Rightarrow> int \<Rightarrow> usage_service \<Rightarrow> usage_view \<times> usage_service" where
  "record_failure w state code utc mono_now s =
    (let known = last_sample w s; view = failure_view state code known utc in
     (view, store_view w view known mono_now s))"

datatype observation = Cached usage_view | Awaiting nat

definition observe :: "ustr \<Rightarrow> nat \<Rightarrow> int \<Rightarrow> usage_service \<Rightarrow> usage_exn + observation \<times> usage_service" where
  "observe w fresh_task mono_now s =
    (if w = [] then Inl Value_Error
     else (let start =
             (case sv_inflight s w of
                Some t \<Rightarrow> Inr (Awaiting t, s)
              | None \<Rightarrow> Inr (Awaiting fresh_task,
                  s\<lparr>sv_inflight := (sv_inflight s)(w \<mapsto> fresh_task), sv_tasks := (sv_tasks s)(fresh_task \<mapsto> w)\<rparr>))
           in case map_of (sv_cache s) w of
                None \<Rightarrow> start
              | Some e \<Rightarrow>
                  (let ttl = (if uv_state (ce_view e) = Fresh then sv_fresh s else sv_retry s) in
                   if uv_state (ce_view e) \<noteq> Offline \<and> mono_now - ce_cached e \<le> ttl
                   then Inr (Cached (ce_view e), s\<lparr>sv_cache := move_to_end w e (sv_cache s)\<rparr>)
                   else start)))"

definition sample_of :: "raw_usage \<Rightarrow> int \<Rightarrow> usage_sample" where
  "sample_of raw utc = \<lparr>us_cpu = ru_cpu raw, us_memory = ru_memory raw, us_count = ru_count raw, us_observed = utc\<rparr>"

definition fresh_view :: "usage_sample \<Rightarrow> usage_view" where
  "fresh_view x = \<lparr>uv_state = Fresh, uv_sample = Some x, uv_observed = Some (us_observed x), uv_checked = us_observed x, uv_reason = None\<rparr>"

text \<open>The end of \<open>_collect\<close> once the collector has returned or raised; another exception reaches the callers.\<close>

definition collect_result :: "ustr \<Rightarrow> usage_exn + raw_usage \<Rightarrow> int \<Rightarrow> int \<Rightarrow> usage_service \<Rightarrow> (usage_exn + usage_view) \<times> usage_service" where
  "collect_result w outcome utc mono_now s =
    (case rbind outcome validate_raw_workspace_usage of
       Inr raw \<Rightarrow> (let x = sample_of raw utc in (Inr (fresh_view x), store_view w (fresh_view x) (Some x) mono_now s))
     | Inl (Collection_Failed state code) \<Rightarrow> (case record_failure w state code utc mono_now s of (v, s') \<Rightarrow> (Inr v, s'))
     | Inl e \<Rightarrow> (Inl e, s))"

definition end_task :: "nat \<Rightarrow> ustr \<Rightarrow> usage_service \<Rightarrow> usage_service" where
  "end_task t w s =
    s\<lparr>sv_inflight := (if sv_inflight s w = Some t then (sv_inflight s)(w := None) else sv_inflight s),
      sv_tasks := (sv_tasks s)(t := None)\<rparr>"

definition finish_collect ::
  "nat \<Rightarrow> usage_exn + raw_usage \<Rightarrow> int \<Rightarrow> int \<Rightarrow> usage_service \<Rightarrow> ((usage_exn + usage_view) \<times> usage_service) option" where
  "finish_collect t outcome utc mono_now s =
    (case sv_tasks s t of
       None \<Rightarrow> None
     | Some w \<Rightarrow> (case collect_result w outcome utc mono_now s of (r, s') \<Rightarrow> Some (r, end_task t w s')))"

section \<open>What the browser is told\<close>

record sample_payload =
  sp_cpu :: pyfloat
  sp_memory :: int
  sp_count :: int
  sp_observed :: ustr

record view_payload =
  vp_state :: usage_state
  vp_sample :: "sample_payload option"
  vp_observed :: "ustr option"
  vp_checked :: ustr
  vp_age :: "int option"
  vp_reason :: "string option"

text \<open>Instants are microseconds; \<open>iso_text\<close> is their ISO 8601 form. \<^verbatim>\<open>total_seconds()\<close> is a division of floats.\<close>

definition age_seconds :: "int \<Rightarrow> int \<Rightarrow> int" where
  "age_seconds now observed =
    max 0 (case round_double (of_int (now - observed) / 1000000) of Finite q \<Rightarrow> truncated q | _ \<Rightarrow> 0)"

definition rounded_cpu :: "pyfloat \<Rightarrow> pyfloat" where
  "rounded_cpu x = (case x of Finite q \<Rightarrow> round_tenth q | _ \<Rightarrow> x)"

definition payload :: "(int \<Rightarrow> ustr) \<Rightarrow> int \<Rightarrow> usage_view \<Rightarrow> view_payload" where
  "payload iso_text now v =
    (let observed = (case uv_sample v of Some x \<Rightarrow> Some (us_observed x) | None \<Rightarrow> uv_observed v) in
     \<lparr>vp_state = uv_state v,
      vp_sample = (if uv_state v = Fresh
                   then map_option (\<lambda>x. \<lparr>sp_cpu = rounded_cpu (us_cpu x), sp_memory = us_memory x, sp_count = us_count x,
                                         sp_observed = iso_text (us_observed x)\<rparr>) (uv_sample v)
                   else None),
      vp_observed = map_option iso_text observed, vp_checked = iso_text (uv_checked v),
      vp_age = map_option (age_seconds now) observed, vp_reason = uv_reason v\<rparr>)"

end
