(* ===== verification/Usage_Properties.thy ===== *)
theory Usage_Properties
  imports Usage_Service
begin

text \<open>
  What a measurement covers (the processes below the panes, each once), which snapshots are accepted, and what
  the cache of observations keeps: one collection per Workspace, a bounded cache, and views that say no more than
  was measured. The service is interpreted as a \<open>machine\<close>.
\<close>

section \<open>Process trees\<close>

text \<open>The reference: a process is below the panes when it is one of them or its parent is.\<close>

inductive below :: "process_record list \<Rightarrow> int set \<Rightarrow> int \<Rightarrow> bool" for records panes where
  below_pane: "p \<in> panes \<Longrightarrow> below records panes p"
| below_child: "below records panes (pr_parent r) \<Longrightarrow> r \<in> set records \<Longrightarrow> below records panes (pr_pid r)"

lemma select_tree_distinct: "distinct selected \<Longrightarrow> distinct (select_tree records pending selected)"
  by (induction records pending selected rule: select_tree.induct) auto

lemma select_tree_sound:
  assumes "\<forall>p \<in> set pending \<union> set selected. below records panes p"
  shows "\<forall>p \<in> set (select_tree records pending selected). below records panes p"
  using assms
proof (induction records pending selected rule: select_tree.induct)
  case (2 records pid pending selected)
  then show ?case
  proof (cases "pid \<in> set selected")
    case False
    have "\<forall>p \<in> set (child_pids records pid). below records panes p"
      using 2(3) by (auto simp: child_pids_def intro: below_child)
    then have "\<forall>p \<in> set (rev (child_pids records pid) @ pending) \<union> set (selected @ [pid]). below records panes p"
      using 2(3) by (simp add: ball_Un)
    from 2(2) [OF False this] False show ?thesis by simp
  qed simp
qed simp

lemma select_tree_complete:
  assumes "\<forall>p \<in> set selected. set (child_pids records p) \<subseteq> set selected \<union> set pending"
  shows "set pending \<union> set selected \<subseteq> set (select_tree records pending selected)
    \<and> (\<forall>p \<in> set (select_tree records pending selected). set (child_pids records p) \<subseteq> set (select_tree records pending selected))"
  using assms
proof (induction records pending selected rule: select_tree.induct)
  case (2 records pid pending selected)
  show ?case
  proof (cases "pid \<in> set selected")
    case True
    with 2(3) have "\<forall>p \<in> set selected. set (child_pids records p) \<subseteq> set selected \<union> set pending" by auto
    with 2(1) [OF True] True show ?thesis by auto
  next
    case False
    from 2(3) have "\<forall>p \<in> set (selected @ [pid]). set (child_pids records p)
        \<subseteq> set (selected @ [pid]) \<union> set (rev (child_pids records pid) @ pending)" by auto
    with 2(2) [OF False] False show ?thesis by auto
  qed
qed simp

lemma select_tree_below:
  "set (select_tree records pending []) = {p. below records (set pending) p}"
proof (intro equalityI subsetI CollectI)
  let ?t = "select_tree records pending []"
  show "below records (set pending) p" if "p \<in> set ?t" for p
    using select_tree_sound [of pending "[]" records "set pending"] that by (auto intro: below_pane)
  have closed: "set pending \<subseteq> set ?t" "\<forall>p \<in> set ?t. set (child_pids records p) \<subseteq> set ?t"
    using select_tree_complete [of "[]" records pending] by auto
  show "p \<in> set ?t" if "p \<in> {p. below records (set pending) p}" for p
    using that [unfolded mem_Collect_eq]
  proof (induction rule: below.induct)
    case (below_child r)
    then have "pr_pid r \<in> set (child_pids records (pr_parent r))" by (auto simp: child_pids_def)
    with closed(2) below_child show ?case by blast
  qed (use closed(1) in blast)
qed

definition measured_records :: "process_record list \<Rightarrow> int list \<Rightarrow> process_record set" where
  "measured_records records panes = {r \<in> set records. below records {p \<in> set panes. 0 < p} (pr_pid r)}"

text \<open>A set is iterated in some order of its members.\<close>

definition iterates :: "(int list \<Rightarrow> int list) \<Rightarrow> bool" where
  "iterates set_order \<longleftrightarrow> (\<forall>xs. distinct xs \<longrightarrow> distinct (set_order xs) \<and> set (set_order xs) = set xs)"

lemma measured_list:
  assumes "distinct (map pr_pid records)" and "iterates set_order"
    and "measured = List.map_filter (\<lambda>pid. find (\<lambda>r. pr_pid r = pid) records)
      (set_order (select_tree records (rev (set_order (dict_keys (filter (\<lambda>p. 0 < p) panes)))) []))"
  shows "distinct measured" and "set measured = measured_records records panes"
proof -
  let ?roots = "dict_keys (filter (\<lambda>p. 0 < p) panes)"
  let ?tree = "select_tree records (rev (set_order ?roots)) []"
  let ?f = "\<lambda>pid. find (\<lambda>r. pr_pid r = pid) records"
  have found: "?f pid = Some r \<longleftrightarrow> r \<in> set records \<and> pr_pid r = pid" for pid r
    by (rule find_Some_iff_unique [OF assms(1)])
  have order: "distinct (set_order ?tree)" "set (set_order ?tree) = set ?tree"
    using assms(2) select_tree_distinct [of "[]"] by (auto simp: iterates_def)
  have "set (rev (set_order ?roots)) = {p \<in> set panes. 0 < p}"
    using assms(2) by (auto simp: iterates_def)
  then have tree: "set ?tree = {p. below records {p \<in> set panes. 0 < p} p}"
    using select_tree_below [of records "rev (set_order ?roots)"] by simp
  have mapped: "r \<in> set (List.map_filter ?f ps) \<longleftrightarrow> r \<in> set records \<and> pr_pid r \<in> set ps" for r ps
  proof -
    have "r \<in> set (List.map_filter ?f ps) \<longleftrightarrow> (\<exists>p \<in> set ps. ?f p = Some r)"
      by (induction ps) (auto simp: List.map_filter_simps split: option.splits)
    then show ?thesis by (auto simp: found)
  qed
  have "distinct (List.map_filter ?f ps)" if "distinct ps" for ps
    using that by (induction ps) (auto simp: List.map_filter_simps found mapped split: option.splits)
  with order(1) show "distinct measured" unfolding assms(3) by blast
  show "set measured = measured_records records panes"
    unfolding assms(3) measured_records_def by (rule set_eqI) (simp add: mapped order(2) tree)
qed

text \<open>C28: the measurement counts every process below the Workspace's panes exactly once, whatever the tables'
  order and also when the snapshot's parent links form a cycle, and adds up their resident memory; it is refused
  only when no pane is given, when none of the processes is there, or when a total is out of range.\<close>

theorem usage_measures_the_pane_processes:
  assumes "distinct (map pr_pid records)" and "iterates set_order"
  shows "case aggregate_workspace_usage set_order panes records of
      Inr v \<Rightarrow> ru_count v = int (card (measured_records records panes)) \<and> 0 < ru_count v
        \<and> ru_memory v = 1024 * (\<Sum>r \<in> measured_records records panes. pr_rss r)
    | Inl e \<Rightarrow> e = usage_unavailable ''pane_snapshot_empty'' \<and> \<not> (\<exists>p \<in> set panes. 0 < p)
        \<or> e = usage_unavailable ''process_snapshot_incomplete'' \<and> measured_records records panes = {}
        \<or> e = usage_unavailable ''response_invalid'' \<and> measured_records records panes \<noteq> {}"
proof -
  define measured where "measured = List.map_filter (\<lambda>pid. find (\<lambda>r. pr_pid r = pid) records)
      (set_order (select_tree records (rev (set_order (dict_keys (filter (\<lambda>p. 0 < p) panes)))) []))"
  note m = measured_list [OF assms measured_def]
  have count: "length measured = card (measured_records records panes)" using m distinct_card by metis
  have sum: "sum_list (map pr_rss measured) = (\<Sum>r \<in> measured_records records panes. pr_rss r)"
    using m by (metis sum_list_distinct_conv_sum_set)
  have roots: "dict_keys (filter (\<lambda>p. 0 < p) panes) = [] \<longleftrightarrow> \<not> (\<exists>p \<in> set panes. 0 < p)"
    by (metis (no_types, lifting) filter_empty_conv set_dict_keys set_empty)
  have none: "measured = [] \<longleftrightarrow> measured_records records panes = {}" using m(2) by auto
  show ?thesis
    using count sum roots none m(2) unfolding aggregate_workspace_usage_def measured_def [symmetric] Let_def
    by (auto simp: validate_raw_workspace_usage_def length_greater_0_conv)
qed

section \<open>Snapshots\<close>

lemma process_fields_ok:
  assumes "process_fields decimal parts = Some r"
  shows "0 < pr_pid r" "0 \<le> pr_parent r" "is_finite (pr_cpu r)" "0 \<le> pr_rss r"
  using assms by (auto simp: process_fields_def split: list.splits option.splits if_splits)

abbreviation row_fields :: "(nat \<Rightarrow> nat option) \<Rightarrow> ustr list \<Rightarrow> process_record option list" where
  "row_fields decimal lines \<equiv> map (\<lambda>l. process_fields decimal (split_ws l)) (filter (\<lambda>l. strip l \<noteq> []) lines)"

lemma add_processes_iff:
  assumes "distinct (map pr_pid acc)" and "length acc \<le> max_process_rows"
  shows "each (add_process decimal) lines acc = Inr rs \<longleftrightarrow>
    (\<exists>new. rs = acc @ new \<and> map Some new = row_fields decimal lines \<and> distinct (map pr_pid (acc @ new))
      \<and> length (acc @ new) \<le> max_process_rows)"
  using assms
proof (induction lines arbitrary: acc)
  case (Cons l lines)
  show ?case
  proof (cases "strip l = []")
    case True
    then show ?thesis using Cons by (simp add: add_process_def)
  next
    case False
    show ?thesis
    proof (cases "length acc < max_process_rows \<and> (\<exists>r. process_fields decimal (split_ws l) = Some r \<and> pr_pid r \<notin> pr_pid ` set acc)")
      case True
      then obtain r where r: "process_fields decimal (split_ws l) = Some r" "pr_pid r \<notin> pr_pid ` set acc" "length acc < max_process_rows"
        by blast
      then have "add_process decimal l acc = Inr (acc @ [r])" using False by (simp add: add_process_def)
      moreover have "distinct (map pr_pid (acc @ [r]))" "length (acc @ [r]) \<le> max_process_rows"
        using Cons.prems r by (auto simp: image_iff)
      note Cons.IH [OF this]
      moreover have "map Some new = Some r # xs \<longleftrightarrow> (\<exists>tail. new = r # tail \<and> map Some tail = xs)" for new xs
        by (cases new) auto
      ultimately show ?thesis using False r(1) by auto
    next
      case bad: False
      then have "isl (add_process decimal l acc)" using False
        by (cases "process_fields decimal (split_ws l)") (auto simp: add_process_def)
      then obtain e where "add_process decimal l acc = Inl e" by (auto simp: isl_def)
      then have stop: "each (add_process decimal) (l # lines) acc \<noteq> Inr rs" by simp
      have rows: "row_fields decimal (l # lines) = process_fields decimal (split_ws l) # row_fields decimal lines"
        using False by simp
      have none: "\<not> (map Some new = row_fields decimal (l # lines) \<and> distinct (map pr_pid (acc @ new))
          \<and> length (acc @ new) \<le> max_process_rows)" for new
        unfolding rows using bad by (cases new) auto
      show ?thesis using stop none by metis
    qed
  qed
qed auto

lemma add_processes_error: "each (add_process decimal) lines acc = Inl e \<Longrightarrow> \<exists>code. e = usage_unavailable code"
  by (induction lines arbitrary: acc) (auto simp: rbind_Inl_iff add_process_def split: if_splits option.splits)

text \<open>A process snapshot is accepted exactly when it has a row, every row that is not blank has four valid
  fields, no process occurs twice and there are at most 200000 of them; the records are then its rows in order.
  Every other snapshot is refused with a code, and no other exception leaves the parser.\<close>

theorem process_snapshot_accepted_iff_valid:
  "case parse_process_records decimal output of
     Inr rs \<Rightarrow> rs \<noteq> [] \<and> map Some rs = row_fields decimal (splitlines output) \<and> distinct (map pr_pid rs)
       \<and> length rs \<le> max_process_rows
   | Inl e \<Rightarrow> (\<exists>code. e = usage_unavailable code)
       \<and> \<not> (\<exists>rs. rs \<noteq> [] \<and> map Some rs = row_fields decimal (splitlines output) \<and> distinct (map pr_pid rs)
            \<and> length rs \<le> max_process_rows)"
proof -
  note iff = add_processes_iff [of "[]" decimal "splitlines output", simplified]
  show ?thesis
  proof (cases "each (add_process decimal) (splitlines output) []")
    case (Inl e)
    with iff add_processes_error [OF Inl] show ?thesis by (auto simp: parse_process_records_def)
  next
    case (Inr rs)
    with iff [of rs] have rs: "map Some rs = row_fields decimal (splitlines output)" "distinct (map pr_pid rs)" "length rs \<le> max_process_rows"
      by auto
    have unique: "rs' = rs" if "map Some rs' = row_fields decimal (splitlines output)" for rs'
      using that rs(1) by (metis inj_Some inj_map_eq_map)
    show ?thesis
    proof (cases "rs = []")
      case True
      with Inr have "parse_process_records decimal output = Inl (usage_unavailable ''process_snapshot_empty'')"
        by (simp add: parse_process_records_def)
      then show ?thesis using unique True by (simp only: sum.case) blast
    next
      case False
      with Inr have "parse_process_records decimal output = Inr rs" by (simp add: parse_process_records_def)
      then show ?thesis using rs False by (simp only: sum.case) blast
    qed
  qed
qed

text \<open>A character that \<^verbatim>\<open>isdigit\<close> accepts and \<^verbatim>\<open>int\<close> does not (a superscript) leaves the pane parser as a
  \<open>ValueError\<close> instead of the refusal with a code.\<close>

lemma superscript_pane_escapes:
  assumes "digit 178" and "decimal 178 = None"
  shows "parse_pane_pids digit decimal [178] = Inl Value_Error"
  using assms by (simp add: parse_pane_pids_def splitlines_def is_line_break_def add_pane_def strip_def is_space_def py_int_def)

section \<open>The cache of observations\<close>

datatype usage_op =
    Observe ustr nat int
  | Finish nat "usage_exn + raw_usage" int int
  | Fail ustr usage_state string int int

definition usage_exec :: "usage_op \<Rightarrow> usage_service \<Rightarrow> usage_service" where
  "usage_exec op s =
    (case op of
       Observe w t now \<Rightarrow> (case observe w t now s of Inl _ \<Rightarrow> s | Inr (_, s') \<Rightarrow> s')
     | Finish t outcome utc now \<Rightarrow> (case finish_collect t outcome utc now s of None \<Rightarrow> s | Some (_, s') \<Rightarrow> s')
     | Fail w state code utc now \<Rightarrow> snd (record_failure w state code utc now s))"

text \<open>A new task is not a running one, and the exception classes carry one of their three states.\<close>

definition usage_admissible :: "usage_op \<Rightarrow> usage_service \<Rightarrow> bool" where
  "usage_admissible op s \<longleftrightarrow>
    (case op of
       Observe w t now \<Rightarrow> sv_tasks s t = None
     | Finish t outcome utc now \<Rightarrow> (\<forall>code. outcome \<noteq> Inl (Collection_Failed Fresh code))
     | Fail w state code utc now \<Rightarrow> state \<noteq> Fresh)"

definition sample_ok :: "usage_sample \<Rightarrow> bool" where
  "sample_ok x \<longleftrightarrow> validate_raw_workspace_usage \<lparr>ru_cpu = us_cpu x, ru_memory = us_memory x, ru_count = us_count x\<rparr>
     = Inr \<lparr>ru_cpu = us_cpu x, ru_memory = us_memory x, ru_count = us_count x\<rparr>"

text \<open>A view against the last sample that is known: only a fresh view shows it, the others only its time.\<close>

definition view_ok :: "usage_view \<Rightarrow> usage_sample option \<Rightarrow> bool" where
  "view_ok v known \<longleftrightarrow>
    uv_sample v = (if uv_state v = Fresh then known else None) \<and> (uv_state v \<in> {Fresh, Stale} \<longrightarrow> known \<noteq> None)
    \<and> uv_observed v = map_option us_observed known \<and> (uv_reason v = None \<longleftrightarrow> uv_state v = Fresh)"

definition entry_ok :: "cache_entry \<Rightarrow> bool" where
  "entry_ok e \<longleftrightarrow> view_ok (ce_view e) (ce_last e) \<and> (\<forall>x. ce_last e = Some x \<longrightarrow> sample_ok x)"

definition links_ok :: "(ustr \<rightharpoonup> nat) \<Rightarrow> (nat \<rightharpoonup> ustr) \<Rightarrow> bool" where
  "links_ok inflight tasks \<longleftrightarrow> (\<forall>t w. inflight w = Some t \<longleftrightarrow> tasks t = Some w)"

lemma links_start: "links_ok i k \<Longrightarrow> i w = None \<Longrightarrow> k t = None \<Longrightarrow> links_ok (i(w \<mapsto> t)) (k(t \<mapsto> w))"
  unfolding links_ok_def by (simp add: fun_upd_def) (metis option.discI)

lemma links_end: "links_ok i k \<Longrightarrow> k t = Some w \<Longrightarrow> i w = Some t \<and> links_ok (i(w := None)) (k(t := None))"
  unfolding links_ok_def by (simp add: fun_upd_def) (metis option.inject)

definition usage_ok :: "usage_service \<Rightarrow> bool" where
  "usage_ok s \<longleftrightarrow> distinct (map fst (sv_cache s)) \<and> length (sv_cache s) \<le> sv_max s \<and> 0 < sv_max s
    \<and> (\<forall>p \<in> set (sv_cache s). entry_ok (snd p))
    \<and> links_ok (sv_inflight s) (sv_tasks s)"

lemma usage_ok_new: "new_usage_service f r n = Inr s \<Longrightarrow> usage_ok s"
  by (auto simp: new_usage_service_def usage_ok_def links_ok_def split: if_splits)

lemma sample_known: "usage_ok s \<Longrightarrow> last_sample w s = Some x \<Longrightarrow> sample_ok x"
  by (auto simp: last_sample_def usage_ok_def entry_ok_def bind_eq_Some_conv dest!: map_of_SomeD)

lemma move_to_end_ok:
  assumes "distinct (map fst c)" and "\<forall>p \<in> set c. entry_ok (snd p)" and "entry_ok e"
  shows "distinct (map fst (move_to_end w e c))" "\<forall>p \<in> set (move_to_end w e c). entry_ok (snd p)"
    "map_of c w \<noteq> None \<Longrightarrow> length (move_to_end w e c) \<le> length c"
proof -
  show "distinct (map fst (move_to_end w e c))" "\<forall>p \<in> set (move_to_end w e c). entry_ok (snd p)"
    using assms by (auto simp: move_to_end_def distinct_map_filter)
  assume "map_of c w \<noteq> None"
  then obtain y where "(w, y) \<in> set c" by (auto dest: map_of_SomeD)
  then have "\<exists>p \<in> set c. \<not> fst p \<noteq> w" by force
  then have "length (filter (\<lambda>p. fst p \<noteq> w) c) < length c" by (auto intro: length_filter_less)
  then show "length (move_to_end w e c) \<le> length c" by (simp add: move_to_end_def)
qed

lemma store_view_ok:
  assumes "usage_ok s" and "view_ok v known" and "\<forall>x. known = Some x \<longrightarrow> sample_ok x"
  shows "usage_ok (store_view w v known now s)"
proof -
  let ?e = "\<lparr>ce_view = v, ce_cached = now, ce_last = known\<rparr>"
  have "entry_ok ?e" using assms(2,3) by (simp add: entry_ok_def)
  with assms(1) have c: "distinct (map fst (move_to_end w ?e (sv_cache s)))" "\<forall>p \<in> set (move_to_end w ?e (sv_cache s)). entry_ok (snd p)"
    using move_to_end_ok [of "sv_cache s" ?e w] by (simp_all add: usage_ok_def)
  then have "distinct (map fst (drop k (move_to_end w ?e (sv_cache s))))" "\<forall>p \<in> set (drop k (move_to_end w ?e (sv_cache s))). entry_ok (snd p)" for k
    by (auto simp: drop_map [symmetric] dest: in_set_dropD)
  with assms(1) show ?thesis by (simp add: store_view_def usage_ok_def Let_def)
qed

lemma stored_last:
  assumes "usage_ok s"
  shows "last_sample w (store_view w v known now s) = known"
proof -
  let ?e = "\<lparr>ce_view = v, ce_cached = now, ce_last = known\<rparr>"
  let ?front = "filter (\<lambda>p. fst p \<noteq> w) (sv_cache s)"
  have max: "0 < sv_max s" using assms by (simp add: usage_ok_def)
  then have "drop (length (?front @ [(w, ?e)]) - sv_max s) (?front @ [(w, ?e)])
      = drop (length ?front + 1 - sv_max s) ?front @ [(w, ?e)]" by simp
  moreover have "map_of (drop k ?front) w = None" for k by (auto simp: map_of_eq_None_iff dest!: in_set_dropD)
  ultimately show ?thesis by (simp add: last_sample_def store_view_def move_to_end_def Let_def map_add_def)
qed

lemma failure_view_ok: "state \<noteq> Fresh \<Longrightarrow> view_ok (failure_view state code known utc) known"
  by (auto simp: view_ok_def failure_view_def)

lemma record_failure_ok:
  assumes "usage_ok s" and "state \<noteq> Fresh"
  shows "usage_ok (snd (record_failure w state code utc now s))"
  using assms by (auto simp: record_failure_def Let_def intro!: store_view_ok failure_view_ok dest: sample_known)

lemma fresh_view_ok:
  assumes "validate_raw_workspace_usage raw' = Inr raw"
  shows "view_ok (fresh_view (sample_of raw utc)) (Some (sample_of raw utc))" "sample_ok (sample_of raw utc)"
  using assms
  by (auto simp: view_ok_def fresh_view_def sample_ok_def sample_of_def validate_raw_workspace_usage_def split: if_splits)

lemma collect_result_ok:
  assumes "usage_ok s" and "\<forall>code. outcome \<noteq> Inl (Collection_Failed Fresh code)"
  shows "usage_ok (snd (collect_result w outcome utc now s))"
proof (cases "rbind outcome validate_raw_workspace_usage")
  case (Inr raw)
  then obtain raw' where "validate_raw_workspace_usage raw' = Inr raw" by (auto simp: rbind_Inr_iff)
  then have "usage_ok (store_view w (fresh_view (sample_of raw utc)) (Some (sample_of raw utc)) now s)"
    using assms(1) by (intro store_view_ok) (auto dest: fresh_view_ok)
  with Inr show ?thesis by (simp add: collect_result_def Let_def)
next
  case (Inl e)
  have "state \<noteq> Fresh" if "e = Collection_Failed state code" for state code
    using Inl that assms(2) by (auto simp: rbind_Inl_iff validate_raw_workspace_usage_def usage_unavailable_def split: if_splits)
  with Inl show ?thesis using record_failure_ok [OF assms(1)] assms(1)
    by (auto simp: collect_result_def split: usage_exn.splits prod.splits) (metis snd_conv)
qed

lemma same_tasks: "sv_tasks (snd (collect_result w outcome utc now s)) = sv_tasks s"
  "sv_inflight (snd (collect_result w outcome utc now s)) = sv_inflight s"
  by (auto simp: collect_result_def record_failure_def store_view_def Let_def split: sum.splits usage_exn.splits)

lemma end_task_ok:
  assumes "usage_ok s" and "sv_tasks s t = Some w"
  shows "usage_ok (end_task t w s)"
  using assms links_end [of "sv_inflight s" "sv_tasks s" t w] by (simp add: usage_ok_def end_task_def)

lemma finish_collect_ok:
  assumes "usage_ok s" and "\<forall>code. outcome \<noteq> Inl (Collection_Failed Fresh code)" and "finish_collect t outcome utc now s = Some (r, s')"
  shows "usage_ok s'"
proof -
  obtain w where w: "sv_tasks s t = Some w" and s': "s' = end_task t w (snd (collect_result w outcome utc now s))"
    using assms(3) by (auto simp: finish_collect_def split: option.splits prod.splits)
  show ?thesis unfolding s'
    using assms(1,2) w by (intro end_task_ok collect_result_ok) (simp_all add: same_tasks)
qed

lemma observe_cases:
  assumes "observe w t now s = Inr (ob, s')"
  obtains (cached) e where "map_of (sv_cache s) w = Some e" "ob = Cached (ce_view e)" "s' = s\<lparr>sv_cache := move_to_end w e (sv_cache s)\<rparr>"
      "now - ce_cached e \<le> (if uv_state (ce_view e) = Fresh then sv_fresh s else sv_retry s)"
  | (shared) k where "sv_inflight s w = Some k" "ob = Awaiting k" "s' = s"
  | (started) "sv_inflight s w = None" "ob = Awaiting t"
      "s' = s\<lparr>sv_inflight := (sv_inflight s)(w \<mapsto> t), sv_tasks := (sv_tasks s)(t \<mapsto> w)\<rparr>"
  using assms by (auto simp: observe_def Let_def split: if_splits option.splits)

lemma usage_observe_ok:
  assumes "usage_ok s" and "sv_tasks s t = None" and "observe w t now s = Inr (ob, s')"
  shows "usage_ok s'" "ob = Awaiting k \<Longrightarrow> sv_tasks s' k = Some w" "ob = Cached v \<Longrightarrow> \<exists>e. map_of (sv_cache s) w = Some e \<and> v = ce_view e \<and> entry_ok e"
proof -
  have entry: "entry_ok e" if "map_of (sv_cache s) w = Some e" for e
    using assms(1) that by (auto simp: usage_ok_def dest!: map_of_SomeD)
  have touch: "usage_ok (s\<lparr>sv_cache := move_to_end w e (sv_cache s)\<rparr>)" if "map_of (sv_cache s) w = Some e" for e
    using assms(1) that move_to_end_ok [of "sv_cache s" e w] entry [OF that] by (fastforce simp: usage_ok_def)
  have start: "usage_ok (s\<lparr>sv_inflight := (sv_inflight s)(w \<mapsto> t), sv_tasks := (sv_tasks s)(t \<mapsto> w)\<rparr>)" if "sv_inflight s w = None"
    using assms(1,2) that by (simp add: usage_ok_def links_start)
  have links: "sv_tasks s k = Some w" if "sv_inflight s w = Some k" for k
    using assms(1) that by (simp add: usage_ok_def links_ok_def)
  from assms(3) show "usage_ok s'" using assms(1) touch start by (cases rule: observe_cases) simp_all
  from assms(3) show "ob = Awaiting k \<Longrightarrow> sv_tasks s' k = Some w" using links by (cases rule: observe_cases) auto
  from assms(3) show "ob = Cached v \<Longrightarrow> \<exists>e. map_of (sv_cache s) w = Some e \<and> v = ce_view e \<and> entry_ok e"
    using entry by (cases rule: observe_cases) auto
qed

lemma usage_step_ok: "usage_ok s \<Longrightarrow> usage_admissible op s \<Longrightarrow> usage_ok (usage_exec op s)"
  by (cases op) (auto simp: usage_exec_def usage_admissible_def intro: record_failure_ok split: sum.splits option.splits
      dest: usage_observe_ok(1) finish_collect_ok)

definition default_service :: usage_service where
  "default_service = \<lparr>sv_fresh = default_fresh_seconds, sv_retry = default_retry_seconds, sv_max = default_max_cache_entries,
     sv_cache = [], sv_inflight = Map.empty, sv_tasks = Map.empty\<rparr>"

interpretation usage: machine default_service usage_exec usage_admissible usage_ok
proof unfold_locales
  show "usage_ok default_service" by (simp add: usage_ok_def links_ok_def default_service_def default_max_cache_entries_def)
qed (rule usage_step_ok)

lemma usage_run_ok:
  assumes "new_usage_service f r n = Inr s0" and "admissible usage_admissible usage_exec ops s0"
  shows "usage_ok (fold usage_exec ops s0)"
  by (rule usage.inv_run [OF usage_ok_new [OF assms(1)] assms(2)])

text \<open>C29: whatever observations, results and failures arrive in whatever order, a Workspace has at most one
  collection running, everybody who observes it meanwhile waits for that one, a result within its time to live is
  answered without a collection, and the cache holds one entry for a Workspace and no more than its bound.\<close>

theorem usage_collections_are_shared:
  assumes "new_usage_service f r n = Inr s0" and "admissible usage_admissible usage_exec ops s0"
    and "s = fold usage_exec ops s0"
  shows "(sv_tasks s t = Some w \<and> sv_tasks s t' = Some w \<longrightarrow> t = t')
    \<and> (sv_tasks s fresh_task = None \<and> observe w fresh_task now s = Inr (Awaiting k, s') \<longrightarrow>
        sv_tasks s' k = Some w \<and> (\<forall>j. sv_tasks s j = Some w \<longrightarrow> j = k))
    \<and> (observe w fresh_task now s = Inr (Cached v, s') \<longrightarrow> sv_tasks s' = sv_tasks s)
    \<and> distinct (map fst (sv_cache s)) \<and> int (length (sv_cache s)) \<le> n"
proof -
  have ok: "usage_ok s" unfolding assms(3) by (rule usage_run_ok [OF assms(1,2)])
  have kept: "sv_max (usage_exec op x) = sv_max x" for op x
    by (auto simp: usage_exec_def observe_def finish_collect_def collect_result_def end_task_def record_failure_def store_view_def Let_def
        split: usage_op.splits sum.splits option.splits prod.splits usage_exn.splits if_splits)
  have "sv_max (fold usage_exec ops x) = sv_max x" for x by (induction ops arbitrary: x) (simp_all add: kept)
  then have bound: "int (sv_max s) = n" using assms(1,3) by (auto simp: new_usage_service_def split: if_splits)
  have links: "sv_inflight s w = Some t \<longleftrightarrow> sv_tasks s t = Some w" for t w using ok by (simp add: usage_ok_def links_ok_def)
  have "sv_tasks s t = Some w \<and> sv_tasks s t' = Some w \<longrightarrow> t = t'" using links by (metis option.inject)
  moreover have "sv_tasks s' k = Some w \<and> (\<forall>j. sv_tasks s j = Some w \<longrightarrow> j = k)"
    if "sv_tasks s fresh_task = None" "observe w fresh_task now s = Inr (Awaiting k, s')"
    using that(2) usage_observe_ok(2) [OF ok that refl] by (cases rule: observe_cases) (auto simp: links [symmetric])
  moreover have "sv_tasks s' = sv_tasks s" if "observe w fresh_task now s = Inr (Cached v, s')"
    using that by (cases rule: observe_cases) auto
  moreover have "distinct (map fst (sv_cache s))" "int (length (sv_cache s)) \<le> n" using ok bound by (auto simp: usage_ok_def)
  ultimately show ?thesis by blast
qed

text \<open>Every view the service hands out is honest. Only a fresh view shows a sample, a validated one; a view that
  is not fresh names a reason and the time of the last sample that is known, which failures never change; and a
  refresh that failed without any sample known is unavailable, not stale.\<close>

theorem usage_views_are_honest:
  assumes "new_usage_service f r n = Inr s0" and "admissible usage_admissible usage_exec ops s0"
    and "s = fold usage_exec ops s0"
  shows "(sv_tasks s t0 = None \<and> observe w t0 now s = Inr (Cached v, s') \<longrightarrow> view_ok v (last_sample w s) \<and> last_sample w s' = last_sample w s)
    \<and> (state \<noteq> Fresh \<and> record_failure w state code utc now s = (v, s') \<longrightarrow>
        view_ok v (last_sample w s) \<and> last_sample w s' = last_sample w s)
    \<and> (finish_collect t (Inr raw) utc now s = Some (Inr v, s') \<and> sv_tasks s t = Some w \<and> uv_state v = Fresh \<longrightarrow>
        v = fresh_view (sample_of raw utc) \<and> last_sample w s' = Some (sample_of raw utc))
    \<and> (last_sample w s = Some x \<longrightarrow> sample_ok x)"
proof -
  have ok: "usage_ok s" unfolding assms(3) by (rule usage_run_ok [OF assms(1,2)])
  have "view_ok v (last_sample w s) \<and> last_sample w s' = last_sample w s"
    if "sv_tasks s t0 = None" "observe w t0 now s = Inr (Cached v, s')"
    using that(2)
  proof (cases rule: observe_cases)
    case (cached e)
    then have "entry_ok e" using ok by (auto simp: usage_ok_def dest!: map_of_SomeD)
    moreover have "map_of (filter (\<lambda>p. fst p \<noteq> w) c) w = None" for c :: "(ustr \<times> cache_entry) list" by (auto simp: map_of_eq_None_iff)
    ultimately show ?thesis using cached by (simp add: last_sample_def entry_ok_def move_to_end_def map_add_def)
  qed simp_all
  moreover have "view_ok v (last_sample w s) \<and> last_sample w s' = last_sample w s"
    if "state \<noteq> Fresh" "record_failure w state code utc now s = (v, s')"
    using that(2) failure_view_ok [OF that(1)] stored_last [OF ok] by (auto simp: record_failure_def Let_def)
  moreover have "v = fresh_view (sample_of raw utc) \<and> last_sample w s' = Some (sample_of raw utc)"
    if "finish_collect t (Inr raw) utc now s = Some (Inr v, s')" "sv_tasks s t = Some w" "uv_state v = Fresh"
    using that stored_last [OF ok, of w "fresh_view (sample_of raw utc)" "Some (sample_of raw utc)" now]
    by (auto simp: finish_collect_def collect_result_def record_failure_def failure_view_def Let_def last_sample_def end_task_def
        validate_raw_workspace_usage_def usage_unavailable_def split: prod.splits sum.splits if_splits usage_exn.splits)
  ultimately show ?thesis using sample_known [OF ok] by blast
qed

section \<open>Witnesses\<close>

definition sample_records :: "process_record list" where
  "sample_records =
    [\<lparr>pr_pid = 20, pr_parent = 30, pr_cpu = Finite 0, pr_rss = 100\<rparr>, \<lparr>pr_pid = 30, pr_parent = 20, pr_cpu = Finite 0, pr_rss = 200\<rparr>,
     \<lparr>pr_pid = 40, pr_parent = 7, pr_cpu = Finite 0, pr_rss = 400\<rparr>]"

lemma sample_usage: "aggregate_workspace_usage id [20] sample_records = Inr \<lparr>ru_cpu = Finite 0, ru_memory = 307200, ru_count = 2\<rparr>"
  by (simp add: aggregate_workspace_usage_def sample_records_def child_pids_def List.map_filter_simps float_sum_def float_add_def
      round_double_def is_finite_def float_at_least_def float_abs_def float_less_def float_sub_def negated_def
      validate_raw_workspace_usage_def max_process_rows_def)

theorem pane_processes_witness:
  "aggregate_workspace_usage id [20] sample_records = Inr \<lparr>ru_cpu = Finite 0, ru_memory = 307200, ru_count = 2\<rparr>
    \<and> card (measured_records sample_records [20]) = 2"
proof -
  have "distinct (map pr_pid sample_records)" "iterates id" by (simp_all add: sample_records_def iterates_def)
  from usage_measures_the_pane_processes [OF this, of "[20]"] show ?thesis by (simp add: sample_usage)
qed

definition quiet_service :: usage_service where
  "quiet_service = fold usage_exec [Observe (u ''w'') 7 0, Finish 7 (Inr \<lparr>ru_cpu = Finite 0, ru_memory = 4096, ru_count = 2\<rparr>) 50 3] default_service"

lemma quiet_ops: "new_usage_service 5 5 256 = Inr default_service"
  "admissible usage_admissible usage_exec [Observe (u ''w'') 7 0, Finish 7 (Inr \<lparr>ru_cpu = Finite 0, ru_memory = 4096, ru_count = 2\<rparr>) 50 3] default_service"
  by (simp_all add: new_usage_service_def default_service_def default_fresh_seconds_def default_retry_seconds_def
      default_max_cache_entries_def usage_admissible_def usage_exec_def observe_def)

lemma quiet_shape: "sv_tasks quiet_service = Map.empty" "sv_inflight quiet_service = Map.empty"
  "last_sample (u ''w'') quiet_service = Some \<lparr>us_cpu = Finite 0, us_memory = 4096, us_count = 2, us_observed = 50\<rparr>"
  by (simp_all add: quiet_service_def default_service_def default_max_cache_entries_def usage_exec_def observe_def finish_collect_def
      collect_result_def validate_raw_workspace_usage_def is_finite_def float_less_def max_process_rows_def sample_of_def store_view_def
      move_to_end_def end_task_def last_sample_def Let_def fun_eq_iff)

theorem shared_collection_witness:
  "\<exists>s'. observe (u ''w'') 8 20 quiet_service = Inr (Awaiting 8, s') \<and> sv_tasks s' 8 = Some (u ''w'')"
proof -
  have "\<exists>s'. observe (u ''w'') 8 20 quiet_service = Inr (Awaiting 8, s')"
    by (simp add: quiet_service_def default_service_def default_max_cache_entries_def default_fresh_seconds_def usage_exec_def observe_def
        finish_collect_def collect_result_def validate_raw_workspace_usage_def is_finite_def float_less_def max_process_rows_def sample_of_def
        store_view_def move_to_end_def end_task_def fresh_view_def Let_def)
  then obtain s' where "observe (u ''w'') 8 20 quiet_service = Inr (Awaiting 8, s')" by blast
  with usage_collections_are_shared [OF quiet_ops quiet_service_def, of _ "u ''w''" _ 8 20 8 s'] show ?thesis
    by (simp add: quiet_shape)
qed

theorem honest_view_witness:
  "\<exists>v s'. record_failure (u ''w'') Stale ''refresh_incomplete'' 90 9 quiet_service = (v, s') \<and> uv_state v = Stale \<and> uv_sample v = None
    \<and> uv_observed v = Some 50"
proof -
  obtain v s' where r: "record_failure (u ''w'') Stale ''refresh_incomplete'' 90 9 quiet_service = (v, s')" by (meson surj_pair)
  then have "uv_state v = Stale" by (auto simp: record_failure_def failure_view_def quiet_shape Let_def)
  moreover have "view_ok v (last_sample (u ''w'') quiet_service)"
    using usage_views_are_honest [OF quiet_ops quiet_service_def, of _ "u ''w''" 9 v s' Stale "''refresh_incomplete''" 90] r by simp
  ultimately show ?thesis using r by (simp add: view_ok_def quiet_shape)
qed

end
