(* ===== verification/Workspace_Manager.thy ===== *)
theory Workspace_Manager
  imports Store_Runs Store_Workspaces Store_Computers Workspace_Files
begin

text \<open>
  \<^verbatim>\<open>termroom/workspaces.py\<close>: project names, local roots and the \<open>WorkspaceManager\<close>, which registers Workspaces in
  the store and looks at the file system. An operation takes the store and returns its result beside the store it
  leaves, since it may raise after it wrote. Time stamps, fresh identifiers and the working directory are
  arguments; \<open>meanwhile\<close> is what other threads do to the store between a lookup and the insert that follows it.
\<close>

datatype ws_exn =
    Project_Name_Error string
  | Project_Path_Exists path bool
  | Project_Workspace_Failed path ws_exn
  | Unicode_Encode_Error
  | File_Raised file_error
  | Db_Raised db_error
  | Key_Error string
  | Value_Error string
  | Runtime_Error string

type_synonym 'a ws = "store \<Rightarrow> (ws_exn + 'a) \<times> store"

definition give :: "'a \<Rightarrow> 's \<Rightarrow> ('e + 'a) \<times> 's" where "give x s = (Inr x, s)"
definition fail :: "'e \<Rightarrow> 's \<Rightarrow> ('e + 'a) \<times> 's" where "fail e s = (Inl e, s)"

definition sbind :: "('s \<Rightarrow> ('e + 'a) \<times> 's) \<Rightarrow> ('a \<Rightarrow> 's \<Rightarrow> ('e + 'b) \<times> 's) \<Rightarrow> 's \<Rightarrow> ('e + 'b) \<times> 's" where
  "sbind m f s = (case m s of (Inl e, s') \<Rightarrow> (Inl e, s') | (Inr x, s') \<Rightarrow> f x s')"

text \<open>A query of the store, a call of the store, and a call of the file system.\<close>

definition ask :: "(store \<Rightarrow> 'a) \<Rightarrow> 'a ws" where "ask f s = (Inr (f s), s)"

definition db :: "(store \<Rightarrow> ('a \<times> store) result) \<Rightarrow> 'a ws" where
  "db f s = (case f s of Inl e \<Rightarrow> (Inl (Db_Raised e), s) | Inr (x, s') \<Rightarrow> (Inr x, s'))"

definition db_only :: "(store \<Rightarrow> store result) \<Rightarrow> unit ws" where
  "db_only f s = (case f s of Inl e \<Rightarrow> (Inl (Db_Raised e), s) | Inr s' \<Rightarrow> (Inr (), s'))"

definition fs_call :: "'a fresult \<Rightarrow> 'a ws" where
  "fs_call r s = (case r of Inl e \<Rightarrow> (Inl (File_Raised e), s) | Inr x \<Rightarrow> (Inr x, s))"

lemma ws_simps [simp]:
  "give x s = (Inr x, s)" "fail e s = (Inl e, s)" "ask f t = (Inr (f t), t)"
  by (simp_all add: give_def fail_def ask_def)

section \<open>Names and paths\<close>

definition is_cc :: "nat \<Rightarrow> bool" where
  "is_cc c \<longleftrightarrow> c < 32 \<or> c \<in> {127..159}"

definition validate_project_name :: "ustr \<Rightarrow> int \<Rightarrow> ws_exn + ustr" where
  "validate_project_name val max_bytes =
    (if val \<noteq> strip val then Inl (Project_Name_Error ''project.error.edge_whitespace'')
     else if val = [] \<or> val = dot \<or> val = dotdot then Inl (Project_Name_Error ''project.error.invalid_name'')
     else if slash \<in> set val \<or> backslash \<in> set val then Inl (Project_Name_Error ''project.error.single_name'')
     else if list_ex is_cc val then Inl (Project_Name_Error ''project.error.invalid_name'')
     else (case utf8_length val of
             None \<Rightarrow> Inl Unicode_Encode_Error
           | Some n \<Rightarrow> if int n > max_bytes then Inl (Project_Name_Error ''project.error.name_too_long'') else Inr val))"

text \<open>\<^verbatim>\<open>PurePosixPath(s).as_posix()\<close>: exactly two leading slashes are a root of their own.\<close>

definition pure_root :: "ustr \<Rightarrow> ustr" where
  "pure_root s =
    (if starts_with [slash, slash] s \<and> \<not> starts_with [slash, slash, slash] s then [slash, slash]
     else if starts_with [slash] s then [slash] else [])"

definition pure_text :: "ustr \<Rightarrow> ustr list \<Rightarrow> ustr" where
  "pure_text r ps = (if r = [] then as_posix ps else r @ join [slash] ps)"

definition pure_posix :: "ustr \<Rightarrow> ustr" where
  "pure_posix s = pure_text (pure_root s) (path_parts s)"

definition pure_name :: "ustr \<Rightarrow> ustr" where
  "pure_name s = (if path_parts s = [] then [] else last (path_parts s))"

definition pure_join :: "ustr \<Rightarrow> ustr \<Rightarrow> ustr" where
  "pure_join a b = (if is_absolute b then pure_posix b else pure_text (pure_root a) (path_parts a @ path_parts b))"

text \<open>\<^verbatim>\<open>str(path)\<close> of an absolute path, and the resolution of a path given as text.\<close>

definition path_text :: "path \<Rightarrow> ustr" where
  "path_text p = [slash] @ join [slash] p"

definition resolve_text :: "path \<Rightarrow> ustr \<Rightarrow> fs \<Rightarrow> path fresult" where
  "resolve_text here s fs = resolve fs (if is_absolute s then path_parts s else here @ path_parts s)"

section \<open>Roots\<close>

definition manager_resolve :: "path \<Rightarrow> ustr \<Rightarrow> fs \<Rightarrow> path fresult" where
  "manager_resolve base relative fs = resolve_inside base (Path relative) True fs"

definition manager_relative :: "path \<Rightarrow> path \<Rightarrow> fs \<Rightarrow> ustr fresult" where
  "manager_relative base p fs = rbind (resolve fs p) (\<lambda>q. rbind (relative_to q base) (\<lambda>r. Inr (as_posix r)))"

fun directory_entries :: "path \<Rightarrow> path \<Rightarrow> fs \<Rightarrow> ustr list \<Rightarrow> (ustr \<times> ustr) list fresult" where
  "directory_entries base d fs [] = Inr []"
| "directory_entries base d fs (name # names) =
    (if path_is_dir fs (d @ [name]) \<and> \<not> path_is_symlink fs (d @ [name])
     then (case manager_relative base (d @ [name]) fs of
             Inr r \<Rightarrow> rbind (directory_entries base d fs names) (\<lambda>es. Inr ((name, r) # es))
           | Inl (file_error.ValueError m) \<Rightarrow> Inl (file_error.ValueError m)
           | Inl _ \<Rightarrow> directory_entries base d fs names)
     else directory_entries base d fs names)"

definition list_directories :: "(ustr \<Rightarrow> ustr) \<Rightarrow> path \<Rightarrow> ustr \<Rightarrow> fs \<Rightarrow> (path \<times> (ustr \<times> ustr) list) fresult" where
  "list_directories fold_case base relative fs =
    rbind (manager_resolve base relative fs) (\<lambda>d.
      if \<not> path_is_dir fs d then Inl NotADirectoryError
      else rbind (directory_entries base d fs (sort_key fold_case (map fst (children fs d)))) (\<lambda>es. Inr (d, es)))"

section \<open>Workspaces as the application sees them\<close>

datatype view_path = Local_Path path | Remote_Path ustr

record workspace_view =
  wv_row :: workspace_row
  wv_path :: view_path
  wv_canonical :: "ustr option"
  wv_computer :: "computer_row option"
  wv_label :: ustr
  wv_run :: "remote_run_row option"
  wv_server_terminal :: bool
  wv_transient :: bool
  wv_display :: ustr

definition hydrate_workspace ::
  "path \<Rightarrow> path \<Rightarrow> fs \<Rightarrow> workspace_row \<Rightarrow> ustr \<Rightarrow> computer_row option \<Rightarrow> remote_run_row option \<Rightarrow> ws_exn + workspace_view" where
  "hydrate_workspace here base fs w root_value computer run =
    (let terminal = (w_kind w = Server_Terminal_Kind); transient = (run \<noteq> None \<or> terminal) in
     if w_backend w = Remote_Backend
     then (case computer of
             None \<Rightarrow> Inl (Key_Error ''Unknown computer for workspace'')
           | Some c \<Rightarrow>
               Inr \<lparr>wv_row = w,
                    wv_path = Remote_Path (case w_canonical w of None \<Rightarrow> w_relative w | Some p \<Rightarrow> if p = [] then w_relative w else p),
                    wv_canonical = w_canonical w, wv_computer = Some c, wv_label = c_name c, wv_run = run,
                    wv_server_terminal = terminal, wv_transient = transient,
                    wv_display = (if terminal then c_name c else w_display w)\<rparr>)
     else (case (if root_value = [] then Inr base else resolve_text here root_value fs) of
             Inl e \<Rightarrow> Inl (File_Raised e)
           | Inr r \<Rightarrow>
               (case resolve_inside r (Path (w_relative w)) True fs of
                  Inl e \<Rightarrow> Inl (File_Raised e)
                | Inr p \<Rightarrow>
                    if terminal then Inl (Key_Error ''computer'')
                    else Inr \<lparr>wv_row = w, wv_path = Local_Path p, wv_canonical = Some (path_text p), wv_computer = None,
                              wv_label = [], wv_run = run, wv_server_terminal = False, wv_transient = transient,
                              wv_display = w_display w\<rparr>)))"

definition require :: "path \<Rightarrow> path \<Rightarrow> fs \<Rightarrow> ustr \<Rightarrow> store \<Rightarrow> ws_exn + workspace_view" where
  "require here base fs workspace_id s =
    (case get_workspace workspace_id s of
       None \<Rightarrow> Inl (Key_Error ''Unknown workspace'')
     | Some (w, root_value) \<Rightarrow>
         if w_backend w = Remote_Backend
         then (case get_computer (case w_computer w of None \<Rightarrow> u ''None'' | Some c \<Rightarrow> c) s of
                 None \<Rightarrow> Inl (Key_Error ''Unknown computer for workspace'')
               | Some c \<Rightarrow> hydrate_workspace here base fs w root_value (Some c) (get_remote_run_for_workspace workspace_id s))
         else hydrate_workspace here base fs w root_value None (get_remote_run_for_workspace workspace_id s))"

text \<open>\<^verbatim>\<open>self.require(...)\<close> inside an operation.\<close>

definition require_ws :: "path \<Rightarrow> path \<Rightarrow> fs \<Rightarrow> ustr \<Rightarrow> workspace_view ws" where
  "require_ws here base fs i s = (require here base fs i s, s)"

text \<open>The listing skips a Workspace whose computer or folder is gone: \<^verbatim>\<open>KeyError\<close> and \<^verbatim>\<open>OSError\<close>, not \<^verbatim>\<open>ValueError\<close>.\<close>

definition skipped :: "ws_exn \<Rightarrow> bool" where
  "skipped e \<longleftrightarrow>
    (case e of
       Key_Error _ \<Rightarrow> True
     | File_Raised FileNotFoundError \<Rightarrow> True | File_Raised FileExistsError \<Rightarrow> True | File_Raised NotADirectoryError \<Rightarrow> True
     | File_Raised IsADirectoryError \<Rightarrow> True | File_Raised (OSError _) \<Rightarrow> True
     | _ \<Rightarrow> False)"

fun hydrate_listed ::
  "path \<Rightarrow> path \<Rightarrow> fs \<Rightarrow> (ustr \<Rightarrow> computer_row option) \<Rightarrow> (workspace_row \<times> ustr) list \<Rightarrow> ws_exn + workspace_view list" where
  "hydrate_listed here base fs computer [] = Inr []"
| "hydrate_listed here base fs computer ((w, root_value) # ws) =
    (case hydrate_workspace here base fs w root_value (computer (case w_computer w of None \<Rightarrow> [] | Some c \<Rightarrow> c)) None of
       Inr v \<Rightarrow> rbind (hydrate_listed here base fs computer ws) (\<lambda>vs. Inr (v # vs))
     | Inl e \<Rightarrow> if skipped e then hydrate_listed here base fs computer ws else Inl e)"

definition list_persistent :: "path \<Rightarrow> path \<Rightarrow> fs \<Rightarrow> int option \<Rightarrow> store \<Rightarrow> ws_exn + workspace_view list" where
  "list_persistent here base fs limit s =
    hydrate_listed here base fs (\<lambda>i. get_computer i s) (list_recent_workspaces limit s)"

definition list_all :: "path \<Rightarrow> path \<Rightarrow> fs \<Rightarrow> store \<Rightarrow> ws_exn + workspace_view list" where
  "list_all here base fs s = list_persistent here base fs None s"

definition list_recent :: "path \<Rightarrow> path \<Rightarrow> fs \<Rightarrow> store \<Rightarrow> ws_exn + workspace_view list" where
  "list_recent here base fs s = list_persistent here base fs (Some 20) s"

section \<open>Opening local folders\<close>

text \<open>The time and the identifiers one operation draws: for a root, and for the attempts at a Workspace row; the
  text functions are those of the session names.\<close>

record draws =
  dr_now :: stamp
  dr_root :: ustr
  dr_ids :: "nat \<Rightarrow> ustr"
  dr_fold :: "ustr \<Rightarrow> ustr"
  dr_alnum :: "nat \<Rightarrow> bool"

definition touch_ws :: "draws \<Rightarrow> ustr \<Rightarrow> unit ws" where
  "touch_ws d i s = (Inr (), touch_workspace (dr_now d) i None s)"

definition create_ws ::
  "draws \<Rightarrow> ustr \<Rightarrow> ustr \<Rightarrow> ustr \<Rightarrow> ustr option \<Rightarrow> ustr \<Rightarrow> ustr option \<Rightarrow> ustr option \<Rightarrow> ustr \<Rightarrow> workspace_row ws" where
  "create_ws d base_id relative name session backend computer canonical kind =
    db (create_workspace (dr_fold d) (dr_alnum d) (dr_now d) (dr_ids d) base_id relative name session backend computer canonical kind)"

definition open_local :: "draws \<Rightarrow> path \<Rightarrow> path \<Rightarrow> fs \<Rightarrow> path \<Rightarrow> ustr \<Rightarrow> workspace_view ws" where
  "open_local d here base fs root_path relative =
    sbind (fs_call (resolve fs root_path)) (\<lambda>r.
    sbind (db (ensure_root_value (dr_now d) (dr_root d) (path_text r))) (\<lambda>registered.
    sbind (fs_call (manager_resolve r relative fs)) (\<lambda>directory.
      if \<not> path_is_dir fs directory then fail (File_Raised NotADirectoryError)
      else sbind (fs_call (manager_relative r directory fs)) (\<lambda>normalized.
        sbind (ask (find_workspace (r_id registered) normalized)) (\<lambda>existing.
          case existing of
            Some w \<Rightarrow> sbind (touch_ws d (w_id w)) (\<lambda>_. require_ws here base fs (w_id w))
          | None \<Rightarrow>
              (let name = (if directory = [] then path_text directory else last directory) in
               sbind (create_ws d (r_id registered) normalized name None (u ''local'') None None (u ''workspace''))
                 (\<lambda>w. require_ws here base fs (w_id w))))))))"

text \<open>\<^verbatim>\<open>os.pathconf\<close> answers with a limit or raises; the mode of the new folder is 755. The result has the new file
  system, which keeps the folder even where the registration fails.\<close>

definition create_local_project ::
  "draws \<Rightarrow> path \<Rightarrow> path \<Rightarrow> inode \<Rightarrow> nat \<Rightarrow> int option \<Rightarrow> path \<Rightarrow> ustr \<Rightarrow> ustr \<Rightarrow> fs \<Rightarrow> store
    \<Rightarrow> (ws_exn + workspace_view \<times> path) \<times> fs \<times> store" where
  "create_local_project d here base ino dir_size name_max root_path parent_relative name fs s =
    (case rbind (resolve fs root_path) (\<lambda>r. rbind (manager_resolve r parent_relative fs) (\<lambda>p. Inr (r, p))) of
       Inl e \<Rightarrow> (Inl (File_Raised e), fs, s)
     | Inr (r, parent) \<Rightarrow>
        if \<not> path_is_dir fs parent then (Inl (File_Raised NotADirectoryError), fs, s)
        else (case validate_project_name name (case name_max of None \<Rightarrow> 255 | Some n \<Rightarrow> n) of
          Inl e \<Rightarrow> (Inl e, fs, s)
        | Inr safe \<Rightarrow>
           (let target = parent @ [safe] in
            case os_lstat fs target of
              Inr n \<Rightarrow> (Inl (Project_Path_Exists target (is_directory n)), fs, s)
            | Inl e \<Rightarrow>
               if e \<noteq> FileNotFoundError then (Inl (File_Raised e), fs, s)
               else (case sys_mkdir ino dir_size target fs of
                  Inl e \<Rightarrow> (Inl (File_Raised e), fs, s)
                | Inr fs' \<Rightarrow>
                   (case sbind (fs_call (manager_relative r target fs')) (open_local d here base fs' r) s of
                      (Inl e, s') \<Rightarrow> (Inl (Project_Workspace_Failed target e), fs', s')
                    | (Inr v, s') \<Rightarrow> (Inr (v, target), fs', s'))))))"

definition is_single_line :: "ustr \<Rightarrow> bool" where
  "is_single_line s \<longleftrightarrow> \<not> list_ex is_line_control s"

definition update_display_name :: "workspace_view \<Rightarrow> ustr \<Rightarrow> unit ws" where
  "update_display_name v display_name =
    (if wv_transient v then fail (Value_Error ''Transient Workspace names are managed by their owner'')
     else
       (let typed = strip display_name;
            name = (if typed \<noteq> [] then typed
                    else (case wv_path v of Remote_Path p \<Rightarrow> pure_name p | Local_Path p \<Rightarrow> if p = [] then [] else last p))
        in if name = [] \<or> length name > 120 \<or> \<not> is_single_line name
           then fail (Value_Error ''Workspace display name must be a single line of 1 to 120 characters'')
           else db_only (update_workspace_display_name (w_id (wv_row v)) name)))"

section \<open>Opening folders of other computers\<close>

definition method_scheme :: "computer_row \<Rightarrow> ustr" where
  "method_scheme c = (if c_method c = Node_Method then u ''node'' else u ''ssh'')"

definition open_remote :: "draws \<Rightarrow> path \<Rightarrow> path \<Rightarrow> fs \<Rightarrow> ustr \<Rightarrow> ustr \<Rightarrow> ustr option \<Rightarrow> workspace_view ws" where
  "open_remote d here base fs computer_id canonical_path display_name =
    sbind (ask (get_computer computer_id)) (\<lambda>found.
      case found of
        None \<Rightarrow> fail (Key_Error ''Unknown computer'')
      | Some c \<Rightarrow>
         (let normalized = pure_posix canonical_path in
          if \<not> is_absolute normalized \<or> normalized = [slash] \<or> normalized = dot
          then fail (Value_Error ''Remote Workspace must use an absolute non-root path'')
          else sbind (db (\<lambda>s. rbind (find_remote_workspace computer_id normalized (u ''workspace'') s) (\<lambda>w. Inr (w, s)))) (\<lambda>existing.
            case existing of
              Some w \<Rightarrow> sbind (touch_ws d (w_id w)) (\<lambda>_. require_ws here base fs (w_id w))
            | None \<Rightarrow>
               sbind (db (ensure_root_value (dr_now d) (dr_root d) (method_scheme c @ u ''://'' @ computer_id))) (\<lambda>virtual.
                 (let chosen = (case display_name of Some n \<Rightarrow> if n \<noteq> [] then n else if pure_name normalized \<noteq> [] then pure_name normalized else normalized
                                | None \<Rightarrow> if pure_name normalized \<noteq> [] then pure_name normalized else normalized) in
                  sbind (create_ws d (r_id virtual) normalized (take 120 (strip chosen)) None (u ''remote'') (Some computer_id) (Some normalized) (u ''workspace''))
                    (\<lambda>w. require_ws here base fs (w_id w)))))))"

definition absolute_posix :: "ustr \<Rightarrow> bool" where
  "absolute_posix s \<longleftrightarrow> is_absolute s \<and> backslash \<notin> set s \<and> \<not> list_ex is_cc s"

text \<open>\<^verbatim>\<open>except sqlite3.IntegrityError\<close>: another thread's row won the race.\<close>

definition on_integrity_error :: "'a ws \<Rightarrow> 'a ws \<Rightarrow> 'a ws" where
  "on_integrity_error m handler s = (case m s of (Inl (Db_Raised IntegrityError), s') \<Rightarrow> handler s' | r \<Rightarrow> r)"

definition interleave :: "(store \<Rightarrow> store) \<Rightarrow> unit ws" where
  "interleave meanwhile s = (Inr (), meanwhile s)"

definition same_home :: "ustr \<Rightarrow> workspace_row \<Rightarrow> bool" where
  "same_home home w \<longleftrightarrow> (case w_canonical w of None \<Rightarrow> [] | Some p \<Rightarrow> p) = home"

definition open_server_terminal ::
  "draws \<Rightarrow> (store \<Rightarrow> store) \<Rightarrow> path \<Rightarrow> path \<Rightarrow> fs \<Rightarrow> ustr \<Rightarrow> ustr \<Rightarrow> workspace_view ws" where
  "open_server_terminal d meanwhile here base fs computer_id home =
    sbind (ask (get_computer computer_id)) (\<lambda>found.
      case found of
        None \<Rightarrow> fail (Key_Error ''Unknown computer'')
      | Some c \<Rightarrow>
         if \<not> absolute_posix home \<or> pure_posix home \<noteq> home
         then fail (Value_Error ''SSH home directory must be a canonical absolute POSIX path'')
         else sbind (ask (find_server_terminal_workspace computer_id)) (\<lambda>existing.
           case existing of
             Some w \<Rightarrow>
               if \<not> same_home home w then fail (Runtime_Error ''Stored Server Terminal home directory has changed'')
               else sbind (touch_ws d (w_id w)) (\<lambda>_. require_ws here base fs (w_id w))
           | None \<Rightarrow>
              sbind (db (ensure_root_value (dr_now d) (dr_root d) (u ''ssh://'' @ computer_id))) (\<lambda>virtual.
              sbind (interleave meanwhile) (\<lambda>_.
              sbind (on_integrity_error
                       (create_ws d (r_id virtual) (u ''.termroom-server-terminal'') (c_name c)
                          (Some (u ''termroom-server-'' @ take 12 computer_id)) (u ''remote'') (Some computer_id) (Some home) (u ''server_terminal''))
                       (sbind (ask (find_server_terminal_workspace computer_id)) (\<lambda>won.
                          case won of
                            None \<Rightarrow> fail (Db_Raised IntegrityError)
                          | Some w \<Rightarrow> if same_home home w then give w
                                      else fail (Runtime_Error ''Stored Server Terminal home directory has changed''))))
                (\<lambda>w. require_ws here base fs (w_id w))))))"

section \<open>Opening the Workspace of a Remote Run\<close>

definition run_workspace_matches :: "ustr \<Rightarrow> ustr \<Rightarrow> ustr \<Rightarrow> workspace_row \<Rightarrow> bool" where
  "run_workspace_matches computer_id session work_path w \<longleftrightarrow>
    w_backend w = Remote_Backend \<and> (case w_computer w of None \<Rightarrow> [] | Some c \<Rightarrow> c) = computer_id
    \<and> w_tmux w = session \<and> (case w_canonical w of None \<Rightarrow> [] | Some p \<Rightarrow> p) = work_path"

definition assert_run_workspace :: "ustr \<Rightarrow> ustr \<Rightarrow> ustr \<Rightarrow> workspace_row \<Rightarrow> unit ws" where
  "assert_run_workspace computer_id session work_path w =
    (if run_workspace_matches computer_id session work_path w then give ()
     else fail (Runtime_Error ''Remote Run Workspace metadata does not match the Run''))"

definition attach_run :: "ustr \<Rightarrow> ustr \<Rightarrow> remote_run_row ws" where
  "attach_run run_id i = db (attach_remote_run_workspace run_id i)"

definition find_run_workspace :: "ustr \<Rightarrow> ustr \<Rightarrow> ustr \<Rightarrow> workspace_row option ws" where
  "find_run_workspace computer_id work_path kind =
    db (\<lambda>s. rbind (find_remote_workspace computer_id work_path kind s) (\<lambda>w. Inr (w, s)))"

text \<open>\<^verbatim>\<open>except Exception: delete the row, raise\<close>; where the deletion raises, its exception is the one that leaves.\<close>

definition attach_or_delete :: "ustr \<Rightarrow> ustr \<Rightarrow> unit ws" where
  "attach_or_delete run_id i s =
    (case attach_run run_id i s of
       (Inr _, s') \<Rightarrow> (Inr (), s')
     | (Inl e, s') \<Rightarrow> (case db_only (remove_workspace_registration i) s' of (Inl e', s'') \<Rightarrow> (Inl e', s'') | (Inr _, s'') \<Rightarrow> (Inl e, s'')))"

definition work_path_of :: "remote_run_row \<Rightarrow> ustr" where
  "work_path_of m = pure_join (pure_join (m_base m) (m_id m)) (u ''work'')"

definition create_run_workspace ::
  "draws \<Rightarrow> (store \<Rightarrow> store) \<Rightarrow> remote_run_row \<Rightarrow> ustr \<Rightarrow> ustr \<Rightarrow> ustr \<Rightarrow> workspace_row ws" where
  "create_run_workspace d meanwhile m computer_id session work_path =
    sbind (db (ensure_root_value (dr_now d) (dr_root d) (u ''ssh://'' @ computer_id))) (\<lambda>virtual.
    sbind (interleave meanwhile) (\<lambda>_.
      (let label = strip (if m_label m = [] then u ''Remote Run'' else m_label m);
           name = (if take 120 label = [] then u ''Remote Run'' else take 120 label) in
       on_integrity_error
         (create_ws d (r_id virtual) work_path name (Some session) (u ''remote'') (Some computer_id) (Some work_path) (u ''remote_run''))
         (sbind (find_run_workspace computer_id work_path (u ''remote_run'')) (\<lambda>won.
            case won of
              None \<Rightarrow> fail (Db_Raised IntegrityError)
            | Some w \<Rightarrow> sbind (assert_run_workspace computer_id session work_path w) (\<lambda>_. give w))))))"

text \<open>The Workspace of a stored run once its arguments are checked: attached, found, recovered or created.\<close>

definition run_workspace ::
  "draws \<Rightarrow> (store \<Rightarrow> store) \<Rightarrow> remote_run_row \<Rightarrow> ustr \<Rightarrow> ustr \<Rightarrow> ustr \<Rightarrow> ustr ws" where
  "run_workspace d meanwhile m computer_id session work_path =
    (case (if m_workspace m = Some [] then None else m_workspace m) of
       Some attached \<Rightarrow>
         sbind (ask (get_workspace attached)) (\<lambda>found.
           case found of
             None \<Rightarrow> fail (Runtime_Error ''Remote Run references a missing Workspace'')
           | Some (w, _) \<Rightarrow>
               sbind (assert_run_workspace computer_id session work_path w) (\<lambda>_.
               sbind (touch_ws d (w_id w)) (\<lambda>_. give (w_id w))))
     | None \<Rightarrow>
         sbind (find_run_workspace computer_id work_path (u ''remote_run'')) (\<lambda>existing.
           case existing of
             Some w \<Rightarrow>
               sbind (assert_run_workspace computer_id session work_path w) (\<lambda>_.
               sbind (attach_run (m_id m) (w_id w)) (\<lambda>_. give (w_id w)))
           | None \<Rightarrow>
               sbind (find_run_workspace computer_id work_path (u ''workspace'')) (\<lambda>legacy.
                 case legacy of
                   Some w \<Rightarrow>
                     sbind (assert_run_workspace computer_id session work_path w) (\<lambda>_.
                     sbind (db_only (update_workspace_kind (w_id w) (u ''remote_run''))) (\<lambda>_.
                     sbind (attach_run (m_id m) (w_id w)) (\<lambda>_. give (w_id w))))
                 | None \<Rightarrow>
                     sbind (create_run_workspace d meanwhile m computer_id session work_path) (\<lambda>w.
                     sbind (attach_or_delete (m_id m) (w_id w)) (\<lambda>_. give (w_id w))))))"

definition open_remote_run ::
  "draws \<Rightarrow> (store \<Rightarrow> store) \<Rightarrow> path \<Rightarrow> path \<Rightarrow> fs \<Rightarrow> ustr \<Rightarrow> ustr \<Rightarrow> ustr \<Rightarrow> workspace_view ws" where
  "open_remote_run d meanwhile here base fs run_id session work_path =
    (if run_id = [] then fail (Value_Error ''Remote Run id is required'')
     else sbind (ask (get_remote_run run_id)) (\<lambda>stored.
       case stored of
         None \<Rightarrow> fail (Key_Error ''Unknown Remote Run'')
       | Some m \<Rightarrow>
          sbind (ask (get_computer (m_target m))) (\<lambda>computer.
            case computer of
              None \<Rightarrow> fail (Key_Error ''Unknown computer for Remote Run'')
            | Some c \<Rightarrow>
               if session \<noteq> u ''termroom-run-'' @ run_id then fail (Value_Error ''Remote Run Workspace must use the Run's tmux session'')
               else if \<not> absolute_posix work_path then fail (Value_Error ''Remote Run work path must be an absolute POSIX path'')
               else if pure_posix work_path \<noteq> work_path \<or> list_ex (\<lambda>p. p = dot \<or> p = dotdot) (split_on slash work_path)
               then fail (Value_Error ''Remote Run work path must already be canonical'')
               else if work_path \<noteq> work_path_of m then fail (Value_Error ''Remote Run work path does not match its managed Run root'')
               else sbind (run_workspace d meanwhile m (m_target m) session work_path) (\<lambda>i. require_ws here base fs i))))"

end
