(* ===== verification/Workspace_Opening.thy ===== *)
theory Workspace_Opening
  imports Workspace_Manager Store_Machine Run_Properties File_Samples
begin

text \<open>
  What the \<open>WorkspaceManager\<close> guarantees: every operation keeps the constraints of the store whatever other threads
  do in between, a folder is registered once, a new project adds one folder and touches no other, and the
  Workspace of a Remote Run is the run's own.
\<close>

section \<open>The operations keep the constraints\<close>

named_theorems ws_keeps \<open>preservation of a predicate of the store by the pieces of an operation\<close>

definition keeps :: "(store \<Rightarrow> bool) \<Rightarrow> 'a ws \<Rightarrow> bool" where
  "keeps I m \<longleftrightarrow> (\<forall>s. I s \<longrightarrow> I (snd (m s)))"

lemma keepsD: "keeps I m \<Longrightarrow> I s \<Longrightarrow> m s = (r, s') \<Longrightarrow> I s'"
  by (force simp: keeps_def)

lemma keeps_pure [ws_keeps]: "keeps I (give x)" "keeps I (fail e)" "keeps I (ask f)" "keeps I (fs_call q)"
  "keeps I (require_ws here base fs i)" "keeps I (find_run_workspace a b c)"
  by (auto simp: keeps_def fs_call_def require_ws_def find_run_workspace_def db_def rbind_def split: sum.splits)

lemma keeps_sbind [ws_keeps]: "keeps I m \<Longrightarrow> (\<And>x. keeps I (f x)) \<Longrightarrow> keeps I (sbind m f)"
  by (force simp: keeps_def sbind_def split: prod.splits sum.splits)

lemma keeps_db: "(\<And>s x s'. I s \<Longrightarrow> f s = Inr (x, s') \<Longrightarrow> I s') \<Longrightarrow> keeps I (db f)"
  by (auto simp: keeps_def db_def split: sum.splits prod.splits)

lemma keeps_db_only: "(\<And>s s'. I s \<Longrightarrow> f s = Inr s' \<Longrightarrow> I s') \<Longrightarrow> keeps I (db_only f)"
  by (auto simp: keeps_def db_only_def split: sum.splits)

lemma keeps_integrity [ws_keeps]: "keeps I m \<Longrightarrow> keeps I h \<Longrightarrow> keeps I (on_integrity_error m h)"
proof (unfold keeps_def, intro allI impI)
  fix s assume m: "\<forall>s. I s \<longrightarrow> I (snd (m s))" and h: "\<forall>s. I s \<longrightarrow> I (snd (h s))" and "I s"
  obtain r s1 where r: "m s = (r, s1)" by force
  with m \<open>I s\<close> have "I s1" by fastforce
  with h have "I (snd (h s1))" by blast
  with \<open>I s1\<close> r show "I (snd (on_integrity_error m h s))"
    by (simp add: on_integrity_error_def split: sum.split ws_exn.split db_error.split)
qed

lemma keeps_if [ws_keeps]: "(b \<Longrightarrow> keeps I m) \<Longrightarrow> (\<not> b \<Longrightarrow> keeps I n) \<Longrightarrow> keeps I (if b then m else n)"
  by simp

lemma keeps_option [ws_keeps]: "keeps I m \<Longrightarrow> (\<And>x. keeps I (f x)) \<Longrightarrow> keeps I (case q of None \<Rightarrow> m | Some x \<Rightarrow> f x)"
  by (cases q) auto

lemma keeps_prod [ws_keeps]: "(\<And>x y. keeps I (f x y)) \<Longrightarrow> keeps I (case q of (x, y) \<Rightarrow> f x y)"
  by (cases q) auto

lemma keeps_let [ws_keeps]: "keeps I (f x) \<Longrightarrow> keeps I (let y = x in f y)"
  by simp

lemma store_calls_ok [ws_keeps]:
  "keeps store_ok (touch_ws d i)" "keeps store_ok (create_ws d r rel name q b c p k)"
  "keeps store_ok (db (ensure_root_value t i v))" "keeps store_ok (attach_run i w)"
  "keeps store_ok (db_only (update_workspace_kind w kind))" "keeps store_ok (db_only (update_workspace_display_name w name))"
  "keeps store_ok (db_only (remove_workspace_registration w))"
  unfolding create_ws_def attach_run_def touch_ws_def
  by (auto simp: keeps_def intro: touch_workspace_ok)
    (auto simp: db_def db_only_def split: sum.splits prod.splits intro: create_workspace_ok ensure_root_value_ok attach_ok
      update_workspace_kind_ok update_workspace_display_name_ok remove_workspace_registration_ok)

lemma attach_or_delete_ok [ws_keeps]: "keeps store_ok (attach_or_delete i w)"
  unfolding keeps_def
proof (intro allI impI)
  fix s assume "store_ok s"
  then have "store_ok (snd (attach_run i w s))" using store_calls_ok(4) by (auto simp: keeps_def)
  then show "store_ok (snd (attach_or_delete i w s))"
    using store_calls_ok(7) [of w] by (auto simp: attach_or_delete_def keeps_def split: prod.splits sum.splits)
qed

lemma interleave_ok [ws_keeps]: "(\<And>s. I s \<Longrightarrow> I (meanwhile s)) \<Longrightarrow> keeps I (interleave meanwhile)"
  by (simp add: keeps_def interleave_def)

lemma assert_ok [ws_keeps]: "keeps I (assert_run_workspace c q p w)"
  by (simp add: assert_run_workspace_def keeps_pure)

lemma open_local_ok: "keeps store_ok (open_local d here base fs root_path relative)"
  unfolding open_local_def by (intro ws_keeps)

lemma update_display_name_ok: "keeps store_ok (update_display_name v name)"
  unfolding update_display_name_def by (intro ws_keeps)

lemma open_remote_ok: "keeps store_ok (open_remote d here base fs computer_id path name)"
  unfolding open_remote_def by (intro ws_keeps keeps_db) (auto simp: rbind_Inr_iff)

lemma open_server_terminal_ok:
  "(\<And>s. store_ok s \<Longrightarrow> store_ok (meanwhile s)) \<Longrightarrow> keeps store_ok (open_server_terminal d meanwhile here base fs computer_id home)"
  unfolding open_server_terminal_def by (intro ws_keeps) assumption+

lemma create_run_workspace_ok:
  "(\<And>s. store_ok s \<Longrightarrow> store_ok (meanwhile s)) \<Longrightarrow> keeps store_ok (create_run_workspace d meanwhile m c q p)"
  unfolding create_run_workspace_def by (intro ws_keeps) assumption+

lemma open_remote_run_ok:
  "(\<And>s. store_ok s \<Longrightarrow> store_ok (meanwhile s)) \<Longrightarrow> keeps store_ok (open_remote_run d meanwhile here base fs i q p)"
  unfolding open_remote_run_def run_workspace_def by (intro ws_keeps create_run_workspace_ok) assumption+

lemma create_local_project_ok:
  assumes "store_ok s"
  shows "store_ok (snd (snd (create_local_project d here base fresh_inode k nm root_path parent name fs s)))"
proof -
  have "keeps store_ok (sbind (fs_call q) (open_local d here base fs' r))" for q fs' r
    by (intro ws_keeps open_local_ok)
  from keepsD [OF this assms] show ?thesis
    using assms by (auto simp: create_local_project_def Let_def split: sum.splits prod.splits option.splits)
qed

section \<open>Opening a folder twice\<close>

lemma ws_result:
  "sbind m f s = (Inr y, s') \<longleftrightarrow> (\<exists>x s1. m s = (Inr x, s1) \<and> f x s1 = (Inr y, s'))"
  "db g s = (Inr x, s') \<longleftrightarrow> g s = Inr (x, s')"
  "db_only h s = (Inr un, s') \<longleftrightarrow> h s = Inr s'"
  "fs_call q s = (Inr z, s') \<longleftrightarrow> q = Inr z \<and> s' = s"
  "touch_ws d i s = (Inr un, s') \<longleftrightarrow> s' = touch_workspace (dr_now d) i None s"
  "require_ws here base fs i s = (Inr v, s') \<longleftrightarrow> require here base fs i s = Inr v \<and> s' = s"
  by (auto simp: sbind_def db_def db_only_def fs_call_def touch_ws_def require_ws_def split: prod.splits sum.splits)

lemma hydrated_row: "hydrate_workspace here base fs w rv c m = Inr v \<Longrightarrow> wv_row v = w"
  by (auto simp: hydrate_workspace_def Let_def split: if_splits option.splits sum.splits)

lemma required_row:
  assumes "require here base fs i s = Inr v"
  shows "wv_row v \<in> set (workspaces s)" "w_id (wv_row v) = i"
proof -
  from assms obtain w rv c m where g: "get_workspace i s = Some (w, rv)" and "hydrate_workspace here base fs w rv c m = Inr v"
    by (auto simp: require_def split: option.splits if_splits)
  then have "wv_row v = w" using hydrated_row by blast
  from g have "(w, rv) \<in> set (with_root s (filter (\<lambda>w. w_id w = i) (workspaces s)))"
    by (auto simp: get_workspace_def split: list.splits)
  then have "w \<in> set (workspaces s) \<and> w_id w = i" by (auto simp: with_root_def)
  with \<open>wv_row v = w\<close> show "wv_row v \<in> set (workspaces s)" "w_id (wv_row v) = i" by auto
qed

lemma ensured_root:
  assumes "store_ok s" and "ensure_root_value now i p s = Inr (r, s')"
  shows "r \<in> set (roots s')" "r_path r = p" "workspaces s' = workspaces s"
  using assms
  by (auto simp: ensure_root_value_def Let_def insert_root_def split: option.splits sum.splits if_splits dest!: find_SomeD)

lemma ensured_again:
  assumes "store_ok s" and "r \<in> set (roots s)" and "r_path r = p"
  shows "ensure_root_value now i p s = Inr (r, s)"
proof -
  have "distinct (map r_path (roots s))" using store_ok_table(1) [OF assms(1)] by (simp add: roots_ok_def)
  then have "find (\<lambda>r. r_path r = p) (roots s) = Some r" using assms(2,3) by (simp add: find_Some_iff_unique)
  then show ?thesis by (simp add: ensure_root_value_def)
qed

lemma touched_rows: "workspaces (touch_workspace now i None s) = update_where (\<lambda>w. w_id w = i) (\<lambda>w. w\<lparr>w_opened := now\<rparr>) (workspaces s)"
  "roots (touch_workspace now i None s) = roots s" "remote_runs (touch_workspace now i None s) = remote_runs s"
  by (simp_all add: touch_workspace_def set_workspace_def)

lemma inserted_rows: "insert_workspace w s = Inr s' \<Longrightarrow> workspaces s' = workspaces s @ [w] \<and> roots s' = roots s \<and> remote_runs s' = remote_runs s"
  by (auto simp: insert_workspace_def split: if_splits)

text \<open>The row of an opened folder.\<close>

lemma open_local_row:
  assumes ok: "store_ok s" and "open_local d here base fs rp relative s = (Inr v, s')"
  obtains r reg directory normalized where "resolve fs rp = Inr r" "manager_resolve r relative fs = Inr directory"
    "manager_relative r directory fs = Inr normalized" "path_is_dir fs directory"
    "reg \<in> set (roots s')" "r_path reg = path_text r" "wv_row v \<in> set (workspaces s')"
    "w_root (wv_row v) = r_id reg" "w_relative (wv_row v) = normalized" "require here base fs (w_id (wv_row v)) s' = Inr v"
proof -
  from assms(2) obtain r reg s1 directory normalized where r: "resolve fs rp = Inr r"
      "ensure_root_value (dr_now d) (dr_root d) (path_text r) s = Inr (reg, s1)" "manager_resolve r relative fs = Inr directory"
      "path_is_dir fs directory" "manager_relative r directory fs = Inr normalized"
    and rest: "(case find_workspace (r_id reg) normalized s1 of
            Some w \<Rightarrow> sbind (touch_ws d (w_id w)) (\<lambda>_. require_ws here base fs (w_id w))
          | None \<Rightarrow> sbind (create_ws d (r_id reg) normalized (if directory = [] then path_text directory else last directory) None
                       (u ''local'') None None (u ''workspace'')) (\<lambda>w. require_ws here base fs (w_id w))) s1 = (Inr v, s')"
    by (auto simp: open_local_def ws_result Let_def split: if_splits)
  have ok1: "store_ok s1" using ok r(2) by (rule ensure_root_value_ok [rotated])
  note root = ensured_root [OF ok r(2)]
  have "reg \<in> set (roots s') \<and> wv_row v \<in> set (workspaces s') \<and> w_root (wv_row v) = r_id reg \<and> w_relative (wv_row v) = normalized
    \<and> require here base fs (w_id (wv_row v)) s' = Inr v"
  proof (cases "find_workspace (r_id reg) normalized s1")
    case (Some w)
    with rest have s': "s' = touch_workspace (dr_now d) (w_id w) None s1" and v: "require here base fs (w_id w) s' = Inr v"
      by (auto simp: ws_result)
    have w: "w \<in> set (workspaces s1)" "w_root w = r_id reg" "w_relative w = normalized"
      using Some by (auto simp: find_workspace_def dest!: find_SomeD)
    have ok': "store_ok s'" unfolding s' by (rule touch_workspace_ok [OF ok1])
    have "w\<lparr>w_opened := dr_now d\<rparr> \<in> set (workspaces s')" using w(1) by (auto simp: s' touched_rows set_update_where)
    then have "wv_row v = w\<lparr>w_opened := dr_now d\<rparr>"
      using required_row [OF v] by (intro workspace_table.lookup_unique [OF ok']) simp_all
    with required_row [OF v] v w root(1) show ?thesis by (simp add: s' touched_rows)
  next
    case None
    with rest obtain w where c: "create_ws d (r_id reg) normalized (if directory = [] then path_text directory else last directory) None
                       (u ''local'') None None (u ''workspace'') s1 = (Inr w, s')" and v: "require here base fs (w_id w) s' = Inr v"
      by (auto simp: ws_result)
    have ok': "store_ok s'" using keepsD [OF store_calls_ok(2) ok1 c] .
    from create_workspace_inserts [OF c [unfolded create_ws_def ws_result]] have w: "insert_workspace w s1 = Inr s'" "w_root w = r_id reg" "w_relative w = normalized"
      by auto
    have "w \<in> set (workspaces s')" using inserted_rows [OF w(1)] by simp
    then have "wv_row v = w" using required_row [OF v] by (intro workspace_table.lookup_unique [OF ok']) simp_all
    with w root(1) inserted_rows [OF w(1)] required_row [OF v] v show ?thesis by simp
  qed
  with r root(2) show thesis by (intro that) auto
qed

text \<open>A Workspace that can be shown can be shown after it was opened once more.\<close>

lemma touched_workspace:
  "get_workspace i (touch_workspace now i None s) = map_option (\<lambda>(w, rv). (w\<lparr>w_opened := now\<rparr>, rv)) (get_workspace i s)"
proof -
  have kept: "filter (\<lambda>w. w_id w = i) (update_where (\<lambda>w. w_id w = i) (\<lambda>w. w\<lparr>w_opened := now\<rparr>) ws) = map (\<lambda>w. w\<lparr>w_opened := now\<rparr>) (filter (\<lambda>w. w_id w = i) ws)"
    for ws by (induction ws) (simp_all add: update_where_def)
  have rows: "with_root (touch_workspace now i None s) (map (\<lambda>w. w\<lparr>w_opened := now\<rparr>) ws) = map (\<lambda>(w, rv). (w\<lparr>w_opened := now\<rparr>, rv)) (with_root s ws)"
    for ws by (induction ws) (simp_all add: with_root_def touched_rows)
  show ?thesis
    unfolding get_workspace_def touched_rows(1) kept rows by (cases "with_root s (filter (\<lambda>w. w_id w = i) (workspaces s))") auto
qed

lemma hydrated_touched:
  "hydrate_workspace here base fs (w\<lparr>w_opened := now\<rparr>) rv c m
    = map_sum id (\<lambda>v. v\<lparr>wv_row := w\<lparr>w_opened := now\<rparr>\<rparr>) (hydrate_workspace here base fs w rv c m)"
  by (simp add: hydrate_workspace_def Let_def split: option.split sum.split)

lemma required_touched:
  assumes "require here base fs i s = Inr v"
  shows "\<exists>v2. require here base fs i (touch_workspace now i None s) = Inr v2 \<and> w_id (wv_row v2) = i"
proof -
  have same: "get_computer c (touch_workspace now i None s) = get_computer c s"
    "get_remote_run_for_workspace i (touch_workspace now i None s) = get_remote_run_for_workspace i s" for c
    by (simp_all add: get_computer_def get_remote_run_for_workspace_def touch_workspace_def set_workspace_def)
  have "\<exists>v2. require here base fs i (touch_workspace now i None s) = Inr v2"
    using assms by (auto simp: require_def touched_workspace same hydrated_touched split: option.splits if_splits)
  then show ?thesis using required_row(2) by blast
qed

text \<open>C30: a folder below a root is one Workspace: opening it again below that root, under whatever name leads to the same
  folder, succeeds, returns the Workspace that exists and adds no row. (The root belongs to the identity: the same folder
  below two nested roots is two Workspaces.)\<close>

theorem folder_is_registered_once:
  assumes ok: "store_ok s" and first: "open_local d here base fs rp relative s = (Inr v, s')"
    and "resolve fs rp2 = resolve fs rp"
    and "\<forall>r. resolve fs rp = Inr r \<longrightarrow> manager_resolve r relative2 fs = manager_resolve r relative fs"
  shows "\<exists>v2 s''. open_local d2 here base fs rp2 relative2 s' = (Inr v2, s'') \<and> w_id (wv_row v2) = w_id (wv_row v)
    \<and> map w_id (workspaces s'') = map w_id (workspaces s') \<and> roots s'' = roots s'"
proof -
  have ok': "store_ok s'" using keepsD [OF open_local_ok ok first] .
  from ok first obtain r reg directory normalized where r: "resolve fs rp = Inr r" "manager_resolve r relative fs = Inr directory"
    "manager_relative r directory fs = Inr normalized" "path_is_dir fs directory"
    and reg: "reg \<in> set (roots s')" "r_path reg = path_text r" and w: "wv_row v \<in> set (workspaces s')"
    "w_root (wv_row v) = r_id reg" "w_relative (wv_row v) = normalized" and v: "require here base fs (w_id (wv_row v)) s' = Inr v"
    by (rule open_local_row)
  have "distinct (map (\<lambda>w. (w_root w, w_relative w)) (workspaces s'))" using store_ok_table(2) [OF ok'] by (simp add: workspaces_ok_def)
  from find_Some_iff_unique [OF this, of "(r_id reg, normalized)" "wv_row v"]
  have found: "find (\<lambda>w. (w_root w, w_relative w) = (r_id reg, normalized)) (workspaces s') = Some (wv_row v)"
    using w by simp
  let ?s = "touch_workspace (dr_now d2) (w_id (wv_row v)) None s'"
  obtain v2 where v2: "require here base fs (w_id (wv_row v)) ?s = Inr v2" "w_id (wv_row v2) = w_id (wv_row v)"
    using required_touched [OF v] by blast
  have "open_local d2 here base fs rp2 relative2 s' = (Inr v2, ?s)"
    using r assms(3,4) ensured_again [OF ok' reg] found v2
    by (simp add: open_local_def sbind_def db_def fs_call_def touch_ws_def require_ws_def find_workspace_def)
  moreover have "map w_id (workspaces ?s) = map w_id (workspaces s')" "roots ?s = roots s'"
    by (simp_all add: touched_rows update_where_def)
  ultimately show ?thesis using v2(2) by blast
qed

section \<open>The Workspace of a Remote Run\<close>

lemma result_simps:
  "give x s = (Inr y, s') \<longleftrightarrow> y = x \<and> s' = s" "ask h s = (Inr z, s') \<longleftrightarrow> z = h s \<and> s' = s"
  "interleave mw s = (Inr un, s') \<longleftrightarrow> s' = mw s"
  "find_run_workspace c p k s = (Inr found, s') \<longleftrightarrow> find_remote_workspace c p k s = Inr found \<and> s' = s"
  "assert_run_workspace c q p w s = (Inr un, s') \<longleftrightarrow> run_workspace_matches c q p w \<and> s' = s"
  "attach_run i j s = (Inr r, s') \<longleftrightarrow> attach_remote_run_workspace i j s = Inr (r, s')"
  "attach_or_delete i j s = (Inr un, s') \<longleftrightarrow> (\<exists>r. attach_remote_run_workspace i j s = Inr (r, s'))"
  by (auto simp: interleave_def find_run_workspace_def db_def rbind_def assert_run_workspace_def attach_run_def attach_or_delete_def
      split: sum.splits prod.splits)

lemma found_remote: "find_remote_workspace c p k s = Inr (Some w) \<Longrightarrow> w \<in> set (workspaces s)"
  by (auto simp: find_remote_workspace_def split: option.splits dest!: find_SomeD)

text \<open>The five ways to the Workspace of a run.\<close>

lemma run_workspace_cases:
  assumes "run_workspace d meanwhile m c q p s = (Inr i, s')" and session: "q \<noteq> []"
  obtains (attached) w where "w \<in> set (workspaces s)" "run_workspace_matches c q p w" "w_id w = i" "m_workspace m = Some i"
      "s' = touch_workspace (dr_now d) i None s"
  | (found) w r where "w \<in> set (workspaces s)" "run_workspace_matches c q p w" "w_id w = i"
      "attach_remote_run_workspace (m_id m) i s = Inr (r, s')"
  | (legacy) w r s1 where "w \<in> set (workspaces s)" "run_workspace_matches c q p w" "w_id w = i"
      "update_workspace_kind i (u ''remote_run'') s = Inr s1" "attach_remote_run_workspace (m_id m) i s1 = Inr (r, s')"
  | (created) v s1 w s2 r where "ensure_root_value (dr_now d) (dr_root d) (u ''ssh://'' @ c) s = Inr (v, s1)"
      "insert_workspace w (meanwhile s1) = Inr s2" "run_workspace_matches c q p w" "w_id w = i"
      "attach_remote_run_workspace (m_id m) i s2 = Inr (r, s')"
  | (raced) v s1 w r where "ensure_root_value (dr_now d) (dr_root d) (u ''ssh://'' @ c) s = Inr (v, s1)"
      "w \<in> set (workspaces (meanwhile s1))" "run_workspace_matches c q p w" "w_id w = i"
      "attach_remote_run_workspace (m_id m) i (meanwhile s1) = Inr (r, s')"
proof (cases "m_workspace m = None \<or> m_workspace m = Some []")
  case False
  then obtain a where a: "m_workspace m = Some a" "a \<noteq> []" by auto
  with assms(1) obtain w b where w: "get_workspace a s = Some (w, b)" "run_workspace_matches c q p w" "i = w_id w"
    "s' = touch_workspace (dr_now d) (w_id w) None s"
    by (auto simp: run_workspace_def ws_result result_simps split: option.splits)
  have "(w, b) \<in> set (with_root s (filter (\<lambda>w. w_id w = a) (workspaces s)))"
    using w(1) by (auto simp: get_workspace_def split: list.splits)
  then have "w \<in> set (workspaces s)" "w_id w = a" by (auto simp: with_root_def)
  with w a show thesis by (intro attached) auto
next
  case True
  then have unattached: "(if m_workspace m = Some [] then None else m_workspace m) = None" by auto
  note run = assms(1) [unfolded run_workspace_def unattached option.case ws_result(1) result_simps]
  from run obtain existing where e: "find_remote_workspace c p (u ''remote_run'') s = Inr existing" by blast
  show thesis
  proof (cases existing)
    case (Some w)
    with run e show thesis by (auto simp: ws_result result_simps intro: found dest: found_remote)
  next
    case None
    with run e obtain legacy_row where l: "find_remote_workspace c p (u ''workspace'') s = Inr legacy_row"
      by (auto simp: ws_result result_simps)
    show thesis
    proof (cases legacy_row)
      case (Some w)
      with run e l None show thesis by (auto simp: ws_result result_simps intro: legacy dest: found_remote)
    next
      case new: None
      with run e l None obtain w s2 r where c: "create_run_workspace d meanwhile m c q p s = (Inr w, s2)"
        "attach_remote_run_workspace (m_id m) (w_id w) s2 = Inr (r, s')" "i = w_id w"
        by (auto simp: ws_result result_simps)
      let ?label = "strip (if m_label m = [] then u ''Remote Run'' else m_label m)"
      let ?name = "if take 120 ?label = [] then u ''Remote Run'' else take 120 ?label"
      from c(1) obtain v s1 where root: "ensure_root_value (dr_now d) (dr_root d) (u ''ssh://'' @ c) s = Inr (v, s1)"
        and insert: "on_integrity_error (create_ws d (r_id v) p ?name (Some q) (u ''remote'') (Some c) (Some p) (u ''remote_run''))
           (sbind (find_run_workspace c p (u ''remote_run'')) (\<lambda>won. case won of None \<Rightarrow> fail (Db_Raised IntegrityError)
              | Some w \<Rightarrow> sbind (assert_run_workspace c q p w) (\<lambda>_. give w))) (meanwhile s1) = (Inr w, s2)"
        unfolding create_run_workspace_def Let_def by (auto simp: ws_result result_simps)
      show thesis
      proof (cases "create_ws d (r_id v) p ?name (Some q) (u ''remote'') (Some c) (Some p) (u ''remote_run'') (meanwhile s1)")
        case (Pair res s3)
        show thesis
        proof (cases res)
          case (Inr w')
          with insert Pair have w: "create_ws d (r_id v) p ?name (Some q) (u ''remote'') (Some c) (Some p) (u ''remote_run'') (meanwhile s1) = (Inr w, s2)"
            by (simp add: on_integrity_error_def)
          from create_workspace_inserts [OF this [unfolded create_ws_def ws_result]] session
          have "insert_workspace w (meanwhile s1) = Inr s2" "run_workspace_matches c q p w"
            by (auto simp: run_workspace_matches_def backend_kind_of_def split: if_splits)
          with root c show thesis by (intro created [of v s1 w]) auto
        next
          case (Inl e)
          with insert Pair have "e = Db_Raised IntegrityError" "s3 = meanwhile s1"
            by (auto simp: on_integrity_error_def create_ws_def db_def split: ws_exn.splits db_error.splits sum.splits)
          with insert Pair Inl have "find_remote_workspace c p (u ''remote_run'') (meanwhile s1) = Inr (Some w)"
            "run_workspace_matches c q p w" "s2 = meanwhile s1"
            by (auto simp: on_integrity_error_def ws_result result_simps split: option.splits)
          with root c show thesis by (intro raced [OF root, of w r]) (auto dest: found_remote)
        qed
      qed
    qed
  qed
qed

lemma kind_changed:
  assumes "update_workspace_kind i k s = Inr s'"
  shows "\<exists>wk. workspaces s' = update_where (\<lambda>w. w_id w = i) (\<lambda>w. w\<lparr>w_kind := wk\<rparr>) (workspaces s)" "remote_runs s' = remote_runs s"
  using assms by (auto simp: update_workspace_kind_def set_workspace_def Let_def split: option.splits if_splits)

lemma attached_rows:
  assumes "attach_remote_run_workspace i w s = Inr (r, s')"
  shows "workspaces s' = workspaces s"
  using assms by (cases rule: attach_cases) (auto simp: set_remote_run_def)

text \<open>The row that a run is led to, and what happens to the rows that are not the run's.\<close>

lemma run_workspace_result:
  assumes ok: "store_ok s" and other: "\<And>t. store_ok t \<Longrightarrow> store_ok (meanwhile t)"
    and run: "get_remote_run j s = Some m" and step: "run_workspace d meanwhile m c q p s = (Inr i, s')" and session: "q \<noteq> []"
  shows "(\<exists>w \<in> set (workspaces s'). w_id w = i \<and> run_workspace_matches c q p w)
    \<and> (\<exists>m'. get_remote_run j s' = Some m' \<and> m_workspace m' = Some i \<and> get_remote_run_for_workspace i s' = Some m')
    \<and> ((\<forall>t. set (workspaces t) \<subseteq> set (workspaces (meanwhile t))) \<longrightarrow>
        (\<forall>x \<in> set (workspaces s). run_workspace_matches c q p x \<or> x \<in> set (workspaces s')))"
proof -
  have j: "m_id m = j" "m \<in> set (remote_runs s)" using run by (auto simp: get_remote_run_def dest!: find_SomeD)
  have attach: "\<exists>m'. get_remote_run j s2 = Some m' \<and> m_workspace m' = Some i \<and> get_remote_run_for_workspace i s2 = Some m'"
    if "store_ok s1" "attach_remote_run_workspace (m_id m) i s1 = Inr (r, s2)" for s1 s2 r
  proof -
    have "m_workspace r = Some i" using that(2) by (cases rule: attach_cases) simp
    moreover have "get_remote_run (m_id m) s2 = Some r" "get_remote_run_for_workspace i s2 = Some r"
      using attachment_is_one_to_one [OF that] by (blast, blast)
    ultimately show ?thesis using j(1) by simp
  qed
  from step session show ?thesis
  proof (cases rule: run_workspace_cases)
    case (attached w)
    let ?touch = "\<lambda>w. w\<lparr>w_opened := dr_now d\<rparr>"
    have "?touch w \<in> set (workspaces s')" using attached by (auto simp: touched_rows set_update_where)
    moreover have "get_remote_run j s' = Some m" using run by (simp add: attached(5) get_remote_run_def touched_rows)
    moreover have "get_remote_run_for_workspace i s' = Some m"
    proof -
      have "distinct (remote_runs s)" using distinct_ids(6) [OF ok] by (simp add: distinct_map)
      moreover have "unique_where (\<lambda>m. m_workspace m \<noteq> None) m_workspace (remote_runs s)"
        using store_ok_table(8) [OF ok] by (simp add: remote_runs_ok_def)
      ultimately have one: "n = m" if "n \<in> set (remote_runs s)" "m_workspace n = Some i" for n
        using that j(2) attached(4) by (auto simp: unique_where_iff_inj inj_on_def)
      have "find (\<lambda>n. m_workspace n = Some i) (remote_runs s) \<noteq> None" using j(2) attached(4) by (auto simp: find_None_iff)
      then obtain n where n: "find (\<lambda>n. m_workspace n = Some i) (remote_runs s) = Some n" by blast
      with one find_SomeD [OF n] show ?thesis by (simp add: attached(5) get_remote_run_for_workspace_def touched_rows)
    qed
    moreover have "run_workspace_matches c q p x \<or> x \<in> set (workspaces s')" if x: "x \<in> set (workspaces s)" for x
    proof (cases "w_id x = i")
      case True
      then have "x = w" using x attached(1,3) by (intro workspace_table.lookup_unique [OF ok]) simp_all
      with attached(2) show ?thesis by simp
    next
      case False
      with x show ?thesis by (auto simp: attached(5) touched_rows set_update_where image_iff)
    qed
    moreover have "run_workspace_matches c q p (?touch w)" "w_id (?touch w) = i" using attached by (simp_all add: run_workspace_matches_def)
    ultimately show ?thesis using attached(4) by blast
  next
    case (found w r)
    with attach [OF ok] attached_rows [OF found(4)] show ?thesis by auto
  next
    case (legacy w r s1)
    have ok1: "store_ok s1" using legacy(4) ok by (rule update_workspace_kind_ok)
    obtain wk where rows: "workspaces s1 = update_where (\<lambda>w. w_id w = i) (\<lambda>w. w\<lparr>w_kind := wk\<rparr>) (workspaces s)"
      using kind_changed(1) [OF legacy(4)] by blast
    have "w\<lparr>w_kind := wk\<rparr> \<in> set (workspaces s')" "run_workspace_matches c q p (w\<lparr>w_kind := wk\<rparr>)"
      using legacy rows attached_rows [OF legacy(5)] by (auto simp: set_update_where run_workspace_matches_def)
    moreover have "run_workspace_matches c q p x \<or> x \<in> set (workspaces s')" if x: "x \<in> set (workspaces s)" for x
    proof (cases "w_id x = i")
      case True
      then have "x = w" using x legacy(1,3) by (intro workspace_table.lookup_unique [OF ok]) simp_all
      with legacy(2) show ?thesis by simp
    next
      case False
      with x rows attached_rows [OF legacy(5)] show ?thesis by (auto simp: set_update_where image_iff)
    qed
    ultimately show ?thesis using attach [OF ok1 legacy(5)] legacy(3) by (intro conjI bexI [of _ "w\<lparr>w_kind := wk\<rparr>"]) auto
  next
    case (created v s1 w s2 r)
    have "store_ok (meanwhile s1)" using ensure_root_value_ok [OF created(1) ok] other by blast
    then have ok2: "store_ok s2" using insert_workspace_ok [OF created(2)] by blast
    have "w \<in> set (workspaces s')" "set (workspaces (meanwhile s1)) \<subseteq> set (workspaces s')"
      using inserted_rows [OF created(2)] attached_rows [OF created(5)] by auto
    moreover have "set (workspaces s) \<subseteq> set (workspaces s')" if "\<forall>t. set (workspaces t) \<subseteq> set (workspaces (meanwhile t))"
      using that calculation(2) ensured_root(3) [OF ok created(1)] by (metis subset_trans)
    ultimately show ?thesis using attach [OF ok2 created(5)] created(3,4) by blast
  next
    case (raced v s1 w r)
    have ok1: "store_ok (meanwhile s1)" using ensure_root_value_ok [OF raced(1) ok] other by blast
    have rows: "workspaces s' = workspaces (meanwhile s1)" by (rule attached_rows [OF raced(5)])
    have "set (workspaces s) \<subseteq> set (workspaces s')" if "\<forall>t. set (workspaces t) \<subseteq> set (workspaces (meanwhile t))"
      using that rows ensured_root(3) [OF ok raced(1)] by metis
    with rows attach [OF ok1 raced(5)] raced(2-4) show ?thesis by auto
  qed
qed

text \<open>C31: the Workspace a Remote Run is opened with is on the run's computer, at the run's own work folder and tmux
  session, and it and the run name each other; nobody else's Workspace is taken over or changed, also when
  another thread inserts the row first.\<close>

theorem run_opens_its_own_workspace:
  assumes ok: "store_ok s" and other: "\<forall>t. store_ok t \<longrightarrow> store_ok (meanwhile t)"
    and step: "open_remote_run d meanwhile here base fs j session p s = (Inr v, s')"
  shows "\<exists>m m'. get_remote_run j s = Some m \<and> session = u ''termroom-run-'' @ j \<and> p = work_path_of m
    \<and> run_workspace_matches (m_target m) session p (wv_row v)
    \<and> get_remote_run j s' = Some m' \<and> m_workspace m' = Some (w_id (wv_row v))
    \<and> get_remote_run_for_workspace (w_id (wv_row v)) s' = Some m'
    \<and> ((\<forall>t. set (workspaces t) \<subseteq> set (workspaces (meanwhile t))) \<longrightarrow>
        (\<forall>x \<in> set (workspaces s). run_workspace_matches (m_target m) session p x \<or> x \<in> set (workspaces s')))"
proof -
  from step obtain m i where m: "get_remote_run j s = Some m" "session = u ''termroom-run-'' @ j" "p = work_path_of m"
    and run: "run_workspace d meanwhile m (m_target m) session p s = (Inr i, s')" and v: "require here base fs i s' = Inr v"
    by (auto simp: open_remote_run_def ws_result result_simps split: if_splits option.splits)
  have mw: "store_ok t \<Longrightarrow> store_ok (meanwhile t)" for t using other by blast
  have "session \<noteq> []" using m(2) by simp
  from run_workspace_result [OF ok mw m(1) run this] obtain w m' where w: "w \<in> set (workspaces s')" "w_id w = i"
      "run_workspace_matches (m_target m) session p w" and m': "get_remote_run j s' = Some m'" "m_workspace m' = Some i"
      "get_remote_run_for_workspace i s' = Some m'"
    and kept: "(\<forall>t. set (workspaces t) \<subseteq> set (workspaces (meanwhile t))) \<longrightarrow>
        (\<forall>x \<in> set (workspaces s). run_workspace_matches (m_target m) session p x \<or> x \<in> set (workspaces s'))"
    by blast
  have "store_ok s'"
  proof -
    have "keeps store_ok (run_workspace d meanwhile m (m_target m) session p)"
      unfolding run_workspace_def by (intro ws_keeps create_run_workspace_ok mw)
    from keepsD [OF this ok run] show ?thesis .
  qed
  from workspace_table.lookup_unique [OF this required_row(1) [OF v] w(1)] required_row(2) [OF v] w(2)
  have "wv_row v = w" by simp
  with m w m' kept required_row(2) [OF v] show ?thesis by blast
qed

section \<open>Creating a project folder\<close>

lemma split_on_single: "d \<notin> set s \<Longrightarrow> split_on d s = [s]"
  by (induction s) auto

lemma valid_project_name:
  assumes "validate_project_name name n = Inr safe"
  shows "safe = name" "path_parts name = [name]" "\<not> is_absolute name" "name \<noteq> dotdot"
proof -
  from assms have v: "safe = name" "name \<noteq> []" "name \<noteq> dot" "name \<noteq> dotdot" "slash \<notin> set name"
    by (auto simp: validate_project_name_def split: if_splits option.splits)
  then show "safe = name" "name \<noteq> dotdot" by auto
  show "path_parts name = [name]" using v by (simp add: path_parts_def split_on_single)
  show "\<not> is_absolute name" using v by (cases name) (auto simp: is_absolute_def starts_with_def)
qed

lemma resolve_inside_below: "resolve_inside r raw True fs = Inr p \<Longrightarrow> resolve fs r = Inr r \<Longrightarrow> prefix_of r p"
  by (auto simp: resolve_inside_def rbind_Inr_iff Let_def split: if_splits)

text \<open>C32: creating a project adds at most one entry to the file system, a new folder with the given name directly in
  the chosen folder below the root; whatever was at that name is refused and stays as it was, and no failure
  after the folder exists takes it away again.\<close>

theorem project_adds_one_folder:
  assumes "create_local_project d here base new_inode k limit rp parent_relative name fs s = (res, fs', s')"
  shows "fs' = fs \<or>
    (\<exists>r parent target q. resolve fs rp = Inr r \<and> manager_resolve r parent_relative fs = Inr parent
      \<and> target = parent @ [name] \<and> path_parts name = [name] \<and> entry_path fs target = Inr q
      \<and> map_of fs q = None \<and> fs' = put q (Directory new_inode k) fs
      \<and> (case res of Inr (v, t) \<Rightarrow> t = target | Inl e \<Rightarrow> \<exists>cause. e = Project_Workspace_Failed target cause))"
proof (cases "rbind (resolve fs rp) (\<lambda>r. rbind (manager_resolve r parent_relative fs) (\<lambda>p. Inr (r, p)))")
  case (Inl e)
  with assms show ?thesis by (simp add: create_local_project_def)
next
  case (Inr rpair)
  then obtain r parent where rp: "resolve fs rp = Inr r" "manager_resolve r parent_relative fs = Inr parent" "rpair = (r, parent)"
    by (auto simp: rbind_Inr_iff)
  show ?thesis
  proof (cases "fs' = fs")
    case False
    with assms rp obtain fs1 where n: "validate_project_name name (case limit of None \<Rightarrow> 255 | Some n \<Rightarrow> n) = Inr name"
      and mk: "sys_mkdir new_inode k (parent @ [name]) fs = Inr fs1" and open_it:
      "(case sbind (fs_call (manager_relative r (parent @ [name]) fs1)) (open_local d here base fs1 r) s of
          (Inl e, s') \<Rightarrow> (Inl (Project_Workspace_Failed (parent @ [name]) e), fs1, s')
        | (Inr v, s') \<Rightarrow> (Inr (v, parent @ [name]), fs1, s')) = (res, fs', s')"
      by (auto simp: create_local_project_def Let_def split: if_splits sum.splits dest: valid_project_name(1))
    from mk obtain q where entry: "entry_path fs (parent @ [name]) = Inr q"
      and "(case lstat fs q of Inr _ \<Rightarrow> Inl FileExistsError
            | Inl e \<Rightarrow> if e = FileNotFoundError then Inr (put q (Directory new_inode k) fs) else Inl e) = Inr fs1"
      unfolding sys_mkdir_def rbind_Inr_iff by blast
    then have q: "entry_path fs (parent @ [name]) = Inr q" "lstat fs q = Inl FileNotFoundError" "fs1 = put q (Directory new_inode k) fs"
      by (cases "lstat fs q"; simp split: if_splits)+
    from q(2) have "map_of fs q = None" by (auto simp: lstat_def split: if_splits option.splits)
    moreover have "fs' = fs1 \<and> (case res of Inr (v, t) \<Rightarrow> t = parent @ [name] | Inl e \<Rightarrow> \<exists>cause. e = Project_Workspace_Failed (parent @ [name]) cause)"
      using open_it by (auto split: prod.splits sum.splits)
    ultimately show ?thesis using rp(1,2) valid_project_name(2) [OF n] q(1,3) by blast
  qed simp
qed

text \<open>A registered folder that was replaced by a link leading out of its root makes every listing fail: the listing
  skips what is gone, but not what the boundary refuses.\<close>

lemma escaping_workspace_breaks_the_list:
  assumes "w_backend w = Local_Backend" and "is_absolute rv" and "resolve fs (path_parts rv) = Inr r" and "resolve fs r = Inr r"
    and "\<not> is_absolute (w_relative w)" and "resolve fs (r @ path_parts (w_relative w)) = Inr p" and "\<not> prefix_of r p"
  shows "hydrate_listed here base fs computer ((w, rv) # ws) = Inl (File_Raised (PathBoundaryError ''Path escapes the allowed boundary''))"
proof -
  have "rv \<noteq> []" using assms(2) by (auto simp: is_absolute_def starts_with_def)
  then have "hydrate_workspace here base fs w rv c m = Inl (File_Raised (PathBoundaryError ''Path escapes the allowed boundary''))" for c m
    using assms by (simp add: hydrate_workspace_def resolve_text_def resolve_inside_def Path_def Let_def)
  then show ?thesis by (simp add: skipped_def)
qed

section \<open>Witnesses\<close>

definition src_workspace :: workspace_row where "src_workspace = sample_workspace\<lparr>w_relative := u ''src''\<rparr>"
definition ws_root :: root_row where "ws_root = sample_root\<lparr>r_path := u ''/ws''\<rparr>"

definition folder_store :: store where
  "folder_store = sample_store\<lparr>roots := [ws_root, sample_virtual_root], workspaces := [src_workspace, sample_remote_workspace]\<rparr>"

lemma folder_store_ok: "store_ok folder_store"
  by (simp add: folder_store_def src_workspace_def ws_root_def store_ok_def table_ok_defs sample_defs remote_located_def
      server_terminal_slot_def managed_def active_file_run_def archive_format_ok_def)

definition some_draws :: draws where
  "some_draws = \<lparr>dr_now = 900, dr_root = u ''r9'', dr_ids = fresh_id, dr_fold = id, dr_alnum = (\<lambda>_. True)\<rparr>"

lemma ws_text: "path_text [u ''ws''] = u ''/ws''" "is_absolute (u ''/ws'')" "split_on slash (u ''/ws'') = [[], u ''ws'']"
  "split_on slash (u ''src'') = [u ''src'']" "\<not> is_absolute (u ''src'')" "u ''src'' \<noteq> u ''.''"
  by (simp_all add: path_text_def is_absolute_def starts_with_def u_def slash_def)

lemma src_dir: "resolve sample_fs [u ''ws'', u ''src''] = Inr [u ''ws'', u ''src'']" "path_is_dir sample_fs [u ''ws'', u ''src'']"
  by (simp_all add: path_is_dir_def os_stat_def resolve_def sample_simps)

lemma open_src:
  assumes "roots s = roots folder_store" and "workspaces s = [src_workspace\<lparr>w_opened := t\<rparr>, sample_remote_workspace]"
    and "remote_runs s = remote_runs folder_store"
  shows "\<exists>v s'. open_local some_draws [] [] sample_fs ws_dir (u ''src'') s = (Inr v, s') \<and> w_id (wv_row v) = u ''w1''
    \<and> roots s' = roots folder_store \<and> workspaces s' = [src_workspace\<lparr>w_opened := 900\<rparr>, sample_remote_workspace]
    \<and> remote_runs s' = remote_runs folder_store"
proof -
  have m: "manager_resolve [u ''ws''] (u ''src'') sample_fs = Inr [u ''ws'', u ''src'']"
    by (simp add: manager_resolve_def resolve_inside_def Path_def sample_ws src_dir ws_text path_parts_def dot_def)
  have n: "manager_relative [u ''ws''] [u ''ws'', u ''src''] sample_fs = Inr (u ''src'')"
    by (simp add: manager_relative_def src_dir relative_to_def as_posix_def)
  have r: "ensure_root_value 900 (u ''r9'') (u ''/ws'') s = Inr (ws_root, s)"
    using assms(1) by (simp add: ensure_root_value_def folder_store_def ws_root_def)
  have f: "find_workspace (r_id ws_root) (u ''src'') s = Some (src_workspace\<lparr>w_opened := t\<rparr>)"
    using assms(2) by (simp add: find_workspace_def src_workspace_def ws_root_def sample_workspace_def sample_root_def)
  let ?s = "touch_workspace 900 (u ''w1'') None s"
  have rows: "workspaces ?s = [src_workspace\<lparr>w_opened := 900\<rparr>, sample_remote_workspace]" "roots ?s = [ws_root, sample_virtual_root]"
    "remote_runs ?s = [sample_remote_run]"
    using assms by (simp_all add: touched_rows src_workspace_def sample_workspace_def sample_remote_workspace_def folder_store_def)
  have g: "get_workspace (u ''w1'') ?s = Some (src_workspace\<lparr>w_opened := 900\<rparr>, u ''/ws'')"
    by (simp add: get_workspace_def with_root_def rows src_workspace_def ws_root_def sample_root_def sample_virtual_root_def
        sample_workspace_def sample_remote_workspace_def)
  have "\<exists>v. require [] [] sample_fs (u ''w1'') ?s = Inr v \<and> w_id (wv_row v) = u ''w1''"
    by (simp add: require_def g hydrate_workspace_def resolve_text_def ws_text path_parts_def dot_def sample_ws resolve_inside_def
        Path_def src_dir src_workspace_def sample_workspace_def get_remote_run_for_workspace_def rows sample_remote_run_def)
  then show ?thesis
    using assms by (simp add: open_local_def sbind_def fs_call_def db_def ws_dir_def sample_ws ws_text some_draws_def r m n src_dir f
        touch_ws_def require_ws_def src_workspace_def sample_workspace_def rows folder_store_def split: sum.splits)
qed

theorem folder_witness:
  "\<exists>v s' v2 s''. open_local some_draws [] [] sample_fs ws_dir (u ''src'') folder_store = (Inr v, s')
    \<and> open_local some_draws [] [] sample_fs ws_dir (u ''src'') s' = (Inr v2, s'') \<and> w_id (wv_row v2) = u ''w1''
    \<and> map w_id (workspaces s'') = [u ''w1'', u ''w2'']"
proof -
  have "workspaces folder_store = [src_workspace\<lparr>w_opened := 200\<rparr>, sample_remote_workspace]"
    by (simp add: folder_store_def src_workspace_def sample_workspace_def)
  from open_src [OF refl this refl] obtain v s' where 1: "open_local some_draws [] [] sample_fs ws_dir (u ''src'') folder_store = (Inr v, s')"
    "w_id (wv_row v) = u ''w1''" and s': "roots s' = roots folder_store" "workspaces s' = [src_workspace\<lparr>w_opened := 900\<rparr>, sample_remote_workspace]"
    "remote_runs s' = remote_runs folder_store" by blast
  from folder_is_registered_once [OF folder_store_ok 1(1) refl, of "u ''src''" some_draws] obtain v2 s''
    where "open_local some_draws [] [] sample_fs ws_dir (u ''src'') s' = (Inr v2, s'')" "w_id (wv_row v2) = w_id (wv_row v)"
      "map w_id (workspaces s'') = map w_id (workspaces s')" by blast
  with 1 s'(2) show ?thesis by (auto simp: src_workspace_def sample_workspace_def)
qed

definition run_row :: workspace_row where
  "run_row = sample_remote_workspace\<lparr>w_tmux := u ''termroom-run-m1'', w_canonical := Some (u ''/srv/m1/work'')\<rparr>"

definition run_store :: store where
  "run_store = sample_store\<lparr>workspaces := [sample_workspace, run_row]\<rparr>"

lemma run_store_ok: "store_ok run_store"
  by (simp add: run_store_def run_row_def store_ok_def table_ok_defs sample_defs remote_located_def
      server_terminal_slot_def managed_def active_file_run_def archive_format_ok_def)

lemma run_path: "work_path_of sample_remote_run = u ''/srv/m1/work''" "pure_posix (u ''/srv/m1/work'') = u ''/srv/m1/work''"
  "absolute_posix (u ''/srv/m1/work'')" "\<not> list_ex (\<lambda>p. p = dot \<or> p = dotdot) (split_on slash (u ''/srv/m1/work''))"
  by (simp_all add: work_path_of_def pure_join_def pure_posix_def pure_text_def pure_root_def path_parts_def is_absolute_def starts_with_def
      sample_remote_run_def absolute_posix_def is_cc_def u_def slash_def backslash_def dot_def dotdot_def)

theorem run_workspace_witness:
  "\<exists>v s'. open_remote_run some_draws id [] [] sample_fs (u ''m1'') (u ''termroom-run-m1'') (u ''/srv/m1/work'') run_store = (Inr v, s')
    \<and> w_tmux (wv_row v) = u ''termroom-run-m1''
    \<and> (\<exists>m'. get_remote_run (u ''m1'') s' = Some m' \<and> m_workspace m' = Some (w_id (wv_row v)))"
proof -
  let ?s = "touch_workspace 900 (u ''w2'') None run_store"
  have rows: "workspaces ?s = [sample_workspace, run_row\<lparr>w_opened := 900\<rparr>]" "roots ?s = [sample_root, sample_virtual_root]"
    "remote_runs ?s = [sample_remote_run]" "computers ?s = [sample_computer, sample_node]"
    by (simp_all add: run_store_def run_row_def touch_workspace_def set_workspace_def sample_remote_workspace_def sample_workspace_def)
  have "\<exists>v. require [] [] sample_fs (u ''w2'') ?s = Inr v"
    by (simp add: require_def get_workspace_def with_root_def rows hydrate_workspace_def get_computer_def Let_def run_row_def sample_defs)
  moreover have "get_workspace (u ''w2'') run_store = Some (run_row, u ''ssh://c1'')"
    by (simp add: get_workspace_def with_root_def run_store_def run_row_def sample_defs)
  moreover have "run_workspace_matches (u ''c1'') (u ''termroom-run-m1'') (u ''/srv/m1/work'') run_row"
    by (simp add: run_workspace_matches_def run_row_def sample_remote_workspace_def)
  moreover have "get_remote_run (u ''m1'') run_store = Some sample_remote_run" "get_computer (u ''c1'') run_store = Some sample_computer"
    by (simp_all add: get_remote_run_def get_computer_def run_store_def)
  moreover have "u ''termroom-run-m1'' = u ''termroom-run-'' @ u ''m1''" by (simp add: u_def)
  ultimately obtain v where v: "open_remote_run some_draws id [] [] sample_fs (u ''m1'') (u ''termroom-run-m1'') (u ''/srv/m1/work'') run_store = (Inr v, ?s)"
    using run_path by (auto simp: open_remote_run_def run_workspace_def sbind_def assert_run_workspace_def touch_ws_def require_ws_def
        some_draws_def sample_remote_run_def run_row_def sample_remote_workspace_def)
  from run_opens_its_own_workspace [OF run_store_ok _ this] show ?thesis
    using v by (auto simp: run_workspace_matches_def)
qed

theorem project_witness:
  "\<exists>res fs' s'. create_local_project some_draws [] [] (ino 9 9) 0 None ws_dir (u ''src'') (u ''new'') sample_fs folder_store = (res, fs', s')
    \<and> map_of fs' [u ''ws'', u ''src'', u ''new''] = Some (Directory (ino 9 9) 0)"
proof -
  obtain res fs' s' where r: "create_local_project some_draws [] [] (ino 9 9) 0 None ws_dir (u ''src'') (u ''new'') sample_fs folder_store = (res, fs', s')"
    by (metis prod_cases3)
  have m: "manager_resolve [u ''ws''] (u ''src'') sample_fs = Inr [u ''ws'', u ''src'']"
    by (simp add: manager_resolve_def resolve_inside_def Path_def sample_ws src_dir ws_text path_parts_def dot_def)
  have name: "validate_project_name (u ''new'') 255 = Inr (u ''new'')"
    by (simp add: validate_project_name_def strip_def is_space_def u_def dot_def dotdot_def slash_def backslash_def is_cc_def
        utf8_length_def is_surrogate_def utf8_width_def)
  have entry: "entry_path sample_fs [u ''ws'', u ''src'', u ''new''] = Inr [u ''ws'', u ''src'', u ''new'']"
    by (simp add: entry_path_def src_dir)
  have free: "lstat sample_fs [u ''ws'', u ''src'', u ''new''] = Inl FileNotFoundError"
    by (simp add: lstat_def sample_fs_def ws_dir_def main_file_def)
  from entry free have "os_lstat sample_fs [u ''ws'', u ''src'', u ''new''] = Inl FileNotFoundError" by (simp add: os_lstat_def)
  with r have "fs' = put [u ''ws'', u ''src'', u ''new''] (Directory (ino 9 9) 0) sample_fs"
    using m name entry free src_dir
    by (auto simp: create_local_project_def ws_dir_def sample_ws sys_mkdir_def Let_def split: prod.splits sum.splits)
  then have "map_of fs' [u ''ws'', u ''src'', u ''new''] \<noteq> map_of sample_fs [u ''ws'', u ''src'', u ''new'']"
    using free by (auto simp: lstat_def split: if_splits option.splits)
  then have "fs' \<noteq> sample_fs" by blast
  with project_adds_one_folder [OF r] have "fs' = put [u ''ws'', u ''src'', u ''new''] (Directory (ino 9 9) 0) sample_fs"
    using m entry by (auto simp: ws_dir_def sample_ws)
  with r show ?thesis by auto
qed

end
