(* ===== verification/File_Run_Manager.thy ===== *)
theory File_Run_Manager
  imports Workspace_Manager Store_Activity Store_Terminals
begin

text \<open>
  \<open>FileRunManager\<close> of \<^verbatim>\<open>termroom/file_runs.py\<close>: resolving the Runner of a file, starting a run, following it, stopping
  and killing it, and the observer that looks at the active runs. The backends (tmux on the server, SSH, a Node)
  are arguments: \<open>backend\<close> answers the call at a position of the log of calls. The operations of one Workspace hold
  its lock, so an operation is one sequence of calls of the store and of a backend.
\<close>

section \<open>Runners\<close>

definition runner_registry_version :: int where "runner_registry_version = 1"

record runner_spec =
  rs_id :: ustr
  rs_suffixes :: "ustr list"
  rs_program :: ustr
  rs_prefix :: "ustr list"
  rs_error :: ustr

record resolved_runner =
  rr_id :: ustr
  rr_version :: int
  rr_argv :: "ustr list"
  rr_error :: ustr

definition runner_specs :: "runner_spec list" where
  "runner_specs =
    [\<lparr>rs_id = u ''python3'', rs_suffixes = [u ''.py''], rs_program = u ''python3'', rs_prefix = [u ''--''],
      rs_error = u ''python3_missing''\<rparr>,
     \<lparr>rs_id = u ''node'', rs_suffixes = [u ''.js'', u ''.mjs'', u ''.cjs''], rs_program = u ''node'', rs_prefix = [u ''--''],
      rs_error = u ''nodejs_missing''\<rparr>,
     \<lparr>rs_id = u ''bash'', rs_suffixes = [u ''.sh'', u ''.bash''], rs_program = u ''bash'',
      rs_prefix = [u ''--noprofile'', u ''--norc'', u ''--''], rs_error = u ''bash_missing''\<rparr>]"

definition suffix_runners :: "(ustr \<times> runner_spec) list" where
  "suffix_runners = concat (map (\<lambda>r. map (\<lambda>x. (x, r)) (rs_suffixes r)) runner_specs)"

text \<open>\<^verbatim>\<open>PurePosixPath.suffix\<close>: from the last dot of the name, unless it starts or ends it.\<close>

definition name_suffix :: "ustr \<Rightarrow> ustr" where
  "name_suffix name =
    (let tail = takeWhile (\<lambda>c. c \<noteq> 46) (rev name); i = length name - Suc (length tail) in
     if 46 \<notin> set name \<or> i = 0 \<or> tail = [] then [] else drop i name)"

datatype failure =
    File_Conflict | Unsupported_File | Value_Failure | OS_Failure | Remote_Access_Failure | SSH_Failure
  | Terminal_Failure | Key_Failure | Other_Failure

datatype run_exn = Refused string | Slot_Occupied file_run_row | Raised failure ustr

definition resolve_runner :: "runnable_file \<Rightarrow> run_exn + resolved_runner option" where
  "resolve_runner f =
    (let parts = path_parts (rf_relative f) in
     if is_absolute (rf_relative f) \<or> parts = [] \<or> list_ex (\<lambda>p. p = [] \<or> p = dot \<or> p = dotdot) parts
     then Inl (Raised Value_Failure (u ''File Run path must be normalized and Workspace-relative''))
     else
       (let executable_path = dot @ [slash] @ as_posix parts in
        if rf_executable f \<and> rf_shebang f
        then Inr (Some \<lparr>rr_id = u ''direct'', rr_version = runner_registry_version, rr_argv = [executable_path],
                        rr_error = u ''direct_runner_failed''\<rparr>)
        else Inr (map_option (\<lambda>r. \<lparr>rr_id = rs_id r, rr_version = runner_registry_version,
                                   rr_argv = rs_program r # rs_prefix r @ [executable_path], rr_error = rs_error r\<rparr>)
                    (map_of suffix_runners (name_suffix (last parts))))))"

section \<open>The world of an operation\<close>

datatype place = On_Server | On_SSH | On_Node

datatype backend_call =
    Inspect_File place ustr "ustr option"
  | Start_Program place ustr resolved_runner ustr ustr
  | Observe_Run place ustr
  | Interrupt_Run place ustr
  | Kill_Run place ustr
  | Remove_Metadata ustr ustr
  | Remove_Workspace_Metadata ustr

record run_observation =
  ob_state :: ustr
  ob_started :: "stamp option"
  ob_ended :: "stamp option"
  ob_exit :: "int option"
  ob_error :: "ustr option"
  ob_detail :: "ustr option"

text \<open>What a backend writes to the terminal registry while it works: the Workspace's windows are reconciled, or the
  window made for the run is registered.\<close>

datatype terminal_write =
    Windows_Reconciled stamp "nat \<Rightarrow> ustr" "live_window list"
  | Window_Created stamp ustr ustr ustr

definition apply_write :: "ustr \<Rightarrow> terminal_write \<Rightarrow> store \<Rightarrow> store" where
  "apply_write workspace_id wr s =
    (case wr of
       Windows_Reconciled now ids windows \<Rightarrow>
         (case reconcile_terminals now ids workspace_id windows s of Inl _ \<Rightarrow> s | Inr r \<Rightarrow> snd r)
     | Window_Created now i name window \<Rightarrow>
         (case create_terminal now i workspace_id name window None None A_None s of Inl _ \<Rightarrow> s | Inr r \<Rightarrow> snd r))"

text \<open>What the world answers at a position of the log: the backends (with what they write to the terminal
  registry), the file system, the clocks, fresh identifiers, and whether a Node has the capability.\<close>

record backend =
  be_inspect :: "nat \<Rightarrow> (failure \<times> ustr) + runnable_file"
  be_start :: "nat \<Rightarrow> (failure \<times> ustr) + ustr"
  be_observe :: "nat \<Rightarrow> (failure \<times> ustr) + run_observation"
  be_interrupt :: "nat \<Rightarrow> (failure \<times> ustr) + bool"
  be_kill :: "nat \<Rightarrow> (failure \<times> ustr) + bool"
  be_writes :: "nat \<Rightarrow> terminal_write list"
  be_fs :: "nat \<Rightarrow> fs"
  be_now :: "nat \<Rightarrow> stamp"
  be_tick :: "nat \<Rightarrow> rat"
  be_id :: "nat \<Rightarrow> ustr"
  be_supports :: "nat \<Rightarrow> bool"

record manager_settings =
  ms_here :: path
  ms_base :: path
  ms_remote :: bool

record run_world =
  fr_store :: store
  fr_log :: "backend_call list"
  fr_cleanup_at :: rat

type_synonym 'a fr = "run_world \<Rightarrow> (run_exn + 'a) \<times> run_world"

definition fgive :: "'a \<Rightarrow> 'a fr" where "fgive x w = (Inr x, w)"
definition ffail :: "run_exn \<Rightarrow> 'a fr" where "ffail e w = (Inl e, w)"
definition fask :: "(run_world \<Rightarrow> 'a) \<Rightarrow> 'a fr" where "fask f w = (Inr (f w), w)"
definition flift :: "run_exn + 'a \<Rightarrow> 'a fr" where "flift r w = (r, w)"

definition fbind :: "'a fr \<Rightarrow> ('a \<Rightarrow> 'b fr) \<Rightarrow> 'b fr" where
  "fbind m f w = (case m w of (Inl e, w') \<Rightarrow> (Inl e, w') | (Inr x, w') \<Rightarrow> f x w')"

definition fcatch :: "'a fr \<Rightarrow> (run_exn \<Rightarrow> 'a fr) \<Rightarrow> 'a fr" where
  "fcatch m h w = (case m w of (Inl e, w') \<Rightarrow> h e w' | r \<Rightarrow> r)"

definition here_log :: "(nat \<Rightarrow> 'a) \<Rightarrow> 'a fr" where
  "here_log f w = (Inr (f (length (fr_log w))), w)"

text \<open>A call of a backend about a Workspace: it is logged, the backend writes to the registry, and it answers or
  fails.\<close>

definition fcall :: "backend \<Rightarrow> ustr \<Rightarrow> backend_call \<Rightarrow> (nat \<Rightarrow> (failure \<times> ustr) + 'a) \<Rightarrow> 'a fr" where
  "fcall b workspace_id c answer w =
    (let n = length (fr_log w);
         w' = w\<lparr>fr_log := fr_log w @ [c], fr_store := fold (apply_write workspace_id) (be_writes b n) (fr_store w)\<rparr>
     in case answer n of Inl (k, m) \<Rightarrow> (Inl (Raised k m), w') | Inr x \<Rightarrow> (Inr x, w'))"

definition db_failure :: "db_error \<Rightarrow> run_exn" where
  "db_failure e =
    (case e of
       db_error.KeyError m \<Rightarrow> Raised Key_Failure (u m)
     | db_error.ValueError m \<Rightarrow> Raised Value_Failure (u m)
     | db_error.RuntimeError m \<Rightarrow> Raised Other_Failure (u m)
     | IntegrityError \<Rightarrow> Raised Other_Failure [])"

definition fdb :: "(store \<Rightarrow> ('a \<times> store) result) \<Rightarrow> 'a fr" where
  "fdb f w = (case f (fr_store w) of Inl e \<Rightarrow> (Inl (db_failure e), w) | Inr (x, s) \<Rightarrow> (Inr x, w\<lparr>fr_store := s\<rparr>))"

section \<open>Identifiers and paths\<close>

definition validate_uuid :: "ustr \<Rightarrow> ustr fr" where
  "validate_uuid v = (if uuid4_text v then fgive v else ffail (Raised Value_Failure (u ''is invalid'')))"

definition workspace_id_text :: "ustr \<Rightarrow> bool" where
  "workspace_id_text v \<longleftrightarrow> v \<noteq> []
    \<and> List.list_all (\<lambda>c. 97 \<le> c \<and> c \<le> 122 \<or> 65 \<le> c \<and> c \<le> 90 \<or> 48 \<le> c \<and> c \<le> 57 \<or> c = 45 \<or> c = 95) v"

definition validate_workspace_id :: "ustr \<Rightarrow> ustr fr" where
  "validate_workspace_id v = (if workspace_id_text v then fgive v else ffail (Raised Value_Failure (u ''Workspace id is invalid'')))"

definition metadata_dir :: "path \<Rightarrow> ustr \<Rightarrow> ustr \<Rightarrow> path option" where
  "metadata_dir metadata_root workspace_id run_id =
    (if uuid4_text run_id \<and> workspace_id_text workspace_id then Some (metadata_root @ [workspace_id, run_id]) else None)"

section \<open>Workspaces of a run\<close>

definition is_node_workspace :: "manager_settings \<Rightarrow> workspace_view \<Rightarrow> bool" where
  "is_node_workspace m v \<longleftrightarrow> ms_remote m \<and> (\<exists>c. wv_computer v = Some c \<and> c_method c = Node_Method)"

definition place_of :: "manager_settings \<Rightarrow> workspace_view \<Rightarrow> place" where
  "place_of m v =
    (if w_backend (wv_row v) = Remote_Backend then (if is_node_workspace m v then On_Node else On_SSH) else On_Server)"

definition not_supported :: run_exn where "not_supported = Refused ''workspace_not_supported''"

definition eligible_workspace :: "manager_settings \<Rightarrow> backend \<Rightarrow> workspace_view \<Rightarrow> unit fr" where
  "eligible_workspace m b v =
    (if w_kind (wv_row v) \<noteq> Workspace_Kind \<or> wv_transient v then ffail not_supported
     else if w_backend (wv_row v) = Remote_Backend
     then (case map_option c_method (wv_computer v) of
             Some Node_Method \<Rightarrow>
               if \<not> ms_remote m then ffail not_supported
               else fbind (here_log (be_supports b)) (\<lambda>yes. if yes then fgive () else ffail not_supported)
           | Some Ssh_Method \<Rightarrow> fgive ()
           | None \<Rightarrow> ffail not_supported)
     else fgive ())"

definition inspect :: "manager_settings \<Rightarrow> backend \<Rightarrow> workspace_view \<Rightarrow> ustr \<Rightarrow> ustr option \<Rightarrow> runnable_file fr" where
  "inspect m b v relative_path expected =
    fbind (eligible_workspace m b v) (\<lambda>_. 
      fcall b (w_id (wv_row v)) (Inspect_File (place_of m v) relative_path expected) (be_inspect b))"

definition runner_for_file :: "manager_settings \<Rightarrow> backend \<Rightarrow> workspace_view \<Rightarrow> ustr \<Rightarrow> resolved_runner option fr" where
  "runner_for_file m b v relative_path = fbind (inspect m b v relative_path None) (\<lambda>f. flift (resolve_runner f))"

definition ws_failure :: "ws_exn \<Rightarrow> run_exn" where
  "ws_failure e =
    (case e of
       Key_Error s \<Rightarrow> Raised Key_Failure (u s)
     | ws_exn.Value_Error s \<Rightarrow> Raised Value_Failure (u s)
     | File_Raised f \<Rightarrow>
         (case f of
            file_error.ValueError s \<Rightarrow> Raised Value_Failure (u s)
          | PathBoundaryError s \<Rightarrow> Raised Value_Failure (u s)
          | DirectoryListingLimitError s \<Rightarrow> Raised Value_Failure (u s)
          | UnsupportedFileError s \<Rightarrow> Raised Unsupported_File (u s)
          | FileConflictError s \<Rightarrow> Raised File_Conflict (u s)
          | SymlinkLoop \<Rightarrow> Raised Other_Failure []
          | _ \<Rightarrow> Raised OS_Failure [])
     | Project_Name_Error _ \<Rightarrow> Raised Value_Failure []
     | Project_Path_Exists _ _ \<Rightarrow> Raised OS_Failure []
     | Unicode_Encode_Error \<Rightarrow> Raised Value_Failure []
     | _ \<Rightarrow> Raised Other_Failure [])"

definition require_workspace :: "manager_settings \<Rightarrow> backend \<Rightarrow> ustr \<Rightarrow> workspace_view fr" where
  "require_workspace m b i w =
    (case require (ms_here m) (ms_base m) (be_fs b (length (fr_log w))) i (fr_store w) of
       Inl e \<Rightarrow> (Inl (ws_failure e), w) | Inr v \<Rightarrow> (Inr v, w))"


section \<open>Reading runs\<close>

text \<open>A run as the operations return it: its row with its Workspace, and whether it could be looked at.\<close>

record run_view =
  rv_run :: file_run_row
  rv_workspace :: workspace_row
  rv_connection :: "ustr option"

definition ended_view :: "run_view \<Rightarrow> bool" where "ended_view v \<longleftrightarrow> terminal_state (f_state (rv_run v))"

definition get_run :: "ustr \<Rightarrow> run_view fr" where
  "get_run run_id =
    fbind (validate_uuid run_id) (\<lambda>i.
    fbind (fask (\<lambda>w. get_file_run i (fr_store w))) (\<lambda>r.
      case r of None \<Rightarrow> ffail (Raised Key_Failure (u ''Unknown File Run''))
      | Some (f, ws) \<Rightarrow> fgive \<lparr>rv_run = f, rv_workspace = ws, rv_connection = None\<rparr>))"

definition with_connection :: "ustr \<Rightarrow> run_view \<Rightarrow> run_view" where
  "with_connection c v = v\<lparr>rv_connection := Some c\<rparr>"

definition active_for_workspace :: "ustr \<Rightarrow> store \<Rightarrow> (file_run_row \<times> workspace_row) option" where
  "active_for_workspace workspace_id s = get_active_file_run workspace_id s"

definition latest_for_file :: "ustr \<Rightarrow> ustr \<Rightarrow> store \<Rightarrow> (file_run_row \<times> workspace_row) option" where
  "latest_for_file workspace_id relative_path s = get_latest_file_run workspace_id (Some relative_path) s"

section \<open>History\<close>

definition remove_metadata :: "backend \<Rightarrow> (ustr \<times> ustr) list \<Rightarrow> unit fr" where
  "remove_metadata b gone =
    foldr (\<lambda>(run_id, workspace_id) rest.
        fbind (validate_uuid run_id) (\<lambda>_. fbind (validate_workspace_id workspace_id) (\<lambda>_.
        fbind (\<lambda>w. (Inr (), w\<lparr>fr_log := fr_log w @ [Remove_Metadata workspace_id run_id]\<rparr>)) (\<lambda>_. rest))))
      gone (fgive ())"

definition cleanup_history :: "backend \<Rightarrow> bool \<Rightarrow> (cleanup_count \<times> (ustr \<times> ustr) list) fr" where
  "cleanup_history b force =
    fbind (here_log (be_tick b)) (\<lambda>tick.
    fbind (fask fr_cleanup_at) (\<lambda>due.
      if \<not> force \<and> tick < due then fgive (\<lparr>cc_events = 0, cc_devices = 0\<rparr>, [])
      else
      fbind (\<lambda>w. (Inr (), w\<lparr>fr_cleanup_at := tick + 6 * 60 * 60\<rparr>)) (\<lambda>_.
      fbind (here_log (be_now b)) (\<lambda>now.
      fbind (fdb (\<lambda>s. map_sum id (\<lambda>(c, gone, s'). ((c, gone), s')) (prune_history tick (Aware now) s))) (\<lambda>(c, gone).
      fbind (remove_metadata b gone) (\<lambda>_. fgive (c, gone)))))))"

definition cleanup_workspace_metadata :: "ustr \<Rightarrow> unit fr" where
  "cleanup_workspace_metadata workspace_id =
    fbind (validate_workspace_id workspace_id) (\<lambda>i w. (Inr (), w\<lparr>fr_log := fr_log w @ [Remove_Workspace_Metadata i]\<rparr>))"

section \<open>Following a run\<close>

text \<open>The metadata directory of a run on the server: its two parts are checked.\<close>

definition server_dir :: "manager_settings \<Rightarrow> workspace_view \<Rightarrow> ustr \<Rightarrow> unit fr" where
  "server_dir m v run_id =
    (if place_of m v = On_Server
     then fbind (validate_uuid run_id) (\<lambda>_. fbind (validate_workspace_id (w_id (wv_row v))) (\<lambda>_. fgive ()))
     else fgive ())"

definition observe_backend :: "manager_settings \<Rightarrow> backend \<Rightarrow> workspace_view \<Rightarrow> ustr \<Rightarrow> run_observation fr" where
  "observe_backend m b v run_id =
    fbind (server_dir m v run_id) (\<lambda>_. fcall b (w_id (wv_row v)) (Observe_Run (place_of m v) run_id) (be_observe b))"

definition expecting :: "ustr list \<Rightarrow> file_change" where
  "expecting states = \<lparr>fc_expected = states, fc_state = None, fc_started = None, fc_stop = None, fc_ended = None,
     fc_exit = None, fc_error = None, fc_detail = None\<rparr>"

definition active_states :: "ustr list" where "active_states = [u ''preparing'', u ''running'']"

definition transition :: "backend \<Rightarrow> ustr \<Rightarrow> file_change \<Rightarrow> bool fr" where
  "transition b run_id c =
    fbind (here_log (be_now b)) (\<lambda>now. fbind (here_log (be_id b)) (\<lambda>new_id.
      fdb (transition_file_run now new_id run_id c)))"

definition or_stamp :: "stamp option \<Rightarrow> stamp option \<Rightarrow> stamp option" where
  "or_stamp a b = (case a of None \<Rightarrow> b | Some t \<Rightarrow> Some t)"

definition apply_observation :: "backend \<Rightarrow> file_run_row \<Rightarrow> run_observation \<Rightarrow> unit fr" where
  "apply_observation b run ob =
    (if ob_state ob \<notin> set (map u [''preparing'', ''running'', ''finished'', ''stopped'', ''failed'', ''lost'']) then fgive ()
     else if terminal_state (f_state run) then fgive ()
     else if ob_state ob = u ''preparing'' then fgive ()
     else
     fbind (here_log (be_now b)) (\<lambda>now.
       let started = or_stamp (ob_started ob) (f_started run) in
       if ob_state ob = u ''running''
       then fbind (transition b (f_id run) ((expecting active_states)\<lparr>fc_state := Some (u ''running''),
                fc_started := Some (or_stamp started (Some now)), fc_error := Some None, fc_detail := Some None\<rparr>))
              (\<lambda>_. fgive ())
       else fbind (transition b (f_id run) ((expecting active_states)\<lparr>fc_state := Some (ob_state ob),
                fc_started := Some started, fc_ended := Some (or_stamp (ob_ended ob) (Some now)),
                fc_exit := Some (ob_exit ob), fc_error := Some (ob_error ob), fc_detail := Some (ob_detail ob)\<rparr>))
              (\<lambda>_. fgive ())))"

definition unreachable :: "run_exn \<Rightarrow> bool" where
  "unreachable e = (case e of Raised k _ \<Rightarrow> k = Remote_Access_Failure \<or> k = SSH_Failure | _ \<Rightarrow> False)"

definition backend_failed :: "run_exn \<Rightarrow> bool" where
  "backend_failed e = (unreachable e \<or> (case e of Raised k _ \<Rightarrow> k = OS_Failure \<or> k = Terminal_Failure | _ \<Rightarrow> False))"

text \<open>\<^verbatim>\<open>except ... as exc\<close>: the exceptions that are not named go on.\<close>

definition except :: "(run_exn \<Rightarrow> bool) \<Rightarrow> 'a fr \<Rightarrow> (run_exn \<Rightarrow> 'a fr) \<Rightarrow> 'a fr" where
  "except named body handler = fcatch body (\<lambda>e. if named e then handler e else ffail e)"

definition reconcile_locked :: "manager_settings \<Rightarrow> backend \<Rightarrow> ustr \<Rightarrow> run_view fr" where
  "reconcile_locked m b i =
    fbind (get_run i) (\<lambda>run.
      if ended_view run then fgive (with_connection (u ''online'') run)
      else
      fbind (require_workspace m b (f_workspace (rv_run run))) (\<lambda>v.
      fbind (except unreachable (fbind (observe_backend m b v i) (\<lambda>ob. fgive (Some ob))) (\<lambda>_. fgive None)) (\<lambda>ob.
        case ob of None \<Rightarrow> fgive (with_connection (u ''offline'') run)
        | Some x \<Rightarrow> fbind (apply_observation b (rv_run run) x) (\<lambda>_.
                     fbind (get_run i) (\<lambda>r. fgive (with_connection (u ''online'') r))))))"

definition locked :: "ustr \<Rightarrow> (ustr \<Rightarrow> 'a fr) \<Rightarrow> 'a fr" where
  "locked run_id body =
    fbind (validate_uuid run_id) (\<lambda>i. fbind (get_run i) (\<lambda>initial.
    fbind (validate_workspace_id (f_workspace (rv_run initial))) (\<lambda>_. body i)))"

definition reconcile :: "manager_settings \<Rightarrow> backend \<Rightarrow> ustr \<Rightarrow> run_view fr" where
  "reconcile m b run_id = locked run_id (reconcile_locked m b)"


section \<open>Starting a run\<close>

text \<open>The body of the \<^verbatim>\<open>try\<close>: the file is inspected again, the program is dispatched, its terminal recorded and the
  run reconciled. The first component of the answer is whether a dispatch was attempted when the body ended.\<close>

definition confirm :: "manager_settings \<Rightarrow> backend \<Rightarrow> workspace_view \<Rightarrow> runnable_file \<Rightarrow> resolved_runner \<Rightarrow> unit fr" where
  "confirm m b v runnable runner =
    fbind (inspect m b v (rf_relative runnable) (Some (rf_digest runnable))) (\<lambda>confirmed.
    fbind (flift (resolve_runner confirmed)) (\<lambda>confirmed_runner.
      if confirmed_runner \<noteq> Some runner then ffail (Raised File_Conflict (u ''The file Runner changed before execution''))
      else fgive ()))"

definition dispatch :: "manager_settings \<Rightarrow> backend \<Rightarrow> workspace_view \<Rightarrow> ustr \<Rightarrow> runnable_file \<Rightarrow> resolved_runner \<Rightarrow> run_view fr" where
  "dispatch m b v run_id runnable runner =
    fbind (server_dir m v run_id) (\<lambda>_.
    fbind (fcall b (w_id (wv_row v)) (Start_Program (place_of m v) run_id runner (rf_relative runnable) (rf_digest runnable))
             (be_start b)) (\<lambda>terminal.
    fbind (fdb (set_file_run_terminal run_id terminal)) (\<lambda>_. reconcile m b run_id)))"

definition source_changed :: "run_exn \<Rightarrow> bool" where
  "source_changed e = (case e of Raised k _ \<Rightarrow> k = File_Conflict \<or> k = Unsupported_File \<or> k = Value_Failure | _ \<Rightarrow> False)"

definition detail_of :: "run_exn \<Rightarrow> ustr" where
  "detail_of e = (case e of Raised _ t \<Rightarrow> t | Refused t \<Rightarrow> u t | Slot_Occupied _ \<Rightarrow> [])"

definition fail_run :: "backend \<Rightarrow> ustr \<Rightarrow> string \<Rightarrow> run_exn \<Rightarrow> run_view fr" where
  "fail_run b run_id code e =
    fbind (here_log (be_now b)) (\<lambda>now.
    fbind (transition b run_id ((expecting [u ''preparing''])\<lparr>fc_state := Some (u ''failed''), fc_ended := Some (Some now),
             fc_error := Some (Some (u code)), fc_detail := Some (Some (detail_of e))\<rparr>)) (\<lambda>_. get_run run_id))"

text \<open>A dispatch to a Remote that failed may have started the program all the same: the Remote is asked.\<close>

definition after_dispatch_failure :: "manager_settings \<Rightarrow> backend \<Rightarrow> workspace_view \<Rightarrow> ustr \<Rightarrow> run_exn \<Rightarrow> run_view fr" where
  "after_dispatch_failure m b v run_id e =
    fbind (except backend_failed (fbind (observe_backend m b v run_id) (\<lambda>ob. fgive (Some ob))) (\<lambda>_. fgive None)) (\<lambda>ob.
      case ob of
        Some x \<Rightarrow>
          if ob_state x = u ''lost'' then fail_run b run_id ''start_failed'' e
          else fbind (get_run run_id) (\<lambda>current. fbind (apply_observation b (rv_run current) x) (\<lambda>_.
               fbind (get_run run_id) (\<lambda>r. fgive (with_connection (u ''online'') r))))
      | None \<Rightarrow>
          fbind (transition b run_id ((expecting [u ''preparing''])\<lparr>fc_state := Some (u ''preparing''),
            fc_error := Some (Some (u ''start_status_unknown'')), fc_detail := Some (Some (detail_of e))\<rparr>))
          (\<lambda>_. get_run run_id))"

definition start_failed :: "manager_settings \<Rightarrow> backend \<Rightarrow> workspace_view \<Rightarrow> ustr \<Rightarrow> bool \<Rightarrow> run_exn \<Rightarrow> run_view fr" where
  "start_failed m b v run_id dispatch_attempted e =
    (if source_changed e then fail_run b run_id ''source_changed'' e
     else if backend_failed e then
       (if dispatch_attempted \<and> w_backend (wv_row v) = Remote_Backend then after_dispatch_failure m b v run_id e
        else fail_run b run_id ''start_failed'' e)
     else ffail e)"

definition launch :: "manager_settings \<Rightarrow> backend \<Rightarrow> workspace_view \<Rightarrow> ustr \<Rightarrow> runnable_file \<Rightarrow> resolved_runner \<Rightarrow> run_view fr" where
  "launch m b v run_id runnable runner w =
    (case confirm m b v runnable runner w of
       (Inl e, w') \<Rightarrow> start_failed m b v run_id False e w'
     | (Inr _, w') \<Rightarrow> fcatch (dispatch m b v run_id runnable runner) (start_failed m b v run_id True) w')"

definition claim_of :: "workspace_view \<Rightarrow> ustr \<Rightarrow> ustr \<Rightarrow> runnable_file \<Rightarrow> resolved_runner \<Rightarrow> file_claim" where
  "claim_of v run_id key runnable runner =
    \<lparr>p_id = Some run_id, p_workspace = Some (w_id (wv_row v)), p_key = Some key, p_path = Some (rf_relative runnable),
     p_digest = Some (rf_digest runnable), p_runner = Some (rr_id runner), p_version = Some (rr_version runner),
     p_argv = Some (rr_argv runner)\<rparr>"

definition claim_run :: "stamp \<Rightarrow> file_claim \<Rightarrow> (claim_outcome \<times> file_run_row) fr" where
  "claim_run now p = fdb (\<lambda>s. map_sum id (\<lambda>(k, r, s'). ((k, r), s')) (claim_file_run now p s))"

text \<open>Up to the Runner of the inspected file.\<close>

definition prepare ::
    "manager_settings \<Rightarrow> backend \<Rightarrow> workspace_view \<Rightarrow> ustr \<Rightarrow> ustr \<Rightarrow> ustr \<Rightarrow> (runnable_file \<times> resolved_runner) fr" where
  "prepare m b v relative_path expected_digest idempotency_key =
    fbind (eligible_workspace m b v) (\<lambda>_.
    fbind (cleanup_history b False) (\<lambda>_.
    fbind (validate_uuid idempotency_key) (\<lambda>_.
    fbind (inspect m b v relative_path (Some expected_digest)) (\<lambda>runnable.
    fbind (flift (resolve_runner runnable)) (\<lambda>resolved.
      case resolved of None \<Rightarrow> ffail (Refused ''runner_not_supported'') | Some runner \<Rightarrow> fgive (runnable, runner))))))"

definition start_locked ::
    "manager_settings \<Rightarrow> backend \<Rightarrow> workspace_view \<Rightarrow> ustr \<Rightarrow> ustr \<Rightarrow> ustr \<Rightarrow> run_view fr" where
  "start_locked m b v relative_path expected_digest idempotency_key =
    fbind (prepare m b v relative_path expected_digest idempotency_key) (\<lambda>(runnable, runner).
    fbind (here_log (be_id b)) (\<lambda>run_id.
    fbind (here_log (be_now b)) (\<lambda>now.
    fbind (claim_run now (claim_of v run_id idempotency_key runnable runner)) (\<lambda>(claim, claimed).
      case claim of
        Claim_Idempotent \<Rightarrow>
          if \<not> terminal_state (f_state claimed) then reconcile m b (f_id claimed) else get_run (f_id claimed)
      | Claim_Occupied \<Rightarrow> ffail (Slot_Occupied claimed)
      | Claim_Created \<Rightarrow> launch m b v run_id runnable runner))))"

definition start :: "manager_settings \<Rightarrow> backend \<Rightarrow> workspace_view \<Rightarrow> ustr \<Rightarrow> ustr \<Rightarrow> ustr \<Rightarrow> run_view fr" where
  "start m b v relative_path expected_digest idempotency_key =
    fbind (eligible_workspace m b v) (\<lambda>_. fbind (validate_workspace_id (w_id (wv_row v))) (\<lambda>_.
      start_locked m b v relative_path expected_digest idempotency_key))"

section \<open>Stopping a run\<close>

definition interrupt_backend :: "manager_settings \<Rightarrow> backend \<Rightarrow> workspace_view \<Rightarrow> ustr \<Rightarrow> bool fr" where
  "interrupt_backend m b v i =
    fbind (server_dir m v i) (\<lambda>_. fcall b (w_id (wv_row v)) (Interrupt_Run (place_of m v) i) (be_interrupt b))"

definition kill_backend :: "manager_settings \<Rightarrow> backend \<Rightarrow> workspace_view \<Rightarrow> ustr \<Rightarrow> bool fr" where
  "kill_backend m b v i =
    fbind (server_dir m v i) (\<lambda>_. fcall b (w_id (wv_row v)) (Kill_Run (place_of m v) i) (be_kill b))"

definition record_stop :: "backend \<Rightarrow> ustr \<Rightarrow> stamp \<Rightarrow> unit fr" where
  "record_stop b i stamp = fbind (transition b i ((expecting active_states)\<lparr>fc_stop := Some (Some stamp)\<rparr>)) (\<lambda>_. fgive ())"

definition stop :: "manager_settings \<Rightarrow> backend \<Rightarrow> ustr \<Rightarrow> (run_view \<times> bool) fr" where
  "stop m b run_id =
    locked run_id (\<lambda>i.
    fbind (reconcile m b i) (\<lambda>run.
      if ended_view run then fgive (run, False)
      else
      fbind (here_log (be_now b)) (\<lambda>now.
      fbind (require_workspace m b (f_workspace (rv_run run))) (\<lambda>v.
      fbind (interrupt_backend m b v i) (\<lambda>sent.
        if \<not> sent
        then fbind (reconcile m b i) (\<lambda>updated.
               if ended_view updated then fgive (updated, False)
               else ffail (Raised Terminal_Failure (u ''File Run interrupt could not be confirmed'')))
        else fbind (record_stop b i (the (or_stamp (f_stop (rv_run run)) (Some now)))) (\<lambda>_.
             fbind (reconcile m b i) (\<lambda>updated. fgive (updated, \<not> ended_view updated))))))))"

definition kill :: "manager_settings \<Rightarrow> backend \<Rightarrow> ustr \<Rightarrow> run_view fr" where
  "kill m b run_id =
    locked run_id (\<lambda>i.
    fbind (reconcile m b i) (\<lambda>run.
      if ended_view run then fgive run
      else
      fbind (here_log (be_now b)) (\<lambda>now.
      fbind (require_workspace m b (f_workspace (rv_run run))) (\<lambda>v.
      fbind (kill_backend m b v i) (\<lambda>killed.
      fbind (if killed then record_stop b i (the (or_stamp (f_stop (rv_run run)) (Some now))) else fgive ()) (\<lambda>_.
      fbind (reconcile m b i) (\<lambda>updated.
        if killed \<and> \<not> ended_view updated
        then fbind (here_log (be_now b)) (\<lambda>ended.
             fbind (transition b i ((expecting active_states)\<lparr>fc_state := Some (u ''stopped''),
               fc_ended := Some (Some ended), fc_error := Some (Some (u ''forced''))\<rparr>)) (\<lambda>_. get_run i))
        else fgive updated)))))))"

section \<open>The observer\<close>

text \<open>A round over the active runs: those that are due are reconciled, and each still active one gets the time of
  its next look, later the more often it could not be reached.\<close>

definition observer_delay :: "nat \<Rightarrow> rat" where
  "observer_delay count = min 30 (2 ^ min (count - 1) 4)"

record observer =
  on_next :: "ustr \<rightharpoonup> rat"
  on_failures :: "ustr \<rightharpoonup> nat"

definition suppressed :: "run_exn \<Rightarrow> bool" where
  "suppressed e = (backend_failed e \<or> (case e of Raised k _ \<Rightarrow> k = Key_Failure \<or> k = Value_Failure \<or> k = Unsupported_File | _ \<Rightarrow> False))"

definition forget :: "ustr \<Rightarrow> observer \<Rightarrow> observer" where
  "forget i ob = ob\<lparr>on_next := (on_next ob)(i := None), on_failures := (on_failures ob)(i := None)\<rparr>"

definition observe_one :: "manager_settings \<Rightarrow> backend \<Rightarrow> rat \<Rightarrow> ustr \<Rightarrow> observer \<Rightarrow> observer fr" where
  "observe_one m b now i ob =
    (if (case on_next ob i of None \<Rightarrow> 0 | Some t \<Rightarrow> t) > now then fgive ob
     else
     fbind (except suppressed (fbind (reconcile m b i) (\<lambda>r. fgive (Some r))) (\<lambda>_. fgive None)) (\<lambda>r.
     fbind (here_log (be_tick b)) (\<lambda>t.
       let offline = (case r of None \<Rightarrow> True | Some v \<Rightarrow> rv_connection v = Some (u ''offline''));
           ended = (case r of None \<Rightarrow> False | Some v \<Rightarrow> ended_view v);
           count = Suc (case on_failures ob i of None \<Rightarrow> 0 | Some n \<Rightarrow> n)
       in fgive (if ended then forget i ob
                 else if offline
                 then ob\<lparr>on_failures := (on_failures ob)(i \<mapsto> count), on_next := (on_next ob)(i \<mapsto> t + observer_delay count)\<rparr>
                 else ob\<lparr>on_failures := (on_failures ob)(i := None), on_next := (on_next ob)(i \<mapsto> t + 1)\<rparr>))))"

fun observe_each :: "manager_settings \<Rightarrow> backend \<Rightarrow> rat \<Rightarrow> ustr list \<Rightarrow> observer \<Rightarrow> observer fr" where
  "observe_each m b now [] ob = fgive ob"
| "observe_each m b now (i # is) ob = fbind (observe_one m b now i ob) (observe_each m b now is)"

text \<open>One round: the identifiers of the active runs, the observer after it and how long it then waits (\<open>None\<close>:
  until it is woken).\<close>

definition observer_wait :: "rat \<Rightarrow> ustr list \<Rightarrow> observer \<Rightarrow> rat option" where
  "observer_wait t runs ob =
    (if runs = [] then None
     else Some (max 0 (Min (set (map (\<lambda>i. case on_next ob i of None \<Rightarrow> t | Some x \<Rightarrow> x) runs)) - t)))"

definition observer_round :: "manager_settings \<Rightarrow> backend \<Rightarrow> observer \<Rightarrow> (observer \<times> rat option) fr" where
  "observer_round m b ob =
    fbind (fask (\<lambda>w. map (\<lambda>r. f_id (fst r)) (list_active_file_runs (fr_store w)))) (\<lambda>active.
      let kept = ob\<lparr>on_next := (on_next ob) |` set active, on_failures := (\<lambda>i. if on_next ob i \<noteq> None \<and> i \<notin> set active
                     then None else on_failures ob i)\<rparr>
      in fbind (here_log (be_tick b)) (\<lambda>now.
         fbind (observe_each m b now active kept) (\<lambda>ob'.
         fbind (here_log (be_tick b)) (\<lambda>t. fgive (ob', observer_wait t active ob')))))"

fun reconcile_startup :: "manager_settings \<Rightarrow> backend \<Rightarrow> ustr list \<Rightarrow> unit fr" where
  "reconcile_startup m b [] = fgive ()"
| "reconcile_startup m b (i # is) =
     fbind (except suppressed (fbind (reconcile m b i) (\<lambda>_. fgive ())) (\<lambda>_. fgive ())) (\<lambda>_. reconcile_startup m b is)"

end
