(* ===== verification/File_Run_Laws.thy ===== *)
theory File_Run_Laws
  imports File_Run_Manager Store_Machine
begin

text \<open>
  How the operations of \<open>FileRunManager\<close> move the world. \<open>run_calculus\<close> is the interface of a relation of worlds that
  every piece of an operation respects; its client lemmas lift it to the operations, and it is interpreted for what
  happens to the rows of the runs and for what is dispatched.
\<close>

section \<open>The calculus\<close>

definition is_start :: "backend_call \<Rightarrow> bool" where
  "is_start c = (case c of Start_Program _ _ _ _ _ \<Rightarrow> True | _ \<Rightarrow> False)"

lemma is_start_simps [simp]:
  "is_start (Start_Program p i r t d)" "\<not> is_start (Inspect_File p t x)" "\<not> is_start (Observe_Run p i)"
  "\<not> is_start (Interrupt_Run p i)" "\<not> is_start (Kill_Run p i)" "\<not> is_start (Remove_Metadata t d)"
  "\<not> is_start (Remove_Workspace_Metadata t)"
  by (simp_all add: is_start_def)

definition active_change :: "file_change \<Rightarrow> bool" where
  "active_change c \<longleftrightarrow> (\<exists>E. states_of (fc_expected c) = Some E \<and> E \<subseteq> {Preparing, Running})"

lemma active_change_expecting [simp]:
  "active_change ((expecting active_states)\<lparr>fc_state := a, fc_started := s, fc_error := e, fc_detail := d\<rparr>)"
  "active_change ((expecting active_states)\<lparr>fc_state := a, fc_started := s, fc_ended := n, fc_exit := x, fc_error := e,
     fc_detail := d\<rparr>)"
  "active_change ((expecting active_states)\<lparr>fc_stop := p\<rparr>)"
  "active_change ((expecting active_states)\<lparr>fc_state := a, fc_ended := n, fc_error := e\<rparr>)"
  "active_change ((expecting [u ''preparing''])\<lparr>fc_state := a, fc_ended := n, fc_error := e, fc_detail := d\<rparr>)"
  "active_change ((expecting [u ''preparing''])\<lparr>fc_state := a, fc_error := e, fc_detail := d\<rparr>)"
  by (simp_all add: active_change_def expecting_def active_states_def states_of_def run_state_of_def)

named_theorems fr_pieces \<open>the pieces of an operation respect the relation\<close>

locale run_calculus =
  fixes R :: "run_world \<Rightarrow> run_world \<Rightarrow> bool" and ok_call :: "backend_call \<Rightarrow> bool"
  assumes R_refl: "R w w"
    and R_trans: "R w w' \<Longrightarrow> R w' w'' \<Longrightarrow> R w w''"
    and R_call: "ok_call c \<Longrightarrow> R w (w\<lparr>fr_log := fr_log w @ [c], fr_store := fold (apply_write i) wrs (fr_store w)\<rparr>)"
    and R_link: "set_file_run_terminal i t (fr_store w) = Inr (x, s') \<Longrightarrow> R w (w\<lparr>fr_store := s'\<rparr>)"
    and R_move: "active_change ch \<Longrightarrow> transition_file_run now nid i ch (fr_store w) = Inr (x, s') \<Longrightarrow> R w (w\<lparr>fr_store := s'\<rparr>)"
    and follow_calls: "\<not> is_start c \<Longrightarrow> ok_call c"
begin

definition steady :: "'a fr \<Rightarrow> bool" where
  "steady m \<longleftrightarrow> (\<forall>w. R w (snd (m w)))"

lemma steadyD: "steady m \<Longrightarrow> m w = (r, w') \<Longrightarrow> R w w'"
  unfolding steady_def by (metis snd_conv)

lemma steady_pure:
  "steady (fgive x)" "steady (ffail e)" "steady (fask f)" "steady (flift r)" "steady (here_log g)"
  "steady (validate_uuid i)" "steady (validate_workspace_id i)" "steady (require_workspace m b i)"
  by (auto simp: steady_def fgive_def ffail_def fask_def flift_def here_log_def R_refl validate_uuid_def
      validate_workspace_id_def require_workspace_def split: sum.splits)

lemma steady_bind: "steady m \<Longrightarrow> (\<And>x. steady (f x)) \<Longrightarrow> steady (fbind m f)"
  unfolding steady_def fbind_def
proof (intro allI)
  fix w
  assume m: "\<forall>w. R w (snd (m w))" and f: "\<And>x. \<forall>w. R w (snd (f x w))"
  obtain r w' where r: "m w = (r, w')" by (cases "m w")
  with m have "R w w'" by (metis snd_conv)
  with f R_trans show "R w (snd (case m w of (Inl e, w') \<Rightarrow> (Inl e, w') | (Inr x, w') \<Rightarrow> f x w'))"
    unfolding r by (cases r) auto
qed

lemma steady_catch: "steady m \<Longrightarrow> (\<And>e. steady (h e)) \<Longrightarrow> steady (fcatch m h)"
  unfolding steady_def fcatch_def
proof (intro allI)
  fix w
  assume m: "\<forall>w. R w (snd (m w))" and h: "\<And>e. \<forall>w. R w (snd (h e w))"
  obtain r w' where r: "m w = (r, w')" by (cases "m w")
  with m have "R w w'" by (metis snd_conv)
  with h R_trans show "R w (snd (case m w of (Inl e, w') \<Rightarrow> h e w' | (Inr aa, b) \<Rightarrow> (Inr aa, b)))"
    unfolding r by (cases r) auto
qed

lemma steady_split:
  "(b \<Longrightarrow> steady m) \<Longrightarrow> (\<not> b \<Longrightarrow> steady n) \<Longrightarrow> steady (if b then m else n)"
  "steady m \<Longrightarrow> (\<And>x. steady (f x)) \<Longrightarrow> steady (case q of None \<Rightarrow> m | Some x \<Rightarrow> f x)"
  "(\<And>x y. steady (g x y)) \<Longrightarrow> steady (case p of (x, y) \<Rightarrow> g x y)"
  by (auto split: option.splits prod.splits)

lemma steady_except: "steady m \<Longrightarrow> (\<And>e. steady (h e)) \<Longrightarrow> steady (except named m h)"
  unfolding except_def by (intro steady_catch steady_split steady_pure)

lemma steady_call: "ok_call c \<Longrightarrow> steady (fcall b i c answer)"
  unfolding steady_def fcall_def Let_def using R_call by (auto split: sum.splits)

lemma steady_transition: "active_change c \<Longrightarrow> steady (transition b i c)"
  unfolding transition_def
  by (intro steady_bind steady_pure) (auto simp: steady_def fdb_def R_refl split: sum.splits prod.splits intro: R_move)

lemma steady_link: "steady (fdb (set_file_run_terminal i t))"
  by (auto simp: steady_def fdb_def R_refl split: sum.splits prod.splits intro: R_link)

lemmas steps = steady_pure steady_bind steady_split steady_except steady_catch steady_call steady_transition steady_link
  follow_calls

text \<open>Following, stopping and killing a run.\<close>

lemma steady_get_run: "steady (get_run i)"
  unfolding get_run_def by (intro steps)

lemma steady_server_dir: "steady (server_dir m v i)"
  unfolding server_dir_def by (intro steps)

lemma steady_observe: "steady (observe_backend m b v i)"
  unfolding observe_backend_def by (intro steps steady_server_dir) simp

lemma steady_eligible: "steady (eligible_workspace m b v)"
  unfolding eligible_workspace_def
  by (intro steps; (simp split: option.split connection_method.split; intro conjI impI allI steps)?)

lemma steady_inspect: "steady (inspect m b v p d)"
  unfolding inspect_def by (intro steps steady_eligible) simp

lemma steady_apply: "steady (apply_observation b f ob)"
  unfolding apply_observation_def Let_def by (intro steps; simp)

lemma steady_locked: "(\<And>i. steady (body i)) \<Longrightarrow> steady (locked i body)"
  unfolding locked_def by (intro steps steady_get_run)

lemma steady_reconcile: "steady (reconcile m b i)"
  unfolding reconcile_def reconcile_locked_def
  by (intro steady_locked steps steady_get_run steady_observe steady_apply)

lemma steady_stop: "steady (stop m b i)"
  unfolding stop_def interrupt_backend_def record_stop_def
  by (intro steady_locked steps steady_reconcile steady_server_dir; simp)

lemma steady_kill: "steady (kill m b i)"
  unfolding kill_def kill_backend_def record_stop_def
  by (intro steady_locked steps steady_reconcile steady_server_dir steady_get_run; simp)

lemma steady_observe_one: "steady (observe_one m b now i ob)"
  unfolding observe_one_def Let_def by (intro steps steady_reconcile)

lemma steady_observe_each: "steady (observe_each m b now is ob)"
  by (induction "is" arbitrary: ob) (simp_all add: steady_pure steady_bind steady_observe_one)

lemma steady_observer_round: "steady (observer_round m b ob)"
  unfolding observer_round_def Let_def by (intro steps steady_observe_each)

lemma steady_startup: "steady (reconcile_startup m b is)"
  by (induction "is") (simp_all add: steady_pure steady_bind steady_except steady_reconcile)

text \<open>What follows the claim of a start.\<close>

lemma steady_confirm: "steady (confirm m b v f r)"
  unfolding confirm_def by (intro steps steady_inspect)

lemma steady_fail_run: "steady (fail_run b i code e)"
  unfolding fail_run_def by (intro steps steady_get_run) simp

lemma steady_start_failed: "steady (start_failed m b v i d e)"
  unfolding start_failed_def after_dispatch_failure_def
  by (intro steps steady_fail_run steady_observe steady_get_run steady_apply; simp)

lemma steady_dispatch: "(\<And>c. ok_call c) \<Longrightarrow> steady (dispatch m b v i f r)"
  unfolding dispatch_def by (intro steady_bind steady_call steady_link steady_server_dir steady_reconcile)

lemma steady_launch:
  assumes "\<And>c. ok_call c"
  shows "steady (launch m b v i f r)"
proof -
  have "R w (snd (launch m b v i f r w))" for w
  proof -
    obtain q w' where q: "confirm m b v f r w = (q, w')" by (cases "confirm m b v f r w")
    have a: "R w w'" by (rule steadyD [OF steady_confirm q])
    have "R w' (snd (start_failed m b v i False e w'))" for e
      using steady_start_failed by (simp add: steady_def)
    moreover have "R w' (snd (fcatch (dispatch m b v i f r) (start_failed m b v i True) w'))"
      using steady_catch [OF steady_dispatch [OF assms] steady_start_failed] by (simp add: steady_def)
    ultimately show ?thesis using R_trans [OF a] by (simp add: launch_def q split: sum.split)
  qed
  then show ?thesis by (simp add: steady_def)
qed

end

text \<open>A relation that also covers the claim of a new run and the pruning of old ones.\<close>

locale claim_calculus = run_calculus +
  fixes fresh :: "ustr \<Rightarrow> bool"
  assumes R_claim: "p_id p = Some i \<Longrightarrow> fresh i \<Longrightarrow> claim_file_run now p (fr_store w) = Inr (k, r, s') \<Longrightarrow> R w (w\<lparr>fr_store := s'\<rparr>)"
    and R_prune: "prune_history tick ck (fr_store w) = Inr (c, g, s') \<Longrightarrow> R w (w\<lparr>fr_store := s'\<rparr>)"
    and R_due: "R w (w\<lparr>fr_cleanup_at := t\<rparr>)"
begin

lemma steady_remove: "steady (remove_metadata b gone)"
proof (induction gone)
  case (Cons g gone)
  have "R w (w\<lparr>fr_log := fr_log w @ [Remove_Metadata x y]\<rparr>)" for w x y
    using R_call [of "Remove_Metadata x y" w undefined "[]"] follow_calls by simp
  then have "steady (\<lambda>w. (Inr (), w\<lparr>fr_log := fr_log w @ [Remove_Metadata x y]\<rparr>))" for x y
    by (simp add: steady_def)
  with Cons show ?case
    unfolding remove_metadata_def by (auto simp: case_prod_beta intro!: steady_bind steady_pure)
qed (simp add: remove_metadata_def steady_pure)

lemma steady_cleanup: "steady (cleanup_history b force)"
proof -
  have due: "steady (\<lambda>w. (Inr (), w\<lparr>fr_cleanup_at := t\<rparr>))" for t by (simp add: steady_def R_due)
  have prune: "steady (fdb (\<lambda>s. map_sum id (\<lambda>(c, gone, s'). ((c, gone), s')) (prune_history tick now s)))" for tick now
    unfolding steady_def fdb_def
    using R_prune R_refl by (auto simp: map_sum_def split: sum.splits prod.splits)
  show ?thesis unfolding cleanup_history_def by (intro steps due prune steady_remove)
qed

lemma steady_claim: "p_id p = Some i \<Longrightarrow> fresh i \<Longrightarrow> steady (claim_run now p)"
  unfolding steady_def claim_run_def fdb_def
  using R_claim R_refl by (auto simp: map_sum_def split: sum.splits prod.splits)

lemma steady_prepare: "steady (prepare m b v p d k)"
  unfolding prepare_def by (intro steps steady_eligible steady_cleanup steady_inspect)

lemma steady_start:
  assumes calls: "\<And>c. ok_call c" and fresh: "\<And>n. fresh (be_id b n)"
  shows "steady (start m b v p d k)"
proof -
  have id: "steady (fbind (here_log (be_id b)) g)" if "\<And>n. steady (g (be_id b n))" for g :: "ustr \<Rightarrow> run_view fr"
    using that by (simp add: steady_def fbind_def here_log_def)
  have claim: "steady (claim_run now (claim_of v (be_id b n) key f r))" for now n key f r
    by (rule steady_claim [where i = "be_id b n"]) (simp_all add: claim_of_def fresh)
  show ?thesis unfolding start_def start_locked_def
    by (intro steps steady_eligible steady_prepare id claim; (simp split: claim_outcome.split)?;
        (intro conjI impI steps steady_reconcile steady_get_run steady_launch calls)?)
qed

end


section \<open>The rows of the runs\<close>

text \<open>\<open>g\<close> is a later state of the run \<open>f\<close>: what was claimed is the same, the revision did not go back, and a run that
  ended is the same up to the terminal it points to.\<close>

definition continues :: "file_run_row \<Rightarrow> file_run_row \<Rightarrow> bool" where
  "continues f g \<longleftrightarrow> f_id g = f_id f \<and> f_workspace g = f_workspace f \<and> f_key g = f_key f \<and> f_path g = f_path f
     \<and> f_digest g = f_digest f \<and> f_runner g = f_runner f \<and> f_runner_version g = f_runner_version f
     \<and> f_argv g = f_argv f \<and> f_created g = f_created f \<and> f_revision f \<le> f_revision g
     \<and> (terminal_state (f_state f) \<longrightarrow> g = f\<lparr>f_terminal := f_terminal g\<rparr>)"

lemma continues_refl [simp]: "continues f f"
  by (simp add: continues_def)

lemma continues_terminal [simp]: "continues f (f\<lparr>f_terminal := t\<rparr>)"
  by (simp add: continues_def)

lemma continues_trans: 
  assumes "continues f g" "continues g h"
  shows "continues f h"
proof -
  have "h = f\<lparr>f_terminal := f_terminal h\<rparr>" if "terminal_state (f_state f)"
  proof -
    from assms(1) that have g: "g = f\<lparr>f_terminal := f_terminal g\<rparr>" by (simp add: continues_def)
    then have "f_state g = f_state f" by (metis file_run_row.select_convs(10) file_run_row.surjective file_run_row.update_convs(9))
    with assms(2) that have "h = g\<lparr>f_terminal := f_terminal h\<rparr>" by (simp add: continues_def)
    with g show ?thesis by (metis file_run_row.surjective file_run_row.update_convs(9))
  qed
  with assms show ?thesis by (auto simp: continues_def)
qed

definition runs_kept :: "store \<Rightarrow> store \<Rightarrow> bool" where
  "runs_kept s t \<longleftrightarrow> (store_ok s \<longrightarrow> store_ok t \<and> (\<forall>i. rel_option continues (file_lookup i s) (file_lookup i t)))"

lemma runs_kept_refl: "runs_kept s s"
  by (simp add: runs_kept_def option.rel_refl)

lemma rel_continues_trans: "rel_option continues a b \<Longrightarrow> rel_option continues b c \<Longrightarrow> rel_option continues a c"
  by (cases a; cases b; cases c) (auto intro: continues_trans)

lemma runs_kept_trans: "runs_kept s t \<Longrightarrow> runs_kept t v \<Longrightarrow> runs_kept s v"
  unfolding runs_kept_def using rel_continues_trans by blast

lemma runs_kept_same: "file_runs t = file_runs s \<Longrightarrow> store_ok t \<Longrightarrow> runs_kept s t"
  by (simp add: runs_kept_def file_lookup_def option.rel_refl)

lemma lookup_terminals:
  assumes "file_runs t = map (\<lambda>f. f\<lparr>f_terminal := g f\<rparr>) (file_runs s)"
  shows "file_lookup i t = map_option (\<lambda>f. f\<lparr>f_terminal := g f\<rparr>) (file_lookup i s)"
proof -
  have "find (\<lambda>f. f_id f = i) (map (\<lambda>f. f\<lparr>f_terminal := g f\<rparr>) fs) = map_option (\<lambda>f. f\<lparr>f_terminal := g f\<rparr>) (find (\<lambda>f. f_id f = i) fs)" for fs
    by (induction fs) simp_all
  then show ?thesis unfolding file_lookup_def assms .
qed

lemma runs_kept_terminals:
  assumes "file_runs t = map (\<lambda>f. f\<lparr>f_terminal := g f\<rparr>) (file_runs s)" and ok: "store_ok s \<Longrightarrow> store_ok t"
  shows "runs_kept s t"
proof -
  have "rel_option continues (file_lookup i s) (file_lookup i t)" for i
    unfolding lookup_terminals [OF assms(1)] by (cases "file_lookup i s") simp_all
  with ok show ?thesis by (simp add: runs_kept_def)
qed

lemma park_runs: "park_terminal r s = Inr s' \<Longrightarrow> file_runs s' = file_runs s"
  by (auto simp: park_terminal_def update_terminal_def Let_def split: if_splits)

lemma place_runs: "place_window now i a s = Inr s' \<Longrightarrow> file_runs s' = file_runs s"
  by (auto simp: place_window_def update_terminal_def insert_terminal_def Let_def split: if_splits option.splits prod.splits)

lemma each_runs:
  assumes "each f xs s = Inr s'" and "\<And>x s s'. f x s = Inr s' \<Longrightarrow> file_runs s' = file_runs s"
  shows "file_runs s' = file_runs s"
  by (rule each_invariant [OF assms(1), of "\<lambda>t. file_runs t = file_runs s"]) (use assms(2) in auto)

lemma write_terminals: "\<exists>g. file_runs (apply_write i wr s) = map (\<lambda>f. f\<lparr>f_terminal := g f\<rparr>) (file_runs s)"
proof -
  have same: "\<exists>g. file_runs s = map (\<lambda>f. f\<lparr>f_terminal := g f\<rparr>) (file_runs s)"
    by (rule exI [of _ f_terminal]) (simp add: map_idI)
  show ?thesis
  proof (cases wr)
    case (Window_Created now x name window)
    have "file_runs t = file_runs s" if "create_terminal now x i name window None None A_None s = Inr (r, t)" for r t
      using that by (auto simp: create_terminal_def rbind_Inr_iff Let_def insert_terminal_def split: if_splits)
    with Window_Created same show ?thesis by (auto simp: apply_write_def split: sum.split)
  next
    case (Windows_Reconciled now ids windows)
    show ?thesis
    proof (cases "reconcile_terminals now ids i windows s")
      case (Inl e)
      with Windows_Reconciled same show ?thesis by (simp add: apply_write_def)
    next
      case (Inr r)
      obtain l s3 where r: "r = (l, s3)" by (cases r)
      from Inr [unfolded r] obtain p as s2 where s2: "each park_terminal (matched_rows as) (delete_terminals p s) = Inr s2"
        and s3: "each (place_window now i) as s2 = Inr s3"
        by (auto simp: reconcile_terminals_def rbind_Inr_iff Let_def)
      have "file_runs s3 = file_runs (delete_terminals p s)"
        using each_runs [OF s3 place_runs] each_runs [OF s2 park_runs] by simp
      with Windows_Reconciled Inr r show ?thesis
        by (auto simp: apply_write_def delete_terminals_def Let_def)
    qed
  qed
qed

lemma apply_write_ok: "store_ok s \<Longrightarrow> store_ok (apply_write i wr s)"
  by (auto simp: apply_write_def split: terminal_write.split sum.split
      dest: reconcile_terminals_ok [rotated] create_terminal_ok [rotated])

lemma runs_kept_write: "runs_kept s (apply_write i wr s)"
  using write_terminals [of i wr s] runs_kept_terminals apply_write_ok by metis

lemma runs_kept_writes: "runs_kept s (fold (apply_write i) wrs s)"
  by (induction wrs arbitrary: s) (auto intro: runs_kept_refl runs_kept_trans runs_kept_write)

lemma writes_terminals:
  "\<exists>g. file_runs (fold (apply_write i) wrs s) = map (\<lambda>f. f\<lparr>f_terminal := g f\<rparr>) (file_runs s)"
proof (induction wrs arbitrary: s)
  case Nil
  show ?case by (rule exI [of _ f_terminal]) (simp add: map_idI)
next
  case (Cons wr wrs)
  obtain g where g: "file_runs (apply_write i wr s) = map (\<lambda>f. f\<lparr>f_terminal := g f\<rparr>) (file_runs s)"
    using write_terminals by blast
  from Cons [of "apply_write i wr s"] obtain h where
    "file_runs (fold (apply_write i) (wr # wrs) s) = map (\<lambda>f. f\<lparr>f_terminal := h f\<rparr>) (file_runs (apply_write i wr s))"
    by auto
  then show ?case unfolding g by (intro exI [of _ "\<lambda>f. h (f\<lparr>f_terminal := g f\<rparr>)"]) simp
qed

lemma runs_kept_link:
  assumes "set_file_run_terminal i t s = Inr (x, s')"
  shows "runs_kept s s'"
proof (cases "s' = s")
  case False
  with assms have "file_runs s' = update_where (\<lambda>f. f_id f = i \<and> active_file_run f) (\<lambda>f. f\<lparr>f_terminal := Some t\<rparr>) (file_runs s)"
    by (auto simp: set_file_run_terminal_def Let_def split: if_splits)
  also have "\<dots> = map (\<lambda>f. f\<lparr>f_terminal := if f_id f = i \<and> active_file_run f then Some t else f_terminal f\<rparr>) (file_runs s)"
    by (simp add: update_where_def)
  finally show ?thesis using set_file_run_terminal_ok [OF assms] by (rule runs_kept_terminals)
qed (simp add: runs_kept_refl)

lemma runs_kept_move:
  assumes c: "active_change c" and step: "transition_file_run now nid i c s = Inr (x, s')"
  shows "runs_kept s s'"
proof (unfold runs_kept_def, intro impI)
  assume ok: "store_ok s"
  have "rel_option continues (file_lookup j s) (file_lookup j s')" for j
    using step ok
  proof (cases rule: transition_file_run_cases)
    case (won E st f w s1)
    have "file_runs s' = file_runs s1" using ending_frame [OF won(7)] by simp
    then have find: "file_lookup j s' = map_option (\<lambda>r. if f_id r = i then apply_file_change st c r else r) (file_lookup j s)"
      unfolding file_lookup_def won(5) by (simp add: find_key_update_where)
    show ?thesis
    proof (cases "file_lookup j s")
      case None
      with find show ?thesis by simp
    next
      case (Some r)
      have "continues r (if f_id r = i then apply_file_change st c r else r)"
      proof (cases "f_id r = i")
        case True
        moreover have "f_id r = j" using Some find_SomeD unfolding file_lookup_def by fast
        ultimately have "r = f" using won(3) Some by (simp add: file_lookup_def)
        with won(2,4) c have "\<not> terminal_state (f_state r)"
          by (auto simp: active_change_def not_terminal_state)
        then show ?thesis by (simp add: continues_def apply_file_change_def)
      qed simp
      with find Some show ?thesis by simp
    qed
  qed (simp add: option.rel_refl)
  with transition_file_run_ok [OF step ok]
  show "store_ok s' \<and> (\<forall>i. rel_option continues (file_lookup i s) (file_lookup i s'))" by blast
qed

interpretation keeping: run_calculus "\<lambda>w w'. runs_kept (fr_store w) (fr_store w')" "\<lambda>_. True"
  by unfold_locales (auto intro: runs_kept_refl runs_kept_trans runs_kept_writes runs_kept_link runs_kept_move)


section \<open>One run, also across starts and cleanups\<close>

definition run_followed :: "ustr \<Rightarrow> store \<Rightarrow> store \<Rightarrow> bool" where
  "run_followed i s t \<longleftrightarrow> (store_ok s \<longrightarrow> store_ok t
     \<and> (\<forall>g. file_lookup i t = Some g \<longrightarrow> (\<exists>f. file_lookup i s = Some f \<and> continues f g)))"

lemma run_followed_refl: "run_followed i s s"
  by (simp add: run_followed_def)

lemma run_followed_trans: "run_followed i s t \<Longrightarrow> run_followed i t v \<Longrightarrow> run_followed i s v"
  unfolding run_followed_def using continues_trans by blast

lemma run_followed_kept: 
  assumes "runs_kept s t"
  shows "run_followed i s t"
proof -
  have "\<exists>f. a = Some f \<and> continues f g" if "rel_option continues a (Some g)" for a g
    using that by (cases a) auto
  then show ?thesis using assms unfolding runs_kept_def run_followed_def by metis
qed

lemma find_append_other: "\<not> p r \<Longrightarrow> find p (rs @ [r]) = find p rs"
  by (induction rs) simp_all

lemma run_followed_claim:
  assumes p: "p_id p = Some j" "j \<noteq> i" and step: "claim_file_run now p s = Inr (k, r, s')"
  shows "run_followed i s s'"
proof -
  have "file_lookup i s' = file_lookup i s"
    using step p by (auto simp: claim_file_run_def insert_file_run_def rbind_Inr_iff Let_def file_lookup_def
        claimed_row_def find_append_other split: if_splits option.splits)
  then show ?thesis using claim_file_run_ok [OF step] by (simp add: run_followed_def)
qed

lemma prune_history_runs:
  assumes "prune_history tick ck s = Inr (c, g, s')"
  obtains gone where "file_runs s' = filter (\<lambda>f. f_id f \<notin> gone) (file_runs s)"
    "\<forall>i \<in> gone. \<exists>h \<in> set (file_runs s). f_id h = i \<and> terminal_state (f_state h)"
proof -
  from assms obtain s1 t where s1: "cleanup_activity_history tick ck True s = Inr (c, s1)"
    and s': "s' = s1\<lparr>file_runs := filter (\<lambda>f. f_id f \<notin> set (map f_id (filter (prunable (t - days 30) s1) (file_runs s1))))
      (file_runs s1)\<rparr>"
    by (auto simp: prune_history_def rbind_Inr_iff Let_def split: clock.splits)
  from s1 have "file_runs s1 = file_runs s"
    by (auto simp: cleanup_activity_history_def delete_events_def delete_devices_def Let_def split: clock.splits if_splits)
  with s' show thesis
    by (intro that [of "set (map f_id (filter (prunable (t - days 30) s1) (file_runs s1)))"]) (auto simp: prunable_def)
qed

lemma find_filter_key:
  "distinct (map k xs) \<Longrightarrow> find (\<lambda>x. k x = i) (filter p xs) = Some g \<Longrightarrow> find (\<lambda>x. k x = i) xs = Some g"
proof (induction xs)
  case (Cons x xs)
  show ?case
  proof (cases "p x")
    case False
    with Cons have found: "find (\<lambda>x. k x = i) xs = Some g" by simp
    then have "g \<in> set xs" "k g = i" using find_SomeD by fast+
    with Cons.prems(1) found show ?thesis by auto
  qed (use Cons in \<open>auto split: if_splits\<close>)
qed simp

lemma created_claim:
  assumes "claim_file_run now p s = Inr (Claim_Created, row, s')"
  shows "row = claimed_row now p \<and> file_lookup (f_id row) s' = Some row
    \<and> (\<forall>f \<in> set (file_runs s). f_workspace f = f_workspace row \<longrightarrow> \<not> active_file_run f)"
proof -
  from assms have row: "row = claimed_row now p" and ins: "insert_file_run row s = Inr s'"
    and "find (\<lambda>r. f_workspace r = f_workspace row \<and> active_file_run r) (file_runs s) = None"
    by (auto simp: claim_file_run_def rbind_Inr_iff Let_def split: if_splits option.splits)
  moreover have "file_lookup (f_id row) s' = Some row"
  proof -
    from ins have "file_runs s' = file_runs s @ [row]" "f_id row \<notin> f_id ` set (file_runs s)"
      by (auto simp: insert_file_run_def split: if_splits)
    moreover from this(2) have "find (\<lambda>f. f_id f = f_id row) (file_runs s) = None"
      unfolding find_None_iff by (metis imageI)
    ultimately show ?thesis unfolding file_lookup_def by (simp add: find_append_new)
  qed
  ultimately show ?thesis by (auto simp: find_None_iff)
qed

lemma run_followed_prune:
  assumes step: "prune_history tick ck s = Inr (c, g, s')"
  shows "run_followed i s s'"
proof (unfold run_followed_def, intro impI)
  assume ok: "store_ok s"
  obtain p where p: "file_runs s' = filter p (file_runs s)" by (rule prune_history_runs [OF step])
  have "distinct (map f_id (file_runs s))" using store_ok_table(7) [OF ok] by (simp add: file_runs_ok_def)
  then have "file_lookup i s = Some g" if "file_lookup i s' = Some g" for g
    using that p find_filter_key unfolding file_lookup_def by metis
  then show "store_ok s' \<and> (\<forall>g. file_lookup i s' = Some g \<longrightarrow> (\<exists>f. file_lookup i s = Some f \<and> continues f g))"
    using prune_history_ok [OF step ok] continues_refl by blast
qed

interpretation following: claim_calculus
  "\<lambda>w w'. run_followed run (fr_store w) (fr_store w')" "\<lambda>_. True" "\<lambda>j. j \<noteq> run" for run
  by unfold_locales
    (auto intro: run_followed_refl run_followed_trans run_followed_prune run_followed_claim
      run_followed_kept [OF runs_kept_writes] run_followed_kept [OF runs_kept_link] run_followed_kept [OF runs_kept_move])

section \<open>What is dispatched\<close>

definition no_starts :: "run_world \<Rightarrow> run_world \<Rightarrow> bool" where
  "no_starts w w' \<longleftrightarrow> (\<exists>d. fr_log w' = fr_log w @ d \<and> filter is_start d = [])"

lemma no_starts_refl [simp]: "no_starts w w"
  by (simp add: no_starts_def)

lemma no_starts_trans: "no_starts w w' \<Longrightarrow> no_starts w' w'' \<Longrightarrow> no_starts w w''"
  by (auto simp: no_starts_def)

interpretation quiet: claim_calculus no_starts "\<lambda>c. \<not> is_start c" "\<lambda>_. True"
  by unfold_locales (auto simp: no_starts_def)

lemma fbind_cases:
  assumes "fbind m f w = (r, w')"
  obtains (stopped) e where "m w = (Inl e, w')" "r = Inl e"
  | (went_on) x w1 where "m w = (Inr x, w1)" "f x w1 = (r, w')"
  using assms by (auto simp: fbind_def split: prod.splits sum.splits)

text \<open>An inspection that answers leaves exactly its own call in the log.\<close>

lemma eligible_same: "eligible_workspace m b v w = (r, w') \<Longrightarrow> w' = w"
  by (auto simp: eligible_workspace_def ffail_def fgive_def fbind_def here_log_def
      split: if_splits option.splits connection_method.splits)

lemma inspect_answers:
  assumes "inspect m b v p d w = (Inr f, w')"
  shows "fr_log w' = fr_log w @ [Inspect_File (place_of m v) p d] \<and> be_inspect b (length (fr_log w)) = Inr f"
  using assms unfolding inspect_def
proof (cases rule: fbind_cases)
  case (went_on x w1)
  with eligible_same have "w1 = w" by blast
  with went_on show ?thesis by (auto simp: fcall_def Let_def split: sum.splits prod.splits)
qed simp

lemma confirm_answers:
  assumes "confirm m b v f r w = (Inr (), w')"
  obtains c where "fr_log w' = fr_log w @ [Inspect_File (place_of m v) (rf_relative f) (Some (rf_digest f))]"
    "be_inspect b (length (fr_log w)) = Inr c" "resolve_runner c = Inr (Some r)"
proof -
  from assms obtain c where "inspect m b v (rf_relative f) (Some (rf_digest f)) w = (Inr c, w')"
    and "resolve_runner c = Inr (Some r)"
    by (auto simp: confirm_def fbind_def flift_def ffail_def fgive_def split: prod.splits sum.splits if_splits)
  with inspect_answers show thesis by (intro that) blast+
qed

text \<open>A launch either dispatches nothing or, after a confirmation, exactly once.\<close>

lemma launch_cases:
  assumes "launch m b v i f r w = (res, w')"
  obtains (silent) "no_starts w w'"
  | (dispatched) w1 d where "confirm m b v f r w = (Inr (), w1)"
      "fr_log w' = fr_log w1 @ Start_Program (place_of m v) i r (rf_relative f) (rf_digest f) # d" "filter is_start d = []"
proof -
  obtain q w1 where q: "confirm m b v f r w = (q, w1)" by (cases "confirm m b v f r w")
  have quiet1: "no_starts w w1" by (rule quiet.steadyD [OF quiet.steady_confirm q])
  show thesis
  proof (cases q)
    case (Inl e)
    then have "start_failed m b v i False e w1 = (res, w')" using assms q by (simp add: launch_def)
    then have "no_starts w1 w'" by (rule quiet.steadyD [OF quiet.steady_start_failed])
    with quiet1 show thesis by (metis silent no_starts_trans)
  next
    case (Inr x)
    then have run: "fcatch (dispatch m b v i f r) (start_failed m b v i True) w1 = (res, w')"
      using assms q by (simp add: launch_def)
    obtain a w2 where a: "dispatch m b v i f r w1 = (a, w2)" by (cases "dispatch m b v i f r w1")
    have rest: "no_starts w2 w'"
    proof (cases a)
      case (Inl e)
      with run a have "start_failed m b v i True e w2 = (res, w')" by (simp add: fcatch_def)
      then show ?thesis by (rule quiet.steadyD [OF quiet.steady_start_failed])
    next
      case (Inr y)
      with run a show ?thesis by (simp add: fcatch_def)
    qed
    obtain z w3 where z: "server_dir m v i w1 = (z, w3)" by (cases "server_dir m v i w1")
    then have w3: "w3 = w1"
      by (auto simp: server_dir_def validate_uuid_def validate_workspace_id_def fbind_def fgive_def ffail_def split: if_splits)
    show thesis
    proof (cases z)
      case (Inl e)
      with a z w3 have "w2 = w1" by (simp add: dispatch_def fbind_def)
      with rest quiet1 show thesis by (intro silent) (auto intro: no_starts_trans)
    next
      case (Inr y)
      let ?call = "fcall b (w_id (wv_row v)) (Start_Program (place_of m v) i r (rf_relative f) (rf_digest f)) (be_start b)"
      obtain t w4 where t: "?call w1 = (t, w4)" by (cases "?call w1")
      then have log: "fr_log w4 = fr_log w1 @ [Start_Program (place_of m v) i r (rf_relative f) (rf_digest f)]"
        by (auto simp: fcall_def Let_def split: sum.splits prod.splits)
      have "no_starts w4 w2"
      proof (cases t)
        case (Inl e)
        with a z w3 Inr t show ?thesis by (simp add: dispatch_def fbind_def)
      next
        case (Inr terminal)
        with a z w3 \<open>z = Inr y\<close> t have "fbind (fdb (set_file_run_terminal i terminal)) (\<lambda>_. reconcile m b i) w4 = (a, w2)"
          by (simp add: dispatch_def fbind_def)
        then show ?thesis by (rule quiet.steadyD [OF quiet.steady_bind [OF quiet.steady_link quiet.steady_reconcile]])
      qed
      then have "no_starts w4 w'" using rest by (rule no_starts_trans)
      then obtain d where "fr_log w' = fr_log w4 @ d" "filter is_start d = []" by (auto simp: no_starts_def)
      with log \<open>q = Inr x\<close> q show thesis by (intro dispatched [of w1 d]) simp_all
    qed
  qed
qed

text \<open>A start up to its claim, and after it.\<close>

lemma prepare_answers:
  assumes "prepare m b v p d k w = (Inr (f, r), w1)"
  obtains c w0 where "cleanup_history b False w = (Inr c, w0)" "inspect m b v p (Some d) w0 = (Inr f, w1)"
    "resolve_runner f = Inr (Some r)"
proof -
  from assms obtain x wa where "eligible_workspace m b v w = (Inr x, wa)"
    and rest: "fbind (cleanup_history b False) (\<lambda>_. fbind (validate_uuid k) (\<lambda>_. fbind (inspect m b v p (Some d)) (\<lambda>f.
      fbind (flift (resolve_runner f)) (\<lambda>q. case q of None \<Rightarrow> ffail (Refused ''runner_not_supported'')
        | Some r \<Rightarrow> fgive (f, r))))) wa = (Inr (f, r), w1)"
    unfolding prepare_def by (auto elim: fbind_cases)
  then have "wa = w" using eligible_same by blast
  with rest obtain c w0 where c: "cleanup_history b False w = (Inr c, w0)"
    and rest: "fbind (validate_uuid k) (\<lambda>_. fbind (inspect m b v p (Some d)) (\<lambda>f. fbind (flift (resolve_runner f)) (\<lambda>q.
      case q of None \<Rightarrow> ffail (Refused ''runner_not_supported'') | Some r \<Rightarrow> fgive (f, r)))) w0 = (Inr (f, r), w1)"
    by (auto elim: fbind_cases)
  from rest have rest: "fbind (inspect m b v p (Some d)) (\<lambda>f. fbind (flift (resolve_runner f)) (\<lambda>q.
      case q of None \<Rightarrow> ffail (Refused ''runner_not_supported'') | Some r \<Rightarrow> fgive (f, r))) w0 = (Inr (f, r), w1)"
    by (simp add: validate_uuid_def fbind_def fgive_def ffail_def split: if_splits)
  then obtain f' wb where "inspect m b v p (Some d) w0 = (Inr f', wb)"
    and "fbind (flift (resolve_runner f')) (\<lambda>q. case q of None \<Rightarrow> ffail (Refused ''runner_not_supported'')
        | Some r \<Rightarrow> fgive (f', r)) wb = (Inr (f, r), w1)"
    by (auto elim: fbind_cases)
  with c show thesis
    by (intro that) (auto simp: fbind_def flift_def ffail_def fgive_def split: sum.splits option.splits)
qed

lemma start_prepares:
  assumes "start m b v p d k w = (res, w')"
  obtains (silent) "no_starts w w'"
  | (prepared) "start_locked m b v p d k w = (res, w')"
proof -
  from assms show thesis unfolding start_def
  proof (cases rule: fbind_cases)
    case (stopped e)
    with eligible_same have "w' = w" by blast
    with silent show thesis by simp
  next
    case (went_on x wa)
    from went_on(1) have wa: "wa = w" by (rule eligible_same)
    with went_on(2) silent prepared show thesis
      by (simp add: fbind_def validate_workspace_id_def fgive_def ffail_def split: if_splits)
  qed
qed

lemma settled_claim:
  assumes "(case o' of Claim_Idempotent \<Rightarrow>
      if \<not> terminal_state (f_state row) then reconcile m b (f_id row) else get_run (f_id row)
    | Claim_Occupied \<Rightarrow> ffail (Slot_Occupied row) | Claim_Created \<Rightarrow> g) w = (res, w')" and "o' \<noteq> Claim_Created"
  shows "no_starts w w'"
proof -
  have "quiet.steady (if \<not> terminal_state (f_state row) then reconcile m b (f_id row) else get_run (f_id row))"
    by (intro quiet.steady_split quiet.steady_reconcile quiet.steady_get_run)
  with assms quiet.steadyD show ?thesis by (cases o') (auto simp: ffail_def)
qed

lemma start_cases:
  assumes "start m b v p d k w = (res, w')"
  obtains (silent) "no_starts w w'"
  | (created) c w0 runnable w1 runner i now row w2 where "cleanup_history b False w = (Inr c, w0)" "no_starts w w1"
      "inspect m b v p (Some d) w0 = (Inr runnable, w1)" "resolve_runner runnable = Inr (Some runner)"
      "claim_run now (claim_of v i k runnable runner) w1 = (Inr (Claim_Created, row), w2)"
      "i = be_id b (length (fr_log w1))" "launch m b v i runnable runner w2 = (res, w')"
  using assms
proof (cases rule: start_prepares)
  case prepared
  obtain q w1 where q: "prepare m b v p d k w = (q, w1)" by (cases "prepare m b v p d k w")
  have q1: "no_starts w w1" by (rule quiet.steadyD [OF quiet.steady_prepare q])
  show thesis
  proof (cases q)
    case (Inl e)
    with q prepared have "w' = w1" by (simp add: start_locked_def fbind_def)
    with q1 silent show thesis by blast
  next
    case (Inr z)
    obtain f r where z: "z = (f, r)" by (cases z)
    let ?i = "be_id b (length (fr_log w1))" and ?now = "be_now b (length (fr_log w1))"
    obtain a w2 where a: "claim_run ?now (claim_of v ?i k f r) w1 = (a, w2)"
      by (cases "claim_run ?now (claim_of v ?i k f r) w1")
    have "no_starts w1 w2" by (rule quiet.steadyD [OF quiet.steady_claim a]) (simp_all add: claim_of_def)
    then have q2: "no_starts w w2" by (rule no_starts_trans [OF q1])
    note rest = prepared [unfolded start_locked_def fbind_def [of "prepare m b v p d k"] q Inr z prod.case sum.case,
        unfolded fbind_def here_log_def prod.case sum.case a]
    show thesis
    proof (cases "\<exists>row. a = Inr (Claim_Created, row)")
      case True
      then obtain row where row: "a = Inr (Claim_Created, row)" by blast
      with rest have launch: "launch m b v ?i f r w2 = (res, w')" by simp
      obtain c w0 where "cleanup_history b False w = (Inr c, w0)" "inspect m b v p (Some d) w0 = (Inr f, w1)"
        "resolve_runner f = Inr (Some r)" by (rule prepare_answers [OF q [unfolded Inr z]])
      then show thesis by (rule created [OF _ q1 _ _ a [unfolded row] refl launch])
    next
      case False
      then have "no_starts w2 w'" using rest settled_claim by (cases a) fastforce+
      with q2 silent no_starts_trans show thesis by metis
    qed
  qed
qed (rule silent)


text \<open>Pruning removes ended runs only, and an inspection changes no more than the terminals of the runs.\<close>

lemma remove_metadata_store: "fr_store (snd (remove_metadata b gone w)) = fr_store w"
proof (induction gone arbitrary: w)
  case (Cons g gone)
  then show ?case
    by (auto simp: remove_metadata_def fbind_def validate_uuid_def validate_workspace_id_def fgive_def ffail_def
        split: prod.splits)
qed (simp add: remove_metadata_def fgive_def)

lemma cleanup_runs:
  assumes "cleanup_history b force w = (r, w')"
  obtains gone where "file_runs (fr_store w') = filter (\<lambda>f. f_id f \<notin> gone) (file_runs (fr_store w))"
    "\<forall>i \<in> gone. \<exists>h \<in> set (file_runs (fr_store w)). f_id h = i \<and> terminal_state (f_state h)"
proof -
  define w1 where "w1 = w\<lparr>fr_cleanup_at := be_tick b (length (fr_log w)) + 6 * 60 * 60\<rparr>"
  let ?prune = "prune_history (be_tick b (length (fr_log w))) (Aware (be_now b (length (fr_log w)))) (fr_store w)"
  have "fr_store w' = fr_store w \<or> (\<exists>c g. ?prune = Inr (c, g, fr_store w'))"
  proof (cases ?prune)
    case (Inl e)
    with assms show ?thesis
      by (auto simp: cleanup_history_def fbind_def here_log_def fask_def fgive_def fdb_def split: if_splits)
  next
    case (Inr x)
    obtain c g s where x: "x = (c, g, s)" by (cases x)
    have "fr_store (snd (fbind (remove_metadata b g) (\<lambda>_. fgive (c, g)) (w1\<lparr>fr_store := s\<rparr>))) = s"
      using remove_metadata_store [of b g "w1\<lparr>fr_store := s\<rparr>"] by (auto simp: fbind_def fgive_def split: prod.split sum.split)
    with assms Inr x show ?thesis
      by (auto simp: cleanup_history_def fbind_def [of "here_log _"] fbind_def [of "fask _"] fbind_def [of "\<lambda>w. (Inr (), _ w)"]
          fbind_def [of "fdb _"] here_log_def fask_def fgive_def fdb_def w1_def split: if_splits)
  qed
  then show thesis
  proof (elim disjE exE)
    assume "fr_store w' = fr_store w"
    then show thesis by (intro that [of "{}"]) simp_all
  next
    fix c g assume "?prune = Inr (c, g, fr_store w')"
    then show thesis by (rule prune_history_runs) (rule that)
  qed
qed

lemma inspect_terminals:
  assumes "inspect m b v p d w = (r, w')"
  shows "\<exists>g. file_runs (fr_store w') = map (\<lambda>f. f\<lparr>f_terminal := g f\<rparr>) (file_runs (fr_store w))"
  using assms unfolding inspect_def
proof (cases rule: fbind_cases)
  case (stopped e)
  then have "w' = w" using eligible_same by blast
  then show ?thesis by (intro exI [of _ f_terminal]) (simp add: map_idI)
next
  case (went_on x wa)
  then have "wa = w" using eligible_same by blast
  with went_on(2) have "fr_store w' = fold (apply_write (w_id (wv_row v))) (be_writes b (length (fr_log w))) (fr_store w)"
    by (auto simp: fcall_def Let_def split: sum.splits prod.splits)
  then show ?thesis using writes_terminals by simp
qed

lemma inspect_keeps_active:
  assumes "inspect m b v p d w = (r, w')" and f: "f \<in> set (file_runs (fr_store w))" "active_file_run f"
  obtains g where "g \<in> set (file_runs (fr_store w'))" "active_file_run g" "f_workspace g = f_workspace f"
proof -
  obtain g where "file_runs (fr_store w') = map (\<lambda>f. f\<lparr>f_terminal := g f\<rparr>) (file_runs (fr_store w))"
    using inspect_terminals [OF assms(1)] by blast
  with f show thesis by (intro that [of "f\<lparr>f_terminal := g f\<rparr>"]) (auto simp: active_file_run_def)
qed

end
