(* ===== verification/File_Run_Properties.thy ===== *)
theory File_Run_Properties
  imports File_Run_Laws
begin

text \<open>
  What \<open>FileRunManager\<close> guarantees: a run only moves forward whatever operations are called, a program is dispatched
  once, as it was inspected, confirmed and recorded, and never beside an active run; a kill that was carried out ends
  the run; an unreachable run is looked at again within seconds.
\<close>

section \<open>Runs only move forward\<close>

datatype run_op =
    Do_Start workspace_view ustr ustr ustr
  | Do_Reconcile ustr
  | Do_Stop ustr
  | Do_Kill ustr
  | Do_Round observer
  | Do_Startup "ustr list"
  | Do_Cleanup bool

fun perform :: "manager_settings \<Rightarrow> backend \<Rightarrow> run_op \<Rightarrow> run_world \<Rightarrow> run_world" where
  "perform m b (Do_Start v p d k) w = snd (start m b v p d k w)"
| "perform m b (Do_Reconcile i) w = snd (reconcile m b i w)"
| "perform m b (Do_Stop i) w = snd (stop m b i w)"
| "perform m b (Do_Kill i) w = snd (kill m b i w)"
| "perform m b (Do_Round ob) w = snd (observer_round m b ob w)"
| "perform m b (Do_Startup is) w = snd (reconcile_startup m b is w)"
| "perform m b (Do_Cleanup force) w = snd (cleanup_history b force w)"

lemma perform_followed:
  assumes "\<And>n. be_id b n \<noteq> i"
  shows "run_followed i (fr_store w) (fr_store (perform m b op w))"
proof -
  note steady = following.steady_start [where run = i, OF TrueI, of b m] following.steady_reconcile [where run = i]
    following.steady_stop [where run = i] following.steady_kill [where run = i] following.steady_observer_round [where run = i]
    following.steady_startup [where run = i] following.steady_cleanup [where run = i]
  show ?thesis using steady assms unfolding following.steady_def by (cases op) simp_all
qed

text \<open>C35: whatever operations of the manager are called in whatever order, on this run or on others, and whatever the
  backends answer and write to the terminal registry meanwhile: a run that is still in the store is the one that was
  claimed (same file, digest, Runner, arguments and key), its revision never goes back, and once it has ended its state,
  exit code, error and times never change again, by a late observation, a second kill or a repeated start. Fresh
  identifiers are assumed not to repeat the one of this run.\<close>

theorem runs_only_move_forward:
  assumes "store_ok (fr_store w)" and "\<And>n. be_id b n \<noteq> i"
    and "file_lookup i (fr_store (fold (perform m b) ops w)) = Some g"
  shows "store_ok (fr_store (fold (perform m b) ops w))
    \<and> (\<exists>f. file_lookup i (fr_store w) = Some f \<and> continues f g)"
proof -
  have "run_followed i (fr_store w) (fr_store (fold (perform m b) ops w))"
    by (induction ops arbitrary: w) (auto intro: run_followed_refl run_followed_trans perform_followed [OF assms(2)])
  with assms(1,3) show ?thesis by (auto simp: run_followed_def)
qed

section \<open>What a start dispatches\<close>

lemma claimed_store_ok:
  assumes "store_ok (fr_store w)" "cleanup_history b False w = (r, w0)" "inspect m b v p d w0 = (q, w1)"
  shows "store_ok (fr_store w1)"
proof -
  have "run_followed undefined (fr_store w) (fr_store w1)"
    using run_followed_trans [OF following.steadyD [OF following.steady_cleanup assms(2)]
        following.steadyD [OF following.steady_inspect assms(3)]] by blast
  with assms(1) show ?thesis by (simp add: run_followed_def)
qed

text \<open>C33: a start dispatches at most one program. When it does, the file was inspected before with the digest the caller
  expected, its Runner resolved, the run claimed, and the file inspected again under the digest that was found, with the
  same Runner; the program that is started is that Runner for that run, and the row of the run records exactly the file,
  digest, arguments and key of what was started.\<close>

theorem start_runs_only_the_confirmed_file:
  assumes ok: "store_ok (fr_store w)" and run: "start m b v path digest key w = (res, w')"
  shows "no_starts w w' \<or> (\<exists>before after runner runnable confirmed i j n f.
      fr_log w' = before @ Start_Program (place_of m v) i runner (rf_relative runnable) (rf_digest runnable) # after
    \<and> length (fr_log w) \<le> j \<and> j < n \<and> n < length before \<and> filter is_start (drop (length (fr_log w)) before @ after) = []
    \<and> before ! j = Inspect_File (place_of m v) path (Some digest) \<and> be_inspect b j = Inr runnable
    \<and> resolve_runner runnable = Inr (Some runner)
    \<and> before ! n = Inspect_File (place_of m v) (rf_relative runnable) (Some (rf_digest runnable))
    \<and> be_inspect b n = Inr confirmed \<and> resolve_runner confirmed = Inr (Some runner)
    \<and> file_lookup i (fr_store w') = Some f \<and> f_workspace f = w_id (wv_row v) \<and> f_key f = key
    \<and> f_path f = rf_relative runnable \<and> f_digest f = rf_digest runnable \<and> f_argv f = rr_argv runner)"
  using run
proof (cases rule: start_cases)
  case (created c w0 f w1 r i now row w2)
  from created(7) show ?thesis
  proof (cases rule: launch_cases)
    case silent
    have "no_starts w1 w2"
      using quiet.steadyD [OF quiet.steady_claim created(5)] by (simp add: claim_of_def)
    with created(2) silent show ?thesis by (metis no_starts_trans)
  next
    case (dispatched w3 d)
    obtain z where z: "fr_log w0 = fr_log w @ z" "filter is_start z = []"
      using quiet.steadyD [OF quiet.steady_cleanup created(1)] by (auto simp: no_starts_def)
    have l1: "fr_log w1 = fr_log w0 @ [Inspect_File (place_of m v) path (Some digest)]" "be_inspect b (length (fr_log w0)) = Inr f"
      using inspect_answers [OF created(3)] by auto
    have s2: "claim_file_run now (claim_of v i key f r) (fr_store w1) = Inr (Claim_Created, row, fr_store w2)"
      and l2: "fr_log w2 = fr_log w1"
      using created(5) by (auto simp: claim_run_def fdb_def map_sum_def split: sum.splits prod.splits)
    obtain c' where l3: "fr_log w3 = fr_log w2 @ [Inspect_File (place_of m v) (rf_relative f) (Some (rf_digest f))]"
      "be_inspect b (length (fr_log w2)) = Inr c'" "resolve_runner c' = Inr (Some r)"
      by (rule confirm_answers [OF dispatched(1)])
    have ok1: "store_ok (fr_store w1)" by (rule claimed_store_ok [OF ok created(1,3)])
    have row: "row = claimed_row now (claim_of v i key f r)" "file_lookup i (fr_store w2) = Some row"
      using created_claim [OF s2] by (auto simp: claimed_row_def claim_of_def)
    have "runs_kept (fr_store w2) (fr_store w')"
      by (rule keeping.steadyD [OF keeping.steady_launch [OF TrueI] created(7)])
    with row claim_file_run_ok [OF s2 ok1] obtain g where "file_lookup i (fr_store w') = Some g" "continues row g"
      unfolding runs_kept_def by (metis option_rel_Some1)
    with dispatched(2,3) z l1 l2 l3 created(4) row(1) show ?thesis
      by (intro disjI2 exI [of _ "fr_log w3"] exI [of _ d] exI [of _ r] exI [of _ f] exI [of _ c'] exI [of _ i]
          exI [of _ "length (fr_log w0)"] exI [of _ "length (fr_log w2)"] exI [of _ g])
        (simp add: nth_append continues_def claimed_row_def claim_of_def)
  qed
qed simp

text \<open>C34: while a run of a Workspace is preparing or running, no start in that Workspace dispatches anything, whatever
  file or key it names, even though it cleans up the history first.\<close>

theorem active_run_blocks_starts:
  assumes ok: "store_ok (fr_store w)" and f: "f \<in> set (file_runs (fr_store w))" "active_file_run f"
    "f_workspace f = w_id (wv_row v)" and run: "start m b v path digest key w = (res, w')"
  shows "no_starts w w'"
  using run
proof (cases rule: start_cases)
  case (created c w0 g w1 r i now row w2)
  have dist: "distinct (map f_id (file_runs (fr_store w)))"
    using store_ok_table(7) [OF ok] by (simp add: file_runs_ok_def)
  have kept: "f \<in> set (file_runs (fr_store w0))"
  proof -
    from created(1) obtain gone where gone: "file_runs (fr_store w0) = filter (\<lambda>f. f_id f \<notin> gone) (file_runs (fr_store w))"
      "\<forall>i \<in> gone. \<exists>h \<in> set (file_runs (fr_store w)). f_id h = i \<and> terminal_state (f_state h)"
      by (rule cleanup_runs)
    have "f_id f \<notin> gone"
    proof
      assume "f_id f \<in> gone"
      from bspec [OF gone(2) this] f(1) dist have "terminal_state (f_state f)" by (metis distinct_map inj_on_def)
      with f(2) show False by (auto simp: active_file_run_def)
    qed
    with gone(1) f(1) show ?thesis by simp
  qed
  obtain g' where g': "g' \<in> set (file_runs (fr_store w1))" "active_file_run g'" "f_workspace g' = f_workspace f"
    using inspect_keeps_active [OF created(3) kept f(2)] by blast
  have "claim_file_run now (claim_of v i key g r) (fr_store w1) = Inr (Claim_Created, row, fr_store w2)"
    using created(5) by (auto simp: claim_run_def fdb_def map_sum_def split: sum.splits prod.splits)
  from created_claim [OF this] g' f(3) show ?thesis by (auto simp: claimed_row_def claim_of_def)
qed


section \<open>Ending a run\<close>

lemma get_run_view:
  assumes "get_run i w = (Inr v, w')" and "store_ok (fr_store w)"
  shows "w' = w \<and> file_lookup i (fr_store w) = Some (rv_run v)"
proof -
  from assms(1) have w': "w' = w" and "\<exists>ws. get_file_run i (fr_store w) = Some (rv_run v, ws)"
    by (auto simp: get_run_def validate_uuid_def fbind_def fask_def fgive_def ffail_def split: if_splits option.splits)
  then obtain ws where "(rv_run v, ws) \<in> set (file_run_select (fr_store w) (filter (\<lambda>f. f_id f = i) (file_runs (fr_store w))))"
    by (auto simp: get_file_run_def first_row_def split: list.splits)
  then have "rv_run v \<in> set (file_runs (fr_store w))" "f_id (rv_run v) = i" by (auto simp: file_run_select_def)
  with w' show ?thesis unfolding file_lookup_def using file_run_table.lookup_iff [OF assms(2)] by blast
qed

lemma locked_cases:
  assumes "locked i body w = (Inr x, w')"
  shows "body i w = (Inr x, w')"
  using assms
  by (auto simp: locked_def get_run_def validate_uuid_def validate_workspace_id_def fbind_def fask_def fgive_def ffail_def
      split: if_splits option.splits)

lemma reconcile_view:
  assumes run: "reconcile m b i w = (Inr v, w')" and ok: "store_ok (fr_store w)" and ended: "ended_view v"
  shows "file_lookup i (fr_store w') = Some (rv_run v)"
proof -
  have "runs_kept (fr_store w) (fr_store w')" by (rule keeping.steadyD [OF keeping.steady_reconcile run])
  with ok have ok': "store_ok (fr_store w')" by (simp add: runs_kept_def)
  from run [unfolded reconcile_def] have "reconcile_locked m b i w = (Inr v, w')" by (rule locked_cases)
  then obtain run w1 where r: "get_run i w = (Inr run, w1)"
    and rest: "(if ended_view run then fgive (with_connection (u ''online'') run)
      else fbind (require_workspace m b (f_workspace (rv_run run))) (\<lambda>x.
      fbind (except unreachable (fbind (observe_backend m b x i) (\<lambda>ob. fgive (Some ob))) (\<lambda>_. fgive None)) (\<lambda>ob.
        case ob of None \<Rightarrow> fgive (with_connection (u ''offline'') run)
        | Some y \<Rightarrow> fbind (apply_observation b (rv_run run) y) (\<lambda>_.
                     fbind (get_run i) (\<lambda>r. fgive (with_connection (u ''online'') r)))))) w1 = (Inr v, w')"
    unfolding reconcile_locked_def by (auto elim: fbind_cases)
  note here = get_run_view [OF r ok]
  show ?thesis
  proof (cases "ended_view run")
    case True
    with rest here show ?thesis by (auto simp: fgive_def with_connection_def)
  next
    case False
    with rest obtain ob w2 where "(case ob of None \<Rightarrow> fgive (with_connection (u ''offline'') run)
        | Some y \<Rightarrow> fbind (apply_observation b (rv_run run) y) (\<lambda>_.
                     fbind (get_run i) (\<lambda>r. fgive (with_connection (u ''online'') r)))) w2 = (Inr v, w')"
      by (auto elim!: fbind_cases)
    with False ended obtain y where "fbind (apply_observation b (rv_run run) y) (\<lambda>_.
        fbind (get_run i) (\<lambda>r. fgive (with_connection (u ''online'') r))) w2 = (Inr v, w')"
      by (cases ob) (auto simp: fgive_def with_connection_def ended_view_def)
    then obtain q w3 where "get_run i w3 = (Inr q, w')" "v = with_connection (u ''online'') q"
      by (auto simp: fgive_def elim!: fbind_cases)
    moreover from get_run_view [of i w3 q w'] calculation(1) have "w3 = w'" 
      by (auto simp: get_run_def validate_uuid_def fbind_def fask_def fgive_def ffail_def split: if_splits option.splits)
    ultimately show ?thesis using get_run_view [of i w' q w'] ok' by (simp add: with_connection_def)
  qed
qed

lemma transition_rows:
  assumes "transition_file_run now nid i c s = Inr (x, s')" and "states_of (fc_expected c) = Some E"
    and "state_given (fc_state c) = Some st" and "\<not> no_file_changes c"
  shows "file_runs s' = update_where (\<lambda>f. f_id f = i \<and> f_state f \<in> E) (apply_file_change st c) (file_runs s)"
  using assms
  by (auto simp: transition_file_run_def Let_def insert_file_run_event_def rbind_Inr_iff dest!: insert_event_frame
      split: if_splits option.splits)

lemma transition_lookup:
  assumes "transition_file_run now nid i c s = Inr (x, s')" "states_of (fc_expected c) = Some E"
    "state_given (fc_state c) = Some st" "\<not> no_file_changes c"
  shows "file_lookup i s' = map_option (\<lambda>r. if f_state r \<in> E then apply_file_change st c r else r) (file_lookup i s)"
proof (cases "file_lookup i s")
  case None
  then show ?thesis unfolding file_lookup_def transition_rows [OF assms] by (simp add: find_key_update_where)
next
  case (Some r)
  then have "f_id r = i" unfolding file_lookup_def using find_SomeD by fast
  with Some show ?thesis unfolding file_lookup_def transition_rows [OF assms] by (simp add: find_key_update_where)
qed

lemma stopped_rows:
  assumes "transition_file_run now nid i ((expecting active_states)\<lparr>fc_state := Some (u ''stopped''), fc_ended := e,
      fc_error := x\<rparr>) s = Inr (a, s')" and "file_lookup i s' = Some f"
  shows "terminal_state (f_state f)"
proof -
  let ?c = "(expecting active_states)\<lparr>fc_state := Some (u ''stopped''), fc_ended := e, fc_error := x\<rparr>"
  define g where "g r = (if f_state r \<in> {Preparing, Running} then apply_file_change (Some Stopped) ?c r else r)" for r
  have "file_lookup i s' = map_option g (file_lookup i s)"
    unfolding g_def by (rule transition_lookup [OF assms(1)])
      (simp_all add: expecting_def active_states_def states_of_def run_state_of_def state_given_def no_file_changes_def)
  with assms(2) obtain r where "f = g r" by (cases "file_lookup i s") auto
  moreover have "terminal_state (f_state (g r))"
    by (cases "f_state r") (simp_all add: g_def apply_file_change_def given_def)
  ultimately show ?thesis by simp
qed

lemma kept_ok: "keeping.steady m \<Longrightarrow> m w = (r, w') \<Longrightarrow> store_ok (fr_store w) \<Longrightarrow> store_ok (fr_store w')"
  using keeping.steadyD [of m w r w'] by (simp add: runs_kept_def)

lemma steady_kill_backend: "keeping.steady (kill_backend m b v i)"
  unfolding kill_backend_def by (intro keeping.steady_bind keeping.steady_server_dir keeping.steady_call TrueI)

lemma steady_record_stop: "keeping.steady (record_stop b i t)"
  unfolding record_stop_def by (intro keeping.steady_bind keeping.steady_transition keeping.steady_pure) simp

text \<open>C36: a kill that returns leaves the run ended, in the answer and in the store, unless the backend said that there
  was nothing to kill. In particular a kill that the backend carried out ends the run even when the backend cannot be
  reached afterwards or still reports the run as running.\<close>

theorem kill_ends_the_run:
  assumes ok: "store_ok (fr_store w)" and run: "kill m b i w = (Inr v, w')"
  shows "(ended_view v \<and> file_lookup i (fr_store w') = Some (rv_run v))
    \<or> (\<exists>n p. length (fr_log w) \<le> n \<and> n < length (fr_log w') \<and> fr_log w' ! n = Kill_Run p i \<and> be_kill b n = Inr False)"
proof -
  have killed: "(\<exists>p. fr_log w' ! length (fr_log w) = Kill_Run p i) \<and> be_kill b (length (fr_log w)) = Inr x
      \<and> fr_log w' = fr_log w @ [fr_log w' ! length (fr_log w)]"
    if "kill_backend m b v i w = (Inr x, w')" for v x w w'
    using that by (auto simp: kill_backend_def server_dir_def validate_uuid_def validate_workspace_id_def fbind_def fgive_def
        ffail_def fcall_def Let_def split: if_splits sum.splits)
  from locked_cases [OF run [unfolded kill_def]] obtain r w1 where r: "reconcile m b i w = (Inr r, w1)"
    and rest: "(if ended_view r then fgive r
      else fbind (here_log (be_now b)) (\<lambda>now. fbind (require_workspace m b (f_workspace (rv_run r))) (\<lambda>x.
      fbind (kill_backend m b x i) (\<lambda>killed.
      fbind (if killed then record_stop b i (the (or_stamp (f_stop (rv_run r)) (Some now))) else fgive ()) (\<lambda>_.
      fbind (reconcile m b i) (\<lambda>updated.
        if killed \<and> \<not> ended_view updated
        then fbind (here_log (be_now b)) (\<lambda>ended. fbind (transition b i ((expecting active_states)\<lparr>fc_state := Some (u ''stopped''),
               fc_ended := Some (Some ended), fc_error := Some (Some (u ''forced''))\<rparr>)) (\<lambda>_. get_run i))
        else fgive updated)))))) w1 = (Inr v, w')"
    by (auto elim: fbind_cases)
  show ?thesis
  proof (cases "ended_view r")
    case True
    with rest reconcile_view [OF r ok] show ?thesis by (auto simp: fgive_def)
  next
    case False
    with rest obtain x k w3 t y w4 upd w5 where kill: "kill_backend m b x i w1 = (Inr k, w3)"
      and stop: "(if k then record_stop b i t else fgive ()) w3 = (Inr y, w4)" and upd: "reconcile m b i w4 = (Inr upd, w5)"
      and rest: "(if k \<and> \<not> ended_view upd
        then fbind (here_log (be_now b)) (\<lambda>ended. fbind (transition b i ((expecting active_states)\<lparr>fc_state := Some (u ''stopped''),
               fc_ended := Some (Some ended), fc_error := Some (Some (u ''forced''))\<rparr>)) (\<lambda>_. get_run i))
        else fgive upd) w5 = (Inr v, w')"
      by (auto simp: here_log_def require_workspace_def elim!: fbind_cases split: sum.splits)
    have ok3: "store_ok (fr_store w3)"
      by (rule kept_ok [OF steady_kill_backend kill]) (rule kept_ok [OF keeping.steady_reconcile r ok])
    obtain z where z: "fr_log w1 = fr_log w @ z"
      using quiet.steadyD [OF quiet.steady_reconcile r] by (auto simp: no_starts_def)
    have ok4: "store_ok (fr_store w4)"
      by (rule kept_ok [where m = "if k then record_stop b i t else fgive ()", OF _ stop ok3])
        (intro keeping.steady_split steady_record_stop keeping.steady_pure)
    have ok5: "store_ok (fr_store w5)" by (rule kept_ok [OF keeping.steady_reconcile upd ok4])
    show ?thesis
    proof (cases k)
      case False
      with stop rest have "w4 = w3" "w' = w5" by (auto simp: fgive_def)
      moreover obtain d where "fr_log w5 = fr_log w4 @ d"
        using quiet.steadyD [OF quiet.steady_reconcile upd] by (auto simp: no_starts_def)
      ultimately have "fr_log w' = fr_log w3 @ d" by simp
      with killed [OF kill] z False show ?thesis
        by (intro disjI2 exI [of _ "length (fr_log w1)"]) (auto simp: nth_append)
    next
      case True
      show ?thesis
      proof (cases "ended_view upd")
        case True
        with rest reconcile_view [OF upd ok4] show ?thesis by (auto simp: fgive_def)
      next
        case False
        with True rest obtain e a s6 where t: "transition_file_run (be_now b e) (be_id b e) i ((expecting active_states)\<lparr>
            fc_state := Some (u ''stopped''), fc_ended := Some (Some (be_now b e)), fc_error := Some (Some (u ''forced''))\<rparr>) (fr_store w5)
            = Inr (a, s6)" and g: "get_run i (w5\<lparr>fr_store := s6\<rparr>) = (Inr v, w')"
          by (auto simp: transition_def here_log_def fdb_def elim!: fbind_cases split: sum.splits)
        have "store_ok s6" by (rule transition_file_run_ok [OF t ok5])
        with get_run_view [OF g] stopped_rows [OF t] show ?thesis by (auto simp: ended_view_def)
      qed
    qed
  qed
qed

section \<open>A start that fails\<close>

lemma server_dir_same: "server_dir m v i w = (r, w') \<Longrightarrow> w' = w"
  by (auto simp: server_dir_def validate_uuid_def validate_workspace_id_def fbind_def fgive_def ffail_def split: if_splits)

text \<open>A launch whose program could not be started ends in the handler of that failure.\<close>

lemma failed_dispatch:
  assumes "launch m b v i f r w = (res, w')" and ok: "confirm m b v f r w = (Inr (), w3)"
    and log: "fr_log w' = fr_log w3 @ Start_Program p j q t x # d"
    and failed: "be_start b (length (fr_log w3)) = Inl (k, reason)" and here: "place_of m v = On_Server"
  shows "\<exists>w4. start_failed m b v i True (Raised k reason) w4 = (res, w') \<and> uuid4_text i \<and> length (fr_log w4) = length (fr_log w3) + 1
    \<and> fr_store w4 = fold (apply_write (w_id (wv_row v))) (be_writes b (length (fr_log w3))) (fr_store w3)"
proof -
  from assms(1) ok have run: "fcatch (dispatch m b v i f r) (start_failed m b v i True) w3 = (res, w')"
    by (simp add: launch_def)
  obtain z w5 where z: "server_dir m v i w3 = (z, w5)" by (cases "server_dir m v i w3")
  have w5: "w5 = w3" by (rule server_dir_same [OF z])
  show ?thesis
  proof (cases z)
    case (Inl e)
    with run z w5 have "start_failed m b v i True e w3 = (res, w')" by (simp add: fcatch_def dispatch_def fbind_def)
    then have "no_starts w3 w'" by (rule quiet.steadyD [OF quiet.steady_start_failed])
    with log show ?thesis by (auto simp: no_starts_def)
  next
    case (Inr y)
    with z here have "uuid4_text i" by (auto simp: server_dir_def validate_uuid_def fbind_def ffail_def split: if_splits)
    with Inr run z w5 failed show ?thesis by (auto simp: fcatch_def dispatch_def fbind_def fcall_def Let_def)
  qed
qed

lemma same_terminals:
  assumes "confirm m b v f r w = (q, w')"
  shows "\<exists>g. file_runs (fr_store w') = map (\<lambda>f. f\<lparr>f_terminal := g f\<rparr>) (file_runs (fr_store w))"
proof -
  from assms obtain q1 where "inspect m b v (rf_relative f) (Some (rf_digest f)) w = (q1, w')"
    by (auto simp: confirm_def flift_def ffail_def fgive_def elim!: fbind_cases split: if_splits)
  then show ?thesis by (rule inspect_terminals)
qed

lemma failed_unique:
  assumes "unique_where active_file_run f_workspace fs"
  shows "unique_where active_file_run f_workspace (update_where p (apply_file_change (Some Failed) c) fs)"
proof -
  have "\<not> active_file_run (apply_file_change (Some Failed) c h)" for h
    by (simp add: active_file_run_def apply_file_change_def given_def)
  then have "filter active_file_run (update_where p (apply_file_change (Some Failed) c) fs) = filter (\<lambda>f. active_file_run f \<and> \<not> p f) fs"
    by (induction fs) (simp_all add: update_where_def)
  with distinct_map_filter [of f_workspace "filter active_file_run fs" "\<lambda>f. \<not> p f"] assms show ?thesis
    by (simp add: unique_where_def)
qed

lemma failed_rows:
  assumes "fail_run b i code e w = (Inr v, w')" and ok: "store_ok (fr_store w)"
    and row: "file_lookup i (fr_store w) = Some f" "f_state f = Preparing"
  shows "f_id (rv_run v) = i \<and> f_state (rv_run v) = Failed \<and> f_error (rv_run v) = Some (u code)
    \<and> f_detail (rv_run v) = Some (detail_of e) \<and> file_lookup i (fr_store w') = Some (rv_run v)
    \<and> map f_workspace (filter active_file_run (file_runs (fr_store w')))
      = map f_workspace (filter (\<lambda>g. f_id g \<noteq> i \<and> active_file_run g) (file_runs (fr_store w)))"
proof -
  let ?n = "length (fr_log w)"
  let ?c = "(expecting [u ''preparing''])\<lparr>fc_state := Some (u ''failed''), fc_ended := Some (Some (be_now b ?n)),
             fc_error := Some (Some (u code)), fc_detail := Some (Some (detail_of e))\<rparr>"
  from assms(1) obtain x s' where t: "transition_file_run (be_now b ?n) (be_id b ?n) i ?c (fr_store w) = Inr (x, s')"
    and g: "get_run i (w\<lparr>fr_store := s'\<rparr>) = (Inr v, w')"
    by (auto simp: fail_run_def transition_def here_log_def fdb_def elim!: fbind_cases split: sum.splits)
  have c: "states_of (fc_expected ?c) = Some {Preparing}" "state_given (fc_state ?c) = Some (Some Failed)" "\<not> no_file_changes ?c"
    by (simp_all add: expecting_def states_of_def run_state_of_def state_given_def no_file_changes_def)
  have "store_ok s'" by (rule transition_file_run_ok [OF t ok])
  with get_run_view [OF g] have v: "w' = w\<lparr>fr_store := s'\<rparr>" "file_lookup i s' = Some (rv_run v)" by simp_all
  with transition_lookup [OF t c] row have "rv_run v = apply_file_change (Some Failed) ?c f" by simp
  then have run: "f_id (rv_run v) = f_id f" "f_state (rv_run v) = Failed" "f_error (rv_run v) = Some (u code)"
    "f_detail (rv_run v) = Some (detail_of e)"
    by (simp_all add: apply_file_change_def given_def)
  have "f_id f = i" using row(1) find_SomeD unfolding file_lookup_def by fast
  have other: "f_state h = Preparing" if "h \<in> set (file_runs (fr_store w))" "f_id h = i" for h
  proof -
    have "file_lookup i (fr_store w) = Some h"
      unfolding file_lookup_def using that file_run_table.lookup_iff [OF ok] by blast
    with row show ?thesis by simp
  qed
  have active: "map f_workspace (filter active_file_run (update_where (\<lambda>f. f_id f = i \<and> f_state f \<in> {Preparing}) (apply_file_change (Some Failed) ?c) fs))
      = map f_workspace (filter (\<lambda>g. f_id g \<noteq> i \<and> active_file_run g) fs)" if "set fs \<subseteq> set (file_runs (fr_store w))" for fs
    using that other
  proof (induction fs)
    case (Cons h fs)
    have "\<not> active_file_run (apply_file_change (Some Failed) ?c h)" "f_workspace (apply_file_change (Some Failed) ?c h) = f_workspace h"
      by (simp_all add: active_file_run_def apply_file_change_def given_def)
    with Cons show ?case by (auto simp: update_where_def)
  qed (simp add: update_where_def)
  have "map f_workspace (filter active_file_run (file_runs s'))
      = map f_workspace (filter (\<lambda>g. f_id g \<noteq> i \<and> active_file_run g) (file_runs (fr_store w)))"
    unfolding transition_rows [OF t c] by (rule active) simp
  with v run \<open>f_id f = i\<close> show ?thesis by simp
qed

lemma no_start_there:
  assumes "no_starts w w'" "length (fr_log w) \<le> n" "n < length (fr_log w')"
  shows "\<not> is_start (fr_log w' ! n)"
proof -
  from assms(1) obtain d where d: "fr_log w' = fr_log w @ d" "filter is_start d = []" by (auto simp: no_starts_def)
  with assms(2,3) have "fr_log w' ! n \<in> set d" by (auto simp: nth_append)
  with d(2) show ?thesis by (auto simp: filter_empty_conv)
qed

lemma only_start_there:
  assumes log: "fr_log w' = fr_log w3 @ c # dd" "filter is_start dd = []" and quiet: "no_starts w w3"
    and n: "length (fr_log w) \<le> n" "n < length (fr_log w')" "is_start (fr_log w' ! n)"
  shows "n = length (fr_log w3) \<and> fr_log w' ! n = c"
proof (cases n "length (fr_log w3)" rule: linorder_cases)
  case less
  with no_start_there [OF quiet n(1)] log(1) n(3) show ?thesis by (simp add: nth_append)
next
  case greater
  with log(1) n(2) have "fr_log w' ! n = dd ! (n - length (fr_log w3) - 1)" "n - length (fr_log w3) - 1 < length dd"
    by (auto simp: nth_append nth_Cons')
  with log(2) n(3) show ?thesis by (auto simp: filter_empty_conv)
qed (simp add: log(1))

text \<open>The failure is recorded and the run comes back, unless the identifier drawn for its event is taken.\<close>

lemma fail_run_answers:
  assumes run: "fail_run b i code e w = (res, w')" and ok: "store_ok (fr_store w)" and i: "uuid4_text i"
    and row: "file_lookup i (fr_store w) = Some f" "f_state f = Preparing"
  shows "(\<exists>v. res = Inr v) \<or> res = Inl (db_failure IntegrityError) \<and> be_id b (length (fr_log w)) \<in> event_ids (fr_store w')"
proof -
  let ?n = "length (fr_log w)" and ?s = "fr_store w"
  let ?c = "(expecting [u ''preparing''])\<lparr>fc_state := Some (u ''failed''), fc_ended := Some (Some (be_now b ?n)),
             fc_error := Some (Some (u code)), fc_detail := Some (Some (detail_of e))\<rparr>"
  let ?p = "\<lambda>f. f_id f = i \<and> f_state f \<in> {Preparing}"
  let ?s1 = "?s\<lparr>file_runs := update_where ?p (apply_file_change (Some Failed) ?c) (file_runs ?s)\<rparr>"
  have c: "states_of (fc_expected ?c) = Some {Preparing}" "state_given (fc_state ?c) = Some (Some Failed)" "\<not> no_file_changes ?c"
    by (simp_all add: expecting_def states_of_def run_state_of_def state_given_def no_file_changes_def)
  have found: "find (\<lambda>f. f_id f = i) (file_runs ?s) = Some f" using row(1) by (simp add: file_lookup_def)
  have one: "rowcount ?p (file_runs ?s) = 1" using file_run_table.rowcount_key_and [OF ok, of i] found row(2) by simp
  have unique: "unique_where active_file_run f_workspace (file_runs ?s1)"
    using store_ok_table(7) [OF ok] by (simp add: file_runs_ok_def failed_unique)
  let ?t = "transition_file_run (be_now b ?n) (be_id b ?n) i ?c ?s"
  have t: "(\<exists>s'. ?t = Inr (True, s')) \<or> ?t = Inl IntegrityError \<and> be_id b ?n \<in> event_ids ?s"
    unfolding transition_file_run_def c(1,2) option.case Let_def found one
    using c(3) unique by (auto simp: insert_file_run_event_def insert_event_or_ignore_def rbind_def file_run_event_def Let_def split: option.split)
  show ?thesis
  proof (cases ?t)
    case (Inl x)
    with t run show ?thesis by (auto simp: fail_run_def transition_def here_log_def fdb_def fbind_def)
  next
    case (Inr y)
    with t obtain s' where s': "?t = Inr (True, s')" by auto
    have ok': "store_ok s'" by (rule transition_file_run_ok [OF s' ok])
    have "find (\<lambda>f. f_id f = i) (file_runs s') = Some (apply_file_change (Some Failed) ?c f)"
      using transition_lookup [OF s' c] row by (simp add: file_lookup_def)
    from get_file_run_found [OF ok' this] obtain ws where "get_file_run i s' = Some (apply_file_change (Some Failed) ?c f, ws)" by blast
    with s' run i show ?thesis
      by (auto simp: fail_run_def transition_def here_log_def fdb_def fbind_def get_run_def validate_uuid_def fgive_def fask_def)
  qed
qed

text \<open>C37: when a program could not be started on the server (its tmux slot is busy, the process could not be made, the
  Terminal vanished), the start still answers, with that run, failed with \<open>start_failed\<close> and the reason, and the Workspace
  has no active run any more: its slot is free for the next start. (Only a collision of the random identifier drawn for the
  Activity event makes the database refuse the record.)\<close>

theorem failed_start_frees_the_workspace:
  assumes ok: "store_ok (fr_store w)" and here: "w_backend (wv_row v) \<noteq> Remote_Backend"
    and run: "start m b v path digest key w = (res, w')"
    and call: "length (fr_log w) \<le> n" "n < length (fr_log w')" "fr_log w' ! n = Start_Program p i runner t d"
    and failed: "be_start b n = Inl (k, reason)" "k \<in> {OS_Failure, Terminal_Failure, Remote_Access_Failure, SSH_Failure}"
  shows "(\<exists>r. res = Inr r \<and> f_id (rv_run r) = i \<and> f_state (rv_run r) = Failed \<and> f_error (rv_run r) = Some (u ''start_failed'')
      \<and> f_detail (rv_run r) = Some reason \<and> file_lookup i (fr_store w') = Some (rv_run r)
      \<and> (\<forall>f \<in> set (file_runs (fr_store w')). active_file_run f \<longrightarrow> f_workspace f \<noteq> w_id (wv_row v)))
    \<or> res = Inl (db_failure IntegrityError) \<and> be_id b (n + 1) \<in> event_ids (fr_store w')"
  using run
proof (cases rule: start_cases)
  case silent
  with no_start_there [OF _ call(1,2)] call(3) show ?thesis by simp
next
  case (created c w0 f w1 rn j now row w2)
  have s2: "claim_file_run now (claim_of v j key f rn) (fr_store w1) = Inr (Claim_Created, row, fr_store w2)"
    and q2: "no_starts w w2"
    using created(2,5) by (auto simp: claim_run_def fdb_def map_sum_def no_starts_def split: sum.splits prod.splits)
  note claimed = created_claim [OF s2]
  from created(7) show ?thesis
  proof (cases rule: launch_cases)
    case silent
    with no_start_there [OF no_starts_trans [OF q2] call(1,2)] call(3) show ?thesis by simp
  next
    case (dispatched w3 dd)
    have "no_starts w w3"
      by (rule no_starts_trans [OF q2 quiet.steadyD [OF quiet.steady_confirm dispatched(1)]])
    from only_start_there [OF dispatched(2,3) this call(1,2)] call(3)
    have n: "n = length (fr_log w3)" "i = j" by simp_all
    obtain w4 where w4: "start_failed m b v j True (Raised k reason) w4 = (res, w')" "uuid4_text j"
      "length (fr_log w4) = n + 1" "fr_store w4 = fold (apply_write (w_id (wv_row v))) (be_writes b n) (fr_store w3)"
      using failed_dispatch [OF created(7) dispatched(1,2)] failed(1) n(1) here by (auto simp: place_of_def)
    have fail: "fail_run b j ''start_failed'' (Raised k reason) w4 = (res, w')"
      using w4(1) failed(2) here by (auto simp: start_failed_def source_changed_def backend_failed_def unreachable_def)
    have ok1: "store_ok (fr_store w1)" by (rule claimed_store_ok [OF ok created(1,3)])
    have "runs_kept (fr_store w2) (fr_store w3)" by (rule keeping.steadyD [OF keeping.steady_confirm dispatched(1)])
    then have ok3: "store_ok (fr_store w3)" using claim_file_run_ok [OF s2 ok1] by (simp add: runs_kept_def)
    then have ok4: "store_ok (fr_store w4)" using runs_kept_writes unfolding w4(4) runs_kept_def by blast
    obtain g h where g: "file_runs (fr_store w3) = map (\<lambda>f. f\<lparr>f_terminal := g f\<rparr>) (file_runs (fr_store w2))"
      and h: "file_runs (fr_store w4) = map (\<lambda>f. f\<lparr>f_terminal := h f\<rparr>) (file_runs (fr_store w3))"
      using same_terminals [OF dispatched(1)] writes_terminals unfolding w4(4) by meson
    have "f_id row = j" "f_workspace row = w_id (wv_row v)" "f_state row = Preparing"
      using claimed by (simp_all add: claimed_row_def claim_of_def)
    then obtain row4 where row4: "file_lookup j (fr_store w4) = Some row4" "f_state row4 = Preparing" "f_workspace row4 = w_id (wv_row v)"
      using claimed lookup_terminals [OF g, of j] lookup_terminals [OF h, of j] by auto
    show ?thesis
    proof (cases res)
      case (Inl e)
      with fail_run_answers [OF fail ok4 w4(2) row4(1,2)] w4(3) show ?thesis by simp
    next
      case (Inr r)
      note after = failed_rows [OF fail [unfolded Inr] ok4 row4(1,2)]
      have "row4 \<in> set (file_runs (fr_store w4))" "f_id row4 = j"
        using row4(1) find_SomeD unfolding file_lookup_def by fast+
      have free: "f_id f = j" if f: "f \<in> set (file_runs (fr_store w4))" "active_file_run f" "f_workspace f = w_id (wv_row v)" for f
      proof -
        have "inj_on f_workspace (set (filter active_file_run (file_runs (fr_store w4))))"
          using store_ok_table(7) [OF ok4] by (simp add: file_runs_ok_def unique_where_def distinct_map)
        moreover have "row4 \<in> set (filter active_file_run (file_runs (fr_store w4)))"
          using row4(2) \<open>row4 \<in> set (file_runs (fr_store w4))\<close> by (simp add: active_file_run_def)
        moreover have "f \<in> set (filter active_file_run (file_runs (fr_store w4)))" using f(1,2) by simp
        ultimately have "f = row4" using f(3) row4(3) unfolding inj_on_def by metis
        with \<open>f_id row4 = j\<close> show ?thesis by simp
      qed
      have "f_workspace f \<noteq> w_id (wv_row v)" if "f \<in> set (file_runs (fr_store w'))" "active_file_run f" for f
      proof -
        from that have "f_workspace f \<in> set (map f_workspace (filter active_file_run (file_runs (fr_store w'))))" by simp
        then have "f_workspace f \<in> set (map f_workspace (filter (\<lambda>g. f_id g \<noteq> j \<and> active_file_run g) (file_runs (fr_store w4))))"
          using after by metis
        with free show ?thesis by auto
      qed
      with after n(2) Inr show ?thesis by (simp add: detail_of_def)
    qed
  qed
qed

section \<open>The observer\<close>

text \<open>However often a run could not be looked at, the observer waits at least one and at most sixteen seconds before
  it looks at it again, and a run that was reached is looked at after one second.\<close>

theorem observer_looks_again_soon:
  assumes "observe_one m b now i ob w = (Inr ob', w')" and "on_next ob i = None \<or> the (on_next ob i) \<le> now" and "0 \<le> now"
  shows "case on_next ob' i of None \<Rightarrow> on_failures ob' i = None
    | Some t \<Rightarrow> be_tick b (length (fr_log w')) + 1 \<le> t \<and> t \<le> be_tick b (length (fr_log w')) + 16
        \<and> (on_failures ob' i = None \<longrightarrow> t = be_tick b (length (fr_log w')) + 1)"
proof -
  have delay: "1 \<le> observer_delay c" "observer_delay c \<le> 16" for c
  proof -
    have "(2::rat) ^ min (c - 1) 4 \<le> 2 ^ 4" by (intro power_increasing) simp_all
    moreover have "(1::rat) \<le> 2 ^ min (c - 1) 4" by simp
    ultimately show "1 \<le> observer_delay c" "observer_delay c \<le> 16" by (simp_all add: observer_delay_def)
  qed
  have due: "\<not> (case on_next ob i of None \<Rightarrow> 0 | Some t \<Rightarrow> t) > now" using assms(2,3) by (cases "on_next ob i") auto
  define offline where "offline r = (case r :: run_view option of None \<Rightarrow> True | Some v \<Rightarrow> rv_connection v = Some (u ''offline''))" for r
  define ended where "ended r = (case r :: run_view option of None \<Rightarrow> False | Some v \<Rightarrow> ended_view v)" for r
  from assms(1) due obtain r where "ob' = (if ended r then forget i ob
      else if offline r then ob\<lparr>on_failures := (on_failures ob)(i \<mapsto> Suc (case on_failures ob i of None \<Rightarrow> 0 | Some n \<Rightarrow> n)),
        on_next := (on_next ob)(i \<mapsto> be_tick b (length (fr_log w')) + observer_delay (Suc (case on_failures ob i of None \<Rightarrow> 0 | Some n \<Rightarrow> n)))\<rparr>
      else ob\<lparr>on_failures := (on_failures ob)(i := None), on_next := (on_next ob)(i \<mapsto> be_tick b (length (fr_log w')) + 1)\<rparr>)"
    unfolding observe_one_def Let_def offline_def [symmetric] ended_def [symmetric]
    by (auto simp: here_log_def fgive_def elim!: fbind_cases)
  then show ?thesis using delay by (simp add: forget_def)
qed

end
