(* ===== verification/File_Run_Samples.thy ===== *)
theory File_Run_Samples
  imports File_Run_Properties
begin

text \<open>
  A Workspace on the server, a Python file in it and a backend that answers the same way at every position of the log;
  the properties of the File Runs are applied to them.
\<close>

lemma w1_text [simp]: "workspace_id_text (u ''w1'')"
  by (simp add: workspace_id_text_def u_def)

definition server_settings :: manager_settings where
  "server_settings = \<lparr>ms_here = [], ms_base = [], ms_remote = False\<rparr>"

definition app_view :: workspace_view where
  "app_view = \<lparr>wv_row = sample_workspace, wv_path = undefined, wv_canonical = None, wv_computer = None, wv_label = [],
     wv_run = None, wv_server_terminal = False, wv_transient = False, wv_display = u ''app''\<rparr>"

lemma app_view_simps [simp]: "wv_row app_view = sample_workspace" "w_backend sample_workspace = Local_Backend"
  "place_of m app_view = On_Server" "eligible_workspace m b app_view = fgive ()"
  by (auto simp: app_view_def sample_workspace_def place_of_def eligible_workspace_def)

definition main_py :: runnable_file where
  "main_py = \<lparr>rf_relative = u ''main.py'', rf_digest = u ''d1'', rf_executable = False, rf_shebang = False\<rparr>"

definition sample_backend :: "(nat \<Rightarrow> (failure \<times> ustr) + ustr) \<Rightarrow> backend" where
  "sample_backend answer = \<lparr>be_inspect = (\<lambda>_. Inr main_py), be_start = answer,
     be_observe = (\<lambda>_. Inl (SSH_Failure, u ''down'')), be_interrupt = (\<lambda>_. Inr True), be_kill = (\<lambda>_. Inr True),
     be_writes = (\<lambda>_. []), be_fs = (\<lambda>_. []), be_now = (\<lambda>_. 500), be_tick = (\<lambda>_. 0), be_id = (\<lambda>_. zero_uuid 49),
     be_supports = (\<lambda>_. False)\<rparr>"

lemma sample_backend_simps [simp]:
  "be_inspect (sample_backend f) n = Inr main_py" "be_start (sample_backend f) = f" "be_writes (sample_backend f) n = []"
  "be_fs (sample_backend f) n = []" "be_now (sample_backend f) n = 500" "be_tick (sample_backend f) n = 0"
  "be_id (sample_backend f) n = zero_uuid 49"
  by (simp_all add: sample_backend_def)

definition busy_backend :: backend where
  "busy_backend = sample_backend (\<lambda>_. Inl (Terminal_Failure, u ''busy''))"

definition idle_world :: run_world where
  "idle_world = \<lparr>fr_store = sample_store\<lparr>file_runs := []\<rparr>, fr_log = [], fr_cleanup_at = 10\<rparr>"

definition busy_world :: run_world where
  "busy_world = \<lparr>fr_store = sample_store, fr_log = [], fr_cleanup_at = 10\<rparr>"

lemma idle_ok: "store_ok (fr_store idle_world)"
  unfolding idle_world_def run_world.simps
  by (rule store_ok_tables(6) [OF sample_store_ok]) (simp add: file_runs_ok_def unique_where_def)

lemma main_py_runner: "resolve_runner main_py = Inr (Some \<lparr>rr_id = u ''python3'', rr_version = 1,
    rr_argv = [u ''python3'', u ''--'', u ''./main.py''], rr_error = u ''python3_missing''\<rparr>)"
  by code_simp

definition python3 :: resolved_runner where
  "python3 = \<lparr>rr_id = u ''python3'', rr_version = 1,
    rr_argv = [u ''python3'', u ''--'', u ''./main.py''], rr_error = u ''python3_missing''\<rparr>"

definition claimed_main :: file_run_row where
  "claimed_main = claimed_row 500 (claim_of app_view (zero_uuid 49) (zero_uuid 50) main_py python3)"

lemma prepared: "prepare server_settings (sample_backend g) app_view (u ''main.py'') (u ''d1'') (zero_uuid 50) idle_world
  = (Inr (main_py, python3), idle_world\<lparr>fr_log := [Inspect_File On_Server (u ''main.py'') (Some (u ''d1''))]\<rparr>)"
  by (simp add: prepare_def fbind_def eligible_workspace_def app_view_def sample_workspace_def fgive_def cleanup_history_def
      here_log_def fask_def idle_world_def validate_uuid_def inspect_def fcall_def flift_def main_py_runner
      python3_def place_of_def Let_def)

definition inspected_world :: run_world where
  "inspected_world = idle_world\<lparr>fr_log := [Inspect_File On_Server (u ''main.py'') (Some (u ''d1''))]\<rparr>"

definition claimed_world :: run_world where
  "claimed_world = inspected_world\<lparr>fr_store := (sample_store\<lparr>file_runs := [claimed_main]\<rparr>)\<rparr>"

lemma main_claimed: "claim_run 500 (claim_of app_view (zero_uuid 49) (zero_uuid 50) main_py python3) inspected_world
    = (Inr (Claim_Created, claimed_main), claimed_world)"
  by (simp add: claim_run_def fdb_def claim_file_run_def missing_fields_def claim_of_def inspected_world_def idle_world_def
      claimed_world_def claimed_main_def claimed_row_def insert_file_run_def app_view_def Let_def)

lemma main_confirmed: "confirm server_settings (sample_backend g) app_view main_py python3 claimed_world = (Inr (),
    claimed_world\<lparr>fr_log := fr_log claimed_world @ [Inspect_File On_Server (u ''main.py'') (Some (u ''d1''))]\<rparr>)"
  by (simp add: confirm_def fbind_def inspect_def eligible_workspace_def app_view_def sample_workspace_def fgive_def fcall_def
      flift_def main_py_runner place_of_def Let_def python3_def) (simp add: main_py_def)

lemma zero_uuid_new: "zero_uuid 49 \<noteq> u ''e1''"
  by (simp add: zero_uuid_def u_def)

lemma main_failed:
  assumes "file_runs (fr_store w) = [claimed_main\<lparr>f_terminal := t\<rparr>]" "workspaces (fr_store w) = [sample_workspace, sample_remote_workspace]"
    "events (fr_store w) = [sample_event]"
  shows "\<exists>r w'. fail_run (sample_backend g) (zero_uuid 49) ''start_failed'' e w = (Inr r, w') \<and> fr_log w' = fr_log w
    \<and> f_state (rv_run r) = Failed \<and> f_error (rv_run r) = Some (u ''start_failed'')"
proof -
  have "e_id (file_run_event now (zero_uuid 49) f x) = zero_uuid 49" for now f x
    by (simp add: file_run_event_def Let_def)
  with assms zero_uuid_new show ?thesis
    by (simp add: fail_run_def fbind_def here_log_def transition_def fdb_def transition_file_run_def expecting_def states_of_def
      run_state_of_def state_given_def no_file_changes_def Let_def claimed_main_def claimed_row_def claim_of_def app_view_def
      update_where_def rowcount_def apply_file_change_def given_def unique_where_def active_file_run_def
      get_file_run_def file_run_select_def first_row_def insert_file_run_event_def insert_event_or_ignore_def rbind_def
      get_run_def validate_uuid_def fgive_def fask_def sample_event_def)
qed

definition start_log :: "backend_call list" where
  "start_log = [Inspect_File On_Server (u ''main.py'') (Some (u ''d1'')), Inspect_File On_Server (u ''main.py'') (Some (u ''d1'')),
     Start_Program On_Server (zero_uuid 49) python3 (u ''main.py'') (u ''d1'')]"

text \<open>A start whose dispatch ends with an error after the call was logged ends in \<open>start_failed\<close>.\<close>

lemma main_started:
  assumes "dispatch server_settings (sample_backend g) app_view (zero_uuid 49) main_py python3
      (claimed_world\<lparr>fr_log := fr_log claimed_world @ [Inspect_File On_Server (u ''main.py'') (Some (u ''d1''))]\<rparr>)
      = (Inl e, w3)"
    and e: "backend_failed e" "\<not> source_changed e" and log: "fr_log w3 = start_log"
    and w3: "file_runs (fr_store w3) = [claimed_main\<lparr>f_terminal := t\<rparr>]" "events (fr_store w3) = [sample_event]"
      "workspaces (fr_store w3) = [sample_workspace, sample_remote_workspace]"
  shows "\<exists>r w'. start server_settings (sample_backend g) app_view (u ''main.py'') (u ''d1'') (zero_uuid 50) idle_world
    = (Inr r, w') \<and> fr_log w' = start_log \<and> f_state (rv_run r) = Failed \<and> f_error (rv_run r) = Some (u ''start_failed'')"
proof -
  obtain r w' where "fail_run (sample_backend g) (zero_uuid 49) ''start_failed'' e w3 = (Inr r, w')"
    and r: "fr_log w' = fr_log w3" "f_state (rv_run r) = Failed" "f_error (rv_run r) = Some (u ''start_failed'')"
    using main_failed [OF w3(1,3,2)] by blast
  with assms(1) e have "launch server_settings (sample_backend g) app_view (zero_uuid 49) main_py python3 claimed_world = (Inr r, w')"
    by (simp add: launch_def main_confirmed fcatch_def start_failed_def)
  then have "start_locked server_settings (sample_backend g) app_view (u ''main.py'') (u ''d1'') (zero_uuid 50) idle_world = (Inr r, w')"
    using main_claimed by (simp add: start_locked_def fbind_def prepared here_log_def inspected_world_def)
  then have "start server_settings (sample_backend g) app_view (u ''main.py'') (u ''d1'') (zero_uuid 50) idle_world = (Inr r, w')"
    by (simp add: start_def fbind_def fgive_def validate_workspace_id_def)
  with r log show ?thesis by simp
qed

lemma busy_started: "\<exists>r w'. start server_settings busy_backend app_view (u ''main.py'') (u ''d1'') (zero_uuid 50) idle_world
    = (Inr r, w') \<and> fr_log w' = start_log"
proof -
  let ?w = "claimed_world\<lparr>fr_log := start_log\<rparr>"
  have "dispatch server_settings busy_backend app_view (zero_uuid 49) main_py python3
      (claimed_world\<lparr>fr_log := fr_log claimed_world @ [Inspect_File On_Server (u ''main.py'') (Some (u ''d1''))]\<rparr>)
      = (Inl (Raised Terminal_Failure (u ''busy'')), ?w)"
    by (simp add: dispatch_def fbind_def server_dir_def validate_uuid_def busy_backend_def start_log_def
        validate_workspace_id_def fgive_def fcall_def main_py_def claimed_world_def inspected_world_def idle_world_def)
  moreover have "claimed_main\<lparr>f_terminal := None\<rparr> = claimed_main" by (simp add: claimed_main_def claimed_row_def)
  ultimately show ?thesis
    using main_started [of "\<lambda>_. Inl (Terminal_Failure, u ''busy'')" "Raised Terminal_Failure (u ''busy'')" ?w None]
    unfolding busy_backend_def
    by (auto simp: backend_failed_def source_changed_def unreachable_def claimed_world_def)
qed

section \<open>A program that was started and is recorded as failed\<close>

text \<open>On the server an error that is raised after the dispatch, while the run is looked at for the first time, is
  handled like a dispatch that failed: the program runs, the run says \<open>start_failed\<close>.\<close>

definition started_backend :: backend where
  "started_backend = sample_backend (\<lambda>_. Inr (u ''t2''))"

lemma folder_gone:
  assumes "workspaces s = [sample_workspace, sample_remote_workspace]" "roots s = [sample_root, sample_virtual_root]"
    "computers s = computers sample_store"
  shows "require [] [] [] (u ''w1'') s = Inl (File_Raised FileNotFoundError)"
proof -
  have "resolve_text [] (u ''/home/dev'') [] = Inl FileNotFoundError"
    by (simp add: resolve_text_def path_parts_def dot_def is_absolute_def starts_with_def u_def slash_def resolve_def lstat_def
        bad_name_def is_surrogate_def dotdot_def)
  with assms show ?thesis
    by (simp add: require_def get_workspace_def with_root_def sample_root_def sample_virtual_root_def u_def
        sample_workspace_def sample_remote_workspace_def hydrate_workspace_def)
qed

theorem started_run_recorded_as_failed:
  "\<exists>r w'. start server_settings started_backend app_view (u ''main.py'') (u ''d1'') (zero_uuid 50) idle_world = (Inr r, w')
    \<and> fr_log w' ! 2 = Start_Program On_Server (zero_uuid 49) python3 (u ''main.py'') (u ''d1'')
    \<and> be_start started_backend 2 = Inr (u ''t2'')
    \<and> f_state (rv_run r) = Failed \<and> f_error (rv_run r) = Some (u ''start_failed'')"
proof -
  define w3 where "w3 = \<lparr>fr_store = sample_store\<lparr>file_runs := [claimed_main\<lparr>f_terminal := Some (u ''t2'')\<rparr>]\<rparr>,
    fr_log = start_log, fr_cleanup_at = 10\<rparr>"
  have "reconcile server_settings started_backend (zero_uuid 49) w3 = (Inl (Raised OS_Failure []), w3)"
    by (simp add: reconcile_def locked_def reconcile_locked_def get_run_def fbind_def validate_uuid_def fgive_def fask_def w3_def
        get_file_run_def file_run_select_def first_row_def claimed_main_def claimed_row_def claim_of_def validate_workspace_id_def
        ended_view_def require_workspace_def server_settings_def started_backend_def folder_gone ws_failure_def)
  then have "dispatch server_settings started_backend app_view (zero_uuid 49) main_py python3
      (claimed_world\<lparr>fr_log := fr_log claimed_world @ [Inspect_File On_Server (u ''main.py'') (Some (u ''d1''))]\<rparr>)
      = (Inl (Raised OS_Failure []), w3)"
    by (simp add: dispatch_def fbind_def server_dir_def validate_uuid_def started_backend_def start_log_def w3_def
        validate_workspace_id_def fgive_def fcall_def main_py_def claimed_world_def inspected_world_def idle_world_def
        fdb_def set_file_run_terminal_def rowcount_def update_where_def claimed_main_def claimed_row_def claim_of_def
        active_file_run_def)
  then show ?thesis
    using main_started [of "\<lambda>_. Inr (u ''t2'')" "Raised OS_Failure []" w3 "Some (u ''t2'')"]
    unfolding started_backend_def
    by (fastforce simp: backend_failed_def source_changed_def unreachable_def w3_def start_log_def)
qed

section \<open>Witnesses\<close>

theorem confirmed_start_witness:
  "\<exists>res w' before after i runner f. start server_settings busy_backend app_view (u ''main.py'') (u ''d1'') (zero_uuid 50) idle_world = (res, w')
    \<and> fr_log w' = before @ Start_Program On_Server i runner (u ''main.py'') (u ''d1'') # after
    \<and> file_lookup i (fr_store w') = Some f \<and> f_argv f = rr_argv runner"
proof -
  obtain r w' where run: "start server_settings busy_backend app_view (u ''main.py'') (u ''d1'') (zero_uuid 50) idle_world = (Inr r, w')"
    and log: "fr_log w' = [Inspect_File On_Server (u ''main.py'') (Some (u ''d1'')),
      Inspect_File On_Server (u ''main.py'') (Some (u ''d1'')),
      Start_Program On_Server (zero_uuid 49) python3 (u ''main.py'') (u ''d1'')]"
    using busy_started by (auto simp: start_log_def)
  have "\<not> no_starts idle_world w'" by (simp add: no_starts_def log idle_world_def)
  with start_runs_only_the_confirmed_file [OF idle_ok run] obtain before after runner runnable i j f where
    "fr_log w' = before @ Start_Program On_Server i runner (rf_relative runnable) (rf_digest runnable) # after"
    "be_inspect busy_backend j = Inr runnable" "file_lookup i (fr_store w') = Some f" "f_argv f = rr_argv runner"
    unfolding app_view_simps by blast
  moreover from this(2) have "rf_relative runnable = u ''main.py''" "rf_digest runnable = u ''d1''"
    by (auto simp: busy_backend_def main_py_def)
  ultimately show ?thesis using run by metis
qed

theorem failed_start_witness:
  "\<exists>r w'. start server_settings busy_backend app_view (u ''main.py'') (u ''d1'') (zero_uuid 50) idle_world = (Inr r, w')
    \<and> f_state (rv_run r) = Failed \<and> f_detail (rv_run r) = Some (u ''busy'')"
proof -
  obtain r w' where run: "start server_settings busy_backend app_view (u ''main.py'') (u ''d1'') (zero_uuid 50) idle_world = (Inr r, w')"
    and log: "fr_log w' = [Inspect_File On_Server (u ''main.py'') (Some (u ''d1'')),
      Inspect_File On_Server (u ''main.py'') (Some (u ''d1'')),
      Start_Program On_Server (zero_uuid 49) python3 (u ''main.py'') (u ''d1'')]"
    using busy_started by (auto simp: start_log_def)
  have "w_backend (wv_row app_view) \<noteq> Remote_Backend" "length (fr_log idle_world) \<le> 2" "2 < length (fr_log w')"
    "fr_log w' ! 2 = Start_Program On_Server (zero_uuid 49) python3 (u ''main.py'') (u ''d1'')"
    "be_start busy_backend 2 = Inl (Terminal_Failure, u ''busy'')"
    "Terminal_Failure \<in> {OS_Failure, Terminal_Failure, Remote_Access_Failure, SSH_Failure}"
    by (simp_all add: log idle_world_def busy_backend_def)
  from failed_start_frees_the_workspace [OF idle_ok this(1) run this(2-6)] run show ?thesis by auto
qed

theorem active_run_witness:
  "\<exists>res w'. start server_settings busy_backend app_view (u ''main.py'') (u ''d1'') (zero_uuid 50) busy_world = (res, w')
    \<and> no_starts busy_world w'"
proof -
  obtain res w' where run: "start server_settings busy_backend app_view (u ''main.py'') (u ''d1'') (zero_uuid 50) busy_world = (res, w')"
    by (cases "start server_settings busy_backend app_view (u ''main.py'') (u ''d1'') (zero_uuid 50) busy_world")
  have "store_ok (fr_store busy_world)" "sample_file_run \<in> set (file_runs (fr_store busy_world))" "active_file_run sample_file_run"
    "f_workspace sample_file_run = w_id (wv_row app_view)"
    by (simp_all add: busy_world_def sample_store_ok sample_file_run_def active_file_run_def)
  from active_run_blocks_starts [OF this run] run show ?thesis by blast
qed

text \<open>A run that ended is killed once more.\<close>

definition ended_run :: file_run_row where
  "ended_run = claimed_main\<lparr>f_state := Finished, f_exit := Some 0\<rparr>"

definition ended_world :: run_world where
  "ended_world = \<lparr>fr_store = sample_store\<lparr>file_runs := [ended_run]\<rparr>, fr_log = [], fr_cleanup_at = 10\<rparr>"

lemma ended_ok: "store_ok (fr_store ended_world)"
  unfolding ended_world_def run_world.simps
  by (rule store_ok_tables(6) [OF sample_store_ok])
    (simp add: file_runs_ok_def unique_where_def ended_run_def claimed_main_def claimed_row_def claim_of_def active_file_run_def)

lemma ended_get: "get_run (zero_uuid 49) ended_world
    = (Inr \<lparr>rv_run = ended_run, rv_workspace = sample_workspace, rv_connection = None\<rparr>, ended_world)"
  by (simp add: get_run_def fbind_def validate_uuid_def fgive_def fask_def ended_world_def get_file_run_def file_run_select_def
      first_row_def ended_run_def claimed_main_def claimed_row_def claim_of_def)

lemma ended_reconcile: "reconcile m b (zero_uuid 49) ended_world
    = (Inr \<lparr>rv_run = ended_run, rv_workspace = sample_workspace, rv_connection = Some (u ''online'')\<rparr>, ended_world)"
proof -
  have "f_workspace ended_run = u ''w1''" "terminal_state (f_state ended_run)"
    by (simp_all add: ended_run_def claimed_main_def claimed_row_def claim_of_def)
  then show ?thesis
    by (simp add: locked_def reconcile_def reconcile_locked_def fbind_def validate_uuid_def fgive_def ended_get
        validate_workspace_id_def ended_view_def with_connection_def)
qed

lemma ended_kill: "kill m b (zero_uuid 49) ended_world
    = (Inr \<lparr>rv_run = ended_run, rv_workspace = sample_workspace, rv_connection = Some (u ''online'')\<rparr>, ended_world)"
proof -
  have "f_workspace ended_run = u ''w1''" "terminal_state (f_state ended_run)"
    by (simp_all add: ended_run_def claimed_main_def claimed_row_def claim_of_def)
  then show ?thesis
    by (simp add: kill_def locked_def fbind_def validate_uuid_def fgive_def ended_get ended_reconcile
        validate_workspace_id_def ended_view_def)
qed

theorem kill_witness:
  "\<exists>v. kill server_settings busy_backend (zero_uuid 49) ended_world = (Inr v, ended_world) \<and> ended_view v"
  using kill_ends_the_run [OF ended_ok ended_kill] ended_kill by (auto simp: ended_world_def)

theorem forward_witness:
  "\<exists>f. file_lookup (zero_uuid 49) (fr_store ended_world) = Some f \<and> continues f ended_run"
proof -
  let ?b = "busy_backend\<lparr>be_id := (\<lambda>_. zero_uuid 50)\<rparr>"
  let ?ops = "[Do_Kill (zero_uuid 49), Do_Reconcile (zero_uuid 49)]"
  have fresh: "be_id ?b n \<noteq> zero_uuid 49" for n by (simp add: zero_uuid_def)
  have "file_lookup (zero_uuid 49) (fr_store (fold (perform server_settings ?b) ?ops ended_world)) = Some ended_run"
    by (simp add: ended_kill ended_reconcile)
      (simp add: file_lookup_def ended_world_def ended_run_def claimed_main_def claimed_row_def claim_of_def)
  from runs_only_move_forward [OF ended_ok fresh this] show ?thesis by blast
qed

theorem observer_witness:
  "\<exists>ob' w'. observe_one server_settings busy_backend 0 (u ''x'') \<lparr>on_next = Map.empty, on_failures = Map.empty\<rparr> ended_world
      = (Inr ob', w') \<and> (case on_next ob' (u ''x'') of None \<Rightarrow> False | Some t \<Rightarrow> 1 \<le> t \<and> t \<le> 16)"
proof -
  let ?ob = "\<lparr>on_next = Map.empty, on_failures = Map.empty\<rparr>"
  have "\<not> uuid4_text (u ''x'')" by (simp add: uuid4_text_def u_def)
  then obtain ob' where run: "observe_one server_settings busy_backend 0 (u ''x'') ?ob ended_world = (Inr ob', ended_world)"
      "on_next ob' (u ''x'') \<noteq> None"
    by (simp add: observe_one_def except_def fcatch_def fbind_def reconcile_def locked_def validate_uuid_def ffail_def fgive_def
        suppressed_def backend_failed_def unreachable_def here_log_def Let_def)
  from observer_looks_again_soon [OF run(1)] run(2) show ?thesis
    using run(1) by (auto simp: busy_backend_def split: option.splits)
qed

end
