(* ===== verification/Git_Source.thy ===== *)
theory Git_Source
  imports Workspace_Manager Source_Rules
begin

text \<open>
  The anonymous Git Source of \<^verbatim>\<open>termroom/run_sources.py\<close>: which URLs are accepted and the exact clone command. The part
  of \<^verbatim>\<open>urllib.parse.urlsplit\<close> it rests on is spelled out; what that takes from the Unicode tables (\<open>lower\<close>, NFKC of the
  network location) and its check of a bracketed address are parameters.
\<close>

section \<open>Splitting a URL\<close>

definition before_first :: "nat \<Rightarrow> ustr \<Rightarrow> ustr" where "before_first c s = takeWhile (\<lambda>x. x \<noteq> c) s"
definition after_first :: "nat \<Rightarrow> ustr \<Rightarrow> ustr" where "after_first c s = tl (dropWhile (\<lambda>x. x \<noteq> c) s)"

text \<open>\<^verbatim>\<open>s.rpartition(c)[2]\<close>: all of it where \<open>c\<close> does not occur.\<close>

definition after_last :: "nat \<Rightarrow> ustr \<Rightarrow> ustr" where "after_last c s = rev (takeWhile (\<lambda>x. x \<noteq> c) (rev s))"

definition ascii_alpha :: "nat \<Rightarrow> bool" where
  "ascii_alpha c \<longleftrightarrow> 65 \<le> c \<and> c \<le> 90 \<or> 97 \<le> c \<and> c \<le> 122"

definition ascii_digit :: "nat \<Rightarrow> bool" where "ascii_digit c \<longleftrightarrow> 48 \<le> c \<and> c \<le> 57"

definition scheme_char :: "nat \<Rightarrow> bool" where
  "scheme_char c \<longleftrightarrow> ascii_alpha c \<or> ascii_digit c \<or> c \<in> {43, 45, 46}"

definition ascii_lower :: "ustr \<Rightarrow> ustr" where
  "ascii_lower s = map (\<lambda>c. if 65 \<le> c \<and> c \<le> 90 then c + 32 else c) s"

record url_parts =
  up_scheme :: ustr
  up_netloc :: ustr
  up_path :: ustr

text \<open>What the check of a network location asks of its environment.\<close>

record url_rules =
  ur_lower :: "ustr \<Rightarrow> ustr"
  ur_bracketed :: "ustr \<Rightarrow> bool"
  ur_nfkc :: "ustr \<Rightarrow> bool"

text \<open>\<^verbatim>\<open>urlsplit\<close> of a text without white space, control characters, question mark and number sign; \<open>None\<close> is \<^verbatim>\<open>ValueError\<close>.\<close>

definition url_split :: "url_rules \<Rightarrow> ustr \<Rightarrow> url_parts option" where
  "url_split r s =
    (let scheme = before_first 58 s;
         found = (58 \<in> set s \<and> scheme \<noteq> [] \<and> ascii_alpha (hd scheme) \<and> List.list_all scheme_char scheme);
         rest = (if found then after_first 58 s else s);
         located = starts_with [slash, slash] rest;
         netloc = (if located then before_first slash (drop 2 rest) else []);
         path = (if located then dropWhile (\<lambda>c. c \<noteq> slash) (drop 2 rest) else rest)
     in if (91 \<in> set netloc) \<noteq> (93 \<in> set netloc) then None
        else if 91 \<in> set netloc \<and> \<not> ur_bracketed r netloc then None
        else if netloc \<noteq> [] \<and> \<not> List.list_all (\<lambda>c. c < 128) netloc \<and> \<not> ur_nfkc r netloc then None
        else Some \<lparr>up_scheme = (if found then ascii_lower scheme else []), up_netloc = netloc, up_path = path\<rparr>)"

definition host_info :: "ustr \<Rightarrow> ustr \<times> ustr" where
  "host_info netloc =
    (let h = after_last 64 netloc in
     if 91 \<in> set h
     then (let b = after_first 91 h in (before_first 93 b, after_first 58 (after_first 93 b)))
     else (before_first 58 h, after_first 58 h))"

definition host_name :: "url_rules \<Rightarrow> ustr \<Rightarrow> ustr" where
  "host_name r netloc =
    (let h = fst (host_info netloc) in ur_lower r (before_first 37 h) @ dropWhile (\<lambda>c. c \<noteq> 37) h)"

definition port_ok :: "ustr \<Rightarrow> bool" where
  "port_ok netloc =
    (let p = snd (host_info netloc) in
     p = [] \<or> (List.list_all ascii_digit p \<and> foldl (\<lambda>n c. 10 * n + (c - 48)) 0 p \<le> (65535::nat)))"

section \<open>Accepted repositories\<close>

definition validate_public_https_git_url :: "url_rules \<Rightarrow> ustr \<Rightarrow> ustr source_result" where
  "validate_public_https_git_url r s =
    (if s = [] then Inl ''git_url_required''
     else if list_ex is_space s then Inl ''git_url_whitespace''
     else if contains_control s then Inl ''git_url_control''
     else if backslash \<in> set s then Inl ''git_url_invalid''
     else if 63 \<in> set s then Inl ''git_url_query''
     else if 35 \<in> set s then Inl ''git_url_fragment''
     else (case url_split r s of
             None \<Rightarrow> Inl ''git_url_invalid''
           | Some p \<Rightarrow>
               if \<not> port_ok (up_netloc p) then Inl ''git_url_invalid''
               else if ascii_lower (up_scheme p) \<noteq> u ''https'' then Inl ''git_url_scheme''
               else if up_netloc p = [] \<or> fst (host_info (up_netloc p)) = [] then Inl ''git_url_host''
               else if 64 \<in> set (up_netloc p) then Inl ''git_url_userinfo''
               else (let parts = filter (\<lambda>q. q \<noteq> []) (split_on slash (up_path p)) in
                     if parts = [] \<or> list_ex (\<lambda>q. q = dot \<or> q = dotdot) parts then Inl ''git_url_path'' else Inr s)))"

text \<open>The label of a Git Source: host and path without \<^verbatim>\<open>.git\<close>.\<close>

definition git_label :: "url_rules \<Rightarrow> ustr \<Rightarrow> ustr" where
  "git_label r url =
    (case url_split r url of
       None \<Rightarrow> []
     | Some p \<Rightarrow> (let l = host_name r (up_netloc p) @ up_path p in
                  if ends_with (u ''.git'') l then take (length l - 4) l else l))"

section \<open>The clone command\<close>

definition require_metadata_line :: "ustr \<Rightarrow> ustr source_result" where
  "require_metadata_line s = (if s = [] \<or> contains_control s then Inl ''invalid_metadata'' else Inr s)"

definition dotted_part :: "ustr \<Rightarrow> bool" where
  "dotted_part s \<longleftrightarrow> list_ex (\<lambda>q. q = dot \<or> q = dotdot) (split_on slash s)"

definition validate_absolute_remote_path :: "ustr \<Rightarrow> ustr source_result" where
  "validate_absolute_remote_path s =
    rbind (require_metadata_line s) (\<lambda>_.
      if backslash \<in> set s \<or> \<not> is_absolute s then Inl ''git_clone_path''
      else if pure_posix s \<noteq> s \<or> pure_posix s = [slash] \<or> dotted_part s then Inl ''git_clone_path''
      else Inr s)"

definition validate_fixed_path :: "ustr \<Rightarrow> ustr source_result" where
  "validate_fixed_path s =
    rbind (require_metadata_line s) (\<lambda>_.
      if list_ex (\<lambda>c. \<not> is_absolute c \<or> pure_posix c \<noteq> c \<or> dotted_part c) (split_on 58 s) then Inl ''git_clone_path''
      else Inr s)"

record clone_invocation =
  ci_argv :: "ustr list"
  ci_env :: "(ustr \<times> ustr) list"

definition clone_options :: "ustr list" where
  "clone_options = map u
    [''-c'', ''credential.helper='', ''-c'', ''credential.useHttpPath=false'', ''-c'', ''protocol.allow=never'',
     ''-c'', ''protocol.https.allow=always'', ''-c'', ''http.followRedirects=false'', ''-c'', ''http.extraHeader='',
     ''-c'', ''http.cookieFile='', ''-c'', ''submodule.recurse=false'', ''clone'', ''--depth=1'', ''--single-branch'',
     ''--no-tags'', ''--no-recurse-submodules'']"

definition clone_environment :: "ustr \<Rightarrow> ustr \<Rightarrow> ustr \<Rightarrow> (ustr \<times> ustr) list" where
  "clone_environment askpass home path =
    [(u ''GIT_ASKPASS'', askpass), (u ''GIT_CONFIG_GLOBAL'', u ''/dev/null''), (u ''GIT_CONFIG_NOSYSTEM'', u ''1''),
     (u ''GIT_CONFIG_SYSTEM'', u ''/dev/null''), (u ''GIT_LFS_SKIP_SMUDGE'', u ''1''), (u ''GIT_TERMINAL_PROMPT'', u ''0''),
     (u ''HOME'', home), (u ''LC_ALL'', u ''C''), (u ''PATH'', path), (u ''SSH_ASKPASS'', askpass),
     (u ''XDG_CONFIG_HOME'', home @ u ''/.config'')]"

definition default_fixed_path :: ustr where "default_fixed_path = u ''/usr/bin:/bin''"

definition build_public_git_clone_invocation ::
    "url_rules \<Rightarrow> ustr \<Rightarrow> ustr \<Rightarrow> ustr \<Rightarrow> ustr \<Rightarrow> ustr \<Rightarrow> ustr \<Rightarrow> clone_invocation source_result" where
  "build_public_git_clone_invocation r url git_path askpass_path empty_home destination fixed_path =
    rbind (validate_public_https_git_url r url) (\<lambda>safe_url.
    rbind (validate_absolute_remote_path git_path) (\<lambda>safe_git.
    rbind (validate_absolute_remote_path askpass_path) (\<lambda>safe_askpass.
    rbind (validate_absolute_remote_path empty_home) (\<lambda>safe_home.
    rbind (validate_absolute_remote_path destination) (\<lambda>safe_destination.
    rbind (validate_fixed_path fixed_path) (\<lambda>safe_path.
      Inr \<lparr>ci_argv = safe_git # clone_options @ [u ''--'', safe_url, safe_destination],
           ci_env = clone_environment safe_askpass safe_home safe_path\<rparr>))))))"

text \<open>\<^verbatim>\<open>sorted(self.env.items())\<close>: the keys are written in their order.\<close>

definition as_env_i_argv :: "ustr \<Rightarrow> clone_invocation \<Rightarrow> ustr list source_result" where
  "as_env_i_argv env_path i =
    rbind (validate_absolute_remote_path env_path) (\<lambda>safe_env.
      Inr (safe_env # u ''-i'' # map (\<lambda>(k, x). k @ u ''='' @ x) (sort_key fst (ci_env i)) @ ci_argv i))"

section \<open>What an accepted clone is\<close>

lemma ascii_lower_twice: "ascii_lower (ascii_lower s) = ascii_lower s"
  by (simp add: ascii_lower_def)

lemma first_split: "c \<in> set s \<Longrightarrow> s = before_first c s @ c # after_first c s"
  by (induction s) (auto simp: before_first_def after_first_def)

lemma url_split_scheme:
  assumes "url_split r s = Some p" and https: "ascii_lower (up_scheme p) = u ''https''"
  shows "s = before_first 58 s @ 58 # after_first 58 s \<and> ascii_lower (before_first 58 s) = u ''https''"
proof -
  have "up_scheme p \<noteq> []" using https by (auto simp: ascii_lower_def u_def)
  with assms(1) have "58 \<in> set s" "up_scheme p = ascii_lower (before_first 58 s)"
    by (auto simp: url_split_def Let_def split: if_splits)
  with https first_split show ?thesis by (simp add: ascii_lower_twice)
qed

lemma no_control_append [simp]: "contains_control (a @ b) \<longleftrightarrow> contains_control a \<or> contains_control b"
  by (simp add: contains_control_def)

lemma no_control_options: "x \<in> set clone_options \<Longrightarrow> \<not> contains_control x"
  by (auto simp: clone_options_def contains_control_def u_def)

lemma absolute_remote_pathD:
  "validate_absolute_remote_path s = Inr t \<Longrightarrow> t = s \<and> is_absolute s \<and> \<not> contains_control s \<and> \<not> dotted_part s"
  by (auto simp: validate_absolute_remote_path_def require_metadata_line_def split: if_splits)

lemma git_urlD:
  assumes "validate_public_https_git_url r s = Inr t"
  shows "t = s \<and> \<not> contains_control s \<and> \<not> list_ex is_space s
    \<and> (\<exists>p. url_split r s = Some p \<and> ascii_lower (up_scheme p) = u ''https'' \<and> 64 \<notin> set (up_netloc p) \<and> fst (host_info (up_netloc p)) \<noteq> [])"
  using assms by (auto simp: validate_public_https_git_url_def Let_def split: if_splits option.splits)

lemma fixed_pathD: "validate_fixed_path s = Inr t \<Longrightarrow> t = s \<and> \<not> contains_control s"
  by (auto simp: validate_fixed_path_def require_metadata_line_def split: if_splits)

text \<open>A clone command that is built for a URL ends in \<^verbatim>\<open>--\<close>, that URL and the destination, so neither can be read as
  an option; the URL is an HTTPS URL with a host and without user name or password; git, the directories and the
  destination are absolute paths without dot parts; and no argument and no variable of the environment holds a
  control character.\<close>

theorem clone_command_is_confined:
  assumes "build_public_git_clone_invocation r url git askpass home destination path = Inr i"
  shows "ci_argv i = git # clone_options @ [u ''--'', url, destination]
    \<and> ascii_lower (before_first 58 url) = u ''https'' \<and> url = before_first 58 url @ 58 # after_first 58 url
    \<and> (\<exists>p. url_split r url = Some p \<and> 64 \<notin> set (up_netloc p) \<and> fst (host_info (up_netloc p)) \<noteq> [])
    \<and> (\<forall>x \<in> {git, askpass, home, destination}. is_absolute x \<and> \<not> dotted_part x)
    \<and> \<not> list_ex contains_control (ci_argv i) \<and> \<not> list_ex contains_control (map snd (ci_env i))"
proof -
  from assms obtain a b c d e f where v: "validate_public_https_git_url r url = Inr a"
    "validate_absolute_remote_path git = Inr b" "validate_absolute_remote_path askpass = Inr c"
    "validate_absolute_remote_path home = Inr d" "validate_absolute_remote_path destination = Inr e"
    "validate_fixed_path path = Inr f"
    and i: "i = \<lparr>ci_argv = b # clone_options @ [u ''--'', a, e], ci_env = clone_environment c d f\<rparr>"
    by (auto simp: build_public_git_clone_invocation_def rbind_def split: sum.splits)
  note url = git_urlD [OF v(1)]
  note paths = absolute_remote_pathD [OF v(2)] absolute_remote_pathD [OF v(3)] absolute_remote_pathD [OF v(4)]
    absolute_remote_pathD [OF v(5)]
  note fixed = fixed_pathD [OF v(6)]
  have argv: "\<not> list_ex contains_control (ci_argv i)"
    using url paths no_control_options by (auto simp: i list_ex_iff contains_control_def u_def)
  have env: "\<not> list_ex contains_control (map snd (ci_env i))"
    using paths fixed by (simp add: i clone_environment_def) (simp add: contains_control_def u_def)
  from url url_split_scheme show ?thesis
    using argv env paths by (auto simp: i)
qed

definition plain_rules :: url_rules where
  "plain_rules = \<lparr>ur_lower = ascii_lower, ur_bracketed = (\<lambda>_. False), ur_nfkc = (\<lambda>_. False)\<rparr>"

definition sample_url :: ustr where "sample_url = u ''https://git.example/org/repo.git''"

lemmas git_eval = validate_absolute_remote_path_def require_metadata_line_def validate_fixed_path_def contains_control_def
  pure_posix_def pure_root_def pure_text_def path_parts_def as_posix_def dotted_part_def is_absolute_def u_def slash_def
  backslash_def dot_def dotdot_def starts_with_def

lemma sample_paths:
  "validate_absolute_remote_path (u ''/usr/bin/git'') = Inr (u ''/usr/bin/git'')"
  "validate_absolute_remote_path (u ''/r/askpass'') = Inr (u ''/r/askpass'')"
  "validate_absolute_remote_path (u ''/r/home'') = Inr (u ''/r/home'')"
  "validate_absolute_remote_path (u ''/r/work'') = Inr (u ''/r/work'')"
  "validate_fixed_path default_fixed_path = Inr default_fixed_path"
  by (simp_all add: git_eval default_fixed_path_def)

lemma sample_url_split:
  "url_split plain_rules sample_url =
     Some \<lparr>up_scheme = u ''https'', up_netloc = u ''git.example'', up_path = u ''/org/repo.git''\<rparr>"
  by (simp add: url_split_def Let_def sample_url_def git_eval before_first_def after_first_def ascii_alpha_def scheme_char_def
      ascii_lower_def ascii_digit_def)

lemma sample_url_accepted: "validate_public_https_git_url plain_rules sample_url = Inr sample_url"
  by (simp add: validate_public_https_git_url_def sample_url_split Let_def)
     (simp add: sample_url_def git_eval is_space_def port_ok_def host_info_def after_last_def before_first_def after_first_def
        ascii_lower_def Let_def)

lemma sample_clone:
  "build_public_git_clone_invocation plain_rules sample_url (u ''/usr/bin/git'') (u ''/r/askpass'') (u ''/r/home'') (u ''/r/work'')
     default_fixed_path
   = Inr \<lparr>ci_argv = u ''/usr/bin/git'' # clone_options @ [u ''--'', sample_url, u ''/r/work''],
          ci_env = clone_environment (u ''/r/askpass'') (u ''/r/home'') default_fixed_path\<rparr>"
  by (simp add: build_public_git_clone_invocation_def sample_paths sample_url_accepted)

theorem clone_witness:
  "\<exists>i. build_public_git_clone_invocation plain_rules sample_url (u ''/usr/bin/git'') (u ''/r/askpass'') (u ''/r/home'')
         (u ''/r/work'') default_fixed_path = Inr i
     \<and> ci_argv i = u ''/usr/bin/git'' # clone_options @ [u ''--'', sample_url, u ''/r/work''] \<and> \<not> list_ex contains_control (ci_argv i)"
  using clone_command_is_confined [OF sample_clone] sample_clone by simp

lemma credentials_refused: "validate_public_https_git_url plain_rules (u ''https://me@git.example/r'') = Inl ''git_url_userinfo''"
proof -
  let ?u = "u ''https://me@git.example/r''"
  have "url_split plain_rules ?u = Some \<lparr>up_scheme = u ''https'', up_netloc = u ''me@git.example'', up_path = u ''/r''\<rparr>"
    by (simp add: url_split_def Let_def git_eval before_first_def after_first_def ascii_alpha_def scheme_char_def
        ascii_lower_def ascii_digit_def)
  then show ?thesis
    by (simp add: validate_public_https_git_url_def Let_def)
       (simp add: git_eval is_space_def port_ok_def host_info_def after_last_def before_first_def after_first_def
          ascii_lower_def Let_def)
qed

end
