(* ===== verification/Collection_Baseline.thy ===== *)
theory Collection_Baseline
  imports Source_Snapshot Json
begin

text \<open>
  The manifest of a Source that \<^verbatim>\<open>termroom/remote_runs.py\<close> keeps so that the results of a Remote Run can be compared with
  what was sent: the JSON text it writes and how it reads the text back. What \<^verbatim>\<open>str\<close> and \<^verbatim>\<open>int\<close> make of other JSON values
  is a parameter.
\<close>

record json_rules =
  jr_alpha :: "nat \<Rightarrow> bool"
  jr_casefold :: "ustr \<Rightarrow> ustr"
  jr_decimal :: "nat \<Rightarrow> nat option"
  jr_shown :: "64 word \<Rightarrow> ustr"
  jr_read :: "ustr \<Rightarrow> 64 word"
  jr_depth :: nat
  jr_str :: "json \<Rightarrow> ustr"
  jr_exact :: "64 word \<Rightarrow> int option"
  jr_trunc :: "64 word \<Rightarrow> bool + int"

section \<open>Writing\<close>

text \<open>\<^verbatim>\<open>json.dumps(value, sort_keys=True, ...)\<close>.\<close>

fun sort_keys :: "json \<Rightarrow> json" where
  "sort_keys (JArr js) = JArr (map sort_keys js)"
| "sort_keys (JObj es) = JObj (sort_key fst (map (\<lambda>(k, j). (k, sort_keys j)) es))"
| "sort_keys j = j"

definition canonical_json :: "json_rules \<Rightarrow> json \<Rightarrow> ustr" where
  "canonical_json r j = dumps (jr_shown r) (sort_keys j)"

definition kind_text :: "entry_kind \<Rightarrow> ustr" where
  "kind_text k = (case k of File_Kind \<Rightarrow> u ''file'' | Directory_Kind \<Rightarrow> u ''directory'' | Symlink_Kind \<Rightarrow> u ''symlink''
     | Other_Kind t \<Rightarrow> t)"

definition entry_members :: "workspace_entry \<Rightarrow> (ustr \<times> json) list" where
  "entry_members e =
    [(u ''path'', JStr (we_path e)), (u ''kind'', JStr (kind_text (we_kind e))), (u ''size'', JInt (we_size e)),
     (u ''mtime_ns'', JInt (we_mtime e)), (u ''executable'', JBool (we_executable e))]
    @ (case we_digest e of None \<Rightarrow> [] | Some d \<Rightarrow> [(u ''digest'', JStr d)])
    @ (case we_target e of None \<Rightarrow> [] | Some t \<Rightarrow> if t = [] then [] else [(u ''link_target'', JStr t)])"

definition entry_json :: "workspace_entry \<Rightarrow> json" where "entry_json e = JObj (entry_members e)"

definition baseline_json :: "workspace_manifest \<Rightarrow> json" where
  "baseline_json m = JObj
    [(u ''version'', JInt 2), (u ''entries'', JArr (map entry_json (wm_entries m))),
     (u ''excluded_prefixes'', JArr (map JStr (wm_excluded m)))]"

text \<open>The bytes of the file; \<open>None\<close> where the text cannot be encoded.\<close>

definition baseline_bytes :: "json_rules \<Rightarrow> workspace_manifest \<Rightarrow> bytes option" where
  "baseline_bytes r m = utf8_encode (canonical_json r (baseline_json m) @ [10])"

section \<open>Reading\<close>

text \<open>The three answers of \<^verbatim>\<open>RemoteRunError\<close>, and what the code does not catch.\<close>

datatype baseline_error = Unavailable | Incompatible | Invalid_Baseline | Escaped string

definition falsy :: "json_rules \<Rightarrow> json \<Rightarrow> bool" where
  "falsy r j = (case j of JNull \<Rightarrow> True | JBool b \<Rightarrow> \<not> b | JInt i \<Rightarrow> i = 0 | JFloat f \<Rightarrow> jr_exact r f = Some 0
     | JStr s \<Rightarrow> s = [] | JArr js \<Rightarrow> js = [] | JObj es \<Rightarrow> es = [])"

definition field :: "ustr \<Rightarrow> (ustr \<times> json) list \<Rightarrow> json" where
  "field k es = (case map_of es k of None \<Rightarrow> JNull | Some j \<Rightarrow> j)"

definition text_of :: "json_rules \<Rightarrow> json \<Rightarrow> ustr" where
  "text_of r j = (case j of JStr s \<Rightarrow> s | _ \<Rightarrow> jr_str r j)"

definition text_or_empty :: "json_rules \<Rightarrow> json \<Rightarrow> ustr" where
  "text_or_empty r j = (if falsy r j then [] else text_of r j)"

definition optional_text :: "json_rules \<Rightarrow> json \<Rightarrow> ustr option" where
  "optional_text r j = (if j = JNull then None else Some (text_of r j))"

text \<open>\<^verbatim>\<open>int(value or 0)\<close>; the \<open>bool\<close> of a float says whether the exception is a \<^verbatim>\<open>ValueError\<close>.\<close>

definition int_or_zero :: "json_rules \<Rightarrow> json \<Rightarrow> baseline_error + int" where
  "int_or_zero r j =
    (if falsy r j then Inr 0
     else (case j of
             JInt i \<Rightarrow> Inr i
           | JBool b \<Rightarrow> Inr 1
           | JFloat f \<Rightarrow> (case jr_trunc r f of Inl val \<Rightarrow> Inl (if val then Invalid_Baseline else Escaped ''OverflowError'') | Inr i \<Rightarrow> Inr i)
           | JStr s \<Rightarrow> (case py_int (jr_decimal r) s of None \<Rightarrow> Inl Invalid_Baseline | Some i \<Rightarrow> Inr i)
           | _ \<Rightarrow> Inl Invalid_Baseline))"

definition number_of :: "json_rules \<Rightarrow> json \<Rightarrow> int option" where
  "number_of r j = (case j of JInt i \<Rightarrow> Some i | JBool b \<Rightarrow> Some (if b then 1 else 0) | JFloat f \<Rightarrow> jr_exact r f | _ \<Rightarrow> None)"

definition kind_of_text :: "ustr \<Rightarrow> entry_kind" where
  "kind_of_text t = (if t = u ''file'' then File_Kind else if t = u ''directory'' then Directory_Kind
     else if t = u ''symlink'' then Symlink_Kind else Other_Kind t)"

definition entry_of_json :: "json_rules \<Rightarrow> json \<Rightarrow> baseline_error + workspace_entry" where
  "entry_of_json r j =
    (case j of
       JObj es \<Rightarrow>
         rbind (int_or_zero r (field (u ''size'') es)) (\<lambda>n.
         rbind (int_or_zero r (field (u ''mtime_ns'') es)) (\<lambda>t.
           Inr \<lparr>we_path = text_or_empty r (field (u ''path'') es),
                we_kind = kind_of_text (text_or_empty r (field (u ''kind'') es)), we_size = n, we_mtime = t,
                we_executable = (field (u ''executable'') es = JBool True),
                we_target = optional_text r (field (u ''link_target'') es),
                we_digest = optional_text r (field (u ''digest'') es)\<rparr>))
     | _ \<Rightarrow> Inl Invalid_Baseline)"

definition prefix_texts :: "json \<Rightarrow> baseline_error + ustr list" where
  "prefix_texts j =
    (case j of JArr js \<Rightarrow> traverse (\<lambda>x. case x of JStr s \<Rightarrow> Inr s | _ \<Rightarrow> Inl Invalid_Baseline) js | _ \<Rightarrow> Inl Invalid_Baseline)"

definition parse_baseline :: "json_rules \<Rightarrow> json \<Rightarrow> baseline_error + workspace_manifest option" where
  "parse_baseline r j =
    (case j of
       JObj es \<Rightarrow>
         let version = field (u ''version'') es in
         if (\<exists>js. version = JArr js) \<or> (\<exists>ms. version = JObj ms) then Inl (Escaped ''TypeError'')
         else if number_of r version \<notin> {Some 1, Some 2} then Inl Incompatible
         else (case field (u ''entries'') es of
             JArr values \<Rightarrow>
               rbind (if number_of r version = Some 2 then prefix_texts (field (u ''excluded_prefixes'') es) else Inr []) (\<lambda>prefixes.
               rbind (traverse (entry_of_json r) values) (\<lambda>entries.
                 case build_workspace_manifest (jr_alpha r) (jr_casefold r) entries prefixes of
                   Inl code \<Rightarrow> Inl Invalid_Baseline
                 | Inr m \<Rightarrow> Inr (if list_ex (\<lambda>e. we_kind e = File_Kind \<and> we_digest e = None) (wm_entries m) then None else Some m)))
           | _ \<Rightarrow> Inl Invalid_Baseline)
     | _ \<Rightarrow> Inl Incompatible)"

definition collection_manifest :: "json_rules \<Rightarrow> bytes option \<Rightarrow> baseline_error + workspace_manifest option" where
  "collection_manifest r contents =
    (case contents of
       None \<Rightarrow> Inr None
     | Some b \<Rightarrow>
        (case utf8_decode True b of
           None \<Rightarrow> Inl Unavailable
         | Some t \<Rightarrow>
            (case loads (jr_read r) (jr_depth r) t of
               Inl JSON_Decode_Error \<Rightarrow> Inl Unavailable
             | Inl Int_Too_Long \<Rightarrow> Inl (Escaped ''ValueError'')
             | Inl Recursion_Error \<Rightarrow> Inl (Escaped ''RecursionError'')
             | Inr j \<Rightarrow> parse_baseline r j)))"

end
