(* ===== verification/Remote_Run_Manager.thy ===== *)
theory Remote_Run_Manager
  imports Workspace_Manager Store_Terminals Archive_Safety Git_Source Collection_Baseline
begin

text \<open>
  \<open>RemoteRunManager\<close> of \<^verbatim>\<open>termroom/remote_runs.py\<close>: creating a Remote Run, taking in its ZIP, preparing it on its
  target, starting it, following, stopping, killing and deleting it, and what is repaired when Termroom starts.

  The operations run in several threads and most of them hold no lock in common, so an operation is a sequence of
  steps and \<open>re_meanwhile\<close> is what the other threads do to the database before each of them (the files of the spool are
  touched by the operation alone). Every step is noted in a
  log, and what the target, the clock and the other threads answer is a function of the position in the log.
\<close>

section \<open>Exceptions\<close>

text \<open>The classes the code tells apart, the \<^verbatim>\<open>code\<close> attribute of those that have one, and the message.\<close>

datatype rr_class =
    Run_Error | Run_Conflict | Ssh_Error | Status_Unknown | Layout_Error | Node_Error | Archive_Error | Source_Error
  | Value_Failed | Key_Failed | Missing_File | Existing_File | Os_Failed | Other_Failed

record rr_exn =
  rx_class :: rr_class
  rx_code :: "ustr option"
  rx_text :: ustr

definition run_error :: "string \<Rightarrow> string \<Rightarrow> rr_exn" where
  "run_error code message = \<lparr>rx_class = Run_Error, rx_code = Some (u code), rx_text = u message\<rparr>"

definition run_conflict :: "string \<Rightarrow> string \<Rightarrow> rr_exn" where
  "run_conflict code message = \<lparr>rx_class = Run_Conflict, rx_code = Some (u code), rx_text = u message\<rparr>"

definition plain_error :: "rr_class \<Rightarrow> string \<Rightarrow> rr_exn" where
  "plain_error c message = \<lparr>rx_class = c, rx_code = None, rx_text = u message\<rparr>"

definition is_run_error :: "rr_exn \<Rightarrow> bool" where "is_run_error x \<longleftrightarrow> rx_class x \<in> {Run_Error, Run_Conflict}"

definition is_ssh_error :: "rr_exn \<Rightarrow> bool" where
  "is_ssh_error x \<longleftrightarrow> rx_class x \<in> {Ssh_Error, Status_Unknown, Layout_Error, Node_Error}"

definition is_os_error :: "rr_exn \<Rightarrow> bool" where "is_os_error x \<longleftrightarrow> rx_class x \<in> {Missing_File, Existing_File, Os_Failed}"

definition is_value_error :: "rr_exn \<Rightarrow> bool" where
  "is_value_error x \<longleftrightarrow> rx_class x \<in> {Value_Failed, Archive_Error, Source_Error}"

text \<open>The exceptions of the store, of the Workspace manager and of the file system. \<^verbatim>\<open>str(KeyError(text))\<close> is quoted.\<close>

definition db_fault :: "db_error \<Rightarrow> rr_exn" where
  "db_fault x =
    (case x of
       db_error.KeyError m \<Rightarrow> \<lparr>rx_class = Key_Failed, rx_code = None, rx_text = 39 # u m @ [39]\<rparr>
     | db_error.ValueError m \<Rightarrow> plain_error Value_Failed m
     | db_error.RuntimeError m \<Rightarrow> plain_error Other_Failed m
     | IntegrityError \<Rightarrow> plain_error Other_Failed [])"

definition file_fault :: "file_error \<Rightarrow> rr_exn" where
  "file_fault x =
    (case x of
       file_error.FileNotFoundError \<Rightarrow> plain_error Missing_File []
     | file_error.FileExistsError \<Rightarrow> plain_error Existing_File []
     | file_error.NotADirectoryError \<Rightarrow> plain_error Os_Failed []
     | file_error.IsADirectoryError \<Rightarrow> plain_error Os_Failed []
     | file_error.OSError m \<Rightarrow> plain_error Os_Failed m
     | file_error.SymlinkLoop \<Rightarrow> plain_error Other_Failed []
     | file_error.ValueError m \<Rightarrow> plain_error Value_Failed m
     | file_error.PathBoundaryError m \<Rightarrow> plain_error Value_Failed m
     | file_error.UnsupportedFileError m \<Rightarrow> plain_error Value_Failed m
     | file_error.FileConflictError m \<Rightarrow> plain_error Other_Failed m
     | file_error.DirectoryListingLimitError m \<Rightarrow> plain_error Value_Failed m)"

definition ws_fault :: "ws_exn \<Rightarrow> rr_exn" where
  "ws_fault x =
    (case x of
       File_Raised f \<Rightarrow> file_fault f
     | Db_Raised d \<Rightarrow> db_fault d
     | Key_Error m \<Rightarrow> \<lparr>rx_class = Key_Failed, rx_code = None, rx_text = 39 # u m @ [39]\<rparr>
     | ws_exn.Value_Error m \<Rightarrow> plain_error Value_Failed m
     | Project_Name_Error m \<Rightarrow> plain_error Value_Failed m
     | Unicode_Encode_Error \<Rightarrow> plain_error Value_Failed []
     | Project_Path_Exists _ _ \<Rightarrow> plain_error Existing_File []
     | ws_exn.Runtime_Error m \<Rightarrow> plain_error Other_Failed m
     | Project_Workspace_Failed _ _ \<Rightarrow> plain_error Other_Failed [])"

text \<open>Refused Sources and archives; \<open>message\<close> gives the text that goes with a code.\<close>

definition source_fault :: "(string \<Rightarrow> ustr) \<Rightarrow> string \<Rightarrow> rr_exn" where
  "source_fault message code =
    (if code = ''RecursionError'' \<or> code = ''AssertionError'' then plain_error Other_Failed []
     else \<lparr>rx_class = Source_Error, rx_code = Some (u code), rx_text = message code\<rparr>)"

definition archive_fault :: "(string \<Rightarrow> ustr) \<Rightarrow> archive_error \<Rightarrow> rr_exn" where
  "archive_fault message x =
    (case x of
       Unsafe code \<Rightarrow> \<lparr>rx_class = Archive_Error, rx_code = Some (u code), rx_text = message code\<rparr>
     | Uncaught OS_Error \<Rightarrow> plain_error Os_Failed []
     | Uncaught _ \<Rightarrow> plain_error Other_Failed [])"

section \<open>The target\<close>

datatype target_place = Ssh_Target | Node_Target

datatype target_call =
    Preflight "ustr option" bool
  | Create_Layout ustr ustr ustr ustr
  | Git_Parameters ustr
  | Scan_Source ustr "ustr list" "ustr list"
  | Open_Sink ustr
  | Sink_Step ustr sink_op
  | Sink_Extract ustr extract_op
  | Commit_Snapshot ustr
  | Write_Metadata ustr string json
  | Start_Run ustr
  | Start_Git_Run ustr clone_invocation
  | Reconcile_Run ustr
  | Poll_Run ustr ustr "int option" int
  | Interrupt_Target ustr
  | Kill_Target ustr
  | Delete_Root ustr
  | Layout_Exists ustr
  | Ensure_Shell ustr bool
  | Ensure_Workspace ustr

record preflight =
  pf_base :: ustr
  pf_git :: ustr
  pf_available :: "int option"
  pf_warnings :: "ustr list"

record run_layout =
  ly_metadata :: ustr
  ly_staging :: ustr

record git_parameters =
  gp_git :: ustr
  gp_askpass :: ustr
  gp_home :: ustr
  gp_destination :: ustr

text \<open>What the target knows of a run. A reported end is its time stamp and whether its text is an aware ISO time.\<close>

record remote_status =
  st_state :: ustr
  st_phase :: "ustr option"
  st_started :: "stamp option"
  st_ended :: "(stamp \<times> bool) option"
  st_exit :: "int option"
  st_error :: "ustr option"
  st_detail :: "ustr option"
  st_revision :: "ustr option"
  st_layout_missing :: bool
  st_layout_error :: bool
  st_tmux_exists :: bool
  st_tmux_running :: bool
  st_record_errors :: bool

record control_answer =
  ca_completed :: bool
  ca_done :: bool
  ca_layout_missing :: bool
  ca_tmux_exists :: bool
  ca_tmux_running :: bool

record shell_answer =
  sa_session :: ustr
  sa_work :: ustr
  sa_terminals :: "live_window list option"

section \<open>The world of an operation\<close>

record sidecar =
  sc_run :: ustr
  sc_filename :: ustr
  sc_uploaded :: stamp
  sc_expires :: stamp
  sc_size :: int

text \<open>The files of a run in the spool; a sidecar that cannot be read back is \<open>None\<close>. A part has its time of change.\<close>

record spool =
  sp_archive :: "bytes option"
  sp_sidecar :: "sidecar option option"
  sp_part :: "(bytes \<times> stamp) option"

definition no_spool :: spool where "no_spool = \<lparr>sp_archive = None, sp_sidecar = None, sp_part = None\<rparr>"

datatype rr_event =
    Looked
  | Asked target_place ustr target_call
  | Moved ustr remote_change bool
  | Created_Run ustr bool
  | Expired_Run ustr bool
  | Workspace_Removed ustr
  | Record_Deleted ustr
  | Spool_Written ustr
  | Spool_Removed ustr
  | Spools_Cleaned
  | Spool_Timer ustr stamp
  | Baseline_Written ustr
  | Scheduled ustr
  | Cancel_Set ustr
  | Bridged ustr

record rr_world =
  rw_store :: store
  rw_log :: "rr_event list"
  rw_spool :: "ustr \<Rightarrow> spool"
  rw_baseline :: "ustr \<Rightarrow> bytes option"

type_synonym 'a rr = "rr_world \<Rightarrow> (rr_exn + 'a) \<times> rr_world"

text \<open>What the surroundings answer at a position of the log.\<close>

record rr_env =
  re_meanwhile :: "nat \<Rightarrow> store \<Rightarrow> store"
  re_now :: "nat \<Rightarrow> stamp"
  re_tick :: "nat \<Rightarrow> rat"
  re_id :: "nat \<Rightarrow> ustr"
  re_live :: "nat \<Rightarrow> bool"
  re_cancel :: "nat \<Rightarrow> bool"
  re_capable :: "nat \<Rightarrow> bool"
  re_source_capable :: "nat \<Rightarrow> bool"
  re_preflight :: "nat \<Rightarrow> rr_exn + preflight"
  re_layout :: "nat \<Rightarrow> rr_exn + run_layout"
  re_git :: "nat \<Rightarrow> rr_exn + git_parameters"
  re_done :: "nat \<Rightarrow> rr_exn + unit"
  re_scan :: "nat \<Rightarrow> rr_exn + workspace_manifest"
  re_read :: "nat \<Rightarrow> file_source"
  re_status :: "nat \<Rightarrow> rr_exn + remote_status"
  re_control :: "nat \<Rightarrow> rr_exn + control_answer"
  re_exists :: "nat \<Rightarrow> rr_exn + bool"
  re_shell :: "nat \<Rightarrow> rr_exn + shell_answer"
  re_draws :: "nat \<Rightarrow> draws"
  re_ids :: "nat \<Rightarrow> nat \<Rightarrow> ustr"
  re_fs :: "nat \<Rightarrow> fs"
  re_link_time :: "nat \<Rightarrow> path \<Rightarrow> int"

text \<open>The manager: its directories, whether it has a Node client, its upload limit, the room the recursion limit leaves
  to a scan; and the Unicode tables, the hash,
  \<^verbatim>\<open>zipfile\<close>, the JSON reader, the URL rules and the texts of the refusals it relies on.\<close>

record rr_manager =
  rm_here :: path
  rm_base :: path
  rm_private :: path
  rm_nodes :: bool
  rm_max :: int
  rm_room :: nat
  rm_json :: json_rules
  rm_git :: url_rules
  rm_sha :: "bytes \<Rightarrow> ustr"
  rm_zip :: "bytes \<Rightarrow> zip_archive"
  rm_message :: "string \<Rightarrow> ustr"

definition rm_alpha :: "rr_manager \<Rightarrow> nat \<Rightarrow> bool" where "rm_alpha m = jr_alpha (rm_json m)"
definition rm_casefold :: "rr_manager \<Rightarrow> ustr \<Rightarrow> ustr" where "rm_casefold m = jr_casefold (rm_json m)"

definition archive_limits_of :: "rr_manager \<Rightarrow> archive_limits" where
  "archive_limits_of m = default_archive_limits\<lparr>al_upload := rm_max m\<rparr>"

section \<open>Steps\<close>

definition position :: "rr_world \<Rightarrow> nat" where "position w = length (rw_log w)"

text \<open>The other threads act, then the step is noted.\<close>

definition pass :: "rr_env \<Rightarrow> rr_event \<Rightarrow> rr_world \<Rightarrow> rr_world" where
  "pass e ev w = w\<lparr>rw_log := rw_log w @ [ev], rw_store := re_meanwhile e (position w) (rw_store w)\<rparr>"

definition here_now :: "(nat \<Rightarrow> 'a) \<Rightarrow> 'a rr" where "here_now f w = (Inr (f (position w)), w)"

definition lift :: "rr_exn + 'a \<Rightarrow> 'a rr" where "lift r w = (r, w)"

definition catch :: "(rr_exn \<Rightarrow> bool) \<Rightarrow> 'a rr \<Rightarrow> (rr_exn \<Rightarrow> 'a rr) \<Rightarrow> 'a rr" where
  "catch named m h w = (case m w of (Inl x, w') \<Rightarrow> if named x then h x w' else (Inl x, w') | r \<Rightarrow> r)"

definition look :: "rr_env \<Rightarrow> (store \<Rightarrow> 'a) \<Rightarrow> 'a rr" where
  "look e f w = (let w' = pass e Looked w in (Inr (f (rw_store w')), w'))"

definition ask_target :: "rr_env \<Rightarrow> target_place \<Rightarrow> ustr \<Rightarrow> target_call \<Rightarrow> (nat \<Rightarrow> rr_exn + 'a) \<Rightarrow> 'a rr" where
  "ask_target e pl run_id c answer w = (answer (position w), pass e (Asked pl run_id c) w)"

text \<open>\<^verbatim>\<open>store.transition_remote_run\<close>.\<close>

definition move :: "rr_env \<Rightarrow> ustr \<Rightarrow> remote_change \<Rightarrow> bool rr" where
  "move e run_id c w =
    (let n = position w in
     case transition_remote_run (re_now e n) (re_id e n) run_id c (re_meanwhile e n (rw_store w)) of
       Inl x \<Rightarrow> (Inl (db_fault x), pass e (Moved run_id c False) w)
     | Inr (moved, s) \<Rightarrow> (Inr moved, (pass e (Moved run_id c moved) w)\<lparr>rw_store := s\<rparr>))"

text \<open>Another call of the store, noted by what it did.\<close>

definition update_db :: "rr_env \<Rightarrow> ('a \<Rightarrow> rr_event) \<Rightarrow> rr_event \<Rightarrow> (store \<Rightarrow> ('a \<times> store) result) \<Rightarrow> 'a rr" where
  "update_db e ev failed f w =
    (case f (re_meanwhile e (position w) (rw_store w)) of
       Inl x \<Rightarrow> (Inl (db_fault x), pass e failed w)
     | Inr (x, s) \<Rightarrow> (Inr x, (pass e (ev x) w)\<lparr>rw_store := s\<rparr>))"

text \<open>A step outside the database.\<close>

definition local_step :: "rr_env \<Rightarrow> rr_event \<Rightarrow> (rr_world \<Rightarrow> rr_world) \<Rightarrow> unit rr" where
  "local_step e ev f w = (Inr (), f (pass e ev w))"

definition expecting_run :: "ustr list \<Rightarrow> remote_change" where
  "expecting_run states = \<lparr>rc_expected = states, rc_expected_phase = None, rc_state = None, rc_phase = None,
     rc_started = None, rc_stop = None, rc_ended = None, rc_expires = None, rc_exit = None, rc_error = None,
     rc_detail = None, rc_source_revision = None, rc_source_size = None\<rparr>"

definition preparing :: "ustr list" where "preparing = [u ''preparing'']"
definition unfinished :: "ustr list" where "unfinished = [u ''preparing'', u ''running'']"

section \<open>Times and identifiers\<close>

definition retention :: int where "retention = 24 * 3600"
definition waiting_upload_ttl :: int where "waiting_upload_ttl = 3600"
definition max_command_bytes :: nat where "max_command_bytes = 256 * 1024"

definition terminal_expiry :: "stamp \<Rightarrow> stamp" where "terminal_expiry now = now + retention"

definition terminal_expiry_from :: "stamp \<Rightarrow> stamp \<times> bool \<Rightarrow> stamp" where
  "terminal_expiry_from now ended = (if snd ended then terminal_expiry (fst ended) else terminal_expiry now)"

definition waiting_upload_expiry :: "stamp \<Rightarrow> stamp" where "waiting_upload_expiry now = now + waiting_upload_ttl"

definition validate_remote_run_id :: "ustr \<Rightarrow> ustr rr" where
  "validate_remote_run_id v = (if uuid4_text v then give v else fail (plain_error Value_Failed ''Remote Run id must be a canonical UUIDv4''))"

section \<open>Reading runs\<close>

record rr_run =
  rn_row :: remote_run_row
  rn_target :: computer_row

definition ended_run :: "rr_run \<Rightarrow> bool" where "ended_run v \<longleftrightarrow> terminal_state (m_state (rn_row v))"

definition get_run :: "rr_env \<Rightarrow> ustr \<Rightarrow> rr_run rr" where
  "get_run e run_id =
    sbind (validate_remote_run_id run_id) (\<lambda>i.
    sbind (look e (get_remote_run i)) (\<lambda>row.
      case row of
        None \<Rightarrow> fail \<lparr>rx_class = Key_Failed, rx_code = None, rx_text = 39 # u ''Unknown Remote Run: '' @ i @ [39]\<rparr>
      | Some r \<Rightarrow>
          sbind (look e (get_computer (m_target r))) (\<lambda>c.
            case c of
              None \<Rightarrow> fail (run_error ''target_missing'' ''Remote Run target registration is missing'')
            | Some t \<Rightarrow> give \<lparr>rn_row = r, rn_target = t\<rparr>)))"

definition skips_run :: "rr_exn \<Rightarrow> bool" where
  "skips_run x \<longleftrightarrow> rx_class x = Key_Failed \<or> is_run_error x \<or> is_value_error x"

fun get_each :: "rr_env \<Rightarrow> ustr list \<Rightarrow> rr_run list rr" where
  "get_each e [] = give []"
| "get_each e (i # is) =
    sbind (catch skips_run (sbind (get_run e i) (\<lambda>v. give [v])) (\<lambda>_. give [])) (\<lambda>vs.
    sbind (get_each e is) (\<lambda>rest. give (vs @ rest)))"

definition list_recent_runs :: "rr_env \<Rightarrow> int \<Rightarrow> rr_run list rr" where
  "list_recent_runs e limit = sbind (look e (list_recent_remote_runs limit)) (\<lambda>rows. get_each e (map m_id rows))"

section \<open>Targets\<close>

definition require_computer :: "rr_manager \<Rightarrow> rr_env \<Rightarrow> ustr \<Rightarrow> computer_row rr" where
  "require_computer m e computer_id =
    (if computer_id = [] then fail (run_error ''target_required'' ''Choose a Remote'')
     else sbind (look e (get_computer computer_id)) (\<lambda>found.
       case found of
         None \<Rightarrow> fail \<lparr>rx_class = Run_Error, rx_code = Some (u ''target_required''), rx_text = u ''Unknown Remote: '' @ computer_id\<rparr>
       | Some c \<Rightarrow>
           (case c_method c of
              Node_Method \<Rightarrow>
                sbind (here_now (re_capable e)) (\<lambda>capable.
                  if c_revoked c \<noteq> None \<or> \<not> rm_nodes m \<or> \<not> capable
                  then fail (run_error ''capability_unsupported'' ''This Remote does not support Remote Run'')
                  else give c)
            | Ssh_Method \<Rightarrow> give c)))"

definition target_backend :: "rr_manager \<Rightarrow> computer_row \<Rightarrow> target_place rr" where
  "target_backend m c =
    (if c_method c \<noteq> Node_Method then give Ssh_Target
     else if \<not> rm_nodes m then fail (run_error ''capability_unsupported'' ''Node Remote Run is unavailable'')
     else give Node_Target)"

section \<open>What a request asks for\<close>

record create_payload =
  pl_id :: ustr
  pl_kind :: ustr
  pl_format :: ustr
  pl_target :: ustr
  pl_command :: ustr
  pl_options :: json
  pl_workspace :: ustr
  pl_path :: ustr
  pl_url :: ustr
  pl_archive :: ustr

definition rstrip :: "ustr \<Rightarrow> ustr" where "rstrip s = rev (dropWhile is_space (rev s))"

text \<open>The Source of a request: the Workspace and path, the URL, the label and the options that are stored.\<close>

record run_source =
  rs_workspace :: "ustr option"
  rs_path :: "ustr option"
  rs_url :: "ustr option"
  rs_label :: ustr
  rs_name :: "ustr option"

definition explicit_paths :: "rr_manager \<Rightarrow> json \<Rightarrow> rr_exn + ustr list" where
  "explicit_paths m options =
    (let r = rm_json m; opts = (if falsy r options then JObj [] else options) in
     case opts of
       JObj es \<Rightarrow>
         let given = field (u ''explicitly_included'') es; given' = (if falsy r given then JArr [] else given) in
         (case given' of
            JArr js \<Rightarrow>
              (case traverse (source_path (rm_alpha m)) (map (text_of r) js) of
                 Inl code \<Rightarrow> Inl (source_fault (rm_message m) code)
               | Inr ps \<Rightarrow> Inr (sort (remdups ps)))
          | _ \<Rightarrow> Inl (run_error ''source_options'' ''Explicit Source paths must be a list''))
     | _ \<Rightarrow> Inl (run_error ''source_options'' ''Remote Run Source options must be an object''))"

definition invalid_workspace :: rr_exn where
  "invalid_workspace = run_error ''workspace_required'' ''Choose a valid Workspace Source''"

text \<open>\<^verbatim>\<open>except (KeyError, ValueError)\<close> around the checks of a Workspace Source.\<close>

definition workspace_source :: "rr_manager \<Rightarrow> rr_env \<Rightarrow> create_payload \<Rightarrow> run_source rr" where
  "workspace_source m e p =
    (let i = strip (pl_workspace p) in
     if i = [] then fail (run_error ''workspace_required'' ''Choose a Workspace Source'')
     else catch (\<lambda>x. rx_class x = Key_Failed \<or> is_value_error x)
       (sbind (here_now (re_fs e)) (\<lambda>fs.
        sbind (look e (require (rm_here m) (rm_base m) fs i)) (\<lambda>found.
        sbind (lift (case found of Inl x \<Rightarrow> Inl (ws_fault x) | Inr v \<Rightarrow> Inr v)) (\<lambda>v.
        sbind (if wv_transient v \<or> wv_run v \<noteq> None
               then fail (run_error ''workspace_required'' ''A transient Remote Run Workspace cannot be a Source'')
               else if w_backend (wv_row v) = Remote_Backend
               then (case map_option c_method (wv_computer v) of
                       Some Node_Method \<Rightarrow>
                         sbind (here_now (re_source_capable e)) (\<lambda>capable.
                           if \<not> rm_nodes m \<or> \<not> capable
                           then fail (run_error ''capability_unsupported'' ''This Remote does not support Workspace Sources'')
                           else give ())
                     | Some Ssh_Method \<Rightarrow> give ()
                     | None \<Rightarrow> fail (run_error ''workspace_required'' ''This Workspace connection method is not supported yet''))
               else give ()) (\<lambda>_.
        sbind (lift (case normalize_source_relative_path (rm_alpha m) True False (if pl_path p = [] then dot else pl_path p) of
                       Inl code \<Rightarrow> Inl (source_fault (rm_message m) code) | Inr q \<Rightarrow> Inr q)) (\<lambda>path.
          give \<lparr>rs_workspace = Some i, rs_path = Some path, rs_url = None,
                rs_label = (if path = dot then wv_display v else wv_display v @ [slash] @ path), rs_name = None\<rparr>))))))
       (\<lambda>_. fail invalid_workspace))"

definition git_source :: "rr_manager \<Rightarrow> create_payload \<Rightarrow> run_source rr" where
  "git_source m p =
    (case validate_public_https_git_url (rm_git m) (pl_url p) of
       Inl code \<Rightarrow> fail (source_fault (rm_message m) code)
     | Inr url \<Rightarrow> give \<lparr>rs_workspace = None, rs_path = None, rs_url = Some url, rs_label = git_label (rm_git m) url, rs_name = None\<rparr>)"

definition archive_source :: "rr_manager \<Rightarrow> create_payload \<Rightarrow> run_source rr" where
  "archive_source m p =
    (case validate_zip_filename (rm_casefold m) (pl_archive p) of
       Inl x \<Rightarrow> fail (archive_fault (rm_message m) x)
     | Inr name \<Rightarrow> give \<lparr>rs_workspace = None, rs_path = None, rs_url = None, rs_label = pure_name name, rs_name = Some (pure_name name)\<rparr>)"

definition options_json :: "ustr list \<Rightarrow> ustr option \<Rightarrow> json" where
  "options_json paths name = JObj
    ([(u ''policy'', JInt 1), (u ''explicitly_included'', JArr (map JStr paths))]
     @ (case name of None \<Rightarrow> [] | Some n \<Rightarrow> [(u ''archive_name'', JStr n)]))"

definition normalize_create_payload :: "rr_manager \<Rightarrow> rr_env \<Rightarrow> create_payload \<Rightarrow> remote_values rr" where
  "normalize_create_payload m e p =
    sbind (validate_remote_run_id (pl_id p)) (\<lambda>i.
    (let requested = strip (pl_kind p); kind = (if requested = u ''zip'' then u ''archive'' else requested) in
     if kind \<notin> {u ''workspace'', u ''git'', u ''archive''}
     then fail (run_error ''source_kind'' ''Remote Run Source must be Workspace, Git, or Archive'')
     else
     (let format = ur_lower (rm_git m) (strip (if pl_format p = [] then u ''zip'' else pl_format p)) in
      if kind = u ''archive'' \<and> format \<noteq> u ''zip'' then fail (run_error ''archive_format'' ''Only ZIP Archives are supported'')
      else
      (let target = strip (pl_target p) in
       sbind (require_computer m e target) (\<lambda>_.
       (let command = rstrip (pl_command p) in
        if strip command = [] then fail (run_error ''command_required'' ''Remote Run command cannot be empty'')
        else case utf8_encode command of
          None \<Rightarrow> fail (plain_error Value_Failed [])
        | Some encoded \<Rightarrow>
          if length encoded > max_command_bytes then fail (run_error ''command_required'' ''Remote Run command is too large'')
          else
          sbind (lift (explicit_paths m (pl_options p))) (\<lambda>paths.
          sbind (if kind = u ''workspace'' then workspace_source m e p
                 else if kind = u ''git'' then git_source m p else archive_source m p) (\<lambda>src.
            give \<lparr>v_id = i, v_kind = Some kind, v_format = (if kind = u ''archive'' then Some format else None),
                  v_source_workspace = rs_workspace src, v_path = rs_path src, v_label = Some (rs_label src), v_url = rs_url src,
                  v_options = Some (canonical_json (rm_json m) (options_json paths (rs_name src))), v_source_revision = None,
                  v_size = None, v_target = Some target, v_command = Some command, v_base = None, v_workspace = None,
                  v_state = None, v_phase = None, v_created = None, v_expires = None\<rparr>))))))))"

text \<open>The immutable columns of a run and of a request for it.\<close>

definition same_request :: "remote_run_row \<Rightarrow> remote_values \<Rightarrow> bool" where
  "same_request r v \<longleftrightarrow>
    map_option source_kind_of (v_kind v) = Some (Some (m_kind r)) \<and> v_format v = m_format r
    \<and> v_source_workspace v = m_source_workspace r \<and> v_path v = m_source_path r \<and> v_label v = Some (m_label r)
    \<and> v_url v = m_url r \<and> v_options v = Some (m_options r) \<and> v_target v = Some (m_target r)
    \<and> v_command v = Some (m_command r)"

definition assert_idempotent :: "remote_run_row \<Rightarrow> remote_values \<Rightarrow> unit rr" where
  "assert_idempotent existing requested =
    (if same_request existing requested then give ()
     else fail (run_conflict ''idempotency_conflict'' ''Remote Run id was already used with different settings''))"

definition schedule :: "rr_env \<Rightarrow> ustr \<Rightarrow> bool rr" where
  "schedule e run_id =
    sbind (validate_remote_run_id run_id) (\<lambda>i.
    sbind (here_now (re_live e)) (\<lambda>live.
      if live then give False else sbind (local_step e (Scheduled i) id) (\<lambda>_. give True)))"

section \<open>Creating a run\<close>

text \<open>\<^verbatim>\<open>str(computer.get("run_base_dir") or "") or None\<close>.\<close>

definition configured_base :: "computer_row \<Rightarrow> ustr option" where
  "configured_base c = (case c_run_base c of None \<Rightarrow> None | Some b \<Rightarrow> if b = [] then None else Some b)"

definition check_target :: "rr_manager \<Rightarrow> rr_env \<Rightarrow> remote_values \<Rightarrow> preflight rr" where
  "check_target m e v =
    sbind (require_computer m e (the (v_target v))) (\<lambda>c.
    sbind (target_backend m c) (\<lambda>pl.
      ask_target e pl (v_id v) (Preflight (configured_base c) (v_kind v = Some (u ''git''))) (re_preflight e)))"

definition first_phase :: "remote_values \<Rightarrow> ustr" where
  "first_phase v = (if v_kind v = Some (u ''archive'') then u ''waiting_upload''
     else if v_kind v = Some (u ''git'') then u ''cloning'' else u ''scanning'')"

definition insert_run :: "rr_env \<Rightarrow> remote_values \<Rightarrow> (remote_run_row \<times> bool) rr" where
  "insert_run e v = update_db e (\<lambda>x. Created_Run (v_id v) (snd x)) (Created_Run (v_id v) False)
     (\<lambda>s. map_sum id (\<lambda>(r, c, s'). ((r, c), s')) (create_remote_run v s))"

definition create :: "rr_manager \<Rightarrow> rr_env \<Rightarrow> create_payload \<Rightarrow> (rr_run \<times> bool) rr" where
  "create m e p =
    sbind (normalize_create_payload m e p) (\<lambda>normalized.
    sbind (look e (get_remote_run (v_id normalized))) (\<lambda>existing.
      case existing of
        Some r \<Rightarrow> sbind (assert_idempotent r normalized) (\<lambda>_. sbind (get_run e (m_id r)) (\<lambda>v. give (v, False)))
      | None \<Rightarrow>
          sbind (check_target m e normalized) (\<lambda>pf.
          sbind (here_now (re_now e)) (\<lambda>now.
          (let archive = (v_kind normalized = Some (u ''archive''));
               values = normalized\<lparr>v_base := Some (pf_base pf), v_state := Some (u ''preparing''),
                 v_phase := Some (first_phase normalized), v_created := Some now,
                 v_expires := (if archive then Some (waiting_upload_expiry now) else None)\<rparr> in
           sbind (insert_run e values) (\<lambda>(r, created).
             if \<not> created
             then sbind (assert_idempotent r normalized) (\<lambda>_. sbind (get_run e (m_id r)) (\<lambda>v. give (v, False)))
             else sbind (if archive then give False else schedule e (m_id r)) (\<lambda>_.
                  sbind (get_run e (m_id r)) (\<lambda>v. give (v, True)))))))))"

definition preflight_request :: "rr_manager \<Rightarrow> rr_env \<Rightarrow> create_payload \<Rightarrow> (ustr \<times> ustr list) rr" where
  "preflight_request m e p =
    sbind (normalize_create_payload m e p) (\<lambda>v.
    sbind (check_target m e v) (\<lambda>pf. give (pf_base pf, pf_warnings pf)))"

section \<open>Preparing a run\<close>

definition check_cancel :: "rr_env \<Rightarrow> unit rr" where
  "check_cancel e =
    sbind (here_now (re_cancel e)) (\<lambda>stopping.
      if stopping then fail (run_error ''cancelled'' ''Remote Run preparation was cancelled'') else give ())"

text \<open>Where a transition found the run no longer preparing.\<close>

definition superseded :: "rr_env \<Rightarrow> 'a rr" where
  "superseded e = sbind (check_cancel e) (\<lambda>_. fail (run_error ''state_conflict'' ''Remote Run preparation was superseded''))"

definition source_options :: "rr_manager \<Rightarrow> remote_run_row \<Rightarrow> rr_exn + (ustr \<times> json) list" where
  "source_options m r =
    (let j = rm_json m in
     case loads (jr_read j) (jr_depth j) (if m_options r = [] then u ''{}'' else m_options r) of
       Inl JSON_Decode_Error \<Rightarrow> Inl (run_error ''source_options'' ''Remote Run Source options are invalid'')
     | Inl Int_Too_Long \<Rightarrow> Inl (plain_error Value_Failed [])
     | Inl Recursion_Error \<Rightarrow> Inl (plain_error Other_Failed [])
     | Inr (JObj es) \<Rightarrow> Inr es
     | Inr _ \<Rightarrow> Inl (run_error ''source_options'' ''Remote Run Source options are invalid''))"

definition included_paths :: "rr_manager \<Rightarrow> (ustr \<times> json) list \<Rightarrow> rr_exn + ustr list" where
  "included_paths m es =
    (let j = field (u ''explicitly_included'') es in
     if falsy (rm_json m) j then Inr []
     else (case j of JArr js \<Rightarrow> Inr (map (text_of (rm_json m)) js) | _ \<Rightarrow> Inl (plain_error Other_Failed [])))"

definition ensure_target_capacity :: "rr_manager \<Rightarrow> rr_env \<Rightarrow> rr_run \<Rightarrow> int \<Rightarrow> unit rr" where
  "ensure_target_capacity m e v required =
    sbind (target_backend m (rn_target v)) (\<lambda>pl.
    sbind (ask_target e pl (m_id (rn_row v)) (Preflight (Some (m_base (rn_row v))) False) (re_preflight e)) (\<lambda>pf.
      case pf_available pf of
        Some n \<Rightarrow> if required > n
                  then fail (run_error ''target_disk_space'' ''The Remote Run Source is larger than the target's available space'')
                  else give ()
      | None \<Rightarrow> give ()))"

definition create_layout :: "rr_env \<Rightarrow> target_place \<Rightarrow> rr_run \<Rightarrow> ustr \<Rightarrow> run_layout rr" where
  "create_layout e pl v cwd =
    (let r = rn_row v in
     ask_target e pl (m_id r) (Create_Layout (m_id r) (m_base r) (m_command r) cwd) (re_layout e))"

definition write_metadata :: "rr_manager \<Rightarrow> rr_env \<Rightarrow> rr_run \<Rightarrow> string \<Rightarrow> json \<Rightarrow> unit rr" where
  "write_metadata m e v name j =
    sbind (target_backend m (rn_target v)) (\<lambda>pl.
      ask_target e pl (m_id (rn_row v)) (Write_Metadata (m_id (rn_row v)) name j) (re_done e))"

definition kind_name :: "source_kind \<Rightarrow> ustr" where
  "kind_name k = (case k of Workspace_Source \<Rightarrow> u ''workspace'' | Git_Source \<Rightarrow> u ''git'' | Archive_Source \<Rightarrow> u ''archive'')"

definition write_source_metadata :: "rr_manager \<Rightarrow> rr_env \<Rightarrow> rr_run \<Rightarrow> ustr \<Rightarrow> (ustr \<times> json) list \<Rightarrow> unit rr" where
  "write_source_metadata m e v cwd extra =
    (let r = rn_row v in
     write_metadata m e v ''source.json'' (JObj
       ([(u ''kind'', JStr (kind_name (m_kind r))), (u ''label'', JStr (m_label r)), (u ''cwd_rel'', JStr cwd)] @ extra
        @ (case m_url r of None \<Rightarrow> [] | Some t \<Rightarrow> if t = [] then [] else [(u ''url'', JStr t)]))))"

text \<open>The copy of the Source manifest on the target and the baseline kept for the collection of results.\<close>

definition write_manifest :: "rr_manager \<Rightarrow> rr_env \<Rightarrow> rr_run \<Rightarrow> workspace_manifest \<Rightarrow> unit rr" where
  "write_manifest m e v manifest =
    (let i = m_id (rn_row v) in
     sbind (write_metadata m e v ''source-manifest.json'' (JArr (map entry_json (wm_entries manifest)))) (\<lambda>_.
       case baseline_bytes (rm_json m) manifest of
         None \<Rightarrow> fail (plain_error Value_Failed [])
       | Some b \<Rightarrow>
           sbind (here_now (re_done e)) (\<lambda>written.
           sbind (local_step e (Baseline_Written i)
                    (\<lambda>w. if written = Inr () then w\<lparr>rw_baseline := (rw_baseline w)(i := Some b)\<rparr> else w)) (\<lambda>_. lift written))))"

definition zip_entry_json :: "zip_entry \<Rightarrow> json" where
  "zip_entry_json z = JObj
    [(u ''path'', JStr (ze_path z)), (u ''kind'', JStr (if ze_kind z = Zip_Directory then u ''directory'' else u ''file'')),
     (u ''size'', JInt (ze_size z)), (u ''executable'', JBool (ze_executable z))]"

definition write_zip_manifest :: "rr_manager \<Rightarrow> rr_env \<Rightarrow> rr_run \<Rightarrow> zip_manifest \<Rightarrow> unit rr" where
  "write_zip_manifest m e v manifest =
    write_metadata m e v ''source-manifest.json'' (JArr (map zip_entry_json (zm_entries manifest)))"

subsection \<open>What the target says of a run\<close>

definition or_else_opt :: "'a option \<Rightarrow> 'a option \<Rightarrow> 'a option" where
  "or_else_opt a b = (case a of None \<Rightarrow> b | Some _ \<Rightarrow> a)"

text \<open>\<^verbatim>\<open>a or b\<close> of two nullable texts.\<close>

definition or_text :: "ustr option \<Rightarrow> ustr option \<Rightarrow> ustr option" where
  "or_text a b = (if a = None \<or> a = Some [] then b else a)"

definition apply_remote_status :: "rr_env \<Rightarrow> remote_run_row \<Rightarrow> remote_status \<Rightarrow> unit rr" where
  "apply_remote_status e r st =
    (case run_state_of (st_state st) of
       None \<Rightarrow> give ()
     | Some state \<Rightarrow>
        if terminal_state (m_state r) then give ()
        else if state = Preparing then
          sbind (move e (m_id r)
            (if st_phase st = Some (u ''cloning'')
             then (expecting_run preparing)\<lparr>rc_state := Some (u ''preparing''), rc_phase := Some (Some (u ''cloning'')),
                    rc_error := Some None, rc_detail := Some None\<rparr>
             else (expecting_run preparing)\<lparr>rc_state := Some (u ''preparing''), rc_phase := Some (or_text (st_phase st) (m_phase r))\<rparr>))
          (\<lambda>_. give ())
        else
        sbind (here_now (re_now e)) (\<lambda>now.
          if state = Running then
            sbind (move e (m_id r) ((expecting_run unfinished)\<lparr>rc_state := Some (u ''running''), rc_phase := Some None,
              rc_started := Some (or_else_opt (st_started st) (or_else_opt (m_started r) (Some now))),
              rc_error := Some None, rc_detail := Some None,
              rc_source_revision := Some (or_text (st_revision st) (m_source_revision r))\<rparr>)) (\<lambda>_. give ())
          else
            (let ended = (case st_ended st of None \<Rightarrow> (now, True) | Some t \<Rightarrow> t) in
             sbind (move e (m_id r) ((expecting_run unfinished)\<lparr>rc_state := Some (st_state st), rc_phase := Some None,
               rc_started := Some (or_else_opt (st_started st) (m_started r)), rc_ended := Some (Some (fst ended)),
               rc_expires := Some (Some (terminal_expiry_from now ended)), rc_exit := Some (st_exit st),
               rc_error := Some (st_error st), rc_detail := Some (st_detail st),
               rc_source_revision := Some (or_text (st_revision st) (m_source_revision r))\<rparr>)) (\<lambda>_. give ()))))"

definition lost_status :: "remote_run_row \<Rightarrow> stamp \<Rightarrow> remote_status" where
  "lost_status r now =
    \<lparr>st_state = u ''lost'', st_phase = None, st_started = m_started r, st_ended = Some (now, True), st_exit = None,
     st_error = Some (u ''layout_missing''), st_detail = Some (u ''Remote Run files and managed tmux pane are missing''),
     st_revision = None, st_layout_missing = False, st_layout_error = False, st_tmux_exists = False,
     st_tmux_running = False, st_record_errors = False\<rparr>"

definition apply_remote_observation :: "rr_env \<Rightarrow> remote_run_row \<Rightarrow> remote_status \<Rightarrow> unit rr" where
  "apply_remote_observation e r st =
    (if st_layout_missing st
     then (if m_state r = Running \<and> \<not> st_tmux_running st
           then sbind (here_now (re_now e)) (\<lambda>now. apply_remote_status e r (lost_status r now)) else give ())
     else if \<not> st_layout_error st then apply_remote_status e r st
     else give ())"

definition target_status :: "rr_manager \<Rightarrow> rr_env \<Rightarrow> rr_run \<Rightarrow> remote_status rr" where
  "target_status m e v =
    sbind (target_backend m (rn_target v)) (\<lambda>pl. ask_target e pl (m_id (rn_row v)) (Reconcile_Run (m_id (rn_row v))) (re_status e))"

subsection \<open>Starting it\<close>

definition start_unknown :: "ustr option \<Rightarrow> ustr option \<Rightarrow> remote_change" where
  "start_unknown phase detail = (expecting_run preparing)\<lparr>rc_state := Some (u ''preparing''), rc_phase := Some phase,
     rc_ended := Some None, rc_expires := Some None, rc_error := Some (Some (u ''start_status_unknown'')),
     rc_detail := Some detail\<rparr>"

text \<open>The start was perhaps accepted and only its answer lost: the target is asked.\<close>

definition reconcile_start_exception :: "rr_manager \<Rightarrow> rr_env \<Rightarrow> rr_run \<Rightarrow> rr_exn \<Rightarrow> unit rr" where
  "reconcile_start_exception m e v x =
    (let i = m_id (rn_row v) in
     sbind (catch (\<lambda>_. True) (sbind (target_status m e v) (\<lambda>st. give (Some st))) (\<lambda>_. give None)) (\<lambda>remote.
     sbind (get_run e i) (\<lambda>current.
     sbind (case remote of
              None \<Rightarrow> give (current, False)
            | Some st \<Rightarrow>
                sbind (apply_remote_status e (rn_row current) st) (\<lambda>_.
                sbind (get_run e i) (\<lambda>again.
                  give (again, m_state (rn_row again) \<noteq> Preparing \<or> st_phase st = Some (u ''cloning'')))))
       (\<lambda>(current', settled).
         if settled then give ()
         else sbind (move e i (start_unknown (or_text (m_phase (rn_row current')) (Some (u ''starting'')))
                                 (Some (take 1000 (rx_text x))))) (\<lambda>_. give ())))))"

definition start_with_reconciliation :: "rr_manager \<Rightarrow> rr_env \<Rightarrow> rr_run \<Rightarrow> unit rr \<Rightarrow> bool rr" where
  "start_with_reconciliation m e v starter =
    sbind (catch (\<lambda>x. rx_class x = Status_Unknown \<or> rx_class x = Node_Error)
             (sbind starter (\<lambda>_. give True))
             (\<lambda>x. sbind (reconcile_start_exception m e v x) (\<lambda>_. give False))) (\<lambda>started.
      if started
      then sbind (move e (m_id (rn_row v)) ((expecting_run preparing)\<lparr>rc_error := Some None, rc_detail := Some None\<rparr>)) (\<lambda>_. give True)
      else give False)"

definition mark_starting :: "rr_env \<Rightarrow> ustr \<Rightarrow> unit rr" where
  "mark_starting e i =
    sbind (check_cancel e) (\<lambda>_.
    sbind (move e i (start_unknown (Some (u ''starting'')) None)) (\<lambda>moved. if moved then give () else superseded e))"

definition start_materialized_run :: "rr_manager \<Rightarrow> rr_env \<Rightarrow> rr_run \<Rightarrow> unit rr" where
  "start_materialized_run m e v =
    (let i = m_id (rn_row v) in
     sbind (mark_starting e i) (\<lambda>_.
     sbind (start_with_reconciliation m e v
              (sbind (target_backend m (rn_target v)) (\<lambda>pl. ask_target e pl i (Start_Run i) (re_done e)))) (\<lambda>_. give ())))"

subsection \<open>A Workspace Source\<close>

text \<open>The copy through the sink that checks for a cancellation: a file that cannot be read is not committed. The code
  checks before every chunk of a file as well; a cancellation there is one of the answers \<open>re_done\<close> may give to the
  \<open>Sink_Step\<close> of the file.\<close>

fun copy_entries ::
    "rr_manager \<Rightarrow> rr_env \<Rightarrow> target_place \<Rightarrow> ustr \<Rightarrow> file_source \<Rightarrow> workspace_entry list \<Rightarrow> workspace_entry list rr" where
  "copy_entries m e pl i read [] = give []"
| "copy_entries m e pl i read (x # xs) =
    sbind (check_cancel e) (\<lambda>_.
    sbind (lift (case copy_entry (rm_sha m) read x of Inl code \<Rightarrow> Inl (source_fault (rm_message m) code) | Inr y \<Rightarrow> Inr y))
      (\<lambda>(x', op).
    sbind (ask_target e pl i (Sink_Step i op) (re_done e)) (\<lambda>_.
    sbind (copy_entries m e pl i read xs) (\<lambda>rest. give (x' # rest)))))"

definition built_manifest :: "rr_manager \<Rightarrow> workspace_entry list \<Rightarrow> ustr list \<Rightarrow> rr_exn + workspace_manifest" where
  "built_manifest m entries excluded =
    (case build_workspace_manifest (rm_alpha m) (rm_casefold m) entries excluded of
       Inl code \<Rightarrow> Inl (source_fault (rm_message m) code) | Inr manifest \<Rightarrow> Inr manifest)"

definition materialize_snapshot ::
    "rr_manager \<Rightarrow> rr_env \<Rightarrow> target_place \<Rightarrow> ustr \<Rightarrow> workspace_manifest \<Rightarrow> file_source \<Rightarrow> workspace_manifest rr" where
  "materialize_snapshot m e pl i scanned read =
    sbind (lift (built_manifest m (wm_entries scanned) (wm_excluded scanned))) (\<lambda>manifest.
      if wm_total manifest \<noteq> wm_total scanned then fail (source_fault (rm_message m) ''source_manifest_total'')
      else sbind (copy_entries m e pl i read (wm_entries manifest)) (\<lambda>copied.
           lift (built_manifest m copied (wm_excluded manifest))))"

definition copying :: "int \<Rightarrow> remote_change" where
  "copying n = (expecting_run preparing)\<lparr>rc_state := Some (u ''preparing''), rc_phase := Some (Some (u ''copying'')),
     rc_source_size := Some (Some n)\<rparr>"

definition materialize_workspace :: "rr_manager \<Rightarrow> rr_env \<Rightarrow> rr_run \<Rightarrow> workspace_manifest rr \<Rightarrow> unit rr" where
  "materialize_workspace m e v scan =
    (let i = m_id (rn_row v) in
     sbind (check_cancel e) (\<lambda>_.
     sbind scan (\<lambda>manifest.
     sbind (ensure_target_capacity m e v (wm_total manifest)) (\<lambda>_.
     sbind (move e i (copying (wm_total manifest))) (\<lambda>moved.
     sbind (if moved then give () else superseded e) (\<lambda>_.
     sbind (check_cancel e) (\<lambda>_.
     sbind (target_backend m (rn_target v)) (\<lambda>pl.
     sbind (ask_target e pl i (Open_Sink i) (re_done e)) (\<lambda>_.
     sbind (here_now (re_read e)) (\<lambda>read.
     sbind (materialize_snapshot m e pl i manifest read) (\<lambda>final.
       write_manifest m e v final)))))))))))"

text \<open>The path of the run directory below a Source on the same computer, which must not be copied into itself.\<close>

definition same_target_exclusions :: "workspace_view \<Rightarrow> ustr \<Rightarrow> remote_run_row \<Rightarrow> rr_exn + ustr list" where
  "same_target_exclusions v path r =
    (if (case w_computer (wv_row v) of None \<Rightarrow> [] | Some c \<Rightarrow> c) \<noteq> m_target r then Inr []
     else
     let root = (case wv_path v of Remote_Path p \<Rightarrow> p | Local_Path p \<Rightarrow> path_text p);
         source_root = path_parts root @ (if path = dot then [] else path_parts path);
         base = path_parts (m_base r)
     in if \<not> prefix_of source_root base \<or> pure_root root \<noteq> pure_root (m_base r) then Inr []
        else if drop (length source_root) base = []
        then Inl (run_error ''source_contains_run_base'' ''The target Remote Run directory cannot be the Workspace Source'')
        else Inr [as_posix (drop (length source_root) base)])"

text \<open>The Source of a Workspace, opened: the scan is the result.\<close>

definition open_source ::
    "rr_manager \<Rightarrow> rr_env \<Rightarrow> rr_run \<Rightarrow> workspace_view \<Rightarrow> ustr \<Rightarrow> ustr list \<Rightarrow> workspace_manifest rr rr" where
  "open_source m e v ws path included =
    (let i = m_id (rn_row v) in
     case wv_path ws of
       Local_Path p \<Rightarrow>
         sbind (here_now (re_fs e)) (\<lambda>fs.
         sbind (lift (case resolve fs p of Inl f \<Rightarrow> Inl (file_fault f) | Inr r \<Rightarrow> Inr r)) (\<lambda>real.
         sbind (lift (case (if path = dot then Inr real else resolve_inside real (Path path) True fs) of
                        Inl f \<Rightarrow> Inl (file_fault f) | Inr r \<Rightarrow> Inr r)) (\<lambda>source_root.
         sbind (here_now (re_link_time e)) (\<lambda>lt.
           give (lift (case scan_local_workspace (rm_room m) (rm_alpha m) (rm_casefold m) [rm_private m] included source_root lt fs of
                         Inl code \<Rightarrow> Inl (source_fault (rm_message m) code) | Inr manifest \<Rightarrow> Inr manifest))))))
     | Remote_Path p \<Rightarrow>
         if map_option c_method (wv_computer ws) = Some Node_Method
         then (if \<not> rm_nodes m then fail (run_error ''capability_unsupported'' ''Node Workspace Sources are unavailable'')
               else give (ask_target e Node_Target i (Scan_Source path [] included) (re_scan e)))
         else sbind (lift (same_target_exclusions ws path (rn_row v))) (\<lambda>exclusions.
              give (ask_target e Ssh_Target i (Scan_Source path exclusions included) (re_scan e))))"

definition text_or_dot :: "ustr option \<Rightarrow> ustr" where
  "text_or_dot p = (case p of None \<Rightarrow> dot | Some t \<Rightarrow> if t = [] then dot else t)"

definition text_or_none :: "ustr option \<Rightarrow> json" where "text_or_none p = (case p of None \<Rightarrow> JNull | Some t \<Rightarrow> JStr t)"

definition prepare_workspace :: "rr_manager \<Rightarrow> rr_env \<Rightarrow> rr_run \<Rightarrow> unit rr" where
  "prepare_workspace m e v =
    (let r = rn_row v; i = m_id r; path = text_or_dot (m_source_path r) in
     sbind (check_cancel e) (\<lambda>_.
     sbind (here_now (re_fs e)) (\<lambda>fs.
     sbind (look e (require (rm_here m) (rm_base m) fs (case m_source_workspace r of None \<Rightarrow> u ''None'' | Some w \<Rightarrow> w))) (\<lambda>found.
     sbind (lift (case found of Inl x \<Rightarrow> Inl (ws_fault x) | Inr ws \<Rightarrow> Inr ws)) (\<lambda>ws.
     sbind (lift (case source_options m r of Inl x \<Rightarrow> Inl x | Inr es \<Rightarrow> included_paths m es)) (\<lambda>included.
     sbind (target_backend m (rn_target v)) (\<lambda>pl.
     sbind (create_layout e pl v dot) (\<lambda>_.
     sbind (open_source m e v ws path included) (\<lambda>scan.
     sbind (materialize_workspace m e v scan) (\<lambda>_.
     sbind (check_cancel e) (\<lambda>_.
     sbind (ask_target e pl i (Commit_Snapshot i) (re_done e)) (\<lambda>_.
     sbind (write_source_metadata m e v dot
              [(u ''workspace_id'', text_or_none (m_source_workspace r)), (u ''path'', JStr path)]) (\<lambda>_.
       start_materialized_run m e v)))))))))))))"

subsection \<open>A Git Source\<close>

definition clone_parameters :: "rr_manager \<Rightarrow> rr_env \<Rightarrow> target_place \<Rightarrow> rr_run \<Rightarrow> preflight \<Rightarrow> run_layout \<Rightarrow> git_parameters rr" where
  "clone_parameters m e pl v pf layout =
    (if c_method (rn_target v) = Node_Method
     then ask_target e pl (m_id (rn_row v)) (Git_Parameters (m_id (rn_row v))) (re_git e)
     else give \<lparr>gp_git = pf_git pf, gp_askpass = ly_metadata layout @ u ''/git-askpass'',
                gp_home = ly_metadata layout @ u ''/git-home'', gp_destination = ly_staging layout\<rparr>)"

definition prepare_git :: "rr_manager \<Rightarrow> rr_env \<Rightarrow> rr_run \<Rightarrow> unit rr" where
  "prepare_git m e v =
    (let r = rn_row v; i = m_id r in
     sbind (check_cancel e) (\<lambda>_.
     sbind (target_backend m (rn_target v)) (\<lambda>pl.
     sbind (ask_target e pl i (Preflight (Some (m_base r)) True) (re_preflight e)) (\<lambda>pf.
     sbind (create_layout e pl v dot) (\<lambda>layout.
     sbind (clone_parameters m e pl v pf layout) (\<lambda>gp.
     sbind (lift (case build_public_git_clone_invocation (rm_git m) (case m_url r of None \<Rightarrow> u ''None'' | Some t \<Rightarrow> t) (gp_git gp)
                         (gp_askpass gp) (gp_home gp) (gp_destination gp) default_fixed_path of
                    Inl code \<Rightarrow> Inl (source_fault (rm_message m) code) | Inr c \<Rightarrow> Inr c)) (\<lambda>clone.
     sbind (write_source_metadata m e v dot []) (\<lambda>_.
     sbind (mark_starting e i) (\<lambda>_.
     sbind (start_with_reconciliation m e v (ask_target e pl i (Start_Git_Run i clone) (re_done e))) (\<lambda>started.
       if \<not> started then give ()
       else sbind (move e i ((expecting_run preparing)\<lparr>rc_state := Some (u ''preparing''), rc_phase := Some (Some (u ''cloning'')),
                               rc_error := Some None, rc_detail := Some None\<rparr>)) (\<lambda>_. give ())))))))))))"

subsection \<open>A ZIP Source\<close>

fun extract_all :: "rr_env \<Rightarrow> target_place \<Rightarrow> ustr \<Rightarrow> extract_op list \<Rightarrow> unit rr" where
  "extract_all e pl i [] = give ()"
| "extract_all e pl i (op # ops) =
    sbind (check_cancel e) (\<lambda>_. sbind (ask_target e pl i (Sink_Extract i op) (re_done e)) (\<lambda>_. extract_all e pl i ops))"

definition spooled_archive :: "rr_manager \<Rightarrow> ustr \<Rightarrow> zip_archive rr" where
  "spooled_archive m i w =
    (case (sp_archive (rw_spool w i), sp_sidecar (rw_spool w i)) of
       (Some b, Some _) \<Rightarrow> (Inr (rm_zip m b), w)
     | _ \<Rightarrow> (Inl (run_error ''zip_spool_missing'' ''Verified ZIP spool is missing''), w))"

definition archive_label :: "rr_manager \<Rightarrow> remote_run_row \<Rightarrow> (ustr \<times> json) list \<Rightarrow> ustr" where
  "archive_label m r es =
    (let j = field (u ''archive_name'') es in if falsy (rm_json m) j then m_label r else text_of (rm_json m) j)"

definition prepare_zip :: "rr_manager \<Rightarrow> rr_env \<Rightarrow> rr_run \<Rightarrow> unit rr" where
  "prepare_zip m e v =
    (let r = rn_row v; i = m_id r; limits = archive_limits_of m in
     sbind (check_cancel e) (\<lambda>_.
     sbind (spooled_archive m i) (\<lambda>a.
     sbind (lift (source_options m r)) (\<lambda>es.
     sbind (lift (case validate_zip_archive (rm_casefold m) a limits (Some (archive_label m r es)) of
                    Inl x \<Rightarrow> Inl (archive_fault (rm_message m) x) | Inr manifest \<Rightarrow> Inr manifest)) (\<lambda>manifest.
     sbind (ensure_target_capacity m e v (zm_total manifest)) (\<lambda>_.
     sbind (move e i (copying (zm_total manifest))) (\<lambda>_.
     sbind (target_backend m (rn_target v)) (\<lambda>pl.
     sbind (create_layout e pl v (zm_cwd manifest)) (\<lambda>_.
     sbind (check_cancel e) (\<lambda>_.
     sbind (ask_target e pl i (Open_Sink i) (re_done e)) (\<lambda>_.
     (let (ops, outcome) = materialize_zip_archive a manifest limits in
      sbind (extract_all e pl i ops) (\<lambda>_.
      sbind (lift (case outcome of Inl x \<Rightarrow> Inl (archive_fault (rm_message m) x) | Inr y \<Rightarrow> Inr y)) (\<lambda>_.
      sbind (check_cancel e) (\<lambda>_.
      sbind (ask_target e pl i (Commit_Snapshot i) (re_done e)) (\<lambda>_.
      sbind (write_zip_manifest m e v manifest) (\<lambda>_.
      sbind (write_source_metadata m e v (zm_cwd manifest) []) (\<lambda>_.
        start_materialized_run m e v))))))))))))))))))"

subsection \<open>The preparation\<close>

definition record_preparation_failure :: "rr_env \<Rightarrow> ustr \<Rightarrow> rr_exn \<Rightarrow> bool \<Rightarrow> unit rr" where
  "record_preparation_failure e i x cancelled =
    sbind (look e (get_remote_run i)) (\<lambda>current.
      case current of
        None \<Rightarrow> give ()
      | Some r \<Rightarrow>
          if m_state r \<noteq> Preparing then give ()
          else
          (let stopped = (cancelled \<or> (is_run_error x \<and> rx_code x = Some (u ''cancelled''))) in
           sbind (here_now (re_now e)) (\<lambda>now.
           sbind (move e i ((expecting_run preparing)\<lparr>rc_state := Some (u (if stopped then ''stopped'' else ''failed'')),
             rc_phase := Some None, rc_ended := Some (Some now), rc_expires := Some (Some (terminal_expiry now)),
             rc_error := Some (Some (take 80 (if stopped then u ''cancelled''
                                              else case rx_code x of None \<Rightarrow> u ''prepare_failed'' | Some c \<Rightarrow> c))),
             rc_detail := Some (if stopped then None else Some (take 1000 (rx_text x)))\<rparr>)) (\<lambda>_. give ()))))"

definition prepare_sync :: "rr_manager \<Rightarrow> rr_env \<Rightarrow> ustr \<Rightarrow> unit rr" where
  "prepare_sync m e i =
    sbind (get_run e i) (\<lambda>v.
      if m_state (rn_row v) \<noteq> Preparing then give ()
      else (case m_kind (rn_row v) of
              Git_Source \<Rightarrow> prepare_git m e v
            | Workspace_Source \<Rightarrow> prepare_workspace m e v
            | Archive_Source \<Rightarrow> prepare_zip m e v))"

definition prepare_run :: "rr_manager \<Rightarrow> rr_env \<Rightarrow> ustr \<Rightarrow> unit rr" where
  "prepare_run m e i =
    catch (\<lambda>_. True) (prepare_sync m e i)
      (\<lambda>x. sbind (here_now (re_cancel e)) (\<lambda>cancelled. record_preparation_failure e i x cancelled))"

end
