(* ===== verification/Remote_Run_Control.thy ===== *)
theory Remote_Run_Control
  imports Remote_Run_Manager
begin

text \<open>
  The rest of \<open>RemoteRunManager\<close> (\<^verbatim>\<open>termroom/remote_runs.py\<close>): the spool and the upload of a ZIP, following a run and
  attaching its Workspace, stopping, killing and deleting it, the clean-up of expired runs, the repairs when Termroom
  starts, and the observer of the active runs.
\<close>

section \<open>Files of the spool\<close>

definition remove_spool :: "rr_env \<Rightarrow> ustr \<Rightarrow> unit rr" where
  "remove_spool e i = local_step e (Spool_Removed i)
     (\<lambda>w. w\<lparr>rw_spool := (rw_spool w)(i := no_spool), rw_baseline := (rw_baseline w)(i := None)\<rparr>)"

text \<open>The clean-up at start of the files of one run: a part older than the time to upload, a ZIP and sidecar whose
  sidecar cannot be read or that have expired, a sidecar without a ZIP, a ZIP without a sidecar.\<close>

definition cleaned_part :: "stamp \<Rightarrow> spool \<Rightarrow> spool" where
  "cleaned_part now sp =
    (case sp_part sp of Some (b, t) \<Rightarrow> if now - t > waiting_upload_ttl then sp\<lparr>sp_part := None\<rparr> else sp | None \<Rightarrow> sp)"

definition cleaned_sidecar :: "stamp \<Rightarrow> spool \<Rightarrow> spool" where
  "cleaned_sidecar now sp =
    (case sp_sidecar sp of
       None \<Rightarrow> sp
     | Some readable \<Rightarrow>
         if (case readable of None \<Rightarrow> True | Some sc \<Rightarrow> sp_archive sp = None \<or> sc_expires sc \<le> now)
         then sp\<lparr>sp_archive := None, sp_sidecar := None\<rparr> else sp)"

definition cleaned_archive :: "spool \<Rightarrow> spool" where
  "cleaned_archive sp = (if sp_sidecar sp = None then sp\<lparr>sp_archive := None\<rparr> else sp)"

definition cleaned_spool :: "stamp \<Rightarrow> spool \<Rightarrow> spool" where
  "cleaned_spool now sp = cleaned_archive (cleaned_sidecar now (cleaned_part now sp))"

definition cleanup_spools :: "rr_env \<Rightarrow> unit rr" where
  "cleanup_spools e =
    sbind (here_now (re_now e)) (\<lambda>now. local_step e Spools_Cleaned (\<lambda>w. w\<lparr>rw_spool := (\<lambda>i. cleaned_spool now (rw_spool w i))\<rparr>))"

section \<open>Taking in a ZIP\<close>

definition uploading_states :: "ustr \<Rightarrow> remote_change" where
  "uploading_states phase = (expecting_run preparing)\<lparr>rc_expected_phase := Some (Some phase), rc_state := Some (u ''preparing'')\<rparr>"

text \<open>The chunks as they arrive, until the limit is passed or the stream breaks off.\<close>

fun receive :: "int \<Rightarrow> bytes \<Rightarrow> bytes list \<Rightarrow> rr_exn option \<Rightarrow> rr_exn + bytes" where
  "receive limit got [] broken = (case broken of Some x \<Rightarrow> Inl x | None \<Rightarrow> Inr got)"
| "receive limit got (c # cs) broken =
    (if int (length (got @ c)) > limit then Inl \<lparr>rx_class = Archive_Error, rx_code = Some (u ''zip_upload_limit''),
       rx_text = u ''ZIP upload exceeds the configured limit''\<rparr>
     else receive limit (got @ c) cs broken)"

definition write_spool :: "rr_manager \<Rightarrow> rr_env \<Rightarrow> ustr \<Rightarrow> ustr \<Rightarrow> bytes list \<Rightarrow> rr_exn option \<Rightarrow> (bytes \<times> stamp) rr" where
  "write_spool m e i name chunks broken =
    sbind (\<lambda>w. (if sp_part (rw_spool w i) \<noteq> None then Inl (plain_error Existing_File []) else Inr (), w)) (\<lambda>_.
    sbind (here_now (re_now e)) (\<lambda>opened.
    sbind (local_step e (Spool_Written i) (\<lambda>w. w\<lparr>rw_spool := (rw_spool w)(i := (rw_spool w i)\<lparr>sp_part := Some ([], opened)\<rparr>)\<rparr>)) (\<lambda>_.
    sbind (lift (receive (rm_max m) [] chunks broken)) (\<lambda>received.
    sbind (here_now (re_done e)) (\<lambda>moved.
    sbind (local_step e (Spool_Written i)
             (\<lambda>w. if moved \<noteq> Inr () then w
                  else w\<lparr>rw_spool := (rw_spool w)(i := (rw_spool w i)\<lparr>sp_archive := Some received, sp_part := None\<rparr>)\<rparr>)) (\<lambda>_.
    sbind (lift moved) (\<lambda>_.
    sbind (here_now (re_done e)) (\<lambda>written.
    sbind (here_now (re_now e)) (\<lambda>now.
    sbind (local_step e (Spool_Written i)
             (\<lambda>w. if written \<noteq> Inr () then w
                  else w\<lparr>rw_spool := (rw_spool w)(i := (rw_spool w i)\<lparr>sp_sidecar :=
                     Some (Some \<lparr>sc_run = i, sc_filename = name, sc_uploaded = now, sc_expires = now + retention,
                                 sc_size = int (length received)\<rparr>)\<rparr>)\<rparr>)) (\<lambda>_.
    sbind (lift written) (\<lambda>_. give (received, now))))))))))))"

definition finish_upload :: "rr_env \<Rightarrow> ustr \<Rightarrow> bytes \<Rightarrow> stamp \<Rightarrow> rr_run rr" where
  "finish_upload e i received uploaded =
    sbind (move e i ((uploading_states (u ''uploading''))\<lparr>rc_phase := Some (Some (u ''checking'')), rc_expires := Some None,
             rc_source_size := Some (Some (int (length received)))\<rparr>)) (\<lambda>moved.
      if \<not> moved then fail (run_conflict ''state_conflict'' ''ZIP upload completion was superseded'')
      else
      sbind (local_step e (Spool_Timer i (uploaded + retention)) id) (\<lambda>_.
      sbind (schedule e i) (\<lambda>_. get_run e i)))"

definition give_up_upload :: "rr_env \<Rightarrow> ustr \<Rightarrow> rr_exn \<Rightarrow> rr_run rr" where
  "give_up_upload e i x =
    sbind (local_step e (Spool_Removed i) (\<lambda>w. w\<lparr>rw_spool := (rw_spool w)(i := (rw_spool w i)\<lparr>sp_part := None\<rparr>)\<rparr>)) (\<lambda>_.
    sbind (here_now (re_now e)) (\<lambda>now.
    sbind (move e i ((uploading_states (u ''uploading''))\<lparr>rc_phase := Some (Some (u ''waiting_upload'')),
             rc_expires := Some (Some (waiting_upload_expiry now)), rc_source_size := Some None\<rparr>)) (\<lambda>_. fail x)))"

definition upload_archive ::
    "rr_manager \<Rightarrow> rr_env \<Rightarrow> ustr \<Rightarrow> ustr \<Rightarrow> bytes list \<Rightarrow> rr_exn option \<Rightarrow> int option \<Rightarrow> rr_run rr" where
  "upload_archive m e run_id filename chunks broken content_length =
    sbind (validate_remote_run_id run_id) (\<lambda>i.
    sbind (get_run e i) (\<lambda>v.
      if m_kind (rn_row v) \<noteq> Archive_Source \<or> m_format (rn_row v) \<noteq> Some (u ''zip'')
      then fail (run_error ''source_kind'' ''This Remote Run does not use a ZIP Archive'')
      else
      sbind (lift (source_options m (rn_row v))) (\<lambda>es.
      sbind (lift (case validate_zip_filename (rm_casefold m) filename of
                     Inl x \<Rightarrow> Inl (archive_fault (rm_message m) x) | Inr f \<Rightarrow> Inr (pure_name f))) (\<lambda>name.
        if name \<noteq> text_or_empty (rm_json m) (field (u ''archive_name'') es)
        then fail (run_conflict ''idempotency_conflict'' ''ZIP filename differs from the immutable Remote Run Source'')
        else if (case content_length of None \<Rightarrow> False | Some n \<Rightarrow> n > rm_max m)
        then fail \<lparr>rx_class = Archive_Error, rx_code = Some (u ''zip_upload_limit''), rx_text = u ''ZIP upload exceeds the configured limit''\<rparr>
        else
        sbind (move e i ((uploading_states (u ''waiting_upload''))\<lparr>rc_phase := Some (Some (u ''uploading''))\<rparr>)) (\<lambda>moved.
          if \<not> moved
          then sbind (get_run e i) (\<lambda>current.
                 if m_phase (rn_row current) \<in> Some ` {u ''checking'', u ''copying'', u ''starting''} then give current
                 else fail (run_conflict ''upload_conflict'' ''ZIP upload is already active or finished''))
          else catch (\<lambda>_. True)
                 (sbind (write_spool m e i name chunks broken) (\<lambda>(received, uploaded). finish_upload e i received uploaded))
                 (give_up_upload e i))))))"

section \<open>Following a run\<close>

definition cleanup_pending :: "stamp \<Rightarrow> remote_run_row \<Rightarrow> bool" where
  "cleanup_pending now r \<longleftrightarrow> terminal_state (m_state r) \<and> expired_at now r"

text \<open>A run as it is shown: whether its target answered, and what the target said.\<close>

record run_report =
  rp_run :: rr_run
  rp_online :: bool
  rp_pending :: bool
  rp_status :: "remote_status option"

definition report_of :: "rr_env \<Rightarrow> rr_run \<Rightarrow> bool \<Rightarrow> remote_status option \<Rightarrow> run_report rr" where
  "report_of e v online st =
    sbind (here_now (re_now e)) (\<lambda>now.
      give \<lparr>rp_run = v, rp_online = online, rp_pending = cleanup_pending now (rn_row v), rp_status = st\<rparr>)"

text \<open>A call of the Workspace manager.\<close>

definition bridge :: "rr_env \<Rightarrow> ustr \<Rightarrow> (nat \<Rightarrow> 'a ws) \<Rightarrow> 'a rr" where
  "bridge e i f w =
    (let w' = pass e (Bridged i) w in
     case f (position w) (rw_store w') of
       (Inl x, s) \<Rightarrow> (Inl (ws_fault x), w'\<lparr>rw_store := s\<rparr>)
     | (Inr x, s) \<Rightarrow> (Inr x, w'\<lparr>rw_store := s\<rparr>))"

definition attach_shell :: "rr_manager \<Rightarrow> rr_env \<Rightarrow> rr_run \<Rightarrow> workspace_view rr" where
  "attach_shell m e v =
    (let r = rn_row v; i = m_id r in
     case (if m_workspace r = Some [] then None else m_workspace r) of
       Some ws \<Rightarrow> bridge e i (\<lambda>n. require_ws (rm_here m) (rm_base m) (re_fs e n) ws)
     | None \<Rightarrow>
        sbind (target_backend m (rn_target v)) (\<lambda>pl.
        sbind (ask_target e pl i (Ensure_Shell i (terminal_state (m_state r))) (re_shell e)) (\<lambda>shell.
        sbind (bridge e i (\<lambda>n. open_remote_run (re_draws e n) (re_meanwhile e n) (rm_here m) (rm_base m) (re_fs e n)
                 i (sa_session shell) (sa_work shell))) (\<lambda>ws.
          if pl = Node_Target
          then (case sa_terminals shell of
                  Some (t # ts) \<Rightarrow>
                    sbind (here_now (re_now e)) (\<lambda>now.
                    sbind (here_now (re_ids e)) (\<lambda>ids.
                    sbind (update_db e (\<lambda>_. Bridged i) (Bridged i) (\<lambda>s. map_sum id (\<lambda>x. ((), snd x))
                      (reconcile_terminals now ids (w_id (wv_row ws)) (t # ts) s))) (\<lambda>_. give ws)))
                | _ \<Rightarrow> fail (run_error ''terminal_invalid'' ''Node Remote Run Terminal list is invalid''))
          else sbind (ask_target e Ssh_Target i (Ensure_Workspace (w_id (wv_row ws))) (re_done e)) (\<lambda>_. give ws)))))"

definition poll :: "rr_manager \<Rightarrow> rr_env \<Rightarrow> ustr \<Rightarrow> ustr \<Rightarrow> int option \<Rightarrow> int \<Rightarrow> run_report rr" where
  "poll m e run_id stream offset limit =
    sbind (validate_remote_run_id run_id) (\<lambda>i.
      if stream \<noteq> u ''prepare'' \<and> stream \<noteq> u ''command''
      then fail (plain_error Value_Failed ''Remote Run log stream must be prepare or command'')
      else
      sbind (get_run e i) (\<lambda>v.
      sbind (target_backend m (rn_target v)) (\<lambda>pl.
      sbind (catch is_ssh_error
               (sbind (ask_target e pl i (Poll_Run i stream offset limit) (re_status e)) (\<lambda>st. give (Some st)))
               (\<lambda>_. give None)) (\<lambda>remote.
        case remote of
          None \<Rightarrow> report_of e v False None
        | Some st \<Rightarrow>
            sbind (apply_remote_observation e (rn_row v) st) (\<lambda>_.
            sbind (get_run e i) (\<lambda>updated.
            sbind (if m_state (rn_row updated) \<in> {Running, Finished, Stopped, Lost} \<and> \<not> st_layout_missing st \<and> \<not> st_layout_error st
                   then catch (\<lambda>x. is_os_error x \<or> is_run_error x \<or> is_ssh_error x)
                          (sbind (attach_shell m e updated) (\<lambda>_. give ()))
                          (\<lambda>x. if m_state (rn_row updated) \<in> {Running, Finished} then fail x else give ())
                   else give ()) (\<lambda>_.
            sbind (if m_state (rn_row updated) \<in> {Running, Finished, Stopped, Lost} \<and> \<not> st_layout_missing st \<and> \<not> st_layout_error st
                   then get_run e i else give updated) (\<lambda>again.
            sbind (if m_state (rn_row again) = Running \<and> m_kind (rn_row again) = Archive_Source
                   then remove_spool e i else give ()) (\<lambda>_.
              report_of e again True (Some st))))))))))"

definition reconcile :: "rr_manager \<Rightarrow> rr_env \<Rightarrow> ustr \<Rightarrow> run_report rr" where
  "reconcile m e run_id =
    sbind (validate_remote_run_id run_id) (\<lambda>i.
    sbind (get_run e i) (\<lambda>v.
      if ended_run v then report_of e v True None
      else
      sbind (target_backend m (rn_target v)) (\<lambda>pl.
      sbind (catch is_ssh_error
               (sbind (ask_target e pl i (Reconcile_Run i) (re_status e)) (\<lambda>st. give (Some st))) (\<lambda>_. give None)) (\<lambda>remote.
        case remote of
          None \<Rightarrow> report_of e v False None
        | Some st \<Rightarrow>
            sbind (apply_remote_observation e (rn_row v) st) (\<lambda>_.
            sbind (get_run e i) (\<lambda>updated.
            sbind (if m_state (rn_row updated) = Running \<and> m_kind (rn_row updated) = Archive_Source
                   then remove_spool e i else give ()) (\<lambda>_.
              report_of e updated True (Some st))))))))"

definition ensure_workspace_bridge :: "rr_manager \<Rightarrow> rr_env \<Rightarrow> ustr \<Rightarrow> rr_run rr" where
  "ensure_workspace_bridge m e run_id =
    sbind (validate_remote_run_id run_id) (\<lambda>i.
    sbind (get_run e i) (\<lambda>v.
      if m_workspace (rn_row v) \<notin> {None, Some []} \<or> \<not> ended_run v then give v
      else sbind (attach_shell m e v) (\<lambda>_. get_run e i)))"

section \<open>Stopping a run\<close>

record stop_answer =
  so_stopped :: bool
  so_kill :: bool
  so_pending :: bool
  so_run :: rr_run

definition answer_stop :: "rr_env \<Rightarrow> ustr \<Rightarrow> bool \<Rightarrow> bool \<Rightarrow> bool \<Rightarrow> stop_answer rr" where
  "answer_stop e i stopped needs_kill pending =
    sbind (get_run e i) (\<lambda>v. give \<lparr>so_stopped = stopped, so_kill = needs_kill, so_pending = pending, so_run = v\<rparr>)"

text \<open>The live preparation, if there is one, is told to stop.\<close>

definition cancel_preparation :: "rr_env \<Rightarrow> ustr \<Rightarrow> bool rr" where
  "cancel_preparation e i =
    sbind (here_now (re_live e)) (\<lambda>live. if live then sbind (local_step e (Cancel_Set i) id) (\<lambda>_. give True) else give False)"

definition request_stop :: "rr_env \<Rightarrow> ustr \<Rightarrow> stamp \<Rightarrow> unit rr" where
  "request_stop e i t = sbind (move e i ((expecting_run unfinished)\<lparr>rc_stop := Some (Some t)\<rparr>)) (\<lambda>_. give ())"

definition stop_change :: "ustr list \<Rightarrow> stamp \<Rightarrow> string \<Rightarrow> remote_change" where
  "stop_change expected now code = (expecting_run expected)\<lparr>rc_state := Some (u ''stopped''), rc_phase := Some None,
     rc_ended := Some (Some now), rc_expires := Some (Some (terminal_expiry now)), rc_error := Some (Some (u code))\<rparr>"

definition apply_reconciled :: "rr_manager \<Rightarrow> rr_env \<Rightarrow> rr_run \<Rightarrow> rr_run rr" where
  "apply_reconciled m e v =
    (let i = m_id (rn_row v) in
     sbind (target_status m e v) (\<lambda>st.
     sbind (get_run e i) (\<lambda>current.
     sbind (apply_remote_status e (rn_row current) st) (\<lambda>_. get_run e i))))"

definition reconciled_stop :: "rr_manager \<Rightarrow> rr_env \<Rightarrow> rr_run \<Rightarrow> stop_answer rr" where
  "reconciled_stop m e v =
    sbind (apply_reconciled m e v) (\<lambda>updated.
      give \<lparr>so_stopped = ended_run updated, so_kill = False, so_pending = False, so_run = updated\<rparr>)"

definition unverifiable :: "string \<Rightarrow> rr_exn" where
  "unverifiable message = run_conflict ''layout_unverifiable'' message"

text \<open>The answer of the target when the files of the run are gone.\<close>

definition stop_without_layout :: "rr_env \<Rightarrow> rr_run \<Rightarrow> bool \<Rightarrow> stamp \<Rightarrow> control_answer \<Rightarrow> stop_answer rr" where
  "stop_without_layout e v live now a =
    (let r = rn_row v; i = m_id r in
     if ca_done a then answer_stop e i False True False
     else if m_state r = Running \<and> \<not> ca_tmux_running a
     then sbind (get_run e i) (\<lambda>current.
          sbind (apply_remote_status e (rn_row current) ((lost_status r now))) (\<lambda>_. answer_stop e i True False False))
     else if m_state r \<noteq> Preparing \<or> ca_tmux_exists a
     then fail (unverifiable ''Remote Run files are missing while its session cannot be verified'')
     else if live then answer_stop e i False False True
     else sbind (move e i (stop_change unfinished now ''cancelled'')) (\<lambda>_. answer_stop e i True False False))"

definition stop_on_target :: "rr_manager \<Rightarrow> rr_env \<Rightarrow> rr_run \<Rightarrow> bool \<Rightarrow> stamp \<Rightarrow> stop_answer rr" where
  "stop_on_target m e v live now =
    (let r = rn_row v; i = m_id r in
     sbind (target_backend m (rn_target v)) (\<lambda>pl.
     sbind (catch (\<lambda>x. rx_class x = Layout_Error)
              (sbind (ask_target e pl i (Interrupt_Target i) (re_control e)) (\<lambda>a. give (Some a))) (\<lambda>_. give None)) (\<lambda>answer.
       case answer of
         None \<Rightarrow>
           if live \<and> m_state r = Preparing then answer_stop e i False False True
           else fail (unverifiable ''Remote Run files cannot be verified safely'')
       | Some a \<Rightarrow>
           if ca_completed a then reconciled_stop m e v
           else if ca_layout_missing a then stop_without_layout e v live now a
           else if ca_done a then answer_stop e i False True False
           else if live then answer_stop e i False False True
           else reconciled_stop m e v)))"

definition stop_run :: "rr_manager \<Rightarrow> rr_env \<Rightarrow> ustr \<Rightarrow> stop_answer rr" where
  "stop_run m e run_id =
    sbind (validate_remote_run_id run_id) (\<lambda>i.
    sbind (get_run e i) (\<lambda>v.
      if ended_run v then give \<lparr>so_stopped = True, so_kill = False, so_pending = False, so_run = v\<rparr>
      else
      sbind (here_now (re_now e)) (\<lambda>now.
      sbind (request_stop e i now) (\<lambda>_.
      sbind (cancel_preparation e i) (\<lambda>live.
        if m_state (rn_row v) = Preparing \<and> m_phase (rn_row v) = Some (u ''waiting_upload'')
        then sbind (move e i ((stop_change preparing now ''cancelled'')\<lparr>rc_expected_phase := Some (Some (u ''waiting_upload''))\<rparr>))
               (\<lambda>_. answer_stop e i True False False)
        else stop_on_target m e v live now)))))"

definition kill_on_target :: "rr_manager \<Rightarrow> rr_env \<Rightarrow> rr_run \<Rightarrow> bool \<Rightarrow> stamp \<Rightarrow> rr_run rr" where
  "kill_on_target m e v live now =
    (let r = rn_row v; i = m_id r;
         record_stop = (\<lambda>code. sbind (move e i (stop_change unfinished now code)) (\<lambda>_. get_run e i)) in
     sbind (target_backend m (rn_target v)) (\<lambda>pl.
     sbind (catch (\<lambda>x. rx_class x = Layout_Error)
              (sbind (ask_target e pl i (Kill_Target i) (re_control e)) (\<lambda>a. give (Some a))) (\<lambda>_. give None)) (\<lambda>answer.
       case answer of
         None \<Rightarrow>
           if live \<and> m_state r = Preparing then get_run e i
           else fail (unverifiable ''Remote Run files cannot be verified safely'')
       | Some a \<Rightarrow>
           if ca_completed a then apply_reconciled m e v
           else if \<not> ca_layout_missing a then record_stop ''killed''
           else if ca_done a then record_stop ''killed''
           else if m_state r = Running \<and> \<not> ca_tmux_running a
           then sbind (get_run e i) (\<lambda>current.
                sbind (apply_remote_status e (rn_row current) (lost_status r now)) (\<lambda>_. get_run e i))
           else if m_state r \<noteq> Preparing \<or> ca_tmux_exists a
           then fail (unverifiable ''Remote Run files are missing while its session cannot be verified'')
           else if live then get_run e i
           else record_stop ''cancelled'')))"

definition kill_run :: "rr_manager \<Rightarrow> rr_env \<Rightarrow> ustr \<Rightarrow> rr_run rr" where
  "kill_run m e run_id =
    sbind (validate_remote_run_id run_id) (\<lambda>i.
    sbind (get_run e i) (\<lambda>v.
      if ended_run v then give v
      else
      sbind (cancel_preparation e i) (\<lambda>live.
      sbind (here_now (re_now e)) (\<lambda>now.
      sbind (request_stop e i (case m_stop (rn_row v) of None \<Rightarrow> now | Some t \<Rightarrow> t)) (\<lambda>_.
        kill_on_target m e v live now)))))"

section \<open>Deleting a run\<close>

record delete_answer =
  da_deleted :: bool
  da_pending :: bool

definition delete_record :: "rr_env \<Rightarrow> ustr \<Rightarrow> unit rr" where
  "delete_record e i = update_db e (\<lambda>_. Record_Deleted i) Looked (\<lambda>s. map_sum id (\<lambda>s'. ((), s')) (delete_remote_run i s))"

definition delete_local :: "rr_env \<Rightarrow> ustr \<Rightarrow> unit rr" where
  "delete_local e i =
    sbind (remove_spool e i) (\<lambda>_.
    sbind (update_db e (\<lambda>_. Workspace_Removed i) Looked (\<lambda>s. delete_remote_run_workspace i s)) (\<lambda>_. delete_record e i))"

definition expire_now :: "rr_env \<Rightarrow> ustr \<Rightarrow> stamp \<Rightarrow> bool rr" where
  "expire_now e i now = update_db e (\<lambda>b. Expired_Run i b) Looked (\<lambda>s. Inr (expire_remote_run_now i now s))"

definition request_delete :: "rr_manager \<Rightarrow> rr_env \<Rightarrow> ustr \<Rightarrow> delete_answer rr" where
  "request_delete m e run_id =
    sbind (validate_remote_run_id run_id) (\<lambda>i.
    sbind (get_run e i) (\<lambda>v.
      if \<not> ended_run v then fail (run_conflict ''run_active'' ''Stop the Remote Run before deleting it'')
      else
      sbind (here_now (re_now e)) (\<lambda>now.
      sbind (expire_now e i now) (\<lambda>expired.
        if \<not> expired then fail (run_conflict ''state_conflict'' ''Remote Run is not deletable'')
        else
        sbind (get_run e i) (\<lambda>again.
        sbind (target_backend m (rn_target again)) (\<lambda>pl.
        sbind (catch (\<lambda>x. is_os_error x \<or> is_ssh_error x)
                 (sbind (ask_target e pl i (Delete_Root i) (re_done e)) (\<lambda>_. give True)) (\<lambda>_. give False)) (\<lambda>gone.
          if \<not> gone then give \<lparr>da_deleted = False, da_pending = True\<rparr>
          else sbind (delete_local e i) (\<lambda>_. give \<lparr>da_deleted = True, da_pending = False\<rparr>))))))))"

definition forget :: "rr_env \<Rightarrow> ustr \<Rightarrow> unit rr" where
  "forget e run_id =
    sbind (validate_remote_run_id run_id) (\<lambda>i.
    sbind (get_run e i) (\<lambda>v.
    sbind (here_now (re_now e)) (\<lambda>now.
      if \<not> ended_run v \<or> \<not> cleanup_pending now (rn_row v)
      then fail (run_conflict ''forget_not_allowed'' ''Only a terminal cleanup-pending Run can be forgotten'')
      else delete_local e i)))"

definition of_computer :: "ustr option \<Rightarrow> remote_run_row \<Rightarrow> bool" where
  "of_computer computer_id r \<longleftrightarrow> computer_id \<in> {None, Some []} \<or> Some (m_target r) = computer_id"

fun drop_abandoned :: "rr_env \<Rightarrow> stamp \<Rightarrow> ustr list \<Rightarrow> nat rr" where
  "drop_abandoned e now [] = give 0"
| "drop_abandoned e now (i # is) =
    sbind (move e i ((expecting_run preparing)\<lparr>rc_expected_phase := Some (Some (u ''waiting_upload'')),
             rc_state := Some (u ''failed''), rc_phase := Some None, rc_ended := Some (Some now), rc_expires := Some (Some now),
             rc_error := Some (Some (u ''upload_expired'')), rc_detail := Some (Some (u ''ZIP upload was not completed''))\<rparr>)) (\<lambda>moved.
    sbind (if moved then sbind (remove_spool e i) (\<lambda>_. sbind (delete_record e i) (\<lambda>_. give 1)) else give 0) (\<lambda>n.
    sbind (drop_abandoned e now is) (\<lambda>k. give (n + k))))"

fun delete_each :: "rr_manager \<Rightarrow> rr_env \<Rightarrow> ustr list \<Rightarrow> nat rr" where
  "delete_each m e [] = give 0"
| "delete_each m e (i # is) =
    sbind (catch (\<lambda>x. rx_class x = Key_Failed \<or> is_os_error x \<or> is_run_error x \<or> is_ssh_error x)
             (request_delete m e i) (\<lambda>_. give \<lparr>da_deleted = False, da_pending = False\<rparr>)) (\<lambda>a.
    sbind (delete_each m e is) (\<lambda>k. give ((if da_deleted a then 1 else 0) + k)))"

definition cleanup_expired :: "rr_manager \<Rightarrow> rr_env \<Rightarrow> ustr option \<Rightarrow> nat rr" where
  "cleanup_expired m e computer_id =
    sbind (here_now (re_now e)) (\<lambda>now.
    sbind (look e (list_abandoned_remote_run_uploads now)) (\<lambda>abandoned.
    sbind (drop_abandoned e now (map m_id (filter (of_computer computer_id) abandoned))) (\<lambda>n.
    sbind (look e (list_expired_remote_runs now)) (\<lambda>expired.
    sbind (delete_each m e (map m_id (filter (of_computer computer_id) expired))) (\<lambda>k. give (n + k))))))"

section \<open>Another attempt\<close>

definition retry_preparation :: "rr_manager \<Rightarrow> rr_env \<Rightarrow> ustr \<Rightarrow> rr_run rr" where
  "retry_preparation m e run_id =
    sbind (validate_remote_run_id run_id) (\<lambda>i.
    sbind (get_run e i) (\<lambda>v.
      if m_kind (rn_row v) \<noteq> Archive_Source \<or> m_state (rn_row v) \<noteq> Failed
      then fail (run_conflict ''retry_not_allowed'' ''Only a failed ZIP preparation can be retried'')
      else
      sbind (\<lambda>w. (if sp_archive (rw_spool w i) = None \<or> sp_sidecar (rw_spool w i) = None
                  then Inl (run_error ''zip_spool_expired'' ''Verified ZIP spool has expired'') else Inr (), w)) (\<lambda>_.
      sbind (catch (\<lambda>x. rx_class x = Missing_File)
               (sbind (target_backend m (rn_target v)) (\<lambda>pl. ask_target e pl i (Delete_Root i) (re_done e))) (\<lambda>_. give ())) (\<lambda>_.
      sbind (move e i ((expecting_run [u ''failed''])\<lparr>rc_state := Some (u ''preparing''), rc_phase := Some (Some (u ''checking'')),
               rc_started := Some None, rc_stop := Some None, rc_ended := Some None, rc_expires := Some None,
               rc_exit := Some None, rc_error := Some None, rc_detail := Some None\<rparr>)) (\<lambda>moved.
        if \<not> moved then fail (run_conflict ''state_conflict'' ''Remote Run retry was superseded'')
        else sbind (schedule e i) (\<lambda>_. get_run e i))))))"

section \<open>When Termroom starts\<close>

text \<open>Whether the target says there is no layout; an error counts as not knowing.\<close>

definition no_layout :: "rr_manager \<Rightarrow> rr_env \<Rightarrow> remote_run_row \<Rightarrow> bool rr" where
  "no_layout m e r =
    catch (\<lambda>x. is_os_error x \<or> is_run_error x \<or> is_ssh_error x)
      (sbind (require_computer m e (m_target r)) (\<lambda>c.
       sbind (target_backend m c) (\<lambda>pl.
       sbind (ask_target e pl (m_id r) (Layout_Exists (m_id r)) (re_exists e)) (\<lambda>there. give (\<not> there)))))
      (\<lambda>_. give False)"

definition core_restarted :: rr_exn where
  "core_restarted = run_error ''core_restarted'' ''Core restarted before Source preparation finished''"

definition fail_unless_unknown :: "rr_env \<Rightarrow> ustr \<Rightarrow> unit rr" where
  "fail_unless_unknown e i =
    sbind (look e (get_remote_run i)) (\<lambda>current.
      if (case current of Some r \<Rightarrow> m_error r = Some (u ''start_status_unknown'') | None \<Rightarrow> False) then give ()
      else record_preparation_failure e i core_restarted False)"

text \<open>A run that was being prepared: what the poll says decides, or the absence of a layout.\<close>

definition restart_preparing :: "rr_manager \<Rightarrow> rr_env \<Rightarrow> remote_run_row \<Rightarrow> unit rr" where
  "restart_preparing m e r =
    (let i = m_id r in
     sbind (catch (\<lambda>x. is_os_error x \<or> is_run_error x \<or> is_ssh_error x)
              (sbind (poll m e i (u ''command'') (Some 0) 1) (\<lambda>p. give (Some p))) (\<lambda>_. give None)) (\<lambda>polled.
       case polled of
         None \<Rightarrow> sbind (no_layout m e r) (\<lambda>gone. if gone then fail_unless_unknown e i else give ())
       | Some p \<Rightarrow>
           if m_state (rn_row (rp_run p)) \<noteq> Preparing then give ()
           else if \<not> rp_online p
           then sbind (no_layout m e r) (\<lambda>gone. if gone then fail_unless_unknown e i else give ())
           else (case rp_status p of
                   Some st \<Rightarrow> if st_tmux_exists st \<or> st_record_errors st then give () else fail_unless_unknown e i
                 | None \<Rightarrow> fail_unless_unknown e i)))"

fun reconcile_each :: "rr_manager \<Rightarrow> rr_env \<Rightarrow> remote_run_row list \<Rightarrow> unit rr" where
  "reconcile_each m e [] = give ()"
| "reconcile_each m e (r # rs) =
    sbind (if m_state r = Running
           then catch (\<lambda>_. True) (sbind (poll m e (m_id r) (u ''command'') (Some 0) 1) (\<lambda>_. give ())) (\<lambda>_. give ())
           else if m_state r = Preparing \<and> m_phase r \<noteq> Some (u ''waiting_upload'') then restart_preparing m e r
           else give ()) (\<lambda>_. reconcile_each m e rs)"

definition reconcile_startup :: "rr_manager \<Rightarrow> rr_env \<Rightarrow> unit rr" where
  "reconcile_startup m e =
    sbind (look e (list_recent_remote_runs 10000)) (\<lambda>rows.
    sbind (reconcile_each m e rows) (\<lambda>_.
    sbind (cleanup_expired m e None) (\<lambda>_. give ())))"

section \<open>The observer\<close>

definition observer_delay :: "nat \<Rightarrow> rat" where "observer_delay count = min 30 (2 * 2 ^ min (count - 1) 4)"

record observer =
  on_next :: "ustr \<rightharpoonup> rat"
  on_failures :: "ustr \<rightharpoonup> nat"

definition drop_run :: "ustr \<Rightarrow> observer \<Rightarrow> observer" where
  "drop_run i ob = ob\<lparr>on_next := (on_next ob)(i := None), on_failures := (on_failures ob)(i := None)\<rparr>"

definition observe_one :: "rr_manager \<Rightarrow> rr_env \<Rightarrow> rat \<Rightarrow> ustr \<Rightarrow> observer \<Rightarrow> observer rr" where
  "observe_one m e now i ob =
    (if (case on_next ob i of None \<Rightarrow> 0 | Some t \<Rightarrow> t) > now then give ob
     else
     sbind (catch (\<lambda>x. rx_class x = Key_Failed \<or> is_os_error x \<or> is_run_error x \<or> is_ssh_error x \<or> is_value_error x)
              (sbind (reconcile m e i) (\<lambda>p. give (Some p))) (\<lambda>_. give None)) (\<lambda>p.
     sbind (here_now (re_tick e)) (\<lambda>t.
       let online = (case p of None \<Rightarrow> False | Some q \<Rightarrow> rp_online q);
           over = (case p of None \<Rightarrow> False | Some q \<Rightarrow> ended_run (rp_run q));
           count = Suc (case on_failures ob i of None \<Rightarrow> 0 | Some n \<Rightarrow> n)
       in give (if over then drop_run i ob
                else if online then ob\<lparr>on_failures := (on_failures ob)(i := None), on_next := (on_next ob)(i \<mapsto> t + 2)\<rparr>
                else ob\<lparr>on_failures := (on_failures ob)(i \<mapsto> count), on_next := (on_next ob)(i \<mapsto> t + observer_delay count)\<rparr>))))"

fun observe_each :: "rr_manager \<Rightarrow> rr_env \<Rightarrow> rat \<Rightarrow> ustr list \<Rightarrow> observer \<Rightarrow> observer rr" where
  "observe_each m e now [] ob = give ob"
| "observe_each m e now (i # is) ob = sbind (observe_one m e now i ob) (observe_each m e now is)"

definition observer_wait :: "rat \<Rightarrow> ustr list \<Rightarrow> observer \<Rightarrow> rat option" where
  "observer_wait t runs ob =
    (if runs = [] then None
     else Some (max 0 (Min (set (map (\<lambda>i. case on_next ob i of None \<Rightarrow> t | Some x \<Rightarrow> x) runs)) - t)))"

definition observer_round :: "rr_manager \<Rightarrow> rr_env \<Rightarrow> observer \<Rightarrow> (observer \<times> rat option) rr" where
  "observer_round m e ob =
    sbind (look e (\<lambda>s. map m_id (list_active_remote_runs s))) (\<lambda>active.
      let kept = ob\<lparr>on_next := (on_next ob) |` set active, on_failures := (\<lambda>i. if on_next ob i \<noteq> None \<and> i \<notin> set active
                     then None else on_failures ob i)\<rparr>
      in sbind (here_now (re_tick e)) (\<lambda>now.
         sbind (observe_each m e now active kept) (\<lambda>ob'.
         sbind (here_now (re_tick e)) (\<lambda>t. give (ob', observer_wait t active ob')))))"

end
