(* ===== verification/Remote_Run_Laws.thy ===== *)
theory Remote_Run_Laws
  imports Remote_Run_Control Store_Machine Workspace_Opening
begin

text \<open>
  How the operations of \<open>RemoteRunManager\<close> move the world. \<open>rr_calculus\<close> is the interface of a relation of worlds that
  every step of an operation respects; the lemmas of its clients lift it to the operations, and it is interpreted for
  what happens to the rows of the runs and for what the log may hold.
\<close>

section \<open>The calculus\<close>

definition start_call :: "target_call \<Rightarrow> bool" where
  "start_call c = (case c of Start_Run _ \<Rightarrow> True | Start_Git_Run _ _ \<Rightarrow> True | _ \<Rightarrow> False)"

lemma start_call_simps [simp]:
  "start_call (Start_Run i)" "start_call (Start_Git_Run i c)" "\<not> start_call (Preflight b g)"
  "\<not> start_call (Create_Layout i1 i2 i3 i4)" "\<not> start_call (Git_Parameters i)" "\<not> start_call (Scan_Source p x y)"
  "\<not> start_call (Open_Sink i)" "\<not> start_call (Sink_Step i op)" "\<not> start_call (Sink_Extract i eo)"
  "\<not> start_call (Commit_Snapshot i)" "\<not> start_call (Write_Metadata i s j)" "\<not> start_call (Reconcile_Run i)"
  "\<not> start_call (Poll_Run i t off n)" "\<not> start_call (Interrupt_Target i)" "\<not> start_call (Kill_Target i)"
  "\<not> start_call (Delete_Root i)" "\<not> start_call (Layout_Exists i)" "\<not> start_call (Ensure_Shell i b')"
  "\<not> start_call (Ensure_Workspace i)"
  by (simp_all add: start_call_def)

text \<open>The events that stand for no change of a row and start nothing.\<close>

definition plain_event :: "rr_event \<Rightarrow> bool" where
  "plain_event ev = (case ev of
     Asked _ _ c \<Rightarrow> \<not> start_call c
   | Moved _ _ b \<Rightarrow> \<not> b | Created_Run _ b \<Rightarrow> \<not> b | Expired_Run _ _ \<Rightarrow> False | Workspace_Removed _ \<Rightarrow> False
   | Record_Deleted _ \<Rightarrow> False | _ \<Rightarrow> True)"

lemma plain_event_simps [simp]:
  "plain_event Looked" "plain_event (Asked pl i c) \<longleftrightarrow> \<not> start_call c" "plain_event (Moved i ch b) \<longleftrightarrow> \<not> b"
  "plain_event (Created_Run i b) \<longleftrightarrow> \<not> b" "\<not> plain_event (Expired_Run i b)" "\<not> plain_event (Workspace_Removed i)"
  "\<not> plain_event (Record_Deleted i)" "plain_event (Spool_Written i)" "plain_event (Spool_Removed i)"
  "plain_event Spools_Cleaned" "plain_event (Spool_Timer i t)" "plain_event (Baseline_Written i)" "plain_event (Scheduled i)"
  "plain_event (Cancel_Set i)" "plain_event (Bridged i)"
  by (simp_all add: plain_event_def)

definition moved_world :: "rr_env \<Rightarrow> ustr \<Rightarrow> remote_change \<Rightarrow> store \<Rightarrow> rr_world \<Rightarrow> rr_world" where
  "moved_world e i c s w = (pass e (Moved i c True) w)\<lparr>rw_store := s\<rparr>"

definition moves_to :: "rr_env \<Rightarrow> ustr \<Rightarrow> remote_change \<Rightarrow> rr_world \<Rightarrow> store \<Rightarrow> bool" where
  "moves_to e i c w s \<longleftrightarrow>
    transition_remote_run (re_now e (position w)) (re_id e (position w)) i c (re_meanwhile e (position w) (rw_store w)) = Inr (True, s)"

definition abandon_change :: "stamp \<Rightarrow> remote_change" where
  "abandon_change now = (expecting_run preparing)\<lparr>rc_expected_phase := Some (Some (u ''waiting_upload'')),
     rc_state := Some (u ''failed''), rc_phase := Some None, rc_ended := Some (Some now), rc_expires := Some (Some now),
     rc_error := Some (Some (u ''upload_expired'')), rc_detail := Some (Some (u ''ZIP upload was not completed''))\<rparr>"

text \<open>What a store call of the bridge to a Workspace leaves.\<close>

definition bridged_store :: "rr_env \<Rightarrow> rr_manager \<Rightarrow> rr_world \<Rightarrow> store \<Rightarrow> bool" where
  "bridged_store e m w s \<longleftrightarrow>
    (let n = position w; t = re_meanwhile e n (rw_store w) in
     (\<exists>i session path r. open_remote_run (re_draws e n) (re_meanwhile e n) (rm_here m) (rm_base m) (re_fs e n) i session path t = (r, s))
     \<or> (\<exists>now ids i ls x. reconcile_terminals now ids i ls t = Inr (x, s)))"

definition retry_change :: remote_change where
  "retry_change = (expecting_run [u ''failed''])\<lparr>rc_state := Some (u ''preparing''), rc_phase := Some (Some (u ''checking'')),
     rc_started := Some None, rc_stop := Some None, rc_ended := Some None, rc_expires := Some None,
     rc_exit := Some None, rc_error := Some None, rc_detail := Some None\<rparr>"

text \<open>What an operation returns when it returns.\<close>

definition yields :: "('a \<Rightarrow> bool) \<Rightarrow> 'a rr \<Rightarrow> bool" where
  "yields P p \<longleftrightarrow> (\<forall>w x w'. p w = (Inr x, w') \<longrightarrow> P x)"

lemma yields_bind: "yields Q p \<Longrightarrow> (\<And>x. Q x \<Longrightarrow> yields P (f x)) \<Longrightarrow> yields P (sbind p f)"
  unfolding yields_def
proof (intro allI impI)
  fix w x w'
  assume p: "\<forall>w x w'. p w = (Inr x, w') \<longrightarrow> Q x" and f: "\<And>x. Q x \<Longrightarrow> \<forall>w y w'. f x w = (Inr y, w') \<longrightarrow> P y"
    and run: "sbind p f w = (Inr x, w')"
  then obtain y v where "p w = (Inr y, v)" "f y v = (Inr x, w')" by (auto simp: sbind_def split: sum.splits prod.splits)
  with p f show "P x" by metis
qed

lemma yields_any: "yields (\<lambda>_. True) p" by (simp add: yields_def)
lemma yields_fail [simp]: "yields P (fail x)" by (simp add: yields_def)
lemma yields_give [simp]: "yields P (give x) \<longleftrightarrow> P x" by (auto simp: yields_def)

lemma validated_id: "yields (\<lambda>x. x = i) (validate_remote_run_id i)"
  by (auto simp: yields_def validate_remote_run_id_def)

lemma normalized_yields: "yields (\<lambda>v. v_id v = pl_id p) (normalize_create_payload m e p)"
  unfolding normalize_create_payload_def
  by (rule yields_bind [OF validated_id])
     (auto simp: Let_def split: option.split intro!: yields_bind [OF yields_any])

lemma normalized_id: "normalize_create_payload m e p w = (Inr v, w') \<Longrightarrow> v_id v = pl_id p"
  using normalized_yields unfolding yields_def by metis

locale rr_calculus =
  fixes R :: "rr_world \<Rightarrow> rr_world \<Rightarrow> bool" and e :: rr_env and m :: rr_manager and ok_change :: "ustr \<Rightarrow> remote_change \<Rightarrow> bool"
    and ok_id :: "ustr \<Rightarrow> bool" and ok_forget :: "ustr \<Rightarrow> bool"
  assumes R_refl: "R w w"
    and R_trans: "R w w' \<Longrightarrow> R w' w'' \<Longrightarrow> R w w''"
    and R_event: "plain_event ev \<Longrightarrow> R w (pass e ev w)"
    and R_files: "R w (w\<lparr>rw_spool := x, rw_baseline := y\<rparr>)"
    and R_stay: "transition_remote_run now nid i c (re_meanwhile e (position w) (rw_store w)) = Inr (False, s)
      \<Longrightarrow> R w ((pass e (Moved i c False) w)\<lparr>rw_store := s\<rparr>)"
    and R_move: "ok_change i c \<Longrightarrow> moves_to e i c w s \<Longrightarrow> R w (moved_world e i c s w)"
    and R_expire: "R w ((pass e (Expired_Run i b) w)\<lparr>rw_store := snd (expire_remote_run_now i now (re_meanwhile e (position w) (rw_store w)))\<rparr>)"
    and R_bridge: "bridged_store e m w s \<Longrightarrow> R w ((pass e (Bridged i) w)\<lparr>rw_store := s\<rparr>)"
    and R_start: "start_call tc \<Longrightarrow> \<not> re_cancel e (position w) \<Longrightarrow> moves_to e i (start_unknown (Some (u ''starting'')) None) w s
      \<Longrightarrow> R w (pass e (Asked pl i tc) (moved_world e i (start_unknown (Some (u ''starting'')) None) s w))"
    and R_delete: "re_done e (position w) = Inr () \<Longrightarrow> R w (snd (delete_local e i (pass e (Asked pl i (Delete_Root i)) w)))"
    and R_abandon: "moves_to e i (abandon_change now) w s
      \<Longrightarrow> R w (snd (sbind (remove_spool e i) (\<lambda>_. delete_record e i) (moved_world e i (abandon_change now) s w)))"
    and ok_changes: "states_of (rc_expected c) = Some E \<Longrightarrow> E \<subseteq> {Preparing, Running} \<Longrightarrow> ok_change i c"
    and R_create: "ok_id (v_id v) \<Longrightarrow> create_remote_run v (re_meanwhile e (position w) (rw_store w)) = Inr (r, b, s)
      \<Longrightarrow> R w ((pass e (Created_Run (v_id v) b) w)\<lparr>rw_store := s\<rparr>)"
    and R_forget: "ok_forget i \<Longrightarrow> R w (snd (delete_local e i w))"
begin

definition steady :: "'a rr \<Rightarrow> bool" where
  "steady p \<longleftrightarrow> (\<forall>w. R w (snd (p w)))"

lemma steadyD: "steady p \<Longrightarrow> p w = (r, w') \<Longrightarrow> R w w'"
  unfolding steady_def by (metis snd_conv)

lemma steady_pure:
  "steady (give x)" "steady (fail x')" "steady (lift r)" "steady (here_now f)" "steady (validate_remote_run_id i)"
  "steady (\<lambda>w. (g w, w))"
  by (auto simp: steady_def lift_def here_now_def R_refl validate_remote_run_id_def)

lemma steady_bind: "steady p \<Longrightarrow> (\<And>x. steady (f x)) \<Longrightarrow> steady (sbind p f)"
  unfolding steady_def sbind_def
proof (intro allI)
  fix w
  assume p: "\<forall>w. R w (snd (p w))" and f: "\<And>x. \<forall>w. R w (snd (f x w))"
  obtain r w' where r: "p w = (r, w')" by (cases "p w")
  with p have "R w w'" by (metis snd_conv)
  with f R_trans show "R w (snd (case p w of (Inl x, s') \<Rightarrow> (Inl x, s') | (Inr x, xa) \<Rightarrow> f x xa))"
    unfolding r by (cases r) auto
qed

lemma steady_catch: "steady p \<Longrightarrow> (\<And>x. steady (h x)) \<Longrightarrow> steady (catch named p h)"
  unfolding steady_def catch_def
proof (intro allI)
  fix w
  assume p: "\<forall>w. R w (snd (p w))" and h: "\<And>x. \<forall>w. R w (snd (h x w))"
  obtain r w' where r: "p w = (r, w')" by (cases "p w")
  with p have "R w w'" by (metis snd_conv)
  with h R_trans show "R w (snd (case p w of (Inl x, w') \<Rightarrow> if named x then h x w' else (Inl x, w') | (Inr x, b) \<Rightarrow> (Inr x, b)))"
    unfolding r by (cases r) auto
qed

lemma steady_split:
  "(b \<Longrightarrow> steady p) \<Longrightarrow> (\<not> b \<Longrightarrow> steady q) \<Longrightarrow> steady (if b then p else q)"
  "steady p \<Longrightarrow> (\<And>x. steady (f x)) \<Longrightarrow> steady (case o' of None \<Rightarrow> p | Some x \<Rightarrow> f x)"
  "(\<And>x y. steady (g x y)) \<Longrightarrow> steady (case pr of (x, y) \<Rightarrow> g x y)"
  by (auto split: option.splits prod.splits)

lemma steady_look: "steady (look e f)"
  by (simp add: steady_def look_def Let_def R_event)

lemma steady_ask: "\<not> start_call c \<Longrightarrow> steady (ask_target e pl i c answer)"
  by (simp add: steady_def ask_target_def R_event)

lemma steady_move:
  assumes "ok_change i c"
  shows "steady (move e i c)"
proof -
  have "R w (snd (move e i c w))" for w
  proof (cases "transition_remote_run (re_now e (position w)) (re_id e (position w)) i c (re_meanwhile e (position w) (rw_store w))")
    case (Inl x)
    then show ?thesis by (simp add: move_def Let_def R_event)
  next
    case (Inr p)
    obtain b s where p: "p = (b, s)" by (cases p)
    then show ?thesis
      using Inr R_move [OF assms, of w s] R_stay by (cases b) (simp_all add: move_def Let_def moves_to_def moved_world_def)
  qed
  then show ?thesis by (simp add: steady_def)
qed

lemma steady_files:
  assumes "plain_event ev"
  shows "steady (local_step e ev (\<lambda>w. if b w then w else w\<lparr>rw_spool := x w\<rparr>))" "steady (local_step e ev (\<lambda>w. w\<lparr>rw_spool := x w\<rparr>))"
    "steady (local_step e ev (\<lambda>w. w\<lparr>rw_spool := x w, rw_baseline := y w\<rparr>))" "steady (local_step e ev id)"
    "steady (local_step e ev (\<lambda>w. if b w then w\<lparr>rw_baseline := y w\<rparr> else w))"
proof -
  have "R w (f (pass e ev w))" if "\<exists>x y. f (pass e ev w) = (pass e ev w)\<lparr>rw_spool := x, rw_baseline := y\<rparr>" for f w
    using that R_trans [OF R_event [OF assms, of w]] R_files by metis
  then have *: "steady (local_step e ev f)" if "\<And>w. \<exists>x y. f w = w\<lparr>rw_spool := x, rw_baseline := y\<rparr>" for f
    using that by (simp add: steady_def local_step_def)
  have same: "w\<lparr>rw_spool := s\<rparr> = w\<lparr>rw_spool := s, rw_baseline := rw_baseline w\<rparr>"
    "w\<lparr>rw_baseline := t\<rparr> = w\<lparr>rw_spool := rw_spool w, rw_baseline := t\<rparr>"
    "w = w\<lparr>rw_spool := rw_spool w, rw_baseline := rw_baseline w\<rparr>" for w :: rr_world and s t
    by simp_all
  show "steady (local_step e ev (\<lambda>w. w\<lparr>rw_spool := x w\<rparr>))" by (rule *) (metis same(1))
  show "steady (local_step e ev (\<lambda>w. w\<lparr>rw_spool := x w, rw_baseline := y w\<rparr>))" by (rule *) blast
  show "steady (local_step e ev id)" by (rule *) (metis same(3) id_apply)
  show "steady (local_step e ev (\<lambda>w. if b w then w else w\<lparr>rw_spool := x w\<rparr>))"
    by (rule *) (metis same(1,3))
  show "steady (local_step e ev (\<lambda>w. if b w then w\<lparr>rw_baseline := y w\<rparr> else w))"
    by (rule *) (metis same(2,3))
qed

lemma ok_expected:
  assumes "rc_expected c = preparing \<or> rc_expected c = unfinished"
  shows "ok_change i c"
proof -
  have "states_of preparing = Some {Preparing}" "states_of unfinished = Some {Preparing, Running}"
    by (simp_all add: preparing_def unfinished_def states_of_def run_state_of_def u_eq_iff)
  with assms have "\<exists>E. states_of (rc_expected c) = Some E \<and> E \<subseteq> {Preparing, Running}" by auto
  then show ?thesis using ok_changes by blast
qed

lemmas steps = steady_pure steady_bind steady_split steady_catch steady_look steady_ask steady_files

text \<open>The transitions of the operations.\<close>

lemma steady_moves:
  "rc_expected c = preparing \<or> rc_expected c = unfinished \<Longrightarrow> steady (move e i c)"
  using steady_move ok_expected by blast

lemma expected_simps [simp]:
  "rc_expected (expecting_run x) = x" "rc_expected (uploading_states ph) = preparing" "rc_expected (start_unknown a b) = preparing"
  "rc_expected (copying n) = preparing" "rc_expected (stop_change x now code) = x"
  by (simp_all add: expecting_run_def uploading_states_def start_unknown_def copying_def stop_change_def)

lemma steady_get_run: "steady (get_run e i)"
  unfolding get_run_def by (intro steps)

lemma steady_require_computer: "steady (require_computer m e i)"
  unfolding require_computer_def by (intro steps; (simp split: connection_method.split; intro conjI impI steps)?)

lemma steady_backend: "steady (target_backend m c)"
  unfolding target_backend_def by (intro steps)

lemma steady_schedule: "steady (schedule e i)"
  unfolding schedule_def by (intro steps; simp)

lemma steady_check_cancel: "steady (check_cancel e)"
  unfolding check_cancel_def by (intro steps)

lemma steady_superseded: "steady (superseded e)"
  unfolding superseded_def by (intro steps steady_check_cancel)

lemma steady_capacity: "steady (ensure_target_capacity m e v n)"
  unfolding ensure_target_capacity_def by (intro steps steady_backend; simp)

lemma steady_metadata: "steady (write_metadata m e v s j)" "steady (write_source_metadata m e v cwd x)"
  "steady (write_manifest m e v man)" "steady (write_zip_manifest m e v z)" "steady (create_layout e pl v cwd)"
  unfolding write_source_metadata_def write_manifest_def write_zip_manifest_def write_metadata_def Let_def create_layout_def
  by (intro steps steady_backend; simp)+

lemma steady_status: "steady (apply_remote_status e r st)" "steady (apply_remote_observation e r st)"
proof -
  show a: "steady (apply_remote_status e r st)" for r st
    unfolding apply_remote_status_def Let_def by (intro steps steady_moves; simp)
  show "steady (apply_remote_observation e r st)"
    unfolding apply_remote_observation_def by (intro steps a)
qed

lemma steady_target_status: "steady (target_status m e v)"
  unfolding target_status_def by (intro steps steady_backend; simp)

lemma steady_reconcile_exception: "steady (reconcile_start_exception m e v x)"
  unfolding reconcile_start_exception_def Let_def
  by (intro steps steady_target_status steady_get_run steady_status steady_moves; simp)

lemma steady_record_failure: "steady (record_preparation_failure e i x c)"
  unfolding record_preparation_failure_def Let_def by (intro steps steady_moves; simp)

lemma steady_copy: "steady (copy_entries m e pl i read xs)" "steady (extract_all e pl i ops)"
  by (induction xs, simp_all add: steady_pure, intro steps steady_check_cancel; simp)
     (induction ops, simp_all add: steady_pure, intro steps steady_check_cancel; simp)

lemma steady_materialize:
  "steady (materialize_snapshot m e pl i s read)" "steady scan \<Longrightarrow> steady (materialize_workspace m e v scan)"
proof -
  show a: "steady (materialize_snapshot m e pl i s read)" for pl i s read
    unfolding materialize_snapshot_def by (intro steps steady_copy)
  show "steady scan \<Longrightarrow> steady (materialize_workspace m e v scan)"
    unfolding materialize_workspace_def Let_def
    by (intro steps steady_check_cancel steady_capacity steady_moves steady_superseded steady_backend a steady_metadata; simp)
qed

text \<open>The mark before a start, the start and what follows it.\<close>

lemma steady_started:
  fixes k :: "bool \<Rightarrow> 'a rr"
  assumes starter: "\<And>w. \<exists>r. starter w = (r, w) \<or> (\<exists>pl c. start_call c \<and> starter w = (r, pass e (Asked pl i c) w))" and k: "\<And>x. steady (k x)"
  shows "steady (sbind (mark_starting e i) (\<lambda>_. sbind (start_with_reconciliation m e v starter) k))"
proof -
  let ?c = "start_unknown (Some (u ''starting'')) None"
  let ?after = "\<lambda>r w. case (r :: rr_exn + unit) of Inl x \<Rightarrow> (if rx_class x = Status_Unknown \<or> rx_class x = Node_Error
      then sbind (reconcile_start_exception m e v x) (\<lambda>_. give False) w else (Inl x, w)) | Inr y \<Rightarrow> (Inr True, w)"
  let ?rest = "\<lambda>p. sbind (sbind p (\<lambda>started.
      if started then sbind (move e (m_id (rn_row v)) ((expecting_run preparing)\<lparr>rc_error := Some None, rc_detail := Some None\<rparr>)) (\<lambda>_. give True)
      else give False)) k"
  have rest: "steady (?rest p)" if "steady p" for p
    using that k by (intro steps steady_moves; simp)
  have after: "steady (?after r)" for r
  proof (cases r)
    case (Inl x)
    then show ?thesis
      using steady_bind [OF steady_reconcile_exception, of "\<lambda>_. give False" v x] steady_pure
      by (simp add: steady_def R_refl)
  next
    case (Inr y)
    then show ?thesis by (simp add: steady_def R_refl)
  qed
  have "R w (snd (sbind (mark_starting e i) (\<lambda>_. sbind (start_with_reconciliation m e v starter) k) w))" for w
  proof (cases "re_cancel e (position w)")
    case True
    then show ?thesis by (simp add: mark_starting_def check_cancel_def sbind_def here_now_def R_refl)
  next
    case False
    obtain res w1 where mv: "move e i ?c w = (res, w1)" by (cases "move e i ?c w")
    have r1: "R w w1" by (rule steadyD [OF steady_moves mv]) simp
    show ?thesis
    proof (cases "res = Inr True")
      case no: False
      have "snd (sbind (mark_starting e i) (\<lambda>_. sbind (start_with_reconciliation m e v starter) k) w) = w1"
        using False mv no
        by (cases res) (auto simp: mark_starting_def check_cancel_def sbind_def here_now_def superseded_def split: sum.splits prod.splits if_splits)
      then show ?thesis using r1 by simp
    next
      case yes: True
      then obtain s where s: "moves_to e i ?c w s" "w1 = moved_world e i ?c s w"
        using mv by (auto simp: move_def Let_def moves_to_def moved_world_def split: sum.splits prod.splits)
      from starter [of w1] obtain r where st: "starter w1 = (r, w1) \<or> (\<exists>pl c. start_call c \<and> starter w1 = (r, pass e (Asked pl i c) w1))"
        by blast
      obtain w2 where w2: "starter w1 = (r, w2)" "R w w2"
        using st r1 R_start [OF _ False s(1)] s(2) by blast
      have "R w2 (snd (?rest (?after r) w2))" using rest [OF after] by (simp add: steady_def)
      moreover have "sbind (mark_starting e i) (\<lambda>_. sbind (start_with_reconciliation m e v starter) k) w = ?rest (?after r) w2"
        using False mv yes w2(1)
        by (cases r) (simp_all add: mark_starting_def check_cancel_def sbind_def here_now_def start_with_reconciliation_def catch_def)
      ultimately show ?thesis using R_trans [OF w2(2)] by simp
    qed
  qed
  then show ?thesis by (simp add: steady_def)
qed

lemma call_starter:
  assumes "start_call tc"
  shows "\<exists>r. ask_target e pl i tc answer w = (r, w) \<or> (\<exists>pl' tc'. start_call tc' \<and> ask_target e pl i tc answer w = (r, pass e (Asked pl' i tc') w))"
  using assms unfolding ask_target_def by blast

lemma backend_starter:
  "\<exists>r. sbind (target_backend m c) (\<lambda>pl. ask_target e pl i (Start_Run i) (re_done e)) w = (r, w)
     \<or> (\<exists>pl tc. start_call tc \<and> sbind (target_backend m c) (\<lambda>pl. ask_target e pl i (Start_Run i) (re_done e)) w
          = (r, pass e (Asked pl i tc) w))"
proof -
  have "sbind (target_backend m c) (\<lambda>pl. ask_target e pl i (Start_Run i) (re_done e)) w
      = (if c_method c \<noteq> Node_Method then ask_target e Ssh_Target i (Start_Run i) (re_done e) w
         else if rm_nodes m then ask_target e Node_Target i (Start_Run i) (re_done e) w
         else (Inl (run_error ''capability_unsupported'' ''Node Remote Run is unavailable''), w))"
    by (simp add: sbind_def target_backend_def)
  then show ?thesis using call_starter [of "Start_Run i"] by (auto split: if_splits)
qed

lemma steady_start_materialized: "steady (start_materialized_run m e v)"
  unfolding start_materialized_run_def Let_def
  by (rule steady_started) (use backend_starter in blast, rule steady_pure)

lemma steady_open_source:
  assumes "\<And>scan. steady scan \<Longrightarrow> steady (k scan)"
  shows "steady (sbind (open_source m e v ws path included) k)"
proof -
  have give: "sbind (give x) k = k x" for x by (rule ext) (simp add: sbind_def)
  have assoc: "sbind (sbind p f) k = sbind p (\<lambda>x. sbind (f x) k)" for p :: "'c rr" and f
    by (rule ext) (simp add: sbind_def split: sum.splits prod.splits)
  have failed: "sbind (fail x) k = fail x" for x by (rule ext) (simp add: sbind_def)
  show ?thesis
  proof (cases "wv_path ws")
    case (Local_Path p)
    then show ?thesis
      unfolding open_source_def Let_def
      by (simp add: assoc give) (intro steps assms)
  next
    case (Remote_Path p)
    then show ?thesis
      unfolding open_source_def Let_def
      by (simp add: assoc give failed) (intro conjI impI steps assms; simp)
  qed
qed

lemma steady_prepare_workspace: "steady (prepare_workspace m e v)"
  unfolding prepare_workspace_def Let_def
  by (intro steps steady_check_cancel steady_backend steady_metadata steady_open_source steady_materialize steady_start_materialized; simp)

lemma steady_clone_parameters: "steady (clone_parameters m e pl v pf ly)"
  unfolding clone_parameters_def by (intro steps; simp)

lemma steady_prepare_git: "steady (prepare_git m e v)"
proof -
  have starter: "\<exists>r. ask_target e pl i (Start_Git_Run i cl) (re_done e) w = (r, w)
      \<or> (\<exists>pl' tc. start_call tc \<and> ask_target e pl i (Start_Git_Run i cl) (re_done e) w = (r, pass e (Asked pl' i tc) w))" for pl i cl w
    by (rule call_starter) simp
  show ?thesis
    unfolding prepare_git_def Let_def
    by (intro steady_started starter steps steady_check_cancel steady_backend steady_metadata steady_clone_parameters steady_moves; simp)
qed

lemma steady_spooled: "steady (spooled_archive m i)"
  unfolding steady_def spooled_archive_def by (auto simp: R_refl split: option.splits)

lemma steady_prepare_zip: "steady (prepare_zip m e v)"
  unfolding prepare_zip_def Let_def
  by (intro steps steady_check_cancel steady_spooled steady_capacity steady_moves steady_backend steady_metadata steady_copy
      steady_start_materialized; simp)

lemma steady_prepare: "steady (prepare_run m e i)"
  unfolding prepare_run_def prepare_sync_def
  by (intro steps steady_get_run steady_record_failure; (simp split: source_kind.split; intro conjI impI)?;
      (intro steady_prepare_git steady_prepare_workspace steady_prepare_zip)?)

section \<open>The other operations\<close>

lemma steady_remove_spool: "steady (remove_spool e i)"
  unfolding remove_spool_def by (intro steps; simp)

lemma steady_cleanup_spools: "steady (cleanup_spools e)"
  unfolding cleanup_spools_def by (intro steps; simp)

lemma steady_write_spool: "steady (write_spool m e i nm cs br)"
  unfolding write_spool_def by (intro steps; simp)

lemma steady_upload: "steady (upload_archive m e i f cs br n)"
proof -
  note steady_write_spool
  moreover have "steady (finish_upload e i b t)" for i b t
    unfolding finish_upload_def by (intro steps steady_moves steady_schedule steady_get_run; simp)
  moreover have "steady (give_up_upload e i x)" for i x
    unfolding give_up_upload_def by (intro steps steady_moves; simp)
  ultimately show ?thesis
    unfolding upload_archive_def by (intro steps steady_get_run steady_moves; simp)
qed

lemma steady_report: "steady (report_of e v b st)"
  unfolding report_of_def by (intro steps)

lemma steady_attach: "steady (attach_shell m e v)"
proof -
  have req: "steady (bridge e i (\<lambda>n. require_ws here base (re_fs e n) ws))" for here base ws i
    unfolding steady_def bridge_def Let_def require_ws_def
    by (auto split: sum.splits simp: R_event)
  have opn: "steady (bridge e i (\<lambda>n. open_remote_run (re_draws e n) (re_meanwhile e n) (rm_here m) (rm_base m) (re_fs e n) j q p))" for i j q p
    unfolding steady_def bridge_def Let_def
  proof (intro allI)
    fix w
    obtain r s where o: "open_remote_run (re_draws e (position w)) (re_meanwhile e (position w)) (rm_here m) (rm_base m) (re_fs e (position w)) j q p
        (rw_store (pass e (Bridged i) w)) = (r, s)" by fastforce
    then have "bridged_store e m w s" by (auto simp: bridged_store_def pass_def Let_def)
    from R_bridge [OF this, of i] o
    show "R w (snd (case open_remote_run (re_draws e (position w)) (re_meanwhile e (position w)) (rm_here m) (rm_base m) (re_fs e (position w)) j q p
        (rw_store (pass e (Bridged i) w)) of (Inl x, s) \<Rightarrow> (Inl (ws_fault x), pass e (Bridged i) w\<lparr>rw_store := s\<rparr>)
        | (Inr x, s) \<Rightarrow> (Inr x, pass e (Bridged i) w\<lparr>rw_store := s\<rparr>)))"
      by (cases r) simp_all
  qed
  have rec: "steady (update_db e (\<lambda>_. Bridged i) (Bridged i) (\<lambda>s. map_sum id (\<lambda>x. ((), snd x)) (reconcile_terminals now ids j ls s)))" for i j now ids ls
    unfolding steady_def
  proof (intro allI)
    fix w
    show "R w (snd (update_db e (\<lambda>_. Bridged i) (Bridged i) (\<lambda>s. map_sum id (\<lambda>x. ((), snd x)) (reconcile_terminals now ids j ls s)) w))"
    proof (cases "reconcile_terminals now ids j ls (re_meanwhile e (position w) (rw_store w))")
      case (Inl x)
      then show ?thesis by (simp add: update_db_def R_event)
    next
      case (Inr p)
      then have "bridged_store e m w (snd p)" by (cases p) (auto simp: bridged_store_def Let_def)
      with Inr R_bridge show ?thesis by (simp add: update_db_def)
    qed
  qed
  show ?thesis
    unfolding attach_shell_def Let_def
    by (intro steps steady_backend req opn rec; (simp split: option.split list.split; intro conjI allI impI steps rec)?)
qed

lemma steady_poll: "steady (poll m e i str off cap)"
  unfolding poll_def
  by (intro steps steady_get_run steady_backend steady_report steady_status steady_attach steady_remove_spool; simp)

lemma steady_reconcile: "steady (reconcile m e i)"
  unfolding reconcile_def
  by (intro steps steady_get_run steady_backend steady_report steady_status steady_remove_spool; simp)

lemma steady_bridge: "steady (ensure_workspace_bridge m e i)"
  unfolding ensure_workspace_bridge_def by (intro steps steady_get_run steady_attach)

lemma steady_control:
  "steady (request_stop e i t)" "steady (cancel_preparation e i)" "steady (answer_stop e i b1 b2 b3)" "steady (apply_reconciled m e v)"
  unfolding request_stop_def cancel_preparation_def answer_stop_def apply_reconciled_def Let_def
  by (intro steps steady_moves steady_get_run steady_target_status steady_status; simp)+

lemma steady_stop_on_target: "steady (stop_on_target m e v l now)"
proof -
  have r: "steady (reconciled_stop m e v)" for v
    unfolding reconciled_stop_def by (intro steps steady_control)
  have w: "steady (stop_without_layout e v l now ans)" for v l now ans
    unfolding stop_without_layout_def Let_def by (intro steps steady_control steady_get_run steady_status steady_moves; simp)
  show ?thesis
    unfolding stop_on_target_def Let_def by (intro steps steady_control r w steady_backend; simp)
qed

lemma steady_stop: "steady (stop_run m e i)"
  unfolding stop_run_def by (intro steps steady_control steady_stop_on_target steady_get_run steady_moves; simp)

lemma steady_kill_on_target: "steady (kill_on_target m e v l now)"
  unfolding kill_on_target_def Let_def
  by (intro steps steady_get_run steady_status steady_moves steady_control steady_backend; simp)

lemma steady_kill: "steady (kill_run m e i)"
  unfolding kill_run_def by (intro steps steady_kill_on_target steady_get_run steady_control)

lemma steady_delete: "steady (request_delete m e i)"
proof -
  have ex: "steady (expire_now e i now)" for i now
    unfolding steady_def expire_now_def update_db_def
    using R_expire by (auto simp: case_prod_beta)
  have gone: "steady (sbind (catch (\<lambda>x. is_os_error x \<or> is_ssh_error x)
                 (sbind (ask_target e pl i (Delete_Root i) (re_done e)) (\<lambda>_. give True)) (\<lambda>_. give False)) (\<lambda>gone.
          if \<not> gone then give \<lparr>da_deleted = False, da_pending = True\<rparr>
          else sbind (delete_local e i) (\<lambda>_. give \<lparr>da_deleted = True, da_pending = False\<rparr>)))" (is "steady ?p") for pl i
  proof -
    have "R w (snd (?p w))" for w
    proof (cases "re_done e (position w)")
      case (Inl x)
      then show ?thesis
        by (auto simp: sbind_def catch_def ask_target_def R_event)
    next
      case (Inr y)
      then have "R w (snd (delete_local e i (pass e (Asked pl i (Delete_Root i)) w)))" by (intro R_delete) simp
      moreover have "snd (?p w) = snd (delete_local e i (pass e (Asked pl i (Delete_Root i)) w))"
        using Inr by (simp add: sbind_def catch_def ask_target_def split: sum.split prod.split)
      ultimately show ?thesis by simp
    qed
    then show ?thesis by (simp add: steady_def)
  qed
  show ?thesis
    unfolding request_delete_def by (intro steps steady_get_run ex gone steady_backend)
qed

lemma steady_abandoned: "steady (drop_abandoned e now is)"
proof (induction "is")
  case (Cons i "is")
  let ?p = "sbind (move e i (abandon_change now)) (\<lambda>moved.
    if moved then sbind (remove_spool e i) (\<lambda>_. sbind (delete_record e i) (\<lambda>_. give (1::nat))) else give 0)"
  have "R w (snd (?p w))" for w
  proof -
    obtain r w1 where mv: "move e i (abandon_change now) w = (r, w1)" by fastforce
    have r1: "R w w1" by (rule steadyD [OF steady_moves mv]) (simp add: abandon_change_def)
    show ?thesis
    proof (cases "r = Inr True")
      case True
      with mv obtain s where s: "moves_to e i (abandon_change now) w s" "w1 = moved_world e i (abandon_change now) s w"
        by (auto simp: move_def Let_def moves_to_def moved_world_def split: sum.splits prod.splits)
      have "snd (?p w) = snd (sbind (remove_spool e i) (\<lambda>_. delete_record e i) w1)"
        using True mv by (simp add: sbind_def split: sum.split prod.split)
      with R_abandon [OF s(1)] s(2) show ?thesis by simp
    next
      case False
      then have "snd (?p w) = w1" using mv by (cases r) (auto simp: sbind_def)
      with r1 show ?thesis by simp
    qed
  qed
  then have p: "steady ?p" by (simp add: steady_def)
  have assoc: "sbind (sbind q f) k = sbind q (\<lambda>x. sbind (f x) k)" for q :: "bool rr" and f :: "bool \<Rightarrow> nat rr" and k :: "nat \<Rightarrow> nat rr"
    by (rule ext) (simp add: sbind_def split: sum.splits prod.splits)
  have "drop_abandoned e now (i # is) = sbind ?p (\<lambda>n. sbind (drop_abandoned e now is) (\<lambda>k. give (n + k)))"
    by (simp add: assoc abandon_change_def)
  then show ?case by (simp only:) (rule steady_bind [OF p], rule steady_bind [OF Cons], rule steady_pure)
qed (simp add: steady_pure)

lemma steady_cleanup: "steady (cleanup_expired m e c)"
proof -
  have "steady (delete_each m e is)" for "is"
    by (induction "is") (simp_all add: steady_pure, intro steps steady_delete)
  then show ?thesis unfolding cleanup_expired_def by (intro steps steady_abandoned)
qed

lemma steady_restart: "steady (restart_preparing m e r)"
proof -
  have n: "steady (no_layout m e r)"
    unfolding no_layout_def by (intro steps steady_require_computer steady_backend; simp)
  have f: "steady (fail_unless_unknown e i)" for i
    unfolding fail_unless_unknown_def by (intro steps steady_record_failure)
  show ?thesis unfolding restart_preparing_def Let_def by (intro steps steady_poll n f)
qed

lemma steady_forget:
  assumes "ok_forget i"
  shows "steady (forget e i)"
proof -
  have give: "sbind (validate_remote_run_id i) f = (if uuid4_text i then f i else fail (plain_error Value_Failed ''Remote Run id must be a canonical UUIDv4''))"
    for f :: "ustr \<Rightarrow> unit rr" by (rule ext) (simp add: validate_remote_run_id_def sbind_def)
  have "steady (delete_local e i)" using R_forget [OF assms] by (simp add: steady_def)
  then show ?thesis unfolding forget_def give by (intro steps steady_get_run)
qed

lemma steady_retry:
  assumes "ok_change i retry_change"
  shows "steady (retry_preparation m e i)"
proof -
  have give: "sbind (validate_remote_run_id i) f = (if uuid4_text i then f i else fail (plain_error Value_Failed ''Remote Run id must be a canonical UUIDv4''))"
    for f :: "ustr \<Rightarrow> rr_run rr" by (rule ext) (simp add: validate_remote_run_id_def sbind_def)
  have "steady (move e i retry_change)" by (rule steady_move [OF assms])
  then show ?thesis unfolding retry_preparation_def give retry_change_def
    by (intro steps steady_get_run steady_backend steady_schedule; simp)
qed

lemma steady_bind_result:
  assumes "steady p" "\<And>x w w'. p w = (Inr x, w') \<Longrightarrow> steady (f x)"
  shows "steady (sbind p f)"
  unfolding steady_def sbind_def
proof
  fix w
  obtain r w' where r: "p w = (r, w')" by (cases "p w")
  have "R w w'" using assms(1) r by (metis snd_conv steady_def)
  moreover have "R w' (snd (f x w'))" if "r = Inr x" for x using assms(2) r that by (auto simp: steady_def)
  ultimately show "R w (snd (case p w of (Inl x, s') \<Rightarrow> (Inl x, s') | (Inr x, xa) \<Rightarrow> f x xa))"
    unfolding r using R_trans [of w w'] by (cases r) auto
qed

lemma steady_normalize: "steady (normalize_create_payload m e p)"
proof -
  have w: "steady (workspace_source m e p)"
    unfolding workspace_source_def Let_def
    by (intro steps; (simp split: option.split connection_method.split; intro conjI impI allI steps)?)
  have g: "steady (git_source m p)" "steady (archive_source m p)"
    unfolding git_source_def archive_source_def by (simp_all add: steady_pure split: sum.split)
  show ?thesis
    unfolding normalize_create_payload_def Let_def by (intro steps steady_require_computer w g)
qed

lemma steady_create:
  assumes "ok_id (pl_id p)"
  shows "steady (create m e p)"
proof -
  have t: "steady (check_target m e v)" for v
    unfolding check_target_def by (intro steps steady_require_computer steady_backend; simp)
  have i: "steady (insert_run e v)" if "v_id v = pl_id p" for v
    unfolding steady_def
  proof
    fix w
    show "R w (snd (insert_run e v w))"
    proof (cases "create_remote_run v (re_meanwhile e (position w) (rw_store w))")
      case (Inl x)
      then show ?thesis by (simp add: insert_run_def update_db_def R_event)
    next
      case (Inr t)
      then obtain r b s where "create_remote_run v (re_meanwhile e (position w) (rw_store w)) = Inr (r, b, s)" by (cases t) auto
      from R_create [OF _ this] assms that show ?thesis using \<open>_ = Inr (r, b, s)\<close> by (simp add: insert_run_def update_db_def)
    qed
  qed
  have a: "steady (assert_idempotent r v)" for r v unfolding assert_idempotent_def by (intro steps)
  show ?thesis
    unfolding create_def Let_def
    by (rule steady_bind_result [OF steady_normalize], drule normalized_id)
       (intro steps t i a steady_get_run steady_schedule; simp)
qed

lemma steady_startup: "steady (reconcile_startup m e)"
proof -
  have "steady (reconcile_each m e rs)" for rs
  proof (induction rs)
    case (Cons r rs)
    then show ?case by (simp only: reconcile_each.simps) (intro steps steady_poll steady_restart)
  qed (simp add: steady_pure)
  then show ?thesis unfolding reconcile_startup_def by (intro steps steady_cleanup)
qed

lemma steady_observer: "steady (observer_round m e ob)"
proof -
  have o: "steady (observe_one m e now i ob)" for now i ob
    unfolding observe_one_def Let_def by (intro steps steady_reconcile)
  have "steady (observe_each m e now is ob)" for now "is" ob
    by (induction "is" arbitrary: ob) (simp_all add: steady_pure steady_bind o)
  then show ?thesis unfolding observer_round_def Let_def by (intro steps)
qed

end

end
