(* ===== verification/Remote_Run_Rows.thy ===== *)
theory Remote_Run_Rows
  imports Remote_Run_Laws
begin

text \<open>
  What the operations of \<open>RemoteRunManager\<close> do to the rows of the runs: a run that ended stays as it ended, and what was
  asked for never changes.
\<close>

section \<open>Later states of a run\<close>

definition keeps_run :: "remote_run_row \<Rightarrow> remote_run_row \<Rightarrow> bool" where
  "keeps_run r r' \<longleftrightarrow> m_id r' = m_id r \<and> m_kind r' = m_kind r \<and> m_format r' = m_format r \<and> m_source_path r' = m_source_path r
     \<and> m_label r' = m_label r \<and> m_url r' = m_url r \<and> m_options r' = m_options r \<and> m_target r' = m_target r
     \<and> m_command r' = m_command r \<and> m_base r' = m_base r \<and> m_created r' = m_created r \<and> m_revision r \<le> m_revision r'
     \<and> (terminal_state (m_state r) \<longrightarrow>
          r' = r\<lparr>m_source_workspace := m_source_workspace r', m_workspace := m_workspace r', m_expires := m_expires r'\<rparr>)"

lemma keeps_run_refl [simp]: "keeps_run r r"
  by (simp add: keeps_run_def)

lemma keeps_run_workspace [simp]:
  "keeps_run r (r\<lparr>m_workspace := x\<rparr>)" "keeps_run r (r\<lparr>m_expires := y\<rparr>)" "keeps_run r (r\<lparr>m_source_workspace := z, m_workspace := x\<rparr>)"
  by (simp_all add: keeps_run_def)

lemma keeps_run_trans:
  assumes "keeps_run a b" "keeps_run b c"
  shows "keeps_run a c"
proof -
  have "c = a\<lparr>m_source_workspace := m_source_workspace c, m_workspace := m_workspace c, m_expires := m_expires c\<rparr>"
    if "terminal_state (m_state a)"
  proof -
    from assms(1) that have b: "b = a\<lparr>m_source_workspace := m_source_workspace b, m_workspace := m_workspace b, m_expires := m_expires b\<rparr>"
      by (simp add: keeps_run_def)
    then have "m_state b = m_state a" by (metis remote_run_row.select_convs(15) remote_run_row.surjective remote_run_row.update_convs(4,14,25))
    with assms(2) that have c: "c = b\<lparr>m_source_workspace := m_source_workspace c, m_workspace := m_workspace c, m_expires := m_expires c\<rparr>"
      by (simp add: keeps_run_def)
    show ?thesis by (subst c, subst b) simp
  qed
  with assms show ?thesis by (auto simp: keeps_run_def)
qed

text \<open>What may happen to the run \<open>i\<close>: it may change as above or be deleted, and no run of that name comes into being.\<close>

definition forward :: "ustr \<Rightarrow> store \<Rightarrow> store \<Rightarrow> bool" where
  "forward i s t \<longleftrightarrow> (store_ok s \<longrightarrow> store_ok t \<and> (case get_remote_run i s of
       None \<Rightarrow> get_remote_run i t = None
     | Some r \<Rightarrow> (case get_remote_run i t of None \<Rightarrow> True | Some r' \<Rightarrow> keeps_run r r')))"

lemma forward_refl: "forward i s s"
  by (auto simp: forward_def split: option.split)

lemma forward_trans: "forward i s t \<Longrightarrow> forward i t v \<Longrightarrow> forward i s v"
  by (auto simp: forward_def split: option.splits intro: keeps_run_trans)

text \<open>A step that changes rows one by one, and one that deletes some.\<close>

lemma find_kept:
  assumes "\<And>r. r \<in> set rs \<Longrightarrow> keeps_run r (f r)"
  shows "find (\<lambda>r. m_id r = i) (map f rs) = map_option f (find (\<lambda>r. m_id r = i) rs)"
  using assms by (induction rs) (auto simp: keeps_run_def)

lemma forward_rows:
  assumes "store_ok s \<Longrightarrow> store_ok t" and rows: "remote_runs t = map f (remote_runs s)"
    and kept: "\<And>r. store_ok s \<Longrightarrow> r \<in> set (remote_runs s) \<Longrightarrow> keeps_run r (f r)"
  shows "forward k s t"
proof (cases "store_ok s")
  case True
  have "keeps_run r (f r)" if "get_remote_run i s = Some r" for i r
    using that kept [OF True] find_SomeD unfolding get_remote_run_def by fast
  then show ?thesis using assms(1) find_kept [of "remote_runs s" f] kept [OF True]
    by (auto simp: forward_def get_remote_run_def rows split: option.split)
qed (simp add: forward_def)

lemma forward_same: "(store_ok s \<Longrightarrow> store_ok t) \<Longrightarrow> remote_runs t = remote_runs s \<Longrightarrow> forward k s t"
  by (rule forward_rows [where f = id]) simp_all

lemma forward_gone:
  assumes "store_ok s \<Longrightarrow> store_ok t" and rows: "remote_runs t = filter (\<lambda>r. m_id r \<noteq> j) (remote_runs s)"
  shows "forward k s t"
proof -
  have "find (\<lambda>r. m_id r = i) (filter (\<lambda>r. m_id r \<noteq> j) rs) = (if i = j then None else find (\<lambda>r. m_id r = i) rs)" for i and rs :: "remote_run_row list"
    by (induction rs) auto
  then have found: "get_remote_run i t = (if i = j then None else get_remote_run i s)" for i
    by (simp add: get_remote_run_def rows)
  show ?thesis using assms(1) by (auto simp: forward_def found split: option.split)
qed

section \<open>The store calls\<close>

lemma applied_change_kept: "\<not> terminal_state (m_state r) \<Longrightarrow> keeps_run r (apply_remote_change st c r)"
  by (simp add: keeps_run_def apply_remote_change_def)

lemma transition_rows_kept:
  assumes step: "transition_remote_run now nid i c s = Inr (b, s')" and E: "states_of (rc_expected c) = Some E" "E \<subseteq> {Preparing, Running}"
  shows "forward k s s'"
proof (cases "store_ok s")
  case ok: True
  from step ok show ?thesis
  proof (cases rule: transition_remote_run_cases)
    case lost
    then show ?thesis by (simp add: forward_refl)
  next
    case (won E' st r name s1)
    have "remote_runs s' = remote_runs s1" using ending_frame [OF won(7)] by simp
    then have rows: "remote_runs s' = map (\<lambda>x. if m_id x = i then apply_remote_change st c x else x) (remote_runs s)"
      by (simp add: won(5) update_where_def)
    have "keeps_run x (if m_id x = i then apply_remote_change st c x else x)" if "x \<in> set (remote_runs s)" for x
    proof (cases "m_id x = i")
      case True
      then have "x = r" using remote_run_table.lookup_iff [OF ok] that won(3) by (metis option.inject)
      then show ?thesis using won(2,4) E applied_change_kept by (cases "m_state r") auto
    qed simp
    then show ?thesis using rows transition_remote_run_ok [OF step] by (intro forward_rows [OF _ rows])
  qed
qed (simp add: forward_def)

lemma transition_stays:
  assumes "transition_remote_run now nid i c s = Inr (False, s')"
  shows "forward k s s'"
proof (cases "store_ok s")
  case True
  from assms True show ?thesis by (cases rule: transition_remote_run_cases) (simp_all add: forward_refl)
qed (simp add: forward_def)

text \<open>What is done to another run.\<close>

lemma forward_untouched: "(store_ok s \<Longrightarrow> store_ok t) \<Longrightarrow> get_remote_run k t = get_remote_run k s \<Longrightarrow> forward k s t"
  by (auto simp: forward_def split: option.split)

lemma find_other: "i \<noteq> k \<Longrightarrow> (\<And>r. m_id (f r) = m_id r) \<Longrightarrow>
    find (\<lambda>r. m_id r = k) (map (\<lambda>x. if m_id x = i then f x else x) rs) = find (\<lambda>r. m_id r = k) (rs :: remote_run_row list)"
  by (induction rs) auto

lemma transition_other:
  assumes step: "transition_remote_run now nid i c s = Inr (b, s')" and "i \<noteq> k"
  shows "forward k s s'"
proof (cases "store_ok s")
  case ok: True
  from step ok show ?thesis
  proof (cases rule: transition_remote_run_cases)
    case lost
    then show ?thesis by (simp add: forward_refl)
  next
    case (won E' st r name s1)
    have "remote_runs s' = remote_runs s1" using ending_frame [OF won(7)] by simp
    then have "remote_runs s' = map (\<lambda>x. if m_id x = i then apply_remote_change st c x else x) (remote_runs s)"
      by (simp add: won(5) update_where_def)
    then show ?thesis using find_other [OF assms(2), of "apply_remote_change st c"] transition_remote_run_ok [OF step]
      by (intro forward_untouched) (simp_all add: get_remote_run_def apply_remote_change_def)
  qed
qed (simp add: forward_def)

lemma create_other:
  assumes step: "create_remote_run v s = Inr (r, b, s')" and "v_id v \<noteq> k"
  shows "forward k s s'"
proof -
  have "m_id row = v_id v" if "remote_row v = Some row" for row
    using that by (auto simp: remote_row_def split: option.splits if_splits)
  moreover have "find (\<lambda>m. m_id m = k) (rs @ [row]) = find (\<lambda>m. m_id m = k) rs" if "m_id row \<noteq> k" for rs and row :: remote_run_row
    using that by (induction rs) auto
  ultimately have "get_remote_run k s' = get_remote_run k s"
    using step assms(2)
    by (auto simp: create_remote_run_def rbind_Inr_iff insert_remote_run_def get_remote_run_def split: option.splits if_splits)
  then show ?thesis by (intro forward_untouched create_remote_run_ok [OF step])
qed

lemma expire_rows: "forward k s (snd (expire_remote_run_now i now s))"
  using expire_remote_run_now_ok [of s i now]
  by (intro forward_rows [where f = "\<lambda>r. if m_id r = i \<and> terminal_state (m_state r) then r\<lparr>m_expires := Some now\<rparr> else r"])
     (simp_all add: expire_remote_run_now_def Let_def update_where_def)

lemma delete_rows: "delete_remote_run i s = Inr s' \<Longrightarrow> forward k s s'"
proof -
  assume step: "delete_remote_run i s = Inr s'"
  then have "remote_runs s' = filter (\<lambda>r. m_id r \<noteq> i) (remote_runs s)"
    by (auto simp: delete_remote_run_def find_None_iff split: option.splits if_splits intro!: filter_True [symmetric])
  then show ?thesis by (intro forward_gone delete_remote_run_ok [OF step])
qed

lemma deleted_workspace_rows: "remote_runs (delete_workspaces p s) = map (\<lambda>m. m\<lparr>m_source_workspace :=
    set_null (w_id ` set (filter p (workspaces s))) (m_source_workspace m), m_workspace :=
    set_null (w_id ` set (filter p (workspaces s))) (m_workspace m)\<rparr>) (remote_runs s)"
  by (simp add: delete_workspaces_def delete_terminals_def Let_def)

lemma delete_workspace_rows: "delete_remote_run_workspace i s = Inr (b, s') \<Longrightarrow> forward k s s'"
proof -
  assume step: "delete_remote_run_workspace i s = Inr (b, s')"
  then consider "s' = s" | w where "s' = delete_workspaces (\<lambda>x. w_id x = w) (set_remote_run i (\<lambda>m. m\<lparr>m_workspace := None\<rparr>) s)"
    by (auto simp: delete_remote_run_workspace_def split: option.splits)
  then show ?thesis
  proof cases
    case 1
    then show ?thesis by (simp add: forward_refl)
  next
    case 2
    then have "\<exists>f. remote_runs s' = map f (remote_runs s) \<and> (\<forall>r. keeps_run r (f r))"
      by (intro exI [of _ "\<lambda>r. (\<lambda>m. m\<lparr>m_source_workspace := set_null _ (m_source_workspace m), m_workspace := set_null _ (m_workspace m)\<rparr>)
            (if m_id r = i then r\<lparr>m_workspace := None\<rparr> else r)"])
         (auto simp: deleted_workspace_rows set_remote_run_def update_where_def)
    then show ?thesis using delete_remote_run_workspace_ok [OF step] by (blast intro: forward_rows)
  qed
qed

section \<open>The Workspace of a run\<close>

text \<open>A predicate of stores that only grows: every store call of the opening keeps it.\<close>

lemma terminals_rows: "reconcile_terminals now ids i ls s = Inr (x, s') \<Longrightarrow> forward k s s'"
proof -
  assume step: "reconcile_terminals now ids i ls s = Inr (x, s')"
  have park: "park_terminal r s = Inr s' \<Longrightarrow> remote_runs s' = remote_runs s" for r s s'
    by (auto simp: park_terminal_def update_terminal_def Let_def split: if_splits)
  have place: "place_window now i a s = Inr s' \<Longrightarrow> remote_runs s' = remote_runs s" for a s s'
    by (auto simp: place_window_def update_terminal_def insert_terminal_def Let_def split: if_splits option.splits prod.splits)
  from step obtain p as s2 where s2: "each park_terminal (matched_rows as) (delete_terminals p s) = Inr s2"
    and s3: "each (place_window now i) as s2 = Inr s'"
    by (auto simp: reconcile_terminals_def rbind_Inr_iff Let_def)
  have "remote_runs s2 = remote_runs (delete_terminals p s)"
    by (rule each_invariant [OF s2, of "\<lambda>t. remote_runs t = remote_runs (delete_terminals p s)"]) (use park in auto)
  moreover have "remote_runs s' = remote_runs s2"
    by (rule each_invariant [OF s3, of "\<lambda>t. remote_runs t = remote_runs s2"]) (use place in auto)
  ultimately have "remote_runs s' = remote_runs s" by (simp add: delete_terminals_def Let_def)
  then show ?thesis using reconcile_terminals_ok [OF step] by (intro forward_same)
qed

definition after :: "ustr \<Rightarrow> store \<Rightarrow> store \<Rightarrow> bool" where "after k s0 s \<longleftrightarrow> forward k s0 s"

lemma after_step: "after k s0 s \<Longrightarrow> forward k s t \<Longrightarrow> after k s0 t"
  unfolding after_def by (rule forward_trans)

lemma after_db:
  assumes "\<And>s x s'. f s = Inr (x, s') \<Longrightarrow> forward k s s'"
  shows "keeps (after k s0) (db f)"
  by (rule keeps_db) (metis assms after_step)

lemma after_db_only:
  assumes "\<And>s s'. f s = Inr s' \<Longrightarrow> forward k s s'"
  shows "keeps (after k s0) (db_only f)"
  by (rule keeps_db_only) (metis assms after_step)

lemma root_rows: "ensure_root_value t i v s = Inr (r, s') \<Longrightarrow> forward k s s'"
proof -
  assume step: "ensure_root_value t i v s = Inr (r, s')"
  then have "remote_runs s' = remote_runs s"
    by (auto simp: ensure_root_value_def insert_root_def Let_def split: option.splits sum.splits if_splits)
  then show ?thesis using ensure_root_value_ok [OF step] by (intro forward_same)
qed

lemma created_rows: "create_workspace fc al now ids ro rel nm q b c p wk s = Inr (w, s') \<Longrightarrow> forward k s s'"
proof -
  assume step: "create_workspace fc al now ids ro rel nm q b c p wk s = Inr (w, s')"
  then have "insert_workspace w s = Inr s'"
    by (auto simp: create_workspace_def dest!: attempt_workspaces_ok split: option.splits)
  then have "remote_runs s' = remote_runs s" using inserted_rows by blast
  then show ?thesis using create_workspace_ok [OF step] by (intro forward_same)
qed

lemma attached_forward: "attach_remote_run_workspace i w s = Inr (r, s') \<Longrightarrow> forward k s s'"
proof -
  assume step: "attach_remote_run_workspace i w s = Inr (r, s')"
  then have "s' = s \<or> s' = set_remote_run i (\<lambda>m. m\<lparr>m_workspace := Some w\<rparr>) s"
    by (auto simp: attach_remote_run_workspace_def Let_def split: option.splits if_splits)
  then show ?thesis
  proof
    assume s': "s' = set_remote_run i (\<lambda>m. m\<lparr>m_workspace := Some w\<rparr>) s"
    show ?thesis using attach_ok [OF step]
      by (intro forward_rows [where f = "\<lambda>r. if m_id r = i then r\<lparr>m_workspace := Some w\<rparr> else r"])
         (simp_all add: s' set_remote_run_def update_where_def)
  qed (simp add: forward_refl)
qed

lemma removed_rows: "remove_workspace_registration i s = Inr s' \<Longrightarrow> forward k s s'"
proof -
  assume step: "remove_workspace_registration i s = Inr s'"
  then have "s' = delete_workspaces (\<lambda>w. w_id w = i) s" by (auto simp: remove_workspace_registration_def split: if_splits)
  then show ?thesis using remove_workspace_registration_ok [OF step]
    by (intro forward_rows [OF _ deleted_workspace_rows [of "\<lambda>w. w_id w = i" s, folded \<open>s' = _\<close>]]) simp_all
qed

lemma touched_forward: "forward k s (touch_workspace now i None s)"
  using touch_workspace_ok [of s now i None] by (intro forward_same) (simp_all add: touched_rows)

lemma kind_rows: "update_workspace_kind i wk s = Inr s' \<Longrightarrow> forward k s s'"
  using kind_changed(2) update_workspace_kind_ok by (intro forward_same) blast+

lemma after_calls [ws_keeps]:
  "keeps (after k s0) (touch_ws d i)" "keeps (after k s0) (create_ws d r rel name q b c p wk)"
  "keeps (after k s0) (db (ensure_root_value t i v))" "keeps (after k s0) (attach_run i w)"
  "keeps (after k s0) (db_only (update_workspace_kind w kind))" "keeps (after k s0) (db_only (remove_workspace_registration w))"
proof -
  show "keeps (after k s0) (touch_ws d i)" by (auto simp: keeps_def touch_ws_def intro: after_step [OF _ touched_forward])
  show "keeps (after k s0) (create_ws d r rel name q b c p wk)"
    unfolding create_ws_def by (intro after_db created_rows)
  show "keeps (after k s0) (db (ensure_root_value t i v))" by (intro after_db root_rows)
  show "keeps (after k s0) (attach_run i w)" unfolding attach_run_def by (intro after_db attached_forward)
  show "keeps (after k s0) (db_only (update_workspace_kind w kind))" by (intro after_db_only kind_rows)
  show "keeps (after k s0) (db_only (remove_workspace_registration w))" by (intro after_db_only removed_rows)
qed

lemma after_attach [ws_keeps]: "keeps (after k s0) (attach_or_delete i w)"
  unfolding keeps_def
proof (intro allI impI)
  fix s assume s: "after k s0 s"
  then have "after k s0 (snd (attach_run i w s))" using after_calls(4) by (auto simp: keeps_def)
  then show "after k s0 (snd (attach_or_delete i w s))"
    using after_calls(6) [of k s0 w] by (auto simp: attach_or_delete_def keeps_def split: prod.splits sum.splits)
qed

lemma opened_rows:
  assumes "\<And>t. forward k t (meanwhile t)" and step: "open_remote_run d meanwhile here base fs i q p s = (r, s')"
  shows "forward k s s'"
proof -
  have mw: "after k s0 t \<Longrightarrow> after k s0 (meanwhile t)" for s0 t using assms(1) after_step by blast
  have "keeps (after k s) (open_remote_run d meanwhile here base fs i q p)"
    unfolding open_remote_run_def run_workspace_def create_run_workspace_def by (intro ws_keeps mw)
  from keepsD [OF this _ step] show ?thesis by (simp add: after_def forward_refl)
qed

section \<open>The operations\<close>

text \<open>How the run \<open>k\<close> moves when the other threads only move it like this.\<close>

definition others_forward :: "rr_env \<Rightarrow> ustr \<Rightarrow> bool" where
  "others_forward e k \<longleftrightarrow> (\<forall>n t. forward k t (re_meanwhile e n t))"

definition moves_on :: "rr_env \<Rightarrow> ustr \<Rightarrow> rr_world \<Rightarrow> rr_world \<Rightarrow> bool" where
  "moves_on e k w w' \<longleftrightarrow> (others_forward e k \<longrightarrow> forward k (rw_store w) (rw_store w'))"

definition while_unfinished :: "ustr \<Rightarrow> ustr \<Rightarrow> remote_change \<Rightarrow> bool" where
  "while_unfinished k i c \<longleftrightarrow> i \<noteq> k \<or> (\<exists>E. states_of (rc_expected c) = Some E \<and> E \<subseteq> {Preparing, Running})"

lemma passed_store [simp]: "rw_store (pass e ev w) = re_meanwhile e (position w) (rw_store w)"
  by (simp add: pass_def)

lemma moves_on_pass: "(others_forward e k \<Longrightarrow> forward k (re_meanwhile e (position w) (rw_store w)) s)
    \<Longrightarrow> rw_store w' = s \<Longrightarrow> moves_on e k w w'"
  by (auto simp: moves_on_def others_forward_def intro: forward_trans)

lemma moves_on_trans: "moves_on e k w w' \<Longrightarrow> moves_on e k w' w'' \<Longrightarrow> moves_on e k w w''"
  by (auto simp: moves_on_def intro: forward_trans)

lemma moved_on:
  assumes "while_unfinished k i c" "moves_to e i c w s"
  shows "moves_on e k w (moved_world e i c s w)"
proof -
  from assms have step: "transition_remote_run (re_now e (position w)) (re_id e (position w)) i c (re_meanwhile e (position w) (rw_store w)) = Inr (True, s)"
    by (simp add: moves_to_def)
  from assms(1) have "forward k (re_meanwhile e (position w) (rw_store w)) s"
    unfolding while_unfinished_def using transition_rows_kept [OF step] transition_other [OF step] by blast
  then show ?thesis by (intro moves_on_pass [of _ _ w s]) (simp_all add: moved_world_def)
qed

lemma expected_unfinished: "while_unfinished k i (start_unknown a b)" "while_unfinished k i (abandon_change now)"
  by (auto simp: while_unfinished_def start_unknown_def abandon_change_def expecting_run_def preparing_def states_of_def run_state_of_def u_eq_iff)

lemma record_moves: "moves_on e k w (snd (delete_record e i w))"
proof (cases "delete_remote_run i (re_meanwhile e (position w) (rw_store w))")
  case (Inl x)
  then show ?thesis by (intro moves_on_pass [of _ _ w, OF forward_refl]) (simp add: delete_record_def update_db_def)
next
  case (Inr s)
  then show ?thesis by (intro moves_on_pass [of _ _ w s]) (simp_all add: delete_record_def update_db_def delete_rows)
qed

lemma spool_moves: "moves_on e k w (snd (remove_spool e i w))"
  by (intro moves_on_pass [of _ _ w, OF forward_refl]) (simp add: remove_spool_def local_step_def)

lemma moves_on_bind:
  assumes "moves_on e k w (snd (p w))" "\<And>x w'. moves_on e k w' (snd (f x w'))"
  shows "moves_on e k w (snd (sbind p f w))"
proof -
  obtain r w' where "p w = (r, w')" by fastforce
  with assms show ?thesis using moves_on_trans [of e k w w'] by (cases r) (auto simp: sbind_def)
qed

lemma local_moves: "moves_on e k w (snd (delete_local e i w))"
proof -
  have "moves_on e k w (snd (update_db e (\<lambda>_. Workspace_Removed i) Looked (\<lambda>s. delete_remote_run_workspace i s) w))" for w
  proof (cases "delete_remote_run_workspace i (re_meanwhile e (position w) (rw_store w))")
    case (Inl x)
    then show ?thesis by (intro moves_on_pass [of _ _ w, OF forward_refl]) (simp add: update_db_def)
  next
    case (Inr p)
    then obtain b s where "delete_remote_run_workspace i (re_meanwhile e (position w) (rw_store w)) = Inr (b, s)" by (cases p) simp
    then show ?thesis by (intro moves_on_pass [of _ _ w s]) (simp_all add: update_db_def delete_workspace_rows)
  qed
  then show ?thesis unfolding delete_local_def by (intro moves_on_bind spool_moves record_moves)
qed

lemma bridged_moves:
  assumes "bridged_store e m w s" "others_forward e k"
  shows "forward k (re_meanwhile e (position w) (rw_store w)) s"
proof -
  have mw: "forward k t (re_meanwhile e (position w) t)" for t using assms(2) by (simp add: others_forward_def)
  show ?thesis
    using assms(1) opened_rows [where k = k and meanwhile = "re_meanwhile e (position w)", OF mw] terminals_rows [where k = k]
    by (auto simp: bridged_store_def Let_def)
qed

interpretation run_rows: rr_calculus "moves_on e k" e m "while_unfinished k" "\<lambda>i. i \<noteq> k" "\<lambda>_. True" for e k m
proof
  fix w w' w'' :: rr_world and ev c i s nid now x y tc pl b
  show "moves_on e k w w" by (simp add: moves_on_def forward_refl)
  show "moves_on e k w w' \<Longrightarrow> moves_on e k w' w'' \<Longrightarrow> moves_on e k w w''" by (rule moves_on_trans)
  show p: "moves_on e k w (pass e ev w)" for ev w by (rule moves_on_pass [OF forward_refl]) simp
  show "moves_on e k w (w\<lparr>rw_spool := x, rw_baseline := y\<rparr>)" by (simp add: moves_on_def forward_refl)
  show "transition_remote_run now nid i c (re_meanwhile e (position w) (rw_store w)) = Inr (False, s)
      \<Longrightarrow> moves_on e k w ((pass e (Moved i c False) w)\<lparr>rw_store := s\<rparr>)"
    by (rule moves_on_pass [of _ _ w s]) (simp_all add: transition_stays)
  show "while_unfinished k i c \<Longrightarrow> moves_to e i c w s \<Longrightarrow> moves_on e k w (moved_world e i c s w)" by (rule moved_on)
  show "moves_on e k w ((pass e (Expired_Run i b) w)\<lparr>rw_store := snd (expire_remote_run_now i now (re_meanwhile e (position w) (rw_store w)))\<rparr>)"
    by (rule moves_on_pass [OF expire_rows]) simp
  show "bridged_store e m w s \<Longrightarrow> moves_on e k w ((pass e (Bridged i) w)\<lparr>rw_store := s\<rparr>)"
    by (rule moves_on_pass [of _ _ w s]) (simp_all add: bridged_moves)
  show "moves_to e i (start_unknown (Some (u ''starting'')) None) w s
      \<Longrightarrow> moves_on e k w (pass e (Asked pl i tc) (moved_world e i (start_unknown (Some (u ''starting'')) None) s w))"
    by (rule moves_on_trans [OF moved_on [OF expected_unfinished(1)] p])
  show "moves_on e k w (snd (delete_local e i (pass e (Asked pl i (Delete_Root i)) w)))"
    by (rule moves_on_trans [OF p local_moves])
  show "moves_to e i (abandon_change now) w s
      \<Longrightarrow> moves_on e k w (snd (sbind (remove_spool e i) (\<lambda>_. delete_record e i) (moved_world e i (abandon_change now) s w)))"
    by (rule moves_on_trans [OF moved_on [OF expected_unfinished(2)] moves_on_bind]) (simp_all add: spool_moves record_moves)
  show "states_of (rc_expected c) = Some E \<Longrightarrow> E \<subseteq> {Preparing, Running} \<Longrightarrow> while_unfinished k i c" for E
    by (auto simp: while_unfinished_def)
  show "v_id v \<noteq> k \<Longrightarrow> create_remote_run v (re_meanwhile e (position w) (rw_store w)) = Inr (r, b, s)
      \<Longrightarrow> moves_on e k w ((pass e (Created_Run (v_id v) b) w)\<lparr>rw_store := s\<rparr>)" for v r
    by (rule moves_on_pass [of _ _ w s]) (simp_all add: create_other)
  show "moves_on e k w (snd (delete_local e i w))" by (rule local_moves)
qed

end
