(* ===== verification/Remote_Run_Log.thy ===== *)
theory Remote_Run_Log
  imports Remote_Run_Rows
begin

text \<open>
  What the log of an operation of \<open>RemoteRunManager\<close> may hold: when a program is started on a target and when a record is
  deleted.
\<close>

section \<open>Justified events\<close>

definition starting :: remote_change where "starting = start_unknown (Some (u ''starting'')) None"

text \<open>An operation that began at position \<open>n\<close> starts a run directly after the store took the run from preparing to
  \<^verbatim>\<open>starting\<close> and before it was told to stop, and deletes a record after the target deleted the files of the run or after
  the store gave up its upload; the records of \<open>F\<close> may be deleted without that.\<close>

definition justified :: "ustr set \<Rightarrow> rr_env \<Rightarrow> rr_event list \<Rightarrow> nat \<Rightarrow> nat \<Rightarrow> bool" where
  "justified F e l n k =
    (case l ! k of
       Asked pl i c \<Rightarrow> start_call c \<longrightarrow> n < k \<and> l ! (k - 1) = Moved i starting True \<and> \<not> re_cancel e (k - 1)
     | Record_Deleted i \<Rightarrow> i \<in> F \<or> (\<exists>j. n \<le> j \<and> j < k \<and>
         ((\<exists>pl. l ! j = Asked pl i (Delete_Root i) \<and> re_done e j = Inr ()) \<or> (\<exists>now. l ! j = Moved i (abandon_change now) True)))
     | _ \<Rightarrow> True)"

definition logs :: "ustr set \<Rightarrow> rr_env \<Rightarrow> rr_world \<Rightarrow> rr_world \<Rightarrow> bool" where
  "logs F e w w' \<longleftrightarrow> (\<exists>evs. rw_log w' = rw_log w @ evs) \<and> (\<forall>k. position w \<le> k \<and> k < position w' \<longrightarrow> justified F e (rw_log w') (position w) k)"

lemma logs_refl: "logs F e w w"
  by (auto simp: logs_def)

lemma justified_longer:
  assumes "justified F e a n k" "k < length a" "n' \<le> n"
  shows "justified F e (a @ b) n' k"
proof (cases "a ! k")
  case (Record_Deleted i)
  then consider "i \<in> F" | "i \<notin> F" by blast
  then show ?thesis
  proof cases
    case 1
    then show ?thesis using assms(2) Record_Deleted by (simp add: justified_def nth_append)
  next
    case 2
  with assms Record_Deleted obtain j where j: "n \<le> j" "j < k" "(\<exists>pl. a ! j = Asked pl i (Delete_Root i) \<and> re_done e j = Inr ()) \<or> (\<exists>now. a ! j = Moved i (abandon_change now) True)"
    by (auto simp: justified_def)
  moreover from j assms have "(a @ b) ! j = a ! j" by (simp add: nth_append)
  ultimately show ?thesis using assms Record_Deleted by (auto simp: justified_def nth_append intro!: exI [of _ j])
  qed
qed (use assms in \<open>auto simp: justified_def nth_append\<close>)

lemma logs_trans:
  assumes "logs F e w w'" "logs F e w' w''"
  shows "logs F e w w''"
proof -
  from assms obtain a b where a: "rw_log w' = rw_log w @ a" and b: "rw_log w'' = rw_log w' @ b" by (auto simp: logs_def)
  have "justified F e (rw_log w'') (position w) k" if "position w \<le> k" "k < position w''" for k
  proof (cases "k < position w'")
    case True
    with assms(1) that have "justified F e (rw_log w') (position w) k" by (simp add: logs_def)
    from justified_longer [OF this, of "position w" b] True show ?thesis by (simp add: b position_def)
  next
    case False
    with assms(2) that have "justified F e (rw_log w'') (position w') k" by (simp add: logs_def)
    from justified_longer [OF this, of "position w" "[]"] that show ?thesis by (simp add: a position_def)
  qed
  with a b show ?thesis by (auto simp: logs_def)
qed

lemma passed_log [simp]: "rw_log (pass e ev w) = rw_log w @ [ev]"
  by (simp add: pass_def)

lemma moved_log [simp]: "rw_log (moved_world e i c s w) = rw_log w @ [Moved i c True]"
  by (simp add: moved_world_def)

text \<open>One event that needs no justification.\<close>

lemma logs_event:
  assumes "rw_log w' = rw_log w @ [ev]" "\<forall>pl i c. ev = Asked pl i c \<longrightarrow> \<not> start_call c" "\<forall>i. ev \<noteq> Record_Deleted i"
  shows "logs F e w w'"
  using assms by (auto simp: logs_def position_def justified_def nth_append less_Suc_eq split: rr_event.split)

lemma logs_same: "rw_log w' = rw_log w \<Longrightarrow> logs F e w w'"
  by (auto simp: logs_def position_def)

text \<open>The deletion of what is kept of a run, after the event that justifies it.\<close>

definition justifies :: "rr_env \<Rightarrow> ustr \<Rightarrow> rr_event \<Rightarrow> nat \<Rightarrow> bool" where
  "justifies e i ev n \<longleftrightarrow> (\<exists>pl. ev = Asked pl i (Delete_Root i) \<and> re_done e n = Inr ()) \<or> (\<exists>now. ev = Moved i (abandon_change now) True)"

lemma logs_deleted:
  assumes "justifies e i ev (position w)" "rw_log w' = rw_log w @ ev # evs" 
    and evs: "\<And>x. x \<in> set evs \<Longrightarrow> (\<forall>j. x = Record_Deleted j \<longrightarrow> j = i) \<and> (\<forall>pl j c. x = Asked pl j c \<longrightarrow> \<not> start_call c)"
  shows "logs F e w w'"
proof -
  have "justified F e (rw_log w') (position w) k" if k: "position w \<le> k" "k < position w'" for k
  proof (cases "k = position w")
    case True
    then show ?thesis using assms(1,2) by (auto simp: justified_def justifies_def position_def)
  next
    case False
    with k obtain d where d: "k = Suc (position w + d)" by (metis add_Suc_right le_imp_less_or_eq less_imp_Suc_add)
    with assms(2) have x: "rw_log w' ! k = evs ! d" and "d < length evs" using k(2) by (simp_all add: position_def nth_append)
    then have "evs ! d \<in> set evs" by simp
    from evs [OF this] show ?thesis
      using x d assms(1,2) unfolding justified_def justifies_def
      by (auto simp: position_def split: rr_event.split intro!: exI [of _ "length (rw_log w)"])
  qed
  then show ?thesis using assms(2) by (simp add: logs_def)
qed

lemma record_log: "\<exists>x \<in> {Looked, Record_Deleted i}. rw_log (snd (delete_record e i w)) = rw_log w @ [x]"
  by (cases "delete_remote_run i (re_meanwhile e (position w) (rw_store w))") (auto simp: delete_record_def update_db_def)

lemma sbind_log:
  assumes "\<exists>a. set a \<subseteq> A \<and> rw_log (snd (p w)) = rw_log w @ a" "\<And>x w'. \<exists>a. set a \<subseteq> A \<and> rw_log (snd (f x w')) = rw_log w' @ a"
  shows "\<exists>a. set a \<subseteq> A \<and> rw_log (snd (sbind p f w)) = rw_log w @ a"
proof -
  obtain r w' where r: "p w = (r, w')" by fastforce
  with assms(1) obtain a where a: "set a \<subseteq> A" "rw_log w' = rw_log w @ a" by auto
  show ?thesis
  proof (cases r)
    case (Inl x)
    then show ?thesis using r a by (auto simp: sbind_def)
  next
    case (Inr x)
    obtain b where "set b \<subseteq> A" "rw_log (snd (f x w')) = rw_log w' @ b" using assms(2) by blast
    with a show ?thesis using r Inr by (auto simp: sbind_def intro!: exI [of _ "a @ b"])
  qed
qed

lemma deleting_log:
  "\<exists>a. set a \<subseteq> {Looked, Spool_Removed i, Workspace_Removed i, Record_Deleted i} \<and> rw_log (snd (delete_local e i w)) = rw_log w @ a"
  "\<exists>a. set a \<subseteq> {Looked, Spool_Removed i, Workspace_Removed i, Record_Deleted i}
     \<and> rw_log (snd (sbind (remove_spool e i) (\<lambda>_. delete_record e i) w)) = rw_log w @ a"
proof -
  let ?A = "{Looked, Spool_Removed i, Workspace_Removed i, Record_Deleted i}"
  have s: "\<exists>a. set a \<subseteq> ?A \<and> rw_log (snd (remove_spool e i w)) = rw_log w @ a" for w
    by (intro exI [of _ "[Spool_Removed i]"]) (simp add: remove_spool_def local_step_def)
  have r: "\<exists>a. set a \<subseteq> ?A \<and> rw_log (snd (delete_record e i w)) = rw_log w @ a" for w
  proof -
    from record_log obtain x where "x \<in> {Looked, Record_Deleted i}" "rw_log (snd (delete_record e i w)) = rw_log w @ [x]" by blast
    then show ?thesis by (intro exI [of _ "[x]"]) auto
  qed
  have d: "\<exists>a. set a \<subseteq> ?A \<and> rw_log (snd (update_db e (\<lambda>_. Workspace_Removed i) Looked (\<lambda>s. delete_remote_run_workspace i s) w)) = rw_log w @ a" for w
    by (intro exI [of _ "[if isl (delete_remote_run_workspace i (re_meanwhile e (position w) (rw_store w))) then Looked else Workspace_Removed i]"])
       (auto simp: update_db_def isl_def split: sum.split)
  show "\<exists>a. set a \<subseteq> ?A \<and> rw_log (snd (delete_local e i w)) = rw_log w @ a"
    unfolding delete_local_def by (intro sbind_log s d r)
  show "\<exists>a. set a \<subseteq> ?A \<and> rw_log (snd (sbind (remove_spool e i) (\<lambda>_. delete_record e i) w)) = rw_log w @ a"
    by (intro sbind_log s r)
qed

interpretation run_logs: rr_calculus "logs F e" e m "\<lambda>_ _. True" "\<lambda>_. True" "\<lambda>i. i \<in> F" for F e m
proof
  fix w w' w'' :: rr_world and ev c i s nid now x y tc pl b
  show "logs F e w w" by (rule logs_refl)
  show "logs F e w w' \<Longrightarrow> logs F e w' w'' \<Longrightarrow> logs F e w w''" by (rule logs_trans)
  show "plain_event ev \<Longrightarrow> logs F e w (pass e ev w)"
    by (rule logs_event [of _ _ ev]) (auto split: rr_event.splits)
  show "logs F e w (w\<lparr>rw_spool := x, rw_baseline := y\<rparr>)" by (rule logs_same) simp
  show "logs F e w ((pass e (Moved i c False) w)\<lparr>rw_store := s\<rparr>)" by (rule logs_event, simp) simp_all
  show "logs F e w (moved_world e i c s w)" by (rule logs_event, simp) simp_all
  show "logs F e w ((pass e (Expired_Run i b) w)\<lparr>rw_store := snd (expire_remote_run_now i now (re_meanwhile e (position w) (rw_store w)))\<rparr>)"
    by (rule logs_event, simp) simp_all
  show "logs F e w ((pass e (Bridged i) w)\<lparr>rw_store := s\<rparr>)" by (rule logs_event, simp) simp_all
  show "logs F e w (pass e (Asked pl i tc) (moved_world e i (start_unknown (Some (u ''starting'')) None) s w))"
    if "start_call tc" "\<not> re_cancel e (position w)"
  proof -
    let ?n = "length (rw_log w)" and ?l = "rw_log w @ [Moved i starting True, Asked pl i tc]"
    have "justified F e ?l ?n k" if "?n \<le> k" "k < Suc (Suc ?n)" for k
    proof (cases "k = ?n")
      case False
      with that have "k = Suc ?n" by simp
      then show ?thesis using \<open>\<not> re_cancel e (position w)\<close> by (simp add: justified_def nth_append position_def)
    qed (simp add: justified_def nth_append)
    then show ?thesis by (simp add: logs_def position_def starting_def)
  qed
  show "logs F e w (snd (delete_local e i (pass e (Asked pl i (Delete_Root i)) w)))" if "re_done e (position w) = Inr ()"
  proof -
    obtain a where "set a \<subseteq> {Looked, Spool_Removed i, Workspace_Removed i, Record_Deleted i}"
      "rw_log (snd (delete_local e i (pass e (Asked pl i (Delete_Root i)) w))) = rw_log (pass e (Asked pl i (Delete_Root i)) w) @ a"
      using deleting_log(1) by blast
    with that show ?thesis by (intro logs_deleted [of e i "Asked pl i (Delete_Root i)" _ _ a]) (auto simp: justifies_def)
  qed
  show "logs F e w (snd (sbind (remove_spool e i) (\<lambda>_. delete_record e i) (moved_world e i (abandon_change now) s w)))"
  proof -
    obtain a where "set a \<subseteq> {Looked, Spool_Removed i, Workspace_Removed i, Record_Deleted i}"
      "rw_log (snd (sbind (remove_spool e i) (\<lambda>_. delete_record e i) (moved_world e i (abandon_change now) s w))) = rw_log (moved_world e i (abandon_change now) s w) @ a"
      using deleting_log(2) by blast
    then show ?thesis by (intro logs_deleted [of e i "Moved i (abandon_change now) True" _ _ a]) (auto simp: justifies_def)
  qed
  show "logs F e w ((pass e (Created_Run (v_id v) b) w)\<lparr>rw_store := s\<rparr>)" for v
    by (rule logs_event, simp) simp_all
  show "logs F e w (snd (delete_local e i w))" if "i \<in> F"
  proof -
    obtain a where a: "set a \<subseteq> {Looked, Spool_Removed i, Workspace_Removed i, Record_Deleted i}"
      "rw_log (snd (delete_local e i w)) = rw_log w @ a" using deleting_log(1) by blast
    have "justified F e (rw_log w @ a) (position w) k" if "position w \<le> k" "k < position w + length a" for k
    proof -
      from that have "(rw_log w @ a) ! k \<in> set a" by (simp add: position_def nth_append)
      with a(1) \<open>i \<in> F\<close> show ?thesis by (auto simp: justified_def)
    qed
    with a(2) show ?thesis by (simp add: logs_def position_def)
  qed
qed simp

end
