(* ===== verification/Remote_Run_Properties.thy ===== *)
theory Remote_Run_Properties
  imports Remote_Run_Log
begin

text \<open>
  What \<open>RemoteRunManager\<close> promises: runs only move forward, nothing is started or deleted without its reason, and what an
  upload, a copy, a kill and a repeated request do.
\<close>

section \<open>Any sequence of operations\<close>

datatype rr_op =
    Do_Create create_payload
  | Do_Prepare ustr
  | Do_Upload ustr ustr "bytes list" "rr_exn option" "int option"
  | Do_Poll ustr ustr "int option" int
  | Do_Reconcile ustr
  | Do_Bridge ustr
  | Do_Stop ustr
  | Do_Kill ustr
  | Do_Delete ustr
  | Do_Forget ustr
  | Do_Retry ustr
  | Do_Cleanup "ustr option"
  | Do_Spools
  | Do_Startup
  | Do_Round observer

fun serve :: "rr_manager \<Rightarrow> rr_env \<Rightarrow> rr_op \<Rightarrow> rr_world \<Rightarrow> rr_world" where
  "serve m e (Do_Create p) w = snd (create m e p w)"
| "serve m e (Do_Prepare i) w = snd (prepare_run m e i w)"
| "serve m e (Do_Upload i f cs br n) w = snd (upload_archive m e i f cs br n w)"
| "serve m e (Do_Poll i str off cap) w = snd (poll m e i str off cap w)"
| "serve m e (Do_Reconcile i) w = snd (reconcile m e i w)"
| "serve m e (Do_Bridge i) w = snd (ensure_workspace_bridge m e i w)"
| "serve m e (Do_Stop i) w = snd (stop_run m e i w)"
| "serve m e (Do_Kill i) w = snd (kill_run m e i w)"
| "serve m e (Do_Delete i) w = snd (request_delete m e i w)"
| "serve m e (Do_Forget i) w = snd (forget e i w)"
| "serve m e (Do_Retry i) w = snd (retry_preparation m e i w)"
| "serve m e (Do_Cleanup c) w = snd (cleanup_expired m e c w)"
| "serve m e Do_Spools w = snd (cleanup_spools e w)"
| "serve m e Do_Startup w = snd (reconcile_startup m e w)"
| "serve m e (Do_Round ob) w = snd (observer_round m e ob w)"

context rr_calculus
begin

lemma steady_serve:
  assumes "\<And>p. op = Do_Create p \<Longrightarrow> ok_id (pl_id p)" "\<And>i. op = Do_Forget i \<Longrightarrow> ok_forget i"
    "\<And>i. op = Do_Retry i \<Longrightarrow> ok_change i retry_change"
  shows "R w (serve m e op w)"
proof -
  have run: "R w (snd (p w))" if "steady p" for p :: "'x rr" using that by (simp add: steady_def)
  show ?thesis
    using assms
    by (cases op)
       (simp_all add: steady_create [unfolded steady_def] steady_prepare [unfolded steady_def] steady_upload [unfolded steady_def]
          steady_poll [unfolded steady_def] steady_reconcile [unfolded steady_def] steady_bridge [unfolded steady_def]
          steady_stop [unfolded steady_def] steady_kill [unfolded steady_def] steady_delete [unfolded steady_def]
          steady_forget [unfolded steady_def] steady_retry [unfolded steady_def] steady_cleanup [unfolded steady_def]
          steady_cleanup_spools [unfolded steady_def] steady_startup [unfolded steady_def] steady_observer [unfolded steady_def])
qed

lemma steady_all:
  assumes "\<And>p. Do_Create p \<in> set ops \<Longrightarrow> ok_id (pl_id p)" "\<And>i. Do_Forget i \<in> set ops \<Longrightarrow> ok_forget i"
    "\<And>i. Do_Retry i \<in> set ops \<Longrightarrow> ok_change i retry_change"
  shows "R w (fold (serve m e) ops w)"
  using assms
proof (induction ops arbitrary: w)
  case (Cons op ops)
  have "R w (serve m e op w)" by (rule steady_serve) (use Cons.prems in auto)
  moreover have "R (serve m e op w) (fold (serve m e) ops (serve m e op w))" by (rule Cons.IH) (use Cons.prems in auto)
  ultimately show ?case using R_trans by simp
qed (simp add: R_refl)

end

text \<open>Whatever operations run, and whatever the other threads do between their steps short of creating the run again or
  retrying it: a run that is still stored is the one that was asked for, its revision does not go back, and once it has
  ended it stays as it ended; and the database keeps its constraints.\<close>

theorem remote_runs_only_move_forward:
  assumes "store_ok (rw_store w)" and "others_forward e k"
    and "\<forall>op \<in> set ops. op \<noteq> Do_Retry k \<and> (\<forall>p. op = Do_Create p \<longrightarrow> pl_id p \<noteq> k)"
    and "get_remote_run k (rw_store (fold (serve m e) ops w)) = Some g"
  shows "store_ok (rw_store (fold (serve m e) ops w)) \<and> (\<exists>r. get_remote_run k (rw_store w) = Some r \<and> keeps_run r g)"
proof -
  have "while_unfinished k i retry_change" if "Do_Retry i \<in> set ops" for i
    using assms(3) that by (auto simp: while_unfinished_def)
  with assms(3) have "moves_on e k w (fold (serve m e) ops w)" by (intro run_rows.steady_all) blast+
  with assms(1,2,4) show ?thesis by (auto simp: moves_on_def forward_def split: option.splits)
qed

text \<open>C38: whatever operations run, a program is started on a target only for a run that the database took, in the step
  before, from preparing to starting with its outcome unknown, and whose preparation was not cancelled.\<close>

theorem start_is_recorded_first:
  assumes "position w \<le> n" "rw_log (fold (serve m e) ops w) ! n = Asked pl i c" "n < position (fold (serve m e) ops w)" "start_call c"
  shows "position w < n \<and> rw_log (fold (serve m e) ops w) ! (n - 1) = Moved i starting True \<and> \<not> re_cancel e (n - 1)"
proof -
  have "logs UNIV e w (fold (serve m e) ops w)" by (intro run_logs.steady_all) auto
  with assms show ?thesis by (auto simp: logs_def justified_def)
qed

text \<open>C39: whatever operations run, the record of a run is deleted only after the target said that its files are gone, after
  its upload was given up before a file was taken in, or when its owner told Termroom to forget it.\<close>

theorem record_outlives_the_files:
  assumes "position w \<le> n" "rw_log (fold (serve m e) ops w) ! n = Record_Deleted i" "n < position (fold (serve m e) ops w)"
  shows "Do_Forget i \<in> set ops \<or> (\<exists>j. position w \<le> j \<and> j < n \<and>
      ((\<exists>pl. rw_log (fold (serve m e) ops w) ! j = Asked pl i (Delete_Root i) \<and> re_done e j = Inr ())
       \<or> (\<exists>now. rw_log (fold (serve m e) ops w) ! j = Moved i (abandon_change now) True)))"
proof -
  have "logs {i. Do_Forget i \<in> set ops} e w (fold (serve m e) ops w)" by (intro run_logs.steady_all) auto
  with assms(1,3) have "justified {i. Do_Forget i \<in> set ops} e (rw_log (fold (serve m e) ops w)) (position w) n"
    by (simp add: logs_def)
  then show ?thesis by (simp add: justified_def assms(2))
qed

end
