(* ===== verification/Remote_Run_Ends.thy ===== *)
theory Remote_Run_Ends
  imports Remote_Run_Log
begin

text \<open>
  How a run ends when its owner wants it to: what \<open>stop\<close> and \<open>kill\<close> of \<open>RemoteRunManager\<close> answer.
\<close>

section \<open>A run that has ended\<close>

definition ended_in :: "ustr \<Rightarrow> store \<Rightarrow> bool" where
  "ended_in i s \<longleftrightarrow> (case get_remote_run i s of None \<Rightarrow> True | Some r \<Rightarrow> terminal_state (m_state r))"

lemma ended_forward: "ended_in i s \<Longrightarrow> store_ok s \<Longrightarrow> forward i s t \<Longrightarrow> ended_in i t"
  by (auto simp: ended_in_def forward_def keeps_run_def split: option.splits)
     (metis remote_run_row.select_convs(15) remote_run_row.surjective remote_run_row.update_convs(4,14,25))

definition ends_status :: "remote_status \<Rightarrow> bool" where
  "ends_status st \<longleftrightarrow> (case run_state_of (st_state st) of None \<Rightarrow> False | Some s \<Rightarrow> terminal_state s)"

text \<open>A change that ends a run from either state in which it is not over leaves it ended, whether it applied or came too late.\<close>

lemma inserted_event_rows: "insert_remote_run_event now nid h mt s = Inr s' \<Longrightarrow> remote_runs s' = remote_runs s"
  by (auto simp: insert_remote_run_event_def dest: insert_event_frame split: if_splits)

lemma unfinished_states: "states_of unfinished = Some {Preparing, Running}"
  by (simp add: unfinished_def states_of_def run_state_of_def u_eq_iff)

lemma not_unfinished: "terminal_state s \<longleftrightarrow> s \<notin> {Preparing, Running}"
  by (cases s) simp_all

lemma ending_change:
  assumes step: "transition_remote_run now nid i c s = Inr (b, s')" and exp: "rc_expected c = unfinished" "rc_expected_phase c = None"
    and st: "rc_state c = Some t" "run_state_of t = Some st" "terminal_state st"
  shows "ended_in i s'"
proof -
  let ?p = "\<lambda>m. m_id m = i \<and> m_state m \<in> {Preparing, Running} \<and> phase_matches c m"
  let ?f = "\<lambda>m. if ?p m then apply_remote_change (Some st) c m else m"
  let ?s1 = "s\<lparr>remote_runs := update_where ?p (apply_remote_change (Some st) c) (remote_runs s)\<rparr>"
  have n: "\<not> no_remote_changes c" using st(1) by (simp add: no_remote_changes_def)
  have g: "state_given (rc_state c) = Some (Some st)" by (simp add: state_given_def st)
  have "s' = ?s1 \<or> (\<exists>mt. insert_remote_run_event now nid False mt ?s1 = Inr s')"
    using step unfolding transition_remote_run_def Let_def exp(1) unfinished_states option.case g
    by (simp add: n rbind_Inr_iff del: split_paired_Ex split: if_splits option.splits) blast+
  then have "remote_runs s' = remote_runs ?s1" using inserted_event_rows by blast
  then have rows: "remote_runs s' = map ?f (remote_runs s)" by (simp add: update_where_def)
  have "terminal_state (m_state r)" if "get_remote_run i s' = Some r" for r
  proof -
    have ph: "phase_matches c m" for m by (simp add: phase_matches_def exp(2))
    from find_SomeD [OF that [unfolded get_remote_run_def]] have "r \<in> ?f ` set (remote_runs s)" and i: "m_id r = i"
      unfolding rows by (simp_all only: set_map)
    then obtain x where x: "r = ?f x" by (elim imageE)
    show ?thesis
    proof (cases "?p x")
      case True
      with x have "r = apply_remote_change (Some st) c x" by (metis (no_types, lifting))
      then show ?thesis using st(3) by (simp add: apply_remote_change_def given_def)
    next
      case False
      with x have "r = x" by (metis (no_types, lifting))
      with False i ph not_unfinished [of "m_state x"] show ?thesis by simp
    qed
  qed
  then show ?thesis by (simp add: ended_in_def split: option.split)
qed

section \<open>Along the steps of an operation\<close>

lemma sbind_Inr: "sbind p f w = (Inr y, w') \<longleftrightarrow> (\<exists>x v. p w = (Inr x, v) \<and> f x v = (Inr y, w'))"
  by (auto simp: sbind_def split: sum.splits prod.splits)

lemma validated_Inr: "sbind (validate_remote_run_id i) f w = (Inr y, w') \<longleftrightarrow> uuid4_text i \<and> f i w = (Inr y, w')"
  by (simp add: sbind_def validate_remote_run_id_def give_def fail_def)

lemma got_run:
  assumes "get_run e i w = (Inr v, w')"
  shows "get_remote_run i (rw_store (pass e Looked w)) = Some (rn_row v)" and "w' = pass e Looked (pass e Looked w)"
  using assms
  by (auto simp: get_run_def validate_remote_run_id_def look_def Let_def sbind_Inr split: if_splits option.splits)

text \<open>The database is consistent; the run has ended.\<close>

definition sound :: "rr_world \<Rightarrow> bool" where "sound w \<longleftrightarrow> store_ok (rw_store w)"
definition over :: "ustr \<Rightarrow> rr_world \<Rightarrow> bool" where "over i w \<longleftrightarrow> sound w \<and> ended_in i (rw_store w)"

lemma moves_on_sound: "others_forward e i \<Longrightarrow> moves_on e i w w' \<Longrightarrow> sound w \<Longrightarrow> sound w'"
  by (auto simp: moves_on_def sound_def forward_def)

lemma moves_on_over: "others_forward e i \<Longrightarrow> moves_on e i w w' \<Longrightarrow> over i w \<Longrightarrow> over i w'"
  by (auto simp: moves_on_def over_def sound_def intro: ended_forward) (auto simp: forward_def)

lemma passed_on: "moves_on e i w (pass e ev w)"
  by (rule moves_on_pass [OF forward_refl]) simp

lemma got_over:
  assumes "others_forward e i" "over i w" "get_run e i w = (Inr v, w')"
  shows "ended_run v"
proof -
  have "over i (pass e Looked w)" using moves_on_over [OF assms(1) passed_on assms(2)] .
  with got_run(1) [OF assms(3)] show ?thesis by (simp add: over_def ended_in_def ended_run_def)
qed

lemma moved_over:
  assumes "others_forward e i" "sound w" "move e i c w = (Inr b, w')"
    and "rc_expected c = unfinished" "rc_expected_phase c = None" "rc_state c = Some t" "run_state_of t = Some st" "terminal_state st"
  shows "over i w'"
proof -
  have "sound w'"
    using moves_on_sound [OF assms(1) run_rows.steadyD [OF run_rows.steady_moves assms(3)] assms(2)] assms(4) by blast
  moreover from assms(3) have "transition_remote_run (re_now e (position w)) (re_id e (position w)) i c (re_meanwhile e (position w) (rw_store w))
      = Inr (b, rw_store w')"
    by (auto simp: move_def Let_def split: sum.splits prod.splits)
  then have "ended_in i (rw_store w')" by (rule ending_change) (use assms in auto)
  ultimately show ?thesis by (simp add: over_def)
qed

lemma stop_change_simps [simp]:
  "rc_expected (stop_change x now code) = x" "rc_expected_phase (stop_change x now code) = None" "rc_state (stop_change x now code) = Some (u ''stopped'')"
  by (simp_all add: stop_change_def expecting_run_def)

lemma stopped_over:
  assumes "others_forward e i" "sound w" "move e i (stop_change unfinished now code) w = (Inr b, w')"
  shows "over i w'"
  by (rule moved_over [OF assms, where st = Stopped and t = "u ''stopped''"]) (simp_all add: run_state_of_def u_eq_iff)

lemma found_id: "get_remote_run i s = Some r \<Longrightarrow> m_id r = i"
  by (auto simp: get_remote_run_def find_Some_iff)

lemma applied_over:
  assumes "others_forward e i" "sound w" "get_run e i w = (Inr cur, w1)" "apply_remote_status e (rn_row cur) st w1 = (Inr x, w2)" "ends_status st"
  shows "over i w2"
proof -
  note got = got_run [OF assms(3)]
  have id: "m_id (rn_row cur) = i" by (rule found_id [OF got(1)])
  have s1: "sound (pass e Looked w)" using moves_on_sound [OF assms(1) passed_on assms(2)] .
  have sw1: "sound w1" unfolding got(2) using moves_on_sound [OF assms(1) passed_on s1] .
  obtain s where s: "run_state_of (st_state st) = Some s" "terminal_state s"
    using assms(5) by (auto simp: ends_status_def split: option.splits)
  show ?thesis
  proof (cases "terminal_state (m_state (rn_row cur))")
    case True
    with got(1) s1 have "over i (pass e Looked w)" by (simp add: over_def ended_in_def)
    from moves_on_over [OF assms(1) passed_on this] have "over i w1" by (simp add: got(2))
    moreover have "w2 = w1" using assms(4) True s by (simp add: apply_remote_status_def)
    ultimately show ?thesis by simp
  next
    case False
    from s(2) have "s \<noteq> Preparing" "s \<noteq> Running" by auto
    with assms(4) False s obtain c b w' where m: "move e i c w1 = (Inr b, w')" "w2 = w'"
      and c: "rc_expected c = unfinished" "rc_expected_phase c = None" "rc_state c = Some (st_state st)"
      by (auto simp: apply_remote_status_def id here_now_def sbind_Inr Let_def expecting_run_def)
    from moved_over [OF assms(1) sw1 m(1) c s] show ?thesis by (simp add: m(2))
  qed
qed

section \<open>Kill\<close>

lemma killed_over:
  assumes "others_forward e i" "sound w" "sbind (move e i (stop_change unfinished now code)) (\<lambda>_. get_run e i) w = (Inr v, w')"
  shows "ended_run v"
  using assms(3) got_over [OF assms(1) stopped_over [OF assms(1,2)]] by (auto simp: sbind_Inr)

lemma status_over:
  assumes "others_forward e i" "sound w"
    and "sbind (get_run e i) (\<lambda>cur. sbind (apply_remote_status e (rn_row cur) st) (\<lambda>_. get_run e i)) w = (Inr v, w')" "ends_status st"
  shows "ended_run v"
  using assms(3) got_over [OF assms(1) applied_over [OF assms(1,2) _ _ assms(4)]] by (auto simp: sbind_Inr)

lemma lost_ends: "ends_status (lost_status r now)"
  by (simp add: ends_status_def lost_status_def run_state_of_def u_eq_iff)

text \<open>What is noted in the log stays there.\<close>

lemma noted:
  assumes "logs UNIV e w w'" "n < position w"
  shows "n < position w' \<and> rw_log w' ! n = rw_log w ! n"
  using assms by (auto simp: logs_def position_def nth_append)

text \<open>The target said that the run had ended by itself, and then gave a state that is no end.\<close>

definition contradicted :: "rr_env \<Rightarrow> ustr \<Rightarrow> rr_world \<Rightarrow> rr_world \<Rightarrow> bool" where
  "contradicted e i w w' \<longleftrightarrow> (\<exists>n pl st. position w \<le> n \<and> n < position w' \<and> rw_log w' ! n = Asked pl i (Reconcile_Run i)
     \<and> re_status e n = Inr st \<and> \<not> ends_status st)"

definition told_to_stop :: "rr_env \<Rightarrow> ustr \<Rightarrow> rr_world \<Rightarrow> rr_world \<Rightarrow> bool" where
  "told_to_stop e i w w' \<longleftrightarrow> (\<exists>n. position w \<le> n \<and> n < position w' \<and> rw_log w' ! n = Cancel_Set i \<and> re_live e n)"

lemma reconciled_over:
  assumes "others_forward e i" "sound w" "apply_reconciled m e v w = (Inr v', w')" "m_id (rn_row v) = i"
  shows "ended_run v' \<or> contradicted e i w w'"
proof -
  from assms(3,4) obtain st w1 where st: "target_status m e v w = (Inr st, w1)"
    and rest: "sbind (get_run e i) (\<lambda>cur. sbind (apply_remote_status e (rn_row cur) st) (\<lambda>_. get_run e i)) w1 = (Inr v', w')"
    by (auto simp: apply_reconciled_def Let_def sbind_Inr)
  have s1: "sound w1" using moves_on_sound [OF assms(1) run_rows.steadyD [OF run_rows.steady_target_status st] assms(2)] .
  from st assms(4) obtain pl where pl: "re_status e (position w) = Inr st" "w1 = pass e (Asked pl i (Reconcile_Run i)) w"
    by (auto simp: target_status_def sbind_Inr target_backend_def ask_target_def give_def split: if_splits)
  have "run_logs.steady UNIV e (sbind (get_run e i) (\<lambda>cur. sbind (apply_remote_status e (rn_row cur) st) (\<lambda>_. get_run e i)))"
    by (intro run_logs.steps run_logs.steady_get_run run_logs.steady_status)
  from run_logs.steadyD [OF this rest] have "logs UNIV e w1 w'" .
  from noted [OF this, of "position w"] have "position w < position w' \<and> rw_log w' ! position w = Asked pl i (Reconcile_Run i)"
    by (simp add: pl(2) position_def)
  with pl(1) status_over [OF assms(1) s1 rest] show ?thesis by (auto simp: contradicted_def)
qed

lemma sound_logs:
  assumes "others_forward e i" "sound w" "p w = (r, w')" "run_rows.steady e i p" "run_logs.steady UNIV e p"
  shows "sound w' \<and> logs UNIV e w w'"
  using moves_on_sound [OF assms(1) run_rows.steadyD [OF assms(4,3)] assms(2)] run_logs.steadyD [OF assms(5,3)] by simp

lemma backend_asked:
  assumes "sbind (target_backend m c) f w = (Inr x, w')"
  obtains pl where "f pl w = (Inr x, w')"
  using assms by (auto simp: sbind_Inr target_backend_def split: if_splits)

lemma kill_on_target_over:
  assumes of: "others_forward e i" and s: "sound w" and run: "kill_on_target m e v False now w = (Inr v', w')" and i: "m_id (rn_row v) = i"
  shows "ended_run v' \<or> contradicted e i w w'"
proof -
  let ?rec = "\<lambda>code. sbind (move e i (stop_change unfinished now code)) (\<lambda>_. get_run e i)"
  have given_up: "fail x w = (Inr v', w') \<longleftrightarrow> False" for x :: rr_exn and w by (simp add: fail_def)
  from run obtain pl answer w1 where asked: "catch (\<lambda>x. rx_class x = Layout_Error)
      (sbind (ask_target e pl i (Kill_Target i) (re_control e)) (\<lambda>a. give (Some a))) (\<lambda>_. give None) w = (Inr answer, w1)"
    and given: "(case answer of None \<Rightarrow> if False \<and> m_state (rn_row v) = Preparing then get_run e i
           else fail (unverifiable ''Remote Run files cannot be verified safely'')
       | Some a \<Rightarrow> if ca_completed a then apply_reconciled m e v
           else if \<not> ca_layout_missing a then ?rec ''killed'' else if ca_done a then ?rec ''killed''
           else if m_state (rn_row v) = Running \<and> \<not> ca_tmux_running a
           then sbind (get_run e i) (\<lambda>current. sbind (apply_remote_status e (rn_row current) (lost_status (rn_row v) now)) (\<lambda>_. get_run e i))
           else if m_state (rn_row v) \<noteq> Preparing \<or> ca_tmux_exists a
           then fail (unverifiable ''Remote Run files are missing while its session cannot be verified'')
           else if False then get_run e i else ?rec ''cancelled'') w1 = (Inr v', w')"
    unfolding kill_on_target_def Let_def i by (elim backend_asked) (subst (asm) sbind_Inr, blast)
  from given obtain a where a: "answer = Some a" by (cases answer) (simp_all add: given_up)
  from given [unfolded a option.case if_False] have rest: "(if ca_completed a then apply_reconciled m e v
         else if \<not> ca_layout_missing a then ?rec ''killed'' else if ca_done a then ?rec ''killed''
         else if m_state (rn_row v) = Running \<and> \<not> ca_tmux_running a
         then sbind (get_run e i) (\<lambda>current. sbind (apply_remote_status e (rn_row current) (lost_status (rn_row v) now)) (\<lambda>_. get_run e i))
         else if m_state (rn_row v) \<noteq> Preparing \<or> ca_tmux_exists a
         then fail (unverifiable ''Remote Run files are missing while its session cannot be verified'')
         else ?rec ''cancelled'') w1 = (Inr v', w')"
    .
  let ?ask = "catch (\<lambda>x. rx_class x = Layout_Error) (sbind (ask_target e pl i (Kill_Target i) (re_control e)) (\<lambda>a. give (Some a))) (\<lambda>_. give None)"
  have "run_rows.steady e i ?ask" "run_logs.steady UNIV e ?ask"
    by (intro run_rows.steps; simp) (intro run_logs.steps; simp)
  then have "sound w1 \<and> logs UNIV e w w1" using sound_logs [OF of s, of ?ask] asked by blast
  then have s1: "sound w1" and n: "position w \<le> position w1" by (auto simp: logs_def position_def)
  from n have "contradicted e i w1 w' \<Longrightarrow> contradicted e i w w'" unfolding contradicted_def by (meson le_trans)
  with rest show ?thesis
    using reconciled_over [OF of s1 _ i] killed_over [OF of s1] status_over [OF of s1 _ lost_ends]
    by (auto split: if_splits)
qed

text \<open>C40: a kill that returns leaves the run ended, unless its preparation was still alive and has been told to stop, or the
  target first said that the program had ended by itself and then gave a state that is no end.\<close>

theorem kill_ends_the_remote_run:
  assumes ok: "store_ok (rw_store w)" and of: "others_forward e i" and run: "kill_run m e i w = (Inr v, w')"
  shows "ended_run v \<or> told_to_stop e i w w' \<or> contradicted e i w w'"
proof -
  from run obtain v0 w1 where got: "get_run e i w = (Inr v0, w1)"
    and after: "(if ended_run v0 then give v0 else sbind (cancel_preparation e i) (\<lambda>live. sbind (here_now (re_now e)) (\<lambda>now.
      sbind (request_stop e i (case m_stop (rn_row v0) of None \<Rightarrow> now | Some t \<Rightarrow> t)) (\<lambda>_. kill_on_target m e v0 live now)))) w1 = (Inr v, w')"
    unfolding kill_run_def validated_Inr sbind_Inr [of "get_run e i"] by blast
  then have rest: "ended_run v0 \<and> v = v0 \<or> (\<exists>live w2 now t w3. cancel_preparation e i w1 = (Inr live, w2)
      \<and> request_stop e i t w2 = (Inr (), w3) \<and> kill_on_target m e v0 live now w3 = (Inr v, w'))"
    by (cases "ended_run v0") (simp_all add: sbind_Inr here_now_def give_def, blast)
  have s: "sound w" using ok by (simp add: sound_def)
  have 1: "sound w1 \<and> logs UNIV e w w1" by (rule sound_logs [OF of s got run_rows.steady_get_run run_logs.steady_get_run])
  from rest show ?thesis
  proof (elim disjE exE conjE)
    fix live w2 now t w3
    assume c: "cancel_preparation e i w1 = (Inr live, w2)" and q: "request_stop e i t w2 = (Inr (), w3)"
      and k: "kill_on_target m e v0 live now w3 = (Inr v, w')"
    have 2: "sound w2 \<and> logs UNIV e w1 w2" by (rule sound_logs [OF of _ c run_rows.steady_control(2) run_logs.steady_control(2)]) (simp add: 1)
    have 3: "sound w3 \<and> logs UNIV e w2 w3" by (rule sound_logs [OF of _ q run_rows.steady_control(1) run_logs.steady_control(1)]) (simp add: 2)
    have 4: "logs UNIV e w3 w'" by (rule run_logs.steadyD [OF run_logs.steady_kill_on_target k])
    note all = logs_trans [OF logs_trans [OF conjunct2 [OF 1] conjunct2 [OF 2]] conjunct2 [OF 3]]
    show ?thesis
    proof (cases live)
      case True
      with c have "re_live e (position w1)" "rw_log w2 = rw_log w1 @ [Cancel_Set i]"
        by (auto simp: cancel_preparation_def sbind_Inr here_now_def local_step_def split: if_splits)
      with noted [OF logs_trans [OF conjunct2 [OF 3] 4], of "position w1"] 1 have "told_to_stop e i w w'"
        by (auto simp: told_to_stop_def logs_def position_def intro!: exI [of _ "length (rw_log w1)"])
      then show ?thesis by simp
    next
      case False
      have "position w \<le> position w3" using all by (auto simp: logs_def position_def)
      then have "contradicted e i w3 w' \<Longrightarrow> contradicted e i w w'" unfolding contradicted_def by (meson le_trans)
      moreover from False k have "kill_on_target m e v0 False now w3 = (Inr v, w')" by simp
      ultimately show ?thesis
        using kill_on_target_over [OF of conjunct1 [OF 3] _ found_id [OF got_run(1) [OF got]]] by blast
    qed
  qed simp
qed

section \<open>Stop\<close>

text \<open>Giving up a run that waits for its upload.\<close>

definition withdraw :: "stamp \<Rightarrow> remote_change" where
  "withdraw now = (stop_change preparing now ''cancelled'')\<lparr>rc_expected_phase := Some (Some (u ''waiting_upload''))\<rparr>"

lemma withdrawn_over:
  assumes "others_forward e i" "sound w" "move e i (withdraw now) w = (Inr True, w')"
  shows "over i w'"
proof -
  have exp: "rc_expected (withdraw now) = preparing" by (simp add: withdraw_def)
  have s: "sound w'"
    using moves_on_sound [OF assms(1) run_rows.steadyD [OF run_rows.steady_moves assms(3)] assms(2)] exp by blast
  let ?t = "re_meanwhile e (position w) (rw_store w)"
  have step: "transition_remote_run (re_now e (position w)) (re_id e (position w)) i (withdraw now) ?t = Inr (True, rw_store w')"
    using assms(3) by (auto simp: move_def Let_def split: sum.splits prod.splits)
  have "store_ok ?t" using moves_on_sound [OF assms(1) passed_on assms(2)] by (simp add: sound_def)
  with step have "ended_in i (rw_store w')"
  proof (cases rule: transition_remote_run_cases)
    case (won E st r name s1)
    have "remote_runs (rw_store w') = remote_runs s1" using ending_frame [OF won(7)] by simp
    then have rows: "remote_runs (rw_store w') = map (\<lambda>x. if m_id x = i then apply_remote_change st (withdraw now) x else x) (remote_runs ?t)"
      by (simp add: won(5) update_where_def)
    have st: "st = Some Stopped"
      using won(8) by (simp add: state_given_def withdraw_def run_state_of_def u_eq_iff)
    have "m_state x = Stopped" if "get_remote_run i (rw_store w') = Some x" for x
    proof -
      from find_SomeD [OF that [unfolded get_remote_run_def]] rows obtain y
        where "x = (if m_id y = i then apply_remote_change st (withdraw now) y else y)" "m_id x = i" by (auto simp only: set_map)
      then show ?thesis by (auto simp: st apply_remote_change_def given_def split: if_splits)
    qed
    then show ?thesis by (simp add: ended_in_def split: option.split)
  qed simp
  with s show ?thesis by (simp add: over_def)
qed

lemma answered_over:
  assumes "others_forward e i" "over i w" "answer_stop e i b1 b2 b3 w = (Inr a, w')"
  shows "ended_run (so_run a)"
  using assms(3) got_over [OF assms(1,2)] by (auto simp: answer_stop_def sbind_Inr give_def)

lemma answered: "answer_stop e i b1 b2 b3 w = (Inr a, w') \<Longrightarrow> so_stopped a = b1"
  by (auto simp: answer_stop_def sbind_Inr give_def)

lemma without_layout_over:
  assumes of: "others_forward e i" and s: "sound w" and run: "stop_without_layout e v live now x w = (Inr a, w')" "so_stopped a"
    and i: "m_id (rn_row v) = i"
  shows "ended_run (so_run a)"
proof -
  have lost: "ended_run (so_run a)" if "sbind (get_run e i) (\<lambda>cur. sbind (apply_remote_status e (rn_row cur) (lost_status (rn_row v) now))
      (\<lambda>_. answer_stop e i True False False)) w = (Inr a, w')"
    using that answered_over [OF of applied_over [OF of s _ _ lost_ends]] by (auto simp: sbind_Inr)
  have gone: "ended_run (so_run a)" if "sbind (move e i (stop_change unfinished now ''cancelled'')) (\<lambda>_. answer_stop e i True False False) w = (Inr a, w')"
    using that answered_over [OF of stopped_over [OF of s]] by (auto simp: sbind_Inr)
  from run lost gone show ?thesis
    by (auto simp: stop_without_layout_def Let_def i fail_def dest: answered split: if_splits)
qed

lemma stop_on_target_over:
  assumes of: "others_forward e i" and s: "sound w" and run: "stop_on_target m e v live now w = (Inr a, w')" "so_stopped a"
    and i: "m_id (rn_row v) = i"
  shows "ended_run (so_run a)"
proof -
  let ?ask = "\<lambda>pl. catch (\<lambda>x. rx_class x = Layout_Error) (sbind (ask_target e pl i (Interrupt_Target i) (re_control e)) (\<lambda>a. give (Some a))) (\<lambda>_. give None)"
  from run(1) obtain pl answer w1 where asked: "?ask pl w = (Inr answer, w1)"
    and given: "(case answer of None \<Rightarrow> if live \<and> m_state (rn_row v) = Preparing then answer_stop e i False False True
           else fail (unverifiable ''Remote Run files cannot be verified safely'')
       | Some x \<Rightarrow> if ca_completed x then reconciled_stop m e v else if ca_layout_missing x then stop_without_layout e v live now x
           else if ca_done x then answer_stop e i False True False else if live then answer_stop e i False False True
           else reconciled_stop m e v) w1 = (Inr a, w')"
    unfolding stop_on_target_def Let_def i by (elim backend_asked) (subst (asm) sbind_Inr, blast)
  have "run_rows.steady e i (?ask pl)" "run_logs.steady UNIV e (?ask pl)"
    by (intro run_rows.steps; simp) (intro run_logs.steps; simp)
  with sound_logs [OF of s, of "?ask pl"] asked have s1: "sound w1" by blast
  have "reconciled_stop m e v w1 = (Inr a, w') \<Longrightarrow> so_stopped a = ended_run (so_run a)"
    by (auto simp: reconciled_stop_def sbind_Inr give_def)
  with given run(2) without_layout_over [OF of s1 _ run(2) i] show ?thesis
    by (auto simp: fail_def dest: answered split: option.splits if_splits)
qed

text \<open>When a stop answers that the run is stopped, the run has ended; except that the run waited for its upload and was
  taken over by an upload in between, which the answer does not say.\<close>

theorem stop_answers_truly:
  assumes ok: "store_ok (rw_store w)" and of: "others_forward e i" and run: "stop_run m e i w = (Inr a, w')" "so_stopped a"
  shows "ended_run (so_run a) \<or> (\<exists>n now. position w \<le> n \<and> n < position w' \<and> rw_log w' ! n = Moved i (withdraw now) False)"
proof -
  have s: "sound w" using ok by (simp add: sound_def)
  from run(1) obtain v w1 where got: "get_run e i w = (Inr v, w1)"
    and after: "(if ended_run v then give \<lparr>so_stopped = True, so_kill = False, so_pending = False, so_run = v\<rparr> else
      sbind (here_now (re_now e)) (\<lambda>now. sbind (request_stop e i now) (\<lambda>_. sbind (cancel_preparation e i) (\<lambda>live.
        if m_state (rn_row v) = Preparing \<and> m_phase (rn_row v) = Some (u ''waiting_upload'')
        then sbind (move e i (withdraw now)) (\<lambda>_. answer_stop e i True False False) else stop_on_target m e v live now)))) w1 = (Inr a, w')"
    unfolding stop_run_def validated_Inr sbind_Inr [of "get_run e i"] withdraw_def by blast
  have 1: "sound w1 \<and> logs UNIV e w w1" by (rule sound_logs [OF of s got run_rows.steady_get_run run_logs.steady_get_run])
  show ?thesis
  proof (cases "ended_run v")
    case True
    with after show ?thesis by (auto simp: give_def)
  next
    case False
    with after obtain now w2 live w3 where q: "request_stop e i now w1 = (Inr (), w2)" and c: "cancel_preparation e i w2 = (Inr live, w3)"
      and rest: "(if m_state (rn_row v) = Preparing \<and> m_phase (rn_row v) = Some (u ''waiting_upload'')
        then sbind (move e i (withdraw now)) (\<lambda>_. answer_stop e i True False False) else stop_on_target m e v live now) w3 = (Inr a, w')"
      by (auto simp: sbind_Inr here_now_def)
    have 2: "sound w2 \<and> logs UNIV e w1 w2" by (rule sound_logs [OF of _ q run_rows.steady_control(1) run_logs.steady_control(1)]) (simp add: 1)
    have 3: "sound w3 \<and> logs UNIV e w2 w3" by (rule sound_logs [OF of _ c run_rows.steady_control(2) run_logs.steady_control(2)]) (simp add: 2)
    show ?thesis
    proof (cases "m_state (rn_row v) = Preparing \<and> m_phase (rn_row v) = Some (u ''waiting_upload'')")
      case True
      with rest obtain b w4 where m: "move e i (withdraw now) w3 = (Inr b, w4)" and ans: "answer_stop e i True False False w4 = (Inr a, w')"
        by (auto simp: sbind_Inr)
      show ?thesis
      proof (cases b)
        case True
        then show ?thesis using answered_over [OF of withdrawn_over [OF of conjunct1 [OF 3]] ans] m by simp
      next
        case False
        with m have "rw_log w4 = rw_log w3 @ [Moved i (withdraw now) False]"
          by (auto simp: move_def Let_def split: sum.splits prod.splits)
        moreover have "logs UNIV e w4 w'" by (rule run_logs.steadyD [OF run_logs.steady_control(3) ans])
        moreover have "logs UNIV e w w3" using 1 2 3 logs_trans by blast
        ultimately show ?thesis using noted [of e w4 w' "position w3"]
          by (auto simp: position_def logs_def intro!: exI [of _ "length (rw_log w3)"])
      qed
    next
      case False
      with rest have "stop_on_target m e v live now w3 = (Inr a, w')" by simp
      from stop_on_target_over [OF of conjunct1 [OF 3] this run(2) found_id [OF got_run(1) [OF got]]] show ?thesis by simp
    qed
  qed
qed

end
