(* ===== verification/Collection_Laws.thy ===== *)
theory Collection_Laws
  imports Collection_Baseline Source_Properties Json_Laws
begin

text \<open>
  The baseline of a collection survives its file: what is written is read back, entry by entry.
\<close>

section \<open>Sorted objects\<close>

lemma distinct_sorted_keys: "distinct (map fst (sort_key f es)) \<longleftrightarrow> distinct (map fst es)"
  by (simp add: distinct_map)

lemma map_of_sorted: "distinct (map fst es) \<Longrightarrow> map_of (sort_key f es) = map_of es"
  by (simp add: map_of_inject_set distinct_sorted_keys)

lemma second_keys [simp]: "map fst (map (\<lambda>(k, j). (k, g j)) es) = map fst es"
  by (induction es) auto

lemma map_of_second: "map_of (map (\<lambda>(k, j). (k, g j)) es) k = map_option g (map_of es k)"
  by (induction es) auto

lemma field_sorted:
  assumes "distinct (map fst es)"
  shows "\<exists>fs. sort_keys (JObj es) = JObj fs \<and> distinct (map fst fs) \<and> (\<forall>k. field k fs = sort_keys (field k es))"
  using assms
  by (auto simp: distinct_sorted_keys field_def map_of_sorted map_of_second simp del: map_map split: option.split
      intro!: exI [of _ "sort_key fst (map (\<lambda>(k, j). (k, sort_keys j)) es)"])

lemma sorted_ok: "json_ok shown read d j \<Longrightarrow> json_ok shown read d (sort_keys j)"
proof (induction shown read d j rule: json_ok.induct)
  case (3 shown read d js)
  then show ?case by (auto simp: list_all_iff)
next
  case (4 shown read d es)
  then show ?case by (auto simp: list_all_iff distinct_sorted_keys simp del: map_map)
qed simp_all

section \<open>Entries\<close>

lemma distinct_members: "distinct (map fst (entry_members e))"
  by (cases "we_digest e"; cases "we_target e") (auto simp: entry_members_def u_eq_iff)

lemma member_fields:
  "field (u ''path'') (entry_members e) = JStr (we_path e)" "field (u ''kind'') (entry_members e) = JStr (kind_text (we_kind e))"
  "field (u ''size'') (entry_members e) = JInt (we_size e)" "field (u ''mtime_ns'') (entry_members e) = JInt (we_mtime e)"
  "field (u ''executable'') (entry_members e) = JBool (we_executable e)"
  "field (u ''digest'') (entry_members e) = (case we_digest e of None \<Rightarrow> JNull | Some d \<Rightarrow> JStr d)"
  "we_target e \<noteq> Some [] \<Longrightarrow> field (u ''link_target'') (entry_members e) = (case we_target e of None \<Rightarrow> JNull | Some t \<Rightarrow> JStr t)"
  by (cases "we_digest e"; cases "we_target e"; auto simp: entry_members_def field_def u_eq_iff)+

text \<open>An entry as a manifest has it.\<close>

definition storable :: "workspace_entry \<Rightarrow> bool" where
  "storable e \<longleftrightarrow> we_kind e \<in> {File_Kind, Directory_Kind, Symlink_Kind} \<and> we_target e \<noteq> Some []
     \<and> short_int (we_size e) \<and> short_int (we_mtime e)"

lemma kind_round_trip: "k \<in> {File_Kind, Directory_Kind, Symlink_Kind} \<Longrightarrow> kind_of_text (kind_text k) = k"
  by (auto simp: kind_of_text_def kind_text_def u_eq_iff)

lemma read_int: "int_or_zero r (JInt i) = Inr i"
  by (simp add: int_or_zero_def falsy_def)

lemma read_text: "text_or_empty r (JStr s) = s" "optional_text r (JStr s) = Some s" "optional_text r JNull = None"
  by (simp_all add: text_or_empty_def falsy_def text_of_def optional_text_def)

lemma entry_round_trip:
  assumes "storable e"
  shows "entry_of_json r (sort_keys (entry_json e)) = Inr e"
proof -
  from field_sorted [OF distinct_members [of e]] obtain fs where fs: "sort_keys (entry_json e) = JObj fs"
    and f: "\<And>k. field k fs = sort_keys (field k (entry_members e))" unfolding entry_json_def by blast
  from assms have t: "we_target e \<noteq> Some []" by (simp add: storable_def)
  show ?thesis using assms
    by (cases "we_digest e"; cases "we_target e")
       (simp_all add: fs entry_of_json_def f member_fields t read_int read_text kind_round_trip storable_def)
qed

lemma traverse_map: "traverse f (map g xs) = traverse (\<lambda>x. f (g x)) xs"
  by (induction xs) simp_all

lemma entry_ok:
  assumes "storable e" and "0 < d"
  shows "json_ok shown read d (entry_json e)"
proof -
  have "list_all (\<lambda>x. json_ok shown read (d - 1) (snd x)) (entry_members e)"
    using assms by (auto simp: entry_members_def storable_def split: option.split)
  then show ?thesis using assms(2) distinct_members by (simp add: entry_json_def)
qed

lemma version_ok: "short_int 2"
  by simp

section \<open>The file\<close>

lemma built_storable:
  assumes "build_workspace_manifest alpha casefold entries excluded = Inr m" and "folds_digests casefold"
    and e: "e \<in> set (wm_entries m)"
  shows "we_kind e \<in> {File_Kind, Directory_Kind, Symlink_Kind} \<and> we_target e \<noteq> Some []"
proof -
  from assms(1) obtain es where "each (add_entry alpha casefold) entries [] = Inr es" and m: "set (wm_entries m) = set es"
    by (auto simp: build_workspace_manifest_def rbind_Inr_iff Let_def split: if_splits)
  then have "canonical alpha casefold e" using add_entries_manifest [OF _ assms(2)] e by (auto simp: manifest_of_def)
  then show ?thesis
    by (auto simp: canonical_def canonical_entry_def rbind_Inr_iff Let_def validate_contained_symlink_target_def split: if_splits option.splits)
qed

text \<open>The baseline written for a Source manifest whose files all have digests is read back as that manifest.\<close>

theorem baseline_round_trip:
  assumes built: "build_workspace_manifest (jr_alpha r) (jr_casefold r) entries excluded = Inr m"
    and folds: "folds_digests (jr_casefold r)" and depth: "3 \<le> jr_depth r"
    and digests: "\<forall>e \<in> set (wm_entries m). we_kind e = File_Kind \<longrightarrow> we_digest e \<noteq> None"
    and short: "\<forall>e \<in> set (wm_entries m). short_int (we_size e) \<and> short_int (we_mtime e)"
    and written: "baseline_bytes r m = Some b"
  shows "collection_manifest r (Some b) = Inr (Some m)"
proof -
  let ?j = "baseline_json m"
  have st: "storable e" if "e \<in> set (wm_entries m)" for e
    using built_storable [OF built folds that] short that by (simp add: storable_def)
  have "json_ok (jr_shown r) (jr_read r) (jr_depth r) ?j"
    using depth st by (auto simp: baseline_json_def u_eq_iff list_all_iff entry_ok version_ok)
  then have ok: "json_ok (jr_shown r) (jr_read r) (jr_depth r) (sort_keys ?j)" by (rule sorted_ok)
  have decoded: "utf8_decode True b = Some (canonical_json r ?j @ [10])"
    using written by (auto simp: baseline_bytes_def utf8_encode_def utf8_decode_iff split: if_splits)
  obtain es where es: "?j = JObj es" by (simp add: baseline_json_def)
  then have "distinct (map fst es)" by (auto simp: baseline_json_def u_eq_iff)
  from field_sorted [OF this] obtain fs where fs: "sort_keys ?j = JObj fs"
    and f: "\<And>k. field k fs = sort_keys (field k es)" using es by auto
  have fields: "field (u ''version'') fs = JInt 2"
    "field (u ''entries'') fs = JArr (map (\<lambda>e. sort_keys (entry_json e)) (wm_entries m))"
    "field (u ''excluded_prefixes'') fs = JArr (map JStr (wm_excluded m))"
    unfolding f using es by (auto simp: baseline_json_def field_def u_eq_iff)
  have entries: "traverse (entry_of_json r) (map (\<lambda>e. sort_keys (entry_json e)) (wm_entries m)) = Inr (wm_entries m)"
    unfolding traverse_map using st entry_round_trip by (intro traverse_same) blast
  have prefixes: "prefix_texts (JArr (map JStr (wm_excluded m))) = Inr (wm_excluded m)"
    by (simp add: prefix_texts_def traverse_map traverse_same)
  have "parse_baseline r (JObj fs) = Inr (Some m)"
    using manifest_is_canonical [OF folds built] digests
    by (auto simp: parse_baseline_def fields number_of_def entries prefixes list_ex_iff)
  then show ?thesis
    using loads_dumps_line [OF ok] by (simp add: collection_manifest_def decoded canonical_json_def fs del: dumps.simps)
qed

definition sample_rules :: json_rules where
  "sample_rules = \<lparr>jr_alpha = ascii_letter, jr_casefold = id, jr_decimal = (\<lambda>_. None), jr_shown = (\<lambda>_. []), jr_read = (\<lambda>_. 0),
     jr_depth = 10, jr_str = (\<lambda>_. []), jr_exact = (\<lambda>_. None), jr_trunc = (\<lambda>_. Inl True)\<rparr>"

lemma copied_file_built: "\<exists>entries excluded. build_workspace_manifest ascii_letter id entries excluded = Inr copied_file"
  using copied_file_result by (auto simp: materialize_workspace_snapshot_def rbind_Inr_iff split: if_splits)

lemma copied_file_text: "\<exists>b. baseline_bytes sample_rules copied_file = Some b"
proof -
  have "list_all scalar (canonical_json sample_rules (baseline_json copied_file) @ [10])"
    by (simp add: canonical_json_def baseline_json_def copied_file_def entry_json_def entry_members_def plain_entry_def zeros_def
        kind_text_def u_def)
       (simp add: dump_string_def dump_char_def quote_def backslash_def scalar_def is_surrogate_def py_str_int_def
        nat_digits_cases u_def list_all_iff)
  then show ?thesis by (simp add: baseline_bytes_def utf8_encode_def)
qed

theorem baseline_witness:
  "\<exists>b. baseline_bytes sample_rules copied_file = Some b \<and> collection_manifest sample_rules (Some b) = Inr (Some copied_file)"
proof -
  obtain entries excluded b where built: "build_workspace_manifest ascii_letter id entries excluded = Inr copied_file"
    and b: "baseline_bytes sample_rules copied_file = Some b" using copied_file_built copied_file_text by blast
  have "\<bar>i\<bar> < 10 \<Longrightarrow> short_int i" for i
  proof -
    have "(10::int) ^ 1 \<le> 10 ^ max_str_digits" using max_digits_pos by (intro power_increasing) simp_all
    then show "\<bar>i\<bar> < 10 \<Longrightarrow> short_int i" by (simp add: short_int_def)
  qed
  then have "collection_manifest sample_rules (Some b) = Inr (Some copied_file)"
    using baseline_round_trip [of sample_rules entries excluded copied_file b] built b
    by (simp add: sample_rules_def folds_digests_def copied_file_def plain_entry_def)
  with b show ?thesis by blast
qed

end
