(* ===== verification/Remote_Run_Copy.thy ===== *)
theory Remote_Run_Copy
  imports Remote_Run_Ends Collection_Laws
begin

text \<open>
  What reaches a target: the ZIP that was uploaded, and the copy of a Workspace with the baseline that is kept of it.
\<close>

section \<open>Taking in a ZIP\<close>

lemma received:
  assumes "receive limit got cs broken = Inr b"
  shows "broken = None \<and> b = got @ concat cs \<and> (cs = [] \<or> int (length b) \<le> limit)"
  using assms
proof (induction cs arbitrary: got)
  case (Cons c cs)
  then have "receive limit (got @ c) cs broken = Inr b" "int (length (got @ c)) \<le> limit" by (auto split: if_splits)
  with Cons.IH [OF this(1)] show ?case by auto
qed (simp split: option.splits)

definition sidecar_of :: "ustr \<Rightarrow> ustr \<Rightarrow> stamp \<Rightarrow> bytes \<Rightarrow> sidecar" where
  "sidecar_of i name t b = \<lparr>sc_run = i, sc_filename = name, sc_uploaded = t, sc_expires = t + retention, sc_size = int (length b)\<rparr>"

definition taken_in :: "ustr \<Rightarrow> stamp \<Rightarrow> bytes \<Rightarrow> remote_change" where
  "taken_in i t b = (uploading_states (u ''uploading''))\<lparr>rc_phase := Some (Some (u ''checking'')), rc_expires := Some None,
     rc_source_size := Some (Some (int (length b)))\<rparr>"

lemma passed_files [simp]: "rw_spool (pass e ev w) = rw_spool w" "rw_baseline (pass e ev w) = rw_baseline w"
  by (simp_all add: pass_def)

lemma got_files: "get_run e i w = (Inr v, w') \<Longrightarrow> rw_spool w' = rw_spool w"
  using got_run(2) by (metis passed_files(1))

lemma moved_files:
  assumes "move e i c w = (Inr b, w')"
  shows "rw_spool w' = rw_spool w" "rw_baseline w' = rw_baseline w" "rw_log w' = rw_log w @ [Moved i c b]"
  using assms by (auto simp: move_def Let_def split: sum.splits prod.splits)

lemma written_spool:
  assumes "write_spool m e i name cs broken w = (Inr (b, t), w')"
  shows "b = concat cs \<and> broken = None \<and> int (length b) \<le> max 0 (rm_max m)
    \<and> rw_spool w' = (rw_spool w)(i := \<lparr>sp_archive = Some b, sp_sidecar = Some (Some (sidecar_of i name t b)), sp_part = None\<rparr>)"
proof -
  from assms have r: "receive (rm_max m) [] cs broken = Inr b"
    and s: "rw_spool w' = (rw_spool w)(i := \<lparr>sp_archive = Some b, sp_sidecar = Some (Some (sidecar_of i name t b)), sp_part = None\<rparr>)"
    by (auto simp: write_spool_def sbind_Inr here_now_def local_step_def lift_def give_def sidecar_of_def split: if_splits)
  from received [OF r] s show ?thesis by auto
qed

lemma lifted_Inr: "sbind (lift r) f w = (Inr y, w') \<longleftrightarrow> (\<exists>x. r = Inr x \<and> f x w = (Inr y, w'))"
  by (auto simp: sbind_Inr lift_def)

lemma guarded: "(if b then fail x else p) w = (Inr y, w') \<longleftrightarrow> \<not> b \<and> p w = (Inr y, w')"
  by (simp add: fail_def)

text \<open>An upload that succeeds either found the run already being prepared and left the spool alone, or the spool holds,
  for this run only, exactly the bytes that were sent, not more than the limit, with a sidecar that gives their number;
  and only then did the database take the run on from uploading to checking.\<close>

theorem upload_takes_in_what_was_sent:
  assumes "upload_archive m e i f cs broken n w = (Inr v, w')"
  shows "rw_spool w' = rw_spool w \<and> m_phase (rn_row v) \<in> Some ` {u ''checking'', u ''copying'', u ''starting''}
    \<or> broken = None \<and> int (length (concat cs)) \<le> max 0 (rm_max m)
      \<and> (\<exists>name t. rw_spool w' = (rw_spool w)(i := \<lparr>sp_archive = Some (concat cs),
            sp_sidecar = Some (Some (sidecar_of i name t (concat cs))), sp_part = None\<rparr>)
          \<and> (\<exists>k. position w \<le> k \<and> k < position w' \<and> rw_log w' ! k = Moved i (taken_in i t (concat cs)) True))"
proof -
  let ?taken = "\<lambda>moved name. if \<not> moved then sbind (get_run e i) (\<lambda>current.
                 if m_phase (rn_row current) \<in> Some ` {u ''checking'', u ''copying'', u ''starting''} then give current
                 else fail (run_conflict ''upload_conflict'' ''ZIP upload is already active or finished''))
       else catch (\<lambda>_. True) (sbind (write_spool m e i name cs broken) (\<lambda>(received, uploaded). finish_upload e i received uploaded))
                 (give_up_upload e i)"
  from assms obtain v0 w1 c name w2 moved where got: "get_run e i w = (Inr v0, w1)" and mv: "move e i c w1 = (Inr moved, w2)"
    and after: "?taken moved name w2 = (Inr v, w')"
    unfolding upload_archive_def validated_Inr sbind_Inr [of "get_run e i"] guarded lifted_Inr sbind_Inr [of "move _ _ _"]
    by blast
  have same: "rw_spool w2 = rw_spool w" using got_files [OF got] moved_files(1) [OF mv] by simp
  show ?thesis
  proof (cases moved)
    case False
    with after have "get_run e i w2 = (Inr v, w')" "m_phase (rn_row v) \<in> Some ` {u ''checking'', u ''copying'', u ''starting''}"
      by (auto simp: sbind_Inr give_def fail_def split: if_splits)
    with got_files same show ?thesis by metis
  next
    case True
    have "give_up_upload e i x v1 \<noteq> (Inr v, w')" for x v1
      by (auto simp: give_up_upload_def sbind_Inr fail_def)
    with after True obtain b t w3 where ws: "write_spool m e i name cs broken w2 = (Inr (b, t), w3)" and fin: "finish_upload e i b t w3 = (Inr v, w')"
      by (auto simp: catch_def sbind_Inr split: sum.splits prod.splits)
    from fin obtain w4 w5 where m: "move e i (taken_in i t b) w3 = (Inr True, w4)"
      and end': "sbind (local_step e (Spool_Timer i (t + retention)) id) (\<lambda>_. sbind (schedule e i) (\<lambda>_. get_run e i)) w4 = (Inr v, w')"
      by (auto simp: finish_upload_def taken_in_def sbind_Inr [of "move _ _ _"] fail_def split: if_splits)
    from end' have "rw_spool w' = rw_spool w4"
      by (auto simp: sbind_Inr local_step_def schedule_def validate_remote_run_id_def here_now_def give_def fail_def got_files split: if_splits)
    with moved_files(1) [OF m] written_spool [OF ws] same
    have spool: "rw_spool w' = (rw_spool w)(i := \<lparr>sp_archive = Some b, sp_sidecar = Some (Some (sidecar_of i name t b)), sp_part = None\<rparr>)"
      by simp
    have "run_logs.steady UNIV e (sbind (local_step e (Spool_Timer i (t + retention)) id) (\<lambda>_. sbind (schedule e i) (\<lambda>_. get_run e i)))"
      by (intro run_logs.steps run_logs.steady_schedule run_logs.steady_get_run; simp)
    from run_logs.steadyD [OF this end'] have "rw_log w' ! position w3 = Moved i (taken_in i t b) True \<and> position w3 < position w'"
      using noted [of e w4 w' "position w3"] moved_files(3) [OF m] by (simp add: position_def)
    moreover have "position w \<le> position w3"
    proof -
      have "logs UNIV e w w1" by (rule run_logs.steadyD [OF run_logs.steady_get_run got])
      moreover have "logs UNIV e w2 w3"
        by (rule run_logs.steadyD [OF run_logs.steady_write_spool ws])
      ultimately show ?thesis using moved_files(3) [OF mv] by (auto simp: logs_def position_def)
    qed
    ultimately show ?thesis using spool written_spool [OF ws] by auto
  qed
qed

section \<open>Steps that copy nothing\<close>

text \<open>What was written into the copy on the target.\<close>

fun copied_op :: "rr_event \<Rightarrow> sink_op list" where
  "copied_op (Asked pl i (Sink_Step j op)) = [op]"
| "copied_op _ = []"

definition copied :: "rr_event list \<Rightarrow> sink_op list" where "copied evs = concat (map copied_op evs)"

lemma copied_simps [simp]: "copied [] = []" "copied (ev # evs) = copied_op ev @ copied evs" "copied (a @ b) = copied a @ copied b"
  by (simp_all add: copied_def)

definition copies :: "rr_world \<Rightarrow> rr_world \<Rightarrow> sink_op list \<Rightarrow> bool" where
  "copies w w' ops \<longleftrightarrow> (\<exists>evs. rw_log w' = rw_log w @ evs \<and> copied evs = ops)"

lemma copies_trans: "copies w w' a \<Longrightarrow> copies w' w'' b \<Longrightarrow> copies w w'' (a @ b)"
  by (auto simp: copies_def)

definition copies_nothing :: "'a rr \<Rightarrow> bool" where
  "copies_nothing p \<longleftrightarrow> (\<forall>w r w'. p w = (r, w') \<longrightarrow> copies w w' [] \<and> rw_baseline w' = rw_baseline w)"

lemma copies_nothingD: "copies_nothing p \<Longrightarrow> p w = (r, w') \<Longrightarrow> copies w w' [] \<and> rw_baseline w' = rw_baseline w"
  by (simp add: copies_nothing_def)

lemma nothing_bind: "copies_nothing p \<Longrightarrow> (\<And>x. copies_nothing (f x)) \<Longrightarrow> copies_nothing (sbind p f)"
  unfolding copies_nothing_def
proof (intro allI impI)
  fix w r w'
  assume p: "\<forall>w r w'. p w = (r, w') \<longrightarrow> copies w w' [] \<and> rw_baseline w' = rw_baseline w"
    and f: "\<And>x. \<forall>w r w'. f x w = (r, w') \<longrightarrow> copies w w' [] \<and> rw_baseline w' = rw_baseline w" and run: "sbind p f w = (r, w')"
  obtain y v where v: "p w = (y, v)" by fastforce
  with p have 1: "copies w v []" "rw_baseline v = rw_baseline w" by blast+
  show "copies w w' [] \<and> rw_baseline w' = rw_baseline w"
  proof (cases y)
    case (Inl x)
    with run v 1 show ?thesis by (auto simp: sbind_def)
  next
    case (Inr x)
    with run v have "f x v = (r, w')" by (simp add: sbind_def)
    with f have "copies v w' []" "rw_baseline w' = rw_baseline v" by blast+
    with 1 copies_trans [OF 1(1)] show ?thesis by force
  qed
qed

lemma nothing_catch: "copies_nothing p \<Longrightarrow> (\<And>x. copies_nothing (h x)) \<Longrightarrow> copies_nothing (catch named p h)"
  unfolding copies_nothing_def
proof (intro allI impI)
  fix w r w'
  assume p: "\<forall>w r w'. p w = (r, w') \<longrightarrow> copies w w' [] \<and> rw_baseline w' = rw_baseline w"
    and h: "\<And>x. \<forall>w r w'. h x w = (r, w') \<longrightarrow> copies w w' [] \<and> rw_baseline w' = rw_baseline w" and run: "catch named p h w = (r, w')"
  obtain y v where v: "p w = (y, v)" by fastforce
  with p have 1: "copies w v []" "rw_baseline v = rw_baseline w" by blast+
  show "copies w w' [] \<and> rw_baseline w' = rw_baseline w"
  proof (cases "\<exists>x. y = Inl x \<and> named x")
    case True
    then obtain x where "h x v = (r, w')" using run v by (auto simp: catch_def)
    with h have "copies v w' []" "rw_baseline w' = rw_baseline v" by blast+
    with 1 copies_trans [OF 1(1)] show ?thesis by force
  next
    case False
    then have "v = w'" using run v by (cases y) (auto simp: catch_def split: if_splits)
    with 1 show ?thesis by simp
  qed
qed

lemma nothing_pure:
  "copies_nothing (give x)" "copies_nothing (fail x')" "copies_nothing (lift r)" "copies_nothing (here_now f)"
  by (auto simp: copies_nothing_def copies_def give_def fail_def lift_def here_now_def)

lemma nothing_split:
  "(b \<Longrightarrow> copies_nothing p) \<Longrightarrow> (\<not> b \<Longrightarrow> copies_nothing q) \<Longrightarrow> copies_nothing (if b then p else q)"
  "copies_nothing p \<Longrightarrow> (\<And>x. copies_nothing (f x)) \<Longrightarrow> copies_nothing (case o' of None \<Rightarrow> p | Some x \<Rightarrow> f x)"
  "(\<And>x y. copies_nothing (g x y)) \<Longrightarrow> copies_nothing (case pr of (x, y) \<Rightarrow> g x y)"
  by (auto split: option.splits prod.splits)

lemma nothing_step:
  "copies_nothing (look e f)" "copied_op (Asked pl i c) = [] \<Longrightarrow> copies_nothing (ask_target e pl i c answer)" "copies_nothing (move e i ch)"
  by (auto simp: copies_nothing_def copies_def look_def ask_target_def move_def Let_def split: sum.splits prod.splits)

lemmas nothings = nothing_pure nothing_bind nothing_split nothing_catch nothing_step

lemma nothing_get_run: "copies_nothing (get_run e i)"
  unfolding get_run_def validate_remote_run_id_def by (intro nothings)

lemma nothing_backend: "copies_nothing (target_backend m c)"
  unfolding target_backend_def by (intro nothings)

lemma nothing_cancel: "copies_nothing (check_cancel e)" "copies_nothing (superseded e)"
  unfolding superseded_def check_cancel_def by (intro nothings)+

lemma nothing_written:
  "copies_nothing (write_source_metadata m e v cwd x)" "copies_nothing (write_metadata m e v nm j)" "copies_nothing (create_layout e pl v cwd)"
  "copies_nothing (ensure_target_capacity m e v n)"
  unfolding write_source_metadata_def write_metadata_def create_layout_def Let_def ensure_target_capacity_def
  by (intro nothings nothing_backend; simp)+

lemma nothing_started: "copies_nothing (start_materialized_run m e v)"
proof -
  have a: "copies_nothing (apply_remote_status e r st)" for r st
    unfolding apply_remote_status_def Let_def by (intro nothings)
  have r: "copies_nothing (reconcile_start_exception m e v x)" for x
    unfolding reconcile_start_exception_def Let_def target_status_def by (intro nothings a nothing_get_run nothing_backend; simp)
  show ?thesis
    unfolding start_materialized_run_def Let_def mark_starting_def start_with_reconciliation_def
    by (intro nothings r nothing_backend nothing_cancel; simp)
qed

section \<open>The copy of a Workspace\<close>

lemma copied_entries:
  assumes "copy_entries m e pl i read xs w = (Inr ys, w')"
  shows "\<exists>cs. traverse (copy_entry (rm_sha m) read) xs = Inr cs \<and> map fst cs = ys \<and> copies w w' (map snd cs) \<and> rw_baseline w' = rw_baseline w"
  using assms
proof (induction xs arbitrary: w ys)
  case Nil
  then show ?case by (auto simp: give_def copies_def)
next
  case (Cons x xs)
  from Cons.prems obtain w1 x' op rest w2 where c: "check_cancel e w = (Inr (), w1)" and x: "copy_entry (rm_sha m) read x = Inr (x', op)"
    and ys: "ys = x' # rest" and run: "ask_target e pl i (Sink_Step i op) (re_done e) w1 = (Inr (), w2)" "copy_entries m e pl i read xs w2 = (Inr rest, w')"
    by (auto simp: sbind_Inr lift_def give_def split: sum.splits)
  from Cons.IH [OF run(2)] obtain cs where cs: "traverse (copy_entry (rm_sha m) read) xs = Inr cs" "map fst cs = rest"
    "copies w2 w' (map snd cs)" "rw_baseline w' = rw_baseline w2" by blast
  from run(1) have "copies w1 w2 [op]" "rw_baseline w2 = rw_baseline w1" by (auto simp: ask_target_def copies_def)
  moreover have "copies w w1 []" "rw_baseline w1 = rw_baseline w" using copies_nothingD [OF nothing_cancel(1) c] by simp_all
  ultimately have "copies w w' (map snd ((x', op) # cs))" "rw_baseline w' = rw_baseline w"
    using copies_trans [of w w1 "[]" w2 "[op]"] copies_trans [of w w2 "[op]" w' "map snd cs"] cs by simp_all
  then show ?case using x cs ys by (intro exI [of _ "(x', op) # cs"]) simp
qed

lemma copied_snapshot:
  assumes "materialize_snapshot m e pl i scanned read w = (Inr final, w')"
  shows "\<exists>ops. materialize_workspace_snapshot (rm_alpha m) (rm_casefold m) (rm_sha m) scanned read = Inr (final, ops)
    \<and> copies w w' ops \<and> rw_baseline w' = rw_baseline w"
proof -
  from assms obtain manifest copied where 1: "built_manifest m (wm_entries scanned) (wm_excluded scanned) = Inr manifest"
    and 2: "wm_total manifest = wm_total scanned" and 3: "copy_entries m e pl i read (wm_entries manifest) w = (Inr copied, w')"
    and 4: "built_manifest m copied (wm_excluded manifest) = Inr final"
    by (auto simp: materialize_snapshot_def sbind_Inr lift_def fail_def split: if_splits)
  from copied_entries [OF 3] obtain cs where "traverse (copy_entry (rm_sha m) read) (wm_entries manifest) = Inr cs" "map fst cs = copied"
    "copies w w' (map snd cs)" "rw_baseline w' = rw_baseline w" by blast
  with 1 2 4 show ?thesis by (auto simp: materialize_workspace_snapshot_def built_manifest_def split: sum.splits)
qed

lemma manifest_written:
  assumes "write_manifest m e v man w = (Inr (), w')"
  shows "copies w w' [] \<and> (\<exists>b. baseline_bytes (rm_json m) man = Some b \<and> rw_baseline w' = (rw_baseline w)(m_id (rn_row v) := Some b))"
proof -
  from assms obtain w1 b where w1: "write_metadata m e v ''source-manifest.json'' (JArr (map entry_json (wm_entries man))) w = (Inr (), w1)"
    and b: "baseline_bytes (rm_json m) man = Some b" and w': "rw_log w' = rw_log w1 @ [Baseline_Written (m_id (rn_row v))]"
      "rw_baseline w' = (rw_baseline w1)(m_id (rn_row v) := Some b)"
    by (auto simp: write_manifest_def Let_def sbind_Inr here_now_def local_step_def lift_def fail_def split: option.splits)
  have "copies w w1 [] \<and> rw_baseline w1 = rw_baseline w" by (rule copies_nothingD [OF nothing_written(2) w1])
  with b w' show ?thesis by (auto simp: copies_def)
qed

text \<open>What a preparation of a Workspace leaves: a copy made from one scan, and its manifest as the baseline.\<close>

definition copied_from :: "rr_manager \<Rightarrow> workspace_manifest \<Rightarrow> sink_op list \<Rightarrow> bool" where
  "copied_from m man ops \<longleftrightarrow>
    (\<exists>scanned read. materialize_workspace_snapshot (rm_alpha m) (rm_casefold m) (rm_sha m) scanned read = Inr (man, ops))"

lemma materialized:
  assumes "materialize_workspace m e v scan w = (Inr (), w')" and scan: "copies_nothing scan"
  shows "\<exists>man ops b. copied_from m man ops \<and> copies w w' ops \<and> baseline_bytes (rm_json m) man = Some b
    \<and> rw_baseline w' (m_id (rn_row v)) = Some b"
proof -
  let ?i = "m_id (rn_row v)"
  from assms(1) obtain w1 scanned w2 w3 moved w4 w5 w6 pl w7 w8 final w9 where
    r: "check_cancel e w = (Inr (), w1)" "scan w1 = (Inr scanned, w2)" "ensure_target_capacity m e v (wm_total scanned) w2 = (Inr (), w3)"
      "move e ?i (copying (wm_total scanned)) w3 = (Inr moved, w4)" "(if moved then give () else superseded e) w4 = (Inr (), w5)"
      "check_cancel e w5 = (Inr (), w6)" "target_backend m (rn_target v) w6 = (Inr pl, w7)" "ask_target e pl ?i (Open_Sink ?i) (re_done e) w7 = (Inr (), w8)"
    and s: "materialize_snapshot m e pl ?i scanned (re_read e (position w8)) w8 = (Inr final, w9)" and man: "write_manifest m e v final w9 = (Inr (), w')"
    by (auto simp: materialize_workspace_def Let_def sbind_Inr here_now_def)
  have sup: "copies_nothing (if moved then give () else superseded e)" by (intro nothings nothing_cancel)
  have ask: "copies_nothing (ask_target e pl ?i (Open_Sink ?i) (re_done e))" by (intro nothings) simp
  note t = copies_trans [where a = "[]" and b = "[]", simplified]
  note c = copies_nothingD [OF nothing_cancel(1) r(1)] copies_nothingD [OF scan r(2)] copies_nothingD [OF nothing_written(4) r(3)]
      copies_nothingD [OF nothing_step(3) r(4)] copies_nothingD [OF sup r(5)] copies_nothingD [OF nothing_cancel(1) r(6)]
      copies_nothingD [OF nothing_backend r(7)] copies_nothingD [OF ask r(8)]
  note c' = c [THEN conjunct1]
  have "copies w w8 []"
    by (rule t [OF t [OF t [OF t [OF t [OF t [OF t [OF c'(1,2)] c'(3)] c'(4)] c'(5)] c'(6)] c'(7)] c'(8)])
  moreover from copied_snapshot [OF s] obtain ops where "materialize_workspace_snapshot (rm_alpha m) (rm_casefold m) (rm_sha m) scanned
      (re_read e (position w8)) = Inr (final, ops)" "copies w8 w9 ops" by blast
  moreover from manifest_written [OF man] obtain b where "copies w9 w' []" "baseline_bytes (rm_json m) final = Some b"
    "rw_baseline w' ?i = Some b" by auto
  moreover have "copies w w' ops"
    using copies_trans [of w w8 "[]" w9 ops] copies_trans [of w w9 ops w' "[]"] calculation by simp
  ultimately show ?thesis unfolding copied_from_def by blast
qed

lemma lift_Inr: "lift r w = (Inr x, w') \<longleftrightarrow> r = Inr x \<and> w' = w"
  by (auto simp: lift_def)

lemma opened_source:
  assumes "open_source m e v ws path included w = (Inr scan, w')"
  shows "copies_nothing scan \<and> w' = w"
  using assms
  by (auto simp: open_source_def Let_def sbind_Inr here_now_def lift_Inr give_def fail_def nothing_pure nothing_step
      split: view_path.splits if_splits)

text \<open>When the preparation of a Workspace Source got as far as the start, the baseline kept for the collection of results
  is the text of a manifest that describes, entry by entry, exactly what was written to the target; and it is read back
  as that manifest.\<close>

theorem baseline_describes_the_copy:
  assumes digests: "\<forall>b. hex_digest (rm_sha m b)" and folds: "folds_digests (rm_casefold m)" and depth: "3 \<le> jr_depth (rm_json m)"
    and run: "prepare_workspace m e v w = (Inr (), w')"
  shows "\<exists>man ops b. copies w w' ops \<and> list_all2 (describes (rm_sha m)) (wm_entries man) ops
    \<and> rw_baseline w' (m_id (rn_row v)) = Some b \<and> baseline_bytes (rm_json m) man = Some b
    \<and> ((\<forall>x \<in> set (wm_entries man). short_int (we_size x) \<and> short_int (we_mtime x)) \<longrightarrow> collection_manifest (rm_json m) (Some b) = Inr (Some man))"
proof -
  let ?i = "m_id (rn_row v)" and ?path = "text_or_dot (m_source_path (rn_row v))"
  let ?extra = "[(u ''workspace_id'', text_or_none (m_source_workspace (rn_row v))), (u ''path'', JStr ?path)]"
  note t = copies_trans [where a = "[]" and b = "[]", simplified]
  from run obtain w1 found w2 ws w3 included w4 pl w5 ly w6 s w7 where
    p: "check_cancel e w = (Inr (), w1)" "look e (require (rm_here m) (rm_base m) (re_fs e (position w1)) (case m_source_workspace (rn_row v) of None \<Rightarrow> u ''None'' | Some i \<Rightarrow> i)) w1 = (Inr found, w2)"
      "lift (case found of Inl x \<Rightarrow> Inl (ws_fault x) | Inr ws \<Rightarrow> Inr ws) w2 = (Inr ws, w3)"
      "lift (case source_options m (rn_row v) of Inl x \<Rightarrow> Inl x | Inr es \<Rightarrow> included_paths m es) w3 = (Inr included, w4)"
      "target_backend m (rn_target v) w4 = (Inr pl, w5)" "create_layout e pl v dot w5 = (Inr ly, w6)"
    and o: "open_source m e v ws ?path included w6 = (Inr s, w7)"
    and rest: "sbind (materialize_workspace m e v s) (\<lambda>_. sbind (check_cancel e) (\<lambda>_. sbind (ask_target e pl ?i (Commit_Snapshot ?i) (re_done e))
      (\<lambda>_. sbind (write_source_metadata m e v dot ?extra) (\<lambda>_. start_materialized_run m e v)))) w7 = (Inr (), w')"
    by (auto simp: prepare_workspace_def Let_def sbind_Inr here_now_def)
  note c = copies_nothingD [OF nothing_cancel(1) p(1)] copies_nothingD [OF nothing_step(1) p(2)] copies_nothingD [OF nothing_pure(3) p(3)]
    copies_nothingD [OF nothing_pure(3) p(4)] copies_nothingD [OF nothing_backend p(5)] copies_nothingD [OF nothing_written(3) p(6)]
  note c' = c [THEN conjunct1]
  have before: "copies w w6 []" by (rule t [OF t [OF t [OF t [OF t [OF c'(1,2)] c'(3)] c'(4)] c'(5)] c'(6)])
  from rest obtain w8 w9 w10 w11 where mat: "materialize_workspace m e v s w7 = (Inr (), w8)" and q: "check_cancel e w8 = (Inr (), w9)"
      "ask_target e pl ?i (Commit_Snapshot ?i) (re_done e) w9 = (Inr (), w10)"
      "write_source_metadata m e v dot ?extra w10 = (Inr (), w11)" "start_materialized_run m e v w11 = (Inr (), w')"
    by (auto simp: sbind_Inr)
  have ask: "copies_nothing (ask_target e pl ?i (Commit_Snapshot ?i) (re_done e))" by (intro nothings) simp
  note d = copies_nothingD [OF nothing_cancel(1) q(1)] copies_nothingD [OF ask q(2)] copies_nothingD [OF nothing_written(1) q(3)]
    copies_nothingD [OF nothing_started q(4)]
  have after: "copies w8 w' []" "rw_baseline w' = rw_baseline w8"
    using t [OF t [OF t [OF d(1)[THEN conjunct1] d(2)[THEN conjunct1]] d(3)[THEN conjunct1]] d(4)[THEN conjunct1]] d by simp_all
  from opened_source [OF o] materialized [OF mat] obtain man ops b where man: "copied_from m man ops" "copies w6 w8 ops"
    "baseline_bytes (rm_json m) man = Some b" "rw_baseline w8 ?i = Some b" by blast
  have ops: "copies w w' ops"
    using copies_trans [OF copies_trans [OF before man(2)] after(1)] by simp
  from man(1) obtain scanned read where snap: "materialize_workspace_snapshot (rm_alpha m) (rm_casefold m) (rm_sha m) scanned read = Inr (man, ops)"
    by (auto simp: copied_from_def)
  have all: "list_all2 (describes (rm_sha m)) (wm_entries man) ops" by (rule snapshot_describes [OF digests folds snap])
  have "we_digest x \<noteq> None" if "x \<in> set (wm_entries man)" "we_kind x = File_Kind" for x
  proof -
    from all that(1) obtain op where "describes (rm_sha m) x op" by (auto simp: list_all2_conv_all_nth in_set_conv_nth)
    with that(2) show ?thesis by (cases op) auto
  qed
  moreover from snap obtain entries excluded where "build_workspace_manifest (jr_alpha (rm_json m)) (jr_casefold (rm_json m)) entries excluded = Inr man"
    by (auto simp: materialize_workspace_snapshot_def rbind_Inr_iff rm_alpha_def rm_casefold_def split: if_splits)
  ultimately have "collection_manifest (rm_json m) (Some b) = Inr (Some man)"
    if "\<forall>x \<in> set (wm_entries man). short_int (we_size x) \<and> short_int (we_mtime x)"
    using baseline_round_trip [OF _ _ depth _ that man(3)] folds unfolding rm_casefold_def by blast
  with ops all man(3,4) after(2) show ?thesis by metis
qed

end
