(* ===== verification/Remote_Run_Samples.thy ===== *)
theory Remote_Run_Samples
  imports Remote_Run_Properties Remote_Run_Copy
begin

text \<open>
  Runs on an SSH target and on a Node in the sample database, and surroundings that answer the same at every position of
  the log; the properties of the Remote Runs are applied to them.
\<close>

section \<open>Surroundings\<close>

definition the_run :: ustr where "the_run = zero_uuid 51"

lemma the_run_text [simp]: "uuid4_text the_run"
  by (simp add: the_run_def)

definition control :: "bool \<Rightarrow> control_answer" where
  "control success = \<lparr>ca_completed = False, ca_done = success, ca_layout_missing = False, ca_tmux_exists = True, ca_tmux_running = True\<rparr>"

definition calm :: rr_env where
  "calm = \<lparr>re_meanwhile = (\<lambda>_ s. s), re_now = (\<lambda>_. 1000), re_tick = (\<lambda>_. 0), re_id = (\<lambda>_. zero_uuid 49),
     re_live = (\<lambda>_. False), re_cancel = (\<lambda>_. False), re_capable = (\<lambda>_. True), re_source_capable = (\<lambda>_. True),
     re_preflight = (\<lambda>_. Inr \<lparr>pf_base = u ''/srv'', pf_git = u ''/usr/bin/git'', pf_available = None, pf_warnings = []\<rparr>),
     re_layout = (\<lambda>_. Inr \<lparr>ly_metadata = u ''/r'', ly_staging = u ''/r/work''\<rparr>),
     re_git = (\<lambda>_. Inr \<lparr>gp_git = u ''/usr/bin/git'', gp_askpass = u ''/r/askpass'', gp_home = u ''/r/home'', gp_destination = u ''/r/work''\<rparr>),
     re_done = (\<lambda>_. Inr ()), re_scan = (\<lambda>_. Inr one_file), re_read = (\<lambda>_. growing),
     re_status = (\<lambda>_. Inl (plain_error Ssh_Error [])), re_control = (\<lambda>_. Inr (control True)), re_exists = (\<lambda>_. Inr True),
     re_shell = (\<lambda>_. Inl (plain_error Ssh_Error [])), re_draws = (\<lambda>_. some_draws), re_ids = (\<lambda>_ _. zero_uuid 50), re_fs = (\<lambda>_. []), re_link_time = (\<lambda>_ _. 0)\<rparr>"

lemma calm_simps [simp]:
  "re_meanwhile calm n s = s" "re_now calm n = 1000" "re_id calm n = zero_uuid 49" "re_live calm n = False" "re_cancel calm n = False"
  "re_preflight calm n = Inr \<lparr>pf_base = u ''/srv'', pf_git = u ''/usr/bin/git'', pf_available = None, pf_warnings = []\<rparr>"
  "re_layout calm n = Inr \<lparr>ly_metadata = u ''/r'', ly_staging = u ''/r/work''\<rparr>"
  "re_git calm n = Inr \<lparr>gp_git = u ''/usr/bin/git'', gp_askpass = u ''/r/askpass'', gp_home = u ''/r/home'', gp_destination = u ''/r/work''\<rparr>"
  "re_done calm n = Inr ()" "re_scan calm n = Inr one_file" "re_read calm n = growing" "re_control calm n = Inr (control True)" "re_fs calm n = []"
  by (simp_all add: calm_def)

lemma calm_forward [simp]: "others_forward calm k"
  by (simp add: others_forward_def forward_refl)

definition sample_manager :: rr_manager where
  "sample_manager = \<lparr>rm_here = [], rm_base = [], rm_private = [], rm_nodes = True, rm_max = 100, rm_room = 900, rm_json = sample_rules,
     rm_git = plain_rules, rm_sha = zeros, rm_zip = undefined, rm_message = u\<rparr>"

lemma sample_manager_simps [simp]:
  "rm_here sample_manager = []" "rm_base sample_manager = []" "rm_nodes sample_manager" "rm_max sample_manager = 100"
  "rm_json sample_manager = sample_rules" "rm_git sample_manager = plain_rules" "rm_sha sample_manager = zeros" "rm_message sample_manager = u"
  by (simp_all add: sample_manager_def)

section \<open>A database with one run\<close>

definition with_run :: "remote_run_row \<Rightarrow> store" where "with_run r = sample_store\<lparr>remote_runs := [r]\<rparr>"

definition at_run :: "remote_run_row \<Rightarrow> rr_event list \<Rightarrow> rr_world" where
  "at_run r l = \<lparr>rw_store = with_run r, rw_log = l, rw_spool = (\<lambda>_. no_spool), rw_baseline = (\<lambda>_. None)\<rparr>"

definition git_run :: remote_run_row where
  "git_run = sample_remote_run\<lparr>m_id := the_run, m_workspace := None, m_url := Some sample_url, m_target := u ''c2'',
     m_state := Preparing, m_phase := Some (u ''cloning''), m_started := None\<rparr>"

lemma with_run_ok:
  assumes "m_workspace r = None" "m_source_workspace r = None" "m_target r \<in> {u ''c1'', u ''c2''}" "archive_format_ok (m_kind r) (m_format r)"
  shows "store_ok (with_run r)"
  using assms sample_store_ok
  by (auto simp: store_ok_def table_ok_defs with_run_def sample_defs)

lemma position_at [simp]: "position (at_run r l) = length l"
  by (simp add: position_def at_run_def)

lemma pass_at [simp]: "pass calm ev (at_run r l) = at_run r (l @ [ev])"
  by (simp add: pass_def at_run_def)

lemma at_log [simp]: "rw_log (at_run r l) = l" "rw_store (at_run r l) = with_run r"
  by (simp_all add: at_run_def)

lemma at_run_log [simp]: "at_run r l = at_run r l' \<longleftrightarrow> l = l'"
  by (auto simp: at_run_def)

lemma get_computer_with [simp]: "get_computer (u ''c1'') (with_run r) = Some sample_computer" "get_computer (u ''c2'') (with_run r) = Some sample_node"
  by (simp_all add: get_computer_def with_run_def)

definition target_of :: "remote_run_row \<Rightarrow> computer_row" where "target_of r = (if m_target r = u ''c1'' then sample_computer else sample_node)"

lemma get_run_at:
  assumes "m_id r = the_run" "m_target r \<in> {u ''c1'', u ''c2''}"
  shows "get_run calm the_run (at_run r l) = (Inr \<lparr>rn_row = r, rn_target = target_of r\<rparr>, at_run r (l @ [Looked, Looked]))"
  using assms
  by (auto simp: get_run_def validate_remote_run_id_def sbind_def give_def look_def Let_def get_remote_run_def with_run_def
      target_of_def u_eq_iff get_computer_with [unfolded with_run_def])

lemma ask_at: "ask_target calm pl i c answer (at_run r l) = (answer (length l), at_run r (l @ [Asked pl i c]))"
  by (simp add: ask_target_def)

lemma here_at: "here_now f (at_run r l) = (Inr (f (length l)), at_run r l)"
  by (simp add: here_now_def)

text \<open>A change that applies and ends nothing.\<close>

lemma transition_at:
  assumes r: "m_id r = i" "states_of (rc_expected c) = Some E" "m_state r \<in> E" "phase_matches c r" "\<not> no_remote_changes c"
    and st: "state_given (rc_state c) = Some st" "\<not> terminal_state (given st (m_state r))"
  shows "transition_remote_run 1000 (zero_uuid 49) i c (with_run r) = Inr (True, with_run (apply_remote_change st c r))"
proof -
  let ?r = "apply_remote_change st c r"
  have one: "update_where (\<lambda>m. m_id m = i \<and> m_state m \<in> E \<and> phase_matches c m) (apply_remote_change st c) [r] = [?r]"
    "rowcount (\<lambda>m. m_id m = i \<and> m_state m \<in> E \<and> phase_matches c m) [r] = 1" "find (\<lambda>m. m_id m = i) [r] = Some r"
    using r by (simp_all add: update_where_def rowcount_def)
  have going: "\<not> terminal_state (m_state (fst mt))" if "remote_run_with_target i (with_run ?r) = Some mt" for mt
  proof -
    have hd: "first_row xs = Some x \<Longrightarrow> x \<in> set xs" for xs :: "(remote_run_row \<times> ustr) list" and x
      by (auto simp: first_row_def split: list.splits)
    from hd [OF that [unfolded remote_run_with_target_def]] have "fst mt \<in> set (remote_runs (with_run ?r))" by auto
    then show ?thesis using st(2) by (simp add: with_run_def apply_remote_change_def)
  qed
  have s1: "with_run r\<lparr>remote_runs := [?r]\<rparr> = with_run ?r" "remote_runs (with_run r) = [r]" by (simp_all add: with_run_def)
  show ?thesis
    unfolding transition_remote_run_def r(2) st(1) option.case Let_def s1(2) one s1(1) using r(5) going by (auto split: option.split)
qed

lemma move_at:
  assumes r: "m_id r = i" "states_of (rc_expected c) = Some E" "m_state r \<in> E" "phase_matches c r" "\<not> no_remote_changes c"
    and st: "state_given (rc_state c) = Some st" "\<not> terminal_state (given st (m_state r))"
  shows "move calm i c (at_run r l) = (Inr True, at_run (apply_remote_change st c r) (l @ [Moved i c True]))"
  using transition_at [OF assms] by (simp add: move_def at_run_def pass_def position_def)

lemma preparing_states: "states_of preparing = Some {Preparing}"
  by (simp add: preparing_def states_of_def run_state_of_def u_eq_iff)

lemma run_states [simp]: "run_state_of (u ''preparing'') = Some Preparing" "run_state_of (u ''stopped'') = Some Stopped"
  by (simp_all add: run_state_of_def u_eq_iff)

text \<open>A change of a run that is being prepared and stays so.\<close>

lemma prepare_move:
  assumes "m_id r = the_run" "m_state r = Preparing" "rc_expected c = preparing" "rc_expected_phase c = None" "\<not> no_remote_changes c"
    and "rc_state c = None \<or> rc_state c = Some (u ''preparing'')"
  shows "\<exists>r'. (\<forall>l. move calm the_run c (at_run r l) = (Inr True, at_run r' (l @ [Moved the_run c True])))
    \<and> m_id r' = the_run \<and> m_state r' = Preparing \<and> m_target r' = m_target r \<and> m_base r' = m_base r"
proof -
  define st where "st = (if rc_state c = None then None else Some Preparing)"
  have "state_given (rc_state c) = Some st" "\<not> terminal_state (given st (m_state r))" "given st Preparing = Preparing"
    using assms(2,6) by (auto simp: state_given_def st_def given_def)
  with move_at [OF assms(1), where E = "{Preparing}" and st = st] assms(2-5)
  have "\<forall>l. move calm the_run c (at_run r l) = (Inr True, at_run (apply_remote_change st c r) (l @ [Moved the_run c True]))"
    by (simp add: preparing_states phase_matches_def)
  moreover have "m_id (apply_remote_change st c r) = the_run" "m_state (apply_remote_change st c r) = Preparing"
    "m_target (apply_remote_change st c r) = m_target r" "m_base (apply_remote_change st c r) = m_base r"
    using assms(1,2) \<open>given st Preparing = Preparing\<close> by (simp_all add: apply_remote_change_def)
  ultimately show ?thesis by blast
qed

section \<open>Starting a run on a Node\<close>

lemma git_run_simps [simp]: "m_id git_run = the_run" "m_target git_run = u ''c2''" "m_state git_run = Preparing" "m_kind git_run = Git_Source"
  "m_url git_run = Some sample_url" "m_base git_run = u ''/srv''"
  "m_command git_run = u ''make''" "m_workspace git_run = None" "m_source_workspace git_run = None" "m_format git_run = None"
  by (simp_all add: git_run_def sample_remote_run_def)

lemma sample_node_method [simp]: "c_method sample_node = Node_Method" "c_method sample_computer = Ssh_Method"
  by (simp_all add: sample_node_def sample_computer_def)

lemma changing [simp]: "\<not> no_remote_changes (start_unknown (Some (u ''starting'')) None)"
  "\<not> no_remote_changes ((expecting_run preparing)\<lparr>rc_error := Some None, rc_detail := Some None\<rparr>)"
  by (simp_all add: no_remote_changes_def start_unknown_def expecting_run_def)

definition start_log :: "rr_event list" where
  "start_log = [Looked, Looked, Asked Node_Target the_run (Preflight (Some (u ''/srv'')) True),
     Asked Node_Target the_run (Create_Layout the_run (u ''/srv'') (u ''make'') dot), Asked Node_Target the_run (Git_Parameters the_run)]"

lemma git_started:
  "\<exists>evs r. prepare_run sample_manager calm the_run (at_run git_run []) = (Inr (), at_run r (start_log @ evs))
     \<and> m_id r = the_run \<and> m_state r = Preparing \<and> m_target r = u ''c2''
     \<and> length evs = 5 \<and> (\<exists>c. evs ! 2 = Asked Node_Target the_run (Start_Git_Run the_run c))"
proof -
  let ?c1 = starting and ?c2 = "(expecting_run preparing)\<lparr>rc_error := Some None, rc_detail := Some None\<rparr>"
    and ?c3 = "(expecting_run preparing)\<lparr>rc_state := Some (u ''preparing''), rc_phase := Some (Some (u ''cloning'')), rc_error := Some None, rc_detail := Some None\<rparr>"
  have n: "\<not> no_remote_changes ?c3" by (simp add: no_remote_changes_def)
  have c: "rc_expected ?c1 = preparing" "rc_expected_phase ?c1 = None" "\<not> no_remote_changes ?c1" "rc_state ?c1 = Some (u ''preparing'')"
    by (simp_all add: starting_def start_unknown_def expecting_run_def no_remote_changes_def)
  have d: "rc_expected ?c2 = preparing" "rc_expected_phase ?c2 = None" "rc_state ?c2 = None" "rc_expected ?c3 = preparing"
    "rc_expected_phase ?c3 = None" "rc_state ?c3 = Some (u ''preparing'')"
    by (simp_all add: expecting_run_def)
  from prepare_move [of git_run ?c1] c obtain s1 where m1: "\<forall>l. move calm the_run ?c1 (at_run git_run l) = (Inr True, at_run s1 (l @ [Moved the_run ?c1 True]))"
    and s1: "m_id s1 = the_run" "m_state s1 = Preparing" "m_target s1 = u ''c2''" by auto
  from prepare_move [OF s1(1,2), of ?c2] d obtain s2 where m2: "\<forall>l. move calm the_run ?c2 (at_run s1 l) = (Inr True, at_run s2 (l @ [Moved the_run ?c2 True]))"
    and s2: "m_id s2 = the_run" "m_state s2 = Preparing" "m_target s2 = u ''c2''" using s1(3) by auto
  from prepare_move [OF s2(1,2), of ?c3] d n obtain s3 where m3: "\<forall>l. move calm the_run ?c3 (at_run s2 l) = (Inr True, at_run s3 (l @ [Moved the_run ?c3 True]))"
    and s3: "m_id s3 = the_run" "m_state s3 = Preparing" "m_target s3 = u ''c2''" using s2(3) by auto
  have "sample_url \<noteq> []" by (simp add: sample_url_def u_def)
  then have "\<exists>evs. prepare_run sample_manager calm the_run (at_run git_run []) = (Inr (), at_run s3 (start_log @ evs))
      \<and> length evs = 5 \<and> (\<exists>c. evs ! 2 = Asked Node_Target the_run (Start_Git_Run the_run c))"
    by (simp add: prepare_run_def prepare_sync_def prepare_git_def catch_def sbind_def get_run_at target_of_def Let_def check_cancel_def here_at
        target_backend_def ask_at create_layout_def clone_parameters_def lift_def sample_clone write_source_metadata_def write_metadata_def
        mark_starting_def m1 m2 m3 s3 start_with_reconciliation_def starting_def [symmetric] start_log_def)
  with s3 show ?thesis by blast
qed

lemma git_run_ok: "store_ok (rw_store (at_run git_run l))"
  unfolding at_log by (rule with_run_ok) (simp_all add: archive_format_ok_def)

theorem recorded_first_witness:
  "\<exists>w c. w = fold (serve sample_manager calm) [Do_Prepare the_run] (at_run git_run [])
     \<and> rw_log w ! 7 = Asked Node_Target the_run (Start_Git_Run the_run c) \<and> rw_log w ! 6 = Moved the_run starting True"
proof -
  let ?w = "fold (serve sample_manager calm) [Do_Prepare the_run] (at_run git_run [])"
  from git_started obtain evs r c where r: "prepare_run sample_manager calm the_run (at_run git_run []) = (Inr (), at_run r (start_log @ evs))"
    and e: "length evs = 5" "evs ! 2 = Asked Node_Target the_run (Start_Git_Run the_run c)" by blast
  have l: "length start_log = 5" by (simp add: start_log_def)
  have at: "rw_log ?w ! 7 = Asked Node_Target the_run (Start_Git_Run the_run c)" "7 < position ?w"
    using e by (simp_all add: r nth_append l)
  have "rw_log ?w ! (7 - 1) = Moved the_run starting True"
    using start_is_recorded_first [of "at_run git_run []" 7 sample_manager calm "[Do_Prepare the_run]", OF _ at(1) at(2)] by simp
  with at(1) show ?thesis by simp
qed

section \<open>Ending a run\<close>

definition in_world :: "remote_run_row \<Rightarrow> rr_world \<Rightarrow> bool" where
  "in_world r w \<longleftrightarrow> remote_runs (rw_store w) = [r] \<and> computers (rw_store w) = [sample_computer, sample_node]"

lemma in_world_at [simp]: "in_world r (at_run r l)"
  by (simp add: in_world_def with_run_def)

lemma in_world_pass [simp]: "in_world r (pass calm ev w) = in_world r w"
  by (simp add: in_world_def pass_def)

lemma get_run_in:
  assumes "in_world r w" "m_id r = the_run" "m_target r \<in> {u ''c1'', u ''c2''}"
  shows "get_run calm the_run w = (Inr \<lparr>rn_row = r, rn_target = target_of r\<rparr>, pass calm Looked (pass calm Looked w))"
  using assms
  by (auto simp: get_run_def validate_remote_run_id_def sbind_def give_def look_def Let_def get_remote_run_def in_world_def pass_def
      target_of_def u_eq_iff get_computer_def)

lemma end_move:
  assumes r: "m_id r = the_run" "m_state r \<in> {Preparing, Running}" "m_target r \<in> {u ''c1'', u ''c2''}"
    and c: "states_of (rc_expected c) = Some E" "m_state r \<in> E" "phase_matches c r" "rc_state c = Some (u ''stopped'')"
  shows "\<exists>w. move calm the_run c (at_run r l) = (Inr True, w) \<and> rw_log w = l @ [Moved the_run c True]
    \<and> in_world (apply_remote_change (Some Stopped) c r) w"
proof -
  let ?r = "apply_remote_change (Some Stopped) c r" and ?p = "\<lambda>m. m_id m = the_run \<and> m_state m \<in> E \<and> phase_matches c m"
  have one: "update_where ?p (apply_remote_change (Some Stopped) c) [r] = [?r]" "rowcount ?p [r] = 1" "find (\<lambda>m. m_id m = the_run) [r] = Some r"
    using r c by (simp_all add: update_where_def rowcount_def)
  have n: "\<not> no_remote_changes c" using c(4) by (simp add: no_remote_changes_def)
  have g: "state_given (rc_state c) = Some (Some Stopped)" using c(4) by (simp add: state_given_def)
  have s1: "with_run r\<lparr>remote_runs := [?r]\<rparr> = with_run ?r" "remote_runs (with_run r) = [r]" by (simp_all add: with_run_def)
  have mt: "remote_run_with_target the_run (with_run ?r) = Some (?r, c_name (target_of r))"
    using r(1,3) by (auto simp: remote_run_with_target_def first_row_def with_run_def target_of_def apply_remote_change_def u_eq_iff)
  let ?e = "remote_run_event 1000 (zero_uuid 49) False ?r (c_name (target_of r))"
  have id: "e_id ?e \<notin> event_ids (with_run ?r)"
    by (simp add: remote_run_event_def Let_def with_run_def) (simp add: zero_uuid_def u_def numeral_eq_Suc)
  have "\<exists>s. insert_event_or_ignore ?e (with_run ?r) = Inr s \<and> remote_runs s = [?r] \<and> computers s = [sample_computer, sample_node]"
    using id by (auto simp: insert_event_or_ignore_def with_run_def)
  moreover have "terminal_state (m_state ?r)" by (simp add: apply_remote_change_def given_def)
  ultimately obtain s where "insert_remote_run_event 1000 (zero_uuid 49) False (?r, c_name (target_of r)) (with_run ?r) = Inr s"
    and s: "remote_runs s = [?r]" "computers s = [sample_computer, sample_node]"
    by (auto simp: insert_remote_run_event_def)
  then have "transition_remote_run 1000 (zero_uuid 49) the_run c (with_run r) = Inr (True, s)"
    unfolding transition_remote_run_def c(1) g option.case Let_def s1(2) one s1(1) mt
    using n r(2) by (auto simp: apply_remote_change_def given_def)
  with s show ?thesis by (simp add: move_def at_run_def pass_def position_def in_world_def)
qed

lemma not_the_run [simp]: "m_target (apply_remote_change st c r) = m_target r" "m_id (apply_remote_change st c r) = m_id r"
  "m_kind (apply_remote_change st c r) = m_kind r"
  by (simp_all add: apply_remote_change_def)

text \<open>The wish to stop is noted; then the run ends.\<close>

lemma wish_at:
  assumes "m_id r = the_run" "m_state r \<in> {Preparing, Running}"
  shows "\<exists>r'. (\<forall>l. request_stop calm the_run t (at_run r l) = (Inr (), at_run r' (l @ [Moved the_run ((expecting_run unfinished)\<lparr>rc_stop := Some (Some t)\<rparr>) True])))
     \<and> m_id r' = the_run \<and> m_state r' = m_state r \<and> m_target r' = m_target r \<and> m_phase r' = m_phase r \<and> m_kind r' = m_kind r"
proof -
  let ?c = "(expecting_run unfinished)\<lparr>rc_stop := Some (Some t)\<rparr>"
  have "move calm the_run ?c (at_run r l) = (Inr True, at_run (apply_remote_change None ?c r) (l @ [Moved the_run ?c True]))" for l
    by (rule move_at [OF assms(1), where E = "{Preparing, Running}"])
       (use assms(2) in \<open>auto simp: unfinished_states expecting_run_def phase_matches_def no_remote_changes_def state_given_def given_def\<close>)
  then show ?thesis
    using assms by (intro exI [of _ "apply_remote_change None ?c r"])
      (simp add: request_stop_def sbind_def give_def, simp add: apply_remote_change_def given_def expecting_run_def)
qed

definition place_of :: "remote_run_row \<Rightarrow> target_place" where
  "place_of r = (if c_method (target_of r) = Node_Method then Node_Target else Ssh_Target)"

lemma backend_at: "sbind (target_backend sample_manager (target_of r)) f = f (place_of r)"
  by (rule ext) (simp add: sbind_def target_backend_def place_of_def give_def)

lemma asked_at: "catch named (sbind (ask_target calm pl i c (\<lambda>_. Inr x)) (\<lambda>a. give (Some a))) h (at_run r l) = (Inr (Some x), at_run r (l @ [Asked pl i c]))"
  by (simp add: catch_def sbind_def ask_at give_def)

lemma control_answers [simp]: "re_control calm = (\<lambda>_. Inr (control True))" "re_done calm = (\<lambda>_. Inr ())"
  by (simp_all add: calm_def)

lemma killed_at:
  assumes "m_id r = the_run" "m_state r \<in> {Preparing, Running}" "m_target r \<in> {u ''c1'', u ''c2''}"
  shows "\<exists>v w. kill_run sample_manager calm the_run (at_run r l) = (Inr v, w) \<and> in_world (rn_row v) w \<and> m_id (rn_row v) = the_run"
proof -
  from wish_at [OF assms(1,2), of "case m_stop r of None \<Rightarrow> 1000 | Some t \<Rightarrow> t"] obtain r1
    where stop: "\<And>l. request_stop calm the_run (case m_stop r of None \<Rightarrow> 1000 | Some t \<Rightarrow> t) (at_run r l)
        = (Inr (), at_run r1 (l @ [Moved the_run ((expecting_run unfinished)\<lparr>rc_stop := Some (Some (case m_stop r of None \<Rightarrow> 1000 | Some t \<Rightarrow> t))\<rparr>) True]))"
      and r1: "m_id r1 = the_run" "m_state r1 \<in> {Preparing, Running}" "m_target r1 \<in> {u ''c1'', u ''c2''}"
    using assms by auto
  let ?c = "stop_change unfinished 1000 ''killed''"
  have c: "states_of (rc_expected ?c) = Some {Preparing, Running}" "m_state r1 \<in> {Preparing, Running}" "phase_matches ?c r1" "rc_state ?c = Some (u ''stopped'')"
    using r1 by (simp_all add: unfinished_states phase_matches_def)
  define l0 where "l0 = l @ [Looked, Looked, Moved the_run ((expecting_run unfinished)\<lparr>rc_stop := Some (Some (case m_stop r of None \<Rightarrow> 1000 | Some t \<Rightarrow> t))\<rparr>) True]"
  define l1 where "l1 = l0 @ [Asked (place_of r) the_run (Kill_Target the_run)]"
  have after: "kill_on_target sample_manager calm \<lparr>rn_row = r, rn_target = target_of r\<rparr> False 1000 (at_run r1 l0)
      = sbind (move calm the_run ?c) (\<lambda>_. get_run calm the_run) (at_run r1 l1)"
    by (simp add: kill_on_target_def Let_def backend_at asked_at assms(1) l1_def sbind_def [of "catch _ _ _"]) (simp add: control_def)
  from end_move [OF r1 c, of l1] obtain w2 where w2: "move calm the_run ?c (at_run r1 l1) = (Inr True, w2)" "in_world (apply_remote_change (Some Stopped) ?c r1) w2"
    by blast
  have run: "ended_run \<lparr>rn_row = r, rn_target = target_of r\<rparr> = False" using assms(2) by (auto simp: ended_run_def)
  show ?thesis
    using get_run_in [OF w2(2)] r1 after w2
    by (simp add: kill_run_def validate_remote_run_id_def sbind_def give_def get_run_at [OF assms(1,3)] run cancel_preparation_def here_at stop l0_def)
qed

lemma calm_silent: "\<not> told_to_stop calm i w w'" "\<not> contradicted calm i w w'"
  by (simp_all add: told_to_stop_def contradicted_def calm_def)

theorem remote_kill_witness:
  "\<exists>v w. kill_run sample_manager calm the_run (at_run git_run []) = (Inr v, w) \<and> m_id (rn_row v) = the_run \<and> ended_run v"
proof -
  from killed_at [of git_run "[]"] obtain v w where k: "kill_run sample_manager calm the_run (at_run git_run []) = (Inr v, w)" "m_id (rn_row v) = the_run"
    by auto
  have "ended_run v" using kill_ends_the_remote_run [OF git_run_ok calm_forward k(1)] calm_silent by blast
  with k show ?thesis by blast
qed

theorem forward_remote_witness:
  "\<exists>r g. get_remote_run the_run (rw_store (fold (serve sample_manager calm) [Do_Prepare the_run, Do_Kill the_run] (at_run git_run []))) = Some g
     \<and> get_remote_run the_run (rw_store (at_run git_run [])) = Some r \<and> keeps_run r g"
proof -
  from git_started obtain evs r where p: "prepare_run sample_manager calm the_run (at_run git_run []) = (Inr (), at_run r (start_log @ evs))"
    and r: "m_id r = the_run" "m_state r = Preparing" "m_target r = u ''c2''" by blast
  from killed_at [OF r(1), of "start_log @ evs"] r obtain v w
    where k: "kill_run sample_manager calm the_run (at_run r (start_log @ evs)) = (Inr v, w)" "in_world (rn_row v) w" "m_id (rn_row v) = the_run" by auto
  have "get_remote_run the_run (rw_store (fold (serve sample_manager calm) [Do_Prepare the_run, Do_Kill the_run] (at_run git_run []))) = Some (rn_row v)"
    using k(2,3) by (simp add: p k(1) in_world_def get_remote_run_def)
  moreover have "\<forall>op \<in> set [Do_Prepare the_run, Do_Kill the_run]. op \<noteq> Do_Retry the_run \<and> (\<forall>q. op = Do_Create q \<longrightarrow> pl_id q \<noteq> the_run)"
    by simp
  ultimately show ?thesis
    using remote_runs_only_move_forward [OF git_run_ok calm_forward, of "[Do_Prepare the_run, Do_Kill the_run]" the_run sample_manager "[]"] by blast
qed

definition waiting_run :: remote_run_row where
  "waiting_run = git_run\<lparr>m_kind := Archive_Source, m_format := Some (u ''zip''), m_url := None, m_target := u ''c1'',
     m_phase := Some (u ''waiting_upload''), m_options := canonical_json sample_rules (JObj [(u ''archive_name'', JStr (u ''a.zip''))])\<rparr>"

lemma waiting_run_simps [simp]: "m_id waiting_run = the_run" "m_target waiting_run = u ''c1''" "m_state waiting_run = Preparing"
  "m_phase waiting_run = Some (u ''waiting_upload'')" "m_kind waiting_run = Archive_Source" "m_format waiting_run = Some (u ''zip'')"
  "m_workspace waiting_run = None" "m_source_workspace waiting_run = None"
  by (simp_all add: waiting_run_def)

lemma waiting_run_ok: "store_ok (rw_store (at_run waiting_run l))"
  unfolding at_log by (rule with_run_ok) (simp_all add: archive_format_ok_def)

theorem stop_witness:
  "\<exists>a w. stop_run sample_manager calm the_run (at_run waiting_run []) = (Inr a, w) \<and> so_stopped a \<and> ended_run (so_run a)"
proof -
  let ?w = "(expecting_run unfinished)\<lparr>rc_stop := Some (Some 1000)\<rparr>"
  from wish_at [of waiting_run 1000] obtain r1
    where stop: "\<And>l. request_stop calm the_run 1000 (at_run waiting_run l) = (Inr (), at_run r1 (l @ [Moved the_run ?w True]))"
      and r1: "m_id r1 = the_run" "m_state r1 \<in> {Preparing, Running}" "m_target r1 \<in> {u ''c1'', u ''c2''}" "m_state r1 = Preparing"
        "m_phase r1 = Some (u ''waiting_upload'')" by auto
  have c: "states_of (rc_expected (withdraw 1000)) = Some {Preparing}" "m_state r1 \<in> {Preparing}" "phase_matches (withdraw 1000) r1"
    "rc_state (withdraw 1000) = Some (u ''stopped'')"
    using r1 by (simp_all add: withdraw_def preparing_states phase_matches_def)
  from end_move [OF r1(1-3) c, of "[Looked, Looked, Moved the_run ?w True]"] obtain w2
    where w2: "move calm the_run (withdraw 1000) (at_run r1 [Looked, Looked, Moved the_run ?w True]) = (Inr True, w2)"
      "rw_log w2 = [Looked, Looked, Moved the_run ?w True, Moved the_run (withdraw 1000) True]"
      "in_world (apply_remote_change (Some Stopped) (withdraw 1000) r1) w2" by auto
  have "\<exists>a. stop_run sample_manager calm the_run (at_run waiting_run []) = (Inr a, pass calm Looked (pass calm Looked w2)) \<and> so_stopped a"
    using get_run_in [OF w2(3)] r1
    by (simp add: stop_run_def validate_remote_run_id_def sbind_def give_def get_run_at ended_run_def here_at stop cancel_preparation_def
        withdraw_def [symmetric] w2(1) answer_stop_def)
  then obtain a where a: "stop_run sample_manager calm the_run (at_run waiting_run []) = (Inr a, pass calm Looked (pass calm Looked w2))" "so_stopped a"
    by blast
  have "rw_log (pass calm Looked (pass calm Looked w2)) ! n \<noteq> Moved the_run (withdraw t) False" if "n < 6" for n t
    using that by (auto simp: w2(2) nth_Cons' numeral_eq_Suc less_Suc_eq)
  moreover have "position (pass calm Looked (pass calm Looked w2)) = 6" by (simp add: position_def w2(2))
  ultimately have "ended_run (so_run a)" using stop_answers_truly [OF waiting_run_ok calm_forward a] by auto
  with a show ?thesis by blast
qed

section \<open>Deleting a run\<close>

definition stopped_run :: remote_run_row where "stopped_run = git_run\<lparr>m_state := Stopped, m_target := u ''c1''\<rparr>"

lemma stopped_run_simps [simp]: "m_id stopped_run = the_run" "m_target stopped_run = u ''c1''" "m_state stopped_run = Stopped" "m_workspace stopped_run = None"
  by (simp_all add: stopped_run_def)

lemma expire_at: "expire_now calm the_run 1000 (at_run stopped_run l) = (Inr True, at_run (stopped_run\<lparr>m_expires := Some 1000\<rparr>) (l @ [Expired_Run the_run True]))"
  by (simp add: expire_now_def update_db_def expire_remote_run_now_def with_run_def at_run_def rowcount_def update_where_def pass_def)

lemma deleted_at: "\<exists>w. delete_local calm the_run (at_run (stopped_run\<lparr>m_expires := Some 1000\<rparr>) l) = (Inr (), w)
    \<and> rw_log w = l @ [Spool_Removed the_run, Workspace_Removed the_run, Record_Deleted the_run]"
  by (simp add: delete_local_def sbind_def remove_spool_def local_step_def at_run_def pass_def update_db_def delete_remote_run_workspace_def
      delete_record_def with_run_def delete_remote_run_def)

theorem record_witness:
  "\<exists>w. w = fold (serve sample_manager calm) [Do_Delete the_run] (at_run stopped_run []) \<and> rw_log w ! 8 = Record_Deleted the_run
     \<and> (\<exists>j pl. j < 8 \<and> rw_log w ! j = Asked pl the_run (Delete_Root the_run))"
proof -
  let ?w = "fold (serve sample_manager calm) [Do_Delete the_run] (at_run stopped_run [])"
  let ?l = "[Looked, Looked, Expired_Run the_run True, Looked, Looked, Asked Ssh_Target the_run (Delete_Root the_run)]"
  obtain w where w: "delete_local calm the_run (at_run (stopped_run\<lparr>m_expires := Some 1000\<rparr>) ?l) = (Inr (), w)"
    "rw_log w = ?l @ [Spool_Removed the_run, Workspace_Removed the_run, Record_Deleted the_run]" using deleted_at by blast
  have t: "target_of (stopped_run\<lparr>m_expires := Some 1000\<rparr>) = target_of stopped_run" "place_of stopped_run = Ssh_Target"
    by (simp_all add: target_of_def place_of_def)
  have log: "rw_log ?w = ?l @ [Spool_Removed the_run, Workspace_Removed the_run, Record_Deleted the_run]"
    by (simp add: request_delete_def validate_remote_run_id_def sbind_def give_def get_run_at ended_run_def here_at expire_at
        backend_at [unfolded sbind_def] t ask_at catch_def w)
  then have at: "rw_log ?w ! 8 = Record_Deleted the_run" "8 < position ?w" by (simp_all add: position_def)
  from record_outlives_the_files [of "at_run stopped_run []" 8 sample_manager calm "[Do_Delete the_run]" the_run, OF _ at]
  obtain j where "j < 8" "(\<exists>pl. rw_log ?w ! j = Asked pl the_run (Delete_Root the_run)) \<or> (\<exists>now. rw_log ?w ! j = Moved the_run (abandon_change now) True)"
    by auto
  moreover have "rw_log ?w ! j \<noteq> Moved the_run x True" if "j < 8" for j x
    unfolding log using that by (auto simp: nth_Cons' numeral_eq_Suc less_Suc_eq)
  ultimately show ?thesis using at(1) by blast
qed

section \<open>An upload\<close>

lemma waiting_options: "source_options sample_manager waiting_run = Inr [(u ''archive_name'', JStr (u ''a.zip''))]"
proof -
  let ?j = "JObj [(u ''archive_name'', JStr (u ''a.zip''))]"
  have "json_ok (jr_shown sample_rules) (jr_read sample_rules) (jr_depth sample_rules) ?j" by (simp add: sample_rules_def)
  from loads_dumps [OF this] have "loads (jr_read sample_rules) (jr_depth sample_rules) (m_options waiting_run) = Inr ?j"
    by (simp add: waiting_run_def canonical_json_def)
  moreover have "m_options waiting_run \<noteq> []" by (simp add: waiting_run_def canonical_json_def)
  ultimately show ?thesis by (simp add: source_options_def Let_def)
qed

lemma zip_name: "validate_zip_filename (rm_casefold sample_manager) (u ''a.zip'') = Inr (u ''a.zip'')" "pure_name (u ''a.zip'') = u ''a.zip''"
  "text_or_empty sample_rules (field (u ''archive_name'') [(u ''archive_name'', JStr (u ''a.zip''))]) = u ''a.zip''"
  by (simp_all add: validate_zip_filename_def contains_control_def rm_casefold_def sample_rules_def ends_with_def u_def
      pure_name_def path_parts_def slash_def dot_def text_or_empty_def field_def falsy_def text_of_def)

definition to_uploading :: remote_change where
  "to_uploading = (uploading_states (u ''waiting_upload''))\<lparr>rc_phase := Some (Some (u ''uploading''))\<rparr>"

lemma to_uploading_at:
  "move calm the_run to_uploading (at_run waiting_run l) = (Inr True, at_run (apply_remote_change (Some Preparing) to_uploading waiting_run) (l @ [Moved the_run to_uploading True]))"
  by (rule move_at [where E = "{Preparing}"])
     (simp_all add: to_uploading_def uploading_states_def expecting_run_def preparing_states phase_matches_def no_remote_changes_def
       state_given_def given_def)

lemma pass_spool: "pass calm ev (w\<lparr>rw_spool := x\<rparr>) = (pass calm ev w)\<lparr>rw_spool := x\<rparr>"
  by (simp add: pass_def position_def)

lemma move_spool: "move calm i c (w\<lparr>rw_spool := x\<rparr>) = (fst (move calm i c w), (snd (move calm i c w))\<lparr>rw_spool := x\<rparr>)"
  by (simp add: move_def Let_def position_def pass_def split: sum.split prod.split)

lemma get_run_spool: "get_run calm i (w\<lparr>rw_spool := x\<rparr>) = (fst (get_run calm i w), (snd (get_run calm i w))\<lparr>rw_spool := x\<rparr>)"
  by (simp add: get_run_def validate_remote_run_id_def sbind_def look_def Let_def pass_spool give_def fail_def split: option.split)

lemma spool_at [simp]: "rw_spool (at_run r l) = (\<lambda>_. no_spool)"
  by (simp add: at_run_def)

lemma validated_sbind: "sbind (validate_remote_run_id the_run) f = f the_run"
  by (rule ext) (simp add: sbind_def validate_remote_run_id_def give_def)

lemma got_sbind:
  assumes "m_id r = the_run" "m_target r \<in> {u ''c1'', u ''c2''}"
  shows "sbind (get_run calm the_run) f (at_run r l) = f \<lparr>rn_row = r, rn_target = target_of r\<rparr> (at_run r (l @ [Looked, Looked]))"
  by (simp add: sbind_def get_run_at [OF assms])

lemma upload_run:
  "\<exists>v w. upload_archive sample_manager calm the_run (u ''a.zip'') [[5, 2], [3]] None (Some 3) (at_run waiting_run []) = (Inr v, w)
     \<and> rw_spool w the_run \<noteq> no_spool"
proof -
  define r1 where "r1 = apply_remote_change (Some Preparing) to_uploading waiting_run"
  have r1: "m_id r1 = the_run" "m_state r1 = Preparing" "m_phase r1 = Some (u ''uploading'')" "m_target r1 = u ''c1''"
    by (simp_all add: r1_def apply_remote_change_def given_def to_uploading_def)
  let ?c = "(uploading_states (u ''uploading''))\<lparr>rc_phase := Some (Some (u ''checking'')), rc_expires := Some None, rc_source_size := Some (Some 3)\<rparr>"
  let ?sp = "\<lparr>sp_archive = Some [5, 2, 3], sp_sidecar = Some (Some (sidecar_of the_run (u ''a.zip'') 1000 [5, 2, 3])), sp_part = None\<rparr>"
  have c: "rc_expected ?c = preparing" "\<not> no_remote_changes ?c" "rc_state ?c = Some (u ''preparing'')" "phase_matches ?c r1"
    by (simp_all add: uploading_states_def expecting_run_def no_remote_changes_def phase_matches_def r1)
  have "move calm the_run ?c (at_run r1 l) = (Inr True, at_run (apply_remote_change (Some Preparing) ?c r1) (l @ [Moved the_run ?c True]))" for l
    by (rule move_at [where E = "{Preparing}"]) (simp_all add: c r1 preparing_states state_given_def given_def)
  moreover have "m_id (apply_remote_change (Some Preparing) ?c r1) = the_run" "m_target (apply_remote_change (Some Preparing) ?c r1) = u ''c1''"
    by (simp_all add: r1)
  ultimately obtain r2 where m2: "\<And>l. move calm the_run ?c (at_run r1 l) = (Inr True, at_run r2 (l @ [Moved the_run ?c True]))"
    and r2: "m_id r2 = the_run" "m_target r2 = u ''c1''" by blast
  have tm: "move calm the_run ((uploading_states (u ''waiting_upload''))\<lparr>rc_phase := Some (Some (u ''uploading''))\<rparr>) (at_run waiting_run l)
      = (Inr True, at_run r1 (l @ [Moved the_run to_uploading True]))" for l
    using to_uploading_at by (simp add: r1_def to_uploading_def)
  have w: "\<exists>l'. write_spool sample_manager calm the_run (u ''a.zip'') [[5, 2], [3]] None (at_run r1 l)
      = (Inr ([5, 2, 3], 1000), (at_run r1 l')\<lparr>rw_spool := (\<lambda>_. no_spool)(the_run := ?sp)\<rparr>)" for l
    by (simp add: write_spool_def sbind_def here_now_def local_step_def lift_def give_def no_spool_def sidecar_of_def pass_spool) blast
  have f: "\<exists>v w. finish_upload calm the_run [5, 2, 3] 1000 ((at_run r1 l)\<lparr>rw_spool := (\<lambda>_. no_spool)(the_run := ?sp)\<rparr>) = (Inr v, w)
      \<and> rw_spool w the_run = ?sp" for l
    using r2 by (simp add: finish_upload_def sbind_def move_spool m2 local_step_def pass_spool schedule_def validate_remote_run_id_def give_def
        here_now_def get_run_spool get_run_at)
  let ?l = "[Looked, Looked, Moved the_run to_uploading True]"
  from w [of ?l] obtain l' where w': "write_spool sample_manager calm the_run (u ''a.zip'') [[5, 2], [3]] None (at_run r1 ?l)
      = (Inr ([5, 2, 3], 1000), (at_run r1 l')\<lparr>rw_spool := (\<lambda>_. no_spool)(the_run := ?sp)\<rparr>)" by blast
  from f [of l'] obtain v w2 where fin: "finish_upload calm the_run [5, 2, 3] 1000 ((at_run r1 l')\<lparr>rw_spool := (\<lambda>_. no_spool)(the_run := ?sp)\<rparr>) = (Inr v, w2)"
    and sp: "rw_spool w2 the_run = ?sp" by blast
  have "upload_archive sample_manager calm the_run (u ''a.zip'') [[5, 2], [3]] None (Some 3) (at_run waiting_run []) = (Inr v, w2)"
    by (simp add: upload_archive_def validated_sbind got_sbind waiting_options zip_name)
       (simp add: sbind_def lift_def zip_name tm catch_def w' fin)
  with sp show ?thesis by (auto simp: no_spool_def)
qed

theorem upload_witness:
  "\<exists>v w. upload_archive sample_manager calm the_run (u ''a.zip'') [[5, 2], [3]] None (Some 3) (at_run waiting_run []) = (Inr v, w)
     \<and> sp_archive (rw_spool w the_run) = Some [5, 2, 3]"
proof -
  from upload_run obtain v w where run: "upload_archive sample_manager calm the_run (u ''a.zip'') [[5, 2], [3]] None (Some 3) (at_run waiting_run []) = (Inr v, w)"
    and "rw_spool w the_run \<noteq> no_spool" by blast
  then have "rw_spool w \<noteq> rw_spool (at_run waiting_run [])" by auto
  with upload_takes_in_what_was_sent [OF run] run show ?thesis by auto
qed

section \<open>A stop that comes too late\<close>

text \<open>Another thread takes in an upload just before the waiting run would be given up.\<close>

definition raced :: rr_env where
  "raced = calm\<lparr>re_meanwhile := (\<lambda>n s. if n = 3
     then (case transition_remote_run 1000 (zero_uuid 49) the_run to_uploading s of Inr (_, t) \<Rightarrow> t | Inl _ \<Rightarrow> s) else s)\<rparr>"

lemma raced_simps [simp]: "re_now raced n = 1000" "re_id raced n = zero_uuid 49" "re_live raced n = False"
  "n \<noteq> 3 \<Longrightarrow> re_meanwhile raced n s = s"
  by (simp_all add: raced_def)

lemma raced_else:
  assumes "position w \<noteq> 3"
  shows "pass raced ev w = pass calm ev w" "move raced i c w = move calm i c w"
proof -
  show p: "pass raced ev w = pass calm ev w" for ev using assms by (simp add: pass_def)
  show "move raced i c w = move calm i c w" using assms by (simp add: move_def p split: sum.split prod.split)
qed

lemma stop_misses_the_upload:
  "\<exists>a w. stop_run sample_manager raced the_run (at_run waiting_run []) = (Inr a, w) \<and> so_stopped a \<and> \<not> ended_run (so_run a)"
proof -
  let ?w = "(expecting_run unfinished)\<lparr>rc_stop := Some (Some 1000)\<rparr>"
  from wish_at [of waiting_run 1000] obtain r1
    where stop: "\<And>l. request_stop calm the_run 1000 (at_run waiting_run l) = (Inr (), at_run r1 (l @ [Moved the_run ?w True]))"
      and r1: "m_id r1 = the_run" "m_target r1 = u ''c1''" "m_state r1 = Preparing" "m_phase r1 = Some (u ''waiting_upload'')" by auto
  define r2 where "r2 = apply_remote_change (Some Preparing) to_uploading r1"
  have r2: "m_id r2 = the_run" "m_target r2 = u ''c1''" "m_state r2 = Preparing" "m_phase r2 = Some (u ''uploading'')"
    using r1 by (simp_all add: r2_def apply_remote_change_def given_def to_uploading_def)
  have up: "transition_remote_run 1000 (zero_uuid 49) the_run to_uploading (with_run r1) = Inr (True, with_run r2)"
    unfolding r2_def
    by (rule transition_at [where E = "{Preparing}"])
       (simp_all add: r1 to_uploading_def uploading_states_def expecting_run_def preparing_states phase_matches_def no_remote_changes_def
         state_given_def given_def)
  have late: "transition_remote_run 1000 (zero_uuid 49) the_run (withdraw 1000) (with_run r2) = Inr (False, with_run r2)"
  proof -
    have "rc_expected (withdraw 1000) = preparing" "state_given (rc_state (withdraw 1000)) = Some (Some Stopped)" "\<not> no_remote_changes (withdraw 1000)"
      "\<not> phase_matches (withdraw 1000) r2"
      by (simp_all add: withdraw_def state_given_def no_remote_changes_def stop_change_def phase_matches_def r2 u_eq_iff)
    then show ?thesis
      by (simp add: transition_remote_run_def preparing_states Let_def with_run_def rowcount_def update_where_def)
  qed
  have got: "get_run raced the_run (at_run r l) = (Inr \<lparr>rn_row = r, rn_target = target_of r\<rparr>, at_run r (l @ [Looked, Looked]))"
    if "m_id r = the_run" "m_target r = u ''c1''" "length l \<noteq> 3" "length l \<noteq> 2" for r l
    using that
    by (simp add: get_run_def validate_remote_run_id_def sbind_def look_def Let_def raced_else give_def get_remote_run_def with_run_def
        target_of_def get_computer_with [unfolded with_run_def])
  have wish: "request_stop raced the_run 1000 (at_run waiting_run [Looked, Looked]) = (Inr (), at_run r1 [Looked, Looked, Moved the_run ?w True])"
    using stop [of "[Looked, Looked]"] by (simp add: request_stop_def sbind_def raced_else)
  have gone: "move raced the_run (withdraw 1000) (at_run r1 [Looked, Looked, Moved the_run ?w True])
      = (Inr False, at_run r2 [Looked, Looked, Moved the_run ?w True, Moved the_run (withdraw 1000) False])"
    using up late by (simp add: move_def raced_def pass_def at_run_def position_def)
  show ?thesis
    by (simp add: stop_run_def validated_sbind sbind_def [of "get_run _ _"] got ended_run_def)
       (simp add: sbind_def here_now_def wish cancel_preparation_def give_def withdraw_def [symmetric] gone answer_stop_def got r2 ended_run_def)
qed

section \<open>The copy of a Workspace\<close>

definition copy_run :: remote_run_row where
  "copy_run = git_run\<lparr>m_kind := Workspace_Source, m_url := None, m_source_workspace := Some (u ''w2''), m_source_path := Some dot\<rparr>"

lemma copy_run_simps [simp]: "m_id copy_run = the_run" "m_target copy_run = u ''c2''" "m_state copy_run = Preparing" "m_source_workspace copy_run = Some (u ''w2'')"
  "m_source_path copy_run = Some dot" "m_url copy_run = None" "m_workspace copy_run = None" "m_base copy_run = u ''/srv''" "m_options copy_run = u ''{}''"
  by (simp_all add: copy_run_def git_run_def sample_remote_run_def)

definition copy_view :: rr_run where "copy_view = \<lparr>rn_row = copy_run, rn_target = sample_node\<rparr>"

lemma copy_view_simps [simp]: "rn_row copy_view = copy_run" "rn_target copy_view = sample_node"
  by (simp_all add: copy_view_def)

lemma source_required:
  "\<exists>ws p. require [] [] [] (u ''w2'') (with_run copy_run) = Inr ws \<and> wv_path ws = Remote_Path p \<and> wv_computer ws = Some sample_computer \<and> w_computer (wv_row ws) = Some (u ''c1'')"
  by (simp add: require_def get_workspace_def with_root_def with_run_def sample_workspace_def sample_remote_workspace_def sample_root_def
      sample_virtual_root_def get_computer_def get_remote_run_for_workspace_def hydrate_workspace_def)

lemma copied_at:
  assumes "traverse (copy_entry zeros growing) xs = Inr cs"
  shows "\<exists>l'. copy_entries sample_manager calm pl i growing xs (at_run r l) = (Inr (map fst cs), at_run r l')"
  using assms
proof (induction xs arbitrary: l cs)
  case Nil
  then show ?case by (auto simp: give_def)
next
  case (Cons x xs)
  then obtain y ys where y: "copy_entry zeros growing x = Inr y" "traverse (copy_entry zeros growing) xs = Inr ys" "cs = y # ys"
    by (auto simp: rbind_Inr_iff)
  from Cons.IH [OF y(2), of "l @ [Asked pl i (Sink_Step i (snd y))]"] obtain l'
    where "copy_entries sample_manager calm pl i growing xs (at_run r (l @ [Asked pl i (Sink_Step i (snd y))])) = (Inr (map fst ys), at_run r l')" by blast
  with y show ?case
    by (cases y) (simp add: sbind_def check_cancel_def here_at give_def lift_def ask_at)
qed

lemma sample_letters [simp]: "rm_alpha sample_manager = ascii_letter" "rm_casefold sample_manager = id"
  by (simp_all add: rm_alpha_def rm_casefold_def) (simp_all add: sample_rules_def)

lemma snapshot_at:
  "\<exists>l'. materialize_snapshot sample_manager calm pl i one_file growing (at_run r l) = (Inr copied_file, at_run r l')"
proof -
  from copied_file_result obtain man cs where built: "built_manifest sample_manager (wm_entries one_file) (wm_excluded one_file) = Inr man"
    and t: "wm_total man = wm_total one_file" and cs: "traverse (copy_entry zeros growing) (wm_entries man) = Inr cs"
    and final: "built_manifest sample_manager (map fst cs) (wm_excluded man) = Inr copied_file"
    by (auto simp: materialize_workspace_snapshot_def rbind_Inr_iff built_manifest_def split: if_splits)
  from copied_at [OF cs] obtain l' where "copy_entries sample_manager calm pl i growing (wm_entries man) (at_run r l) = (Inr (map fst cs), at_run r l')"
    by blast
  then show ?thesis
    by (simp add: materialize_snapshot_def built sbind_def lift_def t final)
qed

text \<open>What happens to a run whose baseline is kept is what happens to it without.\<close>

definition based :: "(ustr \<Rightarrow> bytes option) \<Rightarrow> rr_world \<Rightarrow> rr_world" where "based B w = w\<lparr>rw_baseline := B\<rparr>"

lemma ask_based: "ask_target e pl i c answer (based B w) = (fst (ask_target e pl i c answer w), based B (snd (ask_target e pl i c answer w)))"
  by (simp add: ask_target_def based_def pass_def position_def)

lemma move_based: "move e i c (based B w) = (fst (move e i c w), based B (snd (move e i c w)))"
  by (auto simp: move_def based_def pass_def position_def Let_def split: sum.splits prod.splits)

lemma here_based: "here_now f (based B w) = (fst (here_now f w), based B w)"
  by (simp add: here_now_def based_def position_def)

lemma base_at: "at_run r l = based (\<lambda>_. None) (at_run r l)" "rw_baseline (based B w) = B"
  by (simp_all add: at_run_def based_def)

lemma start_based:
  assumes "m_id r = the_run" "m_state r = Preparing" "m_target r = u ''c2''"
  shows "\<exists>r' l'. start_materialized_run sample_manager calm \<lparr>rn_row = copy_run, rn_target = sample_node\<rparr> (based B (at_run r l)) = (Inr (), based B (at_run r' l'))"
proof -
  let ?c1 = starting and ?c2 = "(expecting_run preparing)\<lparr>rc_error := Some None, rc_detail := Some None\<rparr>"
  have c: "rc_expected ?c1 = preparing" "rc_expected_phase ?c1 = None" "\<not> no_remote_changes ?c1" "rc_state ?c1 = Some (u ''preparing'')"
    by (simp_all add: starting_def start_unknown_def expecting_run_def no_remote_changes_def)
  have d: "rc_expected ?c2 = preparing" "rc_expected_phase ?c2 = None" "rc_state ?c2 = None"
    by (simp_all add: expecting_run_def)
  from prepare_move [of r ?c1] c assms obtain s1 where m1: "\<forall>l. move calm the_run ?c1 (at_run r l) = (Inr True, at_run s1 (l @ [Moved the_run ?c1 True]))"
    and s1: "m_id s1 = the_run" "m_state s1 = Preparing" "m_target s1 = u ''c2''" by auto
  from prepare_move [OF s1(1,2), of ?c2] d obtain s2 where m2: "\<forall>l. move calm the_run ?c2 (at_run s1 l) = (Inr True, at_run s2 (l @ [Moved the_run ?c2 True]))"
    by auto
  show ?thesis
    by (simp add: start_materialized_run_def Let_def mark_starting_def start_with_reconciliation_def sbind_def catch_def check_cancel_def
        here_based here_at move_based starting_def [symmetric] m1 m2 give_def target_backend_def ask_based ask_at) blast
qed

lemma manifest_at:
  assumes "baseline_bytes sample_rules man = Some b"
  shows "\<exists>B l'. write_manifest sample_manager calm copy_view man (at_run r l) = (Inr (), based B (at_run r l')) \<and> B the_run = Some b"
  using assms
  by (simp add: write_manifest_def Let_def write_metadata_def target_backend_def sbind_def give_def ask_at here_at local_step_def lift_def)
     (auto simp: based_def at_run_def)

lemma no_options: "source_options sample_manager copy_run = Inr []" "included_paths sample_manager [] = Inr []"
proof -
  have "loads f 10 (u ''{}'') = Inr (JObj [])" for f
    by (simp add: loads_def u_def) (simp add: numeral_eq_Suc)
  then show "source_options sample_manager copy_run = Inr []" by (simp add: source_options_def) (simp add: sample_rules_def u_def)
  show "included_paths sample_manager [] = Inr []" by (simp add: included_paths_def field_def falsy_def)
qed

lemma materialized_at:
  "\<exists>B r l'. materialize_workspace sample_manager calm copy_view (ask_target calm Ssh_Target the_run k (re_scan calm)) (at_run copy_run l)
      = (Inr (), based B (at_run r l')) \<and> m_id r = the_run \<and> m_state r = Preparing \<and> m_target r = u ''c2''"
proof -
  let ?c = "copying (wm_total one_file)"
  have c: "rc_expected ?c = preparing" "rc_expected_phase ?c = None" "\<not> no_remote_changes ?c" "rc_state ?c = Some (u ''preparing'')"
    by (simp_all add: copying_def expecting_run_def no_remote_changes_def)
  from prepare_move [of copy_run ?c] c obtain r where m: "\<forall>l. move calm the_run ?c (at_run copy_run l) = (Inr True, at_run r (l @ [Moved the_run ?c True]))"
    and r: "m_id r = the_run" "m_state r = Preparing" "m_target r = u ''c2''" by auto
  from copied_file_text obtain b where b: "baseline_bytes sample_rules copied_file = Some b" ..
  let ?l = "l @ [Asked Ssh_Target the_run k, Asked Node_Target the_run (Preflight (Some (u ''/srv'')) False), Moved the_run ?c True,
    Asked Node_Target the_run (Open_Sink the_run)]"
  from snapshot_at obtain l1 where s: "materialize_snapshot sample_manager calm Node_Target the_run one_file growing (at_run r ?l) = (Inr copied_file, at_run r l1)" by blast
  from manifest_at [OF b] obtain B l2 where "write_manifest sample_manager calm copy_view copied_file (at_run r l1) = (Inr (), based B (at_run r l2))" by blast
  then have "materialize_workspace sample_manager calm copy_view (ask_target calm Ssh_Target the_run k (re_scan calm)) (at_run copy_run l)
      = (Inr (), based B (at_run r l2))"
    using s by (simp add: materialize_workspace_def Let_def check_cancel_def sbind_def here_at give_def ask_at ensure_target_capacity_def
        target_backend_def m)
  with r show ?thesis by blast
qed

lemma copy_prepared:
  "\<exists>w. prepare_workspace sample_manager calm copy_view (at_run copy_run []) = (Inr (), w)"
proof -
  from source_required obtain ws p where ws: "require [] [] [] (u ''w2'') (with_run copy_run) = Inr ws" "wv_path ws = Remote_Path p"
    "wv_computer ws = Some sample_computer" "w_computer (wv_row ws) = Some (u ''c1'')" by blast
  have "dot \<noteq> []" by (simp add: dot_def u_def)
  then have d: "text_or_dot (Some dot) = dot" by (simp add: text_or_dot_def)
  let ?l = "[Looked, Asked Node_Target the_run (Create_Layout the_run (u ''/srv'') (m_command copy_run) dot)]" and ?k = "Scan_Source dot [] []"
  from materialized_at obtain B r l where m: "materialize_workspace sample_manager calm copy_view (ask_target calm Ssh_Target the_run ?k (re_scan calm)) (at_run copy_run ?l)
      = (Inr (), based B (at_run r l))" and r: "m_id r = the_run" "m_state r = Preparing" "m_target r = u ''c2''" by blast
  have start: "\<exists>w. start_materialized_run sample_manager calm copy_view (based B (at_run r l)) = (Inr (), w)" for l
    using start_based [OF r, of B l] by (auto simp: copy_view_def)
  show ?thesis
    by (simp add: prepare_workspace_def Let_def d sbind_def check_cancel_def here_at look_def ws lift_def no_options target_backend_def give_def
        create_layout_def ask_at open_source_def same_target_exclusions_def u_eq_iff m here_based ask_based write_source_metadata_def write_metadata_def start)
qed

theorem copied_witness:
  "\<exists>w man ops b. prepare_workspace sample_manager calm copy_view (at_run copy_run []) = (Inr (), w)
     \<and> copies (at_run copy_run []) w ops \<and> list_all2 (describes zeros) (wm_entries man) ops
     \<and> rw_baseline w the_run = Some b \<and> baseline_bytes sample_rules man = Some b"
proof -
  from copy_prepared obtain w where w: "prepare_workspace sample_manager calm copy_view (at_run copy_run []) = (Inr (), w)" ..
  have "3 \<le> jr_depth (rm_json sample_manager)" by simp (simp add: sample_rules_def)
  with baseline_describes_the_copy [of sample_manager, OF _ _ _ w] w show ?thesis
    by (simp add: hex_zeros folds_digests_def) blast
qed

end
