(* ===== verification/Spec2Isabelle.thy ===== *)
theory Spec2Isabelle
  imports Terminal_Control_Laws Run_Properties Terminal_Properties Store_Workspaces Activity_Properties Computer_Properties Store_Machine
    File_Text File_Boundary Source_Snapshot Result_Properties Archive_Properties Session_Properties
    Node_Protocol_Properties Node_Core_Samples Usage_Properties Workspace_Opening File_Run_Samples Remote_Run_Samples
begin

text \<open>
  Verification library for Termroom, a web workspace for terminals, files and remote runs
  (\<^verbatim>\<open>src/termroom\<close>, Python). The root theory imports every other theory and documents the whole.

  \<^bold>\<open>The program.\<close> A browser talks to a FastAPI application (\<^verbatim>\<open>app.py\<close>). All durable state is one SQLite
  database behind \<^verbatim>\<open>db.py\<close> (\<open>StateStore\<close>). Terminals are tmux windows; \<^verbatim>\<open>terminal_control.py\<close> decides which
  connected browser may type and resize. Files of a Workspace are reached through \<^verbatim>\<open>files.py\<close> inside the
  boundary of \<^verbatim>\<open>security.py\<close>. A Remote Run copies a Source (a Workspace folder by \<^verbatim>\<open>run_sources.py\<close>, or a ZIP by
  \<^verbatim>\<open>archive_safety.py\<close>) to another computer, and \<^verbatim>\<open>run_results.py\<close> brings its results back. Other computers
  are SSH hosts or Nodes; a Node pairs once, and then keeps one authenticated WebSocket to the Core
  (\<^verbatim>\<open>node_protocol.py\<close>, \<^verbatim>\<open>node_core.py\<close>).

  \<^bold>\<open>Conventions.\<close> A Python \<^verbatim>\<open>str\<close> is a list of code points (\<open>ustr\<close>), \<^verbatim>\<open>bytes\<close> a list of numbers. An operation
  that may raise returns \<open>error + 'a\<close> and threads its state explicitly; \<open>rbind\<close>, \<open>traverse\<close> and \<open>each\<close>
  (\<open>Prelude\<close>) are its sequencing, a list comprehension that raises and a loop that raises. Times are
  integers passed as arguments, random identifiers are argument streams, and what needs Unicode tables
  (\<^verbatim>\<open>casefold\<close>, NFKC, \<^verbatim>\<open>isalpha\<close>) or cryptography (SHA-256, Ed25519) is a parameter of the definitions.

  \<^bold>\<open>Terminal control\<close> (\<^verbatim>\<open>terminal_control.py\<close>): \<open>Terminal_Control\<close> has the state record of
  \<open>TerminalControl\<close>, one definition per method, and the machine of all its calls; \<open>Terminal_Control_Laws\<close> shows
  which resize may commit, that a fresh grid is bootstrapped once, that connections which neither claim control,
  type nor leave change neither the controller nor the size, and that a revision number identifies the controller.

  \<^bold>\<open>The database\<close> (\<^verbatim>\<open>db.py\<close>): \<open>Schema\<close> has a record per table and the store of all tables;
  \<open>Constraints\<close> has primary keys, unique indexes, foreign keys, checks, and inserts and deletes with their
  cascades; \<open>Tables\<close> and \<open>Samples\<close> hold lookup facts and a concrete store. The operations are in
  \<open>Text_Rules\<close> (names and stored text), \<open>Store_Workspaces\<close>, \<open>Store_Terminals\<close>, \<open>Store_Runs\<close>,
  \<open>Store_Activity\<close>, \<open>Store_Computers\<close> and \<open>Store_Open\<close> (the repairs at start). The \<open>_Laws\<close> theories show
  that each operation keeps \<open>store_ok\<close>, the \<open>_Properties\<close> theories what it does: reconciliation with tmux
  mirrors the live windows, runs end once, claims are exclusive, a pairing code works once, a revoked
  Node stays out. \<open>Store_Machine\<close> composes all operations into one machine and shows that every reachable
  database satisfies every constraint (locale \<open>machine\<close>, interpreted on the store, the computer calls and
  the file calls).

  \<^bold>\<open>Files\<close>: \<open>Python_Text\<close> models the string functions and the UTF-8 codec, \<open>File_System\<close> a file system
  with symbolic links (resolution recurses over the links not yet being expanded, so it ends),
  \<open>Workspace_Files\<close> the operations of \<^verbatim>\<open>files.py\<close> and \<^verbatim>\<open>security.py\<close>, and \<open>File_Text\<close> newlines and previews.
  \<open>File_Properties\<close> shows that a save replaces exactly the version the editor loaded, \<open>File_Boundary\<close> that a
  sequence of calls changes nothing outside the Workspace unless one of them creates a plain file under the name of
  a link (which \<^verbatim>\<open>files.py\<close> follows; \<open>create_leaves_the_workspace\<close> is the example); \<open>File_Laws\<close> and \<open>File_Samples\<close>
  serve both. The content of a file is read and compared in one step (\<open>require_expected_source\<close>): a change between
  the two \<^verbatim>\<open>stat\<close> calls of that read is not modelled, a change between the check and \<^verbatim>\<open>os.replace\<close> is.

  \<^bold>\<open>Sources and results\<close>: \<open>Source_Rules\<close> (paths, links, exclusions, manifests), \<open>Source_Snapshot\<close> (scan and copy of a
  Workspace; the scan recurses as the code does, \<open>room\<close> is what Python's recursion limit leaves and running out of it
  is the \<^verbatim>\<open>RecursionError\<close> of the code; the times of links are a parameter; a scan lists exactly the entries that may
  be copied), \<open>Source_Properties\<close>; \<open>Git_Source\<close> (which repository URLs are accepted, and the clone command);
  \<open>Collection_Baseline\<close> and \<open>Collection_Laws\<close> (the manifest of a Source that is kept for the collection, written as JSON
  and read back); \<open>Archive_Safety\<close> and \<open>Archive_Properties\<close> (validation and extraction of ZIP
  uploads; the checksum is computed on \<open>32 word\<close>); \<open>Result_Plan\<close> and \<open>Result_Properties\<close> (the scan of a result
  tree, the three-way review, and apply, which writes only what the review established).

  \<^bold>\<open>Sessions\<close> (\<^verbatim>\<open>auth.py\<close>): \<open>Python_Int\<close> is \<^verbatim>\<open>int(str)\<close> and \<^verbatim>\<open>str(int)\<close>, \<open>Rate_Limit\<close> the sliding window that login
  and pairing share (locale \<open>rate_limiter\<close>, interpreted for both), \<open>Session_Auth\<close> the session cookie with
  its keyed hash as a parameter; \<open>Session_Properties\<close> shows that an issued session lasts thirty days, that an
  accepted cookie is signed with the key made of the current password and token, and that the wrong guesses between
  two right passwords are limited.

  \<^bold>\<open>Nodes\<close> (\<^verbatim>\<open>node_protocol.py\<close>, \<^verbatim>\<open>node_core.py\<close>): \<open>Json\<close> is the JSON printer and reader (its fuel is the length of
  the input, and its depth argument is the interpreter's recursion limit), \<open>Json_Laws\<close> their round trip,
  \<open>Base64\<close> the codecs of keys and signatures; \<open>Node_Protocol\<close> builds and checks messages, pairing codes and
  challenges. \<open>Node_Connection\<close> is one WebSocket: requests with their futures, streams with bounded queues,
  dispatch and close; each definition is a segment of the code between two awaits, so the machine of
  \<open>Node_Connection_Laws\<close> interleaves them as the event loop may. \<open>Node_Core\<close> is the registry of connections;
  the \<open>_Properties\<close> theories show that a response reaches exactly the request it names, that closing answers
  everyone, that stream data arrives in order, that a Node has one open connection and that revocation
  cuts it off. \<open>Node_Core_Samples\<close> holds concrete runs.

  \<^bold>\<open>Workspace usage\<close> (\<^verbatim>\<open>workspace_usage.py\<close>): \<open>Python_Float\<close> is the arithmetic of doubles (exact rationals, rounded),
  \<open>Workspace_Usage\<close> parses the pane and process snapshots and adds up the process trees below the panes (the
  worklist ends because every step selects a new process or shortens it), \<open>Usage_Service\<close> the bounded cache with
  shared collections; \<open>Usage_Properties\<close> shows that the selected processes are exactly the descendants, which
  snapshots are accepted, and what the cache keeps.

  \<^bold>\<open>The Workspace manager\<close> (\<^verbatim>\<open>workspaces.py\<close>): \<open>Workspace_Manager\<close> composes the store with the file system;
  \<open>Workspace_Opening\<close> shows that every operation keeps the constraints whatever other threads do in between, that
  a folder is registered once, that a new project adds one folder, and that a Remote Run opens its own Workspace.

  \<^bold>\<open>The File Run manager\<close> (\<^verbatim>\<open>file_runs.py\<close>): \<open>File_Run_Manager\<close> has its operations as sequences of calls of the store and
  of the backends (tmux on the server, SSH, a Node); a backend answers by the position of the call in the log and may
  write to the terminal registry. \<open>File_Run_Laws\<close> is the calculus of the relations every piece of an operation
  respects (locale \<open>run_calculus\<close>), \<open>File_Run_Properties\<close> shows that runs only move forward, that a start runs the
  confirmed file and only when the Workspace has no active run, and how failed and killed runs end;
  \<open>File_Run_Samples\<close> has concrete worlds.

  \<^bold>\<open>The Remote Run manager\<close> (\<^verbatim>\<open>remote_runs.py\<close>): \<open>Remote_Run_Manager\<close> (creation, preparation from a Workspace, a
  repository or a ZIP, the start) and \<open>Remote_Run_Control\<close> (upload, following, stop, kill, deletion and expiry, the
  repairs at start, the observer) have its operations as sequences of steps. Before every step other threads may
  change the database (\<open>re_meanwhile\<close>); every step is noted in a log, and the target, the clock and the cancellation
  answer by the position in it. \<open>Remote_Run_Laws\<close> is the calculus of the relations that every step respects (locale
  \<open>rr_calculus\<close>); \<open>Remote_Run_Rows\<close> interprets it for the rows of the runs and \<open>Remote_Run_Log\<close> for the log.
  \<open>Remote_Run_Properties\<close> shows that runs only move forward, that a program is started only in the step after the
  database recorded that its start has begun, and that a record outlives the files on the target;
  \<open>Remote_Run_Ends\<close> what stop and kill leave; \<open>Remote_Run_Copy\<close> that an upload takes in what was sent and that the
  baseline describes the copy; \<open>Remote_Run_Samples\<close> has concrete runs.

  \<^bold>\<open>Not modelled\<close>: the web routes and templates, the shell scripts and processes of the SSH backend, the
  Node agent and its runs, PTYs and tmux commands, the command line, and presentation. They are input and
  output around the modelled decisions; the manifest lists them with reasons. Column migrations of older
  databases and the wall-clock bounded file searches are left out as well, and so are the calls of the Remote Run
  manager that only pass file and log reads to a backend, and its asyncio bookkeeping.
\<close>

end
